(* ===== verification/Prelude.thy ===== *)
theory Prelude
  imports Complex_Main "HOL-Library.Word" "HOL-Library.Sublist"
begin

text \<open>
  What every component of the middleware model shares: JavaScript values as the code
  handles them (\<open>unknown\<close> JSON data), the string and object operations of the language
  that the source uses, exceptions as values, and the generic lemmas on lists and
  association lists that the component theories rest on.

  Conventions. A JavaScript string is a \<open>char list\<close> of code units up to 255. An object
  is the list of its own enumerable entries in insertion order, with distinct keys
  (\<open>wf_val\<close>); integer-like keys, which an engine enumerates first, are not used by the
  modelled code. A number is an exact rational, or one of the three special values.
\<close>

named_theorems obj_simps "reading and writing object entries"
named_theorems exn_simps "sequencing of computations that may throw"

section \<open>Values\<close>

datatype jsnum = NaN | PosInf | NegInf | Fin rat

datatype jsval =
    Undef
  | Null
  | Bool bool
  | Num jsnum
  | Str string
  | Arr "jsval list"
  | Obj "(string \<times> jsval) list"

type_synonym obj = "(string \<times> jsval) list"

abbreviation num :: "rat \<Rightarrow> jsval" where
  "num r \<equiv> Num (Fin r)"

lemma size_obj_entry [termination_simp]:
  assumes "(k, v) \<in> set kvs"
  shows "size v < Suc (size_list (size_prod (\<lambda>x. 0) size) kvs)"
  using assms by (induction kvs) auto

lemma size_obj_snd [termination_simp]:
  assumes "e \<in> set kvs"
  shows "size (snd e) < Suc (size_list (size_prod (\<lambda>x. 0) size) kvs)"
  using assms size_obj_entry [of "fst e" "snd e" kvs] by simp

lemma size_arr_elem [termination_simp]:
  assumes "v \<in> set xs"
  shows "size v < Suc (size_list size xs)"
  using assms by (induction xs) auto

section \<open>Objects\<close>

fun js_set :: "string \<Rightarrow> jsval \<Rightarrow> obj \<Rightarrow> obj" where
  "js_set k v [] = [(k, v)]"
| "js_set k v ((k', v') # kvs) = (if k' = k then (k, v) # kvs else (k', v') # js_set k v kvs)"

definition has_key :: "obj \<Rightarrow> string \<Rightarrow> bool" where
  "has_key kvs k \<longleftrightarrow> k \<in> fst ` set kvs"

definition js_get :: "obj \<Rightarrow> string \<Rightarrow> jsval" where
  "js_get kvs k = (case map_of kvs k of None \<Rightarrow> Undef | Some v \<Rightarrow> v)"

text \<open>\<open>{ ...a, ...b }\<close>.\<close>

fun spread :: "obj \<Rightarrow> obj \<Rightarrow> obj" where
  "spread a [] = a"
| "spread a ((k, v) # b) = spread (js_set k v a) b"

lemma map_of_js_set [obj_simps]: "map_of (js_set k v kvs) = (map_of kvs)(k \<mapsto> v)"
  by (induction kvs) (auto simp: fun_eq_iff)

lemma keys_js_set [obj_simps]:
  "map fst (js_set k v kvs) = (if k \<in> set (map fst kvs) then map fst kvs else map fst kvs @ [k])"
  by (induction kvs) (auto simp del: set_map)

lemma distinct_js_set [obj_simps]:
  "distinct (map fst kvs) \<Longrightarrow> distinct (map fst (js_set k v kvs))"
  by (simp add: keys_js_set)

lemma js_get_js_set [obj_simps]:
  "js_get (js_set k v kvs) k' = (if k' = k then v else js_get kvs k')"
  by (simp add: js_get_def map_of_js_set)

lemma has_key_js_set [obj_simps]: "has_key (js_set k v kvs) k' \<longleftrightarrow> k' = k \<or> has_key kvs k'"
proof -
  have "has_key xs k' \<longleftrightarrow> k' \<in> set (map fst xs)" for xs
    by (simp add: has_key_def)
  then show ?thesis by (auto simp: keys_js_set simp del: set_map)
qed

lemma has_key_map_of: "has_key kvs k \<longleftrightarrow> (\<exists>v. map_of kvs k = Some v)"
  by (simp add: has_key_def) (metis domD domIff dom_map_of_conv_image_fst not_None_eq)

lemma map_of_spread [obj_simps]:
  "distinct (map fst b) \<Longrightarrow> map_of (spread a b) = map_of a ++ map_of b"
proof (induction b arbitrary: a)
  case Nil
  then show ?case by simp
next
  case (Cons e b)
  obtain k v where e: "e = (k, v)" by (cases e)
  with Cons.prems have notin: "map_of b k = None"
    by (auto simp: map_of_eq_None_iff)
  have "map_of (spread a (e # b)) = (map_of a)(k \<mapsto> v) ++ map_of b"
    using Cons by (simp add: e map_of_js_set)
  also have "\<dots> = map_of a ++ map_of (e # b)"
    using notin by (auto simp: e fun_eq_iff map_add_def split: option.splits)
  finally show ?case .
qed

fun wf_val :: "jsval \<Rightarrow> bool" where
  "wf_val (Arr xs) = (\<forall>v \<in> set xs. wf_val v)"
| "wf_val (Obj kvs) = (distinct (map fst kvs) \<and> (\<forall>e \<in> set kvs. wf_val (snd e)))"
| "wf_val _ = True"

text \<open>\<open>Map.set\<close> keeps the position of an existing key.\<close>

fun map_set :: "'k \<Rightarrow> 'v \<Rightarrow> ('k \<times> 'v) list \<Rightarrow> ('k \<times> 'v) list" where
  "map_set k v [] = [(k, v)]"
| "map_set k v ((k', v') # m) = (if k' = k then (k, v) # m else (k', v') # map_set k v m)"

lemma map_of_map_set [obj_simps]: "map_of (map_set k v m) = (map_of m)(k \<mapsto> v)"
  by (induction k v m rule: map_set.induct) (auto simp: fun_eq_iff)

lemma keys_map_set [obj_simps]:
  "map fst (map_set k v m) = (if k \<in> set (map fst m) then map fst m else map fst m @ [k])"
  by (induction k v m rule: map_set.induct) (auto simp del: set_map)

lemma distinct_map_set [obj_simps]:
  "distinct (map fst m) \<Longrightarrow> distinct (map fst (map_set k v m))"
  by (simp add: keys_map_set)

section \<open>Coercions\<close>

fun truthy :: "jsval \<Rightarrow> bool" where
  "truthy Undef = False"
| "truthy Null = False"
| "truthy (Bool b) = b"
| "truthy (Num n) = (case n of NaN \<Rightarrow> False | Fin r \<Rightarrow> r \<noteq> 0 | _ \<Rightarrow> True)"
| "truthy (Str s) = (s \<noteq> [])"
| "truthy (Arr _) = True"
| "truthy (Obj _) = True"

text \<open>\<open>a ?? b\<close>.\<close>

definition nullish :: "jsval \<Rightarrow> bool" where
  "nullish v \<longleftrightarrow> v = Undef \<or> v = Null"

definition coalesce :: "jsval \<Rightarrow> jsval \<Rightarrow> jsval" where
  "coalesce a b = (if nullish a then b else a)"

definition or_else :: "'a option \<Rightarrow> 'a \<Rightarrow> 'a" where
  "or_else x d = (case x of None \<Rightarrow> d | Some v \<Rightarrow> v)"

lemma or_else_simps [simp]: "or_else None d = d" "or_else (Some v) d = v"
  by (simp_all add: or_else_def)

text \<open>The test \<open>v !== null && typeof v === 'object' && !Array.isArray(v)\<close>.\<close>

fun is_record :: "jsval \<Rightarrow> bool" where
  "is_record (Obj _) = True"
| "is_record _ = False"

fun as_obj :: "jsval \<Rightarrow> obj" where
  "as_obj (Obj kvs) = kvs"
| "as_obj _ = []"

section \<open>Strings\<close>

definition is_ws :: "char \<Rightarrow> bool" where
  "is_ws c \<longleftrightarrow> of_char c \<in> {9::nat, 10, 11, 12, 13, 32, 160}"

definition trim_start :: "string \<Rightarrow> string" where
  "trim_start s = dropWhile is_ws s"

definition trim :: "string \<Rightarrow> string" where
  "trim s = rev (dropWhile is_ws (rev (dropWhile is_ws s)))"

definition lower_char :: "char \<Rightarrow> char" where
  "lower_char c = (let n = (of_char c :: nat) in
     if 65 \<le> n \<and> n \<le> 90 \<or> 192 \<le> n \<and> n \<le> 222 \<and> n \<noteq> 215 then char_of (n + 32) else c)"

definition upper_char :: "char \<Rightarrow> char" where
  "upper_char c = (let n = (of_char c :: nat) in
     if 97 \<le> n \<and> n \<le> 122 \<or> 224 \<le> n \<and> n \<le> 254 \<and> n \<noteq> 247 then char_of (n - 32) else c)"

definition to_lower :: "string \<Rightarrow> string" where
  "to_lower s = map lower_char s"

definition to_upper :: "string \<Rightarrow> string" where
  "to_upper s = map upper_char s"

text \<open>Evaluation of the case conversion and of white space on the usual characters.\<close>

lemma lower_char_eval [simp]:
  "lower_char (CHR ''A'') = CHR ''a''" "lower_char (CHR ''B'') = CHR ''b''"
  "lower_char (CHR ''C'') = CHR ''c''" "lower_char (CHR ''D'') = CHR ''d''"
  "lower_char (CHR ''E'') = CHR ''e''" "lower_char (CHR ''F'') = CHR ''f''"
  "lower_char (CHR ''G'') = CHR ''g''" "lower_char (CHR ''H'') = CHR ''h''"
  "lower_char (CHR ''I'') = CHR ''i''" "lower_char (CHR ''J'') = CHR ''j''"
  "lower_char (CHR ''K'') = CHR ''k''" "lower_char (CHR ''L'') = CHR ''l''"
  "lower_char (CHR ''M'') = CHR ''m''" "lower_char (CHR ''N'') = CHR ''n''"
  "lower_char (CHR ''O'') = CHR ''o''" "lower_char (CHR ''P'') = CHR ''p''"
  "lower_char (CHR ''Q'') = CHR ''q''" "lower_char (CHR ''R'') = CHR ''r''"
  "lower_char (CHR ''S'') = CHR ''s''" "lower_char (CHR ''T'') = CHR ''t''"
  "lower_char (CHR ''U'') = CHR ''u''" "lower_char (CHR ''V'') = CHR ''v''"
  "lower_char (CHR ''W'') = CHR ''w''" "lower_char (CHR ''X'') = CHR ''x''"
  "lower_char (CHR ''Y'') = CHR ''y''" "lower_char (CHR ''Z'') = CHR ''z''"
  "lower_char (CHR ''a'') = CHR ''a''" "lower_char (CHR ''b'') = CHR ''b''"
  "lower_char (CHR ''c'') = CHR ''c''" "lower_char (CHR ''d'') = CHR ''d''"
  "lower_char (CHR ''e'') = CHR ''e''" "lower_char (CHR ''f'') = CHR ''f''"
  "lower_char (CHR ''g'') = CHR ''g''" "lower_char (CHR ''h'') = CHR ''h''"
  "lower_char (CHR ''i'') = CHR ''i''" "lower_char (CHR ''j'') = CHR ''j''"
  "lower_char (CHR ''k'') = CHR ''k''" "lower_char (CHR ''l'') = CHR ''l''"
  "lower_char (CHR ''m'') = CHR ''m''" "lower_char (CHR ''n'') = CHR ''n''"
  "lower_char (CHR ''o'') = CHR ''o''" "lower_char (CHR ''p'') = CHR ''p''"
  "lower_char (CHR ''q'') = CHR ''q''" "lower_char (CHR ''r'') = CHR ''r''"
  "lower_char (CHR ''s'') = CHR ''s''" "lower_char (CHR ''t'') = CHR ''t''"
  "lower_char (CHR ''u'') = CHR ''u''" "lower_char (CHR ''v'') = CHR ''v''"
  "lower_char (CHR ''w'') = CHR ''w''" "lower_char (CHR ''x'') = CHR ''x''"
  "lower_char (CHR ''y'') = CHR ''y''" "lower_char (CHR ''z'') = CHR ''z''"
  "lower_char (CHR ''0'') = CHR ''0''" "lower_char (CHR ''1'') = CHR ''1''"
  "lower_char (CHR ''2'') = CHR ''2''" "lower_char (CHR ''3'') = CHR ''3''"
  "lower_char (CHR ''4'') = CHR ''4''" "lower_char (CHR ''5'') = CHR ''5''"
  "lower_char (CHR ''6'') = CHR ''6''" "lower_char (CHR ''7'') = CHR ''7''"
  "lower_char (CHR ''8'') = CHR ''8''" "lower_char (CHR ''9'') = CHR ''9''"
  "lower_char (CHR ''_'') = CHR ''_''" "lower_char (CHR ''-'') = CHR ''-''"
  "lower_char (CHR ''.'') = CHR ''.''" "lower_char (CHR '':'') = CHR '':''"
  "lower_char (CHR ''/'') = CHR ''/''" "lower_char (CHR ''@'') = CHR ''@''"
  "lower_char (CHR '' '') = CHR '' ''" "lower_char (CHR ''*'') = CHR ''*''"
  "lower_char (CHR ''['') = CHR ''[''" "lower_char (CHR '']'') = CHR '']''"
  "lower_char (CHR ''='') = CHR ''=''" "lower_char (CHR ''+'') = CHR ''+''"
  "lower_char (CHR ''?'') = CHR ''?''" "lower_char (CHR '','') = CHR '',''"
  "lower_char (CHR '';'') = CHR '';''" "lower_char (CHR ''{'') = CHR ''{''"
  "lower_char (CHR ''}'') = CHR ''}''" "lower_char (CHR ''('') = CHR ''(''"
  "lower_char (CHR '')'') = CHR '')''" "lower_char (CHR ''#'') = CHR ''#''"
  by code_simp+

lemma upper_char_eval [simp]:
  "upper_char (CHR ''a'') = CHR ''A''" "upper_char (CHR ''b'') = CHR ''B''"
  "upper_char (CHR ''c'') = CHR ''C''" "upper_char (CHR ''d'') = CHR ''D''"
  "upper_char (CHR ''e'') = CHR ''E''" "upper_char (CHR ''f'') = CHR ''F''"
  "upper_char (CHR ''g'') = CHR ''G''" "upper_char (CHR ''h'') = CHR ''H''"
  "upper_char (CHR ''i'') = CHR ''I''" "upper_char (CHR ''j'') = CHR ''J''"
  "upper_char (CHR ''k'') = CHR ''K''" "upper_char (CHR ''l'') = CHR ''L''"
  "upper_char (CHR ''m'') = CHR ''M''" "upper_char (CHR ''n'') = CHR ''N''"
  "upper_char (CHR ''o'') = CHR ''O''" "upper_char (CHR ''p'') = CHR ''P''"
  "upper_char (CHR ''q'') = CHR ''Q''" "upper_char (CHR ''r'') = CHR ''R''"
  "upper_char (CHR ''s'') = CHR ''S''" "upper_char (CHR ''t'') = CHR ''T''"
  "upper_char (CHR ''u'') = CHR ''U''" "upper_char (CHR ''v'') = CHR ''V''"
  "upper_char (CHR ''w'') = CHR ''W''" "upper_char (CHR ''x'') = CHR ''X''"
  "upper_char (CHR ''y'') = CHR ''Y''" "upper_char (CHR ''z'') = CHR ''Z''"
  "upper_char (CHR ''A'') = CHR ''A''" "upper_char (CHR ''B'') = CHR ''B''"
  "upper_char (CHR ''C'') = CHR ''C''" "upper_char (CHR ''D'') = CHR ''D''"
  "upper_char (CHR ''E'') = CHR ''E''" "upper_char (CHR ''F'') = CHR ''F''"
  "upper_char (CHR ''G'') = CHR ''G''" "upper_char (CHR ''H'') = CHR ''H''"
  "upper_char (CHR ''I'') = CHR ''I''" "upper_char (CHR ''J'') = CHR ''J''"
  "upper_char (CHR ''K'') = CHR ''K''" "upper_char (CHR ''L'') = CHR ''L''"
  "upper_char (CHR ''M'') = CHR ''M''" "upper_char (CHR ''N'') = CHR ''N''"
  "upper_char (CHR ''O'') = CHR ''O''" "upper_char (CHR ''P'') = CHR ''P''"
  "upper_char (CHR ''Q'') = CHR ''Q''" "upper_char (CHR ''R'') = CHR ''R''"
  "upper_char (CHR ''S'') = CHR ''S''" "upper_char (CHR ''T'') = CHR ''T''"
  "upper_char (CHR ''U'') = CHR ''U''" "upper_char (CHR ''V'') = CHR ''V''"
  "upper_char (CHR ''W'') = CHR ''W''" "upper_char (CHR ''X'') = CHR ''X''"
  "upper_char (CHR ''Y'') = CHR ''Y''" "upper_char (CHR ''Z'') = CHR ''Z''"
  "upper_char (CHR ''0'') = CHR ''0''" "upper_char (CHR ''1'') = CHR ''1''"
  "upper_char (CHR ''2'') = CHR ''2''" "upper_char (CHR ''3'') = CHR ''3''"
  "upper_char (CHR ''4'') = CHR ''4''" "upper_char (CHR ''5'') = CHR ''5''"
  "upper_char (CHR ''6'') = CHR ''6''" "upper_char (CHR ''7'') = CHR ''7''"
  "upper_char (CHR ''8'') = CHR ''8''" "upper_char (CHR ''9'') = CHR ''9''"
  "upper_char (CHR ''_'') = CHR ''_''" "upper_char (CHR ''-'') = CHR ''-''"
  "upper_char (CHR ''.'') = CHR ''.''" "upper_char (CHR '':'') = CHR '':''"
  "upper_char (CHR ''/'') = CHR ''/''"
  by code_simp+

lemma is_ws_eval [simp]:
  "is_ws (CHR '' '')"
  "\<not> is_ws (CHR ''a'')" "\<not> is_ws (CHR ''b'')" "\<not> is_ws (CHR ''c'')" "\<not> is_ws (CHR ''d'')"
  "\<not> is_ws (CHR ''e'')" "\<not> is_ws (CHR ''f'')" "\<not> is_ws (CHR ''g'')" "\<not> is_ws (CHR ''h'')"
  "\<not> is_ws (CHR ''i'')" "\<not> is_ws (CHR ''j'')" "\<not> is_ws (CHR ''k'')" "\<not> is_ws (CHR ''l'')"
  "\<not> is_ws (CHR ''m'')" "\<not> is_ws (CHR ''n'')" "\<not> is_ws (CHR ''o'')" "\<not> is_ws (CHR ''p'')"
  "\<not> is_ws (CHR ''q'')" "\<not> is_ws (CHR ''r'')" "\<not> is_ws (CHR ''s'')" "\<not> is_ws (CHR ''t'')"
  "\<not> is_ws (CHR ''u'')" "\<not> is_ws (CHR ''v'')" "\<not> is_ws (CHR ''w'')" "\<not> is_ws (CHR ''x'')"
  "\<not> is_ws (CHR ''y'')" "\<not> is_ws (CHR ''z'')" "\<not> is_ws (CHR ''A'')" "\<not> is_ws (CHR ''B'')"
  "\<not> is_ws (CHR ''C'')" "\<not> is_ws (CHR ''D'')" "\<not> is_ws (CHR ''E'')" "\<not> is_ws (CHR ''F'')"
  "\<not> is_ws (CHR ''G'')" "\<not> is_ws (CHR ''H'')" "\<not> is_ws (CHR ''I'')" "\<not> is_ws (CHR ''J'')"
  "\<not> is_ws (CHR ''K'')" "\<not> is_ws (CHR ''L'')" "\<not> is_ws (CHR ''M'')" "\<not> is_ws (CHR ''N'')"
  "\<not> is_ws (CHR ''O'')" "\<not> is_ws (CHR ''P'')" "\<not> is_ws (CHR ''Q'')" "\<not> is_ws (CHR ''R'')"
  "\<not> is_ws (CHR ''S'')" "\<not> is_ws (CHR ''T'')" "\<not> is_ws (CHR ''U'')" "\<not> is_ws (CHR ''V'')"
  "\<not> is_ws (CHR ''W'')" "\<not> is_ws (CHR ''X'')" "\<not> is_ws (CHR ''Y'')" "\<not> is_ws (CHR ''Z'')"
  "\<not> is_ws (CHR ''0'')" "\<not> is_ws (CHR ''1'')" "\<not> is_ws (CHR ''2'')" "\<not> is_ws (CHR ''3'')"
  "\<not> is_ws (CHR ''4'')" "\<not> is_ws (CHR ''5'')" "\<not> is_ws (CHR ''6'')" "\<not> is_ws (CHR ''7'')"
  "\<not> is_ws (CHR ''8'')" "\<not> is_ws (CHR ''9'')" "\<not> is_ws (CHR ''_'')" "\<not> is_ws (CHR ''-'')"
  "\<not> is_ws (CHR ''.'')" "\<not> is_ws (CHR '':'')" "\<not> is_ws (CHR ''/'')" "\<not> is_ws (CHR ''@'')"
  "\<not> is_ws (CHR ''*'')" "\<not> is_ws (CHR ''['')" "\<not> is_ws (CHR '']'')" "\<not> is_ws (CHR ''='')"
  "\<not> is_ws (CHR ''+'')" "\<not> is_ws (CHR ''?'')" "\<not> is_ws (CHR '','')" "\<not> is_ws (CHR '';'')"
  "\<not> is_ws (CHR ''{'')" "\<not> is_ws (CHR ''}'')" "\<not> is_ws (CHR ''('')" "\<not> is_ws (CHR '')'')"
  "\<not> is_ws (CHR ''#'')"
  by code_simp+

definition starts_with :: "string \<Rightarrow> string \<Rightarrow> bool" where
  "starts_with p s \<longleftrightarrow> take (length p) s = p"

text \<open>\<open>s.includes(p)\<close>.\<close>

fun str_includes :: "string \<Rightarrow> string \<Rightarrow> bool" where
  "str_includes p [] = (p = [])"
| "str_includes p (c # s) = (starts_with p (c # s) \<or> str_includes p s)"

text \<open>\<open>s.split(c)\<close> for a separator of one character.\<close>

fun split_on :: "char \<Rightarrow> string \<Rightarrow> string list" where
  "split_on c [] = [[]]"
| "split_on c (x # xs) =
     (if x = c then [] # split_on c xs
      else (case split_on c xs of [] \<Rightarrow> [[x]] | p # ps \<Rightarrow> (x # p) # ps))"

fun join_with :: "string \<Rightarrow> string list \<Rightarrow> string" where
  "join_with sep [] = []"
| "join_with sep [x] = x"
| "join_with sep (x # y # ys) = x @ sep @ join_with sep (y # ys)"

definition quoted :: "string \<Rightarrow> string" where
  "quoted s = CHR 0x27 # s @ [CHR 0x27]"

text \<open>\<open>s.split(',').map(trim).filter(Boolean)\<close>, which the configuration readers repeat.\<close>

definition csv_values :: "string \<Rightarrow> string list" where
  "csv_values s = filter (\<lambda>v. v \<noteq> []) (map trim (split_on (CHR '','') s))"

lemma split_on_nonempty [simp]: "split_on c s \<noteq> []"
  by (induction s) (auto split: list.splits)

lemma split_on_no_sep: "c \<notin> set s \<Longrightarrow> split_on c s = [s]"
  by (induction s) auto

lemma split_on_append: "c \<notin> set s \<Longrightarrow> split_on c (s @ c # t) = s # split_on c t"
  by (induction s) auto

lemma join_split_on: "join_with [c] (split_on c s) = s"
proof (induction s)
  case Nil
  then show ?case by simp
next
  case (Cons x s)
  then show ?case
    by (cases "split_on c s" rule: list.exhaust; cases "tl (split_on c s)") auto
qed

text \<open>\<open>s.split(sep)\<close> for any separator; the empty one splits into characters.\<close>

function split_acc :: "string \<Rightarrow> string \<Rightarrow> string \<Rightarrow> string list" where
  "split_acc sep acc [] = [rev acc]"
| "split_acc sep acc (c # s) =
     (if sep \<noteq> [] \<and> starts_with sep (c # s)
      then rev acc # split_acc sep [] (drop (length sep) (c # s))
      else split_acc sep (c # acc) s)"
  by pat_completeness auto
termination
  by (relation "measure (\<lambda>(sep, acc, s). length s)") auto

definition split_str :: "string \<Rightarrow> string \<Rightarrow> string list" where
  "split_str sep s = (if sep = [] then map (\<lambda>c. [c]) s else split_acc sep [] s)"

lemma starts_with_char: "starts_with [c] (x # s) \<longleftrightarrow> x = c"
  by (auto simp: starts_with_def)

lemma split_acc_char: "split_acc [c] acc s = (case split_on c s of y # ys \<Rightarrow> (rev acc @ y) # ys)"
  by (induction s arbitrary: acc) (auto simp: starts_with_char split: list.split)

lemma split_str_char: "split_str [c] s = split_on c s"
  using split_acc_char [of c "[]" s] split_on_nonempty [of c s]
  by (cases "split_on c s") (simp_all add: split_str_def)

lemma dropWhile_idem: "dropWhile P (dropWhile P xs) = dropWhile P xs"
  by (induction xs) auto

lemma trim_eq_Nil: "trim s = [] \<longleftrightarrow> (\<forall>c \<in> set s. is_ws c)"
  by (auto simp: trim_def dropWhile_eq_Nil_conv dest: set_dropWhileD)
     (metis dropWhile_eq_Nil_conv rev.simps(1) rev_rev_ident set_rev hd_dropWhile hd_in_set)

lemma csv_values_nonempty: "v \<in> set (csv_values s) \<Longrightarrow> v \<noteq> []"
  by (simp add: csv_values_def)

lemma trim_idem [simp]: "trim (trim s) = trim s"
proof -
  define t where "t = dropWhile is_ws s"
  define u where "u = rev (dropWhile is_ws (rev t))"
  have "rev t = takeWhile is_ws (rev t) @ rev u" by (simp add: u_def)
  then have t: "t = u @ rev (takeWhile is_ws (rev t))"
    by (metis rev_append rev_rev_ident)
  have "dropWhile is_ws u = u"
  proof (cases u)
    case (Cons c u')
    with t have "hd t = c" "t \<noteq> []" by (metis append_Cons list.sel(1), metis Cons append_is_Nil_conv list.distinct(1))
    then have "\<not> is_ws c" using hd_dropWhile [of is_ws s] by (simp add: t_def)
    with Cons show ?thesis by simp
  qed simp
  then show ?thesis by (simp add: trim_def t_def [symmetric] u_def dropWhile_idem)
qed

section \<open>Sorting and duplicates\<close>

text \<open>
  Entries sorted by a string key, in an order \<open>le\<close>: \<open>localeCompare\<close>, or the collation of the
  database. Sorting is stable.
\<close>

fun locale_insert :: "(string \<Rightarrow> string \<Rightarrow> bool) \<Rightarrow> string \<times> 'v \<Rightarrow> (string \<times> 'v) list \<Rightarrow> (string \<times> 'v) list" where
  "locale_insert le e [] = [e]"
| "locale_insert le e (x # xs) =
     (if le (fst e) (fst x) then e # x # xs else x # locale_insert le e xs)"

definition locale_sort :: "(string \<Rightarrow> string \<Rightarrow> bool) \<Rightarrow> (string \<times> 'v) list \<Rightarrow> (string \<times> 'v) list" where
  "locale_sort le xs = foldr (locale_insert le) xs []"

text \<open>\<open>[...new Set(xs)]\<close> keeps the first occurrences.\<close>

definition unique :: "'a list \<Rightarrow> 'a list" where
  "unique xs = rev (remdups (rev xs))"

lemma unique_set [simp]: "set (unique xs) = set xs"
  by (simp add: unique_def)

lemma unique_distinct [simp]: "distinct (unique xs)"
  by (simp add: unique_def)

lemma locale_sort_set [simp]: "set (locale_sort le xs) = set xs"
proof (induction xs)
  case (Cons x xs)
  have "set (locale_insert le e ys) = insert e (set ys)" for e and ys :: "(string \<times> 'a) list"
    by (induction ys) auto
  with Cons show ?case by (simp add: locale_sort_def)
qed (simp add: locale_sort_def)

text \<open>A table with a primary key \<open>pk\<close> and a unique column \<open>col\<close>, of which one row is changed.\<close>

lemma distinct_update:
  assumes ids: "distinct (map pk rows)" and col: "distinct (map col rows)"
    and r: "r \<in> set rows" "pk r = i"
    and free: "\<And>x. x \<in> set rows \<Longrightarrow> pk x \<noteq> i \<Longrightarrow> col x \<noteq> col (f r)"
  shows "distinct (map col (map (\<lambda>x. if pk x = i then f x else x) rows))"
proof -
  let ?g = "\<lambda>x. if pk x = i then f x else x"
  have only: "x = r" if "x \<in> set rows" "pk x = i" for x
    using ids that r by (auto simp: distinct_map dest: inj_onD)
  have "inj_on (col \<circ> ?g) (set rows)"
  proof (rule inj_onI)
    fix x y assume xy: "x \<in> set rows" "y \<in> set rows" and "(col \<circ> ?g) x = (col \<circ> ?g) y"
    then have same: "col (?g x) = col (?g y)" by simp
    consider "pk x = i" "pk y = i" | "pk x = i" "pk y \<noteq> i" | "pk x \<noteq> i" "pk y = i" | "pk x \<noteq> i" "pk y \<noteq> i"
      by blast
    then show "x = y"
    proof cases
      case 1
      with only xy show ?thesis by blast
    next
      case 2
      with only xy same free [of y] show ?thesis by fastforce
    next
      case 3
      with only xy same free [of x] show ?thesis by fastforce
    next
      case 4
      with xy same col show ?thesis by (auto simp: distinct_map dest: inj_onD)
    qed
  qed
  with ids show ?thesis by (simp add: distinct_map)
qed

lemma map_update_same:
  "(\<And>x. x \<in> set rows \<Longrightarrow> col (f x) = col x) \<Longrightarrow>
   map col (map (\<lambda>x. if pk x = i then f x else x) rows) = map col rows"
  by simp

section \<open>Exceptions\<close>

text \<open>
  What the code throws: plain \<open>Error\<close>s, the HTTP exceptions of the framework, database
  errors with their Prisma code, \<open>ProcessingFailureError\<close>, which records whether the
  event was durably accepted, and the errors of an HTTP client with their own properties.
\<close>

datatype exn =
    JsError string
  | BadRequest string
  | Unauthorized string
  | Forbidden string
  | NotFound string
  | Conflict string
  | ServiceUnavailable string
  | PrismaError string string
  | ProcessingFailure string bool exn
  | ClientError string obj

fun exn_message :: "exn \<Rightarrow> string" where
  "exn_message (JsError m) = m"
| "exn_message (BadRequest m) = m"
| "exn_message (Unauthorized m) = m"
| "exn_message (Forbidden m) = m"
| "exn_message (NotFound m) = m"
| "exn_message (Conflict m) = m"
| "exn_message (ServiceUnavailable m) = m"
| "exn_message (PrismaError code m) = m"
| "exn_message (ProcessingFailure m d cause) = m"
| "exn_message (ClientError m props) = m"

text \<open>What the engine throws for a value of the wrong type.\<close>

definition type_error :: exn where
  "type_error = JsError ''TypeError''"

type_synonym 'a result = "exn + 'a"

definition ebind :: "'a result \<Rightarrow> ('a \<Rightarrow> 'b result) \<Rightarrow> 'b result" where
  "ebind r f = (case r of Inl e \<Rightarrow> Inl e | Inr a \<Rightarrow> f a)"

definition guard_exn :: "bool \<Rightarrow> exn \<Rightarrow> unit result" where
  "guard_exn ok e = (if ok then Inr () else Inl e)"

lemma ebind_simps [simp, exn_simps]:
  "ebind (Inl e) f = Inl e" "ebind (Inr a) f = f a"
  by (simp_all add: ebind_def)

lemma ebind_Inr_iff [exn_simps]: "ebind r f = Inr b \<longleftrightarrow> (\<exists>a. r = Inr a \<and> f a = Inr b)"
  by (cases r) auto

lemma ebind_Inl_iff [exn_simps]:
  "ebind r f = Inl e \<longleftrightarrow> r = Inl e \<or> (\<exists>a. r = Inr a \<and> f a = Inl e)"
  by (cases r) auto

lemma guard_exn_Inr [simp, exn_simps]: "guard_exn ok e = Inr u \<longleftrightarrow> ok"
  by (simp add: guard_exn_def)

lemma guard_exn_Inl [simp, exn_simps]: "guard_exn ok e = Inl e' \<longleftrightarrow> \<not> ok \<and> e' = e"
  by (auto simp: guard_exn_def)

text \<open>\<open>xs.map(f)\<close> where \<open>f\<close> may throw: the first exception ends the loop.\<close>

fun map_exn :: "('a \<Rightarrow> 'b result) \<Rightarrow> 'a list \<Rightarrow> 'b list result" where
  "map_exn f [] = Inr []"
| "map_exn f (x # xs) = ebind (f x) (\<lambda>y. ebind (map_exn f xs) (\<lambda>ys. Inr (y # ys)))"

lemma map_exn_Inr: "map_exn f xs = Inr ys \<longleftrightarrow> list_all2 (\<lambda>x y. f x = Inr y) xs ys"
  by (induction xs arbitrary: ys) (auto simp: ebind_Inr_iff list_all2_Cons1)

section \<open>Effects\<close>

text \<open>
  An asynchronous method is a transformer of the world that may throw; what it did before it
  threw stays done.
\<close>

type_synonym ('a, 'w) op = "'w \<Rightarrow> 'a result \<times> 'w"

definition ret :: "'a \<Rightarrow> ('a, 'w) op" where
  "ret a w = (Inr a, w)"

definition raise :: "exn \<Rightarrow> ('a, 'w) op" where
  "raise e w = (Inl e, w)"

definition lift_result :: "'a result \<Rightarrow> ('a, 'w) op" where
  "lift_result r w = (r, w)"

definition modify :: "('w \<Rightarrow> 'w) \<Rightarrow> (unit, 'w) op" where
  "modify f w = (Inr (), f w)"

definition sbind :: "('a, 'w) op \<Rightarrow> ('a \<Rightarrow> ('b, 'w) op) \<Rightarrow> ('b, 'w) op" where
  "sbind m f w = (case m w of (Inl e, w') \<Rightarrow> (Inl e, w') | (Inr a, w') \<Rightarrow> f a w')"

definition catch_op :: "('a, 'w) op \<Rightarrow> (exn \<Rightarrow> ('a, 'w) op) \<Rightarrow> ('a, 'w) op" where
  "catch_op m h w = (case m w of (Inl e, w') \<Rightarrow> h e w' | (Inr a, w') \<Rightarrow> (Inr a, w'))"

text \<open>A database or network call that fails with \<open>fault\<close> when there is one.\<close>

definition may_fail :: "exn option \<Rightarrow> (unit, 'w) op" where
  "may_fail fault = (case fault of Some e \<Rightarrow> raise e | None \<Rightarrow> ret ())"

named_theorems op_simps "running operations"

lemma op_basic [simp, op_simps]:
  "ret a w = (Inr a, w)" "raise e w = (Inl e, w)" "lift_result r w = (r, w)"
  by (simp_all add: ret_def raise_def lift_result_def)

lemma op_effects [simp, op_simps]:
  "modify f w = (Inr (), f w)"
  "may_fail None w = (Inr (), w)" "may_fail (Some e) w = (Inl e, w)"
  by (simp_all add: modify_def may_fail_def ret_def raise_def)

lemma sbind_run [op_simps]:
  "m w = (Inl e, w') \<Longrightarrow> sbind m f w = (Inl e, w')"
  "m w = (Inr a, w') \<Longrightarrow> sbind m f w = f a w'"
  by (simp_all add: sbind_def)

lemma sbind_basic [simp]:
  "sbind (ret a) f w = f a w" "sbind (raise e) f w = (Inl e, w)"
  "sbind (lift_result (Inl e)) f w = (Inl e, w)" "sbind (lift_result (Inr a)) f w = f a w"
  by (simp_all add: sbind_def)

lemma sbind_effects [simp]:
  "sbind (modify g) f w = f () (g w)"
  "sbind (may_fail None) f w = f () w" "sbind (may_fail (Some e)) f w = (Inl e, w)"
  by (simp_all add: sbind_def)

lemma sbind_Inr_iff:
  "sbind m f w = (Inr b, w'') \<longleftrightarrow> (\<exists>a w'. m w = (Inr a, w') \<and> f a w' = (Inr b, w''))"
  by (auto simp: sbind_def split: prod.splits sum.splits)

lemma sbind_Inl_iff:
  "sbind m f w = (Inl e, w'') \<longleftrightarrow>
     m w = (Inl e, w'') \<or> (\<exists>a w'. m w = (Inr a, w') \<and> f a w' = (Inl e, w''))"
  by (auto simp: sbind_def split: prod.splits sum.splits)

lemma may_fail_iff:
  "may_fail fl w = (Inr u, w') \<longleftrightarrow> fl = None \<and> w' = w"
  "may_fail fl w = (Inl e, w') \<longleftrightarrow> fl = Some e \<and> w' = w"
  by (cases fl; auto)+

lemma catch_run [op_simps]:
  "m w = (Inl e, w') \<Longrightarrow> catch_op m h w = h e w'"
  "m w = (Inr a, w') \<Longrightarrow> catch_op m h w = (Inr a, w')"
  by (simp_all add: catch_op_def)

text \<open>What an operation leaves alone, whatever it returns.\<close>

definition preserves :: "('w \<Rightarrow> bool) \<Rightarrow> ('a, 'w) op \<Rightarrow> bool" where
  "preserves I m \<longleftrightarrow> (\<forall>w r w'. I w \<longrightarrow> m w = (r, w') \<longrightarrow> I w')"

lemma preservesD: "preserves I m \<Longrightarrow> m w = (r, w') \<Longrightarrow> I w \<Longrightarrow> I w'"
  by (auto simp: preserves_def)

lemma preserves_snd: "preserves I m \<Longrightarrow> I w \<Longrightarrow> I (snd (m w))"
  by (metis preservesD prod.collapse)

named_theorems preserve_intros "composing operations that keep an invariant"

lemma preserves_basic [preserve_intros]:
  "preserves I (ret a)" "preserves I (raise e)" "preserves I (lift_result r)" "preserves I (may_fail fl)"
  by (cases fl; simp add: preserves_def)+

lemma preserves_modify [preserve_intros]: "(\<And>w. I w \<Longrightarrow> I (f w)) \<Longrightarrow> preserves I (modify f)"
  by (simp add: preserves_def)

lemma preserves_if [preserve_intros]:
  "preserves I a \<Longrightarrow> preserves I b \<Longrightarrow> preserves I (if c then a else b)"
  by simp

lemma preserves_option [preserve_intros]:
  "preserves I a \<Longrightarrow> (\<And>x. preserves I (f x)) \<Longrightarrow> preserves I (case opt of None \<Rightarrow> a | Some x \<Rightarrow> f x)"
  by (simp split: option.split)

lemma preserves_sbind [preserve_intros]:
  assumes "preserves I m" "\<And>a. preserves I (f a)"
  shows "preserves I (sbind m f)"
  unfolding preserves_def
proof (intro allI impI)
  fix w r w' assume I: "I w" and run: "sbind m f w = (r, w')"
  obtain x w1 where m: "m w = (x, w1)" by (cases "m w")
  with assms(1) I have "I w1" by (blast dest: preservesD)
  with run m assms(2) show "I w'" by (cases x) (auto simp: sbind_def dest: preservesD)
qed

lemma preserves_sbind_lift:
  "(\<And>a. r = Inr a \<Longrightarrow> preserves I (f a)) \<Longrightarrow> preserves I (sbind (lift_result r) f)"
  by (cases r) (auto simp: preserves_def)

lemma preserves_catch [preserve_intros]:
  assumes "preserves I m" "\<And>e. preserves I (h e)"
  shows "preserves I (catch_op m h)"
  unfolding preserves_def
proof (intro allI impI)
  fix w r w' assume I: "I w" and run: "catch_op m h w = (r, w')"
  obtain x w1 where m: "m w = (x, w1)" by (cases "m w")
  with assms(1) I have "I w1" by (blast dest: preservesD)
  with run m assms(2) show "I w'" by (cases x) (auto simp: catch_op_def dest: preservesD)
qed

lemma preserves_sbind_result:
  assumes "preserves I m" "\<And>a w w'. m w = (Inr a, w') \<Longrightarrow> preserves I (f a)"
  shows "preserves I (sbind m f)"
  unfolding preserves_def
proof (intro allI impI)
  fix w r w' assume I: "I w" and run: "sbind m f w = (r, w')"
  obtain x w1 where m: "m w = (x, w1)" by (cases "m w")
  with assms(1) I have "I w1" by (blast dest: preservesD)
  with run m assms(2) show "I w'" by (cases x) (auto simp: sbind_def dest: preservesD)
qed

text \<open>What the first step establishes, the second one may use.\<close>

lemma preserves_sbind_post:
  assumes "preserves I m" "\<And>w a w'. I w \<Longrightarrow> m w = (Inr a, w') \<Longrightarrow> J a w'"
    and "\<And>a. preserves (\<lambda>w. I w \<and> J a w) (f a)"
  shows "preserves I (sbind m f)"
  unfolding preserves_def
proof (intro allI impI)
  fix w r w' assume I: "I w" and run: "sbind m f w = (r, w')"
  obtain x w1 where m: "m w = (x, w1)" by (cases "m w")
  with assms(1) I have I1: "I w1" by (blast dest: preservesD)
  show "I w'"
  proof (cases x)
    case (Inr a)
    with m have "J a w1" using assms(2) I by blast
    with I1 run m Inr show ?thesis by (auto simp: sbind_def dest: preservesD [OF assms(3)])
  qed (use I1 run m in \<open>simp add: sbind_def\<close>)
qed

text \<open>\<open>try { m } finally { c }\<close>: an error of the last step replaces the outcome.\<close>

definition finally_op :: "('a, 'w) op \<Rightarrow> (unit, 'w) op \<Rightarrow> ('a, 'w) op" where
  "finally_op m c w =
     (case m w of (r, w') \<Rightarrow> (case c w' of (Inl e, w'') \<Rightarrow> (Inl e, w'') | (Inr _, w'') \<Rightarrow> (r, w'')))"

text \<open>\<open>for (const x of xs) await f(x)\<close>\<close>

fun each_op :: "('a \<Rightarrow> (unit, 'w) op) \<Rightarrow> 'a list \<Rightarrow> (unit, 'w) op" where
  "each_op f [] = ret ()"
| "each_op f (x # xs) = sbind (f x) (\<lambda>_. each_op f xs)"

lemma preserves_finally [preserve_intros]:
  assumes "preserves I m" "preserves I c"
  shows "preserves I (finally_op m c)"
  unfolding preserves_def finally_op_def
  by (auto split: prod.splits sum.splits dest: preservesD [OF assms(1)] preservesD [OF assms(2)])

lemma preserves_each:
  "(\<And>x. x \<in> set xs \<Longrightarrow> preserves I (f x)) \<Longrightarrow> preserves I (each_op f xs)"
  by (induction xs) (auto intro!: preserves_sbind preserves_basic)

lemma split_on_parts: "p \<in> set (split_on c s) \<Longrightarrow> c \<notin> set p"
  by (induction s arbitrary: p) (auto split: list.splits if_splits)

lemma split_on_two:
  assumes "split_on c s = [a, b]"
  shows "s = a @ c # b" "c \<notin> set a" "c \<notin> set b"
  using join_split_on [of c s] split_on_parts [of _ c s] by (auto simp: assms)

lemma starts_with_split: "starts_with p s \<longleftrightarrow> (\<exists>r. s = p @ r)"
  by (metis append_eq_conv_conj append_take_drop_id starts_with_def)

lemma map_exn_member: "map_exn f xs = Inr ys \<Longrightarrow> y \<in> set ys \<Longrightarrow> \<exists>x \<in> set xs. f x = Inr y"
  by (induction xs arbitrary: ys) (auto simp: ebind_Inr_iff)

section \<open>Logs of effects\<close>

text \<open>A log that grew by entries that were all right, given what had been logged before them.\<close>

fun trace_ok :: "('q list \<Rightarrow> 'q \<Rightarrow> bool) \<Rightarrow> 'q list \<Rightarrow> 'q list \<Rightarrow> bool" where
  "trace_ok good sent [] = True"
| "trace_ok good sent (q # qs) = (good sent q \<and> trace_ok good (sent @ [q]) qs)"

lemma trace_ok_snoc: "trace_ok good sent (qs @ [q]) \<longleftrightarrow> trace_ok good sent qs \<and> good (sent @ qs) q"
  by (induction qs arbitrary: sent) auto

definition grown :: "('q list \<Rightarrow> 'q \<Rightarrow> bool) \<Rightarrow> 'q list \<Rightarrow> 'q list \<Rightarrow> bool" where
  "grown good old sent \<longleftrightarrow> (\<exists>new. sent = old @ new \<and> trace_ok good old new)"

lemma grown_refl [simp]: "grown good sent sent"
  by (simp add: grown_def exI [of _ "[]"])

lemma grown_snoc: "grown good old sent \<Longrightarrow> good sent q \<Longrightarrow> grown good old (sent @ [q])"
  unfolding grown_def by (elim exE conjE) (auto intro!: exI [of _ "_ @ [q]"] simp: trace_ok_snoc)

lemma trace_ok_each: "trace_ok (\<lambda>_. good) sent qs \<longleftrightarrow> list_all good qs"
  by (induction qs arbitrary: sent) auto

end
