(* ===== verification/JsNumber.thy ===== *)
theory JsNumber
  imports Prelude
begin

text \<open>
  The numeric coercions of JavaScript that the source relies on: \<open>Number(v)\<close>,
  \<open>String(v)\<close>, \<open>Number.isInteger\<close>, \<open>Number.isFinite\<close> and \<open>Math.trunc\<close>. Numbers are exact
  rationals here: the rounding of a decimal literal to a double is not modelled, and
  \<open>String\<close> prints an integer in full (as the language does below \<open>10^21\<close>) and a fraction
  with at most 20 decimals.
\<close>

section \<open>Digits\<close>

definition is_digit :: "char \<Rightarrow> bool" where
  "is_digit c \<longleftrightarrow> 48 \<le> (of_char c :: nat) \<and> (of_char c :: nat) \<le> 57"

definition digit_val :: "char \<Rightarrow> nat" where
  "digit_val c = of_char c - 48"

definition digit_char :: "nat \<Rightarrow> char" where
  "digit_char d = char_of (48 + d)"

definition digits_val :: "string \<Rightarrow> nat" where
  "digits_val s = foldl (\<lambda>a c. 10 * a + digit_val c) 0 s"

fun nat_digits :: "nat \<Rightarrow> string" where
  "nat_digits n = (if n < 10 then [digit_char n] else nat_digits (n div 10) @ [digit_char (n mod 10)])"

declare nat_digits.simps [simp del]

lemma of_char_digit: "d < 10 \<Longrightarrow> (of_char (digit_char d) :: nat) = 48 + d"
  by (simp add: digit_char_def)

lemma is_digit_digit_char [simp]: "d < 10 \<Longrightarrow> is_digit (digit_char d)"
  by (simp add: is_digit_def of_char_digit)

lemma digit_val_digit_char [simp]: "d < 10 \<Longrightarrow> digit_val (digit_char d) = d"
  by (simp add: digit_val_def of_char_digit)

lemma nat_digits_nonempty [simp]: "nat_digits n \<noteq> []"
  by (subst nat_digits.simps) simp

lemma nat_digits_are_digits: "c \<in> set (nat_digits n) \<Longrightarrow> is_digit c"
proof (induction n rule: nat_digits.induct)
  case (1 n)
  then show ?case by (cases "n < 10") (auto simp: nat_digits.simps [of n])
qed

lemma digits_val_snoc: "digits_val (s @ [c]) = 10 * digits_val s + digit_val c"
  by (simp add: digits_val_def)

lemma digits_val_nat_digits: "digits_val (nat_digits n) = n"
proof (induction n rule: nat_digits.induct)
  case (1 n)
  show ?case
  proof (cases "n < 10")
    case True
    then show ?thesis by (simp add: nat_digits.simps [of n] digits_val_def)
  next
    case False
    then show ?thesis using 1 by (simp add: nat_digits.simps [of n] digits_val_snoc)
  qed
qed

section \<open>\<open>Number(v)\<close>\<close>

definition pow10 :: "int \<Rightarrow> rat" where
  "pow10 e = (if 0 \<le> e then 10 ^ nat e else 1 / 10 ^ nat (- e))"

definition parse_digits :: "string \<Rightarrow> int option" where
  "parse_digits d = (if d \<noteq> [] \<and> list_all is_digit d then Some (int (digits_val d)) else None)"

definition parse_exponent :: "string \<Rightarrow> int option" where
  "parse_exponent s = (case s of
     [] \<Rightarrow> Some 0
   | c # r \<Rightarrow>
       if c = CHR ''e'' \<or> c = CHR ''E''
       then (case r of
               [] \<Rightarrow> None
             | x # d \<Rightarrow> if x = CHR ''+'' then parse_digits d
                       else if x = CHR ''-'' then map_option uminus (parse_digits d)
                       else parse_digits r)
       else None)"

definition parse_fraction :: "string \<Rightarrow> string \<times> string" where
  "parse_fraction r = (case r of
     [] \<Rightarrow> ([], [])
   | c # r' \<Rightarrow> if c = CHR ''.'' then (takeWhile is_digit r', dropWhile is_digit r') else ([], r))"

definition parse_unsigned :: "string \<Rightarrow> jsnum" where
  "parse_unsigned s =
     (if s = ''Infinity'' then PosInf
      else let ip = takeWhile is_digit s;
               (fp, rest) = parse_fraction (dropWhile is_digit s)
           in if ip = [] \<and> fp = [] then NaN
              else (case parse_exponent rest of
                      None \<Rightarrow> NaN
                    | Some e \<Rightarrow>
                        Fin (of_nat (digits_val (ip @ fp)) * pow10 (e - int (length fp)))))"

fun num_neg :: "jsnum \<Rightarrow> jsnum" where
  "num_neg NaN = NaN"
| "num_neg PosInf = NegInf"
| "num_neg NegInf = PosInf"
| "num_neg (Fin r) = Fin (- r)"

definition radix_digit :: "char \<Rightarrow> nat" where
  "radix_digit c = (let n = (of_char (lower_char c) :: nat) in
     if 48 \<le> n \<and> n \<le> 57 then n - 48 else if 97 \<le> n \<and> n \<le> 102 then n - 87 else 16)"

definition parse_radix :: "nat \<Rightarrow> string \<Rightarrow> jsnum" where
  "parse_radix b s =
     (if s \<noteq> [] \<and> list_all (\<lambda>c. radix_digit c < b) s
      then Fin (of_nat (foldl (\<lambda>a c. b * a + radix_digit c) 0 s)) else NaN)"

definition number_of_string :: "string \<Rightarrow> jsnum" where
  "number_of_string s =
     (case trim s of
        [] \<Rightarrow> Fin 0
      | c # r \<Rightarrow>
          if c = CHR ''+'' then parse_unsigned r
          else if c = CHR ''-'' then num_neg (parse_unsigned r)
          else if c = CHR ''0'' \<and> r \<noteq> [] \<and> hd r \<in> set ''xX'' then parse_radix 16 (tl r)
          else if c = CHR ''0'' \<and> r \<noteq> [] \<and> hd r \<in> set ''oO'' then parse_radix 8 (tl r)
          else if c = CHR ''0'' \<and> r \<noteq> [] \<and> hd r \<in> set ''bB'' then parse_radix 2 (tl r)
          else parse_unsigned (c # r))"

section \<open>\<open>String(v)\<close>\<close>

fun frac_digits :: "nat \<Rightarrow> rat \<Rightarrow> string" where
  "frac_digits 0 f = []"
| "frac_digits (Suc n) f =
     (if f = 0 then []
      else digit_char (nat \<lfloor>10 * f\<rfloor>) # frac_digits n (10 * f - of_int \<lfloor>10 * f\<rfloor>))"

definition is_integer :: "jsnum \<Rightarrow> bool" where
  "is_integer n = (case n of Fin r \<Rightarrow> of_int \<lfloor>r\<rfloor> = r | _ \<Rightarrow> False)"

definition is_finite :: "jsnum \<Rightarrow> bool" where
  "is_finite n = (case n of Fin r \<Rightarrow> True | _ \<Rightarrow> False)"

definition math_trunc :: "rat \<Rightarrow> int" where
  "math_trunc r = (if 0 \<le> r then \<lfloor>r\<rfloor> else \<lceil>r\<rceil>)"

fun number_to_string :: "jsnum \<Rightarrow> string" where
  "number_to_string NaN = ''NaN''"
| "number_to_string PosInf = ''Infinity''"
| "number_to_string NegInf = ''-Infinity''"
| "number_to_string (Fin r) =
     (if r < 0 then ''-'' else []) @ nat_digits (nat \<lfloor>\<bar>r\<bar>\<rfloor>) @
     (if is_integer (Fin r) then [] else ''.'' @ frac_digits 20 (\<bar>r\<bar> - of_int \<lfloor>\<bar>r\<bar>\<rfloor>))"

fun string_of_val :: "jsval \<Rightarrow> string" where
  "string_of_val Undef = ''undefined''"
| "string_of_val Null = ''null''"
| "string_of_val (Bool b) = (if b then ''true'' else ''false'')"
| "string_of_val (Num n) = number_to_string n"
| "string_of_val (Str s) = s"
| "string_of_val (Arr xs) =
     join_with '','' (map (\<lambda>v. if nullish v then [] else string_of_val v) xs)"
| "string_of_val (Obj _) = ''[object Object]''"

fun number_of_val :: "jsval \<Rightarrow> jsnum" where
  "number_of_val Undef = NaN"
| "number_of_val Null = Fin 0"
| "number_of_val (Bool b) = Fin (if b then 1 else 0)"
| "number_of_val (Num n) = n"
| "number_of_val (Str s) = number_of_string s"
| "number_of_val (Arr xs) = number_of_string (string_of_val (Arr xs))"
| "number_of_val (Obj _) = NaN"

text \<open>\<open>const p = Number(v); Number.isInteger(p) && p > 0 ? p : undefined\<close>.\<close>

definition positive_integer :: "jsval \<Rightarrow> nat option" where
  "positive_integer v =
     (case number_of_val v of
        Fin r \<Rightarrow> if is_integer (Fin r) \<and> 0 < r then Some (nat \<lfloor>r\<rfloor>) else None
      | _ \<Rightarrow> None)"

text \<open>\<open>a > b\<close> on numbers: nothing is greater than \<open>NaN\<close>, and \<open>NaN\<close> is greater than nothing.\<close>

fun js_gt :: "jsnum \<Rightarrow> jsnum \<Rightarrow> bool" where
  "js_gt (Fin a) (Fin b) = (a > b)"
| "js_gt PosInf b = (b \<noteq> NaN \<and> b \<noteq> PosInf)"
| "js_gt a NegInf = (a \<noteq> NaN \<and> a \<noteq> NegInf)"
| "js_gt _ _ = False"

fun milliseconds :: "jsnum \<Rightarrow> jsnum" where
  "milliseconds (Fin r) = Fin (r * 1000)"
| "milliseconds n = n"

text \<open>\<open>a + n\<close> for a finite \<open>a\<close>.\<close>

fun shift_num :: "rat \<Rightarrow> jsnum \<Rightarrow> jsnum" where
  "shift_num a (Fin b) = Fin (a + b)"
| "shift_num a n = n"

lemma is_integer_of_int [simp]: "is_integer (Fin (of_int n))"
  by (simp add: is_integer_def)

lemma is_integer_of_nat [simp]: "is_integer (Fin (of_nat n))"
  by (metis is_integer_of_int of_int_of_nat_eq)

lemma is_integer_numeral [simp]:
  "is_integer (Fin (numeral k))" "is_integer (Fin 0)" "is_integer (Fin 1)"
  by (simp_all add: is_integer_def)

lemma positive_integer_pos: "positive_integer v = Some n \<Longrightarrow> 0 < n"
  by (auto simp: positive_integer_def is_integer_def split: jsnum.splits if_splits)

lemma positive_integer_of_nat: "positive_integer (num (of_nat n)) = (if n = 0 then None else Some n)"
  by (simp add: positive_integer_def)

section \<open>Reading back a printed number\<close>

lemma digits_not_ws: "is_digit c \<Longrightarrow> \<not> is_ws c"
  by (auto simp: is_digit_def is_ws_def)

lemma trim_no_ws: "\<forall>c \<in> set s. \<not> is_ws c \<Longrightarrow> trim s = s"
proof -
  assume a: "\<forall>c \<in> set s. \<not> is_ws c"
  then have "dropWhile is_ws s = s" by (cases s) auto
  moreover have "dropWhile is_ws (rev s) = rev s" using a by (cases "rev s") (auto dest: arg_cong [of _ _ set])
  ultimately show ?thesis by (simp add: trim_def)
qed

lemma parse_unsigned_digits:
  assumes "s \<noteq> []" and "\<forall>c \<in> set s. is_digit c"
  shows "parse_unsigned s = Fin (of_nat (digits_val s))"
proof -
  have tw: "takeWhile is_digit s = s" and dw: "dropWhile is_digit s = []"
    using assms(2) by (auto simp: takeWhile_eq_all_conv)
  have "s \<noteq> ''Infinity''"
    using assms by (auto simp: is_digit_def)
  then show ?thesis
    unfolding parse_unsigned_def tw dw
    using assms(1) by (simp add: parse_fraction_def parse_exponent_def pow10_def)
qed

lemma number_of_digits:
  assumes "s \<noteq> []" and "\<forall>c \<in> set s. is_digit c"
  shows "number_of_string s = Fin (of_nat (digits_val s))"
proof -
  obtain c r where s: "s = c # r" using assms(1) by (cases s) auto
  have tr: "trim s = s" using assms by (intro trim_no_ws) (auto dest: digits_not_ws)
  have c: "is_digit c" and hd: "r \<noteq> [] \<Longrightarrow> is_digit (hd r)"
    using assms(2) by (auto simp: s neq_Nil_conv)
  have "c \<noteq> CHR ''+''" "c \<noteq> CHR ''-''"
    using c by (auto simp: is_digit_def)
  moreover have "\<not> (r \<noteq> [] \<and> hd r \<in> set ''xX'')" "\<not> (r \<noteq> [] \<and> hd r \<in> set ''oO'')"
    "\<not> (r \<noteq> [] \<and> hd r \<in> set ''bB'')"
    using hd by (auto simp: is_digit_def)
  ultimately have "number_of_string s = parse_unsigned s"
    unfolding number_of_string_def tr unfolding s list.case by (simp only: if_False simp_thms)
  then show ?thesis by (simp add: parse_unsigned_digits [OF assms])
qed

lemma number_of_printed_nat: "number_of_string (nat_digits n) = Fin (of_nat n)"
  by (simp add: number_of_digits nat_digits_are_digits digits_val_nat_digits)

end
