(* ===== verification/Base64.thy ===== *)
theory Base64
  imports Prelude
begin

text \<open>
  Node's \<open>Buffer.toString('base64' | 'base64url')\<close> and \<open>Buffer.from(s, 'base64')\<close>, which the
  session cookies and the encryption envelopes use. A byte is a \<open>char\<close>. The decoder reads
  both alphabets, stops at the padding and skips every other character, as Node does.
\<close>

definition b64_index :: "bool \<Rightarrow> nat \<Rightarrow> char" where
  "b64_index url n =
     (if n < 26 then char_of (65 + n) else if n < 52 then char_of (97 + (n - 26))
      else if n < 62 then char_of (48 + (n - 52))
      else if n = 62 then (if url then CHR ''-'' else CHR ''+'')
      else (if url then CHR ''_'' else CHR ''/''))"

definition b64_value :: "char \<Rightarrow> nat option" where
  "b64_value c = (let n = (of_char c :: nat) in
     if 65 \<le> n \<and> n \<le> 90 then Some (n - 65)
     else if 97 \<le> n \<and> n \<le> 122 then Some (n - 97 + 26)
     else if 48 \<le> n \<and> n \<le> 57 then Some (n - 48 + 52)
     else if n = 43 \<or> n = 45 then Some 62
     else if n = 47 \<or> n = 95 then Some 63
     else None)"

fun b64_encode :: "bool \<Rightarrow> string \<Rightarrow> string" where
  "b64_encode url [] = []"
| "b64_encode url [a] =
     (let n = of_char a * 16 in
      [b64_index url (n div 64), b64_index url (n mod 64)] @ (if url then [] else ''==''))"
| "b64_encode url [a, b] =
     (let n = (of_char a * 256 + of_char b) * 4 in
      [b64_index url (n div 4096), b64_index url (n div 64 mod 64), b64_index url (n mod 64)] @
      (if url then [] else ''=''))"
| "b64_encode url (a # b # c # r) =
     (let n = (of_char a * 256 + of_char b) * 256 + of_char c in
      [b64_index url (n div 262144), b64_index url (n div 4096 mod 64),
       b64_index url (n div 64 mod 64), b64_index url (n mod 64)] @ b64_encode url r)"

fun b64_groups :: "nat list \<Rightarrow> string" where
  "b64_groups (w # x # y # z # r) =
     (let n = ((w * 64 + x) * 64 + y) * 64 + z in
      [char_of (n div 65536), char_of (n div 256 mod 256), char_of (n mod 256)] @ b64_groups r)"
| "b64_groups [w, x, y] =
     (let n = (w * 64 + x) * 64 + y in [char_of (n div 1024), char_of (n div 4 mod 256)])"
| "b64_groups [w, x] = [char_of ((w * 64 + x) div 16)]"
| "b64_groups [w] = []"
| "b64_groups [] = []"

definition b64_decode :: "string \<Rightarrow> string" where
  "b64_decode s =
     b64_groups (map the (filter (\<lambda>v. v \<noteq> None)
       (map b64_value (takeWhile (\<lambda>c. c \<noteq> CHR ''='') s))))"

section \<open>Round trip\<close>

lemma b64_value_index: "n < 64 \<Longrightarrow> b64_value (b64_index url n) = Some n"
  by (auto simp: b64_value_def b64_index_def Let_def)

lemma b64_index_not_pad: "n < 64 \<Longrightarrow> b64_index url n \<noteq> CHR ''=''"
proof
  assume "n < 64" and eq: "b64_index url n = CHR ''=''"
  then have "b64_value (CHR ''='') = Some n" by (metis b64_value_index)
  then show False by (simp add: b64_value_def)
qed

lemma byte_bound: "(of_char (c :: char) :: nat) < 256"
  by (rule nat_of_char_less_256)

lemma char_of_mod: "m mod 256 = of_char c \<Longrightarrow> char_of (m :: nat) = c"
  by (metis char_of_mod_256 char_of_char)

lemma two_bytes:
  fixes x y :: nat
  assumes "x < 256" "y < 256"
  shows "(x * 256 + y) * 4 < 262144"
proof -
  from assms have "x \<le> 255" "y \<le> 255" by simp_all
  then show ?thesis by simp
qed

lemma three_bytes:
  fixes x y z :: nat
  assumes "x < 256" "y < 256" "z < 256"
  shows "(x * 256 + y) * 256 + z < 16777216"
proof -
  from assms have "x \<le> 255" "y \<le> 255" "z \<le> 255" by simp_all
  then show ?thesis by simp
qed

lemma three_bytes_split:
  fixes x y z :: nat
  assumes "y < 256" "z < 256" and n: "n = (x * 256 + y) * 256 + z"
  shows "n div 65536 = x" "n div 256 mod 256 = y" "n mod 256 = z"
proof -
  have d: "n div 256 = x * 256 + y" unfolding n using assms(2) by (simp del: add_mult_distrib)
  then show "n div 256 mod 256 = y" using assms(1) by simp
  have "n div 65536 = n div 256 div 256" by (simp add: div_mult2_eq [symmetric])
  then show "n div 65536 = x" using d assms(1) by simp
  show "n mod 256 = z" unfolding n using assms(2) by (metis mod_less mod_mult_self3)
qed

definition sextets :: "string \<Rightarrow> nat list" where
  "sextets s = map the (filter (\<lambda>v. v \<noteq> None)
     (map b64_value (takeWhile (\<lambda>c. c \<noteq> CHR ''='') s)))"

lemma sextets_simps [simp]:
  "sextets [] = []"
  "sextets (CHR ''='' # s) = []"
  "n < 64 \<Longrightarrow> sextets (b64_index url n # s) = n # sextets s"
  by (simp_all add: sextets_def b64_value_index b64_index_not_pad)

lemma sextets_encode: "b64_groups (sextets (b64_encode url s)) = s"
proof (induction url s rule: b64_encode.induct)
  case (1 url)
  then show ?case by simp
next
  case (2 url a)
  have b: "of_char a div 4 < (64 :: nat)" by (rule less_mult_imp_div_less) simp
  have "of_char a div 4 * 64 + of_char a * 16 mod 64 = (of_char a * 16 :: nat)"
    using div_mult_mod_eq [of "of_char a * 16 :: nat" 64] by simp
  with b show ?case by (simp add: Let_def)
next
  case (3 url a b)
  define n :: nat where "n = (of_char a * 256 + of_char b) * 4"
  have n: "n < 262144" unfolding n_def by (rule two_bytes) (rule byte_bound)+
  have "(n div 4096 * 64 + n div 64 mod 64) * 64 + n mod 64 = n"
    using div_mult_mod_eq [of "n div 64" 64] div_mult_mod_eq [of n 64] div_mult2_eq [of n 64 64]
    by simp
  moreover have "n div 1024 = of_char a" "n div 4 mod 256 = of_char b"
    using byte_bound [of b] by (simp_all add: n_def)
  moreover have "n div 4096 < 64" using n by simp
  moreover have "b64_encode url [a, b] =
      [b64_index url (n div 4096), b64_index url (n div 64 mod 64), b64_index url (n mod 64)] @
      (if url then [] else ''='')"
    by (simp only: b64_encode.simps Let_def n_def)
  ultimately show ?case by (simp add: Let_def char_of_mod del: b64_encode.simps)
next
  case (4 url a b c r)
  define n :: nat where "n = (of_char a * 256 + of_char b) * 256 + of_char c"
  have n: "n < 16777216"
    unfolding n_def by (rule three_bytes) (rule byte_bound)+
  have "((n div 262144 * 64 + n div 4096 mod 64) * 64 + n div 64 mod 64) * 64 + n mod 64 = n"
    using div_mult_mod_eq [of "n div 4096" 64] div_mult_mod_eq [of "n div 64" 64]
      div_mult_mod_eq [of n 64] div_mult2_eq [of n 64 64] div_mult2_eq [of n 4096 64]
    by simp
  moreover have "n div 65536 = of_char a" "n div 256 mod 256 = of_char b" "n mod 256 = of_char c"
    by (rule three_bytes_split [OF byte_bound byte_bound n_def])+
  moreover have "n div 262144 < 64" using n by simp
  moreover have "b64_groups (sextets (b64_encode url r)) = r"
    using 4 by simp
  moreover have "b64_encode url (a # b # c # r) =
      [b64_index url (n div 262144), b64_index url (n div 4096 mod 64),
       b64_index url (n div 64 mod 64), b64_index url (n mod 64)] @ b64_encode url r"
    by (simp only: b64_encode.simps Let_def n_def)
  ultimately show ?case by (simp add: Let_def char_of_mod del: b64_encode.simps)
qed

lemma b64_roundtrip: "b64_decode (b64_encode url s) = s"
  using sextets_encode by (simp add: b64_decode_def sextets_def)

text \<open>The URL-safe alphabet has no dot, semicolon or equals sign, so it can sit in a cookie.\<close>

definition url_char :: "char \<Rightarrow> bool" where
  "url_char c \<longleftrightarrow> (\<exists>n < 64. c = b64_index True n)"

lemma url_charI [intro]: "n < 64 \<Longrightarrow> url_char (b64_index True n)"
  by (auto simp: url_char_def)

lemma url_char_value: "url_char c \<Longrightarrow> b64_value c \<noteq> None"
  by (auto simp: url_char_def b64_value_index)

lemma not_url_char [simp]:
  "\<not> url_char (CHR ''.'')" "\<not> url_char (CHR '';'')" "\<not> url_char (CHR ''='')"
  "\<not> url_char (CHR '' '')"
  by (rule notI, drule url_char_value, simp add: b64_value_def)+

lemma b64_url_chars: "list_all url_char (b64_encode True s)"
proof (induction True s rule: b64_encode.induct)
  case (2 a)
  have "of_char a div 4 < (64 :: nat)" by (rule less_mult_imp_div_less) simp
  then show ?case by (auto simp: Let_def)
next
  case (3 a b)
  have "(of_char a * 256 + of_char b) * 4 div 4096 < (64 :: nat)"
    using two_bytes [OF byte_bound byte_bound, of a b] by (intro less_mult_imp_div_less) simp
  then show ?case by (simp only: b64_encode.simps Let_def) (auto simp: url_charI)
next
  case (4 a b c r)
  have "((of_char a * 256 + of_char b) * 256 + of_char c) div 262144 < (64 :: nat)"
    using three_bytes [OF byte_bound byte_bound byte_bound, of a b c]
    by (intro less_mult_imp_div_less) simp
  then show ?case using 4 by (simp only: b64_encode.simps Let_def) (auto simp: url_charI)
qed simp

lemma b64_url_safe: "\<not> url_char x \<Longrightarrow> x \<notin> set (b64_encode True s)"
  using b64_url_chars by (auto simp: list_all_iff)

end
