(* ===== verification/Encryption.thy ===== *)
theory Encryption
  imports Base64
begin

text \<open>
  Models \<open>security/encryption.service.ts\<close> and \<open>database/json.helper.ts\<close>: key lookup,
  envelopes, the encryption of stored values and Kafka messages, and the idempotency keys.
  The platform primitives (AES-GCM, HMAC, JSON text) are the fields of \<open>platform\<close>, an
  argument of every definition that uses them; theorems state what they rely on.
\<close>

section \<open>Platform and configuration\<close>

record platform =
  hmac_sha256_hex :: "string \<Rightarrow> string \<Rightarrow> string"
  gcm_seal :: "string \<Rightarrow> string \<Rightarrow> string \<Rightarrow> string \<times> string"
  gcm_open :: "string \<Rightarrow> string \<Rightarrow> string \<Rightarrow> string \<Rightarrow> string option"
  json_print :: "jsval \<Rightarrow> string"
  json_parse :: "string \<Rightarrow> jsval option"

text \<open>
  \<open>gcm_seal key iv plaintext\<close> is the ciphertext with its tag, \<open>gcm_open key iv ciphertext
  tag\<close> the plaintext when the tag verifies. \<open>process.env\<close> wins over the configuration service.
\<close>

record settings =
  process_env :: "string \<Rightarrow> string option"
  config_value :: "string \<Rightarrow> jsval"
  sqlite :: bool

definition readString :: "settings \<Rightarrow> string \<Rightarrow> jsval" where
  "readString cfg name =
     (case process_env cfg name of Some s \<Rightarrow> Str s | None \<Rightarrow> config_value cfg name)"

definition readText :: "settings \<Rightarrow> string \<Rightarrow> string option" where
  "readText cfg name = (case readString cfg name of Str s \<Rightarrow> Some s | _ \<Rightarrow> None)"

definition readFlag :: "settings \<Rightarrow> string \<Rightarrow> bool \<Rightarrow> bool" where
  "readFlag cfg name fallback =
     (case readString cfg name of Undef \<Rightarrow> fallback | v \<Rightarrow> v = Str ''true'')"

definition encryption_isEnabled :: "settings \<Rightarrow> bool" where
  "encryption_isEnabled cfg = readFlag cfg ''ENCRYPTION_ENABLED'' False"

definition isKafkaEncryptionEnabled :: "settings \<Rightarrow> bool" where
  "isKafkaEncryptionEnabled cfg =
     readFlag cfg ''ENCRYPTION_KAFKA_ENABLED'' (encryption_isEnabled cfg)"

definition isRotationMode :: "settings \<Rightarrow> bool" where
  "isRotationMode cfg = readFlag cfg ''ENCRYPTION_ROTATION_MODE'' False"

definition isIdempotencyHmacEnabled :: "settings \<Rightarrow> bool" where
  "isIdempotencyHmacEnabled cfg =
     readFlag cfg ''ENCRYPTION_IDEMPOTENCY_HMAC_ENABLED'' (encryption_isEnabled cfg)"

definition activeKeyId :: "settings \<Rightarrow> string result" where
  "activeKeyId cfg =
     (case readText cfg ''ENCRYPTION_ACTIVE_KEY_ID'' of
        Some (c # r) \<Rightarrow> Inr (c # r)
      | _ \<Rightarrow> (case readText cfg ''ENCRYPTION_KEY_ID'' of
                Some (c # r) \<Rightarrow> Inr (c # r)
              | _ \<Rightarrow> Inl (JsError
                  ''ENCRYPTION_ACTIVE_KEY_ID is required when encryption is enabled'')))"

section \<open>Key ring\<close>

definition parse_json :: "platform \<Rightarrow> string \<Rightarrow> jsval result" where
  "parse_json P s = (case json_parse P s of
     None \<Rightarrow> Inl (JsError ''SyntaxError: invalid JSON'') | Some v \<Rightarrow> Inr v)"

definition is_json_text :: "string option \<Rightarrow> bool" where
  "is_json_text t = (case t of None \<Rightarrow> False | Some s \<Rightarrow> starts_with ''{'' (trim s))"

definition keyIds :: "platform \<Rightarrow> settings \<Rightarrow> string list result" where
  "keyIds P cfg =
     (let t = readText cfg ''ENCRYPTION_KEYS'' in
      if is_json_text t
      then ebind (parse_json P (the t)) (\<lambda>v. Inr (map fst (as_obj v)))
      else (case csv_values (or_else t []) of
              [] \<Rightarrow> ebind (activeKeyId cfg) (\<lambda>k. Inr [k])
            | ks \<Rightarrow> Inr ks))"

definition isSecretReference :: "string \<Rightarrow> bool" where
  "isSecretReference v \<longleftrightarrow>
     starts_with ''secret://'' (to_lower v) \<or> starts_with ''aapm://'' (to_lower v)"

definition KEY_BYTES :: nat where
  "KEY_BYTES = 32"

definition parseKeyMaterial :: "string \<Rightarrow> string \<Rightarrow> string result" where
  "parseKeyMaterial keyId value =
     (if isSecretReference (trim value)
      then Inl (JsError (''Encryption key '' @ quoted keyId @ '' is still a secret reference. Enable '' @
        ''SECRETS_PROVIDER=IndeedPamAapm before encryption startup.''))
      else let key = b64_decode (trim value) in
        if length key \<noteq> KEY_BYTES
        then Inl (JsError (''Encryption key '' @ quoted keyId @ '' must be base64-encoded 32 bytes''))
        else Inr key)"

definition envKeySuffix :: "string \<Rightarrow> string" where
  "envKeySuffix keyId = to_upper (map (\<lambda>c. let n = (of_char c :: nat) in
     if 48 \<le> n \<and> n \<le> 57 \<or> 65 \<le> n \<and> n \<le> 90 \<or> 97 \<le> n \<and> n \<le> 122 then c else CHR ''_'') keyId)"

fun json_keyring :: "obj \<Rightarrow> (string \<times> string) list \<Rightarrow> (string \<times> string) list result" where
  "json_keyring [] keys = Inr keys"
| "json_keyring ((i, v) # r) keys =
     ebind (case v of Str s \<Rightarrow> parseKeyMaterial i s
                    | _ \<Rightarrow> Inl (JsError ''value.trim is not a function''))
       (\<lambda>k. json_keyring r (map_set i k keys))"

definition missing_key :: "string \<Rightarrow> exn" where
  "missing_key i = JsError (''Missing encryption key material for '' @ quoted i @
     ''. Set ENCRYPTION_KEY_'' @ envKeySuffix i)"

definition env_key :: "settings \<Rightarrow> string \<Rightarrow> string result" where
  "env_key cfg i =
     (case readText cfg (''ENCRYPTION_KEY_'' @ envKeySuffix i) of
        Some [] \<Rightarrow> Inl (missing_key i)
      | Some v \<Rightarrow> parseKeyMaterial i v
      | None \<Rightarrow> ebind (activeKeyId cfg) (\<lambda>a.
          if i = a
          then (case readText cfg ''ENCRYPTION_KEY'' of
                  Some (c # r) \<Rightarrow> parseKeyMaterial i (c # r)
                | _ \<Rightarrow> Inl (missing_key i))
          else Inl (missing_key i)))"

fun env_keyring :: "settings \<Rightarrow> string list \<Rightarrow> (string \<times> string) list \<Rightarrow> (string \<times> string) list result" where
  "env_keyring cfg [] keys = Inr keys"
| "env_keyring cfg (i # r) keys = ebind (env_key cfg i) (\<lambda>k. env_keyring cfg r (map_set i k keys))"

definition keyring :: "platform \<Rightarrow> settings \<Rightarrow> (string \<times> string) list result" where
  "keyring P cfg =
     (let t = readText cfg ''ENCRYPTION_KEYS'' in
      if is_json_text t
      then ebind (parse_json P (the t)) (\<lambda>v. json_keyring (as_obj v) [])
      else ebind (keyIds P cfg) (\<lambda>ids. env_keyring cfg ids []))"

definition requireKey :: "platform \<Rightarrow> settings \<Rightarrow> string \<Rightarrow> string result" where
  "requireKey P cfg keyId =
     ebind (keyring P cfg) (\<lambda>ring.
       case map_of ring keyId of
         None \<Rightarrow> Inl (JsError (''Encryption key '' @ quoted keyId @ '' is not present in keyring''))
       | Some k \<Rightarrow> Inr k)"

definition validateConfiguration :: "platform \<Rightarrow> settings \<Rightarrow> unit result" where
  "validateConfiguration P cfg =
     (if \<not> encryption_isEnabled cfg then Inr ()
      else ebind (keyring P cfg) (\<lambda>ring. ebind (activeKeyId cfg) (\<lambda>a.
        guard_exn (map_of ring a \<noteq> None)
          (JsError (''Active encryption key '' @ quoted a @ '' is not present in ENCRYPTION_KEYS/keyring'')))))"

section \<open>Envelopes\<close>

definition ENVELOPE_MARKER :: string where
  "ENVELOPE_MARKER = ''idmmw.v1''"

definition ENVELOPE_ALG :: string where
  "ENVELOPE_ALG = ''AES-256-GCM''"

fun is_str :: "jsval \<Rightarrow> bool" where
  "is_str (Str s) = True"
| "is_str _ = False"

definition isEnvelope :: "jsval \<Rightarrow> bool" where
  "isEnvelope v =
     (case v of
        Obj kvs \<Rightarrow>
          js_get kvs ''__enc'' = Str ENVELOPE_MARKER \<and> js_get kvs ''alg'' = Str ENVELOPE_ALG \<and>
          is_str (js_get kvs ''kid'') \<and> is_str (js_get kvs ''iv'') \<and>
          is_str (js_get kvs ''tag'') \<and> is_str (js_get kvs ''ct'')
      | _ \<Rightarrow> False)"

definition envelope :: "string \<Rightarrow> string \<Rightarrow> string \<Rightarrow> string \<Rightarrow> obj" where
  "envelope kid iv tag ct =
     [(''__enc'', Str ENVELOPE_MARKER), (''alg'', Str ENVELOPE_ALG), (''kid'', Str kid),
      (''iv'', Str (b64_encode False iv)), (''tag'', Str (b64_encode False tag)),
      (''ct'', Str (b64_encode False ct))]"

text \<open>The random initialisation vector is an argument.\<close>

definition encryptObject :: "platform \<Rightarrow> settings \<Rightarrow> string \<Rightarrow> jsval \<Rightarrow> jsval result" where
  "encryptObject P cfg iv v =
     ebind (activeKeyId cfg) (\<lambda>keyId. ebind (requireKey P cfg keyId) (\<lambda>key.
       let sealed = gcm_seal P key iv (json_print P v) in
       Inr (Obj (envelope keyId iv (snd sealed) (fst sealed)))))"

definition str_field :: "obj \<Rightarrow> string \<Rightarrow> string" where
  "str_field kvs k = (case js_get kvs k of Str s \<Rightarrow> s | _ \<Rightarrow> [])"

definition decryptObject :: "platform \<Rightarrow> settings \<Rightarrow> obj \<Rightarrow> jsval result" where
  "decryptObject P cfg env =
     (if js_get env ''__enc'' \<noteq> Str ENVELOPE_MARKER \<or> js_get env ''alg'' \<noteq> Str ENVELOPE_ALG
      then Inl (JsError ''Unsupported encryption envelope'')
      else ebind (requireKey P cfg (str_field env ''kid'')) (\<lambda>key.
        case gcm_open P key (b64_decode (str_field env ''iv'')) (b64_decode (str_field env ''ct''))
               (b64_decode (str_field env ''tag'')) of
          None \<Rightarrow> Inl (JsError ''Unsupported state or unable to authenticate data'')
        | Some plaintext \<Rightarrow> parse_json P plaintext))"

definition encryptForStorage :: "platform \<Rightarrow> settings \<Rightarrow> string \<Rightarrow> jsval \<Rightarrow> jsval result" where
  "encryptForStorage P cfg iv v =
     (if \<not> encryption_isEnabled cfg then Inr v else encryptObject P cfg iv v)"

definition decryptFromStorage :: "platform \<Rightarrow> settings \<Rightarrow> jsval \<Rightarrow> jsval result" where
  "decryptFromStorage P cfg v =
     (if nullish v then Inr Null
      else if isEnvelope v then decryptObject P cfg (as_obj v)
      else Inr v)"

definition encodeKafkaMessage :: "platform \<Rightarrow> settings \<Rightarrow> string \<Rightarrow> obj \<Rightarrow> string result" where
  "encodeKafkaMessage P cfg iv msg =
     (if \<not> isKafkaEncryptionEnabled cfg then Inr (json_print P (Obj msg))
      else ebind (encryptObject P cfg iv (Obj msg)) (\<lambda>v. Inr (json_print P v)))"

definition decodeKafkaMessage :: "platform \<Rightarrow> settings \<Rightarrow> string \<Rightarrow> jsval result" where
  "decodeKafkaMessage P cfg raw =
     ebind (parse_json P raw) (\<lambda>v.
       if isEnvelope v then decryptObject P cfg (as_obj v) else Inr v)"

definition idempotencyKeys :: "platform \<Rightarrow> settings \<Rightarrow> string \<Rightarrow> string list result" where
  "idempotencyKeys P cfg sourceKey =
     (if \<not> isIdempotencyHmacEnabled cfg then Inr [sourceKey]
      else ebind (keyring P cfg) (\<lambda>ring. ebind (activeKeyId cfg) (\<lambda>a.
        Inr (map (\<lambda>e. ''idmmw:hmac:'' @ fst e @ '':'' @ hmac_sha256_hex P (snd e) sourceKey)
          (filter (\<lambda>e. fst e = a) ring @ filter (\<lambda>e. fst e \<noteq> a) ring)))))"

section \<open>\<open>JsonHelper\<close>\<close>

definition toJson :: "platform \<Rightarrow> settings \<Rightarrow> string \<Rightarrow> jsval \<Rightarrow> jsval result" where
  "toJson P cfg iv v =
     ebind (encryptForStorage P cfg iv v) (\<lambda>stored.
       Inr (if sqlite cfg then Str (json_print P stored) else stored))"

definition fromJson :: "platform \<Rightarrow> settings \<Rightarrow> jsval \<Rightarrow> jsval result" where
  "fromJson P cfg v =
     (if v = Null then Inr Null
      else ebind (if sqlite cfg then (case v of Str s \<Rightarrow> parse_json P s | _ \<Rightarrow> Inl (JsError ''SyntaxError: invalid JSON'')) else Inr v)
        (decryptFromStorage P cfg))"

section \<open>Lemmas\<close>

lemma isEnvelope_record: "isEnvelope v \<Longrightarrow> v = Obj (as_obj v)"
  by (cases v) (simp_all add: isEnvelope_def)

lemma envelope_fields [simp]:
  "js_get (envelope kid iv tag ct) ''__enc'' = Str ENVELOPE_MARKER"
  "js_get (envelope kid iv tag ct) ''alg'' = Str ENVELOPE_ALG"
  "str_field (envelope kid iv tag ct) ''kid'' = kid"
  "str_field (envelope kid iv tag ct) ''iv'' = b64_encode False iv"
  "str_field (envelope kid iv tag ct) ''tag'' = b64_encode False tag"
  "str_field (envelope kid iv tag ct) ''ct'' = b64_encode False ct"
  by (simp_all add: envelope_def js_get_def str_field_def)

lemma isEnvelope_envelope [simp]: "isEnvelope (Obj (envelope kid iv tag ct))"
  by (simp add: isEnvelope_def envelope_def js_get_def)

lemma encryptObject_Inr:
  "encryptObject P cfg iv v = Inr env \<longleftrightarrow>
     (\<exists>a key. activeKeyId cfg = Inr a \<and> requireKey P cfg a = Inr key \<and>
       env = Obj (envelope a iv (snd (gcm_seal P key iv (json_print P v)))
         (fst (gcm_seal P key iv (json_print P v)))))"
  by (auto simp: encryptObject_def ebind_Inr_iff Let_def)

text \<open>
  What one configuration encrypted, another one reads as long as it still knows the key.
\<close>

lemma decrypt_encrypted:
  assumes enc: "encryptObject P cfg iv v = Inr env"
    and key: "\<And>a. activeKeyId cfg = Inr a \<Longrightarrow> requireKey P cfg' a = requireKey P cfg a"
    and gcm: "\<And>k pt. gcm_open P k iv (fst (gcm_seal P k iv pt)) (snd (gcm_seal P k iv pt)) = Some pt"
    and json: "json_parse P (json_print P v) = Some v"
  shows "decryptFromStorage P cfg' env = Inr v"
proof -
  obtain a k where f: "activeKeyId cfg = Inr a" "requireKey P cfg a = Inr k"
    and env: "env = Obj (envelope a iv (snd (gcm_seal P k iv (json_print P v)))
         (fst (gcm_seal P k iv (json_print P v))))"
    using enc by (auto simp: encryptObject_Inr)
  show ?thesis
    using f key [OF f(1)]
    by (simp add: env decryptFromStorage_def nullish_def decryptObject_def b64_roundtrip gcm json
        parse_json_def)
qed

lemma fromJson_toJson:
  assumes enc: "encryptForStorage P cfg iv v = Inr stored"
    and key: "\<And>a. activeKeyId cfg = Inr a \<Longrightarrow> requireKey P cfg' a = requireKey P cfg a"
    and gcm: "\<And>k pt. gcm_open P k iv (fst (gcm_seal P k iv pt)) (snd (gcm_seal P k iv pt)) = Some pt"
    and json: "json_parse P (json_print P v) = Some v"
      "json_parse P (json_print P stored) = Some stored"
    and sq: "sqlite cfg' = sqlite cfg" and v: "\<not> nullish v" "\<not> isEnvelope v"
  shows "ebind (toJson P cfg iv v) (fromJson P cfg') = Inr v"
proof -
  have dec: "decryptFromStorage P cfg' stored = Inr v"
  proof (cases "encryption_isEnabled cfg")
    case True
    with enc have "encryptObject P cfg iv v = Inr stored" by (simp add: encryptForStorage_def)
    then show ?thesis by (rule decrypt_encrypted [OF _ key gcm json(1)])
  next
    case False
    with enc v show ?thesis by (simp add: encryptForStorage_def decryptFromStorage_def)
  qed
  then have "stored \<noteq> Null" using v by (auto simp: decryptFromStorage_def nullish_def)
  with dec show ?thesis
    by (simp add: toJson_def enc fromJson_def sq parse_json_def json)
qed

section \<open>Properties\<close>

text \<open>
  What is written to the database is read back: a value stored under one configuration,
  encrypted or not, in PostgreSQL or SQLite, is recovered exactly under any later
  configuration whose key ring still holds the key that was active when it was written, so
  a key rotation loses nothing. The hypotheses are that AES-GCM opens what it sealed, that
  the value and its stored form survive \<open>JSON.stringify\<close> and \<open>JSON.parse\<close>, and that the value
  is neither null nor itself shaped like an envelope.
\<close>

theorem stored_value_survives_key_rotation:
  assumes "encryptForStorage P cfg iv v = Inr stored"
    and "\<And>a. activeKeyId cfg = Inr a \<Longrightarrow> requireKey P cfg' a = requireKey P cfg a"
    and "\<And>k pt. gcm_open P k iv (fst (gcm_seal P k iv pt)) (snd (gcm_seal P k iv pt)) = Some pt"
    and "json_parse P (json_print P v) = Some v"
    and "json_parse P (json_print P stored) = Some stored"
    and "sqlite cfg' = sqlite cfg" and "\<not> nullish v" and "\<not> isEnvelope v"
  shows "ebind (toJson P cfg iv v) (fromJson P cfg') = Inr v"
  by (rule fromJson_toJson [OF assms])

text \<open>A small configuration with two keys, before and after a rotation from \<open>k1\<close> to \<open>k2\<close>.\<close>

definition demo_key :: string where
  "demo_key = ''YWFhYWFhYWFhYWFhYWFhYWFhYWFhYWFhYWFhYWFhYWE=''"

definition demo_settings :: "string \<Rightarrow> settings" where
  "demo_settings active =
     \<lparr>process_env = map_of [(''ENCRYPTION_ENABLED'', ''true''), (''ENCRYPTION_KEYS'', ''k1,k2''),
        (''ENCRYPTION_ACTIVE_KEY_ID'', active), (''ENCRYPTION_KEY_K1'', demo_key),
        (''ENCRYPTION_KEY_K2'', demo_key)],
      config_value = (\<lambda>_. Undef), sqlite = False\<rparr>"

definition demo_platform :: platform where
  "demo_platform =
     \<lparr>hmac_sha256_hex = (\<lambda>k m. k @ m), gcm_seal = (\<lambda>k iv pt. (pt, ''tag'')),
      gcm_open = (\<lambda>k iv ct tag. Some ct),
      json_print = (\<lambda>v. if v = Str ''x'' then ''X'' else ''E''),
      json_parse = (\<lambda>s. if s = ''X'' then Some (Str ''x'')
                        else Some (Obj (envelope ''k1'' ''iv'' ''tag'' ''X'')))\<rparr>"

lemma demo_triple: "b64_encode False (CHR ''a'' # CHR ''a'' # CHR ''a'' # r) = ''YWFh'' @ b64_encode False r"
  by (simp add: b64_index_def) (intro conjI char_of_mod; simp)

lemma demo_pair: "b64_encode False ''aa'' = ''YWE=''"
  by (simp add: b64_index_def) (intro conjI char_of_mod; simp)

lemma demo_key_encodes: "demo_key = b64_encode False (replicate 32 (CHR ''a''))"
proof -
  have r: "replicate 32 (CHR ''a'') = ''aaaaaaaaaaaaaaaaaaaaaaaaaaaaaaaa''"
    by (simp add: numeral_eq_Suc)
  show ?thesis by (simp only: r demo_triple demo_pair demo_key_def append.simps)
qed

lemma demo_key_material: "parseKeyMaterial i demo_key = Inr (replicate 32 (CHR ''a''))"
proof -
  have "trim demo_key = demo_key" by (simp add: demo_key_def trim_def)
  moreover have "\<not> isSecretReference demo_key"
    by (simp add: isSecretReference_def demo_key_def to_lower_def starts_with_def)
  ultimately show ?thesis
    by (simp only: parseKeyMaterial_def KEY_BYTES_def) (simp add: demo_key_encodes b64_roundtrip)
qed

definition demo_ring :: "(string \<times> string) list" where
  "demo_ring = [(''k1'', replicate 32 (CHR ''a'')), (''k2'', replicate 32 (CHR ''a''))]"

lemma demo_text:
  "readText (demo_settings a) ''ENCRYPTION_KEYS'' = Some ''k1,k2''"
  "readText (demo_settings a) ''ENCRYPTION_KEY_K1'' = Some demo_key"
  "readText (demo_settings a) ''ENCRYPTION_KEY_K2'' = Some demo_key"
  by (simp_all add: demo_settings_def readText_def readString_def)

lemma demo_keyring:
  "keyring P (demo_settings a) = Inr demo_ring"
proof -
  have s: "envKeySuffix ''k1'' = ''K1''" "envKeySuffix ''k2'' = ''K2''"
    by (simp_all add: envKeySuffix_def to_upper_def)
  have n: "demo_key \<noteq> []" by (simp add: demo_key_def)
  have e: "env_key (demo_settings a) i = Inr (replicate 32 (CHR ''a''))"
    if "i = ''k1'' \<or> i = ''k2''" for i
    using that n demo_key_material [of i]
    by (auto simp: env_key_def s demo_text split: list.split)
  have "csv_values ''k1,k2'' = [''k1'', ''k2'']" by (simp add: csv_values_def trim_def)
  then have "keyIds P (demo_settings a) = Inr [''k1'', ''k2'']"
    by (simp add: keyIds_def demo_text is_json_text_def starts_with_def trim_def)
  moreover have "\<not> is_json_text (readText (demo_settings a) ''ENCRYPTION_KEYS'')"
    by (simp add: demo_text is_json_text_def starts_with_def trim_def)
  ultimately show ?thesis by (simp add: keyring_def e demo_ring_def)
qed

theorem stored_value_survives_key_rotation_witness:
  "\<exists>stored. encryptForStorage demo_platform (demo_settings ''k1'') ''iv'' (Str ''x'') = Inr stored \<and>
     isEnvelope stored \<and>
     ebind (toJson demo_platform (demo_settings ''k1'') ''iv'' (Str ''x''))
       (fromJson demo_platform (demo_settings ''k2'')) = Inr (Str ''x'')"
proof -
  let ?env = "Obj (envelope ''k1'' ''iv'' ''tag'' ''X'')"
  have a: "activeKeyId (demo_settings k) = (case k of [] \<Rightarrow> activeKeyId (demo_settings k) | _ \<Rightarrow> Inr k)" for k
    by (cases k) (simp_all add: activeKeyId_def readText_def readString_def demo_settings_def)
  have e: "encryption_isEnabled (demo_settings k)" for k
    by (simp add: encryption_isEnabled_def readFlag_def readString_def demo_settings_def)
  have req: "requireKey P (demo_settings k) ''k1'' = Inr (replicate 32 (CHR ''a''))" for P k
    by (simp add: requireKey_def demo_keyring demo_ring_def)
  have enc: "encryptForStorage demo_platform (demo_settings ''k1'') ''iv'' (Str ''x'') = Inr ?env"
    using a [of "''k1''"] req
    by (simp add: encryptForStorage_def e encryptObject_def demo_platform_def)
  have "ebind (toJson demo_platform (demo_settings ''k1'') ''iv'' (Str ''x''))
       (fromJson demo_platform (demo_settings ''k2'')) = Inr (Str ''x'')"
    by (rule stored_value_survives_key_rotation [OF enc])
      (use a [of "''k1''"] req in \<open>simp_all add: demo_platform_def demo_settings_def nullish_def isEnvelope_def\<close>)
  with enc show ?thesis by auto
qed

text \<open>
  Duplicate detection survives a key rotation. The key under which an event was locked,
  the first of its idempotency keys, is among the keys that any later configuration checks,
  as long as that configuration still lists the key material that was active then.
\<close>

theorem idempotency_key_survives_rotation:
  assumes "idempotencyKeys P cfg k = Inr (locked # older)"
    and "isIdempotencyHmacEnabled cfg" and "isIdempotencyHmacEnabled cfg'"
    and "keyring P cfg = Inr ring" and "activeKeyId cfg = Inr a" and "map_of ring a \<noteq> None"
    and "keyring P cfg' = Inr ring'" and "activeKeyId cfg' = Inr a'" and "set ring \<subseteq> set ring'"
  shows "\<exists>keys. idempotencyKeys P cfg' k = Inr keys \<and> locked \<in> set keys"
proof -
  let ?f = "\<lambda>e. ''idmmw:hmac:'' @ fst e @ '':'' @ hmac_sha256_hex P (snd e) k"
  let ?order = "\<lambda>a ring. filter (\<lambda>e. fst e = a) ring @ filter (\<lambda>e. fst e \<noteq> a) ring"
  have "locked # older = map ?f (?order a ring)"
    using assms(1,2,4,5) by (simp add: idempotencyKeys_def)
  then have "locked \<in> set (map ?f (?order a ring))" by (metis list.set_intros(1))
  then have "locked \<in> ?f ` set ring" by auto
  moreover have "idempotencyKeys P cfg' k = Inr (map ?f (?order a' ring'))"
    using assms by (simp add: idempotencyKeys_def)
  ultimately show ?thesis using assms(9) by auto
qed

theorem idempotency_key_survives_rotation_witness:
  "\<exists>keys. idempotencyKeys demo_platform (demo_settings ''k2'') ''e'' = Inr keys \<and>
     ''idmmw:hmac:k1:'' @ replicate 32 (CHR ''a'') @ ''e'' \<in> set keys"
proof (rule idempotency_key_survives_rotation)
  have f: "isIdempotencyHmacEnabled (demo_settings a)" for a
    by (simp add: isIdempotencyHmacEnabled_def encryption_isEnabled_def readFlag_def
        readString_def demo_settings_def)
  then show "isIdempotencyHmacEnabled (demo_settings ''k1'')"
    "isIdempotencyHmacEnabled (demo_settings ''k2'')" by simp_all
  show a: "activeKeyId (demo_settings ''k1'') = Inr ''k1''"
    "activeKeyId (demo_settings ''k2'') = Inr ''k2''"
    by (simp_all add: activeKeyId_def readText_def readString_def demo_settings_def)
  show "idempotencyKeys demo_platform (demo_settings ''k1'') ''e'' =
      Inr ((''idmmw:hmac:k1:'' @ replicate 32 (CHR ''a'') @ ''e'') #
           [''idmmw:hmac:k2:'' @ replicate 32 (CHR ''a'') @ ''e''])"
    by (simp add: idempotencyKeys_def f demo_keyring demo_ring_def a demo_platform_def)
  show "keyring demo_platform (demo_settings ''k1'') = Inr demo_ring"
    "keyring demo_platform (demo_settings ''k2'') = Inr demo_ring"
    by (simp_all only: demo_keyring demo_ring_def)
  show "map_of demo_ring ''k1'' \<noteq> None" by (simp add: demo_ring_def)
qed simp

end
