(* ===== verification/Retry.thy ===== *)
theory Retry
  imports JsNumber Encryption
begin

text \<open>
  Models \<open>core/retry/retry.service.ts\<close> and \<open>core/retry/retry-policy.service.ts\<close>: the retry
  loop with exponential backoff, and the policy of a target system. The retried function is
  a state transformer that may throw; the waits of the loop are part of its result.
\<close>

section \<open>Options\<close>

record retry_options =
  maxRetries :: nat
  baseDelayMs :: nat
  maxDelayMs :: nat
  jitter :: bool

record retry_policy = retry_options +
  dlqLeaseSeconds :: nat

definition DEFAULT_RETRY_POLICY :: retry_policy where
  "DEFAULT_RETRY_POLICY =
     \<lparr>maxRetries = 3, baseDelayMs = 1000, maxDelayMs = 30000, jitter = True,
      dlqLeaseSeconds = 300\<rparr>"

text \<open>\<open>r\<close> is the value of \<open>Math.random()\<close>, at least 0 and below 1.\<close>

definition calculateDelay :: "rat \<Rightarrow> nat \<Rightarrow> ('m) retry_options_scheme \<Rightarrow> nat" where
  "calculateDelay r attempt opts =
     (let exponential = baseDelayMs opts * 2 ^ attempt;
          capped = min exponential (maxDelayMs opts)
      in if \<not> jitter opts then capped else nat \<lfloor>of_nat capped * (1 / 2 + r * (1 / 2))\<rfloor>)"

section \<open>The loop\<close>

function retry_from ::
  "('s \<Rightarrow> 'a result \<times> 's) \<Rightarrow> ('m) retry_options_scheme \<Rightarrow> (nat \<Rightarrow> rat) \<Rightarrow> nat \<Rightarrow> 's \<Rightarrow>
   'a result \<times> nat list \<times> 's" where
  "retry_from f opts rnd attempt s =
     (if maxRetries opts < attempt then (Inl (JsError ''Retry exhausted''), [], s)
      else case f s of
        (Inr a, s') \<Rightarrow> (Inr a, [], s')
      | (Inl e, s') \<Rightarrow>
          if attempt = maxRetries opts then (Inl e, [], s')
          else (case retry_from f opts rnd (Suc attempt) s' of
                  (r, waits, s'') \<Rightarrow> (r, calculateDelay (rnd attempt) attempt opts # waits, s'')))"
  by pat_completeness auto
termination
  by (relation "measure (\<lambda>(f, opts, rnd, attempt, s). Suc (maxRetries opts) - attempt)") auto

declare retry_from.simps [simp del]

definition retry_execute ::
  "('s \<Rightarrow> 'a result \<times> 's) \<Rightarrow> ('m) retry_options_scheme \<Rightarrow> (nat \<Rightarrow> rat) \<Rightarrow> 's \<Rightarrow>
   'a result \<times> nat list \<times> 's" where
  "retry_execute f opts rnd s = retry_from f opts rnd 0 s"

text \<open>What the calls do, one after the other: the state before call \<open>n\<close>, and its outcome.\<close>

fun state_after :: "('s \<Rightarrow> 'a result \<times> 's) \<Rightarrow> nat \<Rightarrow> 's \<Rightarrow> 's" where
  "state_after f 0 s = s"
| "state_after f (Suc n) s = state_after f n (snd (f s))"

definition call_outcome :: "('s \<Rightarrow> 'a result \<times> 's) \<Rightarrow> nat \<Rightarrow> 's \<Rightarrow> 'a result" where
  "call_outcome f n s = fst (f (state_after f n s))"

lemma call_outcome_Suc: "call_outcome f (Suc n) s = call_outcome f n (snd (f s))"
  by (simp add: call_outcome_def)

lemma retry_from_failing:
  assumes "attempt < maxRetries opts" and "call_outcome f 0 s = Inl e"
  shows "retry_from f opts rnd attempt s =
    (case retry_from f opts rnd (Suc attempt) (snd (f s)) of
       (r, waits, s') \<Rightarrow> (r, calculateDelay (rnd attempt) attempt opts # waits, s'))"
proof -
  from assms(2) have "f s = (Inl e, snd (f s))" by (simp add: call_outcome_def prod_eq_iff)
  with assms(1) show ?thesis by (subst retry_from.simps) (auto split: prod.split)
qed

lemma retry_from_success:
  assumes "attempt + k \<le> maxRetries opts"
    and "\<forall>i < k. \<exists>e. call_outcome f i s = Inl e" and "call_outcome f k s = Inr a"
  shows "retry_from f opts rnd attempt s =
    (Inr a, map (\<lambda>i. calculateDelay (rnd i) i opts) [attempt..<attempt + k], state_after f (Suc k) s)"
  using assms
proof (induction k arbitrary: attempt s)
  case 0
  then have "f s = (Inr a, snd (f s))" by (simp add: call_outcome_def prod_eq_iff)
  with 0 show ?case by (subst retry_from.simps) (auto split: prod.split)
next
  case (Suc k)
  from Suc.prems(2) obtain e where "call_outcome f 0 s = Inl e" by blast
  moreover have "retry_from f opts rnd (Suc attempt) (snd (f s)) =
      (Inr a, map (\<lambda>i. calculateDelay (rnd i) i opts) [Suc attempt..<Suc attempt + k],
       state_after f (Suc k) (snd (f s)))"
    using Suc.prems by (intro Suc.IH) (auto simp: call_outcome_Suc)
  ultimately show ?case
    using Suc.prems(1) by (subst retry_from_failing) (auto simp: upt_conv_Cons not_le)
qed

lemma retry_from_exhausted:
  assumes "attempt \<le> maxRetries opts"
    and "\<forall>i \<le> maxRetries opts - attempt. \<exists>e. call_outcome f i s = Inl e"
  shows "retry_from f opts rnd attempt s =
    (call_outcome f (maxRetries opts - attempt) s,
     map (\<lambda>i. calculateDelay (rnd i) i opts) [attempt..<maxRetries opts],
     state_after f (Suc (maxRetries opts - attempt)) s)"
  using assms
proof (induction "maxRetries opts - attempt" arbitrary: attempt s)
  case 0
  then have eq: "attempt = maxRetries opts" by simp
  with 0 obtain e where "call_outcome f 0 s = Inl e" by auto
  then obtain s' where "f s = (Inl e, s')" by (cases "f s") (simp add: call_outcome_def)
  then show ?case by (subst retry_from.simps) (simp add: eq call_outcome_def)
next
  case (Suc k)
  then have lt: "attempt < maxRetries opts" by simp
  from Suc.prems(2) obtain e where e: "call_outcome f 0 s = Inl e" by blast
  have k: "maxRetries opts - Suc attempt = k" using Suc.hyps(2) by simp
  have "retry_from f opts rnd (Suc attempt) (snd (f s)) =
      (call_outcome f k (snd (f s)),
       map (\<lambda>i. calculateDelay (rnd i) i opts) [Suc attempt..<maxRetries opts],
       state_after f (Suc k) (snd (f s)))"
    using Suc.hyps(1) [of "Suc attempt" "snd (f s)"] Suc.prems(2) lt k Suc.hyps(2)
    by (auto simp flip: call_outcome_Suc)
  then show ?case
    using lt e by (subst retry_from_failing) (simp_all add: upt_conv_Cons call_outcome_Suc flip: Suc.hyps(2))
qed

lemma first_success_or_none:
  "(\<exists>k \<le> n. (\<forall>i < k. \<exists>e. call_outcome f i s = Inl e) \<and> (\<exists>a. call_outcome f k s = Inr a)) \<or>
   (\<forall>i \<le> n. \<exists>e. call_outcome f i s = Inl e)"
proof (cases "\<exists>k. k \<le> n \<and> (\<exists>a. call_outcome f k s = Inr a)")
  case True
  then obtain k where "k \<le> n" "\<exists>a. call_outcome f k s = Inr a"
    and least: "\<forall>i < k. \<not> (i \<le> n \<and> (\<exists>a. call_outcome f i s = Inr a))"
    by (subst (asm) exists_least_iff) blast
  then show ?thesis
    by (intro disjI1 exI [of _ k]) (metis less_imp_le obj_sumE order_trans)
next
  case False
  then show ?thesis by (metis obj_sumE)
qed

lemma delay_bounds:
  assumes "0 \<le> r" "r < 1"
  shows "calculateDelay r i opts \<le> maxDelayMs opts"
    and "min (baseDelayMs opts * 2 ^ i) (maxDelayMs opts) div 2 \<le> calculateDelay r i opts"
proof -
  let ?c = "min (baseDelayMs opts * 2 ^ i) (maxDelayMs opts)"
  let ?j = "of_nat ?c * (1 / 2 + r * (1 / 2)) :: rat"
  have "?j \<le> of_nat ?c * 1" using assms by (intro mult_left_mono) simp_all
  then have up: "nat \<lfloor>?j\<rfloor> \<le> ?c"
    by (metis (no_types) floor_mono floor_of_nat mult.right_neutral nat_int nat_mono)
  have "of_nat (?c div 2) \<le> (of_nat ?c / 2 :: rat)" using of_nat_div_le_of_nat [of ?c 2] by simp
  also have "\<dots> = of_nat ?c * (1 / 2)" by simp
  also have "\<dots> \<le> ?j" using assms by (intro mult_left_mono) simp_all
  finally have low: "?c div 2 \<le> nat \<lfloor>?j\<rfloor>"
    by (metis floor_mono floor_of_nat nat_int nat_mono)
  show "calculateDelay r i opts \<le> maxDelayMs opts"
    using up by (simp add: calculateDelay_def Let_def)
  show "?c div 2 \<le> calculateDelay r i opts"
    using low div_le_dividend [of ?c 2] by (simp only: calculateDelay_def Let_def split: if_split) simp
qed

lemma waits_are_delays:
  "\<exists>k. attempt \<le> k \<and> k \<le> max attempt (maxRetries opts) \<and>
     fst (snd (retry_from f opts rnd attempt s)) =
       map (\<lambda>i. calculateDelay (rnd i) i opts) [attempt..<k]"
proof (cases "attempt \<le> maxRetries opts")
  case True
  from first_success_or_none [of "maxRetries opts - attempt" f s]
  show ?thesis
  proof (elim disjE exE conjE)
    fix k a
    assume "k \<le> maxRetries opts - attempt" "\<forall>i < k. \<exists>e. call_outcome f i s = Inl e"
      "call_outcome f k s = Inr a"
    with True show ?thesis
      by (subst retry_from_success [of attempt k])
        (auto intro!: exI [of _ "attempt + k"])
  next
    assume "\<forall>i \<le> maxRetries opts - attempt. \<exists>e. call_outcome f i s = Inl e"
    with True show ?thesis
      by (subst retry_from_exhausted) (auto intro!: exI [of _ "maxRetries opts"])
  qed
next
  case False
  then show ?thesis by (subst retry_from.simps) auto
qed

lemma total_wait_bound:
  assumes "\<And>i. 0 \<le> rnd i \<and> rnd i < 1"
  shows "sum_list (map (\<lambda>i. calculateDelay (rnd i) i opts) [0..<k]) \<le> k * maxDelayMs opts"
proof (induction k)
  case (Suc k)
  moreover have "calculateDelay (rnd k) k opts \<le> maxDelayMs opts"
    using assms by (intro delay_bounds(1)) simp_all
  ultimately show ?case by simp
qed simp

section \<open>The policy of a target system\<close>

text \<open>
  \<open>read_config name\<close> is the stored configuration column of the row of that target system, as
  \<open>findUnique\<close> returns it; a database error is treated as a missing row. \<open>lease\<close> is the
  configuration value \<open>DLQ_RETRY_LEASE_SECONDS\<close>.
\<close>

record target_retry_policy =
  p_maxRetries :: "nat option"
  p_baseDelayMs :: "nat option"
  p_maxDelayMs :: "nat option"
  p_jitter :: "bool option"
  p_dlqLeaseSeconds :: "nat option"

definition empty_policy :: target_retry_policy where
  "empty_policy =
     \<lparr>p_maxRetries = None, p_baseDelayMs = None, p_maxDelayMs = None, p_jitter = None,
      p_dlqLeaseSeconds = None\<rparr>"

definition normalizePolicy :: "jsval \<Rightarrow> target_retry_policy" where
  "normalizePolicy value =
     (case value of
        Obj raw \<Rightarrow>
          \<lparr>p_maxRetries = positive_integer (js_get raw ''maxRetries''),
           p_baseDelayMs = positive_integer (js_get raw ''baseDelayMs''),
           p_maxDelayMs = positive_integer (js_get raw ''maxDelayMs''),
           p_jitter = (case js_get raw ''jitter'' of Bool b \<Rightarrow> Some b | _ \<Rightarrow> None),
           p_dlqLeaseSeconds = positive_integer (js_get raw ''dlqLeaseSeconds'')\<rparr>
      | _ \<Rightarrow> empty_policy)"

definition config_member :: "jsval \<Rightarrow> string \<Rightarrow> jsval" where
  "config_member config name = (case config of Obj kvs \<Rightarrow> js_get kvs name | _ \<Rightarrow> Undef)"

definition apply_policy :: "nat option \<Rightarrow> target_retry_policy \<Rightarrow> retry_policy" where
  "apply_policy lease p =
     (let d = DEFAULT_RETRY_POLICY in
      \<lparr>maxRetries = or_else (p_maxRetries p) (maxRetries d),
       baseDelayMs = or_else (p_baseDelayMs p) (baseDelayMs d),
       maxDelayMs = or_else (p_maxDelayMs p) (maxDelayMs d),
       jitter = or_else (p_jitter p) (jitter d),
       dlqLeaseSeconds = or_else (p_dlqLeaseSeconds p) (or_else lease (dlqLeaseSeconds d))\<rparr>)"

definition forTarget ::
  "platform \<Rightarrow> settings \<Rightarrow> nat option \<Rightarrow> (string \<Rightarrow> jsval option result) \<Rightarrow> string \<Rightarrow>
   retry_policy result" where
  "forTarget P cfg lease read_config targetSystem =
     (let item = (case read_config targetSystem of Inl e \<Rightarrow> None | Inr i \<Rightarrow> i) in
      ebind (case item of
               None \<Rightarrow> Inr (Obj [])
             | Some c \<Rightarrow> if c = Undef then Inr (Obj [])
                         else ebind (fromJson P cfg c) (\<lambda>v. Inr (coalesce v (Obj []))))
        (\<lambda>config. Inr (apply_policy lease (normalizePolicy (config_member config ''retryPolicy'')))))"

definition positive_policy :: "target_retry_policy \<Rightarrow> bool" where
  "positive_policy p \<longleftrightarrow>
     p_maxRetries p \<noteq> Some 0 \<and> p_baseDelayMs p \<noteq> Some 0 \<and> p_maxDelayMs p \<noteq> Some 0 \<and>
     p_dlqLeaseSeconds p \<noteq> Some 0"

lemma positive_integer_not_0: "positive_integer v \<noteq> Some 0"
  using positive_integer_pos by blast

lemma normalized_positive: "positive_policy (normalizePolicy v)"
  by (cases v) (simp_all add: normalizePolicy_def positive_policy_def empty_policy_def
      positive_integer_not_0)

lemma or_else_pos: "x \<noteq> Some 0 \<Longrightarrow> 1 \<le> d \<Longrightarrow> 1 \<le> or_else x (d :: nat)"
  by (cases x) simp_all

lemma apply_policy_usable:
  assumes "positive_policy p" and "lease \<noteq> Some 0"
  shows "1 \<le> maxRetries (apply_policy lease p)" "1 \<le> baseDelayMs (apply_policy lease p)"
    "1 \<le> maxDelayMs (apply_policy lease p)" "1 \<le> dlqLeaseSeconds (apply_policy lease p)"
  using assms
  by (simp_all only: apply_policy_def Let_def retry_options.select_convs retry_policy.select_convs
      positive_policy_def, intro or_else_pos; simp add: DEFAULT_RETRY_POLICY_def or_else_pos)+

section \<open>Properties\<close>

text \<open>
  The retry loop returns the result of the first call that succeeds. If the first \<open>k\<close>
  calls throw and call number \<open>k\<close>, counted from 0, returns, then exactly \<open>k + 1\<close> calls are
  made, the waits are the backoff delays 0 to \<open>k - 1\<close>, and the value of the call is returned,
  whenever \<open>k\<close> is at most \<open>maxRetries\<close>.
\<close>

theorem retry_returns_first_success:
  assumes "k \<le> maxRetries opts"
    and "\<forall>i < k. \<exists>e. call_outcome f i s = Inl e" and "call_outcome f k s = Inr a"
  shows "retry_execute f opts rnd s =
    (Inr a, map (\<lambda>i. calculateDelay (rnd i) i opts) [0..<k], state_after f (Suc k) s)"
  using retry_from_success [of 0 k opts f s a rnd] assms by (simp add: retry_execute_def)

definition flaky :: "nat \<Rightarrow> nat result \<times> nat" where
  "flaky n = (if n < 2 then (Inl (JsError ''timeout''), n + 1) else (Inr n, n + 1))"

theorem retry_returns_first_success_witness:
  "retry_execute flaky (DEFAULT_RETRY_POLICY\<lparr>jitter := False\<rparr>) (\<lambda>_. 0) 0 =
     (Inr 2, [1000, 2000], 3)"
proof -
  have a: "state_after flaky 2 0 = 2" by (simp add: flaky_def numeral_2_eq_2)
  have b: "\<forall>i < 2. \<exists>e. call_outcome flaky i 0 = Inl e"
    by (auto simp: call_outcome_def flaky_def less_Suc_eq numeral_2_eq_2)
  have "call_outcome flaky 2 0 = Inr 2" by (simp add: call_outcome_def a) (simp add: flaky_def)
  with b show ?thesis
    by (subst retry_returns_first_success [where k = 2 and a = 2])
      (simp_all add: DEFAULT_RETRY_POLICY_def calculateDelay_def upt_rec flaky_def numeral_3_eq_3)
qed

text \<open>
  C26: when every call throws, the retried function is called \<open>maxRetries + 1\<close> times, so four
  times under the default policy, and what the last call threw is thrown.
\<close>

theorem retry_exhausts_after_max_retries_plus_one:
  assumes "\<forall>i \<le> maxRetries opts. \<exists>e. call_outcome f i s = Inl e"
  shows "retry_execute f opts rnd s =
    (call_outcome f (maxRetries opts) s,
     map (\<lambda>i. calculateDelay (rnd i) i opts) [0..<maxRetries opts],
     state_after f (maxRetries opts + 1) s)"
  using retry_from_exhausted [of 0 opts f s rnd] assms by (simp add: retry_execute_def)

theorem retry_exhausts_after_max_retries_plus_one_witness:
  "snd (snd (retry_execute (\<lambda>n. (Inl (JsError ''down'') :: unit result, n + 1))
     DEFAULT_RETRY_POLICY (\<lambda>_. 0) 0)) = (4 :: nat)"
proof -
  let ?f = "\<lambda>n. (Inl (JsError ''down'') :: unit result, n + 1 :: nat)"
  have m: "maxRetries DEFAULT_RETRY_POLICY = 3" by (simp add: DEFAULT_RETRY_POLICY_def)
  have "\<forall>i \<le> maxRetries DEFAULT_RETRY_POLICY. \<exists>e. call_outcome ?f i 0 = Inl e"
    by (simp add: call_outcome_def)
  from retry_exhausts_after_max_retries_plus_one [OF this, of "\<lambda>_. 0"]
  have "snd (snd (retry_execute ?f DEFAULT_RETRY_POLICY (\<lambda>_. 0) 0)) = state_after ?f 4 0"
    by (simp add: m)
  also have "state_after ?f 4 0 = 4" by (simp add: eval_nat_numeral)
  finally show ?thesis .
qed

text \<open>
  Whatever the retried function does, it is waited for at most \<open>maxRetries\<close> times, each
  wait lies between half of the capped exponential delay and \<open>maxDelayMs\<close>, and all waits
  together take at most \<open>maxRetries * maxDelayMs\<close> milliseconds.
\<close>

theorem retry_waits_are_bounded:
  assumes "\<And>i. 0 \<le> rnd i \<and> rnd i < 1"
    and "waits = fst (snd (retry_execute f opts rnd s))"
  shows "length waits \<le> maxRetries opts \<and>
    (\<forall>i < length waits. min (baseDelayMs opts * 2 ^ i) (maxDelayMs opts) div 2 \<le> waits ! i \<and>
       waits ! i \<le> maxDelayMs opts) \<and>
    sum_list waits \<le> maxRetries opts * maxDelayMs opts"
proof -
  obtain k where k: "k \<le> maxRetries opts"
    and w: "waits = map (\<lambda>i. calculateDelay (rnd i) i opts) [0..<k]"
    using waits_are_delays [of 0 opts f rnd s] assms(2) by (auto simp: retry_execute_def)
  have "sum_list waits \<le> k * maxDelayMs opts"
    unfolding w by (rule total_wait_bound) (rule assms(1))
  also have "\<dots> \<le> maxRetries opts * maxDelayMs opts" using k by (rule mult_le_mono1)
  finally have total: "sum_list waits \<le> maxRetries opts * maxDelayMs opts" .
  have "min (baseDelayMs opts * 2 ^ i) (maxDelayMs opts) div 2 \<le> calculateDelay (rnd i) i opts \<and>
      calculateDelay (rnd i) i opts \<le> maxDelayMs opts" for i
    using assms(1) [of i] by (intro conjI delay_bounds) simp_all
  with total k show ?thesis by (simp add: w)
qed

theorem retry_waits_are_bounded_witness:
  "sum_list (fst (snd (retry_execute flaky DEFAULT_RETRY_POLICY (\<lambda>_. 1 / 2) 0))) \<le> 90000"
  using retry_waits_are_bounded [OF _ refl, of "\<lambda>_. 1 / 2" flaky DEFAULT_RETRY_POLICY 0]
  by (simp add: DEFAULT_RETRY_POLICY_def)

text \<open>
  Whatever is stored in the configuration of a target system, a policy that is returned
  retries at least once, with positive delays, and leases a dead-letter item for a positive
  time (as long as the configured default is positive): a stored value that is not a positive
  integer is ignored, so a target system cannot switch retries off.
\<close>

theorem policy_is_always_usable:
  assumes "forTarget P cfg lease read_config t = Inr p" and "lease \<noteq> Some 0"
  shows "1 \<le> maxRetries p \<and> 1 \<le> baseDelayMs p \<and> 1 \<le> maxDelayMs p \<and> 1 \<le> dlqLeaseSeconds p"
proof -
  from assms(1) obtain v where "p = apply_policy lease (normalizePolicy v)"
    by (auto simp: forTarget_def ebind_Inr_iff Let_def)
  with assms(2) show ?thesis
    using apply_policy_usable [OF normalized_positive [of v] assms(2)] by simp
qed

theorem policy_is_always_usable_witness:
  "\<exists>p. forTarget demo_platform (demo_settings ''k1'') None
         (\<lambda>_. Inr (Some (Obj [(''retryPolicy'', Obj [(''maxRetries'', num 0), (''baseDelayMs'', num 50)])]))) ''ad''
       = Inr p \<and> 1 \<le> maxRetries p \<and> baseDelayMs p = 50"
proof -
  let ?row = "\<lambda>_ :: string. Inr (Some (Obj [(''retryPolicy'', Obj [(''maxRetries'', num 0),
      (''baseDelayMs'', num 50)])])) :: jsval option result"
  have z: "positive_integer (num 0) = None" "positive_integer (num 50) = Some 50"
    "positive_integer Undef = None"
    using positive_integer_of_nat [of 0] positive_integer_of_nat [of 50]
    by (simp_all add: positive_integer_def)
  have "\<exists>p. forTarget demo_platform (demo_settings ''k1'') None ?row ''ad'' = Inr p \<and>
      baseDelayMs p = 50"
    by (simp add: forTarget_def fromJson_def demo_settings_def decryptFromStorage_def nullish_def
        isEnvelope_def js_get_def coalesce_def config_member_def normalizePolicy_def z apply_policy_def)
  then show ?thesis using policy_is_always_usable by fastforce
qed

end
