(* ===== verification/Metrics.thy ===== *)
theory Metrics
  imports Prelude
begin

text \<open>
  Models \<open>metrics/metrics.service.ts\<close>: the counters and gauges, and the sliding window of the
  events processed during the last five minutes. A counter is a function of its labels, a
  gauge a partial one; times are milliseconds, \<open>now\<close> is \<open>Date.now()\<close>.
\<close>

section \<open>State\<close>

record sample =
  s_time :: nat
  s_status :: string
  s_target :: string

type_synonym nested_counts = "(string \<times> (string \<times> nat) list) list"

record metrics =
  processedWindow :: "sample list"
  connectorErrors :: "string \<times> string \<Rightarrow> nat"
  dlqSize :: "string \<Rightarrow> nat option"
  eventsProcessed :: "string \<times> string \<Rightarrow> nat"
  eventsProcessedLast5m :: "string \<times> string \<Rightarrow> nat option"

record snapshot =
  snap_total :: nat
  byStatus :: "(string \<times> nat) list"
  byTargetSystem :: nested_counts

definition windowMs :: nat where
  "windowMs = 5 * 60 * 1000"

definition init_metrics :: metrics where
  "init_metrics =
     \<lparr>processedWindow = [], connectorErrors = (\<lambda>_. 0), dlqSize = (\<lambda>_. None),
      eventsProcessed = (\<lambda>_. 0), eventsProcessedLast5m = (\<lambda>_. None)\<rparr>"

section \<open>Operations\<close>

definition recordConnectorError :: "string \<Rightarrow> string \<Rightarrow> metrics \<Rightarrow> metrics" where
  "recordConnectorError connector operation m =
     m\<lparr>connectorErrors := (connectorErrors m)
         ((connector, operation) := connectorErrors m (connector, operation) + 1)\<rparr>"

definition setDlqSize :: "string \<Rightarrow> nat \<Rightarrow> metrics \<Rightarrow> metrics" where
  "setDlqSize status count m = m\<lparr>dlqSize := (dlqSize m)(status \<mapsto> count)\<rparr>"

definition bump :: "string \<Rightarrow> (string \<times> nat) list \<Rightarrow> (string \<times> nat) list" where
  "bump k counts = map_set k (or_else (map_of counts k) 0 + 1) counts"

definition bump_nested :: "nested_counts \<Rightarrow> sample \<Rightarrow> nested_counts" where
  "bump_nested r s =
     map_set (s_target s) (bump (s_status s) (or_else (map_of r (s_target s)) [])) r"

definition processedLast5MinutesRaw :: "sample list \<Rightarrow> nested_counts" where
  "processedLast5MinutesRaw w = foldl bump_nested [] w"

definition set_gauges :: "nested_counts \<Rightarrow> string \<times> string \<Rightarrow> nat option" where
  "set_gauges raw =
     foldl (\<lambda>g (target, by_status).
         foldl (\<lambda>g (status, count). g((status, target) \<mapsto> count)) g by_status)
       (\<lambda>_. None) raw"

definition refreshProcessedWindow :: "nat \<Rightarrow> metrics \<Rightarrow> metrics" where
  "refreshProcessedWindow now m =
     (let w = dropWhile (\<lambda>s. s_time s + windowMs < now) (processedWindow m) in
      m\<lparr>processedWindow := w, eventsProcessedLast5m := set_gauges (processedLast5MinutesRaw w)\<rparr>)"

definition recordEvent :: "nat \<Rightarrow> string \<Rightarrow> string \<Rightarrow> metrics \<Rightarrow> metrics" where
  "recordEvent now status target m =
     refreshProcessedWindow now
       (m\<lparr>eventsProcessed := (eventsProcessed m)
            ((status, target) := eventsProcessed m (status, target) + 1),
          processedWindow := processedWindow m @
            [\<lparr>s_time = now, s_status = status, s_target = target\<rparr>]\<rparr>)"

definition processedLast5Minutes :: "nat \<Rightarrow> metrics \<Rightarrow> snapshot \<times> metrics" where
  "processedLast5Minutes now m =
     (let m' = refreshProcessedWindow now m; w = processedWindow m' in
      (\<lparr>snap_total = length w, byStatus = foldl (\<lambda>c s. bump (s_status s) c) [] w,
        byTargetSystem = foldl bump_nested [] w\<rparr>, m'))"

text \<open>Reading a nested count; a missing entry counts as 0.\<close>

definition count_at :: "nested_counts \<Rightarrow> string \<Rightarrow> string \<Rightarrow> nat" where
  "count_at r target status = or_else (map_of (or_else (map_of r target) []) status) 0"

section \<open>Counting\<close>

lemma count_bump: "or_else (map_of (bump k c) k') 0 = or_else (map_of c k') 0 + (if k' = k then 1 else 0)"
  by (simp add: bump_def map_of_map_set)

lemma by_status_counts:
  "or_else (map_of (foldl (\<lambda>c s. bump (s_status s) c) c w) k) 0 =
     or_else (map_of c k) 0 + length (filter (\<lambda>s. s_status s = k) w)"
  by (induction w arbitrary: c) (auto simp: count_bump)

lemma count_at_bump_nested:
  "count_at (bump_nested r s) t k =
     count_at r t k + (if s_target s = t \<and> s_status s = k then 1 else 0)"
  by (auto simp: count_at_def bump_nested_def map_of_map_set count_bump)

lemma nested_counts:
  "count_at (foldl bump_nested r w) t k =
     count_at r t k + length (filter (\<lambda>s. s_target s = t \<and> s_status s = k) w)"
  by (induction w arbitrary: r) (auto simp: count_at_bump_nested)

section \<open>The window\<close>

definition old :: "nat \<Rightarrow> sample \<Rightarrow> bool" where
  "old now s \<longleftrightarrow> s_time s + windowMs < now"

definition by_time :: "sample list \<Rightarrow> bool" where
  "by_time w \<longleftrightarrow> sorted (map s_time w)"

lemma dropWhile_old: "by_time w \<Longrightarrow> dropWhile (old now) w = filter (\<lambda>s. \<not> old now s) w"
proof (induction w)
  case (Cons s w)
  have "\<not> old now s'" if "\<not> old now s" "s' \<in> set w" for s'
    using that Cons.prems by (auto simp: old_def by_time_def)
  then have "\<not> old now s \<Longrightarrow> filter (\<lambda>s. \<not> old now s) w = w" by (simp add: filter_id_conv)
  with Cons show ?case by (auto simp: by_time_def)
qed simp

lemma refresh_window:
  "by_time (processedWindow m) \<Longrightarrow>
     processedWindow (refreshProcessedWindow now m) = filter (\<lambda>s. \<not> old now s) (processedWindow m)"
  by (simp add: refreshProcessedWindow_def Let_def flip: dropWhile_old) (simp add: old_def [abs_def])

lemma old_mono: "old t s \<Longrightarrow> t \<le> t' \<Longrightarrow> old t' s"
  by (simp add: old_def)

text \<open>The events of a run, recorded one after the other.\<close>

fun record_events :: "sample list \<Rightarrow> metrics \<Rightarrow> metrics" where
  "record_events [] m = m"
| "record_events (e # es) m = record_events es (recordEvent (s_time e) (s_status e) (s_target e) m)"

lemma window_of_run:
  assumes "by_time (seen @ es)"
    and "processedWindow m = filter (\<lambda>s. \<not> old t s) seen" and "\<forall>e \<in> set es. t \<le> s_time e"
    and "\<forall>e \<in> set es. s_time e \<le> now" and "t \<le> now"
  shows "filter (\<lambda>s. \<not> old now s) (processedWindow (record_events es m)) =
           filter (\<lambda>s. \<not> old now s) (seen @ es) \<and>
         by_time (processedWindow (record_events es m))"
  using assms
proof (induction es arbitrary: seen m t)
  case Nil
  then have "filter (\<lambda>s. \<not> old now s) (processedWindow m) = filter (\<lambda>s. \<not> old now s) seen"
    by (auto intro: filter_cong dest: old_mono)
  moreover have "by_time (processedWindow m)"
    using Nil by (simp add: by_time_def sorted_filter)
  ultimately show ?case by simp
next
  case (Cons e es)
  let ?m = "recordEvent (s_time e) (s_status e) (s_target e) m"
  have e: "\<lparr>s_time = s_time e, s_status = s_status e, s_target = s_target e\<rparr> = e"
    by (cases e) simp
  have sorted: "by_time (filter (\<lambda>s. \<not> old t s) seen @ [e])"
    using Cons.prems(1) by (auto simp: by_time_def sorted_append sorted_filter)
  have "processedWindow ?m =
      filter (\<lambda>s. \<not> old (s_time e) s) (filter (\<lambda>s. \<not> old t s) seen @ [e])"
    unfolding recordEvent_def using sorted Cons.prems(2)
    by (subst refresh_window) (simp_all add: e)
  also have "\<dots> = filter (\<lambda>s. \<not> old (s_time e) s) (seen @ [e])"
    using Cons.prems(3) by (auto intro!: filter_cong dest: old_mono)
  finally have w: "processedWindow ?m = filter (\<lambda>s. \<not> old (s_time e) s) (seen @ [e])" .
  have "\<forall>x \<in> set es. s_time e \<le> s_time x"
    using Cons.prems(1) by (auto simp: by_time_def sorted_append)
  with Cons.IH [of "seen @ [e]" ?m "s_time e"] w Cons.prems show ?case by simp
qed

section \<open>Properties\<close>

text \<open>
  The five-minute statistics are exact. After any run of recorded events with a clock that
  does not go backwards, the snapshot taken at time \<open>now\<close> counts, in total, per status and per
  target system and status, exactly the events of the run that are not older than five minutes.
\<close>

theorem five_minute_window_is_exact:
  assumes "by_time run" and "\<forall>e \<in> set run. s_time e \<le> now"
    and "recent = filter (\<lambda>e. now \<le> s_time e + windowMs) run"
    and "snap = fst (processedLast5Minutes now (record_events run init_metrics))"
  shows "snap_total snap = length recent \<and>
    or_else (map_of (byStatus snap) status) 0 = length (filter (\<lambda>e. s_status e = status) recent) \<and>
    count_at (byTargetSystem snap) target status =
      length (filter (\<lambda>e. s_target e = target \<and> s_status e = status) recent)"
proof -
  let ?m = "record_events run init_metrics"
  have r: "filter (\<lambda>s. \<not> old now s) (processedWindow ?m) = recent" "by_time (processedWindow ?m)"
    using window_of_run [of "[]" run init_metrics 0 now] assms(1,2,3)
    by (auto simp: init_metrics_def old_def not_less)
  then have "processedWindow (refreshProcessedWindow now ?m) = recent"
    by (simp add: refresh_window)
  then show ?thesis
    using by_status_counts [of "[]" recent status] nested_counts [of "[]" recent target status]
    by (simp add: assms(4) processedLast5Minutes_def Let_def) (simp add: count_at_def)
qed

definition sample_run :: "sample list" where
  "sample_run =
     [\<lparr>s_time = 0, s_status = ''success'', s_target = ''ad''\<rparr>,
      \<lparr>s_time = 1000, s_status = ''failed'', s_target = ''ad''\<rparr>,
      \<lparr>s_time = 300500, s_status = ''success'', s_target = ''zabbix''\<rparr>]"

theorem five_minute_window_is_exact_witness:
  "snap_total (fst (processedLast5Minutes 300900 (record_events sample_run init_metrics))) = 2"
  using five_minute_window_is_exact [OF _ _ refl refl, of sample_run 300900 "''failed''" "''ad''"]
  by (simp add: sample_run_def by_time_def windowMs_def)

end
