(* ===== verification/Dlq.thy ===== *)
theory Dlq
  imports Retry Metrics
begin

text \<open>
  Models \<open>core/dlq/dlq.service.ts\<close>: the dead-letter table with its retry leases, and the DLQ
  gauges. Rows are kept in insertion order; \<open>updateMany\<close> and \<open>update\<close> are atomic, as the
  database makes them. Each database call of an operation may fail: \<open>dlq_call\<close> says which do,
  and gives the clock, the new row id and the initialisation vector of the call.
\<close>

section \<open>State\<close>

record dlq_row =
  row_id :: string
  row_eventId :: string
  row_operation :: string
  row_targetSystem :: string
  row_payload :: jsval
  row_error :: string
  retryCount :: nat
  status :: string
  lockedAt :: "nat option"
  lockedBy :: "string option"
  createdAt :: nat

record dlq_state =
  dlq_rows :: "dlq_row list"
  dlq_metrics :: metrics

record dlq_item =
  item_eventId :: string
  item_operation :: string
  item_targetSystem :: string
  item_payload :: jsval
  item_error :: string
  item_retryCount :: "nat option"

record dlq_env =
  env_platform :: platform
  env_settings :: settings
  env_lease :: "nat option"
  env_read_config :: "string \<Rightarrow> jsval option result"
  env_pid :: string

record dlq_call =
  call_now :: nat
  call_iv :: string
  call_id :: string
  find_fault :: "exn option"
  write_fault :: "exn option"
  count_fault :: "exn option"

section \<open>Operations\<close>

definition DLQ_STATUSES :: "string list" where
  "DLQ_STATUSES = [''pending'', ''retrying'', ''skipped'', ''resolved'']"

definition count_status :: "dlq_row list \<Rightarrow> string \<Rightarrow> nat" where
  "count_status rows st = length (filter (\<lambda>r. status r = st) rows)"

definition dlq_updateMetrics :: "dlq_call \<Rightarrow> (unit, 'b dlq_state_scheme) op" where
  "dlq_updateMetrics c =
     sbind (may_fail (count_fault c)) (\<lambda>_.
       modify (\<lambda>w. w\<lparr>dlq_metrics :=
         fold (\<lambda>st. setDlqSize st (count_status (dlq_rows w) st)) DLQ_STATUSES (dlq_metrics w)\<rparr>))"

definition new_row :: "dlq_call \<Rightarrow> dlq_item \<Rightarrow> jsval \<Rightarrow> dlq_row" where
  "new_row c item stored =
     \<lparr>row_id = call_id c, row_eventId = item_eventId item, row_operation = item_operation item,
      row_targetSystem = item_targetSystem item, row_payload = stored,
      row_error = item_error item, retryCount = or_else (item_retryCount item) 0,
      status = ''pending'', lockedAt = None, lockedBy = None, createdAt = call_now c\<rparr>"

definition dlq_add :: "dlq_env \<Rightarrow> dlq_call \<Rightarrow> dlq_item \<Rightarrow> (unit, 'b dlq_state_scheme) op" where
  "dlq_add env c item =
     sbind (lift_result (toJson (env_platform env) (env_settings env) (call_iv c) (item_payload item)))
       (\<lambda>stored.
     sbind (may_fail (write_fault c)) (\<lambda>_.
     sbind (modify (\<lambda>w. w\<lparr>dlq_rows := dlq_rows w @ [new_row c item stored]\<rparr>)) (\<lambda>_.
     dlq_updateMetrics c)))"

definition row_of :: "dlq_row list \<Rightarrow> string \<Rightarrow> dlq_row option" where
  "row_of rows i = find (\<lambda>r. row_id r = i) rows"

definition target_policy :: "dlq_env \<Rightarrow> string \<Rightarrow> retry_policy result" where
  "target_policy env t =
     forTarget (env_platform env) (env_settings env) (env_lease env) (env_read_config env) t"

definition claimable :: "nat \<Rightarrow> nat \<Rightarrow> dlq_row \<Rightarrow> bool" where
  "claimable now lease r \<longleftrightarrow>
     status r \<notin> {''skipped'', ''resolved''} \<and>
     (status r \<noteq> ''retrying'' \<or>
      (case lockedAt r of None \<Rightarrow> True | Some t \<Rightarrow> t + lease * 1000 < now))"

definition claim :: "nat \<Rightarrow> string \<Rightarrow> dlq_row \<Rightarrow> dlq_row" where
  "claim now pid r =
     r\<lparr>status := ''retrying'', retryCount := retryCount r + 1, lockedAt := Some now,
       lockedBy := Some pid\<rparr>"

definition claim_many :: "dlq_env \<Rightarrow> dlq_call \<Rightarrow> string \<Rightarrow> nat \<Rightarrow> (nat, 'b dlq_state_scheme) op" where
  "claim_many env c i lease w =
     (Inr (length (filter (\<lambda>r. row_id r = i \<and> claimable (call_now c) lease r) (dlq_rows w))),
      w\<lparr>dlq_rows := map (\<lambda>r. if row_id r = i \<and> claimable (call_now c) lease r
                              then claim (call_now c) (env_pid env) r else r) (dlq_rows w)\<rparr>)"

definition dlq_retry :: "dlq_env \<Rightarrow> dlq_call \<Rightarrow> string \<Rightarrow> (bool, 'b dlq_state_scheme) op" where
  "dlq_retry env c i =
     sbind (may_fail (find_fault c)) (\<lambda>_.
     sbind (\<lambda>w. (Inr (row_of (dlq_rows w) i), w)) (\<lambda>item.
     sbind (lift_result (case item of
              None \<Rightarrow> Inr (or_else (env_lease env) 300)
            | Some r \<Rightarrow> ebind (target_policy env (row_targetSystem r)) (\<lambda>p. Inr (dlqLeaseSeconds p))))
       (\<lambda>lease.
     sbind (may_fail (write_fault c)) (\<lambda>_.
     sbind (claim_many env c i lease) (\<lambda>count.
     if count = 1 then sbind (dlq_updateMetrics c) (\<lambda>_. ret True) else ret False)))))"

text \<open>Prisma's \<open>update\<close> throws when there is no such row.\<close>

definition update_row :: "dlq_call \<Rightarrow> string \<Rightarrow> (dlq_row \<Rightarrow> dlq_row) \<Rightarrow> (unit, 'b dlq_state_scheme) op" where
  "update_row c i f =
     sbind (may_fail (write_fault c)) (\<lambda>_ w.
       if row_of (dlq_rows w) i = None
       then (Inl (PrismaError ''P2025'' ''Record to update not found.''), w)
       else (Inr (), w\<lparr>dlq_rows := map (\<lambda>r. if row_id r = i then f r else r) (dlq_rows w)\<rparr>))"

definition dlq_skip :: "dlq_call \<Rightarrow> string \<Rightarrow> (unit, 'b dlq_state_scheme) op" where
  "dlq_skip c i =
     sbind (update_row c i (\<lambda>r. r\<lparr>status := ''skipped'', lockedAt := None, lockedBy := None\<rparr>))
       (\<lambda>_. dlq_updateMetrics c)"

definition dlq_resolve :: "dlq_call \<Rightarrow> string \<Rightarrow> (unit, 'b dlq_state_scheme) op" where
  "dlq_resolve c i =
     sbind (update_row c i (\<lambda>r. r\<lparr>status := ''resolved'', lockedAt := None, lockedBy := None\<rparr>))
       (\<lambda>_. dlq_updateMetrics c)"

definition dlq_markRetryFailed :: "dlq_call \<Rightarrow> string \<Rightarrow> string \<Rightarrow> (unit, 'b dlq_state_scheme) op" where
  "dlq_markRetryFailed c i e =
     sbind (update_row c i (\<lambda>r. r\<lparr>status := ''pending'', row_error := e, lockedAt := None,
         lockedBy := None\<rparr>))
       (\<lambda>_. dlq_updateMetrics c)"

section \<open>What the operations do to the rows\<close>

lemma row_of_map:
  "(\<And>r. row_id (f r) = row_id r) \<Longrightarrow> row_of (map f rows) i = map_option f (row_of rows i)"
  by (induction rows) (auto simp: row_of_def)

lemma row_of_append:
  "row_of (rows @ [r]) i = (case row_of rows i of Some x \<Rightarrow> Some x
     | None \<Rightarrow> if row_id r = i then Some r else None)"
  by (induction rows) (auto simp: row_of_def)

lemma row_of_Some: "row_of rows i = Some r \<Longrightarrow> r \<in> set rows \<and> row_id r = i"
  by (auto simp: row_of_def find_Some_iff)

lemma row_of_None: "row_of rows i = None \<longleftrightarrow> i \<notin> row_id ` set rows"
  by (auto simp: row_of_def find_None_iff)

lemma metrics_keep_rows [simp]: "dlq_rows (snd (dlq_updateMetrics c w)) = dlq_rows w"
  by (cases "count_fault c") (simp_all add: dlq_updateMetrics_def)

definition lease_of :: "dlq_env \<Rightarrow> dlq_row list \<Rightarrow> string \<Rightarrow> nat result" where
  "lease_of env rows i =
     (case row_of rows i of
        None \<Rightarrow> Inr (or_else (env_lease env) 300)
      | Some r \<Rightarrow> ebind (target_policy env (row_targetSystem r)) (\<lambda>p. Inr (dlqLeaseSeconds p)))"

definition claim_row :: "dlq_env \<Rightarrow> dlq_call \<Rightarrow> string \<Rightarrow> nat \<Rightarrow> dlq_row \<Rightarrow> dlq_row" where
  "claim_row env c i lease r =
     (if row_id r = i \<and> claimable (call_now c) lease r then claim (call_now c) (env_pid env) r else r)"

lemma add_rows:
  "dlq_rows (snd (dlq_add env c item w)) = dlq_rows w \<or>
   (\<exists>stored. dlq_rows (snd (dlq_add env c item w)) = dlq_rows w @ [new_row c item stored])"
  by (cases "toJson (env_platform env) (env_settings env) (call_iv c) (item_payload item)";
      cases "write_fault c") (auto simp: dlq_add_def)

lemma update_rows:
  "dlq_rows (snd (update_row c i f w)) = dlq_rows w \<or>
   dlq_rows (snd (update_row c i f w)) = map (\<lambda>r. if row_id r = i then f r else r) (dlq_rows w)"
  by (cases "write_fault c") (simp_all add: update_row_def)

lemma sbind_metrics_rows:
  "dlq_rows (snd (sbind m (\<lambda>_. dlq_updateMetrics c) w)) = dlq_rows (snd (m w))"
  by (simp add: sbind_def split: prod.split sum.split)

lemma retry_run:
  "dlq_retry env c i w =
     (case find_fault c of Some e \<Rightarrow> (Inl e, w) | None \<Rightarrow>
      case lease_of env (dlq_rows w) i of Inl e \<Rightarrow> (Inl e, w) | Inr lease \<Rightarrow>
      case write_fault c of Some e \<Rightarrow> (Inl e, w) | None \<Rightarrow>
        if length (filter (\<lambda>r. row_id r = i \<and> claimable (call_now c) lease r) (dlq_rows w)) = 1
        then sbind (dlq_updateMetrics c) (\<lambda>_. ret True)
               (w\<lparr>dlq_rows := map (claim_row env c i lease) (dlq_rows w)\<rparr>)
        else (Inr False, w\<lparr>dlq_rows := map (claim_row env c i lease) (dlq_rows w)\<rparr>))"
  by (cases "find_fault c"; cases "lease_of env (dlq_rows w) i"; cases "write_fault c")
    (simp_all add: dlq_retry_def sbind_def [of "\<lambda>w. (Inr (row_of (dlq_rows w) i), w)"]
      sbind_def [of "claim_many env c i l" for l] claim_many_def claim_row_def [abs_def] lease_of_def)

lemma sbind_metrics_ret_rows:
  "dlq_rows (snd (sbind (dlq_updateMetrics c) (\<lambda>_. ret x) w)) = dlq_rows w"
  by (cases "count_fault c") (simp_all add: dlq_updateMetrics_def sbind_def)

lemma sbind_metrics_ret_rowsD:
  "sbind (dlq_updateMetrics c) (\<lambda>_. ret x) w = (r, w') \<Longrightarrow> dlq_rows w' = dlq_rows w"
  by (metis sbind_metrics_ret_rows snd_conv)

lemma retry_rows:
  "dlq_rows (snd (dlq_retry env c i w)) = dlq_rows w \<or>
   (\<exists>lease. lease_of env (dlq_rows w) i = Inr lease \<and>
      dlq_rows (snd (dlq_retry env c i w)) = map (claim_row env c i lease) (dlq_rows w))"
  by (auto simp: retry_run sbind_metrics_ret_rows split: option.splits sum.splits)

lemma filter_unique:
  assumes "distinct (map row_id rows)"
  shows "length (filter (\<lambda>r. row_id r = i \<and> Q r) rows) =
    (case row_of rows i of None \<Rightarrow> 0 | Some r \<Rightarrow> if Q r then 1 else 0)"
  using assms
proof (induction rows)
  case (Cons r rows)
  have "filter (\<lambda>r. row_id r = i \<and> Q r) rows = []" if "row_id r = i"
    using Cons.prems that by (auto simp: filter_empty_conv) (metis image_eqI)
  with Cons show ?case by (auto simp: row_of_def)
qed (simp add: row_of_def)

lemma retry_True:
  assumes "distinct (map row_id (dlq_rows w))" and "dlq_retry env c i w = (Inr True, w')"
  shows "\<exists>r lease. row_of (dlq_rows w) i = Some r \<and> lease_of env (dlq_rows w) i = Inr lease \<and>
    claimable (call_now c) lease r \<and> dlq_rows w' = map (claim_row env c i lease) (dlq_rows w)"
proof -
  from assms(2) have "dlq_rows w' = dlq_rows (snd (dlq_retry env c i w))" by simp
  with assms show ?thesis
    by (auto simp: retry_run filter_unique dest!: sbind_metrics_ret_rowsD
        split: option.splits sum.splits if_splits)
qed

section \<open>The invariant of the table\<close>

definition wf_row :: "dlq_row \<Rightarrow> bool" where
  "wf_row r \<longleftrightarrow>
     status r \<in> set DLQ_STATUSES \<and> (lockedAt r \<noteq> None \<longleftrightarrow> status r = ''retrying'') \<and>
     (lockedBy r \<noteq> None \<longleftrightarrow> status r = ''retrying'')"

definition wf_rows :: "dlq_row list \<Rightarrow> bool" where
  "wf_rows rows \<longleftrightarrow> distinct (map row_id rows) \<and> (\<forall>r \<in> set rows. wf_row r)"

lemma wf_new_row: "wf_row (new_row c item stored)"
  by (simp add: wf_row_def new_row_def DLQ_STATUSES_def)

lemma wf_claim_row: "wf_row r \<Longrightarrow> wf_row (claim_row env c i lease r)"
  by (simp add: wf_row_def claim_row_def claim_def DLQ_STATUSES_def)

lemma claim_row_id [simp]: "row_id (claim_row env c i lease r) = row_id r"
  by (simp add: claim_row_def claim_def)

lemma wf_rows_map:
  assumes "wf_rows rows" "\<And>r. row_id (f r) = row_id r" "\<And>r. wf_row r \<Longrightarrow> wf_row (f r)"
  shows "wf_rows (map f rows)"
  using assms by (auto simp: wf_rows_def o_def)

datatype dlq_cmd =
    CmdAdd dlq_item
  | CmdRetry string
  | CmdSkip string
  | CmdResolve string
  | CmdFail string string

fun run_cmd :: "dlq_env \<Rightarrow> dlq_call \<Rightarrow> dlq_cmd \<Rightarrow> 'b dlq_state_scheme \<Rightarrow> 'b dlq_state_scheme" where
  "run_cmd env c (CmdAdd item) w = snd (dlq_add env c item w)"
| "run_cmd env c (CmdRetry i) w = snd (dlq_retry env c i w)"
| "run_cmd env c (CmdSkip i) w = snd (dlq_skip c i w)"
| "run_cmd env c (CmdResolve i) w = snd (dlq_resolve c i w)"
| "run_cmd env c (CmdFail i e) w = snd (dlq_markRetryFailed c i e w)"

text \<open>A row id is a fresh UUID.\<close>

definition fresh_for :: "dlq_call \<Rightarrow> dlq_cmd \<Rightarrow> 'b dlq_state_scheme \<Rightarrow> bool" where
  "fresh_for c cmd w \<longleftrightarrow>
     (case cmd of CmdAdd _ \<Rightarrow> call_id c \<notin> row_id ` set (dlq_rows w) | _ \<Rightarrow> True)"

inductive dlq_steps ::
  "dlq_env \<Rightarrow> 'b dlq_state_scheme \<Rightarrow> (dlq_call \<times> dlq_cmd) list \<Rightarrow> 'b dlq_state_scheme \<Rightarrow> bool"
  for env where
  steps_nil: "dlq_steps env w [] w"
| steps_cons: "fresh_for c cmd w \<Longrightarrow> dlq_steps env (run_cmd env c cmd w) tr w' \<Longrightarrow>
    dlq_steps env w ((c, cmd) # tr) w'"

inductive_cases dlq_steps_consE: "dlq_steps env w ((c, cmd) # tr) w'"
inductive_simps dlq_steps_nil_iff [simp]: "dlq_steps env w [] w'"

text \<open>What one command can do to the rows: nothing, append a fresh row, or change rows in place.\<close>

definition released_in_place :: "string \<Rightarrow> dlq_row list \<Rightarrow> dlq_row list \<Rightarrow> bool" where
  "released_in_place i rows rows' \<longleftrightarrow>
     (\<exists>f. (\<forall>r. row_id (f r) = row_id r \<and> wf_row (f r) \<and> lockedAt (f r) = None) \<and>
        rows' = map (\<lambda>r. if row_id r = i then f r else r) rows)"

lemma update_releases:
  assumes "\<And>r. row_id (f r) = row_id r" "\<And>r. wf_row (f r)" "\<And>r. lockedAt (f r) = None"
  shows "dlq_rows (snd (update_row c i f w)) = dlq_rows w \<or>
    released_in_place i (dlq_rows w) (dlq_rows (snd (update_row c i f w)))"
  using update_rows [of c i f w] assms unfolding released_in_place_def by blast

lemma cmd_rows:
  assumes "fresh_for c cmd w"
  shows "dlq_rows (run_cmd env c cmd w) = dlq_rows w \<or>
    (\<exists>item stored. cmd = CmdAdd item \<and> call_id c \<notin> row_id ` set (dlq_rows w) \<and>
       dlq_rows (run_cmd env c cmd w) = dlq_rows w @ [new_row c item stored]) \<or>
    (\<exists>i lease. cmd = CmdRetry i \<and> lease_of env (dlq_rows w) i = Inr lease \<and>
       dlq_rows (run_cmd env c cmd w) = map (claim_row env c i lease) (dlq_rows w)) \<or>
    (\<exists>i. cmd \<in> {CmdSkip i, CmdResolve i} \<union> range (CmdFail i) \<and>
       released_in_place i (dlq_rows w) (dlq_rows (run_cmd env c cmd w)))"
proof (cases cmd)
  case (CmdAdd item)
  then show ?thesis using add_rows [of env c item w] assms by (auto simp: fresh_for_def)
next
  case (CmdRetry i)
  then show ?thesis using retry_rows [of env c i w] by auto
next
  case (CmdSkip i)
  then show ?thesis
    using update_releases [of "\<lambda>r. r\<lparr>status := ''skipped'', lockedAt := None, lockedBy := None\<rparr>" c i w]
    by (auto simp: dlq_skip_def sbind_metrics_rows wf_row_def DLQ_STATUSES_def)
next
  case (CmdResolve i)
  then show ?thesis
    using update_releases [of "\<lambda>r. r\<lparr>status := ''resolved'', lockedAt := None, lockedBy := None\<rparr>" c i w]
    by (auto simp: dlq_resolve_def sbind_metrics_rows wf_row_def DLQ_STATUSES_def)
next
  case (CmdFail i e)
  then show ?thesis
    using update_releases [of "\<lambda>r. r\<lparr>status := ''pending'', row_error := e, lockedAt := None,
        lockedBy := None\<rparr>" c i w]
    by (auto simp: dlq_markRetryFailed_def sbind_metrics_rows wf_row_def DLQ_STATUSES_def)
qed

lemma wf_cmd:
  assumes "fresh_for c cmd w" "wf_rows (dlq_rows w)"
  shows "wf_rows (dlq_rows (run_cmd env c cmd w))"
  using cmd_rows [OF assms(1), of env] assms(2)
proof (elim disjE exE conjE)
  fix item stored
  assume "call_id c \<notin> row_id ` set (dlq_rows w)"
    "dlq_rows (run_cmd env c cmd w) = dlq_rows w @ [new_row c item stored]"
  then show ?thesis using assms(2) wf_new_row [of c item stored]
    by (auto simp: wf_rows_def) (simp add: new_row_def)
next
  fix i lease
  assume "dlq_rows (run_cmd env c cmd w) = map (claim_row env c i lease) (dlq_rows w)"
  then show ?thesis using assms(2) by (simp add: wf_rows_map wf_claim_row)
next
  fix i
  assume "released_in_place i (dlq_rows w) (dlq_rows (run_cmd env c cmd w))"
  then show ?thesis using assms(2) by (auto simp: released_in_place_def intro!: wf_rows_map)
qed simp

lemma wf_steps: "dlq_steps env w tr w' \<Longrightarrow> wf_rows (dlq_rows w) \<Longrightarrow> wf_rows (dlq_rows w')"
  by (induction rule: dlq_steps.induct) (auto intro: wf_cmd)

lemma updated_row:
  assumes "sbind (update_row c i f) (\<lambda>_. dlq_updateMetrics c) w = (Inr (), w')"
    and "\<And>r. row_id (f r) = row_id r"
  shows "\<exists>r. row_of (dlq_rows w) i = Some r \<and> row_of (dlq_rows w') i = Some (f r)"
proof -
  have rows: "dlq_rows w' = dlq_rows (snd (update_row c i f w))"
    using sbind_metrics_rows [of "update_row c i f" c w] assms(1) by simp
  from assms(1) obtain r where r: "write_fault c = None" "row_of (dlq_rows w) i = Some r"
    by (cases "write_fault c") (auto simp: update_row_def sbind_def split: if_splits)
  then have "row_id r = i" by (auto dest: row_of_Some)
  with r show ?thesis by (simp add: rows update_row_def row_of_map assms(2))
qed

section \<open>Leases\<close>

text \<open>Row \<open>i\<close>, of target system \<open>t\<close>, is leased since time \<open>t0\<close>.\<close>

definition leased :: "string \<Rightarrow> string \<Rightarrow> nat \<Rightarrow> dlq_row list \<Rightarrow> bool" where
  "leased i t t0 rows \<longleftrightarrow>
     (\<exists>r. row_of rows i = Some r \<and> status r = ''retrying'' \<and> lockedAt r = Some t0 \<and>
        row_targetSystem r = t)"

definition releases :: "string \<Rightarrow> dlq_cmd \<Rightarrow> bool" where
  "releases i cmd \<longleftrightarrow> cmd \<in> {CmdSkip i, CmdResolve i} \<union> range (CmdFail i)"

lemma leased_not_claimed:
  assumes "leased i t t0 rows" "target_policy env t = Inr p"
    and "now \<le> t0 + dlqLeaseSeconds p * 1000"
  shows "lease_of env rows i = Inr (dlqLeaseSeconds p) \<and>
    (\<exists>r. row_of rows i = Some r \<and> \<not> claimable now (dlqLeaseSeconds p) r)"
  using assms by (auto simp: leased_def lease_of_def claimable_def)

lemma leased_cmd:
  assumes "fresh_for c cmd w" "leased i t t0 (dlq_rows w)" "\<not> releases i cmd"
    and "target_policy env t = Inr p" "call_now c \<le> t0 + dlqLeaseSeconds p * 1000"
  shows "leased i t t0 (dlq_rows (run_cmd env c cmd w))"
  using cmd_rows [OF assms(1), of env]
proof (elim disjE exE conjE)
  fix item stored
  assume "dlq_rows (run_cmd env c cmd w) = dlq_rows w @ [new_row c item stored]"
  then show ?thesis using assms(2) by (auto simp: leased_def row_of_append)
next
  fix j lease
  assume j: "lease_of env (dlq_rows w) j = Inr lease"
    and rows: "dlq_rows (run_cmd env c cmd w) = map (claim_row env c j lease) (dlq_rows w)"
  obtain r where r: "row_of (dlq_rows w) i = Some r" "status r = ''retrying''"
    "lockedAt r = Some t0" "row_targetSystem r = t"
    using assms(2) by (auto simp: leased_def)
  then have "row_id r = i" by (auto dest: row_of_Some)
  moreover have "\<not> claimable (call_now c) lease r" if "j = i"
    using leased_not_claimed [OF assms(2,4,5)] j r that by simp
  ultimately have "claim_row env c j lease r = r" by (auto simp: claim_row_def)
  then show ?thesis using r by (simp add: rows leased_def row_of_map)
next
  fix j
  assume "cmd \<in> {CmdSkip j, CmdResolve j} \<union> range (CmdFail j)"
    and rel: "released_in_place j (dlq_rows w) (dlq_rows (run_cmd env c cmd w))"
  with assms(3) have "j \<noteq> i" by (auto simp: releases_def)
  with rel assms(2) show ?thesis
    by (auto simp: released_in_place_def leased_def row_of_map dest: row_of_Some)
qed (use assms(2) in simp)

lemma leased_steps:
  assumes "dlq_steps env w tr w'" "leased i t t0 (dlq_rows w)" "target_policy env t = Inr p"
    and "\<forall>(c, cmd) \<in> set tr. \<not> releases i cmd \<and> call_now c \<le> t0 + dlqLeaseSeconds p * 1000"
  shows "leased i t t0 (dlq_rows w')"
  using assms by (induction rule: dlq_steps.induct) (auto intro: leased_cmd)

lemma claim_leases:
  assumes "wf_rows (dlq_rows w)" "dlq_retry env c i w = (Inr True, w')"
    and "row_of (dlq_rows w) i = Some r"
  shows "leased i (row_targetSystem r) (call_now c) (dlq_rows w')"
proof -
  obtain lease where "claimable (call_now c) lease r"
    and rows: "dlq_rows w' = map (claim_row env c i lease) (dlq_rows w)"
    using retry_True [OF _ assms(2)] assms(1,3) by (auto simp: wf_rows_def)
  moreover have "row_id r = i" using assms(3) by (auto dest: row_of_Some)
  ultimately have "claim_row env c i lease r = claim (call_now c) (env_pid env) r"
    by (simp add: claim_row_def)
  then show ?thesis using assms(3) by (simp add: rows leased_def row_of_map claim_def)
qed

text \<open>The times of the retries of item \<open>i\<close> in a sequence of commands that were not refused.\<close>

fun retry_times :: "dlq_env \<Rightarrow> string \<Rightarrow> (dlq_call \<times> dlq_cmd) list \<Rightarrow> 'b dlq_state_scheme \<Rightarrow> nat list" where
  "retry_times env i [] w = []"
| "retry_times env i ((c, cmd) # tr) w =
     (if cmd = CmdRetry i \<and> fst (dlq_retry env c i w) \<noteq> Inr False then [call_now c] else []) @
     retry_times env i tr (run_cmd env c cmd w)"

definition leases_of :: "string \<Rightarrow> dlq_row list \<Rightarrow> nat set" where
  "leases_of i rows = {t. \<exists>r \<in> set rows. row_id r = i \<and> lockedAt r = Some t}"

lemma refused_retry_keeps_rows:
  assumes "distinct (map row_id (dlq_rows w))" "fst (dlq_retry env c i w) = Inr False"
  shows "dlq_rows (snd (dlq_retry env c i w)) = dlq_rows w"
proof -
  obtain lease where lease: "lease_of env (dlq_rows w) i = Inr lease"
    and none: "length (filter (\<lambda>r. row_id r = i \<and> claimable (call_now c) lease r) (dlq_rows w)) \<noteq> 1"
    and run: "snd (dlq_retry env c i w) = w\<lparr>dlq_rows := map (claim_row env c i lease) (dlq_rows w)\<rparr>"
    using assms(2) by (auto simp: retry_run sbind_def split: option.splits sum.splits if_splits prod.splits)
  then have "filter (\<lambda>r. row_id r = i \<and> claimable (call_now c) lease r) (dlq_rows w) = []"
    using filter_unique [OF assms(1), of i "claimable (call_now c) lease"] by (auto split: option.splits if_splits)
  then have "map (claim_row env c i lease) (dlq_rows w) = dlq_rows w"
    by (auto simp: filter_empty_conv claim_row_def intro!: map_idI)
  with run show ?thesis by simp
qed

lemma leases_of_cmd:
  assumes "fresh_for c cmd w" "wf_rows (dlq_rows w)" "t \<in> leases_of i (dlq_rows (run_cmd env c cmd w))"
  shows "t \<in> leases_of i (dlq_rows w) \<or>
    cmd = CmdRetry i \<and> fst (dlq_retry env c i w) \<noteq> Inr False \<and> t = call_now c"
  using cmd_rows [OF assms(1), of env]
proof (elim disjE exE conjE)
  fix j lease
  assume j: "cmd = CmdRetry j" and rows: "dlq_rows (run_cmd env c cmd w) = map (claim_row env c j lease) (dlq_rows w)"
  show ?thesis
  proof (cases "j = i \<and> fst (dlq_retry env c i w) = Inr False")
    case True
    with refused_retry_keeps_rows [of w env c i] assms(2,3) j show ?thesis by (simp add: wf_rows_def)
  next
    case False
    with rows j assms(3) show ?thesis
      by (auto simp: leases_of_def claim_row_def claim_def split: if_splits)
  qed
qed (use assms(3) in \<open>auto simp: leases_of_def new_row_def released_in_place_def split: if_splits\<close>)

lemma leases_of_steps:
  assumes "dlq_steps env w tr w'" "wf_rows (dlq_rows w)"
  shows "leases_of i (dlq_rows w') \<subseteq> leases_of i (dlq_rows w) \<union> set (retry_times env i tr w)"
  using assms
proof (induction rule: dlq_steps.induct)
  case (steps_cons c cmd w tr w')
  from steps_cons.IH [OF wf_cmd [OF steps_cons.hyps(1) steps_cons.prems]]
  show ?case using leases_of_cmd [OF steps_cons.hyps(1) steps_cons.prems, of _ i env] by fastforce
qed simp

lemma claim_granted:
  assumes "distinct (map row_id (dlq_rows w))" "row_of (dlq_rows w) i = Some r"
    and "target_policy env (row_targetSystem r) = Inr p" "claimable (call_now c) (dlqLeaseSeconds p) r"
    and "find_fault c = None" "write_fault c = None" "count_fault c = None"
  shows "fst (dlq_retry env c i w) = Inr True"
proof -
  have "lease_of env (dlq_rows w) i = Inr (dlqLeaseSeconds p)" using assms(2,3) by (simp add: lease_of_def)
  then show ?thesis
    using assms by (simp add: retry_run filter_unique) (simp add: sbind_def dlq_updateMetrics_def)
qed

section \<open>Gauges\<close>

lemma metrics_gauges:
  assumes "dlq_updateMetrics c w = (Inr u, w')" "st \<in> set DLQ_STATUSES"
  shows "dlqSize (dlq_metrics w') st = Some (count_status (dlq_rows w') st)"
  using assms by (cases "count_fault c") (auto simp: dlq_updateMetrics_def DLQ_STATUSES_def setDlqSize_def)

section \<open>Properties\<close>

text \<open>A configuration without encryption and a database with no target system rows.\<close>

definition plain_settings :: settings where
  "plain_settings = \<lparr>process_env = (\<lambda>_. None), config_value = (\<lambda>_. Undef), sqlite = False\<rparr>"

definition demo_env :: dlq_env where
  "demo_env =
     \<lparr>env_platform = demo_platform, env_settings = plain_settings, env_lease = None,
      env_read_config = (\<lambda>_. Inr None), env_pid = ''42''\<rparr>"

definition demo_call :: "nat \<Rightarrow> dlq_call" where
  "demo_call now =
     \<lparr>call_now = now, call_iv = ''iv'', call_id = ''row'', find_fault = None, write_fault = None,
      count_fault = None\<rparr>"

definition demo_item :: dlq_item where
  "demo_item =
     \<lparr>item_eventId = ''e1'', item_operation = ''user.create'', item_targetSystem = ''ad'',
      item_payload = Obj [], item_error = ''timeout'', item_retryCount = Some 3\<rparr>"

definition demo_state :: dlq_state where
  "demo_state =
     \<lparr>dlq_rows = [new_row (demo_call 5) demo_item (Obj [])], dlq_metrics = init_metrics\<rparr>"

lemma demo_policy: "target_policy demo_env t = Inr DEFAULT_RETRY_POLICY"
proof -
  have "positive_integer Undef = None" by (simp add: positive_integer_def)
  then show ?thesis
    by (simp add: target_policy_def demo_env_def forTarget_def config_member_def js_get_def
        normalizePolicy_def empty_policy_def apply_policy_def DEFAULT_RETRY_POLICY_def)
qed

lemma plain_toJson [simp]: "toJson P plain_settings iv v = Inr v"
  by (simp add: toJson_def encryptForStorage_def encryption_isEnabled_def readFlag_def
      readString_def plain_settings_def)

text \<open>
  C3: the invariant of the dead-letter table. Whatever sequence of additions, retries, skips,
  resolutions and failures runs on an empty table, with failing database calls anywhere, row
  ids stay distinct, a status is one of the four statuses, and a row has a lease time and an
  owner exactly while it is being retried.
\<close>

theorem dlq_table_invariant:
  assumes "dlq_steps env w tr w'" and "dlq_rows w = []"
  shows "wf_rows (dlq_rows w')"
  using wf_steps [OF assms(1)] assms(2) by (simp add: wf_rows_def)

theorem dlq_table_invariant_witness:
  "wf_rows (dlq_rows (run_cmd demo_env (demo_call 5) (CmdAdd demo_item)
     \<lparr>dlq_rows = [], dlq_metrics = init_metrics\<rparr>)) \<and>
   dlq_rows (run_cmd demo_env (demo_call 5) (CmdAdd demo_item)
     \<lparr>dlq_rows = [], dlq_metrics = init_metrics\<rparr>) \<noteq> []"
proof -
  let ?w = "\<lparr>dlq_rows = [], dlq_metrics = init_metrics\<rparr>"
  have "dlq_steps demo_env ?w [(demo_call 5, CmdAdd demo_item)]
      (run_cmd demo_env (demo_call 5) (CmdAdd demo_item) ?w)"
    by (intro steps_cons steps_nil) (simp add: fresh_for_def)
  then have "wf_rows (dlq_rows (run_cmd demo_env (demo_call 5) (CmdAdd demo_item) ?w))"
    by (rule dlq_table_invariant) simp
  moreover have "dlq_rows (run_cmd demo_env (demo_call 5) (CmdAdd demo_item) ?w) \<noteq> []"
    by (simp add: dlq_add_def demo_env_def demo_call_def)
  ultimately show ?thesis by simp
qed

text \<open>
  C4: a lease is exclusive. Once a retry of an item has been claimed, then whatever other
  workers do in between, short of skipping, resolving or failing that same item, no other
  retry of it is granted before the lease of its target system has expired.
\<close>

theorem lease_is_exclusive:
  assumes "wf_rows (dlq_rows w)" and "dlq_retry env c i w = (Inr True, w1)"
    and "row_of (dlq_rows w) i = Some r" and "target_policy env (row_targetSystem r) = Inr p"
    and "dlq_steps env w1 tr w2"
    and "\<forall>(c', cmd) \<in> set tr. \<not> releases i cmd \<and>
      call_now c' \<le> call_now c + dlqLeaseSeconds p * 1000"
    and "call_now c2 \<le> call_now c + dlqLeaseSeconds p * 1000"
  shows "fst (dlq_retry env c2 i w2) \<noteq> Inr True"
proof
  assume "fst (dlq_retry env c2 i w2) = Inr True"
  then obtain w3 where claimed: "dlq_retry env c2 i w2 = (Inr True, w3)"
    by (cases "dlq_retry env c2 i w2") simp
  have "wf_rows (dlq_rows w1)"
    using wf_cmd [of c "CmdRetry i" w env] assms(1,2) by (simp add: fresh_for_def)
  then have wf: "wf_rows (dlq_rows w2)" using assms(5) wf_steps by blast
  have "leased i (row_targetSystem r) (call_now c) (dlq_rows w2)"
    using leased_steps [OF assms(5) claim_leases [OF assms(1-3)] assms(4,6)] .
  from leased_not_claimed [OF this assms(4,7)] show False
    using retry_True [OF _ claimed] wf by (auto simp: wf_rows_def)
qed

theorem lease_is_exclusive_witness:
  "fst (dlq_retry demo_env (demo_call 1000) ''row'' demo_state) = Inr True \<and>
   fst (dlq_retry demo_env (demo_call 301000) ''row''
          (snd (dlq_retry demo_env (demo_call 1000) ''row'' demo_state))) \<noteq> Inr True"
proof -
  have row: "row_of (dlq_rows demo_state) ''row'' = Some (new_row (demo_call 5) demo_item (Obj []))"
    by (simp add: demo_state_def row_of_def new_row_def demo_call_def)
  have wf: "wf_rows (dlq_rows demo_state)"
    using wf_new_row by (simp add: wf_rows_def demo_state_def)
  have lease: "lease_of demo_env (dlq_rows demo_state) ''row'' = Inr 300"
    by (simp add: lease_of_def row demo_policy DEFAULT_RETRY_POLICY_def)
  have "fst (dlq_retry demo_env (demo_call 1000) ''row'' demo_state) = Inr True"
    unfolding retry_run lease
    by (simp add: demo_call_def demo_state_def new_row_def claimable_def dlq_updateMetrics_def
        sbind_def)
  moreover from this obtain w1 where w1: "dlq_retry demo_env (demo_call 1000) ''row'' demo_state =
      (Inr True, w1)"
    by (cases "dlq_retry demo_env (demo_call 1000) ''row'' demo_state") simp
  have "fst (dlq_retry demo_env (demo_call 301000) ''row'' w1) \<noteq> Inr True"
    by (rule lease_is_exclusive [OF wf w1 row demo_policy steps_nil])
      (simp_all add: demo_call_def DEFAULT_RETRY_POLICY_def)
  ultimately show ?thesis by (simp add: w1)
qed

text \<open>
  An operator's decision can be lost. When an item is skipped while a worker retries it,
  the failure that the worker reports afterwards makes the item pending again.
\<close>

theorem skip_is_undone_by_failing_retry:
  assumes "dlq_skip c i w = (Inr (), w1)" and "dlq_markRetryFailed c' i e w1 = (Inr (), w2)"
  shows "(\<exists>r. row_of (dlq_rows w1) i = Some r \<and> status r = ''skipped'') \<and>
    (\<exists>r. row_of (dlq_rows w2) i = Some r \<and> status r = ''pending'' \<and> claimable now lease r)"
  using updated_row [OF assms(1) [unfolded dlq_skip_def]]
    updated_row [OF assms(2) [unfolded dlq_markRetryFailed_def]]
  by (auto simp: claimable_def)

theorem skip_is_undone_by_failing_retry_witness:
  "(\<exists>r. row_of (dlq_rows (snd (dlq_skip (demo_call 8) ''row'' demo_state))) ''row'' = Some r \<and>
      status r = ''skipped'') \<and>
   (\<exists>r. row_of (dlq_rows (snd (dlq_markRetryFailed (demo_call 9) ''row'' ''late''
      (snd (dlq_skip (demo_call 8) ''row'' demo_state))))) ''row'' = Some r \<and> status r = ''pending'' \<and>
      claimable 10 300 r)"
proof (rule skip_is_undone_by_failing_retry)
  show "dlq_skip (demo_call 8) ''row'' demo_state =
      (Inr (), snd (dlq_skip (demo_call 8) ''row'' demo_state))"
    "dlq_markRetryFailed (demo_call 9) ''row'' ''late'' (snd (dlq_skip (demo_call 8) ''row'' demo_state)) =
      (Inr (), snd (dlq_markRetryFailed (demo_call 9) ''row'' ''late''
         (snd (dlq_skip (demo_call 8) ''row'' demo_state))))"
    by (simp_all add: dlq_skip_def dlq_markRetryFailed_def update_row_def demo_call_def
        demo_state_def row_of_def new_row_def dlq_updateMetrics_def sbind_def)
qed

text \<open>
  The DLQ gauges are never stale after an operation that succeeded: each of the four
  gauges is the number of rows with that status.
\<close>

theorem dlq_gauges_are_current:
  assumes "dlq_add env c item w = (Inr (), w') \<or> dlq_skip c i w = (Inr (), w') \<or>
      dlq_resolve c i w = (Inr (), w') \<or> dlq_markRetryFailed c i e w = (Inr (), w') \<or>
      dlq_retry env c i w = (Inr True, w')"
    and "st \<in> set DLQ_STATUSES"
  shows "dlqSize (dlq_metrics w') st = Some (count_status (dlq_rows w') st)"
proof -
  have "\<exists>w0 u. dlq_updateMetrics c w0 = (Inr u, w')"
    using assms(1)
    by (auto simp: dlq_add_def dlq_skip_def dlq_resolve_def dlq_markRetryFailed_def dlq_retry_def
        sbind_Inr_iff split: if_splits)
  then show ?thesis using assms(2) metrics_gauges by blast
qed

theorem dlq_gauges_are_current_witness:
  "dlqSize (dlq_metrics (snd (dlq_skip (demo_call 8) ''row'' demo_state))) ''pending'' =
     Some (count_status (dlq_rows (snd (dlq_skip (demo_call 8) ''row'' demo_state))) ''pending'')"
  by (rule dlq_gauges_are_current [of demo_env "demo_call 8" demo_item demo_state _ "''row''" "[]"])
    (simp_all add: dlq_skip_def update_row_def demo_call_def demo_state_def row_of_def new_row_def
      dlq_updateMetrics_def sbind_def DLQ_STATUSES_def)

text \<open>
  C5: no item is stuck for ever. Whatever workers and operators did to the table, and however many of them died in
  the middle of a retry, an item that is neither skipped nor resolved can be retried once the lease of its target
  system has passed since the last retry of this item that was not refused, however busy the table is with other
  items and with attempts that are refused: the retry is granted, and the item is leased to it.
\<close>

theorem items_are_never_stuck:
  assumes "dlq_steps env w tr w'" and "dlq_rows w = []"
    and "row_of (dlq_rows w') i = Some r" and "status r \<notin> {''skipped'', ''resolved''}"
    and "target_policy env (row_targetSystem r) = Inr p"
    and "\<forall>t \<in> set (retry_times env i tr w). t + dlqLeaseSeconds p * 1000 < call_now c"
    and "find_fault c = None" and "write_fault c = None" and "count_fault c = None"
  shows "\<exists>w2. dlq_retry env c i w' = (Inr True, w2) \<and>
    leased i (row_targetSystem r) (call_now c) (dlq_rows w2)"
proof -
  have empty: "wf_rows (dlq_rows w)" using assms(2) by (simp add: wf_rows_def)
  have wf: "wf_rows (dlq_rows w')" by (rule wf_steps [OF assms(1) empty])
  have "t \<in> set (retry_times env i tr w)" if "lockedAt r = Some t" for t
    using leases_of_steps [OF assms(1) empty, of i] row_of_Some [OF assms(3)] that assms(2)
    by (auto simp: leases_of_def)
  then have "claimable (call_now c) (dlqLeaseSeconds p) r"
    using assms(4,6) by (cases "lockedAt r") (auto simp: claimable_def)
  moreover have "distinct (map row_id (dlq_rows w'))" using wf by (simp add: wf_rows_def)
  ultimately have "fst (dlq_retry env c i w') = Inr True"
    by (intro claim_granted [OF _ assms(3,5) _ assms(7-9)])
  then obtain w2 where "dlq_retry env c i w' = (Inr True, w2)" by (metis prod.collapse)
  with claim_leases [OF wf _ assms(3)] show ?thesis by blast
qed

theorem items_are_never_stuck_witness:
  "\<exists>w2. dlq_retry demo_env (demo_call 301001) ''row''
      (run_cmd demo_env (demo_call 1000) (CmdRetry ''row'')
         (run_cmd demo_env (demo_call 5) (CmdAdd demo_item) \<lparr>dlq_rows = [], dlq_metrics = init_metrics\<rparr>)) =
    (Inr True, w2) \<and> leased ''row'' ''ad'' 301001 (dlq_rows w2)"
proof -
  let ?w = "\<lparr>dlq_rows = [], dlq_metrics = init_metrics\<rparr>"
  let ?w1 = "run_cmd demo_env (demo_call 5) (CmdAdd demo_item) ?w"
  let ?w2 = "run_cmd demo_env (demo_call 1000) (CmdRetry ''row'') ?w1"
  have added: "dlq_rows ?w1 = [new_row (demo_call 5) demo_item (Obj [])]"
    by (simp add: dlq_add_def demo_env_def demo_call_def demo_item_def)
  have id: "row_id (new_row (demo_call 5) demo_item (Obj [])) = ''row''"
    by (simp add: new_row_def demo_call_def)
  have "fst (dlq_retry demo_env (demo_call 1000) ''row'' ?w1) = Inr True"
    by (rule claim_granted [where r = "new_row (demo_call 5) demo_item (Obj [])", OF _ _ demo_policy])
      (simp_all add: added row_of_def id del: run_cmd.simps,
       simp_all add: demo_call_def new_row_def claimable_def)
  then obtain w3 where claimed: "dlq_retry demo_env (demo_call 1000) ''row'' ?w1 = (Inr True, w3)"
    by (metis prod.collapse)
  have "wf_rows (dlq_rows ?w1)" using wf_new_row by (simp add: wf_rows_def added del: run_cmd.simps)
  moreover have "row_of (dlq_rows ?w1) ''row'' = Some (new_row (demo_call 5) demo_item (Obj []))"
    by (simp add: added row_of_def id del: run_cmd.simps)
  ultimately have "leased ''row'' ''ad'' 1000 (dlq_rows w3)"
    using claim_leases [OF _ claimed] by (force simp: new_row_def demo_item_def demo_call_def simp del: run_cmd.simps)
  moreover have "?w2 = w3" using claimed by simp
  ultimately have "leased ''row'' ''ad'' 1000 (dlq_rows ?w2)" by (simp only:)
  then obtain r where r: "row_of (dlq_rows ?w2) ''row'' = Some r" "status r = ''retrying''" "row_targetSystem r = ''ad''"
    by (auto simp: leased_def simp del: run_cmd.simps)
  have steps: "dlq_steps demo_env ?w [(demo_call 5, CmdAdd demo_item), (demo_call 1000, CmdRetry ''row'')] ?w2"
    by (intro steps_cons steps_nil) (simp_all add: fresh_for_def)
  have "\<exists>w2. dlq_retry demo_env (demo_call 301001) ''row'' ?w2 = (Inr True, w2) \<and>
      leased ''row'' (row_targetSystem r) (call_now (demo_call 301001)) (dlq_rows w2)"
    by (rule items_are_never_stuck [OF steps _ r(1) _ demo_policy])
      (simp_all add: r demo_call_def DEFAULT_RETRY_POLICY_def del: run_cmd.simps)
  then show ?thesis by (simp only: r(3)) (simp add: demo_call_def del: run_cmd.simps)
qed

end
