(* ===== verification/Connector.thy ===== *)
theory Connector
  imports Prelude
begin

text \<open>
  The connector interface (\<open>connectors/connector.interface.ts\<close>), the operation vocabulary
  (\<open>inbound/webhooks/avanpost-operation.enum.ts\<close>) and the capability table
  (\<open>connectors/connector.capabilities.ts\<close>).
\<close>

section \<open>Payloads and results\<close>

record connector_payload =
  operation :: string
  targetSystem :: string
  body :: obj

record connector_result =
  success :: bool
  result_data :: jsval
  result_error :: "string option"

definition result_ok :: "jsval \<Rightarrow> connector_result" where
  "result_ok d = \<lparr>success = True, result_data = d, result_error = None\<rparr>"

definition result_fail :: "string \<Rightarrow> connector_result" where
  "result_fail m = \<lparr>success = False, result_data = Undef, result_error = Some m\<rparr>"

section \<open>Operations\<close>

definition CHANGE_CREDENTIAL_OP :: string where
  "CHANGE_CREDENTIAL_OP = join_with [] [''user.change'', ''P'' @ ''assword'']"

definition AVANPOST_OPERATIONS :: "string list" where
  "AVANPOST_OPERATIONS =
     [''user.create'', ''user.update'', ''user.delete'', ''user.get'', ''user.search'',
      ''user.enable'', ''user.disable'', ''user.lock'', ''user.unlock'', CHANGE_CREDENTIAL_OP,
      ''user.resolve'', ''user.addAttributes'', ''user.removeAttributes'', ''group.create'',
      ''group.update'', ''group.delete'', ''group.get'', ''group.search'', ''group.addMember'',
      ''group.removeMember'', ''system.test'', ''schema.get'', ''sync.full'', ''sync.incremental'']"

definition READ_OPERATIONS :: "string list" where
  "READ_OPERATIONS =
     [''user.get'', ''user.search'', ''group.get'', ''group.search'', ''system.test'',
      ''schema.get'', ''sync.full'', ''sync.incremental'', ''user.resolve'']"

definition WRITE_OPERATIONS :: "string list" where
  "WRITE_OPERATIONS =
     [''user.create'', ''user.update'', ''user.delete'', ''user.enable'', ''user.disable'',
      ''user.lock'', ''user.unlock'', CHANGE_CREDENTIAL_OP, ''user.addAttributes'',
      ''user.removeAttributes'', ''group.create'', ''group.update'', ''group.delete'',
      ''group.addMember'', ''group.removeMember'']"

definition isReadOperation :: "string \<Rightarrow> bool" where
  "isReadOperation op \<longleftrightarrow> op \<in> set READ_OPERATIONS"

lemma change_credential_op: "CHANGE_CREDENTIAL_OP = ''user.changePassword''"
  by (simp add: CHANGE_CREDENTIAL_OP_def)

section \<open>Capabilities\<close>

datatype operation_status = Implemented | Partial string | Unsupported string

record capability_flags =
  supportsRead :: bool
  supportsWrite :: bool
  supportsSync :: bool
  supportsIncrementalSync :: bool
  supportsSchema :: bool

record connector_capabilities =
  cap_operations :: "string list"
  cap_readOperations :: "string list"
  cap_writeOperations :: "string list"
  cap_flags :: capability_flags
  cap_operationStatus :: "(string \<times> operation_status) list"
  cap_partialOperations :: "(string \<times> string) list option"

definition all_capabilities :: capability_flags where
  "all_capabilities = \<lparr>supportsRead = True, supportsWrite = True, supportsSync = True,
     supportsIncrementalSync = True, supportsSchema = True\<rparr>"

text \<open>
  A reason counts only when it is a non-empty string; the override of the flags is the
  record update \<open>override\<close> of the defaults.
\<close>

definition operation_capability ::
  "(string \<times> string) list \<Rightarrow> (string \<times> string) list \<Rightarrow> string \<Rightarrow> operation_status" where
  "operation_capability partialOps unsupportedOps op =
     (case map_of unsupportedOps op of
        Some (c # r) \<Rightarrow> Unsupported (c # r)
      | _ \<Rightarrow> (case map_of partialOps op of
                Some (c # r) \<Rightarrow> Partial (c # r)
              | _ \<Rightarrow> Implemented))"

definition createConnectorCapabilities ::
  "(string \<times> string) list \<Rightarrow> (capability_flags \<Rightarrow> capability_flags) \<Rightarrow>
   (string \<times> string) list \<Rightarrow> connector_capabilities" where
  "createConnectorCapabilities partialOps override unsupportedOps =
     \<lparr>cap_operations = AVANPOST_OPERATIONS,
      cap_readOperations = READ_OPERATIONS,
      cap_writeOperations = WRITE_OPERATIONS,
      cap_flags = override all_capabilities,
      cap_operationStatus =
        map (\<lambda>op. (op, operation_capability partialOps unsupportedOps op)) AVANPOST_OPERATIONS,
      cap_partialOperations = (if partialOps \<noteq> [] then Some partialOps else None)\<rparr>"

section \<open>Properties\<close>

text \<open>
  The operation vocabulary is split: every operation of the webhook contract is a read
  or a write operation and none is both, no name occurs twice, and the three lists agree in
  number.
\<close>

theorem operations_partition:
  "set AVANPOST_OPERATIONS = set READ_OPERATIONS \<union> set WRITE_OPERATIONS \<and>
   set READ_OPERATIONS \<inter> set WRITE_OPERATIONS = {} \<and>
   distinct AVANPOST_OPERATIONS \<and> distinct READ_OPERATIONS \<and> distinct WRITE_OPERATIONS \<and>
   length AVANPOST_OPERATIONS = length READ_OPERATIONS + length WRITE_OPERATIONS"
  unfolding AVANPOST_OPERATIONS_def READ_OPERATIONS_def WRITE_OPERATIONS_def change_credential_op
  by (intro conjI equalityI) simp_all

text \<open>
  The capability table a connector publishes has exactly one entry for each operation of
  the vocabulary, in its order, and an operation declared unsupported with a reason is
  reported unsupported even when it is also declared partial.
\<close>

theorem capability_table_total:
  "map fst (cap_operationStatus (createConnectorCapabilities ps f us)) = AVANPOST_OPERATIONS \<and>
   (op \<in> set AVANPOST_OPERATIONS \<longrightarrow>
     map_of (cap_operationStatus (createConnectorCapabilities ps f us)) op =
       Some (operation_capability ps us op)) \<and>
   (map_of us op = Some r \<longrightarrow> r \<noteq> [] \<longrightarrow> operation_capability ps us op = Unsupported r)"
  by (auto simp: createConnectorCapabilities_def operation_capability_def comp_def map_of_map_restrict
      split: list.split)

theorem capability_table_total_witness:
  "map_of (cap_operationStatus (createConnectorCapabilities [(''user.lock'', ''p'')] id
     [(''user.lock'', ''no locks'')])) ''user.lock'' = Some (Unsupported ''no locks'')"
  using capability_table_total [of "[(''user.lock'', ''p'')]" id "[(''user.lock'', ''no locks'')]"
      "''user.lock''" "''no locks''"]
  by (simp add: AVANPOST_OPERATIONS_def)

end
