(* ===== verification/Registry.thy ===== *)
theory Registry
  imports Connector Encryption
begin

text \<open>
  Models \<open>connectors/connector.registry.ts\<close>: the static connectors, the proxies built from the
  target system rows, and the polling that keeps them up to date. A connector is a record of
  its methods, which transform the world \<open>'w\<close>; the concrete ones are a parameter.
\<close>

section \<open>Connectors\<close>

record 'w connector =
  conn_name :: string
  conn_execute :: "connector_payload \<Rightarrow> (connector_result, 'w) op"
  conn_testConnection :: "jsval \<Rightarrow> (bool \<times> string, 'w) op"
  conn_getCapabilities :: "connector_capabilities option"
  conn_getSchema :: "(connector_payload \<Rightarrow> (connector_result, 'w) op) option"
  conn_sync :: "(connector_payload \<Rightarrow> string \<Rightarrow> (connector_result, 'w) op) option"

record target_row =
  ts_name :: string
  ts_type :: string
  ts_config :: jsval
  ts_enabled :: bool
  ts_updatedAt :: nat

text \<open>
  A registry version is printed as \<open>count:time\<close>; \<open>None\<close> is the initial empty string, and the
  time is missing when there is no row.
\<close>

type_synonym registry_version = "(nat \<times> nat option) option"

record 'w registry =
  connectors :: "(string \<times> 'w connector) list"
  staticConnectors :: "(string \<times> 'w connector) list"
  lastRegistryVersion :: registry_version

definition registerStatic :: "'w connector \<Rightarrow> 'w registry \<Rightarrow> 'w registry" where
  "registerStatic c reg =
     reg\<lparr>staticConnectors := map_set (conn_name c) c (staticConnectors reg)\<rparr>"

definition new_registry :: "'w connector list \<Rightarrow> 'w registry" where
  "new_registry cs =
     fold registerStatic cs \<lparr>connectors = [], staticConnectors = [], lastRegistryVersion = None\<rparr>"

section \<open>Proxies\<close>

definition with_config :: "jsval \<Rightarrow> connector_payload \<Rightarrow> connector_payload" where
  "with_config config p = p\<lparr>body := js_set ''config'' config (body p)\<rparr>"

definition createProxy :: "(string \<times> 'w connector) list \<Rightarrow> string \<Rightarrow> string \<Rightarrow> jsval \<Rightarrow> 'w connector option" where
  "createProxy statics type name config =
     (case map_of statics type of
        None \<Rightarrow> None
      | Some base \<Rightarrow> Some
          \<lparr>conn_name = name,
           conn_execute = (\<lambda>p. conn_execute base (with_config config p)),
           conn_testConnection = (\<lambda>_. conn_testConnection base config),
           conn_getCapabilities = conn_getCapabilities base,
           conn_getSchema = map_option (\<lambda>f p. f (with_config config p)) (conn_getSchema base),
           conn_sync = map_option (\<lambda>f p mode. f (with_config config p) mode) (conn_sync base)\<rparr>)"

section \<open>Reloading\<close>

definition staticConnectorAllowlist :: "string option \<Rightarrow> string option \<Rightarrow> string set" where
  "staticConnectorAllowlist configured node_env =
     (case configured of
        Some c \<Rightarrow> set (csv_values c)
      | None \<Rightarrow> if node_env = Some ''production'' then {} else {''fake''})"

definition allowed_statics :: "string set \<Rightarrow> (string \<times> 'w connector) list \<Rightarrow> (string \<times> 'w connector) list" where
  "allowed_statics allow statics = filter (\<lambda>(n, _). n \<in> allow) statics"

fun load_rows ::
  "platform \<Rightarrow> settings \<Rightarrow> (string \<times> 'w connector) list \<Rightarrow> target_row list \<Rightarrow>
   (string \<times> 'w connector) list \<Rightarrow> (string \<times> 'w connector) list result" where
  "load_rows P cfg statics [] next = Inr next"
| "load_rows P cfg statics (ts # rows) next =
     ebind (fromJson P cfg (ts_config ts)) (\<lambda>c.
       case createProxy statics (ts_type ts) (ts_name ts) (coalesce c (Obj [])) of
         None \<Rightarrow> load_rows P cfg statics rows next
       | Some proxy \<Rightarrow> load_rows P cfg statics rows (map_set (ts_name ts) proxy next))"

definition registryVersion :: "target_row list \<Rightarrow> registry_version" where
  "registryVersion rows =
     Some (length rows, if rows = [] then None else Some (Max (ts_updatedAt ` set rows)))"

text \<open>
  A reload reads the database twice, the rows first and the version afterwards: \<open>db1\<close> and
  \<open>db2\<close> are the table at the two reads, or the database error.
\<close>

definition reloadInternal ::
  "platform \<Rightarrow> settings \<Rightarrow> string set \<Rightarrow> target_row list result \<Rightarrow> target_row list result \<Rightarrow>
   (unit, 'w registry) op" where
  "reloadInternal P cfg allow db1 db2 reg =
     (case db1 of
        Inl e \<Rightarrow> (Inl e, reg)
      | Inr rows \<Rightarrow>
        (case load_rows P cfg (staticConnectors reg) (filter ts_enabled rows)
                (allowed_statics allow (staticConnectors reg)) of
           Inl e \<Rightarrow> (Inl e, reg)
         | Inr next \<Rightarrow>
             (let reg' = reg\<lparr>connectors := next\<rparr> in
              case db2 of
                Inl e \<Rightarrow> (Inl e, reg')
              | Inr rows' \<Rightarrow> (Inr (), reg'\<lparr>lastRegistryVersion := registryVersion rows'\<rparr>))))"

definition registry_get :: "'w registry \<Rightarrow> string \<Rightarrow> 'w connector option" where
  "registry_get reg name = map_of (connectors reg) name"

definition reloadIfChanged ::
  "platform \<Rightarrow> settings \<Rightarrow> string set \<Rightarrow> target_row list result \<Rightarrow> target_row list result \<Rightarrow>
   target_row list result \<Rightarrow> 'w registry \<Rightarrow> 'w registry" where
  "reloadIfChanged P cfg allow db0 db1 db2 reg =
     (case db0 of
        Inl e \<Rightarrow> reg
      | Inr rows \<Rightarrow>
          if registryVersion rows \<noteq> lastRegistryVersion reg
          then snd (reloadInternal P cfg allow db1 db2 reg) else reg)"

definition registry_testConnection :: "'w registry \<Rightarrow> string \<Rightarrow> jsval \<Rightarrow> (bool \<times> string, 'w) op" where
  "registry_testConnection reg type config =
     (case map_of (staticConnectors reg) type of
        None \<Rightarrow> ret (False, ''No connector found for type: '' @ type)
      | Some base \<Rightarrow> conn_testConnection base config)"

text \<open>The polling interval in milliseconds, when there is polling at all.\<close>

definition polling_ms :: "jsval \<Rightarrow> rat option" where
  "polling_ms seconds =
     (case coalesce seconds (num 10) of
        Num (Fin s) \<Rightarrow> if 0 < s then Some (s * 1000) else None
      | _ \<Rightarrow> None)"

section \<open>What a reload registers\<close>

lemma proxy_base: "createProxy statics type name c = None \<longleftrightarrow> map_of statics type = None"
  by (simp add: createProxy_def split: option.split)

lemma map_of_allowed: "map_of (allowed_statics allow statics) n = (if n \<in> allow then map_of statics n else None)"
  by (induction statics) (auto simp: allowed_statics_def)

text \<open>The proxy that a row stands for.\<close>

definition row_proxy :: "platform \<Rightarrow> settings \<Rightarrow> (string \<times> 'w connector) list \<Rightarrow> target_row \<Rightarrow> 'w connector option" where
  "row_proxy P cfg statics ts =
     (case fromJson P cfg (ts_config ts) of
        Inl e \<Rightarrow> None
      | Inr c \<Rightarrow> createProxy statics (ts_type ts) (ts_name ts) (coalesce c (Obj [])))"

lemma load_rows_lookup:
  assumes "load_rows P cfg statics rows next = Inr regs" "distinct (map ts_name rows)"
  shows "map_of regs n =
    (case find (\<lambda>ts. ts_name ts = n) rows of
       None \<Rightarrow> map_of next n
     | Some ts \<Rightarrow> (case row_proxy P cfg statics ts of None \<Rightarrow> map_of next n | Some p \<Rightarrow> Some p))"
  using assms
proof (induction rows arbitrary: "next")
  case (Cons ts rows)
  obtain c where c: "fromJson P cfg (ts_config ts) = Inr c"
    using Cons.prems(1) by (auto simp: ebind_Inr_iff)
  define p where "p = createProxy statics (ts_type ts) (ts_name ts) (coalesce c (Obj []))"
  define next' where "next' = (case p of None \<Rightarrow> next | Some x \<Rightarrow> map_set (ts_name ts) x next)"
  have "load_rows P cfg statics rows next' = Inr regs"
    using Cons.prems(1) by (auto simp: c p_def next'_def split: option.splits)
  moreover have "distinct (map ts_name rows)" using Cons.prems(2) by simp
  ultimately have IH: "map_of regs n =
      (case find (\<lambda>ts. ts_name ts = n) rows of
         None \<Rightarrow> map_of next' n
       | Some ts \<Rightarrow> (case row_proxy P cfg statics ts of None \<Rightarrow> map_of next' n | Some p \<Rightarrow> Some p))"
    by (rule Cons.IH)
  have none: "ts_name ts = n \<Longrightarrow> find (\<lambda>ts. ts_name ts = n) rows = None"
    using Cons.prems(2) by (auto simp: find_None_iff) (metis image_eqI)
  have p: "row_proxy P cfg statics ts = p" by (simp add: row_proxy_def c p_def)
  show ?case
    using none by (auto simp: IH p next'_def map_of_map_set split: option.splits)
qed simp

lemma reload_connectors:
  assumes "reloadInternal P cfg allow (Inr rows) db2 reg = (r, reg')"
    and "load_rows P cfg (staticConnectors reg) (filter ts_enabled rows)
           (allowed_statics allow (staticConnectors reg)) = Inr next"
  shows "connectors reg' = next \<and> staticConnectors reg' = staticConnectors reg"
  using assms by (auto simp: reloadInternal_def Let_def split: sum.splits)

lemma reload_Inr:
  assumes "reloadInternal P cfg allow db1 db2 reg = (Inr (), reg')"
  shows "\<exists>rows rows' next. db1 = Inr rows \<and> db2 = Inr rows' \<and>
    load_rows P cfg (staticConnectors reg) (filter ts_enabled rows)
      (allowed_statics allow (staticConnectors reg)) = Inr next \<and>
    reg' = reg\<lparr>connectors := next, lastRegistryVersion := registryVersion rows'\<rparr>"
  using assms by (auto simp: reloadInternal_def Let_def split: sum.splits)

lemma routing:
  assumes "reloadInternal P cfg allow (Inr rows) db2 reg = (Inr (), reg')"
    and "distinct (map ts_name rows)"
  shows "registry_get reg' name =
    (let static = (if name \<in> allow then map_of (staticConnectors reg) name else None) in
     case find (\<lambda>ts. ts_enabled ts \<and> ts_name ts = name) rows of
       None \<Rightarrow> static
     | Some ts \<Rightarrow> (case row_proxy P cfg (staticConnectors reg) ts of
                     None \<Rightarrow> static | Some proxy \<Rightarrow> Some proxy))"
proof -
  obtain "next" where l: "load_rows P cfg (staticConnectors reg) (filter ts_enabled rows)
      (allowed_statics allow (staticConnectors reg)) = Inr next"
    and reg': "connectors reg' = next"
    using reload_Inr [OF assms(1)] by auto
  have "find (\<lambda>ts. ts_name ts = name) (filter ts_enabled rows) =
      find (\<lambda>ts. ts_enabled ts \<and> ts_name ts = name) rows"
    by (induction rows) auto
  moreover have "distinct (map ts_name (filter ts_enabled rows))"
    using assms(2) by (simp add: distinct_map_filter)
  ultimately show ?thesis
    using load_rows_lookup [OF l]
    by (simp add: registry_get_def reg' map_of_allowed Let_def split: option.split)
qed

section \<open>Properties\<close>

text \<open>
  Routing after a reload. A name resolves to the proxy of the enabled target system row of
  that name when its type has a static connector; otherwise to the static connector of that
  name when the allowlist has it; otherwise to nothing.
\<close>

theorem registry_routes_by_name:
  assumes "reloadInternal P cfg allow (Inr rows) db2 reg = (Inr (), reg')"
    and "distinct (map ts_name rows)"
  shows "registry_get reg' name =
    (let static = (if name \<in> allow then map_of (staticConnectors reg) name else None) in
     case find (\<lambda>ts. ts_enabled ts \<and> ts_name ts = name) rows of
       None \<Rightarrow> static
     | Some ts \<Rightarrow> (case row_proxy P cfg (staticConnectors reg) ts of
                     None \<Rightarrow> static | Some proxy \<Rightarrow> Some proxy))"
  by (rule routing [OF assms])

definition demo_connector :: "string \<Rightarrow> unit connector" where
  "demo_connector n =
     \<lparr>conn_name = n, conn_execute = (\<lambda>p. ret (result_ok (Obj (body p)))),
      conn_testConnection = (\<lambda>_. ret (True, ''OK'')), conn_getCapabilities = None,
      conn_getSchema = None, conn_sync = None\<rparr>"

definition demo_row :: target_row where
  "demo_row =
     \<lparr>ts_name = ''zabbix-prod'', ts_type = ''zabbix'', ts_config = Obj [(''baseUrl'', Str ''http://z'')],
      ts_enabled = True, ts_updatedAt = 7\<rparr>"

definition demo_settings0 :: settings where
  "demo_settings0 = \<lparr>process_env = (\<lambda>_. None), config_value = (\<lambda>_. Undef), sqlite = False\<rparr>"

definition demo_registry :: "unit registry" where
  "demo_registry = new_registry [demo_connector ''zabbix'', demo_connector ''fake'']"

definition demo_proxies :: "(string \<times> unit connector) list" where
  "demo_proxies =
     [(''fake'', demo_connector ''fake''),
      (''zabbix-prod'', the (createProxy (staticConnectors demo_registry) ''zabbix'' ''zabbix-prod''
         (Obj [(''baseUrl'', Str ''http://z'')])))]"

lemma demo_statics:
  "staticConnectors demo_registry =
     [(''zabbix'', demo_connector ''zabbix''), (''fake'', demo_connector ''fake'')]"
  by (simp add: demo_registry_def new_registry_def registerStatic_def demo_connector_def)

lemma demo_reload:
  "reloadInternal demo_platform demo_settings0 {''fake''} (Inr [demo_row]) (Inr [demo_row]) demo_registry =
     (Inr (), demo_registry\<lparr>connectors := demo_proxies, lastRegistryVersion := Some (1, Some 7)\<rparr>)"
  by (simp add: reloadInternal_def demo_row_def fromJson_def demo_settings0_def decryptFromStorage_def
      nullish_def isEnvelope_def js_get_def coalesce_def createProxy_def demo_proxies_def demo_statics
      allowed_statics_def registryVersion_def Let_def)

theorem registry_routes_by_name_witness:
  "map_option conn_name (registry_get (demo_registry\<lparr>connectors := demo_proxies,
     lastRegistryVersion := Some (1, Some 7)\<rparr>) ''zabbix-prod'') = Some ''zabbix-prod''"
  by (subst registry_routes_by_name [OF demo_reload])
    (simp_all add: row_proxy_def demo_row_def fromJson_def demo_settings0_def decryptFromStorage_def
      nullish_def isEnvelope_def js_get_def coalesce_def createProxy_def demo_statics)

text \<open>
  An event cannot bring its own configuration. A connector that was registered for a target
  system row sees, as \<open>payload.config\<close>, the stored configuration of that row and everything
  else of the payload unchanged, in \<open>execute\<close>, \<open>getSchema\<close> and \<open>sync\<close> alike.
\<close>

theorem proxy_injects_stored_config:
  assumes "createProxy statics type name config = Some proxy"
  shows "\<exists>base. map_of statics type = Some base \<and>
    (\<forall>p. \<exists>p'. js_get (body p') ''config'' = config \<and> operation p' = operation p \<and>
       targetSystem p' = targetSystem p \<and>
       (\<forall>k. k \<noteq> ''config'' \<longrightarrow> js_get (body p') k = js_get (body p) k) \<and>
       conn_execute proxy p = conn_execute base p' \<and>
       (\<forall>f. conn_getSchema proxy = Some f \<longrightarrow> (\<exists>g. conn_getSchema base = Some g \<and> f p = g p')) \<and>
       (\<forall>f mode. conn_sync proxy = Some f \<longrightarrow> (\<exists>g. conn_sync base = Some g \<and> f p mode = g p' mode)))"
proof -
  obtain base where base: "map_of statics type = Some base"
    using assms by (auto simp: createProxy_def split: option.splits)
  have sees: "js_get (body (with_config config p)) ''config'' = config"
    "operation (with_config config p) = operation p"
    "targetSystem (with_config config p) = targetSystem p"
    "k \<noteq> ''config'' \<Longrightarrow> js_get (body (with_config config p)) k = js_get (body p) k" for p k
    by (simp_all add: with_config_def js_get_js_set)
  have calls: "conn_execute proxy p = conn_execute base (with_config config p)"
    "conn_getSchema proxy = Some f \<Longrightarrow>
       \<exists>g. conn_getSchema base = Some g \<and> f p = g (with_config config p)"
    "conn_sync proxy = Some h \<Longrightarrow>
       \<exists>g. conn_sync base = Some g \<and> h p mode = g (with_config config p) mode" for p f h mode
    using assms base by (auto simp: createProxy_def)
  show ?thesis
  proof (intro exI [of _ base] conjI allI)
    show "map_of statics type = Some base" by (rule base)
    fix p
    show "\<exists>p'. js_get (body p') ''config'' = config \<and> operation p' = operation p \<and>
       targetSystem p' = targetSystem p \<and>
       (\<forall>k. k \<noteq> ''config'' \<longrightarrow> js_get (body p') k = js_get (body p) k) \<and>
       conn_execute proxy p = conn_execute base p' \<and>
       (\<forall>f. conn_getSchema proxy = Some f \<longrightarrow> (\<exists>g. conn_getSchema base = Some g \<and> f p = g p')) \<and>
       (\<forall>f mode. conn_sync proxy = Some f \<longrightarrow> (\<exists>g. conn_sync base = Some g \<and> f p mode = g p' mode))"
      by (intro exI [of _ "with_config config p"] conjI allI impI sees calls)
  qed
qed

theorem proxy_injects_stored_config_witness:
  "\<exists>proxy. createProxy (staticConnectors demo_registry) ''zabbix'' ''z'' (Str ''stored'') = Some proxy \<and>
     conn_execute proxy \<lparr>operation = ''user.get'', targetSystem = ''z'',
       body = [(''config'', Str ''forged'')]\<rparr> () =
       (Inr (result_ok (Obj [(''config'', Str ''stored'')])), ())"
proof -
  obtain proxy where p: "createProxy (staticConnectors demo_registry) ''zabbix'' ''z'' (Str ''stored'') = Some proxy"
    by (simp add: createProxy_def demo_statics)
  let ?p = "\<lparr>operation = ''user.get'', targetSystem = ''z'', body = [(''config'', Str ''forged'')]\<rparr>"
  from proxy_injects_stored_config [OF p] have "\<exists>base. map_of (staticConnectors demo_registry) ''zabbix'' = Some base"
    by blast
  moreover have "conn_execute proxy ?p () = (Inr (result_ok (Obj [(''config'', Str ''stored'')])), ())"
    using p by (auto simp: createProxy_def demo_statics with_config_def demo_connector_def)
  ultimately show ?thesis using p by blast
qed

text \<open>
  A change of the target systems that is committed between the two reads of a reload is
  missed for good. The reload then serves the rows of the first read, but has recorded the
  version of the second, so no later poll reloads until the table changes again.
\<close>

theorem change_during_reload_is_missed:
  assumes "reloadInternal P cfg allow (Inr before) (Inr after) reg = (Inr (), reg')"
  shows "reloadIfChanged P cfg allow (Inr after) db1 db2 reg' = reg' \<and>
    load_rows P cfg (staticConnectors reg) (filter ts_enabled before)
      (allowed_statics allow (staticConnectors reg)) = Inr (connectors reg')"
  using reload_Inr [OF assms] by (auto simp: reloadIfChanged_def)

theorem change_during_reload_is_missed_witness:
  "\<exists>reg'. reloadInternal demo_platform demo_settings0 {''fake''} (Inr []) (Inr [demo_row]) demo_registry =
     (Inr (), reg') \<and> registry_get reg' ''zabbix-prod'' = None \<and>
     reloadIfChanged demo_platform demo_settings0 {''fake''} (Inr [demo_row]) (Inr [demo_row])
       (Inr [demo_row]) reg' = reg'"
proof -
  let ?reg = "demo_registry\<lparr>connectors := [(''fake'', demo_connector ''fake'')],
      lastRegistryVersion := Some (1, Some 7)\<rparr>"
  have r: "reloadInternal demo_platform demo_settings0 {''fake''} (Inr []) (Inr [demo_row]) demo_registry =
      (Inr (), ?reg)"
    by (simp add: reloadInternal_def demo_statics allowed_statics_def registryVersion_def demo_row_def)
  from change_during_reload_is_missed [OF r] r show ?thesis
    by (auto simp: registry_get_def)
qed

end
