(* ===== verification/Idempotency.thy ===== *)
theory Idempotency
  imports Encryption
begin

text \<open>
  Models \<open>core/idempotency/\<close>: the PostgreSQL and the Redis store of event locks, and
  \<open>idempotency.service.ts\<close> on top of either. The interface of the stores is the locale
  \<open>idempotency_store\<close>, whose abstract state is the set of keys that are live at a time; both
  stores are interpretations of it. \<open>now\<close> is \<open>Date.now()\<close> in milliseconds.
\<close>

section \<open>The store interface\<close>

record 's idem_store =
  st_exists :: "nat \<Rightarrow> string \<Rightarrow> (bool, 's) op"
  st_set :: "nat \<Rightarrow> string \<Rightarrow> nat \<Rightarrow> (bool, 's) op"
  st_delete :: "string \<Rightarrow> (unit, 's) op"

section \<open>The PostgreSQL store\<close>

record key_row =
  key_lockedAt :: nat
  key_expiresAt :: nat

type_synonym key_table = "string \<Rightarrow> key_row option"

definition row_live :: "nat \<Rightarrow> key_row option \<Rightarrow> bool" where
  "row_live now r = (case r of None \<Rightarrow> False | Some x \<Rightarrow> now < key_expiresAt x)"

definition pg_exists :: "nat \<Rightarrow> string \<Rightarrow> (bool, key_table) op" where
  "pg_exists now key t = (Inr (row_live now (t key)), t)"

definition pg_write :: "nat \<Rightarrow> string \<Rightarrow> nat \<Rightarrow> key_table \<Rightarrow> key_table" where
  "pg_write now key expiresAt t =
     (let t' = t(key \<mapsto> \<lparr>key_lockedAt = now, key_expiresAt = expiresAt\<rparr>) in
      (\<lambda>k. case t' k of None \<Rightarrow> None
            | Some r \<Rightarrow> if key_expiresAt r + 60000 < now then None else Some r))"

text \<open>
  The transaction of \<open>setIfNotExists\<close> at the isolation level of the database, READ COMMITTED: it reads the row,
  and unless that is live it writes, which the others see when it commits. A transaction that found no live row is
  a writer, with its key and the time of expiry; a fault rolls it back. The answer is that of \<open>setIfNotExists\<close>,
  where a statement decides it.
\<close>

datatype pg_stmt =
    Look nat string nat
  | Commit nat
  | Rollback nat
  | Remove string

record pg_db =
  db_keys :: key_table
  db_writers :: "nat \<Rightarrow> (string \<times> nat) option"

fun pg_exec :: "nat \<Rightarrow> pg_stmt \<Rightarrow> pg_db \<Rightarrow> bool option \<times> pg_db" where
  "pg_exec now (Look i key expiresAt) db =
     (if row_live now (db_keys db key) then (Some False, db\<lparr>db_writers := (db_writers db)(i := None)\<rparr>)
      else (None, db\<lparr>db_writers := (db_writers db)(i \<mapsto> (key, expiresAt))\<rparr>))"
| "pg_exec now (Commit i) db =
     (case db_writers db i of
        None \<Rightarrow> (None, db)
      | Some (key, expiresAt) \<Rightarrow>
          (Some True, \<lparr>db_keys = pg_write now key expiresAt (db_keys db), db_writers = (db_writers db)(i := None)\<rparr>))"
| "pg_exec now (Rollback i) db = (Some False, db\<lparr>db_writers := (db_writers db)(i := None)\<rparr>)"
| "pg_exec now (Remove key) db = (None, db\<lparr>db_keys := (db_keys db)(key := None)\<rparr>)"

text \<open>A transaction that no other one interrupts.\<close>

definition pg_setIfNotExists :: "bool \<Rightarrow> nat \<Rightarrow> string \<Rightarrow> nat \<Rightarrow> (bool, key_table) op" where
  "pg_setIfNotExists fault now key ttl t =
     (let alone = \<lparr>db_keys = t, db_writers = (\<lambda>_. None)\<rparr> in
      case pg_exec now (Look 0 key (now + ttl * 1000)) alone of
        (Some answer, db) \<Rightarrow> (Inr (answer \<and> \<not> fault), db_keys db)
      | (None, db) \<Rightarrow>
          (case pg_exec now (if fault then Rollback 0 else Commit 0) db of
             (answer, db') \<Rightarrow> (Inr (answer = Some True), db_keys db')))"

lemma pg_setIfNotExists_alone:
  "pg_setIfNotExists fault now key ttl t =
     (if fault \<or> row_live now (t key) then (Inr False, t) else (Inr True, pg_write now key (now + ttl * 1000) t))"
  by (simp add: pg_setIfNotExists_def Let_def)

definition pg_delete :: "string \<Rightarrow> (unit, key_table) op" where
  "pg_delete key t = (Inr (), t(key := None))"

definition pg_store :: "key_table idem_store" where
  "pg_store = \<lparr>st_exists = pg_exists, st_set = pg_setIfNotExists False, st_delete = pg_delete\<rparr>"

section \<open>The Redis store\<close>

text \<open>
  The keyspace maps a key to the time at which it expires. \<open>SET key 1 EX ttl NX\<close> answers OK
  when it has set the key; every command throws when the store is disabled.
\<close>

type_synonym keyspace = "string \<Rightarrow> nat option"

definition redis_live :: "nat \<Rightarrow> keyspace \<Rightarrow> string \<Rightarrow> bool" where
  "redis_live now ks key = (case ks key of None \<Rightarrow> False | Some e \<Rightarrow> now < e)"

definition requireClient :: "bool \<Rightarrow> (unit, 's) op" where
  "requireClient enabled =
     (if enabled then ret () else raise (JsError ''Redis idempotency store is disabled''))"

definition redis_setIfNotExists :: "bool \<Rightarrow> nat \<Rightarrow> string \<Rightarrow> nat \<Rightarrow> (bool, keyspace) op" where
  "redis_setIfNotExists enabled now key ttl =
     sbind (requireClient enabled) (\<lambda>_ ks.
       if redis_live now ks key then (Inr False, ks)
       else (Inr True, ks(key \<mapsto> now + ttl * 1000)))"

definition redis_exists :: "bool \<Rightarrow> nat \<Rightarrow> string \<Rightarrow> (bool, keyspace) op" where
  "redis_exists enabled now key =
     sbind (requireClient enabled) (\<lambda>_ ks. (Inr (redis_live now ks key), ks))"

definition redis_delete :: "bool \<Rightarrow> string \<Rightarrow> (unit, keyspace) op" where
  "redis_delete enabled key = sbind (requireClient enabled) (\<lambda>_. modify (\<lambda>ks. ks(key := None)))"

definition redis_store :: "bool \<Rightarrow> keyspace idem_store" where
  "redis_store enabled =
     \<lparr>st_exists = redis_exists enabled, st_set = redis_setIfNotExists enabled,
      st_delete = redis_delete enabled\<rparr>"

section \<open>The service\<close>

fun any_exists :: "'s idem_store \<Rightarrow> nat \<Rightarrow> string list \<Rightarrow> (bool, 's) op" where
  "any_exists st now [] = ret False"
| "any_exists st now (k # ks) =
     sbind (st_exists st now k) (\<lambda>b. if b then ret True else any_exists st now ks)"

text \<open>
  \<open>keys\<close> is what \<open>encryption.idempotencyKeys(key)\<close> returns or throws. Without a key there is
  nothing to lock, which the stores refuse.
\<close>

definition lock_keys :: "'s idem_store \<Rightarrow> nat \<Rightarrow> string list \<Rightarrow> nat \<Rightarrow> (bool, 's) op" where
  "lock_keys st now keys ttl =
     (case keys of
        [] \<Rightarrow> raise (JsError ''key is undefined'')
      | k # ks \<Rightarrow>
          if ks \<noteq> []
          then sbind (any_exists st now keys) (\<lambda>dup. if dup then ret False else st_set st now k ttl)
          else st_set st now k ttl)"

definition checkAndLock :: "'s idem_store \<Rightarrow> nat \<Rightarrow> string list result \<Rightarrow> nat \<Rightarrow> (bool, 's) op" where
  "checkAndLock st now keys ttl = sbind (lift_result keys) (\<lambda>ks. lock_keys st now ks ttl)"

fun delete_all :: "'s idem_store \<Rightarrow> string list \<Rightarrow> (unit, 's) op" where
  "delete_all st [] = ret ()"
| "delete_all st (k # ks) = sbind (st_delete st k) (\<lambda>_. delete_all st ks)"

definition release_keys :: "'s idem_store \<Rightarrow> string list result \<Rightarrow> (unit, 's) op" where
  "release_keys st keys = sbind (lift_result keys) (delete_all st)"

text \<open>
  The commands that reach a store, in the order in which it executes them; the clock of the
  store does not go backwards.
\<close>

datatype idem_cmd = Lock "string list" nat | Release "string list"

fun idem_exec :: "'s idem_store \<Rightarrow> nat \<Rightarrow> idem_cmd \<Rightarrow> 's \<Rightarrow> 's" where
  "idem_exec st now (Lock keys ttl) s = snd (checkAndLock st now (Inr keys) ttl s)"
| "idem_exec st now (Release keys) s = snd (release_keys st (Inr keys) s)"

fun proper_cmd :: "idem_cmd \<Rightarrow> bool" where
  "proper_cmd (Lock keys ttl) \<longleftrightarrow> keys \<noteq> [] \<and> 0 < ttl"
| "proper_cmd (Release keys) \<longleftrightarrow> True"

inductive idem_run :: "'s idem_store \<Rightarrow> nat \<Rightarrow> 's \<Rightarrow> (nat \<times> idem_cmd) list \<Rightarrow> nat \<Rightarrow> 's \<Rightarrow> bool"
  for st where
  run_nil: "idem_run st t s [] t s"
| run_cons: "t \<le> t1 \<Longrightarrow> proper_cmd cmd \<Longrightarrow> idem_run st t1 (idem_exec st t1 cmd s) tr t2 s' \<Longrightarrow>
    idem_run st t s ((t1, cmd) # tr) t2 s'"

inductive_cases idem_run_consE: "idem_run st t s ((t1, cmd) # tr) t2 s'"

section \<open>What a store promises\<close>

locale idempotency_store =
  fixes st :: "'s idem_store" and live :: "nat \<Rightarrow> 's \<Rightarrow> string set"
  assumes live_expires: "t \<le> t' \<Longrightarrow> live t' s \<subseteq> live t s"
    and exists_law: "st_exists st now k s = (Inr (k \<in> live now s), s)"
    and set_taken: "k \<in> live now s \<Longrightarrow> st_set st now k ttl s = (Inr False, s)"
    and set_free: "k \<notin> live now s \<Longrightarrow> 0 < ttl \<Longrightarrow>
      \<exists>s'. st_set st now k ttl s = (Inr True, s') \<and>
        (\<forall>t \<ge> now. live t s' = (if t < now + ttl * 1000 then insert k (live t s) else live t s))"
    and delete_law: "\<exists>s'. st_delete st k s = (Inr (), s') \<and> (\<forall>t. live t s' = live t s - {k})"
begin

lemma any_exists_run: "any_exists st now ks s = (Inr (\<exists>k \<in> set ks. k \<in> live now s), s)"
  by (induction ks) (auto simp: sbind_run exists_law sbind_def)

lemma lock_refused:
  assumes "k \<in> set keys" "k \<in> live now s" "keys \<noteq> []"
  shows "lock_keys st now keys ttl s = (Inr False, s)"
proof (cases keys)
  case (Cons h ks)
  show ?thesis
  proof (cases "ks = []")
    case True
    with Cons assms show ?thesis by (simp add: lock_keys_def set_taken)
  next
    case False
    moreover have "any_exists st now keys s = (Inr True, s)" using assms by (auto simp: any_exists_run)
    ultimately show ?thesis using Cons by (simp add: lock_keys_def sbind_def)
  qed
qed (use assms in simp)

lemma lock_granted:
  assumes "keys \<noteq> []" "\<forall>k \<in> set keys. k \<notin> live now s" "0 < ttl"
  shows "\<exists>s'. lock_keys st now keys ttl s = (Inr True, s') \<and>
    (\<forall>t \<ge> now. live t s' = (if t < now + ttl * 1000 then insert (hd keys) (live t s) else live t s))"
proof (cases keys)
  case (Cons h ks)
  have a: "any_exists st now keys s = (Inr False, s)"
    using assms(2) any_exists_run [of now keys s] by simp
  have "h \<notin> live now s" using assms Cons by simp
  then obtain s' where s': "st_set st now h ttl s = (Inr True, s')"
    and l: "\<forall>t \<ge> now. live t s' = (if t < now + ttl * 1000 then insert h (live t s) else live t s)"
    using set_free assms(3) by blast
  have "lock_keys st now keys ttl s = (Inr True, s')"
    using a s' unfolding Cons
    by (cases "ks = []") (simp_all add: lock_keys_def sbind_run del: any_exists.simps)
  with l show ?thesis by (simp add: Cons)
qed (use assms in simp)

lemma lock_result: "keys \<noteq> [] \<Longrightarrow> 0 < ttl \<Longrightarrow>
  fst (lock_keys st now keys ttl s) = Inr (\<forall>k \<in> set keys. k \<notin> live now s)"
  using lock_granted [of keys now s ttl] lock_refused [of _ keys now s ttl]
  by (cases "\<forall>k \<in> set keys. k \<notin> live now s") auto

lemma delete_all_run: "\<exists>s'. delete_all st ks s = (Inr (), s') \<and> (\<forall>t. live t s' = live t s - set ks)"
proof (induction ks arbitrary: s)
  case (Cons k ks)
  obtain s1 where "st_delete st k s = (Inr (), s1)" "\<forall>t. live t s1 = live t s - {k}"
    using delete_law by blast
  moreover obtain s2 where "delete_all st ks s1 = (Inr (), s2)" "\<forall>t. live t s2 = live t s1 - set ks"
    using Cons by blast
  ultimately show ?case by (auto simp: sbind_def)
qed simp

lemma exec_keeps:
  assumes "k \<in> live u s" "now \<le> u" "proper_cmd cmd"
    and "\<forall>ks. cmd = Release ks \<longrightarrow> k \<notin> set ks"
  shows "k \<in> live u (idem_exec st now cmd s)"
proof (cases cmd)
  case (Lock keys ttl)
  then have p: "keys \<noteq> []" "0 < ttl" using assms(3) by simp_all
  show ?thesis
  proof (cases "\<forall>k \<in> set keys. k \<notin> live now s")
    case True
    from lock_granted [OF p(1) True p(2)] assms(1,2) show ?thesis
      by (auto simp: Lock checkAndLock_def)
  next
    case False
    with p assms(1) show ?thesis
      by (auto simp: Lock checkAndLock_def lock_refused)
  qed
next
  case (Release ks)
  then show ?thesis using delete_all_run [of ks s] assms(1,4)
    by (auto simp: release_keys_def)
qed

lemma run_keeps:
  assumes "idem_run st t s tr t' s'" "\<forall>u. t \<le> u \<and> u < T \<longrightarrow> k \<in> live u s"
    and "\<forall>(u, cmd) \<in> set tr. \<forall>ks. cmd = Release ks \<longrightarrow> k \<notin> set ks"
  shows "t \<le> t' \<and> (\<forall>u. t' \<le> u \<and> u < T \<longrightarrow> k \<in> live u s')"
  using assms
proof (induction rule: idem_run.induct)
  case (run_cons t t1 cmd s tr t2 s')
  have "\<forall>u. t1 \<le> u \<and> u < T \<longrightarrow> k \<in> live u (idem_exec st t1 cmd s)"
    using run_cons.hyps(1,2) run_cons.prems by (auto intro!: exec_keeps)
  with run_cons show ?case by auto
qed simp

theorem duplicate_refused:
  assumes "checkAndLock st t0 (Inr keys) ttl s = (Inr True, s1)" "keys \<noteq> []" "0 < ttl"
    and "idem_run st t0 s1 tr t1 s2" "t1 < t0 + ttl * 1000"
    and "\<forall>(u, cmd) \<in> set tr. \<forall>ks. cmd = Release ks \<longrightarrow> hd keys \<notin> set ks"
    and "hd keys \<in> set keys'"
  shows "fst (checkAndLock st t1 (Inr keys') ttl' s2) = Inr False"
proof -
  have "fst (lock_keys st t0 keys ttl s) = Inr True" using assms(1) by (simp add: checkAndLock_def)
  then have "\<forall>k \<in> set keys. k \<notin> live t0 s" using lock_result assms(2,3) by simp
  from lock_granted [OF assms(2) this assms(3)] assms(1)
  have "\<forall>u. t0 \<le> u \<and> u < t0 + ttl * 1000 \<longrightarrow> hd keys \<in> live u s1"
    by (auto simp: checkAndLock_def)
  from run_keeps [OF assms(4) this assms(6)] assms(5) have "hd keys \<in> live t1 s2" by blast
  moreover have "keys' \<noteq> []" using assms(7) by auto
  ultimately show ?thesis using lock_refused [OF assms(7)] by (simp add: checkAndLock_def)
qed

theorem released_again_free:
  assumes "keys \<noteq> []" "0 < ttl"
  shows "fst (checkAndLock st t (Inr keys) ttl (snd (release_keys st (Inr keys) s))) = Inr True"
proof -
  obtain s' where "delete_all st keys s = (Inr (), s')" "\<forall>t. live t s' = live t s - set keys"
    using delete_all_run by blast
  then show ?thesis using lock_result [OF assms] by (simp add: release_keys_def checkAndLock_def)
qed

end

section \<open>Both stores keep the promise\<close>

interpretation pg: idempotency_store pg_store "\<lambda>now t. {k. row_live now (t k)}"
proof
  show "\<exists>s'. st_set pg_store now k ttl s = (Inr True, s') \<and>
      (\<forall>t \<ge> now. {x. row_live t (s' x)} =
         (if t < now + ttl * 1000 then insert k {x. row_live t (s x)} else {x. row_live t (s x)}))"
    if "k \<notin> {x. row_live now (s x)}" "0 < ttl" for now k s ttl
    using that
    by (auto simp: pg_store_def pg_setIfNotExists_alone pg_write_def row_live_def split: option.splits)
qed (auto simp: pg_store_def pg_exists_def pg_setIfNotExists_alone pg_delete_def row_live_def
    split: option.splits)

interpretation redis: idempotency_store "redis_store True" "\<lambda>now ks. {k. redis_live now ks k}"
proof
  show "\<exists>s'. st_set (redis_store True) now k ttl s = (Inr True, s') \<and>
      (\<forall>t \<ge> now. {x. redis_live t s' x} =
         (if t < now + ttl * 1000 then insert k {x. redis_live t s x} else {x. redis_live t s x}))"
    if "k \<notin> {x. redis_live now s x}" "0 < ttl" for now k s ttl
    using that
    by (auto simp: redis_store_def redis_setIfNotExists_def requireClient_def redis_live_def
        split: option.splits)
qed (auto simp: redis_store_def redis_exists_def redis_setIfNotExists_def redis_delete_def
    requireClient_def redis_live_def split: option.splits)

section \<open>Statements of many deliveries\<close>

text \<open>The statements of any number of transactions, in the order in which the database runs them.\<close>

fun pg_trace :: "(nat \<times> pg_stmt) list \<Rightarrow> pg_db \<Rightarrow> pg_db" where
  "pg_trace [] db = db"
| "pg_trace ((now, s) # tr) db = pg_trace tr (snd (pg_exec now s db))"

text \<open>The same for the commands of Redis, each of which is one step of the server.\<close>

datatype redis_cmd = SetNX string nat | Del string

fun redis_exec :: "nat \<Rightarrow> redis_cmd \<Rightarrow> keyspace \<Rightarrow> keyspace" where
  "redis_exec now (SetNX key ttl) ks = snd (redis_setIfNotExists True now key ttl ks)"
| "redis_exec now (Del key) ks = snd (redis_delete True key ks)"

fun redis_trace :: "(nat \<times> redis_cmd) list \<Rightarrow> keyspace \<Rightarrow> keyspace" where
  "redis_trace [] ks = ks"
| "redis_trace ((now, c) # tr) ks = redis_trace tr (redis_exec now c ks)"

definition live_till :: "nat \<Rightarrow> string \<Rightarrow> key_table \<Rightarrow> bool" where
  "live_till T k t \<longleftrightarrow> (case t k of None \<Rightarrow> False | Some r \<Rightarrow> T \<le> key_expiresAt r)"

lemma live_till_live: "live_till T k t \<Longrightarrow> now < T \<Longrightarrow> row_live now (t k)"
  by (auto simp: live_till_def row_live_def split: option.splits)

lemma write_lives: "T \<le> e \<Longrightarrow> now < T \<Longrightarrow> live_till T k (pg_write now k e t)"
  by (simp add: live_till_def pg_write_def)

lemma write_keeps: "live_till T k t \<Longrightarrow> now < T \<Longrightarrow> k' \<noteq> k \<Longrightarrow> live_till T k (pg_write now k' e t)"
  by (auto simp: live_till_def pg_write_def split: option.splits)

text \<open>While the row lives, no transaction becomes a writer of its key.\<close>

lemma exec_keeps_lock:
  assumes "live_till T k (db_keys db)" "now < T" "s \<noteq> Remove k"
    and "\<forall>m e. db_writers db m = Some (k, e) \<longrightarrow> T \<le> e"
  shows "live_till T k (db_keys (snd (pg_exec now s db))) \<and>
    (\<forall>m e. db_writers (snd (pg_exec now s db)) m = Some (k, e) \<longrightarrow> db_writers db m = Some (k, e))"
proof (cases s)
  case (Look i key e)
  with live_till_live [OF assms(1,2)] assms(1) show ?thesis by auto
next
  case (Commit i)
  show ?thesis
  proof (cases "db_writers db i")
    case None
    with Commit assms(1) show ?thesis by simp
  next
    case (Some w)
    obtain key e where w: "w = (key, e)" by (cases w)
    have "live_till T k (pg_write now key e (db_keys db))"
      using assms Some w write_lives [of T e now k] write_keeps [of T k "db_keys db" now key e] by (cases "key = k") auto
    with Commit Some w show ?thesis by simp
  qed
next
  case (Remove key)
  with assms(1,3) show ?thesis by (simp add: live_till_def)
qed (use assms(1) in simp)

lemma trace_keeps_lock:
  assumes "live_till T k (db_keys db)" "list_all (\<lambda>(now, s). now < T \<and> s \<noteq> Remove k) tr"
    and "\<forall>m e. db_writers db m = Some (k, e) \<longrightarrow> T \<le> e"
  shows "live_till T k (db_keys (pg_trace tr db)) \<and>
    (\<forall>m e. db_writers (pg_trace tr db) m = Some (k, e) \<longrightarrow> db_writers db m = Some (k, e))"
  using assms
proof (induction tr db rule: pg_trace.induct)
  case (2 now s tr db)
  have step: "live_till T k (db_keys (snd (pg_exec now s db))) \<and>
    (\<forall>m e. db_writers (snd (pg_exec now s db)) m = Some (k, e) \<longrightarrow> db_writers db m = Some (k, e))"
    using 2 by (intro exec_keeps_lock) auto
  with 2 show ?case by fastforce
qed simp

lemma redis_trace_keeps:
  assumes "redis_live u ks k" "list_all (\<lambda>(now, c). now \<le> u \<and> c \<noteq> Del k) tr"
  shows "redis_live u (redis_trace tr ks) k"
  using assms
proof (induction tr ks rule: redis_trace.induct)
  case (2 now c tr ks)
  have "redis_live u (redis_exec now c ks) k"
    using 2(2,3) by (cases c) (auto simp: redis_setIfNotExists_def redis_delete_def requireClient_def redis_live_def split: option.splits)
  with 2 show ?case by simp
qed simp

section \<open>Properties\<close>



text \<open>
  A released event can be delivered again: after \<open>release\<close>, the next \<open>checkAndLock\<close> of the
  same event is granted on either store, whoever held the keys before.
\<close>

theorem released_event_is_accepted_again:
  assumes "keys \<noteq> []" "0 < ttl"
  shows "fst (checkAndLock pg_store t (Inr keys) ttl (snd (release_keys pg_store (Inr keys) s))) = Inr True \<and>
    fst (checkAndLock (redis_store True) t (Inr keys) ttl
      (snd (release_keys (redis_store True) (Inr keys) r))) = Inr True"
  using pg.released_again_free [OF assms] redis.released_again_free [OF assms] by blast

theorem released_event_is_accepted_again_witness:
  "fst (checkAndLock pg_store 7 (Inr [''e'']) 60 (snd (release_keys pg_store (Inr [''e''])
     (pg_write 0 ''e'' 3600000 (\<lambda>_. None))))) = Inr True"
  using released_event_is_accepted_again [of "[''e'']" 60 7] by simp

text \<open>
  The PostgreSQL store relies on an isolation that its transaction does not have. Two deliveries of the same new
  event whose transactions both read before either commits are both granted the lock.
\<close>

theorem interleaved_transactions_both_lock:
  assumes "\<not> row_live t1 (db_keys db k)" "\<not> row_live t2 (db_keys db k)" "i \<noteq> j"
  shows "let db1 = pg_trace [(t1, Look i k e1), (t2, Look j k e2)] db in
    fst (pg_exec t3 (Commit i) db1) = Some True \<and> fst (pg_exec t4 (Commit j) (snd (pg_exec t3 (Commit i) db1))) = Some True"
  using assms by simp

theorem interleaved_transactions_both_lock_witness:
  "let db1 = pg_trace [(1, Look 1 ''e1'' 60), (2, Look 2 ''e1'' 61)] \<lparr>db_keys = (\<lambda>_. None), db_writers = (\<lambda>_. None)\<rparr> in
   fst (pg_exec 3 (Commit 1) db1) = Some True \<and> fst (pg_exec 4 (Commit 2) (snd (pg_exec 3 (Commit 1) db1))) = Some True"
  using interleaved_transactions_both_lock [of 1 "\<lparr>db_keys = (\<lambda>_. None), db_writers = (\<lambda>_. None)\<rparr>" "''e1''" 2 1 2 60 61 3 4]
  by (simp add: row_live_def)

end
