(* ===== verification/Processing.thy ===== *)
theory Processing
  imports Dlq Registry Idempotency
begin

text \<open>
  Models \<open>core/processing.service.ts\<close>: an event is executed against its connector with retries,
  and a failing one goes to the dead-letter queue. The world of the pipeline is the dead-letter
  table with the metrics, the event locks, the messages that Kafka has accepted, and the state
  of the external systems, which only the connectors change.
\<close>

section \<open>The world\<close>

record ('s, 'e) world = dlq_state +
  locks :: 's
  sent :: "(string \<times> string) list"
  external :: 'e

definition on_external :: "('a, 'e) op \<Rightarrow> ('a, ('s, 'e) world) op" where
  "on_external m w = (case m (external w) of (r, x) \<Rightarrow> (r, w\<lparr>external := x\<rparr>))"

definition on_locks :: "('a, 's) op \<Rightarrow> ('a, ('s, 'e) world) op" where
  "on_locks m w = (case m (locks w) of (r, x) \<Rightarrow> (r, w\<lparr>locks := x\<rparr>))"

definition on_metrics :: "(metrics \<Rightarrow> metrics) \<Rightarrow> (unit, ('s, 'e) world) op" where
  "on_metrics f = modify (\<lambda>w. w\<lparr>dlq_metrics := f (dlq_metrics w)\<rparr>)"

record event =
  ev_eventId :: string
  ev_operation :: string
  ev_targetSystem :: string
  ev_payload :: obj

text \<open>
  What a request meets: the clock, the random numbers of the backoff, the dead-letter calls
  (the second one for the failure report of a retry) and the Kafka sends, which may fail.
\<close>

record request =
  rq_now :: nat
  rq_random :: "nat \<Rightarrow> rat"
  rq_dlq :: dlq_call
  rq_dlq2 :: dlq_call
  rq_send1 :: "exn option"
  rq_send2 :: "exn option"

record 'e services =
  sv_dlq :: dlq_env
  sv_registry :: "'e registry"

section \<open>Execution with retries\<close>

definition connector_call :: "event \<Rightarrow> connector_payload" where
  "connector_call ev =
     \<lparr>operation = ev_operation ev, targetSystem = ev_targetSystem ev, body = ev_payload ev\<rparr>"

definition run_retries ::
  "('a, 'e) op \<Rightarrow> retry_policy \<Rightarrow> (nat \<Rightarrow> rat) \<Rightarrow> ('a, ('s, 'e) world) op" where
  "run_retries f policy rnd =
     on_external (\<lambda>x. case retry_execute f policy rnd x of (r, waits, x') \<Rightarrow> (r, x'))"

definition unsupported_target :: "string \<Rightarrow> exn" where
  "unsupported_target t = JsError (''Unsupported target system: '' @ t)"

definition executeWithRetry ::
  "'e services \<Rightarrow> request \<Rightarrow> event \<Rightarrow> (connector_result, ('s, 'e) world) op" where
  "executeWithRetry sv rq ev =
     (case registry_get (sv_registry sv) (ev_targetSystem ev) of
        None \<Rightarrow> raise (unsupported_target (ev_targetSystem ev))
      | Some connector \<Rightarrow>
          sbind (lift_result (target_policy (sv_dlq sv) (ev_targetSystem ev))) (\<lambda>policy.
          sbind (run_retries (conn_execute connector (connector_call ev)) policy (rq_random rq))
            (\<lambda>result.
          if \<not> success result
          then sbind (on_metrics (recordConnectorError (ev_targetSystem ev) (ev_operation ev)))
                 (\<lambda>_. raise (JsError (or_else (result_error result) ''Connector returned failure'')))
          else ret result)))"

definition failed_item :: "event \<Rightarrow> string \<Rightarrow> nat \<Rightarrow> dlq_item" where
  "failed_item ev msg retries =
     \<lparr>item_eventId = ev_eventId ev, item_operation = ev_operation ev,
      item_targetSystem = ev_targetSystem ev, item_payload = Obj (ev_payload ev),
      item_error = msg, item_retryCount = Some retries\<rparr>"

definition add_to_dlq :: "'e services \<Rightarrow> request \<Rightarrow> event \<Rightarrow> string \<Rightarrow> (unit, ('s, 'e) world) op" where
  "add_to_dlq sv rq ev msg =
     sbind (lift_result (target_policy (sv_dlq sv) (ev_targetSystem ev))) (\<lambda>policy.
       dlq_add (sv_dlq sv) (rq_dlq rq) (failed_item ev msg (maxRetries policy)))"

definition process :: "'e services \<Rightarrow> request \<Rightarrow> event \<Rightarrow> (connector_result, ('s, 'e) world) op" where
  "process sv rq ev =
     catch_op
       (sbind (executeWithRetry sv rq ev) (\<lambda>result.
        sbind (on_metrics (recordEvent (rq_now rq) ''success'' (ev_targetSystem ev))) (\<lambda>_.
        ret result)))
       (\<lambda>error.
        sbind (on_metrics (recordEvent (rq_now rq) ''failed'' (ev_targetSystem ev))) (\<lambda>_.
        sbind (catch_op (add_to_dlq sv rq ev (exn_message error))
                 (\<lambda>dlqError. raise (ProcessingFailure
                    (''Processing failed before durable DLQ acceptance: '' @ exn_message dlqError)
                    False error))) (\<lambda>_.
        raise (ProcessingFailure (exn_message error) True error))))"

definition isDurablyAcceptedError :: "exn \<Rightarrow> bool" where
  "isDurablyAcceptedError e = (case e of ProcessingFailure m d c \<Rightarrow> d | _ \<Rightarrow> False)"

definition processRetry :: "'e services \<Rightarrow> request \<Rightarrow> event \<Rightarrow> string \<Rightarrow> (unit, ('s, 'e) world) op" where
  "processRetry sv rq ev dlqItemId =
     catch_op
       (sbind (executeWithRetry sv rq ev) (\<lambda>_.
        sbind (on_metrics (recordEvent (rq_now rq) ''success'' (ev_targetSystem ev))) (\<lambda>_.
        dlq_resolve (rq_dlq rq) dlqItemId)))
       (\<lambda>error.
        sbind (on_metrics (recordEvent (rq_now rq) ''failed'' (ev_targetSystem ev))) (\<lambda>_.
        sbind (dlq_markRetryFailed (rq_dlq2 rq) dlqItemId (exn_message error)) (\<lambda>_.
        raise error)))"

definition read_native ::
  "'e connector \<Rightarrow> event \<Rightarrow> (connector_result, 'e) op option" where
  "read_native connector ev =
     (if ev_operation ev = ''schema.get'' \<and> conn_getSchema connector \<noteq> None
      then Some (the (conn_getSchema connector) (connector_call ev))
      else if (ev_operation ev = ''sync.full'' \<or> ev_operation ev = ''sync.incremental'') \<and>
        conn_sync connector \<noteq> None
      then Some (the (conn_sync connector) (connector_call ev)
        (if ev_operation ev = ''sync.incremental'' then ''incremental'' else ''full''))
      else None)"

definition processWithResult ::
  "'e services \<Rightarrow> request \<Rightarrow> event \<Rightarrow> (connector_result, ('s, 'e) world) op" where
  "processWithResult sv rq ev =
     (case registry_get (sv_registry sv) (ev_targetSystem ev) of
        None \<Rightarrow> raise (unsupported_target (ev_targetSystem ev))
      | Some connector \<Rightarrow>
          catch_op
            (case read_native connector ev of
               Some native \<Rightarrow>
                 sbind (on_external native) (\<lambda>result.
                 sbind (on_metrics (recordEvent (rq_now rq) ''success'' (ev_targetSystem ev))) (\<lambda>_.
                 ret result))
             | None \<Rightarrow>
                 sbind (on_external (conn_execute connector (connector_call ev))) (\<lambda>result.
                 if \<not> success result
                 then sbind (on_metrics (recordConnectorError (ev_targetSystem ev) (ev_operation ev)))
                   (\<lambda>_. raise (JsError (or_else (result_error result) ''Connector returned failure'')))
                 else sbind (on_metrics (recordEvent (rq_now rq) ''success'' (ev_targetSystem ev)))
                   (\<lambda>_. ret result)))
            (\<lambda>error.
             sbind (on_metrics (recordEvent (rq_now rq) ''failed'' (ev_targetSystem ev))) (\<lambda>_.
             raise error)))"

section \<open>What a step leaves alone\<close>

text \<open>The dead-letter rows, the event locks and the Kafka messages of a world.\<close>

definition core :: "dlq_row list \<Rightarrow> 's \<Rightarrow> (string \<times> string) list \<Rightarrow> ('s, 'e) world \<Rightarrow> bool" where
  "core rows l m w \<longleftrightarrow> dlq_rows w = rows \<and> locks w = l \<and> sent w = m"

definition outer :: "'s \<Rightarrow> (string \<times> string) list \<Rightarrow> ('s, 'e) world \<Rightarrow> bool" where
  "outer l m w \<longleftrightarrow> locks w = l \<and> sent w = m"

lemma core_outer: "core rows l m w \<longleftrightarrow> dlq_rows w = rows \<and> outer l m w"
  by (simp add: core_def outer_def)

lemma preserves_external [preserve_intros]: "preserves (core rows l m) (on_external f)"
  by (auto simp: preserves_def core_def on_external_def split: prod.splits)

lemma preserves_metrics [preserve_intros]: "preserves (core rows l m) (on_metrics f)"
  by (auto simp: preserves_def core_def on_metrics_def)

lemma core_executeWithRetry: "preserves (core rows l m) (executeWithRetry sv rq ev)"
  unfolding executeWithRetry_def
  by (cases "registry_get (sv_registry sv) (ev_targetSystem ev)")
    (auto simp: run_retries_def intro!: preserve_intros)

lemma core_processWithResult: "preserves (core rows l m) (processWithResult sv rq ev)"
proof (cases "registry_get (sv_registry sv) (ev_targetSystem ev)")
  case (Some c)
  then show ?thesis
    by (cases "read_native c ev") (auto simp: processWithResult_def intro!: preserve_intros)
qed (auto simp: processWithResult_def intro!: preserve_intros)

lemma row_of_update:
  assumes "\<And>r. row_id (f r) = row_id r"
  shows "row_of (map (\<lambda>r. if row_id r = i then f r else r) rows) j =
    (if j = i then map_option f (row_of rows i) else row_of rows j)"
  using assms by (cases "row_of rows j") (auto simp: row_of_map dest: row_of_Some)

lemma outer_update: "preserves (outer l m) (update_row c i f)"
  by (cases "write_fault c") (auto simp: preserves_def outer_def update_row_def)

lemma outer_metrics: "preserves (outer l m) (on_metrics f)"
  by (auto simp: preserves_def outer_def on_metrics_def)

lemma outer_updateMetrics: "preserves (outer l m) (dlq_updateMetrics c)"
  unfolding dlq_updateMetrics_def by (intro preserve_intros) (simp add: outer_def)

lemma outer_add: "preserves (outer l m) (dlq_add env c item)"
  unfolding dlq_add_def by (intro preserve_intros outer_updateMetrics) (simp add: outer_def)

lemma add_Inr:
  assumes "dlq_add env c item w = (Inr u, w')"
  shows "\<exists>stored. toJson (env_platform env) (env_settings env) (call_iv c) (item_payload item) = Inr stored \<and>
    dlq_rows w' = dlq_rows w @ [new_row c item stored]"
proof -
  obtain stored where "toJson (env_platform env) (env_settings env) (call_iv c) (item_payload item) = Inr stored"
    "write_fault c = None"
    using assms by (auto simp: dlq_add_def sbind_Inr_iff may_fail_iff)
  moreover have "dlq_rows w' = dlq_rows (snd (dlq_add env c item w))" using assms by simp
  ultimately show ?thesis by (simp add: dlq_add_def)
qed

lemma add_Inl:
  assumes "dlq_add env c item w = (Inl e, w')" "count_fault c = None"
  shows "dlq_rows w' = dlq_rows w"
  using assms
  by (auto simp: dlq_add_def sbind_Inl_iff may_fail_iff dlq_updateMetrics_def)

lemma add_rows_cases:
  "dlq_add env c item w = (r, w') \<Longrightarrow>
     dlq_rows w' = dlq_rows w \<or> (\<exists>stored. dlq_rows w' = dlq_rows w @ [new_row c item stored])"
  using add_rows [of env c item w] by auto

section \<open>The outcomes of \<open>process\<close>\<close>

lemma process_success:
  assumes "process sv rq ev w = (Inr r, w')"
  shows "\<exists>w1. executeWithRetry sv rq ev w = (Inr r, w1) \<and> success r \<and> core (dlq_rows w) (locks w) (sent w) w'"
proof -
  obtain w1 where run: "executeWithRetry sv rq ev w = (Inr r, w1)"
    and w': "w' = snd (on_metrics (recordEvent (rq_now rq) ''success'' (ev_targetSystem ev)) w1)"
    using assms
    by (auto simp: process_def catch_op_def on_metrics_def sbind_def add_to_dlq_def
        split: prod.splits sum.splits)
  have "core (dlq_rows w) (locks w) (sent w) w1"
    using preservesD [OF core_executeWithRetry run] by (simp add: core_def)
  then have "core (dlq_rows w) (locks w) (sent w) w'" by (simp add: w' core_def on_metrics_def)
  moreover have "success r"
    using run by (auto simp: executeWithRetry_def sbind_Inr_iff split: option.splits if_splits)
  ultimately show ?thesis using run by blast
qed

lemma process_failure:
  assumes "process sv rq ev w = (Inl e, w')"
  shows "\<exists>cause w1 w2. executeWithRetry sv rq ev w = (Inl cause, w1) \<and>
    core (dlq_rows w) (locks w) (sent w) w2 \<and>
    ((e = ProcessingFailure (exn_message cause) True cause \<and>
        add_to_dlq sv rq ev (exn_message cause) w2 = (Inr (), w')) \<or>
     (\<exists>d. e = ProcessingFailure (''Processing failed before durable DLQ acceptance: '' @ exn_message d)
            False cause \<and> add_to_dlq sv rq ev (exn_message cause) w2 = (Inl d, w')))"
proof -
  obtain x w1 where run: "executeWithRetry sv rq ev w = (x, w1)" by (cases "executeWithRetry sv rq ev w")
  obtain cause where x: "x = Inl cause"
    using assms run by (cases x) (auto simp: process_def catch_op_def sbind_def on_metrics_def)
  define w2 where "w2 = snd (on_metrics (recordEvent (rq_now rq) ''failed'' (ev_targetSystem ev)) w1)"
  have "core (dlq_rows w) (locks w) (sent w) w1"
    using preservesD [OF core_executeWithRetry run] by (simp add: core_def)
  then have "core (dlq_rows w) (locks w) (sent w) w2" by (simp add: w2_def core_def on_metrics_def)
  moreover obtain y w3 where add: "add_to_dlq sv rq ev (exn_message cause) w2 = (y, w3)"
    by (cases "add_to_dlq sv rq ev (exn_message cause) w2")
  ultimately show ?thesis
    using assms run
    by (cases y) (auto simp: x process_def catch_op_def sbind_def on_metrics_def w2_def)
qed

lemma add_to_dlq_Inr:
  assumes "add_to_dlq sv rq ev msg w = (Inr u, w')"
  shows "\<exists>p stored. target_policy (sv_dlq sv) (ev_targetSystem ev) = Inr p \<and>
    toJson (env_platform (sv_dlq sv)) (env_settings (sv_dlq sv)) (call_iv (rq_dlq rq)) (Obj (ev_payload ev)) =
      Inr stored \<and>
    dlq_rows w' = dlq_rows w @ [new_row (rq_dlq rq) (failed_item ev msg (maxRetries p)) stored]"
  using assms add_Inr by (fastforce simp: add_to_dlq_def sbind_Inr_iff failed_item_def)

lemma add_to_dlq_outer: "preserves (outer l m) (add_to_dlq sv rq ev msg)"
  unfolding add_to_dlq_def by (intro preserve_intros outer_add)

lemma add_to_dlq_works:
  assumes "target_policy (sv_dlq sv) (ev_targetSystem ev) = Inr p"
    and "toJson (env_platform (sv_dlq sv)) (env_settings (sv_dlq sv)) (call_iv (rq_dlq rq))
           (Obj (ev_payload ev)) = Inr stored"
    and "write_fault (rq_dlq rq) = None"
  shows "add_to_dlq sv rq ev msg w =
    dlq_updateMetrics (rq_dlq rq)
      (w\<lparr>dlq_rows := dlq_rows w @ [new_row (rq_dlq rq) (failed_item ev msg (maxRetries p)) stored]\<rparr>)"
  using assms by (simp add: add_to_dlq_def dlq_add_def failed_item_def)

lemma process_of_failure:
  assumes "executeWithRetry sv rq ev w = (Inl cause, w1)"
  shows "process sv rq ev w =
    (case add_to_dlq sv rq ev (exn_message cause)
            (w1\<lparr>dlq_metrics := recordEvent (rq_now rq) ''failed'' (ev_targetSystem ev) (dlq_metrics w1)\<rparr>) of
       (Inr _, w2) \<Rightarrow> (Inl (ProcessingFailure (exn_message cause) True cause), w2)
     | (Inl d, w2) \<Rightarrow> (Inl (ProcessingFailure
         (''Processing failed before durable DLQ acceptance: '' @ exn_message d) False cause), w2))"
  using assms
  by (auto simp: process_def catch_op_def sbind_def on_metrics_def split: prod.split sum.split)

lemma process_accepts:
  assumes "executeWithRetry sv rq ev w = (Inl cause, w1)"
    and "target_policy (sv_dlq sv) (ev_targetSystem ev) = Inr p"
    and "toJson (env_platform (sv_dlq sv)) (env_settings (sv_dlq sv)) (call_iv (rq_dlq rq))
           (Obj (ev_payload ev)) = Inr stored"
    and "write_fault (rq_dlq rq) = None" "count_fault (rq_dlq rq) = None"
  shows "fst (process sv rq ev w) = Inl (ProcessingFailure (exn_message cause) True cause)"
  using assms(5) by (simp add: process_of_failure [OF assms(1)] add_to_dlq_works [OF assms(2-4)]
      dlq_updateMetrics_def)

section \<open>A small instance\<close>

text \<open>
  One target system, \<open>ad\<close>, whose connector counts its calls in the external state and answers
  as the parameter says.
\<close>

definition counting_connector :: "connector_result \<Rightarrow> nat connector" where
  "counting_connector answer =
     \<lparr>conn_name = ''ad'', conn_execute = (\<lambda>p n. (Inr answer, n + 1)),
      conn_testConnection = (\<lambda>_. ret (True, ''OK'')), conn_getCapabilities = None,
      conn_getSchema = None, conn_sync = Some (\<lambda>p mode n. (Inr answer, n + 1))\<rparr>"

definition demo_services :: "connector_result \<Rightarrow> nat services" where
  "demo_services answer =
     \<lparr>sv_dlq = demo_env,
      sv_registry = \<lparr>connectors = [(''ad'', counting_connector answer)], staticConnectors = [],
        lastRegistryVersion = None\<rparr>\<rparr>"

definition demo_request :: request where
  "demo_request =
     \<lparr>rq_now = 10, rq_random = (\<lambda>_. 0), rq_dlq = demo_call 10, rq_dlq2 = demo_call 11,
      rq_send1 = None, rq_send2 = None\<rparr>"

definition demo_event :: "string \<Rightarrow> event" where
  "demo_event op =
     \<lparr>ev_eventId = ''e1'', ev_operation = op, ev_targetSystem = ''ad'', ev_payload = []\<rparr>"

definition demo_world :: "'s \<Rightarrow> ('s, nat) world" where
  "demo_world l =
     \<lparr>dlq_rows = [], dlq_metrics = init_metrics, locks = l, sent = [], external = 0\<rparr>"

lemma demo_toJson [simp]: "toJson (env_platform demo_env) (env_settings demo_env) iv v = Inr v"
  by (simp add: demo_env_def)

lemma demo_execute:
  "executeWithRetry (demo_services answer) demo_request (demo_event op) (demo_world l) =
     (if success answer then (Inr answer, (demo_world l)\<lparr>external := 1\<rparr>)
      else (Inl (JsError (or_else (result_error answer) ''Connector returned failure'')),
        (demo_world l)\<lparr>external := 1, dlq_metrics := recordConnectorError ''ad'' op init_metrics\<rparr>))"
  by (simp add: executeWithRetry_def demo_services_def demo_event_def registry_get_def demo_policy
      run_retries_def on_external_def retry_execute_def counting_connector_def sbind_def
      retry_from.simps on_metrics_def demo_world_def)

section \<open>Properties\<close>

text \<open>
  A successful event leaves nothing behind. When \<open>process\<close> returns, the connector reported
  success, and the dead-letter table, the event locks and the Kafka messages are unchanged.
\<close>

theorem success_leaves_dlq_alone:
  assumes "process sv rq ev w = (Inr result, w')"
  shows "success result \<and> dlq_rows w' = dlq_rows w \<and> locks w' = locks w \<and> sent w' = sent w"
  using process_success [OF assms] by (auto simp: core_def)

theorem success_leaves_dlq_alone_witness:
  "dlq_rows (snd (process (demo_services (result_ok Null)) demo_request (demo_event ''user.create'')
     (demo_world ()))) = []"
proof -
  let ?p = "process (demo_services (result_ok Null)) demo_request (demo_event ''user.create'') (demo_world ())"
  have "fst ?p = Inr (result_ok Null)"
    by (simp add: process_def catch_op_def sbind_def demo_execute on_metrics_def result_ok_def)
  then have "?p = (Inr (result_ok Null), snd ?p)" by (metis prod.collapse)
  from success_leaves_dlq_alone [OF this] show ?thesis by (simp add: demo_world_def)
qed

text \<open>
  A failure that is reported as durably accepted is in the dead-letter table. \<open>process\<close> then
  has appended exactly one pending row, with the event's id, operation, target system and
  stored payload, the message of the cause, and the number of retries that were spent.
\<close>

theorem durable_failure_is_in_dlq:
  assumes "process sv rq ev w = (Inl e, w')" and "isDurablyAcceptedError e"
  shows "\<exists>row p cause. dlq_rows w' = dlq_rows w @ [row] \<and> status row = ''pending'' \<and>
    row_eventId row = ev_eventId ev \<and> row_operation row = ev_operation ev \<and>
    row_targetSystem row = ev_targetSystem ev \<and>
    toJson (env_platform (sv_dlq sv)) (env_settings (sv_dlq sv)) (call_iv (rq_dlq rq))
      (Obj (ev_payload ev)) = Inr (row_payload row) \<and>
    e = ProcessingFailure (row_error row) True cause \<and> exn_message cause = row_error row \<and>
    target_policy (sv_dlq sv) (ev_targetSystem ev) = Inr p \<and> retryCount row = maxRetries p"
proof -
  obtain cause w2 where rows: "dlq_rows w2 = dlq_rows w"
    and e: "e = ProcessingFailure (exn_message cause) True cause"
    and add: "add_to_dlq sv rq ev (exn_message cause) w2 = (Inr (), w')"
    using process_failure [OF assms(1)] assms(2) by (auto simp: isDurablyAcceptedError_def core_def)
  obtain p stored where "target_policy (sv_dlq sv) (ev_targetSystem ev) = Inr p"
    "toJson (env_platform (sv_dlq sv)) (env_settings (sv_dlq sv)) (call_iv (rq_dlq rq))
       (Obj (ev_payload ev)) = Inr stored"
    "dlq_rows w' = dlq_rows w @
       [new_row (rq_dlq rq) (failed_item ev (exn_message cause) (maxRetries p)) stored]"
    using add_to_dlq_Inr [OF add] rows by auto
  then show ?thesis
    by (intro exI [of _ "new_row (rq_dlq rq) (failed_item ev (exn_message cause) (maxRetries p)) stored"]
        exI [of _ p] exI [of _ cause])
      (simp add: new_row_def failed_item_def e)
qed

lemma demo_process_failure:
  "process (demo_services (result_fail ''down'')) demo_request (demo_event op) (demo_world l) =
     (Inl (ProcessingFailure ''down'' True (JsError ''down'')),
      snd (process (demo_services (result_fail ''down'')) demo_request (demo_event op) (demo_world l)))"
proof -
  have "fst (process (demo_services (result_fail ''down'')) demo_request (demo_event op) (demo_world l)) =
      Inl (ProcessingFailure (exn_message (JsError ''down'')) True (JsError ''down''))"
  proof (rule process_accepts)
    show "executeWithRetry (demo_services (result_fail ''down'')) demo_request (demo_event op) (demo_world l) =
        (Inl (JsError ''down''), (demo_world l)\<lparr>external := 1,
           dlq_metrics := recordConnectorError ''ad'' op init_metrics\<rparr>)"
      by (simp add: demo_execute) (simp add: result_fail_def)
    show "target_policy (sv_dlq (demo_services (result_fail ''down''))) (ev_targetSystem (demo_event op)) =
        Inr DEFAULT_RETRY_POLICY"
      by (simp add: demo_services_def demo_policy)
    show "toJson (env_platform (sv_dlq (demo_services (result_fail ''down''))))
        (env_settings (sv_dlq (demo_services (result_fail ''down'')))) (call_iv (rq_dlq demo_request))
        (Obj (ev_payload (demo_event op))) = Inr (Obj [])"
      by (simp add: demo_services_def demo_env_def demo_event_def)
  qed (simp_all add: demo_request_def demo_call_def)
  then show ?thesis by (metis exn_message.simps(1) prod.collapse)
qed

theorem durable_failure_is_in_dlq_witness:
  "map row_error (dlq_rows (snd (process (demo_services (result_fail ''down'')) demo_request
     (demo_event ''user.create'') (demo_world ())))) = [''down'']"
  using durable_failure_is_in_dlq [OF demo_process_failure [of "''user.create''" "()"]]
  by (auto simp: isDurablyAcceptedError_def demo_world_def)

text \<open>The row that keeps a failed event: its id, operation, target system and payload, ready to be retried.\<close>

definition keeps_event :: "event \<Rightarrow> jsval \<Rightarrow> nat \<Rightarrow> string \<Rightarrow> dlq_row \<Rightarrow> bool" where
  "keeps_event ev stored retries msg row \<longleftrightarrow>
     row_eventId row = ev_eventId ev \<and> row_operation row = ev_operation ev \<and> row_targetSystem row = ev_targetSystem ev \<and>
     row_payload row = stored \<and> row_error row = msg \<and> retryCount row = retries \<and>
     status row = ''pending'' \<and> lockedAt row = None \<and> lockedBy row = None"

text \<open>
  C1: no event is lost. If the retry policy of the target system can be read, the payload can be stored, and the
  insert and the counts of the dead-letter table succeed, then an event either succeeds, or exactly one row is
  appended to the dead-letter table: a pending, unlocked row with the id, the operation, the target system and
  the stored payload of the event, the retries that were spent and the message of the error that is reported,
  and only then the event is reported as durably accepted. This holds whatever the connector does, and also when
  there is no connector.
\<close>

theorem no_event_is_lost:
  assumes "target_policy (sv_dlq sv) (ev_targetSystem ev) = Inr p"
    and "toJson (env_platform (sv_dlq sv)) (env_settings (sv_dlq sv)) (call_iv (rq_dlq rq))
           (Obj (ev_payload ev)) = Inr stored"
    and "write_fault (rq_dlq rq) = None" "count_fault (rq_dlq rq) = None"
  shows "case fst (process sv rq ev w) of
      Inr result \<Rightarrow> success result \<and> dlq_rows (snd (process sv rq ev w)) = dlq_rows w
    | Inl e \<Rightarrow> isDurablyAcceptedError e \<and>
        (\<exists>row. dlq_rows (snd (process sv rq ev w)) = dlq_rows w @ [row] \<and>
           keeps_event ev stored (maxRetries p) (exn_message e) row)"
proof (cases "process sv rq ev w")
  case (Pair r w')
  show ?thesis
  proof (cases r)
    case (Inr result)
    with Pair process_success [of sv rq ev w result w'] show ?thesis by (auto simp: core_def)
  next
    case (Inl e)
    obtain cause w1 w2 where run: "executeWithRetry sv rq ev w = (Inl cause, w1)"
      and same: "core (dlq_rows w) (locks w) (sent w) w2"
      and out: "e = ProcessingFailure (exn_message cause) True cause \<and>
          add_to_dlq sv rq ev (exn_message cause) w2 = (Inr (), w') \<or>
        (\<exists>d. e = ProcessingFailure (''Processing failed before durable DLQ acceptance: '' @
            exn_message d) False cause \<and> add_to_dlq sv rq ev (exn_message cause) w2 = (Inl d, w'))"
      using process_failure [of sv rq ev w e w'] Pair Inl by blast
    have e: "e = ProcessingFailure (exn_message cause) True cause"
      using process_accepts [OF run assms] Pair Inl by simp
    with out add_to_dlq_Inr [of sv rq ev "exn_message cause" w2 "()" w'] same assms(1,2)
    have "dlq_rows w' = dlq_rows w @ [new_row (rq_dlq rq) (failed_item ev (exn_message cause) (maxRetries p)) stored]"
      by (auto simp: core_def)
    with e Pair Inl show ?thesis
      by (simp add: isDurablyAcceptedError_def keeps_event_def new_row_def failed_item_def)
  qed
qed

theorem no_event_is_lost_witness:
  "case fst (process (demo_services (result_fail ''down'')) demo_request (demo_event ''user.create'')
       (demo_world ())) of
      Inr result \<Rightarrow> False
    | Inl e \<Rightarrow> isDurablyAcceptedError e \<and>
        (\<exists>row. dlq_rows (snd (process (demo_services (result_fail ''down'')) demo_request
          (demo_event ''user.create'') (demo_world ()))) = [row] \<and>
          keeps_event (demo_event ''user.create'') (Obj []) (maxRetries DEFAULT_RETRY_POLICY) (exn_message e) row)"
proof -
  let ?run = "process (demo_services (result_fail ''down'')) demo_request (demo_event ''user.create'') (demo_world ())"
  have "case fst ?run of
      Inr result \<Rightarrow> success result \<and> dlq_rows (snd ?run) = dlq_rows (demo_world ())
    | Inl e \<Rightarrow> isDurablyAcceptedError e \<and>
        (\<exists>row. dlq_rows (snd ?run) = dlq_rows (demo_world ()) @ [row] \<and>
           keeps_event (demo_event ''user.create'') (Obj []) (maxRetries DEFAULT_RETRY_POLICY) (exn_message e) row)"
    by (rule no_event_is_lost [where p = DEFAULT_RETRY_POLICY and stored = "Obj []"])
      (simp_all add: demo_services_def demo_policy demo_event_def demo_request_def demo_call_def)
  moreover have "dlq_rows (demo_world ()) = []" by (simp add: demo_world_def)
  moreover have "fst ?run = Inl (ProcessingFailure ''down'' True (JsError ''down''))"
    using arg_cong [OF demo_process_failure [of "''user.create''" "()"], of fst] by simp
  ultimately show ?thesis by simp
qed

text \<open>
  An event can be stored and still be reported as not accepted. The insert into the
  dead-letter table and the refresh of the gauges are one call: when the count for the gauges
  fails after the insert, the row is there, but the caller is told that the event was not
  durably accepted, and will let it be delivered again.
\<close>

theorem stored_but_reported_as_rejected:
  assumes "executeWithRetry sv rq ev w = (Inl cause, w1)"
    and "target_policy (sv_dlq sv) (ev_targetSystem ev) = Inr p"
    and "toJson (env_platform (sv_dlq sv)) (env_settings (sv_dlq sv)) (call_iv (rq_dlq rq))
           (Obj (ev_payload ev)) = Inr stored"
    and "write_fault (rq_dlq rq) = None" "count_fault (rq_dlq rq) = Some f"
  shows "\<exists>m row w'. process sv rq ev w = (Inl (ProcessingFailure m False cause), w') \<and>
    dlq_rows w' = dlq_rows w @ [row] \<and> row_eventId row = ev_eventId ev \<and> status row = ''pending''"
proof -
  have "dlq_rows w1 = dlq_rows w"
    using preservesD [OF core_executeWithRetry assms(1), of "dlq_rows w" "locks w" "sent w"]
    by (simp add: core_def)
  then show ?thesis
    by (simp add: process_of_failure [OF assms(1)] add_to_dlq_works [OF assms(2-4)]
        dlq_updateMetrics_def assms(5)) (simp add: new_row_def failed_item_def)
qed

theorem stored_but_reported_as_rejected_witness:
  "\<exists>m row w'. process (demo_services (result_fail ''down''))
       (demo_request\<lparr>rq_dlq := (demo_call 10)\<lparr>count_fault := Some (PrismaError ''P1001'' ''gone'')\<rparr>\<rparr>)
       (demo_event ''user.create'') (demo_world ()) =
     (Inl (ProcessingFailure m False (JsError ''down'')), w') \<and>
     dlq_rows w' = dlq_rows (demo_world ()) @ [row] \<and>
     row_eventId row = ev_eventId (demo_event ''user.create'') \<and> status row = ''pending''"
proof (rule stored_but_reported_as_rejected)
  let ?rq = "demo_request\<lparr>rq_dlq := (demo_call 10)\<lparr>count_fault := Some (PrismaError ''P1001'' ''gone'')\<rparr>\<rparr>"
  have "executeWithRetry (demo_services answer) ?rq ev w =
      executeWithRetry (demo_services answer) demo_request ev w" for answer ev and w :: "(unit, nat) world"
    by (cases "registry_get (sv_registry (demo_services answer)) (ev_targetSystem ev)")
      (simp_all add: executeWithRetry_def)
  then show "executeWithRetry (demo_services (result_fail ''down'')) ?rq (demo_event ''user.create'') (demo_world ()) =
      (Inl (JsError ''down''), (demo_world ())\<lparr>external := 1,
         dlq_metrics := recordConnectorError ''ad'' ''user.create'' init_metrics\<rparr>)"
    by (simp add: demo_execute) (simp add: result_fail_def)
qed (simp_all add: demo_services_def demo_policy demo_event_def demo_call_def)

text \<open>
  What a retry of a dead-letter item leaves. It resolves the item when the connector
  succeeds, and otherwise makes it pending again with the new error, provided that the
  database takes the update; no other row changes.
\<close>

theorem retry_settles_its_item:
  assumes "row_of (dlq_rows w) i = Some r"
    and "write_fault (rq_dlq rq) = None" "count_fault (rq_dlq rq) = None"
    and "write_fault (rq_dlq2 rq) = None" "count_fault (rq_dlq2 rq) = None"
    and "processRetry sv rq ev i w = (out, w')"
  shows "(case out of
      Inr _ \<Rightarrow> row_of (dlq_rows w') i = Some (r\<lparr>status := ''resolved'', lockedAt := None, lockedBy := None\<rparr>)
    | Inl e \<Rightarrow> row_of (dlq_rows w') i = Some (r\<lparr>status := ''pending'', row_error := exn_message e,
                  lockedAt := None, lockedBy := None\<rparr>)) \<and>
    (\<forall>j. j \<noteq> i \<longrightarrow> row_of (dlq_rows w') j = row_of (dlq_rows w) j)"
proof -
  obtain x w1 where run: "executeWithRetry sv rq ev w = (x, w1)" by (cases "executeWithRetry sv rq ev w")
  then have rows: "dlq_rows w1 = dlq_rows w"
    using preservesD [OF core_executeWithRetry run, of "dlq_rows w" "locks w" "sent w"]
    by (simp add: core_def)
  show ?thesis
  proof (cases x)
    case (Inr res)
    then show ?thesis
      using assms run
      by (auto simp: processRetry_def catch_op_def sbind_def on_metrics_def dlq_resolve_def
          update_row_def dlq_updateMetrics_def rows row_of_update)
  next
    case (Inl e)
    then show ?thesis
      using assms run
      by (auto simp: processRetry_def catch_op_def sbind_def on_metrics_def dlq_markRetryFailed_def
          update_row_def dlq_updateMetrics_def rows row_of_update)
  qed
qed

definition retrying_world :: "(unit, nat) world" where
  "retrying_world = (demo_world ())\<lparr>dlq_rows := [claim 7 ''42'' (new_row (demo_call 5) demo_item (Obj []))]\<rparr>"

theorem retry_settles_its_item_witness:
  "map status (dlq_rows (snd (processRetry (demo_services (result_ok Null)) demo_request
     (demo_event ''user.create'') ''row'' retrying_world))) = [''resolved''] \<and>
   row_of (dlq_rows (snd (processRetry (demo_services (result_fail ''down'')) demo_request
     (demo_event ''user.create'') ''row'' retrying_world))) ''other'' = None"
proof -
  let ?r = "claim 7 ''42'' (new_row (demo_call 5) demo_item (Obj []))"
  have row: "row_of (dlq_rows retrying_world) ''row'' = Some ?r"
    by (simp add: row_of_def retrying_world_def claim_def new_row_def demo_call_def)
  let ?out = "\<lambda>a. processRetry (demo_services a) demo_request (demo_event ''user.create'') ''row'' retrying_world"
  have settled: "(case fst (?out a) of
      Inr _ \<Rightarrow> row_of (dlq_rows (snd (?out a))) ''row'' =
        Some (?r\<lparr>status := ''resolved'', lockedAt := None, lockedBy := None\<rparr>)
    | Inl e \<Rightarrow> row_of (dlq_rows (snd (?out a))) ''row'' =
        Some (?r\<lparr>status := ''pending'', row_error := exn_message e, lockedAt := None, lockedBy := None\<rparr>)) \<and>
    (\<forall>j. j \<noteq> ''row'' \<longrightarrow> row_of (dlq_rows (snd (?out a))) j = row_of (dlq_rows retrying_world) j)" for a
    by (rule retry_settles_its_item [OF row]) (simp_all add: demo_request_def demo_call_def)
  have "map status (dlq_rows (snd (?out (result_ok Null)))) = [''resolved'']"
    by (simp add: processRetry_def catch_op_def sbind_def executeWithRetry_def demo_services_def
        demo_event_def registry_get_def demo_policy run_retries_def on_external_def retry_execute_def
        counting_connector_def retry_from.simps on_metrics_def retrying_world_def demo_world_def
        result_ok_def dlq_resolve_def update_row_def demo_request_def demo_call_def row_of_def
        claim_def new_row_def dlq_updateMetrics_def)
  moreover have "row_of (dlq_rows (snd (?out (result_fail ''down'')))) ''other'' = None"
    using settled [of "result_fail ''down''"]
    by (simp add: row_of_def retrying_world_def claim_def new_row_def demo_call_def)
  ultimately show ?thesis by blast
qed

text \<open>
  Reads stay out of the dead-letter queue, and a failing native read counts as a success.
  \<open>processWithResult\<close> never touches the dead-letter table, the locks or Kafka, and when the
  connector's own \<open>getSchema\<close> or \<open>sync\<close> answers \<open>success: false\<close>, the answer is returned and
  the event is counted as successful, where \<open>execute\<close> would have thrown.
\<close>

theorem reads_bypass_dlq:
  assumes "processWithResult sv rq ev w = (out, w')"
  shows "dlq_rows w' = dlq_rows w \<and> locks w' = locks w \<and> sent w' = sent w \<and>
    (\<forall>connector native r x. registry_get (sv_registry sv) (ev_targetSystem ev) = Some connector \<longrightarrow>
       read_native connector ev = Some native \<longrightarrow> native (external w) = (Inr r, x) \<longrightarrow> \<not> success r \<longrightarrow>
       out = Inr r \<and> eventsProcessed (dlq_metrics w') (''success'', ev_targetSystem ev) =
         eventsProcessed (dlq_metrics w) (''success'', ev_targetSystem ev) + 1)"
proof -
  have "core (dlq_rows w) (locks w) (sent w) w'"
    using preservesD [OF core_processWithResult assms] by (simp add: core_def)
  moreover have "out = Inr r \<and> eventsProcessed (dlq_metrics w') (''success'', ev_targetSystem ev) =
      eventsProcessed (dlq_metrics w) (''success'', ev_targetSystem ev) + 1"
    if "registry_get (sv_registry sv) (ev_targetSystem ev) = Some connector"
      "read_native connector ev = Some native" "native (external w) = (Inr r, x)"
    for connector native r x
    using assms that
    by (auto simp: processWithResult_def catch_op_def sbind_def on_external_def on_metrics_def
        recordEvent_def refreshProcessedWindow_def Let_def)
  ultimately show ?thesis by (auto simp: core_def)
qed

theorem reads_bypass_dlq_witness:
  "fst (processWithResult (demo_services (result_fail ''down'')) demo_request (demo_event ''sync.full'')
     (demo_world ())) = Inr (result_fail ''down'')"
proof -
  let ?c = "counting_connector (result_fail ''down'')"
  let ?run = "processWithResult (demo_services (result_fail ''down'')) demo_request
    (demo_event ''sync.full'') (demo_world ())"
  have "registry_get (sv_registry (demo_services (result_fail ''down'')))
      (ev_targetSystem (demo_event ''sync.full'')) = Some ?c"
    "read_native ?c (demo_event ''sync.full'') = Some (\<lambda>n. (Inr (result_fail ''down''), n + 1))"
    "\<not> success (result_fail ''down'')"
    by (simp_all add: demo_services_def registry_get_def demo_event_def read_native_def
        counting_connector_def result_fail_def)
  then show ?thesis using reads_bypass_dlq [of _ _ _ _ "fst ?run" "snd ?run"] by fastforce
qed

end
