(* ===== verification/Webhook.thy ===== *)
theory Webhook
  imports Processing
begin

text \<open>
  Models the way of an event through the middleware: \<open>kafka/kafka-producer.service.ts\<close>,
  \<open>outbound/dispatcher.service.ts\<close>, \<open>inbound/webhooks/webhook.service.ts\<close>, the validation and
  the handler of \<open>inbound/webhooks/webhook.controller.ts\<close>, and the message handler of
  \<open>kafka/kafka-consumer.service.ts\<close>.
\<close>

section \<open>Services\<close>

record kafka_cfg =
  k_enabled :: bool
  k_producer :: bool
  k_mode :: "string option"
  k_events_in :: "string option"
  k_events_out :: "string option"
  k_dlq_retry :: "string option"

record ('s, 'e) app =
  ap_services :: "'e services"
  ap_kafka :: kafka_cfg
  ap_store :: "'s idem_store"

definition ap_platform :: "('s, 'e) app \<Rightarrow> platform" where
  "ap_platform ap = env_platform (sv_dlq (ap_services ap))"

definition ap_settings :: "('s, 'e) app \<Rightarrow> settings" where
  "ap_settings ap = env_settings (sv_dlq (ap_services ap))"

section \<open>The Kafka producer\<close>

text \<open>\<open>k_producer\<close> tells whether the producer is connected; \<open>fault\<close> is the broker's error.\<close>

definition kafka_send ::
  "('s, 'e) app \<Rightarrow> string \<Rightarrow> exn option \<Rightarrow> string \<Rightarrow> obj \<Rightarrow> (unit, ('s, 'e) world) op" where
  "kafka_send ap iv fault topic message =
     (if \<not> k_producer (ap_kafka ap)
      then (if k_enabled (ap_kafka ap)
            then raise (JsError ''Kafka producer is enabled but not available'') else ret ())
      else sbind (lift_result (encodeKafkaMessage (ap_platform ap) (ap_settings ap) iv message)) (\<lambda>value.
           sbind (may_fail fault) (\<lambda>_.
           modify (\<lambda>w. w\<lparr>sent := sent w @ [(topic, value)]\<rparr>))))"

section \<open>The dispatcher\<close>

definition event_message :: "event \<Rightarrow> obj" where
  "event_message ev =
     [(''eventId'', Str (ev_eventId ev)), (''operation'', Str (ev_operation ev)),
      (''targetSystem'', Str (ev_targetSystem ev)), (''payload'', Obj (ev_payload ev))]"

definition status_message :: "event \<Rightarrow> string \<Rightarrow> obj" where
  "status_message ev st =
     [(''eventId'', Str (ev_eventId ev)), (''operation'', Str (ev_operation ev)),
      (''targetSystem'', Str (ev_targetSystem ev)), (''status'', Str st)]"

definition processing_mode :: "('s, 'e) app \<Rightarrow> string" where
  "processing_mode ap = or_else (k_mode (ap_kafka ap)) ''sync''"

definition events_out :: "('s, 'e) app \<Rightarrow> string" where
  "events_out ap = or_else (k_events_out (ap_kafka ap)) ''idm.events.out''"

definition dispatch ::
  "('s, 'e) app \<Rightarrow> request \<Rightarrow> event \<Rightarrow> (connector_result option, ('s, 'e) world) op" where
  "dispatch ap rq ev =
     (if processing_mode ap = ''async''
      then (if \<not> k_enabled (ap_kafka ap)
            then raise (JsError ''Async processing mode requires KAFKA_ENABLED=true'')
            else sbind (kafka_send ap (call_iv (rq_dlq rq)) (rq_send1 rq)
                          (or_else (k_events_in (ap_kafka ap)) ''idm.events.in'') (event_message ev))
                   (\<lambda>_. ret None))
      else catch_op
        (sbind (process (ap_services ap) rq ev) (\<lambda>result.
         sbind (if k_enabled (ap_kafka ap)
                then kafka_send ap (call_iv (rq_dlq rq)) (rq_send1 rq) (events_out ap)
                       (status_message ev ''success'')
                else ret ()) (\<lambda>_.
         ret (Some result))))
        (\<lambda>error.
         sbind (if k_enabled (ap_kafka ap)
                then kafka_send ap (call_iv (rq_dlq rq)) (rq_send2 rq) (events_out ap)
                       (status_message ev ''failed'' @ [(''error'', Str (exn_message error))])
                else ret ()) (\<lambda>_.
         raise error)))"

section \<open>The webhook service\<close>

record process_result =
  processed :: bool
  pr_data :: jsval

definition idempotencyKey :: "event \<Rightarrow> string" where
  "idempotencyKey ev = ''avanpost:'' @ ev_targetSystem ev @ '':'' @ ev_eventId ev"

definition event_keys :: "('s, 'e) app \<Rightarrow> event \<Rightarrow> string list result" where
  "event_keys ap ev = idempotencyKeys (ap_platform ap) (ap_settings ap) (idempotencyKey ev)"

definition safeWriteResponseData :: "jsval \<Rightarrow> jsval" where
  "safeWriteResponseData data =
     (case data of
        Obj metadata \<Rightarrow>
          if js_get metadata ''passwordDelivery'' = Str ''email'' \<and>
             js_get metadata ''passwordKnown'' = Bool False
          then data else Undef
      | _ \<Rightarrow> Undef)"

definition handle_event ::
  "('s, 'e) app \<Rightarrow> request \<Rightarrow> event \<Rightarrow> bool \<Rightarrow> (process_result, ('s, 'e) world) op" where
  "handle_event ap rq ev isRead =
     (if isRead
      then sbind (processWithResult (ap_services ap) rq ev) (\<lambda>result.
             ret \<lparr>processed = success result, pr_data = result_data result\<rparr>)
      else sbind (dispatch ap rq ev) (\<lambda>result.
             ret \<lparr>processed = True,
                  pr_data = safeWriteResponseData (case result of None \<Rightarrow> Undef
                    | Some r \<Rightarrow> result_data r)\<rparr>))"

definition processWebhook ::
  "('s, 'e) app \<Rightarrow> request \<Rightarrow> event \<Rightarrow> bool \<Rightarrow> (process_result, ('s, 'e) world) op" where
  "processWebhook ap rq ev isRead =
     sbind (on_locks (checkAndLock (ap_store ap) (rq_now rq) (event_keys ap ev) 3600)) (\<lambda>isNew.
     if \<not> isNew then ret \<lparr>processed = False, pr_data = Undef\<rparr>
     else catch_op (handle_event ap rq ev isRead)
       (\<lambda>error.
        if \<not> isDurablyAcceptedError error
        then sbind (on_locks (release_keys (ap_store ap) (event_keys ap ev))) (\<lambda>_. raise error)
        else raise error))"

section \<open>The webhook controller\<close>

definition has_nonspace :: "jsval \<Rightarrow> bool" where
  "has_nonspace v = (case v of Str s \<Rightarrow> \<exists>c \<in> set s. \<not> is_ws c | _ \<Rightarrow> False)"

definition payload_shape :: "jsval \<Rightarrow> bool" where
  "payload_shape v =
     (case v of
        Obj kvs \<Rightarrow> (\<forall>key \<in> {''data'', ''params'', ''metadata''}.
          js_get kvs key = Undef \<or> is_record (js_get kvs key))
      | _ \<Rightarrow> False)"

definition valid_dto :: "obj \<Rightarrow> bool" where
  "valid_dto dto \<longleftrightarrow>
     has_nonspace (js_get dto ''eventId'') \<and>
     (\<exists>op \<in> set AVANPOST_OPERATIONS. js_get dto ''operation'' = Str op) \<and>
     has_nonspace (js_get dto ''targetSystem'') \<and> payload_shape (js_get dto ''payload'')"

definition text_field :: "obj \<Rightarrow> string \<Rightarrow> string" where
  "text_field kvs k = (case js_get kvs k of Str s \<Rightarrow> s | _ \<Rightarrow> [])"

definition event_of :: "obj \<Rightarrow> event" where
  "event_of kvs =
     \<lparr>ev_eventId = text_field kvs ''eventId'', ev_operation = text_field kvs ''operation'',
      ev_targetSystem = text_field kvs ''targetSystem'', ev_payload = as_obj (js_get kvs ''payload'')\<rparr>"

record webhook_response =
  received :: bool
  wr_processed :: bool
  wr_data :: jsval

definition receiveWebhook :: "('s, 'e) app \<Rightarrow> request \<Rightarrow> obj \<Rightarrow> (webhook_response, ('s, 'e) world) op" where
  "receiveWebhook ap rq dto =
     (if \<not> valid_dto dto then raise (BadRequest ''Bad Request'')
      else sbind (processWebhook ap rq (event_of dto) (isReadOperation (ev_operation (event_of dto))))
        (\<lambda>result. ret \<lparr>received = True, wr_processed = processed result, wr_data = pr_data result\<rparr>))"

section \<open>The Kafka consumer\<close>

text \<open>
  A message without the four fields of an event does not come from the dispatcher or the admin
  service; here it is rejected like one that cannot be decoded.
\<close>

definition message_event :: "obj \<Rightarrow> event result" where
  "message_event kvs =
     (case (js_get kvs ''eventId'', js_get kvs ''operation'', js_get kvs ''targetSystem'', js_get kvs ''payload'') of
        (Str i, Str op, Str t, Obj p) \<Rightarrow>
          Inr \<lparr>ev_eventId = i, ev_operation = op, ev_targetSystem = t, ev_payload = p\<rparr>
      | _ \<Rightarrow> Inl (JsError ''malformed message''))"

definition consume_body :: "('s, 'e) app \<Rightarrow> request \<Rightarrow> string \<Rightarrow> string \<Rightarrow> (unit, ('s, 'e) world) op" where
  "consume_body ap rq topic raw =
     sbind (lift_result (decodeKafkaMessage (ap_platform ap) (ap_settings ap) raw)) (\<lambda>v.
     sbind (lift_result (message_event (as_obj v))) (\<lambda>ev.
     sbind (case js_get (as_obj v) ''dlqItemId'' of
              Str (c # i) \<Rightarrow> processRetry (ap_services ap) rq ev (c # i)
            | _ \<Rightarrow> sbind (process (ap_services ap) rq ev) (\<lambda>_. ret ())) (\<lambda>_.
     kafka_send ap (call_iv (rq_dlq rq)) (rq_send1 rq) (events_out ap)
       (status_message ev ''success'' @ [(''sourceTopic'', Str topic)]))))"

definition eachMessage :: "('s, 'e) app \<Rightarrow> request \<Rightarrow> string \<Rightarrow> string \<Rightarrow> (unit, ('s, 'e) world) op" where
  "eachMessage ap rq topic raw =
     catch_op (consume_body ap rq topic raw)
       (\<lambda>error.
        catch_op (kafka_send ap (call_iv (rq_dlq rq)) (rq_send2 rq) (events_out ap)
            [(''status'', Str ''failed''), (''sourceTopic'', Str topic), (''error'', Str (exn_message error))])
          (\<lambda>_. ret ()))"

definition subscribed_topics :: "('s, 'e) app \<Rightarrow> string list" where
  "subscribed_topics ap =
     (if \<not> k_enabled (ap_kafka ap) then []
      else or_else (k_dlq_retry (ap_kafka ap)) ''idm.dlq.retry'' #
        (if processing_mode ap = ''async''
         then [or_else (k_events_in (ap_kafka ap)) ''idm.events.in''] else []))"

section \<open>The event lock during a request\<close>

definition locks_are :: "'s \<Rightarrow> ('s, 'e) world \<Rightarrow> bool" where
  "locks_are l w \<longleftrightarrow> locks w = l"

lemma core_locks:
  assumes "\<And>rows m. preserves (core rows l m) f"
  shows "preserves (locks_are l) f"
  unfolding preserves_def
proof (intro allI impI)
  fix w r w' assume "locks_are l w" "f w = (r, w')"
  with preservesD [OF assms [of "dlq_rows w" "sent w"], of w r w'] show "locks_are l w'"
    by (simp add: core_def locks_are_def)
qed

lemma outer_locks:
  assumes "\<And>m. preserves (outer l m) f"
  shows "preserves (locks_are l) f"
  unfolding preserves_def
proof (intro allI impI)
  fix w r w' assume "locks_are l w" "f w = (r, w')"
  with preservesD [OF assms [of "sent w"], of w r w'] show "locks_are l w'"
    by (simp add: outer_def locks_are_def)
qed

lemma locks_process: "preserves (locks_are l) (process sv rq ev)"
  unfolding process_def
  by (intro preserve_intros core_locks [OF core_executeWithRetry] outer_locks [OF outer_metrics]
      outer_locks [OF add_to_dlq_outer])

lemma locks_send: "preserves (locks_are l) (kafka_send ap iv fault topic message)"
  unfolding kafka_send_def by (intro preserve_intros) (simp add: locks_are_def)

lemma locks_dispatch: "preserves (locks_are l) (dispatch ap rq ev)"
  unfolding dispatch_def by (intro preserve_intros locks_process locks_send)

lemma locks_handle: "preserves (locks_are l) (handle_event ap rq ev isRead)"
  unfolding handle_event_def
  by (intro preserve_intros locks_dispatch core_locks [OF core_processWithResult])

lemma locks_kept: "handle_event ap rq ev isRead w = (r, w') \<Longrightarrow> locks w' = locks w"
  using preservesD [OF locks_handle] by (fastforce simp: locks_are_def)

lemma processWebhook_run:
  "processWebhook ap rq ev isRead w =
     (case checkAndLock (ap_store ap) (rq_now rq) (event_keys ap ev) 3600 (locks w) of
        (Inl e, l) \<Rightarrow> (Inl e, w\<lparr>locks := l\<rparr>)
      | (Inr False, l) \<Rightarrow> (Inr \<lparr>processed = False, pr_data = Undef\<rparr>, w\<lparr>locks := l\<rparr>)
      | (Inr True, l) \<Rightarrow>
          (case handle_event ap rq ev isRead (w\<lparr>locks := l\<rparr>) of
             (Inr res, w1) \<Rightarrow> (Inr res, w1)
           | (Inl e, w1) \<Rightarrow>
               if isDurablyAcceptedError e then (Inl e, w1)
               else case release_keys (ap_store ap) (event_keys ap ev) l of
                 (Inl e', l') \<Rightarrow> (Inl e', w1\<lparr>locks := l'\<rparr>)
               | (Inr _, l') \<Rightarrow> (Inl e, w1\<lparr>locks := l'\<rparr>)))"
proof -
  obtain r l where c: "checkAndLock (ap_store ap) (rq_now rq) (event_keys ap ev) 3600 (locks w) = (r, l)"
    by (cases "checkAndLock (ap_store ap) (rq_now rq) (event_keys ap ev) 3600 (locks w)")
  obtain y w1 where h: "handle_event ap rq ev isRead (w\<lparr>locks := l\<rparr>) = (y, w1)"
    by (cases "handle_event ap rq ev isRead (w\<lparr>locks := l\<rparr>)")
  then have l: "locks w1 = l" using locks_kept by fastforce
  show ?thesis
    by (auto simp: processWebhook_def sbind_def on_locks_def c h l catch_op_def
        split: sum.split prod.split bool.split)
qed

context idempotency_store
begin

lemma redelivery_ignored:
  assumes "ap_store ap = st" "ap_store ap' = st"
    and "event_keys ap ev = Inr keys" "keys \<noteq> []"
    and "checkAndLock st (rq_now rq) (Inr keys) 3600 (locks w) = (Inr True, l)"
    and "processWebhook ap rq ev isRead w = (out, w1)"
    and "case out of Inr r \<Rightarrow> True | Inl e \<Rightarrow> isDurablyAcceptedError e"
    and "idem_run st (rq_now rq) (locks w1) tr (rq_now rq') (locks w2)"
    and "\<forall>(u, cmd) \<in> set tr. \<forall>ks. cmd = Release ks \<longrightarrow> hd keys \<notin> set ks"
    and "event_keys ap' ev = Inr keys'" "hd keys \<in> set keys'"
    and "rq_now rq' < rq_now rq + 3600 * 1000"
  shows "fst (processWebhook ap' rq' ev isRead' w2) = Inr \<lparr>processed = False, pr_data = Undef\<rparr> \<and>
    snd (processWebhook ap' rq' ev isRead' w2) =
      w2\<lparr>locks := snd (checkAndLock st (rq_now rq') (Inr keys') 3600 (locks w2))\<rparr>"
proof -
  obtain x w3 where h: "handle_event ap rq ev isRead (w\<lparr>locks := l\<rparr>) = (x, w3)"
    by (cases "handle_event ap rq ev isRead (w\<lparr>locks := l\<rparr>)")
  then have l: "locks w3 = l" using locks_kept by fastforce
  have "\<not> isDurablyAcceptedError e \<Longrightarrow> x = Inl e \<Longrightarrow>
      \<exists>e' l'. (out, w1) = (Inl e', w3\<lparr>locks := l'\<rparr>)" for e
    using assms(1,3,5,6) h delete_all_run [of keys l]
    by (auto simp: processWebhook_run release_keys_def)
  then have "locks w1 = l"
    using assms(1,3,5,6,7) h l delete_all_run [of keys l]
    by (cases x) (auto simp: processWebhook_run release_keys_def split: if_splits)
  with duplicate_refused [OF assms(5,4) _ _ assms(12,9,11)] assms(8)
  have "fst (checkAndLock st (rq_now rq') (Inr keys') 3600 (locks w2)) = Inr False" by simp
  then obtain l2 where "checkAndLock st (rq_now rq') (Inr keys') 3600 (locks w2) = (Inr False, l2)"
    by (cases "checkAndLock st (rq_now rq') (Inr keys') 3600 (locks w2)") simp
  then show ?thesis using assms(2,10) by (simp add: processWebhook_run)
qed

lemma released_after_rejection:
  assumes "ap_store ap = st" "event_keys ap ev = Inr keys" "keys \<noteq> []"
    and "checkAndLock st (rq_now rq) (Inr keys) 3600 (locks w) = (Inr True, l)"
    and "processWebhook ap rq ev isRead w = (Inl e, w1)" "\<not> isDurablyAcceptedError e"
  shows "fst (checkAndLock st t (Inr keys) 3600 (locks w1)) = Inr True"
proof -
  obtain x w3 where h: "handle_event ap rq ev isRead (w\<lparr>locks := l\<rparr>) = (x, w3)"
    by (cases "handle_event ap rq ev isRead (w\<lparr>locks := l\<rparr>)")
  obtain l' where "release_keys st (Inr keys) l = (Inr (), l')"
    using delete_all_run [of keys l] by (auto simp: release_keys_def)
  then have "locks w1 = snd (release_keys st (Inr keys) l)"
    using assms h by (cases x) (auto simp: processWebhook_run split: if_splits)
  then show ?thesis using released_again_free [OF assms(3), of 3600] by simp
qed

end

section \<open>Sending\<close>

definition kafka_ready :: "('s, 'e) app \<Rightarrow> string \<Rightarrow> bool" where
  "kafka_ready ap iv \<longleftrightarrow> k_enabled (ap_kafka ap) \<and> k_producer (ap_kafka ap) \<and>
     (\<forall>m. \<exists>v. encodeKafkaMessage (ap_platform ap) (ap_settings ap) iv m = Inr v)"

lemma send_ok:
  assumes "kafka_ready ap iv"
  shows "\<exists>v. encodeKafkaMessage (ap_platform ap) (ap_settings ap) iv m = Inr v \<and>
    kafka_send ap iv None topic m w = (Inr (), w\<lparr>sent := sent w @ [(topic, v)]\<rparr>)"
proof -
  obtain v where "encodeKafkaMessage (ap_platform ap) (ap_settings ap) iv m = Inr v"
    using assms by (auto simp: kafka_ready_def)
  then show ?thesis using assms by (auto simp: kafka_send_def kafka_ready_def)
qed

lemma send_fails:
  assumes "kafka_ready ap iv"
  shows "kafka_send ap iv (Some f) topic m w = (Inl f, w)"
proof -
  obtain v where "encodeKafkaMessage (ap_platform ap) (ap_settings ap) iv m = Inr v"
    using assms by (auto simp: kafka_ready_def)
  then show ?thesis using assms by (auto simp: kafka_send_def kafka_ready_def)
qed

lemma eachMessage_returns: "fst (eachMessage ap rq topic raw w) = Inr ()"
  by (auto simp: eachMessage_def catch_op_def split: prod.split sum.split)

lemma send_keeps_rows: "preserves (\<lambda>w. dlq_rows w = R) (kafka_send ap iv fault topic m)"
  unfolding kafka_send_def by (intro preserve_intros) simp

section \<open>A small instance\<close>

definition demo_kafka :: kafka_cfg where
  "demo_kafka =
     \<lparr>k_enabled = True, k_producer = True, k_mode = None, k_events_in = None, k_events_out = None,
      k_dlq_retry = None\<rparr>"

definition demo_app :: "connector_result \<Rightarrow> 's idem_store \<Rightarrow> kafka_cfg \<Rightarrow> ('s, nat) app" where
  "demo_app answer st k = \<lparr>ap_services = demo_services answer, ap_kafka = k, ap_store = st\<rparr>"

definition demo_create :: event where
  "demo_create = demo_event ''user.create''"

lemma plain_flags [simp]:
  "isIdempotencyHmacEnabled plain_settings = False" "isKafkaEncryptionEnabled plain_settings = False"
  by (simp_all add: isIdempotencyHmacEnabled_def isKafkaEncryptionEnabled_def encryption_isEnabled_def
      readFlag_def readString_def plain_settings_def)

lemma demo_app_env [simp]:
  "ap_settings (demo_app a st k) = plain_settings" "ap_platform (demo_app a st k) = demo_platform"
  "ap_store (demo_app a st k) = st" "ap_kafka (demo_app a st k) = k"
  "ap_services (demo_app a st k) = demo_services a"
  by (simp_all add: ap_settings_def ap_platform_def demo_app_def demo_services_def demo_env_def)

lemma demo_keys: "event_keys (demo_app a st k) demo_create = Inr [''avanpost:ad:e1'']"
  by (simp add: event_keys_def idempotencyKeys_def idempotencyKey_def demo_create_def demo_event_def)

lemma demo_kafka_ready: "kafka_ready (demo_app a st demo_kafka) iv"
  by (simp add: kafka_ready_def demo_kafka_def encodeKafkaMessage_def)

lemma demo_lock:
  "checkAndLock pg_store (rq_now demo_request) (Inr [''avanpost:ad:e1'']) 3600 (\<lambda>_. None) =
     (Inr True, pg_write 10 ''avanpost:ad:e1'' 3600010 (\<lambda>_. None))"
  "checkAndLock (redis_store True) (rq_now demo_request) (Inr [''avanpost:ad:e1'']) 3600 (\<lambda>_. None) =
     (Inr True, [''avanpost:ad:e1'' \<mapsto> 3600010])"
  by (simp_all add: checkAndLock_def lock_keys_def pg_store_def pg_setIfNotExists_alone row_live_def
      demo_request_def redis_store_def redis_setIfNotExists_def requireClient_def redis_live_def)

lemma demo_sync:
  "processing_mode (demo_app a st demo_kafka) = ''sync''" "k_enabled demo_kafka"
  "rq_send1 demo_request = None" "rq_send2 demo_request = None"
  by (simp_all add: processing_mode_def demo_kafka_def demo_request_def)

lemma demo_world_locks: "(demo_world l)\<lparr>locks := l'\<rparr> = demo_world l'" "locks (demo_world l) = l"
  by (simp_all add: demo_world_def)

lemma demo_durable:
  "fst (processWebhook (demo_app (result_fail ''down'') pg_store demo_kafka) demo_request demo_create False
     (demo_world (\<lambda>_. None))) = Inl (ProcessingFailure ''down'' True (JsError ''down''))"
proof -
  let ?ap = "demo_app (result_fail ''down'') pg_store demo_kafka"
  let ?l = "pg_write 10 ''avanpost:ad:e1'' 3600010 (\<lambda>_. None)"
  let ?m = "status_message demo_create ''failed'' @ [(''error'', Str ''down'')]"
  obtain w1 where p: "process (demo_services (result_fail ''down'')) demo_request demo_create (demo_world ?l) =
      (Inl (ProcessingFailure ''down'' True (JsError ''down'')), w1)"
    using demo_process_failure [of "''user.create''" ?l] unfolding demo_create_def by metis
  have "fst (dispatch ?ap demo_request demo_create (demo_world ?l)) =
      Inl (ProcessingFailure ''down'' True (JsError ''down''))"
    using send_ok [OF demo_kafka_ready, of "result_fail ''down''" pg_store "call_iv (rq_dlq demo_request)"
        ?m "events_out ?ap" w1]
    by (auto simp: dispatch_def catch_op_def p sbind_def demo_sync)
  then obtain w2 where "dispatch ?ap demo_request demo_create (demo_world ?l) =
      (Inl (ProcessingFailure ''down'' True (JsError ''down'')), w2)"
    by (metis prod.collapse)
  then have "handle_event ?ap demo_request demo_create False (demo_world ?l) =
      (Inl (ProcessingFailure ''down'' True (JsError ''down'')), w2)"
    by (simp add: handle_event_def sbind_def)
  then show ?thesis
    by (simp add: processWebhook_run demo_keys demo_lock demo_world_locks isDurablyAcceptedError_def)
qed

section \<open>Properties\<close>

text \<open>A delivery that got the lock, and ended in success or in durable acceptance.\<close>

definition accepted_delivery ::
  "'s idem_store \<Rightarrow> ('s, 'e) app \<Rightarrow> request \<Rightarrow> event \<Rightarrow> bool \<Rightarrow> ('s, 'e) world \<Rightarrow> string list \<Rightarrow> ('s, 'e) world \<Rightarrow> bool" where
  "accepted_delivery st ap rq ev isRead w keys w1 \<longleftrightarrow>
     ap_store ap = st \<and> event_keys ap ev = Inr keys \<and> keys \<noteq> [] \<and>
     fst (checkAndLock st (rq_now rq) (Inr keys) 3600 (locks w)) = Inr True \<and>
     (\<exists>out. processWebhook ap rq ev isRead w = (out, w1) \<and> (case out of Inr r \<Rightarrow> True | Inl e \<Rightarrow> isDurablyAcceptedError e))"

text \<open>A delivery that is answered as a duplicate, and leaves all but the lock store as it was.\<close>

definition ignored_delivery :: "('s, 'e) app \<Rightarrow> request \<Rightarrow> event \<Rightarrow> bool \<Rightarrow> ('s, 'e) world \<Rightarrow> bool" where
  "ignored_delivery ap rq ev isRead w \<longleftrightarrow>
     (\<exists>l. processWebhook ap rq ev isRead w = (Inr \<lparr>processed = False, pr_data = Undef\<rparr>, w\<lparr>locks := l\<rparr>))"

text \<open>
  C2: an accepted event is not executed again within an hour. When a delivery got the lock of the PostgreSQL or of
  the Redis store and ended in success or in durable acceptance, then a later delivery that arrives less than 3600
  seconds after the lock was taken, and before anyone releases it, is answered with \<open>processed: false\<close> and changes
  nothing but the state of the lock store: no connector call, no dead-letter row, no message. Any locks and
  releases of other keys, one after the other, may come in between, and the later delivery may arrive under another
  configuration with the same store, as long as that one still derives the key under which the event was locked.
\<close>

theorem redelivery_is_ignored:
  assumes "rq_now rq' < rq_now rq + 3600 * 1000" "hd keys \<in> set keys'"
    and "\<forall>(u, cmd) \<in> set tr. \<forall>ks. cmd = Release ks \<longrightarrow> hd keys \<notin> set ks"
  shows "(accepted_delivery pg_store ap rq ev isRead w keys w1 \<longrightarrow> ap_store ap' = pg_store \<longrightarrow> event_keys ap' ev = Inr keys' \<longrightarrow>
      idem_run pg_store (rq_now rq) (locks w1) tr (rq_now rq') (locks w2) \<longrightarrow>
      ignored_delivery ap' rq' ev isRead' w2) \<and>
    (accepted_delivery (redis_store True) br rq ev isRead v keys v1 \<longrightarrow> ap_store br' = redis_store True \<longrightarrow> event_keys br' ev = Inr keys' \<longrightarrow>
      idem_run (redis_store True) (rq_now rq) (locks v1) tr (rq_now rq') (locks v2) \<longrightarrow>
      ignored_delivery br' rq' ev isRead' v2)"
proof (intro conjI impI)
  assume a: "accepted_delivery pg_store ap rq ev isRead w keys w1" and s: "ap_store ap' = pg_store"
    and k: "event_keys ap' ev = Inr keys'"
    and r: "idem_run pg_store (rq_now rq) (locks w1) tr (rq_now rq') (locks w2)"
  from a obtain out l where h: "ap_store ap = pg_store" "event_keys ap ev = Inr keys" "keys \<noteq> []"
    "checkAndLock pg_store (rq_now rq) (Inr keys) 3600 (locks w) = (Inr True, l)"
    "processWebhook ap rq ev isRead w = (out, w1)" "case out of Inr r \<Rightarrow> True | Inl e \<Rightarrow> isDurablyAcceptedError e"
    unfolding accepted_delivery_def by (metis prod.collapse)
  show "ignored_delivery ap' rq' ev isRead' w2"
    using pg.redelivery_ignored [OF h(1) s h(2-6) r assms(3) k assms(2,1)]
    by (auto simp: ignored_delivery_def prod_eq_iff)
next
  assume a: "accepted_delivery (redis_store True) br rq ev isRead v keys v1" and s: "ap_store br' = redis_store True"
    and k: "event_keys br' ev = Inr keys'"
    and r: "idem_run (redis_store True) (rq_now rq) (locks v1) tr (rq_now rq') (locks v2)"
  from a obtain out l where h: "ap_store br = redis_store True" "event_keys br ev = Inr keys" "keys \<noteq> []"
    "checkAndLock (redis_store True) (rq_now rq) (Inr keys) 3600 (locks v) = (Inr True, l)"
    "processWebhook br rq ev isRead v = (out, v1)" "case out of Inr r \<Rightarrow> True | Inl e \<Rightarrow> isDurablyAcceptedError e"
    unfolding accepted_delivery_def by (metis prod.collapse)
  show "ignored_delivery br' rq' ev isRead' v2"
    using redis.redelivery_ignored [OF h(1) s h(2-6) r assms(3) k assms(2,1)]
    by (auto simp: ignored_delivery_def prod_eq_iff)
qed

text \<open>
  A rejected event can be delivered again. When the delivery that got the lock ended in an
  error without durable acceptance, the lock is gone from the Redis store and the next
  delivery is granted it.
\<close>

theorem rejected_event_is_released:
  assumes "event_keys ap ev = Inr keys" "keys \<noteq> []" "ap_store ap = redis_store True"
    and "checkAndLock (redis_store True) (rq_now rq) (Inr keys) 3600 (locks w) = (Inr True, l)"
    and "processWebhook ap rq ev isRead w = (Inl e, w1)" "\<not> isDurablyAcceptedError e"
  shows "fst (checkAndLock (redis_store True) t (Inr keys) 3600 (locks w1)) = Inr True"
  by (rule redis.released_after_rejection [OF assms(3,1,2,4,5,6)])

text \<open>
  An executed event can be executed again. In synchronous mode with Kafka, when the
  connector succeeded but the status message cannot be sent, the event is announced as failed,
  the caller gets the broker's error, nothing is in the dead-letter table, and the lock is
  released, so the redelivery will run the connector a second time.
\<close>

theorem failed_status_message_unlocks_executed_event:
  assumes "processing_mode ap \<noteq> ''async''" "kafka_ready ap (call_iv (rq_dlq rq))"
    and "rq_send1 rq = Some f" "rq_send2 rq = None" "\<not> isDurablyAcceptedError f"
    and "ap_store ap = pg_store" "event_keys ap ev = Inr keys" "keys \<noteq> []"
    and "checkAndLock pg_store (rq_now rq) (Inr keys) 3600 (locks w) = (Inr True, l)"
    and "process (ap_services ap) rq ev (w\<lparr>locks := l\<rparr>) = (Inr result, w1)"
  shows "\<exists>w2 v. processWebhook ap rq ev False w = (Inl f, w2) \<and> external w2 = external w1 \<and>
    dlq_rows w2 = dlq_rows w \<and> sent w2 = sent w @ [(events_out ap, v)] \<and>
    fst (checkAndLock pg_store t (Inr keys) 3600 (locks w2)) = Inr True"
proof -
  let ?m = "status_message ev ''failed'' @ [(''error'', Str (exn_message f))]"
  obtain v where v: "kafka_send ap (call_iv (rq_dlq rq)) None (events_out ap) ?m w1 =
      (Inr (), w1\<lparr>sent := sent w1 @ [(events_out ap, v)]\<rparr>)"
    using send_ok [OF assms(2)] by blast
  have d: "dispatch ap rq ev (w\<lparr>locks := l\<rparr>) = (Inl f, w1\<lparr>sent := sent w1 @ [(events_out ap, v)]\<rparr>)"
    using assms(1,2,3,4,10) v send_fails [OF assms(2)]
    by (simp add: dispatch_def catch_op_def sbind_def kafka_ready_def)
  obtain l' where r: "release_keys pg_store (Inr keys) l = (Inr (), l')"
    using pg.delete_all_run [of keys l] by (auto simp: release_keys_def)
  have run: "processWebhook ap rq ev False w =
      (Inl f, w1\<lparr>sent := sent w1 @ [(events_out ap, v)], locks := l'\<rparr>)"
    using assms(5,6,7,9) d r
    by (simp add: processWebhook_run handle_event_def sbind_def)
  moreover have "core (dlq_rows w) l (sent w) w1"
    using process_success [OF assms(10)] by auto
  ultimately show ?thesis
    using pg.released_after_rejection [OF assms(6,7,8,9) run assms(5)] by (auto simp: core_def)
qed

text \<open>
  The Kafka consumer acknowledges every message. Its handler never throws, so a message
  whose event failed and could not be put into the dead-letter table is not delivered again,
  and the event is in no table either.
\<close>

theorem consumer_can_lose_an_event:
  assumes "decodeKafkaMessage (ap_platform ap) (ap_settings ap) raw = Inr (Obj kvs)"
    and "message_event kvs = Inr ev" "js_get kvs ''dlqItemId'' = Undef"
    and "process (ap_services ap) rq ev w = (Inl e, w1)"
    and "\<not> isDurablyAcceptedError e" "count_fault (rq_dlq rq) = None"
  shows "fst (eachMessage ap rq topic raw w) = Inr () \<and>
    dlq_rows (snd (eachMessage ap rq topic raw w)) = dlq_rows w"
proof -
  obtain cause w2 d where w2: "core (dlq_rows w) (locks w) (sent w) w2"
    and add: "add_to_dlq (ap_services ap) rq ev (exn_message cause) w2 = (Inl d, w1)"
    using process_failure [OF assms(4)] assms(5) by (auto simp: isDurablyAcceptedError_def)
  have "dlq_rows w1 = dlq_rows w2"
    using add add_Inl [OF _ assms(6)] by (auto simp: add_to_dlq_def sbind_Inl_iff)
  then have rows: "dlq_rows w1 = dlq_rows w" using w2 by (simp add: core_def)
  have "consume_body ap rq topic raw w = (Inl e, w1)"
    using assms(1-4) by (simp add: consume_body_def sbind_def)
  moreover obtain y w3 where s: "kafka_send ap (call_iv (rq_dlq rq)) (rq_send2 rq) (events_out ap)
      [(''status'', Str ''failed''), (''sourceTopic'', Str topic), (''error'', Str (exn_message e))] w1 =
      (y, w3)"
    by (cases "kafka_send ap (call_iv (rq_dlq rq)) (rq_send2 rq) (events_out ap)
      [(''status'', Str ''failed''), (''sourceTopic'', Str topic), (''error'', Str (exn_message e))] w1")
  moreover have "dlq_rows w3 = dlq_rows w"
    using preservesD [OF send_keeps_rows s] rows by simp
  ultimately show ?thesis using eachMessage_returns
    by (auto simp: eachMessage_def catch_op_def split: sum.split prod.split)
qed

text \<open>
  In asynchronous mode a write is only queued. A valid new event is answered as processed
  once Kafka has taken it; the connectors, the dead-letter table and the metrics are untouched.
\<close>

theorem async_event_is_queued:
  assumes "processing_mode ap = ''async''" "kafka_ready ap (call_iv (rq_dlq rq))" "rq_send1 rq = None"
    and "checkAndLock (ap_store ap) (rq_now rq) (event_keys ap ev) 3600 (locks w) = (Inr True, l)"
  shows "\<exists>v. processWebhook ap rq ev False w =
      (Inr \<lparr>processed = True, pr_data = Undef\<rparr>,
       w\<lparr>locks := l, sent := sent w @ [(or_else (k_events_in (ap_kafka ap)) ''idm.events.in'', v)]\<rparr>) \<and>
    encodeKafkaMessage (ap_platform ap) (ap_settings ap) (call_iv (rq_dlq rq)) (event_message ev) = Inr v"
proof -
  obtain v where "encodeKafkaMessage (ap_platform ap) (ap_settings ap) (call_iv (rq_dlq rq)) (event_message ev) = Inr v"
    "kafka_send ap (call_iv (rq_dlq rq)) None (or_else (k_events_in (ap_kafka ap)) ''idm.events.in'')
       (event_message ev) (w\<lparr>locks := l\<rparr>) =
     (Inr (), w\<lparr>locks := l, sent := sent w @ [(or_else (k_events_in (ap_kafka ap)) ''idm.events.in'', v)]\<rparr>)"
    using send_ok [OF assms(2), of "event_message ev" _ "w\<lparr>locks := l\<rparr>"] by auto
  then show ?thesis using assms
    by (simp add: processWebhook_run handle_event_def dispatch_def sbind_def kafka_ready_def
        safeWriteResponseData_def)
qed

section \<open>Witnesses\<close>

theorem redelivery_is_ignored_witness:
  "\<exists>w1 l'. snd (processWebhook (demo_app (result_fail ''down'') pg_store demo_kafka) demo_request demo_create
       False (demo_world (\<lambda>_. None))) = w1 \<and>
     processWebhook (demo_app (result_fail ''down'') pg_store demo_kafka) (demo_request\<lparr>rq_now := 5000\<rparr>)
       demo_create False (w1\<lparr>locks := idem_exec pg_store 5000 (Lock [''other''] 60) (locks w1)\<rparr>) =
     (Inr \<lparr>processed = False, pr_data = Undef\<rparr>, w1\<lparr>locks := l'\<rparr>)"
proof -
  let ?ap = "demo_app (result_fail ''down'') pg_store demo_kafka"
  obtain out w1 where run: "processWebhook ?ap demo_request demo_create False (demo_world (\<lambda>_. None)) =
      (out, w1)" and out: "out = Inl (ProcessingFailure ''down'' True (JsError ''down''))"
    using demo_durable by (metis prod.collapse)
  let ?w2 = "w1\<lparr>locks := idem_exec pg_store 5000 (Lock [''other''] 60) (locks w1)\<rparr>"
  have tr: "idem_run pg_store (rq_now demo_request) (locks w1) [(5000, Lock [''other''] 60)]
      (rq_now (demo_request\<lparr>rq_now := 5000\<rparr>)) (locks ?w2)"
    by (simp add: demo_request_def) (intro run_cons, simp_all add: run_nil)
  have "accepted_delivery pg_store ?ap demo_request demo_create False (demo_world (\<lambda>_. None)) [''avanpost:ad:e1''] w1"
    using run out by (simp add: accepted_delivery_def demo_keys demo_world_locks demo_lock isDurablyAcceptedError_def)
  moreover have "accepted_delivery pg_store ?ap demo_request demo_create False (demo_world (\<lambda>_. None)) [''avanpost:ad:e1''] w1 \<longrightarrow>
      ap_store ?ap = pg_store \<longrightarrow> event_keys ?ap demo_create = Inr [''avanpost:ad:e1''] \<longrightarrow>
      idem_run pg_store (rq_now demo_request) (locks w1) [(5000, Lock [''other''] 60)]
        (rq_now (demo_request\<lparr>rq_now := 5000\<rparr>)) (locks ?w2) \<longrightarrow>
      ignored_delivery ?ap (demo_request\<lparr>rq_now := 5000\<rparr>) demo_create False ?w2"
    by (rule redelivery_is_ignored [THEN conjunct1]) (simp_all add: demo_request_def)
  moreover have "ap_store ?ap = pg_store" by simp
  ultimately have "ignored_delivery ?ap (demo_request\<lparr>rq_now := 5000\<rparr>) demo_create False ?w2"
    using tr demo_keys by blast
  then have "\<exists>l'. processWebhook ?ap (demo_request\<lparr>rq_now := 5000\<rparr>) demo_create False ?w2 =
      (Inr \<lparr>processed = False, pr_data = Undef\<rparr>, ?w2\<lparr>locks := l'\<rparr>)"
    by (simp only: ignored_delivery_def)
  then show ?thesis using run by auto
qed

theorem rejected_event_is_released_witness:
  "\<exists>e w1. processWebhook (demo_app (result_ok Null) (redis_store True)
       (demo_kafka\<lparr>k_mode := Some ''async'', k_enabled := False\<rparr>)) demo_request demo_create False
       (demo_world (\<lambda>_. None)) = (Inl e, w1) \<and>
     fst (checkAndLock (redis_store True) 20 (Inr [''avanpost:ad:e1'']) 3600 (locks w1)) = Inr True"
proof -
  let ?ap = "demo_app (result_ok Null) (redis_store True) (demo_kafka\<lparr>k_mode := Some ''async'', k_enabled := False\<rparr>)"
  have d: "dispatch ?ap demo_request demo_create w =
      (Inl (JsError ''Async processing mode requires KAFKA_ENABLED=true''), w)" for w
    by (simp add: dispatch_def processing_mode_def)
  obtain l' where "release_keys (redis_store True) (Inr [''avanpost:ad:e1'']) [''avanpost:ad:e1'' \<mapsto> 3600010] =
      (Inr (), l')"
    using redis.delete_all_run [of "[''avanpost:ad:e1'']" "[''avanpost:ad:e1'' \<mapsto> 3600010]"]
    by (auto simp: release_keys_def simp del: delete_all.simps)
  then have run: "processWebhook ?ap demo_request demo_create False (demo_world (\<lambda>_. None)) =
      (Inl (JsError ''Async processing mode requires KAFKA_ENABLED=true''), demo_world l')"
    by (simp add: processWebhook_run demo_keys demo_lock demo_world_locks handle_event_def sbind_def d
        isDurablyAcceptedError_def)
  have "fst (checkAndLock (redis_store True) 20 (Inr [''avanpost:ad:e1'']) 3600 (locks (demo_world l'))) = Inr True"
    by (rule rejected_event_is_released [OF demo_keys _ _ _ run])
      (simp_all add: demo_world_locks demo_lock isDurablyAcceptedError_def)
  with run show ?thesis by blast
qed

lemma demo_process_success:
  "process (demo_services (result_ok Null)) demo_request (demo_event op) (demo_world l) =
     (Inr (result_ok Null), (demo_world l)\<lparr>external := 1,
        dlq_metrics := recordEvent 10 ''success'' ''ad'' init_metrics\<rparr>)"
  by (simp add: process_def catch_op_def sbind_def demo_execute on_metrics_def)
    (simp add: result_ok_def demo_world_def demo_event_def demo_request_def)

theorem failed_status_message_unlocks_executed_event_witness:
  "\<exists>w2 v. processWebhook (demo_app (result_ok Null) pg_store demo_kafka)
       (demo_request\<lparr>rq_send1 := Some (JsError ''broker down'')\<rparr>) demo_create False (demo_world (\<lambda>_. None)) =
     (Inl (JsError ''broker down''), w2) \<and> external w2 = 1 \<and> dlq_rows w2 = [] \<and>
     sent w2 = [(''idm.events.out'', v)] \<and>
     fst (checkAndLock pg_store 30 (Inr [''avanpost:ad:e1'']) 3600 (locks w2)) = Inr True"
proof -
  let ?ap = "demo_app (result_ok Null) pg_store demo_kafka"
  let ?w = "demo_world (\<lambda>_. None) :: (key_table, nat) world"
  let ?rq = "demo_request\<lparr>rq_send1 := Some (JsError ''broker down'')\<rparr>"
  let ?l = "pg_write 10 ''avanpost:ad:e1'' 3600010 (\<lambda>_. None)"
  have "process (ap_services ?ap) ?rq ev w = process (ap_services ?ap) demo_request ev w" for ev
    and w :: "(key_table, nat) world"
    by (cases "registry_get (sv_registry (ap_services ?ap)) (ev_targetSystem ev)")
      (simp_all add: process_def executeWithRetry_def add_to_dlq_def)
  then have p: "process (ap_services ?ap) ?rq demo_create ((demo_world (\<lambda>_. None))\<lparr>locks := ?l\<rparr>) =
      (Inr (result_ok Null), (demo_world ?l)\<lparr>external := 1,
         dlq_metrics := recordEvent 10 ''success'' ''ad'' init_metrics\<rparr>)"
    by (simp add: demo_world_locks demo_create_def demo_process_success)
  have "events_out ?ap = ''idm.events.out''" by (simp add: events_out_def demo_kafka_def)
  moreover have "\<exists>w2 v. processWebhook ?ap ?rq demo_create False (demo_world (\<lambda>_. None)) =
      (Inl (JsError ''broker down''), w2) \<and>
      external w2 = external ((demo_world ?l)\<lparr>external := 1,
         dlq_metrics := recordEvent 10 ''success'' ''ad'' init_metrics\<rparr>) \<and>
      dlq_rows w2 = dlq_rows ?w \<and> sent w2 = sent ?w @ [(events_out ?ap, v)] \<and>
      fst (checkAndLock pg_store 30 (Inr [''avanpost:ad:e1'']) 3600 (locks w2)) = Inr True"
    by (rule failed_status_message_unlocks_executed_event [OF _ demo_kafka_ready _ _ _ _ demo_keys _ _ p])
      (simp_all add: demo_sync demo_world_locks demo_lock isDurablyAcceptedError_def)
  ultimately show ?thesis by (simp add: demo_world_def)
qed

definition parsing_app :: "(unit, nat) app" where
  "parsing_app =
     (demo_app (result_ok Null) \<lparr>st_exists = (\<lambda>_ _. ret False), st_set = (\<lambda>_ _ _. ret True),
        st_delete = (\<lambda>_. ret ())\<rparr> demo_kafka)
       \<lparr>ap_services := \<lparr>sv_dlq = demo_env\<lparr>env_platform :=
            demo_platform\<lparr>json_parse := (\<lambda>_. Some (Obj (event_message demo_create)))\<rparr>\<rparr>,
          sv_registry = \<lparr>connectors = [], staticConnectors = [], lastRegistryVersion = None\<rparr>\<rparr>\<rparr>"

theorem consumer_can_lose_an_event_witness:
  "fst (eachMessage parsing_app
      (demo_request\<lparr>rq_dlq := (demo_call 10)\<lparr>write_fault := Some (PrismaError ''P1001'' ''gone'')\<rparr>\<rparr>)
      ''idm.events.in'' ''raw'' (demo_world ())) = Inr () \<and>
   dlq_rows (snd (eachMessage parsing_app
      (demo_request\<lparr>rq_dlq := (demo_call 10)\<lparr>write_fault := Some (PrismaError ''P1001'' ''gone'')\<rparr>\<rparr>)
      ''idm.events.in'' ''raw'' (demo_world ()))) = dlq_rows (demo_world () :: (unit, nat) world)"
proof -
  let ?rq = "demo_request\<lparr>rq_dlq := (demo_call 10)\<lparr>write_fault := Some (PrismaError ''P1001'' ''gone'')\<rparr>\<rparr>"
  let ?sv = "ap_services parsing_app"
  have run: "executeWithRetry ?sv ?rq demo_create (demo_world ()) =
      (Inl (unsupported_target ''ad''), demo_world ())"
    by (simp add: executeWithRetry_def parsing_app_def registry_get_def demo_create_def demo_event_def)
  have add: "\<exists>d w'. add_to_dlq ?sv ?rq demo_create msg w = (Inl d, w')" for msg
    and w :: "(unit, nat) world"
    by (cases "target_policy (sv_dlq ?sv) (ev_targetSystem demo_create)")
      (auto simp: add_to_dlq_def dlq_add_def sbind_def split: prod.split sum.split)
  obtain d w1 where "add_to_dlq ?sv ?rq demo_create (exn_message (unsupported_target ''ad''))
      ((demo_world ())\<lparr>dlq_metrics := recordEvent (rq_now ?rq) ''failed''
         (ev_targetSystem demo_create) (dlq_metrics (demo_world () :: (unit, nat) world))\<rparr>) = (Inl d, w1)"
    using add by blast
  then obtain m where p: "process ?sv ?rq demo_create (demo_world ()) =
      (Inl (ProcessingFailure m False (unsupported_target ''ad'')), w1)"
    unfolding process_of_failure [OF run] by (simp only: prod.case sum.case)
  show ?thesis
  proof (rule consumer_can_lose_an_event [OF _ _ _ p])
    show "decodeKafkaMessage (ap_platform parsing_app) (ap_settings parsing_app) ''raw'' =
        Inr (Obj (event_message demo_create))"
      by (simp add: decodeKafkaMessage_def parse_json_def ap_platform_def parsing_app_def isEnvelope_def
          event_message_def js_get_def)
    show "message_event (event_message demo_create) = Inr demo_create"
      by (simp add: message_event_def event_message_def js_get_def)
  qed (simp_all add: event_message_def js_get_def isDurablyAcceptedError_def demo_call_def)
qed

theorem async_event_is_queued_witness:
  "\<exists>v. processWebhook (demo_app (result_ok Null) pg_store (demo_kafka\<lparr>k_mode := Some ''async''\<rparr>)) demo_request
      demo_create False (demo_world (\<lambda>_. None)) =
    (Inr \<lparr>processed = True, pr_data = Undef\<rparr>,
     (demo_world (\<lambda>_. None))\<lparr>locks := pg_write 10 ''avanpost:ad:e1'' 3600010 (\<lambda>_. None),
       sent := [(''idm.events.in'', v)]\<rparr>)"
proof -
  let ?ap = "demo_app (result_ok Null) pg_store (demo_kafka\<lparr>k_mode := Some ''async''\<rparr>)"
  have "kafka_ready ?ap iv" for iv
    by (simp add: kafka_ready_def demo_kafka_def encodeKafkaMessage_def)
  then have "\<exists>v. processWebhook ?ap demo_request demo_create False (demo_world (\<lambda>_. None)) =
      (Inr \<lparr>processed = True, pr_data = Undef\<rparr>,
       (demo_world (\<lambda>_. None))\<lparr>locks := pg_write 10 ''avanpost:ad:e1'' 3600010 (\<lambda>_. None),
         sent := sent (demo_world (\<lambda>_. None) :: (key_table, nat) world) @
           [(or_else (k_events_in (ap_kafka ?ap)) ''idm.events.in'', v)]\<rparr>) \<and>
      encodeKafkaMessage (ap_platform ?ap) (ap_settings ?ap) (call_iv (rq_dlq demo_request))
        (event_message demo_create) = Inr v"
    by (intro async_event_is_queued)
      (simp_all add: processing_mode_def demo_sync demo_keys demo_world_locks demo_lock)
  then show ?thesis by (auto simp: demo_world_def demo_kafka_def)
qed

section \<open>From the queue to the worker, and the identity of events\<close>

lemma message_event_roundtrip: "message_event (event_message ev) = Inr ev"
  by (simp add: message_event_def event_message_def js_get_def)

lemma event_message_not_envelope: "\<not> isEnvelope (Obj (event_message ev))"
  by (simp add: isEnvelope_def event_message_def js_get_def)

text \<open>
  A queued event reaches the worker as it was sent. What the dispatcher puts on the topic,
  encrypted or not, is decoded by a consumer, also by one with a rotated key ring that still
  holds the sender's key, to exactly the event that was dispatched. The hypotheses are that
  AES-GCM opens what it sealed and that the two JSON values survive printing and parsing.
\<close>

theorem queued_event_reaches_worker:
  assumes "encodeKafkaMessage P cfg iv (event_message ev) = Inr raw"
    and "\<And>a. activeKeyId cfg = Inr a \<Longrightarrow> requireKey P cfg' a = requireKey P cfg a"
    and "\<And>k pt. gcm_open P k iv (fst (gcm_seal P k iv pt)) (snd (gcm_seal P k iv pt)) = Some pt"
    and "json_parse P (json_print P (Obj (event_message ev))) = Some (Obj (event_message ev))"
    and "\<And>env. encryptObject P cfg iv (Obj (event_message ev)) = Inr env \<Longrightarrow>
      json_parse P (json_print P env) = Some env"
  shows "ebind (decodeKafkaMessage P cfg' raw) (\<lambda>v. message_event (as_obj v)) = Inr ev"
proof (cases "isKafkaEncryptionEnabled cfg")
  case True
  then obtain env where enc: "encryptObject P cfg iv (Obj (event_message ev)) = Inr env"
    and raw: "raw = json_print P env"
    using assms(1) by (auto simp: encodeKafkaMessage_def ebind_Inr_iff)
  have dec: "decryptFromStorage P cfg' env = Inr (Obj (event_message ev))"
    by (rule decrypt_encrypted [OF enc assms(2,3,4)])
  have "isEnvelope env" using enc by (auto simp: encryptObject_Inr)
  moreover from this have "decryptObject P cfg' (as_obj env) = Inr (Obj (event_message ev))"
    using dec by (auto simp: decryptFromStorage_def nullish_def isEnvelope_def split: if_splits)
  ultimately show ?thesis
    by (simp add: decodeKafkaMessage_def parse_json_def raw assms(5) [OF enc] message_event_roundtrip)
next
  case False
  then have "raw = json_print P (Obj (event_message ev))"
    using assms(1) by (simp add: encodeKafkaMessage_def)
  then show ?thesis
    by (simp add: decodeKafkaMessage_def parse_json_def assms(4) event_message_not_envelope
        message_event_roundtrip)
qed

theorem queued_event_reaches_worker_witness:
  "ebind (decodeKafkaMessage (demo_platform\<lparr>json_parse := (\<lambda>_. Some (Obj (event_message demo_create)))\<rparr>)
      plain_settings ''E'') (\<lambda>v. message_event (as_obj v)) = Inr demo_create"
proof (rule queued_event_reaches_worker [of _ plain_settings "''iv''"])
  let ?P = "demo_platform\<lparr>json_parse := (\<lambda>_. Some (Obj (event_message demo_create)))\<rparr>"
  show "encodeKafkaMessage ?P plain_settings ''iv'' (event_message demo_create) = Inr ''E''"
    by (simp add: encodeKafkaMessage_def demo_platform_def)
  have "activeKeyId plain_settings \<noteq> Inr a" for a
    by (simp add: activeKeyId_def readText_def readString_def plain_settings_def)
  then show "\<And>env. encryptObject ?P plain_settings ''iv'' (Obj (event_message demo_create)) = Inr env \<Longrightarrow>
      json_parse ?P (json_print ?P env) = Some env"
    by (simp add: encryptObject_def ebind_Inr_iff)
qed (simp_all add: demo_platform_def)

text \<open>
  Which events share a lock. Two events have the same idempotency key exactly when their
  target systems and event ids agree, as long as the names of the target systems have no
  colon; with a colon in a name, different events can collide.
\<close>

theorem idempotency_key_identifies_event:
  assumes "CHR '':'' \<notin> set (ev_targetSystem ev)" "CHR '':'' \<notin> set (ev_targetSystem ev')"
  shows "idempotencyKey ev = idempotencyKey ev' \<longleftrightarrow>
    ev_targetSystem ev = ev_targetSystem ev' \<and> ev_eventId ev = ev_eventId ev'"
proof -
  have "x @ CHR '':'' # y = x' @ CHR '':'' # y' \<longleftrightarrow> x = x' \<and> y = y'"
    if "CHR '':'' \<notin> set x" "CHR '':'' \<notin> set x'" for x y x' y'
    using that by (auto simp: append_eq_append_conv2 append_eq_Cons_conv Cons_eq_append_conv)
  from this [OF assms] show ?thesis by (simp add: idempotencyKey_def)
qed

theorem idempotency_key_identifies_event_witness:
  "idempotencyKey demo_create \<noteq> idempotencyKey (demo_create\<lparr>ev_eventId := ''e2''\<rparr>) \<and>
   idempotencyKey (demo_create\<lparr>ev_targetSystem := ''a:b'', ev_eventId := ''c''\<rparr>) =
   idempotencyKey (demo_create\<lparr>ev_targetSystem := ''a'', ev_eventId := ''b:c''\<rparr>)"
  using idempotency_key_identifies_event [of demo_create "demo_create\<lparr>ev_eventId := ''e2''\<rparr>"]
  by (simp add: demo_create_def demo_event_def) (simp add: idempotencyKey_def)

end
