(* ===== verification/GroupMapping.thy ===== *)
theory GroupMapping
  imports JsNumber
begin

text \<open>
  Models \<open>connectors/group-mapping.util.ts\<close>: how a connector reads the group references of a
  request and its own group settings. A result of type \<open>string | number\<close> is a \<open>group_value\<close>;
  a number is finite there.
\<close>

section \<open>Settings\<close>

datatype group_mode = ById | ByName | ByCode

fun mode_key :: "group_mode \<Rightarrow> string" where
  "mode_key ById = ''id''"
| "mode_key ByName = ''name''"
| "mode_key ByCode = ''code''"

record group_settings =
  gs_enabled :: bool
  gs_mode :: group_mode

definition blank :: "jsval \<Rightarrow> bool" where
  "blank v \<longleftrightarrow> v = Undef \<or> v = Null \<or> v = Str []"

definition booleanConfig :: "jsval \<Rightarrow> bool" where
  "booleanConfig v =
     (case v of
        Bool b \<Rightarrow> b
      | Str s \<Rightarrow> to_lower (trim s) \<in> {''true'', ''1'', ''yes'', ''on''}
      | _ \<Rightarrow> False)"

definition bad_mode :: exn where
  "bad_mode = JsError ''Invalid groupMappingMode: expected id, name or code''"

definition groupMappingMode :: "jsval \<Rightarrow> group_mode result" where
  "groupMappingMode v =
     (if blank v then Inr ByName
      else case v of
        Str s \<Rightarrow>
          (let normalized = to_lower (trim s) in
           if normalized = ''id'' then Inr ById
           else if normalized = ''name'' then Inr ByName
           else if normalized = ''code'' then Inr ByCode
           else Inl bad_mode)
      | _ \<Rightarrow> Inl bad_mode)"

definition groupMappingSettings :: "obj \<Rightarrow> group_settings result" where
  "groupMappingSettings config =
     ebind (groupMappingMode (js_get config ''groupMappingMode'')) (\<lambda>m.
       Inr \<lparr>gs_enabled = booleanConfig (js_get config ''groupMappingEnabled''), gs_mode = m\<rparr>)"

section \<open>Group references\<close>

datatype group_value = GStr string | GNum rat

definition text_value :: "string \<Rightarrow> group_value option" where
  "text_value s = (if trim s = [] then None else Some (GStr (trim s)))"

definition scalarGroupValue :: "jsval \<Rightarrow> string \<Rightarrow> group_value option result" where
  "scalarGroupValue v fieldName =
     (if blank v then Inr None
      else case v of
        Str s \<Rightarrow> Inr (text_value s)
      | Num (Fin r) \<Rightarrow> Inr (Some (GNum r))
      | _ \<Rightarrow> Inl (JsError (''Invalid '' @ fieldName @ '': expected string or number'')))"

definition bad_item :: "string \<Rightarrow> exn" where
  "bad_item fieldName =
     JsError (''Invalid '' @ fieldName @ '' item: expected string, number or object with id/name/code'')"

definition groupRefValue :: "jsval \<Rightarrow> group_mode \<Rightarrow> string \<Rightarrow> group_value option result" where
  "groupRefValue v mode fieldName =
     (case v of
        Str s \<Rightarrow> Inr (text_value s)
      | Num (Fin r) \<Rightarrow> Inr (Some (GNum r))
      | Obj kvs \<Rightarrow>
          (let field = fieldName @ ''.'' @ mode_key mode in
           ebind (scalarGroupValue (js_get kvs (mode_key mode)) field) (\<lambda>selected.
             case selected of
               None \<Rightarrow> Inl (JsError (''Invalid '' @ field @ '': expected string or number''))
             | Some g \<Rightarrow> Inr (Some g)))
      | _ \<Rightarrow> Inl (bad_item fieldName))"

text \<open>\<open>a ?? b\<close> evaluates \<open>b\<close>, which may throw, only when \<open>a\<close> is undefined.\<close>

definition or_next :: "'a option result \<Rightarrow> 'a option result \<Rightarrow> 'a option result" where
  "or_next a b = ebind a (\<lambda>x. case x of None \<Rightarrow> b | Some g \<Rightarrow> Inr (Some g))"

definition directGroupValue :: "jsval \<Rightarrow> string \<Rightarrow> group_value option result" where
  "directGroupValue v fieldName =
     (case v of
        Str s \<Rightarrow> Inr (text_value s)
      | Num (Fin r) \<Rightarrow> Inr (Some (GNum r))
      | Obj kvs \<Rightarrow>
          or_next (scalarGroupValue (js_get kvs ''id'') (fieldName @ ''.id''))
            (or_next (scalarGroupValue (js_get kvs ''name'') (fieldName @ ''.name''))
              (scalarGroupValue (js_get kvs ''code'') (fieldName @ ''.code'')))
      | _ \<Rightarrow> Inl (bad_item fieldName))"

definition present :: "'a option list \<Rightarrow> 'a list" where
  "present xs = map the (filter (\<lambda>x. x \<noteq> None) xs)"

definition group_list :: "(jsval \<Rightarrow> group_value option result) \<Rightarrow> jsval \<Rightarrow> string \<Rightarrow> group_value list result" where
  "group_list f values fieldName =
     (if blank values then Inr []
      else case values of
        Arr xs \<Rightarrow> ebind (map_exn f xs) (\<lambda>vs. Inr (present vs))
      | _ \<Rightarrow> Inl (JsError (''Invalid '' @ fieldName @ '': expected array'')))"

definition groupRefValues :: "jsval \<Rightarrow> group_mode \<Rightarrow> string \<Rightarrow> group_value list result" where
  "groupRefValues values mode fieldName =
     group_list (\<lambda>v. groupRefValue v mode fieldName) values fieldName"

definition directGroupValues :: "jsval \<Rightarrow> string \<Rightarrow> group_value list result" where
  "directGroupValues values fieldName = group_list (\<lambda>v. directGroupValue v fieldName) values fieldName"

section \<open>What the references denote\<close>

fun proper :: "group_value \<Rightarrow> bool" where
  "proper (GStr s) = (s \<noteq> [] \<and> trim s = s)"
| "proper (GNum r) = True"

lemma text_value_proper: "text_value s = Some g \<Longrightarrow> proper g"
  by (auto simp: text_value_def trim_idem split: if_splits)

lemma scalar_proper: "scalarGroupValue v f = Inr (Some g) \<Longrightarrow> proper g"
  by (auto simp: scalarGroupValue_def text_value_proper split: if_splits jsval.splits jsnum.splits)

lemma ref_proper: "groupRefValue v mode f = Inr (Some g) \<Longrightarrow> proper g"
  by (auto simp: groupRefValue_def text_value_proper ebind_Inr_iff Let_def dest: scalar_proper
      split: jsval.splits jsnum.splits option.splits)

lemma direct_proper: "directGroupValue v f = Inr (Some g) \<Longrightarrow> proper g"
  by (auto simp: directGroupValue_def text_value_proper ebind_Inr_iff or_next_def dest: scalar_proper
      split: jsval.splits jsnum.splits option.splits)

lemma map_exn_origin: "map_exn f xs = Inr ys \<Longrightarrow> y \<in> set ys \<Longrightarrow> \<exists>x. f x = Inr y"
  by (induction xs arbitrary: ys) (auto simp: ebind_Inr_iff)

lemma group_list_proper:
  assumes "\<And>v g. f v = Inr (Some g) \<Longrightarrow> proper g" and "group_list f values field = Inr gs"
  shows "\<forall>g \<in> set gs. proper g"
proof
  fix g assume g: "g \<in> set gs"
  then have "gs \<noteq> []" by auto
  with assms(2) obtain xs vs where "map_exn f xs = Inr vs" and gs: "gs = present vs"
    by (cases "values") (auto simp: group_list_def ebind_Inr_iff split: if_splits)
  moreover from g gs have "Some g \<in> set vs" by (auto simp: present_def)
  ultimately show "proper g" using map_exn_origin assms(1) by metis
qed

text \<open>The group references of a request, read in either way, are numbers or trimmed
  non-empty names: a blank entry is dropped, and any other value is an error.\<close>

theorem group_references_are_proper:
  assumes "groupRefValues values mode field = Inr gs \<or> directGroupValues values field = Inr gs"
  shows "\<forall>g \<in> set gs. proper g"
  using assms
  by (auto simp: groupRefValues_def directGroupValues_def
      dest!: group_list_proper [rotated] intro: ref_proper direct_proper)

theorem group_references_are_proper_witness:
  "groupRefValues (Arr [Str '' ops '', Str '' '', num 7, Obj [(''id'', num 3)]]) ById ''groups'' =
     Inr [GStr ''ops'', GNum 7, GNum 3] \<and> (\<forall>g \<in> set [GStr ''ops'', GNum 7, GNum 3]. proper g)"
proof -
  have run: "groupRefValues (Arr [Str '' ops '', Str '' '', num 7, Obj [(''id'', num 3)]]) ById ''groups'' =
     Inr [GStr ''ops'', GNum 7, GNum 3]"
    by (simp add: groupRefValues_def group_list_def blank_def groupRefValue_def text_value_def trim_def
        scalarGroupValue_def js_get_def present_def)
  with group_references_are_proper [OF disjI1 [OF run]] show ?thesis by blast
qed

end
