(* ===== verification/SecretRedaction.thy ===== *)
theory SecretRedaction
  imports Prelude
begin

text \<open>
  Models \<open>security/secret-redaction.ts\<close> (which keys hold secrets, the masking of a
  configuration before it is shown, and the merge of an edited configuration with the
  stored one), and the redaction of \<open>diagnostics/diagnostic-logger.service.ts\<close>.

  The locale \<open>redactor\<close> states what the two masking functions share; both are
  interpretations of it.
\<close>

section \<open>Secret keys\<close>

definition SECRET_REDACTION_CENSOR :: string where
  "SECRET_REDACTION_CENSOR = ''[REDACTED]''"

definition MASKED_SECRET_VALUE :: string where
  "MASKED_SECRET_VALUE = ''***''"

text \<open>
  The pattern \<open>SECRET_KEY_RE\<close> is \<open>(^|[_\-.])(w1|...|wn)$\<close> with the \<open>i\<close> flag. A word
  \<open>a[-_]?b\<close> stands for three spellings. The camel-case alternatives of the pattern
  (\<open>connectionString\<close>, \<open>apiKey\<close>, ...) are, without case, the spelling with no separator.
\<close>

definition spellings :: "string \<Rightarrow> string \<Rightarrow> string list" where
  "spellings a b = [a @ b, a @ ''-'' @ b, a @ ''_'' @ b]"

definition secret_words :: "string list" where
  "secret_words =
     [''password'', ''passwd'', ''pwd'', ''token'', ''secret'', ''authorization'', ''cookie'',
      ''credential''] @
     concat [spellings ''connection'' ''string'', spellings ''api'' ''key'',
       spellings ''api'' ''token'', spellings ''access'' ''token'',
       spellings ''refresh'' ''token'', spellings ''master'' ''key''] @
     concat (map (\<lambda>w. [w @ ''hash'', w @ ''-hash'', w @ ''_hash'']) (spellings ''master'' ''key'')) @
     concat [spellings ''private'' ''key'', spellings ''wallet'' ''password''] @
     [''cert'', ''ca'', ''pem'', ''key''] @
     concat [spellings ''new'' ''value'', spellings ''old'' ''value''] @ [''value'']"

text \<open>
  A word matched backwards from the end of the key: the whole word, then the start of the
  key or one of the three separators.
\<close>

fun match_back :: "string \<Rightarrow> string \<Rightarrow> bool" where
  "match_back [] [] = True"
| "match_back [] (c # cs) = (c = CHR ''_'' \<or> c = CHR ''-'' \<or> c = CHR ''.'')"
| "match_back (w # ws) [] = False"
| "match_back (w # ws) (c # cs) = (w = c \<and> match_back ws cs)"

definition isSecretKey :: "string \<Rightarrow> bool" where
  "isSecretKey key = list_ex (\<lambda>w. match_back (rev w) (rev (to_lower key))) secret_words"

lemma isSecretKey_eval:
  "isSecretKey key = list_ex (\<lambda>w. match_back w (rev (to_lower key)))
      [''drowssap'', ''dwssap'', ''dwp'', ''nekot'', ''terces'', ''noitazirohtua'', ''eikooc'',
       ''laitnederc'', ''gnirtsnoitcennoc'', ''gnirts-noitcennoc'', ''gnirts_noitcennoc'',
       ''yekipa'', ''yek-ipa'', ''yek_ipa'', ''nekotipa'', ''nekot-ipa'', ''nekot_ipa'',
       ''nekotssecca'', ''nekot-ssecca'', ''nekot_ssecca'', ''nekothserfer'', ''nekot-hserfer'', ''nekot_hserfer'', ''yekretsam'', ''yek-retsam'', ''yek_retsam'',
       ''hsahyekretsam'', ''hsah-yekretsam'', ''hsah_yekretsam'', ''hsahyek-retsam'', ''hsah-yek-retsam'', ''hsah_yek-retsam'', ''hsahyek_retsam'', ''hsah-yek_retsam'',
       ''hsah_yek_retsam'', ''yeketavirp'', ''yek-etavirp'', ''yek_etavirp'',
       ''drowssaptellaw'', ''drowssap-tellaw'', ''drowssap_tellaw'', ''trec'', ''ac'', ''mep'',
       ''yek'', ''eulavwen'', ''eulav-wen'', ''eulav_wen'', ''eulavdlo'', ''eulav-dlo'',
       ''eulav_dlo'', ''eulav'']"
  by (simp add: isSecretKey_def secret_words_def spellings_def)

lemmas secret_eval = isSecretKey_eval to_lower_def

text \<open>The backwards match is the suffix the pattern asks for.\<close>

lemma match_back_suffix:
  "match_back (rev w) (rev s) \<longleftrightarrow>
     s = w \<or> (\<exists>p c. s = p @ [c] @ w \<and> (c = CHR ''_'' \<or> c = CHR ''-'' \<or> c = CHR ''.''))"
proof -have "match_back u t \<longleftrightarrow>
     t = u \<or> (\<exists>q c. t = u @ c # q \<and> (c = CHR ''_'' \<or> c = CHR ''-'' \<or> c = CHR ''.''))" for u t
    by (induction u t rule: match_back.induct) auto
  from this [of "rev w" "rev s"] show ?thesis
    by (auto simp: rev_swap) (metis rev.simps(2) rev_append rev_rev_ident append_assoc)+
qed

definition MASKED_PLACEHOLDERS :: "string list" where
  "MASKED_PLACEHOLDERS = [MASKED_SECRET_VALUE, ''*** preserved ***'', SECRET_REDACTION_CENSOR]"

definition isMaskedSecretValue :: "jsval \<Rightarrow> bool" where
  "isMaskedSecretValue v =
     (case v of Str s \<Rightarrow> trim s \<in> set MASKED_PLACEHOLDERS | _ \<Rightarrow> False)"

lemma masked_value_is_masked [simp]: "isMaskedSecretValue (Str MASKED_SECRET_VALUE)"
  by code_simp

section \<open>Masking\<close>

fun redactSecrets :: "jsval \<Rightarrow> jsval" where
  "redactSecrets (Arr xs) = Arr (map redactSecrets xs)"
| "redactSecrets (Obj kvs) =
     Obj (map (\<lambda>e. (fst e, if isSecretKey (fst e) then Str MASKED_SECRET_VALUE
                            else redactSecrets (snd e))) kvs)"
| "redactSecrets v = v"

text \<open>
  \<open>DiagnosticLoggerService.redact\<close>: with \<open>keepStructure\<close> it censors like \<open>redactSecrets\<close>
  (with another censor); without, every nested object or array is omitted.
\<close>

fun diag_redact :: "bool \<Rightarrow> jsval \<Rightarrow> jsval" where
  "diag_redact keep (Arr xs) = Arr (map (diag_redact keep) xs)"
| "diag_redact keep (Obj kvs) =
     Obj (map (\<lambda>e. (fst e,
       if isSecretKey (fst e) then Str SECRET_REDACTION_CENSOR
       else if \<not> keep \<and> (case snd e of Arr _ \<Rightarrow> True | Obj _ \<Rightarrow> True | _ \<Rightarrow> False)
         then Str ''[omitted]''
       else diag_redact keep (snd e))) kvs)"
| "diag_redact keep v = v"

text \<open>
  Every value held under a secret key, at any depth: what a reader of the value could
  learn that the masking must hide.
\<close>

fun secret_leaves :: "jsval \<Rightarrow> jsval list" where
  "secret_leaves (Arr xs) = concat (map secret_leaves xs)"
| "secret_leaves (Obj kvs) =
     concat (map (\<lambda>e. if isSecretKey (fst e) then [snd e] else secret_leaves (snd e)) kvs)"
| "secret_leaves v = []"

text \<open>Two values that differ in nothing but what their secret keys hold.\<close>

fun eq_but_secrets :: "jsval \<Rightarrow> jsval \<Rightarrow> bool" where
  "eq_but_secrets (Arr xs) w =
     (case w of Arr ys \<Rightarrow> list_all2 eq_but_secrets xs ys | _ \<Rightarrow> False)"
| "eq_but_secrets (Obj kvs) w =
     (case w of
        Obj kws \<Rightarrow>
          list_all2 (\<lambda>e f. fst e = fst f \<and>
            (isSecretKey (fst e) \<or> eq_but_secrets (snd e) (snd f))) kvs kws
      | _ \<Rightarrow> False)"
| "eq_but_secrets v w = (v = w)"

locale redactor =
  fixes red :: "jsval \<Rightarrow> jsval" and censor :: jsval
  assumes red_arr: "red (Arr xs) = Arr (map red xs)"
    and red_obj: "red (Obj kvs) =
      Obj (map (\<lambda>e. (fst e, if isSecretKey (fst e) then censor else red (snd e))) kvs)"
    and red_prim: "(\<And>xs. v \<noteq> Arr xs) \<Longrightarrow> (\<And>kvs. v \<noteq> Obj kvs) \<Longrightarrow> red v = v"
begin

lemma red_atoms [simp]:
  "red Undef = Undef" "red Null = Null" "red (Bool b) = Bool b" "red (Num n) = Num n"
  "red (Str s) = Str s"
  by (simp_all add: red_prim)

lemma leaves_censored: "set (secret_leaves (red v)) \<subseteq> {censor}"
proof (induction v)
  case (Arr xs)
  then show ?case by (auto simp: red_arr)
next
  case (Obj kvs)
  then show ?case by (fastforce simp: red_obj split: if_splits)
qed auto

lemma red_noninterference: "eq_but_secrets v w \<Longrightarrow> red v = red w"
proof (induction v w rule: eq_but_secrets.induct)
  case (1 xs w)
  then obtain ys where w: "w = Arr ys" and all: "list_all2 eq_but_secrets xs ys"
    by (auto split: jsval.splits)
  have "list_all2 (\<lambda>x y. red x = red y) xs ys"
    by (rule list.rel_mono_strong [OF all]) (use 1 w in blast)
  then have "map red xs = map red ys" by (simp add: list.rel_map list.rel_eq [symmetric])
  with w show ?case by (simp add: red_arr)
next
  case (2 kvs w)
  then obtain kws where w: "w = Obj kws"
    and all: "list_all2 (\<lambda>e f. fst e = fst f \<and>
      (isSecretKey (fst e) \<or> eq_but_secrets (snd e) (snd f))) kvs kws"
    by (auto split: jsval.splits)
  have "list_all2 (\<lambda>e f. (fst e, if isSecretKey (fst e) then censor else red (snd e))
      = (fst f, if isSecretKey (fst f) then censor else red (snd f))) kvs kws"
    by (rule list.rel_mono_strong [OF all]) (use 2 w in auto)
  then show ?case
    by (simp add: w red_obj list.rel_map list.rel_eq [symmetric])
qed auto

lemma red_idem:
  assumes "red censor = censor"
  shows "red (red v) = red v"
proof (induction v)
  case (Arr xs)
  then show ?case by (simp add: red_arr)
next
  case (Obj kvs)
  then show ?case by (force simp: red_obj assms)
qed auto

end

interpretation public: redactor redactSecrets "Str MASKED_SECRET_VALUE"
proof unfold_locales
  fix v assume "\<And>xs. v \<noteq> Arr xs" "\<And>kvs. v \<noteq> Obj kvs"
  then show "redactSecrets v = v" by (cases v) auto
qed auto

interpretation verbose: redactor "diag_redact True" "Str SECRET_REDACTION_CENSOR"
proof unfold_locales
  fix v assume "\<And>xs. v \<noteq> Arr xs" "\<And>kvs. v \<noteq> Obj kvs"
  then show "diag_redact True v = v" by (cases v) auto
qed auto

section \<open>Merging an edited configuration with the stored one\<close>

text \<open>
  The loop of \<open>mergeConfigPreservingSecrets\<close> over the entries of \<open>current\<close>; \<open>merged\<close>
  starts as a copy of \<open>incoming\<close> and is written in place.
\<close>

function merge_loop :: "obj \<Rightarrow> obj \<Rightarrow> obj \<Rightarrow> obj" where
  "merge_loop [] incoming merged = merged"
| "merge_loop ((key, currentValue) # rest) incoming merged =
     merge_loop rest incoming
       (if isSecretKey key
        then (if \<not> has_key incoming key \<or> isMaskedSecretValue (js_get incoming key)
              then js_set key currentValue merged else merged)
        else (case js_get incoming key of
                Obj iv \<Rightarrow> (case currentValue of
                    Obj cv \<Rightarrow> js_set key (Obj (merge_loop cv iv iv)) merged
                  | _ \<Rightarrow> merged)
              | _ \<Rightarrow> merged))"
  by pat_completeness auto
termination
  by (relation "measure (\<lambda>(cur, inc, m). size_list (size_prod (\<lambda>x. 0) size) cur)") auto

definition mergeConfigPreservingSecrets :: "obj \<Rightarrow> obj \<Rightarrow> obj" where
  "mergeConfigPreservingSecrets current incoming = merge_loop current incoming incoming"

text \<open>What the loop writes for one key of \<open>current\<close>, and that it writes no other.\<close>

definition merged_entry :: "obj \<Rightarrow> string \<Rightarrow> jsval \<Rightarrow> jsval option" where
  "merged_entry incoming key currentValue =
     (if isSecretKey key
      then (if \<not> has_key incoming key \<or> isMaskedSecretValue (js_get incoming key)
            then Some currentValue else None)
      else (case (js_get incoming key, currentValue) of
              (Obj iv, Obj cv) \<Rightarrow> Some (Obj (mergeConfigPreservingSecrets cv iv))
            | _ \<Rightarrow> None))"

lemma merge_loop_Cons:
  "merge_loop ((key, cv) # rest) inc m =
     merge_loop rest inc (case merged_entry inc key cv of None \<Rightarrow> m | Some v \<Rightarrow> js_set key v m)"
  by (simp add: merged_entry_def mergeConfigPreservingSecrets_def split: jsval.split)

lemma merge_loop_lookup:
  "distinct (map fst cur) \<Longrightarrow>
   map_of (merge_loop cur inc m) k =
     (case map_of cur k of
        None \<Rightarrow> map_of m k
      | Some cv \<Rightarrow> (case merged_entry inc k cv of None \<Rightarrow> map_of m k | Some v \<Rightarrow> Some v))"
proof (induction cur arbitrary: m)
  case Nil
  then show ?case by simp
next
  case (Cons e cur)
  obtain key cv where e: "e = (key, cv)" by (cases e)
  with Cons.prems have notin: "map_of cur key = None" and d: "distinct (map fst cur)"
    by (auto simp: map_of_eq_None_iff)
  show ?case
  proof (cases "key = k")
    case True
    with notin show ?thesis
      by (simp add: e merge_loop_Cons Cons.IH [OF d] map_of_js_set
          del: merge_loop.simps split: option.split)
  next
    case False
    then show ?thesis
      by (simp add: e merge_loop_Cons Cons.IH [OF d] map_of_js_set
          del: merge_loop.simps split: option.split)
  qed
qed

text \<open>
  An edit that leaves the masks in place is a no-op only where the masks sit under object
  keys. A secret inside an array is lost: the merge does not look into arrays.
\<close>

fun arrays_hold_no_secrets :: "jsval \<Rightarrow> bool" where
  "arrays_hold_no_secrets (Arr xs) = (secret_leaves (Arr xs) = [])"
| "arrays_hold_no_secrets (Obj kvs) =
     (\<forall>e \<in> set kvs. isSecretKey (fst e) \<or> arrays_hold_no_secrets (snd e))"
| "arrays_hold_no_secrets _ = True"

lemma redact_no_secrets: "secret_leaves v = [] \<Longrightarrow> redactSecrets v = v"
proof (induction v)
  case (Arr xs)
  then have "\<forall>x \<in> set xs. redactSecrets x = x" by simp
  then show ?case by (simp add: map_idI)
next
  case (Obj kvs)
  have "(fst e, if isSecretKey (fst e) then Str MASKED_SECRET_VALUE
      else redactSecrets (snd e)) = e" if e: "e \<in> set kvs" for e
  proof -from Obj.prems e have "(if isSecretKey (fst e) then [snd e] else secret_leaves (snd e)) = []"
      by simp
    then have "\<not> isSecretKey (fst e)" and "secret_leaves (snd e) = []"
      by (simp_all split: if_splits)
    then show ?thesis using Obj.IH [OF e, of "snd e"] by (simp add: snds.simps prod_eq_iff)
  qed
  then show ?case by (simp add: map_idI)
qed auto

definition masked_entry :: "string \<times> jsval \<Rightarrow> string \<times> jsval" where
  "masked_entry e = (fst e, if isSecretKey (fst e) then Str MASKED_SECRET_VALUE
                                      else redactSecrets (snd e))"

lemma fst_masked_entry [simp]: "fst (masked_entry e) = fst e"
  by (simp add: masked_entry_def)

lemma redact_masked: "redactSecrets (Obj kvs) = Obj (map masked_entry kvs)"
  by (simp add: masked_entry_def [abs_def])

lemma js_set_at:
  "k \<notin> fst ` set pre \<Longrightarrow> js_set k v (pre @ (k, w) # post) = pre @ (k, v) # post"
  by (induction pre) auto

lemma js_get_masked:
  "distinct (map fst kvs) \<Longrightarrow> (k, v) \<in> set kvs \<Longrightarrow>
   js_get (map masked_entry kvs) k =
     (if isSecretKey k then Str MASKED_SECRET_VALUE else redactSecrets v)"
  by (induction kvs) (force simp: js_get_def masked_entry_def)+

lemma has_key_masked: "(k, v) \<in> set kvs \<Longrightarrow> has_key (map masked_entry kvs) k"
  by (force simp: has_key_def masked_entry_def)

lemma merged_entry_masked:
  assumes "distinct (map fst kvs)" and "(k, v) \<in> set kvs"
    and restore: "\<And>cv. \<not> isSecretKey k \<Longrightarrow> v = Obj cv \<Longrightarrow>
      mergeConfigPreservingSecrets cv (map masked_entry cv) = cv"
    and plain: "\<not> isSecretKey k \<Longrightarrow> \<not> is_record v \<Longrightarrow> redactSecrets v = v"
  shows "(case merged_entry (map masked_entry kvs) k v of None \<Rightarrow> snd (masked_entry (k, v))
          | Some w \<Rightarrow> w) = v"
proof (cases "isSecretKey k")
  case True
  with assms(1,2) show ?thesis
    by (simp add: merged_entry_def js_get_masked masked_entry_def)
next
  case False
  note get = js_get_masked [OF assms(1,2)]
  show ?thesis
  proof (cases "is_record v")
    case True
    then obtain cv where v: "v = Obj cv" by (cases v) auto
    with False get restore show ?thesis
      by (simp add: merged_entry_def redact_masked del: redactSecrets.simps)
  next
    case nrec: False
    with False have "redactSecrets v = v" by (rule plain)
    with nrec False get show ?thesis
      by (cases v) (auto simp: merged_entry_def masked_entry_def simp del: redactSecrets.simps)
  qed
qed

lemma merge_loop_restore:
  assumes "distinct (map fst (pre @ rest))"
    and "\<And>k cv. (k, Obj cv) \<in> set rest \<Longrightarrow> \<not> isSecretKey k \<Longrightarrow>
      mergeConfigPreservingSecrets cv (map masked_entry cv) = cv"
    and "\<And>k v. (k, v) \<in> set rest \<Longrightarrow> \<not> isSecretKey k \<Longrightarrow> \<not> is_record v \<Longrightarrow> redactSecrets v = v"
  shows "merge_loop rest (map masked_entry (pre @ rest)) (pre @ map masked_entry rest) = pre @ rest"
  using assms
proof (induction rest arbitrary: pre)
  case Nil
  then show ?case by simp
next
  case (Cons e rest)
  obtain k v where e: "e = (k, v)" by (cases e)
  let ?kvs = "pre @ (k, v) # rest"
  have d: "distinct (map fst ?kvs)" using Cons.prems(1) by (simp add: e)
  have entry: "(case merged_entry (map masked_entry ?kvs) k v of None \<Rightarrow> snd (masked_entry (k, v))
      | Some w \<Rightarrow> w) = v"
    by (rule merged_entry_masked [OF d]) (use Cons.prems(2,3) in \<open>auto simp: e\<close>)
  have "(case merged_entry (map masked_entry ?kvs) k v of
          None \<Rightarrow> pre @ masked_entry (k, v) # map masked_entry rest
        | Some w \<Rightarrow> js_set k w (pre @ masked_entry (k, v) # map masked_entry rest))
      = (pre @ [(k, v)]) @ map masked_entry rest"
    using entry d by (auto simp: js_set_at masked_entry_def split: option.splits)
  moreover have "merge_loop rest (map masked_entry ((pre @ [(k, v)]) @ rest))
      ((pre @ [(k, v)]) @ map masked_entry rest) = (pre @ [(k, v)]) @ rest"
    by (rule Cons.IH) (use Cons.prems in \<open>auto simp: e\<close>)
  ultimately show ?case
    by (simp add: e merge_loop_Cons del: merge_loop.simps)
qed

lemma arrays_plain:
  "arrays_hold_no_secrets v \<Longrightarrow> \<not> is_record v \<Longrightarrow> redactSecrets v = v"
  by (cases v) (auto intro: redact_no_secrets simp del: secret_leaves.simps redactSecrets.simps(1))

lemma merge_masked_restores:
  "wf_val (Obj cfg) \<Longrightarrow> arrays_hold_no_secrets (Obj cfg) \<Longrightarrow>
   mergeConfigPreservingSecrets cfg (map masked_entry cfg) = cfg"
proof (induction "size (Obj cfg)" arbitrary: cfg rule: less_induct)
  case less
  have "merge_loop cfg (map masked_entry ([] @ cfg)) ([] @ map masked_entry cfg) = [] @ cfg"
  proof (rule merge_loop_restore)
    fix k cv assume in_cfg: "(k, Obj cv) \<in> set cfg" and ns: "\<not> isSecretKey k"
    show "mergeConfigPreservingSecrets cv (map masked_entry cv) = cv"
    proof (rule less.hyps)
      show "size (Obj cv) < size (Obj cfg)"
        using size_obj_entry [OF in_cfg] by simp
      show "wf_val (Obj cv)" "arrays_hold_no_secrets (Obj cv)"
        using less.prems in_cfg ns by fastforce+
    qed
  next
    fix k v assume "(k, v) \<in> set cfg" "\<not> isSecretKey k" "\<not> is_record v"
    with less.prems(2) show "redactSecrets v = v" by (intro arrays_plain) auto
  qed (use less.prems in simp)
  then show ?case by (simp add: mergeConfigPreservingSecrets_def)
qed

section \<open>Properties\<close>

text \<open>
  A client that reads the public (masked) form of a target-system configuration and
  sends it back unchanged does not change what is stored: merging the masked copy into the
  current configuration restores it exactly, entry order included. The hypotheses say that
  the keys of each object are distinct, as in any JavaScript object, and that no array of
  the configuration holds an object with a secret key.
\<close>

theorem merge_of_masked_copy_is_noop:
  assumes "wf_val (Obj cfg)" and "arrays_hold_no_secrets (Obj cfg)"
  shows "mergeConfigPreservingSecrets cfg (as_obj (redactSecrets (Obj cfg))) = cfg"
  using merge_masked_restores [OF assms] by (simp add: redact_masked del: redactSecrets.simps)

definition sample_config :: obj where
  "sample_config =
     [(''baseUrl'', Str ''http://z.prod''), (''apiToken'', Str ''t0k3n''),
      (''tls'', Obj [(''privateKey'', Str ''PEM''), (''verify'', Bool True)]),
      (''defaultGroups'', Arr [Str ''ops''])]"

theorem merge_of_masked_copy_is_noop_witness:
  "redactSecrets (Obj sample_config) \<noteq> Obj sample_config \<and>
   mergeConfigPreservingSecrets sample_config (as_obj (redactSecrets (Obj sample_config)))
     = sample_config"
proof -have w: "wf_val (Obj sample_config)" by code_simp
  have a: "arrays_hold_no_secrets (Obj sample_config)" by code_simp
  have n: "redactSecrets (Obj sample_config) \<noteq> Obj sample_config" by code_simp
  show ?thesis using merge_of_masked_copy_is_noop [OF w a] n by blast
qed

text \<open>
  The restriction to arrays without secrets is needed. With a secret inside an array
  element, the public form masks it, the merge keeps the incoming array as it is, and the
  mask itself is stored: the secret is gone.
\<close>

theorem merge_loses_secret_in_array:
  "mergeConfigPreservingSecrets [(''hosts'', Arr [Obj [(''password'', Str ''s3cr3t'')]])]
     (as_obj (redactSecrets (Obj [(''hosts'', Arr [Obj [(''password'', Str ''s3cr3t'')]])])))
   = [(''hosts'', Arr [Obj [(''password'', Str MASKED_SECRET_VALUE)]])]"
  by (simp add: mergeConfigPreservingSecrets_def secret_eval js_get_def)

text \<open>
  What an update stores under each key. A secret key keeps the stored value when the
  edit omits the key or sends a mask, and takes the incoming value otherwise; an object
  under a plain key is merged recursively when both sides hold objects; every other key is
  exactly what the edit says, so a plain key that the edit omits is removed.
\<close>

theorem merge_config_lookup:
  assumes "distinct (map fst current)"
  shows "map_of (mergeConfigPreservingSecrets current incoming) k =
    (case map_of current k of
       None \<Rightarrow> map_of incoming k
     | Some cv \<Rightarrow>
         if isSecretKey k
         then (if \<not> has_key incoming k \<or> isMaskedSecretValue (js_get incoming k)
               then Some cv else map_of incoming k)
         else (case (js_get incoming k, cv) of
                 (Obj iv, Obj cv') \<Rightarrow> Some (Obj (mergeConfigPreservingSecrets cv' iv))
               | _ \<Rightarrow> map_of incoming k))"
proof (cases "map_of current k")
  case None
  then show ?thesis
    by (simp add: mergeConfigPreservingSecrets_def merge_loop_lookup [OF assms])
next
  case (Some cv)
  then have "map_of (mergeConfigPreservingSecrets current incoming) k =
      (case merged_entry incoming k cv of None \<Rightarrow> map_of incoming k | Some v \<Rightarrow> Some v)"
    by (simp add: mergeConfigPreservingSecrets_def merge_loop_lookup [OF assms])
  then show ?thesis
    by (cases "js_get incoming k"; cases cv) (simp_all add: Some merged_entry_def)
qed

theorem merge_config_lookup_witness:
  "map_of (mergeConfigPreservingSecrets sample_config
     [(''baseUrl'', Str ''http://z.new''), (''apiToken'', Str ''***'')]) ''apiToken''
   = Some (Str ''t0k3n'')"
proof -have d: "distinct (map fst sample_config)" by code_simp
  show ?thesis
    by (subst merge_config_lookup [OF d]) code_simp
qed

text \<open>
  C21: the public form of a configuration depends on nothing that a secret key holds: two
  configurations that agree outside their secret keys, at any depth and inside arrays, have
  the same public form.
\<close>

theorem public_view_hides_secrets:
  "eq_but_secrets v w \<Longrightarrow> redactSecrets v = redactSecrets w"
  by (rule public.red_noninterference)

theorem public_view_hides_secrets_witness:
  "redactSecrets (Obj [(''a'', Arr [Obj [(''db_password'', Str ''x'')]]), (''n'', Null)]) =
   redactSecrets (Obj [(''a'', Arr [Obj [(''db_password'', num 7)]]), (''n'', Null)])"
  by (rule public_view_hides_secrets) (simp add: secret_eval)

text \<open>
  What is left under any secret key of a masked value, at any depth, is the mask, and
  masking a masked value changes nothing.
\<close>

theorem public_view_leaves_only_masks:
  "set (secret_leaves (redactSecrets v)) \<subseteq> {Str MASKED_SECRET_VALUE} \<and>
   redactSecrets (redactSecrets v) = redactSecrets v"
  by (simp add: public.leaves_censored public.red_idem)

end
