(* ===== verification/TargetSystem.thy ===== *)
theory TargetSystem
  imports Registry GroupMapping SecretRedaction
begin

text \<open>
  Models \<open>admin/target-system.service.ts\<close>: the administration of the target systems, whose
  configurations are stored encrypted, shown masked and updated by merging. The table has the
  unique constraints of the schema; every database call may fail.
\<close>

section \<open>The table\<close>

record system_row = target_row +
  sys_id :: string
  sys_label :: string
  sys_createdAt :: nat

record system_db =
  systems :: "system_row list"

record ts_env =
  te_platform :: platform
  te_settings :: settings

text \<open>The clock, the initialisation vector, the new id, and the failures of one call.\<close>

record ts_call =
  tc_now :: nat
  tc_iv :: string
  tc_id :: string
  tc_read :: "exn option"
  tc_write :: "exn option"

record create_dto =
  cd_name :: string
  cd_type :: string
  cd_label :: string
  cd_config :: obj
  cd_enabled :: "bool option"

record update_dto =
  ud_name :: "string option"
  ud_type :: "string option"
  ud_label :: "string option"
  ud_config :: "obj option"
  ud_enabled :: "bool option"

definition system_by_id :: "system_row list \<Rightarrow> string \<Rightarrow> system_row option" where
  "system_by_id rows i = find (\<lambda>r. sys_id r = i) rows"

definition system_by_name :: "system_row list \<Rightarrow> string \<Rightarrow> system_row option" where
  "system_by_name rows n = find (\<lambda>r. ts_name r = n) rows"

definition stored_config :: "ts_env \<Rightarrow> system_row \<Rightarrow> obj result" where
  "stored_config env r =
     ebind (fromJson (te_platform env) (te_settings env) (ts_config r)) (\<lambda>c.
       Inr (as_obj (coalesce c (Obj []))))"

definition toPublicTargetSystem :: "ts_env \<Rightarrow> system_row \<Rightarrow> system_row result" where
  "toPublicTargetSystem env r =
     ebind (stored_config env r) (\<lambda>config. Inr (r\<lparr>ts_config := redactSecrets (Obj config)\<rparr>))"

section \<open>Validation of a configuration\<close>

definition validateGroupMappingMode :: "jsval \<Rightarrow> unit result" where
  "validateGroupMappingMode v =
     guard_exn (blank v \<or> v \<in> {Str ''id'', Str ''name'', Str ''code''})
       (BadRequest ''Invalid groupMappingMode: expected id, name or code'')"

definition validateLinuxGroupMappingTarget :: "jsval \<Rightarrow> unit result" where
  "validateLinuxGroupMappingTarget v =
     guard_exn (blank v \<or> v \<in> {Str ''posix'', Str ''server''})
       (BadRequest ''Invalid Linux groupMappingTarget: expected posix or server'')"

definition validateCmdbuildGroupMode :: "jsval \<Rightarrow> string \<Rightarrow> unit result" where
  "validateCmdbuildGroupMode v fieldName =
     guard_exn (blank v \<or> v \<in> {Str ''id'', Str ''name''})
       (BadRequest (''Invalid CMDBuild '' @ fieldName @ '': expected id or name''))"

definition groupAwareTypes :: "string list" where
  "groupAwareTypes = [''postgres-role'', ''mssql-login'', ''linux'', ''passwork'']"

fun is_array :: "jsval \<Rightarrow> bool" where
  "is_array (Arr _) = True"
| "is_array _ = False"

definition validateCommonGroupMappingConfig :: "string \<Rightarrow> obj \<Rightarrow> unit result" where
  "validateCommonGroupMappingConfig type config =
     (if type \<notin> set groupAwareTypes then Inr ()
      else ebind (validateGroupMappingMode (js_get config ''groupMappingMode'')) (\<lambda>_.
        ebind (if type = ''linux'' then validateLinuxGroupMappingTarget (js_get config ''groupMappingTarget'')
               else Inr ()) (\<lambda>_.
        guard_exn (js_get config ''defaultGroups'' = Undef \<or> is_array (js_get config ''defaultGroups''))
          (BadRequest ''Invalid defaultGroups: expected array''))))"

definition rejectCmdbuildCommonGroupMapping :: "obj \<Rightarrow> unit result" where
  "rejectCmdbuildCommonGroupMapping config =
     (case find (\<lambda>field. js_get config field \<noteq> Undef \<and> js_get config field \<noteq> Str [])
             [''groupMappingEnabled'', ''groupMappingMode'', ''groupMappingTarget'', ''defaultGroups''] of
        None \<Rightarrow> Inr ()
      | Some field \<Rightarrow> Inl (BadRequest (''CMDBuild '' @ field @
          '' is not supported; use defaultUserGroup* and incomingGroups* settings'')))"

definition nonEmptyScalar :: "jsval \<Rightarrow> bool" where
  "nonEmptyScalar v = (case v of Num n \<Rightarrow> is_finite n | Str s \<Rightarrow> trim s \<noteq> [] | _ \<Rightarrow> False)"

definition validateTargetSystemConfig :: "string \<Rightarrow> obj \<Rightarrow> unit result" where
  "validateTargetSystemConfig type config =
     ebind (validateCommonGroupMappingConfig type config) (\<lambda>_.
       if type \<noteq> ''cmdbuild'' then Inr ()
       else ebind (rejectCmdbuildCommonGroupMapping config) (\<lambda>_.
         ebind (validateCmdbuildGroupMode (js_get config ''defaultUserGroupMode'') ''defaultUserGroupMode'') (\<lambda>_.
         ebind (validateCmdbuildGroupMode (js_get config ''incomingGroupsMode'') ''incomingGroupsMode'') (\<lambda>_.
         guard_exn (\<not> (booleanConfig (js_get config ''defaultUserGroupEnabled'') \<and>
             \<not> nonEmptyScalar (js_get config ''defaultUserGroupValue'')))
           (BadRequest ''CMDBuild defaultUserGroupValue is required when defaultUserGroupEnabled is true'')))))"

section \<open>Reading\<close>

record find_params =
  fp_type :: "string option"
  fp_enabled :: "bool option"
  fp_limit :: "nat option"
  fp_offset :: "nat option"
  fp_allowedTypes :: "string list option"

definition nonblank :: "string option \<Rightarrow> bool" where
  "nonblank s \<longleftrightarrow> s \<noteq> None \<and> s \<noteq> Some []"

definition system_matches :: "find_params \<Rightarrow> system_row \<Rightarrow> bool" where
  "system_matches p r \<longleftrightarrow>
     (if nonblank (fp_type p) then Some (ts_type r) = fp_type p
      else (case fp_allowedTypes p of Some ts \<Rightarrow> ts_type r \<in> set ts | None \<Rightarrow> True)) \<and>
     (case fp_enabled p of Some b \<Rightarrow> ts_enabled r = b | None \<Rightarrow> True)"

text \<open>\<open>orderBy\<close> with \<open>skip\<close> and \<open>take\<close>; rows of the same time keep their order.\<close>

definition newest_page :: "nat \<Rightarrow> nat \<Rightarrow> ('r \<Rightarrow> nat) \<Rightarrow> 'r list \<Rightarrow> 'r list" where
  "newest_page skip limit created rows = take limit (drop skip (sort_key (\<lambda>r. - int (created r)) rows))"

definition ts_findAll :: "ts_env \<Rightarrow> ts_call \<Rightarrow> find_params \<Rightarrow> (system_row list, 'b system_db_scheme) op" where
  "ts_findAll env c p w =
     (case fp_allowedTypes p of
        Some [] \<Rightarrow> ret [] w
      | allowed \<Rightarrow>
        if nonblank (fp_type p) \<and> allowed \<noteq> None \<and> the (fp_type p) \<notin> set (the allowed) then ret [] w
        else sbind (may_fail (tc_read c)) (\<lambda>_ w. lift_result
               (map_exn (toPublicTargetSystem env)
                 (newest_page (or_else (fp_offset p) 0) (or_else (fp_limit p) 50) sys_createdAt
                   (filter (system_matches p) (systems w)))) w) w)"

definition public_row :: "ts_env \<Rightarrow> system_row option \<Rightarrow> system_row option result" where
  "public_row env r =
     (case r of None \<Rightarrow> Inr None | Some x \<Rightarrow> ebind (toPublicTargetSystem env x) (\<lambda>y. Inr (Some y)))"

definition ts_findById :: "ts_env \<Rightarrow> ts_call \<Rightarrow> string \<Rightarrow> (system_row option, 'b system_db_scheme) op" where
  "ts_findById env c i =
     sbind (may_fail (tc_read c)) (\<lambda>_ w. lift_result (public_row env (system_by_id (systems w) i)) w)"

definition ts_findByName :: "ts_env \<Rightarrow> ts_call \<Rightarrow> string \<Rightarrow> (system_row option, 'b system_db_scheme) op" where
  "ts_findByName env c n =
     sbind (may_fail (tc_read c)) (\<lambda>_ w. lift_result (public_row env (system_by_name (systems w) n)) w)"

definition findRawConfigByName :: "ts_env \<Rightarrow> ts_call \<Rightarrow> string \<Rightarrow> (obj option, 'b system_db_scheme) op" where
  "findRawConfigByName env c n =
     sbind (may_fail (tc_read c)) (\<lambda>_ w. lift_result
       (case system_by_name (systems w) n of
          None \<Rightarrow> Inr None
        | Some r \<Rightarrow> ebind (stored_config env r) (\<lambda>config. Inr (Some config))) w)"

section \<open>Changing\<close>

definition handlePrismaMutationError :: "exn \<Rightarrow> exn" where
  "handlePrismaMutationError e =
     (case e of
        PrismaError code m \<Rightarrow>
          if code = ''P2002'' then Conflict ''TargetSystem name already exists''
          else if code = ''P2025'' then NotFound ''TargetSystem not found''
          else e
      | _ \<Rightarrow> e)"

definition unique_violation :: exn where
  "unique_violation = PrismaError ''P2002'' ''Unique constraint failed''"

definition no_such_row :: exn where
  "no_such_row = PrismaError ''P2025'' ''Record to update not found.''"

definition insert_system :: "ts_call \<Rightarrow> system_row \<Rightarrow> (unit, 'b system_db_scheme) op" where
  "insert_system c r =
     sbind (may_fail (tc_write c)) (\<lambda>_ w.
       if system_by_name (systems w) (ts_name r) \<noteq> None then raise unique_violation w
       else modify (\<lambda>w. w\<lparr>systems := systems w @ [r]\<rparr>) w)"

definition created_row :: "ts_call \<Rightarrow> create_dto \<Rightarrow> jsval \<Rightarrow> system_row" where
  "created_row c dto stored =
     \<lparr>ts_name = cd_name dto, ts_type = cd_type dto, ts_config = stored,
      ts_enabled = or_else (cd_enabled dto) True, ts_updatedAt = tc_now c,
      sys_id = tc_id c, sys_label = cd_label dto, sys_createdAt = tc_now c\<rparr>"

definition ts_create :: "ts_env \<Rightarrow> ts_call \<Rightarrow> create_dto \<Rightarrow> (system_row, 'b system_db_scheme) op" where
  "ts_create env c dto =
     catch_op
       (sbind (lift_result (validateTargetSystemConfig (cd_type dto) (cd_config dto))) (\<lambda>_.
        sbind (lift_result (toJson (te_platform env) (te_settings env) (tc_iv c) (Obj (cd_config dto)))) (\<lambda>stored.
        sbind (insert_system c (created_row c dto stored)) (\<lambda>_.
        lift_result (toPublicTargetSystem env (created_row c dto stored))))))
       (\<lambda>error. raise (handlePrismaMutationError error))"

definition updated_row :: "ts_call \<Rightarrow> update_dto \<Rightarrow> jsval option \<Rightarrow> system_row \<Rightarrow> system_row" where
  "updated_row c dto stored r =
     r\<lparr>ts_name := or_else (ud_name dto) (ts_name r), ts_type := or_else (ud_type dto) (ts_type r),
       ts_config := or_else stored (ts_config r), ts_enabled := or_else (ud_enabled dto) (ts_enabled r),
       ts_updatedAt := tc_now c, sys_label := or_else (ud_label dto) (sys_label r)\<rparr>"

definition update_system ::
  "ts_call \<Rightarrow> string \<Rightarrow> (system_row \<Rightarrow> system_row) \<Rightarrow> (system_row, 'b system_db_scheme) op" where
  "update_system c i f =
     sbind (may_fail (tc_write c)) (\<lambda>_ w.
       case system_by_id (systems w) i of
         None \<Rightarrow> raise no_such_row w
       | Some r \<Rightarrow>
           if \<exists>x \<in> set (systems w). sys_id x \<noteq> i \<and> ts_name x = ts_name (f r) then raise unique_violation w
           else (Inr (f r), w\<lparr>systems := map (\<lambda>x. if sys_id x = i then f x else x) (systems w)\<rparr>))"

definition current_config :: "ts_env \<Rightarrow> system_row option \<Rightarrow> obj result" where
  "current_config env current = (case current of None \<Rightarrow> Inr [] | Some r \<Rightarrow> stored_config env r)"

definition read_current ::
  "ts_call \<Rightarrow> bool \<Rightarrow> string \<Rightarrow> (system_row option, 'b system_db_scheme) op" where
  "read_current c needed i =
     (if needed then sbind (may_fail (tc_read c)) (\<lambda>_ w. (Inr (system_by_id (systems w) i), w))
      else ret None)"

definition ts_update :: "ts_env \<Rightarrow> ts_call \<Rightarrow> string \<Rightarrow> update_dto \<Rightarrow> (system_row, 'b system_db_scheme) op" where
  "ts_update env c i dto =
     (let needsCurrent = ud_config dto \<noteq> None \<or> ud_type dto \<noteq> None in
      catch_op
       (sbind (read_current c needsCurrent i) (\<lambda>current.
        sbind (lift_result (guard_exn (\<not> (needsCurrent \<and> current = None))
          (NotFound ''TargetSystem not found''))) (\<lambda>_.
        sbind (lift_result (current_config env current)) (\<lambda>currentConfig.
        let nextConfig = map_option (mergeConfigPreservingSecrets currentConfig) (ud_config dto) in
        sbind (lift_result (case current of None \<Rightarrow> Inr () | Some r \<Rightarrow>
          validateTargetSystemConfig (or_else (ud_type dto) (ts_type r)) (or_else nextConfig currentConfig))) (\<lambda>_.
        sbind (lift_result (case nextConfig of None \<Rightarrow> Inr None | Some config \<Rightarrow>
          ebind (toJson (te_platform env) (te_settings env) (tc_iv c) (Obj config)) (\<lambda>v. Inr (Some v)))) (\<lambda>stored.
        sbind (update_system c i (updated_row c dto stored)) (\<lambda>item.
        lift_result (toPublicTargetSystem env item))))))))
       (\<lambda>error. raise (handlePrismaMutationError error)))"

definition ts_delete :: "ts_env \<Rightarrow> ts_call \<Rightarrow> string \<Rightarrow> (system_row, 'b system_db_scheme) op" where
  "ts_delete env c i =
     catch_op
       (sbind (may_fail (tc_write c)) (\<lambda>_.
        sbind (\<lambda>w. case system_by_id (systems w) i of
                 None \<Rightarrow> raise no_such_row w
               | Some r \<Rightarrow> (Inr r, w\<lparr>systems := filter (\<lambda>x. sys_id x \<noteq> i) (systems w)\<rparr>)) (\<lambda>item.
        lift_result (toPublicTargetSystem env item))))
       (\<lambda>error. raise (handlePrismaMutationError error))"

text \<open>The connection test of a stored system: the connectors change the outside world only.\<close>

definition ts_testConnection ::
  "ts_env \<Rightarrow> 'e registry \<Rightarrow> system_row list result \<Rightarrow> string \<Rightarrow> (bool \<times> string, 'e) op" where
  "ts_testConnection env reg rows i =
     sbind (lift_result rows) (\<lambda>table.
       case system_by_id table i of
         None \<Rightarrow> ret (False, ''TargetSystem not found'')
       | Some ts \<Rightarrow>
           sbind (lift_result (stored_config env ts)) (\<lambda>config.
             registry_testConnection reg (ts_type ts)
               (Obj (js_set ''diagnosticTargetSystem'' (Str (ts_name ts)) config))))"

section \<open>What the operations do to the table\<close>

lemma catch_raise_Inr:
  "catch_op m (\<lambda>e. raise (h e)) w = (Inr a, w') \<longleftrightarrow> m w = (Inr a, w')"
  by (auto simp: catch_op_def split: prod.splits sum.splits)

lemma catch_raise_state: "snd (catch_op m (\<lambda>e. raise (h e)) w) = snd (m w)"
  by (auto simp: catch_op_def split: prod.splits sum.splits)

lemma lift_result_iff: "lift_result r w = (x, w') \<longleftrightarrow> r = x \<and> w' = w"
  by auto

lemma system_by_id_Some: "system_by_id rows i = Some r \<Longrightarrow> r \<in> set rows \<and> sys_id r = i"
  by (auto simp: system_by_id_def find_Some_iff)

lemma system_by_id_map:
  assumes "\<And>x. sys_id (f x) = sys_id x"
  shows "system_by_id (map (\<lambda>x. if sys_id x = i then f x else x) rows) i = map_option f (system_by_id rows i)"
  using assms by (induction rows) (auto simp: system_by_id_def)

lemma updated_row_id [simp]: "sys_id (updated_row c dto stored r) = sys_id r"
  by (simp add: updated_row_def)

definition renames_freely :: "system_row list \<Rightarrow> string \<Rightarrow> (system_row \<Rightarrow> system_row) \<Rightarrow> bool" where
  "renames_freely rows i f \<longleftrightarrow>
     (\<exists>r. system_by_id rows i = Some r \<and> (\<forall>x \<in> set rows. sys_id x \<noteq> i \<longrightarrow> ts_name x \<noteq> ts_name (f r)))"

lemma update_system_Inr:
  "update_system c i f w = (Inr item, w') \<longleftrightarrow>
     tc_write c = None \<and> renames_freely (systems w) i f \<and>
     item = f (the (system_by_id (systems w) i)) \<and>
     w' = w\<lparr>systems := map (\<lambda>x. if sys_id x = i then f x else x) (systems w)\<rparr>"
  by (cases "tc_write c"; cases "system_by_id (systems w) i")
    (auto simp: update_system_def renames_freely_def split: if_splits)

lemma update_system_effect:
  "systems (snd (update_system c i f w)) = systems w \<or>
   renames_freely (systems w) i f \<and>
   systems (snd (update_system c i f w)) = map (\<lambda>x. if sys_id x = i then f x else x) (systems w)"
  by (cases "tc_write c"; cases "system_by_id (systems w) i")
    (auto simp: update_system_def renames_freely_def split: if_splits)

lemma ts_update_Inr:
  assumes "ts_update env c i dto w = (Inr item, w')" and "ud_config dto = Some sent"
  shows "\<exists>r cfg stored. system_by_id (systems w) i = Some r \<and> stored_config env r = Inr cfg \<and>
    toJson (te_platform env) (te_settings env) (tc_iv c) (Obj (mergeConfigPreservingSecrets cfg sent)) = Inr stored \<and>
    validateTargetSystemConfig (or_else (ud_type dto) (ts_type r)) (mergeConfigPreservingSecrets cfg sent) = Inr () \<and>
    renames_freely (systems w) i (updated_row c dto (Some stored)) \<and>
    systems w' = map (\<lambda>x. if sys_id x = i then updated_row c dto (Some stored) x else x) (systems w) \<and>
    toPublicTargetSystem env (updated_row c dto (Some stored) r) = Inr item"
  using assms
  by (cases "system_by_id (systems w) i")
    (auto simp: ts_update_def Let_def catch_raise_Inr sbind_Inr_iff may_fail_iff lift_result_iff
      read_current_def current_config_def ebind_Inr_iff update_system_Inr)

section \<open>The unique constraints\<close>

definition wf_systems :: "system_row list \<Rightarrow> bool" where
  "wf_systems rows \<longleftrightarrow> distinct (map sys_id rows) \<and> distinct (map ts_name rows)"

lemma system_by_name_None: "system_by_name rows n = None \<longleftrightarrow> n \<notin> ts_name ` set rows"
  by (auto simp: system_by_name_def find_None_iff)

lemma wf_systems_insert:
  assumes "wf_systems rows" "sys_id r \<notin> sys_id ` set rows" "system_by_name rows (ts_name r) = None"
  shows "wf_systems (rows @ [r])"
  using assms by (auto simp: wf_systems_def system_by_name_None)

lemma wf_systems_filter: "wf_systems rows \<Longrightarrow> wf_systems (filter P rows)"
  by (simp add: wf_systems_def distinct_map_filter)

lemma wf_systems_update:
  assumes wf: "wf_systems rows" and free: "renames_freely rows i f" and f: "\<And>x. sys_id (f x) = sys_id x"
  shows "wf_systems (map (\<lambda>x. if sys_id x = i then f x else x) rows)"
proof -
  obtain r where r: "system_by_id rows i = Some r"
    and other: "\<forall>x \<in> set rows. sys_id x \<noteq> i \<longrightarrow> ts_name x \<noteq> ts_name (f r)"
    using free by (auto simp: renames_freely_def)
  have "distinct (map ts_name (map (\<lambda>x. if sys_id x = i then f x else x) rows))"
    using wf system_by_id_Some [OF r] other by (intro distinct_update [of sys_id _ _ r]) (auto simp: wf_systems_def)
  moreover have "map sys_id (map (\<lambda>x. if sys_id x = i then f x else x) rows) = map sys_id rows"
    by (rule map_update_same) (rule f)
  ultimately show ?thesis using wf unfolding wf_systems_def by (simp only: HOL.simp_thms)
qed

datatype ts_cmd =
    TsCreate create_dto
  | TsUpdate string update_dto
  | TsDelete string

fun run_ts_cmd :: "ts_env \<Rightarrow> ts_call \<Rightarrow> ts_cmd \<Rightarrow> 'b system_db_scheme \<Rightarrow> 'b system_db_scheme" where
  "run_ts_cmd env c (TsCreate dto) w = snd (ts_create env c dto w)"
| "run_ts_cmd env c (TsUpdate i dto) w = snd (ts_update env c i dto w)"
| "run_ts_cmd env c (TsDelete i) w = snd (ts_delete env c i w)"

text \<open>The new id of a row is a fresh UUID; requests may come in any order.\<close>

inductive ts_steps :: "ts_env \<Rightarrow> 'b system_db_scheme \<Rightarrow> 'b system_db_scheme \<Rightarrow> bool" for env where
  ts_refl: "ts_steps env w w"
| ts_step: "ts_steps env w w1 \<Longrightarrow> tc_id c \<notin> sys_id ` set (systems w1) \<Longrightarrow>
    ts_steps env w (run_ts_cmd env c cmd w1)"

inductive_cases ts_stepsE: "ts_steps env w w'"

lemma preserves_read [preserve_intros]: "preserves I (read_current c b i)"
  by (auto simp: read_current_def preserves_def sbind_def split: prod.splits sum.splits)
    (cases "tc_read c"; auto)+

lemma update_system_wf:
  "preserves (\<lambda>w. wf_systems (systems w)) (update_system c i (updated_row c dto stored))"
  unfolding preserves_def
proof (intro allI impI)
  fix w :: "'b system_db_scheme" and r w'
  assume "wf_systems (systems w)" "update_system c i (updated_row c dto stored) w = (r, w')"
  then show "wf_systems (systems w')"
    using update_system_effect [of c i "updated_row c dto stored" w] wf_systems_update by force
qed

lemma update_wf: "preserves (\<lambda>w. wf_systems (systems w)) (ts_update env c i dto)"
  unfolding ts_update_def Let_def
  by (intro preserve_intros update_system_wf)

lemma delete_wf: "preserves (\<lambda>w. wf_systems (systems w)) (ts_delete env c i)"
proof -
  have "preserves (\<lambda>w. wf_systems (systems w))
    (\<lambda>w. case system_by_id (systems w) i of
           None \<Rightarrow> raise no_such_row w
         | Some r \<Rightarrow> (Inr r, w\<lparr>systems := filter (\<lambda>x. sys_id x \<noteq> i) (systems w)\<rparr>))"
    by (auto simp: preserves_def wf_systems_filter split: option.splits)
  then show ?thesis unfolding ts_delete_def by (intro preserve_intros)
qed

lemma insert_system_effect:
  "systems (snd (insert_system c r w)) = systems w \<or>
   system_by_name (systems w) (ts_name r) = None \<and> systems (snd (insert_system c r w)) = systems w @ [r]"
  by (cases "tc_write c") (auto simp: insert_system_def)

lemma sbind_lift_state: "snd (sbind m (\<lambda>x. lift_result (g x)) w) = snd (m w)"
  by (simp add: sbind_def split: prod.split sum.split)

lemma create_effect:
  "systems (snd (ts_create env c dto w)) = systems w \<or>
   (\<exists>stored. system_by_name (systems w) (cd_name dto) = None \<and>
      systems (snd (ts_create env c dto w)) = systems w @ [created_row c dto stored])"
  using insert_system_effect [of c "created_row c dto s" w for s]
  by (cases "validateTargetSystemConfig (cd_type dto) (cd_config dto)";
      cases "toJson (te_platform env) (te_settings env) (tc_iv c) (Obj (cd_config dto))")
    (auto simp: ts_create_def catch_raise_state sbind_lift_state created_row_def)

lemma create_wf:
  assumes "wf_systems (systems w)" "tc_id c \<notin> sys_id ` set (systems w)"
  shows "wf_systems (systems (snd (ts_create env c dto w)))"
  using create_effect [of env c dto w] assms
  by (auto intro!: wf_systems_insert simp: created_row_def)

lemma cmd_wf:
  assumes "wf_systems (systems w)" "tc_id c \<notin> sys_id ` set (systems w)"
  shows "wf_systems (systems (run_ts_cmd env c cmd w))"
proof (cases cmd)
  case (TsCreate dto)
  with assms show ?thesis by (simp add: create_wf)
next
  case (TsUpdate i dto)
  obtain r w' where "ts_update env c i dto w = (r, w')" by fastforce
  with TsUpdate assms(1) preservesD [OF update_wf] show ?thesis by fastforce
next
  case (TsDelete i)
  obtain r w' where "ts_delete env c i w = (r, w')" by fastforce
  with TsDelete assms(1) preservesD [OF delete_wf] show ?thesis by fastforce
qed

text \<open>Whatever requests are served, in whatever order and with whatever database errors,
  no two target systems ever have the same name or the same id.\<close>

theorem target_systems_stay_unique:
  assumes "ts_steps env w w'" and "wf_systems (systems w)"
  shows "wf_systems (systems w')"
  using assms by (induction rule: ts_steps.induct) (auto intro: cmd_wf)

section \<open>Configurations\<close>

text \<open>
  C19: the masked view can be saved back. A client that reads a target system, and sends the
  public form of its configuration back in an update, changes nothing of what is stored: the
  secrets it never saw are still there, and the answer is the public form again. The
  configuration holds no secret in an array (else the mask is stored), and it survives
  encryption and storage.
\<close>

theorem saving_public_view_keeps_config:
  assumes "system_by_id (systems w) i = Some r" and "stored_config env r = Inr cfg"
    and "wf_val (Obj cfg)" and "arrays_hold_no_secrets (Obj cfg)"
    and "ebind (toJson (te_platform env) (te_settings env) (tc_iv c2) (Obj cfg))
      (fromJson (te_platform env) (te_settings env)) = Inr (Obj cfg)"
    and "ts_findById env c1 i w = (Inr (Some pub), w1)"
    and "ts_update env c2 i \<lparr>ud_name = None, ud_type = None, ud_label = None,
      ud_config = Some (as_obj (ts_config pub)), ud_enabled = None\<rparr> w1 = (Inr item, w2)"
  shows "\<exists>r'. system_by_id (systems w2) i = Some r' \<and> stored_config env r' = Inr cfg \<and>
    ts_config item = ts_config pub"
proof -
  have w1: "w1 = w" and pub: "ts_config pub = redactSecrets (Obj cfg)"
    using assms(1,2,6)
    by (auto simp: ts_findById_def sbind_Inr_iff may_fail_iff public_row_def ebind_Inr_iff
        toPublicTargetSystem_def simp del: redactSecrets.simps)
  have merge: "mergeConfigPreservingSecrets cfg (as_obj (redactSecrets (Obj cfg))) = cfg"
    using merge_masked_restores [OF assms(3,4)] by (simp add: redact_masked del: redactSecrets.simps)
  obtain stored where stored: "toJson (te_platform env) (te_settings env) (tc_iv c2) (Obj cfg) = Inr stored"
    and rows: "systems w2 = map (\<lambda>x. if sys_id x = i then updated_row c2 \<lparr>ud_name = None, ud_type = None,
        ud_label = None, ud_config = Some (as_obj (ts_config pub)), ud_enabled = None\<rparr> (Some stored) x else x) (systems w)"
    and item: "toPublicTargetSystem env (updated_row c2 \<lparr>ud_name = None, ud_type = None,
        ud_label = None, ud_config = Some (as_obj (ts_config pub)), ud_enabled = None\<rparr> (Some stored) r) = Inr item"
    using ts_update_Inr [OF assms(7)] assms(1,2) by (auto simp: w1 pub merge simp del: redactSecrets.simps)
  from stored assms(5) have readable: "fromJson (te_platform env) (te_settings env) stored = Inr (Obj cfg)"
    by simp
  have cfg': "stored_config env (updated_row c2 dto (Some stored) x) = Inr cfg" for dto x
    by (simp add: stored_config_def updated_row_def readable coalesce_def nullish_def)
  then have "ts_config item = redactSecrets (Obj cfg)"
    using item by (auto simp: toPublicTargetSystem_def simp del: redactSecrets.simps)
  with cfg' show ?thesis by (simp add: rows system_by_id_map assms(1) pub del: redactSecrets.simps)
qed

definition demo_env :: ts_env where
  "demo_env = \<lparr>te_platform = demo_platform, te_settings = demo_settings0\<rparr>"

definition demo_call :: ts_call where
  "demo_call = \<lparr>tc_now = 5, tc_iv = [], tc_id = ''9'', tc_read = None, tc_write = None\<rparr>"

definition demo_config :: obj where
  "demo_config = [(''url'', Str ''u''), (''apiToken'', Str ''t'')]"

definition demo_system :: "string \<Rightarrow> string \<Rightarrow> system_row" where
  "demo_system i n =
     \<lparr>ts_name = n, ts_type = ''linux'', ts_config = Obj demo_config, ts_enabled = True, ts_updatedAt = 1,
      sys_id = i, sys_label = n, sys_createdAt = 1\<rparr>"

definition demo_db :: system_db where
  "demo_db = \<lparr>systems = [demo_system ''1'' ''a'', demo_system ''2'' ''b'']\<rparr>"

definition rename_to :: "string \<Rightarrow> update_dto" where
  "rename_to n = \<lparr>ud_name = Some n, ud_type = None, ud_label = None, ud_config = None, ud_enabled = None\<rparr>"

lemma demo_config_eval:
  "redactSecrets (Obj demo_config) = Obj [(''url'', Str ''u''), (''apiToken'', Str MASKED_SECRET_VALUE)]"
  "\<not> isEnvelope (Obj demo_config)" "\<not> encryption_isEnabled demo_settings0" "\<not> sqlite demo_settings0"
  by (simp_all add: demo_config_def secret_eval isEnvelope_def js_get_def encryption_isEnabled_def
      readFlag_def readString_def demo_settings0_def)

lemma demo_read: "fromJson demo_platform demo_settings0 (Obj demo_config) = Inr (Obj demo_config)"
  using demo_config_eval by (simp add: fromJson_def decryptFromStorage_def nullish_def)

lemma demo_write: "toJson demo_platform demo_settings0 iv (Obj demo_config) = Inr (Obj demo_config)"
  using demo_config_eval by (simp add: toJson_def encryptForStorage_def)

theorem target_systems_stay_unique_witness:
  "ts_update demo_env demo_call ''1'' (rename_to ''b'') demo_db =
     (Inl (Conflict ''TargetSystem name already exists''), demo_db) \<and>
   wf_systems (systems (run_ts_cmd demo_env demo_call (TsUpdate ''1'' (rename_to ''b'')) demo_db))"
proof
  show "ts_update demo_env demo_call ''1'' (rename_to ''b'') demo_db =
     (Inl (Conflict ''TargetSystem name already exists''), demo_db)"
    by (simp add: ts_update_def rename_to_def read_current_def current_config_def update_system_def
        demo_call_def demo_db_def demo_system_def system_by_id_def updated_row_def catch_op_def
        unique_violation_def handlePrismaMutationError_def sbind_def guard_exn_def)
  have "ts_steps demo_env demo_db (run_ts_cmd demo_env demo_call (TsUpdate ''1'' (rename_to ''b'')) demo_db)"
    by (rule ts_step [OF ts_refl]) (simp add: demo_call_def demo_db_def demo_system_def)
  then show "wf_systems (systems (run_ts_cmd demo_env demo_call (TsUpdate ''1'' (rename_to ''b'')) demo_db))"
    by (rule target_systems_stay_unique) (simp add: wf_systems_def demo_db_def demo_system_def)
qed

definition demo_public :: system_row where
  "demo_public = (demo_system ''1'' ''a'')
     \<lparr>ts_config := Obj [(''url'', Str ''u''), (''apiToken'', Str MASKED_SECRET_VALUE)]\<rparr>"

definition save_config :: "obj \<Rightarrow> update_dto" where
  "save_config cfg =
     \<lparr>ud_name = None, ud_type = None, ud_label = None, ud_config = Some cfg, ud_enabled = None\<rparr>"

lemma demo_stored:
  "system_by_id (systems demo_db) ''1'' = Some (demo_system ''1'' ''a'')"
  "stored_config demo_env ((demo_system i n)\<lparr>ts_updatedAt := t\<rparr>) = Inr demo_config"
  by (simp_all add: demo_db_def system_by_id_def demo_system_def stored_config_def demo_env_def
      demo_read coalesce_def nullish_def)

lemma demo_public_eval:
  "toPublicTargetSystem demo_env ((demo_system ''1'' ''a'')\<lparr>ts_updatedAt := t\<rparr>) =
     Inr (demo_public\<lparr>ts_updatedAt := t\<rparr>)"
  by (simp add: toPublicTargetSystem_def demo_stored demo_config_eval demo_public_def del: redactSecrets.simps)

lemma demo_merge:
  "mergeConfigPreservingSecrets demo_config (as_obj (ts_config demo_public)) = demo_config"
proof -
  have "isMaskedSecretValue (Str MASKED_SECRET_VALUE)" by simp
  then show ?thesis
    by (simp add: demo_public_def demo_config_def mergeConfigPreservingSecrets_def secret_eval js_get_def has_key_def)
qed

lemma demo_valid: "validateTargetSystemConfig ''linux'' demo_config = Inr ()"
  by (simp add: validateTargetSystemConfig_def validateCommonGroupMappingConfig_def groupAwareTypes_def
      validateGroupMappingMode_def validateLinuxGroupMappingTarget_def blank_def demo_config_def js_get_def
      guard_exn_def)

lemma demo_system_fields [simp]:
  "sys_id (demo_system i n) = i" "ts_name (demo_system i n) = n" "ts_type (demo_system i n) = ''linux''"
  by (simp_all add: demo_system_def)

lemma demo_fix: "(demo_system i n)\<lparr>ts_updatedAt := Suc 0\<rparr> = demo_system i n"
  by (simp add: demo_system_def)

lemma demo_update:
  "ts_update demo_env demo_call ''1'' (save_config (as_obj (ts_config demo_public))) demo_db =
     (Inr (demo_public\<lparr>ts_updatedAt := 5\<rparr>),
      \<lparr>systems = [(demo_system ''1'' ''a'')\<lparr>ts_updatedAt := 5\<rparr>, demo_system ''2'' ''b'']\<rparr>)"
proof -
  have stored: "stored_config demo_env (demo_system ''1'' ''a'') = Inr demo_config"
    using demo_stored(2) [of 1 "''1''" "''a''"] by (simp add: demo_fix)
  have upd: "updated_row demo_call (save_config cfg) (Some (Obj demo_config)) (demo_system i n) =
      (demo_system i n)\<lparr>ts_updatedAt := 5\<rparr>" for cfg i n
    by (simp add: updated_row_def save_config_def demo_call_def demo_system_def)
  have sys: "update_system demo_call ''1'' (updated_row demo_call (save_config cfg) (Some (Obj demo_config))) demo_db =
     (Inr ((demo_system ''1'' ''a'')\<lparr>ts_updatedAt := 5\<rparr>),
      \<lparr>systems = [(demo_system ''1'' ''a'')\<lparr>ts_updatedAt := 5\<rparr>, demo_system ''2'' ''b'']\<rparr>)" for cfg
    unfolding update_system_Inr renames_freely_def demo_stored(1)
    using upd by (simp add: demo_db_def) (simp add: demo_call_def)
  have env: "te_platform demo_env = demo_platform" "te_settings demo_env = demo_settings0"
    and dto: "ud_config (save_config cfg) = Some cfg" "ud_type (save_config cfg) = None" for cfg
    by (simp_all add: demo_env_def save_config_def)
  have "read_current demo_call True ''1'' demo_db = (Inr (Some (demo_system ''1'' ''a'')), demo_db)"
    using demo_stored(1) by (simp add: read_current_def demo_call_def)
  then show ?thesis
    unfolding ts_update_def Let_def
    by (simp add: dto sbind_run(2) current_config_def stored demo_merge demo_valid env demo_write
        sys demo_public_eval guard_exn_def catch_run(2))
qed

theorem saving_public_view_keeps_config_witness:
  "ts_config demo_public \<noteq> Obj demo_config \<and>
   (\<exists>r'. system_by_id (systems (snd (ts_update demo_env demo_call ''1''
      (save_config (as_obj (ts_config demo_public))) demo_db))) ''1'' = Some r' \<and>
      stored_config demo_env r' = Inr demo_config)"
proof -
  have find: "ts_findById demo_env demo_call ''1'' demo_db = (Inr (Some demo_public), demo_db)"
    using demo_public_eval [of 1] demo_stored(1)
    by (simp add: ts_findById_def demo_call_def public_row_def demo_fix) (simp add: demo_public_def demo_system_def)
  have wf: "wf_val (Obj demo_config)" "arrays_hold_no_secrets (Obj demo_config)"
    by (simp_all add: demo_config_def)
  have stored: "stored_config demo_env (demo_system ''1'' ''a'') = Inr demo_config"
    using demo_stored(2) [of 1 "''1''" "''a''"] by (simp add: demo_fix)
  have rt: "ebind (toJson (te_platform demo_env) (te_settings demo_env) (tc_iv demo_call) (Obj demo_config))
      (fromJson (te_platform demo_env) (te_settings demo_env)) = Inr (Obj demo_config)"
    by (simp add: demo_env_def demo_write demo_read)
  have "\<exists>r'. system_by_id (systems (snd (ts_update demo_env demo_call ''1''
      (save_config (as_obj (ts_config demo_public))) demo_db))) ''1'' = Some r' \<and>
      stored_config demo_env r' = Inr demo_config"
    using saving_public_view_keeps_config [OF demo_stored(1) stored wf rt find
        demo_update [unfolded save_config_def]]
    by (auto simp: demo_update)
  then show ?thesis by (simp add: demo_public_def demo_config_def demo_system_def MASKED_SECRET_VALUE_def)
qed

text \<open>
  A configuration that the administration accepts is one that the connectors can read: for
  every connector type with group settings, reading those settings from the stored
  configuration succeeds, with the mode that the configuration names.
\<close>

theorem accepted_config_is_readable:
  assumes "ts_update env c i dto w = (Inr item, w')" and "ud_config dto = Some sent"
    and "ts_type item \<in> set groupAwareTypes"
  shows "\<exists>cfg s. groupMappingSettings cfg = Inr s \<and>
    (\<exists>stored. toJson (te_platform env) (te_settings env) (tc_iv c) (Obj cfg) = Inr stored \<and>
       map_option ts_config (system_by_id (systems w') i) = Some stored) \<and>
    (js_get cfg ''groupMappingMode'' \<in> {Undef, Null, Str [], Str (mode_key (gs_mode s))})"
proof -
  obtain r cfg stored where r: "system_by_id (systems w) i = Some r"
    and stored: "toJson (te_platform env) (te_settings env) (tc_iv c)
      (Obj (mergeConfigPreservingSecrets cfg sent)) = Inr stored"
    and valid: "validateTargetSystemConfig (or_else (ud_type dto) (ts_type r))
      (mergeConfigPreservingSecrets cfg sent) = Inr ()"
    and rows: "systems w' = map (\<lambda>x. if sys_id x = i then updated_row c dto (Some stored) x else x) (systems w)"
    and item: "toPublicTargetSystem env (updated_row c dto (Some stored) r) = Inr item"
    using ts_update_Inr [OF assms(1,2)] by blast
  let ?cfg = "mergeConfigPreservingSecrets cfg sent"
  from item have "ts_type item = or_else (ud_type dto) (ts_type r)"
    by (auto simp: toPublicTargetSystem_def ebind_Inr_iff updated_row_def)
  with valid assms(3) have "blank (js_get ?cfg ''groupMappingMode'') \<or>
      js_get ?cfg ''groupMappingMode'' \<in> {Str ''id'', Str ''name'', Str ''code''}"
    by (auto simp: validateTargetSystemConfig_def validateCommonGroupMappingConfig_def ebind_Inr_iff
        validateGroupMappingMode_def split: if_splits)
  then have "\<exists>s. groupMappingSettings ?cfg = Inr s \<and>
      js_get ?cfg ''groupMappingMode'' \<in> {Undef, Null, Str [], Str (mode_key (gs_mode s))}"
    by (auto simp: groupMappingSettings_def groupMappingMode_def blank_def trim_def to_lower_def)
  moreover have "map_option ts_config (system_by_id (systems w') i) = Some stored"
    by (simp add: rows system_by_id_map r) (simp add: updated_row_def)
  ultimately show ?thesis using stored by blast
qed

theorem accepted_config_is_readable_witness:
  "\<exists>cfg s. groupMappingSettings cfg = Inr s \<and>
    (\<exists>stored. toJson (te_platform demo_env) (te_settings demo_env) (tc_iv demo_call) (Obj cfg) = Inr stored \<and>
       map_option ts_config (system_by_id (systems (snd (ts_update demo_env demo_call ''1''
      (save_config (as_obj (ts_config demo_public))) demo_db))) ''1'') = Some stored) \<and>
    (js_get cfg ''groupMappingMode'' \<in> {Undef, Null, Str [], Str (mode_key (gs_mode s))})"
  unfolding demo_update snd_conv
  by (rule accepted_config_is_readable [OF demo_update])
    (simp_all add: save_config_def demo_public_def demo_system_def groupAwareTypes_def)

end
