(* ===== verification/IpUtils.thy ===== *)
theory IpUtils
  imports JsNumber
begin

text \<open>
  Models \<open>security/ip-utils.ts\<close>: parsing of IPv4 addresses into 32-bit words, CIDR
  matching, the trusted-proxy allowlist and the private-address test. Addresses are
  \<open>32 word\<close>s, as the code's shifts and masks make them.
\<close>

unbundle bit_operations_syntax

definition normalizeIp :: "string option \<Rightarrow> string option" where
  "normalizeIp value =
     (case value of
        None \<Rightarrow> None
      | Some v \<Rightarrow>
          let trimmed = trim v in
          if trimmed = [] then None
          else if starts_with ''::ffff:'' trimmed then Some (drop 7 trimmed)
          else Some trimmed)"

text \<open>
  \<open>net.isIP(ip) === 4\<close>: four dot-separated decimal numbers up to 255 with no leading zero.
\<close>

definition ipv4_part :: "string \<Rightarrow> bool" where
  "ipv4_part p \<longleftrightarrow> p \<noteq> [] \<and> length p \<le> 3 \<and> list_all is_digit p \<and>
     (hd p = CHR ''0'' \<longrightarrow> length p = 1) \<and> digits_val p \<le> 255"

definition isIPv4 :: "string \<Rightarrow> bool" where
  "isIPv4 ip \<longleftrightarrow> length (split_on (CHR ''.'') ip) = 4 \<and> list_all ipv4_part (split_on (CHR ''.'') ip)"

definition ipv4ToInt :: "string \<Rightarrow> 32 word option" where
  "ipv4ToInt ip =
     (if \<not> isIPv4 ip then None
      else let parts = map digits_val (split_on (CHR ''.'') ip) in
        Some (push_bit 24 (of_nat (parts ! 0)) + push_bit 16 (of_nat (parts ! 1)) +
              push_bit 8 (of_nat (parts ! 2)) + of_nat (parts ! 3)))"

definition prefix_mask :: "nat \<Rightarrow> 32 word" where
  "prefix_mask pfx = (if pfx = 0 then 0 else push_bit (32 - pfx) 0xffffffff)"

text \<open>
  \<open>const [base, prefixText] = cidr.split('/')\<close>; a missing prefix is 32. \<open>Number('')\<close> is 0.
\<close>

definition cidr_prefix :: "string \<Rightarrow> nat option" where
  "cidr_prefix cidr =
     (case tl (split_on (CHR ''/'') cidr) of
        [] \<Rightarrow> Some 32
      | prefixText # _ \<Rightarrow>
          (case number_of_string prefixText of
             Fin r \<Rightarrow> if is_integer (Fin r) \<and> 0 \<le> r \<and> r \<le> 32 then Some (nat \<lfloor>r\<rfloor>) else None
           | _ \<Rightarrow> None))"

definition ipv4MatchesCidr :: "string \<Rightarrow> string \<Rightarrow> bool" where
  "ipv4MatchesCidr ip cidr =
     (case cidr_prefix cidr of
        None \<Rightarrow> False
      | Some pfx \<Rightarrow>
          (case (ipv4ToInt ip, ipv4ToInt (hd (split_on (CHR ''/'') cidr))) of
             (Some ipInt, Some baseInt) \<Rightarrow>
               (ipInt AND prefix_mask pfx) = (baseInt AND prefix_mask pfx)
           | _ \<Rightarrow> False))"

definition isIpAllowed :: "string option \<Rightarrow> string list \<Rightarrow> bool" where
  "isIpAllowed remoteAddress allowlist =
     (case normalizeIp remoteAddress of
        None \<Rightarrow> False
      | Some ip \<Rightarrow>
          ip \<noteq> [] \<and>
          list_ex (\<lambda>entry.
            (case normalizeIp (Some entry) of
               None \<Rightarrow> False
             | Some candidate \<Rightarrow>
                 candidate \<noteq> [] \<and>
                 (if CHR ''/'' \<in> set candidate then ipv4MatchesCidr ip candidate
                  else ip = candidate))) allowlist)"

definition isPrivateOrLocalAddress :: "string \<Rightarrow> bool" where
  "isPrivateOrLocalAddress hostname =
     (case normalizeIp (Some (to_lower hostname)) of
        None \<Rightarrow> False
      | Some host \<Rightarrow>
          if host = [] then False
          else if host = ''localhost'' \<or> host = ''::1'' then True
          else (case ipv4ToInt host of
                  None \<Rightarrow> False
                | Some ip \<Rightarrow>
                    ipv4MatchesCidr host ''10.0.0.0/8'' \<or>
                    ipv4MatchesCidr host ''172.16.0.0/12'' \<or>
                    ipv4MatchesCidr host ''192.168.0.0/16'' \<or>
                    ipv4MatchesCidr host ''127.0.0.0/8'' \<or>
                    ipv4MatchesCidr host ''169.254.0.0/16'' \<or>
                    ipv4MatchesCidr host ''0.0.0.0/8'' \<or>
                    ip = 0xffffffff))"

section \<open>Masks and prefixes\<close>

lemma mask_eq_iff_top_bits:
  fixes a b :: "32 word"
  assumes "p \<le> 32"
  shows "a AND prefix_mask p = b AND prefix_mask p \<longleftrightarrow> drop_bit (32 - p) a = drop_bit (32 - p) b"
proof (cases "p = 0")
  case True
  have "drop_bit 32 x = 0" for x :: "32 word"
    by (rule bit_word_eqI) (simp add: bit_drop_bit_eq bit_imp_le_length)
  with True show ?thesis by (simp add: prefix_mask_def)
next
  case False
  have m: "(0xffffffff :: 32 word) = mask 32" by (simp add: mask_eq_exp_minus_1)
  have bit: "bit (prefix_mask p) n \<longleftrightarrow> 32 - p \<le> n \<and> n < 32" for n
    using False by (auto simp: prefix_mask_def m bit_push_bit_iff bit_mask_iff)
  have out: "\<not> bit x n" if "\<not> n < 32" for x :: "32 word" and n
    using that bit_imp_le_length [of x n] by auto
  show ?thesis
  proof
    assume l: "a AND prefix_mask p = b AND prefix_mask p"
    have "bit a n = bit b n" if "32 - p \<le> n" "n < 32" for n
      using arg_cong [OF l, of "\<lambda>w. bit w n"] that by (simp add: bit_and_iff bit)
    then have "bit a (32 - p + m) = bit b (32 - p + m)" for m
      using out by (cases "32 - p + m < 32") auto
    then show "drop_bit (32 - p) a = drop_bit (32 - p) b"
      by (simp add: bit_eq_iff bit_drop_bit_eq)
  next
    assume r: "drop_bit (32 - p) a = drop_bit (32 - p) b"
    have "bit a n = bit b n" if "32 - p \<le> n" for n
      using arg_cong [OF r, of "\<lambda>w. bit w (n - (32 - p))"] that
      by (simp add: bit_drop_bit_eq)
    then show "a AND prefix_mask p = b AND prefix_mask p"
      by (auto simp: bit_eq_iff bit_and_iff bit)
  qed
qed

section \<open>Dotted quads\<close>

text \<open>The text \<open>a.b.c.d\<close> of an address and its number.\<close>

definition quad :: "nat \<Rightarrow> nat \<Rightarrow> nat \<Rightarrow> nat \<Rightarrow> string" where
  "quad a b c d = nat_digits a @ CHR ''.'' # nat_digits b @ CHR ''.'' # nat_digits c @
     CHR ''.'' # nat_digits d"

definition quad_value :: "nat \<Rightarrow> nat \<Rightarrow> nat \<Rightarrow> nat \<Rightarrow> nat" where
  "quad_value a b c d = a * 2 ^ 24 + b * 2 ^ 16 + c * 2 ^ 8 + d"

lemma no_sep_in_digits: "\<not> is_digit s \<Longrightarrow> s \<notin> set (nat_digits n)"
  using nat_digits_are_digits by blast

lemma not_digits [simp]: "\<not> is_digit (CHR ''.'')" "\<not> is_digit (CHR ''/'')" "\<not> is_digit (CHR '':'')"
  by (simp_all add: is_digit_def)

lemma split_quad:
  "split_on (CHR ''.'') (quad a b c d) = [nat_digits a, nat_digits b, nat_digits c, nat_digits d]"
  by (simp add: quad_def split_on_append split_on_no_sep no_sep_in_digits)

lemma hd_nat_digits: "0 < n \<Longrightarrow> hd (nat_digits n) \<noteq> CHR ''0''"
proof (induction n rule: nat_digits.induct)
  case (1 n)
  show ?case
  proof (cases "n < 10")
    case True
    have "digit_char n \<noteq> CHR ''0''"
    proof
      assume "digit_char n = CHR ''0''"
      then have "(of_char (digit_char n) :: nat) = 48" by simp
      with True "1.prems" show False by (simp add: of_char_digit)
    qed
    with True show ?thesis by (simp add: nat_digits.simps [of n])
  next
    case False
    then show ?thesis using 1 by (simp add: nat_digits.simps [of n])
  qed
qed

lemma ipv4_part_nat_digits:
  assumes "n \<le> 255"
  shows "ipv4_part (nat_digits n)"
proof -
  have "length (nat_digits n) \<le> 3"
    using assms by (simp add: nat_digits.simps [of n] nat_digits.simps [of "n div 10"]
        nat_digits.simps [of "n div 10 div 10"])
  moreover have "hd (nat_digits n) = CHR ''0'' \<longrightarrow> length (nat_digits n) = 1"
    using hd_nat_digits [of n] by (cases "n = 0") (auto simp: nat_digits.simps [of 0])
  ultimately show ?thesis
    using assms
    by (auto simp: ipv4_part_def list_all_iff digits_val_nat_digits nat_digits_are_digits)
qed

lemma ipv4ToInt_quad:
  assumes "a \<le> 255" "b \<le> 255" "c \<le> 255" "d \<le> 255"
  shows "ipv4ToInt (quad a b c d) = Some (of_nat (quad_value a b c d))"
  using assms
  by (simp add: ipv4ToInt_def isIPv4_def split_quad ipv4_part_nat_digits digits_val_nat_digits
      quad_value_def push_bit_eq_mult mult.commute)

lemma quad_value_bound:
  assumes "a \<le> 255" "b \<le> 255" "c \<le> 255" "d \<le> 255"
  shows "quad_value a b c d < 2 ^ 32"
  using assms by (simp add: quad_value_def)

lemma quad_value_prefixes:
  assumes "b \<le> 255" "c \<le> 255" "d \<le> 255"
  shows "quad_value a b c d div 2 ^ 24 = a"
    and "quad_value a b c d div 2 ^ 16 = a * 256 + b"
    and "quad_value a b c d div 2 ^ 20 = a * 16 + b div 16"
  using assms by (simp_all add: quad_value_def)

lemma trim_quad: "trim (quad a b c d) = quad a b c d"
  by (rule trim_no_ws) (auto simp: quad_def dest!: nat_digits_are_digits digits_not_ws)

lemma quad_Cons: "\<exists>x xs. quad a b c d = x # xs \<and> is_digit x"
proof -
  obtain x xs where "nat_digits a = x # xs" by (cases "nat_digits a") auto
  moreover from this have "is_digit x" using nat_digits_are_digits [of x a] by simp
  ultimately show ?thesis by (simp add: quad_def)
qed

lemma lower_digit: "is_digit x \<Longrightarrow> lower_char x = x"
  by (auto simp: lower_char_def is_digit_def Let_def)

lemma lower_quad: "to_lower (quad a b c d) = quad a b c d"
  unfolding to_lower_def
  by (rule map_idI) (auto simp: quad_def lower_digit dest!: nat_digits_are_digits)

lemma normalize_quad: "normalizeIp (Some (quad a b c d)) = Some (quad a b c d)"
proof -
  obtain x xs where q: "quad a b c d = x # xs" "is_digit x" using quad_Cons by blast
  then have "x \<noteq> CHR '':''" by auto
  moreover have "trim (x # xs) = x # xs" using trim_quad [of a b c d] q by simp
  ultimately show ?thesis
    using q by (simp add: normalizeIp_def starts_with_def Let_def)
qed

section \<open>CIDR matching\<close>

lemma cidr_prefix_bound: "cidr_prefix cidr = Some p \<Longrightarrow> p \<le> 32"
  by (auto simp: cidr_prefix_def is_integer_def split: list.splits jsnum.splits if_splits)

lemma match_by_prefix:
  assumes "cidr_prefix cidr = Some p"
    and "ipv4ToInt ip = Some x" and "ipv4ToInt (hd (split_on (CHR ''/'') cidr)) = Some y"
  shows "ipv4MatchesCidr ip cidr \<longleftrightarrow> unat x div 2 ^ (32 - p) = unat y div 2 ^ (32 - p)"
proof -
  have "ipv4MatchesCidr ip cidr \<longleftrightarrow> drop_bit (32 - p) x = drop_bit (32 - p) y"
    by (simp add: ipv4MatchesCidr_def assms mask_eq_iff_top_bits cidr_prefix_bound [OF assms(1)])
  moreover have "unat (drop_bit n w) = unat w div 2 ^ n" for n and w :: "32 word"
    by (subst unat_drop_bit_eq) (rule drop_bit_eq_div)
  ultimately show ?thesis by (simp only: word_unat_eq_iff)
qed

lemma digit_pair_eq:
  fixes a b x y m :: nat
  assumes "b < m" and "y < m"
  shows "a * m + b = x * m + y \<longleftrightarrow> a = x \<and> b = y"
proof
  assume eq: "a * m + b = x * m + y"
  from arg_cong [OF eq, of "\<lambda>n. n div m"] have "a = x" using assms by simp
  with eq show "a = x \<and> b = y" by simp
qed simp

lemma quad_value_eq:
  assumes "b \<le> 255" "c \<le> 255" "d \<le> 255" and "f \<le> 255" "g \<le> 255" "h \<le> 255"
  shows "quad_value a b c d = quad_value e f g h \<longleftrightarrow> a = e \<and> b = f \<and> c = g \<and> d = h"
proof -
  have horner: "quad_value p q r s = ((p * 256 + q) * 256 + r) * 256 + s" for p q r s
    by (simp add: quad_value_def)
  have lt: "b < 256" "c < 256" "d < 256" "f < 256" "g < 256" "h < 256" using assms by simp_all
  show ?thesis by (simp only: horner digit_pair_eq lt conj_assoc)
qed

lemma unat_quad:
  assumes "a \<le> 255" "b \<le> 255" "c \<le> 255" "d \<le> 255"
  shows "unat (of_nat (quad_value a b c d) :: 32 word) = quad_value a b c d"
  using quad_value_bound [OF assms] by (simp add: unsigned_of_nat take_bit_nat_eq_self)

lemma match_quad:
  assumes "cidr_prefix cidr = Some p" and "hd (split_on (CHR ''/'') cidr) = quad e f g h"
    and "a \<le> 255" "b \<le> 255" "c \<le> 255" "d \<le> 255"
    and "e \<le> 255" "f \<le> 255" "g \<le> 255" "h \<le> 255"
  shows "ipv4MatchesCidr (quad a b c d) cidr \<longleftrightarrow>
     quad_value a b c d div 2 ^ (32 - p) = quad_value e f g h div 2 ^ (32 - p)"
  using assms by (simp add: match_by_prefix [OF assms(1) ipv4ToInt_quad] ipv4ToInt_quad unat_quad)

lemma quad_numeral_cidrs:
  "''10.0.0.0/8'' = quad 10 0 0 0 @ CHR ''/'' # nat_digits 8"
  "''172.16.0.0/12'' = quad 172 16 0 0 @ CHR ''/'' # nat_digits 12"
  "''192.168.0.0/16'' = quad 192 168 0 0 @ CHR ''/'' # nat_digits 16"
  "''127.0.0.0/8'' = quad 127 0 0 0 @ CHR ''/'' # nat_digits 8"
  "''169.254.0.0/16'' = quad 169 254 0 0 @ CHR ''/'' # nat_digits 16"
  "''0.0.0.0/8'' = quad 0 0 0 0 @ CHR ''/'' # nat_digits 8"
  by (simp_all add: quad_def nat_digits.simps digit_char_def) code_simp+

lemma quad_no_slash: "CHR ''/'' \<notin> set (quad a b c d)"
  by (auto simp: quad_def no_sep_in_digits)

lemma cidr_prefix_quad:
  "n \<le> 32 \<Longrightarrow> cidr_prefix (quad a b c d @ CHR ''/'' # nat_digits n) = Some n"
  using no_sep_in_digits [of "CHR ''/''" n]
  by (simp add: cidr_prefix_def split_on_append quad_no_slash split_on_no_sep
      number_of_printed_nat)

lemma hd_split_quad: "hd (split_on (CHR ''/'') (quad a b c d @ CHR ''/'' # t)) = quad a b c d"
  by (simp add: split_on_append quad_no_slash)

lemma match_quad_cidr:
  assumes "n \<le> 32"
    and "a \<le> 255" "b \<le> 255" "c \<le> 255" "d \<le> 255"
    and "e \<le> 255" "f \<le> 255" "g \<le> 255" "h \<le> 255"
  shows "ipv4MatchesCidr (quad a b c d) (quad e f g h @ CHR ''/'' # nat_digits n) \<longleftrightarrow>
     quad_value a b c d div 2 ^ (32 - n) = quad_value e f g h div 2 ^ (32 - n)"
  by (rule match_quad) (use assms in \<open>simp_all add: cidr_prefix_quad hd_split_quad\<close>)

lemma private_cidrs:
  assumes "a \<le> 255" "b \<le> 255" "c \<le> 255" "d \<le> 255"
  shows "ipv4MatchesCidr (quad a b c d) ''10.0.0.0/8'' \<longleftrightarrow> a = 10"
    and "ipv4MatchesCidr (quad a b c d) ''172.16.0.0/12'' \<longleftrightarrow> a = 172 \<and> 16 \<le> b \<and> b \<le> 31"
    and "ipv4MatchesCidr (quad a b c d) ''192.168.0.0/16'' \<longleftrightarrow> a = 192 \<and> b = 168"
    and "ipv4MatchesCidr (quad a b c d) ''127.0.0.0/8'' \<longleftrightarrow> a = 127"
    and "ipv4MatchesCidr (quad a b c d) ''169.254.0.0/16'' \<longleftrightarrow> a = 169 \<and> b = 254"
    and "ipv4MatchesCidr (quad a b c d) ''0.0.0.0/8'' \<longleftrightarrow> a = 0"
proof -
  have "a * 16 + b div 16 = 172 * 16 + 1 \<longleftrightarrow> a = 172 \<and> b div 16 = 1"
    using assms(2) by (intro digit_pair_eq) simp_all
  moreover have "b div 16 = 1 \<longleftrightarrow> 16 \<le> b \<and> b \<le> 31" by arith
  ultimately have twelve: "a * 16 + b div 16 = 172 * 16 + 1 \<longleftrightarrow> a = 172 \<and> 16 \<le> b \<and> b \<le> 31"
    by simp
  have sixteen: "a * 256 + b = x * 256 + y \<longleftrightarrow> a = x \<and> b = y" if "y \<le> 255" for x y
    using assms(2) that by (intro digit_pair_eq) simp_all
  note v = quad_value_prefixes [OF assms(2-4), of a]
  show "ipv4MatchesCidr (quad a b c d) ''10.0.0.0/8'' \<longleftrightarrow> a = 10"
    unfolding quad_numeral_cidrs(1)
    using v by (simp add: match_quad_cidr assms quad_value_def [of 10])
  show "ipv4MatchesCidr (quad a b c d) ''172.16.0.0/12'' \<longleftrightarrow> a = 172 \<and> 16 \<le> b \<and> b \<le> 31"
    unfolding quad_numeral_cidrs(2)
    using v twelve by (simp add: match_quad_cidr assms quad_value_def [of 172])
  show "ipv4MatchesCidr (quad a b c d) ''192.168.0.0/16'' \<longleftrightarrow> a = 192 \<and> b = 168"
    unfolding quad_numeral_cidrs(3)
    using v sixteen [of 168 192] by (simp add: match_quad_cidr assms quad_value_def [of 192])
  show "ipv4MatchesCidr (quad a b c d) ''127.0.0.0/8'' \<longleftrightarrow> a = 127"
    unfolding quad_numeral_cidrs(4)
    using v by (simp add: match_quad_cidr assms quad_value_def [of 127])
  show "ipv4MatchesCidr (quad a b c d) ''169.254.0.0/16'' \<longleftrightarrow> a = 169 \<and> b = 254"
    unfolding quad_numeral_cidrs(5)
    using v sixteen [of 254 169] by (simp add: match_quad_cidr assms quad_value_def [of 169])
  show "ipv4MatchesCidr (quad a b c d) ''0.0.0.0/8'' \<longleftrightarrow> a = 0"
    unfolding quad_numeral_cidrs(6)
    using v by (simp add: match_quad_cidr assms quad_value_def [of 0])
qed

lemma broadcast_quad:
  assumes "a \<le> 255" "b \<le> 255" "c \<le> 255" "d \<le> 255"
  shows "(of_nat (quad_value a b c d) :: 32 word) = 0xffffffff \<longleftrightarrow>
     a = 255 \<and> b = 255 \<and> c = 255 \<and> d = 255"
proof -
  have "(of_nat (quad_value a b c d) :: 32 word) = 0xffffffff \<longleftrightarrow> quad_value a b c d = 0xffffffff"
    by (simp add: word_unat_eq_iff unat_quad assms)
  also have "\<dots> \<longleftrightarrow> quad_value a b c d = quad_value 255 255 255 255"
    by (simp add: quad_value_def)
  also have "\<dots> \<longleftrightarrow> a = 255 \<and> b = 255 \<and> c = 255 \<and> d = 255"
    using assms by (simp add: quad_value_eq)
  finally show ?thesis .
qed

section \<open>Properties\<close>

text \<open>
  CIDR matching on 32-bit words is the arithmetic one. For a CIDR entry
  \<open>e.f.g.h/n\<close> and an address \<open>a.b.c.d\<close>, the code's shift-and-mask comparison holds
  exactly when the two addresses agree after division by \<open>2 ^ (32 - n)\<close>; at \<open>n = 32\<close> that
  is equality and at \<open>n = 0\<close> every address matches.
\<close>

theorem cidr_match_is_prefix_equality:
  assumes "n \<le> 32"
    and "a \<le> 255" "b \<le> 255" "c \<le> 255" "d \<le> 255"
    and "e \<le> 255" "f \<le> 255" "g \<le> 255" "h \<le> 255"
  shows "ipv4MatchesCidr (quad a b c d) (quad e f g h @ CHR ''/'' # nat_digits n) \<longleftrightarrow>
     quad_value a b c d div 2 ^ (32 - n) = quad_value e f g h div 2 ^ (32 - n)"
  by (rule match_quad_cidr) (use assms in auto)

theorem cidr_match_is_prefix_equality_witness:
  "ipv4MatchesCidr (quad 10 7 0 9) (quad 10 0 0 0 @ CHR ''/'' # nat_digits 8) \<and>
   \<not> ipv4MatchesCidr (quad 11 7 0 9) (quad 10 0 0 0 @ CHR ''/'' # nat_digits 8)"
  using cidr_match_is_prefix_equality [of 8 10 7 0 9 10 0 0 0]
    cidr_match_is_prefix_equality [of 8 11 7 0 9 10 0 0 0]
  by (simp add: quad_value_def)

text \<open>
  The private-address test, which keeps the REST connector off internal networks,
  accepts exactly the private, loopback, link-local and \<open>0.x\<close> ranges and the broadcast
  address, for every dotted quad.
\<close>

theorem private_ranges:
  assumes "a \<le> 255" "b \<le> 255" "c \<le> 255" "d \<le> 255"
  shows "isPrivateOrLocalAddress (quad a b c d) \<longleftrightarrow>
     a = 10 \<or> a = 172 \<and> 16 \<le> b \<and> b \<le> 31 \<or> a = 192 \<and> b = 168 \<or> a = 127 \<or>
     a = 169 \<and> b = 254 \<or> a = 0 \<or> a = 255 \<and> b = 255 \<and> c = 255 \<and> d = 255"
proof -
  obtain x xs where q: "quad a b c d = x # xs" and x: "is_digit x" using quad_Cons by blast
  then have "quad a b c d \<noteq> ''localhost''" "quad a b c d \<noteq> ''::1''" "quad a b c d \<noteq> []"
    by (auto simp: is_digit_def)
  then show ?thesis
    by (simp add: isPrivateOrLocalAddress_def lower_quad normalize_quad ipv4ToInt_quad
        private_cidrs broadcast_quad assms)
qed

theorem private_ranges_witness:
  "isPrivateOrLocalAddress (quad 172 31 255 255) \<and> \<not> isPrivateOrLocalAddress (quad 172 32 0 0)"
  using private_ranges [of 172 31 255 255] private_ranges [of 172 32 0 0] by simp

text \<open>
  A CIDR entry whose prefix text is empty (a trailing slash, as left by a template with
  a missing variable) is read as prefix 0, because \<open>Number('')\<close> is 0: such an entry of the
  trusted-proxy allowlist admits every IPv4 address.
\<close>

theorem trailing_slash_admits_everyone:
  assumes "a \<le> 255" "b \<le> 255" "c \<le> 255" "d \<le> 255"
    and "e \<le> 255" "f \<le> 255" "g \<le> 255" "h \<le> 255"
  shows "isIpAllowed (Some (quad a b c d)) [quad e f g h @ ''/'']"
proof -
  let ?entry = "quad e f g h @ CHR ''/'' # []"
  obtain x xs where q: "quad e f g h = x # xs" and x: "is_digit x" using quad_Cons by blast
  have "trim ?entry = ?entry"
    by (rule trim_no_ws) (auto simp: quad_def dest!: nat_digits_are_digits digits_not_ws)
  with q x have norm: "normalizeIp (Some ?entry) = Some ?entry"
    by (auto simp: normalizeIp_def starts_with_def Let_def)
  have "cidr_prefix ?entry = Some 0"
    by (simp add: cidr_prefix_def split_on_append quad_no_slash number_of_string_def trim_def
        is_integer_def)
  then have "ipv4MatchesCidr (quad a b c d) ?entry"
    using quad_value_bound [of a b c d] quad_value_bound [of e f g h] assms
    by (simp add: match_quad [OF _ hd_split_quad])
  then show ?thesis
    by (simp add: isIpAllowed_def normalize_quad norm) (simp add: quad_def)
qed

theorem trailing_slash_admits_everyone_witness:
  "isIpAllowed (Some (quad 203 0 113 9)) [quad 10 0 0 0 @ ''/'']"
  by (rule trailing_slash_admits_everyone) simp_all

end
