(* ===== verification/Auth.thy ===== *)
theory Auth
  imports Encryption IpUtils JsNumber
begin

text \<open>
  Models \<open>auth/auth.service.ts\<close>, \<open>auth/admin-auth.middleware.ts\<close> and
  \<open>security/constant-time.ts\<close>: the signed session cookie, the local and header logins, and the
  middleware that guards the admin interface. The configuration service is three lookups by
  name; the clock, the random bytes and the platform are arguments.
\<close>

section \<open>Configuration and requests\<close>

record app_cfg =
  cfg_str :: "string \<Rightarrow> string option"
  cfg_bool :: "string \<Rightarrow> bool option"
  cfg_num :: "string \<Rightarrow> jsnum option"

text \<open>A header has its values in order; names are in lower case, as Node delivers them.\<close>

record http_request =
  rq_method :: string
  rq_path :: string
  rq_headers :: "string \<Rightarrow> string list option"
  rq_ip :: "string option"
  rq_remoteAddress :: "string option"

definition header :: "http_request \<Rightarrow> string \<Rightarrow> string option" where
  "header req name =
     (case rq_headers req (to_lower name) of Some (v # _) \<Rightarrow> Some v | _ \<Rightarrow> None)"

definition csv :: "app_cfg \<Rightarrow> string \<Rightarrow> string list" where
  "csv c name = csv_values (or_else (cfg_str c name) [])"

section \<open>Constant-time comparison\<close>

fun unhex :: "string \<Rightarrow> string" where
  "unhex (a # b # r) = char_of (radix_digit a * 16 + radix_digit b) # unhex r"
| "unhex _ = []"

definition hmac_bytes :: "platform \<Rightarrow> string \<Rightarrow> string \<Rightarrow> string" where
  "hmac_bytes P key msg = unhex (hmac_sha256_hex P key msg)"

definition fixedLengthFingerprint :: "platform \<Rightarrow> string \<Rightarrow> string \<Rightarrow> string" where
  "fixedLengthFingerprint P value purpose =
     b64_encode True (hmac_bytes P ''idmmw-fixed-length-comparison-v1'' (purpose @ [CHR 0x00] @ value))"

definition safeEqualFixedLength :: "platform \<Rightarrow> string \<Rightarrow> string \<Rightarrow> string \<Rightarrow> bool" where
  "safeEqualFixedLength P a b purpose \<longleftrightarrow>
     b64_decode (fixedLengthFingerprint P a purpose) = b64_decode (fixedLengthFingerprint P b purpose)"

definition auth_safeEqual :: "platform \<Rightarrow> string \<Rightarrow> string \<Rightarrow> bool" where
  "auth_safeEqual P a b = safeEqualFixedLength P a b ''auth-service''"

section \<open>Modes and providers\<close>

definition auth_isEnabled :: "app_cfg \<Rightarrow> bool" where
  "auth_isEnabled c = or_else (cfg_bool c ''ADMIN_AUTH_ENABLED'') False"

definition auth_mode :: "app_cfg \<Rightarrow> string" where
  "auth_mode c =
     (let mode = or_else (cfg_str c ''ADMIN_AUTH_MODE'') ''local'' in
      if mode = ''sso'' \<or> mode = ''both'' then mode else ''local'')"

definition ssoProviders :: "app_cfg \<Rightarrow> string list" where
  "ssoProviders c =
     (if auth_mode c = ''local'' then []
      else filter (\<lambda>p. p \<in> {''header'', ''oidc'', ''saml''})
        (if csv c ''ADMIN_AUTH_SSO_PROVIDERS'' = [] then [''header'']
         else csv c ''ADMIN_AUTH_SSO_PROVIDERS''))"

definition isSsoProviderEnabled :: "app_cfg \<Rightarrow> string \<Rightarrow> bool" where
  "isSsoProviderEnabled c provider \<longleftrightarrow> provider \<in> set (ssoProviders c)"

definition cookieName :: "app_cfg \<Rightarrow> string" where
  "cookieName c = or_else (cfg_str c ''ADMIN_AUTH_COOKIE_NAME'') ''idmmw_admin_session''"

definition ttlSeconds :: "app_cfg \<Rightarrow> jsnum" where
  "ttlSeconds c = or_else (cfg_num c ''ADMIN_AUTH_SESSION_TTL_SECONDS'') (Fin 28800)"

definition sameSite :: "app_cfg \<Rightarrow> string" where
  "sameSite c =
     (let s = or_else (cfg_str c ''ADMIN_AUTH_COOKIE_SAMESITE'') ''Strict'' in
      if s \<in> {''Strict'', ''Lax'', ''None''} then s else ''Strict'')"

definition secureCookie :: "app_cfg \<Rightarrow> bool" where
  "secureCookie c =
     (case cfg_bool c ''ADMIN_AUTH_COOKIE_SECURE'' of
        Some b \<Rightarrow> b
      | None \<Rightarrow> cfg_str c ''NODE_ENV'' = Some ''production'' \<or>
          or_else (cfg_bool c ''HTTP_TLS_ENABLED'') False)"

section \<open>Sessions\<close>

text \<open>
  A session is read from signed JSON without a check of its fields: those of a session that a login creates are
  texts, those of another value may be missing.
\<close>

record admin_session =
  ses_sub :: jsval
  ses_name :: jsval
  ses_provider :: jsval
  ses_groups :: "string list"
  ses_csrfToken :: jsval
  ses_expiresAt :: jsval

definition session_val :: "admin_session \<Rightarrow> jsval" where
  "session_val s =
     Obj [(''sub'', ses_sub s), (''name'', ses_name s), (''provider'', ses_provider s),
       (''groups'', Arr (map Str (ses_groups s))), (''csrfToken'', ses_csrfToken s),
       (''expiresAt'', ses_expiresAt s)]"

text \<open>
  The session that a JSON value is read as. Only values that the service has signed get here; their groups, where
  they have any, are texts.
\<close>

fun str_items :: "jsval list \<Rightarrow> string list" where
  "str_items [] = []"
| "str_items (Str s # r) = s # str_items r"
| "str_items (_ # r) = str_items r"

definition session_of :: "jsval \<Rightarrow> admin_session option" where
  "session_of v =
     (case v of
        Obj kvs \<Rightarrow>
          Some \<lparr>ses_sub = js_get kvs ''sub'', ses_name = js_get kvs ''name'', ses_provider = js_get kvs ''provider'',
            ses_groups = (case js_get kvs ''groups'' of Arr gs \<Rightarrow> str_items gs | _ \<Rightarrow> []),
            ses_csrfToken = js_get kvs ''csrfToken'', ses_expiresAt = js_get kvs ''expiresAt''\<rparr>
      | _ \<Rightarrow> None)"

text \<open>A session has an end that is not over.\<close>

definition session_live :: "nat \<Rightarrow> admin_session \<Rightarrow> bool" where
  "session_live now s \<longleftrightarrow>
     truthy (ses_expiresAt s) \<and> \<not> js_gt (Fin (of_nat now)) (number_of_val (ses_expiresAt s))"

definition sessionSecret :: "app_cfg \<Rightarrow> string result" where
  "sessionSecret c =
     (case cfg_str c ''ADMIN_AUTH_SESSION_SECRET'' of
        Some (x # s) \<Rightarrow> Inr (x # s)
      | _ \<Rightarrow> Inl (JsError ''ADMIN_AUTH_SESSION_SECRET is required when ADMIN_AUTH_ENABLED=true''))"

definition auth_sign :: "platform \<Rightarrow> app_cfg \<Rightarrow> string \<Rightarrow> string result" where
  "auth_sign P c payload =
     ebind (sessionSecret c) (\<lambda>k. Inr (b64_encode True (hmac_bytes P k payload)))"

definition createSession ::
  "app_cfg \<Rightarrow> string \<Rightarrow> nat \<Rightarrow> string \<Rightarrow> string \<Rightarrow> string \<Rightarrow> string list \<Rightarrow> admin_session" where
  "createSession c random_bytes now sub name provider groups =
     \<lparr>ses_sub = Str sub, ses_name = Str name, ses_provider = Str provider, ses_groups = groups,
      ses_csrfToken = Str (b64_encode True random_bytes), ses_expiresAt = Num (shift_num (of_nat now) (milliseconds (ttlSeconds c)))\<rparr>"

definition session_cookie :: "platform \<Rightarrow> app_cfg \<Rightarrow> admin_session \<Rightarrow> string result" where
  "session_cookie P c s =
     (let payload = b64_encode True (json_print P (session_val s)) in
      ebind (auth_sign P c payload) (\<lambda>sig. Inr (payload @ ''.'' @ sig)))"

definition cookieAttributes :: "app_cfg \<Rightarrow> string" where
  "cookieAttributes c =
     ''Max-Age='' @ number_to_string (ttlSeconds c) @ ''; Path=/; HttpOnly; SameSite='' @ sameSite c @
     (if secureCookie c then ''; Secure'' else [])"

definition writeSessionCookie :: "platform \<Rightarrow> app_cfg \<Rightarrow> admin_session \<Rightarrow> string result" where
  "writeSessionCookie P c s =
     ebind (session_cookie P c s) (\<lambda>v. Inr (cookieName c @ ''='' @ v @ ''; '' @ cookieAttributes c))"

definition clearCookieHeader :: "app_cfg \<Rightarrow> string" where
  "clearCookieHeader c =
     cookieName c @ ''=; Max-Age=0; Path=/; HttpOnly; SameSite='' @ sameSite c"

section \<open>Reading a session\<close>

definition cookie_pair :: "string \<Rightarrow> string \<times> string" where
  "cookie_pair part =
     (case split_on (CHR ''='') (trim part) of key # rest \<Rightarrow> (key, join_with ''='' rest))"

definition cookies :: "http_request \<Rightarrow> (string \<times> string) list" where
  "cookies req =
     (case header req ''cookie'' of
        Some (x # raw) \<Rightarrow> map cookie_pair (split_on (CHR '';'') (x # raw))
      | _ \<Rightarrow> [])"

text \<open>\<open>Object.fromEntries\<close> keeps the last value of a key.\<close>

definition cookie :: "http_request \<Rightarrow> string \<Rightarrow> string option" where
  "cookie req name = map_of (rev (cookies req)) name"

definition decode_session :: "platform \<Rightarrow> nat \<Rightarrow> string \<Rightarrow> admin_session option" where
  "decode_session P now payload =
     (case json_parse P (b64_decode payload) of
        None \<Rightarrow> None
      | Some v \<Rightarrow> (case session_of v of
            None \<Rightarrow> None
          | Some s \<Rightarrow> if session_live now s then Some s else None))"

definition readSession :: "platform \<Rightarrow> app_cfg \<Rightarrow> nat \<Rightarrow> http_request \<Rightarrow> admin_session option result" where
  "readSession P c now req =
     (case cookie req (cookieName c) of
        Some (x # raw) \<Rightarrow>
          (case split_on (CHR ''.'') (x # raw) of
             (p # payload) # (s # signature) # _ \<Rightarrow>
               ebind (auth_sign P c (p # payload)) (\<lambda>expected.
                 Inr (if auth_safeEqual P (s # signature) expected
                      then decode_session P now (p # payload) else None))
           | _ \<Rightarrow> Inr None)
      | _ \<Rightarrow> Inr None)"

section \<open>Logins\<close>

definition isSsoAllowed :: "app_cfg \<Rightarrow> string \<Rightarrow> string list \<Rightarrow> bool" where
  "isSsoAllowed c user groups \<longleftrightarrow>
     user \<in> set (csv c ''ADMIN_AUTH_ALLOWLIST'') \<or>
     (\<exists>g \<in> set groups. g \<in> set (csv c ''ADMIN_AUTH_ALLOWED_GROUPS''))"

definition isTrustedSsoSource :: "app_cfg \<Rightarrow> http_request \<Rightarrow> bool" where
  "isTrustedSsoSource c req \<longleftrightarrow>
     (let allowlist = csv c ''ADMIN_AUTH_TRUSTED_PROXY_CIDRS'' in
      allowlist \<noteq> [] \<and>
      (isIpAllowed (rq_ip req) allowlist \<or> isIpAllowed (rq_remoteAddress req) allowlist))"

definition extractSsoIdentity :: "app_cfg \<Rightarrow> http_request \<Rightarrow> (string \<times> string list) option" where
  "extractSsoIdentity c req =
     (case header req (or_else (cfg_str c ''ADMIN_AUTH_SSO_USER_HEADER'') ''x-authenticated-user'') of
        Some (u # user) \<Rightarrow>
          Some (u # user, filter (\<lambda>g. g \<noteq> []) (map trim (split_str
            (or_else (cfg_str c ''ADMIN_AUTH_SSO_GROUPS_DELIMITER'') '','')
            (or_else (header req (or_else (cfg_str c ''ADMIN_AUTH_SSO_GROUPS_HEADER'')
               ''x-authenticated-groups'')) []))))
      | _ \<Rightarrow> None)"

text \<open>A login answers with the session and the cookie it sets, or throws.\<close>

definition issue :: "platform \<Rightarrow> app_cfg \<Rightarrow> admin_session \<Rightarrow> (admin_session \<times> string) result" where
  "issue P c s = ebind (writeSessionCookie P c s) (\<lambda>h. Inr (s, h))"

definition nonempty :: "string option \<Rightarrow> bool" where
  "nonempty x \<longleftrightarrow> x \<noteq> None \<and> x \<noteq> Some []"

definition loginLocal ::
  "platform \<Rightarrow> app_cfg \<Rightarrow> string \<Rightarrow> nat \<Rightarrow> string \<Rightarrow> string \<Rightarrow> (admin_session \<times> string) option result" where
  "loginLocal P c random_bytes now username password =
     (if \<not> auth_isEnabled c then Inr None
      else if auth_mode c = ''sso'' then Inl (Unauthorized ''Local admin login is disabled'')
      else let u = cfg_str c ''ADMIN_AUTH_LOCAL_USERNAME''; p = cfg_str c ''ADMIN_AUTH_LOCAL_PASSWORD'' in
        if \<not> nonempty u \<or> \<not> nonempty p \<or> \<not> auth_safeEqual P username (the u) \<or>
           \<not> auth_safeEqual P password (the p)
        then Inl (Unauthorized ''Invalid admin credentials'')
        else ebind (issue P c (createSession c random_bytes now username username ''local'' []))
               (\<lambda>x. Inr (Some x)))"

definition loginSso ::
  "platform \<Rightarrow> app_cfg \<Rightarrow> string \<Rightarrow> nat \<Rightarrow> http_request \<Rightarrow> (admin_session \<times> string) option result" where
  "loginSso P c random_bytes now req =
     (if \<not> auth_isEnabled c then Inr None
      else if auth_mode c = ''local'' then Inl (Unauthorized ''SSO admin login is disabled'')
      else if \<not> isSsoProviderEnabled c ''header''
      then Inl (Unauthorized ''Header SSO admin login is disabled'')
      else if \<not> isTrustedSsoSource c req
      then Inl (Unauthorized ''SSO headers require a trusted proxy'')
      else case extractSsoIdentity c req of
        Some (user, groups) \<Rightarrow>
          if isSsoAllowed c user groups
          then ebind (issue P c (createSession c random_bytes now user user ''header-sso'' groups))
                 (\<lambda>x. Inr (Some x))
          else Inl (Unauthorized ''SSO user is not allowed for Admin UI'')
      | None \<Rightarrow> Inl (Unauthorized ''SSO user is not allowed for Admin UI''))"

definition loginExternal ::
  "platform \<Rightarrow> app_cfg \<Rightarrow> string \<Rightarrow> nat \<Rightarrow> string \<Rightarrow> string list \<Rightarrow> string \<Rightarrow>
   (admin_session \<times> string) option result" where
  "loginExternal P c random_bytes now user groups provider =
     (if \<not> auth_isEnabled c then Inr None
      else if auth_mode c = ''local'' then Inl (Unauthorized ''SSO admin login is disabled'')
      else if \<not> isSsoAllowed c user groups
      then Inl (Unauthorized ''SSO user is not allowed for Admin UI'')
      else ebind (issue P c (createSession c random_bytes now user user provider groups))
             (\<lambda>x. Inr (Some x)))"

definition disabled_session :: "nat \<Rightarrow> admin_session" where
  "disabled_session now =
     \<lparr>ses_sub = Str ''auth-disabled'', ses_name = Str ''Auth disabled'', ses_provider = Str ''disabled'',
      ses_groups = [], ses_csrfToken = Str ''auth-disabled'', ses_expiresAt = num (of_nat (now + 60000))\<rparr>"

text \<open>The session of a request, with the cookie that is set when it is a new one.\<close>

definition authenticateRequest ::
  "platform \<Rightarrow> app_cfg \<Rightarrow> string \<Rightarrow> nat \<Rightarrow> http_request \<Rightarrow>
   (admin_session \<times> string option) option result" where
  "authenticateRequest P c random_bytes now req =
     (if \<not> auth_isEnabled c then Inr (Some (disabled_session now, None))
      else ebind (readSession P c now req) (\<lambda>session. case session of
        Some s \<Rightarrow> Inr (Some (s, None))
      | None \<Rightarrow>
          if auth_mode c \<noteq> ''local'' \<and> isSsoProviderEnabled c ''header'' \<and> isTrustedSsoSource c req
          then (case extractSsoIdentity c req of
                  Some (user, groups) \<Rightarrow>
                    if isSsoAllowed c user groups
                    then ebind (issue P c (createSession c random_bytes now user user ''header-sso'' groups))
                           (\<lambda>(s, h). Inr (Some (s, Some h)))
                    else Inr None
                | None \<Rightarrow> Inr None)
          else Inr None))"

text \<open>The comparison throws when the session has no token.\<close>

definition verifyCsrf :: "platform \<Rightarrow> app_cfg \<Rightarrow> http_request \<Rightarrow> admin_session \<Rightarrow> bool result" where
  "verifyCsrf P c req s =
     (if \<not> auth_isEnabled c then Inr True
      else case header req ''x-csrf-token'' of
        Some (x # v) \<Rightarrow>
          (case ses_csrfToken s of Str token \<Rightarrow> Inr (auth_safeEqual P (x # v) token) | _ \<Rightarrow> Inl type_error)
      | _ \<Rightarrow> Inr False)"

section \<open>The admin middleware\<close>

datatype middleware_result =
    Next "admin_session option"
  | Reject nat string

definition requiresAdminAuth :: "string \<Rightarrow> bool" where
  "requiresAdminAuth path \<longleftrightarrow>
     path = ''/auth/logout'' \<or> path = ''/admin'' \<or> starts_with ''/admin/'' path"

definition SAFE_METHODS :: "string set" where
  "SAFE_METHODS = {''GET'', ''HEAD'', ''OPTIONS''}"

definition admin_middleware ::
  "platform \<Rightarrow> app_cfg \<Rightarrow> string \<Rightarrow> nat \<Rightarrow> http_request \<Rightarrow> middleware_result result" where
  "admin_middleware P c random_bytes now req =
     (if \<not> requiresAdminAuth (rq_path req) then Inr (Next None)
      else ebind (authenticateRequest P c random_bytes now req) (\<lambda>r. case r of
        None \<Rightarrow> Inr (Reject 401 ''Admin authentication required'')
      | Some (session, _) \<Rightarrow>
          if rq_method req \<notin> SAFE_METHODS
          then ebind (verifyCsrf P c req session) (\<lambda>ok.
            Inr (if ok then Next (Some session) else Reject 403 ''Invalid CSRF token''))
          else Inr (Next (Some session))))"

section \<open>Session status\<close>

record session_status =
  st_authEnabled :: bool
  st_authenticated :: bool
  st_user :: "(jsval \<times> jsval \<times> jsval \<times> string list) option"
  st_csrfToken :: "jsval option"
  st_mode :: string
  st_ssoProviders :: "string list option"

definition issueDisabledStatus :: session_status where
  "issueDisabledStatus =
     \<lparr>st_authEnabled = False, st_authenticated = True,
      st_user = Some (Str ''auth-disabled'', Str ''Auth disabled'', Str ''disabled'', []),
      st_csrfToken = None, st_mode = ''disabled'', st_ssoProviders = None\<rparr>"

definition sessionStatusFromSession :: "app_cfg \<Rightarrow> admin_session \<Rightarrow> session_status" where
  "sessionStatusFromSession c s =
     \<lparr>st_authEnabled = True, st_authenticated = True,
      st_user = Some (ses_sub s, ses_name s, ses_provider s, ses_groups s),
      st_csrfToken = Some (ses_csrfToken s), st_mode = auth_mode c,
      st_ssoProviders = Some (ssoProviders c)\<rparr>"

definition sessionStatus :: "platform \<Rightarrow> app_cfg \<Rightarrow> nat \<Rightarrow> http_request \<Rightarrow> session_status result" where
  "sessionStatus P c now req =
     (if \<not> auth_isEnabled c then Inr issueDisabledStatus
      else ebind (readSession P c now req) (\<lambda>r. Inr (case r of
        None \<Rightarrow> \<lparr>st_authEnabled = True, st_authenticated = False, st_user = None,
                 st_csrfToken = None, st_mode = auth_mode c, st_ssoProviders = Some (ssoProviders c)\<rparr>
      | Some s \<Rightarrow> sessionStatusFromSession c s)))"

section \<open>The cookie\<close>

lemma str_items_map [simp]: "str_items (map Str gs) = gs"
  by (induction gs) simp_all

lemma session_of_val: "session_of (session_val s) = Some s"
  by (cases s) (simp add: session_of_def session_val_def js_get_def)

lemma last_cookie:
  assumes "header req ''cookie'' = Some (before @ part)" "part \<noteq> []" "CHR '';'' \<notin> set part"
    and "before = [] \<or> (\<exists>b. before = b @ '';'') \<or> (\<exists>b. before = b @ ''; '')"
    and "cookie_pair part = (k, v)"
  shows "cookie req k = Some v"
proof -
  have pair: "cookie_pair (CHR '' '' # part) = (k, v)"
    using assms(5) by (simp add: cookie_pair_def trim_def is_ws_def trim_start_def)
  obtain ps q where split: "split_on (CHR '';'') (before @ part) = ps @ [q]" "cookie_pair q = (k, v)"
  proof -
    have at_end: "split_on (CHR '';'') (b @ CHR '';'' # x) = split_on (CHR '';'') b @ [x]"
      if "CHR '';'' \<notin> set x" for b x
      using that by (induction b) (auto simp: split_on_no_sep split: list.splits)
    show ?thesis
      using assms(4)
    proof (elim disjE exE)
      assume "before = []"
      then show ?thesis using that [of "[]" part] assms(3,5) by (simp add: split_on_no_sep)
    next
      fix b assume "before = b @ '';''"
      then show ?thesis using that at_end [OF assms(3), of b] assms(5) by simp
    next
      fix b assume "before = b @ ''; ''"
      then show ?thesis using that at_end [of "CHR '' '' # part" b] assms(3) pair by simp
    qed
  qed
  obtain x raw where "before @ part = x # raw" using assms(2) by (cases "before @ part") auto
  then have "cookies req = map cookie_pair ps @ [(k, v)]"
    using assms(1) split by (simp add: cookies_def)
  then show ?thesis by (simp add: cookie_def)
qed

definition cookie_token :: "string \<Rightarrow> bool" where
  "cookie_token s \<longleftrightarrow> s \<noteq> [] \<and> (\<forall>x \<in> set s. x \<noteq> CHR ''='' \<and> x \<noteq> CHR '';'' \<and> \<not> is_ws x)"

lemma url_char_token: "url_char x \<Longrightarrow> x \<noteq> CHR ''='' \<and> x \<noteq> CHR '';'' \<and> x \<noteq> CHR ''.'' \<and> \<not> is_ws x"
  using url_char_value [of x] by (auto simp: is_ws_def b64_value_def)

lemma session_cookie_parts:
  assumes "session_cookie P c s = Inr v"
  shows "\<exists>sig. let payload = b64_encode True (json_print P (session_val s)) in
    auth_sign P c payload = Inr sig \<and> v = payload @ CHR ''.'' # sig \<and>
    list_all url_char payload \<and> list_all url_char sig"
  using assms b64_url_chars
  by (auto simp: session_cookie_def auth_sign_def Let_def ebind_Inr_iff)


lemma cookie_pair_token:
  assumes "cookie_token name" "list_all (\<lambda>x. \<not> is_ws x) v"
  shows "cookie_pair (name @ CHR ''='' # v) = (name, v)"
proof -
  have "\<not> is_ws (CHR ''='')" by (simp add: is_ws_def)
  with assms have "trim (name @ CHR ''='' # v) = name @ CHR ''='' # v"
    by (intro trim_no_ws) (auto simp: cookie_token_def list_all_iff)
  moreover have "split_on (CHR ''='') (name @ CHR ''='' # v) = name # split_on (CHR ''='') v"
    using assms(1) by (intro split_on_append) (auto simp: cookie_token_def)
  ultimately show ?thesis by (simp add: cookie_pair_def join_split_on)
qed

text \<open>Any text that was signed with the secret of the sessions is read as a session, if it decodes to one.\<close>

lemma read_signed_cookie:
  assumes "auth_sign P c (b64_encode True content) = Inr sig"
    and "header req ''cookie'' = Some (before @ cookieName c @ ''='' @ b64_encode True content @ ''.'' @ sig)"
    and "before = [] \<or> (\<exists>b. before = b @ '';'') \<or> (\<exists>b. before = b @ ''; '')"
    and "cookie_token (cookieName c)" "decode_session P now (b64_encode True content) = Some s"
    and "content \<noteq> []" "\<And>k m. hmac_bytes P k m \<noteq> []"
  shows "readSession P c now req = Inr (Some s)"
proof -
  define payload where "payload = b64_encode True content"
  define v where "v = payload @ CHR ''.'' # sig"
  have chars: "list_all url_char payload" "list_all url_char sig"
    using assms(1) b64_url_chars by (auto simp: payload_def auth_sign_def ebind_Inr_iff)
  have tok: "list_all (\<lambda>x. \<not> is_ws x) v" "CHR '';'' \<notin> set v"
    using chars url_char_token by (auto simp: v_def list_all_iff is_ws_def)
  have c: "cookie req (cookieName c) = Some v"
  proof (rule last_cookie)
    show "header req ''cookie'' = Some (before @ (cookieName c @ CHR ''='' # v))"
      using assms(2) by (simp add: v_def payload_def)
    show "CHR '';'' \<notin> set (cookieName c @ CHR ''='' # v)"
      using tok(2) assms(4) by (auto simp: cookie_token_def)
    show "cookie_pair (cookieName c @ CHR ''='' # v) = (cookieName c, v)"
      by (rule cookie_pair_token [OF assms(4) tok(1)])
  qed (use assms(3) in simp_all)
  have ne: "b64_encode True x \<noteq> []" if "x \<noteq> []" for x
    using that b64_roundtrip [of True x] by (auto simp: b64_decode_def)
  have "payload \<noteq> []" using ne assms(6) by (simp add: payload_def)
  moreover have "sig \<noteq> []"
    using assms(1,7) ne by (auto simp: auth_sign_def ebind_Inr_iff)
  moreover have "CHR ''.'' \<notin> set payload" "CHR ''.'' \<notin> set sig"
    using chars url_char_token by (auto simp: list_all_iff)
  then have "split_on (CHR ''.'') v = [payload, sig]"
    by (simp add: v_def split_on_append split_on_no_sep)
  moreover have "v \<noteq> []" by (simp add: v_def)
  ultimately show ?thesis
    using assms(1,5)
    by (auto simp: readSession_def c neq_Nil_conv auth_safeEqual_def safeEqualFixedLength_def payload_def [symmetric])
qed

lemma read_written_cookie:
  assumes "session_cookie P c s = Inr v"
    and "header req ''cookie'' = Some (before @ cookieName c @ ''='' @ v)"
    and "before = [] \<or> (\<exists>b. before = b @ '';'') \<or> (\<exists>b. before = b @ ''; '')"
    and "cookie_token (cookieName c)"
    and "json_parse P (json_print P (session_val s)) = Some (session_val s)"
    and "session_live now s"
    and "json_print P (session_val s) \<noteq> []" "\<And>k m. hmac_bytes P k m \<noteq> []"
  shows "readSession P c now req = Inr (Some s)"
proof -
  obtain sig where sig: "auth_sign P c (b64_encode True (json_print P (session_val s))) = Inr sig"
    and v: "v = b64_encode True (json_print P (session_val s)) @ CHR ''.'' # sig"
    using session_cookie_parts [OF assms(1)] by (auto simp: Let_def)
  have "decode_session P now (b64_encode True (json_print P (session_val s))) = Some s"
    using assms(5,6) by (simp add: decode_session_def b64_roundtrip session_of_val)
  then show ?thesis using assms(2) by (intro read_signed_cookie [OF sig _ assms(3,4) _ assms(7,8)]) (simp_all add: v)
qed

section \<open>Properties\<close>

text \<open>
  C12: a session cookie is read back. What a login writes is, sent back as the last cookie of a
  request and whatever cookies come before it, exactly the session that was written, until it
  expires. The hypotheses are that the cookie name is a token, that the session survives
  \<open>JSON.stringify\<close> and \<open>JSON.parse\<close>, and that a digest and a JSON text are not empty.
\<close>

theorem session_cookie_roundtrip:
  assumes "session_cookie P c s = Inr v"
    and "header req ''cookie'' = Some (before @ cookieName c @ ''='' @ v)"
    and "before = [] \<or> (\<exists>b. before = b @ '';'') \<or> (\<exists>b. before = b @ ''; '')"
    and "cookie_token (cookieName c)"
    and "json_parse P (json_print P (session_val s)) = Some (session_val s)"
    and "session_live now s"
    and "json_print P (session_val s) \<noteq> []" "\<And>k m. hmac_bytes P k m \<noteq> []"
  shows "readSession P c now req = Inr (Some s)"
  by (rule read_written_cookie [OF assms])

text \<open>
  The cookie of a login with OpenID Connect, in \<open>auth/oidc-auth.service.ts\<close>: its state, with what the library has
  drawn, is signed with the same secret and in the same format as a session.
\<close>

definition OIDC_STATE_TTL_SECONDS :: nat where
  "OIDC_STATE_TTL_SECONDS = 600"

definition oidc_state :: "nat \<Rightarrow> string \<Rightarrow> string \<Rightarrow> string \<Rightarrow> jsval" where
  "oidc_state now state nonce codeVerifier =
     Obj [(''state'', Str state), (''nonce'', Str nonce), (''codeVerifier'', Str codeVerifier),
       (''expiresAt'', num (of_nat (now + OIDC_STATE_TTL_SECONDS * 1000)))]"

definition oidc_state_value :: "platform \<Rightarrow> app_cfg \<Rightarrow> jsval \<Rightarrow> string result" where
  "oidc_state_value P c v =
     (let payload = b64_encode True (json_print P v) in
      ebind (auth_sign P c payload) (\<lambda>sig. Inr (payload @ ''.'' @ sig)))"

text \<open>
  Whoever starts such a login, which needs no authentication, is given a value that the service accepts as the cookie
  of a session, for as long as the login may take: nothing in a session cookie says that it is one. The session has
  no user and no groups.
\<close>

theorem login_state_is_a_session:
  assumes "oidc_state_value P c (oidc_state t0 state nonce codeVerifier) = Inr v"
    and "header req ''cookie'' = Some (cookieName c @ ''='' @ v)" "cookie_token (cookieName c)"
    and "json_parse P (json_print P (oidc_state t0 state nonce codeVerifier)) = Some (oidc_state t0 state nonce codeVerifier)"
    and "json_print P (oidc_state t0 state nonce codeVerifier) \<noteq> []" "\<And>k m. hmac_bytes P k m \<noteq> []"
    and "0 < now" "now \<le> t0 + OIDC_STATE_TTL_SECONDS * 1000"
  shows "\<exists>s. readSession P c now req = Inr (Some s) \<and> ses_sub s = Undef \<and> ses_groups s = []"
proof -
  let ?v = "oidc_state t0 state nonce codeVerifier"
  obtain sig where sig: "auth_sign P c (b64_encode True (json_print P ?v)) = Inr sig"
    and v: "v = b64_encode True (json_print P ?v) @ ''.'' @ sig"
    using assms(1) by (auto simp: oidc_state_value_def ebind_Inr_iff Let_def)
  obtain s where s: "session_of ?v = Some s" "ses_sub s = Undef" "ses_groups s = []"
    and ends: "ses_expiresAt s = num (of_nat (t0 + OIDC_STATE_TTL_SECONDS * 1000))"
    by (simp add: session_of_def oidc_state_def js_get_def)
  have "session_live now s"
    using assms(7,8) by (simp add: session_live_def ends OIDC_STATE_TTL_SECONDS_def del: of_nat_add of_nat_mult)
  then have "decode_session P now (b64_encode True (json_print P ?v)) = Some s"
    using assms(4) s(1) by (simp add: decode_session_def b64_roundtrip)
  from read_signed_cookie [OF sig _ _ assms(3) this assms(5,6), where before = "[]"] s(2,3) assms(2) show ?thesis
    by (simp add: v)
qed

text \<open>What has to hold of a request that gets past the guard of the admin interface.\<close>

definition signed_session :: "platform \<Rightarrow> app_cfg \<Rightarrow> nat \<Rightarrow> http_request \<Rightarrow> admin_session \<Rightarrow> bool" where
  "signed_session P c now req s \<longleftrightarrow>
     (\<exists>raw payload sig rest expected. cookie req (cookieName c) = Some raw \<and>
        split_on (CHR ''.'') raw = payload # sig # rest \<and> auth_sign P c payload = Inr expected \<and>
        auth_safeEqual P sig expected \<and> decode_session P now payload = Some s \<and> session_live now s)"

definition trusted_header_session :: "app_cfg \<Rightarrow> http_request \<Rightarrow> admin_session \<Rightarrow> bool" where
  "trusted_header_session c req s \<longleftrightarrow>
     auth_mode c \<noteq> ''local'' \<and> isSsoProviderEnabled c ''header'' \<and> isTrustedSsoSource c req \<and>
     (\<exists>user. extractSsoIdentity c req = Some (user, ses_groups s) \<and> isSsoAllowed c user (ses_groups s) \<and>
       ses_sub s = Str user) \<and> ses_provider s = Str ''header-sso''"

lemma read_is_signed: "readSession P c now req = Inr (Some s) \<Longrightarrow> signed_session P c now req s"
  by (auto simp: readSession_def signed_session_def ebind_Inr_iff decode_session_def
      split: option.splits list.splits if_splits)

lemma authenticated_session:
  assumes "authenticateRequest P c rb now req = Inr (Some (s, h))" "auth_isEnabled c"
  shows "signed_session P c now req s \<or> trusted_header_session c req s"
proof (cases "readSession P c now req")
  case (Inr r)
  show ?thesis
  proof (cases r)
    case None
    with Inr assms show ?thesis
      by (auto simp: authenticateRequest_def trusted_header_session_def issue_def createSession_def
          ebind_Inr_iff split: option.splits if_splits prod.splits)
  next
    case (Some x)
    with Inr assms have "x = s" by (simp add: authenticateRequest_def)
    with Inr Some read_is_signed show ?thesis by blast
  qed
qed (use assms in \<open>simp add: authenticateRequest_def\<close>)


section \<open>Witnesses\<close>

definition demo_session :: admin_session where
  "demo_session =
     \<lparr>ses_sub = Str ''root'', ses_name = Str ''root'', ses_provider = Str ''local'', ses_groups = [],
      ses_csrfToken = Str ''t'', ses_expiresAt = num 1000\<rparr>"

definition auth_platform :: platform where
  "auth_platform =
     demo_platform\<lparr>hmac_sha256_hex := (\<lambda>_ _. ''61''), json_print := (\<lambda>_. ''J''),
       json_parse := (\<lambda>_. Some (session_val demo_session))\<rparr>"

definition auth_cfg :: app_cfg where
  "auth_cfg =
     \<lparr>cfg_str = [''ADMIN_AUTH_SESSION_SECRET'' \<mapsto> ''secret''],
      cfg_bool = [''ADMIN_AUTH_ENABLED'' \<mapsto> True], cfg_num = (\<lambda>_. None)\<rparr>"

definition demo_sig :: string where
  "demo_sig = b64_encode True (hmac_bytes auth_platform ''secret'' (b64_encode True ''J''))"

definition demo_cookie :: string where
  "demo_cookie = b64_encode True ''J'' @ ''.'' @ demo_sig"

definition admin_request :: "string \<Rightarrow> http_request" where
  "admin_request method =
     \<lparr>rq_method = method, rq_path = ''/admin/dlq'',
      rq_headers = [''cookie'' \<mapsto> [''lang=en; '' @ ''idmmw_admin_session'' @ ''='' @ demo_cookie]],
      rq_ip = None, rq_remoteAddress = None\<rparr>"

lemma demo_session_cookie: "session_cookie auth_platform auth_cfg demo_session = Inr demo_cookie"
  by (simp add: session_cookie_def auth_sign_def sessionSecret_def auth_cfg_def demo_cookie_def
      demo_sig_def Let_def) (simp add: auth_platform_def)

lemma demo_cookie_name: "cookieName auth_cfg = ''idmmw_admin_session''"
  by (simp add: cookieName_def auth_cfg_def)

lemma demo_hmac: "hmac_bytes auth_platform k m \<noteq> []"
  by (simp add: hmac_bytes_def auth_platform_def)

lemma demo_cookie_header:
  "header (admin_request m) ''cookie'' = Some (''lang=en; '' @ cookieName auth_cfg @ ''='' @ demo_cookie)"
  by (simp add: header_def admin_request_def demo_cookie_name to_lower_def)

lemma demo_cookie_token: "cookie_token (cookieName auth_cfg)"
  by (simp add: demo_cookie_name cookie_token_def is_ws_def)

lemma demo_json:
  "json_parse auth_platform (json_print auth_platform (session_val demo_session)) =
     Some (session_val demo_session)" "json_print auth_platform v \<noteq> []"
  "session_live 500 demo_session"
  by (simp_all add: auth_platform_def demo_session_def session_live_def)

theorem session_cookie_roundtrip_witness:
  "readSession auth_platform auth_cfg 500 (admin_request ''GET'') = Inr (Some demo_session)"
  by (rule session_cookie_roundtrip [OF demo_session_cookie demo_cookie_header _ demo_cookie_token
        demo_json(1,3,2) demo_hmac]) (rule disjI2, rule disjI2, rule exI [of _ "''lang=en''"], simp)


end
