(* ===== verification/Rbac.thy ===== *)
theory Rbac
  imports TargetSystem Auth
begin

text \<open>
  Models \<open>admin/admin-rbac.service.ts\<close>: roles with permissions per connector type, the mapping
  of identity-provider groups to roles, and the rights of a session. The tables have the
  constraints of the schema: unique role codes and unique pairs of group and role, and the
  deletion of a role cascades to its mappings.
\<close>

section \<open>Tables\<close>

record permission =
  p_type :: string
  p_read :: bool
  p_write :: bool

record role_row =
  role_id :: string
  role_code :: string
  role_name :: string
  role_description :: "string option"
  role_enabled :: bool
  role_permissions :: "permission list"

record mapping_row =
  map_id :: string
  map_idpGroup :: string
  map_roleId :: string
  map_enabled :: bool

record rbac_db = system_db +
  roles :: "role_row list"
  mappings :: "mapping_row list"

text \<open>
  The two orders: the collation of the database and \<open>localeCompare\<close>; and what one call meets: the
  new id, and a failing read or write.
\<close>

record rbac_env =
  collate_le :: "string \<Rightarrow> string \<Rightarrow> bool"
  compare_le :: "string \<Rightarrow> string \<Rightarrow> bool"

record rbac_call =
  rc_id :: string
  rc_read :: "exn option"
  rc_write :: "exn option"

record role_dto =
  rd_code :: string
  rd_name :: string
  rd_description :: "string option"
  rd_enabled :: "bool option"
  rd_permissions :: "permission list option"

text \<open>In an update the description may be absent, null, or a text.\<close>

record role_update =
  ru_code :: "string option"
  ru_name :: "string option"
  ru_description :: "string option option"
  ru_enabled :: "bool option"
  ru_permissions :: "permission list option"

record mapping_dto =
  md_idpGroup :: string
  md_roleId :: string
  md_enabled :: "bool option"

record mapping_update =
  mu_idpGroup :: "string option"
  mu_roleId :: "string option"
  mu_enabled :: "bool option"

definition role_by_id :: "role_row list \<Rightarrow> string \<Rightarrow> role_row option" where
  "role_by_id rs i = find (\<lambda>r. role_id r = i) rs"

definition mapping_by_id :: "mapping_row list \<Rightarrow> string \<Rightarrow> mapping_row option" where
  "mapping_by_id ms i = find (\<lambda>m. map_id m = i) ms"

section \<open>Collecting permissions\<close>

definition merge_permission :: "permission \<Rightarrow> permission \<Rightarrow> permission" where
  "merge_permission current p =
     current\<lparr>p_read := p_read current \<or> p_read p \<or> p_write p, p_write := p_write current \<or> p_write p\<rparr>"

definition no_permission :: "string \<Rightarrow> permission" where
  "no_permission t = \<lparr>p_type = t, p_read = False, p_write = False\<rparr>"

definition add_permission :: "string \<Rightarrow> permission \<Rightarrow> (string \<times> permission) list \<Rightarrow> (string \<times> permission) list" where
  "add_permission t p m = map_set t (merge_permission (or_else (map_of m t) (no_permission t)) p) m"

definition ident_ok :: "string \<Rightarrow> bool" where
  "ident_ok s \<longleftrightarrow> s \<noteq> [] \<and> length s \<le> 96 \<and>
     list_all (\<lambda>c. c \<in> set ''ABCDEFGHIJKLMNOPQRSTUVWXYZabcdefghijklmnopqrstuvwxyz0123456789_.:-'') s"

fun normalize_loop ::
  "permission list \<Rightarrow> (string \<times> permission) list \<Rightarrow> (string \<times> permission) list result" where
  "normalize_loop [] m = Inr m"
| "normalize_loop (p # ps) m =
     (if \<not> ident_ok (trim (p_type p)) then Inl (BadRequest ''Invalid connector type permission'')
      else normalize_loop ps (add_permission (trim (p_type p)) p m))"

definition normalizedPermissions :: "permission list \<Rightarrow> permission list result" where
  "normalizedPermissions ps = ebind (normalize_loop ps []) (\<lambda>m. Inr (map snd m))"

definition stored_permission :: "permission \<Rightarrow> permission" where
  "stored_permission p = p\<lparr>p_read := p_read p \<or> p_write p\<rparr>"

section \<open>The rights of a session\<close>

record effective =
  ef_superadmin :: bool
  ef_provider :: jsval
  ef_groups :: "string list"
  ef_roles :: "(string \<times> string \<times> string) list"
  ef_permissions :: "permission list"

definition isSuperadminSession :: "admin_session \<Rightarrow> bool" where
  "isSuperadminSession s \<longleftrightarrow> ses_provider s = Str ''local'' \<or> ses_provider s = Str ''disabled''"

definition role_of_mapping :: "role_row list \<Rightarrow> mapping_row \<Rightarrow> role_row option" where
  "role_of_mapping rs m = role_by_id rs (map_roleId m)"

text \<open>The mappings that the query returns, each with its role, in the order of the groups.\<close>

definition active_roles :: "rbac_env \<Rightarrow> 'b rbac_db_scheme \<Rightarrow> string list \<Rightarrow> role_row list" where
  "active_roles env w groups =
     map snd (locale_sort (collate_le env)
       (concat (map (\<lambda>m. case role_of_mapping (roles w) m of
            Some r \<Rightarrow> if map_enabled m \<and> map_idpGroup m \<in> set groups \<and> role_enabled r
                      then [(map_idpGroup m, r)] else []
          | None \<Rightarrow> []) (mappings w))))"

definition collect_roles :: "role_row list \<Rightarrow> (string \<times> string \<times> string \<times> string) list" where
  "collect_roles rs = fold (\<lambda>r. map_set (role_id r) (role_id r, role_code r, role_name r)) rs []"

definition collect_permissions :: "role_row list \<Rightarrow> (string \<times> permission) list" where
  "collect_permissions rs =
     fold (\<lambda>r m. fold (\<lambda>p. add_permission (p_type p) p) (role_permissions r) m) rs []"

definition effectivePermissions ::
  "rbac_env \<Rightarrow> rbac_call \<Rightarrow> admin_session \<Rightarrow> (effective, 'b rbac_db_scheme) op" where
  "effectivePermissions env c s =
     (if isSuperadminSession s
      then ret \<lparr>ef_superadmin = True, ef_provider = ses_provider s, ef_groups = ses_groups s,
             ef_roles = [(''builtin-superadmin'', ''superadmin'', ''Superadmin'')], ef_permissions = []\<rparr>
      else let groups = unique (ses_groups s) in
        if groups = []
        then ret \<lparr>ef_superadmin = False, ef_provider = ses_provider s, ef_groups = [], ef_roles = [],
               ef_permissions = []\<rparr>
        else sbind (may_fail (rc_read c)) (\<lambda>_ w.
          let rs = active_roles env w groups in
          (Inr \<lparr>ef_superadmin = False, ef_provider = ses_provider s, ef_groups = groups,
             ef_roles = map snd (locale_sort (compare_le env)
               (map (\<lambda>(i, r). (fst (snd r), r)) (collect_roles rs))),
             ef_permissions = map snd (locale_sort (compare_le env) (collect_permissions rs))\<rparr>, w)))"

definition may_read :: "effective \<Rightarrow> string \<Rightarrow> bool" where
  "may_read ef t \<longleftrightarrow> ef_superadmin ef \<or>
     (\<exists>p \<in> set (ef_permissions ef). p_type p = t \<and> (p_read p \<or> p_write p))"

definition may_write :: "effective \<Rightarrow> string \<Rightarrow> bool" where
  "may_write ef t \<longleftrightarrow> ef_superadmin ef \<or> (\<exists>p \<in> set (ef_permissions ef). p_type p = t \<and> p_write p)"

definition canRead :: "rbac_env \<Rightarrow> rbac_call \<Rightarrow> admin_session \<Rightarrow> string \<Rightarrow> (bool, 'b rbac_db_scheme) op" where
  "canRead env c s t = sbind (effectivePermissions env c s) (\<lambda>ef. ret (may_read ef t))"

definition canWrite :: "rbac_env \<Rightarrow> rbac_call \<Rightarrow> admin_session \<Rightarrow> string \<Rightarrow> (bool, 'b rbac_db_scheme) op" where
  "canWrite env c s t = sbind (effectivePermissions env c s) (\<lambda>ef. ret (may_write ef t))"

definition assertRead :: "rbac_env \<Rightarrow> rbac_call \<Rightarrow> admin_session \<Rightarrow> string \<Rightarrow> (unit, 'b rbac_db_scheme) op" where
  "assertRead env c s t = sbind (canRead env c s t) (\<lambda>ok.
     if \<not> ok then raise (Forbidden (''Missing read permission for '' @ t)) else ret ())"

definition assertWrite :: "rbac_env \<Rightarrow> rbac_call \<Rightarrow> admin_session \<Rightarrow> string \<Rightarrow> (unit, 'b rbac_db_scheme) op" where
  "assertWrite env c s t = sbind (canWrite env c s t) (\<lambda>ok.
     if \<not> ok then raise (Forbidden (''Missing write permission for '' @ t)) else ret ())"

definition assertSuperadmin :: "rbac_env \<Rightarrow> rbac_call \<Rightarrow> admin_session \<Rightarrow> (unit, 'b rbac_db_scheme) op" where
  "assertSuperadmin env c s = sbind (effectivePermissions env c s) (\<lambda>ef.
     if \<not> ef_superadmin ef then raise (Forbidden ''Superadmin permission required'') else ret ())"

datatype access = Read | Write

definition allowedConnectorTypes ::
  "rbac_env \<Rightarrow> rbac_call \<Rightarrow> admin_session \<Rightarrow> access \<Rightarrow> (string list option, 'b rbac_db_scheme) op" where
  "allowedConnectorTypes env c s a = sbind (effectivePermissions env c s) (\<lambda>ef.
     if ef_superadmin ef then ret None
     else ret (Some (map p_type (filter
       (\<lambda>p. case a of Write \<Rightarrow> p_write p | Read \<Rightarrow> p_read p \<or> p_write p) (ef_permissions ef)))))"

definition system_type :: "system_row option \<Rightarrow> string result" where
  "system_type r = (case r of None \<Rightarrow> Inl (NotFound ''TargetSystem not found'') | Some x \<Rightarrow> Inr (ts_type x))"

definition connectorTypeByTargetSystemId :: "rbac_call \<Rightarrow> string \<Rightarrow> (string, 'b rbac_db_scheme) op" where
  "connectorTypeByTargetSystemId c i =
     sbind (may_fail (rc_read c)) (\<lambda>_ w. (system_type (system_by_id (systems w) i), w))"

definition connectorTypeByTargetSystemName :: "rbac_call \<Rightarrow> string \<Rightarrow> (string, 'b rbac_db_scheme) op" where
  "connectorTypeByTargetSystemName c n =
     sbind (may_fail (rc_read c)) (\<lambda>_ w. (system_type (system_by_name (systems w) n), w))"

definition targetSystemNamesForAccess ::
  "rbac_env \<Rightarrow> rbac_call \<Rightarrow> admin_session \<Rightarrow> access \<Rightarrow> (string list option, 'b rbac_db_scheme) op" where
  "targetSystemNamesForAccess env c s a =
     sbind (allowedConnectorTypes env c s a) (\<lambda>allowedTypes.
       case allowedTypes of
         None \<Rightarrow> ret None
       | Some [] \<Rightarrow> ret (Some [])
       | Some (t # ts) \<Rightarrow> sbind (may_fail (rc_read c)) (\<lambda>_ w.
           (Inr (Some (map ts_name (filter (\<lambda>r. ts_type r \<in> set (t # ts)) (systems w)))), w)))"

section \<open>Administration of roles and mappings\<close>

definition optionalText :: "string option \<Rightarrow> string option" where
  "optionalText v =
     (case v of None \<Rightarrow> None | Some s \<Rightarrow> if trim s = [] then None else Some (trim s))"

definition validateRole :: "string \<Rightarrow> string \<Rightarrow> permission list option \<Rightarrow> unit result" where
  "validateRole code name ps =
     ebind (guard_exn (ident_ok (trim code)) (BadRequest ''Invalid role code'')) (\<lambda>_.
     ebind (guard_exn (optionalText (Some name) \<noteq> None) (BadRequest ''Missing role name'')) (\<lambda>_.
     ebind (normalizedPermissions (or_else ps [])) (\<lambda>_. Inr ())))"

definition validateMapping :: "string \<Rightarrow> string \<Rightarrow> unit result" where
  "validateMapping idpGroup role =
     ebind (guard_exn (optionalText (Some idpGroup) \<noteq> None) (BadRequest ''Missing IdP group'')) (\<lambda>_.
     guard_exn (optionalText (Some role) \<noteq> None) (BadRequest ''Missing roleId''))"

definition listRoles :: "rbac_env \<Rightarrow> rbac_call \<Rightarrow> (role_row list, 'b rbac_db_scheme) op" where
  "listRoles env c = sbind (may_fail (rc_read c)) (\<lambda>_ w.
     (Inr (map snd (locale_sort (collate_le env) (map (\<lambda>r. (role_code r, r)) (roles w)))), w))"

definition insert_role :: "rbac_call \<Rightarrow> role_row \<Rightarrow> (role_row, 'b rbac_db_scheme) op" where
  "insert_role c r =
     sbind (may_fail (rc_write c)) (\<lambda>_ w.
       if role_code r \<in> role_code ` set (roles w) then raise unique_violation w
       else (Inr r, w\<lparr>roles := roles w @ [r]\<rparr>))"

definition createRole :: "rbac_call \<Rightarrow> role_dto \<Rightarrow> (role_row, 'b rbac_db_scheme) op" where
  "createRole c dto =
     sbind (lift_result (validateRole (rd_code dto) (rd_name dto) (rd_permissions dto))) (\<lambda>_.
     sbind (lift_result (normalizedPermissions (or_else (rd_permissions dto) []))) (\<lambda>ps.
     insert_role c
       \<lparr>role_id = rc_id c, role_code = trim (rd_code dto), role_name = trim (rd_name dto),
        role_description = optionalText (rd_description dto),
        role_enabled = or_else (rd_enabled dto) True, role_permissions = map stored_permission ps\<rparr>))"

text \<open>\<open>$transaction\<close>: an exception undoes what the body has written.\<close>

definition transaction :: "('a, 'w) op \<Rightarrow> ('a, 'w) op" where
  "transaction m w = (case m w of (Inl e, _) \<Rightarrow> (Inl e, w) | (Inr a, w') \<Rightarrow> (Inr a, w'))"

definition change_role :: "string \<Rightarrow> (role_row \<Rightarrow> role_row) \<Rightarrow> 'b rbac_db_scheme \<Rightarrow> 'b rbac_db_scheme" where
  "change_role i f w = w\<lparr>roles := map (\<lambda>r. if role_id r = i then f r else r) (roles w)\<rparr>"

definition role_fields :: "role_update \<Rightarrow> role_row \<Rightarrow> role_row" where
  "role_fields dto r =
     r\<lparr>role_code := (case ru_code dto of None \<Rightarrow> role_code r | Some x \<Rightarrow> trim x),
       role_name := (case ru_name dto of None \<Rightarrow> role_name r | Some x \<Rightarrow> trim x),
       role_description := (case ru_description dto of None \<Rightarrow> role_description r | Some d \<Rightarrow> optionalText d),
       role_enabled := or_else (ru_enabled dto) (role_enabled r)\<rparr>"

definition update_role_row :: "rbac_call \<Rightarrow> string \<Rightarrow> role_update \<Rightarrow> (role_row, 'b rbac_db_scheme) op" where
  "update_role_row c i dto =
     sbind (may_fail (rc_write c)) (\<lambda>_ w.
       case role_by_id (roles w) i of
         None \<Rightarrow> raise no_such_row w
       | Some r \<Rightarrow>
           if \<exists>x \<in> set (roles w). role_id x \<noteq> i \<and> role_code x = role_code (role_fields dto r)
           then raise unique_violation w
           else (Inr (role_fields dto r), change_role i (role_fields dto) w))"

definition replace_permissions ::
  "string \<Rightarrow> permission list option \<Rightarrow> (unit, 'b rbac_db_scheme) op" where
  "replace_permissions i permissions =
     (case permissions of
        None \<Rightarrow> ret ()
      | Some given \<Rightarrow>
          sbind (modify (change_role i (\<lambda>r. r\<lparr>role_permissions := []\<rparr>))) (\<lambda>_.
          sbind (lift_result (normalizedPermissions given)) (\<lambda>ps.
          if ps \<noteq> []
          then modify (change_role i (\<lambda>r. r\<lparr>role_permissions := map stored_permission ps\<rparr>))
          else ret ())))"

definition updateRole :: "rbac_call \<Rightarrow> string \<Rightarrow> role_update \<Rightarrow> (role_row, 'b rbac_db_scheme) op" where
  "updateRole c i dto =
     sbind (may_fail (rc_read c)) (\<lambda>_.
     sbind (\<lambda>w. (Inr (role_by_id (roles w) i), w)) (\<lambda>current.
       case current of
         None \<Rightarrow> raise (NotFound ''Admin role not found'')
       | Some cur \<Rightarrow>
           sbind (lift_result (validateRole (or_else (ru_code dto) (role_code cur))
             (or_else (ru_name dto) (role_name cur)) (ru_permissions dto))) (\<lambda>_.
           transaction (sbind (replace_permissions i (ru_permissions dto)) (\<lambda>_. update_role_row c i dto)))))"

definition deleteRole :: "rbac_call \<Rightarrow> string \<Rightarrow> (unit, 'b rbac_db_scheme) op" where
  "deleteRole c i =
     sbind (may_fail (rc_write c)) (\<lambda>_ w.
       if role_by_id (roles w) i = None then raise no_such_row w
       else (Inr (), w\<lparr>roles := filter (\<lambda>r. role_id r \<noteq> i) (roles w),
                       mappings := filter (\<lambda>m. map_roleId m \<noteq> i) (mappings w)\<rparr>))"

definition listMappings :: "rbac_env \<Rightarrow> rbac_call \<Rightarrow> (mapping_row list, 'b rbac_db_scheme) op" where
  "listMappings env c = sbind (may_fail (rc_read c)) (\<lambda>_ w.
     (Inr (map snd (locale_sort (collate_le env) (map (\<lambda>m. (map_idpGroup m, m)) (mappings w)))), w))"

definition requireRole :: "rbac_call \<Rightarrow> string \<Rightarrow> (unit, 'b rbac_db_scheme) op" where
  "requireRole c i =
     sbind (may_fail (rc_read c)) (\<lambda>_ w.
       if role_by_id (roles w) i = None then raise (NotFound ''Admin role not found'') w else ret () w)"

definition mapping_clash :: "mapping_row list \<Rightarrow> mapping_row \<Rightarrow> bool" where
  "mapping_clash ms m \<longleftrightarrow>
     (\<exists>x \<in> set ms. map_id x \<noteq> map_id m \<and> map_idpGroup x = map_idpGroup m \<and> map_roleId x = map_roleId m)"

definition createMapping :: "rbac_call \<Rightarrow> mapping_dto \<Rightarrow> (mapping_row, 'b rbac_db_scheme) op" where
  "createMapping c dto =
     sbind (lift_result (validateMapping (md_idpGroup dto) (md_roleId dto))) (\<lambda>_.
     sbind (requireRole c (md_roleId dto)) (\<lambda>_.
     sbind (may_fail (rc_write c)) (\<lambda>_ w.
       let m = \<lparr>map_id = rc_id c, map_idpGroup = trim (md_idpGroup dto), map_roleId = md_roleId dto,
                map_enabled = or_else (md_enabled dto) True\<rparr> in
       if mapping_clash (mappings w) m then raise unique_violation w
       else (Inr m, w\<lparr>mappings := mappings w @ [m]\<rparr>))))"

definition mapping_fields :: "mapping_update \<Rightarrow> mapping_row \<Rightarrow> mapping_row" where
  "mapping_fields dto m =
     m\<lparr>map_idpGroup := (case mu_idpGroup dto of None \<Rightarrow> map_idpGroup m | Some g \<Rightarrow> trim g),
       map_roleId := or_else (mu_roleId dto) (map_roleId m),
       map_enabled := or_else (mu_enabled dto) (map_enabled m)\<rparr>"

definition update_mapping_row :: "rbac_call \<Rightarrow> string \<Rightarrow> mapping_update \<Rightarrow> (mapping_row, 'b rbac_db_scheme) op" where
  "update_mapping_row c i dto =
     sbind (may_fail (rc_write c)) (\<lambda>_ w.
       case mapping_by_id (mappings w) i of
         None \<Rightarrow> raise no_such_row w
       | Some m \<Rightarrow>
           if mapping_clash (mappings w) (mapping_fields dto m) then raise unique_violation w
           else (Inr (mapping_fields dto m),
                 w\<lparr>mappings := map (\<lambda>x. if map_id x = i then mapping_fields dto x else x) (mappings w)\<rparr>))"

definition updateMapping :: "rbac_call \<Rightarrow> string \<Rightarrow> mapping_update \<Rightarrow> (mapping_row, 'b rbac_db_scheme) op" where
  "updateMapping c i dto =
     sbind (may_fail (rc_read c)) (\<lambda>_.
     sbind (\<lambda>w. (Inr (mapping_by_id (mappings w) i), w)) (\<lambda>current.
       case current of
         None \<Rightarrow> raise (NotFound ''Admin group mapping not found'')
       | Some cur \<Rightarrow>
           sbind (lift_result (validateMapping (or_else (mu_idpGroup dto) (map_idpGroup cur))
             (or_else (mu_roleId dto) (map_roleId cur)))) (\<lambda>_.
           sbind (if nonblank (mu_roleId dto) then requireRole c (the (mu_roleId dto)) else ret ()) (\<lambda>_.
           update_mapping_row c i dto))))"

definition deleteMapping :: "rbac_call \<Rightarrow> string \<Rightarrow> (unit, 'b rbac_db_scheme) op" where
  "deleteMapping c i =
     sbind (may_fail (rc_write c)) (\<lambda>_ w.
       if mapping_by_id (mappings w) i = None then raise no_such_row w
       else (Inr (), w\<lparr>mappings := filter (\<lambda>m. map_id m \<noteq> i) (mappings w)\<rparr>))"

section \<open>What is collected\<close>

definition writes :: "(string \<times> permission) list \<Rightarrow> string \<Rightarrow> bool" where
  "writes m t \<longleftrightarrow> (\<exists>p. map_of m t = Some p \<and> p_write p)"

definition reads :: "(string \<times> permission) list \<Rightarrow> string \<Rightarrow> bool" where
  "reads m t \<longleftrightarrow> (\<exists>p. map_of m t = Some p \<and> p_read p)"

text \<open>The maps that the two loops build: one entry per type, and writing includes reading.\<close>

definition wf_collected :: "(string \<times> permission) list \<Rightarrow> bool" where
  "wf_collected m \<longleftrightarrow> distinct (map fst m) \<and>
     (\<forall>e \<in> set m. p_type (snd e) = fst e \<and> (p_write (snd e) \<longrightarrow> p_read (snd e)))"

lemma wf_collected_Nil [simp]: "wf_collected []"
  by (simp add: wf_collected_def)

lemma merge_type [simp]: "p_type (merge_permission c p) = p_type c"
  by (simp add: merge_permission_def)

lemma wf_collected_lookup: "wf_collected m \<Longrightarrow> map_of m t = Some p \<Longrightarrow> p_type p = t \<and> (p_write p \<longrightarrow> p_read p)"
  by (auto simp: wf_collected_def dest!: map_of_SomeD)

lemma map_set_members: "e \<in> set (map_set k v m) \<Longrightarrow> e = (k, v) \<or> e \<in> set m"
  by (induction k v m rule: map_set.induct) (auto split: if_splits)

lemma wf_collected_add:
  assumes wf: "wf_collected m"
  shows "wf_collected (add_permission t p m)"
proof -
  let ?cur = "or_else (map_of m t) (no_permission t)"
  have cur: "p_type ?cur = t" "p_write ?cur \<longrightarrow> p_read ?cur"
    using wf_collected_lookup [OF wf] by (cases "map_of m t"; force simp: no_permission_def)+
  have "p_type (snd e) = fst e \<and> (p_write (snd e) \<longrightarrow> p_read (snd e))"
    if "e \<in> set (add_permission t p m)" for e
    using map_set_members [OF that [unfolded add_permission_def]] wf cur
    by (auto simp: wf_collected_def merge_permission_def)
  with wf show ?thesis by (simp add: wf_collected_def add_permission_def distinct_map_set)
qed

lemma writes_add: "writes (add_permission k p m) t \<longleftrightarrow> writes m t \<or> k = t \<and> p_write p"
  by (cases "map_of m t")
    (auto simp: writes_def add_permission_def map_of_map_set merge_permission_def no_permission_def)

lemma reads_add: "reads (add_permission k p m) t \<longleftrightarrow> reads m t \<or> k = t \<and> (p_read p \<or> p_write p)"
  by (cases "map_of m t")
    (auto simp: reads_def add_permission_def map_of_map_set merge_permission_def no_permission_def)

lemma collect_fold:
  assumes "wf_collected m"
  shows "wf_collected (fold (\<lambda>p. add_permission (k p) p) ps m)"
    and "writes (fold (\<lambda>p. add_permission (k p) p) ps m) t \<longleftrightarrow>
      writes m t \<or> (\<exists>p \<in> set ps. k p = t \<and> p_write p)"
    and "reads (fold (\<lambda>p. add_permission (k p) p) ps m) t \<longleftrightarrow>
      reads m t \<or> (\<exists>p \<in> set ps. k p = t \<and> (p_read p \<or> p_write p))"
  using assms
  by (induction ps arbitrary: m) (auto simp: writes_add reads_add wf_collected_add)

lemma collect_permissions_fold:
  "collect_permissions rs = fold (\<lambda>p. add_permission (p_type p) p) (concat (map role_permissions rs)) []"
proof -
  have "fold (\<lambda>r m. fold (\<lambda>p. add_permission (p_type p) p) (role_permissions r) m) rs m =
    fold (\<lambda>p. add_permission (p_type p) p) (concat (map role_permissions rs)) m" for m
    by (induction rs arbitrary: m) simp_all
  then show ?thesis by (simp add: collect_permissions_def)
qed

lemma collected_members:
  assumes "wf_collected m"
  shows "(\<exists>p \<in> snd ` set m. p_type p = t \<and> p_write p) \<longleftrightarrow> writes m t"
    and "(\<exists>p \<in> snd ` set m. p_type p = t \<and> (p_read p \<or> p_write p)) \<longleftrightarrow> reads m t"
proof -
  have "(k, p) \<in> set m \<longleftrightarrow> map_of m k = Some p" for k p
    using assms by (simp add: wf_collected_def)
  with assms show "(\<exists>p \<in> snd ` set m. p_type p = t \<and> p_write p) \<longleftrightarrow> writes m t"
    "(\<exists>p \<in> snd ` set m. p_type p = t \<and> (p_read p \<or> p_write p)) \<longleftrightarrow> reads m t"
    by (force simp: writes_def reads_def wf_collected_def)+
qed

lemma active_roles_set:
  "set (active_roles env w groups) =
     {r. \<exists>m \<in> set (mappings w). map_enabled m \<and> map_idpGroup m \<in> set groups \<and>
           role_of_mapping (roles w) m = Some r \<and> role_enabled r}"
  by (force simp: active_roles_def image_iff split: option.splits if_splits)

text \<open>The reference: which session holds which right.\<close>

definition grants :: "'b rbac_db_scheme \<Rightarrow> admin_session \<Rightarrow> (permission \<Rightarrow> bool) \<Rightarrow> bool" where
  "grants w s Q \<longleftrightarrow>
     (\<exists>m \<in> set (mappings w). map_enabled m \<and> map_idpGroup m \<in> set (ses_groups s) \<and>
        (\<exists>r. role_of_mapping (roles w) m = Some r \<and> role_enabled r \<and> (\<exists>p \<in> set (role_permissions r). Q p)))"

lemma effective_run:
  assumes "effectivePermissions env c s w = (Inr ef, w')"
  shows "w' = w \<and> ef_superadmin ef = isSuperadminSession s \<and>
    (\<forall>t. may_write ef t \<longleftrightarrow> isSuperadminSession s \<or> grants w s (\<lambda>p. p_type p = t \<and> p_write p)) \<and>
    (\<forall>t. may_read ef t \<longleftrightarrow> isSuperadminSession s \<or> grants w s (\<lambda>p. p_type p = t \<and> (p_read p \<or> p_write p)))"
proof (cases "isSuperadminSession s")
  case True
  with assms show ?thesis by (auto simp: effectivePermissions_def may_write_def may_read_def)
next
  case super: False
  show ?thesis
  proof (cases "unique (ses_groups s) = []")
    case True
    then have "set (ses_groups s) = {}" by (metis unique_set set_empty)
    with assms super True show ?thesis
      by (auto simp: effectivePermissions_def Let_def may_write_def may_read_def grants_def)
  next
    case False
    let ?m = "collect_permissions (active_roles env w (unique (ses_groups s)))"
    have wf: "wf_collected ?m"
      and w: "writes ?m t \<longleftrightarrow> grants w s (\<lambda>p. p_type p = t \<and> p_write p)"
      and r: "reads ?m t \<longleftrightarrow> grants w s (\<lambda>p. p_type p = t \<and> (p_read p \<or> p_write p))" for t
      by (auto simp: collect_permissions_fold collect_fold writes_def [of "[]"] reads_def [of "[]"]
          active_roles_set grants_def)
    from assms super False have same: "w' = w" "\<not> ef_superadmin ef"
      "ef_permissions ef = map snd (locale_sort (compare_le env) ?m)"
      by (auto simp: effectivePermissions_def Let_def sbind_Inr_iff may_fail_iff)
    then have "set (ef_permissions ef) = snd ` set ?m" by simp
    with same super show ?thesis
      unfolding may_write_def may_read_def using collected_members [OF wf] w r by simp
  qed
qed

lemma canWrite_run:
  assumes "canWrite env c s t w = (Inr b, w')"
  shows "w' = w \<and> (b \<longleftrightarrow> isSuperadminSession s \<or> grants w s (\<lambda>p. p_type p = t \<and> p_write p))"
  using assms by (auto simp: canWrite_def sbind_Inr_iff dest!: effective_run)

lemma canRead_run:
  assumes "canRead env c s t w = (Inr b, w')"
  shows "w' = w \<and> (b \<longleftrightarrow> isSuperadminSession s \<or> grants w s (\<lambda>p. p_type p = t \<and> (p_read p \<or> p_write p)))"
  using assms by (auto simp: canRead_def sbind_Inr_iff dest!: effective_run)

lemma effective_state: "snd (effectivePermissions env c s w) = w"
  by (cases "rc_read c") (simp_all add: effectivePermissions_def Let_def)

lemma assertWrite_run:
  assumes "assertWrite env c s t w = (r, w')"
  shows "w' = w \<and> (r = Inr () \<longrightarrow>
    isSuperadminSession s \<or> grants w s (\<lambda>p. p_type p = t \<and> p_write p))"
proof -
  obtain x v where x: "canWrite env c s t w = (x, v)" by fastforce
  have "v = w" using x effective_state [of env c s w]
    by (auto simp: canWrite_def sbind_def split: prod.splits sum.splits)
  with x assms canWrite_run [of env c s t w] show ?thesis
    by (cases x) (auto simp: assertWrite_def sbind_def split: if_splits)
qed

lemma assertRead_run:
  assumes "assertRead env c s t w = (r, w')"
  shows "w' = w \<and> (r = Inr () \<longrightarrow>
    isSuperadminSession s \<or> grants w s (\<lambda>p. p_type p = t \<and> (p_read p \<or> p_write p)))"
proof -
  obtain x v where x: "canRead env c s t w = (x, v)" by fastforce
  have "v = w" using x effective_state [of env c s w]
    by (auto simp: canRead_def sbind_def split: prod.splits sum.splits)
  with x assms canRead_run [of env c s t w] show ?thesis
    by (cases x) (auto simp: assertRead_def sbind_def split: if_splits)
qed

section \<open>The invariant of the tables\<close>

definition wf_role :: "role_row \<Rightarrow> bool" where
  "wf_role r \<longleftrightarrow> ident_ok (role_code r) \<and> role_name r \<noteq> [] \<and>
     distinct (map p_type (role_permissions r)) \<and>
     (\<forall>p \<in> set (role_permissions r). ident_ok (p_type p) \<and> (p_write p \<longrightarrow> p_read p))"

definition mapping_pair :: "mapping_row \<Rightarrow> string \<times> string" where
  "mapping_pair m = (map_idpGroup m, map_roleId m)"

definition wf_rbac :: "'b rbac_db_scheme \<Rightarrow> bool" where
  "wf_rbac w \<longleftrightarrow>
     distinct (map role_id (roles w)) \<and> distinct (map role_code (roles w)) \<and>
     (\<forall>r \<in> set (roles w). wf_role r) \<and>
     distinct (map map_id (mappings w)) \<and> distinct (map mapping_pair (mappings w)) \<and>
     (\<forall>m \<in> set (mappings w). map_idpGroup m \<noteq> [] \<and> map_roleId m \<in> role_id ` set (roles w))"

lemma normalize_loop_fold:
  assumes "normalize_loop ps m = Inr m'"
  shows "m' = fold (\<lambda>p. add_permission (trim (p_type p)) p) ps m \<and>
    (fst ` set m' \<subseteq> Collect ident_ok \<union> fst ` set m)"
  using assms
proof (induction ps arbitrary: m)
  case (Cons p ps)
  from Cons.prems have ok: "ident_ok (trim (p_type p))"
    and rest: "normalize_loop ps (add_permission (trim (p_type p)) p m) = Inr m'"
    by (auto split: if_splits)
  have "set (map fst (add_permission k p m)) = insert k (set (map fst m))" for k
    unfolding add_permission_def keys_map_set by (auto simp del: set_map)
  then have "fst ` set (add_permission k p m) = insert k (fst ` set m)" for k by simp
  then have keys: "fst ` set m' \<subseteq> Collect ident_ok \<union> insert (trim (p_type p)) (fst ` set m)"
    using conjunct2 [OF Cons.IH [OF rest]] by simp
  show ?case
  proof
    show "m' = fold (\<lambda>p. add_permission (trim (p_type p)) p) (p # ps) m"
      unfolding fold_simps by (rule conjunct1 [OF Cons.IH [OF rest]])
    have "Collect ident_ok \<union> insert (trim (p_type p)) (fst ` set m) = Collect ident_ok \<union> fst ` set m"
      using ok by (simp add: insert_absorb)
    with keys show "fst ` set m' \<subseteq> Collect ident_ok \<union> fst ` set m" by (rule subst [rotated])
  qed
qed simp

lemma normalized_wf:
  assumes "normalizedPermissions ps = Inr qs"
  shows "distinct (map p_type (map stored_permission qs)) \<and>
    (\<forall>p \<in> set (map stored_permission qs). ident_ok (p_type p) \<and> (p_write p \<longrightarrow> p_read p))"
proof -
  obtain m where m: "normalize_loop ps [] = Inr m" and qs: "qs = map snd m"
    using assms by (auto simp: normalizedPermissions_def ebind_Inr_iff)
  have wf: "wf_collected m" and ok: "fst ` set m \<subseteq> Collect ident_ok"
    using normalize_loop_fold [OF m] by (auto simp: collect_fold(1))
  have "map p_type (map stored_permission qs) = map fst m"
    using wf by (auto simp: qs stored_permission_def wf_collected_def)
  then have "distinct (map p_type (map stored_permission qs))"
    using wf by (simp only: wf_collected_def)
  with wf ok show ?thesis
    by (auto simp: wf_collected_def qs stored_permission_def)
qed

lemma role_by_id_Some: "role_by_id rs i = Some r \<Longrightarrow> r \<in> set rs \<and> role_id r = i"
  by (auto simp: role_by_id_def find_Some_iff)

lemma role_by_id_None: "role_by_id rs i = None \<longleftrightarrow> i \<notin> role_id ` set rs"
  by (auto simp: role_by_id_def find_None_iff)

lemma mapping_by_id_Some: "mapping_by_id ms i = Some m \<Longrightarrow> m \<in> set ms \<and> map_id m = i"
  by (auto simp: mapping_by_id_def find_Some_iff)

lemma change_role_ids:
  "(\<And>r. role_id (f r) = role_id r) \<Longrightarrow> map role_id (roles (change_role i f w)) = map role_id (roles w)"
  by (simp add: change_role_def)

lemma wf_change_role:
  assumes wf: "wf_rbac w" and id: "\<And>r. role_id (f r) = role_id r"
    and role: "\<And>r. r \<in> set (roles w) \<Longrightarrow> role_id r = i \<Longrightarrow> wf_role (f r)"
    and free: "\<And>r x. r \<in> set (roles w) \<Longrightarrow> role_id r = i \<Longrightarrow> x \<in> set (roles w) \<Longrightarrow> role_id x \<noteq> i \<Longrightarrow>
      role_code x \<noteq> role_code (f r)"
  shows "wf_rbac (change_role i f w)"
proof -
  have ids: "map role_id (roles (change_role i f w)) = map role_id (roles w)"
    by (rule change_role_ids) (rule id)
  have codes: "distinct (map role_code (roles (change_role i f w)))"
  proof (cases "\<exists>r \<in> set (roles w). role_id r = i")
    case True
    then obtain r where r: "r \<in> set (roles w)" "role_id r = i" by blast
    then show ?thesis
      using wf free [OF r] unfolding change_role_def wf_rbac_def
      by (simp del: map_map) (intro distinct_update [of role_id _ _ r]; simp)
  next
    case False
    then have "roles (change_role i f w) = roles w" by (auto simp: change_role_def intro: map_idI)
    with wf show ?thesis by (simp add: wf_rbac_def)
  qed
  have "role_id ` set (roles (change_role i f w)) = role_id ` set (roles w)"
    using ids by (metis list.set_map)
  moreover have "mappings (change_role i f w) = mappings w" by (simp add: change_role_def)
  moreover have "\<forall>r \<in> set (roles (change_role i f w)). wf_role r"
    using wf role by (auto simp: change_role_def wf_rbac_def)
  ultimately show ?thesis using wf codes ids unfolding wf_rbac_def by simp
qed

lemma preserves_transaction [preserve_intros]: "preserves I m \<Longrightarrow> preserves I (transaction m)"
  by (fastforce simp: preserves_def transaction_def split: prod.splits sum.splits)

lemma replace_permissions_wf: "preserves wf_rbac (replace_permissions i ps)"
proof -
  have set: "wf_rbac (change_role i (\<lambda>r. r\<lparr>role_permissions := qs\<rparr>) w)"
    if "wf_rbac w" "distinct (map p_type qs)" "\<forall>p \<in> set qs. ident_ok (p_type p) \<and> (p_write p \<longrightarrow> p_read p)"
    for qs and w :: "'b rbac_db_scheme"
    using that by (intro wf_change_role) (auto simp: wf_rbac_def wf_role_def distinct_map dest: inj_onD)
  show ?thesis
    unfolding replace_permissions_def
    by (intro preserve_intros preserves_sbind [OF preserves_modify preserves_sbind_lift])
      (auto intro!: set dest: normalized_wf simp del: map_map)
qed

lemma update_role_row_wf:
  assumes code: "\<And>x. ru_code dto = Some x \<Longrightarrow> ident_ok (trim x)"
    and name: "\<And>x. ru_name dto = Some x \<Longrightarrow> trim x \<noteq> []"
  shows "preserves wf_rbac (update_role_row c i dto)"
  unfolding preserves_def
proof (intro allI impI)
  fix w :: "'b rbac_db_scheme" and r w'
  assume wf: "wf_rbac w" and run: "update_role_row c i dto w = (r, w')"
  consider "w' = w" | cur where "role_by_id (roles w) i = Some cur" "w' = change_role i (role_fields dto) w"
      "\<forall>x \<in> set (roles w). role_id x = i \<or> role_code x \<noteq> role_code (role_fields dto cur)"
    using run by (cases "rc_write c"; cases "role_by_id (roles w) i")
      (auto simp: update_role_row_def split: if_splits)
  then show "wf_rbac w'"
  proof cases
    case 2
    have only: "r = cur" if "r \<in> set (roles w)" "role_id r = i" for r
      using wf role_by_id_Some [OF 2(1)] that by (auto simp: wf_rbac_def distinct_map dest: inj_onD)
    have "wf_role (role_fields dto cur)"
      using wf role_by_id_Some [OF 2(1)] code name
      by (auto simp: wf_rbac_def wf_role_def role_fields_def split: option.split)
    moreover have "role_id (role_fields dto r) = role_id r" for r by (simp add: role_fields_def)
    ultimately show ?thesis
      unfolding 2(2) using 2(3) only by (intro wf_change_role [OF wf]) blast+
  qed (use wf in simp)
qed

lemma update_role_wf: "preserves wf_rbac (updateRole c i dto)"
proof -
  have valid: "preserves wf_rbac (sbind (lift_result (validateRole (or_else (ru_code dto) (role_code cur))
      (or_else (ru_name dto) (role_name cur)) (ru_permissions dto))) (\<lambda>_.
      transaction (sbind (replace_permissions i (ru_permissions dto)) (\<lambda>_. update_role_row c i dto))))"
    for cur
    by (intro preserves_sbind_lift preserves_transaction preserves_sbind replace_permissions_wf
        update_role_row_wf)
      (auto simp: validateRole_def ebind_Inr_iff optionalText_def split: if_splits)
  have read: "preserves wf_rbac (\<lambda>w. (Inr (role_by_id (roles w) i), w))"
    by (simp add: preserves_def)
  show ?thesis unfolding updateRole_def by (intro preserve_intros valid read)
qed

lemma delete_role_wf: "preserves wf_rbac (deleteRole c i)"
  unfolding deleteRole_def
  by (intro preserve_intros)
    (auto simp: preserves_def wf_rbac_def distinct_map_filter intro: inj_on_subset split: if_splits)

lemma delete_mapping_wf: "preserves wf_rbac (deleteMapping c i)"
  unfolding deleteMapping_def
  by (intro preserve_intros)
    (auto simp: preserves_def wf_rbac_def distinct_map_filter split: if_splits)

lemma create_role_wf:
  assumes wf: "wf_rbac w" and fresh: "rc_id c \<notin> role_id ` set (roles w)"
  shows "wf_rbac (snd (createRole c dto w))"
proof -
  consider "snd (createRole c dto w) = w"
    | ps r where "normalizedPermissions (or_else (rd_permissions dto) []) = Inr ps"
      "ident_ok (role_code r)" "role_name r \<noteq> []" "role_permissions r = map stored_permission ps"
      "role_id r = rc_id c" "role_code r \<notin> role_code ` set (roles w)"
      "snd (createRole c dto w) = w\<lparr>roles := roles w @ [r]\<rparr>"
  proof (cases "validateRole (rd_code dto) (rd_name dto) (rd_permissions dto)")
    case (Inl e)
    then show ?thesis using that(1) by (simp add: createRole_def)
  next
    case (Inr u)
    then obtain ps where ps: "normalizedPermissions (or_else (rd_permissions dto) []) = Inr ps"
      and ok: "ident_ok (trim (rd_code dto))" "trim (rd_name dto) \<noteq> []"
      by (auto simp: validateRole_def ebind_Inr_iff optionalText_def split: if_splits)
    show ?thesis
    proof (cases "rc_write c = None \<and> trim (rd_code dto) \<notin> role_code ` set (roles w)")
      case True
      let ?r = "\<lparr>role_id = rc_id c, role_code = trim (rd_code dto), role_name = trim (rd_name dto),
        role_description = optionalText (rd_description dto),
        role_enabled = or_else (rd_enabled dto) True, role_permissions = map stored_permission ps\<rparr>"
      show ?thesis
        by (rule that(2) [of ps ?r]) (use True Inr ps ok in \<open>simp_all add: createRole_def insert_role_def\<close>)
    next
      case False
      with Inr ps show ?thesis using that(1)
        by (cases "rc_write c") (auto simp: createRole_def insert_role_def)
    qed
  qed
  then show ?thesis
  proof cases
    case 2
    then have "wf_role r" using normalized_wf [OF 2(1)] by (simp add: wf_role_def)
    with 2 wf fresh show ?thesis by (auto simp: wf_rbac_def)
  qed (use wf in simp)
qed

lemma create_mapping_wf:
  assumes wf: "wf_rbac w" and fresh: "rc_id c \<notin> map_id ` set (mappings w)"
  shows "wf_rbac (snd (createMapping c dto w))"
proof -
  consider "snd (createMapping c dto w) = w"
    | m where "map_id m = rc_id c" "map_idpGroup m \<noteq> []" "map_roleId m \<in> role_id ` set (roles w)"
      "\<not> mapping_clash (mappings w) m" "snd (createMapping c dto w) = w\<lparr>mappings := mappings w @ [m]\<rparr>"
  proof (cases "validateMapping (md_idpGroup dto) (md_roleId dto)")
    case (Inl e)
    then show ?thesis using that(1) by (simp add: createMapping_def)
  next
    case (Inr u)
    then have grp: "trim (md_idpGroup dto) \<noteq> []"
      by (auto simp: validateMapping_def ebind_Inr_iff optionalText_def split: if_splits)
    let ?m = "\<lparr>map_id = rc_id c, map_idpGroup = trim (md_idpGroup dto), map_roleId = md_roleId dto,
      map_enabled = or_else (md_enabled dto) True\<rparr>"
    show ?thesis
    proof (cases "rc_read c = None \<and> rc_write c = None \<and> md_roleId dto \<in> role_id ` set (roles w) \<and>
        \<not> mapping_clash (mappings w) ?m")
      case True
      then have "role_by_id (roles w) (md_roleId dto) \<noteq> None" by (simp add: role_by_id_None)
      with True Inr grp show ?thesis using that(2) [of ?m]
        by (simp add: createMapping_def requireRole_def sbind_def [of "\<lambda>w. sbind _ _ w"] Let_def sbind_def)
    next
      case False
      with Inr show ?thesis using that(1)
        by (cases "rc_read c"; cases "rc_write c"; cases "role_by_id (roles w) (md_roleId dto)")
          (auto simp: createMapping_def requireRole_def sbind_def Let_def role_by_id_None
            dest: role_by_id_Some)
    qed
  qed
  then show ?thesis
  proof cases
    case 2
    have "mapping_pair m \<notin> mapping_pair ` set (mappings w)"
    proof
      assume "mapping_pair m \<in> mapping_pair ` set (mappings w)"
      then obtain x where "x \<in> set (mappings w)" "mapping_pair x = mapping_pair m" by auto
      moreover from this(1) fresh 2(1) have "map_id x \<noteq> map_id m" by (metis image_eqI)
      ultimately show False using 2(4) by (auto simp: mapping_clash_def mapping_pair_def)
    qed
    with 2 wf fresh show ?thesis by (auto simp: wf_rbac_def)
  qed (use wf in simp)
qed

lemma update_mapping_effect:
  "snd (updateMapping c i dto w) = w \<or>
   (\<exists>m. mapping_by_id (mappings w) i = Some m \<and> map_idpGroup (mapping_fields dto m) \<noteq> [] \<and>
      (\<forall>x. mu_roleId dto = Some x \<longrightarrow> x \<in> role_id ` set (roles w)) \<and>
      \<not> mapping_clash (mappings w) (mapping_fields dto m) \<and>
      snd (updateMapping c i dto w) =
        w\<lparr>mappings := map (\<lambda>x. if map_id x = i then mapping_fields dto x else x) (mappings w)\<rparr>)"
proof (cases "mapping_by_id (mappings w) i")
  case None
  then show ?thesis by (cases "rc_read c") (simp_all add: updateMapping_def sbind_def)
next
  case (Some m)
  show ?thesis
  proof (cases "validateMapping (or_else (mu_idpGroup dto) (map_idpGroup m)) (or_else (mu_roleId dto) (map_roleId m))")
    case (Inl e)
    with Some show ?thesis by (cases "rc_read c") (simp_all add: updateMapping_def sbind_def)
  next
    case (Inr u)
    then have ok: "trim (or_else (mu_idpGroup dto) (map_idpGroup m)) \<noteq> []"
        "trim (or_else (mu_roleId dto) (map_roleId m)) \<noteq> []"
      by (auto simp: validateMapping_def optionalText_def exn_simps split: if_splits)
    then have grp: "map_idpGroup (mapping_fields dto m) \<noteq> []"
      by (auto simp: mapping_fields_def trim_eq_Nil split: option.split)
    have role: "nonblank (Some x)" if "mu_roleId dto = Some x" for x
      using ok(2) that by (auto simp: nonblank_def trim_eq_Nil)
    show ?thesis
    proof (cases "rc_read c")
      case read: None
      then have run: "updateMapping c i dto w =
          sbind (if nonblank (mu_roleId dto) then requireRole c (the (mu_roleId dto)) else ret ())
            (\<lambda>_. update_mapping_row c i dto) w"
        by (simp add: updateMapping_def sbind_def Some Inr)
      have row: "snd (update_mapping_row c i dto w) = w \<or>
          \<not> mapping_clash (mappings w) (mapping_fields dto m) \<and> snd (update_mapping_row c i dto w) =
            w\<lparr>mappings := map (\<lambda>x. if map_id x = i then mapping_fields dto x else x) (mappings w)\<rparr>"
        by (cases "rc_write c") (simp_all add: update_mapping_row_def Some)
      show ?thesis
      proof (cases "mu_roleId dto")
        case None
        with row Some grp show ?thesis by (simp add: run nonblank_def)
      next
        case (Some x)
        then have "updateMapping c i dto w = sbind (requireRole c x) (\<lambda>_. update_mapping_row c i dto) w"
          using role by (simp add: run)
        with row \<open>mapping_by_id (mappings w) i = Some m\<close> grp Some read show ?thesis
          by (cases "role_by_id (roles w) x = None") (auto simp: requireRole_def sbind_def role_by_id_None)
      qed
    qed (simp add: updateMapping_def)
  qed
qed

lemma update_mapping_wf: "preserves wf_rbac (updateMapping c i dto)"
  unfolding preserves_def
proof (intro allI impI)
  fix w :: "'b rbac_db_scheme" and r w'
  assume wf: "wf_rbac w" and "updateMapping c i dto w = (r, w')"
  with update_mapping_effect [of c i dto w] consider "w' = w"
    | m where "mapping_by_id (mappings w) i = Some m" "map_idpGroup (mapping_fields dto m) \<noteq> []"
      "\<forall>x. mu_roleId dto = Some x \<longrightarrow> x \<in> role_id ` set (roles w)"
      "\<not> mapping_clash (mappings w) (mapping_fields dto m)"
      "w' = w\<lparr>mappings := map (\<lambda>x. if map_id x = i then mapping_fields dto x else x) (mappings w)\<rparr>"
    by auto
  then show "wf_rbac w'"
  proof cases
    case 2
    note m = mapping_by_id_Some [OF 2(1)]
    have id [simp]: "map_id (mapping_fields dto x) = map_id x" for x by (simp add: mapping_fields_def)
    have only: "x = m" if "x \<in> set (mappings w)" "map_id x = i" for x
      using wf m that by (auto simp: wf_rbac_def distinct_map dest: inj_onD)
    have pairs: "distinct (map mapping_pair (mappings w'))"
      unfolding 2(5) using wf m 2(4)
      by (simp del: map_map)
        (intro distinct_update [of map_id _ _ m]; force simp: wf_rbac_def mapping_clash_def mapping_pair_def)
    have ids: "map map_id (mappings w') = map map_id (mappings w)" by (simp add: 2(5))
    have "map_idpGroup x \<noteq> [] \<and> map_roleId x \<in> role_id ` set (roles w)" if "x \<in> set (mappings w')" for x
    proof (cases "x \<in> set (mappings w)")
      case True
      with wf show ?thesis by (simp add: wf_rbac_def)
    next
      case False
      with that only have "x = mapping_fields dto m" by (auto simp: 2(5) split: if_splits)
      with 2(2,3) wf m show ?thesis
        by (cases "mu_roleId dto") (auto simp: mapping_fields_def wf_rbac_def)
    qed
    moreover have "roles w' = roles w" by (simp add: 2(5))
    ultimately show ?thesis
      using wf pairs ids unfolding wf_rbac_def by (intro conjI ballI) (simp_all only: HOL.simp_thms)
  qed (use wf in simp)
qed

datatype rbac_cmd =
    CreateRole role_dto
  | UpdateRole string role_update
  | DeleteRole string
  | CreateMapping mapping_dto
  | UpdateMapping string mapping_update
  | DeleteMapping string

fun run_rbac :: "rbac_call \<Rightarrow> rbac_cmd \<Rightarrow> 'b rbac_db_scheme \<Rightarrow> 'b rbac_db_scheme" where
  "run_rbac c (CreateRole dto) w = snd (createRole c dto w)"
| "run_rbac c (UpdateRole i dto) w = snd (updateRole c i dto w)"
| "run_rbac c (DeleteRole i) w = snd (deleteRole c i w)"
| "run_rbac c (CreateMapping dto) w = snd (createMapping c dto w)"
| "run_rbac c (UpdateMapping i dto) w = snd (updateMapping c i dto w)"
| "run_rbac c (DeleteMapping i) w = snd (deleteMapping c i w)"

inductive rbac_steps :: "'b rbac_db_scheme \<Rightarrow> 'b rbac_db_scheme \<Rightarrow> bool" where
  rbac_refl: "rbac_steps w w"
| rbac_step: "rbac_steps w w1 \<Longrightarrow>
    rc_id c \<notin> role_id ` set (roles w1) \<union> map_id ` set (mappings w1) \<Longrightarrow>
    rbac_steps w (run_rbac c cmd w1)"

lemma run_rbac_wf:
  assumes "wf_rbac w" "rc_id c \<notin> role_id ` set (roles w) \<union> map_id ` set (mappings w)"
  shows "wf_rbac (run_rbac c cmd w)"
  using assms
  by (cases cmd) (simp_all add: create_role_wf create_mapping_wf preserves_snd [OF update_role_wf]
      preserves_snd [OF delete_role_wf] preserves_snd [OF update_mapping_wf] preserves_snd [OF delete_mapping_wf])

section \<open>Properties\<close>

text \<open>
  The invariant of the access-control tables. Whatever roles and mappings are created,
  changed and deleted, with failing database calls anywhere, role codes are valid identifiers
  and unique, no group is mapped to the same role twice, every mapping leads to an existing
  role, and each role has at most one permission per connector type, where writing includes
  reading.
\<close>

theorem rbac_tables_invariant:
  assumes "rbac_steps w w'" and "roles w = []" and "mappings w = []"
  shows "wf_rbac w'"
proof -
  have "wf_rbac w" using assms(2,3) by (simp add: wf_rbac_def)
  with assms(1) show ?thesis
    by (induction rule: rbac_steps.induct) (auto intro: run_rbac_wf)
qed

text \<open>
  C17: who may do what. A session may write (read) a connector type exactly when it is a local
  superadmin session or one of its groups has an enabled mapping to an enabled role with a
  write (read or write) permission for that type. So the check fails closed: a session without
  groups has no right, and disabling or deleting a role or a mapping takes its rights away.
\<close>

theorem rights_come_from_enabled_roles:
  assumes "canWrite env c s t w = (Inr may_w, w1)" and "canRead env c s t w = (Inr may_r, w2)"
  shows "(may_w \<longleftrightarrow> isSuperadminSession s \<or> grants w s (\<lambda>p. p_type p = t \<and> p_write p)) \<and>
    (may_r \<longleftrightarrow> isSuperadminSession s \<or> grants w s (\<lambda>p. p_type p = t \<and> (p_read p \<or> p_write p))) \<and>
    (may_w \<longrightarrow> may_r) \<and> w1 = w \<and> w2 = w"
  using canWrite_run [OF assms(1)] canRead_run [OF assms(2)] by (auto simp: grants_def)

definition demo_rcall :: rbac_call where
  "demo_rcall = \<lparr>rc_id = ''1'', rc_read = None, rc_write = None\<rparr>"

definition demo_role :: role_row where
  "demo_role = \<lparr>role_id = ''1'', role_code = ''ops'', role_name = ''Ops'', role_description = None,
     role_enabled = True, role_permissions = [\<lparr>p_type = ''linux'', p_read = True, p_write = True\<rparr>]\<rparr>"

definition demo_rbac :: "mapping_row list \<Rightarrow> rbac_db" where
  "demo_rbac ms = \<lparr>systems = [], roles = [demo_role], mappings = ms\<rparr>"

definition demo_mapping :: mapping_row where
  "demo_mapping = \<lparr>map_id = ''2'', map_idpGroup = ''admins'', map_roleId = ''1'', map_enabled = True\<rparr>"

definition demo_admin :: admin_session where
  "demo_admin = \<lparr>ses_sub = Str ''u'', ses_name = Str ''u'', ses_provider = Str ''oidc'', ses_groups = [''admins''],
     ses_csrfToken = Str ''c'', ses_expiresAt = num 1\<rparr>"

lemma demo_ident: "ident_ok ''ops''" "ident_ok ''linux''"
  by (simp_all add: ident_ok_def)

theorem rbac_tables_invariant_witness:
  "run_rbac demo_rcall (CreateRole \<lparr>rd_code = '' ops'', rd_name = ''Ops'', rd_description = None, rd_enabled = None,
     rd_permissions = Some [\<lparr>p_type = ''linux'', p_read = False, p_write = True\<rparr>]\<rparr>)
     \<lparr>systems = [], roles = [], mappings = []\<rparr> = demo_rbac [] \<and> wf_rbac (demo_rbac [])"
proof -
  let ?dto = "\<lparr>rd_code = '' ops'', rd_name = ''Ops'', rd_description = None, rd_enabled = None,
     rd_permissions = Some [\<lparr>p_type = ''linux'', p_read = False, p_write = True\<rparr>]\<rparr>"
  let ?w = "\<lparr>systems = [], roles = [], mappings = []\<rparr> :: rbac_db"
  have norm: "normalizedPermissions [\<lparr>p_type = ''linux'', p_read = False, p_write = True\<rparr>] =
      Inr [\<lparr>p_type = ''linux'', p_read = True, p_write = True\<rparr>]"
    by (simp add: normalizedPermissions_def demo_ident trim_def add_permission_def merge_permission_def
        no_permission_def)
  have run: "run_rbac demo_rcall (CreateRole ?dto) ?w = demo_rbac []"
    by (simp add: createRole_def validateRole_def norm optionalText_def trim_def demo_ident guard_exn_def
        insert_role_def demo_rcall_def demo_rbac_def demo_role_def stored_permission_def)
  have "rbac_steps ?w (run_rbac demo_rcall (CreateRole ?dto) ?w)"
    by (rule rbac_step [OF rbac_refl]) simp
  then have "wf_rbac (run_rbac demo_rcall (CreateRole ?dto) ?w)"
    by (rule rbac_tables_invariant) simp_all
  with run show ?thesis by simp
qed

theorem rights_come_from_enabled_roles_witness:
  "canWrite \<lparr>collate_le = (\<lambda>_ _. True), compare_le = (\<lambda>_ _. True)\<rparr> demo_rcall demo_admin ''linux''
     (demo_rbac [demo_mapping]) = (Inr True, demo_rbac [demo_mapping]) \<and>
   canWrite \<lparr>collate_le = (\<lambda>_ _. True), compare_le = (\<lambda>_ _. True)\<rparr> demo_rcall demo_admin ''linux''
     (demo_rbac [demo_mapping\<lparr>map_enabled := False\<rparr>]) = (Inr False, demo_rbac [demo_mapping\<lparr>map_enabled := False\<rparr>]) \<and>
   grants (demo_rbac [demo_mapping]) demo_admin (\<lambda>p. p_type p = ''linux'' \<and> p_write p)"
proof -
  let ?env = "\<lparr>collate_le = (\<lambda>_ _. True), compare_le = (\<lambda>_ _. True)\<rparr>"
  note run = canWrite_def canRead_def effectivePermissions_def may_write_def may_read_def isSuperadminSession_def
    demo_admin_def unique_def demo_rcall_def active_roles_def role_of_mapping_def role_by_id_def
    demo_rbac_def demo_role_def demo_mapping_def collect_permissions_def add_permission_def
    merge_permission_def no_permission_def locale_sort_def Let_def sbind_def
  have w: "canWrite ?env demo_rcall demo_admin ''linux'' (demo_rbac [demo_mapping]) =
      (Inr True, demo_rbac [demo_mapping])"
    and r: "canRead ?env demo_rcall demo_admin ''linux'' (demo_rbac [demo_mapping]) =
      (Inr True, demo_rbac [demo_mapping])"
    and off: "canWrite ?env demo_rcall demo_admin ''linux'' (demo_rbac [demo_mapping\<lparr>map_enabled := False\<rparr>]) =
      (Inr False, demo_rbac [demo_mapping\<lparr>map_enabled := False\<rparr>])"
    by (simp_all add: run)
  have "\<not> isSuperadminSession demo_admin" by (simp add: isSuperadminSession_def demo_admin_def)
  with rights_come_from_enabled_roles [OF w r] w off show ?thesis by blast
qed

end
