(* ===== verification/TargetApi.thy ===== *)
theory TargetApi
  imports Rbac
begin

text \<open>
  Models \<open>admin/target-system.controller.ts\<close>: the handlers of the target-system interface, each
  with the permissions it asks for, the service call and the reload of the connector registry.
  The world holds the database, the registry and what lies outside.
\<close>

section \<open>The world of the interface\<close>

record 'e admin_world = rbac_db +
  live_registry :: "'e registry"
  outside :: 'e

record api_env =
  ae_ts :: ts_env
  ae_rbac :: rbac_env
  ae_allow :: "string set"

text \<open>
  A reload reads the database twice. When one is already under way, the handler waits for that
  one: \<open>ac_inflight\<close> is then its outcome.
\<close>

record api_call =
  ac_rbac :: rbac_call
  ac_ts :: ts_call
  ac_reload1 :: "exn option"
  ac_reload2 :: "exn option"
  ac_inflight :: "unit result option"

definition table_read :: "exn option \<Rightarrow> 'e admin_world \<Rightarrow> target_row list result" where
  "table_read fault w =
     (case fault of Some e \<Rightarrow> Inl e | None \<Rightarrow> Inr (map target_row.truncate (systems w)))"

definition registry_reload :: "api_env \<Rightarrow> api_call \<Rightarrow> (unit, 'e admin_world) op" where
  "registry_reload env c w =
     (case ac_inflight c of
        Some r \<Rightarrow> (r, w)
      | None \<Rightarrow>
          (case reloadInternal (te_platform (ae_ts env)) (te_settings (ae_ts env)) (ae_allow env)
                  (table_read (ac_reload1 c) w) (table_read (ac_reload2 c) w) (live_registry w) of
             (r, reg) \<Rightarrow> (r, w\<lparr>live_registry := reg\<rparr>)))"

definition request_session :: "admin_session option \<Rightarrow> (admin_session, 'w) op" where
  "request_session s = (case s of None \<Rightarrow> raise (JsError ''Admin session missing'') | Some x \<Rightarrow> ret x)"

section \<open>Handlers\<close>

definition api_findAll ::
  "api_env \<Rightarrow> api_call \<Rightarrow> admin_session option \<Rightarrow> string option \<Rightarrow> string option \<Rightarrow> nat option \<Rightarrow> nat option \<Rightarrow>
   (system_row list, 'e admin_world) op" where
  "api_findAll env c s type enabled limit offset =
     sbind (request_session s) (\<lambda>ses.
     sbind (allowedConnectorTypes (ae_rbac env) (ac_rbac c) ses Read) (\<lambda>allowedTypes.
     sbind (if nonblank type then assertRead (ae_rbac env) (ac_rbac c) ses (the type) else ret ()) (\<lambda>_.
     ts_findAll (ae_ts env) (ac_ts c)
       \<lparr>fp_type = type, fp_enabled = map_option (\<lambda>e. e = ''true'') enabled, fp_limit = limit,
        fp_offset = offset, fp_allowedTypes = allowedTypes\<rparr>)))"

text \<open>\<open>None\<close> stands for the answer \<open>Not found\<close> of the search by name and for the null of the other.\<close>

definition api_found ::
  "api_env \<Rightarrow> api_call \<Rightarrow> admin_session option \<Rightarrow> system_row option \<Rightarrow> (system_row option, 'e admin_world) op" where
  "api_found env c s ts =
     (case ts of
        None \<Rightarrow> ret None
      | Some r \<Rightarrow> sbind (request_session s) (\<lambda>ses.
          sbind (assertRead (ae_rbac env) (ac_rbac c) ses (ts_type r)) (\<lambda>_. ret (Some r))))"

definition api_findByName ::
  "api_env \<Rightarrow> api_call \<Rightarrow> admin_session option \<Rightarrow> string \<Rightarrow> (system_row option, 'e admin_world) op" where
  "api_findByName env c s n = sbind (ts_findByName (ae_ts env) (ac_ts c) n) (api_found env c s)"

definition api_findById ::
  "api_env \<Rightarrow> api_call \<Rightarrow> admin_session option \<Rightarrow> string \<Rightarrow> (system_row option, 'e admin_world) op" where
  "api_findById env c s i = sbind (ts_findById (ae_ts env) (ac_ts c) i) (api_found env c s)"

definition api_create ::
  "api_env \<Rightarrow> api_call \<Rightarrow> admin_session option \<Rightarrow> create_dto \<Rightarrow> (system_row, 'e admin_world) op" where
  "api_create env c s dto =
     sbind (request_session s) (\<lambda>ses.
     sbind (assertWrite (ae_rbac env) (ac_rbac c) ses (cd_type dto)) (\<lambda>_.
     sbind (ts_create (ae_ts env) (ac_ts c) dto) (\<lambda>result.
     sbind (registry_reload env c) (\<lambda>_.
     ret result))))"

definition api_update ::
  "api_env \<Rightarrow> api_call \<Rightarrow> admin_session option \<Rightarrow> string \<Rightarrow> update_dto \<Rightarrow> (system_row, 'e admin_world) op" where
  "api_update env c s i dto =
     sbind (connectorTypeByTargetSystemId (ac_rbac c) i) (\<lambda>currentType.
     sbind (request_session s) (\<lambda>ses.
     sbind (assertWrite (ae_rbac env) (ac_rbac c) ses currentType) (\<lambda>_.
     sbind (if nonblank (ud_type dto) \<and> the (ud_type dto) \<noteq> currentType
            then assertWrite (ae_rbac env) (ac_rbac c) ses (the (ud_type dto)) else ret ()) (\<lambda>_.
     sbind (ts_update (ae_ts env) (ac_ts c) i dto) (\<lambda>result.
     sbind (registry_reload env c) (\<lambda>_.
     ret result))))))"

definition api_delete ::
  "api_env \<Rightarrow> api_call \<Rightarrow> admin_session option \<Rightarrow> string \<Rightarrow> (system_row, 'e admin_world) op" where
  "api_delete env c s i =
     sbind (request_session s) (\<lambda>ses.
     sbind (connectorTypeByTargetSystemId (ac_rbac c) i) (\<lambda>currentType.
     sbind (assertWrite (ae_rbac env) (ac_rbac c) ses currentType) (\<lambda>_.
     sbind (ts_delete (ae_ts env) (ac_ts c) i) (\<lambda>result.
     sbind (registry_reload env c) (\<lambda>_.
     ret result)))))"

definition api_testConnection ::
  "api_env \<Rightarrow> api_call \<Rightarrow> admin_session option \<Rightarrow> string \<Rightarrow> (bool \<times> string, 'e admin_world) op" where
  "api_testConnection env c s i =
     sbind (request_session s) (\<lambda>ses.
     sbind (connectorTypeByTargetSystemId (ac_rbac c) i) (\<lambda>currentType.
     sbind (assertWrite (ae_rbac env) (ac_rbac c) ses currentType) (\<lambda>_ w.
       case ts_testConnection (ae_ts env) (live_registry w)
              (case tc_read (ac_ts c) of Some e \<Rightarrow> Inl e | None \<Rightarrow> Inr (systems w)) i (outside w) of
         (r, x) \<Rightarrow> (r, w\<lparr>outside := x\<rparr>))))"

section \<open>Rights\<close>

definition has_write :: "'b rbac_db_scheme \<Rightarrow> admin_session option \<Rightarrow> string \<Rightarrow> bool" where
  "has_write w s t \<longleftrightarrow> (\<exists>x. s = Some x \<and>
     (isSuperadminSession x \<or> grants w x (\<lambda>p. p_type p = t \<and> p_write p)))"

definition has_read :: "'b rbac_db_scheme \<Rightarrow> admin_session option \<Rightarrow> string \<Rightarrow> bool" where
  "has_read w s t \<longleftrightarrow> (\<exists>x. s = Some x \<and>
     (isSuperadminSession x \<or> grants w x (\<lambda>p. p_type p = t \<and> (p_read p \<or> p_write p))))"

lemma request_session_run: "request_session s w = (Inr x, w') \<longleftrightarrow> s = Some x \<and> w' = w"
  by (cases s) (auto simp: request_session_def)

lemma assertWrite_Inr: "assertWrite env c x t w = (Inr u, w') \<Longrightarrow> w' = w \<and> has_write w (Some x) t"
  using assertWrite_run [of env c x t w "Inr u" w'] by (auto simp: has_write_def)

lemma assertRead_Inr: "assertRead env c x t w = (Inr u, w') \<Longrightarrow> w' = w \<and> has_read w (Some x) t"
  using assertRead_run [of env c x t w "Inr u" w'] by (auto simp: has_read_def)

lemma connectorType_Inr:
  "connectorTypeByTargetSystemId c i w = (Inr t, w') \<Longrightarrow>
   w' = w \<and> (\<exists>r. system_by_id (systems w) i = Some r \<and> ts_type r = t)"
  by (auto simp: connectorTypeByTargetSystemId_def sbind_Inr_iff may_fail_iff system_type_def
      split: option.splits)

lemma reload_keeps_tables: "systems (snd (registry_reload env c w)) = systems w"
  by (auto simp: registry_reload_def split: option.split prod.split)

text \<open>A request that changed anything got past its guards, in their order.\<close>

lemma guarded:
  assumes "sbind m f w = (r, w')" and "snd (m w) = w" and "w' \<noteq> w"
  shows "\<exists>a. m w = (Inr a, w) \<and> f a w = (r, w')"
proof -
  obtain x v where m: "m w = (x, v)" by fastforce
  with assms show ?thesis by (cases x) (auto simp: sbind_def)
qed

lemma of_session:
  assumes "sbind (request_session s) f w = (r, w')" "w' \<noteq> w"
  shows "\<exists>x. s = Some x \<and> f x w = (r, w')"
  using guarded [OF assms(1) _ assms(2)] by (cases s) (auto simp: request_session_def)

lemma needs_write:
  assumes "sbind (assertWrite env c x t) f w = (r, w')" "w' \<noteq> w"
  shows "has_write w (Some x) t \<and> f () w = (r, w')"
proof -
  have "snd (assertWrite env c x t w) = w" using assertWrite_run [of env c x t w] by (metis prod.collapse)
  then obtain u where "assertWrite env c x t w = (Inr u, w)" "f u w = (r, w')"
    using guarded [OF assms(1) _ assms(2)] by blast
  then show ?thesis using assertWrite_Inr [of env c x t w u w] by simp
qed

definition row_types :: "system_row list \<Rightarrow> string \<Rightarrow> string set" where
  "row_types rows i = (case system_by_id rows i of None \<Rightarrow> {} | Some r \<Rightarrow> {ts_type r})"

lemma of_type:
  assumes "sbind (connectorTypeByTargetSystemId c i) f w = (r, w')" "w' \<noteq> w"
  shows "\<exists>t. row_types (systems w) i = {t} \<and> f t w = (r, w')"
proof -
  have "snd (connectorTypeByTargetSystemId c i w) = w"
    by (cases "rc_read c") (simp_all add: connectorTypeByTargetSystemId_def)
  then obtain t where "connectorTypeByTargetSystemId c i w = (Inr t, w)" "f t w = (r, w')"
    using guarded [OF assms(1) _ assms(2)] by blast
  then show ?thesis using connectorType_Inr [of c i w t w] by (auto simp: row_types_def)
qed

datatype ts_request =
    ReqCreate create_dto
  | ReqUpdate string update_dto
  | ReqDelete string
  | ReqTest string

fun run_api :: "api_env \<Rightarrow> api_call \<Rightarrow> admin_session option \<Rightarrow> ts_request \<Rightarrow> 'e admin_world \<Rightarrow> 'e admin_world" where
  "run_api env c s (ReqCreate dto) w = snd (api_create env c s dto w)"
| "run_api env c s (ReqUpdate i dto) w = snd (api_update env c s i dto w)"
| "run_api env c s (ReqDelete i) w = snd (api_delete env c s i w)"
| "run_api env c s (ReqTest i) w = snd (api_testConnection env c s i w)"

text \<open>The connector types that a request touches: the type of the row, and the new one.\<close>

fun touched :: "ts_request \<Rightarrow> system_row list \<Rightarrow> string set" where
  "touched (ReqCreate dto) rows = {cd_type dto}"
| "touched (ReqUpdate i dto) rows =
     row_types rows i \<union> (if nonblank (ud_type dto) then {the (ud_type dto)} else {})"
| "touched (ReqDelete i) rows = row_types rows i"
| "touched (ReqTest i) rows = row_types rows i"

lemma api_guards:
  assumes "run_api env c s req w \<noteq> w"
  shows "touched req (systems w) \<noteq> {} \<and> (\<forall>t \<in> touched req (systems w). has_write w s t)"
proof (cases req)
  case (ReqCreate dto)
  obtain r w' where run: "api_create env c s dto w = (r, w')" by fastforce
  with assms ReqCreate have "w' \<noteq> w" by simp
  with of_session [OF run [unfolded api_create_def]] needs_write show ?thesis
    by (fastforce simp: ReqCreate)
next
  case (ReqUpdate i dto)
  obtain r w' where run: "api_update env c s i dto w = (r, w')" by fastforce
  with assms ReqUpdate have ne: "w' \<noteq> w" by simp
  from of_type [OF run [unfolded api_update_def] ne] obtain t where t: "row_types (systems w) i = {t}"
    and r1: "sbind (request_session s) (\<lambda>ses. sbind (assertWrite (ae_rbac env) (ac_rbac c) ses t) (\<lambda>_.
      sbind (if nonblank (ud_type dto) \<and> the (ud_type dto) \<noteq> t
             then assertWrite (ae_rbac env) (ac_rbac c) ses (the (ud_type dto)) else ret ()) (\<lambda>_.
      sbind (ts_update (ae_ts env) (ac_ts c) i dto) (\<lambda>result.
      sbind (registry_reload env c) (\<lambda>_. ret result))))) w = (r, w')" by blast
  from of_session [OF r1 ne] obtain x where s: "s = Some x"
    and r2: "sbind (assertWrite (ae_rbac env) (ac_rbac c) x t) (\<lambda>_.
      sbind (if nonblank (ud_type dto) \<and> the (ud_type dto) \<noteq> t
             then assertWrite (ae_rbac env) (ac_rbac c) x (the (ud_type dto)) else ret ()) (\<lambda>_.
      sbind (ts_update (ae_ts env) (ac_ts c) i dto) (\<lambda>result.
      sbind (registry_reload env c) (\<lambda>_. ret result)))) w = (r, w')" by blast
  from needs_write [OF r2 ne] have cur: "has_write w s t"
    and r3: "sbind (if nonblank (ud_type dto) \<and> the (ud_type dto) \<noteq> t
             then assertWrite (ae_rbac env) (ac_rbac c) x (the (ud_type dto)) else ret ()) (\<lambda>_.
      sbind (ts_update (ae_ts env) (ac_ts c) i dto) (\<lambda>result.
      sbind (registry_reload env c) (\<lambda>_. ret result))) w = (r, w')" by (simp_all add: s)
  have "has_write w s (the (ud_type dto))" if "nonblank (ud_type dto)" "the (ud_type dto) \<noteq> t"
    using r3 that by (auto simp: s dest: needs_write [OF _ ne])
  with cur t show ?thesis by (auto simp: ReqUpdate)
next
  case (ReqDelete i)
  obtain r w' where run: "api_delete env c s i w = (r, w')" by fastforce
  with assms ReqDelete have ne: "w' \<noteq> w" by simp
  with of_session [OF run [unfolded api_delete_def]] of_type [OF _ ne] needs_write [OF _ ne]
  show ?thesis by (fastforce simp: ReqDelete)
next
  case (ReqTest i)
  obtain r w' where run: "api_testConnection env c s i w = (r, w')" by fastforce
  with assms ReqTest have ne: "w' \<noteq> w" by simp
  with of_session [OF run [unfolded api_testConnection_def]] of_type [OF _ ne] needs_write [OF _ ne]
  show ?thesis by (fastforce simp: ReqTest)
qed

section \<open>What is shown and what is served\<close>

lemma allowed_run:
  assumes "allowedConnectorTypes env c x Read w = (Inr allowed, w1)"
  shows "w1 = w \<and> (case allowed of None \<Rightarrow> isSuperadminSession x
    | Some ts \<Rightarrow> set ts = {t. grants w x (\<lambda>p. p_type p = t \<and> (p_read p \<or> p_write p))} \<and> \<not> isSuperadminSession x)"
proof -
  obtain ef where ef: "effectivePermissions env c x w = (Inr ef, w1)"
    and al: "allowed = (if ef_superadmin ef then None else Some (map p_type
      (filter (\<lambda>p. p_read p \<or> p_write p) (ef_permissions ef))))"
    using assms by (auto simp: allowedConnectorTypes_def sbind_Inr_iff split: if_splits)
  have types: "set (map p_type (filter (\<lambda>p. p_read p \<or> p_write p) ps)) =
      {t. \<exists>p \<in> set ps. p_type p = t \<and> (p_read p \<or> p_write p)}" for ps by force
  from effective_run [OF ef] show ?thesis
    by (auto simp: al may_read_def types simp del: set_map set_filter split: if_splits)
qed

lemma public_type: "toPublicTargetSystem env r = Inr r' \<Longrightarrow> ts_type r' = ts_type r \<and> ts_enabled r' = ts_enabled r"
  by (auto simp: toPublicTargetSystem_def ebind_Inr_iff)

lemma map_exn_source: "map_exn f xs = Inr ys \<Longrightarrow> y \<in> set ys \<Longrightarrow> \<exists>x \<in> set xs. f x = Inr y"
  by (induction xs arbitrary: ys) (auto simp: ebind_Inr_iff)

lemma findAll_items:
  assumes "ts_findAll env c p w = (Inr items, w')" and "r \<in> set items"
  shows "\<exists>x. system_matches p x \<and> ts_type r = ts_type x"
proof -
  obtain xs where xs: "map_exn (toPublicTargetSystem env) (newest_page (or_else (fp_offset p) 0)
      (or_else (fp_limit p) 50) sys_createdAt xs) = Inr items" and m: "\<forall>x \<in> set xs. system_matches p x"
    using assms
    by (auto simp: ts_findAll_def sbind_Inr_iff may_fail_iff split: option.splits list.splits if_splits)
  obtain x where x: "x \<in> set (newest_page (or_else (fp_offset p) 0) (or_else (fp_limit p) 50) sys_createdAt xs)"
    "toPublicTargetSystem env x = Inr r"
    using map_exn_source [OF xs assms(2)] by blast
  then have "x \<in> set xs" unfolding newest_page_def by (metis in_set_dropD in_set_takeD set_sort)
  with m x(2) public_type show ?thesis by metis
qed

lemma found_readable:
  assumes "api_found env c s ts w = (Inr (Some r), w')"
  shows "has_read w s (ts_type r)"
  using assms
  by (auto simp: api_found_def sbind_Inr_iff request_session_run dest!: assertRead_Inr split: option.splits)

lemma find_state: "ts_findById env c i w = (x, v) \<Longrightarrow> v = w" "ts_findByName env c n w = (x, v) \<Longrightarrow> v = w"
  by (cases "tc_read c"; auto simp: ts_findById_def ts_findByName_def)+

section \<open>Properties\<close>

text \<open>
  C14: nothing happens without the write permission. When a request of the interface changed
  anything at all, in the database, the registry or an external system, then its session may
  write every connector type it touches: the type of the stored row, and for an update or a
  creation the type it asks for.
\<close>

theorem changes_need_write_permission:
  assumes "run_api env c s req w \<noteq> w"
  shows "touched req (systems w) \<noteq> {} \<and> (\<forall>t \<in> touched req (systems w). has_write w s t)"
  by (rule api_guards [OF assms])

text \<open>
  Only readable target systems are shown. Every target system that a listing or a search
  returns has a connector type that the session may read.
\<close>

theorem shown_systems_are_readable:
  assumes "api_findAll env c s type enabled limit offset w = (Inr items, w') \<or>
    api_findByName env c s n w = (Inr (Some r), w') \<and> items = [r] \<or>
    api_findById env c s i w = (Inr (Some r), w') \<and> items = [r]"
  shows "\<forall>x \<in> set items. has_read w s (ts_type x)"
  using assms
proof (elim disjE)
  assume run: "api_findAll env c s type enabled limit offset w = (Inr items, w')"
  obtain ses allowed w1 where s: "s = Some ses"
    and al: "allowedConnectorTypes (ae_rbac env) (ac_rbac c) ses Read w = (Inr allowed, w1)"
    and rest: "sbind (if nonblank type then assertRead (ae_rbac env) (ac_rbac c) ses (the type) else ret ()) (\<lambda>_.
     ts_findAll (ae_ts env) (ac_ts c)
       \<lparr>fp_type = type, fp_enabled = map_option (\<lambda>e. e = ''true'') enabled, fp_limit = limit,
        fp_offset = offset, fp_allowedTypes = allowed\<rparr>) w1 = (Inr items, w')"
    using run by (auto simp: api_findAll_def sbind_Inr_iff request_session_run)
  have typed: "has_read w s (the type)" if "nonblank type"
    using rest that conjunct1 [OF allowed_run [OF al]]
    by (auto simp: s sbind_Inr_iff dest!: assertRead_Inr)
  from rest obtain w2 where "ts_findAll (ae_ts env) (ac_ts c)
       \<lparr>fp_type = type, fp_enabled = map_option (\<lambda>e. e = ''true'') enabled, fp_limit = limit,
        fp_offset = offset, fp_allowedTypes = allowed\<rparr> w2 = (Inr items, w')"
    by (auto simp: sbind_Inr_iff)
  then show ?thesis
    using findAll_items typed allowed_run [OF al]
    by (fastforce simp: system_matches_def has_read_def s nonblank_def split: if_splits option.splits)
qed (auto simp: api_findByName_def api_findById_def sbind_Inr_iff dest!: found_readable find_state)

lemma update_keeps_registry: "preserves (\<lambda>v. live_registry v = R) (ts_update env c i dto)"
proof -
  have "preserves (\<lambda>v. live_registry v = R) (update_system c i (f :: system_row \<Rightarrow> system_row))" for f
    by (auto simp: preserves_def update_system_def sbind_def split: prod.splits sum.splits option.splits if_splits)
      (cases "tc_write c"; auto)+
  then show ?thesis unfolding ts_update_def Let_def by (intro preserve_intros)
qed

lemma find_unique:
  assumes "distinct (map f xs)" "x \<in> set xs" "Q x"
  shows "find (\<lambda>y. Q y \<and> f y = f x) xs = Some x"
  using assms by (induction xs) (auto simp: image_iff)

lemma loaded_decrypt:
  assumes "reloadInternal P S allow (Inr rows) db2 reg = (Inr (), reg')" and "x \<in> set rows" and "ts_enabled x"
  shows "\<exists>config. fromJson P S (ts_config x) = Inr config"
proof -
  have "load_rows P S st rs n = Inr m \<Longrightarrow> x \<in> set rs \<Longrightarrow> \<exists>config. fromJson P S (ts_config x) = Inr config"
    for st :: "(string \<times> 'w connector) list" and rs n m
    by (induction rs arbitrary: n) (auto simp: ebind_Inr_iff split: option.splits)
  with reload_Inr [OF assms(1)] assms(2,3) show ?thesis by fastforce
qed

text \<open>
  An update through the interface is served at once. When an update of an enabled target
  system has been answered, and no other reload was under way, the registry resolves its name
  to the proxy of the stored row, with the configuration that was just saved.
\<close>

theorem answered_update_is_served:
  assumes "api_update env c s i dto w = (Inr item, w')" and "ac_inflight c = None"
    and "wf_systems (systems w)" and "system_by_id (systems w') i = Some r" and "ts_enabled r"
    and "map_of (staticConnectors (live_registry w)) (ts_type r) = Some base"
  shows "\<exists>proxy. row_proxy (te_platform (ae_ts env)) (te_settings (ae_ts env))
      (staticConnectors (live_registry w)) (target_row.truncate r) = Some proxy \<and>
    registry_get (live_registry w') (ts_name r) = Some proxy"
proof -
  let ?P = "te_platform (ae_ts env)" and ?S = "te_settings (ae_ts env)"
  let ?rows = "map target_row.truncate (systems w') :: target_row list"
  obtain x t w1 w2 where upd: "ts_update (ae_ts env) (ac_ts c) i dto w1 = (Inr item, w2)"
    and rel: "registry_reload env c w2 = (Inr (), w')" and w1: "w1 = w"
    using assms(1)
    by (auto simp: api_update_def sbind_Inr_iff request_session_run dest!: assertWrite_Inr connectorType_Inr
        split: if_splits)
  have wf: "wf_systems (systems w2)"
    using preservesD [OF update_wf upd] assms(3) by (simp add: w1)
  have reg: "live_registry w2 = live_registry w"
    using preservesD [OF update_keeps_registry upd] by (simp add: w1)
  have sys: "systems w' = systems w2" using reload_keeps_tables [of env c w2] rel by simp
  have reload: "reloadInternal ?P ?S (ae_allow env) (Inr ?rows) (table_read (ac_reload2 c) w2) (live_registry w) =
      (Inr (), live_registry w')"
    using rel assms(2)
    by (auto simp: registry_reload_def table_read_def sys reg reloadInternal_def split: option.splits prod.splits sum.splits)
  have names: "distinct (map ts_name ?rows)"
    using wf by (simp add: wf_systems_def sys o_def target_row.truncate_def)
  note served = routing [OF reload names, of "ts_name r"]
  have r: "r \<in> set (systems w')" using system_by_id_Some [OF assms(4)] by simp
  have "find (\<lambda>ts. ts_enabled ts \<and> ts_name ts = ts_name r) ?rows = Some (target_row.truncate r)"
    using find_unique [OF names, of "target_row.truncate r" ts_enabled] r assms(5)
    by (simp add: target_row.truncate_def)
  moreover obtain config where "fromJson ?P ?S (ts_config r) = Inr config"
    using loaded_decrypt [OF reload] r assms(5) by (force simp: target_row.truncate_def)
  then obtain proxy where "row_proxy ?P ?S (staticConnectors (live_registry w)) (target_row.truncate r) = Some proxy"
    using assms(6) by (auto simp: row_proxy_def createProxy_def target_row.truncate_def)
  ultimately show ?thesis using served by (simp add: Let_def)
qed

definition demo_api_env :: api_env where
  "demo_api_env = \<lparr>ae_ts = demo_env, ae_rbac = \<lparr>collate_le = (\<lambda>_ _. True), compare_le = (\<lambda>_ _. True)\<rparr>, ae_allow = {}\<rparr>"

definition demo_api_call :: api_call where
  "demo_api_call = \<lparr>ac_rbac = demo_rcall, ac_ts = demo_call, ac_reload1 = None, ac_reload2 = None, ac_inflight = None\<rparr>"

definition demo_static :: "unit registry" where
  "demo_static = new_registry [demo_connector ''linux'']"

definition demo_world :: "system_row list \<Rightarrow> unit registry \<Rightarrow> unit admin_world" where
  "demo_world rows reg =
     \<lparr>systems = rows, roles = [demo_role], mappings = [demo_mapping], live_registry = reg, outside = ()\<rparr>"

definition demo_renamed :: system_row where
  "demo_renamed = (demo_system ''1'' ''a'')\<lparr>ts_name := ''c'', ts_updatedAt := 5\<rparr>"

definition demo_proxy :: "unit connector" where
  "demo_proxy = the (createProxy (staticConnectors demo_static) ''linux'' ''c'' (Obj demo_config))"

definition demo_served :: "unit registry" where
  "demo_served = demo_static\<lparr>connectors := [(''c'', demo_proxy)], lastRegistryVersion := Some (1, Some 5)\<rparr>"

lemma demo_write_right:
  "assertWrite (ae_rbac demo_api_env) demo_rcall demo_admin ''linux'' (demo_world rows reg) =
     (Inr (), demo_world rows reg)"
  by (simp add: assertWrite_def canWrite_def effectivePermissions_def may_write_def isSuperadminSession_def
      demo_admin_def unique_def demo_rcall_def active_roles_def role_of_mapping_def role_by_id_def
      demo_world_def demo_role_def demo_mapping_def collect_permissions_def add_permission_def
      merge_permission_def no_permission_def locale_sort_def Let_def sbind_def)

lemma demo_api_update:
  "ts_update demo_env demo_call ''1'' (rename_to ''c'') (demo_world [demo_system ''1'' ''a''] reg) =
     (Inr (demo_renamed\<lparr>ts_config := redactSecrets (Obj demo_config)\<rparr>), demo_world [demo_renamed] reg)"
proof -
  have pub: "toPublicTargetSystem demo_env demo_renamed =
      Inr (demo_renamed\<lparr>ts_config := redactSecrets (Obj demo_config)\<rparr>)"
    by (simp add: toPublicTargetSystem_def stored_config_def demo_env_def demo_renamed_def demo_system_def
        demo_read coalesce_def nullish_def del: redactSecrets.simps)
  have upd: "updated_row demo_call (rename_to ''c'') None (demo_system ''1'' ''a'') = demo_renamed"
    by (simp add: updated_row_def rename_to_def demo_call_def demo_system_def demo_renamed_def)
  have "update_system demo_call ''1'' (updated_row demo_call (rename_to ''c'') None)
      (demo_world [demo_system ''1'' ''a''] reg) = (Inr demo_renamed, demo_world [demo_renamed] reg)"
    by (simp add: update_system_def demo_call_def [THEN arg_cong, of tc_write] system_by_id_def demo_world_def upd)
  then show ?thesis
    by (simp add: ts_update_def Let_def rename_to_def [THEN arg_cong, of ud_config]
        rename_to_def [THEN arg_cong, of ud_type] read_current_def current_config_def guard_exn_def
        sbind_def pub catch_op_def)
qed

lemma demo_reloaded:
  "registry_reload demo_api_env demo_api_call (demo_world [demo_renamed] demo_static) =
     (Inr (), demo_world [demo_renamed] demo_served)"
proof -
  have st: "staticConnectors demo_static = [(''linux'', demo_connector ''linux'')]"
    by (simp add: demo_static_def new_registry_def registerStatic_def demo_connector_def)
  show ?thesis
    by (simp add: registry_reload_def demo_api_call_def table_read_def demo_world_def reloadInternal_def
        demo_renamed_def demo_system_def target_row.truncate_def demo_api_env_def demo_env_def demo_read
        coalesce_def nullish_def st createProxy_def allowed_statics_def demo_served_def demo_proxy_def
        registryVersion_def Let_def)
qed

lemma demo_request:
  "api_update demo_api_env demo_api_call (Some demo_admin) ''1'' (rename_to ''c'')
     (demo_world [demo_system ''1'' ''a''] demo_static) =
   (Inr (demo_renamed\<lparr>ts_config := redactSecrets (Obj demo_config)\<rparr>), demo_world [demo_renamed] demo_served)"
proof -
  have "connectorTypeByTargetSystemId demo_rcall ''1'' (demo_world [demo_system ''1'' ''a''] demo_static) =
      (Inr ''linux'', demo_world [demo_system ''1'' ''a''] demo_static)"
    by (simp add: connectorTypeByTargetSystemId_def demo_rcall_def demo_world_def system_by_id_def system_type_def)
  moreover have "ac_rbac demo_api_call = demo_rcall" "ac_ts demo_api_call = demo_call"
    "ae_ts demo_api_env = demo_env" "ud_type (rename_to ''c'') = None"
    by (simp_all add: demo_api_call_def demo_api_env_def rename_to_def)
  ultimately show ?thesis
    by (simp add: api_update_def sbind_run(2) request_session_def demo_write_right nonblank_def
        demo_api_update demo_reloaded)
qed

theorem changes_need_write_permission_witness:
  "run_api demo_api_env demo_api_call (Some demo_admin) (ReqUpdate ''1'' (rename_to ''c''))
     (demo_world [demo_system ''1'' ''a''] demo_static) \<noteq> demo_world [demo_system ''1'' ''a''] demo_static \<and>
   has_write (demo_world [demo_system ''1'' ''a''] demo_static) (Some demo_admin) ''linux''"
proof -
  have ne: "run_api demo_api_env demo_api_call (Some demo_admin) (ReqUpdate ''1'' (rename_to ''c''))
     (demo_world [demo_system ''1'' ''a''] demo_static) \<noteq> demo_world [demo_system ''1'' ''a''] demo_static"
    unfolding run_api.simps demo_request snd_conv
    by (simp add: demo_world_def demo_renamed_def demo_system_def)
  have "row_types [demo_system ''1'' ''a''] ''1'' = {''linux''}"
    by (simp add: row_types_def system_by_id_def)
  with changes_need_write_permission [OF ne] ne show ?thesis
    by (simp add: demo_world_def rename_to_def nonblank_def)
qed

theorem shown_systems_are_readable_witness:
  "api_findById demo_api_env demo_api_call (Some demo_admin) ''1'' (demo_world [demo_system ''1'' ''a''] demo_static) =
     (Inr (Some demo_public), demo_world [demo_system ''1'' ''a''] demo_static) \<and>
   has_read (demo_world [demo_system ''1'' ''a''] demo_static) (Some demo_admin) ''linux''"
proof -
  let ?w = "demo_world [demo_system ''1'' ''a''] demo_static"
  have find: "ts_findById demo_env demo_call ''1'' ?w = (Inr (Some demo_public), ?w)"
    using demo_public_eval [of "Suc 0"] unfolding demo_fix
    by (simp add: ts_findById_def demo_call_def public_row_def demo_world_def system_by_id_def)
      (simp add: demo_public_def demo_system_def)
  have read: "assertRead (ae_rbac demo_api_env) demo_rcall demo_admin ''linux'' ?w = (Inr (), ?w)"
    by (simp add: assertRead_def canRead_def effectivePermissions_def may_read_def isSuperadminSession_def
      demo_admin_def unique_def demo_rcall_def active_roles_def role_of_mapping_def role_by_id_def
      demo_world_def demo_role_def demo_mapping_def collect_permissions_def add_permission_def
      merge_permission_def no_permission_def locale_sort_def Let_def sbind_def)
  have type: "ts_type demo_public = ''linux''" by (simp add: demo_public_def)
  have run: "api_findById demo_api_env demo_api_call (Some demo_admin) ''1'' ?w = (Inr (Some demo_public), ?w)"
    using find read
    by (simp add: api_findById_def api_found_def sbind_run(2) request_session_def type
        demo_api_call_def demo_api_env_def)
  with shown_systems_are_readable [OF disjI2 [OF disjI2], of demo_api_env demo_api_call "Some demo_admin" "''1''" ?w
      demo_public ?w "[demo_public]"]
  show ?thesis by (simp add: type)
qed

theorem answered_update_is_served_witness:
  "registry_get (live_registry (snd (api_update demo_api_env demo_api_call (Some demo_admin) ''1'' (rename_to ''c'')
     (demo_world [demo_system ''1'' ''a''] demo_static)))) ''c'' \<noteq> None \<and>
   registry_get demo_static ''c'' = None"
proof -
  have st: "staticConnectors demo_static = [(''linux'', demo_connector ''linux'')]" "connectors demo_static = []"
    by (simp_all add: demo_static_def new_registry_def registerStatic_def demo_connector_def)
  have fields: "ts_name demo_renamed = ''c''" "ts_enabled demo_renamed" "ts_type demo_renamed = ''linux''"
    "sys_id demo_renamed = ''1''"
    by (simp_all add: demo_renamed_def) (simp add: demo_system_def)
  have "\<exists>proxy. row_proxy (te_platform (ae_ts demo_api_env)) (te_settings (ae_ts demo_api_env))
      (staticConnectors (live_registry (demo_world [demo_system ''1'' ''a''] demo_static)))
      (target_row.truncate demo_renamed) = Some proxy \<and>
    registry_get (live_registry (demo_world [demo_renamed] demo_served)) (ts_name demo_renamed) = Some proxy"
    by (rule answered_update_is_served [OF demo_request])
      (simp_all add: demo_api_call_def wf_systems_def demo_world_def fields st system_by_id_def)
  then show ?thesis by (auto simp: demo_request fields registry_get_def st)
qed

end
