(* ===== verification/DlqAdmin.thy ===== *)
theory DlqAdmin
  imports Webhook TargetApi
begin

text \<open>
  Models \<open>admin/admin.service.ts\<close> and \<open>admin/admin.controller.ts\<close>: the view of the dead-letter
  queue, retries one by one and in bulk, skips, and the statistics, with the rights they ask for.
\<close>

section \<open>The service\<close>

text \<open>What the calls of one request meet; a bulk retry has its own calls for the \<open>k\<close>-th item.\<close>

record admin_call =
  ad_find :: "exn option"
  ad_retry :: "nat \<Rightarrow> dlq_call"
  ad_rq :: "nat \<Rightarrow> request"
  ad_metrics :: dlq_call

record dlq_filter =
  df_status :: "string option"
  df_targetSystem :: "string option"
  df_limit :: jsval
  df_offset :: jsval
  df_allowed :: "string list option"

definition admin_limit :: "jsval \<Rightarrow> nat \<Rightarrow> nat \<Rightarrow> nat" where
  "admin_limit v defaultValue maxValue =
     (case positive_integer v of None \<Rightarrow> defaultValue | Some n \<Rightarrow> min n maxValue)"

definition admin_offset :: "jsval \<Rightarrow> nat" where
  "admin_offset v = or_else (positive_integer v) 0"

definition in_scope :: "dlq_filter \<Rightarrow> dlq_row \<Rightarrow> bool" where
  "in_scope f r \<longleftrightarrow>
     (if nonblank (df_targetSystem f) then Some (row_targetSystem r) = df_targetSystem f
      else (case df_allowed f of Some ts \<Rightarrow> row_targetSystem r \<in> set ts | None \<Rightarrow> True))"

definition findDlqItems ::
  "('s, 'e) app \<Rightarrow> admin_call \<Rightarrow> dlq_filter \<Rightarrow> (dlq_row list, ('s, 'e) world) op" where
  "findDlqItems ap ac f =
     (if df_allowed f = Some [] then ret []
      else sbind (may_fail (ad_find ac)) (\<lambda>_ w. lift_result
        (map_exn (\<lambda>r. ebind (fromJson (ap_platform ap) (ap_settings ap) (row_payload r))
             (\<lambda>p. Inr (r\<lparr>row_payload := p\<rparr>)))
          (newest_page (admin_offset (df_offset f)) (admin_limit (df_limit f) 50 200) createdAt
            (filter (\<lambda>r. (nonblank (df_status f) \<longrightarrow> Some (status r) = df_status f) \<and> in_scope f r)
              (dlq_rows w)))) w))"

definition findDlqItemTargetSystem :: "admin_call \<Rightarrow> string \<Rightarrow> (string option, ('s, 'e) world) op" where
  "findDlqItemTargetSystem ac i =
     sbind (may_fail (ad_find ac)) (\<lambda>_ w. (Inr (map_option row_targetSystem (row_of (dlq_rows w) i)), w))"

definition dlq_message :: "dlq_row \<Rightarrow> obj \<Rightarrow> obj" where
  "dlq_message item payload =
     [(''dlqItemId'', Str (row_id item)), (''eventId'', Str (row_eventId item)),
      (''operation'', Str (row_operation item)), (''targetSystem'', Str (row_targetSystem item)),
      (''payload'', Obj payload)]"

definition item_event :: "dlq_row \<Rightarrow> obj \<Rightarrow> event" where
  "item_event item payload =
     \<lparr>ev_eventId = row_eventId item, ev_operation = row_operation item,
      ev_targetSystem = row_targetSystem item, ev_payload = payload\<rparr>"

definition retryItem :: "('s, 'e) app \<Rightarrow> request \<Rightarrow> dlq_row \<Rightarrow> (unit, ('s, 'e) world) op" where
  "retryItem ap rq item =
     sbind (lift_result (fromJson (ap_platform ap) (ap_settings ap) (row_payload item))) (\<lambda>v.
       let payload = as_obj (coalesce v (Obj [])) in
       if k_enabled (ap_kafka ap)
       then kafka_send ap (call_iv (rq_dlq rq)) (rq_send1 rq)
              (or_else (k_dlq_retry (ap_kafka ap)) ''idm.dlq.retry'') (dlq_message item payload)
       else processRetry (ap_services ap) rq (item_event item payload) (row_id item))"

definition not_claimed :: "string \<Rightarrow> exn" where
  "not_claimed i = JsError (''DLQ item '' @ i @ '' is already retrying, skipped, or resolved'')"

definition admin_retry :: "('s, 'e) app \<Rightarrow> admin_call \<Rightarrow> string \<Rightarrow> (unit, ('s, 'e) world) op" where
  "admin_retry ap ac i =
     sbind (dlq_retry (sv_dlq (ap_services ap)) (ad_retry ac 0) i) (\<lambda>claimed.
     if \<not> claimed then raise (not_claimed i)
     else sbind (may_fail (ad_find ac)) (\<lambda>_.
       sbind (\<lambda>w. (case row_of (dlq_rows w) i of None \<Rightarrow> ret () | Some item \<Rightarrow> retryItem ap (ad_rq ac 0) item) w)
         (\<lambda>_. dlq_updateMetrics (ad_metrics ac))))"

record retry_summary =
  rs_requested :: nat
  rs_queued :: nat
  rs_skipped :: nat
  rs_errors :: "(string \<times> string) list"

definition no_retries :: retry_summary where
  "no_retries = \<lparr>rs_requested = 0, rs_queued = 0, rs_skipped = 0, rs_errors = []\<rparr>"

definition retry_one :: "('s, 'e) app \<Rightarrow> admin_call \<Rightarrow> nat \<Rightarrow> dlq_row \<Rightarrow> (bool, ('s, 'e) world) op" where
  "retry_one ap ac k item =
     sbind (dlq_retry (sv_dlq (ap_services ap)) (ad_retry ac k) (row_id item)) (\<lambda>claimed.
     if \<not> claimed then ret False
     else sbind (retryItem ap (ad_rq ac k) item) (\<lambda>_. ret True))"

fun retry_loop ::
  "('s, 'e) app \<Rightarrow> admin_call \<Rightarrow> nat \<Rightarrow> dlq_row list \<Rightarrow> retry_summary \<Rightarrow> ('s, 'e) world \<Rightarrow>
   retry_summary \<times> ('s, 'e) world" where
  "retry_loop ap ac k [] s w = (s, w)"
| "retry_loop ap ac k (item # items) s w =
     (case retry_one ap ac k item w of
        (Inr True, w') \<Rightarrow> retry_loop ap ac (k + 1) items (s\<lparr>rs_queued := rs_queued s + 1\<rparr>) w'
      | (Inr False, w') \<Rightarrow> retry_loop ap ac (k + 1) items (s\<lparr>rs_skipped := rs_skipped s + 1\<rparr>) w'
      | (Inl e, w') \<Rightarrow> retry_loop ap ac (k + 1) items
          (s\<lparr>rs_errors := rs_errors s @ [(row_id item, exn_message e)]\<rparr>) w')"

definition bulk_items :: "dlq_filter \<Rightarrow> dlq_row list \<Rightarrow> dlq_row list" where
  "bulk_items f rows = take (admin_limit (df_limit f) 25 100)
     (sort_key createdAt
       (filter (\<lambda>r. status r = or_else (df_status f) ''pending'' \<and> in_scope f r) rows))"

definition retryMany :: "('s, 'e) app \<Rightarrow> admin_call \<Rightarrow> dlq_filter \<Rightarrow> (retry_summary, ('s, 'e) world) op" where
  "retryMany ap ac f =
     (if df_allowed f = Some [] then ret no_retries
      else sbind (may_fail (ad_find ac)) (\<lambda>_ w.
        let items = bulk_items f (dlq_rows w) in
        case retry_loop ap ac 0 items (no_retries\<lparr>rs_requested := length items\<rparr>) w of
          (s, w') \<Rightarrow> sbind (dlq_updateMetrics (ad_metrics ac)) (\<lambda>_. ret s) w'))"

definition admin_skip :: "admin_call \<Rightarrow> string \<Rightarrow> (unit, ('s, 'e) world) op" where
  "admin_skip ac i =
     sbind (dlq_skip (ad_retry ac 0) i) (\<lambda>_. dlq_updateMetrics (ad_metrics ac))"

section \<open>Statistics\<close>

record infrastructure =
  inf_kafka :: bool
  inf_redis :: bool
  inf_mode :: string

record admin_stats =
  st_dlq :: "(string \<times> nat) list"
  st_processed :: snapshot
  st_infrastructure :: infrastructure

definition add_status :: "(string \<times> nat) list \<times> nat \<Rightarrow> string \<times> nat \<Rightarrow> (string \<times> nat) list \<times> nat" where
  "add_status acc e =
     (map_set (fst e) (or_else (map_of (fst acc) (fst e)) 0 + snd e) (fst acc), snd acc + snd e)"

definition sum_statuses :: "nested_counts \<Rightarrow> (string \<times> nat) list \<times> nat" where
  "sum_statuses nested = foldl (\<lambda>acc e. foldl add_status acc (snd e)) ([], 0) nested"

definition filteredProcessedLast5Minutes :: "string list option \<Rightarrow> snapshot \<Rightarrow> snapshot" where
  "filteredProcessedLast5Minutes allowed snap =
     (case allowed of
        None \<Rightarrow> snap
      | Some ts \<Rightarrow>
          let kept = filter (\<lambda>e. fst e \<in> set ts) (byTargetSystem snap) in
          \<lparr>snap_total = snd (sum_statuses kept), byStatus = fst (sum_statuses kept),
           byTargetSystem = kept\<rparr>)"

definition infrastructure_of :: "('s, 'e) app \<Rightarrow> bool \<Rightarrow> infrastructure" where
  "infrastructure_of ap redis =
     \<lparr>inf_kafka = k_enabled (ap_kafka ap), inf_redis = redis, inf_mode = processing_mode ap\<rparr>"

definition admin_stats_of ::
  "('s, 'e) app \<Rightarrow> bool \<Rightarrow> admin_call \<Rightarrow> nat \<Rightarrow> string list option \<Rightarrow> (admin_stats, ('s, 'e) world) op" where
  "admin_stats_of ap redis ac now allowed =
     (if allowed = Some []
      then ret \<lparr>st_dlq = [(''pending'', 0), (''retrying'', 0), (''skipped'', 0), (''resolved'', 0)],
             st_processed = \<lparr>snap_total = 0, byStatus = [], byTargetSystem = []\<rparr>,
             st_infrastructure = infrastructure_of ap redis\<rparr>
      else sbind (may_fail (ad_find ac)) (\<lambda>_ w.
        let rows = filter (\<lambda>r. case allowed of None \<Rightarrow> True | Some ts \<Rightarrow> row_targetSystem r \<in> set ts) (dlq_rows w) in
        case processedLast5Minutes now (dlq_metrics w) of (snap, m') \<Rightarrow>
          (Inr \<lparr>st_dlq = map (\<lambda>st. (st, count_status rows st)) [''pending'', ''retrying'', ''skipped'', ''resolved''],
             st_processed = filteredProcessedLast5Minutes allowed snap,
             st_infrastructure = infrastructure_of ap redis\<rparr>, w\<lparr>dlq_metrics := m'\<rparr>)))"

section \<open>The controller\<close>

text \<open>The world of the handlers: the access-control tables and the pipeline.\<close>

record ('s, 'e) dlq_api_world = rbac_db +
  pipeline :: "('s, 'e) world"

definition on_pipeline :: "('a, ('s, 'e) world) op \<Rightarrow> ('a, ('s, 'e) dlq_api_world) op" where
  "on_pipeline m w = (case m (pipeline w) of (r, p) \<Rightarrow> (r, w\<lparr>pipeline := p\<rparr>))"

definition assertDlqRead ::
  "rbac_env \<Rightarrow> rbac_call \<Rightarrow> admin_call \<Rightarrow> admin_session option \<Rightarrow> string \<Rightarrow> (unit, ('s, 'e) dlq_api_world) op" where
  "assertDlqRead env c ac s i =
     sbind (on_pipeline (findDlqItemTargetSystem ac i)) (\<lambda>ts.
       if \<not> nonblank ts then ret ()
       else sbind (request_session s) (\<lambda>ses.
         sbind (connectorTypeByTargetSystemName c (the ts)) (assertRead env c ses)))"

text \<open>The scope of a request: a named target system that may be read, or all readable ones.\<close>

definition dlq_scope ::
  "rbac_env \<Rightarrow> rbac_call \<Rightarrow> admin_session option \<Rightarrow> string option \<Rightarrow> (string list option, ('s, 'e) dlq_api_world) op" where
  "dlq_scope env c s ts =
     sbind (request_session s) (\<lambda>ses.
       if nonblank ts
       then sbind (connectorTypeByTargetSystemName c (the ts)) (\<lambda>t.
            sbind (assertRead env c ses t) (\<lambda>_. ret None))
       else targetSystemNamesForAccess env c ses Read)"

definition api_getStats ::
  "rbac_env \<Rightarrow> rbac_call \<Rightarrow> ('s, 'e) app \<Rightarrow> bool \<Rightarrow> admin_call \<Rightarrow> nat \<Rightarrow> admin_session option \<Rightarrow>
   (admin_stats, ('s, 'e) dlq_api_world) op" where
  "api_getStats env c ap redis ac now s =
     sbind (dlq_scope env c s None) (\<lambda>allowed. on_pipeline (admin_stats_of ap redis ac now allowed))"

definition api_getDlq ::
  "rbac_env \<Rightarrow> rbac_call \<Rightarrow> ('s, 'e) app \<Rightarrow> admin_call \<Rightarrow> admin_session option \<Rightarrow> dlq_filter \<Rightarrow>
   (dlq_row list, ('s, 'e) dlq_api_world) op" where
  "api_getDlq env c ap ac s f =
     sbind (dlq_scope env c s (df_targetSystem f)) (\<lambda>allowed.
       on_pipeline (findDlqItems ap ac (f\<lparr>df_allowed := allowed\<rparr>)))"

definition api_retryMany ::
  "rbac_env \<Rightarrow> rbac_call \<Rightarrow> ('s, 'e) app \<Rightarrow> admin_call \<Rightarrow> admin_session option \<Rightarrow> dlq_filter \<Rightarrow>
   (retry_summary, ('s, 'e) dlq_api_world) op" where
  "api_retryMany env c ap ac s f =
     sbind (dlq_scope env c s (df_targetSystem f)) (\<lambda>allowed.
       on_pipeline (retryMany ap ac (f\<lparr>df_allowed := allowed\<rparr>)))"

definition api_retry ::
  "rbac_env \<Rightarrow> rbac_call \<Rightarrow> ('s, 'e) app \<Rightarrow> admin_call \<Rightarrow> admin_session option \<Rightarrow> string \<Rightarrow>
   (bool, ('s, 'e) dlq_api_world) op" where
  "api_retry env c ap ac s i =
     sbind (assertDlqRead env c ac s i) (\<lambda>_. sbind (on_pipeline (admin_retry ap ac i)) (\<lambda>_. ret True))"

definition api_skip ::
  "rbac_env \<Rightarrow> rbac_call \<Rightarrow> admin_call \<Rightarrow> admin_session option \<Rightarrow> string \<Rightarrow> (bool, ('s, 'e) dlq_api_world) op" where
  "api_skip env c ac s i =
     sbind (assertDlqRead env c ac s i) (\<lambda>_. sbind (on_pipeline (admin_skip ac i)) (\<lambda>_. ret True))"

section \<open>What other rows see\<close>

definition row_is :: "string \<Rightarrow> dlq_row \<Rightarrow> 'b dlq_state_scheme \<Rightarrow> bool" where
  "row_is i r w \<longleftrightarrow> row_of (dlq_rows w) i = Some r"

lemma row_is_same_rows:
  assumes "\<And>w. dlq_rows (snd (m w)) = dlq_rows w"
  shows "preserves (row_is i r) m"
  unfolding preserves_def row_is_def by (metis assms snd_conv)

lemma row_is_map:
  assumes "\<And>w. dlq_rows (snd (m w)) = dlq_rows w \<or>
      (\<exists>f. (\<forall>x. row_id (f x) = row_id x \<and> (row_id x = i \<longrightarrow> f x = x)) \<and> dlq_rows (snd (m w)) = map f (dlq_rows w))"
  shows "preserves (row_is i r) m"
  unfolding preserves_def
proof (intro allI impI)
  fix w x w' assume w: "row_is i r w" and run: "m w = (x, w')"
  from assms [of w] run consider "dlq_rows w' = dlq_rows w"
    | f where "\<And>x. row_id (f x) = row_id x" "\<And>x. row_id x = i \<Longrightarrow> f x = x" "dlq_rows w' = map f (dlq_rows w)"
    by auto
  then show "row_is i r w'"
  proof cases
    case 2
    from w have "row_of (dlq_rows w) i = Some r" by (simp add: row_is_def)
    moreover from this have "row_id r = i" by (auto dest: row_of_Some)
    ultimately show ?thesis using 2 by (simp add: row_is_def row_of_map)
  qed (use w in \<open>simp add: row_is_def\<close>)
qed

lemma row_is_update:
  assumes "j \<noteq> i" "\<And>x. row_id (f x) = row_id x"
  shows "preserves (row_is i r) (update_row c j f)"
proof (rule row_is_map)
  fix w
  show "dlq_rows (snd (update_row c j f w)) = dlq_rows w \<or>
      (\<exists>g. (\<forall>x. row_id (g x) = row_id x \<and> (row_id x = i \<longrightarrow> g x = x)) \<and>
        dlq_rows (snd (update_row c j f w)) = map g (dlq_rows w))"
    using update_rows [of c j f w] assms by (auto intro!: exI [of _ "\<lambda>r. if row_id r = j then f r else r"])
qed

lemma row_is_metrics: "preserves (row_is i r) (dlq_updateMetrics c)"
  by (rule row_is_same_rows) simp

lemma row_is_on_metrics: "preserves (row_is i r) (on_metrics f)"
  by (rule row_is_same_rows) (simp add: on_metrics_def)

lemma row_is_execute: "preserves (row_is i r) (executeWithRetry sv rq ev)"
proof (rule row_is_same_rows)
  fix w show "dlq_rows (snd (executeWithRetry sv rq ev w)) = dlq_rows w"
    using preserves_snd [OF core_executeWithRetry, of "dlq_rows w" "locks w" "sent w" w sv rq ev]
    by (simp add: core_def)
qed

lemma row_is_processRetry: "j \<noteq> i \<Longrightarrow> preserves (row_is i r) (processRetry sv rq ev j)"
  unfolding processRetry_def dlq_resolve_def dlq_markRetryFailed_def
  by (intro preserve_intros row_is_execute row_is_on_metrics row_is_metrics row_is_update) simp_all

lemma row_is_kafka: "preserves (row_is i r) (kafka_send ap iv fault topic m)"
  unfolding kafka_send_def by (intro preserve_intros) (simp add: row_is_def)

lemma row_is_retryItem: "row_id item \<noteq> i \<Longrightarrow> preserves (row_is i r) (retryItem ap rq item)"
  unfolding retryItem_def Let_def by (intro preserve_intros row_is_kafka row_is_processRetry)

lemma row_is_claim: "j \<noteq> i \<Longrightarrow> preserves (row_is i r) (dlq_retry env c j)"
proof (rule row_is_map)
  fix w assume "j \<noteq> i"
  then show "dlq_rows (snd (dlq_retry env c j w)) = dlq_rows w \<or>
      (\<exists>g. (\<forall>x. row_id (g x) = row_id x \<and> (row_id x = i \<longrightarrow> g x = x)) \<and>
        dlq_rows (snd (dlq_retry env c j w)) = map g (dlq_rows w))"
    using retry_rows [of env c j w]
  proof (elim disjE exE conjE)
    fix lease assume "dlq_rows (snd (dlq_retry env c j w)) = map (claim_row env c j lease) (dlq_rows w)"
    moreover have "row_id x = i \<longrightarrow> claim_row env c j lease x = x" for x
      using \<open>j \<noteq> i\<close> by (simp add: claim_row_def)
    ultimately show ?thesis using claim_row_id by blast
  qed simp
qed

lemma row_is_retry_one: "row_id item \<noteq> i \<Longrightarrow> preserves (row_is i r) (retry_one ap ac k item)"
  unfolding retry_one_def by (intro preserve_intros row_is_claim row_is_retryItem)

lemma retry_loop_rows:
  assumes "i \<notin> row_id ` set items" "row_is i r w" "retry_loop ap ac k items s w = (s', w')"
  shows "row_is i r w'"
  using assms
proof (induction items arbitrary: k s w)
  case (Cons item items)
  obtain x w1 where one: "retry_one ap ac k item w = (x, w1)" by fastforce
  with preservesD [OF row_is_retry_one one] Cons.prems have "row_is i r w1" by auto
  with Cons one show ?case by (auto split: sum.splits if_splits bool.splits)
qed simp

lemma retry_loop_counts:
  assumes "retry_loop ap ac k items s w = (s', w')"
  shows "rs_requested s' = rs_requested s \<and>
    rs_queued s' + rs_skipped s' + length (rs_errors s') =
      rs_queued s + rs_skipped s + length (rs_errors s) + length items"
  using assms
proof (induction items arbitrary: k s w)
  case (Cons item items)
  obtain x w1 where one: "retry_one ap ac k item w = (x, w1)" by fastforce
  with Cons.prems Cons.IH show ?case by (fastforce split: sum.splits bool.splits)
qed simp

section \<open>Properties\<close>

text \<open>
  A bulk retry accounts for every item and stays in its scope. Each item it took is counted
  once, as queued, as skipped because it could not be claimed, or as an error; it takes at most
  100; and every row that does not match its filter, which holds the status and the target
  systems that the caller may see, is left exactly as it was.
\<close>

theorem bulk_retry_stays_in_scope:
  assumes "retryMany ap ac f w = (Inr s, w')" and "distinct (map row_id (dlq_rows w))"
  shows "rs_requested s = rs_queued s + rs_skipped s + length (rs_errors s) \<and> rs_requested s \<le> 100 \<and>
    (\<forall>r \<in> set (dlq_rows w). \<not> (status r = or_else (df_status f) ''pending'' \<and> in_scope f r) \<longrightarrow>
       row_of (dlq_rows w') (row_id r) = Some r)"
proof (cases "df_allowed f = Some []")
  case True
  have "row_of (dlq_rows w) (row_id r) = Some r" if "r \<in> set (dlq_rows w)" for r
    using find_unique [OF assms(2) that, of "\<lambda>_. True"] by (simp add: row_of_def)
  with True assms show ?thesis by (auto simp: retryMany_def no_retries_def)
next
  case False
  let ?items = "bulk_items f (dlq_rows w)"
  obtain w1 where loop: "retry_loop ap ac 0 ?items (no_retries\<lparr>rs_requested := length ?items\<rparr>) w = (s, w1)"
    and m: "sbind (dlq_updateMetrics (ad_metrics ac)) (\<lambda>_. ret s) w1 = (Inr s, w')"
    using assms(1) False by (auto simp: retryMany_def Let_def sbind_Inr_iff may_fail_iff split: prod.splits)
  have rows: "dlq_rows w' = dlq_rows w1" by (rule sbind_metrics_ret_rowsD [OF m])
  have "length ?items \<le> 100"
    by (auto simp: bulk_items_def admin_limit_def min_def split: option.split)
  moreover have "row_of (dlq_rows w') (row_id r) = Some r"
    if r: "r \<in> set (dlq_rows w)" and out: "\<not> (status r = or_else (df_status f) ''pending'' \<and> in_scope f r)" for r
  proof -
    have "row_id r \<notin> row_id ` set ?items"
    proof
      assume "row_id r \<in> row_id ` set ?items"
      then obtain x where x: "x \<in> set ?items" "row_id x = row_id r" by auto
      then have "x \<in> set (dlq_rows w)" "status x = or_else (df_status f) ''pending'' \<and> in_scope f x"
        by (auto simp: bulk_items_def dest!: in_set_takeD)
      with x(2) r out assms(2) show False by (metis distinct_map inj_onD)
    qed
    moreover have "row_is (row_id r) r w"
      using find_unique [OF assms(2) r, of "\<lambda>_. True"] by (simp add: row_is_def row_of_def)
    ultimately show ?thesis using retry_loop_rows [OF _ _ loop] by (simp add: row_is_def rows)
  qed
  ultimately show ?thesis using retry_loop_counts [OF loop] by (auto simp: no_retries_def)
qed

text \<open>
  An item of a target system that is not in the table cannot be settled one by one, by
  nobody. Retrying or skipping it first looks the target system up by name to find out which
  right is needed, and a missing one ends the request; a superadmin is no exception, although
  such items are what the pipeline stores for an event with an unknown target system.
\<close>

theorem orphaned_item_cannot_be_settled:
  assumes "row_of (dlq_rows (pipeline w)) i = Some r" and "row_targetSystem r \<noteq> []"
    and "system_by_name (systems w) (row_targetSystem r) = None"
    and "ad_find ac = None" and "rc_read c = None"
  shows "api_skip env c ac (Some ses) i w = (Inl (NotFound ''TargetSystem not found''), w) \<and>
    api_retry env c ap ac (Some ses) i w = (Inl (NotFound ''TargetSystem not found''), w)"
proof -
  have "on_pipeline (findDlqItemTargetSystem ac i) w = (Inr (Some (row_targetSystem r)), w)"
    using assms(1,4) by (simp add: on_pipeline_def findDlqItemTargetSystem_def)
  moreover have "connectorTypeByTargetSystemName c (row_targetSystem r) w = (Inl (NotFound ''TargetSystem not found''), w)"
    using assms(3,5) by (simp add: connectorTypeByTargetSystemName_def system_type_def)
  ultimately have "assertDlqRead env c ac (Some ses) i w = (Inl (NotFound ''TargetSystem not found''), w)"
    using assms(2) by (simp add: assertDlqRead_def sbind_run(2) nonblank_def request_session_def sbind_def)
  then show ?thesis by (simp add: api_skip_def api_retry_def sbind_run(1))
qed

text \<open>
  A retry that could not be queued blocks its item. With Kafka enabled, a retry claims the
  item before it sends the message; when the send fails, the operator sees the broker's error,
  and the claim stays, so that every further retry is refused until the lease of the target
  system has expired.
\<close>

theorem failed_requeue_keeps_lease:
  assumes "wf_rows (dlq_rows w)" and "row_of (dlq_rows w) i = Some r"
    and "dlq_retry (sv_dlq (ap_services ap)) (ad_retry ac 0) i w = (Inr True, w1)"
    and "k_enabled (ap_kafka ap)" and "k_producer (ap_kafka ap)" and "ad_find ac = None"
    and "rq_send1 (ad_rq ac 0) = Some broker"
    and "fromJson (ap_platform ap) (ap_settings ap) (row_payload r) = Inr v"
    and "encodeKafkaMessage (ap_platform ap) (ap_settings ap) (call_iv (rq_dlq (ad_rq ac 0)))
      (dlq_message (claim (call_now (ad_retry ac 0)) (env_pid (sv_dlq (ap_services ap))) r)
        (as_obj (coalesce v (Obj [])))) = Inr raw"
    and "target_policy (sv_dlq (ap_services ap)) (row_targetSystem r) = Inr p"
    and "call_now c2 \<le> call_now (ad_retry ac 0) + dlqLeaseSeconds p * 1000"
    and "find_fault c2 = None" "write_fault c2 = None"
  shows "\<exists>w2. admin_retry ap ac i w = (Inl broker, w2) \<and>
    fst (dlq_retry (sv_dlq (ap_services ap)) c2 i w2) = Inr False"
proof -
  let ?env = "sv_dlq (ap_services ap)"
  obtain lease where claimable: "claimable (call_now (ad_retry ac 0)) lease r"
    and rows: "dlq_rows w1 = map (claim_row ?env (ad_retry ac 0) i lease) (dlq_rows w)"
    using retry_True [OF _ assms(3)] assms(1,2) by (auto simp: wf_rows_def)
  have id: "row_id r = i" using assms(2) by (auto dest: row_of_Some)
  let ?r = "claim (call_now (ad_retry ac 0)) (env_pid ?env) r"
  have row: "row_of (dlq_rows w1) i = Some ?r"
    using assms(2) claimable id by (simp add: rows row_of_map) (simp add: claim_row_def)
  have "retryItem ap (ad_rq ac 0) ?r w1 = (Inl broker, w1)"
    using assms(4,5,7,8,9) by (simp add: retryItem_def claim_def kafka_send_def Let_def)
  then have run: "admin_retry ap ac i w = (Inl broker, w1)"
    using assms(3,6) row by (simp add: admin_retry_def sbind_run(2)) (simp add: sbind_def)
  have leased: "leased i (row_targetSystem r) (call_now (ad_retry ac 0)) (dlq_rows w1)"
    by (rule claim_leases [OF assms(1,3,2)])
  have "wf_rows (dlq_rows w1)"
    using wf_rows_map [OF assms(1), of "claim_row ?env (ad_retry ac 0) i lease"] wf_claim_row by (simp add: rows)
  then have "fst (dlq_retry ?env c2 i w1) = Inr False"
    using leased_not_claimed [OF leased assms(10,11)] assms(12,13)
    by (auto simp: retry_run filter_unique wf_rows_def)
  with run show ?thesis by blast
qed

section \<open>The filtered statistics\<close>

definition kept_total :: "string set \<Rightarrow> nested_counts \<Rightarrow> nat" where
  "kept_total A m = sum_list (map (\<lambda>e. if fst e \<in> A then sum_list (map snd (snd e)) else 0) m)"

lemma sum_statuses_total: "snd (sum_statuses m) = sum_list (map (\<lambda>e. sum_list (map snd (snd e))) m)"
proof -
  have inner: "snd (foldl add_status acc es) = snd acc + sum_list (map snd es)" for acc es
    by (induction es arbitrary: acc) (simp_all add: add_status_def)
  have "snd (foldl (\<lambda>acc e. foldl add_status acc (snd e)) acc m) =
      snd acc + sum_list (map (\<lambda>e. sum_list (map snd (snd e))) m)" for acc
    by (induction m arbitrary: acc) (simp_all add: inner)
  then show ?thesis by (simp add: sum_statuses_def)
qed

lemma map_set_total:
  "sum_list (map (g :: 'k \<times> 'v \<Rightarrow> nat) (map_set k v m)) +
     (case map_of m k of None \<Rightarrow> 0 | Some x \<Rightarrow> g (k, x)) = sum_list (map g m) + g (k, v)"
  by (induction k v m rule: map_set.induct) (auto split: option.splits)

lemma kept_filter: "sum_list (map (\<lambda>e. sum_list (map snd (snd e))) (filter (\<lambda>e. fst e \<in> A) m)) = kept_total A m"
  by (induction m) (simp_all add: kept_total_def)

lemma bump_total: "sum_list (map snd (bump k c)) = Suc (sum_list (map snd c))"
  using map_set_total [of snd k "or_else (map_of c k) 0 + 1" c]
  by (cases "map_of c k") (simp_all add: bump_def)

lemma bump_nested_total:
  "kept_total A (bump_nested m s) = kept_total A m + (if s_target s \<in> A then 1 else 0)"
  using map_set_total [of "\<lambda>e. if fst e \<in> A then sum_list (map snd (snd e)) else 0" "s_target s"
      "bump (s_status s) (or_else (map_of m (s_target s)) [])" m]
  by (cases "map_of m (s_target s)") (auto simp: kept_total_def bump_nested_def bump_total)

lemma window_total:
  "kept_total A (foldl bump_nested m w) = kept_total A m + length (filter (\<lambda>s. s_target s \<in> A) w)"
  by (induction w arbitrary: m) (simp_all add: bump_nested_total)

text \<open>
  The statistics show what the caller may see, exactly. For a caller that is restricted to
  some target systems, the processed total is the number of events of those systems in the
  five-minute window, and the size shown for each dead-letter status is the number of rows of
  those systems with that status; the breakdown names no other system.
\<close>

theorem filtered_statistics_are_exact:
  assumes "admin_stats_of ap redis ac now (Some ts) w = (Inr st, w')" and "ts \<noteq> []"
  shows "snap_total (st_processed st) =
      length (filter (\<lambda>s. s_target s \<in> set ts) (processedWindow (dlq_metrics w'))) \<and>
    fst ` set (byTargetSystem (st_processed st)) \<subseteq> set ts \<and>
    (\<forall>x \<in> set DLQ_STATUSES. map_of (st_dlq st) x =
       Some (length (filter (\<lambda>r. status r = x \<and> row_targetSystem r \<in> set ts) (dlq_rows w'))))"
proof -
  let ?m = "refreshProcessedWindow now (dlq_metrics w)"
  have st: "st_processed st = filteredProcessedLast5Minutes (Some ts) (fst (processedLast5Minutes now (dlq_metrics w)))"
    and w': "w' = w\<lparr>dlq_metrics := ?m\<rparr>"
    and dlq: "st_dlq st = map (\<lambda>x. (x, count_status (filter (\<lambda>r. row_targetSystem r \<in> set ts) (dlq_rows w)) x))
      [''pending'', ''retrying'', ''skipped'', ''resolved'']"
    using assms by (auto simp: admin_stats_of_def sbind_Inr_iff may_fail_iff Let_def processedLast5Minutes_def)
  have "snap_total (st_processed st) = kept_total (set ts) (foldl bump_nested [] (processedWindow ?m))"
    by (simp add: st filteredProcessedLast5Minutes_def processedLast5Minutes_def Let_def sum_statuses_total
        kept_filter)
  also have "\<dots> = length (filter (\<lambda>s. s_target s \<in> set ts) (processedWindow ?m))"
    by (simp add: window_total) (simp add: kept_total_def)
  finally have "snap_total (st_processed st) =
      length (filter (\<lambda>s. s_target s \<in> set ts) (processedWindow (dlq_metrics w')))" by (simp add: w')
  moreover have "fst ` set (byTargetSystem (st_processed st)) \<subseteq> set ts"
    by (auto simp: st filteredProcessedLast5Minutes_def Let_def)
  moreover have "map_of (st_dlq st) x =
      Some (length (filter (\<lambda>r. status r = x \<and> row_targetSystem r \<in> set ts) (dlq_rows w')))"
    if "x \<in> set DLQ_STATUSES" for x
  proof -
    have "map_of (st_dlq st) x = Some (count_status (filter (\<lambda>r. row_targetSystem r \<in> set ts) (dlq_rows w)) x)"
      unfolding dlq DLQ_STATUSES_def [symmetric] using that by (simp add: map_of_map_restrict)
    then show ?thesis by (simp add: count_status_def w' conj_commute)
  qed
  ultimately show ?thesis by blast
qed

section \<open>Witnesses\<close>

definition row_ad :: dlq_row where
  "row_ad = new_row (Dlq.demo_call 5) demo_item (Obj [])"

definition row_db :: dlq_row where
  "row_db = row_ad\<lparr>row_id := ''other'', row_targetSystem := ''db''\<rparr>"

definition two_rows :: "(string \<Rightarrow> key_row option, nat) world" where
  "two_rows = (Processing.demo_world (\<lambda>_. None))\<lparr>dlq_rows := [row_ad, row_db]\<rparr>"

definition demo_admin_call :: "nat \<Rightarrow> exn option \<Rightarrow> admin_call" where
  "demo_admin_call now broker =
     \<lparr>ad_find = None, ad_retry = (\<lambda>_. Dlq.demo_call now),
      ad_rq = (\<lambda>_. Processing.demo_request\<lparr>rq_send1 := broker\<rparr>), ad_metrics = Dlq.demo_call now\<rparr>"

definition only_ad :: dlq_filter where
  "only_ad =
     \<lparr>df_status = None, df_targetSystem = Some ''ad'', df_limit = Undef, df_offset = Undef, df_allowed = None\<rparr>"

lemma row_fields [simp]:
  "row_id row_ad = ''row''" "row_id row_db = ''other''" "status row_ad = ''pending''" "status row_db = ''pending''"
  "row_targetSystem row_ad = ''ad''" "row_targetSystem row_db = ''db''" "row_payload row_ad = Obj []"
  by (simp_all add: row_ad_def row_db_def new_row_def Dlq.demo_call_def demo_item_def)

lemma admin_call_fields [simp]:
  "ad_find (demo_admin_call now b) = None" "ad_retry (demo_admin_call now b) k = Dlq.demo_call now"
  "ad_metrics (demo_admin_call now b) = Dlq.demo_call now" "rq_send1 (ad_rq (demo_admin_call now b) k) = b"
  "rq_dlq (ad_rq (demo_admin_call now b) k) = Dlq.demo_call 10"
  "call_now (Dlq.demo_call now) = now" "find_fault (Dlq.demo_call now) = None"
  "write_fault (Dlq.demo_call now) = None" "count_fault (Dlq.demo_call now) = None"
  by (simp_all add: demo_admin_call_def Dlq.demo_call_def Processing.demo_request_def)

lemma two_rows_fields [simp]: "dlq_rows two_rows = [row_ad, row_db]"
  by (simp add: two_rows_def)

lemma wf_two_rows: "wf_rows (dlq_rows two_rows)"
proof -
  have "wf_row row_ad" unfolding row_ad_def by (rule wf_new_row)
  then have "wf_row row_db" by (simp add: row_db_def wf_row_def)
  with \<open>wf_row row_ad\<close> show ?thesis by (simp add: wf_rows_def)
qed

lemma claim_two_rows: "fst (dlq_retry Dlq.demo_env (Dlq.demo_call 1000) ''row'' two_rows) = Inr True"
proof -
  have "lease_of Dlq.demo_env (dlq_rows two_rows) ''row'' = Inr 300"
    by (simp add: lease_of_def row_of_def demo_policy DEFAULT_RETRY_POLICY_def)
  then show ?thesis unfolding retry_run by (simp add: claimable_def dlq_updateMetrics_def sbind_def)
qed

theorem orphaned_item_cannot_be_settled_witness:
  "fst (api_skip \<lparr>collate_le = (\<lambda>_ _. True), compare_le = (\<lambda>_ _. True)\<rparr>
     \<lparr>rc_id = ''1'', rc_read = None, rc_write = None\<rparr> (demo_admin_call 10 None) (Some demo_admin) ''other''
     \<lparr>systems = [], roles = [], mappings = [], pipeline = two_rows\<rparr>) =
   Inl (NotFound ''TargetSystem not found'')"
proof -
  let ?w = "\<lparr>systems = [], roles = [], mappings = [], pipeline = two_rows\<rparr>"
  let ?c = "\<lparr>rc_id = ''1'', rc_read = None, rc_write = None\<rparr>"
  have "row_of (dlq_rows (pipeline ?w)) ''other'' = Some row_db" by (simp add: row_of_def)
  from orphaned_item_cannot_be_settled [OF this, of "demo_admin_call 10 None" ?c
      "\<lparr>collate_le = (\<lambda>_ _. True), compare_le = (\<lambda>_ _. True)\<rparr>" demo_admin "demo_app (result_ok Null) pg_store demo_kafka"]
  show ?thesis by (simp add: system_by_name_def)
qed

theorem bulk_retry_stays_in_scope_witness:
  "\<exists>s w'. retryMany (demo_app (result_ok Null) pg_store demo_kafka) (demo_admin_call 1000 None) only_ad two_rows =
     (Inr s, w') \<and> rs_requested s = 1 \<and> row_of (dlq_rows w') ''other'' = Some row_db"
proof -
  let ?ap = "demo_app (result_ok Null) pg_store demo_kafka"
  let ?ac = "demo_admin_call 1000 None"
  have items: "bulk_items only_ad [row_ad, row_db] = [row_ad]"
    by (simp add: bulk_items_def only_ad_def in_scope_def nonblank_def admin_limit_def positive_integer_def)
  have all: "df_allowed only_ad \<noteq> Some []" by (simp add: only_ad_def)
  obtain s1 w1 where loop: "retry_loop ?ap ?ac 0 [row_ad] (no_retries\<lparr>rs_requested := 1\<rparr>) two_rows = (s1, w1)"
    by fastforce
  then have "retryMany ?ap ?ac only_ad two_rows = sbind (dlq_updateMetrics (Dlq.demo_call 1000)) (\<lambda>_. ret s1) w1"
    by (simp only: retryMany_def items two_rows_fields all Let_def sbind_def may_fail_def admin_call_fields)
      (simp add: items del: retry_loop.simps)
  then have run: "retryMany ?ap ?ac only_ad two_rows = (Inr s1, snd (dlq_updateMetrics (Dlq.demo_call 1000) w1))"
    by (simp add: sbind_def dlq_updateMetrics_def)
  have "rs_requested s1 = 1" using retry_loop_counts [OF loop] by simp
  moreover have "row_of (dlq_rows (snd (dlq_updateMetrics (Dlq.demo_call 1000) w1))) ''other'' = Some row_db"
    using bulk_retry_stays_in_scope [OF run]
    by (simp add: in_scope_def only_ad_def nonblank_def)
  ultimately show ?thesis using run by blast
qed

theorem failed_requeue_keeps_lease_witness:
  "\<exists>w2. admin_retry (demo_app (result_ok Null) pg_store demo_kafka) (demo_admin_call 1000 (Some (JsError ''broker'')))
       ''row'' two_rows = (Inl (JsError ''broker''), w2) \<and>
     fst (dlq_retry Dlq.demo_env (Dlq.demo_call 301000) ''row'' w2) = Inr False"
proof -
  let ?ap = "demo_app (result_ok Null) pg_store demo_kafka"
  let ?ac = "demo_admin_call 1000 (Some (JsError ''broker''))"
  obtain w1 where claim: "dlq_retry Dlq.demo_env (Dlq.demo_call 1000) ''row'' two_rows = (Inr True, w1)"
    using claim_two_rows by (metis prod.collapse)
  have env: "sv_dlq (ap_services ?ap) = Dlq.demo_env" by (simp add: demo_services_def)
  have plain: "fromJson (ap_platform ?ap) (ap_settings ?ap) (row_payload row_ad) = Inr (Obj [])"
    by (simp add: fromJson_def plain_settings_def decryptFromStorage_def nullish_def isEnvelope_def js_get_def)
  show ?thesis
    by (rule failed_requeue_keeps_lease [OF wf_two_rows _ _ _ _ _ _ plain, where p = DEFAULT_RETRY_POLICY,
            unfolded env])
      (simp_all add: claim row_of_def demo_policy demo_kafka_def encodeKafkaMessage_def DEFAULT_RETRY_POLICY_def)
qed

theorem filtered_statistics_are_exact_witness:
  "\<exists>st w'. admin_stats_of (demo_app (result_ok Null) pg_store demo_kafka) False (demo_admin_call 10 None) 10
       (Some [''ad'']) two_rows = (Inr st, w') \<and> map_of (st_dlq st) ''pending'' = Some 1"
proof -
  obtain st w' where run: "admin_stats_of (demo_app (result_ok Null) pg_store demo_kafka) False (demo_admin_call 10 None) 10
       (Some [''ad'']) two_rows = (Inr st, w')" and w': "dlq_rows w' = [row_ad, row_db]"
    by (cases "processedLast5Minutes 10 (dlq_metrics two_rows)") (simp add: admin_stats_of_def sbind_def Let_def)
  from filtered_statistics_are_exact [OF run] have "map_of (st_dlq st) ''pending'' = Some 1"
    by (simp add: w' DLQ_STATUSES_def)
  with run show ?thesis by blast
qed

end
