(* ===== verification/RbacApi.thy ===== *)
theory RbacApi
  imports TargetApi
begin

text \<open>
  Models \<open>admin/rbac.controller.ts\<close>: the interface of the access-control tables, and its
  composition with the interface of the target systems, on the same database.
\<close>

section \<open>Handlers\<close>

record role_body =
  rb_code :: "string option"
  rb_name :: "string option"
  rb_description :: "string option option"
  rb_enabled :: "bool option"
  rb_permissions :: "permission list option"

record mapping_body =
  mb_idpGroup :: "string option"
  mb_roleId :: "string option"
  mb_enabled :: "bool option"

definition create_role_dto :: "role_body \<Rightarrow> role_dto" where
  "create_role_dto b =
     \<lparr>rd_code = or_else (rb_code b) [], rd_name = or_else (rb_name b) [],
      rd_description = or_else (rb_description b) None, rd_enabled = rb_enabled b,
      rd_permissions = Some (or_else (rb_permissions b) [])\<rparr>"

definition update_role_dto :: "role_body \<Rightarrow> role_update" where
  "update_role_dto b =
     \<lparr>ru_code = rb_code b, ru_name = rb_name b, ru_description = rb_description b,
      ru_enabled = rb_enabled b, ru_permissions = rb_permissions b\<rparr>"

definition create_mapping_dto :: "mapping_body \<Rightarrow> mapping_dto" where
  "create_mapping_dto b =
     \<lparr>md_idpGroup = or_else (mb_idpGroup b) [], md_roleId = or_else (mb_roleId b) [], md_enabled = mb_enabled b\<rparr>"

definition update_mapping_dto :: "mapping_body \<Rightarrow> mapping_update" where
  "update_mapping_dto b = \<lparr>mu_idpGroup = mb_idpGroup b, mu_roleId = mb_roleId b, mu_enabled = mb_enabled b\<rparr>"

text \<open>Every handler but the first starts by asking for a superadmin.\<close>

definition as_superadmin ::
  "rbac_env \<Rightarrow> rbac_call \<Rightarrow> admin_session option \<Rightarrow> ('a, 'b rbac_db_scheme) op \<Rightarrow> ('a, 'b rbac_db_scheme) op" where
  "as_superadmin env c s m =
     sbind (request_session s) (\<lambda>ses. sbind (assertSuperadmin env c ses) (\<lambda>_. m))"

definition api_effective ::
  "rbac_env \<Rightarrow> rbac_call \<Rightarrow> admin_session option \<Rightarrow> (effective, 'b rbac_db_scheme) op" where
  "api_effective env c s = sbind (request_session s) (effectivePermissions env c)"

definition api_listRoles ::
  "rbac_env \<Rightarrow> rbac_call \<Rightarrow> admin_session option \<Rightarrow> (role_row list, 'b rbac_db_scheme) op" where
  "api_listRoles env c s = as_superadmin env c s (listRoles env c)"

definition api_createRole ::
  "rbac_env \<Rightarrow> rbac_call \<Rightarrow> admin_session option \<Rightarrow> role_body \<Rightarrow> (role_row, 'b rbac_db_scheme) op" where
  "api_createRole env c s b = as_superadmin env c s (createRole c (create_role_dto b))"

definition api_updateRole ::
  "rbac_env \<Rightarrow> rbac_call \<Rightarrow> admin_session option \<Rightarrow> string \<Rightarrow> role_body \<Rightarrow> (role_row, 'b rbac_db_scheme) op" where
  "api_updateRole env c s i b = as_superadmin env c s (updateRole c i (update_role_dto b))"

definition api_deleteRole ::
  "rbac_env \<Rightarrow> rbac_call \<Rightarrow> admin_session option \<Rightarrow> string \<Rightarrow> (unit, 'b rbac_db_scheme) op" where
  "api_deleteRole env c s i = as_superadmin env c s (deleteRole c i)"

definition api_listMappings ::
  "rbac_env \<Rightarrow> rbac_call \<Rightarrow> admin_session option \<Rightarrow> (mapping_row list, 'b rbac_db_scheme) op" where
  "api_listMappings env c s = as_superadmin env c s (listMappings env c)"

definition api_createMapping ::
  "rbac_env \<Rightarrow> rbac_call \<Rightarrow> admin_session option \<Rightarrow> mapping_body \<Rightarrow> (mapping_row, 'b rbac_db_scheme) op" where
  "api_createMapping env c s b = as_superadmin env c s (createMapping c (create_mapping_dto b))"

definition api_updateMapping ::
  "rbac_env \<Rightarrow> rbac_call \<Rightarrow> admin_session option \<Rightarrow> string \<Rightarrow> mapping_body \<Rightarrow> (mapping_row, 'b rbac_db_scheme) op" where
  "api_updateMapping env c s i b = as_superadmin env c s (updateMapping c i (update_mapping_dto b))"

definition api_deleteMapping ::
  "rbac_env \<Rightarrow> rbac_call \<Rightarrow> admin_session option \<Rightarrow> string \<Rightarrow> (unit, 'b rbac_db_scheme) op" where
  "api_deleteMapping env c s i = as_superadmin env c s (deleteMapping c i)"

section \<open>The whole admin interface\<close>

datatype rbac_request =
    RbCreateRole role_body
  | RbUpdateRole string role_body
  | RbDeleteRole string
  | RbCreateMapping mapping_body
  | RbUpdateMapping string mapping_body
  | RbDeleteMapping string

fun run_rbac_api ::
  "rbac_env \<Rightarrow> rbac_call \<Rightarrow> admin_session option \<Rightarrow> rbac_request \<Rightarrow> 'b rbac_db_scheme \<Rightarrow> 'b rbac_db_scheme" where
  "run_rbac_api env c s (RbCreateRole b) w = snd (api_createRole env c s b w)"
| "run_rbac_api env c s (RbUpdateRole i b) w = snd (api_updateRole env c s i b w)"
| "run_rbac_api env c s (RbDeleteRole i) w = snd (api_deleteRole env c s i w)"
| "run_rbac_api env c s (RbCreateMapping b) w = snd (api_createMapping env c s b w)"
| "run_rbac_api env c s (RbUpdateMapping i b) w = snd (api_updateMapping env c s i b w)"
| "run_rbac_api env c s (RbDeleteMapping i) w = snd (api_deleteMapping env c s i w)"

datatype admin_action = OnTargets ts_request | OnRights rbac_request

fun run_admin :: "api_env \<Rightarrow> api_call \<Rightarrow> admin_session option \<Rightarrow> admin_action \<Rightarrow> 'e admin_world \<Rightarrow> 'e admin_world" where
  "run_admin env c s (OnTargets r) w = run_api env c s r w"
| "run_admin env c s (OnRights r) w = run_rbac_api (ae_rbac env) (ac_rbac c) s r w"

inductive admin_steps ::
  "api_env \<Rightarrow> 'e admin_world \<Rightarrow> (admin_session option \<times> admin_action) list \<Rightarrow> 'e admin_world \<Rightarrow> bool" for env where
  admin_nil: "admin_steps env w [] w"
| admin_cons: "admin_steps env (run_admin env c s a w) tr w' \<Longrightarrow> admin_steps env w ((s, a) # tr) w'"

inductive_cases admin_steps_consE: "admin_steps env w (x # tr) w'"
inductive_simps admin_steps_nil_iff [simp]: "admin_steps env w [] w'"

definition superadmin :: "admin_session option \<Rightarrow> bool" where
  "superadmin s \<longleftrightarrow> (\<exists>x. s = Some x \<and> isSuperadminSession x)"

lemma not_superadmin:
  assumes "\<not> superadmin s"
  shows "\<exists>e. as_superadmin env c s m w = (Inl e, w)"
proof (cases s)
  case (Some x)
  obtain r w1 where ef: "effectivePermissions env c x w = (r, w1)" by fastforce
  then have "w1 = w" using effective_state by (metis snd_conv)
  with ef Some assms effective_run [of env c x w _ w1] show ?thesis
    by (cases r) (auto simp: as_superadmin_def request_session_def assertSuperadmin_def sbind_def superadmin_def)
qed (simp add: as_superadmin_def request_session_def sbind_def)

lemma not_superadmin_state: "\<not> superadmin s \<Longrightarrow> snd (as_superadmin env c s m w) = w"
  using not_superadmin [of s env c m w] by auto

lemma rbac_api_needs_superadmin: "\<not> superadmin s \<Longrightarrow> run_rbac_api env c s r w = w"
  by (cases r) (simp_all add: not_superadmin_state api_createRole_def api_updateRole_def api_deleteRole_def
      api_createMapping_def api_updateMapping_def api_deleteMapping_def)

section \<open>The target systems never change the rights\<close>

definition rights_are :: "role_row list \<Rightarrow> mapping_row list \<Rightarrow> 'b rbac_db_scheme \<Rightarrow> bool" where
  "rights_are R M w \<longleftrightarrow> roles w = R \<and> mappings w = M"

named_theorems rights_intros "operations that leave the access-control tables alone"

lemma rights_same: "(\<And>w. snd (m w) = w) \<Longrightarrow> preserves I m"
  unfolding preserves_def by (metis snd_conv)

lemma rights_guards [rights_intros]:
  "preserves (rights_are R M) (request_session s)"
  "preserves (rights_are R M) (assertWrite env c x t)"
  "preserves (rights_are R M) (connectorTypeByTargetSystemId c i)"
proof -
  show "preserves (rights_are R M) (assertWrite env c x t)"
    by (rule rights_same) (metis assertWrite_run prod.collapse)
qed (cases s; cases "rc_read c"; simp add: request_session_def connectorTypeByTargetSystemId_def preserves_def)+

lemma rights_update_system [rights_intros]:
  "preserves (rights_are R M) (update_system c i (f :: system_row \<Rightarrow> system_row))"
  unfolding preserves_def rights_are_def update_system_def
  by (cases "tc_write c") (auto simp: sbind_def split: option.splits if_splits)

lemma rights_insert_system [rights_intros]: "preserves (rights_are R M) (insert_system c r)"
  unfolding preserves_def rights_are_def insert_system_def
  by (cases "tc_write c") (auto simp: sbind_def split: option.splits if_splits)

lemma rights_drop_row [rights_intros]:
  "preserves (rights_are R M)
    (\<lambda>w. case system_by_id (systems w) i of
           None \<Rightarrow> raise no_such_row w
         | Some r \<Rightarrow> (Inr r, w\<lparr>systems := filter (\<lambda>x. sys_id x \<noteq> i) (systems w)\<rparr>))"
  by (auto simp: preserves_def rights_are_def split: option.splits)

lemma rights_target_systems [rights_intros]:
  "preserves (rights_are R M) (ts_update env c i u)"
  "preserves (rights_are R M) (ts_create env c dto)"
  "preserves (rights_are R M) (ts_delete env c i)"
  unfolding ts_update_def ts_create_def ts_delete_def Let_def
  by (intro preserve_intros rights_intros)+

lemma rights_reload [rights_intros]: "preserves (rights_are R M) (registry_reload env c)"
  by (auto simp: preserves_def rights_are_def registry_reload_def split: option.splits prod.splits)

lemma rights_test [rights_intros]:
  "preserves (rights_are R M) (\<lambda>w. case f w of (r, x) \<Rightarrow> (r, w\<lparr>outside := x\<rparr>))"
  by (auto simp: preserves_def rights_are_def split: prod.splits)

lemma rights_api: "rights_are R M w \<Longrightarrow> rights_are R M (run_api env c s r w)"
proof (cases r)
  case (ReqCreate dto)
  have "preserves (rights_are R M) (api_create env c s dto)"
    unfolding api_create_def by (intro preserve_intros rights_intros)
  then show "rights_are R M w \<Longrightarrow> ?thesis" using preserves_snd by (simp only: ReqCreate run_api.simps)
next
  case (ReqUpdate i dto)
  have "preserves (rights_are R M) (api_update env c s i dto)"
    unfolding api_update_def by (intro preserve_intros rights_intros)
  then show "rights_are R M w \<Longrightarrow> ?thesis" using preserves_snd by (simp only: ReqUpdate run_api.simps)
next
  case (ReqDelete i)
  have "preserves (rights_are R M) (api_delete env c s i)"
    unfolding api_delete_def by (intro preserve_intros rights_intros)
  then show "rights_are R M w \<Longrightarrow> ?thesis" using preserves_snd by (simp only: ReqDelete run_api.simps)
next
  case (ReqTest i)
  have "preserves (rights_are R M) (api_testConnection env c s i)"
    unfolding api_testConnection_def by (intro preserve_intros rights_intros)
  then show "rights_are R M w \<Longrightarrow> ?thesis" using preserves_snd by (simp only: ReqTest run_api.simps)
qed

section \<open>Properties\<close>

text \<open>
  C18: no privilege escalation. Whatever requests run against the admin interface, on target
  systems and on rights and with failures anywhere, as long as none comes from a superadmin
  session the roles and the group mappings stay as they are, and so does what every session may
  read and write.
\<close>

theorem only_superadmins_change_rights:
  assumes "admin_steps env w tr w'" and "\<forall>(s, a) \<in> set tr. \<not> superadmin s"
  shows "roles w' = roles w \<and> mappings w' = mappings w \<and>
    (\<forall>s t. has_write w' s t = has_write w s t \<and> has_read w' s t = has_read w s t)"
proof -
  have "rights_are (roles w) (mappings w) w'"
    using assms
  proof (induction rule: admin_steps.induct)
    case (admin_cons c s a w tr w')
    have "rights_are (roles w) (mappings w) (run_admin env c s a w)"
    proof (cases a)
      case (OnTargets r)
      then show ?thesis using rights_api [of _ _ w env c s r] by (simp add: rights_are_def)
    qed (use admin_cons.prems in \<open>simp add: rbac_api_needs_superadmin rights_are_def\<close>)
    with admin_cons show ?case by (simp add: rights_are_def)
  qed (simp add: rights_are_def)
  then show ?thesis by (simp add: rights_are_def has_write_def has_read_def grants_def)
qed

theorem only_superadmins_change_rights_witness:
  "roles (run_admin demo_api_env demo_api_call (Some demo_admin) (OnRights (RbDeleteRole ''1''))
     (run_admin demo_api_env demo_api_call (Some demo_admin) (OnTargets (ReqUpdate ''1'' (rename_to ''c'')))
        (demo_world [demo_system ''1'' ''a''] demo_static))) = [demo_role]"
proof -
  let ?w = "demo_world [demo_system ''1'' ''a''] demo_static"
  let ?w1 = "run_admin demo_api_env demo_api_call (Some demo_admin) (OnTargets (ReqUpdate ''1'' (rename_to ''c''))) ?w"
  let ?w2 = "run_admin demo_api_env demo_api_call (Some demo_admin) (OnRights (RbDeleteRole ''1'')) ?w1"
  have "admin_steps demo_api_env ?w
      [(Some demo_admin, OnTargets (ReqUpdate ''1'' (rename_to ''c''))),
       (Some demo_admin, OnRights (RbDeleteRole ''1''))] ?w2"
    by (rule admin_cons [where c = demo_api_call], rule admin_cons [where c = demo_api_call], rule admin_nil)
  moreover have "\<not> superadmin (Some demo_admin)"
    by (simp add: superadmin_def isSuperadminSession_def demo_admin_def)
  ultimately have "roles ?w2 = roles ?w" using only_superadmins_change_rights by fastforce
  then show ?thesis by (simp add: demo_world_def)
qed

end
