(* ===== verification/LogBuffer.thy ===== *)
theory LogBuffer
  imports Encryption JsNumber
begin

text \<open>
  Models \<open>diagnostics/log-buffer.ts\<close>: the ring of the last log events that the admin interface
  shows, and the stream that fills it from the text the logger writes.

  Conventions. A time is a finite JavaScript number. The text of a date is represented by its
  milliseconds: \<open>toISOString\<close> truncates them and throws outside the range of a date.
\<close>

section \<open>Events\<close>

record log_event =
  le_id :: nat
  le_time :: rat
  le_receivedAt :: int
  le_level :: jsval
  le_msg :: "string option"
  le_event :: "string option"
  le_diagnostic :: bool
  le_diagnosticLevel :: "string option"
  le_targetSystem :: "string option"
  le_context :: "string option"
  le_method :: "string option"
  le_path :: "string option"
  le_status :: "int option"
  le_responseTime :: "rat option"
  le_details :: "obj option"

definition MAX_LOG_EVENTS :: nat where
  "MAX_LOG_EVENTS = 10000"

definition SUMMARY_KEYS :: "string list" where
  "SUMMARY_KEYS =
     [''time'', ''level'', ''msg'', ''event'', ''diagnostic'', ''diagnosticLevel'', ''targetSystem'',
      ''context'', ''method'', ''path'', ''status'', ''responseTime'', ''req'', ''res'', ''err'']"

definition DETAIL_KEYS :: "string list" where
  "DETAIL_KEYS =
     [''apiPath'', ''authMode'', ''baseUrlOrigin'', ''errorCode'', ''errorName'', ''eventId'',
      ''hasDefaultUserGroupId'', ''hasDescription'', ''hasEmail'', ''hasFirstNameLastName'',
      ''hasGroupsField'', ''hasPassword'', ''hasUserGroups'', ''hasUsername'', ''hints'', ''mode'',
      ''operation'', ''receivedAt'', ''requestSummary'', ''responseContentLength'',
      ''responseContentType'', ''responseSummary'', ''retrySessionAuth'', ''userGroupIds'',
      ''usernameLength'']"

definition LEVEL_BY_NUMBER :: "(rat \<times> string) list" where
  "LEVEL_BY_NUMBER =
     [(10, ''trace''), (20, ''debug''), (30, ''info''), (40, ''warn''), (50, ''error''), (60, ''fatal'')]"

section \<open>Reading a log record\<close>

definition stringValue :: "jsval \<Rightarrow> string option" where
  "stringValue v = (case v of Str s \<Rightarrow> if trim s \<noteq> [] then Some s else None | _ \<Rightarrow> None)"

definition numberValue :: "jsval \<Rightarrow> rat option" where
  "numberValue v = (case v of Num (Fin r) \<Rightarrow> Some r | _ \<Rightarrow> None)"

definition statusValue :: "jsval \<Rightarrow> int option" where
  "statusValue v = map_option math_trunc (numberValue v)"

definition numberOrNow :: "nat \<Rightarrow> jsval \<Rightarrow> rat" where
  "numberOrNow now v = (case numberValue v of Some r \<Rightarrow> r | None \<Rightarrow> of_nat now)"

definition logLevel :: "jsval \<Rightarrow> jsval" where
  "logLevel v = (case v of Num _ \<Rightarrow> v | Str _ \<Rightarrow> v | _ \<Rightarrow> Str ''info'')"

definition safePath :: "jsval \<Rightarrow> string option" where
  "safePath v = map_option (takeWhile (\<lambda>c. c \<noteq> CHR ''?'')) (stringValue v)"

definition requestMethod :: "obj \<Rightarrow> string option" where
  "requestMethod kvs =
     (case js_get kvs ''req'' of Obj req \<Rightarrow> stringValue (js_get req ''method'') | _ \<Rightarrow> None)"

definition requestPath :: "obj \<Rightarrow> string option" where
  "requestPath kvs =
     (case js_get kvs ''req'' of Obj req \<Rightarrow> safePath (js_get req ''url'') | _ \<Rightarrow> None)"

definition responseStatus :: "obj \<Rightarrow> int option" where
  "responseStatus kvs =
     (case js_get kvs ''res'' of Obj res \<Rightarrow> statusValue (js_get res ''statusCode'') | _ \<Rightarrow> None)"

definition details :: "obj \<Rightarrow> obj option" where
  "details kvs =
     (if js_get kvs ''diagnostic'' \<noteq> Bool True then None
      else case filter (\<lambda>e. fst e \<notin> set SUMMARY_KEYS \<and> fst e \<in> set DETAIL_KEYS) kvs of
             [] \<Rightarrow> None
           | d # ds \<Rightarrow> Some (d # ds))"

text \<open>\<open>a ?? b\<close> on optional values.\<close>

definition else_opt :: "'a option \<Rightarrow> 'a option \<Rightarrow> 'a option" where
  "else_opt a b = (case a of None \<Rightarrow> b | Some x \<Rightarrow> Some x)"

definition to_iso :: "rat \<Rightarrow> int result" where
  "to_iso t =
     (if \<bar>t\<bar> \<le> 8640000000000000 then Inr (math_trunc t) else Inl (JsError ''Invalid time value''))"

definition levelName :: "jsval \<Rightarrow> string" where
  "levelName v =
     (case v of
        Num n \<Rightarrow> or_else (case n of Fin r \<Rightarrow> map_of LEVEL_BY_NUMBER r | _ \<Rightarrow> None) (number_to_string n)
      | Str s \<Rightarrow> to_lower s
      | _ \<Rightarrow> [])"

section \<open>The buffer\<close>

record log_buffer =
  events :: "log_event list"
  nextId :: nat

definition empty_buffer :: log_buffer where
  "empty_buffer = \<lparr>events = [], nextId = 1\<rparr>"

text \<open>
  Building the entry takes the id first; then the text of the date may throw, which loses it.
  Reading a property of \<open>null\<close> throws before that; a value that is neither null nor an object
  has none of the properties.
\<close>

definition normalize_event :: "nat \<Rightarrow> nat \<Rightarrow> obj \<Rightarrow> log_event result" where
  "normalize_event now i kvs =
     (let time = numberOrNow now (js_get kvs ''time'') in
      ebind (to_iso time) (\<lambda>iso. Inr
        \<lparr>le_id = i, le_time = time, le_receivedAt = iso, le_level = logLevel (js_get kvs ''level''),
         le_msg = stringValue (js_get kvs ''msg''), le_event = stringValue (js_get kvs ''event''),
         le_diagnostic = (js_get kvs ''diagnostic'' = Bool True),
         le_diagnosticLevel = stringValue (js_get kvs ''diagnosticLevel''),
         le_targetSystem = stringValue (js_get kvs ''targetSystem''),
         le_context = stringValue (js_get kvs ''context''),
         le_method = else_opt (stringValue (js_get kvs ''method'')) (requestMethod kvs),
         le_path = else_opt (safePath (js_get kvs ''path'')) (requestPath kvs),
         le_status = else_opt (statusValue (js_get kvs ''status'')) (responseStatus kvs),
         le_responseTime = numberValue (js_get kvs ''responseTime''), le_details = details kvs\<rparr>))"

definition push_event :: "log_event \<Rightarrow> log_event list \<Rightarrow> log_event list" where
  "push_event e es =
     (let es' = es @ [e] in
      if length es' > MAX_LOG_EVENTS then drop (length es' - MAX_LOG_EVENTS) es' else es')"

definition append_log :: "nat \<Rightarrow> jsval \<Rightarrow> (unit, log_buffer) op" where
  "append_log now v b =
     (if v = Null then (Inl (JsError ''Cannot read properties of null''), b)
      else case normalize_event now (nextId b) (as_obj v) of
             Inl e \<Rightarrow> (Inl e, b\<lparr>nextId := nextId b + 1\<rparr>)
           | Inr entry \<Rightarrow> (Inr (), \<lparr>events = push_event entry (events b), nextId = nextId b + 1\<rparr>))"

text \<open>The loop removes the matching events from the end to the start, and counts them.\<close>

fun clear_loop :: "string \<Rightarrow> nat \<Rightarrow> log_event list \<Rightarrow> nat \<Rightarrow> log_event list \<times> nat" where
  "clear_loop t 0 es cleared = (es, cleared)"
| "clear_loop t (Suc i) es cleared =
     (if le_targetSystem (es ! i) = Some t
      then clear_loop t i (take i es @ drop (Suc i) es) (cleared + 1)
      else clear_loop t i es cleared)"

definition clear_logs :: "string option \<Rightarrow> log_buffer \<Rightarrow> nat \<times> log_buffer" where
  "clear_logs target b =
     (let t = or_else (map_option trim target) [] in
      if t = [] then (length (events b), empty_buffer)
      else case clear_loop t (length (events b)) (events b) 0 of
             (es, n) \<Rightarrow> (n, b\<lparr>events := es\<rparr>))"

record log_query =
  lq_targetSystem :: "string option"
  lq_level :: "string option"
  lq_limit :: jsval

definition normalizeLimit :: "jsval \<Rightarrow> nat" where
  "normalizeLimit v =
     (case number_of_val v of
        Fin r \<Rightarrow> nat (min (max (math_trunc r) 1) 2000)
      | _ \<Rightarrow> 200)"

definition shown :: "string \<Rightarrow> string \<Rightarrow> log_event \<Rightarrow> bool" where
  "shown t l e \<longleftrightarrow>
     \<not> (t \<noteq> [] \<and> le_targetSystem e \<noteq> Some t) \<and> \<not> (l \<noteq> [] \<and> levelName (le_level e) \<noteq> l)"

fun query_loop :: "nat \<Rightarrow> string \<Rightarrow> string \<Rightarrow> nat \<Rightarrow> log_event list \<Rightarrow> log_event list \<Rightarrow> log_event list" where
  "query_loop limit t l 0 es res = res"
| "query_loop limit t l (Suc i) es res =
     (if \<not> shown t l (es ! i) then query_loop limit t l i es res
      else let res' = res @ [es ! i] in
           if length res' \<ge> limit then res' else query_loop limit t l i es res')"

definition query_logs :: "log_query \<Rightarrow> log_buffer \<Rightarrow> log_event list" where
  "query_logs q b =
     rev (query_loop (normalizeLimit (lq_limit q)) (or_else (map_option trim (lq_targetSystem q)) [])
       (or_else (map_option (\<lambda>l. to_lower (trim l)) (lq_level q)) [])
       (length (events b)) (events b) [])"

section \<open>The stream\<close>

record log_stream = log_buffer +
  pending :: string

text \<open>A line that is no JSON text, or that cannot be appended, is appended as a plain message.\<close>

definition plain_record :: "nat \<Rightarrow> string \<Rightarrow> jsval" where
  "plain_record now line = Obj [(''time'', num (of_nat now)), (''level'', num 30), (''msg'', Str line)]"

definition append_line :: "platform \<Rightarrow> nat \<Rightarrow> string \<Rightarrow> log_buffer \<Rightarrow> log_buffer" where
  "append_line P now line b =
     (let trimmed = trim line in
      if trimmed = [] then b
      else snd (catch_op
        (sbind (lift_result (parse_json P trimmed)) (append_log now))
        (\<lambda>_. append_log now (plain_record now trimmed)) b))"

definition write_chunk :: "platform \<Rightarrow> nat \<Rightarrow> string \<Rightarrow> log_stream \<Rightarrow> log_stream" where
  "write_chunk P now chunk s =
     (let ls = split_on (CHR 0x0A) (pending s @ chunk);
          b = fold (append_line P now) (butlast ls) (log_buffer.truncate s)
      in s\<lparr>events := events b, nextId := nextId b, pending := last ls\<rparr>)"

section \<open>The last elements of a list\<close>

definition last_n :: "nat \<Rightarrow> 'a list \<Rightarrow> 'a list" where
  "last_n n xs = drop (length xs - n) xs"

lemma last_n_0 [simp]: "last_n 0 xs = []"
  by (simp add: last_n_def)

lemma last_n_all: "length xs \<le> n \<Longrightarrow> last_n n xs = xs"
  by (simp add: last_n_def)

lemma last_n_snoc: "last_n (Suc n) (xs @ [x]) = last_n n xs @ [x]"
  by (simp add: last_n_def)

lemma last_n_snoc_pos: "0 < n \<Longrightarrow> last_n n (xs @ [x]) = last_n (n - 1) xs @ [x]"
  using last_n_snoc [of "n - 1" xs x] by simp

lemma last_n_last_n: "m \<le> n \<Longrightarrow> last_n m (last_n n xs) = last_n m xs"
  by (simp add: last_n_def) (metis diff_le_mono2 le_add_diff_inverse2 diff_diff_left diff_diff_cancel
      nat_le_linear add.commute diff_is_0_eq' diff_cancel2)

lemma set_last_n: "set (last_n n xs) \<subseteq> set xs"
  by (simp add: last_n_def set_drop_subset)

lemma push_event_last_n: "push_event e es = last_n MAX_LOG_EVENTS (es @ [e])"
  by (simp add: push_event_def last_n_def Let_def)

section \<open>The loops\<close>

lemma clear_loop_filter:
  assumes "i \<le> length es"
  shows "clear_loop t i es n =
    (filter (\<lambda>e. le_targetSystem e \<noteq> Some t) (take i es) @ drop i es,
     n + length (filter (\<lambda>e. le_targetSystem e = Some t) (take i es)))"
  using assms
proof (induction i arbitrary: es n)
  case (Suc i)
  then have take: "take (Suc i) es = take i es @ [es ! i]" by (simp add: take_Suc_conv_app_nth)
  have drop: "drop i es = es ! i # drop (Suc i) es" using Suc.prems by (simp add: Cons_nth_drop_Suc)
  show ?case
  proof (cases "le_targetSystem (es ! i) = Some t")
    case True
    with Suc show ?thesis by (simp add: take Suc.IH)
  next
    case False
    with Suc show ?thesis by (simp add: take drop)
  qed
qed simp

lemma query_loop_last:
  assumes "i \<le> length es" "length res < limit"
  shows "query_loop limit t l i es res = res @ rev (last_n (limit - length res) (filter (shown t l) (take i es)))"
  using assms
proof (induction i arbitrary: res)
  case (Suc i)
  then have take: "take (Suc i) es = take i es @ [es ! i]" by (simp add: take_Suc_conv_app_nth)
  show ?case
  proof (cases "shown t l (es ! i)")
    case True
    have pos: "0 < limit - length res" using Suc.prems by simp
    have "limit - length res - 1 = 0" if "\<not> Suc (length res) < limit" using that Suc.prems by simp
    with True Suc show ?thesis by (simp add: take last_n_snoc_pos [OF pos] Let_def not_le)
  next
    case False
    with Suc show ?thesis by (simp add: take)
  qed
qed (simp add: last_n_def)

lemma normalizeLimit_bounds: "1 \<le> normalizeLimit v \<and> normalizeLimit v \<le> 2000"
  by (auto simp: normalizeLimit_def split: jsnum.split)

definition matching :: "log_query \<Rightarrow> log_event \<Rightarrow> bool" where
  "matching q = shown (or_else (map_option trim (lq_targetSystem q)) [])
     (or_else (map_option (\<lambda>l. to_lower (trim l)) (lq_level q)) [])"

lemma query_last: "query_logs q b = last_n (normalizeLimit (lq_limit q)) (filter (matching q) (events b))"
  using normalizeLimit_bounds [of "lq_limit q"]
  by (simp add: query_logs_def query_loop_last matching_def)

lemma clear_filter:
  "clear_logs target b =
     (if or_else (map_option trim target) [] = [] then (length (events b), empty_buffer)
      else (length (filter (\<lambda>e. le_targetSystem e = Some (trim (the target))) (events b)),
        b\<lparr>events := filter (\<lambda>e. le_targetSystem e \<noteq> Some (trim (the target))) (events b)\<rparr>))"
  by (cases target) (simp_all add: clear_logs_def clear_loop_filter Let_def)

section \<open>The invariant\<close>

definition wf_buffer :: "'b log_buffer_scheme \<Rightarrow> bool" where
  "wf_buffer b \<longleftrightarrow> length (events b) \<le> MAX_LOG_EVENTS \<and> sorted_wrt (<) (map le_id (events b)) \<and>
     (\<forall>e \<in> set (events b). le_id e < nextId b)"

lemma wf_empty [simp]: "wf_buffer empty_buffer"
  by (simp add: wf_buffer_def empty_buffer_def)

lemma normalize_id: "normalize_event now i kvs = Inr e \<Longrightarrow> le_id e = i"
  by (auto simp: normalize_event_def Let_def ebind_Inr_iff)

lemma sorted_drop: "sorted_wrt P xs \<Longrightarrow> sorted_wrt P (drop n xs)"
  by (metis append_take_drop_id sorted_wrt_append)

lemma wf_append: "wf_buffer b \<Longrightarrow> wf_buffer (snd (append_log now v b))"
proof -
  assume wf: "wf_buffer b"
  show ?thesis
  proof (cases "v = Null \<or> (\<exists>e. normalize_event now (nextId b) (as_obj v) = Inl e)")
    case True
    with wf show ?thesis by (auto simp: append_log_def wf_buffer_def split: sum.split)
  next
    case False
    then obtain e where e: "normalize_event now (nextId b) (as_obj v) = Inr e" by (metis sum.exhaust_sel)
    then have id: "le_id e = nextId b" by (rule normalize_id)
    have "sorted_wrt (<) (map le_id (events b @ [e]))"
      using wf by (auto simp: wf_buffer_def sorted_wrt_append id)
    then have "sorted_wrt (<) (map le_id (push_event e (events b)))"
      unfolding push_event_last_n last_n_def drop_map [symmetric] by (rule sorted_drop)
    moreover have "set (push_event e (events b)) \<subseteq> insert e (set (events b))"
      unfolding push_event_last_n using set_last_n [of MAX_LOG_EVENTS "events b @ [e]"] by simp
    moreover have "length (push_event e (events b)) \<le> MAX_LOG_EVENTS"
      by (simp add: push_event_last_n last_n_def)
    ultimately show ?thesis
      using wf e False id by (fastforce simp: append_log_def wf_buffer_def)
  qed
qed

lemma wf_line: "wf_buffer b \<Longrightarrow> wf_buffer (append_line P now line b)"
proof -
  assume wf: "wf_buffer b"
  have "preserves wf_buffer (append_log now v)" for v
    unfolding preserves_def using wf_append by (metis snd_conv)
  then have "preserves wf_buffer (catch_op
        (sbind (lift_result (parse_json P (trim line))) (append_log now))
        (\<lambda>_. append_log now (plain_record now (trim line))))"
    by (intro preserve_intros)
  with wf show ?thesis
    by (auto simp: append_line_def Let_def dest: preservesD [OF _ surjective_pairing])
qed

lemma wf_lines: "wf_buffer b \<Longrightarrow> wf_buffer (fold (append_line P now) ls b)"
  by (induction ls arbitrary: b) (simp_all add: wf_line)

lemma wf_write: "wf_buffer s \<Longrightarrow> wf_buffer (write_chunk P now chunk s)"
  using wf_lines [of "log_buffer.truncate s" P now "butlast (split_on (CHR 0x0A) (pending s @ chunk))"]
  by (simp add: write_chunk_def Let_def wf_buffer_def log_buffer.truncate_def)

lemma wf_clear: "wf_buffer b \<Longrightarrow> wf_buffer (snd (clear_logs target b))"
proof -
  assume wf: "wf_buffer b"
  have "sorted_wrt (<) (map le_id (filter P es))" if "sorted_wrt (<) (map le_id es)" for P es
    using that by (simp add: sorted_wrt_map sorted_wrt_filter)
  with wf show ?thesis
    by (auto simp: clear_filter wf_buffer_def empty_buffer_def intro: order_trans [OF length_filter_le])
qed

text \<open>Everything that happens to the buffer: text from the logger, and requests to clear it.\<close>

datatype log_op = LogText string | LogClear "string option"

fun run_log :: "platform \<Rightarrow> nat \<Rightarrow> log_op \<Rightarrow> log_stream \<Rightarrow> log_stream" where
  "run_log P now (LogText chunk) s = write_chunk P now chunk s"
| "run_log P now (LogClear t) s =
     (case clear_logs t (log_buffer.truncate s) of (n, b) \<Rightarrow> s\<lparr>events := events b, nextId := nextId b\<rparr>)"

definition new_stream :: log_stream where
  "new_stream = \<lparr>events = [], nextId = 1, pending = []\<rparr>"

inductive log_steps :: "platform \<Rightarrow> log_stream \<Rightarrow> log_stream \<Rightarrow> bool" for P where
  log_refl: "log_steps P s s"
| log_step: "log_steps P s s1 \<Longrightarrow> log_steps P s (run_log P now lop s1)"

lemma wf_run_log: "wf_buffer s \<Longrightarrow> wf_buffer (run_log P now lop s)"
proof (cases lop)
  case (LogClear t)
  assume "wf_buffer s"
  then have "wf_buffer (snd (clear_logs t (log_buffer.truncate s)))"
    by (intro wf_clear) (simp add: wf_buffer_def log_buffer.truncate_def)
  then show ?thesis by (cases "clear_logs t (log_buffer.truncate s)") (simp add: LogClear wf_buffer_def)
qed (simp add: wf_write)

lemma wf_log_steps: "log_steps P s s' \<Longrightarrow> wf_buffer s \<Longrightarrow> wf_buffer s'"
  by (induction rule: log_steps.induct) (simp_all add: wf_run_log)

lemma truncate_write [simp]:
  "log_buffer.truncate (s\<lparr>events := events b, nextId := nextId b, pending := p\<rparr>) = (b :: log_buffer)"
  by (simp add: log_buffer.truncate_def)

section \<open>Properties\<close>

text \<open>
  The invariant of the log buffer. Whatever text the logger writes, in whatever pieces, and
  whatever is cleared in between, the buffer holds at most 10000 events, their ids increase
  strictly from the oldest to the newest, and the next id is above all of them, although records
  that cannot be read are replaced and clearing the whole buffer starts the ids again at 1.
\<close>

theorem log_buffer_invariant:
  assumes "log_steps P new_stream s"
  shows "length (events s) \<le> 10000 \<and> sorted_wrt (<) (map le_id (events s)) \<and>
    (\<forall>e \<in> set (events s). le_id e < nextId s)"
proof -
  have "wf_buffer s"
    by (rule wf_log_steps [OF assms]) (simp add: wf_buffer_def new_stream_def)
  then show ?thesis by (simp add: wf_buffer_def MAX_LOG_EVENTS_def)
qed

text \<open>
  What a query shows. The backward loop of a query returns the last events, in order, that
  match its target system and its level, at most as many as the normalised limit, which lies
  between 1 and 2000; and the backward loop of a clear keeps exactly the events of the other
  target systems and counts the rest.
\<close>

theorem log_loops_are_filters:
  "query_logs q b = last_n (normalizeLimit (lq_limit q)) (filter (matching q) (events b)) \<and>
   normalizeLimit (lq_limit q) \<in> {1..2000} \<and>
   (trim t \<noteq> [] \<longrightarrow> clear_logs (Some t) b =
      (length (filter (\<lambda>e. le_targetSystem e = Some (trim t)) (events b)),
       b\<lparr>events := filter (\<lambda>e. le_targetSystem e \<noteq> Some (trim t)) (events b)\<rparr>))"
  using normalizeLimit_bounds [of "lq_limit q"] by (simp add: query_last clear_filter)

theorem log_loops_are_filters_witness:
  "\<exists>e. fst (clear_logs (Some '' ad'') (empty_buffer\<lparr>events := [e\<lparr>le_targetSystem := Some ''ad''\<rparr>]\<rparr>)) = 1"
proof -
  have "trim '' ad'' = ''ad''" by (simp add: trim_def)
  then show ?thesis using log_loops_are_filters [of _ "empty_buffer\<lparr>events := [e\<lparr>le_targetSystem := Some ''ad''\<rparr>]\<rparr>" "'' ad''" for e]
    by simp
qed

lemma split_on_join:
  "split_on c (x @ y) = butlast (split_on c x) @ split_on c (last (split_on c x) @ y)"
proof (induction x)
  case (Cons a x)
  then show ?case
    by (cases "split_on c x" rule: list.exhaust) (auto split: list.splits)
qed simp

text \<open>
  The pieces do not matter. Writing a text in two pieces leaves the buffer and the pending
  line as writing it at once does, wherever the cut falls, even inside a line: each complete
  line is appended exactly once, and an incomplete one waits.
\<close>

theorem chunks_do_not_matter:
  "write_chunk P now b (write_chunk P now a s) = write_chunk P now (a @ b) s"
proof -
  let ?l1 = "split_on (CHR 0x0A) (pending s @ a)"
  let ?l2 = "split_on (CHR 0x0A) (last ?l1 @ b)"
  have all: "split_on (CHR 0x0A) (pending s @ a @ b) = butlast ?l1 @ ?l2"
    using split_on_join [of "CHR 0x0A" "pending s @ a" b] by simp
  show ?thesis
    unfolding write_chunk_def Let_def all
    by (simp add: butlast_append)
qed

text \<open>The specification: a log that never forgets, with the ids that its records get.\<close>

definition log_append :: "nat \<Rightarrow> jsval \<Rightarrow> log_event list \<times> nat \<Rightarrow> log_event list \<times> nat" where
  "log_append now v hn =
     (if v = Null then hn
      else case normalize_event now (snd hn) (as_obj v) of
             Inl e \<Rightarrow> (fst hn, snd hn + 1)
           | Inr entry \<Rightarrow> (fst hn @ [entry], snd hn + 1))"

definition buffers :: "log_buffer \<Rightarrow> log_event list \<times> nat \<Rightarrow> bool" where
  "buffers b hn \<longleftrightarrow> events b = last_n MAX_LOG_EVENTS (fst hn) \<and> nextId b = snd hn"

lemma last_n_push: "last_n n (last_n n xs @ [x]) = last_n n (xs @ [x])"
  by (cases n) (simp_all add: last_n_snoc last_n_last_n)

lemma append_simulates: "buffers b hn \<Longrightarrow> buffers (snd (append_log now v b)) (log_append now v hn)"
  by (auto simp: buffers_def append_log_def log_append_def push_event_last_n last_n_push split: sum.split)

text \<open>
  C27: the buffer implements the log. After any sequence of records, readable or not, the buffer
  holds exactly the last 10000 events of a log that never forgets, under the same ids, and a
  query without filters answers what it would answer on that log: the ring never shows.
\<close>

theorem buffer_refines_log:
  "events (fold (\<lambda>(now, v) b. snd (append_log now v b)) vs empty_buffer) =
     last_n 10000 (fst (fold (\<lambda>(now, v). log_append now v) vs ([], 1))) \<and>
   query_logs \<lparr>lq_targetSystem = None, lq_level = None, lq_limit = limit\<rparr>
       (fold (\<lambda>(now, v) b. snd (append_log now v b)) vs empty_buffer) =
     last_n (normalizeLimit limit) (fst (fold (\<lambda>(now, v). log_append now v) vs ([], 1)))"
proof -
  have "buffers (fold (\<lambda>(now, v) b. snd (append_log now v b)) vs b)
      (fold (\<lambda>(now, v). log_append now v) vs hn)" if "buffers b hn" for b hn
    using that
  proof (induction vs arbitrary: b hn)
    case (Cons x vs)
    then show ?case by (cases x) (simp add: append_simulates)
  qed simp
  then have sim: "buffers (fold (\<lambda>(now, v) b. snd (append_log now v b)) vs empty_buffer)
      (fold (\<lambda>(now, v). log_append now v) vs ([], 1))"
    by (simp add: buffers_def empty_buffer_def last_n_def)
  have "filter (matching \<lparr>lq_targetSystem = None, lq_level = None, lq_limit = limit\<rparr>) es = es" for es
    by (simp add: matching_def shown_def)
  moreover have "normalizeLimit limit \<le> MAX_LOG_EVENTS"
    using normalizeLimit_bounds [of limit] by (simp add: MAX_LOG_EVENTS_def)
  ultimately show ?thesis
    using sim by (simp add: query_last buffers_def last_n_last_n) (simp add: MAX_LOG_EVENTS_def)
qed

definition text_platform :: platform where
  "text_platform = demo_platform\<lparr>json_parse := (\<lambda>_. None)\<rparr>"

definition disk_warning :: log_stream where
  "disk_warning =
     run_log text_platform 7 (LogText (''warning'' @ [CHR 0x0A])) (run_log text_platform 5 (LogText ''disk '') new_stream)"

theorem log_buffer_invariant_witness:
  "map le_msg (events disk_warning) = [Some ''disk warning''] \<and> sorted_wrt (<) (map le_id (events disk_warning))"
proof -
  have "log_steps text_platform new_stream disk_warning"
    unfolding disk_warning_def by (intro log_step log_refl)
  from log_buffer_invariant [OF this] have "sorted_wrt (<) (map le_id (events disk_warning))" by simp
  moreover have "map le_msg (events disk_warning) = [Some ''disk warning'']"
    by (simp add: disk_warning_def write_chunk_def new_stream_def Let_def append_line_def trim_def parse_json_def
        text_platform_def append_log_def normalize_event_def log_buffer.truncate_def catch_op_def
        plain_record_def js_get_def numberOrNow_def numberValue_def to_iso_def push_event_last_n last_n_def
        MAX_LOG_EVENTS_def stringValue_def)
  ultimately show ?thesis by simp
qed

end
