(* ===== verification/Diagnostics.thy ===== *)
theory Diagnostics
  imports LogBuffer SecretRedaction
begin

text \<open>
  Models \<open>diagnostics/runtime-diagnostics.service.ts\<close>, the debug sessions that operators open
  for a while, and \<open>diagnostics/diagnostic-logger.service.ts\<close>, which writes diagnostic records
  while one is open. Times are milliseconds; \<open>now\<close> is \<open>Date.now()\<close>.
\<close>

section \<open>Debug sessions\<close>

datatype debug_level = Basic | Verbose

record debug_session =
  ds_id :: string
  ds_enabled :: bool
  ds_level :: debug_level
  ds_targetSystem :: "string option"
  ds_createdAt :: int
  ds_expiresAt :: int

record debug_input =
  di_targetSystem :: "string option"
  di_level :: "string option"
  di_ttlSeconds :: jsval

text \<open>The \<open>Map\<close> of the sessions, in insertion order.\<close>

type_synonym debug_sessions = "(string \<times> debug_session) list"

definition normalizeTtl :: "jsval \<Rightarrow> int" where
  "normalizeTtl v =
     (case number_of_val v of Fin r \<Rightarrow> min (max (math_trunc r) 60) 14400 | _ \<Rightarrow> 300)"

definition normalizeTarget :: "string option \<Rightarrow> string option" where
  "normalizeTarget v =
     (case v of None \<Rightarrow> None | Some s \<Rightarrow> if trim s \<noteq> [] then Some (trim s) else None)"

text \<open>\<open>rnd\<close> is the random part of the id.\<close>

definition debug_enable :: "nat \<Rightarrow> string \<Rightarrow> debug_input \<Rightarrow> debug_sessions \<Rightarrow> debug_session \<times> debug_sessions" where
  "debug_enable now rnd input ss =
     (let s = \<lparr>ds_id = ''debug-'' @ nat_digits now @ ''-'' @ rnd, ds_enabled = True,
               ds_level = (if di_level input = Some ''Verbose'' then Verbose else Basic),
               ds_targetSystem = normalizeTarget (di_targetSystem input),
               ds_createdAt = int now,
               ds_expiresAt = int now + normalizeTtl (di_ttlSeconds input) * 1000\<rparr>
      in (s, map_set (ds_id s) s ss))"

definition debug_disable :: "string \<Rightarrow> debug_sessions \<Rightarrow> bool \<times> debug_sessions" where
  "debug_disable i ss = (i \<in> fst ` set ss, filter (\<lambda>e. fst e \<noteq> i) ss)"

definition activeSessions :: "nat \<Rightarrow> debug_sessions \<Rightarrow> debug_session list \<times> debug_sessions" where
  "activeSessions now ss =
     (let kept = filter (\<lambda>e. \<not> ds_expiresAt (snd e) \<le> int now) ss in
      (sort_key ds_expiresAt (map snd kept), kept))"

definition matchesTarget :: "debug_session \<Rightarrow> string option \<Rightarrow> bool" where
  "matchesTarget s target \<longleftrightarrow>
     ds_targetSystem s = None \<or> (normalizeTarget target \<noteq> None \<and> ds_targetSystem s = normalizeTarget target)"

definition debug_isEnabled :: "nat \<Rightarrow> string option \<Rightarrow> debug_sessions \<Rightarrow> bool \<times> debug_sessions" where
  "debug_isEnabled now target ss =
     (case activeSessions now ss of
        (active, ss') \<Rightarrow> (list_ex (\<lambda>s. matchesTarget s target) active, ss'))"

definition debug_levelOf :: "nat \<Rightarrow> string option \<Rightarrow> debug_sessions \<Rightarrow> debug_level \<times> debug_sessions" where
  "debug_levelOf now target ss =
     (case activeSessions now ss of
        (active, ss') \<Rightarrow>
          (if list_ex (\<lambda>s. ds_level s = Verbose) (filter (\<lambda>s. matchesTarget s target) active)
           then Verbose else Basic, ss'))"

section \<open>The diagnostic logger\<close>

definition configured_level :: "settings \<Rightarrow> debug_level" where
  "configured_level cfg =
     (if coalesce (config_value cfg ''DebugLogging__Level'') (config_value cfg ''DEBUG_LOGGING_LEVEL'') = Str ''Verbose''
      then Verbose else Basic)"

definition logger_enabled :: "settings \<Rightarrow> nat \<Rightarrow> string option \<Rightarrow> debug_sessions \<Rightarrow> bool \<times> debug_sessions" where
  "logger_enabled cfg now target ss =
     (case debug_isEnabled now target ss of
        (on, ss') \<Rightarrow>
          (on \<or> truthy (coalesce (config_value cfg ''DebugLogging__Enabled'') (Bool False)) \<or>
           truthy (coalesce (config_value cfg ''DEBUG_LOGGING_ENABLED'') (Bool False)), ss'))"

definition logger_level :: "settings \<Rightarrow> nat \<Rightarrow> string option \<Rightarrow> debug_sessions \<Rightarrow> debug_level \<times> debug_sessions" where
  "logger_level cfg now target ss =
     (case debug_isEnabled now target ss of
        (on, ss') \<Rightarrow> if on then debug_levelOf now target ss' else (configured_level cfg, ss'))"

definition fields_target :: "obj \<Rightarrow> string option" where
  "fields_target flds = (case js_get flds ''targetSystem'' of Str s \<Rightarrow> Some s | _ \<Rightarrow> None)"

definition diag_record :: "string \<Rightarrow> bool \<Rightarrow> string \<Rightarrow> obj \<Rightarrow> jsval" where
  "diag_record level keep event flds =
     Obj (spread [(''diagnostic'', Bool True), (''diagnosticLevel'', Str level), (''event'', Str event)]
            (as_obj (diag_redact keep (Obj flds))))"

text \<open>What is handed to the logger, if anything.\<close>

definition log_basic ::
  "settings \<Rightarrow> nat \<Rightarrow> string \<Rightarrow> obj \<Rightarrow> debug_sessions \<Rightarrow> jsval option \<times> debug_sessions" where
  "log_basic cfg now event flds ss =
     (case logger_enabled cfg now (fields_target flds) ss of
        (on, ss') \<Rightarrow> (if \<not> on then None else Some (diag_record ''Basic'' False event flds), ss'))"

definition log_verbose ::
  "settings \<Rightarrow> nat \<Rightarrow> string \<Rightarrow> obj \<Rightarrow> debug_sessions \<Rightarrow> jsval option \<times> debug_sessions" where
  "log_verbose cfg now event flds ss =
     (case logger_enabled cfg now (fields_target flds) ss of
        (on, ss') \<Rightarrow>
          if \<not> on then (None, ss')
          else case logger_level cfg now (fields_target flds) ss' of
                 (l, ss'') \<Rightarrow>
                   (if l \<noteq> Verbose then None else Some (diag_record ''Verbose'' True event flds), ss''))"

section \<open>Lemmas\<close>

lemma ttl_bounds: "60 \<le> normalizeTtl v \<and> normalizeTtl v \<le> 14400"
  by (auto simp: normalizeTtl_def split: jsnum.split)

lemma set_map_set: "set (map_set k v m) \<subseteq> insert (k, v) (set m)"
  by (induction k v m rule: map_set.induct) auto

lemma map_set_member: "(k, v) \<in> set (map_set k v m)"
  by (induction k v m rule: map_set.induct) auto

datatype debug_op =
    DebugEnable string debug_input
  | DebugDisable string
  | DebugLook "string option"

fun run_debug :: "nat \<Rightarrow> debug_op \<Rightarrow> debug_sessions \<Rightarrow> debug_sessions" where
  "run_debug now (DebugEnable rnd input) ss = snd (debug_enable now rnd input ss)"
| "run_debug now (DebugDisable i) ss = snd (debug_disable i ss)"
| "run_debug now (DebugLook target) ss = snd (debug_isEnabled now target ss)"

inductive debug_steps :: "(nat \<times> debug_op) list \<Rightarrow> debug_sessions \<Rightarrow> bool" where
  debug_start: "debug_steps [] []"
| debug_step: "debug_steps tr ss \<Longrightarrow> debug_steps ((now, dop) # tr) (run_debug now dop ss)"

inductive_cases debug_steps_consE: "debug_steps ((now, dop) # tr) ss"

definition ends_by :: "int \<Rightarrow> debug_sessions \<Rightarrow> bool" where
  "ends_by t ss \<longleftrightarrow> (\<forall>e \<in> set ss. ds_expiresAt (snd e) \<le> t)"

lemma ends_by_run:
  assumes "ends_by (t1 + 14400000) ss" "int now \<le> t1"
  shows "ends_by (t1 + 14400000) (run_debug now dop ss)"
proof (cases dop)
  case (DebugEnable rnd input)
  let ?s = "fst (debug_enable now rnd input ss)"
  have "ds_expiresAt ?s \<le> t1 + 14400000"
    using assms(2) ttl_bounds [of "di_ttlSeconds input"] by (simp add: debug_enable_def Let_def)
  moreover have "run_debug now dop ss = map_set (ds_id ?s) ?s ss"
    by (simp add: DebugEnable debug_enable_def Let_def)
  ultimately show ?thesis
    using assms(1) set_map_set [of "ds_id ?s" ?s ss] by (auto simp: ends_by_def)
qed (use assms in \<open>auto simp: ends_by_def debug_disable_def debug_isEnabled_def activeSessions_def Let_def\<close>)

lemma diag_redact_noninterference: "eq_but_secrets v w \<Longrightarrow> diag_redact keep v = diag_redact keep w"
proof (induction v w rule: eq_but_secrets.induct)
  case (1 xs w)
  then obtain ys where w: "w = Arr ys" and all: "list_all2 eq_but_secrets xs ys"
    by (auto split: jsval.splits)
  have "list_all2 (\<lambda>x y. diag_redact keep x = diag_redact keep y) xs ys"
    by (rule list.rel_mono_strong [OF all]) (use 1 w in blast)
  then have "map (diag_redact keep) xs = map (diag_redact keep) ys"
    by (simp add: list.rel_map list.rel_eq [symmetric])
  with w show ?case by simp
next
  case (2 kvs w)
  then obtain kws where w: "w = Obj kws"
    and all: "list_all2 (\<lambda>e f. fst e = fst f \<and> (isSecretKey (fst e) \<or> eq_but_secrets (snd e) (snd f))) kvs kws"
    by (auto split: jsval.splits)
  let ?omit = "\<lambda>v. \<not> keep \<and> (case v of Arr _ \<Rightarrow> True | Obj _ \<Rightarrow> True | _ \<Rightarrow> False)"
  have "?omit x = ?omit y" if "eq_but_secrets x y" for x y
    using that by (cases x; cases y) auto
  then have "list_all2 (\<lambda>e f. (fst e, if isSecretKey (fst e) then Str SECRET_REDACTION_CENSOR
        else if ?omit (snd e) then Str ''[omitted]'' else diag_redact keep (snd e))
      = (fst f, if isSecretKey (fst f) then Str SECRET_REDACTION_CENSOR
        else if ?omit (snd f) then Str ''[omitted]'' else diag_redact keep (snd f))) kvs kws"
    by (intro list.rel_mono_strong [OF all]) (use 2 w in auto)
  then show ?case by (simp add: w list.rel_map list.rel_eq [symmetric])
qed auto

lemma same_public_entry:
  assumes "eq_but_secrets (Obj f) (Obj g)" "\<not> isSecretKey k"
  shows "eq_but_secrets (js_get f k) (js_get g k)"
proof -
  have "list_all2 (\<lambda>e f. fst e = fst f \<and> (isSecretKey (fst e) \<or> eq_but_secrets (snd e) (snd f))) f g"
    using assms(1) by simp
  then show ?thesis using assms(2)
    by (induction f g rule: list_all2_induct) (auto simp: js_get_def split: option.splits)
qed

section \<open>Properties\<close>

text \<open>
  Debug logging ends. Whatever sessions operators open and close, four hours after the last
  of these requests no session is active any more, for no target system, and none is kept; and
  a session that was just opened is active for its target system for at least a minute.
\<close>

theorem debug_sessions_end:
  assumes "debug_steps tr ss" and "\<forall>(t, dop) \<in> set tr. int t \<le> t1" and "t1 + 14400000 \<le> int now"
  shows "debug_isEnabled now target ss = (False, []) \<and>
    (int later < int start + 60000 \<longrightarrow>
      fst (debug_isEnabled later (di_targetSystem input) (snd (debug_enable start rnd input ss))))"
proof
  have "ends_by (t1 + 14400000) ss"
    using assms(1,2)
    by (induction rule: debug_steps.induct) (auto intro: ends_by_run simp: ends_by_def [of _ "[]"])
  with assms(3) have "filter (\<lambda>e. \<not> ds_expiresAt (snd e) \<le> int now) ss = []"
    by (fastforce simp: ends_by_def filter_empty_conv)
  then show "debug_isEnabled now target ss = (False, [])"
    by (simp add: debug_isEnabled_def activeSessions_def)
  let ?s = "fst (debug_enable start rnd input ss)"
  have s: "snd (debug_enable start rnd input ss) = map_set (ds_id ?s) ?s ss"
    "matchesTarget ?s (di_targetSystem input)"
    by (simp_all add: debug_enable_def Let_def matchesTarget_def) (metis not_None_eq)
  have "int start + 60000 \<le> ds_expiresAt ?s"
    using ttl_bounds [of "di_ttlSeconds input"] by (simp add: debug_enable_def Let_def)
  then show "int later < int start + 60000 \<longrightarrow>
      fst (debug_isEnabled later (di_targetSystem input) (snd (debug_enable start rnd input ss)))"
    using map_set_member [of "ds_id ?s" ?s ss] s(2)
    by (auto simp: debug_isEnabled_def activeSessions_def Let_def s(1) list_ex_iff
        intro!: exI [of _ "ds_id ?s"] exI [of _ ?s])
qed

theorem debug_sessions_end_witness:
  "fst (debug_isEnabled 60004 None (run_debug 5 (DebugEnable ''r'' \<lparr>di_targetSystem = None, di_level = None,
     di_ttlSeconds = num 1\<rparr>) [])) \<and>
   debug_isEnabled 14400005 None (run_debug 5 (DebugEnable ''r'' \<lparr>di_targetSystem = None, di_level = None,
     di_ttlSeconds = num 1\<rparr>) []) = (False, [])"
proof -
  let ?i = "\<lparr>di_targetSystem = None, di_level = None, di_ttlSeconds = num 1\<rparr>"
  have steps: "debug_steps [(5, DebugEnable ''r'' ?i)] (run_debug 5 (DebugEnable ''r'' ?i) [])"
    by (intro debug_step debug_start)
  have "debug_isEnabled 14400005 None (run_debug 5 (DebugEnable ''r'' ?i) []) = (False, [])"
    using debug_sessions_end [OF steps, of 5 14400005 None 0 0 ?i "''r''"] by simp
  moreover have "fst (debug_isEnabled 60004 (di_targetSystem ?i) (snd (debug_enable 5 ''r'' ?i [])))"
    using debug_sessions_end [OF debug_start, of 0 14400000 None 60004 5 ?i "''r''"] by simp
  ultimately show ?thesis by simp
qed

text \<open>
  Diagnostic records hide secrets. Two sets of fields that differ in nothing but what their
  secret keys hold, at any depth, give the same record, or no record, in both levels: nothing
  that is logged depends on a password, a token or a key.
\<close>

theorem diagnostic_records_hide_secrets:
  assumes "eq_but_secrets (Obj f) (Obj g)"
  shows "log_basic cfg now event f ss = log_basic cfg now event g ss \<and>
    log_verbose cfg now event f ss = log_verbose cfg now event g ss"
proof -
  have "\<not> isSecretKey ''targetSystem''" by (simp add: secret_eval)
  then have "eq_but_secrets (js_get f ''targetSystem'') (js_get g ''targetSystem'')"
    by (rule same_public_entry [OF assms])
  then have target: "fields_target f = fields_target g"
    by (cases "js_get f ''targetSystem''"; cases "js_get g ''targetSystem''") (auto simp: fields_target_def)
  have same: "diag_record l keep event f = diag_record l keep event g" for l keep
    using diag_redact_noninterference [OF assms, of keep] by (simp only: diag_record_def)
  show ?thesis unfolding log_basic_def log_verbose_def target same by simp
qed

definition verbose_settings :: settings where
  "verbose_settings =
     \<lparr>process_env = (\<lambda>_. None),
      config_value = (\<lambda>k. if k = ''DEBUG_LOGGING_ENABLED'' then Bool True
                         else if k = ''DEBUG_LOGGING_LEVEL'' then Str ''Verbose'' else Undef),
      sqlite = False\<rparr>"

theorem diagnostic_records_hide_secrets_witness:
  "log_verbose verbose_settings 5 ''e'' [(''user'', Obj [(''password'', Str ''a'')])] [] =
     log_verbose verbose_settings 5 ''e'' [(''user'', Obj [(''password'', Str ''b'')])] [] \<and>
   fst (log_verbose verbose_settings 5 ''e'' [(''user'', Obj [(''password'', Str ''a'')])] []) \<noteq> None"
proof -
  have "isSecretKey ''password''" by (simp add: secret_eval)
  then have "eq_but_secrets (Obj [(''user'', Obj [(''password'', Str ''a'')])]) (Obj [(''user'', Obj [(''password'', Str ''b'')])])"
    by simp
  from diagnostic_records_hide_secrets [OF this, of verbose_settings 5 "''e''" "[]"] show ?thesis
    by (simp add: log_verbose_def logger_enabled_def logger_level_def debug_isEnabled_def activeSessions_def
        verbose_settings_def configured_level_def coalesce_def nullish_def)
qed

end
