(* ===== verification/DiagnosticsApi.thy ===== *)
theory DiagnosticsApi
  imports Diagnostics TargetApi
begin

text \<open>
  Models \<open>admin/runtime-diagnostics.controller.ts\<close>: debug sessions and the log buffer behind the
  rights of the admin interface.
\<close>

section \<open>Handlers\<close>

record diag_world = rbac_db +
  debug :: debug_sessions
  logs :: log_buffer

definition on_debug :: "(debug_sessions \<Rightarrow> 'a \<times> debug_sessions) \<Rightarrow> ('a, diag_world) op" where
  "on_debug f w = (case f (debug w) of (a, ss) \<Rightarrow> (Inr a, w\<lparr>debug := ss\<rparr>))"

definition on_logs :: "(log_buffer \<Rightarrow> 'a \<times> log_buffer) \<Rightarrow> ('a, diag_world) op" where
  "on_logs f w = (case f (logs w) of (a, b) \<Rightarrow> (Inr a, w\<lparr>logs := b\<rparr>))"

definition assertReadTargetSystemName ::
  "rbac_env \<Rightarrow> rbac_call \<Rightarrow> admin_session option \<Rightarrow> string \<Rightarrow> (unit, 'b rbac_db_scheme) op" where
  "assertReadTargetSystemName env c s target =
     sbind (request_session s) (\<lambda>ses.
     sbind (allowedConnectorTypes env c ses Read) (\<lambda>allowedTypes.
     case allowedTypes of
       None \<Rightarrow> ret ()
     | Some ts \<Rightarrow>
         sbind (connectorTypeByTargetSystemName c target) (\<lambda>connectorType.
         if connectorType \<notin> set ts then assertRead env c ses connectorType else ret ())))"

text \<open>The check of a request about one target system, or about all of them.\<close>

definition assert_scope ::
  "rbac_env \<Rightarrow> rbac_call \<Rightarrow> admin_session option \<Rightarrow> string option \<Rightarrow> (unit, 'b rbac_db_scheme) op" where
  "assert_scope env c s target =
     (if \<not> nonblank target
      then sbind (request_session s) (assertSuperadmin env c)
      else assertReadTargetSystemName env c s (the target))"

fun visible_sessions ::
  "rbac_call \<Rightarrow> string list \<Rightarrow> debug_session list \<Rightarrow> (debug_session list, 'b rbac_db_scheme) op" where
  "visible_sessions c allowed [] w = (Inr [], w)"
| "visible_sessions c allowed (d # ds) w =
     (case ds_targetSystem d of
        None \<Rightarrow> visible_sessions c allowed ds w
      | Some t \<Rightarrow>
          (case connectorTypeByTargetSystemName c t w of
             (Inl _, w') \<Rightarrow> visible_sessions c allowed ds w'
           | (Inr type, w') \<Rightarrow>
               sbind (visible_sessions c allowed ds)
                 (\<lambda>rest. ret (if type \<in> set allowed then d # rest else rest)) w'))"

definition api_debugStatus ::
  "rbac_env \<Rightarrow> rbac_call \<Rightarrow> nat \<Rightarrow> admin_session option \<Rightarrow> (debug_session list, diag_world) op" where
  "api_debugStatus env c now s =
     sbind (on_debug (activeSessions now)) (\<lambda>active.
     sbind (request_session s) (\<lambda>ses.
     sbind (allowedConnectorTypes env c ses Read) (\<lambda>allowed.
     case allowed of None \<Rightarrow> ret active | Some ts \<Rightarrow> visible_sessions c ts active)))"

definition api_enableDebug ::
  "rbac_env \<Rightarrow> rbac_call \<Rightarrow> nat \<Rightarrow> string \<Rightarrow> admin_session option \<Rightarrow> debug_input \<Rightarrow> (debug_session, diag_world) op" where
  "api_enableDebug env c now rnd s input =
     sbind (assert_scope env c s (di_targetSystem input)) (\<lambda>_.
     on_debug (debug_enable now rnd
       (input\<lparr>di_level := Some (if di_level input = Some ''Verbose'' then ''Verbose'' else ''Basic'')\<rparr>)))"

definition api_disableDebug ::
  "rbac_env \<Rightarrow> rbac_call \<Rightarrow> nat \<Rightarrow> admin_session option \<Rightarrow> string \<Rightarrow> (bool, diag_world) op" where
  "api_disableDebug env c now s i =
     sbind (on_debug (activeSessions now)) (\<lambda>active.
     sbind (assert_scope env c s (case find (\<lambda>d. ds_id d = i) active of None \<Rightarrow> None | Some d \<Rightarrow> ds_targetSystem d))
       (\<lambda>_. on_debug (debug_disable i)))"

definition api_logs ::
  "rbac_env \<Rightarrow> rbac_call \<Rightarrow> admin_session option \<Rightarrow> string option \<Rightarrow> string option \<Rightarrow> string option \<Rightarrow>
   (log_event list, diag_world) op" where
  "api_logs env c s target level limit =
     sbind (assert_scope env c s target) (\<lambda>_.
     on_logs (\<lambda>b. (query_logs
       \<lparr>lq_targetSystem = target, lq_level = level,
        lq_limit = (if nonblank limit then Num (number_of_string (the limit)) else Undef)\<rparr> b, b)))"

definition api_clearLogs ::
  "rbac_env \<Rightarrow> rbac_call \<Rightarrow> admin_session option \<Rightarrow> string option \<Rightarrow> (nat, diag_world) op" where
  "api_clearLogs env c s target =
     sbind (assert_scope env c s target) (\<lambda>_. on_logs (clear_logs target))"

section \<open>Who gets past the check\<close>

text \<open>The session may read the target systems of that name, or all of them.\<close>

definition covers :: "'b rbac_db_scheme \<Rightarrow> admin_session option \<Rightarrow> string option \<Rightarrow> bool" where
  "covers w s target \<longleftrightarrow>
     (\<exists>x. s = Some x \<and> isSuperadminSession x) \<or>
     (\<exists>t r. target = Some t \<and> t \<noteq> [] \<and> system_by_name (systems w) t = Some r \<and> has_read w s (ts_type r))"

lemma superadmin_Inr:
  "assertSuperadmin env c x w = (Inr u, w') \<Longrightarrow> w' = w \<and> isSuperadminSession x"
  by (auto simp: assertSuperadmin_def sbind_Inr_iff split: if_splits dest!: effective_run)

lemma nameType_Inr:
  "connectorTypeByTargetSystemName c n w = (Inr t, w') \<Longrightarrow>
   w' = w \<and> (\<exists>r. system_by_name (systems w) n = Some r \<and> ts_type r = t)"
  by (auto simp: connectorTypeByTargetSystemName_def sbind_Inr_iff may_fail_iff system_type_def
      split: option.splits)

lemma scope_Inr:
  assumes "assert_scope env c s target w = (Inr u, w')"
  shows "w' = w \<and> covers w s target"
proof (cases "nonblank target")
  case False
  with assms show ?thesis
    by (auto simp: assert_scope_def sbind_Inr_iff request_session_run covers_def dest!: superadmin_Inr)
next
  case True
  then obtain t where t: "target = Some t" "t \<noteq> []" by (cases target) (auto simp: nonblank_def)
  from assms True obtain x allowed w1 where x: "s = Some x"
    and al: "allowedConnectorTypes env c x Read w = (Inr allowed, w1)"
    and rest: "(case allowed of None \<Rightarrow> ret ()
     | Some ts \<Rightarrow> sbind (connectorTypeByTargetSystemName c t) (\<lambda>ty.
         if ty \<notin> set ts then assertRead env c x ty else ret ())) w1 = (Inr u, w')"
    by (auto simp: assert_scope_def assertReadTargetSystemName_def sbind_Inr_iff request_session_run t)
  show ?thesis
  proof (cases allowed)
    case None
    with allowed_run [OF al] rest show ?thesis by (simp add: covers_def x)
  next
    case (Some ts)
    with rest obtain ty w2 where ty: "connectorTypeByTargetSystemName c t w1 = (Inr ty, w2)"
      and ok: "(if ty \<notin> set ts then assertRead env c x ty else ret ()) w2 = (Inr u, w')"
      by (auto simp: sbind_Inr_iff)
    have w1: "w1 = w" using allowed_run [OF al] by simp
    obtain r where r: "w2 = w" "system_by_name (systems w) t = Some r" "ts_type r = ty"
      using nameType_Inr [OF ty] by (auto simp: w1)
    have "w' = w \<and> has_read w s ty"
      using ok allowed_run [OF al] assertRead_Inr [of env c x ty w2 u w']
      by (auto simp: r Some x has_read_def split: if_splits)
    with r t show ?thesis by (auto simp: covers_def)
  qed
qed

section \<open>Properties\<close>

text \<open>
  C16: who is shown log events, or clears some, is a superadmin or may read the target system it names. All events
  shown to others carry that name without its surrounding white space, and clearing keeps every event that carries
  another one. This is the very name that was checked, unless it has such white space: it may then be the name of
  another target system, and if nothing is left of it, the events of all systems are meant, as the theorem below
  shows; target systems may have such names.
\<close>

theorem logs_stay_in_scope:
  assumes "api_logs env c s target level limit w = (Inr items, w1)"
    and "api_clearLogs env c s target w = (Inr n, w2)"
  shows "covers w s target \<and>
    (\<not> (\<exists>x. s = Some x \<and> isSuperadminSession x) \<and> trim (the target) \<noteq> [] \<longrightarrow>
      (\<forall>e \<in> set items. le_targetSystem e = Some (trim (the target))) \<and>
      events (logs w2) = filter (\<lambda>e. le_targetSystem e \<noteq> Some (trim (the target))) (events (logs w)))"
proof -
  have cov: "covers w s target"
    using assms(1) by (auto simp: api_logs_def sbind_Inr_iff dest!: scope_Inr)
  moreover have "(\<forall>e \<in> set items. le_targetSystem e = Some (trim (the target))) \<and>
      events (logs w2) = filter (\<lambda>e. le_targetSystem e \<noteq> Some (trim (the target))) (events (logs w))"
    if no: "\<not> (\<exists>x. s = Some x \<and> isSuperadminSession x)" and tr: "trim (the target) \<noteq> []"
  proof
    obtain t where t: "target = Some t" "trim t \<noteq> []" using cov no tr by (auto simp: covers_def)
    show "\<forall>e \<in> set items. le_targetSystem e = Some (trim (the target))"
    proof
      fix e assume "e \<in> set items"
      then have "e \<in> set (filter (matching \<lparr>lq_targetSystem = target, lq_level = level,
          lq_limit = (if nonblank limit then Num (number_of_string (the limit)) else Undef)\<rparr>) (events (logs w)))"
        using assms(1) set_last_n
        by (fastforce simp: api_logs_def sbind_Inr_iff on_logs_def query_last dest!: scope_Inr)
      then show "le_targetSystem e = Some (trim (the target))" by (simp add: matching_def shown_def t)
    qed
    show "events (logs w2) = filter (\<lambda>e. le_targetSystem e \<noteq> Some (trim (the target))) (events (logs w))"
      using assms(2) t
      by (auto simp: api_clearLogs_def sbind_Inr_iff on_logs_def clear_filter dest!: scope_Inr)
  qed
  ultimately show ?thesis by blast
qed

text \<open>
  A blank name opens all logs. When there is a target system whose name consists of white
  space, which the interface does not refuse, then everybody who may read its connector type is
  shown the events of all target systems, and may clear them all.
\<close>

theorem blank_name_opens_all_logs:
  assumes "api_logs env c s (Some n) level limit w = (Inr items, w1)"
    and "api_clearLogs env c s (Some n) w = (Inr k, w2)" and "trim n = []"
  shows "items = query_logs \<lparr>lq_targetSystem = None, lq_level = level,
      lq_limit = (if nonblank limit then Num (number_of_string (the limit)) else Undef)\<rparr> (logs w) \<and>
    events (logs w2) = []"
  using assms
  by (auto simp: api_logs_def api_clearLogs_def sbind_Inr_iff on_logs_def query_logs_def clear_filter
      empty_buffer_def dest!: scope_Inr)
section \<open>Witnesses\<close>

definition demo_event_of :: "nat \<Rightarrow> string \<Rightarrow> log_event" where
  "demo_event_of i t =
     \<lparr>le_id = i, le_time = 5, le_receivedAt = 5, le_level = num 30, le_msg = Some ''m'', le_event = None,
      le_diagnostic = False, le_diagnosticLevel = None, le_targetSystem = Some t, le_context = None,
      le_method = None, le_path = None, le_status = None, le_responseTime = None, le_details = None\<rparr>"

definition demo_diag :: "string \<Rightarrow> diag_world" where
  "demo_diag name =
     \<lparr>systems = [demo_system ''1'' name], roles = [demo_role], mappings = [demo_mapping], debug = [],
      logs = \<lparr>events = [demo_event_of 1 ''ad'', demo_event_of 2 ''db''], nextId = 3\<rparr>\<rparr>"

definition demo_order :: rbac_env where
  "demo_order = \<lparr>collate_le = (\<lambda>_ _. True), compare_le = (\<lambda>_ _. True)\<rparr>"

lemma demo_scope:
  assumes "n \<noteq> []"
  shows "assert_scope demo_order demo_rcall (Some demo_admin) (Some n) (demo_diag n) = (Inr (), demo_diag n)"
proof -
  have "allowedConnectorTypes demo_order demo_rcall demo_admin Read (demo_diag n) =
      (Inr (Some [''linux'']), demo_diag n)"
    by (simp add: allowedConnectorTypes_def effectivePermissions_def isSuperadminSession_def
      demo_admin_def unique_def demo_rcall_def active_roles_def role_of_mapping_def role_by_id_def demo_order_def
      demo_diag_def demo_role_def demo_mapping_def collect_permissions_def add_permission_def
      merge_permission_def no_permission_def locale_sort_def Let_def sbind_def)
  moreover have "connectorTypeByTargetSystemName demo_rcall n (demo_diag n) = (Inr ''linux'', demo_diag n)"
    by (simp add: connectorTypeByTargetSystemName_def demo_rcall_def demo_diag_def system_type_def
        system_by_name_def demo_system_def)
  ultimately show ?thesis
    using assms by (simp add: assert_scope_def assertReadTargetSystemName_def nonblank_def request_session_def sbind_def)
qed

lemma demo_runs:
  assumes "n \<noteq> []"
  shows "api_logs demo_order demo_rcall (Some demo_admin) (Some n) None None (demo_diag n) =
      (Inr (query_logs \<lparr>lq_targetSystem = Some n, lq_level = None, lq_limit = Undef\<rparr> (logs (demo_diag n))), demo_diag n)"
    "api_clearLogs demo_order demo_rcall (Some demo_admin) (Some n) (demo_diag n) =
      (Inr (fst (clear_logs (Some n) (logs (demo_diag n)))),
       (demo_diag n)\<lparr>logs := snd (clear_logs (Some n) (logs (demo_diag n)))\<rparr>)"
  by (simp_all add: api_logs_def api_clearLogs_def demo_scope [OF assms] sbind_def on_logs_def nonblank_def
      split: prod.split)

theorem logs_stay_in_scope_witness:
  "covers (demo_diag ''ad'') (Some demo_admin) (Some ''ad'') \<and>
   map le_id (events (logs (snd (api_clearLogs demo_order demo_rcall (Some demo_admin) (Some ''ad'') (demo_diag ''ad''))))) = [2]"
proof -
  have "\<not> isSuperadminSession demo_admin" by (simp add: isSuperadminSession_def demo_admin_def)
  moreover have "trim ''ad'' = ''ad''" by (simp add: trim_def)
  moreover have "events (logs (demo_diag ''ad'')) = [demo_event_of 1 ''ad'', demo_event_of 2 ''db'']"
    "le_targetSystem (demo_event_of i t) = Some t" "le_id (demo_event_of i t) = i" for i t
    by (simp_all add: demo_diag_def demo_event_of_def)
  ultimately show ?thesis
    using logs_stay_in_scope [OF demo_runs [of "''ad''"]] by (simp add: demo_runs)
qed

theorem blank_name_opens_all_logs_witness:
  "(\<exists>items. fst (api_logs demo_order demo_rcall (Some demo_admin) (Some '' '') None None (demo_diag '' '')) = Inr items \<and>
     map le_targetSystem items = [Some ''ad'', Some ''db'']) \<and>
   events (logs (snd (api_clearLogs demo_order demo_rcall (Some demo_admin) (Some '' '') (demo_diag '' '')))) = []"
proof -
  have all: "events (logs (demo_diag '' '')) = [demo_event_of 1 ''ad'', demo_event_of 2 ''db'']"
    "le_targetSystem (demo_event_of i t) = Some t" for i t
    by (simp_all add: demo_diag_def demo_event_of_def)
  have q: "matching \<lparr>lq_targetSystem = None, lq_level = None, lq_limit = Undef\<rparr> = (\<lambda>_. True)"
    by (simp add: matching_def shown_def [abs_def])
  have "trim '' '' = []" by (simp add: trim_def)
  with blank_name_opens_all_logs [OF demo_runs [of "'' ''"]] show ?thesis
    by (simp add: demo_runs query_last all q last_n_def normalizeLimit_def nonblank_def)
qed

end
