(* ===== verification/IntegrationAuth.thy ===== *)
theory IntegrationAuth
  imports Auth "HOL-Library.Multiset"
begin

text \<open>
  Models \<open>security/integration-auth.service.ts\<close> and \<open>security/integration-auth.middleware.ts\<close>:
  the HMAC signature of inbound requests. SHA-256 and the order of \<open>localeCompare\<close> are
  arguments, beside the platform of the other theories.
\<close>

section \<open>Requests\<close>

record int_request = http_request +
  rq_originalUrl :: "string option"
  rq_url :: "string option"
  rq_body :: jsval

record digest_env =
  dg_platform :: platform
  sha256_hex :: "string \<Rightarrow> string"
  locale_le :: "string \<Rightarrow> string \<Rightarrow> bool"

definition int_header :: "int_request \<Rightarrow> string \<Rightarrow> string option" where
  "int_header req name = header (http_request.truncate req) name"

definition int_path :: "int_request \<Rightarrow> string" where
  "int_path req =
     (let value = or_else (rq_originalUrl req) (or_else (rq_url req) (rq_path req)) in
      case hd (split_on (CHR ''?'') value) of [] \<Rightarrow> ''/'' | p \<Rightarrow> p)"

section \<open>The canonical body\<close>

text \<open>The entries are printed before they are sorted by their keys, which gives the same text.\<close>

fun stableStringify :: "digest_env \<Rightarrow> jsval \<Rightarrow> string" where
  "stableStringify d (Arr xs) = ''['' @ join_with '','' (map (stableStringify d) xs) @ '']''"
| "stableStringify d (Obj kvs) =
     ''{'' @ join_with '','' (map (\<lambda>(k, s). json_print (dg_platform d) (Str k) @ '':'' @ s)
       (locale_sort (locale_le d) (map (\<lambda>(k, v). (k, stableStringify d v)) kvs))) @ ''}''"
| "stableStringify d v = json_print (dg_platform d) v"

definition bodyToString :: "digest_env \<Rightarrow> jsval \<Rightarrow> bool \<Rightarrow> string" where
  "bodyToString d value hasBody =
     (if \<not> hasBody then []
      else case value of Undef \<Rightarrow> [] | Null \<Rightarrow> [] | Str s \<Rightarrow> s | v \<Rightarrow> stableStringify d v)"

definition requestBodyToString :: "digest_env \<Rightarrow> int_request \<Rightarrow> string" where
  "requestBodyToString d req =
     bodyToString d (rq_body req)
       (rq_headers req ''content-length'' \<noteq> None \<or> rq_headers req ''transfer-encoding'' \<noteq> None)"

section \<open>Signatures\<close>

definition canonical_request :: "digest_env \<Rightarrow> string \<Rightarrow> string \<Rightarrow> string \<Rightarrow> string \<Rightarrow> string" where
  "canonical_request d timestamp method path body =
     join_with [CHR 0x0A] [timestamp, to_upper method, path, sha256_hex d body]"

definition signForTest :: "digest_env \<Rightarrow> string \<Rightarrow> string \<Rightarrow> jsval \<Rightarrow> string \<Rightarrow> string \<Rightarrow> string" where
  "signForTest d method path body timestamp secret =
     hmac_sha256_hex (dg_platform d) secret
       (canonical_request d timestamp method path (bodyToString d body True))"

definition int_signature :: "digest_env \<Rightarrow> int_request \<Rightarrow> string \<Rightarrow> string \<Rightarrow> string" where
  "int_signature d req timestamp secret =
     hmac_sha256_hex (dg_platform d) secret
       (canonical_request d timestamp (rq_method req) (int_path req) (requestBodyToString d req))"

definition int_secret :: "string option \<Rightarrow> app_cfg \<Rightarrow> string option" where
  "int_secret env c =
     (case (case env of Some v \<Rightarrow> Some v | None \<Rightarrow> cfg_str c ''INTEGRATION_AUTH_SECRET'') of
        None \<Rightarrow> None
      | Some v \<Rightarrow> if trim v = [] then None else Some (trim v))"

definition parseTimestamp :: "string \<Rightarrow> rat option" where
  "parseTimestamp value =
     (case number_of_string value of
        Fin r \<Rightarrow> if r \<le> 0 then None else Some (if r > 1000000000000 then r else r * 1000)
      | _ \<Rightarrow> None)"

definition hex_char :: "char \<Rightarrow> bool" where
  "hex_char c \<longleftrightarrow> radix_digit c < 16"

definition normalizeSignature :: "string \<Rightarrow> string option" where
  "normalizeSignature value =
     (let t = trim value;
          normalized = (if starts_with ''sha256='' (to_lower t) then drop 7 t else t)
      in if length normalized = 64 \<and> list_all hex_char normalized
         then Some (to_lower normalized) else None)"

record auth_result =
  ar_ok :: bool
  ar_status :: nat
  ar_message :: string

definition denied :: "nat \<Rightarrow> string \<Rightarrow> auth_result" where
  "denied st m = \<lparr>ar_ok = False, ar_status = st, ar_message = m\<rparr>"

definition skewSeconds :: "app_cfg \<Rightarrow> jsnum" where
  "skewSeconds c = or_else (cfg_num c ''INTEGRATION_AUTH_ALLOWED_CLOCK_SKEW_SECONDS'') (Fin 300)"

definition int_verify :: "digest_env \<Rightarrow> string option \<Rightarrow> app_cfg \<Rightarrow> nat \<Rightarrow> int_request \<Rightarrow> auth_result" where
  "int_verify d env c now req =
     (case int_secret env c of
        None \<Rightarrow> denied 503 ''Integration authentication is not configured''
      | Some secret \<Rightarrow>
        (case (int_header req ''x-idmmw-timestamp'', int_header req ''x-idmmw-signature'') of
           (Some (t # ts), Some (s # sg)) \<Rightarrow>
             (case parseTimestamp (t # ts) of
                None \<Rightarrow> denied 401 ''Invalid integration authentication timestamp''
              | Some timestamp \<Rightarrow>
                if js_gt (Fin \<bar>of_nat now - timestamp\<bar>) (milliseconds (skewSeconds c))
                then denied 401 ''Integration authentication timestamp is outside allowed skew''
                else (case normalizeSignature (s # sg) of
                  None \<Rightarrow> denied 401 ''Invalid integration authentication signature''
                | Some actual \<Rightarrow>
                    if safeEqualFixedLength (dg_platform d) actual (int_signature d req (t # ts) secret)
                         ''integration-auth-signature''
                    then \<lparr>ar_ok = True, ar_status = 200, ar_message = ''ok''\<rparr>
                    else denied 401 ''Invalid integration authentication signature''))
         | _ \<Rightarrow> denied 401 ''Integration authentication headers are required''))"

section \<open>The middleware\<close>

definition int_requiresAuth :: "app_cfg \<Rightarrow> int_request \<Rightarrow> bool" where
  "int_requiresAuth c req =
     (let path = int_path req in
      if path = ''/metrics'' then \<not> or_else (cfg_bool c ''METRICS_PUBLIC_ENABLED'') True
      else if \<not> or_else (cfg_bool c ''INTEGRATION_AUTH_ENABLED'') False then False
      else path = ''/idm'' \<or> starts_with ''/idm/'' path \<or> starts_with ''/webhooks/'' path)"

definition int_middleware ::
  "digest_env \<Rightarrow> string option \<Rightarrow> app_cfg \<Rightarrow> nat \<Rightarrow> int_request \<Rightarrow> middleware_result" where
  "int_middleware d env c now req =
     (if \<not> int_requiresAuth c req then Next None
      else let result = int_verify d env c now req in
        if ar_ok result then Next None else Reject (ar_status result) (ar_message result))"

section \<open>Sorting by key\<close>

lemma locale_insert_perm: "mset (locale_insert le e xs) = add_mset e (mset xs)"
  by (induction xs) auto

lemma locale_sort_perm: "mset (locale_sort le xs) = mset xs"
  by (induction xs) (simp_all add: locale_sort_def locale_insert_perm)

definition locale_sorted :: "(string \<Rightarrow> string \<Rightarrow> bool) \<Rightarrow> (string \<times> 'v) list \<Rightarrow> bool" where
  "locale_sorted le xs \<longleftrightarrow> sorted_wrt (\<lambda>x y. le (fst x) (fst y)) xs"

definition total_order :: "(string \<Rightarrow> string \<Rightarrow> bool) \<Rightarrow> bool" where
  "total_order le \<longleftrightarrow>
     (\<forall>a b. le a b \<or> le b a) \<and> (\<forall>a b c. le a b \<longrightarrow> le b c \<longrightarrow> le a c) \<and>
     (\<forall>a b. le a b \<longrightarrow> le b a \<longrightarrow> a = b)"

lemma locale_insert_sorted:
  assumes "total_order le" "locale_sorted le xs"
  shows "locale_sorted le (locale_insert le e xs)"
  using assms(2)
proof (induction xs)
  case (Cons x xs)
  have "set (locale_insert le e xs) = insert e (set xs)"
    using locale_insert_perm [of le e xs] by (metis set_mset_add_mset_insert set_mset_mset)
  then show ?case using Cons assms(1) by (auto simp: locale_sorted_def total_order_def)
qed (simp add: locale_sorted_def)

lemma locale_sort_sorted: "total_order le \<Longrightarrow> locale_sorted le (locale_sort le xs)"
  by (induction xs) (simp_all add: locale_sort_def locale_insert_sorted, simp add: locale_sorted_def)

lemma sorted_unique:
  assumes "total_order le" "locale_sorted le xs" "locale_sorted le ys" "mset xs = mset ys"
    and "distinct (map fst xs)"
  shows "xs = ys"
  using assms
proof (induction xs arbitrary: ys)
  case (Cons x xs)
  then obtain y ys' where ys: "ys = y # ys'" by (cases ys) auto
  have sets: "set (x # xs) = set ys" using Cons.prems(4) by (metis set_mset_mset)
  have "x = y"
  proof (rule ccontr)
    assume "x \<noteq> y"
    then have "y \<in> set xs" "x \<in> set ys'" using sets ys by auto
    then have "le (fst x) (fst y)" "le (fst y) (fst x)"
      using Cons.prems(2,3) ys by (auto simp: locale_sorted_def)
    then have "fst x = fst y" using Cons.prems(1) by (auto simp: total_order_def)
    with \<open>y \<in> set xs\<close> Cons.prems(5) show False by (auto simp: image_iff)
  qed
  with Cons show ?case by (simp add: ys locale_sorted_def)
qed simp

lemma locale_sort_cong:
  assumes "total_order le" "mset xs = mset ys" "distinct (map fst xs)"
  shows "locale_sort le xs = locale_sort le ys"
proof (rule sorted_unique [OF assms(1)])
  show "mset (locale_sort le xs) = mset (locale_sort le ys)" by (simp add: locale_sort_perm assms(2))
  have "mset (map fst (locale_sort le xs)) = mset (map fst xs)" by (simp add: locale_sort_perm)
  then show "distinct (map fst (locale_sort le xs))"
    using assms(3) by (metis mset_eq_imp_distinct_iff)
qed (simp_all add: locale_sort_sorted assms(1))

section \<open>Bodies that differ in the order of their members\<close>

inductive reordered :: "jsval \<Rightarrow> jsval \<Rightarrow> bool" where
  same: "reordered v v"
| items: "list_all2 reordered xs ys \<Longrightarrow> reordered (Arr xs) (Arr ys)"
| members: "list_all2 (\<lambda>e f. fst e = fst f \<and> reordered (snd e) (snd f)) kvs kvs1 \<Longrightarrow>
    mset kvs1 = mset kvs2 \<Longrightarrow> distinct (map fst kvs) \<Longrightarrow> reordered (Obj kvs) (Obj kvs2)"
monos list_all2_mono

lemma stable_reordered:
  assumes "total_order (locale_le d)" "reordered v w"
  shows "stableStringify d v = stableStringify d w"
  using assms(2)
proof (induction rule: reordered.induct)
  case (items xs ys)
  then have "map (stableStringify d) xs = map (stableStringify d) ys"
    by (auto simp: list_all2_conv_all_nth intro: nth_equalityI)
  then show ?case by simp
next
  case (members kvs kvs1 kvs2)
  let ?p = "map (\<lambda>(k, v). (k, stableStringify d v))"
  have fst_p: "map fst (?p xs) = map fst xs" for xs :: obj by (induction xs) auto
  have "?p kvs = ?p kvs1"
    using members.IH by (auto simp: list_all2_conv_all_nth case_prod_beta intro: nth_equalityI)
  moreover have "mset (?p kvs1) = mset (?p kvs2)" using members.hyps(1) by simp
  ultimately have "mset (?p kvs) = mset (?p kvs2)" by metis
  moreover have "distinct (map fst (?p kvs))" using members.hyps(2) by (simp only: fst_p)
  ultimately have "locale_sort (locale_le d) (?p kvs) = locale_sort (locale_le d) (?p kvs2)"
    by (rule locale_sort_cong [OF assms(1)])
  then show ?case by simp
qed simp

lemma stable_body:
  assumes "total_order (locale_le d)" "reordered v w"
  shows "bodyToString d v b = bodyToString d w b"
  using assms(2) stable_reordered [OF assms]
  by (cases rule: reordered.cases) (auto simp: bodyToString_def simp del: stableStringify.simps)

section \<open>Properties\<close>

text \<open>
  The signature of a body does not depend on the order of its members. Two requests with
  the same time, method, path and length headers whose JSON bodies differ only in the order of
  the members of their objects, at any depth, have the same signature.
\<close>

theorem signature_ignores_member_order:
  assumes "total_order (locale_le d)" and "reordered body body'"
  shows "int_signature d (req\<lparr>rq_body := body\<rparr>) timestamp secret =
    int_signature d (req\<lparr>rq_body := body'\<rparr>) timestamp secret"
  using stable_body [OF assms]
  by (simp add: int_signature_def int_path_def requestBodyToString_def)

fun lex_le :: "string \<Rightarrow> string \<Rightarrow> bool" where
  "lex_le [] b = True"
| "lex_le (x # a) [] = False"
| "lex_le (x # a) (y # b) \<longleftrightarrow> (of_char x :: nat) < of_char y \<or> x = y \<and> lex_le a b"

lemma lex_le_total: "total_order lex_le"
proof -
  have t: "lex_le a b \<or> lex_le b a" for a b
  proof (induction a b rule: lex_le.induct)
    case (3 x a y b)
    then show ?case
      by (cases "of_char x < (of_char y :: nat)"; cases "of_char y < (of_char x :: nat)") auto
  qed simp_all
  have r: "lex_le a c" if "lex_le a b" "lex_le b c" for a b c
    using that
  proof (induction a b arbitrary: c rule: lex_le.induct)
    case (3 x a y b)
    then show ?case by (cases c) auto
  qed simp_all
  have "a = b" if "lex_le a b" "lex_le b a" for a b
    using that
  proof (induction a b rule: lex_le.induct)
    case (1 b)
    then show ?case by (cases b) auto
  qed auto
  with t r show ?thesis unfolding total_order_def by blast
qed

definition demo_digest :: digest_env where
  "demo_digest = \<lparr>dg_platform = demo_platform, sha256_hex = id, locale_le = lex_le\<rparr>"

definition signed_request :: int_request where
  "signed_request =
     \<lparr>rq_method = ''post'', rq_path = ''/webhooks/avanpost'', rq_headers = [''content-length'' \<mapsto> [''9'']],
      rq_ip = None, rq_remoteAddress = None, rq_originalUrl = None, rq_url = None, rq_body = Null\<rparr>"

theorem signature_ignores_member_order_witness:
  "int_signature demo_digest (signed_request\<lparr>rq_body := Obj [(''a'', Null), (''b'', Bool True)]\<rparr>) ''1'' ''k'' =
   int_signature demo_digest (signed_request\<lparr>rq_body := Obj [(''b'', Bool True), (''a'', Null)]\<rparr>) ''1'' ''k''"
proof (rule signature_ignores_member_order)
  show "total_order (locale_le demo_digest)" by (simp add: demo_digest_def lex_le_total)
  show "reordered (Obj [(''a'', Null), (''b'', Bool True)]) (Obj [(''b'', Bool True), (''a'', Null)])"
    by (rule members [of _ "[(''a'', Null), (''b'', Bool True)]"]) (simp_all add: same)
qed

text \<open>What the check of the age of a request guarantees: nothing, where the setting is no number.\<close>

definition within_skew :: "app_cfg \<Rightarrow> nat \<Rightarrow> rat \<Rightarrow> bool" where
  "within_skew c now timestamp \<longleftrightarrow>
     (case skewSeconds c of
        Fin k \<Rightarrow> \<bar>of_nat now - timestamp\<bar> \<le> k * 1000 | PosInf \<Rightarrow> True | NegInf \<Rightarrow> False | NaN \<Rightarrow> True)"

text \<open>
  C13: a guarded request gets through only with a matching signature. The secret is configured, and the signature
  of the request is a 64-digit hexadecimal value that the constant-time comparison finds equal to the HMAC of the
  timestamp, the method, the path without its query, and the digest of the body. Where the allowed skew is set to a
  finite number, or not set, which means 300 seconds, the timestamp lies within it of the clock; a setting that is
  no number, which the check at startup accepts, admits a signature of any age.
\<close>

theorem integration_guard:
  assumes "int_middleware d env c now req = Next x" and "int_requiresAuth c req"
  shows "\<exists>secret ts sg timestamp actual.
    int_secret env c = Some secret \<and> int_header req ''x-idmmw-timestamp'' = Some ts \<and>
    int_header req ''x-idmmw-signature'' = Some sg \<and> parseTimestamp ts = Some timestamp \<and>
    within_skew c now timestamp \<and>
    normalizeSignature sg = Some actual \<and>
    safeEqualFixedLength (dg_platform d) actual
      (hmac_sha256_hex (dg_platform d) secret
        (canonical_request d ts (rq_method req) (int_path req) (requestBodyToString d req)))
      ''integration-auth-signature''"
proof -
  have ok: "ar_ok (int_verify d env c now req)"
    using assms by (auto simp: int_middleware_def Let_def split: if_splits)
  then obtain secret where s: "int_secret env c = Some secret"
    by (auto simp: int_verify_def denied_def split: option.splits)
  from ok s obtain t ts x sg where h: "int_header req ''x-idmmw-timestamp'' = Some (t # ts)"
    "int_header req ''x-idmmw-signature'' = Some (x # sg)"
    by (auto simp: int_verify_def denied_def split: option.splits list.splits)
  from ok s h obtain timestamp where p: "parseTimestamp (t # ts) = Some timestamp"
    by (auto simp: int_verify_def denied_def split: option.splits)
  from ok s h p obtain actual where n: "normalizeSignature (x # sg) = Some actual"
    by (auto simp: int_verify_def denied_def split: option.splits if_splits)
  from ok s h p n show ?thesis
    by (cases "skewSeconds c") (auto simp: int_verify_def denied_def int_signature_def within_skew_def split: if_splits)
qed

definition guard_cfg :: app_cfg where
  "guard_cfg =
     \<lparr>cfg_str = [''INTEGRATION_AUTH_SECRET'' \<mapsto> ''k''], cfg_bool = [''INTEGRATION_AUTH_ENABLED'' \<mapsto> True],
      cfg_num = (\<lambda>_. None)\<rparr>"

definition guard_request :: int_request where
  "guard_request = signed_request\<lparr>rq_headers :=
     [''x-idmmw-timestamp'' \<mapsto> [nat_digits 1], ''x-idmmw-signature'' \<mapsto> [replicate 64 (CHR ''a'')]]\<rparr>"

theorem integration_guard_witness:
  "int_middleware (demo_digest\<lparr>dg_platform := auth_platform\<rparr>) None guard_cfg 1000 guard_request = Next None \<and>
   (\<exists>ts timestamp. int_header guard_request ''x-idmmw-timestamp'' = Some ts \<and> parseTimestamp ts = Some timestamp \<and>
      \<bar>1000 - timestamp\<bar> \<le> 300 * 1000)"
proof -
  let ?d = "demo_digest\<lparr>dg_platform := auth_platform\<rparr>"
  have req: "int_requiresAuth guard_cfg guard_request"
    by (simp add: int_requiresAuth_def guard_cfg_def guard_request_def signed_request_def int_path_def
        starts_with_def Let_def)
  obtain t0 ts0 where one: "nat_digits 1 = t0 # ts0"
    by (subst (asm) nat_digits.simps) simp
  have ts: "parseTimestamp (nat_digits 1) = Some 1000"
    using number_of_printed_nat [of 1] by (simp add: parseTimestamp_def)
  have sec: "int_secret None guard_cfg = Some ''k''"
    by (simp add: int_secret_def guard_cfg_def trim_def is_ws_def)
  have a: "replicate 64 (CHR ''a'') = CHR ''a'' # replicate 63 (CHR ''a'')"
    by (simp add: numeral_eq_Suc)
  have "trim (replicate 64 (CHR ''a'')) = replicate 64 (CHR ''a'')"
    by (rule trim_no_ws) (simp add: is_ws_def)
  moreover have "to_lower (replicate 64 (CHR ''a'')) = replicate 64 (CHR ''a'')"
    by (simp add: to_lower_def)
  moreover have "\<not> starts_with ''sha256='' (replicate 64 (CHR ''a''))"
    by (simp add: starts_with_def a)
  ultimately have n: "normalizeSignature (replicate 64 (CHR ''a'')) = Some (replicate 64 (CHR ''a''))"
    by (simp add: normalizeSignature_def list_all_iff hex_char_def radix_digit_def)
  have h: "int_header guard_request ''x-idmmw-timestamp'' = Some (nat_digits 1)"
    "int_header guard_request ''x-idmmw-signature'' = Some (replicate 64 (CHR ''a''))"
    by (simp_all add: int_header_def header_def guard_request_def signed_request_def to_lower_def
        http_request.truncate_def)
  have "safeEqualFixedLength (dg_platform ?d) x y p" for x y p
    by (simp add: safeEqualFixedLength_def fixedLengthFingerprint_def hmac_bytes_def auth_platform_def)
  moreover have "cfg_num guard_cfg k = None" for k by (simp add: guard_cfg_def)
  ultimately have "ar_ok (int_verify ?d None guard_cfg 1000 guard_request)"
    using ts n sec h unfolding one a by (simp add: int_verify_def skewSeconds_def)
  then have pass: "int_middleware ?d None guard_cfg 1000 guard_request = Next None"
    by (simp add: int_middleware_def)
  from integration_guard [OF pass req] pass show ?thesis
    by (auto simp: guard_cfg_def within_skew_def skewSeconds_def)
qed

text \<open>
  The guard compares paths with case, which the HTTP router does not. A request whose path
  is a guarded one in another spelling needs no signature, whatever the configuration.
\<close>

theorem respelled_path_is_not_guarded:
  assumes "starts_with ''/webhooks/'' (to_lower (int_path req))"
    and "\<not> starts_with ''/webhooks/'' (int_path req)"
  shows "int_middleware d env c now req = Next None"
proof -
  have "\<not> starts_with p (int_path req)" if "p \<in> {''/idm/'', ''/idm'', ''/metrics''}" for p
  proof
    assume "starts_with p (int_path req)"
    then obtain r where "int_path req = p @ r" by (metis append_take_drop_id starts_with_def)
    with that assms(1) show False by (auto simp: starts_with_def to_lower_def)
  qed
  then have "\<not> starts_with ''/idm/'' (int_path req)" "int_path req \<noteq> ''/idm''" "int_path req \<noteq> ''/metrics''"
    by (force simp: starts_with_def)+
  with assms(2) show ?thesis by (simp add: int_middleware_def int_requiresAuth_def Let_def)
qed

theorem respelled_path_is_not_guarded_witness:
  "int_middleware demo_digest None guard_cfg 0 (signed_request\<lparr>rq_path := ''/Webhooks/avanpost''\<rparr>) = Next None"
  by (rule respelled_path_is_not_guarded)
    (simp_all add: int_path_def signed_request_def starts_with_def to_lower_def)

end
