(* ===== verification/KeyRotation.thy ===== *)
theory KeyRotation
  imports Dlq TargetSystem
begin

text \<open>
  Models \<open>security/encryption-rotation.service.ts\<close>, the job that encrypts all stored values again
  under a new active key, and the check of \<open>database/prisma.service.ts\<close> that decides at startup
  whether the configured keys fit the database.
\<close>

section \<open>The database\<close>

record enc_state =
  es_enabled :: jsval
  es_activeKeyId :: string
  es_previousKeyIds :: string
  es_rotationStatus :: string

record audit_row =
  aud_id :: string
  aud_payload :: jsval
  aud_response :: jsval

text \<open>A row of \<open>LinuxHost\<close>, whose metadata the inventory of Linux hosts stores encrypted (\<open>LinuxFleet\<close>).\<close>

record host_meta =
  hm_id :: string
  hm_metadata :: jsval

text \<open>
  The single row of \<open>EncryptionState\<close>, and the tables that hold encrypted values. The job and the startup check know
  the first three of them; the hosts are in neither.
\<close>

record rot_db =
  enc_row :: "enc_state option"
  audit :: "audit_row list"
  items :: "dlq_row list"
  targets :: "system_row list"
  linux_hosts :: "host_meta list"

text \<open>
  What one run of the job meets: failing calls, fresh initialisation vectors, the number of live
  idempotency keys, the offsets of Kafka, and what others do to the database just before the
  job writes a row. Rows are named by their ids, which are UUIDs.
\<close>

record rot_call =
  ro_now :: nat
  ro_load :: "exn option"
  ro_count :: "exn option"
  ro_liveKeys :: nat
  ro_kafka :: "exn option"
  ro_topicOffsets :: "string \<Rightarrow> (nat \<times> int) list"
  ro_groupOffsets :: "string \<Rightarrow> (nat \<times> int) list"
  ro_mark :: "string \<Rightarrow> exn option"
  ro_read :: "exn option"
  ro_write :: "string \<Rightarrow> exn option"
  ro_iv :: "string \<Rightarrow> string"
  ro_responseIv :: "string \<Rightarrow> string"
  ro_others :: "string \<Rightarrow> rot_db \<Rightarrow> rot_db"

section \<open>The state row\<close>

definition loadState :: "rot_call \<Rightarrow> (enc_state, rot_db) op" where
  "loadState c = sbind (may_fail (ro_load c)) (\<lambda>_ w.
     case enc_row w of
       None \<Rightarrow> raise (JsError ''EncryptionState is missing; enable encryption first'') w
     | Some s \<Rightarrow> ret s w)"

text \<open>\<open>[...new Set([previous, ...parsed])]\<close>; only arrays and texts can be spread.\<close>

definition rot_previousKeyIds :: "platform \<Rightarrow> string \<Rightarrow> string \<Rightarrow> jsval result" where
  "rot_previousKeyIds P previous raw =
     ebind (parse_json P (if raw = [] then ''[]'' else raw)) (\<lambda>v.
       case v of
         Arr xs \<Rightarrow> Inr (Arr (unique (Str previous # xs)))
       | Str s \<Rightarrow> Inr (Arr (unique (Str previous # map (\<lambda>ch. Str [ch]) s)))
       | _ \<Rightarrow> Inl (JsError ''parsed is not iterable''))"

definition markRotation :: "platform \<Rightarrow> rot_call \<Rightarrow> string \<Rightarrow> string \<Rightarrow> string \<Rightarrow> (unit, rot_db) op" where
  "markRotation P c st previous raw =
     sbind (lift_result (rot_previousKeyIds P previous raw)) (\<lambda>ids.
     sbind (may_fail (ro_mark c st)) (\<lambda>_.
     modify (\<lambda>w. w\<lparr>enc_row := map_option
       (\<lambda>s. s\<lparr>es_rotationStatus := st, es_previousKeyIds := json_print P ids\<rparr>) (enc_row w)\<rparr>)))"

definition completeRotation ::
  "platform \<Rightarrow> settings \<Rightarrow> rot_call \<Rightarrow> string \<Rightarrow> string \<Rightarrow> (unit, rot_db) op" where
  "completeRotation P cfg c previous raw =
     sbind (lift_result (rot_previousKeyIds P previous raw)) (\<lambda>ids.
     sbind (lift_result (activeKeyId cfg)) (\<lambda>a.
     sbind (may_fail (ro_mark c ''completed'')) (\<lambda>_.
     modify (\<lambda>w. w\<lparr>enc_row := map_option
       (\<lambda>s. s\<lparr>es_activeKeyId := a, es_previousKeyIds := json_print P ids,
              es_rotationStatus := ''completed''\<rparr>) (enc_row w)\<rparr>))))"

section \<open>No work may be under way\<close>

definition partition_lag :: "(nat \<times> int) list \<Rightarrow> nat \<times> int \<Rightarrow> int" where
  "partition_lag committed_offsets p =
     (let committed = or_else (map_of committed_offsets (fst p)) (- 1) in
      max 0 (snd p - max committed 0))"

definition config_text :: "settings \<Rightarrow> string \<Rightarrow> string \<Rightarrow> string" where
  "config_text cfg k d = (case config_value cfg k of Str s \<Rightarrow> s | _ \<Rightarrow> d)"

definition rotation_topics :: "settings \<Rightarrow> string list" where
  "rotation_topics cfg =
     unique [config_text cfg ''KAFKA_TOPIC_EVENTS_IN'' ''idm.events.in'',
             config_text cfg ''KAFKA_TOPIC_DLQ_RETRY'' ''idm.dlq.retry'']"

definition kafkaLag :: "settings \<Rightarrow> rot_call \<Rightarrow> int result" where
  "kafkaLag cfg c =
     (if \<not> truthy (coalesce (config_value cfg ''KAFKA_ENABLED'') (Bool False)) \<or>
         config_value cfg ''ENCRYPTION_ROTATION_SKIP_KAFKA_LAG_CHECK'' = Str ''true''
      then Inr 0
      else case ro_kafka c of
             Some e \<Rightarrow> Inl e
           | None \<Rightarrow> Inr (sum_list (concat (map
               (\<lambda>t. map (partition_lag (ro_groupOffsets c t)) (ro_topicOffsets c t))
               (rotation_topics cfg)))))"

definition active_items :: "rot_db \<Rightarrow> nat" where
  "active_items w = length (filter (\<lambda>r. status r \<in> {''pending'', ''retrying''}) (items w))"

definition blockers :: "nat \<Rightarrow> nat \<Rightarrow> int \<Rightarrow> string list" where
  "blockers dlqActive idempotencyActive lag =
     (if dlqActive > 0 then [''DLQ pending/retrying='' @ nat_digits dlqActive] else []) @
     (if idempotencyActive > 0 then [''active idempotency keys='' @ nat_digits idempotencyActive] else []) @
     (if lag > 0 then [''Kafka lag='' @ nat_digits (nat lag)] else [])"

definition assertNoActiveProcessing :: "settings \<Rightarrow> rot_call \<Rightarrow> (unit, rot_db) op" where
  "assertNoActiveProcessing cfg c =
     sbind (may_fail (ro_count c)) (\<lambda>_ w.
     sbind (lift_result (kafkaLag cfg c)) (\<lambda>lag.
       let bs = blockers (active_items w) (ro_liveKeys c) lag in
       if bs \<noteq> []
       then raise (JsError (''Cannot rotate encryption key while processing is active: '' @ join_with '', '' bs))
       else ret ()) w)"

section \<open>Encrypting the rows again\<close>

definition reencrypt :: "platform \<Rightarrow> settings \<Rightarrow> string \<Rightarrow> jsval \<Rightarrow> jsval result" where
  "reencrypt P cfg iv v = ebind (fromJson P cfg v) (toJson P cfg iv)"

text \<open>An update of one row of a table; other writers may come first, and the row may be gone.\<close>

definition write_row ::
  "rot_call \<Rightarrow> string \<Rightarrow> (rot_db \<Rightarrow> string set) \<Rightarrow> (rot_db \<Rightarrow> rot_db) \<Rightarrow> (unit, rot_db) op" where
  "write_row c i ids f =
     sbind (modify (ro_others c i)) (\<lambda>_.
     sbind (may_fail (ro_write c i)) (\<lambda>_ w.
       if i \<notin> ids w then raise (PrismaError ''P2025'' ''Record to update not found.'') w
       else modify f w))"

definition set_audit :: "string \<Rightarrow> jsval \<Rightarrow> jsval \<Rightarrow> rot_db \<Rightarrow> rot_db" where
  "set_audit i p r w =
     w\<lparr>audit := map (\<lambda>x. if aud_id x = i then x\<lparr>aud_payload := p, aud_response := r\<rparr> else x) (audit w)\<rparr>"

definition set_item :: "string \<Rightarrow> jsval \<Rightarrow> rot_db \<Rightarrow> rot_db" where
  "set_item i p w =
     w\<lparr>items := map (\<lambda>x. if row_id x = i then x\<lparr>row_payload := p\<rparr> else x) (items w)\<rparr>"

text \<open>An update of a target system also sets its time of change, which the registry watches.\<close>

definition set_target :: "nat \<Rightarrow> string \<Rightarrow> jsval \<Rightarrow> rot_db \<Rightarrow> rot_db" where
  "set_target now i p w =
     w\<lparr>targets := map (\<lambda>x. if sys_id x = i then x\<lparr>ts_config := p, ts_updatedAt := now\<rparr> else x) (targets w)\<rparr>"

definition rotate_audit_row :: "platform \<Rightarrow> settings \<Rightarrow> rot_call \<Rightarrow> audit_row \<Rightarrow> (unit, rot_db) op" where
  "rotate_audit_row P cfg c row =
     sbind (lift_result (reencrypt P cfg (ro_iv c (aud_id row)) (aud_payload row))) (\<lambda>p.
     sbind (lift_result (if aud_response row = Null then Inr Null
              else reencrypt P cfg (ro_responseIv c (aud_id row)) (aud_response row))) (\<lambda>r.
     write_row c (aud_id row) (\<lambda>w. aud_id ` set (audit w)) (set_audit (aud_id row) p r)))"

definition rotate_item :: "platform \<Rightarrow> settings \<Rightarrow> rot_call \<Rightarrow> dlq_row \<Rightarrow> (unit, rot_db) op" where
  "rotate_item P cfg c row =
     sbind (lift_result (reencrypt P cfg (ro_iv c (row_id row)) (row_payload row))) (\<lambda>p.
     write_row c (row_id row) (\<lambda>w. row_id ` set (items w)) (set_item (row_id row) p))"

definition rotate_target :: "platform \<Rightarrow> settings \<Rightarrow> rot_call \<Rightarrow> system_row \<Rightarrow> (unit, rot_db) op" where
  "rotate_target P cfg c row =
     sbind (lift_result (reencrypt P cfg (ro_iv c (sys_id row)) (ts_config row))) (\<lambda>p.
     write_row c (sys_id row) (\<lambda>w. sys_id ` set (targets w)) (set_target (ro_now c) (sys_id row) p))"

fun for_rows :: "('r \<Rightarrow> (unit, 'w) op) \<Rightarrow> 'r list \<Rightarrow> (unit, 'w) op" where
  "for_rows f [] = ret ()"
| "for_rows f (r # rs) = sbind (f r) (\<lambda>_. for_rows f rs)"

text \<open>The rows are read once, before the first of them is written.\<close>

definition rotateAuditLogs :: "platform \<Rightarrow> settings \<Rightarrow> rot_call \<Rightarrow> (unit, rot_db) op" where
  "rotateAuditLogs P cfg c = sbind (may_fail (ro_read c)) (\<lambda>_ w. for_rows (rotate_audit_row P cfg c) (audit w) w)"

definition rotateDlqItems :: "platform \<Rightarrow> settings \<Rightarrow> rot_call \<Rightarrow> (unit, rot_db) op" where
  "rotateDlqItems P cfg c = sbind (may_fail (ro_read c)) (\<lambda>_ w. for_rows (rotate_item P cfg c) (items w) w)"

definition rotateTargetSystems :: "platform \<Rightarrow> settings \<Rightarrow> rot_call \<Rightarrow> (unit, rot_db) op" where
  "rotateTargetSystems P cfg c = sbind (may_fail (ro_read c)) (\<lambda>_ w. for_rows (rotate_target P cfg c) (targets w) w)"

definition rotate_all :: "platform \<Rightarrow> settings \<Rightarrow> rot_call \<Rightarrow> (unit, rot_db) op" where
  "rotate_all P cfg c =
     sbind (rotateAuditLogs P cfg c) (\<lambda>_. sbind (rotateDlqItems P cfg c) (\<lambda>_. rotateTargetSystems P cfg c))"

definition rotateToActiveKey :: "platform \<Rightarrow> settings \<Rightarrow> rot_call \<Rightarrow> (unit, rot_db) op" where
  "rotateToActiveKey P cfg c =
     (if \<not> encryption_isEnabled cfg
      then raise (JsError ''ENCRYPTION_ENABLED=true is required for key rotation'')
      else sbind (lift_result (validateConfiguration P cfg)) (\<lambda>_.
        sbind (loadState c) (\<lambda>state.
        sbind (lift_result (activeKeyId cfg)) (\<lambda>nextKeyId.
        if es_activeKeyId state = nextKeyId then ret ()
        else sbind (assertNoActiveProcessing cfg c) (\<lambda>_.
          sbind (markRotation P c ''running'' (es_activeKeyId state) (es_previousKeyIds state)) (\<lambda>_.
          catch_op
            (sbind (rotate_all P cfg c) (\<lambda>_.
             completeRotation P cfg c (es_activeKeyId state) (es_previousKeyIds state)))
            (\<lambda>error. sbind (markRotation P c ''failed'' (es_activeKeyId state) (es_previousKeyIds state))
               (\<lambda>_. raise error))))))))"

section \<open>The check at startup\<close>

text \<open>What the queries of the startup check meet.\<close>

record startup_call =
  sc_load :: "exn option"
  sc_count :: "exn option"
  sc_liveKeys :: nat
  sc_create :: "exn option"

definition toBoolean :: "jsval \<Rightarrow> bool" where
  "toBoolean v \<longleftrightarrow> v = Bool True \<or> v = num 1"

definition isMissingEncryptionStateTable :: "exn \<Rightarrow> bool" where
  "isMissingEncryptionStateTable error =
     (let msg = exn_message error in
      str_includes ''EncryptionState'' msg \<and>
      (str_includes ''does not exist'' msg \<or> str_includes ''no such table'' msg \<or>
       str_includes ''UndefinedTable'' msg))"

definition loadEncryptionState :: "bool \<Rightarrow> startup_call \<Rightarrow> (enc_state option, rot_db) op" where
  "loadEncryptionState required c w =
     (case sc_load c of
        None \<Rightarrow> ret (enc_row w) w
      | Some error \<Rightarrow>
          if isMissingEncryptionStateTable error \<and> \<not> required then ret None w
          else if isMissingEncryptionStateTable error \<and> required
          then raise (JsError ''ENCRYPTION_ENABLED=true requires the EncryptionState migration to be applied'') w
          else raise error w)"

definition nonempty_tables :: "startup_call \<Rightarrow> rot_db \<Rightarrow> string list" where
  "nonempty_tables c w =
     map (\<lambda>(name, n). name @ ''='' @ nat_digits n)
       (filter (\<lambda>(_, n). n > 0)
         [(''AuditLog'', length (audit w)), (''DlqItem'', length (items w)),
          (''TargetSystem'', length (targets w)), (''IdempotencyKey'', sc_liveKeys c)])"

definition ensureStrictlyEmptyForEncryption :: "startup_call \<Rightarrow> (unit, rot_db) op" where
  "ensureStrictlyEmptyForEncryption c =
     sbind (may_fail (sc_count c)) (\<lambda>_ w.
       if nonempty_tables c w \<noteq> []
       then raise (JsError (''Cannot enable encryption on a non-empty system: '' @
              join_with '', '' (nonempty_tables c w))) w
       else ret () w)"

definition createEncryptionState :: "startup_call \<Rightarrow> string \<Rightarrow> (unit, rot_db) op" where
  "createEncryptionState c a =
     sbind (may_fail (sc_create c)) (\<lambda>_. modify (\<lambda>w. w\<lparr>enc_row := Some
       \<lparr>es_enabled = Bool True, es_activeKeyId = a, es_previousKeyIds = ''[]'', es_rotationStatus = ''completed''\<rparr>\<rparr>))"

definition check_state :: "platform \<Rightarrow> settings \<Rightarrow> string \<Rightarrow> enc_state \<Rightarrow> unit result" where
  "check_state P cfg activeKey s =
     (if \<not> toBoolean (es_enabled s)
      then Inl (JsError ''Encryption state exists but is disabled; refusing encrypted startup'')
      else ebind (keyring P cfg) (\<lambda>ring.
        if es_activeKeyId s \<notin> fst ` set ring
        then Inl (JsError (''Database encryption key '' @ quoted (es_activeKeyId s) @ '' is not present in runtime keyring''))
        else if es_activeKeyId s \<noteq> activeKey \<and> \<not> isRotationMode cfg
        then Inl (JsError (''Encryption active key mismatch: database uses '' @ quoted (es_activeKeyId s) @
               '', runtime uses '' @ quoted activeKey @ ''. Run key rotation before normal startup.''))
        else Inr ()))"

definition validateEncryptionState :: "platform \<Rightarrow> settings \<Rightarrow> startup_call \<Rightarrow> (unit, rot_db) op" where
  "validateEncryptionState P cfg c =
     (let enabled = encryption_isEnabled cfg in
      sbind (lift_result (if enabled then validateConfiguration P cfg else Inr ())) (\<lambda>_.
      sbind (loadEncryptionState enabled c) (\<lambda>state.
      if \<not> enabled
      then (case state of
              Some s \<Rightarrow> if toBoolean (es_enabled s)
                then raise (JsError ''Encryption is enabled in database state, but ENCRYPTION_ENABLED is not true'')
                else ret ()
            | None \<Rightarrow> ret ())
      else sbind (lift_result (activeKeyId cfg)) (\<lambda>a.
        case state of
          None \<Rightarrow> sbind (ensureStrictlyEmptyForEncryption c) (\<lambda>_. createEncryptionState c a)
        | Some s \<Rightarrow> lift_result (check_state P cfg a s)))))"

section \<open>What one value becomes\<close>

text \<open>A stored value that is an envelope under key \<open>a\<close>.\<close>

definition sealed_with :: "platform \<Rightarrow> settings \<Rightarrow> string \<Rightarrow> jsval \<Rightarrow> bool" where
  "sealed_with P cfg a v \<longleftrightarrow> (\<exists>iv tag ct. let env = Obj (envelope a iv tag ct) in
     v = (if sqlite cfg then Str (json_print P env) else env))"

text \<open>The laws of the primitives: what was sealed opens, and the text of an envelope is read back.\<close>

definition seals :: "platform \<Rightarrow> settings \<Rightarrow> bool" where
  "seals P cfg \<longleftrightarrow>
     (\<forall>k iv pt. gcm_open P k iv (fst (gcm_seal P k iv pt)) (snd (gcm_seal P k iv pt)) = Some pt) \<and>
     (sqlite cfg \<longrightarrow> (\<forall>a iv tag ct. json_parse P (json_print P (Obj (envelope a iv tag ct))) =
        Some (Obj (envelope a iv tag ct))))"

definition prints :: "platform \<Rightarrow> settings \<Rightarrow> jsval \<Rightarrow> bool" where
  "prints P cfg v \<longleftrightarrow> (\<forall>x. fromJson P cfg v = Inr x \<longrightarrow> json_parse P (json_print P x) = Some x)"

lemma reencrypt_reads:
  assumes "reencrypt P cfg iv v = Inr v'" "encryption_isEnabled cfg" "seals P cfg" "prints P cfg v"
    and "activeKeyId cfg = Inr a" "requireKey P cfg2 a = requireKey P cfg a" "sqlite cfg2 = sqlite cfg"
  shows "fromJson P cfg2 v' = fromJson P cfg v \<and> sealed_with P cfg a v'"
proof -
  obtain x where x: "fromJson P cfg v = Inr x" "toJson P cfg iv x = Inr v'"
    using assms(1) by (auto simp: reencrypt_def ebind_Inr_iff)
  obtain env where enc: "encryptObject P cfg iv x = Inr env"
    and v': "v' = (if sqlite cfg then Str (json_print P env) else env)"
    using x(2) assms(2) by (auto simp: toJson_def encryptForStorage_def ebind_Inr_iff)
  obtain tag ct where env: "env = Obj (envelope a iv tag ct)"
    using enc assms(5) by (auto simp: encryptObject_Inr)
  have "decryptFromStorage P cfg2 env = Inr x"
    by (rule decrypt_encrypted [OF enc]) (use assms x in \<open>auto simp: seals_def prints_def\<close>)
  then have "fromJson P cfg2 v' = Inr x"
    using assms(3,7) by (auto simp: v' fromJson_def parse_json_def seals_def env)
  then show ?thesis using x v' env by (auto simp: sealed_with_def Let_def)
qed

section \<open>What a reader of the database sees\<close>

text \<open>The values in the three tables of the job, and those of the hosts.\<close>

definition see_audit :: "platform \<Rightarrow> settings \<Rightarrow> audit_row \<Rightarrow> string \<times> jsval result \<times> jsval result" where
  "see_audit P cfg r = (aud_id r, fromJson P cfg (aud_payload r), fromJson P cfg (aud_response r))"

definition see_item :: "platform \<Rightarrow> settings \<Rightarrow> dlq_row \<Rightarrow> string \<times> jsval result" where
  "see_item P cfg r = (row_id r, fromJson P cfg (row_payload r))"

definition see_target :: "platform \<Rightarrow> settings \<Rightarrow> system_row \<Rightarrow> string \<times> jsval result" where
  "see_target P cfg r = (sys_id r, fromJson P cfg (ts_config r))"

definition sees ::
  "platform \<Rightarrow> settings \<Rightarrow> rot_db \<Rightarrow>
   (string \<times> jsval result \<times> jsval result) list \<times> (string \<times> jsval result) list \<times> (string \<times> jsval result) list" where
  "sees P cfg w =
     (map (see_audit P cfg) (audit w), map (see_item P cfg) (items w), map (see_target P cfg) (targets w))"

definition sees_hosts :: "platform \<Rightarrow> settings \<Rightarrow> rot_db \<Rightarrow> (string \<times> jsval result) list" where
  "sees_hosts P cfg w = map (\<lambda>h. (hm_id h, fromJson P cfg (hm_metadata h))) (linux_hosts w)"

definition wf_rot :: "rot_db \<Rightarrow> bool" where
  "wf_rot w \<longleftrightarrow> distinct (map aud_id (audit w)) \<and> distinct (map row_id (items w)) \<and> distinct (map sys_id (targets w))"

definition printable :: "platform \<Rightarrow> settings \<Rightarrow> rot_db \<Rightarrow> bool" where
  "printable P cfg w \<longleftrightarrow>
     (\<forall>r \<in> set (audit w). prints P cfg (aud_payload r) \<and> prints P cfg (aud_response r)) \<and>
     (\<forall>r \<in> set (items w). prints P cfg (row_payload r)) \<and>
     (\<forall>r \<in> set (targets w). prints P cfg (ts_config r))"

lemma same_key_same_row:
  assumes "map vw rows = map vw rows0" "distinct (map k rows)" "\<And>x. fst (vw x) = k x"
    and "x \<in> set rows" "row \<in> set rows0" "k x = k row"
  shows "vw x = vw row"
proof -
  have "vw row \<in> set (map vw rows)" using assms(1,5) by simp
  then obtain y where y: "y \<in> set rows" "vw y = vw row" by auto
  then have "k y = k x" using assms(3,6) by metis
  with assms(2,4) y show ?thesis by (metis distinct_map inj_onD)
qed

lemma update_keeps_view:
  assumes "map vw rows = map vw rows0" "distinct (map k rows)" "\<And>x. fst (vw x) = k x"
    and "row \<in> set rows0" and "\<And>x. x \<in> set rows \<Longrightarrow> k x = k row \<Longrightarrow> vw (f x) = vw row"
  shows "map vw (map (\<lambda>x. if k x = k row then f x else x) rows) = map vw rows0"
proof -
  have "vw (if k x = k row then f x else x) = vw x" if "x \<in> set rows" for x
    using same_key_same_row [OF assms(1-3) that assms(4)] assms(5) that by auto
  then have "map (vw \<circ> (\<lambda>x. if k x = k row then f x else x)) rows = map vw rows"
    by (intro map_cong refl) (simp only: o_def)
  then show ?thesis using assms(1) by simp
qed

lemma ids_of_view: "sees P cfg w = sees P cfg w0 \<Longrightarrow> wf_rot w0 \<Longrightarrow> wf_rot w"
proof -
  have *: "map fst (map (see_audit P cfg) xs) = map aud_id xs" "map fst (map (see_item P cfg) ys) = map row_id ys"
    "map fst (map (see_target P cfg) zs) = map sys_id zs" for xs ys zs
    by (simp_all add: see_audit_def see_item_def see_target_def o_def)
  assume "sees P cfg w = sees P cfg w0" "wf_rot w0"
  then show "wf_rot w"
    unfolding wf_rot_def sees_def prod.inject * [symmetric] by (simp only: HOL.simp_thms)
qed

lemma printable_view: "sees P cfg w = sees P cfg w0 \<Longrightarrow> printable P cfg w0 \<Longrightarrow> printable P cfg w"
proof -
  define ok where "ok = (\<lambda>r :: jsval result. \<forall>x. r = Inr x \<longrightarrow> json_parse P (json_print P x) = Some x)"
  have *: "printable P cfg w \<longleftrightarrow>
     (\<forall>e \<in> set (map (see_audit P cfg) (audit w)). ok (fst (snd e)) \<and> ok (snd (snd e))) \<and>
     (\<forall>e \<in> set (map (see_item P cfg) (items w)). ok (snd e)) \<and>
     (\<forall>e \<in> set (map (see_target P cfg) (targets w)). ok (snd e))" for w
    by (simp add: printable_def prints_def ok_def see_audit_def see_item_def see_target_def)
  assume "sees P cfg w = sees P cfg w0" "printable P cfg w0"
  then show "printable P cfg w" unfolding * sees_def prod.inject by (simp only: HOL.simp_thms)
qed

section \<open>Every step keeps the view\<close>

definition quiet :: "rot_call \<Rightarrow> bool" where
  "quiet c \<longleftrightarrow> (\<forall>i w. ro_others c i w = w)"

lemma write_row_run:
  "quiet c \<Longrightarrow> write_row c i ids f w =
     (case ro_write c i of
        Some e \<Rightarrow> (Inl e, w)
      | None \<Rightarrow> if i \<notin> ids w then (Inl (PrismaError ''P2025'' ''Record to update not found.''), w) else (Inr (), f w))"
  by (cases "ro_write c i") (simp_all add: write_row_def quiet_def)

lemma write_row_keeps:
  assumes "quiet c" "\<And>w. I w \<Longrightarrow> I (f w)"
  shows "preserves I (write_row c i ids f)"
  using assms(2) by (auto simp: preserves_def write_row_run [OF assms(1)] split: option.splits if_splits)

lemma for_rows_keeps: "(\<And>r. r \<in> set rs \<Longrightarrow> preserves I (f r)) \<Longrightarrow> preserves I (for_rows f rs)"
  by (induction rs) (auto intro: preserve_intros)

lemma reencrypt_same:
  assumes "reencrypt P cfg iv v = Inr v'" "encryption_isEnabled cfg" "seals P cfg" "prints P cfg v"
  shows "fromJson P cfg v' = fromJson P cfg v"
proof -
  obtain a where "activeKeyId cfg = Inr a"
    using assms(1,2) by (auto simp: reencrypt_def toJson_def encryptForStorage_def ebind_Inr_iff encryptObject_Inr)
  then show ?thesis using reencrypt_reads [OF assms _ refl refl] by blast
qed

lemma rotate_target_sees:
  assumes "row \<in> set (targets w0)" "wf_rot w0" "printable P cfg w0" "encryption_isEnabled cfg" "seals P cfg" "quiet c"
  shows "preserves (\<lambda>w. sees P cfg w = sees P cfg w0) (rotate_target P cfg c row)"
  unfolding rotate_target_def
proof (intro preserves_sbind_lift write_row_keeps assms(6))
  fix p w assume p: "reencrypt P cfg (ro_iv c (sys_id row)) (ts_config row) = Inr p"
    and w: "sees P cfg w = sees P cfg w0"
  have "prints P cfg (ts_config row)" using assms(1,3) by (simp add: printable_def)
  from reencrypt_same [OF p assms(4,5) this] have "fromJson P cfg p = fromJson P cfg (ts_config row)" .
  moreover have "distinct (map sys_id (targets w))" using ids_of_view [OF w assms(2)] by (simp add: wf_rot_def)
  ultimately have "map (see_target P cfg) (map (\<lambda>x. if sys_id x = sys_id row
      then x\<lparr>ts_config := p, ts_updatedAt := ro_now c\<rparr> else x) (targets w)) = map (see_target P cfg) (targets w0)"
    using w assms(1) by (intro update_keeps_view) (auto simp: sees_def see_target_def)
  then show "sees P cfg (set_target (ro_now c) (sys_id row) p w) = sees P cfg w0"
    using w by (simp add: sees_def set_target_def)
qed

lemma rotate_item_sees:
  assumes "row \<in> set (items w0)" "wf_rot w0" "printable P cfg w0" "encryption_isEnabled cfg" "seals P cfg" "quiet c"
  shows "preserves (\<lambda>w. sees P cfg w = sees P cfg w0) (rotate_item P cfg c row)"
  unfolding rotate_item_def
proof (intro preserves_sbind_lift write_row_keeps assms(6))
  fix p w assume p: "reencrypt P cfg (ro_iv c (row_id row)) (row_payload row) = Inr p"
    and w: "sees P cfg w = sees P cfg w0"
  have "prints P cfg (row_payload row)" using assms(1,3) by (simp add: printable_def)
  from reencrypt_same [OF p assms(4,5) this] have "fromJson P cfg p = fromJson P cfg (row_payload row)" .
  moreover have "distinct (map row_id (items w))" using ids_of_view [OF w assms(2)] by (simp add: wf_rot_def)
  ultimately have "map (see_item P cfg) (map (\<lambda>x. if row_id x = row_id row
      then x\<lparr>row_payload := p\<rparr> else x) (items w)) = map (see_item P cfg) (items w0)"
    using w assms(1) by (intro update_keeps_view) (auto simp: sees_def see_item_def)
  then show "sees P cfg (set_item (row_id row) p w) = sees P cfg w0"
    using w by (simp add: sees_def set_item_def)
qed

lemma rotate_audit_sees:
  assumes "row \<in> set (audit w0)" "wf_rot w0" "printable P cfg w0" "encryption_isEnabled cfg" "seals P cfg" "quiet c"
  shows "preserves (\<lambda>w. sees P cfg w = sees P cfg w0) (rotate_audit_row P cfg c row)"
  unfolding rotate_audit_row_def
proof (intro preserves_sbind_lift write_row_keeps assms(6))
  fix p r w assume p: "reencrypt P cfg (ro_iv c (aud_id row)) (aud_payload row) = Inr p"
    and r: "(if aud_response row = Null then Inr Null
       else reencrypt P cfg (ro_responseIv c (aud_id row)) (aud_response row)) = Inr r"
    and w: "sees P cfg w = sees P cfg w0"
  have pr: "prints P cfg (aud_payload row)" "prints P cfg (aud_response row)"
    using assms(1,3) by (simp_all add: printable_def)
  from reencrypt_same [OF p assms(4,5) pr(1)] have fp: "fromJson P cfg p = fromJson P cfg (aud_payload row)" .
  have fr: "fromJson P cfg r = fromJson P cfg (aud_response row)"
    using r reencrypt_same [OF _ assms(4,5) pr(2)] by (auto split: if_splits)
  have "distinct (map aud_id (audit w))" using ids_of_view [OF w assms(2)] by (simp add: wf_rot_def)
  then have "map (see_audit P cfg) (map (\<lambda>x. if aud_id x = aud_id row
      then x\<lparr>aud_payload := p, aud_response := r\<rparr> else x) (audit w)) = map (see_audit P cfg) (audit w0)"
    using w assms(1) fp fr by (intro update_keeps_view) (auto simp: sees_def see_audit_def)
  then show "sees P cfg (set_audit (aud_id row) p r w) = sees P cfg w0"
    using w by (simp add: sees_def set_audit_def)
qed

lemma table_keeps:
  assumes "\<And>w r. sees P cfg w = V \<Longrightarrow> r \<in> set (rows w) \<Longrightarrow> preserves (\<lambda>v. sees P cfg v = sees P cfg w) (f r)"
  shows "preserves (\<lambda>w. sees P cfg w = V) (\<lambda>w. for_rows f (rows w) w)"
  unfolding preserves_def
proof (intro allI impI)
  fix w x w' assume w: "sees P cfg w = V" and run: "for_rows f (rows w) w = (x, w')"
  have "preserves (\<lambda>v. sees P cfg v = sees P cfg w) (for_rows f (rows w))"
    by (intro for_rows_keeps assms w)
  from preservesD [OF this run] w show "sees P cfg w' = V" by simp
qed

lemma rotate_all_sees:
  assumes "wf_rot w0" "printable P cfg w0" "encryption_isEnabled cfg" "seals P cfg" "quiet c"
  shows "preserves (\<lambda>w. sees P cfg w = sees P cfg w0) (rotate_all P cfg c)"
proof -
  have same: "wf_rot w" "printable P cfg w" if "sees P cfg w = sees P cfg w0" for w
    using that ids_of_view printable_view assms(1,2) by blast+
  have "preserves (\<lambda>w. sees P cfg w = sees P cfg w0) (\<lambda>w. for_rows (rotate_audit_row P cfg c) (audit w) w)"
    by (rule table_keeps, rule rotate_audit_sees) (simp_all add: same assms(3-5))
  moreover have "preserves (\<lambda>w. sees P cfg w = sees P cfg w0) (\<lambda>w. for_rows (rotate_item P cfg c) (items w) w)"
    by (rule table_keeps, rule rotate_item_sees) (simp_all add: same assms(3-5))
  moreover have "preserves (\<lambda>w. sees P cfg w = sees P cfg w0) (\<lambda>w. for_rows (rotate_target P cfg c) (targets w) w)"
    by (rule table_keeps, rule rotate_target_sees) (simp_all add: same assms(3-5))
  ultimately show ?thesis
    unfolding rotate_all_def rotateAuditLogs_def rotateDlqItems_def rotateTargetSystems_def
    by (intro preserve_intros)
qed

lemma sees_same_tables:
  "audit w' = audit w \<Longrightarrow> items w' = items w \<Longrightarrow> targets w' = targets w \<Longrightarrow> sees P cfg w' = sees P cfg w"
  by (simp add: sees_def)

lemma state_keeps:
  "preserves (\<lambda>w. sees P cfg w = V) (markRotation P' c st previous raw)"
  "preserves (\<lambda>w. sees P cfg w = V) (completeRotation P' cfg' c previous raw)"
  "preserves (\<lambda>w. sees P cfg w = V) (loadState c)"
  "preserves (\<lambda>w. sees P cfg w = V) (assertNoActiveProcessing cfg' c)"
proof -
  show "preserves (\<lambda>w. sees P cfg w = V) (markRotation P' c st previous raw)"
    "preserves (\<lambda>w. sees P cfg w = V) (completeRotation P' cfg' c previous raw)"
    unfolding markRotation_def completeRotation_def
    by (intro preserve_intros; simp add: sees_def)+
  show "preserves (\<lambda>w. sees P cfg w = V) (loadState c)"
    unfolding loadState_def by (intro preserve_intros) (auto simp: preserves_def split: option.splits)
  show "preserves (\<lambda>w. sees P cfg w = V) (assertNoActiveProcessing cfg' c)"
    unfolding assertNoActiveProcessing_def
    by (intro preserve_intros) (auto simp: preserves_def sbind_def Let_def split: sum.splits if_splits)
qed

lemma rotation_sees:
  assumes "wf_rot w" "printable P cfg w" "seals P cfg" "quiet c"
  shows "sees P cfg (snd (rotateToActiveKey P cfg c w)) = sees P cfg w"
proof (cases "encryption_isEnabled cfg")
  case True
  have "preserves (\<lambda>v. sees P cfg v = sees P cfg w) (rotateToActiveKey P cfg c)"
    unfolding rotateToActiveKey_def
    by (intro preserve_intros state_keeps rotate_all_sees assms True)
  from preserves_snd [OF this, of w] show ?thesis by simp
qed (simp add: rotateToActiveKey_def)

section \<open>A finished run has sealed everything\<close>

definition sealed_response :: "platform \<Rightarrow> settings \<Rightarrow> string \<Rightarrow> jsval \<Rightarrow> bool" where
  "sealed_response P cfg a v \<longleftrightarrow> v = Null \<or> sealed_with P cfg a v"

text \<open>The rows whose ids are in the given sets are sealed under key \<open>a\<close>.\<close>

definition sealed_rows ::
  "platform \<Rightarrow> settings \<Rightarrow> string \<Rightarrow> string set \<Rightarrow> string set \<Rightarrow> string set \<Rightarrow> rot_db \<Rightarrow> bool" where
  "sealed_rows P cfg a A I T w \<longleftrightarrow>
     (\<forall>x \<in> set (audit w). aud_id x \<in> A \<longrightarrow> sealed_with P cfg a (aud_payload x) \<and> sealed_response P cfg a (aud_response x)) \<and>
     (\<forall>x \<in> set (items w). row_id x \<in> I \<longrightarrow> sealed_with P cfg a (row_payload x)) \<and>
     (\<forall>x \<in> set (targets w). sys_id x \<in> T \<longrightarrow> sealed_with P cfg a (ts_config x))"

lemma sealed_withI:
  "v = (if sqlite cfg then Str (json_print P (Obj (envelope a iv tag ct))) else Obj (envelope a iv tag ct)) \<Longrightarrow>
   sealed_with P cfg a v"
  unfolding sealed_with_def Let_def by blast

lemma reencrypt_seals:
  assumes "reencrypt P cfg iv v = Inr v'" "encryption_isEnabled cfg" "activeKeyId cfg = Inr a"
  shows "sealed_with P cfg a v'"
proof -
  obtain x env where "encryptObject P cfg iv x = Inr env"
    and v': "v' = (if sqlite cfg then Str (json_print P env) else env)"
    using assms(1,2) by (auto simp: reencrypt_def toJson_def encryptForStorage_def ebind_Inr_iff)
  then obtain tag ct where "env = Obj (envelope a iv tag ct)"
    using assms(3) by (auto simp: encryptObject_Inr)
  with v' have "v' = (if sqlite cfg then Str (json_print P (Obj (envelope a iv tag ct)))
      else Obj (envelope a iv tag ct))" by simp
  then show ?thesis by (rule sealed_withI)
qed

lemma write_row_Inr:
  "quiet c \<Longrightarrow> write_row c i ids f w = (Inr u, w') \<Longrightarrow> w' = f w"
  by (auto simp: write_row_run split: option.splits if_splits)

lemma seal_target:
  assumes "rotate_target P cfg c row w = (Inr u, w')" "sealed_rows P cfg a A I T w"
    and "encryption_isEnabled cfg" "activeKeyId cfg = Inr a" "quiet c"
  shows "sealed_rows P cfg a A I (insert (sys_id row) T) w'"
  using assms
  by (auto simp: rotate_target_def sbind_Inr_iff sealed_rows_def set_target_def
      dest!: write_row_Inr reencrypt_seals)

lemma seal_item:
  assumes "rotate_item P cfg c row w = (Inr u, w')" "sealed_rows P cfg a A I T w"
    and "encryption_isEnabled cfg" "activeKeyId cfg = Inr a" "quiet c"
  shows "sealed_rows P cfg a A (insert (row_id row) I) T w'"
  using assms
  by (auto simp: rotate_item_def sbind_Inr_iff sealed_rows_def set_item_def
      dest!: write_row_Inr reencrypt_seals)

lemma seal_audit:
  assumes "rotate_audit_row P cfg c row w = (Inr u, w')" "sealed_rows P cfg a A I T w"
    and "encryption_isEnabled cfg" "activeKeyId cfg = Inr a" "quiet c"
  shows "sealed_rows P cfg a (insert (aud_id row) A) I T w'"
  using assms
  by (auto simp: rotate_audit_row_def sbind_Inr_iff sealed_rows_def set_audit_def sealed_response_def
      dest!: write_row_Inr reencrypt_seals split: if_splits)

lemma for_rows_reach:
  assumes "for_rows f rs w = (Inr u, w')" "R S w"
    and "\<And>r S w w'. f r w = (Inr (), w') \<Longrightarrow> R S w \<Longrightarrow> R (insert (k r) S) w'"
  shows "R (k ` set rs \<union> S) w'"
  using assms(1,2)
proof (induction rs arbitrary: w S)
  case (Cons r rs)
  from Cons.prems(1) obtain w1 where r: "f r w = (Inr (), w1)" and rs: "for_rows f rs w1 = (Inr u, w')"
    by (auto simp: sbind_Inr_iff)
  from Cons.IH [OF rs assms(3) [OF r Cons.prems(2)]] show ?case by (simp add: Un_left_commute insert_commute Un_insert_right)
qed simp

lemma ids_sets:
  assumes "sees P cfg w = sees P cfg w0"
  shows "aud_id ` set (audit w) = aud_id ` set (audit w0)" "row_id ` set (items w) = row_id ` set (items w0)"
    "sys_id ` set (targets w) = sys_id ` set (targets w0)"
proof -
  have *: "aud_id ` set (audit w) = fst ` set (map (see_audit P cfg) (audit w))"
    "row_id ` set (items w) = fst ` set (map (see_item P cfg) (items w))"
    "sys_id ` set (targets w) = fst ` set (map (see_target P cfg) (targets w))" for w
    by (simp_all add: see_audit_def see_item_def see_target_def image_image)
  show "aud_id ` set (audit w) = aud_id ` set (audit w0)" "row_id ` set (items w) = row_id ` set (items w0)"
    "sys_id ` set (targets w) = sys_id ` set (targets w0)"
    using assms unfolding * sees_def prod.inject by (simp_all only: HOL.simp_thms)
qed

lemma rotate_all_seals:
  assumes "rotate_all P cfg c w = (Inr u, w')"
    and "wf_rot w" "printable P cfg w" "encryption_isEnabled cfg" "seals P cfg" "quiet c" "activeKeyId cfg = Inr a"
  shows "sealed_rows P cfg a (aud_id ` set (audit w')) (row_id ` set (items w')) (sys_id ` set (targets w')) w'"
proof -
  obtain w1 w2 where 1: "for_rows (rotate_audit_row P cfg c) (audit w) w = (Inr (), w1)"
    and 2: "for_rows (rotate_item P cfg c) (items w1) w1 = (Inr (), w2)"
    and 3: "for_rows (rotate_target P cfg c) (targets w2) w2 = (Inr u, w')"
    using assms(1)
    by (auto simp: rotate_all_def rotateAuditLogs_def rotateDlqItems_def rotateTargetSystems_def sbind_Inr_iff may_fail_iff)
  have "sealed_rows P cfg a {} {} {} w" by (simp add: sealed_rows_def)
  then have s1: "sealed_rows P cfg a (aud_id ` set (audit w) \<union> {}) {} {} w1"
    by (rule for_rows_reach [OF 1, where R = "\<lambda>A. sealed_rows P cfg a A {} {}"]) (rule seal_audit [OF _ _ assms(4,7,6)])
  then have s2: "sealed_rows P cfg a (aud_id ` set (audit w)) (row_id ` set (items w1) \<union> {}) {} w2"
    by (intro for_rows_reach [OF 2, where R = "\<lambda>I. sealed_rows P cfg a (aud_id ` set (audit w)) I {}"])
      (simp, rule seal_item [OF _ _ assms(4,7,6)])
  then have s3: "sealed_rows P cfg a (aud_id ` set (audit w)) (row_id ` set (items w1)) (sys_id ` set (targets w2) \<union> {}) w'"
    by (intro for_rows_reach [OF 3, where R = "\<lambda>T. sealed_rows P cfg a (aud_id ` set (audit w)) (row_id ` set (items w1)) T"])
      (simp, rule seal_target [OF _ _ assms(4,7,6)])
  have keep: "sees P cfg v' = sees P cfg v"
    if "for_rows g rs v = (x, v')" "\<And>r. r \<in> set rs \<Longrightarrow> preserves (\<lambda>u. sees P cfg u = sees P cfg v) (g r)"
    for g rs v v' x
    using preservesD [OF for_rows_keeps [OF that(2)] that(1)] by simp
  have v1: "sees P cfg w1 = sees P cfg w"
    by (rule keep [OF 1]) (rule rotate_audit_sees, assumption, use assms in simp_all)
  have v2: "sees P cfg w2 = sees P cfg w1"
    by (rule keep [OF 2]) (rule rotate_item_sees, assumption,
        use assms ids_of_view [OF v1] printable_view [OF v1] in simp_all)
  have v12: "sees P cfg w2 = sees P cfg w" using v1 v2 by simp
  have v3: "sees P cfg w' = sees P cfg w2"
    by (rule keep [OF 3]) (rule rotate_target_sees, assumption,
        use assms ids_of_view [OF v12] printable_view [OF v12] in simp_all)
  show ?thesis
    using s3 ids_sets [OF v1] ids_sets [OF v2] ids_sets [OF v3] by simp
qed

lemma sealed_reads:
  assumes "sealed_with P cfg a v" "seals P cfg" "requireKey P cfg2 a = requireKey P cfg a" "sqlite cfg2 = sqlite cfg"
  shows "fromJson P cfg2 v = fromJson P cfg v"
  using assms
  by (auto simp: sealed_with_def Let_def fromJson_def seals_def parse_json_def decryptFromStorage_def nullish_def
      decryptObject_def)

lemma sealed_rows_read:
  assumes "sealed_rows P cfg a (aud_id ` set (audit w)) (row_id ` set (items w)) (sys_id ` set (targets w)) w"
    and "seals P cfg" "requireKey P cfg2 a = requireKey P cfg a" "sqlite cfg2 = sqlite cfg"
  shows "sees P cfg2 w = sees P cfg w"
proof -
  have n: "fromJson P cfg2 Null = fromJson P cfg Null" by (simp add: fromJson_def)
  show ?thesis
    using assms(1) sealed_reads [OF _ assms(2-4)] n
    by (auto simp: sealed_rows_def sees_def see_audit_def see_item_def see_target_def sealed_response_def)
qed

text \<open>The writes to the rows leave the state row alone.\<close>

lemma set_keeps_state [simp]:
  "enc_row (set_audit i p r w) = enc_row w" "enc_row (set_item i p w) = enc_row w"
  "enc_row (set_target now i p w) = enc_row w"
  "linux_hosts (set_audit i p r w) = linux_hosts w" "linux_hosts (set_item i p w) = linux_hosts w"
  "linux_hosts (set_target now i p w) = linux_hosts w"
  by (simp_all add: set_audit_def set_item_def set_target_def)

lemma rotate_all_keeps:
  assumes "quiet c" "\<And>i p r w. I w \<Longrightarrow> I (set_audit i p r w)" "\<And>i p w. I w \<Longrightarrow> I (set_item i p w)"
    and "\<And>now i p w. I w \<Longrightarrow> I (set_target now i p w)"
  shows "preserves I (rotate_all P cfg c)"
proof -
  have row: "preserves I (rotate_audit_row P cfg c ra)" "preserves I (rotate_item P cfg c ri)"
    "preserves I (rotate_target P cfg c rt)" for ra ri rt
    unfolding rotate_audit_row_def rotate_item_def rotate_target_def
    by (intro preserves_sbind_lift write_row_keeps assms; assumption)+
  have loop: "preserves I (\<lambda>w. for_rows f (rows w) w)"
    if "\<And>r. preserves I (f r)" for f :: "'r \<Rightarrow> (unit, rot_db) op" and rows
    using for_rows_keeps [of _ I f] that unfolding preserves_def by blast
  show ?thesis
    unfolding rotate_all_def rotateAuditLogs_def rotateDlqItems_def rotateTargetSystems_def
    by (intro preserve_intros loop row)
qed

lemma rotate_all_state: "quiet c \<Longrightarrow> preserves (\<lambda>w. enc_row w = s) (rotate_all P cfg c)"
  by (rule rotate_all_keeps) simp_all

text \<open>The hosts are not touched.\<close>

lemma rotation_hosts:
  assumes "quiet c"
  shows "linux_hosts (snd (rotateToActiveKey P cfg c w)) = linux_hosts w"
proof -
  let ?I = "\<lambda>v. linux_hosts v = linux_hosts w"
  have mark: "preserves ?I (markRotation P c st previous raw)" "preserves ?I (completeRotation P cfg c previous raw)" for st previous raw
    unfolding markRotation_def completeRotation_def by (intro preserve_intros; simp)+
  have load: "preserves ?I (loadState c)"
    unfolding loadState_def by (intro preserve_intros) (auto simp: preserves_def split: option.splits)
  have check: "preserves ?I (assertNoActiveProcessing cfg c)"
    unfolding assertNoActiveProcessing_def
    by (intro preserve_intros) (auto simp: preserves_def sbind_def Let_def split: sum.splits if_splits)
  have "preserves ?I (rotate_all P cfg c)" by (rule rotate_all_keeps [OF assms]) simp_all
  then have "preserves ?I (rotateToActiveKey P cfg c)"
    unfolding rotateToActiveKey_def by (intro preserve_intros mark load check)
  from preserves_snd [OF this, of w] show ?thesis by simp
qed

text \<open>What holds when an operation has thrown.\<close>

definition thrown_keeps :: "('w \<Rightarrow> bool) \<Rightarrow> ('a, 'w) op \<Rightarrow> bool" where
  "thrown_keeps I m \<longleftrightarrow> (\<forall>w e w'. I w \<longrightarrow> m w = (Inl e, w') \<longrightarrow> I w')"

lemma thrown_keeps_rules:
  "preserves I m \<Longrightarrow> thrown_keeps I m"
  "preserves I m \<Longrightarrow> (\<And>a. thrown_keeps I (f a)) \<Longrightarrow> thrown_keeps I (sbind m f)"
  "thrown_keeps I m \<Longrightarrow> (\<And>e. preserves I (h e)) \<Longrightarrow> thrown_keeps I (catch_op m h)"
  "thrown_keeps I a \<Longrightarrow> thrown_keeps I b \<Longrightarrow> thrown_keeps I (if q then a else b)"
proof -
  show "thrown_keeps I m" if "preserves I m" using that by (auto simp: thrown_keeps_def preserves_def)
  show "thrown_keeps I (sbind m f)" if "preserves I m" "\<And>a. thrown_keeps I (f a)"
    using that unfolding thrown_keeps_def by (auto simp: sbind_Inl_iff dest: preservesD)
  show "thrown_keeps I (catch_op m h)" if "thrown_keeps I m" "\<And>e. preserves I (h e)"
    unfolding thrown_keeps_def
  proof (intro allI impI)
    fix w e w' assume I: "I w" and run: "catch_op m h w = (Inl e, w')"
    obtain e' w1 where "m w = (Inl e', w1)" "h e' w1 = (Inl e, w')"
      using run by (auto simp: catch_op_def split: prod.splits sum.splits)
    then show "I w'" using that I unfolding thrown_keeps_def by (blast dest: preservesD)
  qed
qed simp

lemma failed_run_keeps_key:
  assumes "quiet c" "rotateToActiveKey P cfg c w = (Inl e, w')" "enc_row w = Some s"
  shows "\<exists>s'. enc_row w' = Some s' \<and> es_activeKeyId s' = es_activeKeyId s \<and> es_enabled s' = es_enabled s"
proof -
  define I where "I = (\<lambda>w :: rot_db. \<exists>s'. enc_row w = Some s' \<and> es_activeKeyId s' = es_activeKeyId s \<and>
    es_enabled s' = es_enabled s)"
  have all: "preserves I (rotate_all P cfg c)"
    using preservesD [OF rotate_all_state [OF assms(1)]] unfolding preserves_def I_def by blast
  have mark: "preserves I (markRotation P c st p raw)" for st p raw
    unfolding markRotation_def by (intro preserve_intros) (auto simp: I_def)
  have check: "preserves I (assertNoActiveProcessing cfg c)"
    unfolding assertNoActiveProcessing_def
    by (intro preserve_intros) (auto simp: preserves_def sbind_def Let_def split: sum.splits if_splits)
  have load: "preserves I (loadState c)"
    unfolding loadState_def by (intro preserve_intros) (auto simp: preserves_def split: option.splits)
  have complete: "thrown_keeps I (completeRotation P cfg c p raw)" for p raw
    by (cases "rot_previousKeyIds P p raw"; cases "activeKeyId cfg"; cases "ro_mark c ''completed''";
        simp add: completeRotation_def thrown_keeps_def)
  have "thrown_keeps I (rotateToActiveKey P cfg c)"
    unfolding rotateToActiveKey_def
    by (intro thrown_keeps_rules(2-4) thrown_keeps_rules(1) [OF preserves_basic(1)] thrown_keeps_rules(1) [OF preserves_basic(2)]
        preserves_basic preserves_sbind all mark check load complete)
  then show ?thesis using assms(2,3) unfolding thrown_keeps_def I_def by blast
qed

text \<open>All rows are sealed under key \<open>a\<close>, and the state row says so.\<close>

definition rotated :: "platform \<Rightarrow> settings \<Rightarrow> string \<Rightarrow> rot_db \<Rightarrow> bool" where
  "rotated P cfg a w \<longleftrightarrow>
     sealed_rows P cfg a (aud_id ` set (audit w)) (row_id ` set (items w)) (sys_id ` set (targets w)) w \<and>
     (\<exists>s. enc_row w = Some s \<and> es_activeKeyId s = a \<and> es_rotationStatus s = ''completed'')"

text \<open>The job run again and again, with what each run returned.\<close>

fun rotation_runs :: "platform \<Rightarrow> settings \<Rightarrow> rot_call list \<Rightarrow> rot_db \<Rightarrow> unit result list \<times> rot_db" where
  "rotation_runs P cfg [] w = ([], w)"
| "rotation_runs P cfg (c # cs) w =
     (let (r, w1) = rotateToActiveKey P cfg c w; (rs, w2) = rotation_runs P cfg cs w1 in (r # rs, w2))"

lemma catch_Inr_iff:
  "catch_op m h w = (Inr b, w'') \<longleftrightarrow>
     m w = (Inr b, w'') \<or> (\<exists>e w'. m w = (Inl e, w') \<and> h e w' = (Inr b, w''))"
  by (auto simp: catch_op_def split: prod.splits sum.splits)

lemma rotation_runs_step:
  assumes "rotateToActiveKey P cfg c w = (r, w1)"
  shows "fst (rotation_runs P cfg (c # cs) w) = r # fst (rotation_runs P cfg cs w1)"
    "snd (rotation_runs P cfg (c # cs) w) = snd (rotation_runs P cfg cs w1)"
  using assms by (simp_all add: case_prod_beta Let_def)

lemma runs_hosts:
  assumes "\<And>c. c \<in> set cs \<Longrightarrow> quiet c"
  shows "linux_hosts (snd (rotation_runs P cfg cs w)) = linux_hosts w"
  using assms
proof (induction cs arbitrary: w)
  case (Cons c cs)
  obtain r w1 where run: "rotateToActiveKey P cfg c w = (r, w1)" by (cases "rotateToActiveKey P cfg c w")
  have "linux_hosts w1 = linux_hosts w" using rotation_hosts [of c P cfg w] Cons.prems run by simp
  moreover have "linux_hosts (snd (rotation_runs P cfg cs w1)) = linux_hosts w1" by (rule Cons.IH) (simp add: Cons.prems)
  ultimately show ?case by (simp only: rotation_runs_step(2) [OF run])
qed simp

lemma successful_run:
  assumes "rotateToActiveKey P cfg c w = (Inr u, w')" "enc_row w = Some s" "es_activeKeyId s \<noteq> a"
    and "activeKeyId cfg = Inr a" "quiet c" "wf_rot w" "printable P cfg w" "seals P cfg"
  shows "rotated P cfg a w'"
proof -
  have en: "encryption_isEnabled cfg" using assms(1) by (auto simp: rotateToActiveKey_def split: if_splits)
  have load: "loadState c w = (Inr s', v) \<Longrightarrow> s' = s \<and> v = w" for s' v
    using assms(2) by (auto simp: loadState_def sbind_Inr_iff may_fail_iff)
  have check: "assertNoActiveProcessing cfg c w = (Inr u', v) \<Longrightarrow> v = w" for u' v
    by (auto simp: assertNoActiveProcessing_def sbind_Inr_iff may_fail_iff Let_def lift_result_def split: if_splits)
  obtain w1 w2 where mark: "markRotation P c ''running'' (es_activeKeyId s) (es_previousKeyIds s) w = (Inr (), w1)"
    and all: "rotate_all P cfg c w1 = (Inr (), w2)"
    and complete: "completeRotation P cfg c (es_activeKeyId s) (es_previousKeyIds s) w2 = (Inr (), w')"
    using assms(1,3,4) en
    by (auto simp: rotateToActiveKey_def sbind_Inr_iff lift_result_def catch_Inr_iff raise_def dest!: load check)
  have v1: "sees P cfg w1 = sees P cfg w" by (rule preservesD [OF state_keeps(1) mark refl])
  have w1: "wf_rot w1" "printable P cfg w1"
    using ids_of_view [OF v1 assms(6)] printable_view [OF v1 assms(7)] by simp_all
  have sealed: "sealed_rows P cfg a (aud_id ` set (audit w2)) (row_id ` set (items w2)) (sys_id ` set (targets w2)) w2"
    by (rule rotate_all_seals [OF all w1 en assms(8,5,4)])
  have "enc_row w1 \<noteq> None" using mark assms(2) by (auto simp: markRotation_def sbind_Inr_iff may_fail_iff modify_def)
  then have "enc_row w2 \<noteq> None" using preservesD [OF rotate_all_state [OF assms(5)] all refl] by simp
  then have "audit w' = audit w2 \<and> items w' = items w2 \<and> targets w' = targets w2 \<and>
      (\<exists>s'. enc_row w' = Some s' \<and> es_activeKeyId s' = a \<and> es_rotationStatus s' = ''completed'')"
    using complete assms(4) by (auto simp: completeRotation_def sbind_Inr_iff may_fail_iff modify_def)
  then show ?thesis using sealed by (simp add: rotated_def sealed_rows_def)
qed

lemma finished_run_stays:
  assumes "rotated P cfg a w" "activeKeyId cfg = Inr a"
  shows "snd (rotateToActiveKey P cfg c w) = w"
proof -
  obtain s where s: "enc_row w = Some s" "es_activeKeyId s = a" using assms(1) by (auto simp: rotated_def)
  then show ?thesis
    using assms(2)
    by (cases "validateConfiguration P cfg"; cases "ro_load c")
      (simp_all add: rotateToActiveKey_def loadState_def sbind_run(2) sbind_def)
qed

lemma runs_rotate:
  assumes "enc_row w = Some s" "es_activeKeyId s \<noteq> a" "Inr () \<in> set (fst (rotation_runs P cfg cs w))"
    and "activeKeyId cfg = Inr a" "\<And>c. c \<in> set cs \<Longrightarrow> quiet c"
    and "wf_rot w" "printable P cfg w" "seals P cfg"
  shows "rotated P cfg a (snd (rotation_runs P cfg cs w)) \<and> sees P cfg (snd (rotation_runs P cfg cs w)) = sees P cfg w"
  using assms(1-3,5-7)
proof (induction cs arbitrary: w s)
  case (Cons c cs)
  have c: "quiet c" and cs: "\<And>c. c \<in> set cs \<Longrightarrow> quiet c" using Cons.prems(4) by simp_all
  obtain r w1 where run: "rotateToActiveKey P cfg c w = (r, w1)" by (cases "rotateToActiveKey P cfg c w")
  have v1: "sees P cfg w1 = sees P cfg w"
    using rotation_sees [OF Cons.prems(5,6) assms(8) c] run by simp
  show ?case
  proof (cases r)
    case (Inl e)
    from failed_run_keeps_key [OF c, of P cfg w e w1 s] run Inl Cons.prems(1,2)
    obtain s1 where s1: "enc_row w1 = Some s1" "es_activeKeyId s1 \<noteq> a" by auto
    have "Inr () \<in> set (fst (rotation_runs P cfg cs w1))"
      using Cons.prems(3) rotation_runs_step(1) [OF run] Inl by simp
    from Cons.IH [OF s1 this cs ids_of_view [OF v1 Cons.prems(5)] printable_view [OF v1 Cons.prems(6)]] v1 run
    show ?thesis by (simp only: rotation_runs_step(2) [OF run])
  next
    case (Inr u)
    from successful_run [OF run [unfolded Inr] Cons.prems(1,2) assms(4) c Cons.prems(5,6) assms(8)]
    have done1: "rotated P cfg a w1" .
    have "snd (rotation_runs P cfg cs w1) = w1"
      using finished_run_stays [OF done1 assms(4)] by (induction cs) (simp_all add: case_prod_beta Let_def)
    then show ?thesis using done1 v1 by (simp only: rotation_runs_step(2) [OF run])
  qed
qed simp

section \<open>Starting up\<close>

lemma startup_Inr:
  assumes "validateEncryptionState P cfg c w = (Inr u, w')" "encryption_isEnabled cfg" "enc_row w = Some s"
  shows "w' = w \<and> (\<exists>a ring. activeKeyId cfg = Inr a \<and> keyring P cfg = Inr ring \<and> es_activeKeyId s \<in> fst ` set ring \<and>
    (es_activeKeyId s = a \<or> isRotationMode cfg))"
proof -
  have load: "loadEncryptionState True c w = (Inr st, v) \<Longrightarrow> st = Some s \<and> v = w" for st v
    using assms(3) by (auto simp: loadEncryptionState_def split: option.splits if_splits)
  obtain a where "activeKeyId cfg = Inr a" "check_state P cfg a s = Inr u" "w' = w"
    using assms(1,2)
    by (auto simp: validateEncryptionState_def sbind_Inr_iff lift_result_def dest!: load)
  then show ?thesis by (auto simp: check_state_def ebind_Inr_iff split: if_splits)
qed

lemma startup_same_state:
  assumes "validateEncryptionState P cfg c w = (Inr u, w)" "enc_row w = Some s" "enc_row w2 = Some s2"
    and "es_activeKeyId s2 = es_activeKeyId s" "es_enabled s2 = es_enabled s"
  shows "validateEncryptionState P cfg c w2 = (Inr u, w2)"
proof -
  have check: "check_state P cfg a s2 = check_state P cfg a s" for a
    unfolding check_state_def assms(4,5) by (rule refl)
  show ?thesis
    using assms
    by (cases "validateConfiguration P cfg"; cases "activeKeyId cfg")
      (auto simp: validateEncryptionState_def Let_def sbind_def loadEncryptionState_def lift_result_def check
        split: option.splits if_splits sum.splits prod.splits)
qed

lemma rotated_reads:
  "rotated P cfg a w \<Longrightarrow> seals P cfg \<Longrightarrow> requireKey P cfg2 a = requireKey P cfg a \<Longrightarrow> sqlite cfg2 = sqlite cfg \<Longrightarrow>
   sees P cfg2 w = sees P cfg w"
  unfolding rotated_def by (rule sealed_rows_read) simp_all

lemma ring_has_key:
  assumes "keyring P cfg = Inr ring" "a \<in> fst ` set ring"
  shows "\<exists>k. requireKey P cfg a = Inr k"
proof -
  obtain k where "map_of ring a = Some k" using assms(2) by (metis map_of_eq_None_iff not_None_eq)
  then show ?thesis using assms(1) by (simp add: requireKey_def)
qed

section \<open>Properties\<close>

text \<open>
  C24: a key rotation that runs alone loses nothing, wherever it stops: after any run, finished, refused or broken
  off by a failing query between any two rows, a reader with the same keys decrypts from every row, those of the
  three tables of the job and those of the hosts, the value that was there before. The hypotheses are the laws of the
  cipher and of JSON, unique ids, and that nobody else writes while the job runs (\<open>quiet\<close>); without the last one the
  statement fails, as the theorem below shows.
\<close>

theorem rotation_loses_nothing:
  assumes "wf_rot w" "printable P cfg w" "seals P cfg" "quiet c"
  shows "sees P cfg (snd (rotateToActiveKey P cfg c w)) = sees P cfg w \<and>
    sees_hosts P cfg (snd (rotateToActiveKey P cfg c w)) = sees_hosts P cfg w"
  using rotation_sees [OF assms] rotation_hosts [OF assms(4)] by (simp add: sees_hosts_def)

lemma set_target_hit:
  assumes "x \<in> set (targets w)" "sys_id x = i"
  shows "x\<lparr>ts_config := p, ts_updatedAt := n\<rparr> \<in> set (targets (set_target n i p w))"
proof -
  let ?f = "\<lambda>x. if sys_id x = i then x\<lparr>ts_config := p, ts_updatedAt := n\<rparr> else x"
  have "?f x \<in> set (map ?f (targets w))" unfolding set_map using assms(1) by (rule imageI)
  then show ?thesis unfolding set_target_def by (simp only: assms(2) if_True) simp
qed

text \<open>
  What an administrator writes to a target system between the reading of the table and the writing of its row is
  overwritten with the configuration that the job has read.
\<close>

theorem concurrent_change_is_overwritten:
  assumes "reencrypt P cfg (ro_iv c (sys_id row)) (ts_config row) = Inr p"
    and "ro_others c (sys_id row) = set_target n (sys_id row) changed" "ro_write c (sys_id row) = None"
    and "x \<in> set (targets w)" "sys_id x = sys_id row"
  shows "\<exists>y \<in> set (targets (snd (rotate_target P cfg c row w))). sys_id y = sys_id row \<and> ts_config y = p"
proof -
  let ?w1 = "set_target n (sys_id row) changed w" and ?x = "x\<lparr>ts_config := changed, ts_updatedAt := n\<rparr>"
  have x: "?x \<in> set (targets ?w1)" using assms(4,5) by (rule set_target_hit)
  then have "sys_id row \<in> sys_id ` set (targets ?w1)" using assms(5) by (intro image_eqI [of _ _ ?x]) simp_all
  then have "snd (rotate_target P cfg c row w) = set_target (ro_now c) (sys_id row) p ?w1"
    using assms(1-3) by (simp add: rotate_target_def write_row_def sbind_def)
  moreover have "?x\<lparr>ts_config := p, ts_updatedAt := ro_now c\<rparr> \<in> set (targets (set_target (ro_now c) (sys_id row) p ?w1))"
    by (rule set_target_hit [OF x]) (simp add: assms(5))
  ultimately show ?thesis using assms(5) by (intro bexI) simp_all
qed

text \<open>
  C23: a rotation may be started again until it succeeds. If one of any number of runs, during which nobody else
  writes, returns, every payload and response of the audit table, every payload of the dead-letter table and every
  configuration of a target system is sealed under the active key, the state row names that key and says completed,
  and any later configuration that has the same material for this one key reads in these three tables all the values
  that were there before the first run. The metadata of the hosts stay as they were, sealed under whatever key.
\<close>

theorem retried_rotation_retires_old_keys:
  assumes "enc_row w = Some s" "es_activeKeyId s \<noteq> a" "activeKeyId cfg = Inr a"
    and "Inr () \<in> set (fst (rotation_runs P cfg cs w))" "\<And>c. c \<in> set cs \<Longrightarrow> quiet c"
    and "wf_rot w" "printable P cfg w" "seals P cfg"
    and "requireKey P cfg' a = requireKey P cfg a" "sqlite cfg' = sqlite cfg"
  shows "rotated P cfg a (snd (rotation_runs P cfg cs w)) \<and>
    sees P cfg' (snd (rotation_runs P cfg cs w)) = sees P cfg w \<and>
    linux_hosts (snd (rotation_runs P cfg cs w)) = linux_hosts w"
proof -
  from runs_rotate [OF assms(1,2,4,3,5-8)] have r: "rotated P cfg a (snd (rotation_runs P cfg cs w))"
    and v: "sees P cfg (snd (rotation_runs P cfg cs w)) = sees P cfg w" by simp_all
  from r have "sees P cfg' (snd (rotation_runs P cfg cs w)) = sees P cfg (snd (rotation_runs P cfg cs w))"
    by (rule rotated_reads [OF _ assms(8-10)])
  with r v runs_hosts [OF assms(5)] show ?thesis by simp
qed

text \<open>
  So the old key must be kept for the hosts: once it is gone, the metadata of a host that were stored under it cannot
  be read any more, however many rotations have succeeded.
\<close>

theorem retired_key_loses_host_metadata:
  assumes "h \<in> set (linux_hosts w)" "sealed_with P cfg former (hm_metadata h)" "seals P cfg" "\<And>c. c \<in> set cs \<Longrightarrow> quiet c"
    and "requireKey P cfg' former = Inl e" "sqlite cfg' = sqlite cfg"
  shows "\<exists>e'. (hm_id h, Inl e') \<in> set (sees_hosts P cfg' (snd (rotation_runs P cfg cs w)))"
proof -
  have "\<exists>e'. fromJson P cfg' (hm_metadata h) = Inl e'"
    using assms(2,3,5,6)
    by (auto simp: sealed_with_def Let_def fromJson_def seals_def parse_json_def decryptFromStorage_def nullish_def
        decryptObject_def)
  with assms(1) runs_hosts [OF assms(4), where P = P and cfg = cfg and w = w] show ?thesis by (force simp: sees_hosts_def)
qed

text \<open>
  The startup check catches a missing key: if the process starts with encryption on over a
  database that a rotation to key \<open>a\<close> has finished, its key ring has a key of that name, it
  writes under the same key or is in rotation mode, and, when the key of a name never changes,
  it reads every value.
\<close>

theorem startup_reads_rotated_database:
  assumes "validateEncryptionState P cfg' sc w = (Inr u, w')" "encryption_isEnabled cfg'"
    and "rotated P cfg a w" "seals P cfg" "sqlite cfg' = sqlite cfg"
    and "\<And>k. requireKey P cfg' a = Inr k \<Longrightarrow> requireKey P cfg a = Inr k"
  shows "w' = w \<and> (activeKeyId cfg' = Inr a \<or> isRotationMode cfg') \<and> sees P cfg' w' = sees P cfg w"
proof -
  obtain s where s: "enc_row w = Some s" "es_activeKeyId s = a" using assms(3) by (auto simp: rotated_def)
  from startup_Inr [OF assms(1,2) s(1)] s(2) obtain ring where w': "w' = w" and ring: "keyring P cfg' = Inr ring" "a \<in> fst ` set ring"
    and mode: "activeKeyId cfg' = Inr a \<or> isRotationMode cfg'" by auto
  from ring_has_key [OF ring] assms(6) have "requireKey P cfg' a = requireKey P cfg a" by auto
  then have "sees P cfg' w = sees P cfg w"
    by (rule rotated_reads [OF assms(3,4) _ assms(5)])
  with w' mode show ?thesis by simp
qed

text \<open>
  The startup check does not notice an interrupted rotation. It reads \<open>rotationStatus\<close>
  but decides by the enabled flag and the active key alone, which a failed run leaves as they
  were: a process that could start before the run starts after it, also when its key ring lacks
  the new key, under which some of the rows are sealed by then.
\<close>

theorem startup_ignores_interrupted_rotation:
  assumes "validateEncryptionState P cfg' sc w = (Inr u, w)" "enc_row w = Some s"
    and "rotateToActiveKey P cfg c w = (Inl e, w')" "quiet c"
  shows "validateEncryptionState P cfg' sc w' = (Inr u, w')"
proof -
  from failed_run_keeps_key [OF assms(4,3,2)] obtain s' where "enc_row w' = Some s'"
    "es_activeKeyId s' = es_activeKeyId s" "es_enabled s' = es_enabled s" by blast
  from startup_same_state [OF assms(1,2) this] show ?thesis .
qed

section \<open>Witnesses\<close>

definition rot_platform :: platform where
  "rot_platform = demo_platform\<lparr>
     json_print := (\<lambda>v. if v = Str ''x'' then ''X'' else if v = Null then ''N'' else ''E''),
     json_parse := (\<lambda>s. if s = ''X'' then Some (Str ''x'') else if s = ''N'' then Some Null else Some (Arr []))\<rparr>"

definition rot_demo_call :: "(string \<Rightarrow> exn option) \<Rightarrow> rot_call" where
  "rot_demo_call fails =
     \<lparr>ro_now = 5, ro_load = None, ro_count = None, ro_liveKeys = 0, ro_kafka = None,
      ro_topicOffsets = (\<lambda>_. []), ro_groupOffsets = (\<lambda>_. []), ro_mark = (\<lambda>_. None), ro_read = None,
      ro_write = fails, ro_iv = (\<lambda>_. ''iv''), ro_responseIv = (\<lambda>_. ''iv''), ro_others = (\<lambda>_ w. w)\<rparr>"

definition rot_demo_target :: "string \<Rightarrow> system_row" where
  "rot_demo_target i =
     \<lparr>ts_name = i, ts_type = ''fake'', ts_config = Str ''x'', ts_enabled = True, ts_updatedAt = 1,
      sys_id = i, sys_label = i, sys_createdAt = 1\<rparr>"

definition rot_demo_db :: rot_db where
  "rot_demo_db =
     \<lparr>enc_row = Some \<lparr>es_enabled = Bool True, es_activeKeyId = ''k1'', es_previousKeyIds = [], es_rotationStatus = ''completed''\<rparr>,
      audit = [\<lparr>aud_id = ''a1'', aud_payload = Str ''x'', aud_response = Null\<rparr>], items = [],
      targets = [rot_demo_target ''t1'', rot_demo_target ''t2''],
      linux_hosts = [\<lparr>hm_id = ''h1'', hm_metadata = Str ''x''\<rparr>]\<rparr>"

lemma rot_demo_facts:
  "encryption_isEnabled (demo_settings ''k2'')" "activeKeyId (demo_settings ''k2'') = Inr ''k2''"
  "sqlite (demo_settings k) = False"
  "activeKeyId (demo_settings ''k1'') = Inr ''k1''" "encryption_isEnabled (demo_settings ''k1'')"
  "validateConfiguration P (demo_settings ''k2'') = Inr ()"
  "validateConfiguration P (demo_settings ''k1'') = Inr ()"
  "requireKey P (demo_settings k) ''k1'' = Inr (replicate 32 (CHR ''a''))"
  "requireKey P (demo_settings k) ''k2'' = Inr (replicate 32 (CHR ''a''))"
proof -
  show flags: "encryption_isEnabled (demo_settings ''k2'')" "activeKeyId (demo_settings ''k2'') = Inr ''k2''"
    "sqlite (demo_settings k) = False"
    "activeKeyId (demo_settings ''k1'') = Inr ''k1''" "encryption_isEnabled (demo_settings ''k1'')"
    by (simp_all add: encryption_isEnabled_def readFlag_def readString_def readText_def demo_settings_def activeKeyId_def)
  show "validateConfiguration P (demo_settings ''k2'') = Inr ()" "validateConfiguration P (demo_settings ''k1'') = Inr ()"
    "requireKey P (demo_settings k) ''k1'' = Inr (replicate 32 (CHR ''a''))"
    "requireKey P (demo_settings k) ''k2'' = Inr (replicate 32 (CHR ''a''))"
    by (simp_all add: validateConfiguration_def flags demo_keyring requireKey_def demo_ring_def guard_exn_def)
qed

lemma rot_demo_ok: "seals rot_platform (demo_settings k)" "printable rot_platform (demo_settings k) rot_demo_db"
  "wf_rot rot_demo_db" "quiet (rot_demo_call f)"
  by (simp_all add: seals_def rot_demo_facts rot_platform_def demo_platform_def printable_def rot_demo_db_def prints_def
      fromJson_def decryptFromStorage_def isEnvelope_def nullish_def rot_demo_target_def wf_rot_def quiet_def rot_demo_call_def)

text \<open>What the demo values become, and a run that breaks off at the second target system.\<close>

definition rot_demo_fail :: "string \<Rightarrow> exn option" where
  "rot_demo_fail i = (if i = ''t2'' then Some (PrismaError ''P1001'' ''gone'') else None)"

definition rot_sealed :: jsval where
  "rot_sealed = Obj (envelope ''k2'' ''iv'' ''tag'' ''X'')"

lemma rot_demo_values:
  "fromJson rot_platform (demo_settings k) (Str ''x'') = Inr (Str ''x'')"
  "toJson rot_platform (demo_settings ''k2'') ''iv'' (Str ''x'') = Inr rot_sealed"
  "reencrypt rot_platform (demo_settings ''k2'') ''iv'' (Str ''x'') = Inr rot_sealed"
  "rot_previousKeyIds rot_platform ''k1'' [] = Inr (Arr [Str ''k1''])"
  "rot_previousKeyIds rot_platform ''k1'' ''E'' = Inr (Arr [Str ''k1''])"
  "kafkaLag (demo_settings k) (rot_demo_call f) = Inr 0"
  by (simp_all add: fromJson_def rot_demo_facts decryptFromStorage_def nullish_def isEnvelope_def toJson_def
      encryptForStorage_def encryptObject_def rot_platform_def demo_platform_def rot_sealed_def reencrypt_def
      rot_previousKeyIds_def parse_json_def unique_def kafkaLag_def)
    (simp_all add: demo_settings_def coalesce_def nullish_def)

definition rot_done_db :: "string \<Rightarrow> rot_db" where
  "rot_done_db st = rot_demo_db\<lparr>enc_row := Some \<lparr>es_enabled = Bool True,
       es_activeKeyId = (if st = ''completed'' then ''k2'' else ''k1''), es_previousKeyIds = ''E'', es_rotationStatus = st\<rparr>,
     audit := [\<lparr>aud_id = ''a1'', aud_payload = rot_sealed, aud_response = Null\<rparr>],
     targets := (rot_demo_target ''t1'')\<lparr>ts_config := rot_sealed, ts_updatedAt := 5\<rparr> #
       (if st = ''completed'' then [(rot_demo_target ''t2'')\<lparr>ts_config := rot_sealed, ts_updatedAt := 5\<rparr>]
        else [rot_demo_target ''t2''])\<rparr>"

lemma rot_demo_mark:
  "markRotation rot_platform (rot_demo_call f) st ''k1'' [] w =
     (Inr (), w\<lparr>enc_row := map_option (\<lambda>s. s\<lparr>es_rotationStatus := st, es_previousKeyIds := ''E''\<rparr>) (enc_row w)\<rparr>)"
  "markRotation rot_platform (rot_demo_call f) st ''k1'' ''E'' w =
     (Inr (), w\<lparr>enc_row := map_option (\<lambda>s. s\<lparr>es_rotationStatus := st, es_previousKeyIds := ''E''\<rparr>) (enc_row w)\<rparr>)"
  "completeRotation rot_platform (demo_settings ''k2'') (rot_demo_call f) ''k1'' ''E'' w =
     (Inr (), w\<lparr>enc_row := map_option (\<lambda>s. s\<lparr>es_activeKeyId := ''k2'', es_previousKeyIds := ''E'',
        es_rotationStatus := ''completed''\<rparr>) (enc_row w)\<rparr>)"
  unfolding markRotation_def completeRotation_def rot_demo_values rot_demo_facts
  by (simp_all add: rot_demo_call_def) (simp_all add: rot_platform_def)

lemma rot_demo_reseal: "reencrypt rot_platform (demo_settings ''k2'') ''iv'' rot_sealed = Inr rot_sealed"
proof -
  have "fromJson rot_platform (demo_settings ''k2'') rot_sealed = Inr (Str ''x'')"
    using reencrypt_same [OF rot_demo_values(3) rot_demo_facts(1) rot_demo_ok(1)] rot_demo_values(1)
    by (simp add: prints_def rot_platform_def)
  then show ?thesis using rot_demo_values(2) by (simp add: reencrypt_def)
qed

lemma rot_demo_pass:
  "active_items w = 0 \<Longrightarrow> assertNoActiveProcessing (demo_settings ''k2'') (rot_demo_call f) w = (Inr (), w)"
  by (simp add: assertNoActiveProcessing_def rot_demo_values blockers_def Let_def) (simp add: rot_demo_call_def)

lemma rot_demo_rows:
  "v \<in> {Str ''x'', rot_sealed} \<Longrightarrow> reencrypt rot_platform (demo_settings ''k2'') (ro_iv (rot_demo_call f) i) v = Inr rot_sealed"
  by (auto simp: rot_demo_call_def rot_demo_reseal rot_demo_values)

lemmas rot_demo_run = rotate_all_def rotateAuditLogs_def rotateDlqItems_def rotateTargetSystems_def rotate_audit_row_def
  rotate_target_def rot_demo_rows write_row_run rot_demo_ok(4) set_audit_def set_target_def

lemma rot_demo_all:
  "rotate_all rot_platform (demo_settings ''k2'') (rot_demo_call rot_demo_fail)
     (rot_demo_db\<lparr>enc_row := e\<rparr>) = (Inl (PrismaError ''P1001'' ''gone''), rot_done_db ''failed''\<lparr>enc_row := e\<rparr>)"
  "rotate_all rot_platform (demo_settings ''k2'') (rot_demo_call (\<lambda>_. None))
     (rot_done_db ''failed''\<lparr>enc_row := e\<rparr>) = (Inr (), rot_done_db ''completed''\<lparr>enc_row := e\<rparr>)"
proof -
  have c: "ro_read (rot_demo_call f) = None" "ro_write (rot_demo_call f) = f" "ro_now (rot_demo_call f) = 5" for f
    by (simp_all add: rot_demo_call_def)
  show "rotate_all rot_platform (demo_settings ''k2'') (rot_demo_call rot_demo_fail)
     (rot_demo_db\<lparr>enc_row := e\<rparr>) = (Inl (PrismaError ''P1001'' ''gone''), rot_done_db ''failed''\<lparr>enc_row := e\<rparr>)"
    by (simp add: rot_demo_run c rot_demo_db_def rot_done_db_def rot_demo_target_def sbind_def rot_demo_fail_def)
  show "rotate_all rot_platform (demo_settings ''k2'') (rot_demo_call (\<lambda>_. None))
     (rot_done_db ''failed''\<lparr>enc_row := e\<rparr>) = (Inr (), rot_done_db ''completed''\<lparr>enc_row := e\<rparr>)"
    by (simp add: rot_demo_run c rot_demo_db_def rot_done_db_def rot_demo_target_def sbind_def)
qed

lemma rot_demo_runs:
  "rotateToActiveKey rot_platform (demo_settings ''k2'') (rot_demo_call rot_demo_fail) rot_demo_db =
     (Inl (PrismaError ''P1001'' ''gone''), rot_done_db ''failed'')"
  "rotateToActiveKey rot_platform (demo_settings ''k2'') (rot_demo_call (\<lambda>_. None)) (rot_done_db ''failed'') =
     (Inr (), rot_done_db ''completed'')"
proof -
  have load: "loadState (rot_demo_call f) w = (case enc_row w of Some s \<Rightarrow> (Inr s, w) | None \<Rightarrow> loadState (rot_demo_call f) w)" for f w
    by (simp add: loadState_def rot_demo_call_def split: option.split)
  have e: "enc_row rot_demo_db = Some \<lparr>es_enabled = Bool True, es_activeKeyId = ''k1'', es_previousKeyIds = [], es_rotationStatus = ''completed''\<rparr>"
    "enc_row (rot_done_db ''failed'') = Some \<lparr>es_enabled = Bool True, es_activeKeyId = ''k1'', es_previousKeyIds = ''E'', es_rotationStatus = ''failed''\<rparr>"
    "active_items rot_demo_db = 0" "active_items (rot_done_db ''failed'') = 0"
    by (simp_all add: rot_demo_db_def rot_done_db_def active_items_def)
  have complete: "completeRotation rot_platform (demo_settings ''k2'') (rot_demo_call f) ''k1'' ''E'' (rot_done_db ''completed''\<lparr>enc_row := x\<rparr>) =
    (Inr (), rot_done_db ''completed''\<lparr>enc_row := map_option (\<lambda>s. s\<lparr>es_activeKeyId := ''k2'', es_previousKeyIds := ''E'',
        es_rotationStatus := ''completed''\<rparr>) x\<rparr>)" for f x
    by (simp add: rot_demo_mark(3))
  show "rotateToActiveKey rot_platform (demo_settings ''k2'') (rot_demo_call rot_demo_fail) rot_demo_db =
     (Inl (PrismaError ''P1001'' ''gone''), rot_done_db ''failed'')"
    by (simp add: rotateToActiveKey_def rot_demo_facts sbind_run(2) load e rot_demo_pass rot_demo_mark catch_op_def
        sbind_def rot_demo_all(1))
  show "rotateToActiveKey rot_platform (demo_settings ''k2'') (rot_demo_call (\<lambda>_. None)) (rot_done_db ''failed'') =
     (Inr (), rot_done_db ''completed'')"
    by (simp add: rotateToActiveKey_def rot_demo_facts sbind_run(2) load e rot_demo_pass rot_demo_mark catch_op_def
        sbind_def rot_demo_all(2) complete) (simp add: rot_done_db_def)
qed

text \<open>A process that still has the old key only.\<close>

definition rot_old_settings :: settings where
  "rot_old_settings = (demo_settings ''k1'')\<lparr>process_env := (process_env (demo_settings ''k1''))(''ENCRYPTION_KEYS'' \<mapsto> ''k1'')\<rparr>"

lemma rot_old_ring: "keyring P rot_old_settings = Inr [(''k1'', replicate 32 (CHR ''a''))]"
proof -
  have s: "envKeySuffix ''k1'' = ''K1''" by (simp add: envKeySuffix_def to_upper_def)
  have n: "demo_key \<noteq> []" by (simp add: demo_key_def)
  have t: "readText rot_old_settings ''ENCRYPTION_KEYS'' = Some ''k1''"
    "readText rot_old_settings ''ENCRYPTION_KEY_K1'' = Some demo_key"
    by (simp_all add: rot_old_settings_def demo_settings_def readText_def readString_def)
  have e: "env_key rot_old_settings ''k1'' = Inr (replicate 32 (CHR ''a''))"
    using n demo_key_material [of "''k1''"] by (auto simp: env_key_def s t split: list.split)
  have "csv_values ''k1'' = [''k1'']" by (simp add: csv_values_def trim_def)
  then show ?thesis by (simp add: keyring_def keyIds_def t is_json_text_def starts_with_def trim_def e)
qed

lemma rot_old_facts:
  "encryption_isEnabled rot_old_settings" "activeKeyId rot_old_settings = Inr ''k1''" "sqlite rot_old_settings = False"
  "validateConfiguration P rot_old_settings = Inr ()"
proof -
  show f: "encryption_isEnabled rot_old_settings" "activeKeyId rot_old_settings = Inr ''k1''" "sqlite rot_old_settings = False"
    by (simp_all add: encryption_isEnabled_def readFlag_def readString_def readText_def rot_old_settings_def demo_settings_def activeKeyId_def)
  show "validateConfiguration P rot_old_settings = Inr ()"
    by (simp add: validateConfiguration_def f rot_old_ring guard_exn_def)
qed

definition rot_startup :: startup_call where
  "rot_startup = \<lparr>sc_load = None, sc_count = None, sc_liveKeys = 0, sc_create = None\<rparr>"

lemma rot_old_startup: "validateEncryptionState P rot_old_settings rot_startup rot_demo_db = (Inr (), rot_demo_db)"
  by (simp add: validateEncryptionState_def rot_old_facts sbind_run(2) loadEncryptionState_def rot_startup_def
      rot_demo_db_def check_state_def toBoolean_def rot_old_ring)

lemma rot_demo_state: "enc_row rot_demo_db = Some \<lparr>es_enabled = Bool True, es_activeKeyId = ''k1'',
  es_previousKeyIds = [], es_rotationStatus = ''completed''\<rparr>"
  by (simp add: rot_demo_db_def)

definition rot_demo_calls :: "rot_call list" where
  "rot_demo_calls = [rot_demo_call rot_demo_fail, rot_demo_call (\<lambda>_. None)]"

lemma rot_demo_outcomes:
  "rotation_runs rot_platform (demo_settings ''k2'') rot_demo_calls rot_demo_db =
     ([Inl (PrismaError ''P1001'' ''gone''), Inr ()], rot_done_db ''completed'')"
  "c \<in> set rot_demo_calls \<Longrightarrow> quiet c"
  by (auto simp: rot_demo_runs rot_demo_calls_def rot_demo_ok(4))

lemma rot_demo_rotated: "rotated rot_platform (demo_settings ''k2'') ''k2'' (rot_done_db ''completed'')"
  using runs_rotate [OF rot_demo_state _ _ rot_demo_facts(2) rot_demo_outcomes(2) rot_demo_ok(3,2,1), of rot_demo_calls]
  by (simp add: rot_demo_outcomes(1))

lemma rot_demo_hosts: "sees_hosts rot_platform (demo_settings k) rot_demo_db = [(''h1'', Inr (Str ''x''))]"
  by (simp add: sees_hosts_def rot_demo_db_def rot_demo_values)

theorem rotation_loses_nothing_witness:
  "fst (rotateToActiveKey rot_platform (demo_settings ''k2'') (rot_demo_call rot_demo_fail) rot_demo_db) =
     Inl (PrismaError ''P1001'' ''gone'') \<and>
   sees_hosts rot_platform (demo_settings ''k2'')
     (snd (rotateToActiveKey rot_platform (demo_settings ''k2'') (rot_demo_call rot_demo_fail) rot_demo_db)) =
   [(''h1'', Inr (Str ''x''))] \<and>
   sees rot_platform (demo_settings ''k2'')
     (snd (rotateToActiveKey rot_platform (demo_settings ''k2'') (rot_demo_call rot_demo_fail) rot_demo_db)) =
   sees rot_platform (demo_settings ''k2'') rot_demo_db"
  using rotation_loses_nothing [OF rot_demo_ok(3,2,1,4), of "''k2''" rot_demo_fail] rot_demo_hosts
  by (simp add: rot_demo_runs)

theorem retried_rotation_retires_old_keys_witness:
  "rotated rot_platform (demo_settings ''k2'') ''k2'' (rot_done_db ''completed'') \<and>
   sees rot_platform (demo_settings ''k1'') (rot_done_db ''completed'') = sees rot_platform (demo_settings ''k2'') rot_demo_db"
  using retried_rotation_retires_old_keys [OF rot_demo_state _ rot_demo_facts(2) _ rot_demo_outcomes(2)
      rot_demo_ok(3,2,1), where cs = rot_demo_calls and cfg' = "demo_settings ''k1''"]
  by (simp add: rot_demo_outcomes(1) rot_demo_facts)

theorem startup_reads_rotated_database_witness:
  "sees rot_platform (demo_settings ''k2'') (rot_done_db ''completed'') =
     sees rot_platform (demo_settings ''k2'') (rot_done_db ''completed'') \<and>
   activeKeyId (demo_settings ''k2'') = Inr ''k2''"
proof -
  have "validateEncryptionState rot_platform (demo_settings ''k2'') rot_startup (rot_done_db ''completed'') =
      (Inr (), rot_done_db ''completed'')"
    by (simp add: validateEncryptionState_def rot_demo_facts sbind_run(2) loadEncryptionState_def rot_startup_def
      rot_done_db_def check_state_def toBoolean_def demo_keyring demo_ring_def)
  from startup_reads_rotated_database [OF this rot_demo_facts(1) rot_demo_rotated rot_demo_ok(1) refl]
  show ?thesis using rot_demo_facts(2) by blast
qed

theorem startup_ignores_interrupted_rotation_witness:
  "validateEncryptionState rot_platform rot_old_settings rot_startup (rot_done_db ''failed'') = (Inr (), rot_done_db ''failed'') \<and>
   fromJson rot_platform rot_old_settings (ts_config (hd (targets (rot_done_db ''failed'')))) =
     Inl (JsError (''Encryption key '' @ quoted ''k2'' @ '' is not present in keyring''))"
proof
  show "validateEncryptionState rot_platform rot_old_settings rot_startup (rot_done_db ''failed'') = (Inr (), rot_done_db ''failed'')"
    by (rule startup_ignores_interrupted_rotation [OF rot_old_startup rot_demo_state rot_demo_runs(1) rot_demo_ok(4)])
  show "fromJson rot_platform rot_old_settings (ts_config (hd (targets (rot_done_db ''failed'')))) =
     Inl (JsError (''Encryption key '' @ quoted ''k2'' @ '' is not present in keyring''))"
    by (simp add: rot_done_db_def fromJson_def rot_sealed_def rot_old_facts decryptFromStorage_def nullish_def isEnvelope_def
        decryptObject_def requireKey_def rot_old_ring envelope_def js_get_def str_field_def)
qed

end
