(* ===== verification/ErrorMasking.thy ===== *)
theory ErrorMasking
  imports SecretRedaction
begin

text \<open>
  Models \<open>connectors/connector-error.util.ts\<close>: the text of a connector error before it is logged,
  stored in the dead-letter table and returned. The secrets of the configuration and of the
  payload are cut out of it, longest first, and three patterns catch what looks like a credential.
\<close>

section \<open>The secrets of a value\<close>

definition MIN_LITERAL_SECRET_LENGTH :: nat where
  "MIN_LITERAL_SECRET_LENGTH = 4"

text \<open>The parent key is empty when there is none.\<close>

fun collectSecrets :: "jsval \<Rightarrow> string \<Rightarrow> string list" where
  "collectSecrets (Arr xs) parentKey = concat (map (\<lambda>x. collectSecrets x parentKey) xs)"
| "collectSecrets (Obj kvs) parentKey = concat (map (\<lambda>e. collectSecrets (snd e) (fst e)) kvs)"
| "collectSecrets (Str s) parentKey =
     (if parentKey \<noteq> [] \<and> isSecretKey parentKey \<and> length s \<ge> MIN_LITERAL_SECRET_LENGTH then [s] else [])"
| "collectSecrets v parentKey = []"

definition secrets_of :: "jsval list \<Rightarrow> string list" where
  "secrets_of sources = sort_key (\<lambda>s. - int (length s)) (unique (concat (map (\<lambda>v. collectSecrets v []) sources)))"

definition cut_out :: "string \<Rightarrow> string \<Rightarrow> string" where
  "cut_out secret message = join_with SECRET_REDACTION_CENSOR (split_str secret message)"

section \<open>The patterns\<close>

definition is_lower :: "char \<Rightarrow> bool" where
  "is_lower c \<longleftrightarrow> (let n = (of_char c :: nat) in 97 \<le> n \<and> n \<le> 122)"

definition is_upper :: "char \<Rightarrow> bool" where
  "is_upper c \<longleftrightarrow> (let n = (of_char c :: nat) in 65 \<le> n \<and> n \<le> 90)"

definition is_digit10 :: "char \<Rightarrow> bool" where
  "is_digit10 c \<longleftrightarrow> (let n = (of_char c :: nat) in 48 \<le> n \<and> n \<le> 57)"

definition is_alpha :: "char \<Rightarrow> bool" where
  "is_alpha c \<longleftrightarrow> is_lower c \<or> is_upper c"

definition is_alnum :: "char \<Rightarrow> bool" where
  "is_alnum c \<longleftrightarrow> is_alpha c \<or> is_digit10 c"

text \<open>\<open>\w\<close>, on both sides of whose ends \<open>\b\<close> matches.\<close>

definition is_word :: "char \<Rightarrow> bool" where
  "is_word c \<longleftrightarrow> is_alnum c \<or> c = CHR ''_''"

text \<open>
  A match at the start of the text: the captured start, what stands before the censor, the
  captured end, and the length of the match. All three patterns start with \<open>\b\<close> and a letter.
\<close>

record re_match =
  rm_keep :: string
  rm_mid :: string
  rm_end :: string
  rm_length :: nat

fun first_prefix :: "(string \<Rightarrow> string) \<Rightarrow> string list \<Rightarrow> string \<Rightarrow> nat option" where
  "first_prefix canon [] s = None"
| "first_prefix canon (w # ws) s =
     (if starts_with w (canon (take (length w) s)) then Some (length w) else first_prefix canon ws s)"

definition bearer_char :: "char \<Rightarrow> bool" where
  "bearer_char c \<longleftrightarrow> is_alnum c \<or> c \<in> set ''+/=._:-''"

text \<open>\<open>\b(Basic|Bearer)\s+[A-Za-z0-9+/=._:-]+\<close>\<close>

definition match_bearer :: "string \<Rightarrow> re_match option" where
  "match_bearer s =
     (case first_prefix id [''Basic'', ''Bearer''] s of
        None \<Rightarrow> None
      | Some n \<Rightarrow>
          (let r = drop n s; ws = takeWhile is_ws r; tok = takeWhile bearer_char (dropWhile is_ws r) in
           if ws \<noteq> [] \<and> tok \<noteq> []
           then Some \<lparr>rm_keep = take n s, rm_mid = '' '', rm_end = [], rm_length = n + length ws + length tok\<rparr>
           else None))"

definition scheme_char :: "char \<Rightarrow> bool" where
  "scheme_char c \<longleftrightarrow> is_alnum c \<or> c \<in> set ''+.-''"

text \<open>\<open>\b([A-Za-z][A-Za-z0-9+.-]*:\/\/[^:\s/@]+:)[^@\s]+(@)\<close>\<close>

definition match_url :: "string \<Rightarrow> re_match option" where
  "match_url s =
     (let scheme = takeWhile scheme_char s; r1 = drop (length scheme) s;
          user = takeWhile (\<lambda>c. c \<noteq> CHR '':'' \<and> \<not> is_ws c \<and> c \<noteq> CHR ''/'' \<and> c \<noteq> CHR ''@'') (drop 3 r1);
          r2 = drop (length user) (drop 3 r1);
          pass = takeWhile (\<lambda>c. c \<noteq> CHR ''@'' \<and> \<not> is_ws c) (drop 1 r2);
          n = length scheme + 3 + length user + 1 in
      if s \<noteq> [] \<and> is_alpha (hd s) \<and> starts_with ''://'' r1 \<and> user \<noteq> [] \<and> starts_with '':'' r2 \<and>
         pass \<noteq> [] \<and> starts_with ''@'' (drop (length pass) (drop 1 r2))
      then Some \<lparr>rm_keep = take n s, rm_mid = [], rm_end = ''@'', rm_length = n + length pass + 1\<rparr>
      else None)"

definition assigned_words :: "string list" where
  "assigned_words = [''password'', ''pwd'', ''user password'', ''access token'', ''api token'', ''private key'', ''connection string'']"

text \<open>\<open>\b(Password|Pwd|User Password|...)\s*=\s*[^;,\s]+\<close>, in any case\<close>

definition match_assigned :: "string \<Rightarrow> re_match option" where
  "match_assigned s =
     (case first_prefix to_lower assigned_words s of
        None \<Rightarrow> None
      | Some n \<Rightarrow>
          (let r = drop n s; ws = takeWhile is_ws r; r1 = drop (length ws) r;
               ws1 = takeWhile is_ws (drop 1 r1);
               val = takeWhile (\<lambda>c. c \<noteq> CHR '';'' \<and> c \<noteq> CHR '','' \<and> \<not> is_ws c) (dropWhile is_ws (drop 1 r1)) in
           if starts_with ''='' r1 \<and> val \<noteq> []
           then Some \<lparr>rm_keep = take n s, rm_mid = ''='', rm_end = [],
                      rm_length = n + length ws + 1 + length ws1 + length val\<rparr>
           else None))"

text \<open>
  \<open>text.replace(pattern, ...)\<close> with the \<open>g\<close> flag; the flag says whether a word character
  precedes the text, where \<open>\b\<close> before a letter does not match; the first argument says whether the pattern has one.
\<close>

function replace_all :: "bool \<Rightarrow> (string \<Rightarrow> re_match option) \<Rightarrow> bool \<Rightarrow> string \<Rightarrow> string" where
  "replace_all b m w [] = []"
| "replace_all b m w (c # s) =
     (case (if b \<and> w then None else m (c # s)) of
        None \<Rightarrow> c # replace_all b m (is_word c) s
      | Some r \<Rightarrow>
          (let n = max 1 (rm_length r) in
           rm_keep r @ rm_mid r @ SECRET_REDACTION_CENSOR @ rm_end r @
           replace_all b m (is_word (last (take n (c # s)))) (drop n (c # s))))"
  by pat_completeness auto
termination
  by (relation "measure (\<lambda>(b, m, w, s). length s)") auto

definition safeConnectorErrorMessage :: "exn \<Rightarrow> jsval list \<Rightarrow> string" where
  "safeConnectorErrorMessage error secretSources =
     replace_all True match_assigned False (replace_all True match_url False (replace_all True match_bearer False
       (fold cut_out (secrets_of secretSources) (exn_message error))))"

section \<open>What can occur in a masked text\<close>

text \<open>
  Secrets for which the masking can promise something: they do not occur in the censor itself,
  and they cannot be put together from a piece of the text and a character that a replacement adds.
\<close>

definition maskable :: "string \<Rightarrow> bool" where
  "maskable s \<longleftrightarrow> s \<noteq> [] \<and> (\<forall>c \<in> set s. c \<noteq> CHR ''['' \<and> c \<noteq> CHR '']'' \<and> \<not> is_ws c) \<and>
     last s \<noteq> CHR ''='' \<and> \<not> sublist s ''REDACTED''"

lemma sublist_around:
  assumes "sublist s (a @ x # b)" "x \<notin> set s"
  shows "sublist s a \<or> sublist s b"
proof -
  obtain p q where e: "a @ x # b = p @ s @ q" using assms(1) by (auto simp: sublist_def)
  show ?thesis
  proof (cases "length p + length s \<le> length a")
    case True
    have "take (length p + length s) (a @ x # b) = p @ s" unfolding e by simp
    with True have "take (length p + length s) a = p @ s" by simp
    then show ?thesis by (metis sublist_append_leftI sublist_take sublist_order.order.trans)
  next
    case False
    have "length p > length a"
    proof (rule ccontr)
      assume "\<not> length p > length a"
      with False have "length a - length p < length s" "length p \<le> length a" by simp_all
      then have "(p @ s @ q) ! length a \<in> set s" by (simp add: nth_append)
      moreover have "(p @ s @ q) ! length a = x" using e by (metis nth_append_length)
      ultimately show False using assms(2) by simp
    qed
    then have "drop (Suc (length a)) (a @ x # b) = drop (Suc (length a)) p @ s @ q" unfolding e by simp
    then have "b = drop (Suc (length a)) p @ s @ q" by simp
    then show ?thesis by auto
  qed
qed

lemma sublist_censored:
  assumes "sublist s (a @ SECRET_REDACTION_CENSOR @ b)" "maskable s"
  shows "sublist s a \<or> sublist s b"
proof -
  have n: "CHR ''['' \<notin> set s" "CHR '']'' \<notin> set s" "\<not> sublist s ''REDACTED''"
    using assms(2) by (auto simp: maskable_def)
  from assms(1) have "sublist s (a @ CHR ''['' # (''REDACTED'' @ CHR '']'' # b))"
    by (simp add: SECRET_REDACTION_CENSOR_def)
  from sublist_around [OF this n(1)] sublist_around [OF _ n(2), of "''REDACTED''" b] n(3) show ?thesis by blast
qed

section \<open>No pattern brings a secret back\<close>

text \<open>What a pattern keeps are pieces of the text it matched.\<close>

definition honest :: "(string \<Rightarrow> re_match option) \<Rightarrow> bool" where
  "honest m \<longleftrightarrow> (\<forall>s r. m s = Some r \<longrightarrow>
     prefix (rm_keep r) s \<and> (rm_mid r = [] \<or> rm_mid r = '' '' \<or> rm_mid r = ''='') \<and>
     suffix (rm_end r) (take (max 1 (rm_length r)) s))"

lemma honestD:
  assumes "honest m" "m s = Some r"
  shows "prefix (rm_keep r) s" "rm_mid r = [] \<or> rm_mid r = '' '' \<or> rm_mid r = ''=''"
    "suffix (rm_end r) (take (max 1 (rm_length r)) s)"
  using assms unfolding honest_def by simp_all

lemma honest_url: "honest match_url"
  unfolding honest_def
proof (intro allI impI)
  fix s r assume m: "match_url s = Some r"
  define scheme where "scheme = takeWhile scheme_char s"
  define r1 where "r1 = drop (length scheme) s"
  define user where "user = takeWhile (\<lambda>c. c \<noteq> CHR '':'' \<and> \<not> is_ws c \<and> c \<noteq> CHR ''/'' \<and> c \<noteq> CHR ''@'') (drop 3 r1)"
  define r2 where "r2 = drop (length user) (drop 3 r1)"
  define pass where "pass = takeWhile (\<lambda>c. c \<noteq> CHR ''@'' \<and> \<not> is_ws c) (drop 1 r2)"
  define n where "n = length scheme + 3 + length user + 1"
  have r: "r = \<lparr>rm_keep = take n s, rm_mid = [], rm_end = ''@'', rm_length = n + length pass + 1\<rparr>"
    and at: "starts_with ''@'' (drop (length pass) (drop 1 r2))"
    using m unfolding match_url_def Let_def scheme_def [symmetric] r1_def [symmetric] user_def [symmetric]
      r2_def [symmetric] pass_def [symmetric] n_def [symmetric]
    by (simp_all split: if_splits)
  have "drop (n + length pass) s = drop (length pass) (drop 1 r2)"
    by (simp add: n_def r2_def r1_def add.commute add.left_commute)
  with at have "take 1 (drop (n + length pass) s) = ''@''" by (simp add: starts_with_def)
  then have "take (n + length pass + 1) s = take (n + length pass) s @ ''@''"
    by (simp only: take_add [of "n + length pass" 1 s])
  then show "prefix (rm_keep r) s \<and> (rm_mid r = [] \<or> rm_mid r = '' '' \<or> rm_mid r = ''='') \<and>
     suffix (rm_end r) (take (max 1 (rm_length r)) s)"
    by (simp add: r take_is_prefix suffix_def)
qed

lemma honest_bearer: "honest match_bearer"
  by (auto simp: honest_def match_bearer_def Let_def take_is_prefix split: option.splits if_splits)

lemma honest_assigned: "honest match_assigned"
  by (auto simp: honest_def match_assigned_def Let_def take_is_prefix split: option.splits if_splits)

lemma sublist_snoc_other: "sublist s (a @ [x]) \<Longrightarrow> s \<noteq> [] \<Longrightarrow> last s \<noteq> x \<Longrightarrow> sublist s a"
  by (cases s rule: rev_cases) (auto simp: sublist_snoc)

lemma sublist_mid:
  assumes "maskable s" "sublist s (a @ mid)" "mid = [] \<or> mid = '' '' \<or> mid = ''=''"
  shows "sublist s a"
proof -
  have s: "s \<noteq> []" "last s \<noteq> CHR ''=''" using assms(1) by (simp_all add: maskable_def)
  then have "\<not> is_ws (last s)" using assms(1) last_in_set [of s] unfolding maskable_def by blast
  then have sp: "last s \<noteq> CHR '' ''" by (metis is_ws_eval(1))
  from assms(3) show ?thesis
  proof (elim disjE)
    assume "mid = '' ''"
    with assms(2) sublist_snoc_other [OF _ s(1) sp] show ?thesis by blast
  next
    assume "mid = ''=''"
    with assms(2) sublist_snoc_other [OF _ s(1,2)] show ?thesis by blast
  qed (use assms(2) in simp)
qed

lemma replace_all_sublist:
  assumes "maskable s"
  shows "honest m \<Longrightarrow> sublist s (pre @ replace_all b m w t) \<Longrightarrow> sublist s (pre @ t)"
proof (induction b m w t arbitrary: pre rule: replace_all.induct)
  case (2 b m w c t)
  show ?case
  proof (cases "if b \<and> w then None else m (c # t)")
    case None
    with "2.prems"(2) have "sublist s ((pre @ [c]) @ replace_all b m (is_word c) t)" by simp
    from "2.IH"(1) [OF None "2.prems"(1) this] show ?thesis by simp
  next
    case (Some r)
    let ?n = "max 1 (rm_length r)"
    from Some have r: "m (c # t) = Some r" by (simp split: if_splits)
    have h: "prefix (rm_keep r) (c # t)" "rm_mid r = [] \<or> rm_mid r = '' '' \<or> rm_mid r = ''=''"
      "suffix (rm_end r) (take ?n (c # t))"
      by (fact honestD [OF "2.prems"(1) r])+
    from "2.prems"(2) Some have "sublist s ((pre @ rm_keep r @ rm_mid r) @ SECRET_REDACTION_CENSOR @
        (rm_end r @ replace_all b m (is_word (last (take ?n (c # t)))) (drop ?n (c # t))))"
      by (simp add: Let_def)
    from sublist_censored [OF this assms] show ?thesis
    proof
      assume "sublist s (pre @ rm_keep r @ rm_mid r)"
      then have "sublist s (pre @ rm_keep r)" using sublist_mid [OF assms, of "pre @ rm_keep r"] h(2) by simp
      moreover have "sublist (pre @ rm_keep r) (pre @ c # t)" using h(1) by (auto simp: prefix_def)
      ultimately show ?thesis by (rule sublist_order.order.trans)
    next
      assume "sublist s (rm_end r @ replace_all b m (is_word (last (take ?n (c # t)))) (drop ?n (c # t)))"
      from "2.IH"(2) [OF Some refl "2.prems"(1) this] have s: "sublist s (rm_end r @ drop ?n (c # t))" .
      obtain z where "take ?n (c # t) = z @ rm_end r" using h(3) by (auto simp: suffix_def)
      then have "c # t = z @ rm_end r @ drop ?n (c # t)" by (metis append_take_drop_id append.assoc)
      then have "sublist (rm_end r @ drop ?n (c # t)) (pre @ c # t)" by (metis sublist_append_leftI append.assoc)
      with s show ?thesis by (rule sublist_order.order.trans)
    qed
  qed
qed simp

section \<open>Cutting a secret out\<close>

lemma join_Cons: "xs \<noteq> [] \<Longrightarrow> join_with c (x # xs) = x @ c @ join_with c xs"
  by (cases xs) simp_all

lemma split_acc_nonempty [simp]: "split_acc sep acc t \<noteq> []"
  by (induction sep acc t rule: split_acc.induct) simp_all

lemma join_split_sublist:
  assumes "maskable s"
  shows "sublist s (join_with SECRET_REDACTION_CENSOR (split_acc sep acc t)) \<Longrightarrow> sublist s (rev acc @ t)"
proof (induction sep acc t rule: split_acc.induct)
  case (2 sep acc c t)
  show ?case
  proof (cases "sep \<noteq> [] \<and> starts_with sep (c # t)")
    case True
    with "2.prems" have "sublist s (rev acc @ SECRET_REDACTION_CENSOR @
        join_with SECRET_REDACTION_CENSOR (split_acc sep [] (drop (length sep) (c # t))))"
      by (simp add: join_Cons)
    from sublist_censored [OF this assms] show ?thesis
    proof
      assume "sublist s (rev acc)"
      then show ?thesis by (metis sublist_append_rightI sublist_order.order.trans)
    next
      assume "sublist s (join_with SECRET_REDACTION_CENSOR (split_acc sep [] (drop (length sep) (c # t))))"
      from "2.IH"(1) [OF True this] have "sublist s (drop (length sep) (c # t))" by simp
      moreover have "sublist (drop (length sep) (c # t)) (rev acc @ c # t)"
        by (metis sublist_drop sublist_append_leftI sublist_order.order.trans)
      ultimately show ?thesis by (rule sublist_order.order.trans)
    qed
  next
    case False
    with "2.prems" have "sublist s (join_with SECRET_REDACTION_CENSOR (split_acc sep (c # acc) t))" by auto
    from "2.IH"(2) [OF False this] show ?thesis by simp
  qed
qed simp

text \<open>No piece of \<open>split\<close> holds the separator.\<close>

definition unseen :: "string \<Rightarrow> string \<Rightarrow> string \<Rightarrow> bool" where
  "unseen sep done rest \<longleftrightarrow> (\<forall>p < length done. \<not> starts_with sep (drop p (done @ rest)))"

lemma unseen_piece: "unseen sep done rest \<Longrightarrow> sep \<noteq> [] \<Longrightarrow> \<not> sublist sep done"
proof
  assume u: "unseen sep done rest" and n: "sep \<noteq> []" and "sublist sep done"
  then obtain p q where d: "done = p @ sep @ q" by (auto simp: sublist_def)
  with n have "length p < length done" by (cases sep) simp_all
  moreover have "starts_with sep (drop (length p) (done @ rest))" by (simp add: d starts_with_def)
  ultimately show False using u by (auto simp: unseen_def)
qed

lemma cut_split:
  "maskable sep \<Longrightarrow> unseen sep (rev acc) t \<Longrightarrow> \<not> sublist sep (join_with SECRET_REDACTION_CENSOR (split_acc sep acc t))"
proof (induction sep acc t rule: split_acc.induct)
  case (1 sep acc)
  then show ?case using unseen_piece [of sep "rev acc" "[]"] by (auto simp: maskable_def)
next
  case (2 sep acc c t)
  show ?case
  proof (cases "sep \<noteq> [] \<and> starts_with sep (c # t)")
    case True
    have "\<not> sublist sep (rev acc)" using unseen_piece [OF "2.prems"(2)] True by simp
    moreover have "\<not> sublist sep (join_with SECRET_REDACTION_CENSOR (split_acc sep [] (drop (length sep) (c # t))))"
      by (rule "2.IH"(1) [OF True "2.prems"(1)]) (simp add: unseen_def)
    ultimately have "\<not> sublist sep (rev acc @ SECRET_REDACTION_CENSOR @
        join_with SECRET_REDACTION_CENSOR (split_acc sep [] (drop (length sep) (c # t))))"
      using sublist_censored [OF _ "2.prems"(1)] by blast
    with True show ?thesis by (simp add: join_Cons)
  next
    case False
    have n: "sep \<noteq> []" using "2.prems"(1) by (simp add: maskable_def)
    have "unseen sep (rev (c # acc)) t"
      unfolding unseen_def
    proof (intro allI impI)
      fix p assume "p < length (rev (c # acc))"
      then consider "p < length (rev acc)" | "p = length (rev acc)" by fastforce
      then show "\<not> starts_with sep (drop p (rev (c # acc) @ t))"
        using "2.prems"(2) False n by cases (auto simp: unseen_def)
    qed
    from "2.IH"(2) [OF False "2.prems"(1) this] False show ?thesis by auto
  qed
qed

lemma cut_out_sublist: "maskable s \<Longrightarrow> sublist s (cut_out sep message) \<Longrightarrow> sep \<noteq> [] \<Longrightarrow> sublist s message"
  using join_split_sublist [of s sep "[]" message] by (simp add: cut_out_def split_str_def)

lemma cut_out_gone: "maskable s \<Longrightarrow> \<not> sublist s (cut_out s message)"
  using cut_split [of s "[]" message] by (simp add: cut_out_def split_str_def unseen_def maskable_def)

lemma fold_cut_sublist:
  "maskable s \<Longrightarrow> [] \<notin> set ss \<Longrightarrow> sublist s (fold cut_out ss message) \<Longrightarrow> sublist s message"
  by (induction ss arbitrary: message) (auto dest: cut_out_sublist)

lemma fold_cut_gone:
  assumes "s \<in> set ss" "maskable s" "[] \<notin> set ss"
  shows "\<not> sublist s (fold cut_out ss message)"
  using assms(1,3)
proof (induction ss arbitrary: message)
  case (Cons x ss)
  show ?case
  proof (cases "s = x")
    case True
    then show ?thesis
      using fold_cut_sublist [OF assms(2), of ss "cut_out x message"] cut_out_gone [OF assms(2)] Cons.prems by auto
  next
    case False
    with Cons show ?thesis by simp
  qed
qed simp

lemma collected_long: "s \<in> set (collectSecrets v k) \<Longrightarrow> 4 \<le> length s"
  by (induction v k rule: collectSecrets.induct) (auto simp: MIN_LITERAL_SECRET_LENGTH_def split: if_splits)

lemma no_empty_secret: "[] \<notin> set (secrets_of sources)"
  using collected_long [of "[]"] by (auto simp: secrets_of_def)

section \<open>Properties\<close>

text \<open>
  A secret of a value: a text of at least four characters, at any depth, whose nearest key is
  the name of a secret; the elements of a list belong to the key of the list.
\<close>

inductive secret_under :: "string \<Rightarrow> jsval \<Rightarrow> string \<Rightarrow> bool" where
  here: "isSecretKey k \<Longrightarrow> k \<noteq> [] \<Longrightarrow> 4 \<le> length s \<Longrightarrow> secret_under k (Str s) s"
| elem: "v \<in> set xs \<Longrightarrow> secret_under k v s \<Longrightarrow> secret_under k (Arr xs) s"
| entry: "(k', v) \<in> set kvs \<Longrightarrow> secret_under k' v s \<Longrightarrow> secret_under k (Obj kvs) s"



lemma collects: "secret_under k v s \<Longrightarrow> s \<in> set (collectSecrets v k)"
  by (induction rule: secret_under.induct) (force simp: MIN_LITERAL_SECRET_LENGTH_def)+

text \<open>
  C22: the error text that \<open>safeConnectorErrorMessage\<close> makes, which the Linux, PostgreSQL and MSSQL connectors report,
  holds no maskable secret of the configuration or of the event: a text of four characters or more under a key that
  names a secret, wherever it stands in the given sources. However often such a secret occurs in the error, overlapping
  other secrets or put together by cutting them out, it does not occur in the masked text. Not maskable are secrets
  with white space or brackets in them, those that end with an equals sign, and parts of the censor. The other
  connectors mask in their own way or not at all.
\<close>

theorem reported_errors_hide_secrets:
  assumes "source \<in> set sources" "secret_under [] source s" "maskable s"
  shows "\<not> sublist s (safeConnectorErrorMessage error sources)"
proof
  have "s \<in> set (secrets_of sources)" using collects [OF assms(2)] assms(1) by (auto simp: secrets_of_def)
  then have gone: "\<not> sublist s (fold cut_out (secrets_of sources) (exn_message error))"
    by (rule fold_cut_gone [OF _ assms(3) no_empty_secret])
  assume "sublist s (safeConnectorErrorMessage error sources)"
  then have "sublist s (fold cut_out (secrets_of sources) (exn_message error))"
    unfolding safeConnectorErrorMessage_def
    using replace_all_sublist [OF assms(3), where pre = "[]", simplified] honest_assigned honest_url honest_bearer by blast
  with gone show False by simp
qed

theorem reported_errors_hide_secrets_witness:
  "\<not> sublist ''hunter2'' (safeConnectorErrorMessage (JsError ''login root:hunter2 failed'')
     [Obj [(''conn'', Obj [(''password'', Str ''hunter2'')])]])"
proof (rule reported_errors_hide_secrets)
  show "secret_under [] (Obj [(''conn'', Obj [(''password'', Str ''hunter2'')])]) ''hunter2''"
    by (rule secret_under.entry [of "''conn''"], simp, rule secret_under.entry [of "''password''"], simp,
        rule secret_under.here) (simp_all add: secret_eval)
  show "maskable ''hunter2''" by (simp add: maskable_def sublist_code)
qed simp

end
