(* ===== verification/ConnectorKit.thy ===== *)
theory ConnectorKit
  imports GroupMapping ErrorMasking Connector
begin

text \<open>
  What the services of the target systems repeat: reading the parts of an event, the first text
  among several values, and the answer with the masked error.
\<close>

section \<open>Reading the event\<close>

definition payload_part :: "connector_payload \<Rightarrow> string \<Rightarrow> obj" where
  "payload_part p k = as_obj (coalesce (js_get (body p) k) (Obj []))"

fun firstString :: "jsval list \<Rightarrow> string option" where
  "firstString [] = None"
| "firstString (v # vs) =
     (case v of Str s \<Rightarrow> if trim s \<noteq> [] then Some (trim s) else firstString vs | _ \<Rightarrow> firstString vs)"

lemma firstString_Some: "firstString vs = Some s \<Longrightarrow> s \<noteq> [] \<and> trim s = s"
  by (induction vs) (auto split: jsval.splits if_splits)

text \<open>\<open>[...v]\<close>\<close>

definition spread_list :: "jsval \<Rightarrow> jsval list result" where
  "spread_list v = (case v of Arr xs \<Rightarrow> Inr xs | Str s \<Rightarrow> Inr (map (\<lambda>c. Str [c]) s) | _ \<Rightarrow> Inl type_error)"

definition array_of :: "jsval \<Rightarrow> jsval list" where
  "array_of v = (case v of Arr xs \<Rightarrow> xs | _ \<Rightarrow> [])"

text \<open>\<open>a === b\<close> for values of which one was read from a message: objects of two sources are never the same.\<close>

fun strict_eq :: "jsval \<Rightarrow> jsval \<Rightarrow> bool" where
  "strict_eq (Arr _) _ = False"
| "strict_eq (Obj _) _ = False"
| "strict_eq (Num n) v = (n \<noteq> NaN \<and> v = Num n)"
| "strict_eq u v = (u = v)"

text \<open>The first value that is not blank.\<close>

fun firstValue :: "jsval list \<Rightarrow> jsval" where
  "firstValue [] = Undef"
| "firstValue (v # vs) = (if blank v then firstValue vs else v)"

definition if_truthy :: "jsval \<Rightarrow> jsval option" where
  "if_truthy v = (if truthy v then Some v else None)"

fun group_text :: "group_value \<Rightarrow> string" where
  "group_text (GStr s) = s"
| "group_text (GNum r) = string_of_val (Num (Fin r))"

definition attribute :: "string \<Rightarrow> string \<Rightarrow> bool \<Rightarrow> bool \<Rightarrow> jsval" where
  "attribute n t required multi =
     Obj [(''name'', Str n), (''type'', Str t), (''required'', Bool required), (''multiValued'', Bool multi)]"

text \<open>\<open>{ ...value }\<close>: arrays and texts spread into their indexed elements.\<close>

definition indexed :: "jsval list \<Rightarrow> obj" where
  "indexed xs = map (\<lambda>(i, v). (nat_digits i, v)) (zip [0..<length xs] xs)"

definition spread_entries :: "jsval \<Rightarrow> obj" where
  "spread_entries v =
     (case v of Obj kvs \<Rightarrow> kvs | Arr xs \<Rightarrow> indexed xs | Str s \<Rightarrow> indexed (map (\<lambda>c. Str [c]) s) | _ \<Rightarrow> [])"

definition withoutGenericGroups :: "jsval \<Rightarrow> jsval" where
  "withoutGenericGroups data = Obj (filter (\<lambda>e. fst e \<noteq> ''groups'') (spread [] (spread_entries data)))"

definition occurs_in :: "string \<Rightarrow> string \<Rightarrow> bool" where
  "occurs_in s t \<longleftrightarrow> list_ex (starts_with s) (suffixes t)"

text \<open>\<open>current.split(secret).join('[REDACTED]')\<close>\<close>

definition redact_secret :: "jsval \<Rightarrow> string \<Rightarrow> string" where
  "redact_secret secret current = join_with ''[REDACTED]'' (split_str (string_of_val secret) current)"

section \<open>Encoding\<close>

definition hex_digit :: "nat \<Rightarrow> char" where
  "hex_digit n = (if n < 10 then char_of (48 + n) else char_of (55 + n))"

definition percent :: "nat \<Rightarrow> string" where
  "percent b = [CHR ''%'', hex_digit (b div 16), hex_digit (b mod 16)]"

text \<open>The unreserved characters stay; the others become the bytes of their UTF-8 form.\<close>

definition encodeURIComponent :: "string \<Rightarrow> string" where
  "encodeURIComponent s =
     concat (map (\<lambda>c. if is_alnum c \<or> c \<in> set ''-_.!~*()'' \<or> c = CHR 0x27 then [c]
       else let n = of_char c in
         if n < 128 then percent n else percent (192 + n div 64) @ percent (128 + n mod 64)) s)"

text \<open>The text of \<open>URLSearchParams\<close>.\<close>

definition form_encode :: "string \<Rightarrow> string" where
  "form_encode s =
     concat (map (\<lambda>c. if is_alnum c \<or> c \<in> set ''*-._'' then [c] else if c = CHR '' '' then ''+''
       else let n = of_char c in
         if n < 128 then percent n else percent (192 + n div 64) @ percent (128 + n mod 64)) s)"

definition strip_slashes :: "string \<Rightarrow> string" where
  "strip_slashes s = rev (dropWhile (\<lambda>c. c = CHR ''/'') (rev s))"

definition form_query :: "(string \<times> string) list \<Rightarrow> string" where
  "form_query pairs = join_with ''&'' (map (\<lambda>(k, v). form_encode k @ ''='' @ form_encode v) pairs)"

text \<open>The bytes of the UTF-8 form of a text.\<close>

definition utf8_char :: "char \<Rightarrow> string" where
  "utf8_char c = (let n = of_char c :: nat in if n < 128 then [c] else [char_of (192 + n div 64), char_of (128 + n mod 64)])"

definition utf8 :: "string \<Rightarrow> string" where
  "utf8 s = concat (map utf8_char s)"

text \<open>The characters that can stand in a part of a path, and in a query; no slash, no question mark, no hash.\<close>

definition seg_char :: "char \<Rightarrow> bool" where
  "seg_char c \<longleftrightarrow> is_alnum c \<or> c \<in> set ''-_.!~*()%'' \<or> c = CHR 0x27"

definition segment :: "string \<Rightarrow> bool" where
  "segment s \<longleftrightarrow> s \<noteq> [] \<and> list_all seg_char s"

definition query_char :: "char \<Rightarrow> bool" where
  "query_char c \<longleftrightarrow> is_alnum c \<or> c \<in> set ''*-._+%&=''"

lemma hex_digit_alnum: "n < 16 \<Longrightarrow> is_alnum (hex_digit n)"
  by (auto simp: hex_digit_def is_alnum_def is_alpha_def is_digit10_def is_upper_def Let_def)

lemma percent_chars:
  assumes "b < 256" "c \<in> set (percent b)"
  shows "c = CHR ''%'' \<or> is_alnum c"
proof -
  have "b div 16 < 16" "b mod 16 < 16" using assms(1) by auto
  then show ?thesis using assms(2) hex_digit_alnum by (auto simp: percent_def)
qed

lemma utf8_chars:
  assumes "c \<in> set (let n = of_char d in if n < 128 then percent n else percent (192 + n div 64) @ percent (128 + n mod 64))"
  shows "c = CHR ''%'' \<or> is_alnum c"
proof -
  define n where "n = (of_char d :: nat)"
  have "n < 256" by (simp add: n_def)
  moreover from this have "n div 64 < 4" by (intro less_mult_imp_div_less) simp
  ultimately have n: "n < 256" "192 + n div 64 < 256" "128 + n mod 64 < 256" by simp_all
  from assms have "c \<in> set (percent n) \<or> c \<in> set (percent (192 + n div 64)) \<or> c \<in> set (percent (128 + n mod 64))"
    unfolding n_def [symmetric] Let_def by (cases "n < 128") simp_all
  with n show ?thesis by (blast dest: percent_chars)
qed

lemma encoded_segment:
  assumes "s \<noteq> []"
  shows "segment (encodeURIComponent s)"
proof -
  have "seg_char c" if "c \<in> set (encodeURIComponent s)" for c
    using that utf8_chars unfolding encodeURIComponent_def seg_char_def
    by (fastforce split: if_splits)
  moreover obtain d t where "s = d # t" using assms by (cases s) auto
  then have "encodeURIComponent s \<noteq> []" by (auto simp: encodeURIComponent_def Let_def percent_def)
  ultimately show ?thesis by (simp add: segment_def list_all_iff)
qed

lemma form_chars: "c \<in> set (form_encode s) \<Longrightarrow> query_char c"
  using utf8_chars unfolding form_encode_def query_char_def by (fastforce split: if_splits)

lemma join_chars: "c \<in> set (join_with sep xs) \<Longrightarrow> c \<in> set sep \<or> (\<exists>x \<in> set xs. c \<in> set x)"
  by (induction sep xs rule: join_with.induct) auto

lemma form_query_chars: "list_all query_char (form_query pairs)"
proof -
  have "query_char c" if "c \<in> set (form_query pairs)" for c
    using join_chars [OF that [unfolded form_query_def]] by (auto simp: query_char_def dest: form_chars [unfolded query_char_def])
  then show ?thesis by (simp add: list_all_iff)
qed

text \<open>Encoding changes a text only where it writes a percent sign, so no text becomes one of the dots.\<close>

lemma encoded_plain: "CHR ''%'' \<notin> set (encodeURIComponent s) \<Longrightarrow> encodeURIComponent s = s"
proof (induction s)
  case (Cons c s)
  have "encodeURIComponent (c # s) =
      (if is_alnum c \<or> c \<in> set ''-_.!~*()'' \<or> c = CHR 0x27 then [c]
       else let n = of_char c in if n < 128 then percent n else percent (192 + n div 64) @ percent (128 + n mod 64)) @
      encodeURIComponent s"
    by (simp add: encodeURIComponent_def)
  with Cons show ?case by (auto simp: Let_def percent_def split: if_splits)
qed (simp add: encodeURIComponent_def)

section \<open>Answering\<close>

definition answer_masked :: "jsval list \<Rightarrow> (jsval, 'w) op \<Rightarrow> (connector_result, 'w) op" where
  "answer_masked sources m =
     catch_op (sbind m (\<lambda>d. ret (result_ok d)))
       (\<lambda>e. ret (result_fail (safeConnectorErrorMessage e sources)))"

lemma masked_grown: "preserves I m \<Longrightarrow> preserves I (answer_masked sources m)"
  unfolding answer_masked_def by (intro preserve_intros)

lemma masked_run: "snd (answer_masked sources m w) = snd (m w)"
  by (cases "m w"; cases "fst (m w)") (simp_all add: answer_masked_def catch_op_def sbind_def)

end
