(* ===== verification/LinuxCommands.thy ===== *)
theory LinuxCommands
  imports ConnectorKit
begin

text \<open>
  The part of \<open>connectors/implementations/linux-connector/linux-connector.service.ts\<close> that turns
  an event into shell commands: logins, groups, quoting, and the lines for \<open>chpasswd\<close>. What the
  shell and \<open>chpasswd\<close> make of them is specified apart (\<open>sh_words\<close>, \<open>chpasswd_lines\<close>).
\<close>

section \<open>Reading the event\<close>

text \<open>\<open>/^[a-z_][a-z0-9_-]{0,31}$/i\<close>\<close>

definition posix_name :: "string \<Rightarrow> bool" where
  "posix_name s \<longleftrightarrow> s \<noteq> [] \<and> (is_alpha (hd s) \<or> hd s = CHR ''_'') \<and>
     list_all (\<lambda>c. is_alnum c \<or> c = CHR ''_'' \<or> c = CHR ''-'') (tl s) \<and> length s \<le> 32"

definition linux_login :: "obj \<Rightarrow> obj \<Rightarrow> obj \<Rightarrow> string result" where
  "linux_login data params config =
     (case firstString [js_get data ''login'', js_get data ''managedLogin'', js_get data ''username'',
              js_get params ''login'', js_get params ''id'', js_get data ''email''] of
        None \<Rightarrow> Inl (JsError ''Missing login for Linux operation'')
      | Some v \<Rightarrow>
          (let login = trim (string_of_val (coalesce (js_get config ''loginPrefix'') (Str [])) @ v) in
           if posix_name login then Inr login else Inl (JsError ''Invalid Linux login'')))"

definition linux_password :: "obj \<Rightarrow> bool \<Rightarrow> string result" where
  "linux_password data required =
     (case firstString [js_get data ''newValue'', js_get data ''password''] of
        None \<Rightarrow> if required then Inl (JsError ''Missing password for Linux operation'') else Inr []
      | Some v \<Rightarrow> Inr v)"

fun strings_of :: "jsval \<Rightarrow> string list" where
  "strings_of (Arr xs) = concat (map (\<lambda>v. case v of Str s \<Rightarrow> if trim s \<noteq> [] then [s] else [] | _ \<Rightarrow> []) xs)"
| "strings_of (Str s) = (if trim s \<noteq> [] then csv_values s else [])"
| "strings_of v = []"

definition stringArray :: "jsval list \<Rightarrow> string list" where
  "stringArray vs = unique (concat (map strings_of vs))"

datatype mapping_target = Posix | Server

definition groupMappingTarget :: "obj \<Rightarrow> mapping_target \<Rightarrow> mapping_target result" where
  "groupMappingTarget config defaultTarget =
     (let v = js_get config ''groupMappingTarget'' in
      if blank v then Inr defaultTarget
      else if v = Str ''posix'' then Inr Posix
      else if v = Str ''server'' then Inr Server
      else Inl (JsError ''Invalid Linux groupMappingTarget: expected posix or server''))"

text \<open>The mapped group references, when the mapping is on and goes to the given target.\<close>

definition mapped_groups :: "obj \<Rightarrow> mapping_target \<Rightarrow> jsval \<Rightarrow> (bool \<times> string list) result" where
  "mapped_groups config target groups =
     ebind (groupMappingSettings config) (\<lambda>mapping.
       if \<not> gs_enabled mapping then Inr (False, [])
       else ebind (groupMappingTarget config target) (\<lambda>t.
         if t \<noteq> target then Inr (True, [])
         else ebind (groupRefValues groups (gs_mode mapping) ''groups'') (\<lambda>gs. Inr (True, map group_text gs))))"

text \<open>\<open>...(config.defaultGroups ?? [])\<close>; a text spreads into its characters.\<close>

definition default_groups :: "obj \<Rightarrow> jsval list result" where
  "default_groups config =
     (case coalesce (js_get config ''defaultGroups'') (Arr []) of
        Arr xs \<Rightarrow> Inr xs
      | Str s \<Rightarrow> Inr (map (\<lambda>c. Str [c]) s)
      | _ \<Rightarrow> Inl type_error)"

definition checked_group :: "string \<Rightarrow> string result" where
  "checked_group g = (if posix_name (trim g) then Inr (trim g) else Inl (JsError ''Invalid Linux group''))"

definition linux_groups :: "obj \<Rightarrow> obj \<Rightarrow> string list result" where
  "linux_groups config data =
     ebind (mapped_groups config Posix (js_get data ''groups'')) (\<lambda>(enabled, mapped).
       let payloadGroups = stringArray ([js_get data ''posixGroups''] @
             (if enabled then [] else [js_get data ''groups'']) @ [Arr (map Str mapped)]) in
       ebind (default_groups config) (\<lambda>ds.
         map_exn checked_group (concat (map strings_of [Arr ds]) @
           filter (\<lambda>g. trim g \<noteq> []) payloadGroups)))"

section \<open>Commands\<close>

text \<open>\<open>value.replace(/'/g, \<dots>)\<close> in single quotes; a value that is no text has no \<open>replace\<close>.\<close>

fun escape_quotes :: "string \<Rightarrow> string" where
  "escape_quotes [] = []"
| "escape_quotes (c # s) =
     (if c = CHR 0x27 then [CHR 0x27, CHR 0x5C, CHR 0x27, CHR 0x27] else [c]) @ escape_quotes s"

definition arg :: "string \<Rightarrow> string" where
  "arg s = CHR 0x27 # escape_quotes s @ [CHR 0x27]"

definition arg_val :: "jsval \<Rightarrow> string result" where
  "arg_val v = (case v of Str s \<Rightarrow> Inr (arg s) | _ \<Rightarrow> Inl type_error)"

definition userAddCommand :: "obj \<Rightarrow> string \<Rightarrow> obj \<Rightarrow> string result" where
  "userAddCommand config login data =
     (let shell = (case firstString [js_get data ''shell''] of
             Some s \<Rightarrow> Str s | None \<Rightarrow> coalesce (js_get config ''defaultShell'') (Str ''/bin/bash''));
          home = (case firstString [js_get data ''homeDirectory''] of
             Some s \<Rightarrow> s
           | None \<Rightarrow> string_of_val (coalesce (js_get config ''defaultHomeBase'') (Str ''/home'')) @ ''/'' @ login) in
      ebind (linux_groups config data) (\<lambda>groups.
      ebind (arg_val shell) (\<lambda>sh.
        Inr (join_with '' '' (filter (\<lambda>p. p \<noteq> [])
          [''sudo useradd'', ''-m'', ''-d '' @ arg home, ''-s '' @ sh,
           (if groups \<noteq> [] then ''-G '' @ arg (join_with '','' groups) else []), arg login])))))"

definition userModifyCommand :: "obj \<Rightarrow> string \<Rightarrow> obj \<Rightarrow> string result" where
  "userModifyCommand config login data =
     ebind (linux_groups config data) (\<lambda>groups.
       Inr (join_with '' '' ([''sudo usermod''] @
         (case firstString [js_get data ''shell''] of Some s \<Rightarrow> [''-s '' @ arg s] | None \<Rightarrow> []) @
         (if groups \<noteq> [] then [''-G '' @ arg (join_with '','' groups)] else []) @ [arg login])))"

definition deleteCommand :: "obj \<Rightarrow> string \<Rightarrow> string" where
  "deleteCommand config login =
     ''sudo userdel '' @ (if js_get config ''removeHomeOnDelete'' = Bool True then ''-r '' else []) @ arg login"

definition disableCommand :: "string \<Rightarrow> string" where
  "disableCommand login = ''sudo passwd -l '' @ arg login @ '' && sudo chage -E 0 '' @ arg login"

definition enableCommand :: "string \<Rightarrow> string" where
  "enableCommand login = ''sudo passwd -u '' @ arg login @ '' && sudo chage -E -1 '' @ arg login"

definition getCommand :: "string \<Rightarrow> string" where
  "getCommand login = ''getent passwd '' @ arg login"

definition chpasswd_input :: "string \<Rightarrow> string \<Rightarrow> string" where
  "chpasswd_input login password = login @ '':'' @ password @ [CHR 0x0A]"

section \<open>What the shell makes of a command\<close>

text \<open>
  The fragment of the POSIX shell grammar without expansions, redirections and control
  operators other than \<open>&&\<close>: words are built from plain characters, single-quoted texts and
  escaped characters. Any other character gives no reading.
\<close>

datatype sh_token = Word string | AndIf

definition plain_char :: "char \<Rightarrow> bool" where
  "plain_char c \<longleftrightarrow> is_alnum c \<or> c \<in> set ''/._-,:@+''"

definition emit :: "string option \<Rightarrow> sh_token list \<Rightarrow> sh_token list" where
  "emit w ts = (case w of None \<Rightarrow> ts | Some s \<Rightarrow> Word s # ts)"

lemma emit_simps [simp]: "emit None = (\<lambda>ts. ts)" "emit (Some s) = (#) (Word s)"
  by (simp_all add: emit_def fun_eq_iff)

text \<open>The word read so far, and whether a quote is open.\<close>

fun sh_words :: "string option \<Rightarrow> bool \<Rightarrow> string \<Rightarrow> sh_token list option" where
  "sh_words w q [] = (if q then None else Some (emit w []))"
| "sh_words w q (c # s) =
     (if q then (if c = CHR 0x27 then sh_words w False s else sh_words (Some (or_else w [] @ [c])) True s)
      else if c = CHR 0x27 then sh_words (Some (or_else w [])) True s
      else if c = CHR 0x5C then (case s of [] \<Rightarrow> None | d # r \<Rightarrow> sh_words (Some (or_else w [] @ [d])) False r)
      else if c = CHR '' '' then map_option (emit w) (sh_words None False s)
      else if c = CHR ''&'' then
        (case s of d # r \<Rightarrow> if d = CHR ''&'' then map_option (\<lambda>ts. emit w (AndIf # ts)) (sh_words None False r) else None
         | [] \<Rightarrow> None)
      else if plain_char c then sh_words (Some (or_else w [] @ [c])) False s
      else None)"

definition sh :: "string \<Rightarrow> sh_token list option" where
  "sh command = sh_words None False command"

text \<open>\<open>chpasswd\<close> reads lines \<open>login:password\<close>; everything after the first colon is the password.\<close>

definition chpasswd_line :: "string \<Rightarrow> string \<times> string" where
  "chpasswd_line l = (takeWhile (\<lambda>c. c \<noteq> CHR '':'') l, tl (dropWhile (\<lambda>c. c \<noteq> CHR '':'') l))"

definition chpasswd_lines :: "string \<Rightarrow> (string \<times> string) list" where
  "chpasswd_lines s = map chpasswd_line (filter (\<lambda>l. l \<noteq> []) (split_on (CHR 0x0A) s))"

section \<open>Quoting\<close>

lemma sh_quoted: "sh_words (Some w) True (escape_quotes s @ CHR 0x27 # r) = sh_words (Some (w @ s)) False r"
proof (induction s arbitrary: w)
  case (Cons c s)
  then show ?case by (cases "c = CHR 0x27") simp_all
qed simp

lemma sh_arg: "sh_words w False (arg s @ r) = sh_words (Some (or_else w [] @ s)) False r"
  using sh_quoted [of "or_else w []" s r] by (simp add: arg_def)

lemma sh_arg_end: "sh_words w False (arg s) = Some [Word (or_else w [] @ s)]"
  using sh_arg [of w s "[]"] by (simp add: emit_def)

text \<open>
  Quoting is exact: whatever the text, the shell reads the quoted text as one word, which is
  the text, and goes on after it as it would have.
\<close>

theorem quoted_argument_is_one_word:
  "sh (arg s @ CHR '' '' # rest) = map_option (\<lambda>ts. Word s # ts) (sh rest)"
  using sh_arg [of None s "CHR '' '' # rest"] by (simp add: sh_def)

section \<open>The commands are what they are meant to be\<close>

text \<open>The commands the connector means to run, and their words.\<close>

datatype linux_command =
    UserAdd string string "string list" string
  | UserMod "string option" "string list" string
  | UserDel bool string
  | DisableUser string
  | EnableUser string
  | GetUser string
  | GetAll
  | Id
  | ChPasswd

definition group_words :: "string list \<Rightarrow> string list" where
  "group_words gs = (if gs \<noteq> [] then [''-G'', join_with '','' gs] else [])"

fun command_tokens :: "linux_command \<Rightarrow> sh_token list" where
  "command_tokens (UserAdd home shell gs login) =
     map Word ([''sudo'', ''useradd'', ''-m'', ''-d'', home, ''-s'', shell] @ group_words gs @ [login])"
| "command_tokens (UserMod shell gs login) =
     map Word ([''sudo'', ''usermod''] @ (case shell of Some s \<Rightarrow> [''-s'', s] | None \<Rightarrow> []) @ group_words gs @ [login])"
| "command_tokens (UserDel home login) =
     map Word ([''sudo'', ''userdel''] @ (if home then [''-r''] else []) @ [login])"
| "command_tokens (DisableUser login) =
     map Word [''sudo'', ''passwd'', ''-l'', login] @ AndIf # map Word [''sudo'', ''chage'', ''-E'', ''0'', login]"
| "command_tokens (EnableUser login) =
     map Word [''sudo'', ''passwd'', ''-u'', login] @ AndIf # map Word [''sudo'', ''chage'', ''-E'', ''-1'', login]"
| "command_tokens (GetUser login) = map Word [''getent'', ''passwd'', login]"
| "command_tokens GetAll = map Word [''getent'', ''passwd'']"
| "command_tokens Id = [Word ''id'']"
| "command_tokens ChPasswd = map Word [''sudo'', ''chpasswd'']"

definition reads_as :: "string \<Rightarrow> string list \<Rightarrow> bool" where
  "reads_as p ws \<longleftrightarrow> sh_words None False p = Some (map Word ws) \<and>
     (\<forall>r. sh_words None False (p @ CHR '' '' # r) = map_option (\<lambda>ts. map Word ws @ ts) (sh_words None False r))"

lemma plain_char_specials: "plain_char c \<Longrightarrow> c \<noteq> CHR 0x27 \<and> c \<noteq> CHR 0x5C \<and> c \<noteq> CHR '' '' \<and> c \<noteq> CHR ''&''"
  by (auto simp: plain_char_def is_alnum_def is_alpha_def is_lower_def is_upper_def is_digit10_def Let_def)

lemma sh_plain: "list_all plain_char w \<Longrightarrow> sh_words (Some v) False (w @ r) = sh_words (Some (v @ w)) False r"
  by (induction w arbitrary: v) (auto dest: plain_char_specials)

lemma reads_plain: "list_all plain_char w \<Longrightarrow> w \<noteq> [] \<Longrightarrow> reads_as w [w]"
proof -
  assume p: "list_all plain_char w" and n: "w \<noteq> []"
  have "sh_words None False (w @ r) = sh_words (Some w) False r" for r
    using p n sh_plain by (cases w) (auto dest: plain_char_specials)
  from this [of "[]"] this show ?thesis by (simp add: reads_as_def emit_def)
qed

lemma reads_arg: "reads_as (arg s) [s]"
  using sh_arg_end [of None s] sh_arg [of None s] by (simp add: reads_as_def emit_def)

lemma reads_append: "reads_as p ws \<Longrightarrow> reads_as q vs \<Longrightarrow> reads_as (p @ CHR '' '' # q) (ws @ vs)"
  by (auto simp: reads_as_def option.map_comp o_def)

lemma reads_flag: "list_all plain_char p \<Longrightarrow> p \<noteq> [] \<Longrightarrow> reads_as (p @ CHR '' '' # arg s) [p, s]"
  using reads_append [OF reads_plain reads_arg] by simp

lemma reads_join:
  "list_all2 reads_as ps wss \<Longrightarrow> ps \<noteq> [] \<Longrightarrow> reads_as (join_with '' '' ps) (concat wss)"
proof (induction ps wss rule: list_all2_induct)
  case (Cons p ps w ws)
  then show ?case
    by (cases "ps = []") (auto intro: reads_append simp: join_Cons)
qed simp

lemma reads_sh: "reads_as p ws \<Longrightarrow> sh p = Some (map Word ws)"
  by (simp add: reads_as_def sh_def)

lemma reads_and: "reads_as p ws \<Longrightarrow> reads_as q vs \<Longrightarrow> sh (p @ '' && '' @ q) = Some (map Word ws @ AndIf # map Word vs)"
  by (simp add: reads_as_def sh_def emit_def)

lemma plain_words:
  "list_all plain_char ''sudo''" "list_all plain_char ''useradd''" "list_all plain_char ''usermod''"
  "list_all plain_char ''userdel''" "list_all plain_char ''passwd''" "list_all plain_char ''chage''"
  "list_all plain_char ''getent''" "list_all plain_char ''id''" "list_all plain_char ''chpasswd''"
  "list_all plain_char ''-m''" "list_all plain_char ''-d''" "list_all plain_char ''-s''" "list_all plain_char ''-G''"
  "list_all plain_char ''-r''" "list_all plain_char ''-l''" "list_all plain_char ''-u''" "list_all plain_char ''-E''"
  "list_all plain_char ''0''" "list_all plain_char ''-1''"
  by code_simp+

lemmas reads_words = plain_words [THEN reads_plain, simplified]
lemmas reads_flags = plain_words [THEN reads_flag, simplified]

lemma reads_two: "list_all plain_char v \<Longrightarrow> list_all plain_char w \<Longrightarrow> v \<noteq> [] \<Longrightarrow> w \<noteq> [] \<Longrightarrow> reads_as (v @ CHR '' '' # w) [v, w]"
  using reads_append [OF reads_plain reads_plain] by simp

lemma join_filter_reads:
  assumes "list_all2 (\<lambda>p ws. p \<noteq> [] \<and> reads_as p ws \<or> p = [] \<and> ws = []) ps wss" "hd ps \<noteq> []" "ps \<noteq> []"
  shows "reads_as (join_with '' '' (filter (\<lambda>p. p \<noteq> []) ps)) (concat wss)"
proof -
  have "\<exists>vss. list_all2 reads_as (filter (\<lambda>p. p \<noteq> []) ps) vss \<and> concat vss = concat wss"
    using assms(1)
  proof (induction rule: list_all2_induct)
    case (Cons p ps ws wss)
    then obtain vss where "list_all2 reads_as (filter (\<lambda>p. p \<noteq> []) ps) vss" "concat vss = concat wss" by blast
    with Cons(1) show ?case by (cases "p = []") (force intro: exI [of _ "ws # vss"])+
  qed simp
  moreover have "filter (\<lambda>p. p \<noteq> []) ps \<noteq> []" using assms(2,3) by (cases ps) auto
  ultimately show ?thesis using reads_join by metis
qed

lemma posix_groups: "linux_groups config data = Inr gs \<Longrightarrow> list_all posix_name gs"
proof -
  have "map_exn checked_group xs = Inr gs \<Longrightarrow> list_all posix_name gs" for xs gs
    by (induction xs arbitrary: gs) (auto simp: ebind_Inr_iff checked_group_def split: if_splits)
  then show "linux_groups config data = Inr gs \<Longrightarrow> list_all posix_name gs"
    by (auto simp: linux_groups_def ebind_Inr_iff Let_def split: prod.splits)
qed

lemma posix_login: "linux_login data params config = Inr login \<Longrightarrow> posix_name login"
  by (auto simp: linux_login_def Let_def split: option.splits if_splits)

lemma reads_literals:
  "reads_as ''sudo useradd'' [''sudo'', ''useradd'']" "reads_as ''sudo usermod'' [''sudo'', ''usermod'']"
  "reads_as ''sudo userdel'' [''sudo'', ''userdel'']" "reads_as ''getent passwd'' [''getent'', ''passwd'']"
  "reads_as ''sudo chpasswd'' [''sudo'', ''chpasswd'']"
  "reads_as ''-m'' [''-m'']" "reads_as ''-r'' [''-r'']" "reads_as ''id'' [''id'']"
  "reads_as (''-d '' @ arg s) [''-d'', s]" "reads_as (''-s '' @ arg s) [''-s'', s]" "reads_as (''-G '' @ arg s) [''-G'', s]"
  using plain_words reads_two reads_flag reads_plain by (metis append_Cons append_Nil list.distinct(1))+

lemma arg_nonempty [simp]: "arg s \<noteq> []"
  by (simp add: arg_def)

lemma reads_groups:
  "(if gs \<noteq> [] then ''-G '' @ arg (join_with '','' gs) else []) \<noteq> [] \<and>
     reads_as (if gs \<noteq> [] then ''-G '' @ arg (join_with '','' gs) else []) (group_words gs) \<or>
   (if gs \<noteq> [] then ''-G '' @ arg (join_with '','' gs) else []) = [] \<and> group_words gs = []"
  using reads_literals(11) [of "join_with '','' gs"] by (simp add: group_words_def)

lemma add_command_reads:
  assumes "userAddCommand config login data = Inr cmd"
  shows "\<exists>home shell gs. list_all posix_name gs \<and> sh cmd = Some (command_tokens (UserAdd home shell gs login))"
proof -
  obtain home gs shell where gs: "linux_groups config data = Inr gs"
    and cmd: "cmd = join_with '' '' (filter (\<lambda>p. p \<noteq> []) [''sudo useradd'', ''-m'', ''-d '' @ arg home,
      ''-s '' @ arg shell, (if gs \<noteq> [] then ''-G '' @ arg (join_with '','' gs) else []), arg login])"
    using assms by (auto simp: userAddCommand_def Let_def ebind_Inr_iff arg_val_def split: jsval.splits)
  have "reads_as cmd (concat [[''sudo'', ''useradd''], [''-m''], [''-d'', home], [''-s'', shell], group_words gs, [login]])"
    unfolding cmd
    by (rule join_filter_reads)
      (simp_all only: list_all2_Cons list_all2_Nil reads_literals reads_arg reads_groups simp_thms, simp_all)
  with posix_groups [OF gs] show ?thesis by (auto dest!: reads_sh)
qed

lemma modify_command_reads:
  assumes "userModifyCommand config login data = Inr cmd"
  shows "\<exists>shell gs. list_all posix_name gs \<and> sh cmd = Some (command_tokens (UserMod shell gs login))"
proof -
  define shell where "shell = firstString [js_get data ''shell'']"
  obtain gs where gs: "linux_groups config data = Inr gs"
    and cmd: "cmd = join_with '' '' ([''sudo usermod''] @ (case shell of Some s \<Rightarrow> [''-s '' @ arg s] | None \<Rightarrow> []) @
      (if gs \<noteq> [] then [''-G '' @ arg (join_with '','' gs)] else []) @ [arg login])"
    using assms unfolding userModifyCommand_def shell_def by (auto simp only: ebind_Inr_iff sum.inject)
  have "list_all2 reads_as ([''sudo usermod''] @ (case shell of Some s \<Rightarrow> [''-s '' @ arg s] | None \<Rightarrow> []) @
      (if gs \<noteq> [] then [''-G '' @ arg (join_with '','' gs)] else []) @ [arg login])
     ([[''sudo'', ''usermod'']] @ (case shell of Some s \<Rightarrow> [[''-s'', s]] | None \<Rightarrow> []) @
      (if gs \<noteq> [] then [group_words gs] else []) @ [[login]])"
    by (intro list_all2_appendI; cases shell; cases gs)
      (simp_all only: list_all2_Cons list_all2_Nil reads_literals reads_arg group_words_def option.case if_True if_False
        list.distinct simp_thms)
  from reads_join [OF this] have "reads_as cmd (concat ([[''sudo'', ''usermod'']] @
      (case shell of Some s \<Rightarrow> [[''-s'', s]] | None \<Rightarrow> []) @ (if gs \<noteq> [] then [group_words gs] else []) @ [[login]]))"
    unfolding cmd by simp
  then have "sh cmd = Some (command_tokens (UserMod shell gs login))"
    by (cases shell) (auto simp: group_words_def dest!: reads_sh)
  with posix_groups [OF gs] show ?thesis by blast
qed

lemma fixed_commands_read:
  "sh (deleteCommand config login) = Some (command_tokens (UserDel (js_get config ''removeHomeOnDelete'' = Bool True) login))"
  "sh (disableCommand login) = Some (command_tokens (DisableUser login))"
  "sh (enableCommand login) = Some (command_tokens (EnableUser login))"
  "sh (getCommand login) = Some (command_tokens (GetUser login))"
  "sh ''getent passwd'' = Some (command_tokens GetAll)" "sh ''id'' = Some (command_tokens Id)"
  "sh ''sudo chpasswd'' = Some (command_tokens ChPasswd)"
proof -
  have del: "reads_as (''sudo userdel '' @ arg login) [''sudo'', ''userdel'', login]"
    "reads_as (''sudo userdel -r '' @ arg login) [''sudo'', ''userdel'', ''-r'', login]"
    using reads_append [OF reads_literals(3) reads_arg [of login]]
      reads_append [OF reads_literals(3) reads_append [OF reads_literals(7) reads_arg [of login]]] by simp_all
  then show "sh (deleteCommand config login) = Some (command_tokens (UserDel (js_get config ''removeHomeOnDelete'' = Bool True) login))"
    by (auto simp: deleteCommand_def dest!: reads_sh)
  have w: "reads_as (''sudo passwd -l '' @ arg login) [''sudo'', ''passwd'', ''-l'', login]"
    "reads_as (''sudo passwd -u '' @ arg login) [''sudo'', ''passwd'', ''-u'', login]"
    "reads_as (''sudo chage -E 0 '' @ arg login) [''sudo'', ''chage'', ''-E'', ''0'', login]"
    "reads_as (''sudo chage -E -1 '' @ arg login) [''sudo'', ''chage'', ''-E'', ''-1'', login]"
    using reads_append [OF reads_two [OF plain_words(1,5)] reads_flag [OF plain_words(15), of login]]
      reads_append [OF reads_two [OF plain_words(1,5)] reads_flag [OF plain_words(16), of login]]
      reads_append [OF reads_two [OF plain_words(1,6)] reads_append [OF reads_two [OF plain_words(17,18)] reads_arg [of login]]]
      reads_append [OF reads_two [OF plain_words(1,6)] reads_append [OF reads_two [OF plain_words(17,19)] reads_arg [of login]]]
    by simp_all
  show "sh (disableCommand login) = Some (command_tokens (DisableUser login))"
    using reads_and [OF w(1,3)] by (simp add: disableCommand_def)
  show "sh (enableCommand login) = Some (command_tokens (EnableUser login))"
    using reads_and [OF w(2,4)] by (simp add: enableCommand_def)
  show "sh (getCommand login) = Some (command_tokens (GetUser login))"
    using reads_append [OF reads_literals(4) reads_arg [of login], THEN reads_sh] by (simp add: getCommand_def)
qed (use reads_literals [THEN reads_sh] in simp_all)

section \<open>Passwords\<close>

lemma chpasswd_exact:
  assumes "posix_name login" "CHR 0x0A \<notin> set password"
  shows "chpasswd_lines (chpasswd_input login password) = [(login, password)]"
proof -
  have name: "c \<noteq> CHR '':'' \<and> c \<noteq> CHR 0x0A" if "c \<in> set login" for c
    using assms(1) that
    by (cases login) (auto simp: posix_name_def list_all_iff is_alnum_def is_alpha_def is_lower_def is_upper_def is_digit10_def Let_def)
  then have n: "CHR 0x0A \<notin> set (login @ '':'' @ password)" using assms(2) by auto
  have "split_on (CHR 0x0A) ((login @ '':'' @ password) @ CHR 0x0A # []) = [login @ '':'' @ password, []]"
    by (simp only: split_on_append [OF n] split_on.simps)
  then have "chpasswd_lines (chpasswd_input login password) = [chpasswd_line (login @ '':'' @ password)]"
    by (simp add: chpasswd_lines_def chpasswd_input_def)
  moreover have "takeWhile (\<lambda>c. c \<noteq> CHR '':'') (login @ CHR '':'' # password) = login"
    "dropWhile (\<lambda>c. c \<noteq> CHR '':'') (login @ CHR '':'' # password) = CHR '':'' # password"
    using name by (simp_all add: takeWhile_append dropWhile_append)
  ultimately show ?thesis by (simp add: chpasswd_line_def)
qed

end
