(* ===== verification/LinuxFleet.thy ===== *)
theory LinuxFleet
  imports TargetApi ErrorMasking
begin

text \<open>
  Models \<open>admin/linux-fleet.service.ts\<close>: the inventory of Linux hosts, their credential profiles
  and the server groups of the target systems of type \<open>linux\<close>. Bodies are untyped JSON objects.
  The tables have the unique constraints, foreign keys and cascades of the database schema; the
  time stamps of the rows are left out.
\<close>

section \<open>The tables\<close>

record profile_row =
  cp_id :: string
  cp_system :: string
  cp_name :: string
  cp_mode :: string
  cp_username :: string
  cp_privateKeyRef :: "string option"
  cp_passwordRef :: "string option"
  cp_enabled :: bool

record host_row =
  lh_id :: string
  lh_system :: string
  lh_profile :: "string option"
  lh_name :: string
  lh_host :: string
  lh_port :: nat
  lh_fingerprint :: string
  lh_enabled :: bool
  lh_metadata :: jsval

record server_group_row =
  lg_id :: string
  lg_system :: string
  lg_code :: string
  lg_name :: string
  lg_description :: "string option"
  lg_enabled :: bool

text \<open>A membership is the pair of the ids of a group and a host.\<close>

record fleet_db = rbac_db +
  profiles :: "profile_row list"
  hosts :: "host_row list"
  server_groups :: "server_group_row list"
  members :: "(string \<times> string) list"

record fleet_call =
  fc_id :: string
  fc_iv :: string
  fc_read :: "exn option"
  fc_write :: "exn option"

definition cp_key :: "profile_row \<Rightarrow> string \<times> string" where
  "cp_key p = (cp_system p, cp_name p)"

definition lh_key :: "host_row \<Rightarrow> string \<times> string" where
  "lh_key h = (lh_system h, lh_name h)"

definition lg_key :: "server_group_row \<Rightarrow> string \<times> string" where
  "lg_key g = (lg_system g, lg_code g)"

definition put_profiles :: "profile_row list \<Rightarrow> 'b fleet_db_scheme \<Rightarrow> 'b fleet_db_scheme" where
  "put_profiles rs w = w\<lparr>profiles := rs\<rparr>"

definition put_hosts :: "host_row list \<Rightarrow> 'b fleet_db_scheme \<Rightarrow> 'b fleet_db_scheme" where
  "put_hosts rs w = w\<lparr>hosts := rs\<rparr>"

definition put_groups :: "server_group_row list \<Rightarrow> 'b fleet_db_scheme \<Rightarrow> 'b fleet_db_scheme" where
  "put_groups rs w = w\<lparr>server_groups := rs\<rparr>"

text \<open>\<open>create\<close>, \<open>update\<close> and \<open>delete\<close> of a table with a primary key and a unique key.\<close>

definition table_insert ::
  "exn option \<Rightarrow> ('w \<Rightarrow> 'r list) \<Rightarrow> ('r list \<Rightarrow> 'w \<Rightarrow> 'w) \<Rightarrow> ('r \<Rightarrow> 'k) \<Rightarrow> 'r \<Rightarrow> ('r, 'w) op" where
  "table_insert fault rows put key r =
     sbind (may_fail fault) (\<lambda>_ w.
       if key r \<in> key ` set (rows w) then raise unique_violation w
       else (Inr r, put (rows w @ [r]) w))"

definition table_update ::
  "exn option \<Rightarrow> ('w \<Rightarrow> 'r list) \<Rightarrow> ('r list \<Rightarrow> 'w \<Rightarrow> 'w) \<Rightarrow> ('r \<Rightarrow> string) \<Rightarrow> ('r \<Rightarrow> 'k) \<Rightarrow>
   string \<Rightarrow> ('r \<Rightarrow> 'r) \<Rightarrow> ('r, 'w) op" where
  "table_update fault rows put pk key i f =
     sbind (may_fail fault) (\<lambda>_ w.
       case find (\<lambda>r. pk r = i) (rows w) of
         None \<Rightarrow> raise no_such_row w
       | Some r \<Rightarrow>
           if \<exists>x \<in> set (rows w). pk x \<noteq> i \<and> key x = key (f r) then raise unique_violation w
           else (Inr (f r), put (map (\<lambda>x. if pk x = i then f x else x) (rows w)) w))"

definition table_delete ::
  "exn option \<Rightarrow> ('w \<Rightarrow> 'r list) \<Rightarrow> ('r list \<Rightarrow> 'w \<Rightarrow> 'w) \<Rightarrow> ('r \<Rightarrow> string) \<Rightarrow> string \<Rightarrow> (unit, 'w) op" where
  "table_delete fault rows put pk i =
     sbind (may_fail fault) (\<lambda>_ w.
       case find (\<lambda>r. pk r = i) (rows w) of
         None \<Rightarrow> raise no_such_row w
       | Some r \<Rightarrow> (Inr (), put (filter (\<lambda>x. pk x \<noteq> i) (rows w)) w))"

definition find_row :: "exn option \<Rightarrow> ('w \<Rightarrow> 'r list) \<Rightarrow> ('r \<Rightarrow> string) \<Rightarrow> string \<Rightarrow> string \<Rightarrow> ('r, 'w) op" where
  "find_row fault rows pk missing i =
     sbind (may_fail fault) (\<lambda>_ w.
       case find (\<lambda>r. pk r = i) (rows w) of None \<Rightarrow> raise (NotFound missing) w | Some r \<Rightarrow> ret r w)"

section \<open>Reading a body\<close>

definition fleet_text :: "jsval \<Rightarrow> string option" where
  "fleet_text v = (case v of Str s \<Rightarrow> if trim s \<noteq> [] then Some (trim s) else None | _ \<Rightarrow> None)"

text \<open>\<open>String(body[k] ?? '')\<close>\<close>

definition body_text :: "obj \<Rightarrow> string \<Rightarrow> string" where
  "body_text b k = string_of_val (coalesce (js_get b k) (Str []))"

definition body_flag :: "obj \<Rightarrow> string \<Rightarrow> bool option" where
  "body_flag b k = (case js_get b k of Bool x \<Rightarrow> Some x | _ \<Rightarrow> None)"

definition body_mode :: "obj \<Rightarrow> string" where
  "body_mode b = (if js_get b ''mode'' = Str ''aapm'' then ''aapm'' else ''env'')"

definition secretMode :: "string \<Rightarrow> string" where
  "secretMode v = (if v = ''aapm'' then ''aapm'' else ''env'')"

record profile_dto =
  pd_name :: string
  pd_mode :: string
  pd_username :: string
  pd_privateKeyRef :: "string option"
  pd_passwordRef :: "string option"
  pd_enabled :: "bool option"

definition credentialProfileDto :: "obj \<Rightarrow> profile_dto" where
  "credentialProfileDto b =
     \<lparr>pd_name = body_text b ''name'', pd_mode = body_mode b, pd_username = body_text b ''username'',
      pd_privateKeyRef = fleet_text (js_get b ''privateKeyRef''),
      pd_passwordRef = fleet_text (js_get b ''passwordRef''), pd_enabled = body_flag b ''enabled''\<rparr>"

text \<open>In the partial forms a missing field is \<open>None\<close>; so is a reference that is no text.\<close>

record profile_patch =
  pp_name :: "string option"
  pp_mode :: "string option"
  pp_username :: "string option"
  pp_privateKeyRef :: "string option"
  pp_passwordRef :: "string option"
  pp_enabled :: "bool option"

definition given :: "obj \<Rightarrow> string \<Rightarrow> 'a \<Rightarrow> 'a option" where
  "given b k x = (if has_key b k then Some x else None)"

definition partialCredentialProfileDto :: "obj \<Rightarrow> profile_patch" where
  "partialCredentialProfileDto b =
     \<lparr>pp_name = given b ''name'' (body_text b ''name''), pp_mode = given b ''mode'' (body_mode b),
      pp_username = given b ''username'' (body_text b ''username''),
      pp_privateKeyRef = fleet_text (js_get b ''privateKeyRef''),
      pp_passwordRef = fleet_text (js_get b ''passwordRef''), pp_enabled = body_flag b ''enabled''\<rparr>"

definition optionalPositiveInteger :: "jsval \<Rightarrow> nat option" where
  "optionalPositiveInteger v = positive_integer v"

record host_dto =
  hd_name :: string
  hd_host :: string
  hd_port :: "nat option"
  hd_fingerprint :: string
  hd_profile :: "string option"
  hd_enabled :: "bool option"
  hd_metadata :: obj

definition body_profile :: "obj \<Rightarrow> string option" where
  "body_profile b = (case js_get b ''credentialProfileId'' of Str s \<Rightarrow> Some s | _ \<Rightarrow> None)"

definition hostDto :: "obj \<Rightarrow> host_dto" where
  "hostDto b =
     \<lparr>hd_name = body_text b ''name'', hd_host = body_text b ''host'',
      hd_port = optionalPositiveInteger (js_get b ''port''), hd_fingerprint = body_text b ''hostFingerprint'',
      hd_profile = body_profile b, hd_enabled = body_flag b ''enabled'', hd_metadata = as_obj (js_get b ''metadata'')\<rparr>"

record host_patch =
  hp_name :: "string option"
  hp_host :: "string option"
  hp_port :: "nat option"
  hp_fingerprint :: "string option"
  hp_profile :: "string option option"
  hp_enabled :: "bool option"
  hp_metadata :: "obj option"

definition partialHostDto :: "obj \<Rightarrow> host_patch" where
  "partialHostDto b =
     \<lparr>hp_name = given b ''name'' (body_text b ''name''), hp_host = given b ''host'' (body_text b ''host''),
      hp_port = (if has_key b ''port'' then optionalPositiveInteger (js_get b ''port'') else None),
      hp_fingerprint = given b ''hostFingerprint'' (body_text b ''hostFingerprint''),
      hp_profile = given b ''credentialProfileId'' (body_profile b), hp_enabled = body_flag b ''enabled'',
      hp_metadata = given b ''metadata'' (as_obj (js_get b ''metadata''))\<rparr>"

record group_dto =
  gd_code :: string
  gd_name :: string
  gd_description :: "string option"
  gd_enabled :: "bool option"

definition serverGroupDto :: "obj \<Rightarrow> group_dto" where
  "serverGroupDto b =
     \<lparr>gd_code = body_text b ''code'', gd_name = body_text b ''name'',
      gd_description = fleet_text (js_get b ''description''), gd_enabled = body_flag b ''enabled''\<rparr>"

record group_patch =
  gp_code :: "string option"
  gp_name :: "string option"
  gp_description :: "string option"
  gp_enabled :: "bool option"

text \<open>A \<open>null\<close> description becomes \<open>optionalText(null)\<close>, which leaves the column as it is.\<close>

definition partialServerGroupDto :: "obj \<Rightarrow> group_patch" where
  "partialServerGroupDto b =
     \<lparr>gp_code = given b ''code'' (body_text b ''code''), gp_name = given b ''name'' (body_text b ''name''),
      gp_description = fleet_text (js_get b ''description''), gp_enabled = body_flag b ''enabled''\<rparr>"

section \<open>Validation\<close>

definition validateCredentialProfile ::
  "string \<Rightarrow> string \<Rightarrow> string \<Rightarrow> string option \<Rightarrow> string option \<Rightarrow> unit result" where
  "validateCredentialProfile name mode username privateKeyRef passwordRef =
     ebind (guard_exn (fleet_text (Str name) \<noteq> None) (BadRequest ''Missing name'')) (\<lambda>_.
     ebind (guard_exn (mode \<in> {''env'', ''aapm''}) (BadRequest ''Linux credential mode must be env or aapm'')) (\<lambda>_.
     ebind (guard_exn (fleet_text (Str username) \<noteq> None) (BadRequest ''Missing username'')) (\<lambda>_.
     guard_exn (Option.bind privateKeyRef (\<lambda>s. fleet_text (Str s)) \<noteq> None \<or>
                Option.bind passwordRef (\<lambda>s. fleet_text (Str s)) \<noteq> None)
       (BadRequest ''Missing privateKeyRef or passwordRef''))))"

definition validateHost :: "string \<Rightarrow> string \<Rightarrow> string \<Rightarrow> nat option \<Rightarrow> unit result" where
  "validateHost name host fingerprint port =
     ebind (guard_exn (fleet_text (Str name) \<noteq> None) (BadRequest ''Missing name'')) (\<lambda>_.
     ebind (guard_exn (fleet_text (Str host) \<noteq> None) (BadRequest ''Missing host'')) (\<lambda>_.
     ebind (guard_exn (fleet_text (Str fingerprint) \<noteq> None) (BadRequest ''Missing hostFingerprint'')) (\<lambda>_.
     guard_exn (port \<noteq> Some 0) (BadRequest ''Invalid port''))))"

text \<open>\<open>/^[A-Za-z0-9_.:-]{1,96}$/\<close>\<close>

definition group_code_ok :: "string \<Rightarrow> bool" where
  "group_code_ok s \<longleftrightarrow> s \<noteq> [] \<and> length s \<le> 96 \<and> list_all (\<lambda>c. is_alnum c \<or> c \<in> set ''_.:-'') s"

definition validateGroup :: "string \<Rightarrow> string \<Rightarrow> unit result" where
  "validateGroup code name =
     (case fleet_text (Str code) of
        None \<Rightarrow> Inl (BadRequest ''Missing code'')
      | Some c \<Rightarrow>
          ebind (guard_exn (group_code_ok c) (BadRequest ''Invalid Linux server group code'')) (\<lambda>_.
          guard_exn (fleet_text (Str name) \<noteq> None) (BadRequest ''Missing name'')))"

section \<open>Operations\<close>

record fleet_env =
  fe_platform :: platform
  fe_settings :: settings
  fe_collate :: "string \<Rightarrow> string \<Rightarrow> bool"

definition requireLinuxTargetSystem :: "fleet_call \<Rightarrow> string \<Rightarrow> (unit, 'b fleet_db_scheme) op" where
  "requireLinuxTargetSystem c i =
     sbind (may_fail (fc_read c)) (\<lambda>_ w.
       case system_by_id (systems w) i of
         None \<Rightarrow> raise (NotFound ''TargetSystem not found'') w
       | Some r \<Rightarrow> if ts_type r \<noteq> ''linux'' then raise (BadRequest ''TargetSystem is not linux'') w else ret () w)"

definition requireCredentialProfile :: "fleet_call \<Rightarrow> string \<Rightarrow> string option \<Rightarrow> (unit, 'b fleet_db_scheme) op" where
  "requireCredentialProfile c sys profile =
     (if \<not> nonblank profile then ret ()
      else sbind (may_fail (fc_read c)) (\<lambda>_ w.
        if \<exists>p \<in> set (profiles w). cp_id p = the profile \<and> cp_system p = sys then ret () w
        else raise (BadRequest ''Credential profile must belong to the same target system'') w))"

definition nonempty :: "string option \<Rightarrow> string option" where
  "nonempty s = (if nonblank s then s else None)"

definition createCredentialProfile :: "fleet_call \<Rightarrow> string \<Rightarrow> obj \<Rightarrow> (profile_row, 'b fleet_db_scheme) op" where
  "createCredentialProfile c sys b =
     (let dto = credentialProfileDto b in
      sbind (requireLinuxTargetSystem c sys) (\<lambda>_.
      sbind (lift_result (validateCredentialProfile (pd_name dto) (pd_mode dto) (pd_username dto)
        (pd_privateKeyRef dto) (pd_passwordRef dto))) (\<lambda>_.
      table_insert (fc_write c) profiles put_profiles cp_key
        \<lparr>cp_id = fc_id c, cp_system = sys, cp_name = trim (pd_name dto), cp_mode = pd_mode dto,
         cp_username = trim (pd_username dto), cp_privateKeyRef = pd_privateKeyRef dto,
         cp_passwordRef = pd_passwordRef dto, cp_enabled = or_else (pd_enabled dto) True\<rparr>)))"

definition coalesce_option :: "'a option \<Rightarrow> 'a option \<Rightarrow> 'a option" where
  "coalesce_option a b = (case a of None \<Rightarrow> b | Some x \<Rightarrow> Some x)"

definition patched_profile :: "profile_patch \<Rightarrow> profile_row \<Rightarrow> profile_row" where
  "patched_profile d p =
     p\<lparr>cp_name := or_else (map_option trim (pp_name d)) (cp_name p), cp_mode := or_else (pp_mode d) (cp_mode p),
       cp_username := or_else (map_option trim (pp_username d)) (cp_username p),
       cp_privateKeyRef := coalesce_option (pp_privateKeyRef d) (cp_privateKeyRef p),
       cp_passwordRef := coalesce_option (pp_passwordRef d) (cp_passwordRef p),
       cp_enabled := or_else (pp_enabled d) (cp_enabled p)\<rparr>"

definition updateCredentialProfile :: "fleet_call \<Rightarrow> string \<Rightarrow> obj \<Rightarrow> (profile_row, 'b fleet_db_scheme) op" where
  "updateCredentialProfile c i b =
     sbind (find_row (fc_read c) profiles cp_id ''Linux credential profile not found'' i) (\<lambda>current.
     let d = partialCredentialProfileDto b in
     sbind (lift_result (validateCredentialProfile (or_else (pp_name d) (cp_name current))
        (or_else (pp_mode d) (secretMode (cp_mode current))) (or_else (pp_username d) (cp_username current))
        (coalesce_option (pp_privateKeyRef d) (cp_privateKeyRef current))
        (coalesce_option (pp_passwordRef d) (cp_passwordRef current)))) (\<lambda>_.
     table_update (fc_write c) profiles put_profiles cp_id cp_key i (patched_profile d)))"

text \<open>The hosts that use a deleted profile lose it.\<close>

definition unlink_profile :: "string \<Rightarrow> 'b fleet_db_scheme \<Rightarrow> 'b fleet_db_scheme" where
  "unlink_profile i w =
     w\<lparr>hosts := map (\<lambda>h. if lh_profile h = Some i then h\<lparr>lh_profile := None\<rparr> else h) (hosts w)\<rparr>"

definition deleteCredentialProfile :: "fleet_call \<Rightarrow> string \<Rightarrow> (unit, 'b fleet_db_scheme) op" where
  "deleteCredentialProfile c i =
     sbind (table_delete (fc_write c) profiles put_profiles cp_id i) (\<lambda>_. modify (unlink_profile i))"

definition createHost :: "fleet_env \<Rightarrow> fleet_call \<Rightarrow> string \<Rightarrow> obj \<Rightarrow> (host_row, 'b fleet_db_scheme) op" where
  "createHost env c sys b =
     (let dto = hostDto b in
      sbind (requireLinuxTargetSystem c sys) (\<lambda>_.
      sbind (lift_result (validateHost (hd_name dto) (hd_host dto) (hd_fingerprint dto) (hd_port dto))) (\<lambda>_.
      sbind (requireCredentialProfile c sys (hd_profile dto)) (\<lambda>_.
      sbind (lift_result (toJson (fe_platform env) (fe_settings env) (fc_iv c) (Obj (hd_metadata dto)))) (\<lambda>metadata.
      table_insert (fc_write c) hosts put_hosts lh_key
        \<lparr>lh_id = fc_id c, lh_system = sys, lh_profile = nonempty (hd_profile dto), lh_name = trim (hd_name dto),
         lh_host = trim (hd_host dto), lh_port = or_else (hd_port dto) 22,
         lh_fingerprint = trim (hd_fingerprint dto), lh_enabled = or_else (hd_enabled dto) True,
         lh_metadata = metadata\<rparr>)))))"

definition patched_host :: "host_patch \<Rightarrow> jsval option \<Rightarrow> host_row \<Rightarrow> host_row" where
  "patched_host d metadata h =
     h\<lparr>lh_name := or_else (map_option trim (hp_name d)) (lh_name h),
       lh_host := or_else (map_option trim (hp_host d)) (lh_host h), lh_port := or_else (hp_port d) (lh_port h),
       lh_fingerprint := or_else (map_option trim (hp_fingerprint d)) (lh_fingerprint h),
       lh_profile := (case hp_profile d of None \<Rightarrow> lh_profile h | Some p \<Rightarrow> nonempty p),
       lh_enabled := or_else (hp_enabled d) (lh_enabled h), lh_metadata := or_else metadata (lh_metadata h)\<rparr>"

definition updateHost :: "fleet_env \<Rightarrow> fleet_call \<Rightarrow> string \<Rightarrow> obj \<Rightarrow> (host_row, 'b fleet_db_scheme) op" where
  "updateHost env c i b =
     sbind (find_row (fc_read c) hosts lh_id ''Linux host not found'' i) (\<lambda>current.
     let d = partialHostDto b in
     sbind (lift_result (validateHost (or_else (hp_name d) (lh_name current)) (or_else (hp_host d) (lh_host current))
        (or_else (hp_fingerprint d) (lh_fingerprint current)) (Some (or_else (hp_port d) (lh_port current))))) (\<lambda>_.
     sbind (requireCredentialProfile c (lh_system current) (or_else (hp_profile d) None)) (\<lambda>_.
     sbind (lift_result (case hp_metadata d of None \<Rightarrow> Inr None
       | Some m \<Rightarrow> ebind (toJson (fe_platform env) (fe_settings env) (fc_iv c) (Obj m)) (\<lambda>v. Inr (Some v)))) (\<lambda>metadata.
     table_update (fc_write c) hosts put_hosts lh_id lh_key i (patched_host d metadata)))))"

definition deleteHost :: "fleet_call \<Rightarrow> string \<Rightarrow> (unit, 'b fleet_db_scheme) op" where
  "deleteHost c i =
     sbind (table_delete (fc_write c) hosts put_hosts lh_id i) (\<lambda>_.
     modify (\<lambda>w. w\<lparr>members := filter (\<lambda>m. snd m \<noteq> i) (members w)\<rparr>))"

definition createGroup :: "fleet_call \<Rightarrow> string \<Rightarrow> obj \<Rightarrow> (server_group_row, 'b fleet_db_scheme) op" where
  "createGroup c sys b =
     (let dto = serverGroupDto b in
      sbind (requireLinuxTargetSystem c sys) (\<lambda>_.
      sbind (lift_result (validateGroup (gd_code dto) (gd_name dto))) (\<lambda>_.
      table_insert (fc_write c) server_groups put_groups lg_key
        \<lparr>lg_id = fc_id c, lg_system = sys, lg_code = trim (gd_code dto), lg_name = trim (gd_name dto),
         lg_description = gd_description dto, lg_enabled = or_else (gd_enabled dto) True\<rparr>)))"

definition patched_group :: "group_patch \<Rightarrow> server_group_row \<Rightarrow> server_group_row" where
  "patched_group d g =
     g\<lparr>lg_code := or_else (map_option trim (gp_code d)) (lg_code g),
       lg_name := or_else (map_option trim (gp_name d)) (lg_name g),
       lg_description := coalesce_option (gp_description d) (lg_description g),
       lg_enabled := or_else (gp_enabled d) (lg_enabled g)\<rparr>"

definition updateGroup :: "fleet_call \<Rightarrow> string \<Rightarrow> obj \<Rightarrow> (server_group_row, 'b fleet_db_scheme) op" where
  "updateGroup c i b =
     sbind (find_row (fc_read c) server_groups lg_id ''Linux server group not found'' i) (\<lambda>current.
     let d = partialServerGroupDto b in
     sbind (lift_result (validateGroup (or_else (gp_code d) (lg_code current)) (or_else (gp_name d) (lg_name current)))) (\<lambda>_.
     table_update (fc_write c) server_groups put_groups lg_id lg_key i (patched_group d)))"

definition deleteGroup :: "fleet_call \<Rightarrow> string \<Rightarrow> (unit, 'b fleet_db_scheme) op" where
  "deleteGroup c i =
     sbind (table_delete (fc_write c) server_groups put_groups lg_id i) (\<lambda>_.
     modify (\<lambda>w. w\<lparr>members := filter (\<lambda>m. fst m \<noteq> i) (members w)\<rparr>))"

definition setGroupHosts :: "fleet_call \<Rightarrow> string \<Rightarrow> string list \<Rightarrow> (string \<times> string list, 'b fleet_db_scheme) op" where
  "setGroupHosts c groupId hostIds =
     sbind (find_row (fc_read c) server_groups lg_id ''Linux server group not found'' groupId) (\<lambda>group.
     sbind (may_fail (fc_read c)) (\<lambda>_ w.
       let ids = unique hostIds;
           known = filter (\<lambda>h. lh_id h \<in> set ids \<and> lh_system h = lg_system group) (hosts w) in
       if length known \<noteq> length ids
       then raise (BadRequest ''All hosts must belong to the same target system as the group'') w
       else sbind (may_fail (fc_write c)) (\<lambda>_ w.
         (Inr (groupId, ids),
          w\<lparr>members := filter (\<lambda>m. fst m \<noteq> groupId) (members w) @ map (\<lambda>h. (groupId, h)) ids\<rparr>)) w))"

section \<open>Listing\<close>

record list_params =
  lp_limit :: "int option"
  lp_offset :: "int option"
  lp_search :: "string option"
  lp_enabled :: "bool option"

definition list_limit :: "int option \<Rightarrow> nat" where
  "list_limit v = nat (min (max (or_else v 50) 1) 500)"

text \<open>\<open>skip\<close> with a negative number is refused by the database client.\<close>

definition list_rows ::
  "fleet_env \<Rightarrow> fleet_call \<Rightarrow> list_params \<Rightarrow> ('b fleet_db_scheme \<Rightarrow> 'r list) \<Rightarrow> ('r \<Rightarrow> string) \<Rightarrow> ('r \<Rightarrow> bool) \<Rightarrow>
   ('r list, 'b fleet_db_scheme) op" where
  "list_rows env c p rows name matches =
     sbind (may_fail (fc_read c)) (\<lambda>_ w.
       if or_else (lp_offset p) 0 < 0 then raise (JsError ''Invalid value for skip argument'') w
       else ret (take (list_limit (lp_limit p)) (drop (nat (or_else (lp_offset p) 0))
              (map snd (locale_sort (fe_collate env) (map (\<lambda>r. (name r, r)) (filter matches (rows w))))))) w)"

definition search_matches :: "string option \<Rightarrow> string list \<Rightarrow> bool" where
  "search_matches s texts \<longleftrightarrow> (if nonblank s then list_ex (str_includes (the s)) texts else True)"

definition flag_matches :: "bool option \<Rightarrow> bool \<Rightarrow> bool" where
  "flag_matches want b \<longleftrightarrow> (case want of None \<Rightarrow> True | Some x \<Rightarrow> b = x)"

definition listCredentialProfiles :: "fleet_env \<Rightarrow> fleet_call \<Rightarrow> string \<Rightarrow> list_params \<Rightarrow> (profile_row list, 'b fleet_db_scheme) op" where
  "listCredentialProfiles env c sys p =
     sbind (requireLinuxTargetSystem c sys) (\<lambda>_.
     list_rows env c p profiles cp_name (\<lambda>r. cp_system r = sys \<and> flag_matches (lp_enabled p) (cp_enabled r) \<and>
       search_matches (lp_search p) [cp_name r]))"

text \<open>A listed host carries its decrypted metadata, its profile and its groups.\<close>

definition listed_host :: "fleet_env \<Rightarrow> 'b fleet_db_scheme \<Rightarrow> host_row \<Rightarrow>
  (host_row \<times> jsval \<times> profile_row option \<times> server_group_row list) result" where
  "listed_host env w h =
     ebind (fromJson (fe_platform env) (fe_settings env) (lh_metadata h)) (\<lambda>m.
       Inr (h, m, find (\<lambda>p. Some (cp_id p) = lh_profile h) (profiles w),
            concat (map (\<lambda>m. filter (\<lambda>g. lg_id g = fst m) (server_groups w)) (filter (\<lambda>m. snd m = lh_id h) (members w)))))"

definition listHosts :: "fleet_env \<Rightarrow> fleet_call \<Rightarrow> string \<Rightarrow> list_params \<Rightarrow>
  ((host_row \<times> jsval \<times> profile_row option \<times> server_group_row list) list, 'b fleet_db_scheme) op" where
  "listHosts env c sys p =
     sbind (requireLinuxTargetSystem c sys) (\<lambda>_.
     sbind (list_rows env c p hosts lh_name (\<lambda>r. lh_system r = sys \<and> flag_matches (lp_enabled p) (lh_enabled r) \<and>
       search_matches (lp_search p) [lh_name r, lh_host r])) (\<lambda>rows w.
     lift_result (map_exn (listed_host env w) rows) w))"

definition listGroups :: "fleet_env \<Rightarrow> fleet_call \<Rightarrow> string \<Rightarrow> list_params \<Rightarrow> ((server_group_row \<times> nat) list, 'b fleet_db_scheme) op" where
  "listGroups env c sys p =
     sbind (requireLinuxTargetSystem c sys) (\<lambda>_.
     sbind (list_rows env c p server_groups lg_code (\<lambda>r. lg_system r = sys \<and> flag_matches (lp_enabled p) (lg_enabled r) \<and>
       search_matches (lp_search p) [lg_code r, lg_name r])) (\<lambda>rows w.
     ret (map (\<lambda>g. (g, length (filter (\<lambda>m. fst m = lg_id g) (members w)))) rows) w))"

section \<open>Tables with a primary and a unique key\<close>

text \<open>
  What the three tables share: the row operations keep the ids and the unique keys distinct, and
  keep any property of single rows that the new row has.
\<close>

locale keyed_table =
  fixes rows :: "'w \<Rightarrow> 'r list"
    and put :: "'r list \<Rightarrow> 'w \<Rightarrow> 'w"
    and pk :: "'r \<Rightarrow> string"
    and key :: "'r \<Rightarrow> 'k"
  assumes rows_put: "rows (put rs w) = rs"
begin

definition table_ok :: "('r \<Rightarrow> bool) \<Rightarrow> 'w \<Rightarrow> bool" where
  "table_ok good w \<longleftrightarrow> distinct (map pk (rows w)) \<and> distinct (map key (rows w)) \<and> (\<forall>r \<in> set (rows w). good r)"

lemma same_id: "table_ok good w \<Longrightarrow> r \<in> set (rows w) \<Longrightarrow> x \<in> set (rows w) \<Longrightarrow> pk x = pk r \<Longrightarrow> x = r"
  by (auto simp: table_ok_def distinct_map dest: inj_onD)

lemma insert_ok:
  "table_ok good w \<Longrightarrow> good r \<Longrightarrow> pk r \<notin> pk ` set (rows w) \<Longrightarrow> key r \<notin> key ` set (rows w) \<Longrightarrow>
   table_ok good (put (rows w @ [r]) w)"
  by (auto simp: table_ok_def rows_put)

lemma update_ok:
  assumes ok: "table_ok good w" and pk: "\<And>r. pk (f r) = pk r" and r: "r \<in> set (rows w)" "pk r = i"
    and good: "good (f r)" and free: "\<forall>y \<in> set (rows w). pk y \<noteq> i \<longrightarrow> key y \<noteq> key (f r)"
  shows "table_ok good (put (map (\<lambda>x. if pk x = i then f x else x) (rows w)) w)"
proof -
  have d: "distinct (map pk (rows w))" "distinct (map key (rows w))" using ok by (simp_all add: table_ok_def)
  have "distinct (map key (map (\<lambda>x. if pk x = i then f x else x) (rows w)))"
    by (rule distinct_update [OF d r]) (use free in blast)
  moreover have "map pk (map (\<lambda>x. if pk x = i then f x else x) (rows w)) = map pk (rows w)"
    by (rule map_update_same) (rule pk)
  moreover have "\<forall>x \<in> set (map (\<lambda>x. if pk x = i then f x else x) (rows w)). good x"
    using ok good same_id [OF ok r(1)] r(2) by (auto simp: table_ok_def)
  ultimately show ?thesis using d(1) unfolding table_ok_def rows_put by (simp only:)
qed

lemma filter_keeps: "table_ok good w \<Longrightarrow> rows w' = filter P (rows w) \<Longrightarrow> table_ok good w'"
  by (auto simp: table_ok_def distinct_map_filter)

lemma same_rows: "table_ok good w \<Longrightarrow> rows w' = rows w \<Longrightarrow> table_ok good w'"
  by (simp add: table_ok_def)

end

interpretation profile_table: keyed_table profiles put_profiles cp_id cp_key
  by unfold_locales (simp add: put_profiles_def)

interpretation host_table: keyed_table hosts put_hosts lh_id lh_key
  by unfold_locales (simp add: put_hosts_def)

interpretation group_table: keyed_table server_groups put_groups lg_id lg_key
  by unfold_locales (simp add: put_groups_def)

section \<open>The inventory is well formed\<close>

definition clean :: "string \<Rightarrow> bool" where
  "clean s \<longleftrightarrow> s \<noteq> [] \<and> trim s = s"

definition profile_ok :: "profile_row \<Rightarrow> bool" where
  "profile_ok p \<longleftrightarrow> clean (cp_name p) \<and> clean (cp_username p) \<and> cp_mode p \<in> {''env'', ''aapm''} \<and>
     (cp_privateKeyRef p \<noteq> None \<or> cp_passwordRef p \<noteq> None) \<and>
     pred_option clean (cp_privateKeyRef p) \<and> pred_option clean (cp_passwordRef p)"

definition host_ok :: "host_row \<Rightarrow> bool" where
  "host_ok h \<longleftrightarrow> clean (lh_name h) \<and> clean (lh_host h) \<and> clean (lh_fingerprint h) \<and> 0 < lh_port h"

definition group_ok :: "server_group_row \<Rightarrow> bool" where
  "group_ok g \<longleftrightarrow> group_code_ok (lg_code g) \<and> clean (lg_name g)"

text \<open>A host and its profile, a group and its hosts belong to one target system.\<close>

definition profile_linked :: "profile_row list \<Rightarrow> host_row \<Rightarrow> bool" where
  "profile_linked ps h \<longleftrightarrow> (\<forall>c. lh_profile h = Some c \<longrightarrow> (\<exists>p \<in> set ps. cp_id p = c \<and> cp_system p = lh_system h))"

definition member_linked :: "server_group_row list \<Rightarrow> host_row list \<Rightarrow> string \<times> string \<Rightarrow> bool" where
  "member_linked gs hs m \<longleftrightarrow> (\<exists>g \<in> set gs. \<exists>h \<in> set hs. lg_id g = fst m \<and> lh_id h = snd m \<and> lg_system g = lh_system h)"

definition fleet_ok :: "'b fleet_db_scheme \<Rightarrow> bool" where
  "fleet_ok w \<longleftrightarrow> profile_table.table_ok profile_ok w \<and> host_table.table_ok host_ok w \<and> group_table.table_ok group_ok w \<and>
     (\<forall>h \<in> set (hosts w). profile_linked (profiles w) h) \<and>
     (\<forall>m \<in> set (members w). member_linked (server_groups w) (hosts w) m) \<and> distinct (members w)"

section \<open>Requests\<close>

datatype fleet_request =
    CreateProfile string obj
  | UpdateProfile string obj
  | DeleteProfile string
  | CreateHost string obj
  | UpdateHost string obj
  | DeleteHost string
  | CreateGroup string obj
  | UpdateGroup string obj
  | DeleteGroup string
  | SetGroupHosts string "string list"

fun run_fleet :: "fleet_env \<Rightarrow> fleet_call \<Rightarrow> fleet_request \<Rightarrow> 'b fleet_db_scheme \<Rightarrow> 'b fleet_db_scheme" where
  "run_fleet env c (CreateProfile s b) w = snd (createCredentialProfile c s b w)"
| "run_fleet env c (UpdateProfile i b) w = snd (updateCredentialProfile c i b w)"
| "run_fleet env c (DeleteProfile i) w = snd (deleteCredentialProfile c i w)"
| "run_fleet env c (CreateHost s b) w = snd (createHost env c s b w)"
| "run_fleet env c (UpdateHost i b) w = snd (updateHost env c i b w)"
| "run_fleet env c (DeleteHost i) w = snd (deleteHost c i w)"
| "run_fleet env c (CreateGroup s b) w = snd (createGroup c s b w)"
| "run_fleet env c (UpdateGroup i b) w = snd (updateGroup c i b w)"
| "run_fleet env c (DeleteGroup i) w = snd (deleteGroup c i w)"
| "run_fleet env c (SetGroupHosts i hs) w = snd (setGroupHosts c i hs w)"

definition fresh_id :: "fleet_call \<Rightarrow> 'b fleet_db_scheme \<Rightarrow> bool" where
  "fresh_id c w \<longleftrightarrow> fc_id c \<notin> cp_id ` set (profiles w) \<union> lh_id ` set (hosts w) \<union> lg_id ` set (server_groups w)"

text \<open>The schema's cascade when a target system is deleted.\<close>

definition drop_system :: "string \<Rightarrow> 'b fleet_db_scheme \<Rightarrow> 'b fleet_db_scheme" where
  "drop_system i w =
     (let gs = filter (\<lambda>g. lg_system g \<noteq> i) (server_groups w); hs = filter (\<lambda>h. lh_system h \<noteq> i) (hosts w) in
      w\<lparr>systems := filter (\<lambda>s. sys_id s \<noteq> i) (systems w), profiles := filter (\<lambda>p. cp_system p \<noteq> i) (profiles w),
        hosts := hs, server_groups := gs,
        members := filter (\<lambda>m. fst m \<in> lg_id ` set gs \<and> snd m \<in> lh_id ` set hs) (members w)\<rparr>)"

inductive fleet_steps :: "'b fleet_db_scheme \<Rightarrow> 'b fleet_db_scheme \<Rightarrow> bool" where
  start: "fleet_steps w w"
| request: "fleet_steps w0 w \<Longrightarrow> fresh_id c w \<Longrightarrow> fleet_steps w0 (run_fleet env c req w)"
| dropped: "fleet_steps w0 w \<Longrightarrow> fleet_steps w0 (drop_system i w)"
| elsewhere: "fleet_steps w0 w \<Longrightarrow> fleet_steps w0 (w\<lparr>systems := ss\<rparr>)"

section \<open>Reads change nothing\<close>

lemma fleet_reads [simp]:
  "snd (requireLinuxTargetSystem c i w) = w" "snd (requireCredentialProfile c sys p w) = w"
  "snd (find_row fl rows pk m i v) = v" "snd (lift_result r v) = v" "snd (may_fail fl v) = v"
proof -
  show "snd (requireLinuxTargetSystem c i w) = w" "snd (requireCredentialProfile c sys p w) = w"
    by (cases "fc_read c"; simp add: requireLinuxTargetSystem_def requireCredentialProfile_def split: option.split)+
  show "snd (find_row fl rows pk m i v) = v" "snd (lift_result r v) = v" "snd (may_fail fl v) = v"
    by (cases fl; simp add: find_row_def split: option.split)+
qed

lemma find_row_Inr: "find_row fl rows pk m i w = (Inr r, w') \<Longrightarrow> r \<in> set (rows w) \<and> pk r = i"
  by (cases fl) (auto simp: find_row_def find_Some_iff split: option.splits)

lemma require_profile_Inr:
  "requireCredentialProfile c sys p w = (Inr u, w') \<Longrightarrow> nonempty p = Some i \<Longrightarrow>
   \<exists>r \<in> set (profiles w). cp_id r = i \<and> cp_system r = sys"
  by (cases "fc_read c") (auto simp: requireCredentialProfile_def nonempty_def split: if_splits)

lemma fleet_text_clean: "fleet_text v = Some s \<Longrightarrow> clean s"
  by (auto simp: fleet_text_def clean_def split: jsval.splits if_splits)

lemma fleet_text_trim: "fleet_text (Str s) = Some y \<Longrightarrow> clean (trim s)"
  by (auto simp: fleet_text_def clean_def split: if_splits)

lemma validate_profile_Inr:
  assumes "validateCredentialProfile n m u k p = Inr x"
  shows "clean (trim n)" "clean (trim u)" "m \<in> {''env'', ''aapm''}" "k \<noteq> None \<or> p \<noteq> None"
  using assms by (auto simp: validateCredentialProfile_def ebind_Inr_iff dest!: fleet_text_trim)

lemma validate_host_Inr:
  assumes "validateHost n h f p = Inr x"
  shows "clean (trim n)" "clean (trim h)" "clean (trim f)" "p \<noteq> Some 0"
  using assms by (auto simp: validateHost_def ebind_Inr_iff dest!: fleet_text_trim)

lemma validate_group_Inr:
  assumes "validateGroup code n = Inr x"
  shows "group_code_ok (trim code)" "clean (trim n)"
  using assms
  by (auto simp: validateGroup_def ebind_Inr_iff fleet_text_def clean_def split: option.splits if_splits)

section \<open>Every request keeps the inventory well formed\<close>

text \<open>Rules that follow an operation: a read that fails, or is followed by nothing, changes nothing.\<close>

lemma after_read:
  assumes "\<And>v. snd (m v) = v" "I w" "\<And>a. m w = (Inr a, w) \<Longrightarrow> I (snd (f a w))"
  shows "I (snd (sbind m f w))"
proof -
  obtain x v where m: "m w = (x, v)" by fastforce
  with assms(1) [of w] have "v = w" by simp
  with m assms(2,3) show ?thesis by (cases x) (auto simp: sbind_def)
qed

lemma after_lift: "I w \<Longrightarrow> (\<And>a. r = Inr a \<Longrightarrow> I (snd (f a w))) \<Longrightarrow> I (snd (sbind (lift_result r) f w))"
  by (cases r) auto

lemma after_insert:
  "I w \<Longrightarrow> (key r \<notin> key ` set (rows w) \<Longrightarrow> I (put (rows w @ [r]) w)) \<Longrightarrow> I (snd (table_insert fl rows put key r w))"
  by (cases fl) (auto simp: table_insert_def)

lemma after_update:
  "I w \<Longrightarrow> (\<And>r. r \<in> set (rows w) \<Longrightarrow> pk r = i \<Longrightarrow> \<forall>y \<in> set (rows w). pk y \<noteq> i \<longrightarrow> key y \<noteq> key (f r) \<Longrightarrow>
     I (put (map (\<lambda>x. if pk x = i then f x else x) (rows w)) w)) \<Longrightarrow> I (snd (table_update fl rows put pk key i f w))"
  by (cases fl) (auto simp: table_update_def find_Some_iff in_set_conv_nth split: option.split)

lemma after_delete:
  "I w \<Longrightarrow> I (g (put (filter (\<lambda>r. pk r \<noteq> i) (rows w)) w)) \<Longrightarrow>
   I (snd (sbind (table_delete fl rows put pk i) (\<lambda>_. modify g) w))"
  by (cases fl) (auto simp: table_delete_def sbind_def split: option.split)

lemmas fleet_after = after_read [where I = fleet_ok, OF fleet_reads(1)] after_read [where I = fleet_ok, OF fleet_reads(2)]
  after_lift [where I = fleet_ok] after_read [where I = fleet_ok, OF fleet_reads(3)]

lemmas profile_after = after_insert [where I = fleet_ok and rows = profiles and put = put_profiles and key = cp_key]
  after_update [where I = fleet_ok and rows = profiles and put = put_profiles and key = cp_key and pk = cp_id]

lemmas host_after = after_insert [where I = fleet_ok and rows = hosts and put = put_hosts and key = lh_key]
  after_update [where I = fleet_ok and rows = hosts and put = put_hosts and key = lh_key and pk = lh_id]

lemmas group_after = after_insert [where I = fleet_ok and rows = server_groups and put = put_groups and key = lg_key]
  after_update [where I = fleet_ok and rows = server_groups and put = put_groups and key = lg_key and pk = lg_id]

lemma fleet_okI:
  "profile_table.table_ok profile_ok w \<Longrightarrow> host_table.table_ok host_ok w \<Longrightarrow> group_table.table_ok group_ok w \<Longrightarrow>
   (\<And>h. h \<in> set (hosts w) \<Longrightarrow> profile_linked (profiles w) h) \<Longrightarrow>
   (\<And>m. m \<in> set (members w) \<Longrightarrow> member_linked (server_groups w) (hosts w) m) \<Longrightarrow> distinct (members w) \<Longrightarrow> fleet_ok w"
  by (simp add: fleet_ok_def)

lemma fleet_okD:
  assumes "fleet_ok w"
  shows "profile_table.table_ok profile_ok w" "host_table.table_ok host_ok w" "group_table.table_ok group_ok w"
    "h \<in> set (hosts w) \<Longrightarrow> profile_linked (profiles w) h"
    "m \<in> set (members w) \<Longrightarrow> member_linked (server_groups w) (hosts w) m" "distinct (members w)"
  using assms by (simp_all add: fleet_ok_def)

lemma row_good:
  "fleet_ok w \<Longrightarrow> p \<in> set (profiles w) \<Longrightarrow> profile_ok p" "fleet_ok w \<Longrightarrow> h \<in> set (hosts w) \<Longrightarrow> host_ok h"
  "fleet_ok w \<Longrightarrow> g \<in> set (server_groups w) \<Longrightarrow> group_ok g"
  by (auto simp: fleet_ok_def profile_table.table_ok_def host_table.table_ok_def group_table.table_ok_def)

lemma linked_mono: "profile_linked ps h \<Longrightarrow> set ps \<subseteq> set qs \<Longrightarrow> profile_linked qs h"
  by (auto simp: profile_linked_def)

lemma member_mono: "member_linked gs hs m \<Longrightarrow> set gs \<subseteq> set gs' \<Longrightarrow> set hs \<subseteq> set hs' \<Longrightarrow> member_linked gs' hs' m"
  unfolding member_linked_def by blast

lemma linked_map:
  assumes "profile_linked ps h" "\<And>p. cp_id (f p) = cp_id p" "\<And>p. cp_system (f p) = cp_system p"
  shows "profile_linked (map f ps) h"
  using assms unfolding profile_linked_def by fastforce

lemma member_map:
  assumes "member_linked gs hs m" "\<And>g. lg_id (f g) = lg_id g" "\<And>g. lg_system (f g) = lg_system g"
    and "\<And>h. lh_id (k h) = lh_id h" "\<And>h. lh_system (k h) = lh_system h"
  shows "member_linked (map f gs) (map k hs) m"
proof -
  obtain g h where gh: "g \<in> set gs" "h \<in> set hs" "lg_id g = fst m" "lh_id h = snd m" "lg_system g = lh_system h"
    using assms(1) unfolding member_linked_def by blast
  then have "f g \<in> set (map f gs)" "k h \<in> set (map k hs)" by simp_all
  with gh assms(2-5) show ?thesis unfolding member_linked_def by metis
qed

lemmas table_simps = put_profiles_def put_hosts_def put_groups_def

lemma add_profile:
  assumes "fleet_ok w" "profile_ok r" "cp_id r \<notin> cp_id ` set (profiles w)" "cp_key r \<notin> cp_key ` set (profiles w)"
  shows "fleet_ok (put_profiles (profiles w @ [r]) w)"
proof (rule fleet_okI)
  fix h assume "h \<in> set (hosts (put_profiles (profiles w @ [r]) w))"
  with fleet_okD(4) [OF assms(1)] have "profile_linked (profiles w) h" by (simp add: table_simps)
  then show "profile_linked (profiles (put_profiles (profiles w @ [r]) w)) h"
    by (rule linked_mono) (auto simp: table_simps)
qed (use assms in \<open>auto simp: fleet_ok_def table_simps profile_table.table_ok_def host_table.table_ok_def group_table.table_ok_def\<close>)

lemma add_host:
  assumes "fleet_ok w" "host_ok r" "lh_id r \<notin> lh_id ` set (hosts w)" "lh_key r \<notin> lh_key ` set (hosts w)"
    and "profile_linked (profiles w) r"
  shows "fleet_ok (put_hosts (hosts w @ [r]) w)"
proof (rule fleet_okI)
  fix m assume "m \<in> set (members (put_hosts (hosts w @ [r]) w))"
  with fleet_okD(5) [OF assms(1)] have "member_linked (server_groups w) (hosts w) m" by (simp add: table_simps)
  then show "member_linked (server_groups (put_hosts (hosts w @ [r]) w)) (hosts (put_hosts (hosts w @ [r]) w)) m"
    by (rule member_mono) (auto simp: table_simps)
qed (use assms in \<open>auto simp: fleet_ok_def table_simps profile_table.table_ok_def host_table.table_ok_def group_table.table_ok_def\<close>)

lemma add_group:
  assumes "fleet_ok w" "group_ok r" "lg_id r \<notin> lg_id ` set (server_groups w)" "lg_key r \<notin> lg_key ` set (server_groups w)"
  shows "fleet_ok (put_groups (server_groups w @ [r]) w)"
proof (rule fleet_okI)
  fix m assume "m \<in> set (members (put_groups (server_groups w @ [r]) w))"
  with fleet_okD(5) [OF assms(1)] have "member_linked (server_groups w) (hosts w) m" by (simp add: table_simps)
  then show "member_linked (server_groups (put_groups (server_groups w @ [r]) w)) (hosts (put_groups (server_groups w @ [r]) w)) m"
    by (rule member_mono) (auto simp: table_simps)
qed (use assms in \<open>auto simp: fleet_ok_def table_simps profile_table.table_ok_def host_table.table_ok_def group_table.table_ok_def\<close>)

lemma create_profile_keeps:
  assumes "fleet_ok w" "fresh_id c w"
  shows "fleet_ok (snd (createCredentialProfile c s b w))"
  unfolding createCredentialProfile_def Let_def
proof (intro fleet_after profile_after add_profile assms(1))
  fix v assume v: "validateCredentialProfile (pd_name (credentialProfileDto b)) (pd_mode (credentialProfileDto b))
    (pd_username (credentialProfileDto b)) (pd_privateKeyRef (credentialProfileDto b)) (pd_passwordRef (credentialProfileDto b)) = Inr v"
  show "profile_ok \<lparr>cp_id = fc_id c, cp_system = s, cp_name = trim (pd_name (credentialProfileDto b)),
     cp_mode = pd_mode (credentialProfileDto b), cp_username = trim (pd_username (credentialProfileDto b)),
     cp_privateKeyRef = pd_privateKeyRef (credentialProfileDto b), cp_passwordRef = pd_passwordRef (credentialProfileDto b),
     cp_enabled = or_else (pd_enabled (credentialProfileDto b)) True\<rparr>"
    using validate_profile_Inr [OF v]
    by (auto simp: profile_ok_def credentialProfileDto_def pred_option_def elem_set intro: fleet_text_clean)
qed (use assms(2) in \<open>simp_all add: fresh_id_def\<close>)

lemma create_host_keeps:
  assumes "fleet_ok w" "fresh_id c w"
  shows "fleet_ok (snd (createHost env c s b w))"
  unfolding createHost_def Let_def
proof (intro fleet_after host_after add_host assms(1))
  let ?d = "hostDto b"
  fix v u m
  let ?r = "\<lparr>lh_id = fc_id c, lh_system = s, lh_profile = nonempty (hd_profile ?d), lh_name = trim (hd_name ?d),
     lh_host = trim (hd_host ?d), lh_port = or_else (hd_port ?d) 22, lh_fingerprint = trim (hd_fingerprint ?d),
     lh_enabled = or_else (hd_enabled ?d) True, lh_metadata = m\<rparr>"
  assume v: "validateHost (hd_name ?d) (hd_host ?d) (hd_fingerprint ?d) (hd_port ?d) = Inr v"
    and req: "requireCredentialProfile c s (hd_profile ?d) w = (Inr u, w)"
  have "0 < lh_port ?r"
    by (cases "hd_port ?d") (auto simp: hostDto_def optionalPositiveInteger_def dest: positive_integer_pos)
  then show "host_ok ?r" using validate_host_Inr [OF v] by (simp add: host_ok_def)
  show "profile_linked (profiles w) ?r" using require_profile_Inr [OF req] by (auto simp: profile_linked_def)
qed (use assms(2) in \<open>simp_all add: fresh_id_def\<close>)

lemma create_group_keeps:
  assumes "fleet_ok w" "fresh_id c w"
  shows "fleet_ok (snd (createGroup c s b w))"
  unfolding createGroup_def Let_def
proof (intro fleet_after group_after add_group assms(1))
  fix v assume v: "validateGroup (gd_code (serverGroupDto b)) (gd_name (serverGroupDto b)) = Inr v"
  show "group_ok \<lparr>lg_id = fc_id c, lg_system = s, lg_code = trim (gd_code (serverGroupDto b)),
     lg_name = trim (gd_name (serverGroupDto b)), lg_description = gd_description (serverGroupDto b),
     lg_enabled = or_else (gd_enabled (serverGroupDto b)) True\<rparr>"
    using validate_group_Inr [OF v] by (simp add: group_ok_def)
qed (use assms(2) in \<open>simp_all add: fresh_id_def\<close>)

text \<open>A changed row that keeps its id, its target system and what points to it.\<close>

lemma change_profile:
  assumes "fleet_ok w" "\<And>r. cp_id (f r) = cp_id r" "\<And>r. cp_system (f r) = cp_system r"
    and "p \<in> set (profiles w)" "cp_id p = i" "profile_ok (f p)"
    and free: "\<forall>y \<in> set (profiles w). cp_id y \<noteq> i \<longrightarrow> cp_key y \<noteq> cp_key (f p)"
  shows "fleet_ok (put_profiles (map (\<lambda>x. if cp_id x = i then f x else x) (profiles w)) w)" (is "fleet_ok ?w")
proof (rule fleet_okI)
  show "profile_table.table_ok profile_ok ?w"
    by (rule profile_table.update_ok [OF fleet_okD(1) [OF assms(1)] assms(2,4,5,6) free])
next
  fix h assume "h \<in> set (hosts ?w)"
  with fleet_okD(4) [OF assms(1)] have "profile_linked (profiles w) h" by (simp add: table_simps)
  then show "profile_linked (profiles ?w) h"
    unfolding table_simps using linked_map [of "profiles w" h "\<lambda>x. if cp_id x = i then f x else x"] assms(2,3) by simp
qed (use assms(1) in \<open>simp_all add: fleet_ok_def table_simps host_table.table_ok_def group_table.table_ok_def\<close>)

lemma change_host:
  assumes "fleet_ok w" "\<And>r. lh_id (f r) = lh_id r" "\<And>r. lh_system (f r) = lh_system r"
    and "p \<in> set (hosts w)" "lh_id p = i" "host_ok (f p)" "profile_linked (profiles w) (f p)"
    and free: "\<forall>y \<in> set (hosts w). lh_id y \<noteq> i \<longrightarrow> lh_key y \<noteq> lh_key (f p)"
  shows "fleet_ok (put_hosts (map (\<lambda>x. if lh_id x = i then f x else x) (hosts w)) w)" (is "fleet_ok ?w")
proof (rule fleet_okI)
  have only: "x = p" if "x \<in> set (hosts w)" "lh_id x = i" for x
    using host_table.same_id [OF fleet_okD(2) [OF assms(1)] assms(4)] that assms(5) by simp
  show "host_table.table_ok host_ok ?w"
    by (rule host_table.update_ok [OF fleet_okD(2) [OF assms(1)] assms(2,4,5,6) free])
  show "profile_linked (profiles ?w) h" if "h \<in> set (hosts ?w)" for h
    using that fleet_okD(4) [OF assms(1)] assms(7) only by (auto simp: table_simps split: if_splits)
next
  fix m assume "m \<in> set (members ?w)"
  with fleet_okD(5) [OF assms(1)] have "member_linked (server_groups w) (hosts w) m" by (simp add: table_simps)
  then show "member_linked (server_groups ?w) (hosts ?w) m"
    unfolding table_simps
    using member_map [of "server_groups w" "hosts w" m "\<lambda>g. g" "\<lambda>x. if lh_id x = i then f x else x"] assms(2,3) by simp
qed (use assms(1) in \<open>simp_all add: fleet_ok_def table_simps profile_table.table_ok_def group_table.table_ok_def\<close>)

lemma change_group:
  assumes "fleet_ok w" "\<And>r. lg_id (f r) = lg_id r" "\<And>r. lg_system (f r) = lg_system r"
    and "p \<in> set (server_groups w)" "lg_id p = i" "group_ok (f p)"
    and free: "\<forall>y \<in> set (server_groups w). lg_id y \<noteq> i \<longrightarrow> lg_key y \<noteq> lg_key (f p)"
  shows "fleet_ok (put_groups (map (\<lambda>x. if lg_id x = i then f x else x) (server_groups w)) w)" (is "fleet_ok ?w")
proof (rule fleet_okI)
  show "group_table.table_ok group_ok ?w"
    by (rule group_table.update_ok [OF fleet_okD(3) [OF assms(1)] assms(2,4,5,6) free])
next
  fix m assume "m \<in> set (members ?w)"
  with fleet_okD(5) [OF assms(1)] have "member_linked (server_groups w) (hosts w) m" by (simp add: table_simps)
  then show "member_linked (server_groups ?w) (hosts ?w) m"
    unfolding table_simps
    using member_map [of "server_groups w" "hosts w" m "\<lambda>x. if lg_id x = i then f x else x" "\<lambda>h. h"] assms(2,3) by simp
qed (use assms(1) in \<open>simp_all add: fleet_ok_def table_simps profile_table.table_ok_def host_table.table_ok_def\<close>)

lemma clean_keep: "pred_option clean y \<Longrightarrow> pred_option clean x \<Longrightarrow> pred_option clean (coalesce_option y x)"
  by (cases y) (simp_all add: coalesce_option_def)

lemma text_field: "clean x \<Longrightarrow> clean (trim (or_else y x)) \<Longrightarrow> clean (or_else (map_option trim y) x)"
  by (cases y) simp_all

lemma update_profile_keeps:
  assumes "fleet_ok w"
  shows "fleet_ok (snd (updateCredentialProfile c i b w))"
  unfolding updateCredentialProfile_def Let_def
proof (intro fleet_after profile_after assms)
  let ?d = "partialCredentialProfileDto b"
  fix p v r
  assume find: "find_row (fc_read c) profiles cp_id ''Linux credential profile not found'' i w = (Inr p, w)"
    and v: "validateCredentialProfile (or_else (pp_name ?d) (cp_name p)) (or_else (pp_mode ?d) (secretMode (cp_mode p)))
        (or_else (pp_username ?d) (cp_username p)) (coalesce_option (pp_privateKeyRef ?d) (cp_privateKeyRef p))
        (coalesce_option (pp_passwordRef ?d) (cp_passwordRef p)) = Inr v"
    and r: "r \<in> set (profiles w)" "cp_id r = i"
    and free: "\<forall>y \<in> set (profiles w). cp_id y \<noteq> i \<longrightarrow> cp_key y \<noteq> cp_key (patched_profile ?d r)"
  have p: "r = p" using find_row_Inr [OF find] r profile_table.same_id [OF fleet_okD(1) [OF assms]] by metis
  have refs: "pred_option clean (pp_privateKeyRef ?d)" "pred_option clean (pp_passwordRef ?d)"
    "pred_option (\<lambda>m. m \<in> {''env'', ''aapm''}) (pp_mode ?d)"
    by (auto simp: partialCredentialProfileDto_def pred_option_def elem_set given_def body_mode_def intro: fleet_text_clean)
  have old: "profile_ok p" using row_good(1) [OF assms] r p by simp
  have "clean (cp_name (patched_profile ?d p))" "clean (cp_username (patched_profile ?d p))"
    using text_field validate_profile_Inr [OF v] old by (simp_all add: patched_profile_def profile_ok_def)
  moreover have "cp_mode (patched_profile ?d p) \<in> {''env'', ''aapm''}"
    using refs(3) old by (cases "pp_mode ?d") (auto simp: patched_profile_def profile_ok_def)
  ultimately have "profile_ok (patched_profile ?d r)"
    using refs old validate_profile_Inr(4) [OF v] clean_keep p by (simp add: profile_ok_def patched_profile_def)
  then show "fleet_ok (put_profiles (map (\<lambda>x. if cp_id x = i then patched_profile ?d x else x) (profiles w)) w)"
    by (intro change_profile [where f = "patched_profile ?d" and p = r] assms r free)
      (simp_all add: patched_profile_def)
qed

lemma update_host_keeps:
  assumes "fleet_ok w"
  shows "fleet_ok (snd (updateHost env c i b w))"
  unfolding updateHost_def Let_def
proof (intro fleet_after host_after assms)
  let ?d = "partialHostDto b"
  fix p v u m r
  assume find: "find_row (fc_read c) hosts lh_id ''Linux host not found'' i w = (Inr p, w)"
    and v: "validateHost (or_else (hp_name ?d) (lh_name p)) (or_else (hp_host ?d) (lh_host p))
        (or_else (hp_fingerprint ?d) (lh_fingerprint p)) (Some (or_else (hp_port ?d) (lh_port p))) = Inr v"
    and req: "requireCredentialProfile c (lh_system p) (or_else (hp_profile ?d) None) w = (Inr u, w)"
    and r: "r \<in> set (hosts w)" "lh_id r = i"
    and free: "\<forall>y \<in> set (hosts w). lh_id y \<noteq> i \<longrightarrow> lh_key y \<noteq> lh_key (patched_host ?d m r)"
  have p: "r = p" using find_row_Inr [OF find] r host_table.same_id [OF fleet_okD(2) [OF assms]] by metis
  have "host_ok p" using row_good(2) [OF assms] r p by simp
  then have "host_ok (patched_host ?d m r)"
    using text_field validate_host_Inr [OF v] p by (simp add: host_ok_def patched_host_def)
  moreover have "profile_linked (profiles w) (patched_host ?d m r)"
  proof (cases "hp_profile ?d")
    case None
    with fleet_okD(4) [OF assms r(1)] show ?thesis by (simp add: profile_linked_def patched_host_def)
  next
    case (Some q)
    with require_profile_Inr [OF req] show ?thesis by (auto simp: profile_linked_def patched_host_def p)
  qed
  ultimately show "fleet_ok (put_hosts (map (\<lambda>x. if lh_id x = i then patched_host ?d m x else x) (hosts w)) w)"
    by (intro change_host [where f = "patched_host ?d m" and p = r] assms r free)
      (simp_all add: patched_host_def)
qed

lemma update_group_keeps:
  assumes "fleet_ok w"
  shows "fleet_ok (snd (updateGroup c i b w))"
  unfolding updateGroup_def Let_def
proof (intro fleet_after group_after assms)
  let ?d = "partialServerGroupDto b"
  fix p v r
  assume find: "find_row (fc_read c) server_groups lg_id ''Linux server group not found'' i w = (Inr p, w)"
    and v: "validateGroup (or_else (gp_code ?d) (lg_code p)) (or_else (gp_name ?d) (lg_name p)) = Inr v"
    and r: "r \<in> set (server_groups w)" "lg_id r = i"
    and free: "\<forall>y \<in> set (server_groups w). lg_id y \<noteq> i \<longrightarrow> lg_key y \<noteq> lg_key (patched_group ?d r)"
  have p: "r = p" using find_row_Inr [OF find] r group_table.same_id [OF fleet_okD(3) [OF assms]] by metis
  have "group_ok p" using row_good(3) [OF assms] r p by simp
  then have "group_ok (patched_group ?d r)"
    using text_field validate_group_Inr [OF v] p by (cases "gp_code ?d") (simp_all add: group_ok_def patched_group_def)
  then show "fleet_ok (put_groups (map (\<lambda>x. if lg_id x = i then patched_group ?d x else x) (server_groups w)) w)"
    by (intro change_group [where f = "patched_group ?d" and p = r] assms r free)
      (simp_all add: patched_group_def)
qed

text \<open>Rows that go, with what the schema's foreign keys take along.\<close>

lemmas table_ok_defs = profile_table.table_ok_def host_table.table_ok_def group_table.table_ok_def

lemma unlinked_id [simp]: "lh_id (if P then h\<lparr>lh_profile := None\<rparr> else h) = lh_id h"
  and unlinked_key [simp]: "lh_key (if P then h\<lparr>lh_profile := None\<rparr> else h) = lh_key h"
  by (simp_all add: lh_key_def)

lemma drop_profile:
  assumes "fleet_ok w"
  shows "fleet_ok (unlink_profile i (put_profiles (filter (\<lambda>r. cp_id r \<noteq> i) (profiles w)) w))" (is "fleet_ok ?w")
proof (rule fleet_okI)
  let ?f = "\<lambda>h. if lh_profile h = Some i then h\<lparr>lh_profile := None\<rparr> else h"
  show "profile_table.table_ok profile_ok ?w"
    by (rule profile_table.filter_keeps [of profile_ok w, OF fleet_okD(1) [OF assms]])
      (simp add: unlink_profile_def table_simps)
  have "map lh_id (hosts ?w) = map lh_id (hosts w)" "map lh_key (hosts ?w) = map lh_key (hosts w)"
    by (simp_all add: unlink_profile_def table_simps comp_def)
  moreover have "\<forall>h \<in> set (hosts ?w). host_ok h"
    using row_good(2) [OF assms] by (auto simp: unlink_profile_def table_simps host_ok_def)
  ultimately show "host_table.table_ok host_ok ?w"
    using fleet_okD(2) [OF assms] unfolding host_table.table_ok_def by metis
  show "group_table.table_ok group_ok ?w"
    using fleet_okD(3) [OF assms] by (simp add: unlink_profile_def table_simps group_table.table_ok_def)
  show "profile_linked (profiles ?w) h" if "h \<in> set (hosts ?w)" for h
    using that fleet_okD(4) [OF assms] by (fastforce simp: unlink_profile_def table_simps profile_linked_def)
  show "member_linked (server_groups ?w) (hosts ?w) m" if "m \<in> set (members ?w)" for m
    using that fleet_okD(5) [OF assms] member_map [of "server_groups w" "hosts w" m "\<lambda>g. g" ?f]
    by (simp add: unlink_profile_def table_simps)
  show "distinct (members ?w)" using fleet_okD(6) [OF assms] by (simp add: unlink_profile_def table_simps)
qed

lemma filtered_tables:
  fixes w w' :: "'b fleet_db_scheme"
  assumes "fleet_ok w"
    and "profiles w' = filter P (profiles w)" "hosts w' = filter H (hosts w)" "server_groups w' = filter G (server_groups w)"
  shows "profile_table.table_ok profile_ok w'" "host_table.table_ok host_ok w'" "group_table.table_ok group_ok w'"
  using profile_table.filter_keeps [OF fleet_okD(1) [OF assms(1)] assms(2)]
    host_table.filter_keeps [OF fleet_okD(2) [OF assms(1)] assms(3)]
    group_table.filter_keeps [OF fleet_okD(3) [OF assms(1)] assms(4)] by simp_all

lemma drop_rows:
  fixes w w' :: "'b fleet_db_scheme"
  assumes ok: "fleet_ok w"
    and rows: "profiles w' = filter P (profiles w)" "hosts w' = filter H (hosts w)"
      "server_groups w' = filter G (server_groups w)" "members w' = filter M (members w)"
    and profile_stays: "\<And>h p. h \<in> set (hosts w) \<Longrightarrow> H h \<Longrightarrow> p \<in> set (profiles w) \<Longrightarrow> cp_system p = lh_system h \<Longrightarrow> P p"
    and members_stay: "\<And>g h. g \<in> set (server_groups w) \<Longrightarrow> h \<in> set (hosts w) \<Longrightarrow> M (lg_id g, lh_id h) \<Longrightarrow> G g \<and> H h"
  shows "fleet_ok w'"
proof (rule fleet_okI)
  show "profile_linked (profiles w') h" if "h \<in> set (hosts w')" for h
    using that fleet_okD(4) [OF ok] profile_stays unfolding rows profile_linked_def by fastforce
  show "member_linked (server_groups w') (hosts w') m" if "m \<in> set (members w')" for m
  proof -
    from that have m: "m \<in> set (members w)" "M m" unfolding rows by simp_all
    from fleet_okD(5) [OF ok m(1)] obtain g h where "g \<in> set (server_groups w)" "h \<in> set (hosts w)"
      "lg_id g = fst m" "lh_id h = snd m" "lg_system g = lh_system h" unfolding member_linked_def by blast
    moreover from this m(2) have "G g \<and> H h" by (intro members_stay) simp_all
    ultimately show ?thesis unfolding rows member_linked_def by auto
  qed
  show "distinct (members w')" using fleet_okD(6) [OF ok] unfolding rows by simp
qed (rule filtered_tables [OF ok rows(1,2,3)])+

lemma id_stays: "x \<in> set xs \<Longrightarrow> Q x \<Longrightarrow> pk x = i \<Longrightarrow> i \<in> pk ` set (filter Q xs)"
  by auto

lemma delete_profile_keeps: "fleet_ok w \<Longrightarrow> fleet_ok (snd (deleteCredentialProfile c i w))"
  unfolding deleteCredentialProfile_def
  by (rule after_delete [where I = fleet_ok]) (simp_all add: drop_profile)

lemma delete_host_keeps:
  assumes "fleet_ok w"
  shows "fleet_ok (snd (deleteHost c i w))"
  unfolding deleteHost_def
proof (rule after_delete [where I = fleet_ok, OF assms])
  show "fleet_ok ((put_hosts (filter (\<lambda>r. lh_id r \<noteq> i) (hosts w)) w)
      \<lparr>members := filter (\<lambda>m. snd m \<noteq> i) (members (put_hosts (filter (\<lambda>r. lh_id r \<noteq> i) (hosts w)) w))\<rparr>)"
    by (rule drop_rows [OF assms, where P = "\<lambda>_. True" and H = "\<lambda>r. lh_id r \<noteq> i" and G = "\<lambda>_. True"
        and M = "\<lambda>m. snd m \<noteq> i"]) (simp_all add: table_simps)
qed

lemma delete_group_keeps:
  assumes "fleet_ok w"
  shows "fleet_ok (snd (deleteGroup c i w))"
  unfolding deleteGroup_def
proof (rule after_delete [where I = fleet_ok, OF assms])
  show "fleet_ok ((put_groups (filter (\<lambda>r. lg_id r \<noteq> i) (server_groups w)) w)
      \<lparr>members := filter (\<lambda>m. fst m \<noteq> i) (members (put_groups (filter (\<lambda>r. lg_id r \<noteq> i) (server_groups w)) w))\<rparr>)"
    by (rule drop_rows [OF assms, where P = "\<lambda>_. True" and H = "\<lambda>_. True" and G = "\<lambda>r. lg_id r \<noteq> i"
        and M = "\<lambda>m. fst m \<noteq> i"]) (simp_all add: table_simps)
qed

lemma drop_system_keeps: "fleet_ok w \<Longrightarrow> fleet_ok (drop_system i w)"
  by (rule drop_rows [where P = "\<lambda>p. cp_system p \<noteq> i" and H = "\<lambda>h. lh_system h \<noteq> i" and G = "\<lambda>g. lg_system g \<noteq> i"
      and M = "\<lambda>m. fst m \<in> lg_id ` set (filter (\<lambda>g. lg_system g \<noteq> i) (server_groups w)) \<and>
        snd m \<in> lh_id ` set (filter (\<lambda>h. lh_system h \<noteq> i) (hosts w))"])
    (auto simp: drop_system_def Let_def dest: group_table.same_id [OF fleet_okD(3)] host_table.same_id [OF fleet_okD(2)])

lemma other_tables_keep: "fleet_ok w \<Longrightarrow> fleet_ok (w\<lparr>systems := ss\<rparr>)"
  by (simp add: fleet_ok_def table_ok_defs)

text \<open>
  The new members are hosts of the group's system: as many hosts with these ids are found there as
  there are ids.
\<close>

lemma all_found:
  assumes "distinct (map lh_id hs)" "distinct ids"
    and "length (filter (\<lambda>h. lh_id h \<in> set ids \<and> P h) hs) = length ids" "i \<in> set ids"
  shows "\<exists>h \<in> set hs. lh_id h = i \<and> P h"
proof -
  let ?found = "map lh_id (filter (\<lambda>h. lh_id h \<in> set ids \<and> P h) hs)"
  have "set ?found \<subseteq> set ids" by auto
  moreover have "card (set ?found) = card (set ids)"
    using assms(1-3) distinct_map_filter [OF assms(1)] by (simp only: distinct_card length_map)
  ultimately have "set ?found = set ids" by (intro card_subset_eq) auto
  with assms(4) have "i \<in> set ?found" by (simp only:)
  then show ?thesis by auto
qed

lemma regroup:
  assumes ok: "fleet_ok w" and g: "g \<in> set (server_groups w)" "lg_id g = i" and ids: "distinct ids"
    and found: "length (filter (\<lambda>h. lh_id h \<in> set ids \<and> lh_system h = lg_system g) (hosts w)) = length ids"
  shows "fleet_ok (w\<lparr>members := filter (\<lambda>m. fst m \<noteq> i) (members w) @ map (\<lambda>h. (i, h)) ids\<rparr>)" (is "fleet_ok ?w")
proof (rule fleet_okI)
  show "member_linked (server_groups ?w) (hosts ?w) m" if "m \<in> set (members ?w)" for m
  proof (cases "m \<in> set (members w)")
    case True
    with fleet_okD(5) [OF ok] show ?thesis by simp
  next
    case False
    with that obtain h where m: "m = (i, h)" "h \<in> set ids" by auto
    have "distinct (map lh_id (hosts w))" using fleet_okD(2) [OF ok] by (simp add: host_table.table_ok_def)
    from all_found [OF this ids found m(2)] obtain x where "x \<in> set (hosts w)" "lh_id x = h" "lh_system x = lg_system g"
      by blast
    with g m(1) show ?thesis unfolding member_linked_def by force
  qed
  show "distinct (members ?w)" using fleet_okD(6) [OF ok] ids by (auto simp: distinct_map inj_on_def)
qed (use ok fleet_okD(4) [OF ok] in \<open>simp_all add: fleet_ok_def table_ok_defs\<close>)

lemma set_hosts_run:
  "snd (sbind (may_fail None) (\<lambda>_ w. (Inr a, f w)) w) = f w" "snd (sbind (may_fail (Some e)) k w) = w"
  by (simp_all add: sbind_def)

lemma set_hosts_keeps:
  assumes "fleet_ok w"
  shows "fleet_ok (snd (setGroupHosts c i hs w))"
  unfolding setGroupHosts_def Let_def
proof (rule fleet_after(4) [OF assms], rule after_read [where I = fleet_ok, OF fleet_reads(5) assms])
  fix g u
  assume "find_row (fc_read c) server_groups lg_id ''Linux server group not found'' i w = (Inr g, w)"
  from find_row_Inr [OF this] have g: "g \<in> set (server_groups w)" "lg_id g = i" by blast+
  show "fleet_ok (snd (if length (filter (\<lambda>h. lh_id h \<in> set (unique hs) \<and> lh_system h = lg_system g) (hosts w)) \<noteq> length (unique hs)
       then raise (BadRequest ''All hosts must belong to the same target system as the group'') w
       else sbind (may_fail (fc_write c)) (\<lambda>_ w. (Inr (i, unique hs),
          w\<lparr>members := filter (\<lambda>m. fst m \<noteq> i) (members w) @ map (\<lambda>h. (i, h)) (unique hs)\<rparr>)) w))"
  proof (cases "length (filter (\<lambda>h. lh_id h \<in> set (unique hs) \<and> lh_system h = lg_system g) (hosts w)) = length (unique hs)")
    case True
    then show ?thesis
      by (cases "fc_write c")
        (simp_all only: set_hosts_run not_True_eq_False simp_thms if_False assms regroup [OF assms g unique_distinct True])
  qed (use assms in simp)
qed

lemma run_fleet_keeps: "fleet_ok w \<Longrightarrow> fresh_id c w \<Longrightarrow> fleet_ok (run_fleet env c req w)"
  by (cases req) (simp_all add: create_profile_keeps update_profile_keeps delete_profile_keeps create_host_keeps
      update_host_keeps delete_host_keeps create_group_keeps update_group_keeps delete_group_keeps set_hosts_keeps)

section \<open>Reachable inventories\<close>

text \<open>
  C20: from a well formed inventory, no sequence of requests, valid or not, failing or not, and no
  deletion of a target system leads to one that is not: ids, and names within a target system, are
  unique; names, addresses and fingerprints are trimmed and not empty, ports are positive, group codes
  well formed; a profile has a known mode and at least one secret reference; a host uses only a profile,
  and a group lists only hosts (each once), that exist in the same target system.
\<close>

theorem fleet_inventory_invariant:
  assumes "fleet_steps w0 w" "fleet_ok w0"
  shows "fleet_ok w"
  using assms(1,2)
proof induction
  case (request w0 w c env req)
  then show ?case by (intro run_fleet_keeps) simp_all
next
  case (dropped w0 w i)
  then show ?case by (intro drop_system_keeps) simp
next
  case (elsewhere w0 w ss)
  then show ?case by (intro other_tables_keep) simp
qed

definition demo_host :: "string \<Rightarrow> string \<Rightarrow> host_row" where
  "demo_host i s =
     \<lparr>lh_id = i, lh_system = s, lh_profile = None, lh_name = i, lh_host = i, lh_port = 22, lh_fingerprint = ''f'',
      lh_enabled = True, lh_metadata = Null\<rparr>"

definition demo_fleet :: "(string \<times> string) list \<Rightarrow> fleet_db" where
  "demo_fleet ms =
     \<lparr>systems = [], roles = [], mappings = [], profiles = [],
      hosts = [demo_host ''h1'' ''s'', demo_host ''h2'' ''t''],
      server_groups = [\<lparr>lg_id = ''g'', lg_system = ''s'', lg_code = ''web'', lg_name = ''Web'', lg_description = None,
        lg_enabled = True\<rparr>], members = ms\<rparr>"

definition demo_fleet_call :: fleet_call where
  "demo_fleet_call = \<lparr>fc_id = ''n'', fc_iv = [], fc_read = None, fc_write = None\<rparr>"

lemma demo_code_ok: "group_code_ok ''web''"
  by code_simp

lemma demo_fleet_ok: "fleet_ok (demo_fleet [])"
  by (simp add: fleet_ok_def table_ok_defs demo_fleet_def demo_host_def lh_key_def host_ok_def group_ok_def
      profile_linked_def demo_code_ok clean_def trim_def)

theorem fleet_inventory_invariant_witness:
  "\<forall>env. fleet_ok (run_fleet env demo_fleet_call (SetGroupHosts ''g'' [''h1'', ''h1'']) (demo_fleet [])) \<and>
     run_fleet env demo_fleet_call (SetGroupHosts ''g'' [''h1'', ''h1'']) (demo_fleet []) = demo_fleet [(''g'', ''h1'')] \<and>
     run_fleet env demo_fleet_call (SetGroupHosts ''g'' [''h2'']) (demo_fleet []) = demo_fleet []"
proof (intro allI conjI)
  fix env
  let ?w = "demo_fleet []"
  have "fresh_id demo_fleet_call ?w" by (simp add: fresh_id_def demo_fleet_call_def demo_fleet_def demo_host_def)
  then have "fleet_steps ?w (run_fleet env demo_fleet_call (SetGroupHosts ''g'' [''h1'', ''h1'']) ?w)"
    by (intro fleet_steps.request fleet_steps.start)
  from fleet_inventory_invariant [OF this demo_fleet_ok]
  show "fleet_ok (run_fleet env demo_fleet_call (SetGroupHosts ''g'' [''h1'', ''h1'']) ?w)" .
qed (simp_all add: setGroupHosts_def find_row_def unique_def demo_fleet_def demo_fleet_call_def demo_host_def sbind_def)

end
