(* ===== verification/TlsOptions.thy ===== *)
theory TlsOptions
  imports JsNumber
begin

text \<open>
  Models \<open>security/tls-options.factory.ts\<close>: the TLS options of outgoing connections and of the
  inbound server, from a stored configuration or from the environment. Reading a file is a
  parameter; the options are handed to the TLS library.
\<close>

section \<open>Options of a connection\<close>

record tls_env =
  te_process :: "string \<Rightarrow> string option"
  te_config :: "string \<Rightarrow> string option"
  te_readFile :: "jsval \<Rightarrow> string result"

record tls_options =
  to_rejectUnauthorized :: bool
  to_ca :: "jsval option"
  to_cert :: "jsval option"
  to_key :: "jsval option"
  to_servername :: "jsval option"

definition toBoolean :: "jsval \<Rightarrow> bool \<Rightarrow> bool" where
  "toBoolean v defaultValue = (case v of Undef \<Rightarrow> defaultValue | Bool b \<Rightarrow> b | _ \<Rightarrow> v = Str ''true'')"

definition tls_isEnabled :: "jsval \<Rightarrow> bool" where
  "tls_isEnabled tls = toBoolean (js_get (as_obj tls) ''enabled'') False"

text \<open>\<open>value.replace(/\\n/g, '\n')\<close>: the two characters become a line feed.\<close>

fun unescape_newlines :: "string \<Rightarrow> string" where
  "unescape_newlines (c # d # s) =
     (if c = CHR 0x5C \<and> d = CHR ''n'' then CHR 0x0A # unescape_newlines s else c # unescape_newlines (d # s))"
| "unescape_newlines s = s"

definition escaped_newline :: string where
  "escaped_newline = [CHR 0x5C, CHR ''n'']"

text \<open>An array has an \<open>includes\<close>, but no \<open>replace\<close>.\<close>

definition normalizePem :: "jsval \<Rightarrow> jsval result" where
  "normalizePem v =
     (case v of
        Str s \<Rightarrow> Inr (Str (if str_includes escaped_newline s then unescape_newlines s else s))
      | Arr xs \<Rightarrow> if Str escaped_newline \<in> set xs then Inl (JsError ''TypeError'') else Inr v
      | _ \<Rightarrow> Inl (JsError ''TypeError''))"

definition readPem :: "tls_env \<Rightarrow> jsval \<Rightarrow> jsval \<Rightarrow> jsval result" where
  "readPem env v path =
     (if truthy v then normalizePem v
      else if \<not> truthy path then Inl (JsError ''TLS PEM value or path is required'')
      else ebind (te_readFile env path) (\<lambda>s. Inr (Str s)))"

definition optional_pem :: "tls_env \<Rightarrow> obj \<Rightarrow> string \<Rightarrow> string \<Rightarrow> jsval option result" where
  "optional_pem env tls k pathKey =
     (if truthy (js_get tls k) \<or> truthy (js_get tls pathKey)
      then ebind (readPem env (js_get tls k) (js_get tls pathKey)) (\<lambda>v. Inr (Some v)) else Inr None)"

definition buildTlsOptions :: "tls_env \<Rightarrow> obj \<Rightarrow> tls_options result" where
  "buildTlsOptions env tls =
     (let reject = (if js_get tls ''rejectUnauthorized'' \<noteq> Undef then toBoolean (js_get tls ''rejectUnauthorized'') False
                    else toBoolean (js_get tls ''verify'') True) in
      ebind (optional_pem env tls ''ca'' ''caPath'') (\<lambda>ca.
      ebind (optional_pem env tls ''cert'' ''certPath'') (\<lambda>cert.
      ebind (optional_pem env tls ''key'' ''keyPath'') (\<lambda>key.
      Inr \<lparr>to_rejectUnauthorized = reject, to_ca = ca, to_cert = cert, to_key = key,
           to_servername = (if truthy (js_get tls ''serverName'') then Some (js_get tls ''serverName'') else None)\<rparr>))))"

definition assertTlsUrl :: "string \<Rightarrow> string \<Rightarrow> unit result" where
  "assertTlsUrl url connectionName =
     (if starts_with ''https://'' (to_lower url) then Inr ()
      else Inl (JsError (connectionName @ '' TLS is enabled, but URL does not use https://'')))"

definition axiosConfig :: "tls_env \<Rightarrow> string \<Rightarrow> jsval \<Rightarrow> string \<Rightarrow> tls_options option result" where
  "axiosConfig env url tls connectionName =
     (if \<not> truthy tls \<or> \<not> tls_isEnabled tls then Inr None
      else ebind (assertTlsUrl url connectionName) (\<lambda>_.
        ebind (buildTlsOptions env (as_obj tls)) (\<lambda>o'. Inr (Some o'))))"

section \<open>Options from the environment\<close>

definition read_setting :: "tls_env \<Rightarrow> string \<Rightarrow> jsval" where
  "read_setting env k =
     (case te_process env k of Some s \<Rightarrow> Str s
      | None \<Rightarrow> (case te_config env k of Some s \<Rightarrow> Str s | None \<Rightarrow> Undef))"

definition fromEnv :: "tls_env \<Rightarrow> string \<Rightarrow> obj" where
  "fromEnv env pre =
     map (\<lambda>(k, suffix). (k, read_setting env (pre @ suffix)))
       [(''enabled'', ''_ENABLED''), (''verify'', ''_VERIFY''), (''rejectUnauthorized'', ''_REJECT_UNAUTHORIZED''),
        (''ca'', ''_CA''), (''caPath'', ''_CA_PATH''), (''cert'', ''_CERT''), (''certPath'', ''_CERT_PATH''),
        (''key'', ''_KEY''), (''keyPath'', ''_KEY_PATH''), (''serverName'', ''_SERVER_NAME''),
        (''requestClientCert'', ''_REQUEST_CLIENT_CERT'')]"

definition inboundHttpsOptions :: "tls_env \<Rightarrow> (tls_options \<times> bool) option result" where
  "inboundHttpsOptions env =
     (let tls = fromEnv env ''HTTP_TLS'' in
      if \<not> tls_isEnabled (Obj tls) then Inr None
      else ebind (buildTlsOptions env tls) (\<lambda>options.
        if (case to_cert options of Some v \<Rightarrow> truthy v | None \<Rightarrow> False) \<and>
           (case to_key options of Some v \<Rightarrow> truthy v | None \<Rightarrow> False)
        then Inr (Some (options, toBoolean (js_get tls ''requestClientCert'') False))
        else Inl (JsError (''HTTP_TLS_ENABLED=true requires HTTP_TLS_CERT/HTTP_TLS_CERT_PATH '' @
          ''and HTTP_TLS_KEY/HTTP_TLS_KEY_PATH''))))"

definition env_tls :: "tls_env \<Rightarrow> string \<Rightarrow> tls_options option result" where
  "env_tls env pre =
     (let tls = fromEnv env pre in
      if tls_isEnabled (Obj tls) then ebind (buildTlsOptions env tls) (\<lambda>o'. Inr (Some o')) else Inr None)"

definition kafkaConfig :: "tls_env \<Rightarrow> string \<Rightarrow> string list \<Rightarrow> (string \<times> string list \<times> tls_options option) result" where
  "kafkaConfig env clientId brokers = ebind (env_tls env ''KAFKA_TLS'') (\<lambda>ssl. Inr (clientId, brokers, ssl))"

definition redisOptions :: "tls_env \<Rightarrow> tls_options option result" where
  "redisOptions env = env_tls env ''REDIS_TLS''"

definition dbConnectorTlsFromEnv :: "tls_env \<Rightarrow> obj option" where
  "dbConnectorTlsFromEnv env =
     (let wallet = (\<lambda>k. case te_config env k of Some s \<Rightarrow> Str s
                        | None \<Rightarrow> (case te_process env k of Some s \<Rightarrow> Str s | None \<Rightarrow> Undef));
          tls = fromEnv env ''DB_CONNECTOR_TLS'' @
            [(''walletLocation'', wallet ''DB_CONNECTOR_TLS_WALLET_LOCATION''),
             (''walletPassword'', wallet ''DB_CONNECTOR_TLS_WALLET_PASSWORD'')] in
      if tls_isEnabled (Obj tls) then Some tls else None)"

definition dbConnectorSslOptions :: "tls_env \<Rightarrow> jsval \<Rightarrow> tls_options option result" where
  "dbConnectorSslOptions env tls =
     (if \<not> truthy tls \<or> \<not> tls_isEnabled tls then Inr None
      else ebind (buildTlsOptions env (as_obj tls)) (\<lambda>o'. Inr (Some o')))"

section \<open>When certificates are checked\<close>

lemma read_setting_val: "read_setting env k = Undef \<or> (\<exists>s. read_setting env k = Str s)"
  by (auto simp: read_setting_def split: option.split)

lemma built_reject:
  "buildTlsOptions env tls = Inr o' \<Longrightarrow> to_rejectUnauthorized o' =
     (if js_get tls ''rejectUnauthorized'' \<noteq> Undef then toBoolean (js_get tls ''rejectUnauthorized'') False
      else toBoolean (js_get tls ''verify'') True)"
  by (auto simp: buildTlsOptions_def ebind_Inr_iff)

lemma axios_https:
  "axiosConfig env url tls name = Inr (Some o') \<Longrightarrow> starts_with ''https://'' (to_lower url)"
  by (auto simp: axiosConfig_def assertTlsUrl_def ebind_Inr_iff split: if_splits)

lemma fromEnv_get:
  "js_get (fromEnv env p) ''enabled'' = read_setting env (p @ ''_ENABLED'')"
  "js_get (fromEnv env p) ''verify'' = read_setting env (p @ ''_VERIFY'')"
  "js_get (fromEnv env p) ''rejectUnauthorized'' = read_setting env (p @ ''_REJECT_UNAUTHORIZED'')"
  by (simp_all add: fromEnv_def js_get_def)

text \<open>
  A connection configured by the environment (Kafka, Redis) accepts any certificate as soon as
  one of the two variables that control the check is set to anything but the lower case word
  \<open>true\<close>: an empty value, \<open>True\<close>, \<open>1\<close> and \<open>yes\<close> all switch the check off, although the check is on
  when the variable is missing.
\<close>

theorem unclear_setting_disables_certificate_check:
  assumes "env_tls env p = Inr (Some o')"
    and "te_process env (p @ ''_REJECT_UNAUTHORIZED'') = Some s \<or>
      te_process env (p @ ''_REJECT_UNAUTHORIZED'') = None \<and> te_config env (p @ ''_REJECT_UNAUTHORIZED'') = None \<and>
      te_process env (p @ ''_VERIFY'') = Some s"
  shows "to_rejectUnauthorized o' \<longleftrightarrow> s = ''true''"
proof -
  have "buildTlsOptions env (fromEnv env p) = Inr o'"
    using assms(1) by (auto simp: env_tls_def Let_def ebind_Inr_iff split: if_splits)
  from built_reject [OF this] assms(2) show ?thesis
    by (auto simp: fromEnv_get read_setting_def toBoolean_def)
qed

definition demo_tls_env :: "string \<Rightarrow> tls_env" where
  "demo_tls_env s =
     \<lparr>te_process = [''REDIS_TLS_ENABLED'' \<mapsto> ''true'', ''REDIS_TLS_VERIFY'' \<mapsto> s], te_config = (\<lambda>_. None),
      te_readFile = (\<lambda>_. Inl (JsError ''ENOENT''))\<rparr>"

theorem unclear_setting_disables_certificate_check_witness:
  "(case redisOptions (demo_tls_env ''True'') of Inr (Some o') \<Rightarrow> \<not> to_rejectUnauthorized o' | _ \<Rightarrow> False) \<and>
   (case redisOptions (demo_tls_env ''true'') of Inr (Some o') \<Rightarrow> to_rejectUnauthorized o' | _ \<Rightarrow> False)"
proof -
  have run: "\<exists>o'. env_tls (demo_tls_env s) ''REDIS_TLS'' = Inr (Some o')" for s
    by (simp add: env_tls_def buildTlsOptions_def optional_pem_def fromEnv_def read_setting_def demo_tls_env_def
        js_get_def tls_isEnabled_def toBoolean_def)
  have set: "te_process (demo_tls_env s) (''REDIS_TLS'' @ ''_REJECT_UNAUTHORIZED'') = None"
    "te_config (demo_tls_env s) (''REDIS_TLS'' @ ''_REJECT_UNAUTHORIZED'') = None"
    "te_process (demo_tls_env s) (''REDIS_TLS'' @ ''_VERIFY'') = Some s" for s
    by (simp_all add: demo_tls_env_def)
  obtain a b where ab: "env_tls (demo_tls_env ''True'') ''REDIS_TLS'' = Inr (Some a)"
    "env_tls (demo_tls_env ''true'') ''REDIS_TLS'' = Inr (Some b)"
    using run by blast
  have "\<not> to_rejectUnauthorized a" "to_rejectUnauthorized b"
    using unclear_setting_disables_certificate_check [OF ab(1), of "''True''"]
      unclear_setting_disables_certificate_check [OF ab(2), of "''true''"] set by simp_all
  with ab show ?thesis by (simp add: redisOptions_def)
qed

end
