(* ===== verification/LinuxConnector.thy ===== *)
theory LinuxConnector
  imports LinuxCommands LinuxFleet TlsOptions
begin

text \<open>
  Models the rest of \<open>connectors/implementations/linux-connector/linux-connector.service.ts\<close>: the
  execution of an operation over SSH, over a fleet of hosts, or by a remote agent. The answers of
  the servers, of the agent and of the secret stores are functions of everything that was sent
  before; what was sent is logged in the world.
\<close>

section \<open>The world of the connector\<close>

record ssh_request =
  sq_host :: jsval
  sq_port :: jsval
  sq_username :: jsval
  sq_readyTimeout :: jsval
  sq_privateKey :: "jsval option"
  sq_password :: "jsval option"
  sq_command :: string
  sq_input :: "string option"

text \<open>The connection or the command failed, or the command ended with a code, and its output.\<close>

datatype ssh_outcome = SshError exn | SshClosed "int option" string string

record agent_request =
  aq_url :: string
  aq_method :: string
  aq_data :: jsval
  aq_timeout :: jsval
  aq_maxRedirects :: "nat option"
  aq_authorization :: "string option"
  aq_tls :: "tls_options option"

record parsed_url =
  url_protocol :: string
  url_hostname :: string
  url_text :: string

text \<open>\<open>ssh_log\<close> holds the sessions with servers whose host key was accepted.\<close>

record linux_world = fleet_db +
  ssh_log :: "ssh_request list"
  agent_log :: "agent_request list"

record linux_env =
  le_hostKey :: "ssh_request list \<Rightarrow> ssh_request \<Rightarrow> string"
  le_denied :: exn
  le_ssh :: "ssh_request list \<Rightarrow> ssh_request \<Rightarrow> ssh_outcome"
  le_http :: "agent_request list \<Rightarrow> agent_request \<Rightarrow> jsval result"
  le_url :: "string \<Rightarrow> jsval \<Rightarrow> parsed_url result"
  le_secret :: "string \<Rightarrow> string option"
  le_pam :: "string \<Rightarrow> string result"
  le_platform :: platform
  le_tls :: "tls_env option"
  le_collate :: "string \<Rightarrow> string \<Rightarrow> bool"
  le_readSystem :: "exn option"
  le_readFleet :: "exn option"

section \<open>SSH\<close>

definition strip_scheme :: "string \<Rightarrow> string \<Rightarrow> string" where
  "strip_scheme scheme s = (if starts_with scheme (to_lower s) then drop (length scheme) s else s)"

definition normalizeFingerprint :: "string \<Rightarrow> string" where
  "normalizeFingerprint v =
     rev (dropWhile (\<lambda>c. c = CHR ''='') (rev (strip_scheme ''sha256:'' (trim v))))"

text \<open>The verifier is handed the hash of the host key; one that throws refuses the server.\<close>

definition hostVerifier :: "obj \<Rightarrow> string \<Rightarrow> bool" where
  "hostVerifier config hashedKey =
     (case js_get config ''hostFingerprint'' of
        Str fp \<Rightarrow> normalizeFingerprint hashedKey = normalizeFingerprint fp
      | _ \<Rightarrow> False)"

definition ssh_request_of :: "obj \<Rightarrow> string \<Rightarrow> string option \<Rightarrow> ssh_request" where
  "ssh_request_of config command input =
     \<lparr>sq_host = js_get config ''host'', sq_port = coalesce (js_get config ''port'') (num 22),
      sq_username = js_get config ''username'', sq_readyTimeout = coalesce (js_get config ''timeoutMs'') (num 30000),
      sq_privateKey = if_truthy (js_get config ''privateKey''), sq_password = if_truthy (js_get config ''password''),
      sq_command = command, sq_input = input\<rparr>"

definition ssh_result :: "ssh_outcome \<Rightarrow> string result" where
  "ssh_result r =
     (case r of
        SshError e \<Rightarrow> Inl e
      | SshClosed code out err \<Rightarrow>
          (case code of
             Some c \<Rightarrow> if c \<noteq> 0 then Inl (JsError (''SSH command failed with code '' @
                 number_to_string (Fin (of_int c)) @ '': '' @ trim err)) else Inr out
           | None \<Rightarrow> Inr out))"

definition ssh_session :: "linux_env \<Rightarrow> obj \<Rightarrow> ssh_request \<Rightarrow> (string, 'b linux_world_scheme) op" where
  "ssh_session env config q w =
     (if hostVerifier config (le_hostKey env (ssh_log w) q)
      then (ssh_result (le_ssh env (ssh_log w) q), w\<lparr>ssh_log := ssh_log w @ [q]\<rparr>)
      else (Inl (le_denied env), w))"

definition execSshWithInput :: "linux_env \<Rightarrow> obj \<Rightarrow> string \<Rightarrow> string option \<Rightarrow> (string, 'b linux_world_scheme) op" where
  "execSshWithInput env config command input =
     (if \<not> truthy (js_get config ''host'') \<or> \<not> truthy (js_get config ''username'')
      then raise (JsError ''Missing Linux SSH host or username'')
      else if js_get config ''sudoMode'' \<noteq> Str ''passwordless''
      then raise (JsError ''Linux ssh-sudo requires sudoMode=passwordless'')
      else if \<not> truthy (js_get config ''hostFingerprint'')
      then raise (JsError ''Linux ssh-sudo requires hostFingerprint'')
      else ssh_session env config (ssh_request_of config command input))"

definition execSsh :: "linux_env \<Rightarrow> obj \<Rightarrow> string \<Rightarrow> (string, 'b linux_world_scheme) op" where
  "execSsh env config command = execSshWithInput env config command None"

definition linux_schema :: jsval where
  "linux_schema =
     Obj [(''objectClasses'', Arr [Obj [(''name'', Str ''user''), (''attributes'', Arr
       [attribute ''login'' ''string'' True False, attribute ''password'' ''string'' True False,
        attribute ''serverGroups'' ''array'' False True, attribute ''posixGroups'' ''array'' False True,
        attribute ''shell'' ''string'' False False])]])]"

definition linux_getSchema :: connector_result where
  "linux_getSchema = result_ok linux_schema"

definition disableSshUser :: "linux_env \<Rightarrow> obj \<Rightarrow> string \<Rightarrow> (string, 'b linux_world_scheme) op" where
  "disableSshUser env config login = execSsh env config (disableCommand login)"

definition unsupported :: "string \<Rightarrow> exn" where
  "unsupported op = JsError (''Unsupported Linux operation: '' @ op)"

definition setPassword :: "linux_env \<Rightarrow> obj \<Rightarrow> string \<Rightarrow> obj \<Rightarrow> (string, 'b linux_world_scheme) op" where
  "setPassword env config login data =
     sbind (lift_result (linux_password data True)) (\<lambda>pw.
     execSshWithInput env config ''sudo chpasswd'' (Some (chpasswd_input login pw)))"

definition with_login ::
  "obj \<Rightarrow> obj \<Rightarrow> obj \<Rightarrow> (string \<Rightarrow> ('a, 'w) op) \<Rightarrow> ('a, 'w) op" where
  "with_login data params config f = sbind (lift_result (linux_login data params config)) f"

definition executeSsh :: "linux_env \<Rightarrow> connector_payload \<Rightarrow> obj \<Rightarrow> (jsval, 'b linux_world_scheme) op" where
  "executeSsh env p config =
     (let data = payload_part p ''data''; params = payload_part p ''params''; op = operation p;
          answer = (\<lambda>login kvs. ret (Obj ((''login'', Str login) # kvs))) in
      if op = ''system.test'' then sbind (execSsh env config ''id'') (\<lambda>_. ret (Obj [(''reachable'', Bool True)]))
      else if op = ''schema.get'' then ret (result_data linux_getSchema)
      else if op = ''user.create'' then with_login data params config (\<lambda>login.
        sbind (lift_result (userAddCommand config login data)) (\<lambda>command.
        sbind (execSsh env config command) (\<lambda>_.
        sbind (setPassword env config login data) (\<lambda>_. answer login [(''created'', Bool True)]))))
      else if op = ''user.update'' then with_login data params config (\<lambda>login.
        sbind (lift_result (userModifyCommand config login data)) (\<lambda>command.
        sbind (execSsh env config command) (\<lambda>_. answer login [(''updated'', Bool True)])))
      else if op = ''user.delete'' then with_login data params config (\<lambda>login.
        if truthy (js_get config ''physicalDeleteEnabled'')
        then sbind (execSsh env config (deleteCommand config login)) (\<lambda>_. answer login [(''deleted'', Bool True)])
        else sbind (disableSshUser env config login) (\<lambda>_.
          answer login [(''deleted'', Bool False), (''enabled'', Bool False)]))
      else if op \<in> {''user.disable'', ''user.lock''} then with_login data params config (\<lambda>login.
        sbind (disableSshUser env config login) (\<lambda>_. answer login [(''enabled'', Bool False)]))
      else if op \<in> {''user.enable'', ''user.unlock''} then with_login data params config (\<lambda>login.
        sbind (execSsh env config (enableCommand login)) (\<lambda>_. answer login [(''enabled'', Bool True)]))
      else if op = ''user.changePassword'' then with_login data params config (\<lambda>login.
        sbind (setPassword env config login data) (\<lambda>_. answer login [(''passwordChanged'', Bool True)]))
      else if op \<in> {''user.get'', ''user.resolve''} then with_login data params config (\<lambda>login.
        sbind (execSsh env config (getCommand login)) (\<lambda>raw. answer login [(''raw'', Str raw)]))
      else if op \<in> {''user.search'', ''sync.full'', ''sync.incremental''}
      then sbind (execSsh env config ''getent passwd'') (\<lambda>raw. ret (Obj [(''raw'', Str raw)]))
      else raise (unsupported op))"

section \<open>The remote agent\<close>

definition lower_host :: "jsval \<Rightarrow> string result" where
  "lower_host v = (case v of Str s \<Rightarrow> Inr (to_lower s) | _ \<Rightarrow> Inl type_error)"

definition allowed_hosts :: "obj \<Rightarrow> string list result" where
  "allowed_hosts config =
     (case coalesce (js_get config ''allowedHosts'') (Arr []) of
        Arr xs \<Rightarrow> map_exn lower_host xs
      | _ \<Rightarrow> Inl type_error)"

definition agent_url :: "linux_env \<Rightarrow> obj \<Rightarrow> string \<Rightarrow> parsed_url result" where
  "agent_url env config path =
     (if \<not> truthy (js_get config ''baseUrl'') then Inl (JsError ''Missing Linux remote-agent baseUrl'')
      else ebind (le_url env path (js_get config ''baseUrl'')) (\<lambda>parsed.
        let token = truthy (js_get config ''apiToken'') in
        ebind (guard_exn (\<not> (token \<and> url_protocol parsed \<noteq> ''https:''))
          (JsError ''Linux remote-agent apiToken requires https baseUrl'')) (\<lambda>_.
        ebind (allowed_hosts config) (\<lambda>allowed.
        ebind (guard_exn (\<not> (token \<and> allowed = [])) (JsError ''Linux remote-agent apiToken requires allowedHosts'')) (\<lambda>_.
        ebind (guard_exn (\<not> (allowed \<noteq> [] \<and> to_lower (url_hostname parsed) \<notin> set allowed))
          (JsError ''Linux remote-agent host is not allowed'')) (\<lambda>_.
        Inr parsed))))))"

definition agent_request_of ::
  "linux_env \<Rightarrow> obj \<Rightarrow> string \<Rightarrow> string \<Rightarrow> jsval \<Rightarrow> agent_request result" where
  "agent_request_of env config verb path data =
     ebind (agent_url env config path) (\<lambda>parsed.
     let token = js_get config ''apiToken'' in
     ebind (case le_tls env of None \<Rightarrow> Inr None
       | Some t \<Rightarrow> axiosConfig t (url_text parsed) (js_get config ''tls'') ''Linux remote-agent'') (\<lambda>tls.
     Inr \<lparr>aq_url = url_text parsed, aq_method = verb, aq_data = data,
          aq_timeout = coalesce (js_get config ''timeoutMs'') (num 30000),
          aq_maxRedirects = (if truthy token then Some 0 else None),
          aq_authorization = (if truthy token then Some (''Bearer '' @ string_of_val token) else None),
          aq_tls = tls\<rparr>))"

definition remoteRequest ::
  "linux_env \<Rightarrow> obj \<Rightarrow> string \<Rightarrow> string \<Rightarrow> jsval \<Rightarrow> (jsval, 'b linux_world_scheme) op" where
  "remoteRequest env config verb path data =
     sbind (lift_result (agent_request_of env config verb path data)) (\<lambda>q w.
       (le_http env (agent_log w) q, w\<lparr>agent_log := agent_log w @ [q]\<rparr>))"

definition user_path :: "string \<Rightarrow> string \<Rightarrow> string" where
  "user_path login rest = ''/users/'' @ encodeURIComponent login @ rest"

definition executeRemoteAgent :: "linux_env \<Rightarrow> connector_payload \<Rightarrow> obj \<Rightarrow> (jsval, 'b linux_world_scheme) op" where
  "executeRemoteAgent env p config =
     (let raw = coalesce (js_get (body p) ''data'') (Obj []);
          data = payload_part p ''data''; params = payload_part p ''params''; op = operation p;
          request = remoteRequest env config in
      if op = ''system.test'' then request ''GET'' ''/health'' Undef
      else if op = ''schema.get'' then request ''GET'' ''/schema'' Undef
      else if op = ''user.create'' then with_login data params config (\<lambda>login.
        sbind (lift_result (linux_password data True)) (\<lambda>pw.
        request ''POST'' ''/users'' (Obj (spread (spread_entries raw) [(''login'', Str login), (''password'', Str pw)]))))
      else if op = ''user.update'' then with_login data params config (\<lambda>login.
        request ''PATCH'' (user_path login []) raw)
      else if op = ''user.delete'' then with_login data params config (\<lambda>login.
        if truthy (js_get config ''physicalDeleteEnabled'')
        then request ''DELETE'' (user_path login [])
          (Obj [(''removeHome'', Bool (js_get config ''removeHomeOnDelete'' = Bool True))])
        else request ''POST'' (user_path login ''/disable'') Undef)
      else if op \<in> {''user.disable'', ''user.lock''} then with_login data params config (\<lambda>login.
        request ''POST'' (user_path login ''/disable'') Undef)
      else if op \<in> {''user.enable'', ''user.unlock''} then with_login data params config (\<lambda>login.
        request ''POST'' (user_path login ''/enable'') Undef)
      else if op = ''user.changePassword'' then with_login data params config (\<lambda>login.
        sbind (lift_result (linux_password data True)) (\<lambda>pw.
        request ''POST'' (user_path login ''/password'') (Obj [(''password'', Str pw)])))
      else if op \<in> {''user.get'', ''user.resolve''} then with_login data params config (\<lambda>login.
        request ''GET'' (user_path login []) Undef)
      else if op \<in> {''user.search'', ''sync.full'', ''sync.incremental''} then request ''GET'' ''/users'' Undef
      else raise (unsupported op))"

section \<open>The fleet\<close>

definition fleetTargetSystem :: "linux_env \<Rightarrow> string \<Rightarrow> (system_row, 'b linux_world_scheme) op" where
  "fleetTargetSystem env name =
     sbind (may_fail (le_readSystem env)) (\<lambda>_ w.
       case system_by_name (systems w) name of
         Some r \<Rightarrow> if ts_type r = ''linux'' then ret r w else raise (JsError ''Linux fleet target system not found'') w
       | None \<Rightarrow> raise (JsError ''Linux fleet target system not found'') w)"

definition enabledFleetHostCount :: "linux_env \<Rightarrow> jsval \<Rightarrow> (nat, 'b linux_world_scheme) op" where
  "enabledFleetHostCount env name =
     (if \<not> truthy name then ret 0
      else case name of
        Str n \<Rightarrow> sbind (may_fail (le_readSystem env)) (\<lambda>_ w.
          case system_by_name (systems w) n of
            None \<Rightarrow> ret 0 w
          | Some r \<Rightarrow> sbind (may_fail (le_readFleet env)) (\<lambda>_ w.
              ret (length (filter (\<lambda>h. lh_system h = sys_id r \<and> lh_enabled h) (hosts w))) w) w)
      | _ \<Rightarrow> raise (JsError ''Invalid value for argument name''))"

text \<open>\<open>Number.isInteger(Number(v)) && v > 0 ? v : fallback\<close>\<close>

definition positiveInt :: "jsval \<Rightarrow> nat \<Rightarrow> nat" where
  "positiveInt v fallback = or_else (positive_integer v) fallback"

definition group_members :: "'b fleet_db_scheme \<Rightarrow> server_group_row \<Rightarrow> (string \<times> string) list" where
  "group_members w g = filter (\<lambda>m. fst m = lg_id g) (members w)"

definition optional_str :: "string option \<Rightarrow> jsval" where
  "optional_str v = (case v of None \<Rightarrow> Null | Some s \<Rightarrow> Str s)"

definition fleetGroupToIdm :: "'b fleet_db_scheme \<Rightarrow> server_group_row \<Rightarrow> jsval" where
  "fleetGroupToIdm w g =
     Obj [(''_id'', Str (lg_code g)), (''id'', Str (lg_code g)), (''name'', Str (lg_name g)), (''code'', Str (lg_code g)),
          (''description'', optional_str (lg_description g)), (''active'', Bool (lg_enabled g)),
          (''hostCount'', num (of_nat (length (group_members w g))))]"

definition group_texts :: "server_group_row \<Rightarrow> string list" where
  "group_texts g = filter (\<lambda>s. s \<noteq> []) [lg_code g, lg_name g, or_else (lg_description g) []]"

definition searchFleetGroups :: "linux_env \<Rightarrow> connector_payload \<Rightarrow> (jsval, 'b linux_world_scheme) op" where
  "searchFleetGroups env p =
     sbind (fleetTargetSystem env (targetSystem p)) (\<lambda>system.
     let data = payload_part p ''data''; params = payload_part p ''params'';
         wanted = map_option (\<lambda>s. trim (to_lower s)) (firstString [js_get params ''filter'', js_get data ''filter'']) in
     sbind (may_fail (le_readFleet env)) (\<lambda>_ w.
       let found = take (positiveInt (js_get params ''limit'') 500) (map snd (locale_sort (le_collate env)
             (map (\<lambda>g. (lg_code g, g)) (filter (\<lambda>g. lg_system g = sys_id system \<and> lg_enabled g) (server_groups w)))));
           kept = (case wanted of
               Some s \<Rightarrow> if s \<noteq> [] then filter (\<lambda>g. list_ex (\<lambda>t. str_includes s (to_lower t)) (group_texts g)) found else found
             | None \<Rightarrow> found) in
       ret (Obj [(''data'', Arr (map (fleetGroupToIdm w) kept)),
                 (''meta'', Obj [(''total'', num (of_nat (length kept)))])]) w))"

definition getFleetGroup :: "linux_env \<Rightarrow> connector_payload \<Rightarrow> (jsval, 'b linux_world_scheme) op" where
  "getFleetGroup env p =
     sbind (fleetTargetSystem env (targetSystem p)) (\<lambda>system.
     let data = payload_part p ''data''; params = payload_part p ''params'' in
     case firstString [js_get params ''id'', js_get params ''code'', js_get data ''id''] of
       None \<Rightarrow> raise (JsError ''Missing Linux server group code'')
     | Some code \<Rightarrow> sbind (may_fail (le_readFleet env)) (\<lambda>_ w.
         case find (\<lambda>g. lg_system g = sys_id system \<and> lg_code g = code \<and> lg_enabled g) (server_groups w) of
           None \<Rightarrow> raise (JsError ''Linux server group not found'') w
         | Some g \<Rightarrow> ret (fleetGroupToIdm w g) w))"

text \<open>
  \<open>configRecord\<close> parses a text until it is no text any more; a JSON text is longer than the text it
  denotes.
\<close>

function configRecord :: "platform \<Rightarrow> jsval \<Rightarrow> obj" where
  "configRecord P (Str s) =
     (case json_parse P s of
        None \<Rightarrow> []
      | Some v \<Rightarrow> (case v of Str t \<Rightarrow> if length t < length s then configRecord P (Str t) else [] | _ \<Rightarrow> as_obj v))"
| "configRecord P Undef = []"
| "configRecord P Null = []"
| "configRecord P (Bool b) = []"
| "configRecord P (Num n) = []"
| "configRecord P (Arr xs) = []"
| "configRecord P (Obj kvs) = kvs"
  by pat_completeness auto
termination
  by (relation "measure (\<lambda>(P, v). case v of Str s \<Rightarrow> length s | _ \<Rightarrow> 0)") auto

definition fleet_group_codes :: "platform \<Rightarrow> jsval \<Rightarrow> obj \<Rightarrow> obj \<Rightarrow> string list result" where
  "fleet_group_codes P config data params =
     (let targetConfig = configRecord P config in
      ebind (mapped_groups targetConfig Server (js_get data ''groups'')) (\<lambda>(enabled, mapped).
      let codes = stringArray ([js_get data ''serverGroups'', js_get params ''serverGroups'', js_get params ''groupIds''] @
            (if enabled then [] else [js_get data ''groups'', js_get params ''groups'']) @ [Arr (map Str mapped)]) in
      if codes = [] then Inl (JsError ''Missing Linux serverGroups for fleet operation'') else Inr codes))"

definition hosts_of_group :: "'b fleet_db_scheme \<Rightarrow> server_group_row \<Rightarrow> host_row list" where
  "hosts_of_group w g =
     concat (map (\<lambda>m. filter (\<lambda>h. lh_id h = snd m \<and> lh_enabled h) (hosts w)) (group_members w g))"

definition collect_hosts :: "host_row list \<Rightarrow> (string \<times> host_row) list" where
  "collect_hosts hs = fold (\<lambda>h m. map_set (lh_id h) h m) hs []"

definition resolveFleetHosts :: "linux_env \<Rightarrow> connector_payload \<Rightarrow> (host_row list, 'b linux_world_scheme) op" where
  "resolveFleetHosts env p =
     sbind (fleetTargetSystem env (targetSystem p)) (\<lambda>system.
     sbind (lift_result (fleet_group_codes (le_platform env) (ts_config system) (payload_part p ''data'') (payload_part p ''params''))) (\<lambda>codes.
     sbind (may_fail (le_readFleet env)) (\<lambda>_ w.
       let found = filter (\<lambda>g. lg_system g = sys_id system \<and> lg_enabled g \<and> lg_code g \<in> set codes) (server_groups w) in
       if length found \<noteq> length (unique codes) then raise (JsError ''One or more Linux server groups were not found'') w
       else let hs = collect_hosts (concat (map (hosts_of_group w) found)) in
         if hs = [] then raise (JsError ''Linux server groups contain no enabled hosts'') w
         else ret (map snd hs) w)))"

text \<open>\<open>configService.get(key) ?? process.env[key]\<close> is \<open>le_secret\<close>.\<close>

definition resolveSecretRef :: "linux_env \<Rightarrow> string \<Rightarrow> string \<Rightarrow> string result" where
  "resolveSecretRef env r mode =
     (let v = trim r in
      if mode = ''env''
      then let key = (if starts_with ''env:'' v then drop 4 v else v) in
        (case le_secret env key of
           Some (c # s) \<Rightarrow> Inr (c # s)
         | _ \<Rightarrow> Inl (JsError (''Missing Linux env secret '' @ quoted key)))
      else if mode = ''aapm'' then le_pam env (strip_scheme ''secret://'' (strip_scheme ''aapm://'' v))
      else Inl (JsError ''Unsupported Linux credential mode''))"

definition optional_secret :: "linux_env \<Rightarrow> string option \<Rightarrow> string \<Rightarrow> jsval result" where
  "optional_secret env r mode =
     (case r of
        Some (c # s) \<Rightarrow> ebind (resolveSecretRef env (c # s) mode) (\<lambda>v. Inr (Str v))
      | _ \<Rightarrow> Inr Undef)"

definition profile_of :: "'b fleet_db_scheme \<Rightarrow> host_row \<Rightarrow> profile_row option" where
  "profile_of w h = find (\<lambda>p. Some (cp_id p) = lh_profile h) (profiles w)"

definition hostSshConfig :: "linux_env \<Rightarrow> obj \<Rightarrow> profile_row option \<Rightarrow> host_row \<Rightarrow> obj result" where
  "hostSshConfig env baseConfig profile h =
     (case profile of
        Some p \<Rightarrow>
          if \<not> cp_enabled p
          then Inl (JsError (''Linux host '' @ quoted (lh_name h) @ '' has no enabled credential profile''))
          else ebind (optional_secret env (cp_privateKeyRef p) (cp_mode p)) (\<lambda>key.
            ebind (optional_secret env (cp_passwordRef p) (cp_mode p)) (\<lambda>password.
            Inr (spread baseConfig [(''provider'', Str ''ssh-sudo''), (''host'', Str (lh_host h)),
              (''port'', num (of_nat (lh_port h))), (''hostFingerprint'', Str (lh_fingerprint h)),
              (''username'', Str (cp_username p)), (''privateKey'', key), (''password'', password)])))
      | None \<Rightarrow> Inl (JsError (''Linux host '' @ quoted (lh_name h) @ '' has no enabled credential profile'')))"

definition withPosixGroups :: "jsval \<Rightarrow> obj" where
  "withPosixGroups v =
     (let data = as_obj v in
      js_set ''groups'' (if js_get data ''posixGroups'' \<noteq> Undef then js_get data ''posixGroups'' else Arr []) data)"

definition fleet_payload :: "connector_payload \<Rightarrow> connector_payload" where
  "fleet_payload p = p\<lparr>body := js_set ''data'' (Obj (withPosixGroups (js_get (body p) ''data''))) (body p)\<rparr>"

text \<open>The outcome on one host: the answer, or the masked text of the error.\<close>

definition on_host ::
  "linux_env \<Rightarrow> connector_payload \<Rightarrow> obj \<Rightarrow> host_row \<Rightarrow> (string \<times> (string + jsval), 'b linux_world_scheme) op" where
  "on_host env p hostConfig h =
     catch_op (sbind (executeSsh env (fleet_payload p) hostConfig) (\<lambda>d. ret (lh_name h, Inr d)))
       (\<lambda>e. ret (lh_name h, Inl (safeConnectorErrorMessage e
          [Obj hostConfig, js_get (body p) ''data'', js_get (body p) ''params''])))"

text \<open>The profile comes with the host, as it was when the hosts were read.\<close>

fun on_hosts ::
  "linux_env \<Rightarrow> connector_payload \<Rightarrow> obj \<Rightarrow> (host_row \<times> profile_row option) list \<Rightarrow>
   ((string \<times> (string + jsval)) list, 'b linux_world_scheme) op" where
  "on_hosts env p config [] = ret []"
| "on_hosts env p config ((h, profile) # hs) =
     sbind (lift_result (hostSshConfig env config profile h)) (\<lambda>hostConfig.
     sbind (on_host env p hostConfig h) (\<lambda>r.
     sbind (on_hosts env p config hs) (\<lambda>rs. ret (r # rs))))"

fun host_outcome :: "string \<times> (string + jsval) \<Rightarrow> jsval" where
  "host_outcome (n, Inr d) = Obj [(''host'', Str n), (''status'', Str ''succeeded''), (''data'', d)]"
| "host_outcome (n, Inl e) = Obj [(''host'', Str n), (''status'', Str ''failed''), (''error'', Str e)]"

definition host_failed :: "string \<times> (string + jsval) \<Rightarrow> bool" where
  "host_failed r \<longleftrightarrow> (case snd r of Inl _ \<Rightarrow> True | Inr _ \<Rightarrow> False)"

definition fleet_summary :: "(string \<times> (string + jsval)) list \<Rightarrow> jsval" where
  "fleet_summary rs =
     (let failed = length (filter host_failed rs) in
      Obj [(''total'', num (of_nat (length rs))), (''succeeded'', num (of_nat (length rs - failed))),
           (''failed'', num (of_nat failed)), (''results'', Arr (map host_outcome rs))])"

definition executeFleetUserOperation :: "linux_env \<Rightarrow> connector_payload \<Rightarrow> obj \<Rightarrow> (jsval, 'b linux_world_scheme) op" where
  "executeFleetUserOperation env p config =
     sbind (resolveFleetHosts env p) (\<lambda>hs w.
     sbind (on_hosts env p config (map (\<lambda>h. (h, profile_of w h)) hs)) (\<lambda>rs.
       if list_ex host_failed rs
       then raise (JsError (''Linux fleet operation failed: '' @ json_print (le_platform env) (fleet_summary rs)))
       else ret (fleet_summary rs)) w)"

definition fleet_user_operations :: "string list" where
  "fleet_user_operations =
     [''user.create'', ''user.update'', ''user.delete'', ''user.disable'', ''user.lock'', ''user.enable'',
      ''user.unlock'', ''user.changePassword'', ''user.get'', ''user.resolve'', ''user.search'']"

definition executeSshFleet :: "linux_env \<Rightarrow> connector_payload \<Rightarrow> obj \<Rightarrow> (jsval, 'b linux_world_scheme) op" where
  "executeSshFleet env p config =
     (let op = operation p in
      if op = ''system.test'' then sbind (enabledFleetHostCount env (Str (targetSystem p))) (\<lambda>n.
        ret (Obj [(''enabledHosts'', num (of_nat n))]))
      else if op = ''schema.get'' then ret (result_data linux_getSchema)
      else if op \<in> {''group.search'', ''sync.full'', ''sync.incremental''} then searchFleetGroups env p
      else if op = ''group.get'' then getFleetGroup env p
      else if op \<in> set fleet_user_operations then executeFleetUserOperation env p config
      else raise (unsupported op))"

section \<open>The connector\<close>

definition linux_execute :: "linux_env \<Rightarrow> connector_payload \<Rightarrow> (connector_result, 'b linux_world_scheme) op" where
  "linux_execute env p =
     (let raw = js_get (body p) ''config''; config = as_obj raw; provider = js_get config ''provider'' in
      if \<not> truthy provider then ret (result_fail ''Missing Linux provider'')
      else answer_masked [raw, js_get (body p) ''data'', js_get (body p) ''params'']
        (if provider = Str ''remote-agent'' then executeRemoteAgent env p config
         else if provider = Str ''ssh-sudo-fleet'' then executeSshFleet env p config
         else executeSsh env p config))"

definition linux_testConnection :: "linux_env \<Rightarrow> jsval \<Rightarrow> (bool \<times> string, 'b linux_world_scheme) op" where
  "linux_testConnection env cfg =
     (let config = as_obj cfg; provider = js_get config ''provider'' in
      catch_op
        (if provider = Str ''remote-agent'' then
           if \<not> truthy (js_get config ''baseUrl'') then ret (False, ''Missing Linux remote-agent baseUrl'')
           else sbind (remoteRequest env config ''GET'' ''/health'' Undef) (\<lambda>_. ret (True, ''Linux remote-agent reachable''))
         else if provider = Str ''ssh-sudo'' then
           sbind (execSsh env config ''id'') (\<lambda>_. ret (True, ''Linux SSH reachable''))
         else if provider = Str ''ssh-sudo-fleet'' then
           sbind (enabledFleetHostCount env (js_get config ''diagnosticTargetSystem'')) (\<lambda>n.
             ret (True, ''Linux SSH fleet inventory reachable ('' @ nat_digits n @ '' enabled hosts)''))
         else ret (False, ''Missing Linux provider''))
        (\<lambda>e. ret (False, ''Linux connection failed: '' @ safeConnectorErrorMessage e [cfg])))"

definition LINUX_PARTIAL_OPERATIONS :: "(string \<times> string) list" where
  "LINUX_PARTIAL_OPERATIONS =
     (let locked = ''Mapped to account lock and expire.''; unlocked = ''Mapped to account unlock and unexpire.'';
          inventory = ''In fleet mode groups are idmMw server groups, managed through Admin UI/API inventory.'' in
      [(''user.delete'', ''Default mapping is safe lock and expire; physical userdel requires physicalDeleteEnabled=true.''),
       (''user.disable'', locked), (''user.lock'', locked), (''user.enable'', unlocked), (''user.unlock'', unlocked),
       (''group.create'', inventory), (''group.update'', inventory), (''group.delete'', inventory)])"

definition LINUX_UNSUPPORTED_OPERATIONS :: "(string \<times> string) list" where
  "LINUX_UNSUPPORTED_OPERATIONS =
     (let attributes = ''Linux custom attribute mapping is not supported.'';
          membership = ''Linux server group membership is managed through idmMw Admin UI/API inventory.'' in
      [(''user.addAttributes'', attributes), (''user.removeAttributes'', attributes),
       (''group.addMember'', membership), (''group.removeMember'', membership)])"

definition linux_connector :: "linux_env \<Rightarrow> 'b linux_world_scheme connector" where
  "linux_connector env =
     \<lparr>conn_name = ''linux'', conn_execute = linux_execute env, conn_testConnection = linux_testConnection env,
      conn_getCapabilities = Some (createConnectorCapabilities LINUX_PARTIAL_OPERATIONS id LINUX_UNSUPPORTED_OPERATIONS),
      conn_getSchema = Some (\<lambda>_. ret linux_getSchema), conn_sync = None\<rparr>"

section \<open>What is sent over SSH\<close>

fun command_names :: "linux_command \<Rightarrow> string list" where
  "command_names (UserAdd home shell gs login) = login # gs"
| "command_names (UserMod shell gs login) = login # gs"
| "command_names (UserDel home login) = [login]"
| "command_names (DisableUser login) = [login]"
| "command_names (EnableUser login) = [login]"
| "command_names (GetUser login) = [login]"
| "command_names _ = []"

text \<open>
  The shell reads the command as one of the intended ones, over well formed names; only
  \<open>chpasswd\<close> gets an input.
\<close>

definition intended :: "string \<Rightarrow> string option \<Rightarrow> bool" where
  "intended command input \<longleftrightarrow> (\<exists>cmd. sh command = Some (command_tokens cmd) \<and> list_all posix_name (command_names cmd) \<and>
     (if cmd = ChPasswd then \<exists>login pw. posix_name login \<and> input = Some (chpasswd_input login pw) else input = None))"

lemma intended_commands:
  "posix_name login \<Longrightarrow> userAddCommand config login data = Inr command \<Longrightarrow> intended command None"
  "posix_name login \<Longrightarrow> userModifyCommand config login data = Inr command \<Longrightarrow> intended command None"
  "posix_name login \<Longrightarrow> intended (deleteCommand config login) None"
  "posix_name login \<Longrightarrow> intended (disableCommand login) None"
  "posix_name login \<Longrightarrow> intended (enableCommand login) None"
  "posix_name login \<Longrightarrow> intended (getCommand login) None"
  "intended ''getent passwd'' None" "intended ''id'' None"
  "posix_name login \<Longrightarrow> intended ''sudo chpasswd'' (Some (chpasswd_input login pw))"
proof -
  assume login: "posix_name login"
  have only: "intended command None" if "sh command = Some (command_tokens cmd)" "list_all posix_name (command_names cmd)"
    "cmd \<noteq> ChPasswd" for command cmd
    using that unfolding intended_def by metis
  show "intended command None" if add: "userAddCommand config login data = Inr command"
  proof -
    from add_command_reads [OF add] obtain home shell gs where "list_all posix_name gs"
      "sh command = Some (command_tokens (UserAdd home shell gs login))" by blast
    then show ?thesis using only [of command "UserAdd home shell gs login"] login by simp
  qed
  show "intended command None" if modify: "userModifyCommand config login data = Inr command"
  proof -
    from modify_command_reads [OF modify] obtain shell gs where "list_all posix_name gs"
      "sh command = Some (command_tokens (UserMod shell gs login))" by blast
    then show ?thesis using only [of command "UserMod shell gs login"] login by simp
  qed
  show "intended (deleteCommand config login) None" "intended (disableCommand login) None"
    "intended (enableCommand login) None" "intended (getCommand login) None"
    using only [OF fixed_commands_read(1)] only [OF fixed_commands_read(2)] only [OF fixed_commands_read(3)]
      only [OF fixed_commands_read(4)] login by simp_all
  show "intended ''sudo chpasswd'' (Some (chpasswd_input login pw))"
    unfolding intended_def by (intro exI [of _ ChPasswd]) (use login fixed_commands_read(7) in auto)
next
  show "intended ''getent passwd'' None" unfolding intended_def
    by (intro exI [of _ GetAll]) (use fixed_commands_read(5) in simp)
  show "intended ''id'' None" unfolding intended_def
    by (intro exI [of _ Id]) (use fixed_commands_read(6) in simp)
qed

abbreviation ssh_grown :: "(ssh_request list \<Rightarrow> ssh_request \<Rightarrow> bool) \<Rightarrow> ssh_request list \<Rightarrow> 'b linux_world_scheme \<Rightarrow> bool" where
  "ssh_grown good old \<equiv> \<lambda>w. grown good old (ssh_log w)"

text \<open>What a session promises when it was opened with a configuration.\<close>

definition session_good :: "linux_env \<Rightarrow> obj \<Rightarrow> (ssh_request list \<Rightarrow> ssh_request \<Rightarrow> bool) \<Rightarrow> bool" where
  "session_good env config good \<longleftrightarrow> (\<forall>command input sent. intended command input \<longrightarrow>
     hostVerifier config (le_hostKey env sent (ssh_request_of config command input)) \<longrightarrow>
     good sent (ssh_request_of config command input))"

lemma exec_grown:
  assumes "session_good env config good" "intended command input"
  shows "preserves (ssh_grown good old) (execSshWithInput env config command input)"
proof -
  have "preserves (ssh_grown good old) (ssh_session env config (ssh_request_of config command input))"
    using assms unfolding preserves_def ssh_session_def session_good_def by (auto intro: grown_snoc)
  then show ?thesis unfolding execSshWithInput_def by (intro preserve_intros)
qed

lemmas ssh_rules = preserves_if preserves_sbind_lift preserves_sbind preserves_basic

lemma executeSsh_grown:
  assumes good: "session_good env config good"
  shows "preserves (ssh_grown good old) (executeSsh env p config)"
  unfolding executeSsh_def Let_def with_login_def execSsh_def disableSshUser_def setPassword_def
  by (intro ssh_rules exec_grown [OF good]; blast intro: intended_commands posix_login)

lemma remoteRequest_ssh: "preserves (ssh_grown good old) (remoteRequest env config verb path data)"
  unfolding remoteRequest_def by (intro ssh_rules) (auto simp: preserves_def)

lemma executeRemoteAgent_ssh: "preserves (ssh_grown good old) (executeRemoteAgent env p config)"
  unfolding executeRemoteAgent_def Let_def with_login_def by (intro ssh_rules remoteRequest_ssh)

lemma fleet_reads_only:
  "preserves I (fleetTargetSystem env name)" "preserves I (enabledFleetHostCount env v)"
  "preserves I (searchFleetGroups env p)" "preserves I (getFleetGroup env p)" "preserves I (resolveFleetHosts env p)"
proof -
  show f: "preserves I (fleetTargetSystem env n)" for n
    unfolding fleetTargetSystem_def by (intro ssh_rules) (simp add: preserves_def split: option.split)
  show "preserves I (enabledFleetHostCount env v)"
    unfolding enabledFleetHostCount_def
    by (cases v; cases "le_readFleet env"; cases "le_readSystem env") (auto simp: preserves_def split: option.splits)
  show "preserves I (searchFleetGroups env p)" "preserves I (resolveFleetHosts env p)"
    unfolding searchFleetGroups_def resolveFleetHosts_def Let_def
    by (intro ssh_rules f; simp add: preserves_def)+
  show "preserves I (getFleetGroup env p)"
    unfolding getFleetGroup_def Let_def
    by (intro ssh_rules f preserves_option) (simp add: preserves_def split: option.split)
qed

lemma on_host_grown:
  assumes "session_good env hostConfig good"
  shows "preserves (ssh_grown good old) (on_host env p hostConfig h)"
  unfolding on_host_def by (intro preserves_catch ssh_rules executeSsh_grown assms)

lemma on_hosts_grown:
  assumes "\<forall>(h, c) \<in> set hs. \<forall>hostConfig. hostSshConfig env config c h = Inr hostConfig \<longrightarrow> session_good env hostConfig good"
  shows "preserves (ssh_grown good old) (on_hosts env p config hs)"
  using assms
proof (induction hs)
  case (Cons e hs)
  obtain h c where e: "e = (h, c)" by (cases e)
  show ?case
    unfolding e on_hosts.simps
    by (rule preserves_sbind_lift, rule preserves_sbind [OF on_host_grown preserves_sbind [OF Cons.IH preserves_basic(1)]])
      (use Cons.prems in \<open>simp_all add: e\<close>)
qed (simp add: preserve_intros)

text \<open>The hosts of an operation, with the profiles that the database joins to them.\<close>

definition fleet_pairs :: "linux_env \<Rightarrow> connector_payload \<Rightarrow> 'b linux_world_scheme \<Rightarrow> (host_row \<times> profile_row option) list" where
  "fleet_pairs env p w = (case fst (resolveFleetHosts env p w) of Inl _ \<Rightarrow> [] | Inr hs \<Rightarrow> map (\<lambda>h. (h, profile_of w h)) hs)"

lemma fleet_operation_grown:
  assumes "\<forall>(h, c) \<in> set (fleet_pairs env p w). \<forall>hostConfig. hostSshConfig env config c h = Inr hostConfig \<longrightarrow>
    session_good env hostConfig good"
    and run: "executeFleetUserOperation env p config w = (r, w')"
  shows "ssh_grown good (ssh_log w) w'"
proof (cases "resolveFleetHosts env p w")
  case (Pair x v)
  have v: "v = w" using preservesD [OF fleet_reads_only(5) Pair, where I = "\<lambda>v. v = w"] by simp
  show ?thesis
  proof (cases x)
    case (Inr hs)
    have "preserves (ssh_grown good (ssh_log w)) (on_hosts env p config (map (\<lambda>h. (h, profile_of w h)) hs))"
      using assms(1) by (intro on_hosts_grown) (simp add: fleet_pairs_def Pair Inr)
    then have "preserves (ssh_grown good (ssh_log w)) (sbind (on_hosts env p config (map (\<lambda>h. (h, profile_of w h)) hs)) (\<lambda>rs.
       if list_ex host_failed rs
       then raise (JsError (''Linux fleet operation failed: '' @ json_print (le_platform env) (fleet_summary rs)))
       else ret (fleet_summary rs)))"
      by (intro ssh_rules)
    from this have "ssh_grown good (ssh_log w) (snd (sbind (on_hosts env p config (map (\<lambda>h. (h, profile_of w h)) hs)) (\<lambda>rs.
       if list_ex host_failed rs
       then raise (JsError (''Linux fleet operation failed: '' @ json_print (le_platform env) (fleet_summary rs)))
       else ret (fleet_summary rs)) w))"
      by (rule preserves_snd) simp
    with run show ?thesis
      by (simp add: executeFleetUserOperation_def sbind_def [of "resolveFleetHosts env p"] Pair Inr v)
  qed (use run v in \<open>simp add: executeFleetUserOperation_def sbind_def Pair\<close>)
qed

lemma fleet_execute_grown:
  assumes "\<forall>(h, c) \<in> set (fleet_pairs env p w). \<forall>hostConfig. hostSshConfig env config c h = Inr hostConfig \<longrightarrow>
    session_good env hostConfig good"
    and run: "executeSshFleet env p config w = (r, w')"
  shows "ssh_grown good (ssh_log w) w'"
proof (cases "operation p \<in> set fleet_user_operations")
  case True
  then have "executeSshFleet env p config w = executeFleetUserOperation env p config w"
    unfolding executeSshFleet_def Let_def fleet_user_operations_def by auto
  with run fleet_operation_grown [OF assms(1)] show ?thesis by simp
next
  case False
  then have "preserves (\<lambda>v. v = w) (executeSshFleet env p config)"
    unfolding executeSshFleet_def Let_def by (simp only: if_False, intro ssh_rules fleet_reads_only)
  from preservesD [OF this run] show ?thesis by simp
qed

lemma execute_grown:
  assumes "js_get config ''provider'' \<noteq> Str ''ssh-sudo-fleet'' \<Longrightarrow> session_good env config good"
    and "js_get config ''provider'' = Str ''ssh-sudo-fleet'' \<Longrightarrow> \<forall>(h, c) \<in> set (fleet_pairs env p w).
      \<forall>hostConfig. hostSshConfig env config c h = Inr hostConfig \<longrightarrow> session_good env hostConfig good"
    and config: "config = as_obj (js_get (body p) ''config'')"
  shows "ssh_grown good (ssh_log w) (snd (linux_execute env p w))"
proof -
  have agent: "ssh_grown good (ssh_log w) (snd (executeRemoteAgent env p config w))"
    by (rule preserves_snd [OF executeRemoteAgent_ssh]) simp
  have ssh: "ssh_grown good (ssh_log w) (snd (executeSsh env p config w))" if "js_get config ''provider'' \<noteq> Str ''ssh-sudo-fleet''"
    by (rule preserves_snd [OF executeSsh_grown [OF assms(1) [OF that]]]) simp
  have fleet: "ssh_grown good (ssh_log w) (snd (executeSshFleet env p config w))" if "js_get config ''provider'' = Str ''ssh-sudo-fleet''"
    using fleet_execute_grown [OF assms(2) [OF that]] by (metis prod.collapse)
  show ?thesis
    unfolding linux_execute_def Let_def config [symmetric]
    using agent ssh fleet by (simp add: masked_run)
qed

section \<open>Which hosts an operation reaches\<close>

lemma map_set_vals: "snd ` set (map_set k v m) \<subseteq> insert v (snd ` set m)"
  by (induction k v m rule: map_set.induct) auto

lemma collected: "snd ` set (collect_hosts hs) \<subseteq> set hs"
proof -
  have "snd ` set (fold (\<lambda>h m. map_set (lh_id h) h m) hs m) \<subseteq> set hs \<union> snd ` set m" for m
  proof (induction hs arbitrary: m)
    case (Cons h hs)
    from Cons [of "map_set (lh_id h) h m"] map_set_vals [of "lh_id h" h m] show ?case by auto
  qed simp
  from this [of "[]"] show ?thesis by (simp add: collect_hosts_def)
qed

lemma resolved_hosts:
  assumes "resolveFleetHosts env p w = (Inr hs, w')" "h \<in> set hs"
  shows "\<exists>s g. system_by_name (systems w) (targetSystem p) = Some s \<and> ts_type s = ''linux'' \<and>
    g \<in> set (server_groups w) \<and> lg_enabled g \<and> lg_system g = sys_id s \<and> (lg_id g, lh_id h) \<in> set (members w) \<and>
    h \<in> set (hosts w) \<and> lh_enabled h"
proof -
  from assms(1) obtain s v codes where s: "fleetTargetSystem env (targetSystem p) w = (Inr s, v)"
    and rest: "(let found = filter (\<lambda>g. lg_system g = sys_id s \<and> lg_enabled g \<and> lg_code g \<in> set codes) (server_groups v) in
       if length found \<noteq> length (unique codes) then raise (JsError ''One or more Linux server groups were not found'') v
       else let hs = collect_hosts (concat (map (hosts_of_group v) found)) in
         if hs = [] then raise (JsError ''Linux server groups contain no enabled hosts'') v
         else ret (map snd hs) v) = (Inr hs, w')"
    unfolding resolveFleetHosts_def by (auto simp only: sbind_Inr_iff may_fail_iff op_basic prod.inject)
  have v: "v = w" using preservesD [OF fleet_reads_only(1) s, where I = "\<lambda>v. v = w"] by simp
  from s have name: "system_by_name (systems w) (targetSystem p) = Some s" "ts_type s = ''linux''"
    by (auto simp: fleetTargetSystem_def sbind_Inr_iff may_fail_iff split: option.splits if_splits)
  define found where "found = filter (\<lambda>g. lg_system g = sys_id s \<and> lg_enabled g \<and> lg_code g \<in> set codes) (server_groups w)"
  have found: "set found \<subseteq> {g \<in> set (server_groups w). lg_system g = sys_id s \<and> lg_enabled g}"
    by (auto simp: found_def)
  have hs: "hs = map snd (collect_hosts (concat (map (hosts_of_group w) found)))"
    using rest unfolding v found_def [symmetric] Let_def by (auto split: if_splits)
  from assms(2) have "h \<in> set (concat (map (hosts_of_group w) found))" unfolding hs using collected by fastforce
  then obtain g where g: "g \<in> set found" "h \<in> set (hosts_of_group w g)" by auto
  then have "(lg_id g, lh_id h) \<in> set (members w)" "h \<in> set (hosts w)" "lh_enabled h"
    by (auto simp: hosts_of_group_def group_members_def)
  with g(1) found name show ?thesis by blast
qed

lemma profile_of_Some:
  "profile_of w h = Some c \<Longrightarrow> c \<in> set (profiles w) \<and> lh_profile h = Some (cp_id c)"
  by (auto simp: profile_of_def find_Some_iff)

text \<open>
  A session of a fleet operation: with an enabled host of an enabled group of the event's target
  system, whose key was the pinned one, as the user and with the secrets of the host's own profile.
\<close>

definition inventory_session ::
  "linux_env \<Rightarrow> connector_payload \<Rightarrow> 'b linux_world_scheme \<Rightarrow> ssh_request list \<Rightarrow> ssh_request \<Rightarrow> bool" where
  "inventory_session env p w sent q \<longleftrightarrow> (\<exists>s g h c key pw.
     system_by_name (systems w) (targetSystem p) = Some s \<and> ts_type s = ''linux'' \<and>
     g \<in> set (server_groups w) \<and> lg_enabled g \<and> lg_system g = sys_id s \<and> (lg_id g, lh_id h) \<in> set (members w) \<and>
     h \<in> set (hosts w) \<and> lh_enabled h \<and> lh_system h = sys_id s \<and> sq_host q = Str (lh_host h) \<and>
     normalizeFingerprint (le_hostKey env sent q) = normalizeFingerprint (lh_fingerprint h) \<and>
     c \<in> set (profiles w) \<and> cp_enabled c \<and> cp_system c = sys_id s \<and> lh_profile h = Some (cp_id c) \<and>
     sq_username q = Str (cp_username c) \<and>
     optional_secret env (cp_privateKeyRef c) (cp_mode c) = Inr key \<and> sq_privateKey q = if_truthy key \<and>
     optional_secret env (cp_passwordRef c) (cp_mode c) = Inr pw \<and> sq_password q = if_truthy pw)"

lemma host_config:
  assumes "hostSshConfig env base profile h = Inr config"
  shows "\<exists>c key pw. profile = Some c \<and> cp_enabled c \<and> optional_secret env (cp_privateKeyRef c) (cp_mode c) = Inr key \<and>
    optional_secret env (cp_passwordRef c) (cp_mode c) = Inr pw \<and>
    js_get config ''host'' = Str (lh_host h) \<and> js_get config ''username'' = Str (cp_username c) \<and>
    js_get config ''hostFingerprint'' = Str (lh_fingerprint h) \<and>
    js_get config ''privateKey'' = key \<and> js_get config ''password'' = pw"
proof (cases profile)
  case (Some c)
  from assms obtain key pw where c: "cp_enabled c" "optional_secret env (cp_privateKeyRef c) (cp_mode c) = Inr key"
    "optional_secret env (cp_passwordRef c) (cp_mode c) = Inr pw"
    and config: "config = spread base [(''provider'', Str ''ssh-sudo''), (''host'', Str (lh_host h)),
      (''port'', num (of_nat (lh_port h))), (''hostFingerprint'', Str (lh_fingerprint h)),
      (''username'', Str (cp_username c)), (''privateKey'', key), (''password'', pw)]"
    unfolding hostSshConfig_def Some option.case
    by (cases "cp_enabled c") (auto simp only: ebind_Inr_iff if_True if_False not_True_eq_False not_False_eq_True sum.distinct sum.inject)
  have "js_get config ''host'' = Str (lh_host h)" "js_get config ''username'' = Str (cp_username c)"
    "js_get config ''hostFingerprint'' = Str (lh_fingerprint h)" "js_get config ''privateKey'' = key"
    "js_get config ''password'' = pw"
    unfolding config by (simp_all add: js_get_js_set)
  with Some c show ?thesis by blast
qed (use assms in \<open>simp add: hostSshConfig_def\<close>)

lemma same_system:
  assumes ok: "fleet_ok w" and g: "g \<in> set (server_groups w)" and h: "h \<in> set (hosts w)"
    and m: "(lg_id g, lh_id h) \<in> set (members w)"
  shows "lh_system h = lg_system g"
proof -
  from fleet_okD(5) [OF ok m] obtain g' h' where x: "g' \<in> set (server_groups w)" "h' \<in> set (hosts w)"
    "lg_id g' = lg_id g" "lh_id h' = lh_id h" "lg_system g' = lh_system h'" unfolding member_linked_def by auto
  have "g' = g" "h' = h"
    using group_table.same_id [OF fleet_okD(3) [OF ok] g x(1) x(3)] host_table.same_id [OF fleet_okD(2) [OF ok] h x(2) x(4)] by simp_all
  with x(5) show ?thesis by simp
qed

lemma pair_good:
  assumes ok: "fleet_ok w" and pair: "(h, profile) \<in> set (fleet_pairs env p w)"
    and config: "hostSshConfig env base profile h = Inr config"
  shows "session_good env config (inventory_session env p w)"
proof -
  obtain hs w' where hs: "resolveFleetHosts env p w = (Inr hs, w')" "h \<in> set hs" "profile = profile_of w h"
    using pair by (cases "resolveFleetHosts env p w") (auto simp: fleet_pairs_def split: sum.splits)
  from resolved_hosts [OF hs(1,2)] obtain s g where s: "system_by_name (systems w) (targetSystem p) = Some s"
      "ts_type s = ''linux''" "g \<in> set (server_groups w)" "lg_enabled g" "lg_system g = sys_id s"
      "(lg_id g, lh_id h) \<in> set (members w)" "h \<in> set (hosts w)" "lh_enabled h" by blast
  from host_config [OF config] obtain c key pw where c: "profile = Some c" "cp_enabled c"
      "optional_secret env (cp_privateKeyRef c) (cp_mode c) = Inr key" "optional_secret env (cp_passwordRef c) (cp_mode c) = Inr pw"
      "js_get config ''host'' = Str (lh_host h)" "js_get config ''username'' = Str (cp_username c)"
      "js_get config ''hostFingerprint'' = Str (lh_fingerprint h)" "js_get config ''privateKey'' = key"
      "js_get config ''password'' = pw" by blast
  have sys: "lh_system h = sys_id s" using same_system [OF ok s(3,7,6)] s(5) by simp
  from profile_of_Some [of w h c] c(1) hs(3) have prof: "c \<in> set (profiles w)" "lh_profile h = Some (cp_id c)" by simp_all
  from fleet_okD(4) [OF ok s(7)] prof(2) obtain c' where c': "c' \<in> set (profiles w)" "cp_id c' = cp_id c"
    "cp_system c' = lh_system h" unfolding profile_linked_def by blast
  then have "cp_system c = sys_id s"
    using profile_table.same_id [OF fleet_okD(1) [OF ok] prof(1) c'(1,2)] sys by simp
  moreover have "normalizeFingerprint (le_hostKey env sent q) = normalizeFingerprint (lh_fingerprint h)"
    if "hostVerifier config (le_hostKey env sent q)" for sent q
    using that c(7) by (simp add: hostVerifier_def)
  ultimately have "inventory_session env p w sent (ssh_request_of config command input)"
    if "hostVerifier config (le_hostKey env sent (ssh_request_of config command input))" for sent command input
    unfolding inventory_session_def
    using that s c(2-6,8,9) sys prof
    by (intro exI [of _ s] exI [of _ g] exI [of _ h] exI [of _ c] exI [of _ key] exI [of _ pw] conjI)
      (simp_all add: ssh_request_of_def)
  then show ?thesis by (simp add: session_good_def)
qed

section \<open>What is sent to the agent\<close>

text \<open>A request with the token goes, without redirects, to an allowed host over TLS.\<close>

definition agent_good :: "linux_env \<Rightarrow> obj \<Rightarrow> agent_request \<Rightarrow> bool" where
  "agent_good env config q \<longleftrightarrow> aq_authorization q = None \<or>
     (\<exists>path parsed allowed. le_url env path (js_get config ''baseUrl'') = Inr parsed \<and> aq_url q = url_text parsed \<and>
        url_protocol parsed = ''https:'' \<and> allowed_hosts config = Inr allowed \<and>
        to_lower (url_hostname parsed) \<in> set allowed \<and> aq_maxRedirects q = Some 0)"

lemma request_good: "agent_request_of env config verb path data = Inr q \<Longrightarrow> agent_good env config q"
  by (cases "truthy (js_get config ''apiToken'')")
    (auto simp: agent_request_of_def agent_url_def agent_good_def ebind_Inr_iff Let_def split: if_splits)

abbreviation agent_grown :: "(agent_request list \<Rightarrow> agent_request \<Rightarrow> bool) \<Rightarrow> agent_request list \<Rightarrow> 'b linux_world_scheme \<Rightarrow> bool" where
  "agent_grown good old \<equiv> \<lambda>w. grown good old (agent_log w)"

lemma remoteRequest_grown: "preserves (agent_grown (\<lambda>_. agent_good env config) old) (remoteRequest env config verb path data)"
  unfolding remoteRequest_def
  by (rule preserves_sbind_lift) (auto simp: preserves_def intro: grown_snoc request_good)

lemma executeRemoteAgent_grown: "preserves (agent_grown (\<lambda>_. agent_good env config) old) (executeRemoteAgent env p config)"
  unfolding executeRemoteAgent_def Let_def with_login_def by (intro ssh_rules remoteRequest_grown)

lemma ssh_keeps_agent:
  "preserves (\<lambda>w. agent_log w = l) (execSshWithInput env config command input)"
  "preserves (\<lambda>w. agent_log w = l) (executeSsh env p config)"
proof -
  have "preserves (\<lambda>w. agent_log w = l) (ssh_session env config q)" for q
    by (auto simp: preserves_def ssh_session_def)
  then show exec: "preserves (\<lambda>w. agent_log w = l) (execSshWithInput env config command input)" for command input
    unfolding execSshWithInput_def by (intro ssh_rules)
  show "preserves (\<lambda>w. agent_log w = l) (executeSsh env p config)"
    unfolding executeSsh_def Let_def with_login_def execSsh_def disableSshUser_def setPassword_def
    by (intro ssh_rules exec)
qed

lemma on_hosts_keep_agent: "preserves (\<lambda>w. agent_log w = l) (on_hosts env p config hs)"
proof (induction hs)
  case (Cons e hs)
  obtain h c where e: "e = (h, c)" by (cases e)
  show ?case unfolding e on_hosts.simps on_host_def
    by (intro ssh_rules preserves_catch ssh_keeps_agent(2) Cons.IH)
qed (simp add: preserves_def)

lemma preserves_joined: "(\<And>v. preserves I (f v)) \<Longrightarrow> preserves I (\<lambda>w. f w w)"
  by (auto simp: preserves_def)

lemma fleet_keeps_agent: "agent_log (snd (executeSshFleet env p config w)) = agent_log w"
proof -
  have "preserves (\<lambda>v. agent_log v = agent_log w) (executeFleetUserOperation env p config)"
    unfolding executeFleetUserOperation_def
    by (intro preserves_sbind [OF fleet_reads_only(5)], rule preserves_joined, intro ssh_rules on_hosts_keep_agent)
  then have "preserves (\<lambda>v. agent_log v = agent_log w) (executeSshFleet env p config)"
    unfolding executeSshFleet_def Let_def by (intro ssh_rules fleet_reads_only)
  from preserves_snd [OF this refl] show ?thesis .
qed

section \<open>Properties\<close>

text \<open>
  C7: whatever the configuration and the event contain, every command that the connector sends over
  SSH is read by the shell as one of the nine commands it means to run: the texts of the event are
  single words of it, the login and the groups are well formed names, and only \<open>chpasswd\<close> gets an
  input, which starts with such a login.
\<close>

theorem linux_commands_are_intended:
  "\<exists>new. ssh_log (snd (linux_execute env p w)) = ssh_log w @ new \<and>
     list_all (\<lambda>q. intended (sq_command q) (sq_input q)) new"
proof -
  have "session_good env config (\<lambda>_ q. intended (sq_command q) (sq_input q))" for config
    by (simp add: session_good_def ssh_request_of_def)
  then have "ssh_grown (\<lambda>_ q. intended (sq_command q) (sq_input q)) (ssh_log w) (snd (linux_execute env p w))"
    by (intro execute_grown refl) auto
  then show ?thesis by (auto simp: grown_def trace_ok_each)
qed

text \<open>
  C8: over a fleet, a session is opened only with an enabled host of an enabled server group of the
  event's own target system, whose host key was the pinned one at that moment, and it presents the
  user and the secrets of that host's enabled profile, which belongs to the same target system.
\<close>

theorem fleet_sessions_stay_in_inventory:
  assumes "fleet_ok w" "js_get (as_obj (js_get (body p) ''config'')) ''provider'' = Str ''ssh-sudo-fleet''"
  shows "\<exists>new. ssh_log (snd (linux_execute env p w)) = ssh_log w @ new \<and>
    trace_ok (inventory_session env p w) (ssh_log w) new"
proof -
  have "ssh_grown (inventory_session env p w) (ssh_log w) (snd (linux_execute env p w))"
    by (rule execute_grown [OF _ _ refl]) (use assms(2) pair_good [OF assms(1)] in auto)
  then show ?thesis by (simp add: grown_def)
qed

text \<open>
  C9: the token of the remote agent leaves the process only in requests over TLS, without redirects,
  to a host that the configuration allows.
\<close>

theorem agent_token_stays_with_allowed_hosts:
  "\<exists>new. agent_log (snd (linux_execute env p w)) = agent_log w @ new \<and>
     list_all (agent_good env (as_obj (js_get (body p) ''config''))) new"
proof -
  let ?config = "as_obj (js_get (body p) ''config'')"
  have "agent_grown (\<lambda>_. agent_good env ?config) (agent_log w) (snd (executeRemoteAgent env p ?config w))"
    by (rule preserves_snd [OF executeRemoteAgent_grown]) simp
  moreover have "agent_log (snd (executeSsh env p ?config w)) = agent_log w"
    by (rule preserves_snd [OF ssh_keeps_agent(2) refl])
  ultimately have "agent_grown (\<lambda>_. agent_good env ?config) (agent_log w) (snd (linux_execute env p w))"
    unfolding linux_execute_def Let_def by (simp add: masked_run fleet_keeps_agent)
  then show ?thesis by (auto simp: grown_def trace_ok_each)
qed

text \<open>A SHA-256 digest as the SSH library hands it to the verifier: 64 hexadecimal digits.\<close>

definition hex_digest :: "string \<Rightarrow> bool" where
  "hex_digest s \<longleftrightarrow> length s = 64 \<and> list_all (\<lambda>c. c \<in> set ''0123456789abcdef'') s"

lemma dropWhile_none: "\<forall>c \<in> set s. \<not> P c \<Longrightarrow> dropWhile P s = s"
  by (cases s) simp_all

lemma hex_char: "c \<in> set ''0123456789abcdef'' \<Longrightarrow> \<not> is_ws c \<and> c \<noteq> CHR ''='' \<and> lower_char c \<noteq> CHR ''s''"
  by auto

lemma hex_normalized:
  assumes "hex_digest s"
  shows "normalizeFingerprint s = s"
proof -
  have each: "\<not> is_ws c" "c \<noteq> CHR ''=''" "lower_char c \<noteq> CHR ''s''" if "c \<in> set s" for c
    using that hex_char [of c] assms unfolding hex_digest_def list_all_iff by blast+
  have "trim s = s" by (rule trim_no_ws) (use each(1) in blast)
  moreover have "\<not> starts_with ''sha256:'' (to_lower s)"
    using each(3) by (cases s) (simp_all add: starts_with_def to_lower_def)
  moreover have "dropWhile (\<lambda>c. c = CHR ''='') (rev s) = rev s"
    by (rule dropWhile_none) (use each(2) in auto)
  ultimately show ?thesis by (simp add: normalizeFingerprint_def strip_scheme_def)
qed

lemma openssh_normalized:
  assumes "\<forall>c \<in> set b. \<not> is_ws c"
  shows "length (normalizeFingerprint (''SHA256:'' @ b)) \<le> length b"
proof -
  have "trim (''SHA256:'' @ b) = ''SHA256:'' @ b" using assms by (intro trim_no_ws) auto
  moreover have "starts_with ''sha256:'' (to_lower (''SHA256:'' @ b))" by (simp add: starts_with_def to_lower_def)
  ultimately show ?thesis
    using length_dropWhile_le [of "\<lambda>c. c = CHR ''=''" "rev b"] by (simp add: normalizeFingerprint_def strip_scheme_def)
qed

text \<open>
  A fingerprint in the form of OpenSSH, \<open>SHA256:\<close> and 43 characters of Base64, as the deployment
  guide asks for, is never accepted: the SSH library hands the verifier the hexadecimal digest, so every
  session is refused and no command runs.
\<close>

theorem openssh_fingerprint_is_refused:
  assumes "\<forall>sent q. hex_digest (le_hostKey env sent q)"
    and "js_get config ''hostFingerprint'' = Str (''SHA256:'' @ b)" "length b \<le> 44" "\<forall>c \<in> set b. \<not> is_ws c"
  shows "\<exists>e. execSshWithInput env config command input w = (Inl e, w)"
proof -
  have "\<not> hostVerifier config (le_hostKey env sent q)" for sent q
  proof -
    have "length (normalizeFingerprint (le_hostKey env sent q)) = 64"
      using assms(1) hex_normalized by (simp add: hex_digest_def)
    moreover have "length (normalizeFingerprint (''SHA256:'' @ b)) \<le> 44"
      using openssh_normalized [OF assms(4)] assms(3) by simp
    ultimately have "normalizeFingerprint (le_hostKey env sent q) \<noteq> normalizeFingerprint (''SHA256:'' @ b)" by force
    then show ?thesis using assms(2) by (simp add: hostVerifier_def)
  qed
  then show ?thesis unfolding execSshWithInput_def by (simp add: ssh_session_def)
qed

lemma chpasswd_split:
  assumes "CHR 0x0A \<notin> set a" "a \<noteq> []"
  shows "chpasswd_lines (a @ CHR 0x0A # s) = chpasswd_line a # chpasswd_lines s"
  using assms by (simp add: chpasswd_lines_def split_on_append)

lemma chpasswd_two:
  assumes "posix_name login" "CHR 0x0A \<notin> set own" "posix_name other" "CHR 0x0A \<notin> set chosen"
  shows "chpasswd_lines (chpasswd_input login (own @ CHR 0x0A # other @ '':'' @ chosen)) = [(login, own), (other, chosen)]"
proof -
  have one: "chpasswd_lines (chpasswd_input login own) = [(login, own)]" by (rule chpasswd_exact [OF assms(1,2)])
  have n: "CHR 0x0A \<notin> set (login @ '':'' @ own)"
  proof
    assume "CHR 0x0A \<in> set (login @ '':'' @ own)"
    then have "CHR 0x0A \<in> set login" using assms(2) by auto
    with assms(1) show False
      by (cases login) (auto simp: posix_name_def list_all_iff is_alnum_def is_alpha_def is_lower_def is_upper_def is_digit10_def Let_def)
  qed
  have "chpasswd_line (login @ '':'' @ own) = (login, own)"
    using one chpasswd_split [OF n, of "[]"] by (simp add: chpasswd_input_def chpasswd_lines_def)
  moreover have "chpasswd_input login (own @ CHR 0x0A # other @ '':'' @ chosen) =
      (login @ '':'' @ own) @ CHR 0x0A # chpasswd_input other chosen"
    by (simp add: chpasswd_input_def)
  ultimately show ?thesis
    using chpasswd_split [OF n, of "chpasswd_input other chosen"] chpasswd_exact [OF assms(3,4)] by simp
qed

text \<open>
  A line break in a password sets the password of another account: when an event changes the
  password of its account to a text with a line \<open>other:chosen\<close>, the input that \<open>chpasswd\<close> gets has
  a second line, and \<open>chpasswd\<close> gives the account \<open>other\<close>, which may be \<open>root\<close>, the password \<open>chosen\<close>.
\<close>

theorem password_line_sets_another_account:
  assumes "operation p = ''user.changePassword''"
    and "linux_login (payload_part p ''data'') (payload_part p ''params'') config = Inr login"
    and "linux_password (payload_part p ''data'') True = Inr (own @ CHR 0x0A # other @ '':'' @ chosen)"
    and "posix_name other" "CHR 0x0A \<notin> set own" "CHR 0x0A \<notin> set chosen"
  shows "ssh_log (snd (executeSsh env p config w)) = ssh_log w \<or>
    (\<exists>q input. ssh_log (snd (executeSsh env p config w)) = ssh_log w @ [q] \<and> sq_command q = ''sudo chpasswd'' \<and>
      sq_input q = Some input \<and> chpasswd_lines input = [(login, own), (other, chosen)])"
proof -
  define input where "input = chpasswd_input login (own @ CHR 0x0A # other @ '':'' @ chosen)"
  have lines: "chpasswd_lines input = [(login, own), (other, chosen)]"
    unfolding input_def by (rule chpasswd_two [OF posix_login [OF assms(2)] assms(5,4,6)])
  have "snd (executeSsh env p config w) = snd (execSshWithInput env config ''sudo chpasswd'' (Some input) w)"
    using assms(1-3)
    by (simp add: executeSsh_def with_login_def setPassword_def sbind_def input_def split: prod.split sum.split)
  then show ?thesis
    using lines by (auto simp: execSshWithInput_def ssh_session_def ssh_request_of_def)
qed

lemma no_mapping_keys:
  assumes "js_get config ''groupMappingMode'' = Undef" "js_get config ''groupMappingEnabled'' = Undef"
  shows "mapped_groups config target groups = Inr (False, [])"
  using assms by (simp add: mapped_groups_def groupMappingSettings_def groupMappingMode_def blank_def booleanConfig_def)

text \<open>
  With encryption of stored data switched on, the group mapping of a fleet has no effect: the
  connector reads the settings from the stored row without decrypting it, and finds none, whatever the
  configuration says.
\<close>

theorem encrypted_group_mapping_is_ignored:
  assumes "encryption_isEnabled S" "\<not> sqlite S" "toJson P S iv config = Inr stored"
  shows "fleet_group_codes P stored data params = fleet_group_codes P (Obj []) data params"
proof -
  obtain kid tag ct where stored: "stored = Obj (envelope kid iv tag ct)"
    using assms by (auto simp: toJson_def encryptForStorage_def encryptObject_def ebind_Inr_iff Let_def)
  have "js_get (envelope kid iv tag ct) ''groupMappingMode'' = Undef"
    "js_get (envelope kid iv tag ct) ''groupMappingEnabled'' = Undef"
    by (simp_all add: envelope_def js_get_def)
  from no_mapping_keys [OF this] show ?thesis
    using no_mapping_keys [of "[]"] by (simp add: fleet_group_codes_def stored js_get_def)
qed

section \<open>Witnesses\<close>

definition demo_linux_env :: "string \<Rightarrow> linux_env" where
  "demo_linux_env hostKey =
     \<lparr>le_hostKey = (\<lambda>_ _. hostKey), le_denied = JsError ''denied'', le_ssh = (\<lambda>_ _. SshClosed (Some 0) [] []),
      le_http = (\<lambda>_ _. Inr Null), le_url = (\<lambda>_ _. Inl type_error), le_secret = (\<lambda>_. Some ''pw''),
      le_pam = (\<lambda>_. Inl type_error), le_platform = demo_platform, le_tls = None, le_collate = (\<lambda>_ _. True),
      le_readSystem = None, le_readFleet = None\<rparr>"

definition demo_profile :: profile_row where
  "demo_profile =
     \<lparr>cp_id = ''c1'', cp_system = ''s'', cp_name = ''ops'', cp_mode = ''env'', cp_username = ''idm'',
      cp_privateKeyRef = None, cp_passwordRef = Some ''KEY'', cp_enabled = True\<rparr>"

definition demo_linux_system :: system_row where
  "demo_linux_system =
     \<lparr>ts_name = ''a'', ts_type = ''linux'', ts_config = Obj [], ts_enabled = True, ts_updatedAt = 1,
      sys_id = ''s'', sys_label = ''a'', sys_createdAt = 1\<rparr>"

definition demo_linux_world :: linux_world where
  "demo_linux_world =
     \<lparr>systems = [demo_linux_system], roles = [], mappings = [], profiles = [demo_profile],
      hosts = [(demo_host ''h1'' ''s'')\<lparr>lh_profile := Some ''c1''\<rparr>],
      server_groups = [\<lparr>lg_id = ''g'', lg_system = ''s'', lg_code = ''web'', lg_name = ''Web'', lg_description = None,
        lg_enabled = True\<rparr>],
      members = [(''g'', ''h1'')], ssh_log = [], agent_log = []\<rparr>"

definition demo_event :: "string \<Rightarrow> obj \<Rightarrow> obj \<Rightarrow> connector_payload" where
  "demo_event op config data =
     \<lparr>operation = op, targetSystem = ''a'', body = [(''config'', Obj config), (''data'', Obj data)]\<rparr>"

definition demo_fleet_event :: connector_payload where
  "demo_fleet_event = demo_event ''user.lock''
     [(''provider'', Str ''ssh-sudo-fleet''), (''sudoMode'', Str ''passwordless'')]
     [(''login'', Str ''ada''), (''serverGroups'', Str ''web'')]"

lemma demo_fleet_run:
  "map sq_command (ssh_log (snd (linux_execute (demo_linux_env ''f'') demo_fleet_event demo_linux_world))) =
     [disableCommand ''ada'']"
  by code_simp

lemma demo_linux_world_ok: "fleet_ok demo_linux_world"
  by (simp add: fleet_ok_def table_ok_defs demo_linux_world_def demo_profile_def demo_host_def lh_key_def host_ok_def
      profile_ok_def group_ok_def profile_linked_def member_linked_def demo_code_ok clean_def trim_def)

theorem fleet_sessions_stay_in_inventory_witness:
  "\<exists>q. ssh_log (snd (linux_execute (demo_linux_env ''f'') demo_fleet_event demo_linux_world)) = [q] \<and>
     sq_command q = disableCommand ''ada'' \<and> inventory_session (demo_linux_env ''f'') demo_fleet_event demo_linux_world [] q"
proof -
  have "js_get (as_obj (js_get (body demo_fleet_event) ''config'')) ''provider'' = Str ''ssh-sudo-fleet''"
    by (simp add: demo_fleet_event_def demo_event_def js_get_def)
  from fleet_sessions_stay_in_inventory [OF demo_linux_world_ok this] obtain new where
    new: "ssh_log (snd (linux_execute (demo_linux_env ''f'') demo_fleet_event demo_linux_world)) = new"
      "trace_ok (inventory_session (demo_linux_env ''f'') demo_fleet_event demo_linux_world) [] new"
    by (auto simp: demo_linux_world_def)
  moreover from demo_fleet_run obtain q where "new = [q]" "sq_command q = disableCommand ''ada''"
    unfolding new(1) by auto
  ultimately show ?thesis by auto
qed

definition demo_ssh_config :: "string \<Rightarrow> obj" where
  "demo_ssh_config fp =
     [(''host'', Str ''h''), (''username'', Str ''idm''), (''sudoMode'', Str ''passwordless''), (''hostFingerprint'', Str fp)]"

theorem openssh_fingerprint_is_refused_witness:
  "(\<exists>e. execSshWithInput (demo_linux_env (replicate 64 CHR ''0''))
      (demo_ssh_config (''SHA256:'' @ replicate 43 CHR ''A'')) ''id'' None demo_linux_world = (Inl e, demo_linux_world)) \<and>
   fst (execSshWithInput (demo_linux_env (replicate 64 CHR ''0'')) (demo_ssh_config (replicate 64 CHR ''0'')) ''id'' None
      demo_linux_world) = Inr []"
proof
  show "\<exists>e. execSshWithInput (demo_linux_env (replicate 64 CHR ''0''))
      (demo_ssh_config (''SHA256:'' @ replicate 43 CHR ''A'')) ''id'' None demo_linux_world = (Inl e, demo_linux_world)"
    by (rule openssh_fingerprint_is_refused [of _ _ "replicate 43 CHR ''A''"])
      (simp_all add: demo_linux_env_def demo_ssh_config_def js_get_def hex_digest_def list_all_iff)
qed (simp add: execSshWithInput_def ssh_session_def hostVerifier_def demo_linux_env_def demo_ssh_config_def js_get_def
    ssh_result_def)

definition demo_password_event :: connector_payload where
  "demo_password_event = demo_event ''user.changePassword'' []
     [(''login'', Str ''ada''), (''password'', Str (''a'' @ CHR 0x0A # ''root:b''))]"

theorem password_line_sets_another_account_witness:
  "map (map_option chpasswd_lines \<circ> sq_input) (ssh_log (snd (executeSsh (demo_linux_env ''f'') demo_password_event
     (demo_ssh_config ''f'') demo_linux_world))) = [Some [(''ada'', ''a''), (''root'', ''b'')]]"
proof -
  let ?log = "ssh_log (snd (executeSsh (demo_linux_env ''f'') demo_password_event (demo_ssh_config ''f'') demo_linux_world))"
  have run: "length ?log = 1" by code_simp
  have "ssh_log demo_linux_world = []" by (simp add: demo_linux_world_def)
  moreover have "?log = ssh_log demo_linux_world \<or> (\<exists>q input. ?log = ssh_log demo_linux_world @ [q] \<and>
      sq_command q = ''sudo chpasswd'' \<and> sq_input q = Some input \<and> chpasswd_lines input = [(''ada'', ''a''), (''root'', ''b'')])"
  proof (rule password_line_sets_another_account)
    show "linux_login (payload_part demo_password_event ''data'') (payload_part demo_password_event ''params'')
      (demo_ssh_config ''f'') = Inr ''ada''" by code_simp
    show "linux_password (payload_part demo_password_event ''data'') True = Inr (''a'' @ CHR 0x0A # ''root'' @ '':'' @ ''b'')"
      by code_simp
    show "posix_name ''root''" by code_simp
  qed (simp_all add: demo_password_event_def demo_event_def)
  ultimately show ?thesis using run by auto
qed

definition demo_mapping_config :: obj where
  "demo_mapping_config =
     [(''groupMappingEnabled'', Bool True), (''groupMappingMode'', Str ''code'')]"

theorem encrypted_group_mapping_is_ignored_witness:
  "\<exists>stored. toJson demo_platform (demo_settings ''k1'') ''iv'' (Obj demo_mapping_config) = Inr stored \<and>
     fleet_group_codes demo_platform stored [(''groups'', Arr [Obj [(''code'', Str ''web'')]])] [] =
       Inl (JsError ''Missing Linux serverGroups for fleet operation'') \<and>
     fleet_group_codes demo_platform (Obj demo_mapping_config) [(''groups'', Arr [Obj [(''code'', Str ''web'')]])] [] =
       Inr [''web'']"
proof -
  let ?data = "[(''groups'', Arr [Obj [(''code'', Str ''web'')]])]"
  have on: "encryption_isEnabled (demo_settings ''k1'')" "activeKeyId (demo_settings ''k1'') = Inr ''k1''"
    by (simp_all add: encryption_isEnabled_def readFlag_def activeKeyId_def readText_def readString_def demo_settings_def)
  have sqlite: "\<not> sqlite (demo_settings ''k1'')" by (simp add: demo_settings_def)
  have "requireKey demo_platform (demo_settings ''k1'') ''k1'' = Inr (replicate 32 (CHR ''a''))"
    by (simp add: requireKey_def demo_keyring demo_ring_def)
  then obtain stored where stored: "toJson demo_platform (demo_settings ''k1'') ''iv'' (Obj demo_mapping_config) = Inr stored"
    by (simp add: toJson_def encryptForStorage_def encryptObject_def on Let_def sqlite)
  from encrypted_group_mapping_is_ignored [OF on(1) sqlite stored]
  have "fleet_group_codes demo_platform stored ?data [] = fleet_group_codes demo_platform (Obj []) ?data []" .
  also have "\<dots> = Inl (JsError ''Missing Linux serverGroups for fleet operation'')" by code_simp
  finally have "fleet_group_codes demo_platform stored ?data [] = Inl (JsError ''Missing Linux serverGroups for fleet operation'')" .
  moreover have "fleet_group_codes demo_platform (Obj demo_mapping_config) ?data [] = Inr [''web'']" by code_simp
  ultimately show ?thesis using stored by blast
qed

end
