(* ===== verification/LinuxFleetApi.thy ===== *)
theory LinuxFleetApi
  imports LinuxFleet
begin

text \<open>
  Models \<open>admin/linux-fleet.controller.ts\<close>: the interface of the Linux inventory with the rights it
  asks for, and what a request can change at all.
\<close>

section \<open>Guards\<close>

record fleet_api =
  fa_rbac :: rbac_env
  fa_fleet :: fleet_env

record fleet_api_call =
  fl_rbac :: rbac_call
  fl_fleet :: fleet_call

definition assertTargetSystemRead ::
  "fleet_api \<Rightarrow> fleet_api_call \<Rightarrow> admin_session option \<Rightarrow> string \<Rightarrow> (unit, 'b fleet_db_scheme) op" where
  "assertTargetSystemRead env c s i =
     sbind (request_session s) (\<lambda>ses.
     sbind (connectorTypeByTargetSystemId (fl_rbac c) i) (\<lambda>t. assertRead (fa_rbac env) (fl_rbac c) ses t))"

definition assertTargetSystemWrite ::
  "fleet_api \<Rightarrow> fleet_api_call \<Rightarrow> admin_session option \<Rightarrow> string \<Rightarrow> (unit, 'b fleet_db_scheme) op" where
  "assertTargetSystemWrite env c s i =
     sbind (request_session s) (\<lambda>ses.
     sbind (connectorTypeByTargetSystemId (fl_rbac c) i) (\<lambda>t. assertWrite (fa_rbac env) (fl_rbac c) ses t))"

definition targetSystemIdForCredentialProfile :: "fleet_call \<Rightarrow> string \<Rightarrow> (string, 'b fleet_db_scheme) op" where
  "targetSystemIdForCredentialProfile c i =
     sbind (find_row (fc_read c) profiles cp_id ''Linux credential profile not found'' i) (\<lambda>r. ret (cp_system r))"

definition targetSystemIdForHost :: "fleet_call \<Rightarrow> string \<Rightarrow> (string, 'b fleet_db_scheme) op" where
  "targetSystemIdForHost c i =
     sbind (find_row (fc_read c) hosts lh_id ''Linux host not found'' i) (\<lambda>r. ret (lh_system r))"

definition targetSystemIdForGroup :: "fleet_call \<Rightarrow> string \<Rightarrow> (string, 'b fleet_db_scheme) op" where
  "targetSystemIdForGroup c i =
     sbind (find_row (fc_read c) server_groups lg_id ''Linux server group not found'' i) (\<lambda>r. ret (lg_system r))"

section \<open>Handlers\<close>

definition query_number :: "string option \<Rightarrow> int option" where
  "query_number v =
     (case v of None \<Rightarrow> None
      | Some s \<Rightarrow> if s = [] then None else (case number_of_string s of
          Fin r \<Rightarrow> if is_integer (Fin r) then Some \<lfloor>r\<rfloor> else None
        | _ \<Rightarrow> None))"

definition query_boolean :: "string option \<Rightarrow> bool option" where
  "query_boolean v = map_option (\<lambda>s. s = ''true'') v"

definition query_params :: "string option \<Rightarrow> string option \<Rightarrow> string option \<Rightarrow> string option \<Rightarrow> list_params" where
  "query_params limit offset search enabled =
     \<lparr>lp_limit = query_number limit, lp_offset = query_number offset, lp_search = search,
      lp_enabled = query_boolean enabled\<rparr>"

definition fleet_read ::
  "fleet_api \<Rightarrow> fleet_api_call \<Rightarrow> admin_session option \<Rightarrow> string \<Rightarrow> ('a, 'b fleet_db_scheme) op \<Rightarrow> ('a, 'b fleet_db_scheme) op" where
  "fleet_read env c s i m = sbind (assertTargetSystemRead env c s i) (\<lambda>_. m)"

definition api_listCredentialProfiles ::
  "fleet_api \<Rightarrow> fleet_api_call \<Rightarrow> admin_session option \<Rightarrow> string \<Rightarrow> list_params \<Rightarrow> (profile_row list, 'b fleet_db_scheme) op" where
  "api_listCredentialProfiles env c s i p =
     fleet_read env c s i (listCredentialProfiles (fa_fleet env) (fl_fleet c) i p)"

definition api_listHosts ::
  "fleet_api \<Rightarrow> fleet_api_call \<Rightarrow> admin_session option \<Rightarrow> string \<Rightarrow> list_params \<Rightarrow>
   ((host_row \<times> jsval \<times> profile_row option \<times> server_group_row list) list, 'b fleet_db_scheme) op" where
  "api_listHosts env c s i p = fleet_read env c s i (listHosts (fa_fleet env) (fl_fleet c) i p)"

definition api_listGroups ::
  "fleet_api \<Rightarrow> fleet_api_call \<Rightarrow> admin_session option \<Rightarrow> string \<Rightarrow> list_params \<Rightarrow>
   ((server_group_row \<times> nat) list, 'b fleet_db_scheme) op" where
  "api_listGroups env c s i p = fleet_read env c s i (listGroups (fa_fleet env) (fl_fleet c) i p)"

text \<open>A change first looks up the target system of its row, then asks for the right to write it.\<close>

definition fleet_write ::
  "fleet_api \<Rightarrow> fleet_api_call \<Rightarrow> admin_session option \<Rightarrow> (string, 'b fleet_db_scheme) op \<Rightarrow>
   ('a, 'b fleet_db_scheme) op \<Rightarrow> ('a, 'b fleet_db_scheme) op" where
  "fleet_write env c s owner m =
     sbind owner (\<lambda>i. sbind (assertTargetSystemWrite env c s i) (\<lambda>_. m))"

definition api_createCredentialProfile ::
  "fleet_api \<Rightarrow> fleet_api_call \<Rightarrow> admin_session option \<Rightarrow> string \<Rightarrow> obj \<Rightarrow> (profile_row, 'b fleet_db_scheme) op" where
  "api_createCredentialProfile env c s i b =
     fleet_write env c s (ret i) (createCredentialProfile (fl_fleet c) i b)"

definition api_updateCredentialProfile ::
  "fleet_api \<Rightarrow> fleet_api_call \<Rightarrow> admin_session option \<Rightarrow> string \<Rightarrow> obj \<Rightarrow> (profile_row, 'b fleet_db_scheme) op" where
  "api_updateCredentialProfile env c s i b =
     fleet_write env c s (targetSystemIdForCredentialProfile (fl_fleet c) i) (updateCredentialProfile (fl_fleet c) i b)"

definition api_deleteCredentialProfile ::
  "fleet_api \<Rightarrow> fleet_api_call \<Rightarrow> admin_session option \<Rightarrow> string \<Rightarrow> (unit, 'b fleet_db_scheme) op" where
  "api_deleteCredentialProfile env c s i =
     fleet_write env c s (targetSystemIdForCredentialProfile (fl_fleet c) i) (deleteCredentialProfile (fl_fleet c) i)"

definition api_createHost ::
  "fleet_api \<Rightarrow> fleet_api_call \<Rightarrow> admin_session option \<Rightarrow> string \<Rightarrow> obj \<Rightarrow> (host_row, 'b fleet_db_scheme) op" where
  "api_createHost env c s i b = fleet_write env c s (ret i) (createHost (fa_fleet env) (fl_fleet c) i b)"

definition api_updateHost ::
  "fleet_api \<Rightarrow> fleet_api_call \<Rightarrow> admin_session option \<Rightarrow> string \<Rightarrow> obj \<Rightarrow> (host_row, 'b fleet_db_scheme) op" where
  "api_updateHost env c s i b =
     fleet_write env c s (targetSystemIdForHost (fl_fleet c) i) (updateHost (fa_fleet env) (fl_fleet c) i b)"

definition api_deleteHost ::
  "fleet_api \<Rightarrow> fleet_api_call \<Rightarrow> admin_session option \<Rightarrow> string \<Rightarrow> (unit, 'b fleet_db_scheme) op" where
  "api_deleteHost env c s i =
     fleet_write env c s (targetSystemIdForHost (fl_fleet c) i) (deleteHost (fl_fleet c) i)"

definition api_createGroup ::
  "fleet_api \<Rightarrow> fleet_api_call \<Rightarrow> admin_session option \<Rightarrow> string \<Rightarrow> obj \<Rightarrow> (server_group_row, 'b fleet_db_scheme) op" where
  "api_createGroup env c s i b = fleet_write env c s (ret i) (createGroup (fl_fleet c) i b)"

definition api_updateGroup ::
  "fleet_api \<Rightarrow> fleet_api_call \<Rightarrow> admin_session option \<Rightarrow> string \<Rightarrow> obj \<Rightarrow> (server_group_row, 'b fleet_db_scheme) op" where
  "api_updateGroup env c s i b =
     fleet_write env c s (targetSystemIdForGroup (fl_fleet c) i) (updateGroup (fl_fleet c) i b)"

definition api_deleteGroup ::
  "fleet_api \<Rightarrow> fleet_api_call \<Rightarrow> admin_session option \<Rightarrow> string \<Rightarrow> (unit, 'b fleet_db_scheme) op" where
  "api_deleteGroup env c s i =
     fleet_write env c s (targetSystemIdForGroup (fl_fleet c) i) (deleteGroup (fl_fleet c) i)"

definition api_setGroupHosts ::
  "fleet_api \<Rightarrow> fleet_api_call \<Rightarrow> admin_session option \<Rightarrow> string \<Rightarrow> string list option \<Rightarrow>
   (string \<times> string list, 'b fleet_db_scheme) op" where
  "api_setGroupHosts env c s i hostIds =
     fleet_write env c s (targetSystemIdForGroup (fl_fleet c) i) (setGroupHosts (fl_fleet c) i (or_else hostIds []))"

fun run_fleet_api ::
  "fleet_api \<Rightarrow> fleet_api_call \<Rightarrow> admin_session option \<Rightarrow> fleet_request \<Rightarrow> 'b fleet_db_scheme \<Rightarrow> 'b fleet_db_scheme" where
  "run_fleet_api env c s (CreateProfile i b) w = snd (api_createCredentialProfile env c s i b w)"
| "run_fleet_api env c s (UpdateProfile i b) w = snd (api_updateCredentialProfile env c s i b w)"
| "run_fleet_api env c s (DeleteProfile i) w = snd (api_deleteCredentialProfile env c s i w)"
| "run_fleet_api env c s (CreateHost i b) w = snd (api_createHost env c s i b w)"
| "run_fleet_api env c s (UpdateHost i b) w = snd (api_updateHost env c s i b w)"
| "run_fleet_api env c s (DeleteHost i) w = snd (api_deleteHost env c s i w)"
| "run_fleet_api env c s (CreateGroup i b) w = snd (api_createGroup env c s i b w)"
| "run_fleet_api env c s (UpdateGroup i b) w = snd (api_updateGroup env c s i b w)"
| "run_fleet_api env c s (DeleteGroup i) w = snd (api_deleteGroup env c s i w)"
| "run_fleet_api env c s (SetGroupHosts i hs) w = snd (api_setGroupHosts env c s i (Some hs) w)"

section \<open>Tables whose rows belong to target systems\<close>

locale owned_table = keyed_table rows put pk key
  for rows :: "'w \<Rightarrow> 'r list" and put :: "'r list \<Rightarrow> 'w \<Rightarrow> 'w" and pk :: "'r \<Rightarrow> string" and key :: "'r \<Rightarrow> 'k" +
  fixes owner :: "'r \<Rightarrow> string"
begin

definition rows_of :: "string \<Rightarrow> 'w \<Rightarrow> 'r list" where
  "rows_of j w = filter (\<lambda>r. owner r = j) (rows w)"

text \<open>One row has the id.\<close>

definition owned_by :: "string \<Rightarrow> string \<Rightarrow> 'w \<Rightarrow> bool" where
  "owned_by k i w \<longleftrightarrow> (\<forall>x \<in> set (rows w). pk x = k \<longrightarrow> owner x = i)"

lemma owned: "table_ok good w \<Longrightarrow> r \<in> set (rows w) \<Longrightarrow> pk r = k \<Longrightarrow> owned_by k (owner r) w"
  unfolding owned_by_def using same_id by metis

lemma insert_elsewhere: "owner r = i \<Longrightarrow> j \<noteq> i \<Longrightarrow> rows_of j (put (rows w @ [r]) w) = rows_of j w"
  by (simp add: rows_of_def rows_put)

lemma update_elsewhere:
  assumes "owned_by k i w" "\<And>r. owner (f r) = owner r" "j \<noteq> i"
  shows "rows_of j (put (map (\<lambda>x. if pk x = k then f x else x) (rows w)) w) = rows_of j w"
proof -
  have "filter (\<lambda>r. owner r = j) (map (\<lambda>x. if pk x = k then f x else x) rs) = filter (\<lambda>r. owner r = j) rs"
    if "\<forall>x \<in> set rs. pk x = k \<longrightarrow> owner x = i" for rs
    using that assms(2,3) by (induction rs) auto
  with assms(1) show ?thesis unfolding owned_by_def rows_of_def rows_put by blast
qed

lemma delete_elsewhere:
  assumes "owned_by k i w" "j \<noteq> i"
  shows "rows_of j (put (filter (\<lambda>r. pk r \<noteq> k) (rows w)) w) = rows_of j w"
  using assms by (auto simp: owned_by_def rows_of_def rows_put intro: filter_cong)

end

interpretation profile_owner: owned_table profiles put_profiles cp_id cp_key cp_system
  by unfold_locales

interpretation host_owner: owned_table hosts put_hosts lh_id lh_key lh_system
  by unfold_locales

interpretation group_owner: owned_table server_groups put_groups lg_id lg_key lg_system
  by unfold_locales

section \<open>A request changes the inventory of one target system\<close>

definition members_of :: "string \<Rightarrow> 'b fleet_db_scheme \<Rightarrow> (string \<times> string) list" where
  "members_of j w = filter (\<lambda>m. \<exists>g \<in> set (server_groups w). lg_id g = fst m \<and> lg_system g = j) (members w)"

definition only_system :: "string \<Rightarrow> 'b fleet_db_scheme \<Rightarrow> 'b fleet_db_scheme \<Rightarrow> bool" where
  "only_system i w w' \<longleftrightarrow> systems w' = systems w \<and> roles w' = roles w \<and> mappings w' = mappings w \<and>
     (\<forall>j. j \<noteq> i \<longrightarrow> profile_owner.rows_of j w' = profile_owner.rows_of j w \<and>
        host_owner.rows_of j w' = host_owner.rows_of j w \<and>
        group_owner.rows_of j w' = group_owner.rows_of j w \<and> members_of j w' = members_of j w)"

lemma only_refl [simp]: "only_system i w w"
  by (simp add: only_system_def)

lemmas rows_of_defs = profile_owner.rows_of_def host_owner.rows_of_def group_owner.rows_of_def

text \<open>The rules of \<open>LinuxFleet\<close> that follow an operation, for this relation.\<close>

lemmas only_after = after_read [where I = "only_system i w" for i w, OF fleet_reads(1)]
  after_read [where I = "only_system i w" for i w, OF fleet_reads(2)]
  after_lift [where I = "only_system i w" for i w]
  after_read [where I = "only_system i w" for i w, OF fleet_reads(3)]
  after_read [where I = "only_system i w" for i w, OF fleet_reads(5)]

lemmas profile_only = after_insert [where I = "only_system i w" and rows = profiles and put = put_profiles and key = cp_key for i w]
  after_update [where I = "only_system i w" and rows = profiles and put = put_profiles and key = cp_key and pk = cp_id for i w]

lemmas host_only = after_insert [where I = "only_system i w" and rows = hosts and put = put_hosts and key = lh_key for i w]
  after_update [where I = "only_system i w" and rows = hosts and put = put_hosts and key = lh_key and pk = lh_id for i w]

lemmas group_only = after_insert [where I = "only_system i w" and rows = server_groups and put = put_groups and key = lg_key for i w]
  after_update [where I = "only_system i w" and rows = server_groups and put = put_groups and key = lg_key and pk = lg_id for i w]

lemma put_other [simp]:
  "members_of j (put_profiles ps w) = members_of j w" "members_of j (put_hosts hs w) = members_of j w"
  "host_owner.rows_of j (put_profiles ps w) = host_owner.rows_of j w"
  "group_owner.rows_of j (put_profiles ps w) = group_owner.rows_of j w"
  "profile_owner.rows_of j (put_hosts hs w) = profile_owner.rows_of j w"
  "group_owner.rows_of j (put_hosts hs w) = group_owner.rows_of j w"
  "profile_owner.rows_of j (put_groups gs w) = profile_owner.rows_of j w"
  "host_owner.rows_of j (put_groups gs w) = host_owner.rows_of j w"
  "systems (put_profiles ps w) = systems w" "systems (put_hosts hs w) = systems w" "systems (put_groups gs w) = systems w"
  "roles (put_profiles ps w) = roles w" "roles (put_hosts hs w) = roles w" "roles (put_groups gs w) = roles w"
  "mappings (put_profiles ps w) = mappings w" "mappings (put_hosts hs w) = mappings w"
  "mappings (put_groups gs w) = mappings w"
  by (simp_all add: table_simps members_of_def rows_of_defs)

lemma only_profiles:
  "(\<And>j. j \<noteq> i \<Longrightarrow> profile_owner.rows_of j (put_profiles ps w) = profile_owner.rows_of j w) \<Longrightarrow>
   only_system i w (put_profiles ps w)"
  by (simp add: only_system_def)

lemma only_hosts:
  "(\<And>j. j \<noteq> i \<Longrightarrow> host_owner.rows_of j (put_hosts hs w) = host_owner.rows_of j w) \<Longrightarrow>
   only_system i w (put_hosts hs w)"
  by (simp add: only_system_def)

lemma only_groups:
  "(\<And>j. j \<noteq> i \<Longrightarrow> group_owner.rows_of j (put_groups gs w) = group_owner.rows_of j w) \<Longrightarrow>
   (\<And>j. j \<noteq> i \<Longrightarrow> members_of j (put_groups gs w) = members_of j w) \<Longrightarrow> only_system i w (put_groups gs w)"
  by (simp add: only_system_def)

lemma members_by_groups:
  assumes "\<And>g. g \<in> set (server_groups w) \<Longrightarrow> lg_system g = j \<Longrightarrow> \<exists>x \<in> set gs. lg_id x = lg_id g \<and> lg_system x = j"
    and "\<And>x. x \<in> set gs \<Longrightarrow> lg_system x = j \<Longrightarrow> \<exists>g \<in> set (server_groups w). lg_id g = lg_id x \<and> lg_system g = j"
  shows "members_of j (put_groups gs w) = members_of j w"
proof -
  have "(\<exists>x \<in> set gs. lg_id x = fst m \<and> lg_system x = j) =
      (\<exists>g \<in> set (server_groups w). lg_id g = fst m \<and> lg_system g = j)" for m :: "string \<times> string"
    using assms by metis
  then show ?thesis by (simp add: members_of_def table_simps)
qed

lemma members_map:
  assumes "\<And>g. lg_id (f g) = lg_id g" "\<And>g. lg_system (f g) = lg_system g"
  shows "members_of j (put_groups (map f (server_groups w)) w) = members_of j w"
  by (simp add: members_of_def table_simps assms)

lemma create_profile_only: "only_system i w (snd (createCredentialProfile c i b w))"
  unfolding createCredentialProfile_def Let_def
  by (intro only_after profile_only only_profiles profile_owner.insert_elsewhere [where i = i]) simp_all

lemma create_host_only: "only_system i w (snd (createHost env c i b w))"
  unfolding createHost_def Let_def
  by (intro only_after host_only only_hosts host_owner.insert_elsewhere [where i = i]) simp_all

lemma create_group_only: "only_system i w (snd (createGroup c i b w))"
  unfolding createGroup_def Let_def
  by (intro only_after group_only only_groups group_owner.insert_elsewhere [where i = i] members_by_groups) auto

lemma update_profile_only:
  assumes "profile_owner.owned_by k i w"
  shows "only_system i w (snd (updateCredentialProfile c k b w))"
  unfolding updateCredentialProfile_def Let_def
  by (intro only_after profile_only only_profiles profile_owner.update_elsewhere [OF assms])
    (simp_all add: patched_profile_def)

lemma update_host_only:
  assumes "host_owner.owned_by k i w"
  shows "only_system i w (snd (updateHost env c k b w))"
  unfolding updateHost_def Let_def
  by (intro only_after host_only only_hosts host_owner.update_elsewhere [OF assms])
    (simp_all add: patched_host_def)

lemma update_group_only:
  assumes "group_owner.owned_by k i w"
  shows "only_system i w (snd (updateGroup c k b w))"
  unfolding updateGroup_def Let_def
proof (intro only_after group_only only_groups group_owner.update_elsewhere [OF assms])
  show "members_of j (put_groups (map (\<lambda>x. if lg_id x = k then patched_group (partialServerGroupDto b) x else x)
      (server_groups w)) w) = members_of j w" for j
    by (rule members_map) (simp_all add: patched_group_def)
qed (simp_all add: patched_group_def)

text \<open>What a deleted row takes along belongs to its target system.\<close>

lemma unlinked_elsewhere:
  "j \<noteq> i \<Longrightarrow> \<forall>h \<in> set hs. lh_profile h = Some k \<longrightarrow> lh_system h = i \<Longrightarrow>
   filter (\<lambda>h. lh_system h = j) (map (\<lambda>h. if lh_profile h = Some k then h\<lparr>lh_profile := None\<rparr> else h) hs) =
   filter (\<lambda>h. lh_system h = j) hs"
  by (induction hs) auto

lemma delete_profile_only:
  assumes ok: "fleet_ok w" and own: "profile_owner.owned_by k i w"
  shows "only_system i w (snd (deleteCredentialProfile c k w))"
  unfolding deleteCredentialProfile_def
proof (rule after_delete [where I = "only_system i w"])
  have "\<forall>h \<in> set (hosts w). lh_profile h = Some k \<longrightarrow> lh_system h = i"
    using fleet_okD(4) [OF ok] own unfolding profile_linked_def profile_owner.owned_by_def by metis
  then show "only_system i w (unlink_profile k (put_profiles (filter (\<lambda>r. cp_id r \<noteq> k) (profiles w)) w))"
    using profile_owner.delete_elsewhere [OF own] unlinked_elsewhere [of _ i "hosts w"]
    by (simp add: only_system_def unlink_profile_def members_of_def rows_of_defs table_simps)
qed simp

lemma delete_host_only:
  assumes ok: "fleet_ok w" and own: "host_owner.owned_by k i w"
  shows "only_system i w (snd (deleteHost c k w))"
  unfolding deleteHost_def
proof (rule after_delete [where I = "only_system i w"])
  have "lg_system g = i" if "m \<in> set (members w)" "snd m = k" "g \<in> set (server_groups w)" "lg_id g = fst m" for m g
  proof -
    from fleet_okD(5) [OF ok that(1)] obtain x h where x: "x \<in> set (server_groups w)" "h \<in> set (hosts w)"
      "lg_id x = fst m" "lh_id h = snd m" "lg_system x = lh_system h" unfolding member_linked_def by blast
    have "x = g" using group_table.same_id [OF fleet_okD(3) [OF ok] that(3) x(1)] that(4) x(3) by simp
    then show ?thesis using own x that(2) by (simp add: host_owner.owned_by_def)
  qed
  then have "filter (\<lambda>m. (\<exists>g \<in> set (server_groups w). lg_id g = fst m \<and> lg_system g = j) \<and> snd m \<noteq> k) (members w) =
      filter (\<lambda>m. \<exists>g \<in> set (server_groups w). lg_id g = fst m \<and> lg_system g = j) (members w)" if "j \<noteq> i" for j
    using that by (intro filter_cong refl) blast
  then show "only_system i w ((put_hosts (filter (\<lambda>r. lh_id r \<noteq> k) (hosts w)) w)
      \<lparr>members := filter (\<lambda>m. snd m \<noteq> k) (members (put_hosts (filter (\<lambda>r. lh_id r \<noteq> k) (hosts w)) w))\<rparr>)"
    using host_owner.delete_elsewhere [OF own]
    by (simp add: only_system_def members_of_def rows_of_defs table_simps conj_commute)
qed simp

lemma delete_group_only:
  assumes own: "group_owner.owned_by k i w"
  shows "only_system i w (snd (deleteGroup c k w))"
  unfolding deleteGroup_def
proof (rule after_delete [where I = "only_system i w"])
  let ?w = "(put_groups (filter (\<lambda>r. lg_id r \<noteq> k) (server_groups w)) w)
      \<lparr>members := filter (\<lambda>m. fst m \<noteq> k) (members (put_groups (filter (\<lambda>r. lg_id r \<noteq> k) (server_groups w)) w))\<rparr>"
  have "members_of j ?w = members_of j w" if "j \<noteq> i" for j
    using that own unfolding members_of_def group_owner.owned_by_def
    by (auto simp: table_simps intro!: filter_cong)
  then show "only_system i w ?w"
    using group_owner.delete_elsewhere [OF own]
    by (simp add: only_system_def rows_of_defs) (simp add: table_simps)
qed simp

lemma set_hosts_only:
  assumes own: "group_owner.owned_by k i w"
  shows "only_system i w (snd (setGroupHosts c k hs w))"
  unfolding setGroupHosts_def Let_def
proof (rule only_after(4) [OF only_refl], rule only_after(5) [OF only_refl])
  fix g u
  let ?w = "w\<lparr>members := filter (\<lambda>m. fst m \<noteq> k) (members w) @ map (\<lambda>h. (k, h)) (unique hs)\<rparr>"
  have "members_of j ?w = members_of j w" if "j \<noteq> i" for j
    using that own unfolding members_of_def group_owner.owned_by_def
    by (auto simp: filter_empty_conv intro!: filter_cong)
  then have only: "only_system i w ?w" by (simp add: only_system_def rows_of_defs)
  show "only_system i w (snd (if length (filter (\<lambda>h. lh_id h \<in> set (unique hs) \<and> lh_system h = lg_system g) (hosts w)) \<noteq> length (unique hs)
       then raise (BadRequest ''All hosts must belong to the same target system as the group'') w
       else sbind (may_fail (fc_write c)) (\<lambda>_ w. (Inr (k, unique hs),
          w\<lparr>members := filter (\<lambda>m. fst m \<noteq> k) (members w) @ map (\<lambda>h. (k, h)) (unique hs)\<rparr>)) w))"
  proof (cases "length (filter (\<lambda>h. lh_id h \<in> set (unique hs) \<and> lh_system h = lg_system g) (hosts w)) = length (unique hs)")
    case True
    then show ?thesis
      by (cases "fc_write c") (simp_all only: set_hosts_run not_True_eq_False simp_thms if_False only only_refl)
  qed simp
qed

section \<open>Changes need the right to write the target system they are made in\<close>

lemma fleet_write_changed:
  assumes run: "fleet_write env c s owner m w = (r, w')" and "\<And>v. snd (owner v) = v" and ne: "w' \<noteq> w"
  shows "\<exists>i t. owner w = (Inr i, w) \<and> row_types (systems w) i = {t} \<and> has_write w s t \<and> m w = (r, w')"
proof -
  obtain i where i: "owner w = (Inr i, w)" and r1: "sbind (assertTargetSystemWrite env c s i) (\<lambda>_. m) w = (r, w')"
    using guarded [OF run [unfolded fleet_write_def] assms(2) ne] by blast
  have assoc: "sbind (assertTargetSystemWrite env c s i) (\<lambda>_. m) = sbind (request_session s) (\<lambda>ses.
      sbind (connectorTypeByTargetSystemId (fl_rbac c) i) (\<lambda>t.
      sbind (assertWrite (fa_rbac env) (fl_rbac c) ses t) (\<lambda>_. m)))"
    by (simp add: assertTargetSystemWrite_def sbind_def fun_eq_iff split: prod.split sum.split)
  from of_session [OF r1 [unfolded assoc] ne] obtain ses where s: "s = Some ses"
    and r2: "sbind (connectorTypeByTargetSystemId (fl_rbac c) i) (\<lambda>t.
      sbind (assertWrite (fa_rbac env) (fl_rbac c) ses t) (\<lambda>_. m)) w = (r, w')" by blast
  from of_type [OF r2 ne] obtain t where t: "row_types (systems w) i = {t}"
    and r3: "sbind (assertWrite (fa_rbac env) (fl_rbac c) ses t) (\<lambda>_. m) w = (r, w')" by blast
  from needs_write [OF r3 ne] i t s show ?thesis by blast
qed

lemma owner_read: "snd (sbind (find_row fl rows pk m k) (\<lambda>r. ret (own r)) w) = w"
  by (cases "find_row fl rows pk m k w"; cases "fst (find_row fl rows pk m k w)")
    (use fleet_reads(3) [of fl rows pk m k w] in \<open>simp_all add: sbind_def\<close>)

lemma owner_state [simp]:
  "snd (targetSystemIdForCredentialProfile c k w) = w" "snd (targetSystemIdForHost c k w) = w"
  "snd (targetSystemIdForGroup c k w) = w"
  by (simp_all only: targetSystemIdForCredentialProfile_def targetSystemIdForHost_def targetSystemIdForGroup_def owner_read)

lemma found_owner:
  assumes "sbind (find_row fl rows pk m k) (\<lambda>r. ret (own r)) w = (Inr i, w)"
  shows "\<exists>r \<in> set (rows w). pk r = k \<and> i = own r"
proof -
  obtain r v where r: "find_row fl rows pk m k w = (Inr r, v)" "i = own r"
    using assms by (auto simp: sbind_def split: prod.splits sum.splits)
  from find_row_Inr [OF r(1)] r(2) show ?thesis by blast
qed

lemma profile_owner_found:
  assumes "fleet_ok w" "targetSystemIdForCredentialProfile c k w = (Inr i, w)"
  shows "profile_owner.owned_by k i w"
  using found_owner [OF assms(2) [unfolded targetSystemIdForCredentialProfile_def]] profile_owner.owned [OF fleet_okD(1) [OF assms(1)]] by blast

lemma host_owner_found:
  assumes "fleet_ok w" "targetSystemIdForHost c k w = (Inr i, w)"
  shows "host_owner.owned_by k i w"
  using found_owner [OF assms(2) [unfolded targetSystemIdForHost_def]] host_owner.owned [OF fleet_okD(2) [OF assms(1)]] by blast

lemma group_owner_found:
  assumes "fleet_ok w" "targetSystemIdForGroup c k w = (Inr i, w)"
  shows "group_owner.owned_by k i w"
  using found_owner [OF assms(2) [unfolded targetSystemIdForGroup_def]] group_owner.owned [OF fleet_okD(3) [OF assms(1)]] by blast

lemmas owner_found = profile_owner_found host_owner_found group_owner_found

lemma write_only:
  assumes "snd (fleet_write env c s owner m w) \<noteq> w" "\<And>v. snd (owner v) = v"
    and "\<And>i. owner w = (Inr i, w) \<Longrightarrow> only_system i w (snd (m w))"
  shows "\<exists>i t. row_types (systems w) i = {t} \<and> has_write w s t \<and> only_system i w (snd (fleet_write env c s owner m w))"
proof -
  obtain r w' where run: "fleet_write env c s owner m w = (r, w')" by fastforce
  with assms(1) have "w' \<noteq> w" by simp
  from fleet_write_changed [OF run assms(2) this] assms(3) run show ?thesis by fastforce
qed

text \<open>
  C15: a request changes the Linux inventory of at most one target system, and only with the write
  permission for the type of that system: profiles, hosts, groups and memberships of all other target
  systems, the target systems and the access rights stay as they are, whatever the ids in the path
  and in the body name.
\<close>

theorem fleet_changes_stay_in_one_system:
  assumes "run_fleet_api env c s req w \<noteq> w" "fleet_ok w"
  shows "\<exists>i t. row_types (systems w) i = {t} \<and> has_write w s t \<and> only_system i w (run_fleet_api env c s req w)"
proof (cases req)
  case (CreateProfile i b)
  with assms(1) show ?thesis unfolding CreateProfile run_fleet_api.simps api_createCredentialProfile_def
    by (intro write_only) (auto simp: create_profile_only)
next
  case (UpdateProfile k b)
  with assms show ?thesis unfolding UpdateProfile run_fleet_api.simps api_updateCredentialProfile_def
    by (intro write_only) (auto simp: update_profile_only owner_found)
next
  case (DeleteProfile k)
  with assms show ?thesis unfolding DeleteProfile run_fleet_api.simps api_deleteCredentialProfile_def
    by (intro write_only) (auto simp: delete_profile_only owner_found)
next
  case (CreateHost i b)
  with assms(1) show ?thesis unfolding CreateHost run_fleet_api.simps api_createHost_def
    by (intro write_only) (auto simp: create_host_only)
next
  case (UpdateHost k b)
  with assms show ?thesis unfolding UpdateHost run_fleet_api.simps api_updateHost_def
    by (intro write_only) (auto simp: update_host_only owner_found)
next
  case (DeleteHost k)
  with assms show ?thesis unfolding DeleteHost run_fleet_api.simps api_deleteHost_def
    by (intro write_only) (auto simp: delete_host_only owner_found)
next
  case (CreateGroup i b)
  with assms(1) show ?thesis unfolding CreateGroup run_fleet_api.simps api_createGroup_def
    by (intro write_only) (auto simp: create_group_only)
next
  case (UpdateGroup k b)
  with assms show ?thesis unfolding UpdateGroup run_fleet_api.simps api_updateGroup_def
    by (intro write_only) (auto simp: update_group_only owner_found)
next
  case (DeleteGroup k)
  with assms show ?thesis unfolding DeleteGroup run_fleet_api.simps api_deleteGroup_def
    by (intro write_only) (auto simp: delete_group_only owner_found)
next
  case (SetGroupHosts k hs)
  with assms show ?thesis unfolding SetGroupHosts run_fleet_api.simps api_setGroupHosts_def
    by (intro write_only) (auto simp: set_hosts_only owner_found)
qed

definition demo_linux :: "(string \<times> string) list \<Rightarrow> fleet_db" where
  "demo_linux ms = (demo_fleet ms)\<lparr>systems := [demo_system ''s'' ''a''], roles := [demo_role], mappings := [demo_mapping]\<rparr>"

lemma demo_linux_may_write:
  "assertWrite (ae_rbac demo_api_env) demo_rcall demo_admin ''linux'' (demo_linux ms) = (Inr (), demo_linux ms)"
  by (simp add: assertWrite_def canWrite_def effectivePermissions_def may_write_def isSuperadminSession_def
      demo_admin_def unique_def demo_rcall_def active_roles_def role_of_mapping_def role_by_id_def
      demo_linux_def demo_role_def demo_mapping_def collect_permissions_def add_permission_def
      merge_permission_def no_permission_def locale_sort_def Let_def sbind_def)

lemma demo_linux_reads:
  "system_by_id (systems (demo_linux ms)) i = (if i = ''s'' then Some (demo_system ''s'' ''a'') else None)"
  "server_groups (demo_linux ms) = server_groups (demo_fleet ms)" "hosts (demo_linux ms) = hosts (demo_fleet ms)"
  "members (demo_linux ms) = ms" "profiles (demo_linux ms) = []"
  "(demo_linux ms)\<lparr>members := ms'\<rparr> = demo_linux ms'"
  by (simp_all add: demo_linux_def demo_fleet_def system_by_id_def)

lemma demo_linux_request:
  "run_fleet_api \<lparr>fa_rbac = ae_rbac demo_api_env, fa_fleet = env\<rparr> \<lparr>fl_rbac = demo_rcall, fl_fleet = demo_fleet_call\<rparr>
     (Some demo_admin) (SetGroupHosts ''g'' [''h1'']) (demo_linux []) = demo_linux [(''g'', ''h1'')]"
proof -
  have "connectorTypeByTargetSystemId demo_rcall ''s'' (demo_linux []) = (Inr ''linux'', demo_linux [])"
    by (simp add: connectorTypeByTargetSystemId_def demo_rcall_def demo_linux_reads system_type_def)
  then have "assertTargetSystemWrite \<lparr>fa_rbac = ae_rbac demo_api_env, fa_fleet = env\<rparr>
      \<lparr>fl_rbac = demo_rcall, fl_fleet = demo_fleet_call\<rparr> (Some demo_admin) ''s'' (demo_linux []) = (Inr (), demo_linux [])"
    by (simp add: assertTargetSystemWrite_def request_session_def demo_linux_may_write sbind_run(2))
  moreover have "targetSystemIdForGroup demo_fleet_call ''g'' (demo_linux []) = (Inr ''s'', demo_linux [])"
    by (simp add: targetSystemIdForGroup_def find_row_def demo_fleet_call_def demo_linux_reads sbind_def demo_fleet_def)
  moreover have "setGroupHosts demo_fleet_call ''g'' [''h1''] (demo_linux []) =
      (Inr (''g'', [''h1'']), demo_linux [(''g'', ''h1'')])"
    by (simp add: setGroupHosts_def find_row_def demo_fleet_call_def demo_linux_reads unique_def sbind_def
        demo_fleet_def demo_host_def)
  ultimately show ?thesis by (simp add: api_setGroupHosts_def fleet_write_def sbind_run(2))
qed

theorem fleet_changes_stay_in_one_system_witness:
  "\<forall>env. let w' = run_fleet_api \<lparr>fa_rbac = ae_rbac demo_api_env, fa_fleet = env\<rparr>
        \<lparr>fl_rbac = demo_rcall, fl_fleet = demo_fleet_call\<rparr> (Some demo_admin) (SetGroupHosts ''g'' [''h1'']) (demo_linux []) in
     w' \<noteq> demo_linux [] \<and> has_write (demo_linux []) (Some demo_admin) ''linux'' \<and> only_system ''s'' (demo_linux []) w'"
proof (intro allI, unfold Let_def demo_linux_request)
  fix env
  let ?run = "run_fleet_api \<lparr>fa_rbac = ae_rbac demo_api_env, fa_fleet = env\<rparr> \<lparr>fl_rbac = demo_rcall, fl_fleet = demo_fleet_call\<rparr>
      (Some demo_admin) (SetGroupHosts ''g'' [''h1'']) (demo_linux [])"
  have ne: "demo_linux [(''g'', ''h1'')] \<noteq> demo_linux []"
    by (metis demo_linux_reads(4) not_Cons_self2)
  have "fleet_ok (demo_linux [])"
    using demo_fleet_ok by (simp add: demo_linux_def fleet_ok_def table_ok_defs)
  moreover have "?run \<noteq> demo_linux []" using ne unfolding demo_linux_request .
  ultimately have "\<exists>i t. row_types (systems (demo_linux [])) i = {t} \<and> has_write (demo_linux []) (Some demo_admin) t \<and>
      only_system i (demo_linux []) ?run"
    by (intro fleet_changes_stay_in_one_system)
  then show "demo_linux [(''g'', ''h1'')] \<noteq> demo_linux [] \<and> has_write (demo_linux []) (Some demo_admin) ''linux'' \<and>
      only_system ''s'' (demo_linux []) (demo_linux [(''g'', ''h1'')])"
    using ne unfolding demo_linux_request by (auto simp: row_types_def demo_linux_reads split: if_splits)
qed

end
