(* ===== verification/SqlText.thy ===== *)
theory SqlText
  imports ConnectorKit TlsOptions
begin

text \<open>
  What the connectors that write SQL share: quoting, the checks on identifiers and permission names
  that their sources repeat, the session with the database, and a specification of what the server
  reads in a statement (\<open>sql_lex\<close>).
\<close>

section \<open>What a server reads in a statement\<close>

text \<open>
  The lexical grammar that the statements use: words, quoted identifiers, texts, parameters and
  single punctuation characters. Comments, operators and escape strings give no reading. The quotes
  of identifiers differ: PostgreSQL has double quotes, T-SQL also brackets.
\<close>

datatype sql_token = SqlWord string | QIdent string | SqlStr string | Punct char

type_synonym quotes = "char \<Rightarrow> char option"

definition pg_quotes :: quotes where
  "pg_quotes c = (if c = CHR 0x22 then Some (CHR 0x22) else None)"

definition tsql_quotes :: quotes where
  "tsql_quotes c = (if c = CHR 0x22 then Some (CHR 0x22) else if c = CHR ''['' then Some (CHR '']'') else None)"

text \<open>The text up to a closing quote that is not doubled, and what follows.\<close>

fun read_quoted :: "char \<Rightarrow> string \<Rightarrow> (string \<times> string) option" where
  "read_quoted q [] = None"
| "read_quoted q (c # s) =
     (if c = q
      then (case s of
          d # r \<Rightarrow> if d = q then map_option (\<lambda>(t, u). (q # t, u)) (read_quoted q r) else Some ([], s)
        | [] \<Rightarrow> Some ([], []))
      else map_option (\<lambda>(t, u). (c # t, u)) (read_quoted q s))"

lemma read_quoted_shorter: "read_quoted q s = Some (t, u) \<Longrightarrow> length u < length s"
  by (induction q s arbitrary: t rule: read_quoted.induct) (fastforce split: if_splits list.splits)+

definition punctuation :: "char \<Rightarrow> bool" where
  "punctuation c \<longleftrightarrow> c \<in> set ''.,;:=()$@''"

function sql_lex :: "quotes \<Rightarrow> string \<Rightarrow> sql_token list option" where
  "sql_lex qs [] = Some []"
| "sql_lex qs (c # s) =
     (if c = CHR '' '' then sql_lex qs s
      else case qs c of
        Some q \<Rightarrow> (case read_quoted q s of
            None \<Rightarrow> None | Some (t, r) \<Rightarrow> map_option (\<lambda>ts. QIdent t # ts) (sql_lex qs r))
      | None \<Rightarrow>
          if c = CHR 0x27 then (case read_quoted (CHR 0x27) s of
            None \<Rightarrow> None | Some (t, r) \<Rightarrow> map_option (\<lambda>ts. SqlStr t # ts) (sql_lex qs r))
          else if c = CHR ''N'' \<and> s \<noteq> [] \<and> hd s = CHR 0x27 then (case read_quoted (CHR 0x27) (tl s) of
            None \<Rightarrow> None | Some (t, r) \<Rightarrow> map_option (\<lambda>ts. SqlStr t # ts) (sql_lex qs r))
          else if is_word c
          then let r = dropWhile is_word s in
            if r \<noteq> [] \<and> hd r = CHR 0x27 then None
            else map_option (\<lambda>ts. SqlWord (c # takeWhile is_word s) # ts) (sql_lex qs r)
          else if punctuation c then map_option (\<lambda>ts. Punct c # ts) (sql_lex qs s)
          else None)"
  by pat_completeness auto
termination
  by (relation "measure (\<lambda>(qs, s). length s)")
    (auto dest!: read_quoted_shorter simp: le_imp_less_Suc [OF length_dropWhile_le])

section \<open>Quoting\<close>

text \<open>\<open>value.replace(/q/g, 'qq')\<close>\<close>

definition double :: "char \<Rightarrow> string \<Rightarrow> string" where
  "double q s = concat (map (\<lambda>c. if c = q then [q, q] else [c]) s)"

lemma read_doubled: "r = [] \<or> hd r \<noteq> q \<Longrightarrow> read_quoted q (double q s @ q # r) = Some (s, r)"
  by (induction s) (auto simp: double_def split: list.split)

definition quoted_in :: "char \<Rightarrow> char \<Rightarrow> string \<Rightarrow> string" where
  "quoted_in a b s = a # double b s @ [b]"

text \<open>A text after which no token goes on.\<close>

definition breaks :: "string \<Rightarrow> bool" where
  "breaks r \<longleftrightarrow> r = [] \<or> \<not> is_word (hd r) \<and> hd r \<notin> {CHR 0x22, CHR 0x27, CHR '']''}"

definition lexes :: "quotes \<Rightarrow> string \<Rightarrow> sql_token list \<Rightarrow> bool" where
  "lexes qs p ts \<longleftrightarrow> (\<forall>r. breaks r \<longrightarrow> sql_lex qs (p @ r) = map_option ((@) ts) (sql_lex qs r))"

lemma lexes_all: "lexes qs p ts \<Longrightarrow> sql_lex qs p = Some ts"
  by (auto simp: lexes_def breaks_def dest: spec [of _ "[]"])

lemma map_option_append [simp]:
  "map_option ((@) []) x = x" "map_option ((@) a) (map_option ((@) b) x) = map_option ((@) (a @ b)) x"
  "map_option ((#) t) x = map_option ((@) [t]) x" "map_option (\<lambda>ts. t # ts) x = map_option ((@) [t]) x"
  by (cases x; simp)+

text \<open>Characters that are no part of a word.\<close>

lemma not_word: "is_word c \<Longrightarrow> c \<notin> set '' .,;:=()$@[]'' \<and> c \<noteq> CHR 0x22 \<and> c \<noteq> CHR 0x27"
  by (auto simp: is_word_def is_alnum_def is_alpha_def is_lower_def is_upper_def is_digit10_def)

lemma breaks_char: "c \<in> set '' .,;:=()'' \<Longrightarrow> breaks (c # r)"
  using not_word [of c] by (auto simp: breaks_def)

lemma lexes_Nil: "lexes qs [] []"
  by (simp add: lexes_def)

lemma lexes_space: "lexes qs p a \<Longrightarrow> lexes qs q b \<Longrightarrow> lexes qs (p @ CHR '' '' # q) (a @ b)"
  by (simp add: lexes_def breaks_char)

lemma lexes_punct:
  assumes "lexes qs p a" "lexes qs q b" "qs c = None" "c \<in> set ''.,;:=()''"
  shows "lexes qs (p @ c # q) (a @ Punct c # b)"
proof -
  have c: "breaks (c # r)" for r by (rule breaks_char) (use assms(4) in auto)
  have "sql_lex qs (c # s) = map_option ((@) [Punct c]) (sql_lex qs s)" for s
    using assms(3,4) not_word [of c] by (auto simp: punctuation_def)
  with assms(1,2) c show ?thesis by (simp add: lexes_def)
qed

lemma pg_quotes_simps [simp]: "pg_quotes c = None \<longleftrightarrow> c \<noteq> CHR 0x22" "pg_quotes (CHR 0x22) = Some (CHR 0x22)"
  by (simp_all add: pg_quotes_def)

lemma tsql_quotes_simps [simp]:
  "tsql_quotes c = None \<longleftrightarrow> c \<noteq> CHR 0x22 \<and> c \<noteq> CHR ''[''" "tsql_quotes (CHR ''['') = Some (CHR '']'')"
  by (simp_all add: tsql_quotes_def)

definition no_word_quotes :: "quotes \<Rightarrow> bool" where
  "no_word_quotes qs \<longleftrightarrow> (\<forall>c. is_word c \<or> c = CHR 0x27 \<longrightarrow> qs c = None)"

lemma no_word_quotes [simp]: "no_word_quotes pg_quotes" "no_word_quotes tsql_quotes"
  by (auto simp: no_word_quotes_def dest: not_word)

lemma takeWhile_words:
  "list_all is_word w \<Longrightarrow> breaks r \<Longrightarrow> takeWhile is_word (w @ r) = w \<and> dropWhile is_word (w @ r) = r"
  by (induction w) (cases r, auto simp: breaks_def)

lemma lexes_word:
  assumes "list_all is_word w" "w \<noteq> []" "no_word_quotes qs"
  shows "lexes qs w [SqlWord w]"
  unfolding lexes_def
proof (intro allI impI)
  fix r assume r: "breaks r"
  obtain c v where w: "w = c # v" using assms(2) by (cases w) auto
  have v: "takeWhile is_word (v @ r) = v" "dropWhile is_word (v @ r) = r"
    using takeWhile_words [of v r] r assms(1) by (simp_all add: w)
  have c: "qs c = None" "is_word c" using assms by (auto simp: w no_word_quotes_def)
  moreover have "c \<noteq> CHR '' ''" "c \<noteq> CHR 0x27" using not_word [OF c(2)] by auto
  moreover have "\<not> (v @ r \<noteq> [] \<and> hd (v @ r) = CHR 0x27)"
    using r assms(1) not_word by (cases v) (auto simp: w breaks_def)
  ultimately show "sql_lex qs (w @ r) = map_option ((@) [SqlWord w]) (sql_lex qs r)"
    using r unfolding w append_Cons sql_lex.simps(2) by (simp only: if_False if_True option.case v Let_def) (auto simp: breaks_def)
qed

lemma lexes_quoted:
  assumes "qs a = Some b" "b \<in> {CHR 0x22, CHR '']''}" "a \<noteq> CHR '' ''"
  shows "lexes qs (quoted_in a b s) [QIdent s]"
  unfolding lexes_def
proof (intro allI impI)
  fix r assume "breaks r"
  then have "r = [] \<or> hd r \<noteq> b" using assms(2) by (auto simp: breaks_def)
  from read_doubled [OF this] show "sql_lex qs (quoted_in a b s @ r) = map_option ((@) [QIdent s]) (sql_lex qs r)"
    using assms by (simp add: quoted_in_def)
qed

lemma lexes_text:
  assumes "no_word_quotes qs"
  shows "lexes qs (quoted_in (CHR 0x27) (CHR 0x27) s) [SqlStr s]"
    and "lexes qs (CHR ''N'' # quoted_in (CHR 0x27) (CHR 0x27) s) [SqlStr s]"
proof -
  have "is_word (CHR ''N'')" by code_simp
  then have n: "qs (CHR 0x27) = None" "qs (CHR ''N'') = None" using assms by (auto simp: no_word_quotes_def)
  have r: "read_quoted (CHR 0x27) (double (CHR 0x27) s @ CHR 0x27 # r) = Some (s, r)" if "breaks r" for r
    by (rule read_doubled) (use that in \<open>auto simp: breaks_def\<close>)
  show "lexes qs (quoted_in (CHR 0x27) (CHR 0x27) s) [SqlStr s]"
    "lexes qs (CHR ''N'' # quoted_in (CHR 0x27) (CHR 0x27) s) [SqlStr s]"
    by (simp_all add: lexes_def quoted_in_def n r)
qed

declare sql_lex.simps(2) [simp del]

text \<open>The words of a text of word characters and blanks.\<close>

definition words_of :: "string \<Rightarrow> string list" where
  "words_of s = filter (\<lambda>w. w \<noteq> []) (split_on (CHR '' '') s)"

definition sql_words :: "string \<Rightarrow> sql_token list" where
  "sql_words s = map SqlWord (words_of s)"

lemma lexes_words:
  assumes "list_all (\<lambda>c. is_word c \<or> c = CHR '' '') s" "no_word_quotes qs"
  shows "lexes qs s (map SqlWord (words_of s))"
proof -
  have step: "lexes qs (join_with '' '' ws) (map SqlWord (filter (\<lambda>w. w \<noteq> []) ws))" if "list_all (list_all is_word) ws" for ws
    using that
  proof (induction ws)
    case (Cons w ws)
    have w: "lexes qs w (map SqlWord (filter (\<lambda>w. w \<noteq> []) [w]))"
      using Cons.prems assms(2) by (cases "w = []") (simp_all add: lexes_Nil lexes_word)
    show ?case
    proof (cases ws)
      case (Cons v vs)
      with lexes_space [OF w Cons.IH] Cons.prems show ?thesis by (cases "w = []") simp_all
    qed (use w in simp)
  qed (simp add: lexes_Nil)
  have "list_all (list_all is_word) (split_on (CHR '' '') s)"
    using assms(1) by (induction s) (auto split: list.splits)
  from step [OF this] show ?thesis by (simp add: words_of_def join_split_on)
qed

lemma lexes_join: "list_all2 (lexes qs) ps tss \<Longrightarrow> lexes qs (join_with '' '' ps) (concat tss)"
proof (induction ps tss rule: list_all2_induct)
  case (Cons p ps ts tss)
  then show ?case by (cases ps) (auto intro: lexes_space simp: lexes_Nil)
qed (simp add: lexes_Nil)

section \<open>Checks\<close>

text \<open>\<open>/^[A-Za-z_][A-Za-z0-9_@$.-]{0,n-1}$/\<close>\<close>

definition sql_identifier :: "nat \<Rightarrow> string \<Rightarrow> bool" where
  "sql_identifier n s \<longleftrightarrow> s \<noteq> [] \<and> (is_alpha (hd s) \<or> hd s = CHR ''_'') \<and>
     list_all (\<lambda>c. is_alnum c \<or> c \<in> set ''_@$.-'') (tl s) \<and> length s \<le> n"

definition checked_identifier :: "nat \<Rightarrow> string \<Rightarrow> string \<Rightarrow> string result" where
  "checked_identifier n s label = (if sql_identifier n s then Inr s else Inl (JsError (''Invalid '' @ label)))"

text \<open>\<open>/^[A-Z][A-Z0-9_ ]{0,63}$/\<close>\<close>

definition permission_text :: "string \<Rightarrow> bool" where
  "permission_text s \<longleftrightarrow> s \<noteq> [] \<and> is_upper (hd s) \<and>
     list_all (\<lambda>c. is_upper c \<or> is_digit10 c \<or> c = CHR ''_'' \<or> c = CHR '' '') (tl s) \<and> length s \<le> 64"

text \<open>\<open>s.toUpperCase()\<close>: the sharp s becomes two letters.\<close>

definition toUpperCase :: "string \<Rightarrow> string" where
  "toUpperCase s = concat (map (\<lambda>c. if c = CHR 0xDF then ''SS'' else [upper_char c]) s)"

definition checked_permission :: "jsval \<Rightarrow> exn \<Rightarrow> string result" where
  "checked_permission v e =
     (case firstString [v] of
        None \<Rightarrow> Inl e
      | Some s \<Rightarrow> if permission_text (toUpperCase s) then Inr (toUpperCase s) else Inl e)"

lemma checked_identifier_iff [simp]:
  "checked_identifier n s label = Inr t \<longleftrightarrow> t = s \<and> sql_identifier n s"
  by (auto simp: checked_identifier_def)

lemma checked_permission_text: "checked_permission v e = Inr s \<Longrightarrow> permission_text s"
  by (auto simp: checked_permission_def split: option.splits if_splits)

lemma permission_lexes:
  assumes "permission_text p" "no_word_quotes qs"
  shows "lexes qs p (map SqlWord (words_of p))"
proof (rule lexes_words [OF _ assms(2)])
  show "list_all (\<lambda>c. is_word c \<or> c = CHR '' '') p"
    using assms(1) unfolding permission_text_def
    by (cases p) (auto simp: is_word_def is_alnum_def is_alpha_def list_all_iff)
qed

definition nonempty_strings :: "jsval list \<Rightarrow> string list" where
  "nonempty_strings vs = concat (map (\<lambda>v. case v of Str s \<Rightarrow> if s \<noteq> [] then [s] else [] | _ \<Rightarrow> []) vs)"

text \<open>
  The roles of an event: the default roles and groups, the roles of the event and its mapped groups,
  before they are checked.
\<close>

definition requested_roles :: "string \<Rightarrow> obj \<Rightarrow> obj \<Rightarrow> bool \<Rightarrow> string list result" where
  "requested_roles defaultsKey config data includeDefaults =
     ebind (groupMappingSettings config) (\<lambda>mapping.
     ebind (if gs_enabled mapping then groupRefValues (js_get data ''groups'') (gs_mode mapping) ''groups'' else Inr []) (\<lambda>mapped.
     ebind (if includeDefaults \<and> gs_enabled mapping \<and> js_get config ''defaultGroups'' \<noteq> Undef
        then groupRefValues (js_get config ''defaultGroups'') (gs_mode mapping) ''defaultGroups'' else Inr []) (\<lambda>defaults.
     ebind (if includeDefaults then spread_list (coalesce (js_get config defaultsKey) (Arr [])) else Inr []) (\<lambda>fixed.
     Inr (nonempty_strings (fixed @ map (Str \<circ> group_text) defaults @ array_of (js_get data ''roles'') @
       map (Str \<circ> group_text) mapped))))))"

definition login_value :: "obj \<Rightarrow> obj \<Rightarrow> string option" where
  "login_value data params =
     firstString [js_get data ''login'', js_get data ''managedLogin'', js_get data ''username'',
       js_get params ''login'', js_get params ''id'', js_get data ''email'']"

definition role_value :: "obj \<Rightarrow> obj \<Rightarrow> string option" where
  "role_value data params =
     firstString [js_get data ''role'', js_get data ''name'', js_get data ''group'',
       js_get params ''role'', js_get params ''name'', js_get params ''group'']"

lemma login_value_Some: "login_value data params = Some v \<Longrightarrow> v \<noteq> [] \<and> trim v = v"
  unfolding login_value_def by (rule firstString_Some)

text \<open>The answers of the reading operations.\<close>

definition first_row :: "jsval list \<Rightarrow> jsval" where
  "first_row rows = (case rows of [] \<Rightarrow> Null | r # _ \<Rightarrow> coalesce r Null)"

definition found_rows :: "jsval list \<Rightarrow> jsval" where
  "found_rows rows = Obj [(''items'', Arr rows), (''total'', num (of_nat (length rows)))]"

section \<open>The session with the database\<close>

text \<open>
  A statement, its parameters, and whether the transaction's own connection sends it. The answers
  are a function of everything that was sent before.
\<close>

record sql_call =
  sc_text :: string
  sc_params :: "(string \<times> jsval) list"
  sc_tx :: bool

type_synonym sql_exchange = "sql_call \<times> jsval list result"

record sql_world =
  sql_log :: "sql_exchange list"

record sql_env =
  se_answer :: "sql_exchange list \<Rightarrow> sql_call \<Rightarrow> jsval list result"
  se_connect :: "sql_exchange list \<Rightarrow> exn option"
  se_close :: "sql_exchange list \<Rightarrow> exn option"

definition sql_send :: "sql_env \<Rightarrow> sql_call \<Rightarrow> (jsval list, 'b sql_world_scheme) op" where
  "sql_send env c w =
     (let r = se_answer env (sql_log w) c in (r, w\<lparr>sql_log := sql_log w @ [(c, r)]\<rparr>))"

definition sql_connect :: "sql_env \<Rightarrow> (unit, 'b sql_world_scheme) op" where
  "sql_connect env w = may_fail (se_connect env (sql_log w)) w"

definition sql_close :: "sql_env \<Rightarrow> (unit, 'b sql_world_scheme) op" where
  "sql_close env w = may_fail (se_close env (sql_log w)) w"

lemma session_edges [preserve_intros]: "preserves I (sql_connect env)" "preserves I (sql_close env)"
  by (auto simp: preserves_def sql_connect_def sql_close_def may_fail_def ret_def raise_def split: option.splits)

text \<open>A log that grew by statements that are all right.\<close>

definition sql_grown :: "(string \<Rightarrow> bool) \<Rightarrow> sql_exchange list \<Rightarrow> 'b sql_world_scheme \<Rightarrow> bool" where
  "sql_grown good old w \<longleftrightarrow> grown (\<lambda>_ e. good (sc_text (fst e))) old (sql_log w)"

lemma send_grown: "good (sc_text c) \<Longrightarrow> preserves (sql_grown good old) (sql_send env c)"
  unfolding preserves_def sql_send_def sql_grown_def Let_def by (auto intro: grown_snoc)

section \<open>What takes effect\<close>

datatype tx_state = NoTx | Pending "sql_call list" | Aborted

definition answered :: "jsval list result \<Rightarrow> bool" where
  "answered r \<longleftrightarrow> (case r of Inl _ \<Rightarrow> False | Inr _ \<Rightarrow> True)"

lemma answered_simps [simp]: "answered (Inr x)" "\<not> answered (Inl e)"
  by (simp_all add: answered_def)

text \<open>
  The statements that the server answered and that take effect: outside a transaction at once, in
  it with its commit; an error aborts the transaction.
\<close>

fun committed :: "tx_state \<Rightarrow> sql_exchange list \<Rightarrow> string list" where
  "committed t [] = []"
| "committed t ((c, r) # es) =
     (if \<not> sc_tx c then (if answered r then sc_text c # committed t es else committed t es)
      else if sc_text c = ''BEGIN'' then committed (if answered r then Pending [] else Aborted) es
      else if sc_text c = ''ROLLBACK'' then committed NoTx es
      else (case t of
          Pending cs \<Rightarrow>
            if \<not> answered r then committed Aborted es
            else if sc_text c = ''COMMIT'' then map sc_text cs @ committed NoTx es
            else committed (Pending (cs @ [c])) es
        | _ \<Rightarrow> committed t es))"

section \<open>Keywords\<close>

definition sql_keywords :: "string list" where
  "sql_keywords =
     [''CREATE'', ''ROLE'', ''PASSWORD'', ''ALTER'', ''DROP'', ''GRANT'', ''REVOKE'', ''DENY'', ''TO'', ''FROM'', ''ON'',
      ''DATABASE'', ''SCHEMA'', ''OBJECT'', ''LOGIN'', ''NOLOGIN'', ''TABLE'', ''SEQUENCE'', ''FUNCTION'', ''WITH'',
      ''CHECK_POLICY'', ''USE'', ''IF'', ''USER_ID'', ''SUSER_ID'', ''DATABASE_PRINCIPAL_ID'', ''IS'', ''NOT'', ''NULL'',
      ''USER'', ''FOR'', ''ADD'', ''MEMBER'', ''ENABLE'', ''DISABLE'', ''SELECT'', ''PUBLIC'']"

lemma is_word_letters:
  "is_word (CHR ''A'')" "is_word (CHR ''B'')" "is_word (CHR ''C'')" "is_word (CHR ''D'')" "is_word (CHR ''E'')"
  "is_word (CHR ''F'')" "is_word (CHR ''G'')" "is_word (CHR ''H'')" "is_word (CHR ''I'')" "is_word (CHR ''K'')"
  "is_word (CHR ''L'')" "is_word (CHR ''M'')" "is_word (CHR ''N'')" "is_word (CHR ''O'')" "is_word (CHR ''P'')"
  "is_word (CHR ''Q'')" "is_word (CHR ''R'')" "is_word (CHR ''S'')" "is_word (CHR ''T'')" "is_word (CHR ''U'')"
  "is_word (CHR ''W'')" "is_word (CHR ''Y'')" "is_word (CHR ''_'')" "is_word (CHR ''V'')" "is_word (CHR ''J'')"
  by (simp_all add: is_word_def is_alnum_def is_alpha_def is_upper_def)

lemma keywords_are_words: "list_all (\<lambda>w. list_all is_word w \<and> w \<noteq> []) sql_keywords"
  by (simp add: sql_keywords_def is_word_letters)

lemma keyword_lexes:
  assumes "no_word_quotes qs"
  shows "list_all (\<lambda>w. lexes qs w [SqlWord w]) sql_keywords"
  by (rule list.pred_mono_strong [OF keywords_are_words]) (simp add: lexes_word assms)

section \<open>Work inside a transaction\<close>

definition tx_step :: "sql_exchange \<Rightarrow> bool" where
  "tx_step e \<longleftrightarrow> sc_tx (fst e) \<and> sc_text (fst e) \<notin> {''BEGIN'', ''COMMIT'', ''ROLLBACK''}"

text \<open>
  An operation that only sends statements of the transaction; when it returns \<open>a\<close>, all of them were
  answered and their texts are related to \<open>a\<close>.
\<close>

definition tx_log :: "('a \<Rightarrow> string list \<Rightarrow> bool) \<Rightarrow> 'a result \<Rightarrow> sql_exchange list \<Rightarrow> bool" where
  "tx_log P r es \<longleftrightarrow> list_all tx_step es \<and>
     (case r of Inl _ \<Rightarrow> True | Inr a \<Rightarrow> list_all (\<lambda>e. answered (snd e)) es \<and> P a (map (\<lambda>e. sc_text (fst e)) es))"

definition tx_run :: "('a \<Rightarrow> string list \<Rightarrow> bool) \<Rightarrow> ('a, 'b sql_world_scheme) op \<Rightarrow> bool" where
  "tx_run P m \<longleftrightarrow> (\<forall>w r w'. m w = (r, w') \<longrightarrow> (\<exists>es. sql_log w' = sql_log w @ es \<and> tx_log P r es))"

lemma tx_runD:
  assumes "tx_run P m" "m w = (r, w')"
  obtains es where "sql_log w' = sql_log w @ es" "tx_log P r es"
  using assms unfolding tx_run_def by blast

lemma tx_log_mono: "tx_log P r es \<Longrightarrow> (\<And>a ts. P a ts \<Longrightarrow> Q a ts) \<Longrightarrow> tx_log Q r es"
  by (auto simp: tx_log_def split: sum.splits)

lemma tx_run_mono: "tx_run P m \<Longrightarrow> (\<And>a ts. P a ts \<Longrightarrow> Q a ts) \<Longrightarrow> tx_run Q m"
  unfolding tx_run_def using tx_log_mono [of P _ _ Q] by blast

lemma tx_run_basic:
  "P a [] \<Longrightarrow> tx_run P (ret a)" "tx_run P (raise e)" "(\<And>a. r = Inr a \<Longrightarrow> P a []) \<Longrightarrow> tx_run P (lift_result r)"
  by (auto simp: tx_run_def tx_log_def ret_def raise_def lift_result_def split: sum.split)

lemma tx_run_sbind:
  assumes "tx_run P m" "\<And>a ts. P a ts \<Longrightarrow> tx_run (\<lambda>b us. Q b (ts @ us)) (f a)"
  shows "tx_run Q (sbind m f)"
  unfolding tx_run_def
proof (intro allI impI)
  fix w r w' assume run: "sbind m f w = (r, w')"
  obtain x w1 where m: "m w = (x, w1)" by (cases "m w")
  from tx_runD [OF assms(1) m] obtain es where es: "sql_log w1 = sql_log w @ es" "tx_log P x es" .
  show "\<exists>es. sql_log w' = sql_log w @ es \<and> tx_log Q r es"
  proof (cases x)
    case (Inl e)
    with run m es show ?thesis by (auto simp: sbind_def tx_log_def)
  next
    case (Inr a)
    with run m have f: "f a w1 = (r, w')" by (simp add: sbind_def)
    from es(2) Inr have a: "list_all tx_step es" "list_all (\<lambda>e. answered (snd e)) es"
      "P a (map (\<lambda>e. sc_text (fst e)) es)" by (simp_all add: tx_log_def)
    from tx_runD [OF assms(2) [OF a(3)] f] obtain fs where fs: "sql_log w' = sql_log w1 @ fs"
      "tx_log (\<lambda>b us. Q b (map (\<lambda>e. sc_text (fst e)) es @ us)) r fs" .
    with es(1) a(1,2) show ?thesis by (intro exI [of _ "es @ fs"]) (simp add: tx_log_def split: sum.splits)
  qed
qed

lemma tx_run_send:
  assumes "sc_tx c" "sc_text c \<notin> {''BEGIN'', ''COMMIT'', ''ROLLBACK''}"
  shows "tx_run (\<lambda>_ ts. ts = [sc_text c]) (sql_send env c)"
  unfolding tx_run_def sql_send_def Let_def using assms by (auto simp: tx_log_def tx_step_def split: sum.split)

lemma tx_run_each:
  assumes "\<And>x. x \<in> set xs \<Longrightarrow> tx_run (\<lambda>_. P x) (f x)"
  shows "tx_run (\<lambda>_ ts. \<exists>tss. ts = concat tss \<and> list_all2 P xs tss) (each_op f xs)"
  using assms
proof (induction xs)
  case Nil
  show ?case unfolding each_op.simps by (rule tx_run_basic(1)) simp
next
  case (Cons x xs)
  have "tx_run (\<lambda>_ us. \<exists>tss. ts @ us = concat tss \<and> list_all2 P (x # xs) tss) (each_op f xs)" if "P x ts" for ts
  proof (rule tx_run_mono [OF Cons.IH])
    fix us assume "\<exists>tss. us = concat tss \<and> list_all2 P xs tss"
    then obtain tss where "us = concat tss" "list_all2 P xs tss" by blast
    with that show "\<exists>tss. ts @ us = concat tss \<and> list_all2 P (x # xs) tss" by (intro exI [of _ "ts # tss"]) simp
  qed (use Cons.prems in simp)
  then show ?case unfolding each_op.simps by (intro tx_run_sbind [where P = "\<lambda>_. P x"]) (use Cons.prems in simp_all)
qed

lemma committed_steps:
  "list_all tx_step es \<Longrightarrow> list_all (\<lambda>e. answered (snd e)) es \<Longrightarrow>
    committed (Pending cs) (es @ rest) = committed (Pending (cs @ map fst es)) rest"
  by (induction es arbitrary: cs) (auto simp: tx_step_def)

lemma committed_rolled_back:
  assumes "sc_tx c" "sc_text c = ''ROLLBACK''" "list_all tx_step es"
  shows "committed t (es @ (c, r) # rest) = committed NoTx rest"
  using assms(3) by (induction es arbitrary: t) (auto simp: assms(1,2) tx_step_def split: tx_state.split)

definition demo_sql_env :: "(string \<Rightarrow> bool) \<Rightarrow> sql_env" where
  "demo_sql_env refused =
     \<lparr>se_answer = (\<lambda>_ c. if refused (sc_text c) then Inl (JsError ''refused'') else Inr []),
      se_connect = (\<lambda>_. None), se_close = (\<lambda>_. None)\<rparr>"

section \<open>A dialect\<close>

text \<open>What a connector needs of the quoting of its dialect: names and texts are read back as one token.\<close>

locale sql_dialect =
  fixes qs :: quotes and name_of text_of :: "string \<Rightarrow> string"
  assumes word_quotes: "no_word_quotes qs"
    and plain_punctuation: "c \<in> set ''.,;:=()'' \<Longrightarrow> qs c = None"
    and reads_name: "lexes qs (name_of s) [QIdent s]"
    and reads_text: "lexes qs (text_of s) [SqlStr s]"
begin

lemmas reads = reads_name reads_text keyword_lexes [OF word_quotes, unfolded sql_keywords_def list.pred_inject]

lemma statement: "list_all2 (lexes qs) ps tss \<Longrightarrow> sql_lex qs (join_with '' '' ps) = Some (concat tss)"
  by (rule lexes_all [OF lexes_join])

lemma punctuated:
  "c \<in> set ''.,;:=()'' \<Longrightarrow> lexes qs p a \<Longrightarrow> lexes qs q b \<Longrightarrow> lexes qs (p @ c # q) (a @ Punct c # b)"
  by (rule lexes_punct [OF _ _ plain_punctuation])

lemma dotted: "lexes qs (name_of s @ CHR ''.'' # name_of n) [QIdent s, Punct (CHR ''.''), QIdent n]"
  using punctuated [OF _ reads_name reads_name, of "CHR ''.''"] by simp

lemma permission: "permission_text p \<Longrightarrow> lexes qs p (sql_words p)"
  using permission_lexes [OF _ word_quotes] by (simp add: sql_words_def)

end

end
