(* ===== verification/PostgresRoles.thy ===== *)
theory PostgresRoles
  imports SqlText Registry
begin

text \<open>
  Models \<open>connectors/implementations/postgres-role-connector/postgres-role-connector.service.ts\<close>:
  accounts and groups as roles of a PostgreSQL server. The server's answers are arguments; what
  it reads in a statement is specified by \<open>sql_lex\<close> with standard strings.
\<close>

section \<open>Reading the configuration and the event\<close>

definition pg_validateIdentifier :: "string \<Rightarrow> string \<Rightarrow> string result" where
  "pg_validateIdentifier s label = checked_identifier 63 s label"

definition pg_ident :: "string \<Rightarrow> string" where
  "pg_ident s = quoted_in (CHR 0x22) (CHR 0x22) s"

definition pg_literal :: "string \<Rightarrow> string" where
  "pg_literal s = quoted_in (CHR 0x27) (CHR 0x27) s"

definition pg_prefixedValue :: "string \<Rightarrow> obj \<Rightarrow> bool \<Rightarrow> string result" where
  "pg_prefixedValue v config requireValid =
     (let login = trim (string_of_val (coalesce (js_get config ''rolePrefix'') (Str [])) @ v) in
      if requireValid \<and> \<not> sql_identifier 63 login then Inl (JsError ''Invalid PostgreSQL role login'') else Inr login)"

definition pg_login :: "obj \<Rightarrow> obj \<Rightarrow> obj \<Rightarrow> string result" where
  "pg_login data params config =
     (case login_value data params of
        None \<Rightarrow> Inl (JsError ''Missing login for PostgreSQL role operation'')
      | Some v \<Rightarrow> pg_prefixedValue v config True)"

definition pg_password :: "obj \<Rightarrow> bool \<Rightarrow> string result" where
  "pg_password data required =
     (case firstString [js_get data ''newValue'', js_get data ''password''] of
        None \<Rightarrow> if required then Inl (JsError ''Missing password for PostgreSQL role operation'') else Inr []
      | Some v \<Rightarrow> Inr v)"

text \<open>The policy for roles is \<open>idm-full-control\<close>, or else \<open>managed-namespace\<close>.\<close>

definition pg_fullRoleControl :: "obj \<Rightarrow> bool" where
  "pg_fullRoleControl config \<longleftrightarrow> js_get config ''rolePolicyMode'' = Str ''idm-full-control''"

datatype permission_policy = PolicyDisabled | PolicyAllowlist | PolicyFullControl

definition pg_permissionPolicyMode :: "obj \<Rightarrow> permission_policy" where
  "pg_permissionPolicyMode config =
     (let mode = js_get config ''permissionPolicyMode'' in
      if mode = Str ''disabled'' then PolicyDisabled
      else if mode = Str ''idm-full-control'' then PolicyFullControl else PolicyAllowlist)"

definition pg_managedRolePrefix :: "obj \<Rightarrow> string" where
  "pg_managedRolePrefix config =
     or_else (firstString [js_get config ''managedRolePrefix'', js_get config ''rolePrefix'']) ''idm_''"

definition pg_roleName :: "obj \<Rightarrow> obj \<Rightarrow> obj \<Rightarrow> string result" where
  "pg_roleName data params config =
     (case role_value data params of
        None \<Rightarrow> Inl (JsError ''Missing role for PostgreSQL group operation'')
      | Some v \<Rightarrow> ebind (pg_validateIdentifier v ''PostgreSQL group role'') (\<lambda>role.
          if \<not> pg_fullRoleControl config \<and> \<not> starts_with (pg_managedRolePrefix config) role
          then Inl (JsError ''PostgreSQL group role is outside managed namespace'') else Inr role))"

definition pg_validateGrantRole :: "obj \<Rightarrow> string \<Rightarrow> string result" where
  "pg_validateGrantRole config role =
     ebind (pg_validateIdentifier role ''PostgreSQL grant role'') (\<lambda>validated.
       if pg_fullRoleControl config then Inr validated
       else if \<not> starts_with (pg_managedRolePrefix config) validated
       then Inl (JsError ''PostgreSQL grant role is outside managed namespace'') else Inr validated)"

definition pg_roles :: "obj \<Rightarrow> obj \<Rightarrow> bool \<Rightarrow> string list result" where
  "pg_roles config data includeDefaults =
     ebind (requested_roles ''defaultRoles'' config data includeDefaults) (map_exn (pg_validateGrantRole config))"

section \<open>Permissions\<close>

record pg_permission =
  pp_action :: string
  pp_name :: string
  pp_scope :: string

definition pg_permissionAction :: "jsval \<Rightarrow> string result" where
  "pg_permissionAction v =
     (if v = Str ''GRANT'' then Inr ''GRANT'' else if v = Str ''REVOKE'' then Inr ''REVOKE''
      else Inl (JsError ''Invalid PostgreSQL permission action''))"

definition pg_permissionName :: "jsval \<Rightarrow> string result" where
  "pg_permissionName v = checked_permission v (JsError ''Invalid PostgreSQL permission name'')"

definition pg_scope_error :: exn where
  "pg_scope_error = JsError ''Invalid PostgreSQL permission scope''"

definition pg_permissionScopeValue :: "jsval \<Rightarrow> string result" where
  "pg_permissionScopeValue v =
     (let scope = or_else (firstString [v]) ''DATABASE'' in
      if scope = ''DATABASE'' then Inr scope
      else case find (\<lambda>pre. starts_with pre scope) [''SCHEMA::'', ''TABLE::'', ''SEQUENCE::'', ''FUNCTION::''] of
        None \<Rightarrow> Inl pg_scope_error
      | Some pre \<Rightarrow>
          (let identifier = drop (length pre) scope; parts = split_on (CHR ''.'') identifier in
           if pre = ''SCHEMA::''
           then ebind (pg_validateIdentifier identifier ''PostgreSQL schema'') (\<lambda>_. Inr scope)
           else if length parts \<noteq> 2
           then Inl (JsError (''Invalid PostgreSQL '' @ to_lower (take (length pre - 2) pre) @ '' scope''))
           else ebind (map_exn (\<lambda>part. pg_validateIdentifier part ''PostgreSQL permission scope'') parts) (\<lambda>_. Inr scope)))"

definition pg_normalized :: "obj \<Rightarrow> pg_permission result" where
  "pg_normalized item =
     ebind (pg_permissionAction (js_get item ''action'')) (\<lambda>action.
     ebind (pg_permissionName (js_get item ''permission'')) (\<lambda>name.
     ebind (pg_permissionScopeValue (js_get item ''scope'')) (\<lambda>scope.
     Inr \<lparr>pp_action = action, pp_name = name, pp_scope = scope\<rparr>)))"

definition pg_permissionKey :: "pg_permission \<Rightarrow> string" where
  "pg_permissionKey p = pp_action p @ '':'' @ pp_name p @ '':'' @ pp_scope p"

definition pg_allowed_items :: "obj \<Rightarrow> jsval list result" where
  "pg_allowed_items config =
     ebind (spread_list (coalesce (js_get config ''defaultPermissions'') (Arr []))) (\<lambda>ds.
     ebind (spread_list (coalesce (js_get config ''allowedPermissions'') (Arr []))) (\<lambda>xs.
     Inr (filter truthy (ds @ xs))))"

definition pg_validatePermissionPolicy :: "obj \<Rightarrow> pg_permission \<Rightarrow> pg_permission result" where
  "pg_validatePermissionPolicy config p =
     (case pg_permissionPolicyMode config of
        PolicyFullControl \<Rightarrow> Inr p
      | PolicyDisabled \<Rightarrow> Inl (JsError ''PostgreSQL permissions are disabled for this target system'')
      | PolicyAllowlist \<Rightarrow>
          ebind (pg_allowed_items config) (\<lambda>items.
          ebind (map_exn (\<lambda>v. pg_normalized (as_obj v)) items) (\<lambda>allowed.
          if pg_permissionKey p \<in> set (map pg_permissionKey allowed) then Inr p
          else Inl (JsError ''PostgreSQL permission is outside managed allowlist''))))"

definition pg_permissions :: "obj \<Rightarrow> obj \<Rightarrow> bool \<Rightarrow> pg_permission list result" where
  "pg_permissions config data includeDefaults =
     ebind (if includeDefaults then spread_list (coalesce (js_get config ''defaultPermissions'') (Arr [])) else Inr []) (\<lambda>ds.
     ebind (map_exn (\<lambda>v. if is_record v then pg_normalized (as_obj v) else Inl (JsError ''Invalid PostgreSQL permission''))
       (ds @ array_of (js_get data ''permissions''))) (\<lambda>normalized.
     map_exn (pg_validatePermissionPolicy config) normalized))"

section \<open>Statements\<close>

record pg_pool =
  po_connectionString :: jsval
  po_statement_timeout :: jsval
  po_ssl :: "tls_options option"

record pg_world = sql_world +
  pg_pools :: "pg_pool list"

record pg_env = sql_env +
  pe_tls :: "tls_env option"

text \<open>A statement over the pool, and one over the connection of the transaction.\<close>

definition pg_query :: "pg_env \<Rightarrow> bool \<Rightarrow> string \<Rightarrow> jsval list \<Rightarrow> (jsval list, 'b pg_world_scheme) op" where
  "pg_query env tx text params =
     sql_send (sql_env.truncate env) \<lparr>sc_text = text, sc_params = map (\<lambda>v. ([], v)) params, sc_tx = tx\<rparr>"

definition pg_run :: "pg_env \<Rightarrow> bool \<Rightarrow> string \<Rightarrow> (unit, 'b pg_world_scheme) op" where
  "pg_run env tx text = sbind (pg_query env tx text []) (\<lambda>_. ret ())"

definition pg_createPool :: "pg_env \<Rightarrow> obj \<Rightarrow> (unit, 'b pg_world_scheme) op" where
  "pg_createPool env config =
     sbind (lift_result (case pe_tls env of None \<Rightarrow> Inr None | Some t \<Rightarrow> dbConnectorSslOptions t (js_get config ''tls''))) (\<lambda>ssl.
     modify (\<lambda>w. w\<lparr>pg_pools := pg_pools w @ [\<lparr>po_connectionString = js_get config ''connectionString'',
       po_statement_timeout = coalesce (js_get config ''statementTimeoutMs'') (num 30000), po_ssl = ssl\<rparr>]\<rparr>))"

definition pg_withTransaction :: "pg_env \<Rightarrow> (unit, 'b pg_world_scheme) op \<Rightarrow> (unit, 'b pg_world_scheme) op" where
  "pg_withTransaction env work =
     sbind (sql_connect (sql_env.truncate env)) (\<lambda>_.
     catch_op (sbind (pg_run env True ''BEGIN'') (\<lambda>_. sbind work (\<lambda>_. pg_run env True ''COMMIT'')))
       (\<lambda>e. sbind (pg_run env True ''ROLLBACK'') (\<lambda>_. raise e)))"

definition pg_database :: "pg_env \<Rightarrow> obj \<Rightarrow> (string, 'b pg_world_scheme) op" where
  "pg_database env config =
     (case firstString [js_get config ''defaultDatabase''] of
        Some d \<Rightarrow> lift_result (pg_validateIdentifier d ''PostgreSQL database'')
      | None \<Rightarrow> sbind (pg_query env True ''SELECT current_database() AS database'' []) (\<lambda>rows.
          case firstString [js_get (as_obj (case rows of [] \<Rightarrow> Undef | r # _ \<Rightarrow> r)) ''database''] of
            None \<Rightarrow> raise (JsError ''Unable to resolve PostgreSQL current database'')
          | Some d \<Rightarrow> lift_result (pg_validateIdentifier d ''PostgreSQL database'')))"

definition pg_permissionScope :: "pg_env \<Rightarrow> obj \<Rightarrow> string \<Rightarrow> (string, 'b pg_world_scheme) op" where
  "pg_permissionScope env config scope =
     (if scope = ''DATABASE'' then sbind (pg_database env config) (\<lambda>d. ret (''ON DATABASE '' @ pg_ident d))
      else if starts_with ''SCHEMA::'' scope then ret (''ON SCHEMA '' @ pg_ident (drop 8 scope))
      else case find (\<lambda>(pre, keyword). starts_with pre scope)
          [(''TABLE::'', ''TABLE''), (''SEQUENCE::'', ''SEQUENCE''), (''FUNCTION::'', ''FUNCTION'')] of
        None \<Rightarrow> raise pg_scope_error
      | Some (pre, keyword) \<Rightarrow> (case split_on (CHR ''.'') (drop (length pre) scope) of
          schema # name # _ \<Rightarrow> ret (''ON '' @ keyword @ '' '' @ pg_ident schema @ ''.'' @ pg_ident name)
        | _ \<Rightarrow> raise type_error))"

definition pg_applyPermission :: "pg_env \<Rightarrow> obj \<Rightarrow> string \<Rightarrow> pg_permission \<Rightarrow> (unit, 'b pg_world_scheme) op" where
  "pg_applyPermission env config login p =
     sbind (pg_permissionScope env config (pp_scope p)) (\<lambda>scope.
     pg_run env True (pp_action p @ '' '' @ pp_name p @ '' '' @ scope @ '' '' @
       (if pp_action p = ''REVOKE'' then ''FROM'' else ''TO'') @ '' '' @ pg_ident login))"

definition pg_grant :: "pg_env \<Rightarrow> string \<Rightarrow> string \<Rightarrow> (unit, 'b pg_world_scheme) op" where
  "pg_grant env login role = pg_run env True (''GRANT '' @ pg_ident role @ '' TO '' @ pg_ident login)"

definition pg_alter :: "string \<Rightarrow> bool \<Rightarrow> string" where
  "pg_alter login enabled = ''ALTER ROLE '' @ pg_ident login @ '' '' @ (if enabled then ''LOGIN'' else ''NOLOGIN'')"

section \<open>Operations\<close>

definition pg_createRole :: "pg_env \<Rightarrow> obj \<Rightarrow> obj \<Rightarrow> (jsval, 'b pg_world_scheme) op" where
  "pg_createRole env config data =
     sbind (lift_result (pg_login data [] config)) (\<lambda>login.
     sbind (lift_result (pg_password data True)) (\<lambda>pw.
     let canLogin = js_get config ''defaultLogin'' \<noteq> Bool False in
     sbind (lift_result (pg_roles config data True)) (\<lambda>roles.
     sbind (lift_result (pg_permissions config data True)) (\<lambda>permissions.
     sbind (pg_withTransaction env
       (sbind (pg_run env True (''CREATE ROLE '' @ pg_ident login @ '' '' @ (if canLogin then ''LOGIN'' else ''NOLOGIN'') @
           '' PASSWORD '' @ pg_literal pw)) (\<lambda>_.
        sbind (each_op (pg_grant env login) roles) (\<lambda>_.
        each_op (pg_applyPermission env config login) permissions)))) (\<lambda>_.
     ret (Obj [(''login'', Str login), (''enabled'', Bool canLogin)]))))))"

definition pg_updateRole :: "pg_env \<Rightarrow> obj \<Rightarrow> obj \<Rightarrow> obj \<Rightarrow> (jsval, 'b pg_world_scheme) op" where
  "pg_updateRole env config data params =
     sbind (lift_result (pg_login data params config)) (\<lambda>login.
     sbind (lift_result (pg_roles config data False)) (\<lambda>roles.
     sbind (lift_result (pg_permissions config data False)) (\<lambda>permissions.
     let enabled = (case js_get data ''enabled'' of Bool b \<Rightarrow> Some b | _ \<Rightarrow> None) in
     sbind (pg_withTransaction env
       (sbind (case enabled of Some b \<Rightarrow> pg_run env True (pg_alter login b) | None \<Rightarrow> ret ()) (\<lambda>_.
        sbind (each_op (pg_grant env login) roles) (\<lambda>_.
        each_op (pg_applyPermission env config login) permissions)))) (\<lambda>_.
     ret (Obj ([(''login'', Str login)] @ (case enabled of Some b \<Rightarrow> [(''enabled'', Bool b)] | None \<Rightarrow> []) @
       [(''changed'', Bool (enabled \<noteq> None \<or> roles \<noteq> [] \<or> permissions \<noteq> []))]))))))"

definition pg_deleteRole :: "pg_env \<Rightarrow> obj \<Rightarrow> obj \<Rightarrow> obj \<Rightarrow> (jsval, 'b pg_world_scheme) op" where
  "pg_deleteRole env config data params =
     sbind (lift_result (pg_login data params config)) (\<lambda>login.
     if truthy (js_get config ''physicalDeleteEnabled'')
     then sbind (pg_run env False (''DROP ROLE '' @ pg_ident login)) (\<lambda>_.
       ret (Obj [(''login'', Str login), (''deleted'', Bool True)]))
     else sbind (pg_run env False (pg_alter login False)) (\<lambda>_.
       ret (Obj [(''login'', Str login), (''enabled'', Bool False), (''deleted'', Bool False)])))"

definition pg_setLogin :: "pg_env \<Rightarrow> obj \<Rightarrow> obj \<Rightarrow> obj \<Rightarrow> bool \<Rightarrow> (jsval, 'b pg_world_scheme) op" where
  "pg_setLogin env config data params enabled =
     sbind (lift_result (pg_login data params config)) (\<lambda>login.
     sbind (pg_run env False (pg_alter login enabled)) (\<lambda>_.
     ret (Obj [(''login'', Str login), (''enabled'', Bool enabled)])))"

definition pg_changePassword :: "pg_env \<Rightarrow> obj \<Rightarrow> obj \<Rightarrow> obj \<Rightarrow> (jsval, 'b pg_world_scheme) op" where
  "pg_changePassword env config data params =
     sbind (lift_result (pg_login data params config)) (\<lambda>login.
     sbind (lift_result (pg_password data True)) (\<lambda>pw.
     sbind (pg_run env False (''ALTER ROLE '' @ pg_ident login @ '' PASSWORD '' @ pg_literal pw)) (\<lambda>_.
     ret (Obj [(''login'', Str login), (''passwordChanged'', Bool True)]))))"

definition pg_columns :: string where
  "pg_columns = ''SELECT rolname AS login, rolcanlogin AS '' @ pg_ident ''canLogin'' @ '' FROM pg_roles WHERE rolname ''"

definition pg_getRole :: "pg_env \<Rightarrow> obj \<Rightarrow> obj \<Rightarrow> obj \<Rightarrow> (jsval, 'b pg_world_scheme) op" where
  "pg_getRole env config data params =
     sbind (lift_result (pg_login data params config)) (\<lambda>login.
     sbind (pg_query env False (pg_columns @ ''= $1'') [Str login]) (\<lambda>rows. ret (first_row rows)))"

definition pg_searchRoles :: "pg_env \<Rightarrow> obj \<Rightarrow> obj \<Rightarrow> (jsval, 'b pg_world_scheme) op" where
  "pg_searchRoles env config data =
     sbind (lift_result (pg_prefixedValue (case js_get data ''login'' of Str s \<Rightarrow> s | _ \<Rightarrow> []) config False)) (\<lambda>start.
     sbind (pg_query env False (pg_columns @ ''LIKE $1 ORDER BY rolname LIMIT 200'') [Str (start @ ''%'')]) (\<lambda>rows.
     ret (found_rows rows)))"

definition pg_createGroupRole :: "pg_env \<Rightarrow> obj \<Rightarrow> obj \<Rightarrow> (jsval, 'b pg_world_scheme) op" where
  "pg_createGroupRole env config data =
     sbind (lift_result (pg_roleName data [] config)) (\<lambda>role.
     sbind (pg_run env False (''CREATE ROLE '' @ pg_ident role @ '' NOLOGIN'')) (\<lambda>_.
     ret (Obj [(''role'', Str role), (''created'', Bool True)])))"

definition pg_deleteGroupRole :: "pg_env \<Rightarrow> obj \<Rightarrow> obj \<Rightarrow> obj \<Rightarrow> (jsval, 'b pg_world_scheme) op" where
  "pg_deleteGroupRole env config data params =
     sbind (lift_result (pg_roleName data params config)) (\<lambda>role.
     if \<not> truthy (js_get config ''physicalRoleDeleteEnabled'')
     then raise (JsError ''PostgreSQL DROP ROLE requires physicalRoleDeleteEnabled=true'')
     else sbind (pg_run env False (''DROP ROLE '' @ pg_ident role)) (\<lambda>_.
       ret (Obj [(''role'', Str role), (''deleted'', Bool True)])))"

definition pg_setGroupMembership :: "pg_env \<Rightarrow> obj \<Rightarrow> obj \<Rightarrow> obj \<Rightarrow> bool \<Rightarrow> (jsval, 'b pg_world_scheme) op" where
  "pg_setGroupMembership env config data params add =
     sbind (lift_result (pg_login data params config)) (\<lambda>login.
     sbind (lift_result (pg_roleName data params config)) (\<lambda>role.
     sbind (pg_run env False ((if add then ''GRANT'' else ''REVOKE'') @ '' '' @ pg_ident role @ '' '' @
       (if add then ''TO'' else ''FROM'') @ '' '' @ pg_ident login)) (\<lambda>_.
     ret (Obj [(''login'', Str login), (''role'', Str role), (''member'', Bool add)]))))"

definition pg_getGroupRole :: "pg_env \<Rightarrow> obj \<Rightarrow> obj \<Rightarrow> obj \<Rightarrow> (jsval, 'b pg_world_scheme) op" where
  "pg_getGroupRole env config data params =
     sbind (lift_result (pg_roleName data params config)) (\<lambda>role.
     sbind (pg_query env False ''SELECT rolname AS role FROM pg_roles WHERE rolcanlogin = false AND rolname = $1'' [Str role])
       (\<lambda>rows. ret (first_row rows)))"

definition pg_searchGroupRoles :: "pg_env \<Rightarrow> obj \<Rightarrow> (jsval, 'b pg_world_scheme) op" where
  "pg_searchGroupRoles env config =
     sbind (if pg_fullRoleControl config
       then pg_query env False ''SELECT rolname AS role FROM pg_roles WHERE rolcanlogin = false ORDER BY rolname LIMIT 200'' []
       else pg_query env False
         (''SELECT rolname AS role FROM pg_roles WHERE rolcanlogin = false AND rolname LIKE $1 '' @ ''ORDER BY rolname LIMIT 200'')
         [Str (pg_managedRolePrefix config @ ''%'')]) (\<lambda>rows. ret (found_rows rows))"

definition pg_schema :: jsval where
  "pg_schema =
     Obj [(''objectClasses'', Arr
       [Obj [(''name'', Str ''user''), (''attributes'', Arr
          [attribute ''login'' ''string'' True False, attribute ''password'' ''string'' True False,
           attribute ''roles'' ''array'' False True, attribute ''permissions'' ''array'' False True,
           attribute ''enabled'' ''boolean'' False False])],
        Obj [(''name'', Str ''group''), (''attributes'', Arr
          [Obj [(''name'', Str ''name''), (''type'', Str ''string''), (''required'', Bool True)]])]])]"

definition pg_getSchema :: connector_result where
  "pg_getSchema = result_ok pg_schema"

definition pg_unsupported :: "string \<Rightarrow> exn" where
  "pg_unsupported op = JsError (''Unsupported PostgreSQL role operation: '' @ op)"

definition pg_executeWithPool ::
  "pg_env \<Rightarrow> string \<Rightarrow> obj \<Rightarrow> obj \<Rightarrow> obj \<Rightarrow> (jsval, 'b pg_world_scheme) op" where
  "pg_executeWithPool env op config data params =
     (if op = ''system.test'' then sbind (pg_query env False ''SELECT 1'' []) (\<lambda>_. ret (Obj [(''reachable'', Bool True)]))
      else if op = ''schema.get'' then ret (result_data pg_getSchema)
      else if op = ''user.create'' then pg_createRole env config data
      else if op = ''user.update'' then pg_updateRole env config data params
      else if op = ''user.delete'' then pg_deleteRole env config data params
      else if op \<in> {''user.disable'', ''user.lock''} then pg_setLogin env config data params False
      else if op \<in> {''user.enable'', ''user.unlock''} then pg_setLogin env config data params True
      else if op = ''user.changePassword'' then pg_changePassword env config data params
      else if op \<in> {''user.get'', ''user.resolve''} then pg_getRole env config data params
      else if op \<in> {''user.search'', ''sync.full'', ''sync.incremental''} then pg_searchRoles env config data
      else if op = ''group.create'' then pg_createGroupRole env config data
      else if op = ''group.update'' then raise (pg_unsupported ''group.update'')
      else if op = ''group.delete'' then pg_deleteGroupRole env config data params
      else if op = ''group.addMember'' then pg_setGroupMembership env config data params True
      else if op = ''group.removeMember'' then pg_setGroupMembership env config data params False
      else if op = ''group.get'' then pg_getGroupRole env config data params
      else if op = ''group.search'' then pg_searchGroupRoles env config
      else raise (pg_unsupported op))"

definition pg_execute :: "pg_env \<Rightarrow> connector_payload \<Rightarrow> (connector_result, 'b pg_world_scheme) op" where
  "pg_execute env p =
     (let config = as_obj (js_get (body p) ''config''); data = payload_part p ''data''; params = payload_part p ''params'' in
      if \<not> truthy (js_get config ''connectionString'') then ret (result_fail ''Missing PostgreSQL connectionString'')
      else sbind (pg_createPool env config) (\<lambda>_.
        finally_op
          (answer_masked [js_get (body p) ''config'', coalesce (js_get (body p) ''data'') (Obj []),
              coalesce (js_get (body p) ''params'') (Obj [])]
            (pg_executeWithPool env (operation p) config data params))
          (sql_close (sql_env.truncate env))))"

definition pg_testConnection :: "pg_env \<Rightarrow> jsval \<Rightarrow> (bool \<times> string, 'b pg_world_scheme) op" where
  "pg_testConnection env cfg =
     (if \<not> truthy (js_get (as_obj cfg) ''connectionString'') then ret (False, ''Missing PostgreSQL connectionString'')
      else sbind (pg_createPool env (as_obj cfg)) (\<lambda>_.
        finally_op
          (catch_op (sbind (pg_query env False ''SELECT 1'' []) (\<lambda>_. ret (True, ''PostgreSQL role connection OK'')))
            (\<lambda>e. ret (False, ''PostgreSQL role connection failed: '' @ safeConnectorErrorMessage e [cfg])))
          (sql_close (sql_env.truncate env))))"

definition POSTGRES_ROLE_PARTIAL_OPERATIONS :: "(string \<times> string) list" where
  "POSTGRES_ROLE_PARTIAL_OPERATIONS =
     [(''user.delete'', ''Default mapping is safe disable (ALTER ROLE NOLOGIN); '' @
         ''physical DROP ROLE requires physicalDeleteEnabled=true.''),
      (''user.lock'', ''Mapped to ALTER ROLE NOLOGIN.''), (''user.disable'', ''Mapped to ALTER ROLE NOLOGIN.''),
      (''user.unlock'', ''Mapped to ALTER ROLE LOGIN.''), (''user.enable'', ''Mapped to ALTER ROLE LOGIN.''),
      (''group.delete'', ''DROP ROLE requires physicalRoleDeleteEnabled=true; otherwise role delete is rejected.''),
      (''group.update'', ''PostgreSQL role rename is out of first connector scope.'')]"

definition POSTGRES_ROLE_UNSUPPORTED_OPERATIONS :: "(string \<times> string) list" where
  "POSTGRES_ROLE_UNSUPPORTED_OPERATIONS =
     (let attributes = ''PostgreSQL role custom attribute mapping is not supported.'' in
      [(''user.addAttributes'', attributes), (''user.removeAttributes'', attributes)])"

definition pg_connector :: "pg_env \<Rightarrow> 'b pg_world_scheme connector" where
  "pg_connector env =
     \<lparr>conn_name = ''postgres-role'', conn_execute = pg_execute env, conn_testConnection = pg_testConnection env,
      conn_getCapabilities = Some (createConnectorCapabilities POSTGRES_ROLE_PARTIAL_OPERATIONS id
        POSTGRES_ROLE_UNSUPPORTED_OPERATIONS),
      conn_getSchema = Some (\<lambda>_. ret pg_getSchema), conn_sync = None\<rparr>"

section \<open>The statements that are meant\<close>

datatype pg_object = OnDatabase string | OnSchema string | OnObject string string string

datatype pg_statement =
    PgCreateUser string bool string
  | PgCreateGroup string
  | PgSetLogin string bool
  | PgSetPassword string string
  | PgDrop string
  | PgGrantRole string string
  | PgRevokeRole string string
  | PgPrivilege string string pg_object string

definition login_word :: "bool \<Rightarrow> sql_token" where
  "login_word b = SqlWord (if b then ''LOGIN'' else ''NOLOGIN'')"

fun object_tokens :: "pg_object \<Rightarrow> sql_token list" where
  "object_tokens (OnDatabase d) = [SqlWord ''ON'', SqlWord ''DATABASE'', QIdent d]"
| "object_tokens (OnSchema s) = [SqlWord ''ON'', SqlWord ''SCHEMA'', QIdent s]"
| "object_tokens (OnObject k s n) = [SqlWord ''ON'', SqlWord k, QIdent s, Punct (CHR ''.''), QIdent n]"

fun pg_tokens :: "pg_statement \<Rightarrow> sql_token list" where
  "pg_tokens (PgCreateUser l b pw) =
     [SqlWord ''CREATE'', SqlWord ''ROLE'', QIdent l, login_word b, SqlWord ''PASSWORD'', SqlStr pw]"
| "pg_tokens (PgCreateGroup r) = [SqlWord ''CREATE'', SqlWord ''ROLE'', QIdent r, login_word False]"
| "pg_tokens (PgSetLogin l b) = [SqlWord ''ALTER'', SqlWord ''ROLE'', QIdent l, login_word b]"
| "pg_tokens (PgSetPassword l pw) = [SqlWord ''ALTER'', SqlWord ''ROLE'', QIdent l, SqlWord ''PASSWORD'', SqlStr pw]"
| "pg_tokens (PgDrop n) = [SqlWord ''DROP'', SqlWord ''ROLE'', QIdent n]"
| "pg_tokens (PgGrantRole r l) = [SqlWord ''GRANT'', QIdent r, SqlWord ''TO'', QIdent l]"
| "pg_tokens (PgRevokeRole r l) = [SqlWord ''REVOKE'', QIdent r, SqlWord ''FROM'', QIdent l]"
| "pg_tokens (PgPrivilege a p obj l) =
     SqlWord a # sql_words p @ object_tokens obj @ [SqlWord (if a = ''REVOKE'' then ''FROM'' else ''TO''), QIdent l]"

text \<open>The statements that read, and the steps of a transaction, are fixed texts.\<close>

definition pg_fixed :: "string list" where
  "pg_fixed =
     [''BEGIN'', ''COMMIT'', ''ROLLBACK'', ''SELECT 1'', ''SELECT current_database() AS database'',
      pg_columns @ ''= $1'', pg_columns @ ''LIKE $1 ORDER BY rolname LIMIT 200'',
      ''SELECT rolname AS role FROM pg_roles WHERE rolcanlogin = false AND rolname = $1'',
      ''SELECT rolname AS role FROM pg_roles WHERE rolcanlogin = false ORDER BY rolname LIMIT 200'',
      ''SELECT rolname AS role FROM pg_roles WHERE rolcanlogin = false AND rolname LIKE $1 '' @ ''ORDER BY rolname LIMIT 200'']"

text \<open>An account of the connector, and a group that it may hand out.\<close>

definition pg_account :: "obj \<Rightarrow> string \<Rightarrow> bool" where
  "pg_account config l \<longleftrightarrow> sql_identifier 63 l \<and>
     (\<exists>v. v \<noteq> [] \<and> l = trim (string_of_val (coalesce (js_get config ''rolePrefix'') (Str [])) @ v))"

definition pg_managed :: "obj \<Rightarrow> string \<Rightarrow> bool" where
  "pg_managed config r \<longleftrightarrow> sql_identifier 63 r \<and> (pg_fullRoleControl config \<or> starts_with (pg_managedRolePrefix config) r)"

text \<open>The object that a scope names; the database is the configured one or the current one.\<close>

fun scope_object :: "string \<Rightarrow> pg_object \<Rightarrow> bool" where
  "scope_object scope (OnDatabase d) = (scope = ''DATABASE'' \<and> sql_identifier 63 d)"
| "scope_object scope (OnSchema s) = (scope = ''SCHEMA::'' @ s \<and> sql_identifier 63 s)"
| "scope_object scope (OnObject k s n) =
     (scope = k @ ''::'' @ s @ ''.'' @ n \<and> k \<in> {''TABLE'', ''SEQUENCE'', ''FUNCTION''} \<and>
      sql_identifier 63 s \<and> sql_identifier 63 n)"

text \<open>The policy admits every permission, or those that the configuration lists.\<close>

definition pg_permitted :: "obj \<Rightarrow> pg_permission \<Rightarrow> bool" where
  "pg_permitted config p \<longleftrightarrow>
     (case pg_permissionPolicyMode config of
        PolicyDisabled \<Rightarrow> False
      | PolicyFullControl \<Rightarrow> True
      | PolicyAllowlist \<Rightarrow> (\<exists>items item. pg_allowed_items config = Inr items \<and> item \<in> set items \<and>
          pg_normalized (as_obj item) = Inr p))"

fun pg_allowed :: "obj \<Rightarrow> pg_statement \<Rightarrow> bool" where
  "pg_allowed config (PgCreateUser l b pw) = pg_account config l"
| "pg_allowed config (PgCreateGroup r) = pg_managed config r"
| "pg_allowed config (PgSetLogin l b) = pg_account config l"
| "pg_allowed config (PgSetPassword l pw) = pg_account config l"
| "pg_allowed config (PgDrop n) =
     (pg_account config n \<and> truthy (js_get config ''physicalDeleteEnabled'') \<or>
      pg_managed config n \<and> truthy (js_get config ''physicalRoleDeleteEnabled''))"
| "pg_allowed config (PgGrantRole r l) = (pg_managed config r \<and> pg_account config l)"
| "pg_allowed config (PgRevokeRole r l) = (pg_managed config r \<and> pg_account config l)"
| "pg_allowed config (PgPrivilege a p obj l) =
     (pg_account config l \<and> permission_text p \<and> (\<exists>scope. scope_object scope obj \<and>
        pg_permitted config \<lparr>pp_action = a, pp_name = p, pp_scope = scope\<rparr>))"

definition pg_intended :: "obj \<Rightarrow> string \<Rightarrow> bool" where
  "pg_intended config text \<longleftrightarrow> text \<in> set pg_fixed \<or>
     (\<exists>st. sql_lex pg_quotes text = Some (pg_tokens st) \<and> pg_allowed config st)"

section \<open>Reading back\<close>

interpretation pg_sql: sql_dialect pg_quotes pg_ident pg_literal
  by unfold_locales (auto simp: pg_ident_def pg_literal_def intro: lexes_quoted lexes_text)

lemmas pg_words = pg_sql.reads

lemma pg_login_reads: "lexes pg_quotes (if b then ''LOGIN'' else ''NOLOGIN'') [login_word b]"
  by (cases b) (simp_all add: login_word_def pg_words)

lemma pg_statements_read:
  "sql_lex pg_quotes (''CREATE ROLE '' @ pg_ident l @ '' '' @ (if b then ''LOGIN'' else ''NOLOGIN'') @ '' PASSWORD '' @ pg_literal pw) =
     Some (pg_tokens (PgCreateUser l b pw))"
  "sql_lex pg_quotes (''CREATE ROLE '' @ pg_ident r @ '' NOLOGIN'') = Some (pg_tokens (PgCreateGroup r))"
  "sql_lex pg_quotes (pg_alter l b) = Some (pg_tokens (PgSetLogin l b))"
  "sql_lex pg_quotes (''ALTER ROLE '' @ pg_ident l @ '' PASSWORD '' @ pg_literal pw) = Some (pg_tokens (PgSetPassword l pw))"
  "sql_lex pg_quotes (''DROP ROLE '' @ pg_ident l) = Some (pg_tokens (PgDrop l))"
  "sql_lex pg_quotes (''GRANT '' @ pg_ident r @ '' TO '' @ pg_ident l) = Some (pg_tokens (PgGrantRole r l))"
  "sql_lex pg_quotes (''REVOKE '' @ pg_ident r @ '' FROM '' @ pg_ident l) = Some (pg_tokens (PgRevokeRole r l))"
proof -
  note join = pg_sql.statement
  have login: "lexes pg_quotes (if b then ''LOGIN'' else ''NOLOGIN'') [login_word b]" for b by (rule pg_login_reads)
  show "sql_lex pg_quotes (''CREATE ROLE '' @ pg_ident l @ '' '' @ (if b then ''LOGIN'' else ''NOLOGIN'') @ '' PASSWORD '' @ pg_literal pw) =
     Some (pg_tokens (PgCreateUser l b pw))"
    using join [of "[''CREATE'', ''ROLE'', pg_ident l, if b then ''LOGIN'' else ''NOLOGIN'', ''PASSWORD'', pg_literal pw]"
      "map (\<lambda>t. [t]) (pg_tokens (PgCreateUser l b pw))"] pg_words login [of b] by simp
  show "sql_lex pg_quotes (''CREATE ROLE '' @ pg_ident r @ '' NOLOGIN'') = Some (pg_tokens (PgCreateGroup r))"
    using join [of "[''CREATE'', ''ROLE'', pg_ident r, ''NOLOGIN'']" "map (\<lambda>t. [t]) (pg_tokens (PgCreateGroup r))"]
      pg_words login [of False] by simp
  show "sql_lex pg_quotes (pg_alter l b) = Some (pg_tokens (PgSetLogin l b))"
    using join [of "[''ALTER'', ''ROLE'', pg_ident l, if b then ''LOGIN'' else ''NOLOGIN'']"
      "map (\<lambda>t. [t]) (pg_tokens (PgSetLogin l b))"] pg_words login [of b] by (simp add: pg_alter_def)
  show "sql_lex pg_quotes (''ALTER ROLE '' @ pg_ident l @ '' PASSWORD '' @ pg_literal pw) = Some (pg_tokens (PgSetPassword l pw))"
    using join [of "[''ALTER'', ''ROLE'', pg_ident l, ''PASSWORD'', pg_literal pw]"
      "map (\<lambda>t. [t]) (pg_tokens (PgSetPassword l pw))"] pg_words by simp
  show "sql_lex pg_quotes (''DROP ROLE '' @ pg_ident l) = Some (pg_tokens (PgDrop l))"
    using join [of "[''DROP'', ''ROLE'', pg_ident l]" "map (\<lambda>t. [t]) (pg_tokens (PgDrop l))"] pg_words by simp
  show "sql_lex pg_quotes (''GRANT '' @ pg_ident r @ '' TO '' @ pg_ident l) = Some (pg_tokens (PgGrantRole r l))"
    using join [of "[''GRANT'', pg_ident r, ''TO'', pg_ident l]" "map (\<lambda>t. [t]) (pg_tokens (PgGrantRole r l))"] pg_words by simp
  show "sql_lex pg_quotes (''REVOKE '' @ pg_ident r @ '' FROM '' @ pg_ident l) = Some (pg_tokens (PgRevokeRole r l))"
    using join [of "[''REVOKE'', pg_ident r, ''FROM'', pg_ident l]" "map (\<lambda>t. [t]) (pg_tokens (PgRevokeRole r l))"] pg_words by simp
qed

lemma pg_scope_values:
  assumes "pg_permissionScopeValue v = Inr scope"
  shows "scope = ''DATABASE'' \<or> (\<exists>s. scope = ''SCHEMA::'' @ s \<and> sql_identifier 63 s) \<or>
    (\<exists>k s n. k \<in> {''TABLE'', ''SEQUENCE'', ''FUNCTION''} \<and> scope = k @ ''::'' @ s @ ''.'' @ n \<and> CHR ''.'' \<notin> set s \<and>
      CHR ''.'' \<notin> set n \<and> sql_identifier 63 s \<and> sql_identifier 63 n)"
proof (cases "or_else (firstString [v]) ''DATABASE'' = ''DATABASE''")
  case False
  define txt0 where "txt0 = or_else (firstString [v]) ''DATABASE''"
  have object: ?thesis if "k \<in> {''TABLE'', ''SEQUENCE'', ''FUNCTION''}" "txt0 = (k @ ''::'') @ r"
    "(let parts = split_on (CHR ''.'') r in if length parts \<noteq> 2 then Inl e
      else ebind (map_exn (\<lambda>part. pg_validateIdentifier part ''PostgreSQL permission scope'') parts) (\<lambda>_. Inr txt0)) = Inr scope"
    for k r e
  proof -
    note run = that(3)
    obtain s n where sn: "split_on (CHR ''.'') r = [s, n]"
      using run by (auto simp: Let_def numeral_2_eq_2 length_Suc_conv split: if_splits)
    from run have "txt0 = scope" "sql_identifier 63 s" "sql_identifier 63 n"
      by (auto simp: Let_def sn pg_validateIdentifier_def ebind_Inr_iff)
    with that(1,2) split_on_two [OF sn] show ?thesis by auto
  qed
  have run: "(case find (\<lambda>pre. starts_with pre txt0) [''SCHEMA::'', ''TABLE::'', ''SEQUENCE::'', ''FUNCTION::''] of
        None \<Rightarrow> Inl pg_scope_error
      | Some pre \<Rightarrow>
          (let identifier = drop (length pre) txt0; parts = split_on (CHR ''.'') identifier in
           if pre = ''SCHEMA::''
           then ebind (pg_validateIdentifier identifier ''PostgreSQL schema'') (\<lambda>_. Inr txt0)
           else if length parts \<noteq> 2
           then Inl (JsError (''Invalid PostgreSQL '' @ to_lower (take (length pre - 2) pre) @ '' scope''))
           else ebind (map_exn (\<lambda>part. pg_validateIdentifier part ''PostgreSQL permission scope'') parts) (\<lambda>_. Inr txt0))) = Inr scope"
    using assms False unfolding pg_permissionScopeValue_def txt0_def Let_def by simp
  consider (s1) "starts_with ''SCHEMA::'' txt0" | (s2) "\<not> starts_with ''SCHEMA::'' txt0" "starts_with ''TABLE::'' txt0"
    | (s3) "\<not> starts_with ''SCHEMA::'' txt0" "\<not> starts_with ''TABLE::'' txt0" "starts_with ''SEQUENCE::'' txt0"
    | (s4) "\<not> starts_with ''SCHEMA::'' txt0" "\<not> starts_with ''TABLE::'' txt0" "\<not> starts_with ''SEQUENCE::'' txt0"
        "starts_with ''FUNCTION::'' txt0"
    using run by (auto split: if_splits)
  then show ?thesis
  proof cases
    case s1
    then obtain r where "txt0 = ''SCHEMA::'' @ r" unfolding starts_with_split by blast
    then show ?thesis using run s1 by (auto simp: ebind_Inr_iff pg_validateIdentifier_def)
  next
    case s2
    then obtain r where "txt0 = (''TABLE'' @ ''::'') @ r" unfolding starts_with_split by auto
    then show ?thesis using run s2 by (intro object [of "''TABLE''" r]) (simp_all add: Let_def)
  next
    case s3
    then obtain r where "txt0 = (''SEQUENCE'' @ ''::'') @ r" unfolding starts_with_split by auto
    then show ?thesis using run s3 by (intro object [of "''SEQUENCE''" r]) (simp_all add: Let_def)
  next
    case s4
    then obtain r where "txt0 = (''FUNCTION'' @ ''::'') @ r" unfolding starts_with_split by auto
    then show ?thesis using run s4 by (intro object [of "''FUNCTION''" r]) (simp_all add: Let_def)
  qed
qed (use assms in \<open>auto simp: pg_permissionScopeValue_def\<close>)

lemma database_text:
  "pg_database env config w = (Inr d, w') \<Longrightarrow> sql_identifier 63 d"
  by (auto simp: pg_database_def pg_validateIdentifier_def sbind_Inr_iff lift_result_def raise_def split: option.splits)

lemma object_reads:
  "lexes pg_quotes (''ON DATABASE '' @ pg_ident d) (object_tokens (OnDatabase d))"
  "lexes pg_quotes (''ON SCHEMA '' @ pg_ident s) (object_tokens (OnSchema s))"
  "k \<in> {''TABLE'', ''SEQUENCE'', ''FUNCTION''} \<Longrightarrow>
    lexes pg_quotes (''ON '' @ k @ '' '' @ pg_ident s @ ''.'' @ pg_ident n) (object_tokens (OnObject k s n))"
proof -
  have join: "lexes pg_quotes (join_with '' '' ps) (concat tss)" if "list_all2 (lexes pg_quotes) ps tss" for ps tss
    by (rule lexes_join [OF that])
  show "lexes pg_quotes (''ON DATABASE '' @ pg_ident d) (object_tokens (OnDatabase d))"
    using join [of "[''ON'', ''DATABASE'', pg_ident d]" "map (\<lambda>t. [t]) (object_tokens (OnDatabase d))"] pg_words by simp
  show "lexes pg_quotes (''ON SCHEMA '' @ pg_ident s) (object_tokens (OnSchema s))"
    using join [of "[''ON'', ''SCHEMA'', pg_ident s]" "map (\<lambda>t. [t]) (object_tokens (OnSchema s))"] pg_words by simp
  assume k: "k \<in> {''TABLE'', ''SEQUENCE'', ''FUNCTION''}"
  have "lexes pg_quotes k [SqlWord k]" using k pg_words by blast
  then show "lexes pg_quotes (''ON '' @ k @ '' '' @ pg_ident s @ ''.'' @ pg_ident n) (object_tokens (OnObject k s n))"
    using join [of "[''ON'', k, pg_ident s @ CHR ''.'' # pg_ident n]"
      "[[SqlWord ''ON''], [SqlWord k], [QIdent s, Punct (CHR ''.''), QIdent n]]"] pg_words pg_sql.dotted by simp
qed

lemma scope_reads:
  assumes "pg_permissionScopeValue v = Inr scope" and run: "pg_permissionScope env config scope w = (Inr t, w')"
  shows "\<exists>obj. scope_object scope obj \<and> lexes pg_quotes t (object_tokens obj)"
  using pg_scope_values [OF assms(1)]
proof (elim disjE exE conjE)
  assume "scope = ''DATABASE''"
  with run obtain d where "pg_database env config w = (Inr d, w')" "t = ''ON DATABASE '' @ pg_ident d"
    by (auto simp: pg_permissionScope_def sbind_Inr_iff)
  with \<open>scope = ''DATABASE''\<close> show ?thesis
    using database_text object_reads(1) by (intro exI [of _ "OnDatabase d"]) auto
next
  fix s assume s: "scope = ''SCHEMA::'' @ s" "sql_identifier 63 s"
  with run have "t = ''ON SCHEMA '' @ pg_ident s" by (simp add: pg_permissionScope_def starts_with_def ret_def)
  with s show ?thesis using object_reads(2) by (intro exI [of _ "OnSchema s"]) auto
next
  fix k s n assume k: "k \<in> {''TABLE'', ''SEQUENCE'', ''FUNCTION''}" and scope: "scope = k @ ''::'' @ s @ ''.'' @ n"
    and dots: "CHR ''.'' \<notin> set s" "CHR ''.'' \<notin> set n" and names: "sql_identifier 63 s" "sql_identifier 63 n"
  have parts: "split_on (CHR ''.'') (s @ CHR ''.'' # n) = [s, n]"
    using split_on_append [OF dots(1)] split_on_no_sep [OF dots(2)] by simp
  from k run have "t = ''ON '' @ k @ '' '' @ pg_ident s @ ''.'' @ pg_ident n"
    unfolding scope by (elim insertE emptyE) (simp_all add: pg_permissionScope_def starts_with_def parts ret_def)
  with k names scope show ?thesis using object_reads(3) [OF k] by (intro exI [of _ "OnObject k s n"]) auto
qed

text \<open>The key of a permission determines it: no part before the scope has a colon.\<close>

lemma pg_normalizedD:
  assumes "pg_normalized item = Inr p"
  shows "pp_action p \<in> {''GRANT'', ''REVOKE''}" "permission_text (pp_name p)"
    "\<exists>v. pg_permissionScopeValue v = Inr (pp_scope p)"
proof -
  from assms have *: "pg_permissionAction (js_get item ''action'') = Inr (pp_action p)"
    "pg_permissionName (js_get item ''permission'') = Inr (pp_name p)"
    "pg_permissionScopeValue (js_get item ''scope'') = Inr (pp_scope p)"
    by (auto simp: pg_normalized_def ebind_Inr_iff)
  from *(1) show "pp_action p \<in> {''GRANT'', ''REVOKE''}" by (auto simp: pg_permissionAction_def split: if_splits)
  from *(2) show "permission_text (pp_name p)" by (auto simp: pg_permissionName_def dest: checked_permission_text)
  from *(3) show "\<exists>v. pg_permissionScopeValue v = Inr (pp_scope p)" by blast
qed

lemma colon_cut: "c \<notin> set a \<Longrightarrow> c \<notin> set b \<Longrightarrow> a @ c # r = b @ c # s \<Longrightarrow> a = b \<and> r = s"
proof (induction a arbitrary: b)
  case Nil
  then show ?case by (cases b) auto
next
  case (Cons x a)
  then show ?case by (cases b) auto
qed

lemma permission_key_unique:
  assumes "pg_normalized i = Inr p" "pg_normalized j = Inr q" "pg_permissionKey p = pg_permissionKey q"
  shows "p = q"
proof -
  have action: "CHR '':'' \<notin> set (pp_action p)" if "pg_normalized i = Inr p" for i p
    using pg_normalizedD(1) [OF that] by auto
  have name: "CHR '':'' \<notin> set (pp_name p)" if "pg_normalized i = Inr p" for i p
    using pg_normalizedD(2) [OF that]
    by (cases "pp_name p") (auto simp: permission_text_def list_all_iff is_upper_def is_digit10_def Let_def)
  have "pp_action p @ CHR '':'' # pp_name p @ CHR '':'' # pp_scope p = pp_action q @ CHR '':'' # pp_name q @ CHR '':'' # pp_scope q"
    using assms(3) by (simp add: pg_permissionKey_def)
  with colon_cut [OF action [OF assms(1)] action [OF assms(2)]] colon_cut [OF name [OF assms(1)] name [OF assms(2)]]
  show ?thesis by (metis pg_permission.surjective unit.exhaust)
qed

section \<open>Every statement is meant\<close>

lemma policy_permits:
  assumes "pg_validatePermissionPolicy config p = Inr q" "pg_normalized item = Inr p"
  shows "q = p \<and> pg_permitted config p"
proof (cases "pg_permissionPolicyMode config")
  case PolicyAllowlist
  with assms(1) obtain items allowed r where q: "q = p" and items: "pg_allowed_items config = Inr items"
    "map_exn (\<lambda>v. pg_normalized (as_obj v)) items = Inr allowed" and r: "r \<in> set allowed" "pg_permissionKey p = pg_permissionKey r"
    by (auto simp: pg_validatePermissionPolicy_def ebind_Inr_iff split: if_splits)
  from map_exn_member [OF items(2) r(1)] obtain x where x: "x \<in> set items" "pg_normalized (as_obj x) = Inr r" by blast
  from permission_key_unique [OF assms(2) x(2) r(2)] x items(1) q show ?thesis
    by (auto simp: pg_permitted_def PolicyAllowlist)
qed (use assms in \<open>simp_all add: pg_validatePermissionPolicy_def pg_permitted_def\<close>)

lemma permissions_permitted:
  assumes "pg_permissions config data includeDefaults = Inr ps" "p \<in> set ps"
  shows "pg_permitted config p \<and> (\<exists>item. pg_normalized item = Inr p)"
proof -
  from assms(1) obtain xs normalized where n: "map_exn (\<lambda>v. if is_record v then pg_normalized (as_obj v)
      else Inl (JsError ''Invalid PostgreSQL permission'')) xs = Inr normalized"
    and v: "map_exn (pg_validatePermissionPolicy config) normalized = Inr ps"
    by (auto simp: pg_permissions_def ebind_Inr_iff)
  from map_exn_member [OF v assms(2)] obtain q where q: "q \<in> set normalized" "pg_validatePermissionPolicy config q = Inr p" by blast
  from map_exn_member [OF n q(1)] obtain item where "pg_normalized item = Inr q" by (auto split: if_splits)
  with policy_permits [OF q(2)] show ?thesis by auto
qed

lemma roles_managed:
  assumes "pg_roles config data includeDefaults = Inr roles" "r \<in> set roles"
  shows "pg_managed config r"
proof -
  from assms(1) obtain xs where "map_exn (pg_validateGrantRole config) xs = Inr roles"
    by (auto simp: pg_roles_def ebind_Inr_iff)
  from map_exn_member [OF this assms(2)] show ?thesis
    by (auto simp: pg_validateGrantRole_def pg_validateIdentifier_def pg_managed_def ebind_Inr_iff split: if_splits)
qed

lemma role_managed: "pg_roleName data params config = Inr r \<Longrightarrow> pg_managed config r"
  by (auto simp: pg_roleName_def pg_validateIdentifier_def pg_managed_def ebind_Inr_iff split: option.splits if_splits)

lemma login_account: "pg_login data params config = Inr l \<Longrightarrow> pg_account config l"
  by (auto simp: pg_login_def pg_prefixedValue_def pg_account_def Let_def dest: login_value_Some
      split: option.splits if_splits)

abbreviation pg_grown :: "obj \<Rightarrow> sql_exchange list \<Rightarrow> 'b pg_world_scheme \<Rightarrow> bool" where
  "pg_grown config old \<equiv> sql_grown (pg_intended config) old"

lemma intended_statement: "sql_lex pg_quotes t = Some (pg_tokens st) \<Longrightarrow> pg_allowed config st \<Longrightarrow> pg_intended config t"
  unfolding pg_intended_def by blast

lemma query_grown: "pg_intended config t \<Longrightarrow> preserves (pg_grown config old) (pg_query env tx t ps)"
  unfolding pg_query_def by (rule send_grown) simp

lemma fixed_grown: "t \<in> set pg_fixed \<Longrightarrow> preserves (pg_grown config old) (pg_query env tx t ps)"
  by (rule query_grown) (simp add: pg_intended_def)

lemma run_grown: "pg_intended config t \<Longrightarrow> preserves (pg_grown config old) (pg_run env tx t)"
  unfolding pg_run_def by (intro preserve_intros query_grown)

lemma transaction_grown:
  assumes "preserves (pg_grown config old) m"
  shows "preserves (pg_grown config old) (pg_withTransaction env m)"
proof -
  have step: "preserves (pg_grown config old) (pg_run env True t)" if "t \<in> {''BEGIN'', ''COMMIT'', ''ROLLBACK''}" for t
    using that by (intro run_grown) (auto simp: pg_intended_def pg_fixed_def)
  show ?thesis unfolding pg_withTransaction_def by (intro preserve_intros session_edges step assms) simp_all
qed

lemma pool_grown: "preserves (pg_grown config old) (pg_createPool env c)"
  unfolding pg_createPool_def by (intro preserve_intros) (simp add: sql_grown_def)

lemma scope_grown: "preserves (pg_grown config old) (pg_permissionScope env c scope)"
proof -
  have "preserves (pg_grown config old) (pg_database env c)"
    unfolding pg_database_def by (intro preserve_intros fixed_grown) (simp add: pg_fixed_def)
  then show ?thesis
    unfolding pg_permissionScope_def by (intro preserve_intros) (auto intro!: preserve_intros split: list.split prod.split)
qed

lemma apply_grown:
  assumes l: "pg_account config l" and p: "pg_permitted config p" "pg_normalized item = Inr p"
  shows "preserves (pg_grown config old) (pg_applyPermission env c l p)"
  unfolding pg_applyPermission_def
proof (rule preserves_sbind_result [OF scope_grown])
  fix t w w' assume run: "pg_permissionScope env c (pp_scope p) w = (Inr t, w')"
  from pg_normalizedD(3) [OF p(2)] scope_reads [OF _ run] obtain obj where
    obj: "scope_object (pp_scope p) obj" "lexes pg_quotes t (object_tokens obj)" by blast
  let ?key = "if pp_action p = ''REVOKE'' then ''FROM'' else ''TO''"
  have words: "lexes pg_quotes (pp_action p) [SqlWord (pp_action p)]" "lexes pg_quotes ?key [SqlWord ?key]"
    using pg_normalizedD(1) [OF p(2)] pg_words by auto
  have "sql_lex pg_quotes (join_with '' '' [pp_action p, pp_name p, t, ?key, pg_ident l]) =
      Some (concat [[SqlWord (pp_action p)], sql_words (pp_name p), object_tokens obj, [SqlWord ?key], [QIdent l]])"
    by (rule pg_sql.statement) (use words obj(2) pg_words pg_sql.permission [OF pg_normalizedD(2) [OF p(2)]] in simp)
  then have "sql_lex pg_quotes (pp_action p @ '' '' @ pp_name p @ '' '' @ t @ '' '' @ ?key @ '' '' @ pg_ident l) =
      Some (pg_tokens (PgPrivilege (pp_action p) (pp_name p) obj l))" by simp
  moreover have "pg_allowed config (PgPrivilege (pp_action p) (pp_name p) obj l)"
    using l p(1) obj(1) pg_normalizedD(2) [OF p(2)] by (cases p) (auto intro!: exI [of _ "pp_scope p"])
  ultimately show "preserves (pg_grown config old)
      (pg_run env True (pp_action p @ '' '' @ pp_name p @ '' '' @ t @ '' '' @ ?key @ '' '' @ pg_ident l))"
    by (intro run_grown intended_statement)
qed

lemma write_grown:
  "pg_account config l \<Longrightarrow> preserves (pg_grown config old)
    (pg_run env tx (''CREATE ROLE '' @ pg_ident l @ '' '' @ (if b then ''LOGIN'' else ''NOLOGIN'') @ '' PASSWORD '' @ pg_literal pw))"
  "pg_managed config r \<Longrightarrow> preserves (pg_grown config old) (pg_run env tx (''CREATE ROLE '' @ pg_ident r @ '' NOLOGIN''))"
  "pg_account config l \<Longrightarrow> preserves (pg_grown config old) (pg_run env tx (pg_alter l b))"
  "pg_account config l \<Longrightarrow>
    preserves (pg_grown config old) (pg_run env tx (''ALTER ROLE '' @ pg_ident l @ '' PASSWORD '' @ pg_literal pw))"
  "pg_account config l \<Longrightarrow> truthy (js_get config ''physicalDeleteEnabled'') \<Longrightarrow>
    preserves (pg_grown config old) (pg_run env tx (''DROP ROLE '' @ pg_ident l))"
  "pg_managed config r \<Longrightarrow> truthy (js_get config ''physicalRoleDeleteEnabled'') \<Longrightarrow>
    preserves (pg_grown config old) (pg_run env tx (''DROP ROLE '' @ pg_ident r))"
  "pg_managed config r \<Longrightarrow> pg_account config l \<Longrightarrow> preserves (pg_grown config old) (pg_run env tx
    ((if add then ''GRANT'' else ''REVOKE'') @ '' '' @ pg_ident r @ '' '' @ (if add then ''TO'' else ''FROM'') @ '' '' @ pg_ident l))"
proof -
  show "pg_managed config r \<Longrightarrow> pg_account config l \<Longrightarrow> preserves (pg_grown config old) (pg_run env tx
    ((if add then ''GRANT'' else ''REVOKE'') @ '' '' @ pg_ident r @ '' '' @ (if add then ''TO'' else ''FROM'') @ '' '' @ pg_ident l))"
    by (cases add; rule run_grown)
      (use intended_statement [of _ "PgGrantRole r l" config] intended_statement [of _ "PgRevokeRole r l" config]
        pg_statements_read(6,7) [of r l] in simp_all)
qed (rule run_grown, rule intended_statement, rule pg_statements_read, simp)+

lemma grant_grown:
  "pg_managed config r \<Longrightarrow> pg_account config l \<Longrightarrow> preserves (pg_grown config old) (pg_grant env l r)"
  using write_grown(7) [of config r l old env True True] by (simp add: pg_grant_def)

lemma grants_grown:
  assumes "pg_account config l" "pg_roles config data b = Inr roles"
  shows "preserves (pg_grown config old) (each_op (pg_grant env l) roles)"
  using assms roles_managed by (intro preserves_each grant_grown) blast+

lemma applies_grown:
  assumes "pg_account config l" "pg_permissions config data b = Inr ps"
  shows "preserves (pg_grown config old) (each_op (pg_applyPermission env config l) ps)"
proof (rule preserves_each)
  fix p assume "p \<in> set ps"
  with permissions_permitted [OF assms(2)] obtain item where "pg_permitted config p" "pg_normalized item = Inr p" by blast
  with assms(1) show "preserves (pg_grown config old) (pg_applyPermission env config l p)" by (intro apply_grown)
qed

lemmas pg_rules = preserves_if preserves_sbind_lift preserves_sbind preserves_basic

lemma operations_grown:
  "preserves (pg_grown config old) (pg_createRole env config data)"
  "preserves (pg_grown config old) (pg_updateRole env config data params)"
  "preserves (pg_grown config old) (pg_setLogin env config data params b)"
  "preserves (pg_grown config old) (pg_changePassword env config data params)"
  "preserves (pg_grown config old) (pg_createGroupRole env config data)"
  "preserves (pg_grown config old) (pg_setGroupMembership env config data params add)"
  unfolding pg_createRole_def pg_updateRole_def pg_setLogin_def pg_changePassword_def
    pg_createGroupRole_def pg_setGroupMembership_def Let_def
  by ((intro pg_rules preserves_option transaction_grown write_grown(1-4,7) grants_grown applies_grown;
        (assumption | erule login_account | erule role_managed | simp))+)

lemma deletes_grown:
  "preserves (pg_grown config old) (pg_deleteRole env config data params)"
  "preserves (pg_grown config old) (pg_deleteGroupRole env config data params)"
proof -
  show "preserves (pg_grown config old) (pg_deleteRole env config data params)"
    unfolding pg_deleteRole_def
    by (cases "truthy (js_get config ''physicalDeleteEnabled'')"; simp only: if_True if_False;
        intro pg_rules write_grown(3,5); (erule login_account | assumption))
  show "preserves (pg_grown config old) (pg_deleteGroupRole env config data params)"
    unfolding pg_deleteGroupRole_def
    by (cases "truthy (js_get config ''physicalRoleDeleteEnabled'')"; simp only: if_True if_False not_True_eq_False not_False_eq_True;
        intro pg_rules write_grown(6); (erule role_managed | assumption))
qed

lemma reads_grown:
  "preserves (pg_grown config old) (pg_getRole env config data params)"
  "preserves (pg_grown config old) (pg_searchRoles env config data)"
  "preserves (pg_grown config old) (pg_getGroupRole env config data params)"
  "preserves (pg_grown config old) (pg_searchGroupRoles env config)"
  unfolding pg_getRole_def pg_searchRoles_def pg_getGroupRole_def pg_searchGroupRoles_def
  by (intro pg_rules fixed_grown; simp add: pg_fixed_def)+

lemma pg_execute_grown:
  assumes "config = as_obj (js_get (body p) ''config'')"
  shows "preserves (pg_grown config old) (pg_execute env p)"
  unfolding pg_execute_def pg_executeWithPool_def Let_def assms [symmetric]
  by (intro pg_rules pool_grown preserves_finally session_edges masked_grown operations_grown deletes_grown reads_grown fixed_grown)
    (simp add: pg_fixed_def)

text \<open>
  C10: every statement that the connector sends is a fixed one, or the server reads it as one of eight
  intended statements, in which the texts of the event are single identifiers or string constants. Accounts
  carry the prefix of the configuration, groups that are created, dropped, granted or revoked lie in the managed
  namespace, a \<open>DROP ROLE\<close> needs its switch, and a permission is one that the policy admits.
\<close>

theorem postgres_statements_are_intended:
  "\<exists>new. sql_log (snd (pg_execute env p w)) = sql_log w @ new \<and>
     list_all (\<lambda>e. pg_intended (as_obj (js_get (body p) ''config'')) (sc_text (fst e))) new"
proof -
  have "pg_grown (as_obj (js_get (body p) ''config'')) (sql_log w) (snd (pg_execute env p w))"
    by (rule preserves_snd [OF pg_execute_grown]) (simp_all add: sql_grown_def)
  then show ?thesis
    by (auto simp: sql_grown_def grown_def trace_ok_each)
qed

section \<open>An account is created completely or not at all\<close>

definition pg_create_text :: "string \<Rightarrow> bool \<Rightarrow> string \<Rightarrow> string" where
  "pg_create_text l b pw =
     ''CREATE ROLE '' @ pg_ident l @ '' '' @ (if b then ''LOGIN'' else ''NOLOGIN'') @ '' PASSWORD '' @ pg_literal pw"

definition pg_grant_text :: "string \<Rightarrow> string \<Rightarrow> string" where
  "pg_grant_text l r = ''GRANT '' @ pg_ident r @ '' TO '' @ pg_ident l"

text \<open>The statement for a permission, after the query for the database where one is needed.\<close>

definition pg_privilege_texts :: "string \<Rightarrow> pg_permission \<Rightarrow> string list \<Rightarrow> bool" where
  "pg_privilege_texts l p ts \<longleftrightarrow> (\<exists>before scope. set before \<subseteq> {''SELECT current_database() AS database''} \<and>
     ts = before @ [pp_action p @ '' '' @ pp_name p @ '' '' @ scope @ '' '' @
       (if pp_action p = ''REVOKE'' then ''FROM'' else ''TO'') @ '' '' @ pg_ident l])"

lemma query_tx:
  "t \<notin> {''BEGIN'', ''COMMIT'', ''ROLLBACK''} \<Longrightarrow> tx_run (\<lambda>_ ts. ts = [t]) (pg_query env True t ps)"
  unfolding pg_query_def by (rule tx_run_mono [OF tx_run_send]) simp_all

lemma run_tx:
  "t \<notin> {''BEGIN'', ''COMMIT'', ''ROLLBACK''} \<Longrightarrow> tx_run (\<lambda>_ ts. ts = [t]) (pg_run env True t)"
  unfolding pg_run_def by (rule tx_run_sbind [OF query_tx]) (auto intro: tx_run_basic)

lemma scope_tx: "tx_run (\<lambda>_ ts. set ts \<subseteq> {''SELECT current_database() AS database''}) (pg_permissionScope env config scope)"
proof -
  have "tx_run (\<lambda>_ ts. set ts \<subseteq> {''SELECT current_database() AS database''}) (pg_database env config)"
    unfolding pg_database_def
    by (auto split: option.split intro!: tx_run_basic tx_run_sbind [OF query_tx])
  then show ?thesis
    unfolding pg_permissionScope_def
    by (auto split: option.split list.split prod.split intro!: tx_run_basic tx_run_sbind [where P = "\<lambda>_ ts. set ts \<subseteq> {''SELECT current_database() AS database''}"])
qed

lemma apply_tx:
  assumes "pp_action p \<in> {''GRANT'', ''REVOKE''}"
  shows "tx_run (\<lambda>_. pg_privilege_texts l p) (pg_applyPermission env config l p)"
  unfolding pg_applyPermission_def
proof (rule tx_run_sbind [OF scope_tx])
  fix scope ts assume ts: "set ts \<subseteq> {''SELECT current_database() AS database''}"
  show "tx_run (\<lambda>_ us. pg_privilege_texts l p (ts @ us)) (pg_run env True (pp_action p @ '' '' @ pp_name p @ '' '' @ scope @
      '' '' @ (if pp_action p = ''REVOKE'' then ''FROM'' else ''TO'') @ '' '' @ pg_ident l))"
    by (rule tx_run_mono [OF run_tx]) (use assms ts in \<open>auto simp: pg_privilege_texts_def\<close>)
qed

lemma transaction_outcome:
  assumes "tx_run P work" and run: "pg_withTransaction env work w = (r, w')"
  shows "\<exists>new. sql_log w' = sql_log w @ new \<and>
    (case r of Inl _ \<Rightarrow> committed NoTx new = [] | Inr u \<Rightarrow> P u (committed NoTx new))"
proof (cases "se_connect (sql_env.truncate env) (sql_log w)")
  case None
  define call where "call t = \<lparr>sc_text = t, sc_params = [], sc_tx = True\<rparr>" for t
  define sent where "sent t v = v\<lparr>sql_log := sql_log v @ [(call t, se_answer env (sql_log v) (call t))]\<rparr>" for t and v :: "'a pg_world_scheme"
  have step: "pg_run env True t v = (case se_answer env (sql_log v) (call t) of Inl e \<Rightarrow> Inl e | Inr _ \<Rightarrow> Inr (), sent t v)" for t v
    by (simp add: pg_run_def pg_query_def sql_send_def call_def sent_def sbind_def Let_def ret_def sql_env.truncate_def split: sum.split)
  have calls: "sc_tx (call t)" "sc_text (call t) = t" for t by (simp_all add: call_def)
  have log: "sql_log (sent t v) = sql_log v @ [(call t, se_answer env (sql_log v) (call t))]" for t v by (simp add: sent_def)
  have undo: "\<exists>e'. (sbind (pg_run env True ''ROLLBACK'') (\<lambda>_. raise e) :: (unit, 'a pg_world_scheme) op) v = (Inl e', sent ''ROLLBACK'' v)" for e v
    by (simp add: sbind_def step raise_def split: sum.split)
  have r: "(r, w') = catch_op (sbind (pg_run env True ''BEGIN'') (\<lambda>_. sbind work (\<lambda>_. pg_run env True ''COMMIT'')))
       (\<lambda>e. sbind (pg_run env True ''ROLLBACK'') (\<lambda>_. raise e)) w"
    using run None by (simp add: pg_withTransaction_def sql_connect_def sbind_def [of "sql_connect (sql_env.truncate env)"])
  show ?thesis
  proof (cases "se_answer env (sql_log w) (call ''BEGIN'')")
    case (Inl e)
    with r undo [of e "sent ''BEGIN'' w"] have "\<exists>e'. r = Inl e' \<and> w' = sent ''ROLLBACK'' (sent ''BEGIN'' w)"
      by (auto simp: catch_op_def step sbind_def [of "pg_run env True ''BEGIN''"])
    then show ?thesis using Inl by (auto simp: log calls)
  next
    case (Inr rows)
    obtain x v where work: "work (sent ''BEGIN'' w) = (x, v)" by (cases "work (sent ''BEGIN'' w)")
    from tx_runD [OF assms(1) work] obtain es where es: "sql_log v = sql_log (sent ''BEGIN'' w) @ es" "tx_log P x es" .
    have steps: "list_all tx_step es" using es(2) by (simp add: tx_log_def)
    show ?thesis
    proof (cases x)
      case (Inl e)
      with r Inr work undo [of e v] have "\<exists>e'. r = Inl e' \<and> w' = sent ''ROLLBACK'' v"
        by (auto simp: catch_op_def step sbind_def [of "pg_run env True ''BEGIN''"] sbind_def [of work])
      then show ?thesis using es(1) Inr by (auto simp: log calls committed_rolled_back [OF _ _ steps])
    next
      case (Inr u)
      with es(2) have full: "list_all (\<lambda>e. answered (snd e)) es" "P u (map (\<lambda>e. sc_text (fst e)) es)"
        by (simp_all add: tx_log_def)
      note finished = committed_steps [OF steps full(1)]
      show ?thesis
      proof (cases "se_answer env (sql_log v) (call ''COMMIT'')")
        case (Inl e)
        with r \<open>x = Inr u\<close> \<open>se_answer env (sql_log w) (call ''BEGIN'') = Inr rows\<close> work undo [of e "sent ''COMMIT'' v"]
        have "\<exists>e'. r = Inl e' \<and> w' = sent ''ROLLBACK'' (sent ''COMMIT'' v)"
          by (auto simp: catch_op_def step sbind_def [of "pg_run env True ''BEGIN''"] sbind_def [of work])
        then show ?thesis using es(1) Inl \<open>se_answer env (sql_log w) (call ''BEGIN'') = Inr rows\<close>
          by (auto simp: log calls finished)
      next
        case (Inr rows')
        with r \<open>x = Inr u\<close> \<open>se_answer env (sql_log w) (call ''BEGIN'') = Inr rows\<close> work
        have "r = Inr () \<and> w' = sent ''COMMIT'' v"
          by (auto simp: catch_op_def step sbind_def [of "pg_run env True ''BEGIN''"] sbind_def [of work])
        then show ?thesis using es(1) Inr \<open>se_answer env (sql_log w) (call ''BEGIN'') = Inr rows\<close> full(2)
          by (auto simp: log calls finished comp_def)
      qed
    qed
  qed
qed (use run in \<open>auto simp: pg_withTransaction_def sql_connect_def sbind_def\<close>)

text \<open>All the statements of a creation.\<close>

definition pg_complete :: "obj \<Rightarrow> obj \<Rightarrow> string list \<Rightarrow> bool" where
  "pg_complete config data texts \<longleftrightarrow> (\<exists>login pw roles ps tss.
     pg_login data [] config = Inr login \<and> pg_password data True = Inr pw \<and>
     pg_roles config data True = Inr roles \<and> pg_permissions config data True = Inr ps \<and>
     list_all2 (pg_privilege_texts login) ps tss \<and>
     texts = pg_create_text login (js_get config ''defaultLogin'' \<noteq> Bool False) pw # map (pg_grant_text login) roles @ concat tss)"

lemma grants_tx: "tx_run (\<lambda>_ ts. ts = map (pg_grant_text l) roles) (each_op (pg_grant env l) roles)"
proof -
  have one: "tx_run (\<lambda>_ ts. ts = [pg_grant_text l r]) (pg_grant env l r)" for r
    unfolding pg_grant_def pg_grant_text_def by (rule run_tx) simp
  have all: "concat tss = map (pg_grant_text l) rs" if "list_all2 (\<lambda>r ts. ts = [pg_grant_text l r]) rs tss" for rs tss
    using that by (induction rule: list_all2_induct) auto
  show ?thesis
  proof (rule tx_run_mono [OF tx_run_each [OF one]])
    fix ts assume "\<exists>tss. ts = concat tss \<and> list_all2 (\<lambda>r ts. ts = [pg_grant_text l r]) roles tss"
    then show "ts = map (pg_grant_text l) roles" by (elim exE conjE) (simp add: all)
  qed
qed

lemma create_outcome:
  fixes w w' :: "'b pg_world_scheme"
  assumes "pg_createRole env config data w = (r, w')"
  shows "\<exists>new. sql_log w' = sql_log w @ new \<and>
    (case r of Inl _ \<Rightarrow> committed NoTx new = [] | Inr _ \<Rightarrow> pg_complete config data (committed NoTx new))"
proof (cases "\<exists>login pw roles ps. pg_login data [] config = Inr login \<and> pg_password data True = Inr pw \<and>
    pg_roles config data True = Inr roles \<and> pg_permissions config data True = Inr ps")
  case True
  then obtain login pw roles ps where ok: "pg_login data [] config = Inr login" "pg_password data True = Inr pw"
    "pg_roles config data True = Inr roles" "pg_permissions config data True = Inr ps" by blast
  let ?b = "js_get config ''defaultLogin'' \<noteq> Bool False"
  define work :: "(unit, 'b pg_world_scheme) op" where
    "work = sbind (pg_run env True (pg_create_text login ?b pw)) (\<lambda>_. sbind (each_op (pg_grant env login) roles)
      (\<lambda>_. each_op (pg_applyPermission env config login) ps))"
  have "tx_run (\<lambda>_. pg_complete config data) work"
    unfolding work_def
  proof (rule tx_run_sbind [OF run_tx])
    show "pg_create_text login ?b pw \<notin> {''BEGIN'', ''COMMIT'', ''ROLLBACK''}" by (simp add: pg_create_text_def)
    fix ts assume ts: "ts = [pg_create_text login ?b pw]"
    show "tx_run (\<lambda>_ us. pg_complete config data (ts @ us)) (sbind (each_op (pg_grant env login) roles)
        (\<lambda>_. each_op (pg_applyPermission env config login) ps))"
    proof (rule tx_run_sbind [OF grants_tx])
      fix us assume us: "us = map (pg_grant_text login) roles"
      have "tx_run (\<lambda>_ vs. \<exists>tss. vs = concat tss \<and> list_all2 (pg_privilege_texts login) ps tss)
          (each_op (pg_applyPermission env config login) ps)"
        by (rule tx_run_each) (use permissions_permitted [OF ok(4)] pg_normalizedD(1) in \<open>blast intro: apply_tx\<close>)
      then show "tx_run (\<lambda>_ vs. pg_complete config data (ts @ us @ vs)) (each_op (pg_applyPermission env config login) ps)"
        by (rule tx_run_mono) (use ok ts us in \<open>auto simp: pg_complete_def\<close>)
    qed
  qed
  moreover obtain x v where t: "pg_withTransaction env work w = (x, v)" by (cases "pg_withTransaction env work w")
  ultimately obtain new where new: "sql_log v = sql_log w @ new"
    "case x of Inl _ \<Rightarrow> committed NoTx new = [] | Inr _ \<Rightarrow> pg_complete config data (committed NoTx new)"
    using transaction_outcome by blast
  have "pg_createRole env config data w = (case x of Inl e \<Rightarrow> (Inl e, v)
      | Inr _ \<Rightarrow> (Inr (Obj [(''login'', Str login), (''enabled'', Bool ?b)]), v))"
    using t unfolding pg_createRole_def ok Let_def sbind_basic pg_create_text_def [symmetric] work_def [symmetric]
    by (simp add: sbind_def ret_def split: sum.split)
  with assms new show ?thesis by (cases x) auto
next
  case False
  then have "\<exists>e. pg_createRole env config data w = (Inl e, w)"
    unfolding pg_createRole_def Let_def
    by (cases "pg_login data [] config"; cases "pg_password data True"; cases "pg_roles config data True";
        cases "pg_permissions config data True") simp_all
  with assms show ?thesis by auto
qed

lemma pool_outcome:
  "(\<exists>e. pg_createPool env config w = (Inl e, w)) \<or>
   (\<exists>w1. pg_createPool env config w = (Inr (), w1) \<and> sql_log w1 = sql_log w)"
  by (cases "case pe_tls env of None \<Rightarrow> Inr None | Some t \<Rightarrow> dbConnectorSslOptions t (js_get config ''tls'')")
    (auto simp: pg_createPool_def)

text \<open>
  C11: the creation of an account takes effect completely or not at all: what the server commits is
  the \<open>CREATE ROLE\<close> with one \<open>GRANT\<close> for each role and one statement for each permission, or nothing; and
  the connector answers success exactly when it is committed, unless closing the pool throws.
\<close>

theorem user_create_is_all_or_nothing:
  assumes "operation p = ''user.create''" "pg_execute env p w = (r, w')"
  shows "\<exists>new. sql_log w' = sql_log w @ new \<and>
    (committed NoTx new = [] \<or>
     pg_complete (as_obj (js_get (body p) ''config'')) (payload_part p ''data'') (committed NoTx new)) \<and>
    (\<forall>res. r = Inr res \<longrightarrow> (success res \<longleftrightarrow> committed NoTx new \<noteq> []))"
proof -
  let ?config = "as_obj (js_get (body p) ''config'')" and ?data = "payload_part p ''data''"
  let ?sources = "[js_get (body p) ''config'', coalesce (js_get (body p) ''data'') (Obj []), coalesce (js_get (body p) ''params'') (Obj [])]"
  have whole: "\<not> pg_complete c d []" for c d by (simp add: pg_complete_def)
  have unchanged: ?thesis if "w' = w" "\<And>res. r = Inr res \<Longrightarrow> \<not> success res"
    using that by auto
  consider (missing) "\<not> truthy (js_get ?config ''connectionString'')"
    | (pool) e where "truthy (js_get ?config ''connectionString'')" "pg_createPool env ?config w = (Inl e, w)"
    | (run) w1 where "truthy (js_get ?config ''connectionString'')" "pg_createPool env ?config w = (Inr (), w1)" "sql_log w1 = sql_log w"
    using pool_outcome [of env ?config w] by blast
  then show ?thesis
  proof cases
    case missing
    with assms(2) show ?thesis by (intro unchanged) (auto simp: pg_execute_def Let_def ret_def result_fail_def)
  next
    case pool
    with assms(2) show ?thesis by (intro unchanged) (auto simp: pg_execute_def Let_def sbind_def)
  next
    case run
    obtain x v where create: "pg_createRole env ?config ?data w1 = (x, v)" by (cases "pg_createRole env ?config ?data w1")
    from create_outcome [OF this] run(3) obtain new where new: "sql_log v = sql_log w @ new"
      "case x of Inl _ \<Rightarrow> committed NoTx new = [] | Inr _ \<Rightarrow> pg_complete ?config ?data (committed NoTx new)" by auto
    have "pg_executeWithPool env (operation p) ?config ?data (payload_part p ''params'') w1 = (x, v)"
      using create by (simp add: pg_executeWithPool_def assms(1))
    then have masked: "\<exists>res. answer_masked ?sources (pg_executeWithPool env (operation p) ?config ?data (payload_part p ''params'')) w1 =
        (Inr res, v) \<and> (success res \<longleftrightarrow> (\<exists>d. x = Inr d))"
      by (cases x) (simp_all add: answer_masked_def catch_op_def sbind_def ret_def result_ok_def result_fail_def)
    have "pg_execute env p w = finally_op (answer_masked ?sources
        (pg_executeWithPool env (operation p) ?config ?data (payload_part p ''params''))) (sql_close (sql_env.truncate env)) w1"
      using run(1,2) unfolding pg_execute_def Let_def by (simp add: sbind_def)
    with assms(2) masked have "w' = v" "\<And>res. r = Inr res \<Longrightarrow> success res \<longleftrightarrow> (\<exists>d. x = Inr d)"
      by (auto simp: finally_op_def sql_close_def may_fail_def ret_def raise_def split: option.splits)
    with new whole show ?thesis by (cases x) auto
  qed
qed

section \<open>Searching the namespace\<close>

text \<open>The patterns of \<open>LIKE\<close>.\<close>

fun like :: "string \<Rightarrow> string \<Rightarrow> bool" where
  "like [] s = (s = [])"
| "like (p # ps) [] = (p = CHR ''%'' \<and> like ps [])"
| "like (p # ps) (c # s) =
     (if p = CHR ''%'' then like ps (c # s) \<or> like (p # ps) s
      else if p = CHR ''_'' then like ps s
      else if p = CHR 0x5C then (case ps of e # qs \<Rightarrow> e = c \<and> like qs s | [] \<Rightarrow> False)
      else p = c \<and> like ps s)"

lemma like_plain: "set p \<inter> {CHR ''%'', CHR ''_'', CHR 0x5C} = {} \<Longrightarrow> like (p @ q) (p @ s) = like q s"
  by (induction p) auto

lemma like_any: "like ''%'' s"
  by (induction s) auto

text \<open>
  The search for groups matches the prefix of the managed namespace with \<open>LIKE\<close>, where the underscore
  of the prefix stands for any character: a role that merely resembles the prefix is found, although the
  other operations refuse it.
\<close>

theorem search_leaves_namespace:
  assumes "\<not> pg_fullRoleControl config" "pg_managedRolePrefix config = a @ CHR ''_'' # b"
    and "set (a @ b) \<inter> {CHR ''%'', CHR ''_'', CHR 0x5C} = {}"
    and "name = a @ c # b @ rest" "c \<noteq> CHR ''_''" "trim name = name"
  shows "\<exists>call. map fst (sql_log (snd (pg_searchGroupRoles env config w))) = map fst (sql_log w) @ [call] \<and>
    map snd (sc_params call) = [Str (pg_managedRolePrefix config @ ''%'')] \<and>
    like (pg_managedRolePrefix config @ ''%'') name \<and>
    (\<exists>e. pg_roleName [(''role'', Str name)] [] config = Inl e)"
proof -
  have plain: "set a \<inter> {CHR ''%'', CHR ''_'', CHR 0x5C} = {}" "set b \<inter> {CHR ''%'', CHR ''_'', CHR 0x5C} = {}"
    using assms(3) by auto
  have "like (a @ CHR ''_'' # b @ ''%'') (a @ c # b @ rest)"
    unfolding like_plain [OF plain(1)] using like_plain [OF plain(2)] like_any by simp
  moreover have "\<not> starts_with (a @ CHR ''_'' # b) (a @ c # b @ rest)"
    using assms(5) by (auto simp: starts_with_split)
  then have "\<exists>e. pg_roleName [(''role'', Str name)] [] config = Inl e"
    using assms(1,2,4,6) by (auto simp: pg_roleName_def role_value_def js_get_def checked_identifier_def pg_validateIdentifier_def)
  ultimately show ?thesis
    using assms(1,2,4)
    by (simp add: pg_searchGroupRoles_def pg_query_def sql_send_def sbind_def Let_def ret_def split: sum.split)
qed

section \<open>Witnesses\<close>

definition demo_pg_env :: "(string \<Rightarrow> bool) \<Rightarrow> pg_env" where
  "demo_pg_env refused = sql_env.extend (demo_sql_env refused) \<lparr>pe_tls = None\<rparr>"

definition demo_pg_world :: pg_world where
  "demo_pg_world = \<lparr>sql_log = [], pg_pools = []\<rparr>"

definition demo_create :: connector_payload where
  "demo_create =
     \<lparr>operation = ''user.create'', targetSystem = ''pg'',
      body = [(''config'', Obj [(''connectionString'', Str ''pg:''), (''defaultDatabase'', Str ''appdb''),
          (''allowedPermissions'', Arr [Obj [(''action'', Str ''GRANT''), (''permission'', Str ''connect'')]])]),
        (''data'', Obj [(''login'', Str ''ada''), (''password'', Str ''pw''), (''roles'', Arr [Str ''idm_read'']),
          (''permissions'', Arr [Obj [(''action'', Str ''GRANT''), (''permission'', Str ''connect'')]])])]\<rparr>"

lemma demo_create_runs:
  "map (\<lambda>e. sc_text (fst e)) (sql_log (snd (pg_execute (demo_pg_env (\<lambda>_. False)) demo_create demo_pg_world))) =
     [''BEGIN'', pg_create_text ''ada'' True ''pw'', pg_grant_text ''ada'' ''idm_read'',
      ''GRANT CONNECT ON DATABASE '' @ pg_ident ''appdb'' @ '' TO '' @ pg_ident ''ada'', ''COMMIT'']"
  "(case fst (pg_execute (demo_pg_env (\<lambda>_. False)) demo_create demo_pg_world) of Inr r \<Rightarrow> success r | _ \<Rightarrow> False)"
  by code_simp+

theorem user_create_is_all_or_nothing_witness:
  "pg_complete (as_obj (js_get (body demo_create) ''config'')) (payload_part demo_create ''data'')
     (committed NoTx (sql_log (snd (pg_execute (demo_pg_env (\<lambda>_. False)) demo_create demo_pg_world))))"
proof -
  let ?run = "pg_execute (demo_pg_env (\<lambda>_. False)) demo_create demo_pg_world"
  from demo_create_runs(2) obtain res w' where run: "?run = (Inr res, w')" and ok: "success res"
    by (cases ?run; cases "fst ?run") auto
  have "operation demo_create = ''user.create''" by (simp add: demo_create_def)
  from user_create_is_all_or_nothing [OF this run] ok show ?thesis
    unfolding run by (auto simp: demo_pg_world_def)
qed

theorem search_leaves_namespace_witness:
  "like (pg_managedRolePrefix [] @ ''%'') ''idmin'' \<and> (\<exists>e. pg_roleName [(''role'', Str ''idmin'')] [] [] = Inl e)"
proof -
  have "pg_managedRolePrefix [] = ''idm'' @ CHR ''_'' # []" by (simp add: pg_managedRolePrefix_def js_get_def)
  moreover have "\<not> pg_fullRoleControl []" by (simp add: pg_fullRoleControl_def js_get_def)
  ultimately show ?thesis
    using search_leaves_namespace [of "[]" "''idm''" "[]" "''idmin''" "CHR ''i''" "''n''" "demo_pg_env (\<lambda>_. False)" demo_pg_world]
    by (auto simp: trim_def)
qed

end
