(* ===== verification/MssqlLogins.thy ===== *)
theory MssqlLogins
  imports SqlText Registry
begin

text \<open>
  Models \<open>connectors/implementations/mssql-login-connector/mssql-login-connector.service.ts\<close>:
  accounts and groups as logins and roles of a SQL Server. The server's answers are arguments; what
  it reads in a batch is specified by \<open>sql_lex\<close> with the brackets of T-SQL.
\<close>

section \<open>Reading the configuration and the event\<close>

definition ms_validateIdentifier :: "string \<Rightarrow> string \<Rightarrow> string result" where
  "ms_validateIdentifier s label = checked_identifier 128 s label"

definition ms_bracket :: "string \<Rightarrow> string" where
  "ms_bracket s = quoted_in (CHR ''['') (CHR '']'') s"

definition ms_literal :: "string \<Rightarrow> string" where
  "ms_literal s = CHR ''N'' # quoted_in (CHR 0x27) (CHR 0x27) s"

definition ms_prefixedValue :: "string \<Rightarrow> obj \<Rightarrow> bool \<Rightarrow> string \<Rightarrow> string result" where
  "ms_prefixedValue v config requireValid label =
     (let login = trim (string_of_val (coalesce (js_get config ''loginPrefix'') (Str [])) @ v) in
      if requireValid then ms_validateIdentifier login label else Inr login)"

definition ms_login :: "obj \<Rightarrow> obj \<Rightarrow> obj \<Rightarrow> string result" where
  "ms_login data params config =
     (case login_value data params of
        None \<Rightarrow> Inl (JsError ''Missing login for MSSQL operation'')
      | Some v \<Rightarrow> ms_prefixedValue v config True ''MSSQL login'')"

definition ms_password :: "obj \<Rightarrow> bool \<Rightarrow> string result" where
  "ms_password data required =
     (case firstString [js_get data ''newValue'', js_get data ''password''] of
        None \<Rightarrow> if required then Inl (JsError ''Missing password for MSSQL operation'') else Inr []
      | Some v \<Rightarrow> Inr v)"

definition ms_roleName :: "obj \<Rightarrow> obj \<Rightarrow> string result" where
  "ms_roleName data params =
     (case role_value data params of
        None \<Rightarrow> Inl (JsError ''Missing role for MSSQL operation'')
      | Some v \<Rightarrow> ms_validateIdentifier v ''MSSQL role'')"

definition ms_database :: "obj \<Rightarrow> obj \<Rightarrow> string result" where
  "ms_database config data =
     ms_validateIdentifier (or_else (firstString [js_get data ''database'', js_get config ''defaultDatabase'']) ''master'')
       ''MSSQL database''"

definition ms_roles :: "obj \<Rightarrow> obj \<Rightarrow> bool \<Rightarrow> string list result" where
  "ms_roles config data includeDefaults =
     ebind (requested_roles ''defaultDatabaseRoles'' config data includeDefaults)
       (map_exn (\<lambda>role. ms_validateIdentifier role ''MSSQL role''))"

section \<open>Permissions\<close>

record ms_permission =
  mp_action :: string
  mp_name :: string
  mp_scope :: string

definition ms_permissionAction :: "jsval \<Rightarrow> string result" where
  "ms_permissionAction v =
     (if v = Str ''GRANT'' then Inr ''GRANT'' else if v = Str ''DENY'' then Inr ''DENY''
      else if v = Str ''REVOKE'' then Inr ''REVOKE'' else Inl (JsError ''Invalid MSSQL permission action''))"

definition ms_permissionName :: "jsval \<Rightarrow> string result" where
  "ms_permissionName v = checked_permission v (JsError ''Invalid MSSQL permission name'')"

definition ms_permissionScopeValue :: "jsval \<Rightarrow> string result" where
  "ms_permissionScopeValue v =
     (let scope = or_else (firstString [v]) ''DATABASE'' in
      if scope = ''DATABASE'' then Inr scope
      else if starts_with ''SCHEMA::'' scope
      then ebind (ms_validateIdentifier (drop 8 scope) ''MSSQL schema'') (\<lambda>_. Inr scope)
      else if starts_with ''OBJECT::'' scope
      then let parts = split_on (CHR ''.'') (drop 8 scope) in
        if length parts \<noteq> 2 then Inl (JsError ''Invalid MSSQL object scope'')
        else ebind (map_exn (\<lambda>part. ms_validateIdentifier part ''MSSQL object'') parts) (\<lambda>_. Inr scope)
      else Inl (JsError ''Invalid MSSQL permission scope''))"

definition ms_permissionScope :: "string \<Rightarrow> string \<Rightarrow> string result" where
  "ms_permissionScope scope db =
     ebind (ms_permissionScopeValue (Str scope)) (\<lambda>v.
       if v = ''DATABASE'' then Inr (''ON DATABASE::'' @ ms_bracket db)
       else if starts_with ''SCHEMA::'' v then Inr (''ON SCHEMA::'' @ ms_bracket (drop 8 v))
       else (case split_on (CHR ''.'') (drop 8 v) of
          schema # name # _ \<Rightarrow> Inr (''ON OBJECT::'' @ ms_bracket schema @ ''.'' @ ms_bracket name)
        | _ \<Rightarrow> Inl type_error))"

definition ms_normalized :: "jsval \<Rightarrow> ms_permission result" where
  "ms_normalized v =
     (if \<not> is_record v then Inl (JsError ''Invalid MSSQL permission'')
      else let item = as_obj v in
        ebind (ms_permissionAction (js_get item ''action'')) (\<lambda>action.
        ebind (ms_permissionName (js_get item ''permission'')) (\<lambda>name.
        ebind (ms_permissionScopeValue (js_get item ''scope'')) (\<lambda>scope.
        Inr \<lparr>mp_action = action, mp_name = name, mp_scope = scope\<rparr>))))"

definition ms_permissions :: "obj \<Rightarrow> obj \<Rightarrow> bool \<Rightarrow> ms_permission list result" where
  "ms_permissions config data includeDefaults =
     ebind (if includeDefaults then spread_list (coalesce (js_get config ''defaultPermissions'') (Arr [])) else Inr []) (\<lambda>ds.
     map_exn ms_normalized (ds @ array_of (js_get data ''permissions'')))"

section \<open>Statements\<close>

text \<open>\<open>ms_connections\<close> holds the connection strings that were used.\<close>

record ms_world = sql_world +
  ms_connections :: "string list"

definition drop_semicolon :: "string \<Rightarrow> string" where
  "drop_semicolon s = (if s \<noteq> [] \<and> last s = CHR '';'' then butlast s else s)"

definition ms_connectionString :: "obj \<Rightarrow> string result" where
  "ms_connectionString config =
     (let tls = as_obj (js_get config ''tls'');
          switch = (\<lambda>v. if truthy v then ''true'' else ''false'');
          parts = (if js_get config ''statementTimeoutMs'' \<noteq> Undef
                then [''Request Timeout='' @ string_of_val (js_get config ''statementTimeoutMs'')] else []) @
            (if js_get tls ''encrypt'' \<noteq> Undef then [''Encrypt='' @ switch (js_get tls ''encrypt'')] else []) @
            (if js_get tls ''trustServerCertificate'' \<noteq> Undef
             then [''TrustServerCertificate='' @ switch (js_get tls ''trustServerCertificate'')] else []) in
      case coalesce (js_get config ''connectionString'') (Str []) of
        Str s \<Rightarrow> Inr (join_with '';'' (map drop_semicolon (filter (\<lambda>part. part \<noteq> []) (map trim (s # parts)))))
      | _ \<Rightarrow> Inl type_error)"

definition ms_query :: "sql_env \<Rightarrow> string \<Rightarrow> (string \<times> jsval) list \<Rightarrow> (jsval list, 'b ms_world_scheme) op" where
  "ms_query env text params = sql_send env \<lparr>sc_text = text, sc_params = params, sc_tx = False\<rparr>"

definition ms_exec :: "sql_env \<Rightarrow> string \<Rightarrow> (unit, 'b ms_world_scheme) op" where
  "ms_exec env statement = sbind (ms_query env statement []) (\<lambda>_. ret ())"

definition ms_connect :: "sql_env \<Rightarrow> obj \<Rightarrow> (unit, 'b ms_world_scheme) op" where
  "ms_connect env config =
     sbind (lift_result (ms_connectionString config)) (\<lambda>s.
     sbind (modify (\<lambda>w. w\<lparr>ms_connections := ms_connections w @ [s]\<rparr>)) (\<lambda>_. sql_connect env))"

definition ms_use :: "string \<Rightarrow> string" where
  "ms_use db = ''USE '' @ ms_bracket db @ ''; ''"

definition ms_applyPermission :: "sql_env \<Rightarrow> string \<Rightarrow> string \<Rightarrow> ms_permission \<Rightarrow> (unit, 'b ms_world_scheme) op" where
  "ms_applyPermission env db login p =
     sbind (lift_result (ms_permissionScope (mp_scope p) db)) (\<lambda>scope.
     ms_exec env (ms_use db @ mp_action p @ '' '' @ mp_name p @ '' '' @ scope @ '' '' @
       (if mp_action p = ''REVOKE'' then ''FROM'' else ''TO'') @ '' '' @ ms_bracket login))"

definition ms_alter :: "string \<Rightarrow> bool \<Rightarrow> string" where
  "ms_alter login enabled = ''ALTER LOGIN '' @ ms_bracket login @ '' '' @ (if enabled then ''ENABLE'' else ''DISABLE'')"

definition ms_member :: "string \<Rightarrow> string \<Rightarrow> bool \<Rightarrow> string \<Rightarrow> string" where
  "ms_member db role add login =
     ms_use db @ ''ALTER ROLE '' @ ms_bracket role @ '' '' @ (if add then ''ADD'' else ''DROP'') @ '' MEMBER '' @ ms_bracket login"

section \<open>Operations\<close>

definition ms_createLogin :: "sql_env \<Rightarrow> obj \<Rightarrow> obj \<Rightarrow> (jsval, 'b ms_world_scheme) op" where
  "ms_createLogin env config data =
     sbind (lift_result (ms_login data [] config)) (\<lambda>login.
     sbind (lift_result (ms_password data True)) (\<lambda>pw.
     sbind (lift_result (ms_database config data)) (\<lambda>db.
     let enabled = js_get data ''enabled'' \<noteq> Bool False in
     sbind (ms_exec env (''CREATE LOGIN '' @ ms_bracket login @ '' WITH PASSWORD = '' @ ms_literal pw @ '', CHECK_POLICY = ON'')) (\<lambda>_.
     sbind (ms_exec env (ms_use db @ ''IF USER_ID('' @ ms_literal login @ '') IS NULL CREATE USER '' @ ms_bracket login @
       '' FOR LOGIN '' @ ms_bracket login)) (\<lambda>_.
     sbind (lift_result (ms_roles config data True)) (\<lambda>roles.
     sbind (each_op (\<lambda>role. ms_exec env (ms_member db role True login)) roles) (\<lambda>_.
     sbind (lift_result (ms_permissions config data True)) (\<lambda>permissions.
     sbind (each_op (ms_applyPermission env db login) permissions) (\<lambda>_.
     sbind (if \<not> enabled then ms_exec env (ms_alter login False) else ret ()) (\<lambda>_.
     ret (Obj [(''login'', Str login), (''database'', Str db), (''enabled'', Bool enabled)])))))))))))"

definition ms_updateLogin :: "sql_env \<Rightarrow> obj \<Rightarrow> obj \<Rightarrow> obj \<Rightarrow> (jsval, 'b ms_world_scheme) op" where
  "ms_updateLogin env config data params =
     sbind (lift_result (ms_login data params config)) (\<lambda>login.
     sbind (lift_result (ms_database config data)) (\<lambda>db.
     let enabled = (case js_get data ''enabled'' of Bool b \<Rightarrow> Some b | _ \<Rightarrow> None) in
     sbind (case enabled of Some b \<Rightarrow> ms_exec env (ms_alter login b) | None \<Rightarrow> ret ()) (\<lambda>_.
     sbind (lift_result (ms_roles config data False)) (\<lambda>roles.
     sbind (each_op (\<lambda>role. ms_exec env (ms_member db role True login)) roles) (\<lambda>_.
     sbind (lift_result (ms_permissions config data False)) (\<lambda>permissions.
     sbind (each_op (ms_applyPermission env db login) permissions) (\<lambda>_.
     ret (Obj [(''login'', Str login), (''database'', Str db),
       (''changed'', Bool (enabled \<noteq> None \<or> roles \<noteq> [] \<or> permissions \<noteq> []))]))))))))"

definition ms_deleteLogin :: "sql_env \<Rightarrow> obj \<Rightarrow> obj \<Rightarrow> obj \<Rightarrow> (jsval, 'b ms_world_scheme) op" where
  "ms_deleteLogin env config data params =
     sbind (lift_result (ms_login data params config)) (\<lambda>login.
     sbind (lift_result (ms_database config data)) (\<lambda>db.
     if \<not> truthy (js_get config ''physicalDeleteEnabled'')
     then sbind (ms_exec env (ms_alter login False)) (\<lambda>_.
       ret (Obj [(''login'', Str login), (''enabled'', Bool False), (''deleted'', Bool False)]))
     else sbind (ms_exec env (ms_use db @ ''IF USER_ID('' @ ms_literal login @ '') IS NOT NULL DROP USER '' @ ms_bracket login)) (\<lambda>_.
       sbind (ms_exec env (''IF SUSER_ID('' @ ms_literal login @ '') IS NOT NULL DROP LOGIN '' @ ms_bracket login)) (\<lambda>_.
       ret (Obj [(''login'', Str login), (''database'', Str db), (''deleted'', Bool True)])))))"

definition ms_setLoginEnabled :: "sql_env \<Rightarrow> obj \<Rightarrow> obj \<Rightarrow> obj \<Rightarrow> bool \<Rightarrow> (jsval, 'b ms_world_scheme) op" where
  "ms_setLoginEnabled env config data params enabled =
     sbind (lift_result (ms_login data params config)) (\<lambda>login.
     sbind (ms_exec env (ms_alter login enabled)) (\<lambda>_.
     ret (Obj [(''login'', Str login), (''enabled'', Bool enabled)])))"

definition ms_changePassword :: "sql_env \<Rightarrow> obj \<Rightarrow> obj \<Rightarrow> obj \<Rightarrow> (jsval, 'b ms_world_scheme) op" where
  "ms_changePassword env config data params =
     sbind (lift_result (ms_login data params config)) (\<lambda>login.
     sbind (lift_result (ms_password data True)) (\<lambda>pw.
     sbind (ms_exec env (''ALTER LOGIN '' @ ms_bracket login @ '' WITH PASSWORD = '' @ ms_literal pw)) (\<lambda>_.
     ret (Obj [(''login'', Str login), (''passwordChanged'', Bool True)]))))"

definition ms_getLogin :: "sql_env \<Rightarrow> obj \<Rightarrow> obj \<Rightarrow> obj \<Rightarrow> (jsval, 'b ms_world_scheme) op" where
  "ms_getLogin env config data params =
     sbind (lift_result (ms_login data params config)) (\<lambda>login.
     sbind (ms_query env ''SELECT name AS login, is_disabled AS isDisabled FROM sys.sql_logins WHERE name = @login''
       [(''login'', Str login)]) (\<lambda>rows. ret (first_row rows)))"

definition ms_searchLogins :: "sql_env \<Rightarrow> obj \<Rightarrow> obj \<Rightarrow> (jsval, 'b ms_world_scheme) op" where
  "ms_searchLogins env config data =
     sbind (lift_result (ms_prefixedValue (case js_get data ''login'' of Str s \<Rightarrow> s | _ \<Rightarrow> []) config False ''MSSQL login'')) (\<lambda>start.
     sbind (ms_query env
       (''SELECT TOP 200 name AS login, is_disabled AS isDisabled FROM sys.sql_logins '' @ ''WHERE name LIKE @prefix ORDER BY name'')
       [(''prefix'', Str (start @ ''%''))]) (\<lambda>rows. ret (found_rows rows)))"

definition ms_createRole :: "sql_env \<Rightarrow> obj \<Rightarrow> obj \<Rightarrow> (jsval, 'b ms_world_scheme) op" where
  "ms_createRole env config data =
     sbind (lift_result (ms_roleName data [])) (\<lambda>role.
     sbind (lift_result (ms_database config data)) (\<lambda>db.
     sbind (ms_exec env (ms_use db @ ''IF DATABASE_PRINCIPAL_ID('' @ ms_literal role @ '') IS NULL CREATE ROLE '' @ ms_bracket role)) (\<lambda>_.
     ret (Obj [(''role'', Str role), (''database'', Str db), (''created'', Bool True)]))))"

definition ms_deleteRole :: "sql_env \<Rightarrow> obj \<Rightarrow> obj \<Rightarrow> obj \<Rightarrow> (jsval, 'b ms_world_scheme) op" where
  "ms_deleteRole env config data params =
     sbind (lift_result (ms_roleName data params)) (\<lambda>role.
     sbind (lift_result (ms_database config data)) (\<lambda>db.
     if \<not> truthy (js_get config ''physicalRoleDeleteEnabled'')
     then raise (JsError ''MSSQL DROP ROLE requires physicalRoleDeleteEnabled=true'')
     else sbind (ms_exec env (ms_use db @ ''IF DATABASE_PRINCIPAL_ID('' @ ms_literal role @ '') IS NOT NULL DROP ROLE '' @
         ms_bracket role)) (\<lambda>_.
       ret (Obj [(''role'', Str role), (''database'', Str db), (''deleted'', Bool True)]))))"

definition ms_setRoleMembership :: "sql_env \<Rightarrow> obj \<Rightarrow> obj \<Rightarrow> obj \<Rightarrow> bool \<Rightarrow> (jsval, 'b ms_world_scheme) op" where
  "ms_setRoleMembership env config data params add =
     sbind (lift_result (ms_login data params config)) (\<lambda>login.
     sbind (lift_result (ms_roleName data params)) (\<lambda>role.
     sbind (lift_result (ms_database config data)) (\<lambda>db.
     sbind (ms_exec env (ms_member db role add login)) (\<lambda>_.
     ret (Obj [(''login'', Str login), (''role'', Str role), (''database'', Str db), (''member'', Bool add)])))))"

definition ms_getRole :: "sql_env \<Rightarrow> obj \<Rightarrow> obj \<Rightarrow> obj \<Rightarrow> (jsval, 'b ms_world_scheme) op" where
  "ms_getRole env config data params =
     sbind (lift_result (ms_roleName data params)) (\<lambda>role.
     sbind (lift_result (ms_database config data)) (\<lambda>db.
     sbind (ms_query env (ms_use db @ ''SELECT name AS role FROM sys.database_principals WHERE type = '' @ quoted ''R'' @ '' AND name = @role'')
       [(''role'', Str role)]) (\<lambda>rows. ret (first_row rows))))"

definition ms_searchRoles :: "sql_env \<Rightarrow> obj \<Rightarrow> obj \<Rightarrow> (jsval, 'b ms_world_scheme) op" where
  "ms_searchRoles env config data =
     sbind (lift_result (ms_database config data)) (\<lambda>db.
     sbind (ms_query env (ms_use db @ ''SELECT TOP 200 name AS role FROM sys.database_principals WHERE type = '' @ quoted ''R'' @
       '' ORDER BY name'') []) (\<lambda>rows. ret (found_rows rows)))"

definition ms_schema :: jsval where
  "ms_schema =
     (let plain = (\<lambda>n t required. Obj [(''name'', Str n), (''type'', Str t), (''required'', Bool required)]) in
      Obj [(''objectClasses'', Arr
       [Obj [(''name'', Str ''user''), (''attributes'', Arr
          [plain ''login'' ''string'' True, plain ''password'' ''string'' True, plain ''database'' ''string'' False,
           plain ''roles'' ''array'' False, plain ''permissions'' ''array'' False, plain ''enabled'' ''boolean'' False])],
        Obj [(''name'', Str ''group''), (''attributes'', Arr [plain ''name'' ''string'' True])]])])"

definition ms_getSchema :: connector_result where
  "ms_getSchema = result_ok ms_schema"

definition ms_executeWithPool ::
  "sql_env \<Rightarrow> string \<Rightarrow> obj \<Rightarrow> obj \<Rightarrow> obj \<Rightarrow> (jsval, 'b ms_world_scheme) op" where
  "ms_executeWithPool env op config data params =
     (if op = ''system.test'' then sbind (ms_query env ''SELECT 1 AS ok'' []) (\<lambda>_. ret (Obj [(''reachable'', Bool True)]))
      else if op = ''schema.get'' then ret (result_data ms_getSchema)
      else if op = ''user.create'' then ms_createLogin env config data
      else if op = ''user.update'' then ms_updateLogin env config data params
      else if op = ''user.delete'' then ms_deleteLogin env config data params
      else if op \<in> {''user.disable'', ''user.lock''} then ms_setLoginEnabled env config data params False
      else if op \<in> {''user.enable'', ''user.unlock''} then ms_setLoginEnabled env config data params True
      else if op = ''user.changePassword'' then ms_changePassword env config data params
      else if op \<in> {''user.get'', ''user.resolve''} then ms_getLogin env config data params
      else if op \<in> {''user.search'', ''sync.full'', ''sync.incremental''} then ms_searchLogins env config data
      else if op = ''group.create'' then ms_createRole env config data
      else if op = ''group.update'' then sbind (lift_result (ms_roleName data params)) (\<lambda>role.
        ret (Obj [(''role'', Str role), (''changed'', Bool False)]))
      else if op = ''group.delete'' then ms_deleteRole env config data params
      else if op = ''group.addMember'' then ms_setRoleMembership env config data params True
      else if op = ''group.removeMember'' then ms_setRoleMembership env config data params False
      else if op = ''group.get'' then ms_getRole env config data params
      else if op = ''group.search'' then ms_searchRoles env config data
      else raise (JsError (''Unsupported MSSQL login operation: '' @ op)))"

definition ms_execute :: "sql_env \<Rightarrow> connector_payload \<Rightarrow> (connector_result, 'b ms_world_scheme) op" where
  "ms_execute env p =
     (let config = as_obj (js_get (body p) ''config''); data = payload_part p ''data''; params = payload_part p ''params'' in
      if \<not> truthy (js_get config ''connectionString'') then ret (result_fail ''Missing MSSQL connectionString'')
      else sbind (ms_connect env config) (\<lambda>_.
        finally_op
          (answer_masked [js_get (body p) ''config'', coalesce (js_get (body p) ''data'') (Obj []),
              coalesce (js_get (body p) ''params'') (Obj [])]
            (ms_executeWithPool env (operation p) config data params))
          (sql_close env)))"

definition ms_testConnection :: "sql_env \<Rightarrow> jsval \<Rightarrow> (bool \<times> string, 'b ms_world_scheme) op" where
  "ms_testConnection env cfg =
     (if \<not> truthy (js_get (as_obj cfg) ''connectionString'') then ret (False, ''Missing MSSQL connectionString'')
      else catch_op
        (sbind (ms_connect env (as_obj cfg)) (\<lambda>_.
         finally_op (sbind (ms_query env ''SELECT 1 AS ok'' []) (\<lambda>_. ret (True, ''MSSQL login connection OK''))) (sql_close env)))
        (\<lambda>e. ret (False, ''MSSQL login connection failed: '' @ safeConnectorErrorMessage e [cfg])))"

definition MSSQL_PARTIAL_OPERATIONS :: "(string \<times> string) list" where
  "MSSQL_PARTIAL_OPERATIONS =
     [(''user.delete'', ''Default mapping is safe disable (ALTER LOGIN DISABLE); '' @
         ''physical DROP USER/DROP LOGIN requires physicalDeleteEnabled=true.''),
      (''group.update'', ''MSSQL role rename is out of first connector scope.''),
      (''group.delete'', ''DROP ROLE requires physicalRoleDeleteEnabled=true; otherwise role delete is rejected.'')]"

definition MSSQL_UNSUPPORTED_OPERATIONS :: "(string \<times> string) list" where
  "MSSQL_UNSUPPORTED_OPERATIONS =
     (let attributes = ''MSSQL login attribute mapping is not supported.'' in
      [(''user.addAttributes'', attributes), (''user.removeAttributes'', attributes)])"

definition ms_connector :: "sql_env \<Rightarrow> 'b ms_world_scheme connector" where
  "ms_connector env =
     \<lparr>conn_name = ''mssql-login'', conn_execute = ms_execute env, conn_testConnection = ms_testConnection env,
      conn_getCapabilities = Some (createConnectorCapabilities MSSQL_PARTIAL_OPERATIONS id MSSQL_UNSUPPORTED_OPERATIONS),
      conn_getSchema = Some (\<lambda>_. ret ms_getSchema), conn_sync = None\<rparr>"

section \<open>The statements that are meant\<close>

datatype ms_object = MsDatabase string | MsSchema string | MsObject string string

datatype ms_statement =
    MsCreateLogin string string
  | MsCreateUser string string
  | MsMember string string bool string
  | MsSetLogin string bool
  | MsSetPassword string string
  | MsDropUser string string
  | MsDropLogin string
  | MsCreateRole string string
  | MsDropRole string string
  | MsPrivilege string string string ms_object string

definition use_tokens :: "string \<Rightarrow> sql_token list" where
  "use_tokens db = [SqlWord ''USE'', QIdent db, Punct (CHR '';'')]"

definition if_tokens :: "string \<Rightarrow> string \<Rightarrow> sql_token list" where
  "if_tokens f s = [SqlWord ''IF'', SqlWord f, Punct (CHR ''(''), SqlStr s, Punct (CHR '')''), SqlWord ''IS'']"

fun ms_object_tokens :: "ms_object \<Rightarrow> sql_token list" where
  "ms_object_tokens (MsDatabase d) = [SqlWord ''DATABASE'', Punct (CHR '':''), Punct (CHR '':''), QIdent d]"
| "ms_object_tokens (MsSchema s) = [SqlWord ''SCHEMA'', Punct (CHR '':''), Punct (CHR '':''), QIdent s]"
| "ms_object_tokens (MsObject s n) =
     [SqlWord ''OBJECT'', Punct (CHR '':''), Punct (CHR '':''), QIdent s, Punct (CHR ''.''), QIdent n]"

fun ms_tokens :: "ms_statement \<Rightarrow> sql_token list" where
  "ms_tokens (MsCreateLogin l pw) =
     [SqlWord ''CREATE'', SqlWord ''LOGIN'', QIdent l, SqlWord ''WITH'', SqlWord ''PASSWORD'', Punct (CHR ''=''), SqlStr pw,
      Punct (CHR '',''), SqlWord ''CHECK_POLICY'', Punct (CHR ''=''), SqlWord ''ON'']"
| "ms_tokens (MsCreateUser db l) =
     use_tokens db @ if_tokens ''USER_ID'' l @ [SqlWord ''NULL'', SqlWord ''CREATE'', SqlWord ''USER'', QIdent l,
       SqlWord ''FOR'', SqlWord ''LOGIN'', QIdent l]"
| "ms_tokens (MsMember db r add l) =
     use_tokens db @ [SqlWord ''ALTER'', SqlWord ''ROLE'', QIdent r, SqlWord (if add then ''ADD'' else ''DROP''),
       SqlWord ''MEMBER'', QIdent l]"
| "ms_tokens (MsSetLogin l b) =
     [SqlWord ''ALTER'', SqlWord ''LOGIN'', QIdent l, SqlWord (if b then ''ENABLE'' else ''DISABLE'')]"
| "ms_tokens (MsSetPassword l pw) =
     [SqlWord ''ALTER'', SqlWord ''LOGIN'', QIdent l, SqlWord ''WITH'', SqlWord ''PASSWORD'', Punct (CHR ''=''), SqlStr pw]"
| "ms_tokens (MsDropUser db l) =
     use_tokens db @ if_tokens ''USER_ID'' l @ [SqlWord ''NOT'', SqlWord ''NULL'', SqlWord ''DROP'', SqlWord ''USER'', QIdent l]"
| "ms_tokens (MsDropLogin l) =
     if_tokens ''SUSER_ID'' l @ [SqlWord ''NOT'', SqlWord ''NULL'', SqlWord ''DROP'', SqlWord ''LOGIN'', QIdent l]"
| "ms_tokens (MsCreateRole db r) =
     use_tokens db @ if_tokens ''DATABASE_PRINCIPAL_ID'' r @ [SqlWord ''NULL'', SqlWord ''CREATE'', SqlWord ''ROLE'', QIdent r]"
| "ms_tokens (MsDropRole db r) =
     use_tokens db @ if_tokens ''DATABASE_PRINCIPAL_ID'' r @ [SqlWord ''NOT'', SqlWord ''NULL'', SqlWord ''DROP'',
       SqlWord ''ROLE'', QIdent r]"
| "ms_tokens (MsPrivilege db a p obj l) =
     use_tokens db @ SqlWord a # sql_words p @ SqlWord ''ON'' # ms_object_tokens obj @
       [SqlWord (if a = ''REVOKE'' then ''FROM'' else ''TO''), QIdent l]"

section \<open>Reading back\<close>

interpretation ms_sql: sql_dialect tsql_quotes ms_bracket ms_literal
  by unfold_locales (auto simp: ms_bracket_def ms_literal_def intro: lexes_quoted lexes_text)

lemmas ms_words = ms_sql.reads
lemmas ms_reads = ms_sql.reads_name ms_sql.reads_text
lemmas ms_punct = ms_sql.punctuated

lemma ms_pieces:
  "lexes tsql_quotes ''='' [Punct (CHR ''='')]"
  "lexes tsql_quotes (ms_literal s @ '','') [SqlStr s, Punct (CHR '','')]"
  "lexes tsql_quotes f [SqlWord f] \<Longrightarrow>
    lexes tsql_quotes (f @ CHR ''('' # ms_literal s @ '')'') [SqlWord f, Punct (CHR ''(''), SqlStr s, Punct (CHR '')'')]"
  "lexes tsql_quotes q ts \<Longrightarrow> lexes tsql_quotes f [SqlWord f] \<Longrightarrow>
    lexes tsql_quotes (f @ ''::'' @ q) (SqlWord f # Punct (CHR '':'') # Punct (CHR '':'') # ts)"
  using ms_punct [OF _ lexes_Nil lexes_Nil, of "CHR ''=''"] ms_punct [OF _ ms_reads(2) lexes_Nil, of "CHR '',''" s]
    ms_punct [OF _ _ ms_punct [OF _ ms_reads(2) lexes_Nil, of "CHR '')''" s], of "CHR ''(''" f "[SqlWord f]"]
    ms_punct [OF _ _ ms_punct [OF _ lexes_Nil, of "CHR '':''" q ts], of "CHR '':''" f "[SqlWord f]"]
  by simp_all

lemma use_reads: "sql_lex tsql_quotes (ms_use db @ q) = map_option ((@) (use_tokens db)) (sql_lex tsql_quotes q)"
proof -
  have "lexes tsql_quotes (''USE'' @ CHR '' '' # ms_bracket db) ([SqlWord ''USE''] @ [QIdent db])"
    by (rule lexes_space) (use ms_words in simp_all)
  then have "lexes tsql_quotes ((''USE'' @ CHR '' '' # ms_bracket db) @ CHR '';'' # []) (([SqlWord ''USE''] @ [QIdent db]) @ Punct (CHR '';'') # [])"
    by (intro ms_punct lexes_Nil) simp_all
  then have "sql_lex tsql_quotes (((''USE'' @ CHR '' '' # ms_bracket db) @ CHR '';'' # []) @ CHR '' '' # q) =
      map_option ((@) (([SqlWord ''USE''] @ [QIdent db]) @ Punct (CHR '';'') # [])) (sql_lex tsql_quotes (CHR '' '' # q))"
    unfolding lexes_def using breaks_char [of "CHR '' ''" q] by simp
  then show ?thesis by (simp add: ms_use_def use_tokens_def sql_lex.simps(2))
qed

lemma ms_if_reads:
  assumes "lexes tsql_quotes f [SqlWord f]"
  shows "list_all2 (lexes tsql_quotes) [''IF'', f @ CHR ''('' # ms_literal s @ '')'', ''IS'']
    [[SqlWord ''IF''], [SqlWord f, Punct (CHR ''(''), SqlStr s, Punct (CHR '')'')], [SqlWord ''IS'']]"
  using ms_words ms_pieces(3) [OF assms] by simp

lemma ms_statements_read:
  "sql_lex tsql_quotes (''CREATE LOGIN '' @ ms_bracket l @ '' WITH PASSWORD = '' @ ms_literal pw @ '', CHECK_POLICY = ON'') =
     Some (ms_tokens (MsCreateLogin l pw))"
  "sql_lex tsql_quotes (ms_use db @ ''IF USER_ID('' @ ms_literal l @ '') IS NULL CREATE USER '' @ ms_bracket l @
     '' FOR LOGIN '' @ ms_bracket l) = Some (ms_tokens (MsCreateUser db l))"
  "sql_lex tsql_quotes (ms_member db r add l) = Some (ms_tokens (MsMember db r add l))"
  "sql_lex tsql_quotes (ms_alter l b) = Some (ms_tokens (MsSetLogin l b))"
  "sql_lex tsql_quotes (''ALTER LOGIN '' @ ms_bracket l @ '' WITH PASSWORD = '' @ ms_literal pw) = Some (ms_tokens (MsSetPassword l pw))"
  "sql_lex tsql_quotes (ms_use db @ ''IF USER_ID('' @ ms_literal l @ '') IS NOT NULL DROP USER '' @ ms_bracket l) =
     Some (ms_tokens (MsDropUser db l))"
  "sql_lex tsql_quotes (''IF SUSER_ID('' @ ms_literal l @ '') IS NOT NULL DROP LOGIN '' @ ms_bracket l) =
     Some (ms_tokens (MsDropLogin l))"
  "sql_lex tsql_quotes (ms_use db @ ''IF DATABASE_PRINCIPAL_ID('' @ ms_literal r @ '') IS NULL CREATE ROLE '' @ ms_bracket r) =
     Some (ms_tokens (MsCreateRole db r))"
  "sql_lex tsql_quotes (ms_use db @ ''IF DATABASE_PRINCIPAL_ID('' @ ms_literal r @ '') IS NOT NULL DROP ROLE '' @ ms_bracket r) =
     Some (ms_tokens (MsDropRole db r))"
proof -
  show "sql_lex tsql_quotes (''CREATE LOGIN '' @ ms_bracket l @ '' WITH PASSWORD = '' @ ms_literal pw @ '', CHECK_POLICY = ON'') =
     Some (ms_tokens (MsCreateLogin l pw))"
    using ms_sql.statement [of "[''CREATE'', ''LOGIN'', ms_bracket l, ''WITH'', ''PASSWORD'', ''='', ms_literal pw @ '','', ''CHECK_POLICY'', ''='', ''ON'']"
      "[[SqlWord ''CREATE''], [SqlWord ''LOGIN''], [QIdent l], [SqlWord ''WITH''], [SqlWord ''PASSWORD''], [Punct (CHR ''='')],
        [SqlStr pw, Punct (CHR '','')], [SqlWord ''CHECK_POLICY''], [Punct (CHR ''='')], [SqlWord ''ON'']]"]
      ms_words ms_pieces(1) ms_pieces(2) [of pw] by simp
  show "sql_lex tsql_quotes (ms_alter l b) = Some (ms_tokens (MsSetLogin l b))"
    using ms_sql.statement [of "[''ALTER'', ''LOGIN'', ms_bracket l, if b then ''ENABLE'' else ''DISABLE'']"
      "map (\<lambda>t. [t]) (ms_tokens (MsSetLogin l b))"] ms_words by (cases b) (simp_all add: ms_alter_def)
  show "sql_lex tsql_quotes (''ALTER LOGIN '' @ ms_bracket l @ '' WITH PASSWORD = '' @ ms_literal pw) = Some (ms_tokens (MsSetPassword l pw))"
    using ms_sql.statement [of "[''ALTER'', ''LOGIN'', ms_bracket l, ''WITH'', ''PASSWORD'', ''='', ms_literal pw]"
      "map (\<lambda>t. [t]) (ms_tokens (MsSetPassword l pw))"] ms_words ms_pieces(1) by simp
  show "sql_lex tsql_quotes (ms_member db r add l) = Some (ms_tokens (MsMember db r add l))"
    using ms_sql.statement [of "[''ALTER'', ''ROLE'', ms_bracket r, if add then ''ADD'' else ''DROP'', ''MEMBER'', ms_bracket l]"
      "[[SqlWord ''ALTER''], [SqlWord ''ROLE''], [QIdent r], [SqlWord (if add then ''ADD'' else ''DROP'')], [SqlWord ''MEMBER''], [QIdent l]]"]
      ms_words unfolding ms_member_def use_reads by (cases add) simp_all
  have check: "sql_lex tsql_quotes (''IF '' @ (f @ CHR ''('' # ms_literal s @ '')'') @ '' IS '' @ join_with '' '' ps) =
      Some (if_tokens f s @ concat tss)"
    if "lexes tsql_quotes f [SqlWord f]" "list_all2 (lexes tsql_quotes) ps tss" "ps \<noteq> []" for f s ps tss
    using ms_sql.statement [OF list_all2_appendI [OF ms_if_reads [OF that(1), of s] that(2)]] that(3)
    by (cases ps) (simp_all add: if_tokens_def)
  have user: "lexes tsql_quotes ''USER_ID'' [SqlWord ''USER_ID'']" "lexes tsql_quotes ''SUSER_ID'' [SqlWord ''SUSER_ID'']"
    "lexes tsql_quotes ''DATABASE_PRINCIPAL_ID'' [SqlWord ''DATABASE_PRINCIPAL_ID'']" using ms_words by simp_all
  have "list_all2 (lexes tsql_quotes) [''NULL'', ''CREATE'', ''USER'', ms_bracket l, ''FOR'', ''LOGIN'', ms_bracket l]
     [[SqlWord ''NULL''], [SqlWord ''CREATE''], [SqlWord ''USER''], [QIdent l], [SqlWord ''FOR''], [SqlWord ''LOGIN''], [QIdent l]]"
    using ms_words by simp
  from check [OF user(1) this, of l] show "sql_lex tsql_quotes (ms_use db @ ''IF USER_ID('' @ ms_literal l @ '') IS NULL CREATE USER '' @ ms_bracket l @
     '' FOR LOGIN '' @ ms_bracket l) = Some (ms_tokens (MsCreateUser db l))"
    unfolding use_reads by simp
  have drop: "list_all2 (lexes tsql_quotes) [''NOT'', ''NULL'', ''DROP'', k, ms_bracket l]
     [[SqlWord ''NOT''], [SqlWord ''NULL''], [SqlWord ''DROP''], [SqlWord k], [QIdent l]]"
    if "lexes tsql_quotes k [SqlWord k]" for k l
    using ms_words that by simp
  have kinds: "lexes tsql_quotes ''USER'' [SqlWord ''USER'']" "lexes tsql_quotes ''LOGIN'' [SqlWord ''LOGIN'']"
    "lexes tsql_quotes ''ROLE'' [SqlWord ''ROLE'']" using ms_words by simp_all
  from check [OF user(1) drop [OF kinds(1), of l], of l]
  show "sql_lex tsql_quotes (ms_use db @ ''IF USER_ID('' @ ms_literal l @ '') IS NOT NULL DROP USER '' @ ms_bracket l) =
     Some (ms_tokens (MsDropUser db l))" unfolding use_reads by simp
  from check [OF user(2) drop [OF kinds(2), of l], of l]
  show "sql_lex tsql_quotes (''IF SUSER_ID('' @ ms_literal l @ '') IS NOT NULL DROP LOGIN '' @ ms_bracket l) =
     Some (ms_tokens (MsDropLogin l))" by simp
  from check [OF user(3) drop [OF kinds(3), of r], of r]
  show "sql_lex tsql_quotes (ms_use db @ ''IF DATABASE_PRINCIPAL_ID('' @ ms_literal r @ '') IS NOT NULL DROP ROLE '' @ ms_bracket r) =
     Some (ms_tokens (MsDropRole db r))" unfolding use_reads by simp
  have "list_all2 (lexes tsql_quotes) [''NULL'', ''CREATE'', ''ROLE'', ms_bracket r]
     [[SqlWord ''NULL''], [SqlWord ''CREATE''], [SqlWord ''ROLE''], [QIdent r]]"
    using ms_words by simp
  from check [OF user(3) this, of r] show "sql_lex tsql_quotes (ms_use db @ ''IF DATABASE_PRINCIPAL_ID('' @ ms_literal r @ '') IS NULL CREATE ROLE '' @ ms_bracket r) =
     Some (ms_tokens (MsCreateRole db r))" unfolding use_reads by simp
qed

fun ms_scope_object :: "string \<Rightarrow> string \<Rightarrow> ms_object \<Rightarrow> bool" where
  "ms_scope_object scope db (MsDatabase d) = (scope = ''DATABASE'' \<and> d = db)"
| "ms_scope_object scope db (MsSchema s) = (scope = ''SCHEMA::'' @ s \<and> sql_identifier 128 s)"
| "ms_scope_object scope db (MsObject s n) =
     (scope = ''OBJECT::'' @ s @ ''.'' @ n \<and> sql_identifier 128 s \<and> sql_identifier 128 n)"

lemma ms_object_reads:
  "lexes tsql_quotes (''ON DATABASE::'' @ ms_bracket d) (SqlWord ''ON'' # ms_object_tokens (MsDatabase d))"
  "lexes tsql_quotes (''ON SCHEMA::'' @ ms_bracket s) (SqlWord ''ON'' # ms_object_tokens (MsSchema s))"
  "lexes tsql_quotes (''ON OBJECT::'' @ ms_bracket s @ ''.'' @ ms_bracket n) (SqlWord ''ON'' # ms_object_tokens (MsObject s n))"
proof -
  have on: "lexes tsql_quotes (''ON '' @ p) (SqlWord ''ON'' # ts)" if "lexes tsql_quotes p ts" for p ts
    using lexes_space [OF _ that, of "''ON''" "[SqlWord ''ON'']"] ms_words by simp
  show "lexes tsql_quotes (''ON DATABASE::'' @ ms_bracket d) (SqlWord ''ON'' # ms_object_tokens (MsDatabase d))"
    using on [OF ms_pieces(4) [OF ms_reads(1), of "''DATABASE''" d]] ms_words by simp
  show "lexes tsql_quotes (''ON SCHEMA::'' @ ms_bracket s) (SqlWord ''ON'' # ms_object_tokens (MsSchema s))"
    using on [OF ms_pieces(4) [OF ms_reads(1), of "''SCHEMA''" s]] ms_words by simp
  from on [OF ms_pieces(4) [OF ms_sql.dotted, of "''OBJECT''"]]
  show "lexes tsql_quotes (''ON OBJECT::'' @ ms_bracket s @ ''.'' @ ms_bracket n) (SqlWord ''ON'' # ms_object_tokens (MsObject s n))"
    using ms_words by simp
qed

lemma ms_scope_reads:
  assumes "ms_permissionScope scope db = Inr t"
  shows "\<exists>obj v. ms_scope_object v db obj \<and> ms_permissionScopeValue (Str scope) = Inr v \<and>
    lexes tsql_quotes t (SqlWord ''ON'' # ms_object_tokens obj)"
proof -
  from assms obtain v where v: "ms_permissionScopeValue (Str scope) = Inr v"
    and t: "(if v = ''DATABASE'' then Inr (''ON DATABASE::'' @ ms_bracket db)
       else if starts_with ''SCHEMA::'' v then Inr (''ON SCHEMA::'' @ ms_bracket (drop 8 v))
       else (case split_on (CHR ''.'') (drop 8 v) of
          schema # name # _ \<Rightarrow> Inr (''ON OBJECT::'' @ ms_bracket schema @ ''.'' @ ms_bracket name)
        | _ \<Rightarrow> Inl type_error)) = Inr t"
    by (auto simp: ms_permissionScope_def ebind_Inr_iff)
  consider (database) "v = ''DATABASE''"
    | (schema) "v \<noteq> ''DATABASE''" "starts_with ''SCHEMA::'' v" "sql_identifier 128 (drop 8 v)"
    | (object) s n where "v \<noteq> ''DATABASE''" "\<not> starts_with ''SCHEMA::'' v" "starts_with ''OBJECT::'' v"
        "split_on (CHR ''.'') (drop 8 v) = [s, n]" "sql_identifier 128 s" "sql_identifier 128 n"
    using v unfolding ms_permissionScopeValue_def Let_def
    by (auto simp: ebind_Inr_iff ms_validateIdentifier_def numeral_2_eq_2 length_Suc_conv split: if_splits)
  then show ?thesis
  proof cases
    case database
    with t v show ?thesis using ms_object_reads(1) by (intro exI [of _ "MsDatabase db"] exI [of _ v]) auto
  next
    case schema
    then obtain s where s: "v = ''SCHEMA::'' @ s" unfolding starts_with_split by blast
    with schema t v show ?thesis using ms_object_reads(2) by (intro exI [of _ "MsSchema s"] exI [of _ v]) auto
  next
    case object
    then obtain r where r: "v = ''OBJECT::'' @ r" unfolding starts_with_split by blast
    with object(4) have sn: "split_on (CHR ''.'') r = [s, n]" by simp
    have "t = ''ON OBJECT::'' @ ms_bracket s @ ''.'' @ ms_bracket n" using t object(1,2,4) by simp
    with object(5,6) r v split_on_two(1) [OF sn] show ?thesis
      using ms_object_reads(3) [of s n] by (intro exI [of _ "MsObject s n"] exI [of _ v]) simp
  qed
qed

section \<open>Every batch is meant, but for the permission\<close>

definition ms_account :: "obj \<Rightarrow> string \<Rightarrow> bool" where
  "ms_account config l \<longleftrightarrow> sql_identifier 128 l \<and>
     (\<exists>v. v \<noteq> [] \<and> l = trim (string_of_val (coalesce (js_get config ''loginPrefix'') (Str [])) @ v))"

fun ms_allowed :: "obj \<Rightarrow> ms_statement \<Rightarrow> bool" where
  "ms_allowed config (MsCreateLogin l pw) = ms_account config l"
| "ms_allowed config (MsCreateUser db l) = (ms_account config l \<and> sql_identifier 128 db)"
| "ms_allowed config (MsMember db r add l) = (ms_account config l \<and> sql_identifier 128 db \<and> sql_identifier 128 r)"
| "ms_allowed config (MsSetLogin l b) = ms_account config l"
| "ms_allowed config (MsSetPassword l pw) = ms_account config l"
| "ms_allowed config (MsDropUser db l) =
     (ms_account config l \<and> sql_identifier 128 db \<and> truthy (js_get config ''physicalDeleteEnabled''))"
| "ms_allowed config (MsDropLogin l) = (ms_account config l \<and> truthy (js_get config ''physicalDeleteEnabled''))"
| "ms_allowed config (MsCreateRole db r) = (sql_identifier 128 r \<and> sql_identifier 128 db)"
| "ms_allowed config (MsDropRole db r) =
     (sql_identifier 128 r \<and> sql_identifier 128 db \<and> truthy (js_get config ''physicalRoleDeleteEnabled''))"
| "ms_allowed config (MsPrivilege db a p obj l) =
     (ms_account config l \<and> sql_identifier 128 db \<and> a \<in> {''GRANT'', ''DENY'', ''REVOKE''} \<and> permission_text p \<and>
      (\<exists>scope. ms_scope_object scope db obj))"

definition ms_fixed :: "string list" where
  "ms_fixed =
     [''SELECT 1 AS ok'', ''SELECT name AS login, is_disabled AS isDisabled FROM sys.sql_logins WHERE name = @login'',
      ''SELECT TOP 200 name AS login, is_disabled AS isDisabled FROM sys.sql_logins '' @ ''WHERE name LIKE @prefix ORDER BY name'']"

definition ms_role_reads :: "string list" where
  "ms_role_reads =
     [''SELECT name AS role FROM sys.database_principals WHERE type = '' @ quoted ''R'' @ '' AND name = @role'',
      ''SELECT TOP 200 name AS role FROM sys.database_principals WHERE type = '' @ quoted ''R'' @ '' ORDER BY name'']"

definition ms_intended :: "obj \<Rightarrow> string \<Rightarrow> bool" where
  "ms_intended config t \<longleftrightarrow> t \<in> set ms_fixed \<or>
     (\<exists>db q. sql_identifier 128 db \<and> q \<in> set ms_role_reads \<and> t = ms_use db @ q) \<or>
     (\<exists>st. sql_lex tsql_quotes t = Some (ms_tokens st) \<and> ms_allowed config st)"

abbreviation ms_grown :: "obj \<Rightarrow> sql_exchange list \<Rightarrow> 'b ms_world_scheme \<Rightarrow> bool" where
  "ms_grown config old \<equiv> sql_grown (ms_intended config) old"

lemma ms_login_account: "ms_login data params config = Inr l \<Longrightarrow> ms_account config l"
  by (auto simp: ms_login_def ms_prefixedValue_def ms_account_def ms_validateIdentifier_def Let_def
      dest: login_value_Some split: option.splits if_splits)

lemma ms_database_name: "ms_database config data = Inr db \<Longrightarrow> sql_identifier 128 db"
  by (simp add: ms_database_def ms_validateIdentifier_def)

lemma ms_role_name: "ms_roleName data params = Inr r \<Longrightarrow> sql_identifier 128 r"
  by (auto simp: ms_roleName_def ms_validateIdentifier_def split: option.splits)

lemma ms_roles_names: "ms_roles config data b = Inr roles \<Longrightarrow> r \<in> set roles \<Longrightarrow> sql_identifier 128 r"
  by (auto simp: ms_roles_def ms_validateIdentifier_def ebind_Inr_iff dest!: map_exn_member)

lemma ms_permission_valid:
  assumes "ms_permissions config data b = Inr ps" "p \<in> set ps"
  shows "mp_action p \<in> {''GRANT'', ''DENY'', ''REVOKE''} \<and> permission_text (mp_name p)"
proof -
  from assms(1) obtain xs where "map_exn ms_normalized xs = Inr ps" by (auto simp: ms_permissions_def ebind_Inr_iff)
  from map_exn_member [OF this assms(2)] obtain v where "ms_normalized v = Inr p" by blast
  then have "ms_permissionAction (js_get (as_obj v) ''action'') = Inr (mp_action p)"
    "ms_permissionName (js_get (as_obj v) ''permission'') = Inr (mp_name p)"
    by (auto simp: ms_normalized_def ebind_Inr_iff Let_def split: if_splits)
  then show ?thesis
    by (auto simp: ms_permissionAction_def ms_permissionName_def dest: checked_permission_text split: if_splits)
qed

lemma ms_query_grown: "ms_intended config t \<Longrightarrow> preserves (ms_grown config old) (ms_query env t ps)"
  unfolding ms_query_def by (rule send_grown) simp

lemma ms_fixed_grown:
  "t \<in> set ms_fixed \<Longrightarrow> preserves (ms_grown config old) (ms_query env t ps)"
  "sql_identifier 128 db \<Longrightarrow> q \<in> set ms_role_reads \<Longrightarrow> preserves (ms_grown config old) (ms_query env (ms_use db @ q) ps)"
  by (rule ms_query_grown, force simp: ms_intended_def)+

lemma ms_exec_grown:
  "sql_lex tsql_quotes t = Some (ms_tokens st) \<Longrightarrow> ms_allowed config st \<Longrightarrow> preserves (ms_grown config old) (ms_exec env t)"
  unfolding ms_exec_def by (intro preserve_intros ms_query_grown) (auto simp: ms_intended_def)

lemma ms_connect_grown: "preserves (ms_grown config old) (ms_connect env c)"
  unfolding ms_connect_def by (intro preserve_intros session_edges) (simp add: sql_grown_def)

lemma ms_privilege_reads:
  assumes "mp_action p \<in> {''GRANT'', ''DENY'', ''REVOKE''}" "permission_text (mp_name p)"
    and "ms_permissionScope (mp_scope p) db = Inr scope"
  shows "\<exists>obj. (\<exists>v. ms_scope_object v db obj \<and> ms_permissionScopeValue (Str (mp_scope p)) = Inr v) \<and>
    sql_lex tsql_quotes (ms_use db @ mp_action p @ '' '' @ mp_name p @ '' '' @ scope @ '' '' @
       (if mp_action p = ''REVOKE'' then ''FROM'' else ''TO'') @ '' '' @ ms_bracket l) =
     Some (ms_tokens (MsPrivilege db (mp_action p) (mp_name p) obj l))"
proof -
  from ms_scope_reads [OF assms(3)] obtain obj v where obj: "ms_scope_object v db obj"
    "ms_permissionScopeValue (Str (mp_scope p)) = Inr v" "lexes tsql_quotes scope (SqlWord ''ON'' # ms_object_tokens obj)" by blast
  let ?key = "if mp_action p = ''REVOKE'' then ''FROM'' else ''TO''"
  have words: "lexes tsql_quotes (mp_action p) [SqlWord (mp_action p)]" "lexes tsql_quotes ?key [SqlWord ?key]"
    using assms(1) ms_words by auto
  have "sql_lex tsql_quotes (join_with '' '' [mp_action p, mp_name p, scope, ?key, ms_bracket l]) =
      Some (concat [[SqlWord (mp_action p)], sql_words (mp_name p), SqlWord ''ON'' # ms_object_tokens obj, [SqlWord ?key], [QIdent l]])"
    by (rule ms_sql.statement) (use words obj(3) ms_words ms_sql.permission [OF assms(2)] in simp)
  with obj(1,2) show ?thesis unfolding use_reads by (intro exI [of _ obj]) auto
qed

lemma ms_apply_grown:
  assumes "ms_account config l" "sql_identifier 128 db"
    and p: "mp_action p \<in> {''GRANT'', ''DENY'', ''REVOKE''}" "permission_text (mp_name p)"
  shows "preserves (ms_grown config old) (ms_applyPermission env db l p)"
  unfolding ms_applyPermission_def
proof (rule preserves_sbind_lift)
  fix scope assume "ms_permissionScope (mp_scope p) db = Inr scope"
  from ms_privilege_reads [OF p this, of l] obtain obj where obj: "\<exists>v. ms_scope_object v db obj" and
    reads: "sql_lex tsql_quotes (ms_use db @ mp_action p @ '' '' @ mp_name p @ '' '' @ scope @ '' '' @
       (if mp_action p = ''REVOKE'' then ''FROM'' else ''TO'') @ '' '' @ ms_bracket l) =
     Some (ms_tokens (MsPrivilege db (mp_action p) (mp_name p) obj l))" by blast
  show "preserves (ms_grown config old) (ms_exec env (ms_use db @ mp_action p @ '' '' @ mp_name p @ '' '' @ scope @ '' '' @
       (if mp_action p = ''REVOKE'' then ''FROM'' else ''TO'') @ '' '' @ ms_bracket l))"
    by (rule ms_exec_grown [OF reads]) (use assms obj in simp)
qed

lemma ms_applies_grown:
  assumes "ms_account config l" "sql_identifier 128 db" "ms_permissions config data b = Inr ps"
  shows "preserves (ms_grown config old) (each_op (ms_applyPermission env db l) ps)"
  using assms ms_permission_valid [OF assms(3)] by (intro preserves_each ms_apply_grown) blast+

lemma ms_members_grown:
  assumes "ms_account config l" "sql_identifier 128 db" "ms_roles config data b = Inr roles"
  shows "preserves (ms_grown config old) (each_op (\<lambda>role. ms_exec env (ms_member db role True l)) roles)"
  using assms ms_roles_names [OF assms(3)] by (intro preserves_each ms_exec_grown [OF ms_statements_read(3)]) simp_all

lemmas ms_rules = preserves_if preserves_sbind_lift preserves_sbind preserves_basic
lemmas ms_facts = ms_login_account ms_database_name ms_role_name

lemma ms_writes_grown:
  "ms_allowed config (MsCreateLogin l pw) \<Longrightarrow> preserves (ms_grown config old)
    (ms_exec env (''CREATE LOGIN '' @ ms_bracket l @ '' WITH PASSWORD = '' @ ms_literal pw @ '', CHECK_POLICY = ON''))"
  "ms_allowed config (MsCreateUser db l) \<Longrightarrow> preserves (ms_grown config old)
    (ms_exec env (ms_use db @ ''IF USER_ID('' @ ms_literal l @ '') IS NULL CREATE USER '' @ ms_bracket l @ '' FOR LOGIN '' @ ms_bracket l))"
  "ms_allowed config (MsMember db r add l) \<Longrightarrow> preserves (ms_grown config old) (ms_exec env (ms_member db r add l))"
  "ms_allowed config (MsSetLogin l b) \<Longrightarrow> preserves (ms_grown config old) (ms_exec env (ms_alter l b))"
  "ms_allowed config (MsSetPassword l pw) \<Longrightarrow> preserves (ms_grown config old)
    (ms_exec env (''ALTER LOGIN '' @ ms_bracket l @ '' WITH PASSWORD = '' @ ms_literal pw))"
  "ms_allowed config (MsDropUser db l) \<Longrightarrow> preserves (ms_grown config old)
    (ms_exec env (ms_use db @ ''IF USER_ID('' @ ms_literal l @ '') IS NOT NULL DROP USER '' @ ms_bracket l))"
  "ms_allowed config (MsDropLogin l) \<Longrightarrow> preserves (ms_grown config old)
    (ms_exec env (''IF SUSER_ID('' @ ms_literal l @ '') IS NOT NULL DROP LOGIN '' @ ms_bracket l))"
  "ms_allowed config (MsCreateRole db r) \<Longrightarrow> preserves (ms_grown config old)
    (ms_exec env (ms_use db @ ''IF DATABASE_PRINCIPAL_ID('' @ ms_literal r @ '') IS NULL CREATE ROLE '' @ ms_bracket r))"
  "ms_allowed config (MsDropRole db r) \<Longrightarrow> preserves (ms_grown config old)
    (ms_exec env (ms_use db @ ''IF DATABASE_PRINCIPAL_ID('' @ ms_literal r @ '') IS NOT NULL DROP ROLE '' @ ms_bracket r))"
  by (rule ms_exec_grown, rule ms_statements_read, assumption)+

lemma ms_operations_grown:
  "preserves (ms_grown config old) (ms_createLogin env config data)"
  "preserves (ms_grown config old) (ms_updateLogin env config data params)"
  "preserves (ms_grown config old) (ms_setLoginEnabled env config data params b)"
  "preserves (ms_grown config old) (ms_changePassword env config data params)"
  "preserves (ms_grown config old) (ms_createRole env config data)"
  "preserves (ms_grown config old) (ms_setRoleMembership env config data params add)"
  unfolding ms_createLogin_def ms_updateLogin_def ms_setLoginEnabled_def ms_changePassword_def
    ms_createRole_def ms_setRoleMembership_def Let_def
  by ((intro ms_rules preserves_option ms_writes_grown ms_applies_grown ms_members_grown;
        (assumption | simp add: ms_facts | erule ms_facts))+)

lemma ms_deletes_grown:
  "preserves (ms_grown config old) (ms_deleteLogin env config data params)"
  "preserves (ms_grown config old) (ms_deleteRole env config data params)"
proof -
  show "preserves (ms_grown config old) (ms_deleteLogin env config data params)"
    unfolding ms_deleteLogin_def
    by (cases "truthy (js_get config ''physicalDeleteEnabled'')";
        simp only: if_True if_False not_True_eq_False not_False_eq_True;
        intro ms_rules ms_writes_grown; simp add: ms_facts)
  show "preserves (ms_grown config old) (ms_deleteRole env config data params)"
    unfolding ms_deleteRole_def
    by (cases "truthy (js_get config ''physicalRoleDeleteEnabled'')";
        simp only: if_True if_False not_True_eq_False not_False_eq_True;
        intro ms_rules ms_writes_grown; simp add: ms_facts)
qed

lemma ms_reads_grown:
  "preserves (ms_grown config old) (ms_getLogin env config data params)"
  "preserves (ms_grown config old) (ms_searchLogins env config data)"
  "preserves (ms_grown config old) (ms_getRole env config data params)"
  "preserves (ms_grown config old) (ms_searchRoles env config data)"
  unfolding ms_getLogin_def ms_searchLogins_def ms_getRole_def ms_searchRoles_def
  by (intro ms_rules ms_fixed_grown; simp add: ms_fixed_def ms_role_reads_def ms_facts)+

lemma ms_execute_grown:
  assumes "config = as_obj (js_get (body p) ''config'')"
  shows "preserves (ms_grown config old) (ms_execute env p)"
  unfolding ms_execute_def ms_executeWithPool_def Let_def assms [symmetric]
  by (intro ms_rules ms_connect_grown preserves_finally session_edges masked_grown ms_operations_grown ms_deletes_grown
      ms_reads_grown ms_fixed_grown(1)) (simp add: ms_fixed_def)

text \<open>
  Every batch that the connector sends is a fixed one, or the server reads it as one of ten intended
  batches, in which the logins, roles, databases and passwords of the event are single identifiers or string
  constants. Only the name of a permission is made of as many words as the event likes.
\<close>

theorem mssql_statements_are_intended:
  "\<exists>new. sql_log (snd (ms_execute env p w)) = sql_log w @ new \<and>
     list_all (\<lambda>e. ms_intended (as_obj (js_get (body p) ''config'')) (sc_text (fst e))) new"
proof -
  have "ms_grown (as_obj (js_get (body p) ''config'')) (sql_log w) (snd (ms_execute env p w))"
    by (rule preserves_snd [OF ms_execute_grown]) (simp_all add: sql_grown_def)
  then show ?thesis
    by (auto simp: sql_grown_def grown_def trace_ok_each)
qed

section \<open>What goes wrong\<close>

lemma split_on_both: "split_on c (a @ c # b) = split_on c a @ split_on c b"
  by (induction a) (auto split: list.splits)

lemma sql_words_append: "sql_words (a @ CHR '' '' # b) = sql_words a @ sql_words b"
  by (simp add: sql_words_def words_of_def split_on_both)

lemma upper_same: "is_upper c \<or> is_digit10 c \<or> c = CHR ''_'' \<or> c = CHR '' '' \<Longrightarrow> upper_char c = c \<and> c \<noteq> CHR 0xDF"
  by (auto simp: upper_char_def is_upper_def is_digit10_def Let_def)

lemma upper_permission:
  assumes "permission_text s"
  shows "toUpperCase s = s"
proof -
  have "\<forall>c \<in> set s. is_upper c \<or> is_digit10 c \<or> c = CHR ''_'' \<or> c = CHR '' ''"
    using assms by (cases s) (auto simp: permission_text_def list_all_iff)
  then have "toUpperCase s = concat (map (\<lambda>c. [c]) s)"
    unfolding toUpperCase_def using upper_same by (intro arg_cong [of _ _ concat] map_cong) auto
  then show ?thesis by simp
qed

text \<open>
  C37: the name of a permission smuggles in a statement. T-SQL needs no separator between statements, and the
  check of the name lets words and blanks through: an event whose permission is
  \<open>SELECT TO PUBLIC ... GRANT SELECT\<close> makes the server read the words between as a statement of their own,
  with the rights of the service account, whatever the configuration.
\<close>

theorem permission_name_smuggles_statements:
  assumes "permission_text (''SELECT TO PUBLIC '' @ smuggled @ '' GRANT SELECT'')"
    and item: "js_get data ''permissions'' = Arr [Obj [(''action'', Str ''GRANT''),
      (''permission'', Str (''SELECT TO PUBLIC '' @ smuggled @ '' GRANT SELECT''))]]"
    and ok: "ms_login data params config = Inr l" "ms_database config data = Inr db" "ms_roles config data False = Inr []"
      "js_get data ''enabled'' = Undef"
  shows "\<exists>call. map fst (sql_log (snd (ms_updateLogin env config data params w))) = map fst (sql_log w) @ [call] \<and>
    sql_lex tsql_quotes (sc_text call) =
      Some (use_tokens db @ sql_words ''GRANT SELECT TO PUBLIC'' @ sql_words smuggled @ sql_words ''GRANT SELECT ON'' @
        ms_object_tokens (MsDatabase db) @ [SqlWord ''TO'', QIdent l])"
proof -
  define name where "name = ''SELECT TO PUBLIC '' @ smuggled @ '' GRANT SELECT''"
  define p where "p = \<lparr>mp_action = ''GRANT'', mp_name = name, mp_scope = ''DATABASE''\<rparr>"
  have valid: "permission_text name" using assms(1) by (simp only: name_def)
  have "trim name = name" "name \<noteq> []" by (simp_all add: name_def trim_def)
  then have "ms_permissionName (Str name) = Inr name"
    by (simp add: ms_permissionName_def checked_permission_def upper_permission [OF valid] valid)
  then have "ms_normalized (Obj [(''action'', Str ''GRANT''), (''permission'', Str name)]) = Inr p"
    by (simp add: ms_normalized_def js_get_def ms_permissionAction_def ms_permissionScopeValue_def p_def)
  then have perms: "ms_permissions config data False = Inr [p]"
    by (simp add: ms_permissions_def array_of_def item [folded name_def])
  define scope where "scope = ''ON DATABASE::'' @ ms_bracket db"
  have scope: "ms_permissionScope (mp_scope p) db = Inr scope"
    by (simp add: ms_permissionScope_def ms_permissionScopeValue_def p_def scope_def trim_def)
  define batch where "batch = ms_use db @ ''GRANT '' @ name @ '' '' @ scope @ '' TO '' @ ms_bracket l"
  define call where "call = \<lparr>sc_text = batch, sc_params = [], sc_tx = False\<rparr>"
  have "map fst (sql_log (snd (ms_updateLogin env config data params w))) = map fst (sql_log w) @ [call]"
    using ok scope
    by (simp add: ms_updateLogin_def perms ms_applyPermission_def ms_exec_def ms_query_def sql_send_def sbind_def ret_def
        lift_result_def p_def batch_def call_def Let_def split: sum.split)
  moreover have "sql_lex tsql_quotes batch = Some (ms_tokens (MsPrivilege db ''GRANT'' name (MsDatabase db) l))"
  proof -
    have words: "lexes tsql_quotes ''GRANT'' [SqlWord ''GRANT'']" "lexes tsql_quotes ''TO'' [SqlWord ''TO'']"
      "lexes tsql_quotes (ms_bracket l) [QIdent l]" "lexes tsql_quotes scope (SqlWord ''ON'' # ms_object_tokens (MsDatabase db))"
      using ms_words ms_object_reads(1) unfolding scope_def by simp_all
    have "lexes tsql_quotes name (sql_words name)" by (rule ms_sql.permission [OF valid])
    then have "sql_lex tsql_quotes (join_with '' '' [''GRANT'', name, scope, ''TO'', ms_bracket l]) =
        Some (concat [[SqlWord ''GRANT''], sql_words name, SqlWord ''ON'' # ms_object_tokens (MsDatabase db), [SqlWord ''TO''], [QIdent l]])"
      using words by (intro ms_sql.statement) simp
    then show ?thesis unfolding batch_def use_reads by simp
  qed
  moreover have "sql_words name = sql_words ''SELECT TO PUBLIC'' @ sql_words smuggled @ sql_words ''GRANT SELECT''"
    using sql_words_append [of "''SELECT TO PUBLIC''" "smuggled @ '' GRANT SELECT''"] sql_words_append [of smuggled "''GRANT SELECT''"]
    by (simp add: name_def)
  moreover have "sql_words ''GRANT SELECT TO PUBLIC'' = SqlWord ''GRANT'' # sql_words ''SELECT TO PUBLIC''"
    "sql_words ''GRANT SELECT ON'' = sql_words ''GRANT SELECT'' @ [SqlWord ''ON'']"
    by (simp_all add: sql_words_def words_of_def)
  ultimately show ?thesis by (intro exI [of _ call]) (simp add: call_def)
qed

text \<open>
  A creation that fails leaves an enabled login behind: the roles and permissions of the event are checked
  only after the login and its user exist, and nothing is undone, even when the event asked for a disabled
  account.
\<close>

theorem failed_creation_leaves_login:
  assumes "ms_login data [] config = Inr l" "ms_password data True = Inr pw" "ms_database config data = Inr db"
    and "ms_roles config data True = Inl e"
    and "answered (se_answer env (sql_log w) \<lparr>sc_text = ''CREATE LOGIN '' @ ms_bracket l @ '' WITH PASSWORD = '' @
      ms_literal pw @ '', CHECK_POLICY = ON'', sc_params = [], sc_tx = False\<rparr>)"
  shows "\<exists>e' new rest. ms_createLogin env config data w = (Inl e', w\<lparr>sql_log := sql_log w @ new\<rparr>) \<and>
    committed NoTx new =
      (''CREATE LOGIN '' @ ms_bracket l @ '' WITH PASSWORD = '' @ ms_literal pw @ '', CHECK_POLICY = ON'') # rest \<and>
    ms_alter l False \<notin> set rest"
proof -
  let ?create = "\<lparr>sc_text = ''CREATE LOGIN '' @ ms_bracket l @ '' WITH PASSWORD = '' @ ms_literal pw @ '', CHECK_POLICY = ON'',
    sc_params = [], sc_tx = False\<rparr>"
  let ?user = "\<lparr>sc_text = ms_use db @ ''IF USER_ID('' @ ms_literal l @ '') IS NULL CREATE USER '' @ ms_bracket l @
     '' FOR LOGIN '' @ ms_bracket l, sc_params = [], sc_tx = False\<rparr>"
  let ?a = "se_answer env (sql_log w) ?create"
  let ?b = "se_answer env (sql_log w @ [(?create, ?a)]) ?user"
  have a: "\<exists>rows. ?a = Inr rows" using assms(5) by (cases ?a) simp_all
  have other: "ms_alter l False \<noteq> sc_text ?user" by (simp add: ms_alter_def ms_use_def)
  obtain e' where run: "ms_createLogin env config data w = (Inl e', w\<lparr>sql_log := sql_log w @ [(?create, ?a), (?user, ?b)]\<rparr>)"
    using assms(1-4) a
    by (cases ?b) (auto simp: ms_createLogin_def ms_exec_def ms_query_def sql_send_def sbind_def ret_def lift_result_def Let_def)
  show ?thesis
    by (rule exI [of _ e'], rule exI [of _ "[(?create, ?a), (?user, ?b)]"],
        rule exI [of _ "if answered ?b then [sc_text ?user] else []"])
      (use run assms(5) other in simp)
qed

section \<open>Witnesses\<close>

definition demo_ms_world :: ms_world where
  "demo_ms_world = \<lparr>sql_log = [], ms_connections = []\<rparr>"

definition demo_smuggled :: string where
  "demo_smuggled = ''DROP DATABASE SALES''"

definition demo_smuggling :: obj where
  "demo_smuggling =
     [(''login'', Str ''ada''), (''permissions'', Arr [Obj [(''action'', Str ''GRANT''),
        (''permission'', Str (''SELECT TO PUBLIC '' @ demo_smuggled @ '' GRANT SELECT''))]])]"

theorem permission_name_smuggles_statements_witness:
  "map (\<lambda>e. sql_lex tsql_quotes (sc_text (fst e)))
     (sql_log (snd (ms_updateLogin (demo_sql_env (\<lambda>_. False)) [] demo_smuggling [] demo_ms_world))) =
   [Some (use_tokens ''master'' @ sql_words ''GRANT SELECT TO PUBLIC'' @ sql_words ''DROP DATABASE SALES'' @
      sql_words ''GRANT SELECT ON'' @ ms_object_tokens (MsDatabase ''master'') @ [SqlWord ''TO'', QIdent ''ada''])]"
proof -
  let ?log = "sql_log (snd (ms_updateLogin (demo_sql_env (\<lambda>_. False)) [] demo_smuggling [] demo_ms_world))"
  let ?ts = "use_tokens ''master'' @ sql_words ''GRANT SELECT TO PUBLIC'' @ sql_words demo_smuggled @
      sql_words ''GRANT SELECT ON'' @ ms_object_tokens (MsDatabase ''master'') @ [SqlWord ''TO'', QIdent ''ada'']"
  have "\<exists>call. map fst ?log = map fst (sql_log demo_ms_world) @ [call] \<and> sql_lex tsql_quotes (sc_text call) = Some ?ts"
  proof (rule permission_name_smuggles_statements)
    show "permission_text (''SELECT TO PUBLIC '' @ demo_smuggled @ '' GRANT SELECT'')" by code_simp
    show "js_get demo_smuggling ''permissions'' = Arr [Obj [(''action'', Str ''GRANT''),
        (''permission'', Str (''SELECT TO PUBLIC '' @ demo_smuggled @ '' GRANT SELECT''))]]"
      by (simp add: demo_smuggling_def js_get_def)
    show "js_get demo_smuggling ''enabled'' = Undef" by (simp add: demo_smuggling_def js_get_def)
    show "ms_login demo_smuggling [] [] = Inr ''ada''" "ms_database [] demo_smuggling = Inr ''master''"
      "ms_roles [] demo_smuggling False = Inr []" by code_simp+
  qed
  then obtain call where log: "map fst ?log = [call]" and "sql_lex tsql_quotes (sc_text call) = Some ?ts"
    by (auto simp: demo_ms_world_def)
  moreover from log have "map (\<lambda>e. sql_lex tsql_quotes (sc_text (fst e))) ?log = [sql_lex tsql_quotes (sc_text call)]"
    by (cases ?log) auto
  ultimately show ?thesis by (simp add: demo_smuggled_def)
qed

definition demo_bad_role :: obj where
  "demo_bad_role =
     [(''login'', Str ''ada''), (''password'', Str ''pw''), (''enabled'', Bool False), (''roles'', Arr [Str ''db owner''])]"

theorem failed_creation_leaves_login_witness:
  "\<exists>e new rest. ms_createLogin (demo_sql_env (\<lambda>_. False)) [] demo_bad_role demo_ms_world =
      (Inl e, demo_ms_world\<lparr>sql_log := new\<rparr>) \<and>
    committed NoTx new = (''CREATE LOGIN [ada] WITH PASSWORD = N'' @ quoted ''pw'' @ '', CHECK_POLICY = ON'') # rest \<and>
    ms_alter ''ada'' False \<notin> set rest"
proof -
  have steps: "ms_login demo_bad_role [] [] = Inr ''ada''" "ms_password demo_bad_role True = Inr ''pw''"
    "ms_database [] demo_bad_role = Inr ''master''" "ms_roles [] demo_bad_role True = Inl (JsError ''Invalid MSSQL role'')"
    by code_simp+
  have shown: "''CREATE LOGIN [ada] WITH PASSWORD = N'' @ quoted ''pw'' @ '', CHECK_POLICY = ON'' =
      ''CREATE LOGIN '' @ ms_bracket ''ada'' @ '' WITH PASSWORD = '' @ ms_literal ''pw'' @ '', CHECK_POLICY = ON''"
    by code_simp
  show ?thesis
    unfolding shown using failed_creation_leaves_login [OF steps, of "demo_sql_env (\<lambda>_. False)" demo_ms_world]
    by (simp add: demo_sql_env_def demo_ms_world_def)
qed

end
