(* ===== verification/HttpKit.thy ===== *)
theory HttpKit
  imports ConnectorKit TlsOptions Registry
begin

text \<open>
  What the connectors over HTTP share: requests, the answers of the servers as a function of
  everything sent before, and the options that they pass to the HTTP client.
\<close>

lemma sbind_lift_Inr [simp]: "sbind (lift_result (Inr a)) f = f a"
  by (simp add: fun_eq_iff)

lemma sbind_assoc: "sbind (sbind m f) g = sbind m (\<lambda>a. sbind (f a) g)"
  by (auto simp: fun_eq_iff sbind_def split: prod.split sum.split)

lemma sbind_ret [simp]: "sbind (ret a) f = f a"
  by (simp add: fun_eq_iff)

section \<open>Requests\<close>

record http_request =
  hr_method :: string
  hr_url :: string
  hr_data :: jsval
  hr_headers :: obj
  hr_timeout :: jsval
  hr_tls :: "tls_options option"

text \<open>The status and the body of a response, or the error that the client throws.\<close>

type_synonym http_exchange = "http_request \<times> (nat \<times> jsval) result"

record http_world =
  http_log :: "http_exchange list"

record http_env =
  he_answer :: "http_exchange list \<Rightarrow> http_request \<Rightarrow> (nat \<times> jsval) result"
  he_tls :: "tls_env option"

definition http_send :: "('e) http_env_scheme \<Rightarrow> http_request \<Rightarrow> (nat \<times> jsval, 'b http_world_scheme) op" where
  "http_send env q w =
     (let r = he_answer env (http_log w) q in (r, w\<lparr>http_log := http_log w @ [(q, r)]\<rparr>))"

definition http_body :: "('e) http_env_scheme \<Rightarrow> http_request \<Rightarrow> (jsval, 'b http_world_scheme) op" where
  "http_body env q = sbind (http_send env q) (\<lambda>r. ret (snd r))"

text \<open>\<open>this.tlsOptions?.axiosConfig(url, tls, name) ?? {}\<close>; only a text has a \<open>toLowerCase\<close>.\<close>

definition http_tls :: "('e) http_env_scheme \<Rightarrow> jsval \<Rightarrow> jsval \<Rightarrow> string \<Rightarrow> tls_options option result" where
  "http_tls env url tls name =
     (case he_tls env of
        None \<Rightarrow> Inr None
      | Some t \<Rightarrow> (case url of
          Str s \<Rightarrow> axiosConfig t s tls name
        | _ \<Rightarrow> if truthy tls \<and> tls_isEnabled tls then Inl type_error else Inr None))"

definition json_headers :: obj where
  "json_headers = [(''Content-Type'', Str ''application/json'')]"

text \<open>\<open>catch (error) { return { success: false, error: msg } }\<close>\<close>

definition answer_plain :: "(jsval, 'w) op \<Rightarrow> (connector_result, 'w) op" where
  "answer_plain m = catch_op (sbind m (\<lambda>d. ret (result_ok d))) (\<lambda>e. ret (result_fail (exn_message e)))"

definition tested :: "string \<Rightarrow> (string, 'w) op \<Rightarrow> (bool \<times> string, 'w) op" where
  "tested failure m =
     catch_op (sbind m (\<lambda>t. ret (True, t))) (\<lambda>e. ret (False, failure @ '': '' @ exn_message e))"

section \<open>What is sent\<close>

abbreviation http_grown :: "(http_exchange list \<Rightarrow> http_request \<Rightarrow> bool) \<Rightarrow> http_exchange list \<Rightarrow> 'b http_world_scheme \<Rightarrow> bool" where
  "http_grown good old \<equiv> \<lambda>w. grown (\<lambda>sent e. good sent (fst e)) old (http_log w)"

lemma http_send_grown: "(\<And>sent. good sent q) \<Longrightarrow> preserves (http_grown good old) (http_send env q)"
  unfolding preserves_def http_send_def Let_def by (auto intro: grown_snoc)

lemma http_body_grown: "(\<And>sent. good sent q) \<Longrightarrow> preserves (http_grown good old) (http_body env q)"
  unfolding http_body_def by (intro preserve_intros http_send_grown)

lemma http_body_log: "map fst (http_log (snd (http_body env q w))) = map fst (http_log w) @ [q]"
  by (simp add: http_body_def http_send_def sbind_def Let_def ret_def split: sum.split)

lemma answer_plain_grown: "preserves I m \<Longrightarrow> preserves I (answer_plain m)"
  unfolding answer_plain_def by (intro preserve_intros)

lemma answer_plain_run: "snd (answer_plain m w) = snd (m w)"
  by (cases "m w"; cases "fst (m w)") (simp_all add: answer_plain_def catch_op_def sbind_def)

section \<open>Witnesses\<close>

definition demo_http_env :: "(http_request \<Rightarrow> (nat \<times> jsval) result) \<Rightarrow> http_env" where
  "demo_http_env answer = \<lparr>he_answer = (\<lambda>_. answer), he_tls = None\<rparr>"

definition demo_http_world :: http_world where
  "demo_http_world = \<lparr>http_log = []\<rparr>"

end
