(* ===== verification/RestConnector.thy ===== *)
theory RestConnector
  imports HttpKit IpUtils
begin

text \<open>
  Models \<open>connectors/implementations/rest-connector/rest-connector.service.ts\<close>: events for a
  target system with an HTTP interface. The URL parser of the platform is an argument.
\<close>

section \<open>Reading the event\<close>

record rest_url =
  ru_text :: string
  ru_hostname :: string
  ru_pathname :: string

text \<open>\<open>new URL(text, base)\<close>; without a base for \<open>Undef\<close>.\<close>

record rest_env = http_env +
  re_url :: "string \<Rightarrow> jsval \<Rightarrow> rest_url result"

definition rest_method :: "jsval \<Rightarrow> string" where
  "rest_method v =
     (let m = (case v of Str s \<Rightarrow> to_upper s | _ \<Rightarrow> ''POST'') in
      if m \<in> {''GET'', ''POST'', ''PUT'', ''PATCH'', ''DELETE''} then m else ''POST'')"

definition relativePath :: "jsval \<Rightarrow> string + string" where
  "relativePath v =
     (if v = Undef \<or> v = Null \<or> v = Str [] then Inr ''/''
      else case v of
        Str s \<Rightarrow>
          if \<not> starts_with ''/'' s \<or> starts_with ''//'' s
          then Inl ''REST payload.path must be a relative absolute path'' else Inr s
      | _ \<Rightarrow> Inl ''REST payload.path must be a string'')"

definition ends_with :: "char \<Rightarrow> string \<Rightarrow> bool" where
  "ends_with c s \<longleftrightarrow> s \<noteq> [] \<and> last s = c"

definition path_under :: "string \<Rightarrow> string \<Rightarrow> bool" where
  "path_under path allowed \<longleftrightarrow>
     path = allowed \<or> starts_with (if ends_with (CHR ''/'') allowed then allowed else allowed @ ''/'') path"

text \<open>The first entry that is no text throws, unless an entry before it admits the path.\<close>

fun some_path :: "string \<Rightarrow> jsval list \<Rightarrow> bool result" where
  "some_path path [] = Inr False"
| "some_path path (v # vs) =
     (case v of
        Str allowed \<Rightarrow> if path_under path allowed then Inr True else some_path path vs
      | _ \<Rightarrow> Inl type_error)"

definition isPathAllowed :: "string \<Rightarrow> jsval \<Rightarrow> bool result" where
  "isPathAllowed path allowedPaths =
     (if \<not> truthy allowedPaths then Inr True
      else case allowedPaths of
        Arr vs \<Rightarrow> if vs = [] then Inr True else some_path path vs
      | _ \<Rightarrow> Inl type_error)"

section \<open>The connector\<close>

definition rest_request :: "rest_env \<Rightarrow> connector_payload \<Rightarrow> obj \<Rightarrow> string \<Rightarrow> http_request result" where
  "rest_request env p config url =
     ebind (http_tls env (Str url) (js_get config ''tls'') ''REST target'') (\<lambda>tls.
     Inr \<lparr>hr_method = rest_method (js_get (body p) ''method''), hr_url = url,
          hr_data = coalesce (js_get (body p) ''data'') (Obj []),
          hr_headers = spread (spread_entries (coalesce (js_get config ''headers'') (Obj [])))
            (spread_entries (coalesce (js_get (body p) ''headers'') (Obj []))),
          hr_timeout = Undef, hr_tls = tls\<rparr>)"

definition rest_execute :: "rest_env \<Rightarrow> connector_payload \<Rightarrow> (connector_result, 'b http_world_scheme) op" where
  "rest_execute env p =
     (let config = as_obj (js_get (body p) ''config'') in
      if \<not> truthy (js_get config ''baseUrl'') then ret (result_fail ''Missing baseUrl in REST config'')
      else case relativePath (js_get (body p) ''path'') of
        Inl e \<Rightarrow> ret (result_fail e)
      | Inr path \<Rightarrow>
          sbind (lift_result (re_url env path (js_get config ''baseUrl''))) (\<lambda>target.
          sbind (lift_result (re_url env (ru_text target) Undef)) (\<lambda>url.
          if \<not> truthy (js_get config ''allowPrivateNetwork'') \<and> isPrivateOrLocalAddress (ru_hostname url)
          then ret (result_fail (''REST target host is private/local and not allowed: '' @ ru_hostname url))
          else sbind (lift_result (isPathAllowed (ru_pathname url) (js_get config ''allowedPaths''))) (\<lambda>allowed.
            if \<not> allowed then ret (result_fail (''REST target path is not allowed: '' @ ru_pathname url))
            else answer_plain (sbind (lift_result (rest_request env p config (ru_text target)))
              (http_body env))))))"

definition rest_testConnection :: "rest_env \<Rightarrow> jsval \<Rightarrow> (bool \<times> string, 'b http_world_scheme) op" where
  "rest_testConnection env cfg =
     (let config = as_obj cfg; url = js_get config ''baseUrl'' in
      if \<not> truthy url then ret (False, ''Missing baseUrl in config'')
      else tested ''REST connection failed''
        (sbind (lift_result (http_tls env url (js_get config ''tls'') ''REST target'')) (\<lambda>tls.
         sbind (http_send env \<lparr>hr_method = ''GET'', hr_url = string_of_val url, hr_data = Undef, hr_headers = [],
            hr_timeout = num 10000, hr_tls = tls\<rparr>) (\<lambda>r.
         ret (''REST endpoint reachable (status '' @ nat_digits (fst r) @ '')'')))))"

definition rest_connector :: "rest_env \<Rightarrow> 'b http_world_scheme connector" where
  "rest_connector env =
     \<lparr>conn_name = ''rest'', conn_execute = rest_execute env, conn_testConnection = rest_testConnection env,
      conn_getCapabilities = None, conn_getSchema = None, conn_sync = None\<rparr>"

section \<open>Where the requests go\<close>

text \<open>
  The hosts that stand for the network of the service, written as the URL parser writes them: \<open>localhost\<close> and
  the IPv4 addresses of the private, loopback, link-local and unspecified ranges. An allowed path admits itself and
  what lies below it.
\<close>

definition private_quad :: "nat \<Rightarrow> nat \<Rightarrow> bool" where
  "private_quad a b \<longleftrightarrow>
     a = 0 \<or> a = 10 \<or> a = 127 \<or> a = 169 \<and> b = 254 \<or> a = 172 \<and> 16 \<le> b \<and> b \<le> 31 \<or> a = 192 \<and> b = 168"

definition inner_host :: "string \<Rightarrow> bool" where
  "inner_host h \<longleftrightarrow> h = ''localhost'' \<or> h = ''255.255.255.255'' \<or>
     (\<exists>a b c d. a \<le> 255 \<and> b \<le> 255 \<and> c \<le> 255 \<and> d \<le> 255 \<and> private_quad a b \<and>
       h = nat_digits a @ ''.'' @ nat_digits b @ ''.'' @ nat_digits c @ ''.'' @ nat_digits d)"

definition lies_under :: "string \<Rightarrow> string \<Rightarrow> bool" where
  "lies_under path allowed \<longleftrightarrow>
     path = allowed \<or> (\<exists>rest. path = allowed @ ''/'' @ rest) \<or> (\<exists>dir rest. allowed = dir @ ''/'' \<and> path = allowed @ rest)"

text \<open>
  An admitted request: the method is one of five, the URL is the event's path, which begins with one slash, resolved
  against the configured address, and host and path of that URL are admitted by the configuration.
\<close>

definition admitted :: "rest_env \<Rightarrow> obj \<Rightarrow> http_request \<Rightarrow> bool" where
  "admitted env config q \<longleftrightarrow> hr_method q \<in> {''GET'', ''POST'', ''PUT'', ''PATCH'', ''DELETE''} \<and>
     (\<exists>rest target. take 1 rest \<noteq> ''/'' \<and> re_url env (''/'' @ rest) (js_get config ''baseUrl'') = Inr target \<and> hr_url q = ru_text target) \<and>
     (\<exists>u. re_url env (hr_url q) Undef = Inr u \<and>
       (truthy (js_get config ''allowPrivateNetwork'') \<or> \<not> inner_host (ru_hostname u)) \<and>
       (case js_get config ''allowedPaths'' of
          Arr vs \<Rightarrow> vs = [] \<or> (\<exists>allowed. Str allowed \<in> set vs \<and> lies_under (ru_pathname u) allowed)
        | v \<Rightarrow> \<not> truthy v))"

lemma inner_is_private: "inner_host h \<Longrightarrow> isPrivateOrLocalAddress h"
proof -
  assume "inner_host h"
  then consider "h = ''localhost''" | "h = ''255.255.255.255''" |
    a b c d where "a \<le> 255" "b \<le> 255" "c \<le> 255" "d \<le> 255" "private_quad a b" "h = quad a b c d"
    by (auto simp: inner_host_def quad_def)
  then show ?thesis
  proof cases
    case 1
    have "isPrivateOrLocalAddress ''localhost''" by code_simp
    with 1 show ?thesis by simp
  next
    case 2
    have "isPrivateOrLocalAddress ''255.255.255.255''" by code_simp
    with 2 show ?thesis by simp
  next
    case 3
    then show ?thesis by (auto simp: private_ranges private_quad_def)
  qed
qed

lemma under_lies: "path_under path allowed \<Longrightarrow> lies_under path allowed"
proof (cases "ends_with (CHR ''/'') allowed")
  case True
  then obtain dir where "allowed = dir @ ''/''" by (metis append_butlast_last_id ends_with_def)
  moreover assume "path_under path allowed"
  ultimately show ?thesis using True by (auto simp: path_under_def lies_under_def starts_with_split)
qed (auto simp: path_under_def lies_under_def starts_with_split)

lemma some_path_admits: "some_path path vs = Inr True \<Longrightarrow> \<exists>allowed. Str allowed \<in> set vs \<and> lies_under path allowed"
  by (induction path vs rule: some_path.induct) (auto dest: under_lies split: jsval.splits if_splits)

lemma path_allowed:
  "isPathAllowed path v = Inr True \<Longrightarrow> (case v of
      Arr vs \<Rightarrow> vs = [] \<or> (\<exists>allowed. Str allowed \<in> set vs \<and> lies_under path allowed)
    | v \<Rightarrow> \<not> truthy v)"
  by (auto simp: isPathAllowed_def dest: some_path_admits split: jsval.splits if_splits)

lemma relative_path_shape:
  assumes "relativePath v = Inr path"
  obtains rest where "path = ''/'' @ rest" "take 1 rest \<noteq> ''/''"
proof -
  have "starts_with ''/'' path \<and> \<not> starts_with ''//'' path"
    using assms by (auto simp: relativePath_def starts_with_def split: if_splits jsval.splits)
  then obtain rest where "path = ''/'' @ rest" "\<not> starts_with ''//'' path" by (auto simp: starts_with_split)
  then show thesis using that by (cases rest) (auto simp: starts_with_def)
qed

lemma rest_request_admitted:
  assumes "rest_request env p config (ru_text target) = Inr q" "re_url env (ru_text target) Undef = Inr u"
    and "truthy (js_get config ''allowPrivateNetwork'') \<or> \<not> isPrivateOrLocalAddress (ru_hostname u)"
    and "isPathAllowed (ru_pathname u) (js_get config ''allowedPaths'') = Inr True"
    and "relativePath v = Inr path" "re_url env path (js_get config ''baseUrl'') = Inr target"
  shows "admitted env config q"
proof -
  have q: "hr_url q = ru_text target" "hr_method q = rest_method (js_get (body p) ''method'')"
    using assms(1) by (auto simp: rest_request_def ebind_Inr_iff)
  have "rest_method v \<in> {''GET'', ''POST'', ''PUT'', ''PATCH'', ''DELETE''}" for v
    by (simp add: rest_method_def Let_def)
  moreover have "\<exists>rest target. take 1 rest \<noteq> ''/'' \<and> re_url env (''/'' @ rest) (js_get config ''baseUrl'') = Inr target \<and> hr_url q = ru_text target"
    using relative_path_shape [OF assms(5)] assms(6) q(1) by metis
  moreover have "truthy (js_get config ''allowPrivateNetwork'') \<or> \<not> inner_host (ru_hostname u)"
    using assms(3) inner_is_private by blast
  ultimately show ?thesis using assms(2) q path_allowed [OF assms(4)] unfolding admitted_def by auto
qed


text \<open>
  The path of an event can leave the configured host. A path that starts with two slashes is refused,
  because it names a host; but the URL parser takes a backslash for a slash in HTTP addresses, so the path that
  starts with a slash and a backslash passes the check and is resolved to the same foreign host, where the
  request is sent with the configured headers.
\<close>

theorem backslash_path_leaves_the_host:
  assumes parser: "\<forall>s base. re_url env (''/'' @ CHR 0x5C # s) base = re_url env (''//'' @ s) base"
    and event: "js_get (body p) ''path'' = Str (''/'' @ CHR 0x5C # s)" "js_get (body p) ''config'' = Obj config"
      "js_get (body p) ''headers'' = Undef"
    and config: "js_get config ''baseUrl'' = Str base" "base \<noteq> []" "js_get config ''allowedPaths'' = Undef"
      "js_get config ''tls'' = Undef"
    and foreign: "re_url env (''//'' @ s) (Str base) = Inr u" "re_url env (ru_text u) Undef = Inr u"
      "\<not> isPrivateOrLocalAddress (ru_hostname u)"
  shows "relativePath (Str (''//'' @ s)) = Inl ''REST payload.path must be a relative absolute path'' \<and>
    (\<exists>q. map fst (http_log (snd (rest_execute env p w))) = map fst (http_log w) @ [q] \<and> hr_url q = ru_text u \<and>
      hr_headers q = spread_entries (coalesce (js_get config ''headers'') (Obj [])))"
proof -
  have refused: "relativePath (Str (''//'' @ s)) = Inl ''REST payload.path must be a relative absolute path''"
    by (simp add: relativePath_def starts_with_def)
  have passed: "relativePath (js_get (body p) ''path'') = Inr (''/'' @ CHR 0x5C # s)"
    by (simp add: event(1) relativePath_def starts_with_def)
  have parsed: "re_url env (''/'' @ CHR 0x5C # s) (Str base) = Inr u" using parser foreign(1) by simp
  have tls: "http_tls env (Str url) (js_get config ''tls'') ''REST target'' = Inr None" for url
    by (simp add: http_tls_def config(4) axiosConfig_def split: option.split)
  then obtain q where q: "rest_request env p config (ru_text u) = Inr q" "hr_url q = ru_text u"
    "hr_headers q = spread_entries (coalesce (js_get config ''headers'') (Obj []))"
    by (simp add: rest_request_def event(3) coalesce_def nullish_def spread_entries_def)
  have "rest_execute env p w = answer_plain (http_body env q) w"
    unfolding rest_execute_def passed event(2) sum.case Let_def
    using config parsed foreign(2,3) q(1) by (simp add: isPathAllowed_def answer_plain_def)
  with q(2,3) refused show ?thesis by (simp add: answer_plain_run http_body_log)
qed

text \<open>
  The parser leaves the brackets of an IPv6 address in the host name, which the check for private addresses
  does not expect: the loopback address passes it.
\<close>

theorem bracketed_loopback_is_not_private:
  "isPrivateOrLocalAddress ''::1'' \<and> \<not> isPrivateOrLocalAddress ''[::1]''"
  by code_simp

section \<open>Witnesses\<close>

definition demo_parser :: "string \<Rightarrow> jsval \<Rightarrow> rest_url result" where
  "demo_parser s base =
     (let host = (if take 2 s \<in> {''//'', [CHR ''/'', CHR 0x5C]} then drop 2 s
                  else drop 8 (if base = Undef then s else string_of_val base)) in
      Inr \<lparr>ru_text = ''https://'' @ host, ru_hostname = host, ru_pathname = ''/''\<rparr>)"

definition demo_rest_env :: rest_env where
  "demo_rest_env = http_env.extend (demo_http_env (\<lambda>_. Inr (200, Null))) \<lparr>re_url = demo_parser\<rparr>"

definition demo_rest_config :: obj where
  "demo_rest_config = [(''baseUrl'', Str ''https://app''), (''headers'', Obj [(''authorization'', Str ''Bearer t'')])]"

definition demo_backslash :: connector_payload where
  "demo_backslash =
     \<lparr>operation = ''user.create'', targetSystem = ''app'',
      body = [(''config'', Obj demo_rest_config), (''path'', Str (''/'' @ CHR 0x5C # ''evil''))]\<rparr>"

theorem backslash_path_leaves_the_host_witness:
  "\<exists>q. map fst (http_log (snd (rest_execute demo_rest_env demo_backslash demo_http_world))) = [q] \<and>
     hr_url q = ''https://evil'' \<and> js_get (hr_headers q) ''authorization'' = Str ''Bearer t''"
proof -
  let ?u = "\<lparr>ru_text = ''https://evil'', ru_hostname = ''evil'', ru_pathname = ''/''\<rparr>"
  have env: "re_url demo_rest_env = demo_parser" by (simp add: demo_rest_env_def http_env.extend_def)
  have "relativePath (Str (''//'' @ ''evil'')) = Inl ''REST payload.path must be a relative absolute path'' \<and>
    (\<exists>q. map fst (http_log (snd (rest_execute demo_rest_env demo_backslash demo_http_world))) = map fst (http_log demo_http_world) @ [q] \<and>
      hr_url q = ru_text ?u \<and> hr_headers q = spread_entries (coalesce (js_get demo_rest_config ''headers'') (Obj [])))"
  proof (rule backslash_path_leaves_the_host)
    show "\<forall>s base. re_url demo_rest_env (''/'' @ CHR 0x5C # s) base = re_url demo_rest_env (''//'' @ s) base"
      by (simp add: env demo_parser_def Let_def)
    show "\<not> isPrivateOrLocalAddress (ru_hostname ?u)" by code_simp
    show "js_get demo_rest_config ''baseUrl'' = Str ''https://app''" by (simp add: demo_rest_config_def js_get_def)
  qed (simp_all add: env demo_parser_def demo_backslash_def demo_rest_config_def js_get_def Let_def)
  then show ?thesis
    by (auto simp: demo_http_world_def demo_rest_config_def js_get_def coalesce_def nullish_def spread_entries_def)
qed

end
