(* ===== verification/FakeConnector.thy ===== *)
theory FakeConnector
  imports HttpKit
begin

text \<open>
  Models \<open>connectors/implementations/fake-connector/fake-connector.service.ts\<close>: the connector of the
  tests, which answers by itself or echoes the event to a server.
\<close>

text \<open>\<open>fk_now\<close> is what the clock shows during the call.\<close>

record fake_env = http_env +
  fk_now :: nat

definition fake_id :: "obj \<Rightarrow> obj \<Rightarrow> jsval" where
  "fake_id params data = coalesce (js_get params ''id'') (js_get data ''id'')"

definition fake_found :: "obj list \<Rightarrow> jsval" where
  "fake_found items = Obj [(''items'', Arr (map Obj items)), (''total'', num (of_nat (length items)))]"

definition fake_user :: "string \<Rightarrow> string \<Rightarrow> bool \<Rightarrow> obj" where
  "fake_user i login enabled =
     [(''id'', Str i), (''username'', Str login), (''email'', Str (login @ ''@example.com'')), (''enabled'', Bool enabled)]"

definition fake_schema :: jsval where
  "fake_schema =
     Obj [(''objectClasses'', Arr
       [Obj [(''name'', Str ''user''), (''attributes'', Arr
          [attribute ''id'' ''string'' True False, attribute ''username'' ''string'' True False,
           attribute ''email'' ''string'' True False, attribute ''groups'' ''array'' False True])],
        Obj [(''name'', Str ''group''), (''attributes'', Arr
          [attribute ''id'' ''string'' True False, attribute ''name'' ''string'' True False,
           attribute ''members'' ''array'' False True])]])]"

definition executeLocalMock :: "fake_env \<Rightarrow> connector_payload \<Rightarrow> connector_result" where
  "executeLocalMock env p =
     (let raw = coalesce (js_get (body p) ''data'') (Obj []); entries = spread_entries raw;
          data = payload_part p ''data''; params = payload_part p ''params''; op = operation p;
          target = (''id'', fake_id params data); answer = (\<lambda>kvs. result_ok (Obj kvs));
          stamp = nat_digits (fk_now env);
          member = (\<lambda>action. answer
            [(''groupId'', coalesce (js_get params ''groupId'') (js_get data ''groupId'')),
             (''userId'', coalesce (js_get params ''userId'') (js_get data ''userId'')), (''action'', Str action)]) in
      if op = ''user.create'' then answer (js_set ''status'' (Str ''created'') (spread [(''id'', Str (''user-'' @ stamp))] entries))
      else if op \<in> {''user.update'', ''group.update''} then answer (js_set ''status'' (Str ''updated'') (spread [target] entries))
      else if op \<in> {''user.delete'', ''group.delete''} then answer [target, (''status'', Str ''deleted'')]
      else if op = ''user.get'' then answer
        [(''id'', coalesce (snd target) (Str ''user-1'')), (''username'', Str ''jdoe''), (''email'', Str ''jdoe@example.com''),
         (''firstName'', Str ''John''), (''lastName'', Str ''Doe''), (''enabled'', Bool True)]
      else if op = ''user.search'' then result_ok (fake_found [fake_user ''user-1'' ''jdoe'' True, fake_user ''user-2'' ''asmith'' False])
      else if op = ''user.enable'' then answer [target, (''enabled'', Bool True)]
      else if op = ''user.disable'' then answer [target, (''enabled'', Bool False)]
      else if op = ''user.lock'' then answer [target, (''locked'', Bool True)]
      else if op = ''user.unlock'' then answer [target, (''locked'', Bool False)]
      else if op = ''user.resolve'' then answer
        [(''uid'', Str (''uid-'' @ string_of_val (coalesce (js_get data ''username'') (js_get params ''username''))))]
      else if op \<in> {''user.addAttributes'', ''user.removeAttributes''} then answer [target, (''attributes'', raw)]
      else if op = ''group.create'' then answer (js_set ''status'' (Str ''created'') (spread [(''id'', Str (''group-'' @ stamp))] entries))
      else if op = ''group.get'' then answer
        [(''id'', coalesce (snd target) (Str ''group-1'')), (''name'', Str ''Admins''), (''members'', Arr [Str ''user-1'', Str ''user-2''])]
      else if op = ''group.search'' then result_ok (fake_found
        [[(''id'', Str ''group-1''), (''name'', Str ''Admins''), (''members'', Arr [Str ''user-1''])],
         [(''id'', Str ''group-2''), (''name'', Str ''Users''), (''members'', Arr [Str ''user-2''])]])
      else if op = ''group.addMember'' then member ''added''
      else if op = ''group.removeMember'' then member ''removed''
      else if op = ''system.test'' then answer [(''reachable'', Bool True), (''version'', Str ''1.0.0'')]
      else if op = ''schema.get'' then result_ok fake_schema
      else if op \<in> {''sync.full'', ''sync.incremental''} then answer
        [(''mode'', Str (if op = ''sync.full'' then ''full'' else ''incremental'')), (''created'', num 1), (''updated'', num 2),
         (''deleted'', num 0), (''unchanged'', num 10)]
      else if starts_with ''user.change'' op then answer [target, (''changed'', Bool True)]
      else result_fail (''Unsupported fake operation: '' @ op))"

definition fake_is_local :: "jsval \<Rightarrow> bool" where
  "fake_is_local url \<longleftrightarrow> \<not> truthy url \<or> url = Str ''fake://local''"

definition fake_request :: "fake_env \<Rightarrow> connector_payload \<Rightarrow> obj \<Rightarrow> http_request result" where
  "fake_request env p config =
     ebind (http_tls env (js_get config ''baseUrl'') (js_get config ''tls'') ''Fake remote'') (\<lambda>tls.
     Inr \<lparr>hr_method = ''POST'', hr_url = string_of_val (js_get config ''baseUrl'') @ ''/api/echo'',
          hr_data = Obj [(''operation'', Str (operation p)), (''targetSystem'', Str (targetSystem p)),
            (''data'', coalesce (js_get (body p) ''data'') (Obj []))],
          hr_headers = json_headers @ (if truthy (js_get config ''apiKey'') then [(''X-Api-Id'', js_get config ''apiKey'')] else []),
          hr_timeout = coalesce (js_get config ''timeout'') (num 10000), hr_tls = tls\<rparr>)"

definition fake_execute :: "fake_env \<Rightarrow> connector_payload \<Rightarrow> (connector_result, 'b http_world_scheme) op" where
  "fake_execute env p =
     (let config = as_obj (js_get (body p) ''config'') in
      if fake_is_local (js_get config ''baseUrl'') then ret (executeLocalMock env p)
      else answer_plain (sbind (lift_result (fake_request env p config)) (http_body env)))"

definition fake_testConnection :: "fake_env \<Rightarrow> jsval \<Rightarrow> (bool \<times> string, 'b http_world_scheme) op" where
  "fake_testConnection env cfg =
     (let config = as_obj cfg; url = js_get config ''baseUrl'' in
      if fake_is_local url then ret (True, ''Fake local connector is always reachable'')
      else tested ''Fake connection failed''
        (sbind (lift_result (http_tls env url (js_get config ''tls'') ''Fake remote'')) (\<lambda>tls.
         sbind (http_send env \<lparr>hr_method = ''GET'', hr_url = string_of_val url @ ''/health'', hr_data = Undef, hr_headers = [],
            hr_timeout = coalesce (js_get config ''timeout'') (num 5000), hr_tls = tls\<rparr>) (\<lambda>r.
         ret (''Fake system reachable (status '' @ nat_digits (fst r) @ '')'')))))"

definition fake_getSchema :: "fake_env \<Rightarrow> connector_payload \<Rightarrow> (connector_result, 'b http_world_scheme) op" where
  "fake_getSchema env p = fake_execute env (p\<lparr>body := js_set ''params'' (Obj []) (body p)\<rparr>)"

definition fake_sync :: "fake_env \<Rightarrow> connector_payload \<Rightarrow> string \<Rightarrow> (connector_result, 'b http_world_scheme) op" where
  "fake_sync env p mode =
     fake_execute env (p\<lparr>operation := if mode = ''incremental'' then ''sync.incremental'' else ''sync.full''\<rparr>)"

definition fake_connector :: "fake_env \<Rightarrow> 'b http_world_scheme connector" where
  "fake_connector env =
     \<lparr>conn_name = ''fake'', conn_execute = fake_execute env, conn_testConnection = fake_testConnection env,
      conn_getCapabilities = Some (createConnectorCapabilities [] id []),
      conn_getSchema = Some (fake_getSchema env), conn_sync = Some (fake_sync env)\<rparr>"

text \<open>
  The local connector keeps the contract it is the reference of: every operation of the vocabulary
  succeeds, nothing is sent, and its capability table calls every operation implemented.
\<close>

theorem fake_covers_the_vocabulary:
  "list_all (\<lambda>op. success (executeLocalMock env (p\<lparr>operation := op\<rparr>)) \<and>
     map_of (cap_operationStatus (the (conn_getCapabilities (fake_connector env)))) op = Some Implemented) AVANPOST_OPERATIONS"
  unfolding AVANPOST_OPERATIONS_def change_credential_op
  by (simp add: executeLocalMock_def result_ok_def Let_def starts_with_def fake_connector_def createConnectorCapabilities_def
      operation_capability_def AVANPOST_OPERATIONS_def change_credential_op)

end
