(* ===== verification/DbConnector.thy ===== *)
theory DbConnector
  imports HttpKit
begin

text \<open>
  Models \<open>connectors/implementations/db-connector/db-connector.service.ts\<close>: statements on a database
  through the query builder knex. The world logs the clients that were created, what they were called with,
  and which of them were destroyed; what the library and the database answer is an argument.
\<close>

section \<open>Clients\<close>

datatype db_connection =
    Address jsval
  | Secured string jsval tls_options
  | OracleLogin obj

record knex_config =
  kc_client :: jsval
  kc_connection :: db_connection
  kc_pool :: jsval

datatype db_call =
    RawQuery jsval jsval
  | InsertInto jsval jsval
  | UpdateWhere jsval jsval jsval
  | DeleteWhere jsval jsval
  | SelectWhere jsval jsval

text \<open>A client is known by its number.\<close>

datatype db_event =
    Created nat knex_config
  | Called nat db_call
  | Destroyed nat

record db_world =
  db_log :: "db_event list"
  db_clients :: nat
  db_runtime :: "nat option"

record db_env =
  de_knex :: "db_event list \<Rightarrow> knex_config \<Rightarrow> unit result"
  de_answer :: "db_event list \<Rightarrow> nat \<Rightarrow> db_call \<Rightarrow> jsval result"
  de_destroy :: "db_event list \<Rightarrow> nat \<Rightarrow> unit result"
  de_tls :: "tls_env option"

definition create_knex :: "db_env \<Rightarrow> knex_config \<Rightarrow> (nat, 'b db_world_scheme) op" where
  "create_knex env c w =
     (case de_knex env (db_log w) c of
        Inl e \<Rightarrow> (Inl e, w)
      | Inr _ \<Rightarrow> (Inr (db_clients w), w\<lparr>db_log := db_log w @ [Created (db_clients w) c], db_clients := Suc (db_clients w)\<rparr>))"

definition call_knex :: "db_env \<Rightarrow> nat \<Rightarrow> db_call \<Rightarrow> (jsval, 'b db_world_scheme) op" where
  "call_knex env k q w = (de_answer env (db_log w) k q, w\<lparr>db_log := db_log w @ [Called k q]\<rparr>)"

definition destroy_knex :: "db_env \<Rightarrow> nat \<Rightarrow> (unit, 'b db_world_scheme) op" where
  "destroy_knex env k w = (de_destroy env (db_log w) k, w\<lparr>db_log := db_log w @ [Destroyed k]\<rparr>)"

section \<open>Configurations\<close>

datatype knex_source = Runtime | Dynamic

definition pool :: "rat \<Rightarrow> rat \<Rightarrow> jsval" where
  "pool lo hi = Obj [(''min'', num lo), (''max'', num hi)]"

text \<open>\<open>connection.toLowerCase()\<close> throws on anything but a text.\<close>

definition oracle_tcps :: "jsval \<Rightarrow> bool result" where
  "oracle_tcps v =
     (case v of
        Str s \<Rightarrow> Inr (starts_with ''tcps:'' (to_lower s) \<or> str_includes ''protocol=tcps'' (to_lower s))
      | _ \<Rightarrow> Inl type_error)"

definition wallet :: "jsval \<Rightarrow> string \<Rightarrow> obj" where
  "wallet tls k = (let v = js_get (as_obj tls) k in if truthy v then [(k, v)] else [])"

definition oracle_config :: "obj \<Rightarrow> knex_source \<Rightarrow> jsval \<Rightarrow> jsval \<Rightarrow> tls_options option \<Rightarrow> (string + knex_config) result" where
  "oracle_config inp src connection pl ssl =
     (let user = coalesce (js_get inp ''username'') (js_get inp ''user''); tls = js_get inp ''tls'' in
      if \<not> truthy user \<or> \<not> truthy (js_get inp ''password'')
      then Inr (Inl (if src = Runtime then ''Oracle DB connector requires DB_CONNECTOR_USERNAME and DB_CONNECTOR_PASSWORD''
        else ''Oracle DB connector requires username/user and password''))
      else ebind (if ssl = None then Inr True else oracle_tcps connection) (\<lambda>ok.
        if \<not> ok then Inr (Inl (''Oracle DB connector TLS requires a TCPS connect string (tcps://... or PROTOCOL=TCPS)''))
        else Inr (Inr \<lparr>kc_client = js_get inp ''client'',
          kc_connection = OracleLogin ([(''connectString'', connection), (''user'', user),
            (''password'', js_get inp ''password'')] @ wallet tls ''walletLocation'' @ wallet tls ''walletPassword''),
          kc_pool = pl\<rparr>)))"

definition buildKnexConfig :: "db_env \<Rightarrow> obj \<Rightarrow> knex_source \<Rightarrow> (string + knex_config) result" where
  "buildKnexConfig env inp src =
     (let client = js_get inp ''client''; connection = coalesce (js_get inp ''connectString'') (js_get inp ''connection'');
          pl = coalesce (js_get inp ''pool'') (pool 1 5);
          given = (\<lambda>c. Inr (Inr \<lparr>kc_client = client, kc_connection = c, kc_pool = pl\<rparr>)) in
      ebind (case de_tls env of None \<Rightarrow> Inr None | Some t \<Rightarrow> dbConnectorSslOptions t (js_get inp ''tls'')) (\<lambda>ssl.
      if \<not> truthy client \<or> \<not> truthy connection
      then Inr (Inl (if src = Runtime
        then ''DB_CONNECTOR_DIALECT and DB_CONNECTOR_URL are required when DB_CONNECTOR_ENABLED=true''
        else ''Missing client and connection/connectString in config''))
      else if client = Str ''sqlite3''
      then (if ssl \<noteq> None then Inr (Inl ''SQLite DB connector does not support TLS'') else given (Address connection))
      else if client = Str ''pg''
      then given (case ssl of None \<Rightarrow> Address connection | Some s \<Rightarrow> Secured ''connectionString'' connection s)
      else if client = Str ''mysql2''
      then given (case ssl of None \<Rightarrow> Address connection | Some s \<Rightarrow> Secured ''uri'' connection s)
      else oracle_config inp src connection pl ssl))"

section \<open>The connector\<close>

text \<open>The values of \<open>ConfigService\<close> are an argument.\<close>

definition db_onModuleInit :: "db_env \<Rightarrow> (string \<Rightarrow> jsval) \<Rightarrow> (unit, 'b db_world_scheme) op" where
  "db_onModuleInit env setting =
     (if \<not> truthy (setting ''DB_CONNECTOR_ENABLED'') then ret ()
      else sbind (lift_result (buildKnexConfig env
        [(''client'', setting ''DB_CONNECTOR_DIALECT''), (''connection'', setting ''DB_CONNECTOR_URL''),
         (''username'', setting ''DB_CONNECTOR_USERNAME''), (''password'', setting ''DB_CONNECTOR_PASSWORD''),
         (''pool'', pool 1 5),
         (''tls'', case de_tls env of None \<Rightarrow> Undef
            | Some t \<Rightarrow> (case dbConnectorTlsFromEnv t of None \<Rightarrow> Undef | Some o' \<Rightarrow> Obj o'))] Runtime)) (\<lambda>c.
        case c of
          Inl _ \<Rightarrow> ret ()
        | Inr kc \<Rightarrow> sbind (create_knex env kc) (\<lambda>k. modify (\<lambda>w. w\<lparr>db_runtime := Some k\<rparr>))))"

definition db_onModuleDestroy :: "db_env \<Rightarrow> (unit, 'b db_world_scheme) op" where
  "db_onModuleDestroy env w = (case db_runtime w of None \<Rightarrow> (Inr (), w) | Some k \<Rightarrow> destroy_knex env k w)"

definition knex_input :: "obj \<Rightarrow> jsval \<Rightarrow> obj" where
  "knex_input config pl =
     map (\<lambda>k. (k, js_get config k)) [''client'', ''connection'', ''connectString'', ''username'', ''user'', ''password'']
       @ [(''pool'', pl), (''tls'', js_get config ''tls'')]"

definition createDynamicKnex :: "db_env \<Rightarrow> obj \<Rightarrow> (nat option, 'b db_world_scheme) op" where
  "createDynamicKnex env config =
     sbind (lift_result (buildKnexConfig env
       (knex_input config (coalesce (js_get config ''pool'') (pool 1 2))) Dynamic)) (\<lambda>c.
     case c of
       Inl _ \<Rightarrow> ret None
     | Inr kc \<Rightarrow> sbind (create_knex env kc) (\<lambda>k. ret (Some k)))"

definition db_answer :: "db_env \<Rightarrow> nat \<Rightarrow> db_call \<Rightarrow> (connector_result, 'b db_world_scheme) op" where
  "db_answer env k q = sbind (call_knex env k q) (\<lambda>d. ret (result_ok d))"

definition db_run :: "db_env \<Rightarrow> obj \<Rightarrow> nat \<Rightarrow> (connector_result, 'b db_world_scheme) op" where
  "db_run env ev k =
     (let op = js_get ev ''sqlOperation''; table = js_get ev ''table''; data = js_get ev ''data'';
          whr = js_get ev ''where'' in
      if truthy (js_get ev ''rawQuery'')
      then db_answer env k (RawQuery (js_get ev ''rawQuery'') (coalesce (js_get ev ''bindings'') (Arr [])))
      else if \<not> truthy table then ret (result_fail ''Missing table or rawQuery in payload'')
      else if op = Str ''insert'' then db_answer env k (InsertInto table data)
      else if op = Str ''update''
      then (if \<not> truthy whr then ret (result_fail ''Missing where clause for update'')
            else db_answer env k (UpdateWhere table whr data))
      else if op = Str ''delete''
      then (if \<not> truthy whr then ret (result_fail ''Missing where clause for delete'')
            else db_answer env k (DeleteWhere table whr))
      else if op = Str ''query'' then db_answer env k (SelectWhere table (coalesce whr (Obj [])))
      else ret (result_fail (''Unsupported SQL operation: '' @ string_of_val op)))"

definition db_execute :: "db_env \<Rightarrow> connector_payload \<Rightarrow> (connector_result, 'b db_world_scheme) op" where
  "db_execute env p =
     (let config = js_get (body p) ''config'' in
      sbind (if truthy config then createDynamicKnex env (as_obj config) else (\<lambda>w. (Inr (db_runtime w), w))) (\<lambda>client.
      case client of
        None \<Rightarrow> ret (result_fail ''DB connector not initialized'')
      | Some k \<Rightarrow>
          finally_op (catch_op (db_run env (body p) k) (\<lambda>e. ret (result_fail (exn_message e))))
            (if truthy config then destroy_knex env k else ret ())))"

definition db_test_query :: "knex_config \<Rightarrow> db_call" where
  "db_test_query kc =
     RawQuery (Str (if kc_client kc = Str ''oracledb'' then ''SELECT 1 FROM DUAL'' else ''SELECT 1'')) Undef"

text \<open>The client is known to the last step only when its creation has not thrown.\<close>

definition db_testConnection :: "db_env \<Rightarrow> jsval \<Rightarrow> (bool \<times> string, 'b db_world_scheme) op" where
  "db_testConnection env cfg =
     sbind (lift_result (buildKnexConfig env (knex_input (as_obj cfg) (pool 1 2)) Dynamic)) (\<lambda>c.
     case c of
       Inl m \<Rightarrow> ret (False, m)
     | Inr kc \<Rightarrow>
         sbind (catch_op (sbind (create_knex env kc) (\<lambda>k. ret (Inr k))) (\<lambda>e. ret (Inl e))) (\<lambda>client.
         case client of
           Inl e \<Rightarrow> ret (False, ''DB connection failed: '' @ exn_message e)
         | Inr k \<Rightarrow>
             finally_op (tested ''DB connection failed'' (sbind (call_knex env k (db_test_query kc)) (\<lambda>_. ret ''DB connection OK'')))
               (destroy_knex env k)))"

definition db_connector :: "db_env \<Rightarrow> 'b db_world_scheme connector" where
  "db_connector env =
     \<lparr>conn_name = ''db'', conn_execute = db_execute env, conn_testConnection = db_testConnection env,
      conn_getCapabilities = None, conn_getSchema = None, conn_sync = None\<rparr>"

section \<open>What happens to a client\<close>

text \<open>What an event or a test adds to the log: nothing, or one client that is created, called at most once, and destroyed.\<close>

definition brief_client :: "nat \<Rightarrow> db_event list \<Rightarrow> bool" where
  "brief_client k new \<longleftrightarrow>
     new = [] \<or> (\<exists>c. new = [Created k c, Destroyed k]) \<or> (\<exists>c q. new = [Created k c, Called k q, Destroyed k])"

definition called_once :: "db_event list \<Rightarrow> nat \<Rightarrow> db_event list \<Rightarrow> bool" where
  "called_once old k sent \<longleftrightarrow> sent = old \<or> (\<exists>q. sent = old @ [Called k q])"

lemma db_answer_log: "db_log (snd (db_answer env k q w)) = db_log w @ [Called k q]"
  by (simp add: db_answer_def sbind_def call_knex_def ret_def split: sum.split)

lemma db_run_log: "called_once (db_log w) k (db_log (snd (db_run env ev k w)))"
  by (simp add: db_run_def Let_def called_once_def db_answer_log)

lemma catch_ret_snd: "snd (catch_op m (\<lambda>e. ret (h e)) w) = snd (m w)"
  by (cases "m w"; cases "fst (m w)") (simp_all add: catch_op_def)

lemma finally_snd: "snd (finally_op m c w) = snd (c (snd (m w)))"
  by (simp add: finally_op_def split: prod.split sum.split)

lemma finally_destroy_log: "db_log (snd (finally_op m (destroy_knex env k) w)) = db_log (snd (m w)) @ [Destroyed k]"
  by (simp add: finally_snd destroy_knex_def)

lemma brief_run:
  "called_once (old @ [Created k c]) k sent \<Longrightarrow> \<exists>new. sent @ [Destroyed k] = old @ new \<and> brief_client k new"
  by (auto simp: called_once_def brief_client_def)

lemma tested_snd: "snd (tested failure m w) = snd (m w)"
  by (cases "m w"; cases "fst (m w)") (simp_all add: tested_def catch_op_def sbind_def)

lemma test_query_log:
  "called_once (db_log w) k (db_log (snd (tested failure (sbind (call_knex env k q) (\<lambda>_. ret t)) w)))"
  by (simp add: tested_snd sbind_def call_knex_def called_once_def ret_def split: sum.split)

lemma db_run_log_after: "db_log w = sent \<Longrightarrow> called_once sent k (db_log (snd (db_run env ev k w)))"
  using db_run_log [of w k env ev] by simp

lemma test_query_log_after:
  "db_log w = sent \<Longrightarrow> called_once sent k (db_log (snd (tested failure (sbind (call_knex env k q) (\<lambda>_. ret t)) w)))"
  using test_query_log [of w k failure env q t] by simp

text \<open>
  C40: no event leaves a database client behind. An event with a configuration of its own, and a test of a
  connection, create at most one client, call it at most once and destroy it, whatever fails; clients of other
  events are never used.
\<close>

theorem dynamic_clients_are_destroyed:
  "(\<exists>new. db_log (snd (db_testConnection env cfg w)) = db_log w @ new \<and> brief_client (db_clients w) new) \<and>
   (\<exists>new. db_log (snd (db_execute env (p\<lparr>body := js_set ''config'' (Obj config) (body p)\<rparr>) w)) = db_log w @ new \<and>
     brief_client (db_clients w) new)"
proof (rule conjI)
  have none: "\<exists>new. db_log w = db_log w @ new \<and> brief_client (db_clients w) new"
    by (simp add: brief_client_def)
  note step = create_knex_def finally_destroy_log brief_run [OF db_run_log_after] brief_run [OF test_query_log_after]
  show "\<exists>new. db_log (snd (db_testConnection env cfg w)) = db_log w @ new \<and> brief_client (db_clients w) new"
  proof (cases "\<exists>kc. buildKnexConfig env (knex_input (as_obj cfg) (pool 1 2)) Dynamic = Inr (Inr kc)")
    case True
    then obtain kc where "buildKnexConfig env (knex_input (as_obj cfg) (pool 1 2)) Dynamic = Inr (Inr kc)" ..
    then show ?thesis
      using none by (cases "de_knex env (db_log w) kc") (simp_all add: db_testConnection_def sbind_def catch_op_def step)
  qed (use none in \<open>auto simp: db_testConnection_def sbind_def split: sum.split\<close>)
  let ?kc = "buildKnexConfig env (knex_input config (coalesce (js_get config ''pool'') (pool 1 2))) Dynamic"
  show "\<exists>new. db_log (snd (db_execute env (p\<lparr>body := js_set ''config'' (Obj config) (body p)\<rparr>) w)) = db_log w @ new \<and>
     brief_client (db_clients w) new"
  proof (cases "\<exists>kc. ?kc = Inr (Inr kc)")
    case True
    then obtain kc where "?kc = Inr (Inr kc)" ..
    then show ?thesis
      using none by (cases "de_knex env (db_log w) kc")
        (simp_all add: db_execute_def createDynamicKnex_def sbind_def obj_simps catch_ret_snd step)
  qed (use none in \<open>auto simp: db_execute_def createDynamicKnex_def sbind_def obj_simps split: sum.split\<close>)
qed

text \<open>
  The guard against an update or a delete without a condition asks for a value only: an object without
  entries passes it, and the builder then adds no condition to the statement.
\<close>

theorem empty_where_passes_the_guard:
  assumes "\<not> truthy (js_get ev ''rawQuery'')" "truthy (js_get ev ''table'')" "js_get ev ''sqlOperation'' = Str ''delete''"
  shows "js_get ev ''where'' = Undef \<Longrightarrow> db_run env ev k w = (Inr (result_fail ''Missing where clause for delete''), w)"
    and "js_get ev ''where'' = Obj [] \<Longrightarrow> db_run env ev k w = db_answer env k (DeleteWhere (js_get ev ''table'') (Obj [])) w"
  using assms by (simp_all add: db_run_def Let_def)

end
