(* ===== verification/ZabbixConnector.thy ===== *)
theory ZabbixConnector
  imports HttpKit
begin

text \<open>
  Models \<open>connectors/implementations/zabbix-connector/zabbix-connector.service.ts\<close>: accounts and user
  groups of a Zabbix server, over its JSON-RPC interface. The long dash in the text of its errors is no
  character of the model and is written as a hyphen.
\<close>

section \<open>Requests\<close>

datatype zabbix_auth = Bearer jsval | LegacyAuthField string

definition zabbix_url :: "obj \<Rightarrow> string" where
  "zabbix_url config = string_of_val (js_get config ''baseUrl'') @ ''/api_jsonrpc.php''"

definition zabbix_body :: "string \<Rightarrow> jsval \<Rightarrow> zabbix_auth option \<Rightarrow> jsval" where
  "zabbix_body method params auth =
     Obj ([(''jsonrpc'', Str ''2.0''), (''method'', Str method), (''params'', params), (''id'', num 1)] @
       (case auth of Some (LegacyAuthField t) \<Rightarrow> [(''auth'', Str t)] | _ \<Rightarrow> []))"

definition zabbix_headers :: "zabbix_auth option \<Rightarrow> obj" where
  "zabbix_headers auth =
     json_headers @ (case auth of Some (Bearer t) \<Rightarrow> [(''Authorization'', Str (''Bearer '' @ string_of_val t))] | _ \<Rightarrow> [])"

definition zabbix_request :: "obj \<Rightarrow> string \<Rightarrow> jsval \<Rightarrow> zabbix_auth option \<Rightarrow> tls_options option \<Rightarrow> http_request" where
  "zabbix_request config method params auth tls =
     \<lparr>hr_method = ''POST'', hr_url = zabbix_url config, hr_data = zabbix_body method params auth,
      hr_headers = zabbix_headers auth, hr_timeout = num 30000, hr_tls = tls\<rparr>"

definition zabbix_result :: "jsval \<Rightarrow> jsval result" where
  "zabbix_result data =
     (let e = js_get (as_obj data) ''error'' in
      if nullish data then Inl type_error
      else if truthy e
      then Inl (JsError (''Zabbix API error: '' @ string_of_val (js_get (as_obj e) ''message'') @ '' - '' @
        string_of_val (js_get (as_obj e) ''data'')))
      else Inr (js_get (as_obj data) ''result''))"

definition zabbix_call ::
  "http_env \<Rightarrow> obj \<Rightarrow> string \<Rightarrow> jsval \<Rightarrow> zabbix_auth option \<Rightarrow> (jsval, 'b http_world_scheme) op" where
  "zabbix_call env config method params auth =
     sbind (lift_result (http_tls env (js_get config ''baseUrl'') (js_get config ''tls'') ''Zabbix'')) (\<lambda>tls.
     sbind (http_body env (zabbix_request config method params auth tls)) (\<lambda>data.
     lift_result (zabbix_result data)))"

definition zabbix_credentials :: "obj \<Rightarrow> jsval" where
  "zabbix_credentials config =
     Obj [(''username'', js_get config ''username''), (''password'', js_get config ''password'')]"

definition zabbix_login :: "http_env \<Rightarrow> obj \<Rightarrow> (string, 'b http_world_scheme) op" where
  "zabbix_login env config =
     sbind (zabbix_call env config ''user.login'' (zabbix_credentials config) None) (\<lambda>r.
     case r of Str t \<Rightarrow> ret t | _ \<Rightarrow> raise (JsError ''Zabbix login failed: invalid response''))"

definition resolveAuth :: "http_env \<Rightarrow> obj \<Rightarrow> (zabbix_auth, 'b http_world_scheme) op" where
  "resolveAuth env config =
     (if truthy (js_get config ''apiToken'') then ret (Bearer (js_get config ''apiToken''))
      else if \<not> truthy (js_get config ''username'') \<or> \<not> truthy (js_get config ''password'')
      then raise (JsError ''Missing Zabbix credentials (apiToken or username/password)'')
      else sbind (zabbix_login env config) (\<lambda>t. ret (LegacyAuthField t)))"

section \<open>Operations\<close>

definition outputs :: "string list \<Rightarrow> string \<times> jsval" where
  "outputs cs = (''output'', Arr (map Str cs))"

definition search_of :: "string \<Rightarrow> obj \<Rightarrow> string \<times> jsval" where
  "search_of k params =
     (''search'', if truthy (js_get params ''filter'') then Obj [(k, js_get params ''filter'')] else Undef)"

text \<open>\<open>data\<close> and \<open>params\<close> are the values of the event, which need not be objects.\<close>

definition buildZabbixCall :: "string \<Rightarrow> jsval \<Rightarrow> jsval \<Rightarrow> obj \<Rightarrow> (string \<times> jsval) result" where
  "buildZabbixCall op data params config =
     (let d = as_obj data; ps = as_obj params; i = coalesce (js_get ps ''id'') (js_get d ''id'');
          entries = spread_entries data;
          ids = (if truthy i then Arr [i] else Undef);
          limit = (''limit'', coalesce (js_get ps ''limit'') (num 50));
          into = (\<lambda>k v. (''user.update'', Obj [(''userid'', i), (''usrgrps'', Arr [Obj [(''usrgrpid'', coalesce (js_get config k) (Str v))]])]));
          call = (\<lambda>m kvs. Inr (m, Obj kvs)) in
      if op = ''user.create'' then Inr (''user.create'', data)
      else if op = ''user.update'' then call ''user.update'' (js_set ''userid'' i (spread [] entries))
      else if op = ''user.delete'' then Inr (''user.delete'', Arr [i])
      else if op = ''user.get'' then call ''user.get''
        [(''userids'', ids), outputs [''userid'', ''username'', ''name'', ''surname'', ''usrgrps'']]
      else if op = ''user.search'' then call ''user.get''
        [search_of ''username'' ps, outputs [''userid'', ''username'', ''name'', ''surname'', ''usrgrps''], limit]
      else if op \<in> {''user.enable'', ''user.unlock''} then Inr (into ''enableGroupId'' ''7'')
      else if op \<in> {''user.disable'', ''user.lock''} then Inr (into ''disableGroupId'' ''9'')
      else if op = CHANGE_CREDENTIAL_OP then call ''user.update''
        [(''userid'', i), (''passwd'', coalesce (js_get d ''newValue'') (js_get d ''password''))]
      else if op = ''user.resolve'' then call ''user.get''
        [(''filter'', Obj [(''username'', coalesce (js_get d ''username'') (js_get ps ''username''))]),
         outputs [''userid'', ''username'', ''name'', ''surname'']]
      else if op = ''user.addAttributes'' then call ''user.update'' (spread [(''userid'', i)] entries)
      else if op = ''user.removeAttributes''
      then call ''user.update'' (spread [(''userid'', i)] (map (\<lambda>e. (fst e, Str [])) entries))
      else if op = ''group.create'' then Inr (''usergroup.create'', data)
      else if op = ''group.update'' then call ''usergroup.update'' (js_set ''usrgrpid'' i (spread [] entries))
      else if op = ''group.delete'' then Inr (''usergroup.delete'', Arr [i])
      else if op = ''group.get'' then call ''usergroup.get'' [(''usrgrpids'', ids), outputs [''usrgrpid'', ''name'']]
      else if op = ''group.search'' then call ''usergroup.get'' [search_of ''name'' ps, outputs [''usrgrpid'', ''name''], limit]
      else if op \<in> {''group.addMember'', ''group.removeMember''}
      then Inl (JsError ''group.addMember/removeMember must be handled in execute()'')
      else if op \<in> {''system.test'', ''schema.get''} then call ''apiinfo.version'' []
      else if op = ''sync.full'' then call ''user.get'' [outputs [''userid'', ''username'', ''name'', ''surname'']]
      else if op = ''sync.incremental'' then call ''user.get''
        [outputs [''userid'', ''username'', ''name'', ''surname''], (''sortfield'', Str ''userid''), (''limit'', num 100)]
      else Inr (op, params))"

section \<open>Members of groups\<close>

text \<open>\<open>response[0]?.users ?? []\<close>\<close>

definition first_users :: "jsval \<Rightarrow> jsval result" where
  "first_users response =
     (let users = (\<lambda>v. coalesce (js_get (as_obj v) ''users'') (Arr [])) in
      case response of
        Undef \<Rightarrow> Inl type_error
      | Null \<Rightarrow> Inl type_error
      | Arr xs \<Rightarrow> Inr (users (case xs of [] \<Rightarrow> Undef | x # _ \<Rightarrow> x))
      | Obj kvs \<Rightarrow> Inr (users (js_get kvs ''0''))
      | _ \<Rightarrow> Inr (Arr []))"

definition getGroupUsers :: "http_env \<Rightarrow> obj \<Rightarrow> jsval \<Rightarrow> zabbix_auth \<Rightarrow> (jsval, 'b http_world_scheme) op" where
  "getGroupUsers env config i auth =
     sbind (zabbix_call env config ''usergroup.get''
       (Obj [(''usrgrpids'', Arr [i]), (''selectUsers'', Arr [Str ''userid''])]) (Some auth)) (\<lambda>r.
     lift_result (first_users r))"

text \<open>\<open>u.userid\<close> throws when \<open>u\<close> is no object at all.\<close>

definition user_is :: "jsval \<Rightarrow> jsval \<Rightarrow> bool result" where
  "user_is i u = (if nullish u then Inl type_error else Inr (strict_eq (js_get (as_obj u) ''userid'') i))"

fun has_user :: "jsval \<Rightarrow> jsval list \<Rightarrow> bool result" where
  "has_user i [] = Inr False"
| "has_user i (u # us) = ebind (user_is i u) (\<lambda>same. if same then Inr True else has_user i us)"

fun drop_user :: "jsval \<Rightarrow> jsval list \<Rightarrow> jsval list result" where
  "drop_user i [] = Inr []"
| "drop_user i (u # us) =
     ebind (user_is i u) (\<lambda>same. ebind (drop_user i us) (\<lambda>vs. Inr (if same then vs else u # vs)))"

definition updated_users :: "bool \<Rightarrow> jsval \<Rightarrow> jsval \<Rightarrow> jsval list result" where
  "updated_users add i current =
     (case current of
        Arr us \<Rightarrow>
          if add then ebind (has_user i us) (\<lambda>found. Inr (if found then us else us @ [Obj [(''userid'', i)]]))
          else drop_user i us
      | _ \<Rightarrow> Inl type_error)"

definition memberOperation :: "http_env \<Rightarrow> connector_payload \<Rightarrow> obj \<Rightarrow> (connector_result, 'b http_world_scheme) op" where
  "memberOperation env p config =
     (let ps = payload_part p ''params''; d = payload_part p ''data'';
          g = coalesce (coalesce (coalesce (js_get ps ''groupId'') (js_get d ''groupId'')) (js_get ps ''id'')) (js_get d ''id'');
          i = coalesce (js_get ps ''userId'') (js_get d ''userId'') in
      sbind (resolveAuth env config) (\<lambda>auth.
      if \<not> truthy g \<or> \<not> truthy i then ret (result_fail ''Missing groupId or userId for group member operation'')
      else sbind (getGroupUsers env config g auth) (\<lambda>current.
        sbind (lift_result (updated_users (operation p = ''group.addMember'') i current)) (\<lambda>us.
        sbind (zabbix_call env config ''usergroup.update'' (Obj [(''usrgrpid'', g), (''users'', Arr us)]) (Some auth)) (\<lambda>r.
        ret (result_ok r))))))"

section \<open>The connector\<close>

definition zabbix_plain :: "http_env \<Rightarrow> connector_payload \<Rightarrow> obj \<Rightarrow> (connector_result, 'b http_world_scheme) op" where
  "zabbix_plain env p config =
     sbind (lift_result (buildZabbixCall (operation p) (coalesce (js_get (body p) ''data'') (Obj []))
       (coalesce (js_get (body p) ''params'') (Obj [])) config)) (\<lambda>(method, zp).
     sbind (if method = ''apiinfo.version'' then ret None else sbind (resolveAuth env config) (\<lambda>a. ret (Some a))) (\<lambda>auth.
     sbind (zabbix_call env config method zp auth) (\<lambda>r. ret (result_ok r))))"

definition zabbix_execute :: "http_env \<Rightarrow> connector_payload \<Rightarrow> (connector_result, 'b http_world_scheme) op" where
  "zabbix_execute env p =
     (let config = as_obj (js_get (body p) ''config'') in
      if \<not> truthy (js_get config ''baseUrl'') then ret (result_fail ''Missing Zabbix config (baseUrl)'')
      else catch_op
        (if operation p \<in> {''group.addMember'', ''group.removeMember''} then memberOperation env p config
         else zabbix_plain env p config)
        (\<lambda>e. ret (result_fail (exn_message e))))"

definition zabbix_testConnection :: "http_env \<Rightarrow> jsval \<Rightarrow> (bool \<times> string, 'b http_world_scheme) op" where
  "zabbix_testConnection env cfg =
     (let config = as_obj cfg in
      if \<not> truthy (js_get config ''baseUrl'') then ret (False, ''Missing baseUrl in config'')
      else tested ''Zabbix connection failed''
        (sbind (if truthy (js_get config ''apiToken'') then sbind (resolveAuth env config) (\<lambda>a. ret (Some a)) else ret None) (\<lambda>auth.
         sbind (zabbix_call env config ''apiinfo.version'' (Obj []) auth) (\<lambda>_. ret ''Zabbix API reachable''))))"

definition ZABBIX_PARTIAL_OPERATIONS :: "(string \<times> string) list" where
  "ZABBIX_PARTIAL_OPERATIONS =
     [(''user.enable'', ''Mapped to configured enable user group; may replace existing group membership.''),
      (''user.disable'', ''Mapped to configured disable user group; may replace existing group membership.''),
      (''user.lock'', ''Zabbix has no separate IDM lock flag; mapped to configured disable user group.''),
      (''user.unlock'', ''Zabbix has no separate IDM unlock flag; mapped to configured enable user group.''),
      (''user.addAttributes'', ''Generic user.update mapping; supported fields depend on Zabbix user schema.''),
      (''user.removeAttributes'', ''Generic user.update mapping; requested fields are sent as empty strings.''),
      (''schema.get'', ''Returns Zabbix API version, not a full Avanpost IDM schema.''),
      (''sync.incremental'', ''Uses bounded user.get without a Zabbix change cursor or high-watermark.'')]"

definition zabbix_connector :: "http_env \<Rightarrow> 'b http_world_scheme connector" where
  "zabbix_connector env =
     \<lparr>conn_name = ''zabbix'', conn_execute = zabbix_execute env, conn_testConnection = zabbix_testConnection env,
      conn_getCapabilities = Some (createConnectorCapabilities ZABBIX_PARTIAL_OPERATIONS
        (\<lambda>f. f\<lparr>supportsIncrementalSync := False\<rparr>) []),
      conn_getSchema = None, conn_sync = None\<rparr>"

section \<open>Who sends what\<close>

text \<open>
  The simple values inside of a value, and those that the parameters of a request may be made of: the parts of the
  event's data and parameters (a text as its characters, when its entries are spread), the two configured group
  ids, the answers that the event has had so far, and some fixed texts. No other setting is among them.
\<close>

fun leaves :: "jsval \<Rightarrow> jsval list" where
  "leaves (Arr xs) = concat (map leaves xs)"
| "leaves (Obj kvs) = concat (map (\<lambda>(k, v). leaves v) kvs)"
| "leaves v = [v]"

definition zabbix_texts :: "jsval list" where
  "zabbix_texts =
     [Undef, num 50, num 100] @
     map Str [[], ''7'', ''9'', ''userid'', ''username'', ''name'', ''surname'', ''usrgrps'', ''usrgrpid'']"

definition event_leaves :: "connector_payload \<Rightarrow> jsval list" where
  "event_leaves p =
     leaves (js_get (body p) ''data'') @ leaves (js_get (body p) ''params'') @
     (case js_get (body p) ''data'' of Str s \<Rightarrow> map (\<lambda>c. Str [c]) s | _ \<Rightarrow> [])"

definition answer_leaves :: "http_exchange list \<Rightarrow> jsval list" where
  "answer_leaves sent = concat (map (\<lambda>(q, r). case r of Inr (status, data) \<Rightarrow> leaves data | Inl e \<Rightarrow> []) sent)"

definition made_of_event :: "connector_payload \<Rightarrow> obj \<Rightarrow> http_exchange list \<Rightarrow> jsval \<Rightarrow> bool" where
  "made_of_event p config sent v \<longleftrightarrow>
     set (leaves v) \<subseteq> set (zabbix_texts @ event_leaves p @ answer_leaves sent @
       leaves (js_get config ''enableGroupId'') @ leaves (js_get config ''disableGroupId''))"

text \<open>
  What a request of an event may be. The configured password is sent in a login, which happens only without a
  configured token. Any other request has parameters made of the event; it asks for the version, without a token, or
  it carries the configured token, or one that the server gave in answer to a login of the same event.
\<close>

definition token_given :: "obj \<Rightarrow> http_exchange list \<Rightarrow> string \<Rightarrow> bool" where
  "token_given config sent t \<longleftrightarrow>
     (\<exists>tls status data. (zabbix_request config ''user.login'' (zabbix_credentials config) None tls, Inr (status, data)) \<in> set sent \<and>
       zabbix_result data = Inr (Str t))"

definition auth_valid :: "obj \<Rightarrow> http_exchange list \<Rightarrow> zabbix_auth \<Rightarrow> bool" where
  "auth_valid config sent a \<longleftrightarrow>
     (case a of
        Bearer t \<Rightarrow> truthy t \<and> t = js_get config ''apiToken''
      | LegacyAuthField t \<Rightarrow> \<not> truthy (js_get config ''apiToken'') \<and> token_given config sent t)"

definition call_admitted :: "connector_payload \<Rightarrow> obj \<Rightarrow> http_exchange list \<Rightarrow> string \<Rightarrow> jsval \<Rightarrow> zabbix_auth option \<Rightarrow> bool" where
  "call_admitted p config sent method params auth \<longleftrightarrow>
     (case auth of
        None \<Rightarrow>
          method = ''user.login'' \<and> \<not> truthy (js_get config ''apiToken'') \<and>
            params = Obj [(''username'', js_get config ''username''), (''password'', js_get config ''password'')] \<or>
          method = ''apiinfo.version'' \<and> made_of_event p config sent params
      | Some a \<Rightarrow> method \<noteq> ''apiinfo.version'' \<and> auth_valid config sent a \<and> made_of_event p config sent params)"

definition zabbix_authorised :: "connector_payload \<Rightarrow> obj \<Rightarrow> http_exchange list \<Rightarrow> http_request \<Rightarrow> bool" where
  "zabbix_authorised p config sent q \<longleftrightarrow>
     hr_url q = string_of_val (js_get config ''baseUrl'') @ ''/api_jsonrpc.php'' \<and>
     (\<exists>method params auth tls. q = zabbix_request config method params auth tls \<and>
       call_admitted p config sent method params auth)"

text \<open>The parts of the parameters.\<close>

lemma leaves_get: "set (leaves (js_get kvs k)) \<subseteq> insert Undef (set (leaves (Obj kvs)))"
proof (cases "map_of kvs k")
  case (Some v)
  then have "(k, v) \<in> set kvs" by (rule map_of_SomeD)
  with Some show ?thesis by (auto simp: js_get_def)
qed (simp add: js_get_def)

lemma leaves_coalesce: "set (leaves (coalesce a b)) \<subseteq> set (leaves a) \<union> set (leaves b)"
  by (simp add: coalesce_def)

lemma leaves_set: "set (leaves (Obj (js_set k v a))) \<subseteq> set (leaves v) \<union> set (leaves (Obj a))"
  by (induction k v a rule: js_set.induct) auto

lemma leaves_spread: "set (leaves (Obj (spread a b))) \<subseteq> set (leaves (Obj a)) \<union> set (leaves (Obj b))"
proof (induction a b rule: spread.induct)
  case (2 a k v b)
  then show ?case using leaves_set [of k v a] by (simp add: subset_iff) blast
qed simp

lemma leaves_as_obj: "set (leaves (Obj (as_obj v))) \<subseteq> set (leaves v)"
  by (cases v) auto

lemma leaves_entries:
  "set (leaves (Obj (spread_entries v))) \<subseteq> set (leaves v) \<union> (case v of Str s \<Rightarrow> (\<lambda>c. Str [c]) ` set s | _ \<Rightarrow> {})"
  by (cases v) (auto simp: spread_entries_def indexed_def in_set_zip intro: bexI [OF _ nth_mem])

lemma leaves_as_coalesce: "set (leaves (Obj (as_obj (coalesce v (Obj []))))) \<subseteq> set (leaves v)"
  using leaves_as_obj [of v] by (auto simp: coalesce_def)

lemma made_of_parts:
  "made_of_event p config sent (Obj kvs) \<longleftrightarrow> (\<forall>(k, v) \<in> set kvs. made_of_event p config sent v)"
  "made_of_event p config sent (Arr vs) \<longleftrightarrow> (\<forall>v \<in> set vs. made_of_event p config sent v)"
  "made_of_event p config sent (Str s) \<longleftrightarrow> Str s \<in> set (zabbix_texts @ event_leaves p @ answer_leaves sent @
     leaves (js_get config ''enableGroupId'') @ leaves (js_get config ''disableGroupId''))"
  by (auto simp: made_of_event_def subset_iff split_beta)

lemma made_of_coalesce: "made_of_event p config sent a \<Longrightarrow> made_of_event p config sent b \<Longrightarrow> made_of_event p config sent (coalesce a b)"
  by (simp add: coalesce_def)

lemma made_of_get: "made_of_event p config sent (Obj kvs) \<Longrightarrow> made_of_event p config sent (js_get kvs k)"
  using leaves_get [of kvs k] by (force simp: made_of_event_def zabbix_texts_def)

lemma made_of_set:
  "made_of_event p config sent v \<Longrightarrow> made_of_event p config sent (Obj a) \<Longrightarrow> made_of_event p config sent (Obj (js_set k v a))"
  using leaves_set [of k v a] unfolding made_of_event_def by blast

lemma made_of_spread:
  "made_of_event p config sent (Obj a) \<Longrightarrow> made_of_event p config sent (Obj b) \<Longrightarrow> made_of_event p config sent (Obj (spread a b))"
  using leaves_spread [of a b] unfolding made_of_event_def by blast

lemma made_of_data:
  "made_of_event p config sent (coalesce (js_get (body p) ''data'') (Obj []))"
  "made_of_event p config sent (coalesce (js_get (body p) ''params'') (Obj []))"
  "made_of_event p config sent (Obj (as_obj (coalesce (js_get (body p) ''data'') (Obj []))))"
  "made_of_event p config sent (Obj (as_obj (coalesce (js_get (body p) ''params'') (Obj []))))"
  "made_of_event p config sent (Obj (spread_entries (coalesce (js_get (body p) ''data'') (Obj []))))"
proof -
  let ?d = "js_get (body p) ''data''" and ?ps = "js_get (body p) ''params''"
  have sub: "made_of_event p config sent v" if "set (leaves v) \<subseteq> set (event_leaves p)" for v
    using that by (auto simp: made_of_event_def)
  have event: "set (leaves ?d) \<subseteq> set (event_leaves p)" "set (leaves ?ps) \<subseteq> set (event_leaves p)"
    unfolding event_leaves_def set_append by blast+
  show "made_of_event p config sent (coalesce ?d (Obj []))" "made_of_event p config sent (coalesce ?ps (Obj []))"
    by (rule sub, use leaves_coalesce [of ?d "Obj []"] leaves_coalesce [of ?ps "Obj []"] event in simp)+
  show "made_of_event p config sent (Obj (as_obj (coalesce ?d (Obj []))))"
    "made_of_event p config sent (Obj (as_obj (coalesce ?ps (Obj []))))"
    by (rule sub, rule order_trans [OF leaves_as_coalesce], rule event)+
  have "set (leaves (Obj (spread_entries (coalesce ?d (Obj []))))) \<subseteq> set (event_leaves p)"
  proof (cases "nullish ?d")
    case True
    then show ?thesis by (simp add: coalesce_def spread_entries_def)
  next
    case False
    then show ?thesis using leaves_entries [of ?d] by (cases ?d) (auto simp del: leaves.simps(2) simp: coalesce_def event_leaves_def)
  qed
  then show "made_of_event p config sent (Obj (spread_entries (coalesce ?d (Obj []))))" by (rule sub)
qed

lemma made_of_given:
  "made_of_event p config sent (js_get config ''enableGroupId'')"
  "made_of_event p config sent (js_get config ''disableGroupId'')"
  "made_of_event p config sent (Num (Fin 50))" "made_of_event p config sent (Num (Fin 100))"
  "made_of_event p config sent Undef"
  by (auto simp: made_of_event_def zabbix_texts_def)

lemma blank_entries:
  "made_of_event p config sent (Obj (map (\<lambda>e. (fst e, Str [])) kvs))"
  by (auto simp: made_of_event_def zabbix_texts_def)

definition builds :: "(jsval \<Rightarrow> bool) \<Rightarrow> (string \<times> jsval) result \<Rightarrow> bool" where
  "builds good r \<longleftrightarrow> (case r of Inr (m, v) \<Rightarrow> good v | Inl e \<Rightarrow> True)"

lemma builds_intros:
  "builds good a \<Longrightarrow> builds good b \<Longrightarrow> builds good (if c then a else b)"
  "good v \<Longrightarrow> builds good (Inr (m, v))" "builds good (Inl e)"
  by (simp_all add: builds_def)

lemma built_of_event:
  "builds (made_of_event p config sent)
     (buildZabbixCall op (coalesce (js_get (body p) ''data'') (Obj [])) (coalesce (js_get (body p) ''params'') (Obj [])) config)"
proof -
  have texts: "made_of_event p config sent (Str t)" if "Str t \<in> set zabbix_texts" for t
    using that by (auto simp: made_of_event_def)
  note fixed = texts [unfolded zabbix_texts_def, simplified]
  note parts = made_of_coalesce made_of_get [OF made_of_data(3)] made_of_get [OF made_of_data(4)] made_of_data
    made_of_given blank_entries
  have single: "made_of_event p config sent v \<Longrightarrow> made_of_event p config sent (Arr [v])"
    "made_of_event p config sent v \<Longrightarrow> made_of_event p config sent (Obj [(k, v)])" for k v
    by (simp_all add: made_of_parts)
  show ?thesis
    unfolding buildZabbixCall_def Let_def outputs_def search_of_def
    by (intro builds_intros; (intro made_of_set made_of_spread)?; simp add: made_of_parts(1,2) parts made_of_data(5) [unfolded made_of_parts(1)] fixed single)
qed

text \<open>The world of an event that began with the log \<open>old\<close> and may send a call.\<close>

abbreviation zabbix_since :: "connector_payload \<Rightarrow> obj \<Rightarrow> http_exchange list \<Rightarrow> 'b http_world_scheme \<Rightarrow> bool" where
  "zabbix_since p config old \<equiv> http_grown (\<lambda>sent. zabbix_authorised p config (drop (length old) sent)) old"

lemma made_of_more: "made_of_event p config sent v \<Longrightarrow> made_of_event p config (sent @ further) v"
  by (auto simp: made_of_event_def answer_leaves_def)

lemma auth_valid_more: "auth_valid config sent a \<Longrightarrow> auth_valid config (sent @ further) a"
  by (cases a) (auto simp: auth_valid_def token_given_def)

lemma zabbix_call_log:
  "http_log (snd (zabbix_call env config m ps a w)) = http_log w \<or>
   (\<exists>tls r. http_log (snd (zabbix_call env config m ps a w)) = http_log w @ [(zabbix_request config m ps a tls, r)])"
  by (auto simp: zabbix_call_def sbind_def http_body_def http_send_def ret_def Let_def split: sum.split)

definition known :: "connector_payload \<Rightarrow> obj \<Rightarrow> http_exchange list \<Rightarrow> jsval set \<Rightarrow> zabbix_auth option \<Rightarrow> http_exchange list \<Rightarrow> bool" where
  "known p config old vs auth sent \<longleftrightarrow>
     length old \<le> length sent \<and>
     (case auth of None \<Rightarrow> True | Some a \<Rightarrow> auth_valid config (drop (length old) sent) a) \<and>
     (\<forall>v \<in> vs. made_of_event p config (drop (length old) sent) v)"

lemma known_more: "known p config old vs auth sent \<Longrightarrow> known p config old vs auth (sent @ further)"
  by (auto simp: known_def intro: auth_valid_more made_of_more split: option.split)

lemma zabbix_call_since:
  assumes "\<And>sent. known p config old vs auth sent \<Longrightarrow> call_admitted p config (drop (length old) sent) m ps auth"
  shows "preserves (\<lambda>w. zabbix_since p config old w \<and> known p config old vs auth (http_log w)) (zabbix_call env config m ps auth)"
  unfolding preserves_def
proof (intro allI impI)
  fix w r w' assume I: "zabbix_since p config old w \<and> known p config old vs auth (http_log w)"
    and run: "zabbix_call env config m ps auth w = (r, w')"
  then consider "http_log w' = http_log w" | tls x where "http_log w' = http_log w @ [(zabbix_request config m ps auth tls, x)]"
    using zabbix_call_log [of env config m ps auth w] by auto
  then show "zabbix_since p config old w' \<and> known p config old vs auth (http_log w')"
  proof cases
    case 2
    have "call_admitted p config (drop (length old) (http_log w)) m ps auth" using assms I by blast
    then have "zabbix_authorised p config (drop (length old) (http_log w)) (zabbix_request config m ps auth tls)"
      unfolding zabbix_authorised_def by (intro conjI exI) (simp_all add: zabbix_request_def zabbix_url_def)
    with I 2 show ?thesis by (simp add: known_more grown_snoc)
  qed (use I in simp)
qed

lemma since_length: "zabbix_since p config old w \<Longrightarrow> length old \<le> length (http_log w)"
  by (auto simp: grown_def)

lemma plain_call_since:
  assumes "\<And>sent. call_admitted p config sent m ps None"
  shows "preserves (zabbix_since p config old) (zabbix_call env config m ps None)"
  unfolding preserves_def
proof (intro allI impI)
  fix w r w' assume I: "zabbix_since p config old w" and run: "zabbix_call env config m ps None w = (r, w')"
  have "known p config old {} None (http_log w)" by (simp add: known_def since_length [OF I])
  with I preservesD [OF zabbix_call_since [of p config old "{}" None m ps, OF assms] run] show "zabbix_since p config old w'"
    by blast
qed

lemma login_since:
  "\<not> truthy (js_get config ''apiToken'') \<Longrightarrow> preserves (zabbix_since p config old) (zabbix_login env config)"
  unfolding zabbix_login_def
  by (intro preserves_sbind plain_call_since)
    (auto intro: preserves_basic simp: call_admitted_def zabbix_credentials_def split: jsval.split)

lemma resolve_since: "preserves (zabbix_since p config old) (resolveAuth env config)"
  unfolding resolveAuth_def by (auto intro!: preserves_basic preserves_sbind login_since)

lemma zabbix_call_given:
  assumes "zabbix_call env config m ps a w = (Inr v, w')"
  shows "\<exists>tls st data. http_log w' = http_log w @ [(zabbix_request config m ps a tls, Inr (st, data))] \<and> zabbix_result data = Inr v"
  using assms by (auto simp: zabbix_call_def sbind_def http_body_def http_send_def ret_def Let_def split: sum.splits)

lemma login_given:
  assumes "zabbix_login env config w = (Inr t, w')"
  shows "zabbix_call env config ''user.login'' (zabbix_credentials config) None w = (Inr (Str t), w')"
proof -
  obtain r w1 where run: "zabbix_call env config ''user.login'' (zabbix_credentials config) None w = (Inr r, w1)"
    "(case r of Str t \<Rightarrow> ret t | _ \<Rightarrow> raise (JsError ''Zabbix login failed: invalid response'')) w1 = (Inr t, w')"
    using assms unfolding zabbix_login_def sbind_Inr_iff by blast
  then show ?thesis by (cases r) simp_all
qed

lemma resolve_valid:
  assumes "zabbix_since p config old w" "resolveAuth env config w = (Inr a, w')"
  shows "known p config old {} (Some a) (http_log w')"
proof (cases "truthy (js_get config ''apiToken'')")
  case True
  with assms(2) have "a = Bearer (js_get config ''apiToken'')" "w' = w" by (auto simp: resolveAuth_def)
  with True since_length [OF assms(1)] show ?thesis by (simp add: known_def auth_valid_def)
next
  case False
  with assms(2) obtain t where t: "zabbix_login env config w = (Inr t, w')" "a = LegacyAuthField t"
    by (auto simp: resolveAuth_def sbind_Inr_iff split: if_splits)
  have "zabbix_call env config ''user.login'' (zabbix_credentials config) None w = (Inr (Str t), w')"
    by (rule login_given [OF t(1)])
  from zabbix_call_given [OF this] obtain tls st data where
    "http_log w' = http_log w @ [(zabbix_request config ''user.login'' (zabbix_credentials config) None tls, Inr (st, data))]"
    "zabbix_result data = Inr (Str t)" by blast
  with False t(2) since_length [OF assms(1)] show ?thesis
    by (auto simp: known_def auth_valid_def token_given_def)
qed

text \<open>Calls under an authentication, with parameters made of the known values.\<close>

lemma authed:
  assumes "m \<noteq> ''apiinfo.version''"
    and "\<And>sent. \<forall>v \<in> vs. made_of_event p config sent v \<Longrightarrow> made_of_event p config sent ps"
  shows "preserves (\<lambda>w. zabbix_since p config old w \<and> known p config old vs (Some a) (http_log w)) (zabbix_call env config m ps (Some a))"
  using assms by (intro zabbix_call_since) (simp add: known_def call_admitted_def)

lemma with_auth:
  assumes "\<And>a. preserves (\<lambda>w. zabbix_since p config old w \<and> known p config old {} (Some a) (http_log w)) (f a)"
  shows "preserves (zabbix_since p config old) (sbind (resolveAuth env config) f)"
  using resolve_since resolve_valid assms by (rule preserves_sbind_post)

lemma made_of_member:
  fixes p :: connector_payload
  defines "ps \<equiv> payload_part p ''params''" and "d \<equiv> payload_part p ''data''"
  shows "made_of_event p config sent
      (coalesce (coalesce (coalesce (js_get ps ''groupId'') (js_get d ''groupId'')) (js_get ps ''id'')) (js_get d ''id''))"
    and "made_of_event p config sent (coalesce (js_get ps ''userId'') (js_get d ''userId''))"
  unfolding ps_def d_def payload_part_def
  by (intro made_of_coalesce made_of_get made_of_data(3,4))+

text \<open>The users of a group come from the answer of the server.\<close>

lemma first_users_leaves:
  assumes "first_users r = Inr v"
  shows "set (leaves v) \<subseteq> insert Undef (set (leaves r))"
proof -
  have part: "set (leaves (coalesce (js_get kvs ''users'') (Arr []))) \<subseteq> insert Undef (set (leaves (Obj kvs)))" for kvs
    using order_trans [OF leaves_coalesce [of "js_get kvs ''users''" "Arr []"]] leaves_get [of kvs "''users''"]
    by (simp del: leaves.simps(2))
  have users: "set (leaves (coalesce (js_get (as_obj x) ''users'') (Arr []))) \<subseteq> insert Undef (set (leaves x))" for x
    using part [of "as_obj x"] leaves_as_obj [of x] by blast
  show ?thesis
  proof (cases r)
    case (Arr xs)
    with assms users [of Undef] users [of "hd xs"] show ?thesis
      by (cases xs) (auto simp del: leaves.simps(2) simp: first_users_def)
  next
    case (Obj kvs)
    with assms users [of "js_get kvs ''0''"] leaves_get [of kvs "''0''"] show ?thesis
      by (auto simp del: leaves.simps(2) simp: first_users_def)
  qed (use assms in \<open>auto simp: first_users_def\<close>)
qed

lemma group_users_known:
  assumes "getGroupUsers env config g a w = (Inr users, w')" "zabbix_since p config old w"
  shows "made_of_event p config (drop (length old) (http_log w')) users"
proof -
  obtain r where r: "zabbix_call env config ''usergroup.get''
      (Obj [(''usrgrpids'', Arr [g]), (''selectUsers'', Arr [Str ''userid''])]) (Some a) w = (Inr r, w')" "first_users r = Inr users"
    using assms(1) by (auto simp: getGroupUsers_def sbind_Inr_iff)
  from zabbix_call_given [OF r(1)] obtain q st data where
    sent: "http_log w' = http_log w @ [(q, Inr (st, data))]" and res: "zabbix_result data = Inr r" by blast
  have "set (leaves r) \<subseteq> insert Undef (set (leaves data))"
    using res leaves_get [of "as_obj data" "''result''"] leaves_as_obj [of data]
    by (auto simp del: leaves.simps(2) simp: zabbix_result_def Let_def split: if_splits)
  with first_users_leaves [OF r(2)] have "set (leaves users) \<subseteq> insert Undef (set (leaves data))" by blast
  with sent since_length [OF assms(2)] show ?thesis
    by (auto simp: made_of_event_def answer_leaves_def zabbix_texts_def)
qed

lemma updated_users_of_event:
  assumes "updated_users add i v = Inr us" "made_of_event p config sent v" "made_of_event p config sent i"
  shows "made_of_event p config sent (Arr us)"
proof -
  have dropped: "drop_user i xs = Inr vs \<Longrightarrow> set vs \<subseteq> set xs" for xs vs
    by (induction xs arbitrary: vs) (auto simp: ebind_def split: sum.splits if_splits)
  obtain xs where "v = Arr xs" using assms(1) by (cases v) (auto simp: updated_users_def)
  with assms show ?thesis
    by (auto simp: updated_users_def made_of_parts ebind_def split: if_splits sum.splits dest!: dropped)
qed

lemma updated_users_known:
  assumes "updated_users add i v = Inr us" "\<forall>x \<in> {v}. made_of_event p config sent x"
    "\<And>sent. made_of_event p config sent g" "\<And>sent. made_of_event p config sent i"
  shows "made_of_event p config sent (Obj [(''usrgrpid'', g), (''users'', Arr us)])"
  using assms updated_users_of_event [OF assms(1)] by (simp add: made_of_parts(1))

lemma known_users:
  assumes "preserves (\<lambda>w. zabbix_since p config old w \<and> known p config old {v} (Some a) (http_log w)) m"
  shows "preserves (\<lambda>w. (zabbix_since p config old w \<and> known p config old {} (Some a) (http_log w)) \<and>
     made_of_event p config (drop (length old) (http_log w)) v) m"
proof -
  have eq: "(\<lambda>w. (zabbix_since p config old w \<and> known p config old {} (Some a) (http_log w)) \<and>
     made_of_event p config (drop (length old) (http_log w)) v) =
     (\<lambda>w. zabbix_since p config old w \<and> known p config old {v} (Some a) (http_log w))"
    by (auto simp: known_def fun_eq_iff)
  show ?thesis unfolding eq by (rule assms)
qed

lemma update_since:
  assumes "\<And>sent. made_of_event p config sent g" "\<And>sent. made_of_event p config sent i"
  shows "preserves (\<lambda>w. zabbix_since p config old w \<and> known p config old {} (Some a) (http_log w))
    (sbind (getGroupUsers env config g a) (\<lambda>current.
     sbind (lift_result (updated_users add i current)) (\<lambda>us.
     sbind (zabbix_call env config ''usergroup.update'' (Obj [(''usrgrpid'', g), (''users'', Arr us)]) (Some a)) (\<lambda>r.
     ret (result_ok r)))))"
proof (rule preserves_sbind_post [where J = "\<lambda>v w. made_of_event p config (drop (length old) (http_log w)) v"])
  have "made_of_event p config sent (Str ''userid'')" for sent by (simp add: made_of_event_def zabbix_texts_def)
  with assms show "preserves (\<lambda>w. zabbix_since p config old w \<and> known p config old {} (Some a) (http_log w)) (getGroupUsers env config g a)"
    unfolding getGroupUsers_def by (intro preserves_sbind preserves_basic authed) (simp_all add: made_of_parts(1,2))
next
  fix v
  show "preserves (\<lambda>w. (zabbix_since p config old w \<and> known p config old {} (Some a) (http_log w)) \<and>
      made_of_event p config (drop (length old) (http_log w)) v)
    (sbind (lift_result (updated_users add i v)) (\<lambda>us.
     sbind (zabbix_call env config ''usergroup.update'' (Obj [(''usrgrpid'', g), (''users'', Arr us)]) (Some a)) (\<lambda>r.
     ret (result_ok r))))"
    by (intro known_users preserves_sbind_lift preserves_sbind preserves_basic authed)
      (simp, erule (1) updated_users_known [OF _ _ assms])
qed (simp add: group_users_known)

lemma member_since: "preserves (zabbix_since p config old) (memberOperation env p config)"
  unfolding memberOperation_def Let_def
  by (intro with_auth preserves_if preserves_basic update_since made_of_member)

lemma plain_since: "preserves (zabbix_since p config old) (zabbix_plain env p config)"
proof -
  have call: "preserves (zabbix_since p config old) (sbind (if m = ''apiinfo.version'' then ret None
      else sbind (resolveAuth env config) (\<lambda>a. ret (Some a))) (\<lambda>auth.
      sbind (zabbix_call env config m zp auth) (\<lambda>r. ret (result_ok r))))"
    if zp: "\<And>sent. made_of_event p config sent zp" for m zp
  proof (cases "m = ''apiinfo.version''")
    case True
    have "preserves (zabbix_since p config old) (sbind (zabbix_call env config m zp None) (\<lambda>r. ret (result_ok r)))"
      using True zp by (intro preserves_sbind plain_call_since preserves_basic) (simp add: call_admitted_def)
    with True show ?thesis by (simp add: preserves_def)
  next
    case False
    then show ?thesis using zp
      by (simp add: sbind_assoc) (intro with_auth preserves_sbind preserves_basic authed, simp_all)
  qed
  show ?thesis unfolding zabbix_plain_def
  proof (rule preserves_sbind_lift, unfold split_paired_all prod.case, rule call)
    fix m zp sent
    assume "buildZabbixCall (operation p) (coalesce (js_get (body p) ''data'') (Obj []))
      (coalesce (js_get (body p) ''params'') (Obj [])) config = Inr (m, zp)"
    with built_of_event [of p config sent "operation p"] show "made_of_event p config sent zp" by (simp add: builds_def)
  qed
qed

text \<open>
  C38: every request of an event goes to the configured server and is admitted. The configured password is sent in a
  login, and only without a configured token. The server is asked for its version without a token; every other
  request carries the configured token or one that the server handed out for this event. But for the login, the
  parameters of a request are made of the event, of earlier answers, of the two configured group ids and of fixed
  texts, so that no other setting gets into them.
\<close>

theorem zabbix_requests_are_authorised:
  "\<exists>new. http_log (snd (zabbix_execute env p w)) = http_log w @ new \<and>
    trace_ok (\<lambda>sent e. zabbix_authorised p (as_obj (js_get (body p) ''config'')) (drop (length (http_log w)) sent) (fst e))
      (http_log w) new"
proof -
  have "preserves (zabbix_since p (as_obj (js_get (body p) ''config'')) (http_log w)) (zabbix_execute env p)"
    unfolding zabbix_execute_def Let_def
    by (intro preserves_if preserves_catch preserves_basic member_since plain_since)
  from preserves_snd [OF this, of w] show ?thesis by (simp add: grown_def)
qed

section \<open>Members\<close>

definition zuser :: "string \<Rightarrow> jsval" where
  "zuser u = Obj [(''userid'', Str u)]"

definition rpc_result :: "jsval \<Rightarrow> jsval" where
  "rpc_result r = Obj [(''jsonrpc'', Str ''2.0''), (''result'', r), (''id'', num 1)]"

lemma zabbix_rpc_result [simp]: "zabbix_result (rpc_result r) = Inr r"
  by (simp add: zabbix_result_def rpc_result_def js_get_def nullish_def)

lemma user_is_zuser: "user_is i (zuser u) = Inr (strict_eq (Str u) i)"
  by (simp add: user_is_def zuser_def nullish_def js_get_def)

lemma has_user_zuser: "has_user i (map zuser us) = Inr (list_ex (\<lambda>u. strict_eq (Str u) i) us)"
  by (induction us) (auto simp: user_is_zuser)

lemma drop_user_zuser: "drop_user i (map zuser us) = Inr (map zuser (filter (\<lambda>u. \<not> strict_eq (Str u) i) us))"
  by (induction us) (auto simp: user_is_zuser)

text \<open>The users of the update, for the users \<open>us\<close> that the server has named.\<close>

definition users_after :: "bool \<Rightarrow> jsval \<Rightarrow> string list \<Rightarrow> jsval list" where
  "users_after add i us =
     (if add then map zuser us @ (if list_ex (\<lambda>u. strict_eq (Str u) i) us then [] else [Obj [(''userid'', i)]])
      else map zuser (filter (\<lambda>u. \<not> strict_eq (Str u) i) us))"

lemma updated_users_after: "updated_users add i (Arr (map zuser us)) = Inr (users_after add i us)"
  by (simp add: updated_users_def has_user_zuser drop_user_zuser users_after_def)

definition members_request :: "obj \<Rightarrow> jsval \<Rightarrow> http_request" where
  "members_request config g =
     zabbix_request config ''usergroup.get'' (Obj [(''usrgrpids'', Arr [g]), (''selectUsers'', Arr [Str ''userid''])])
       (Some (Bearer (js_get config ''apiToken''))) None"

definition update_request :: "obj \<Rightarrow> jsval \<Rightarrow> jsval list \<Rightarrow> http_request" where
  "update_request config g us =
     zabbix_request config ''usergroup.update'' (Obj [(''usrgrpid'', g), (''users'', Arr us)])
       (Some (Bearer (js_get config ''apiToken''))) None"

text \<open>A server that names the users of a group and takes the update of its users.\<close>

definition serves_members :: "http_env \<Rightarrow> http_world \<Rightarrow> obj \<Rightarrow> jsval \<Rightarrow> string list \<Rightarrow> jsval \<Rightarrow> bool" where
  "serves_members env w config g us r \<longleftrightarrow>
     (\<exists>st. he_answer env (http_log w) (members_request config g) =
        Inr (st, rpc_result (Arr [Obj [(''users'', Arr (map zuser us))]]))) \<and>
     (\<forall>sent us'. \<exists>st. he_answer env sent (update_request config g us') = Inr (st, rpc_result r))"

definition member_event :: "connector_payload \<Rightarrow> obj \<Rightarrow> jsval \<Rightarrow> jsval \<Rightarrow> bool" where
  "member_event p config g i \<longleftrightarrow>
     js_get (body p) ''config'' = Obj config \<and> js_get (body p) ''params'' = Obj [(''groupId'', g), (''userId'', i)] \<and>
     truthy g \<and> truthy i \<and> (\<exists>base. base \<noteq> [] \<and> js_get config ''baseUrl'' = Str base) \<and>
     truthy (js_get config ''apiToken'') \<and> js_get config ''tls'' = Undef"

lemma zabbix_call_run:
  assumes "js_get config ''baseUrl'' = Str base" "js_get config ''tls'' = Undef"
    and "he_answer env (http_log w) (zabbix_request config m ps a None) = Inr (st, rpc_result r)"
  shows "zabbix_call env config m ps a w =
    (Inr r, w\<lparr>http_log := http_log w @ [(zabbix_request config m ps a None, Inr (st, rpc_result r))]\<rparr>)"
proof -
  have "http_tls env (Str base) Undef ''Zabbix'' = Inr None"
    by (simp add: http_tls_def axiosConfig_def split: option.split)
  with assms show ?thesis by (simp add: zabbix_call_def http_body_def http_send_def sbind_def ret_def Let_def)
qed

lemma member_run:
  assumes event: "member_event p config g i" and op: "operation p \<in> {''group.addMember'', ''group.removeMember''}"
    and server: "serves_members env w config g us r"
  shows "fst (zabbix_execute env p w) = Inr (result_ok r)"
    and "map fst (http_log (snd (zabbix_execute env p w))) = map fst (http_log w) @
      [members_request config g, update_request config g (users_after (operation p = ''group.addMember'') i us)]"
proof -
  let ?us = "users_after (operation p = ''group.addMember'') i us"
  from event obtain base where base: "base \<noteq> []" "js_get config ''baseUrl'' = Str base" "js_get config ''tls'' = Undef"
    "truthy (js_get config ''apiToken'')" "truthy g" "truthy i" "js_get (body p) ''config'' = Obj config"
    and ps: "payload_part p ''params'' = [(''groupId'', g), (''userId'', i)]"
    by (auto simp: member_event_def payload_part_def coalesce_def nullish_def)
  have ids: "js_get (payload_part p ''params'') ''groupId'' = g" "js_get (payload_part p ''params'') ''userId'' = i"
    by (simp_all add: ps js_get_def)
  have real: "coalesce g v = g" "coalesce i v = i" for v using base(5,6) by (auto simp: coalesce_def nullish_def)
  from server obtain st where get: "he_answer env (http_log w) (members_request config g) =
      Inr (st, rpc_result (Arr [Obj [(''users'', Arr (map zuser us))]]))" by (auto simp: serves_members_def)
  define w1 where "w1 = w\<lparr>http_log := http_log w @ [(members_request config g,
    Inr (st, rpc_result (Arr [Obj [(''users'', Arr (map zuser us))]])))]\<rparr>"
  from server obtain st' where put: "he_answer env (http_log w1) (update_request config g ?us) = Inr (st', rpc_result r)"
    unfolding serves_members_def by blast
  have users: "first_users (Arr [Obj [(''users'', Arr (map zuser us))]]) = Inr (Arr (map zuser us))"
    by (simp add: first_users_def js_get_def coalesce_def nullish_def)
  have run: "memberOperation env p config w = (Inr (result_ok r),
      w1\<lparr>http_log := http_log w1 @ [(update_request config g ?us, Inr (st', rpc_result r))]\<rparr>)"
    using zabbix_call_run [OF base(2,3) get [unfolded members_request_def], folded members_request_def, folded w1_def]
      zabbix_call_run [OF base(2,3) put [unfolded update_request_def], folded update_request_def] base(4-6) users
    unfolding memberOperation_def Let_def ids real resolveAuth_def getGroupUsers_def
    by (simp add: sbind_def updated_users_after)
  then have "zabbix_execute env p w = (Inr (result_ok r),
      w1\<lparr>http_log := http_log w1 @ [(update_request config g ?us, Inr (st', rpc_result r))]\<rparr>)"
    using op base(1,2,7) by (auto simp: zabbix_execute_def catch_op_def)
  then show "fst (zabbix_execute env p w) = Inr (result_ok r)"
    and "map fst (http_log (snd (zabbix_execute env p w))) =
      map fst (http_log w) @ [members_request config g, update_request config g ?us]"
    by (simp_all add: w1_def)
qed

text \<open>
  A user that is named by a text is added to the members or taken out, and no other member changes.
\<close>

theorem member_update_is_exact:
  assumes "member_event p config g (Str x)" "serves_members env w config g us r"
    and "operation p \<in> {''group.addMember'', ''group.removeMember''}"
  shows "\<exists>us'. map fst (http_log (snd (zabbix_execute env p w))) =
      map fst (http_log w) @ [members_request config g, update_request config g (map zuser us')] \<and>
    set us' = (if operation p = ''group.addMember'' then insert x (set us) else set us - {x})"
proof -
  have "users_after (operation p = ''group.addMember'') (Str x) us = map zuser
      (if operation p = ''group.addMember'' then us @ (if x \<in> set us then [] else [x]) else filter (\<lambda>u. u \<noteq> x) us)"
    by (auto simp: users_after_def zuser_def list_ex_iff)
  then show ?thesis using member_run(2) [OF assms(1,3,2)] by (intro exI conjI) (assumption?, auto split: if_splits)
qed

text \<open>
  A numeric user id is never removed. Zabbix names its users by texts, and the members are compared with
  \<open>===\<close>, so the event whose user id is the number of a member sends all members back and is answered as a success.
\<close>

theorem numeric_member_is_never_removed:
  assumes "member_event p config g (num n)" "serves_members env w config g us r" "operation p = ''group.removeMember''"
  shows "zabbix_execute env p w = (Inr (result_ok r), snd (zabbix_execute env p w)) \<and>
    map fst (http_log (snd (zabbix_execute env p w))) =
      map fst (http_log w) @ [members_request config g, update_request config g (map zuser us)]"
proof -
  have "users_after False (num n) us = map zuser us" by (simp add: users_after_def)
  then show ?thesis using member_run [OF assms(1) _ assms(2)] assms(3) by (simp add: prod_eq_iff)
qed

definition demo_zabbix_config :: obj where
  "demo_zabbix_config = [(''baseUrl'', Str ''https://zabbix''), (''apiToken'', Str ''t'')]"

definition demo_removal :: connector_payload where
  "demo_removal =
     \<lparr>operation = ''group.removeMember'', targetSystem = ''zabbix'',
      body = [(''config'', Obj demo_zabbix_config), (''params'', Obj [(''groupId'', Str ''7''), (''userId'', num 3)])]\<rparr>"

definition demo_zabbix :: "http_request \<Rightarrow> (nat \<times> jsval) result" where
  "demo_zabbix q =
     Inr (200, rpc_result (if js_get (as_obj (hr_data q)) ''method'' = Str ''usergroup.get''
       then Arr [Obj [(''users'', Arr [zuser ''2'', zuser ''3''])]] else Null))"

theorem numeric_member_is_never_removed_witness:
  "map fst (http_log (snd (zabbix_execute (demo_http_env demo_zabbix) demo_removal demo_http_world))) =
     [members_request demo_zabbix_config (Str ''7''),
      update_request demo_zabbix_config (Str ''7'') [zuser ''2'', zuser ''3'']]"
proof -
  have "member_event demo_removal demo_zabbix_config (Str ''7'') (num 3)"
    by (simp add: member_event_def demo_removal_def demo_zabbix_config_def js_get_def)
  moreover have "serves_members (demo_http_env demo_zabbix) demo_http_world demo_zabbix_config (Str ''7'') [''2'', ''3''] Null"
    by (simp add: serves_members_def demo_http_env_def demo_zabbix_def members_request_def update_request_def
        zabbix_request_def zabbix_body_def js_get_def)
  ultimately show ?thesis
    using numeric_member_is_never_removed [of demo_removal demo_zabbix_config "Str ''7''" 3 "demo_http_env demo_zabbix"
        demo_http_world "[''2'', ''3'']" Null]
    by (simp add: demo_removal_def demo_http_world_def)
qed

end
