(* ===== verification/PassworkConnector.thy ===== *)
theory PassworkConnector
  imports HttpKit
begin

text \<open>
  Models \<open>connectors/implementations/passwork-connector/passwork-connector.service.ts\<close>: users and user
  groups of a Passwork server. The JSON text of a value in a query is an argument, and so is which of two
  concurrent reads fails first.
\<close>

section \<open>Values of an event\<close>

record passwork_env = http_env +
  pe_stringify :: "jsval \<Rightarrow> string"
  pe_second_first :: bool

definition toOptionalString :: "jsval \<Rightarrow> string option" where
  "toOptionalString v = (case v of Str s \<Rightarrow> Some s | Num _ \<Rightarrow> Some (string_of_val v) | Bool _ \<Rightarrow> Some (string_of_val v) | _ \<Rightarrow> None)"

definition first_of :: "obj \<Rightarrow> obj \<Rightarrow> string list \<Rightarrow> jsval" where
  "first_of params data ks = firstValue (concat (map (\<lambda>k. [js_get params k, js_get data k]) ks))"

definition requireId :: "string option \<Rightarrow> string result" where
  "requireId v =
     (case v of
        Some (c # s) \<Rightarrow> Inr (encodeURIComponent (c # s))
      | _ \<Rightarrow> Inl (JsError ''Missing id for Passwork operation''))"

section \<open>Queries\<close>

definition toQueryValue :: "passwork_env \<Rightarrow> jsval \<Rightarrow> string" where
  "toQueryValue env v =
     (case toOptionalString v of
        Some s \<Rightarrow> s
      | None \<Rightarrow> if v = Undef then ''undefined'' else if v = Null then ''null'' else pe_stringify env v)"

definition query_pairs :: "passwork_env \<Rightarrow> obj \<Rightarrow> (string \<times> string) list" where
  "query_pairs env query =
     concat (map (\<lambda>(k, v).
       if blank v then []
       else case v of
         Arr items \<Rightarrow> map (\<lambda>i. (k, toQueryValue env i)) items
       | _ \<Rightarrow> [(k, toQueryValue env v)]) query)"

definition appendQuery :: "passwork_env \<Rightarrow> string \<Rightarrow> obj \<Rightarrow> string" where
  "appendQuery env path query =
     (let suffix = form_query (query_pairs env query) in
      if suffix \<noteq> [] then path @ ''?'' @ suffix else path)"

definition pickQuery :: "obj \<Rightarrow> obj \<Rightarrow> obj" where
  "pickQuery source defaults =
     filter (\<lambda>(k, v). \<not> blank v \<and> k \<notin> {''id'', ''userId'', ''groupId''}) (spread (spread [] source) defaults)"

definition searchQuery :: "jsval \<Rightarrow> jsval \<Rightarrow> obj" where
  "searchQuery data params =
     (let d = as_obj data; ps = as_obj params in
      pickQuery (spread_entries params)
        [(''search'', first_of ps d [''search'', ''query'', ''filter'']),
         (''limit'', first_of ps d [''limit'']), (''offset'', first_of ps d [''offset''])])"

section \<open>Requests\<close>

record passwork_request =
  pr_method :: string
  pr_path :: string
  pr_body :: jsval

definition present_texts :: "jsval list \<Rightarrow> string list" where
  "present_texts vs = filter (\<lambda>s. s \<noteq> []) (concat (map (\<lambda>v. case toOptionalString v of Some s \<Rightarrow> [s] | None \<Rightarrow> []) vs))"

definition memberUserIds :: "obj \<Rightarrow> obj \<Rightarrow> string list" where
  "memberUserIds d ps =
     (case firstValue [js_get d ''userIds'', js_get ps ''userIds''] of
        Arr vs \<Rightarrow> present_texts vs
      | _ \<Rightarrow> present_texts [first_of ps d [''userId'']])"

definition id_request :: "string \<Rightarrow> string \<Rightarrow> string option \<Rightarrow> string \<Rightarrow> jsval \<Rightarrow> passwork_request result" where
  "id_request method collection i rest content =
     ebind (requireId i) (\<lambda>seg. Inr \<lparr>pr_method = method, pr_path = collection @ seg @ rest, pr_body = content\<rparr>)"

definition resolve_query :: "jsval \<Rightarrow> jsval \<Rightarrow> obj" where
  "resolve_query data params =
     (let d = as_obj data; ps = as_obj params in
      pickQuery (spread_entries params)
        [(''username'', first_of ps d [''username'', ''login'']), (''email'', first_of ps d [''email'']),
         (''search'', first_of ps d [''filter'', ''query'', ''username'', ''email''])])"

definition buildRequest :: "passwork_env \<Rightarrow> string \<Rightarrow> jsval \<Rightarrow> jsval \<Rightarrow> passwork_request result" where
  "buildRequest env op data params =
     (let d = as_obj data; ps = as_obj params;
          i = toOptionalString (first_of ps d [''id'', ''userId'']);
          g = toOptionalString (first_of ps d [''groupId'', ''id'']);
          query = searchQuery data params;
          plain = (\<lambda>m path content. Inr \<lparr>pr_method = m, pr_path = path, pr_body = content\<rparr>);
          user = (\<lambda>m rest content. id_request m ''/users/'' i rest content);
          grp = (\<lambda>m rest content. id_request m ''/user-groups/'' g rest content) in
      if op = ''user.create'' then plain ''POST'' ''/users'' data
      else if op = ''user.update'' then user ''PATCH'' [] data
      else if op = ''user.delete'' then user ''DELETE'' [] Undef
      else if op = ''user.get'' then user ''GET'' [] Undef
      else if op = ''user.search'' then plain ''GET'' (appendQuery env ''/users'' query) Undef
      else if op = ''user.resolve'' then plain ''GET'' (appendQuery env ''/users'' (resolve_query data params)) Undef
      else if op \<in> {''user.disable'', ''user.lock''} then user ''POST'' ''/block'' Undef
      else if op \<in> {''user.enable'', ''user.unlock''} then user ''POST'' ''/unblock'' Undef
      else if op = ''group.create'' then plain ''POST'' ''/user-groups'' data
      else if op = ''group.update'' then grp ''POST'' [] data
      else if op = ''group.delete'' then grp ''DELETE'' [] Undef
      else if op = ''group.get'' then grp ''GET'' [] Undef
      else if op = ''group.search'' then plain ''GET'' (appendQuery env ''/user-groups'' query) Undef
      else if op \<in> {''group.addMember'', ''group.removeMember''}
      then (let ids = memberUserIds d ps in
        if ids = [] then Inl (JsError ''Missing userId or userIds for group member operation'')
        else grp ''POST'' (if op = ''group.addMember'' then ''/add-users'' else ''/remove-users'')
          (Obj [(''userIds'', Arr (map Str ids))]))
      else if op = ''system.test'' then plain ''GET'' ''/sessions/current/info'' Undef
      else Inl (JsError (''Unsupported Passwork operation: '' @ op)))"

definition getAuthToken :: "obj \<Rightarrow> jsval" where
  "getAuthToken config =
     (if truthy (js_get config ''accessToken'') then js_get config ''accessToken'' else js_get config ''apiToken'')"

definition apiBaseUrl :: "jsval \<Rightarrow> string result" where
  "apiBaseUrl v = (case v of Str s \<Rightarrow> Inr (strip_slashes s @ ''/api/v1'') | _ \<Rightarrow> Inl type_error)"

definition passwork_headers :: "obj \<Rightarrow> obj" where
  "passwork_headers config =
     json_headers @ [(''Authorization'', Str (''Bearer '' @ string_of_val (getAuthToken config))),
       (''X-Response-Format'', coalesce (js_get config ''responseFormat'') (Str ''raw''))] @
     (if truthy (js_get config ''masterKeyHash'') then [(''Passwork-MasterKeyHash'', js_get config ''masterKeyHash'')] else [])"

definition passwork_http :: "passwork_env \<Rightarrow> obj \<Rightarrow> passwork_request \<Rightarrow> http_request result" where
  "passwork_http env config q =
     ebind (apiBaseUrl (js_get config ''baseUrl'')) (\<lambda>base.
     if \<not> truthy (getAuthToken config) then Inl (JsError ''Missing Passwork config (accessToken or apiToken)'')
     else ebind (http_tls env (js_get config ''baseUrl'') (js_get config ''tls'') ''Passwork'') (\<lambda>tls.
       Inr \<lparr>hr_method = pr_method q, hr_url = base @ pr_path q, hr_data = pr_body q, hr_headers = passwork_headers config,
         hr_timeout = coalesce (js_get config ''timeout'') (num 30000), hr_tls = tls\<rparr>))"

definition passwork_call :: "passwork_env \<Rightarrow> obj \<Rightarrow> passwork_request \<Rightarrow> (jsval, 'b http_world_scheme) op" where
  "passwork_call env config q = sbind (lift_result (passwork_http env config q)) (http_body env)"

text \<open>The secrets are cut out one after the other, in the order of their settings.\<close>

definition sanitizeError :: "exn \<Rightarrow> obj \<Rightarrow> string" where
  "sanitizeError e config =
     fold redact_secret (filter truthy (map (js_get config) [''accessToken'', ''apiToken'', ''masterKeyHash''])) (exn_message e)"

definition passwork_read :: "string \<Rightarrow> passwork_request" where
  "passwork_read path = \<lparr>pr_method = ''GET'', pr_path = path, pr_body = Undef\<rparr>"

section \<open>Groups of a new user\<close>

fun first_array :: "obj \<Rightarrow> string list \<Rightarrow> jsval list" where
  "first_array rec [] = []"
| "first_array rec (k # ks) = (case js_get rec k of Arr vs \<Rightarrow> vs | _ \<Rightarrow> first_array rec ks)"

definition collectionItems :: "jsval \<Rightarrow> jsval list" where
  "collectionItems response =
     (case response of Arr vs \<Rightarrow> vs | Obj rec \<Rightarrow> first_array rec [''groups'', ''data'', ''items'', ''rows''] | _ \<Rightarrow> [])"

fun find_group :: "string \<Rightarrow> string \<Rightarrow> jsval list \<Rightarrow> jsval result" where
  "find_group key v [] = Inr Undef"
| "find_group key v (item # items) =
     (if nullish item then Inl type_error
      else if toOptionalString (js_get (as_obj item) key) = Some v then Inr item
      else find_group key v items)"

definition group_id :: "string \<Rightarrow> jsval list \<Rightarrow> string \<Rightarrow> string result" where
  "group_id key items v =
     ebind (find_group key v items) (\<lambda>row.
     case toOptionalString (js_get (as_obj row) ''id'') of
       Some (c # s) \<Rightarrow> Inr (c # s)
     | _ \<Rightarrow> Inl (JsError (''Passwork user group not found by '' @ key @ '': '' @ v)))"

definition resolveGroupIds :: "passwork_env \<Rightarrow> obj \<Rightarrow> string list \<Rightarrow> string \<Rightarrow> (string list, 'b http_world_scheme) op" where
  "resolveGroupIds env config vs key =
     (let wanted = unique vs in
      if wanted = [] then ret []
      else sbind (passwork_call env config (passwork_read (appendQuery env ''/user-groups'' [(''limit'', num 500)]))) (\<lambda>response.
        lift_result (map_exn (group_id key (collectionItems response)) wanted)))"

definition group_refs :: "obj \<Rightarrow> obj \<Rightarrow> (group_mode \<times> string list) result" where
  "group_refs config data =
     ebind (groupMappingSettings config) (\<lambda>mapping.
     ebind (if gs_enabled mapping \<and> js_get config ''defaultGroups'' \<noteq> Undef
       then groupRefValues (js_get config ''defaultGroups'') (gs_mode mapping) ''defaultGroups'' else Inr []) (\<lambda>defaults.
     ebind (if gs_enabled mapping then groupRefValues (js_get data ''groups'') (gs_mode mapping) ''groups'' else Inr []) (\<lambda>incoming.
     Inr (gs_mode mapping, map group_text (defaults @ incoming)))))"

definition resolveUserGroupMapping :: "passwork_env \<Rightarrow> obj \<Rightarrow> obj \<Rightarrow> (string list, 'b http_world_scheme) op" where
  "resolveUserGroupMapping env config data =
     sbind (lift_result (group_refs config data)) (\<lambda>(mode, refs).
     if refs = [] then ret []
     else if mode = ById then ret refs
     else resolveGroupIds env config refs (mode_key mode))"

definition responseId :: "jsval \<Rightarrow> string option" where
  "responseId response =
     (let rec = as_obj response in
      case toOptionalString (js_get rec ''id'') of
        Some s \<Rightarrow> Some s
      | None \<Rightarrow> toOptionalString (js_get (as_obj (js_get rec ''data'')) ''id''))"

definition assignment :: "string \<Rightarrow> string \<Rightarrow> passwork_request result" where
  "assignment user g = id_request ''POST'' ''/user-groups/'' (Some g) ''/add-users'' (Obj [(''userIds'', Arr [Str user])])"

definition applyUserGroupMapping ::
  "passwork_env \<Rightarrow> obj \<Rightarrow> obj \<Rightarrow> jsval \<Rightarrow> string list \<Rightarrow> (unit, 'b http_world_scheme) op" where
  "applyUserGroupMapping env config data response gs =
     (let user = (case responseId response of Some s \<Rightarrow> Some s | None \<Rightarrow> toOptionalString (js_get data ''id'')) in
      if gs = [] then ret ()
      else case user of
        Some (c # s) \<Rightarrow> each_op (\<lambda>g. sbind (lift_result (assignment (c # s) g)) (\<lambda>q.
          sbind (passwork_call env config q) (\<lambda>_. ret ()))) gs
      | _ \<Rightarrow> raise (JsError ''Passwork user.create did not return user id for group mapping''))"

section \<open>The connector\<close>

definition PASSWORK_PARTIAL_OPERATIONS :: "(string \<times> string) list" where
  "PASSWORK_PARTIAL_OPERATIONS =
     [(''user.enable'', ''Mapped to Passwork unblock endpoint; Passwork has no separate IDM enable flag.''),
      (''user.disable'', ''Mapped to Passwork block endpoint; Passwork has no separate IDM disable flag.''),
      (''user.lock'', ''Mapped to Passwork block endpoint; Passwork has no separate IDM lock flag.''),
      (''user.unlock'', ''Mapped to Passwork unblock endpoint; Passwork has no separate IDM unlock flag.''),
      (''schema.get'', ''Returns idmMw Passwork user/group schema, not the full Passwork API schema.''),
      (''sync.full'', ''Reads Passwork users and user groups without decrypted secrets.'')]"

definition PASSWORK_UNSUPPORTED_OPERATIONS :: "(string \<times> string) list" where
  "PASSWORK_UNSUPPORTED_OPERATIONS =
     [(''user.changePassword'', ''Passwork password item and secret rotation operations are out of scope for the IAM connector.''),
      (''user.addAttributes'', ''Passwork user custom attribute mapping is not defined in the v1 IAM connector.''),
      (''user.removeAttributes'', ''Passwork user custom attribute removal mapping is not defined in the v1 IAM connector.''),
      (''sync.incremental'', ''Passwork API overview does not expose a stable IDM change cursor; use sync.full.'')]"

definition passwork_unsupported :: "string \<Rightarrow> string option" where
  "passwork_unsupported op =
     map_option (\<lambda>r. ''Unsupported Passwork operation: '' @ op @ ''. '' @ r) (map_of PASSWORK_UNSUPPORTED_OPERATIONS op)"

definition localSchema :: jsval where
  "localSchema =
     Obj [(''objectClasses'', Arr
       [Obj [(''name'', Str ''user''), (''attributes'', Arr
          [attribute ''id'' ''string'' False False, attribute ''username'' ''string'' True False,
           attribute ''email'' ''string'' False False, attribute ''roleId'' ''string'' False False,
           attribute ''isBlocked'' ''boolean'' False False])],
        Obj [(''name'', Str ''group''), (''attributes'', Arr
          [attribute ''id'' ''string'' False False, attribute ''name'' ''string'' True False,
           attribute ''userIds'' ''array'' False True])]])]"

text \<open>The settings without which nothing is sent.\<close>

definition passwork_config_error :: "obj \<Rightarrow> string option" where
  "passwork_config_error config =
     (if \<not> truthy (js_get config ''baseUrl'') then Some ''Missing Passwork config (baseUrl)''
      else if \<not> truthy (getAuthToken config) then Some ''Missing Passwork config (accessToken or apiToken)'' else None)"

definition passwork_guarded :: "obj \<Rightarrow> (connector_result, 'w) op \<Rightarrow> (connector_result, 'w) op" where
  "passwork_guarded config m = catch_op m (\<lambda>e. ret (result_fail (sanitizeError e config)))"

definition both_reads :: "passwork_env \<Rightarrow> obj \<Rightarrow> passwork_request \<Rightarrow> passwork_request \<Rightarrow> (jsval \<times> jsval, 'b http_world_scheme) op" where
  "both_reads env config q1 q2 w =
     (let (r1, w1) = passwork_call env config q1 w; (r2, w2) = passwork_call env config q2 w1 in
      (case (r1, r2) of
         (Inr a, Inr b) \<Rightarrow> Inr (a, b)
       | (Inl e, Inr _) \<Rightarrow> Inl e
       | (Inr _, Inl e) \<Rightarrow> Inl e
       | (Inl e1, Inl e2) \<Rightarrow> Inl (if pe_second_first env then e2 else e1), w2))"

definition passwork_sync :: "passwork_env \<Rightarrow> connector_payload \<Rightarrow> string \<Rightarrow> (connector_result, 'b http_world_scheme) op" where
  "passwork_sync env p mode =
     (let config = as_obj (js_get (body p) ''config''); params = coalesce (js_get (body p) ''params'') (Obj []);
          query = pickQuery (spread_entries params)
            [(''limit'', coalesce (js_get (as_obj params) ''limit'') (num 500)), (''offset'', js_get (as_obj params) ''offset'')] in
      if mode = ''incremental'' then ret (result_fail (the (passwork_unsupported ''sync.incremental'')))
      else case passwork_config_error config of
        Some m \<Rightarrow> ret (result_fail m)
      | None \<Rightarrow> passwork_guarded config
          (sbind (both_reads env config (passwork_read (appendQuery env ''/users'' query))
             (passwork_read (appendQuery env ''/user-groups'' query))) (\<lambda>(users, groups).
           ret (result_ok (Obj [(''mode'', Str ''full''), (''users'', users), (''groups'', groups)])))))"

definition isUserWriteOperation :: "string \<Rightarrow> bool" where
  "isUserWriteOperation op \<longleftrightarrow> op = ''user.create'' \<or> op = ''user.update''"

definition passwork_run :: "passwork_env \<Rightarrow> connector_payload \<Rightarrow> obj \<Rightarrow> (connector_result, 'b http_world_scheme) op" where
  "passwork_run env p config =
     (let data = coalesce (js_get (body p) ''data'') (Obj []); params = coalesce (js_get (body p) ''params'') (Obj []);
          creating = (operation p = ''user.create'') in
      sbind (lift_result (buildRequest env (operation p)
        (if isUserWriteOperation (operation p) then withoutGenericGroups data else data) params)) (\<lambda>q.
      sbind (if creating then resolveUserGroupMapping env config (as_obj data) else ret []) (\<lambda>gs.
      sbind (passwork_call env config q) (\<lambda>response.
      sbind (if creating then applyUserGroupMapping env config (as_obj data) response gs else ret ()) (\<lambda>_.
      ret (result_ok response))))))"

definition passwork_execute :: "passwork_env \<Rightarrow> connector_payload \<Rightarrow> (connector_result, 'b http_world_scheme) op" where
  "passwork_execute env p =
     (let config = as_obj (js_get (body p) ''config'') in
      case passwork_config_error config of
        Some m \<Rightarrow> ret (result_fail m)
      | None \<Rightarrow>
          (case passwork_unsupported (operation p) of
             Some m \<Rightarrow> ret (result_fail m)
           | None \<Rightarrow>
               if operation p = ''schema.get'' then ret (result_ok localSchema)
               else if operation p = ''sync.full'' then passwork_sync env p ''full''
               else passwork_guarded config (passwork_run env p config)))"

definition passwork_getSchema :: "passwork_env \<Rightarrow> connector_payload \<Rightarrow> (connector_result, 'b http_world_scheme) op" where
  "passwork_getSchema env p = passwork_execute env (p\<lparr>operation := ''schema.get''\<rparr>)"

definition passwork_testConnection :: "passwork_env \<Rightarrow> jsval \<Rightarrow> (bool \<times> string, 'b http_world_scheme) op" where
  "passwork_testConnection env cfg =
     (let config = as_obj cfg in
      if \<not> truthy (js_get config ''baseUrl'') then ret (False, ''Missing baseUrl in config'')
      else if \<not> truthy (getAuthToken config) then ret (False, ''Missing accessToken or apiToken in config'')
      else catch_op (sbind (passwork_call env config (passwork_read ''/sessions/current/info''))
          (\<lambda>_. ret (True, ''Passwork API reachable'')))
        (\<lambda>e. ret (False, ''Passwork connection failed: '' @ sanitizeError e config)))"

definition passwork_capabilities :: connector_capabilities where
  "passwork_capabilities =
     \<lparr>cap_operations = AVANPOST_OPERATIONS, cap_readOperations = READ_OPERATIONS, cap_writeOperations = WRITE_OPERATIONS,
      cap_flags = all_capabilities\<lparr>supportsIncrementalSync := False\<rparr>,
      cap_operationStatus = map (\<lambda>op. (op,
        case map_of PASSWORK_UNSUPPORTED_OPERATIONS op of
          Some r \<Rightarrow> Unsupported r
        | None \<Rightarrow> (case map_of PASSWORK_PARTIAL_OPERATIONS op of Some r \<Rightarrow> Partial r | None \<Rightarrow> Implemented))) AVANPOST_OPERATIONS,
      cap_partialOperations = Some PASSWORK_PARTIAL_OPERATIONS\<rparr>"

definition passwork_connector :: "passwork_env \<Rightarrow> 'b http_world_scheme connector" where
  "passwork_connector env =
     \<lparr>conn_name = ''passwork'', conn_execute = passwork_execute env, conn_testConnection = passwork_testConnection env,
      conn_getCapabilities = Some passwork_capabilities, conn_getSchema = Some (passwork_getSchema env),
      conn_sync = Some (passwork_sync env)\<rparr>"

section \<open>Where the requests go\<close>

text \<open>
  The endpoints that the connector asks for. A part of the path that comes from an id is not empty and its characters
  are those of one part of a path; it is no encoded spelling of dots.
\<close>

definition encoded_dots :: "string \<Rightarrow> bool" where
  "encoded_dots seg \<longleftrightarrow> to_lower seg \<in> {''%2e'', ''.%2e'', ''%2e.'', ''%2e%2e''}"

definition id_part :: "string \<Rightarrow> bool" where
  "id_part seg \<longleftrightarrow> segment seg \<and> \<not> encoded_dots seg"

definition endpoint :: "string \<Rightarrow> bool" where
  "endpoint path \<longleftrightarrow>
     path \<in> {''/users'', ''/user-groups'', ''/sessions/current/info''} \<or>
     (\<exists>q. list_all query_char q \<and> path \<in> {''/users?'' @ q, ''/user-groups?'' @ q}) \<or>
     (\<exists>seg rest. id_part seg \<and> rest \<in> {'''', ''/block'', ''/unblock''} \<and> path = ''/users/'' @ seg @ rest) \<or>
     (\<exists>seg rest. id_part seg \<and> rest \<in> {'''', ''/add-users'', ''/remove-users''} \<and> path = ''/user-groups/'' @ seg @ rest)"

text \<open>
  What the HTTP client makes of a path: the parts of one or two dots, in any spelling, are resolved (a part of two
  dots with nothing before it would leave the interface), and a path that ends with one gets an empty last part.
\<close>

fun resolve_dots :: "string list \<Rightarrow> string list \<Rightarrow> string list option" where
  "resolve_dots acc [] = Some (rev acc)"
| "resolve_dots acc (s # ss) =
     (if to_lower s \<in> {''..'', ''.%2e'', ''%2e.'', ''%2e%2e''}
      then case acc of [] \<Rightarrow> None | x # acc' \<Rightarrow> resolve_dots (if ss = [] then [] # acc' else acc') ss
      else if to_lower s \<in> {''.'', ''%2e''} then resolve_dots (if ss = [] then [] # acc else acc) ss
      else resolve_dots (s # acc) ss)"

definition requested_parts :: "string \<Rightarrow> string list option" where
  "requested_parts path = resolve_dots [] (split_on (CHR ''/'') (takeWhile (\<lambda>c. c \<noteq> CHR ''?'') (drop 1 path)))"

text \<open>
  The parts that arrive: an endpoint with the id as one part, or, when the id was one dot or two, the collection with
  an empty last part, the root of the interface, or one of them with the name of an action.
\<close>

definition api_parts :: "string list set" where
  "api_parts =
     {[''users''], [''user-groups''], [''sessions'', ''current'', ''info'']} \<union>
     {''users'' # seg # rest | seg rest. segment seg \<and> seg \<notin> {''.'', ''..''} \<and> rest \<in> {[], [''block''], [''unblock'']}} \<union>
     {''user-groups'' # seg # rest | seg rest. segment seg \<and> seg \<notin> {''.'', ''..''} \<and> rest \<in> {[], [''add-users''], [''remove-users'']}}"

definition dotted_parts :: "string \<Rightarrow> string \<Rightarrow> string \<Rightarrow> string list" where
  "dotted_parts collection dots rest = (if dots = ''.'' then [collection, drop 1 rest] else [drop 1 rest])"

definition arrives :: "string \<Rightarrow> bool" where
  "arrives path \<longleftrightarrow>
     (\<exists>parts. requested_parts path = Some parts \<and> parts \<in> api_parts) \<or>
     (\<exists>collection dots rest. collection \<in> {''users'', ''user-groups''} \<and> dots \<in> {''.'', ''..''} \<and>
       path = ''/'' @ collection @ ''/'' @ dots @ rest \<and> requested_parts path = Some (dotted_parts collection dots rest))"

lemma api_partsI:
  "path \<in> {''users'', ''user-groups''} \<Longrightarrow> [path] \<in> api_parts"
  "[''sessions'', ''current'', ''info''] \<in> api_parts"
  "segment seg \<Longrightarrow> seg \<notin> {''.'', ''..''} \<Longrightarrow> rest \<in> {[], ''/block'', ''/unblock''} \<Longrightarrow>
    ''users'' # seg # (if rest = [] then [] else [drop 1 rest]) \<in> api_parts"
  "segment seg \<Longrightarrow> seg \<notin> {''.'', ''..''} \<Longrightarrow> rest \<in> {[], ''/add-users'', ''/remove-users''} \<Longrightarrow>
    ''user-groups'' # seg # (if rest = [] then [] else [drop 1 rest]) \<in> api_parts"
  unfolding api_parts_def by (blast, blast, (rule UnI1, rule UnI2, auto)[1], rule UnI2, auto)

text \<open>An encoded text spells no dots but its own.\<close>

lemma hex_two_e:
  assumes "n < 256" "hex_digit (n div 16) = CHR ''2''" "lower_char (hex_digit (n mod 16)) = CHR ''e''"
  shows "n = 46"
proof -
  have code: "of_char (hex_digit k) = (if k < 10 then 48 + k else 55 + k)" if "k < 16" for k :: nat
    using that by (simp add: hex_digit_def)
  have small: "n div 16 < 16" "n mod 16 < 16" using assms(1) by auto
  have "of_char (hex_digit (n div 16)) = (50 :: nat)" by (simp add: assms(2))
  then have "n div 16 = 2" using code [OF small(1)] by (simp split: if_splits)
  have "of_char (lower_char (hex_digit (n mod 16))) = (101 :: nat)" by (simp add: assms(3))
  then have "n mod 16 = 14" using code [OF small(2)] small(2) by (simp add: lower_char_def Let_def split: if_splits)
  with \<open>n div 16 = 2\<close> div_mult_mod_eq [of n 16] show ?thesis by simp
qed

lemma encoded_Cons:
  "encodeURIComponent (c # s) =
     (if is_alnum c \<or> c \<in> set ''-_.!~*()'' \<or> c = CHR 0x27 then [c]
      else let n = of_char c in
        if n < 128 then percent n else percent (192 + n div 64) @ percent (128 + n mod 64)) @ encodeURIComponent s"
  by (simp add: encodeURIComponent_def)

lemma no_encoded_dot: "encodeURIComponent s \<noteq> CHR ''%'' # CHR ''2'' # e # rest" if "lower_char e = CHR ''e''" for e
proof (cases s)
  case (Cons c t)
  define n where "n = (of_char c :: nat)"
  have n: "n < 256" by (simp add: n_def)
  show ?thesis
  proof (cases "is_alnum c \<or> c \<in> set ''-_.!~*()'' \<or> c = CHR 0x27")
    case True
    then have "c \<noteq> CHR ''%''" by (auto simp: is_alnum_def is_alpha_def is_digit10_def is_upper_def is_lower_def Let_def)
    with True Cons show ?thesis by (simp add: encoded_Cons)
  next
    case False
    show ?thesis
    proof
      assume eq: "encodeURIComponent s = CHR ''%'' # CHR ''2'' # e # rest"
      have "n div 64 < 4" using n by (intro less_mult_imp_div_less) simp
      define m where "m = (if n < 128 then n else 192 + n div 64)"
      have "take 3 (encodeURIComponent s) = percent m"
        using False Cons by (simp add: encoded_Cons percent_def m_def n_def [symmetric] Let_def)
      then have "percent m = [CHR ''%'', CHR ''2'', e]" using eq by simp
      moreover have "m < 256" "m = n \<or> 192 \<le> m" using \<open>n div 64 < 4\<close> n by (auto simp: m_def)
      ultimately have m: "m < 256" "hex_digit (m div 16) = CHR ''2''" "hex_digit (m mod 16) = e" "m = n \<or> 192 \<le> m"
        by (simp_all add: percent_def)
      then have "m = 46" using hex_two_e that by blast
      with m(4) have "of_char c = (46 :: nat)" by (simp add: n_def)
      then have "of_char c = (of_char (CHR ''.'') :: nat)" by simp
      then have "c = CHR ''.''" by (simp only: of_char_eq_iff)
      with False show False by simp
    qed
  qed
qed (simp add: encodeURIComponent_def)

lemma dot_first: "encodeURIComponent s = CHR ''.'' # u \<Longrightarrow> \<exists>t. u = encodeURIComponent t"
  by (cases s) (auto simp: encoded_Cons percent_def Let_def encodeURIComponent_def split: if_splits)

lemma of_char_of_small: "n < 256 \<Longrightarrow> of_char (char_of n) = (n :: nat)"
  by simp

lemma less_char_bound: "n \<le> 222 \<Longrightarrow> n + 32 < (256 :: nat)"
  by simp

lemma lower_dot: "lower_char c = CHR ''.'' \<longleftrightarrow> c = CHR ''.''" "lower_char c = CHR ''%'' \<longleftrightarrow> c = CHR ''%''"
  "lower_char c = CHR ''2'' \<longleftrightarrow> c = CHR ''2''"
proof -
  have plain: "lower_char c = d \<longleftrightarrow> c = d" if d: "(of_char d :: nat) < 65" for d
  proof
    assume l: "lower_char c = d"
    show "c = d"
    proof (rule ccontr)
      assume "c \<noteq> d"
      then have "lower_char c = char_of (of_char c + 32 :: nat)" "65 \<le> (of_char c :: nat)" "(of_char c :: nat) \<le> 222"
        using l by (auto simp: lower_char_def Let_def split: if_splits)
      with l have "of_char d = (of_char c + 32 :: nat)" by (metis less_char_bound of_char_of_small)
      with d \<open>65 \<le> of_char c\<close> show False by simp
    qed
  next
    assume "c = d"
    with d show "lower_char c = d" by (simp add: lower_char_def Let_def)
  qed
  show "lower_char c = CHR ''.'' \<longleftrightarrow> c = CHR ''.''" "lower_char c = CHR ''%'' \<longleftrightarrow> c = CHR ''%''"
    "lower_char c = CHR ''2'' \<longleftrightarrow> c = CHR ''2''" by (rule plain, simp)+
qed

lemma encoded_id_part: "id_part (encodeURIComponent (c # s))"
proof -
  let ?seg = "encodeURIComponent (c # s)"
  have "\<not> encoded_dots ?seg"
  proof
    assume "encoded_dots ?seg"
    then consider e rest where "?seg = CHR ''%'' # CHR ''2'' # e # rest" "lower_char e = CHR ''e''"
      | e where "?seg = CHR ''.'' # CHR ''%'' # CHR ''2'' # e # []" "lower_char e = CHR ''e''"
      by (auto simp: encoded_dots_def to_lower_def map_eq_Cons_conv lower_dot)
    then show False
    proof cases
      case 1
      then show False using no_encoded_dot by blast
    next
      case 2
      then show False using dot_first [OF 2(1)] no_encoded_dot by metis
    qed
  qed
  moreover have "segment ?seg" by (rule encoded_segment) simp
  ultimately show ?thesis by (simp add: id_part_def)
qed

text \<open>Where the endpoints arrive.\<close>

lemma id_part_no_slash:
  assumes "id_part seg"
  shows "CHR ''/'' \<notin> set seg" "CHR ''?'' \<notin> set seg" "seg \<noteq> []"
proof -
  have "\<not> seg_char (CHR ''/'')" "\<not> seg_char (CHR ''?'')" by code_simp+
  with assms show "CHR ''/'' \<notin> set seg" "CHR ''?'' \<notin> set seg" "seg \<noteq> []"
    by (auto simp: id_part_def segment_def list_all_iff)
qed

lemma dots_lower: "to_lower seg = ''.'' \<longleftrightarrow> seg = ''.''" "to_lower seg = ''..'' \<longleftrightarrow> seg = ''..''"
  by (auto simp: to_lower_def map_eq_Cons_conv lower_dot)

text \<open>The names of the collections and actions are no dots.\<close>

lemma plain_names:
  "list_all (\<lambda>s. to_lower s \<notin> {''..'', ''.%2e'', ''%2e.'', ''%2e%2e'', ''.'', ''%2e''})
     [''users'', ''user-groups'', ''block'', ''unblock'', ''add-users'', ''remove-users'']"
  by code_simp

lemma resolve_plain:
  assumes "s \<in> {''users'', ''user-groups'', ''block'', ''unblock'', ''add-users'', ''remove-users''}"
  shows "resolve_dots acc (s # ss) = resolve_dots (s # acc) ss"
proof -
  have "to_lower s \<notin> {''..'', ''.%2e'', ''%2e.'', ''%2e%2e'', ''.'', ''%2e''}"
    using plain_names unfolding list_all_iff by (rule bspec) (use assms in simp)
  then show ?thesis by simp
qed

lemma resolve_id:
  assumes "id_part seg"
  shows "resolve_dots [x] (seg # ss) =
    (if seg = ''..'' then resolve_dots (if ss = [] then [[]] else []) ss
     else if seg = ''.'' then resolve_dots (if ss = [] then [[], x] else [x]) ss
     else resolve_dots [seg, x] ss)"
proof -
  have "to_lower seg \<notin> {''%2e'', ''.%2e'', ''%2e.'', ''%2e%2e''}" using assms by (simp add: id_part_def encoded_dots_def)
  then show ?thesis by (simp add: dots_lower)
qed

lemma id_endpoint_arrives:
  assumes "id_part seg"
    and "(collection, rest) \<in> {''users''} \<times> {[], ''/block'', ''/unblock''} \<union> {''user-groups''} \<times> {[], ''/add-users'', ''/remove-users''}"
  shows "arrives (''/'' @ collection @ ''/'' @ seg @ rest)"
proof -
  note seg = id_part_no_slash [OF assms(1)]
  let ?path = "collection @ CHR ''/'' # seg @ rest"
  have "CHR ''?'' \<notin> set ?path" using assms(2) seg by auto
  then have "takeWhile (\<lambda>c. c \<noteq> CHR ''?'') ?path = ?path" by (auto simp: takeWhile_eq_all_conv)
  moreover have "split_on (CHR ''/'') ?path = collection # seg # (if rest = [] then [] else [drop 1 rest])"
    using assms(2) seg by (auto simp: split_on_append split_on_no_sep)
  moreover have "drop 1 (''/'' @ collection @ ''/'' @ seg @ rest) = ?path" by simp
  ultimately have parts: "requested_parts (''/'' @ collection @ ''/'' @ seg @ rest) =
      resolve_dots [] (collection # seg # (if rest = [] then [] else [drop 1 rest]))"
    by (simp only: requested_parts_def)
  have more: "resolve_dots acc (if rest = [] then [] else [drop 1 rest]) = Some (rev acc @ (if rest = [] then [] else [drop 1 rest]))" for acc
    using assms(2) resolve_plain [of "drop 1 rest" acc "[]"] by auto
  have first: "resolve_dots [] (collection # ss) = resolve_dots [collection] ss" for ss
    using assms(2) by (intro resolve_plain) auto
  note resolved = parts [unfolded first resolve_id [OF assms(1)]]
  show ?thesis
  proof (cases "seg \<in> {''.'', ''..''}")
    case True
    then have "requested_parts (''/'' @ collection @ ''/'' @ seg @ rest) = Some (dotted_parts collection seg rest)"
    proof (cases "rest = []")
      case True
      with \<open>seg \<in> {''.'', ''..''}\<close> show ?thesis unfolding resolved by (auto simp: dotted_parts_def)
    next
      case False
      then have "resolve_dots acc [drop 1 rest] = Some (rev acc @ [drop 1 rest])" for acc using more by (simp only: if_False)
      with False True show ?thesis unfolding resolved
        by (auto simp: dotted_parts_def simp del: resolve_dots.simps(2) One_nat_def)
    qed
    with True assms(2) show ?thesis unfolding arrives_def by blast
  next
    case False
    then have "requested_parts (''/'' @ collection @ ''/'' @ seg @ rest) = Some (collection # seg # (if rest = [] then [] else [drop 1 rest]))"
      unfolding resolved by (simp add: more)
    moreover have "collection # seg # (if rest = [] then [] else [drop 1 rest]) \<in> api_parts"
      using assms(2) False assms(1) unfolding id_part_def by (elim UnE SigmaE2) (simp_all add: api_partsI)
    ultimately show ?thesis unfolding arrives_def by blast
  qed
qed

lemma query_endpoint: "path \<in> {''/users'', ''/user-groups''} \<Longrightarrow> endpoint (appendQuery env path query)"
  using form_query_chars by (auto simp: appendQuery_def Let_def endpoint_def)

lemma id_endpoint:
  assumes "id_request m collection i rest content = Inr q"
    and "(collection, rest) \<in> {''/users/''} \<times> {'''', ''/block'', ''/unblock''} \<union> {''/user-groups/''} \<times> {'''', ''/add-users'', ''/remove-users''}"
  shows "pr_method q = m \<and> endpoint (pr_path q)"
proof -
  from assms(1) obtain c s where q: "pr_method q = m" "pr_path q = collection @ encodeURIComponent (c # s) @ rest"
    by (auto simp: id_request_def requireId_def ebind_Inr_iff split: option.splits list.splits)
  have "id_part (encodeURIComponent (c # s))" by (rule encoded_id_part)
  with assms(2) show ?thesis unfolding q endpoint_def by auto
qed

definition good_request :: "passwork_request \<Rightarrow> bool" where
  "good_request q \<longleftrightarrow> pr_method q \<in> {''GET'', ''POST'', ''PATCH'', ''DELETE''} \<and> endpoint (pr_path q)"

lemma read_good: "endpoint path \<Longrightarrow> good_request (passwork_read path)"
  by (simp add: good_request_def passwork_read_def)

definition good_result :: "passwork_request result \<Rightarrow> bool" where
  "good_result r \<longleftrightarrow> (\<forall>q. r = Inr q \<longrightarrow> good_request q)"

lemma good_results:
  "good_result (Inl e)" "good_result a \<Longrightarrow> good_result b \<Longrightarrow> good_result (if c then a else b)"
  "endpoint path \<Longrightarrow> m \<in> {''GET'', ''POST'', ''PATCH'', ''DELETE''} \<Longrightarrow>
    good_result (Inr \<lparr>pr_method = m, pr_path = path, pr_body = content\<rparr>)"
  "m \<in> {''GET'', ''POST'', ''PATCH'', ''DELETE''} \<Longrightarrow> rest \<in> {'''', ''/block'', ''/unblock''} \<Longrightarrow>
    good_result (id_request m ''/users/'' i rest content)"
  "m \<in> {''GET'', ''POST'', ''PATCH'', ''DELETE''} \<Longrightarrow> rest \<in> {'''', ''/add-users'', ''/remove-users''} \<Longrightarrow>
    good_result (id_request m ''/user-groups/'' i rest content)"
  using id_endpoint [of m "''/users/''"] id_endpoint [of m "''/user-groups/''"]
  by (simp_all add: good_result_def good_request_def)

lemma plain_endpoints: "endpoint ''/users''" "endpoint ''/user-groups''" "endpoint ''/sessions/current/info''"
  by (simp_all add: endpoint_def)

lemma buildRequest_good: "good_result (buildRequest env op data params)"
  unfolding buildRequest_def Let_def
  by (intro good_results query_endpoint plain_endpoints; simp)

lemma good_resultD: "good_result r \<Longrightarrow> r = Inr q \<Longrightarrow> good_request q"
  by (simp add: good_result_def)

lemma collection_arrives:
  assumes "path \<in> {''users'', ''user-groups''}" "q = [] \<or> (\<exists>q'. q = CHR ''?'' # q')"
  shows "arrives (''/'' @ path @ q)"
proof -
  have no: "CHR ''?'' \<notin> set path" "CHR ''/'' \<notin> set path" using assms(1) by auto
  have "takeWhile (\<lambda>c. c \<noteq> CHR ''?'') (path @ q) = path"
  proof -
    have "takeWhile (\<lambda>c. c \<noteq> CHR ''?'') (path @ q) = path @ takeWhile (\<lambda>c. c \<noteq> CHR ''?'') q"
      using no(1) by (intro takeWhile_append2) metis
    then show ?thesis using assms(2) by (elim disjE exE) simp_all
  qed
  moreover have "drop 1 (''/'' @ path @ q) = path @ q" by simp
  ultimately have "requested_parts (''/'' @ path @ q) = resolve_dots [] [path]"
    by (simp only: requested_parts_def split_on_no_sep [OF no(2)])
  also have "\<dots> = Some [path]" using resolve_plain [of path "[]" "[]"] assms(1) by auto
  finally show ?thesis unfolding arrives_def by (intro disjI1 exI conjI) (assumption, rule api_partsI(1) [OF assms(1)])
qed

lemma endpoint_arrives: "endpoint path \<Longrightarrow> arrives path"
proof -
  have info: "arrives ''/sessions/current/info''"
  proof -
    have "requested_parts ''/sessions/current/info'' = Some [''sessions'', ''current'', ''info'']" by code_simp
    then show ?thesis using api_partsI(2) unfolding arrives_def by blast
  qed
  have plain: "arrives ''/users''" "arrives ''/user-groups''"
    using collection_arrives [of "''users''" "[]"] collection_arrives [of "''user-groups''" "[]"] by simp_all
  have query: "arrives (''/users?'' @ q)" "arrives (''/user-groups?'' @ q)" for q
    using collection_arrives [of "''users''" "CHR ''?'' # q"] collection_arrives [of "''user-groups''" "CHR ''?'' # q"] by simp_all
  have ids: "arrives (''/users/'' @ seg @ rest)" if "id_part seg" "rest \<in> {[], ''/block'', ''/unblock''}" for seg rest
    using id_endpoint_arrives [of seg "''users''" rest] that by simp
  have group_ids: "arrives (''/user-groups/'' @ seg @ rest)" if "id_part seg" "rest \<in> {[], ''/add-users'', ''/remove-users''}" for seg rest
    using id_endpoint_arrives [of seg "''user-groups''" rest] that by simp
  assume "endpoint path"
  then show ?thesis unfolding endpoint_def using info plain query ids group_ids by blast
qed

text \<open>A request to an endpoint below the configured address, with the headers of the configuration.\<close>

definition in_api :: "obj \<Rightarrow> http_request \<Rightarrow> bool" where
  "in_api config q \<longleftrightarrow>
     (\<exists>base path. js_get config ''baseUrl'' = Str base \<and> hr_url q = strip_slashes base @ ''/api/v1'' @ path \<and>
       endpoint path \<and> arrives path) \<and>
     hr_method q \<in> {''GET'', ''POST'', ''PATCH'', ''DELETE''} \<and> hr_headers q = passwork_headers config"

abbreviation api_grown :: "obj \<Rightarrow> http_exchange list \<Rightarrow> 'b http_world_scheme \<Rightarrow> bool" where
  "api_grown config old \<equiv> http_grown (\<lambda>_. in_api config) old"

lemma call_grown: "good_request q \<Longrightarrow> preserves (api_grown config old) (passwork_call env config q)"
  unfolding passwork_call_def
  by (intro preserves_sbind_lift http_body_grown)
     (auto simp: passwork_http_def apiBaseUrl_def in_api_def good_request_def ebind_Inr_iff endpoint_arrives split: jsval.splits if_splits)

lemma read_grown:
  "path \<in> {''/users'', ''/user-groups''} \<Longrightarrow>
   preserves (api_grown config old) (passwork_call env config (passwork_read (appendQuery env path query)))"
  by (intro call_grown read_good query_endpoint)

lemma both_grown:
  assumes "preserves I (passwork_call env config q1)" "preserves I (passwork_call env config q2)"
  shows "preserves I (both_reads env config q1 q2)"
  unfolding preserves_def both_reads_def Let_def
  by (auto split: prod.splits dest: preservesD [OF assms(1)] preservesD [OF assms(2)])

lemma guarded_grown: "preserves I m \<Longrightarrow> preserves I (passwork_guarded config m)"
  unfolding passwork_guarded_def by (intro preserve_intros)

lemma sync_grown:
  "preserves (api_grown (as_obj (js_get (body p) ''config'')) old) (passwork_sync env p mode)"
  unfolding passwork_sync_def Let_def
  by (intro preserves_if preserves_option preserves_basic guarded_grown preserves_sbind both_grown read_grown)
     (auto intro: preserves_basic split: prod.split)

lemma resolve_grown: "preserves (api_grown config old) (resolveUserGroupMapping env config data)"
  unfolding resolveUserGroupMapping_def resolveGroupIds_def Let_def
  by (intro preserves_sbind preserves_basic)
     (auto intro!: preserves_basic preserves_sbind read_grown split: prod.split)

lemma assignment_good: "good_result (assignment user g)"
  unfolding assignment_def by (rule good_results) simp_all

lemma passwork_apply_grown: "preserves (api_grown config old) (applyUserGroupMapping env config data response gs)"
  unfolding applyUserGroupMapping_def Let_def
  by (auto split: option.split list.split intro!: preserves_basic preserves_each preserves_sbind preserves_sbind_lift call_grown
      good_resultD [OF assignment_good])

lemma passwork_run_grown: "preserves (api_grown config old) (passwork_run env p config)"
  unfolding passwork_run_def Let_def
  by (intro preserves_sbind_lift preserves_sbind preserves_if preserves_basic call_grown resolve_grown passwork_apply_grown)
     (rule good_resultD [OF buildRequest_good])


section \<open>Users and their groups\<close>

text \<open>A new user whose groups cannot be resolved is not created: until then the connector only reads.\<close>

lemma resolve_reads:
  "preserves (http_grown (\<lambda>_ q. hr_method q = ''GET'') old) (resolveUserGroupMapping env config data)"
  unfolding resolveUserGroupMapping_def resolveGroupIds_def passwork_call_def Let_def
  by (intro preserves_sbind preserves_basic)
     (auto intro!: preserves_basic preserves_sbind preserves_sbind_lift http_body_grown
       simp: passwork_http_def passwork_read_def ebind_Inr_iff split: prod.split if_splits)

definition creates_user :: "connector_payload \<Rightarrow> obj \<Rightarrow> obj \<Rightarrow> bool" where
  "creates_user p config data \<longleftrightarrow>
     operation p = ''user.create'' \<and> js_get (body p) ''config'' = Obj config \<and> js_get (body p) ''data'' = Obj data \<and>
     passwork_config_error config = None"

lemma create_run:
  assumes "creates_user p config data"
  shows "passwork_execute env p = passwork_guarded config
    (sbind (resolveUserGroupMapping env config data) (\<lambda>gs.
     sbind (passwork_call env config \<lparr>pr_method = ''POST'', pr_path = ''/users'', pr_body = withoutGenericGroups (Obj data)\<rparr>) (\<lambda>response.
     sbind (applyUserGroupMapping env config data response gs) (\<lambda>_. ret (result_ok response)))))"
  using assms
  by (simp add: creates_user_def passwork_execute_def passwork_run_def passwork_unsupported_def
      PASSWORK_UNSUPPORTED_OPERATIONS_def buildRequest_def isUserWriteOperation_def coalesce_def nullish_def Let_def)

theorem unknown_group_creates_no_user:
  assumes "creates_user p config data" "resolveUserGroupMapping env config data w = (Inl e, w')"
  shows "passwork_execute env p w = (Inr (result_fail (sanitizeError e config)), w')"
    and "\<exists>new. http_log w' = http_log w @ new \<and> list_all (\<lambda>x. hr_method (fst x) = ''GET'') new"
proof -
  show "passwork_execute env p w = (Inr (result_fail (sanitizeError e config)), w')"
    unfolding create_run [OF assms(1)] using assms(2) by (simp add: passwork_guarded_def catch_op_def sbind_def)
  show "\<exists>new. http_log w' = http_log w @ new \<and> list_all (\<lambda>x. hr_method (fst x) = ''GET'') new"
    using preserves_snd [OF resolve_reads [where old = "http_log w"], of w env config data] assms(2)
    by (auto simp: grown_def trace_ok_each)
qed

text \<open>
  But a group that cannot be assigned leaves the user behind: the creation is not undone, the event is answered as
  a failure, and its retry creates the user again.
\<close>

theorem failed_assignment_leaves_user:
  assumes "creates_user p config data" "resolveUserGroupMapping env config data w = (Inr gs, w1)"
    and "passwork_call env config \<lparr>pr_method = ''POST'', pr_path = ''/users'', pr_body = withoutGenericGroups (Obj data)\<rparr> w1 =
      (Inr response, w2)"
    and "applyUserGroupMapping env config data response gs w2 = (Inl e, w3)"
  shows "passwork_execute env p w = (Inr (result_fail (sanitizeError e config)), w3)"
  unfolding create_run [OF assms(1)] using assms(2-4) by (simp add: passwork_guarded_def catch_op_def sbind_def)

section \<open>Corners\<close>

text \<open>
  A part of a path may be two dots, which a URL parser resolves: the deletion of this user is the deletion of the
  collection's parent.
\<close>

theorem dots_leave_the_collection:
  "buildRequest env ''user.delete'' (Obj []) (Obj [(''id'', Str ''..'')]) =
     Inr \<lparr>pr_method = ''DELETE'', pr_path = ''/users/..'', pr_body = Undef\<rparr>"
proof -
  have "encodeURIComponent ''..'' = ''..''" by code_simp
  then show ?thesis
    by (simp add: buildRequest_def id_request_def requireId_def first_of_def js_get_def blank_def toOptionalString_def Let_def)
qed

text \<open>Secrets are cut out one after the other, so one that begins another leaves the rest of it readable.\<close>

theorem shorter_secret_reveals_longer_one:
  "sanitizeError (JsError ''refused abcdef'') [(''accessToken'', Str ''abc''), (''apiToken'', Str ''abcdef'')] =
     ''refused [REDACTED]def''"
  by code_simp

end
