(* ===== verification/SecretResolver.thy ===== *)
theory SecretResolver
  imports ConnectorKit
begin

text \<open>
  Models \<open>secrets/secret-resolver.service.ts\<close> and \<open>secrets/indeed-pam-aapm.client.ts\<close>: at startup the
  references to secrets in the process environment are replaced by what the PAM server answers. The settings,
  the URL parser, files and the server are arguments.
\<close>

section \<open>The client of the PAM server\<close>

record pam_request =
  pq_url :: string
  pq_timeout :: nat
  pq_auth :: "(string \<times> string) option"
  pq_token :: "string option"

text \<open>The server answers a body, or the call fails with the status of a response when there was one.\<close>

type_synonym pam_answer = "nat option + jsval"

record pam_world =
  pam_log :: "(pam_request \<times> pam_answer) list"
  pam_process :: "(string \<times> string) list"
  pam_cache :: "(string \<times> jsval) list"

record pam_env =
  pm_setting :: "string \<Rightarrow> string option"
  pm_readFile :: "string \<Rightarrow> string result"
  pm_url :: "string \<Rightarrow> string \<Rightarrow> (string \<times> string) list \<Rightarrow> string result"
  pm_answer :: "(pam_request \<times> pam_answer) list \<Rightarrow> pam_request \<Rightarrow> pam_answer"

definition pam_value :: "pam_env \<Rightarrow> string \<Rightarrow> string option" where
  "pam_value env path =
     (case pm_setting env path of Some v \<Rightarrow> if trim v = [] then None else Some (trim v) | None \<Rightarrow> None)"

definition pam_missing :: "string \<Rightarrow> exn" where
  "pam_missing path = JsError (''Required PAM config value is missing: '' @ path @ ''.'')"

definition pam_required :: "pam_env \<Rightarrow> string \<Rightarrow> string result" where
  "pam_required env path = (case pam_value env path of Some v \<Rightarrow> Inr v | None \<Rightarrow> Inl (pam_missing path))"

text \<open>The first of the settings, or else the default.\<close>

fun pam_first :: "pam_env \<Rightarrow> string list \<Rightarrow> string option" where
  "pam_first env [] = None"
| "pam_first env (path # paths) = (case pam_value env path of Some v \<Rightarrow> Some v | None \<Rightarrow> pam_first env paths)"

definition pam_intValue :: "pam_env \<Rightarrow> string \<Rightarrow> nat \<Rightarrow> nat" where
  "pam_intValue env path defaultValue =
     (let s = trim_start (or_else (pm_setting env path) []);
          ds = takeWhile is_digit (case s of c # r \<Rightarrow> if c = CHR ''+'' then r else s | [] \<Rightarrow> []) in
      if digits_val ds > 0 then digits_val ds else defaultValue)"

definition pam_boolText :: "pam_env \<Rightarrow> string \<Rightarrow> string option" where
  "pam_boolText env path = map_option (\<lambda>v. if to_lower v = ''true'' then ''true'' else ''false'') (pm_setting env path)"

definition sanitizeKey :: "string \<Rightarrow> string" where
  "sanitizeKey key = to_upper (map (\<lambda>c. if is_alnum c \<or> c = CHR ''_'' then c else CHR ''_'') key)"

definition reference_setting :: "string \<Rightarrow> string \<Rightarrow> string" where
  "reference_setting refId name = ''SECRETS_REFERENCES_'' @ sanitizeKey refId @ ''_'' @ name"

definition split_last :: "char \<Rightarrow> string \<Rightarrow> (string \<times> string) option" where
  "split_last c s =
     (let post = rev (takeWhile (\<lambda>x. x \<noteq> c) (rev s)); pre = rev (tl (dropWhile (\<lambda>x. x \<noteq> c) (rev s))) in
      if c \<in> set s \<and> pre \<noteq> [] \<and> post \<noteq> [] then Some (pre, post) else None)"

definition parseRefId :: "string \<Rightarrow> string option \<times> string option" where
  "parseRefId refId =
     (case split_last (CHR ''.'') refId of
        Some (a, b) \<Rightarrow> (Some a, Some b)
      | None \<Rightarrow> (case split_last (CHR ''/'') refId of Some (a, b) \<Rightarrow> (Some a, Some b) | None \<Rightarrow> (None, None)))"

record pam_credentials =
  pc_token :: "string option"
  pc_login :: "(string \<times> string) option"

definition readCredentials :: "pam_env \<Rightarrow> pam_credentials result" where
  "readCredentials env =
     (let v = (\<lambda>k. pam_value env (''SECRETS_INDEEDPAMAAPM_'' @ k)) in
      case v ''APPLICATIONTOKEN'' of
        Some t \<Rightarrow> Inr \<lparr>pc_token = Some t, pc_login = None\<rparr>
      | None \<Rightarrow> (case v ''APPLICATIONTOKENFILE'' of
          Some f \<Rightarrow> ebind (pm_readFile env f) (\<lambda>t. Inr \<lparr>pc_token = Some (trim t), pc_login = None\<rparr>)
        | None \<Rightarrow> (case (v ''APPLICATIONUSERNAME'', v ''APPLICATIONPASSWORD'') of
            (Some u, Some pw) \<Rightarrow> Inr \<lparr>pc_token = None, pc_login = Some (u, pw)\<rparr>
          | _ \<Rightarrow> Inl (JsError (''PAM credentials are not configured. Set ApplicationToken, ApplicationTokenFile, '' @
              ''or ApplicationUsername/ApplicationPassword.'')))))"

fun path_text :: "jsval \<Rightarrow> string list \<Rightarrow> bool" where
  "path_text v [] = (case v of Str s \<Rightarrow> s \<noteq> [] | _ \<Rightarrow> False)"
| "path_text v (k # ks) =
     (let entries = (case v of Obj kvs \<Rightarrow> kvs | Arr xs \<Rightarrow> indexed xs | _ \<Rightarrow> []) in
      if has_key entries k then path_text (js_get entries k) ks else False)"

definition tryReadJsonPath :: "jsval \<Rightarrow> string \<Rightarrow> bool" where
  "tryReadJsonPath v path =
     path_text v (split_on (CHR ''.'') (map (\<lambda>c. if c = CHR '':'' then CHR ''.'' else c) path))"

text \<open>The value is read with the whole path as the key.\<close>

fun first_path :: "jsval \<Rightarrow> string list \<Rightarrow> jsval" where
  "first_path v [] = Str []"
| "first_path v (path # paths) =
     (if tryReadJsonPath v path then js_get (spread_entries v) path else first_path v paths)"

definition is_object :: "jsval \<Rightarrow> bool" where
  "is_object v \<longleftrightarrow> (case v of Obj _ \<Rightarrow> True | Arr _ \<Rightarrow> True | _ \<Rightarrow> False)"

definition extractValue :: "jsval \<Rightarrow> string \<Rightarrow> string \<Rightarrow> jsval" where
  "extractValue content respType jsonPath =
     (if to_lower respType \<noteq> ''json'' \<or> \<not> is_object content then Str (trim (string_of_val content))
      else first_path content [jsonPath, ''password'', ''value'', ''secret'', ''Password''])"

definition pam_query :: "pam_env \<Rightarrow> string \<Rightarrow> pam_credentials \<Rightarrow> string \<Rightarrow> string \<Rightarrow> string \<Rightarrow> (string \<times> string) list" where
  "pam_query env refId creds acctPath acctName respType =
     (let own = (\<lambda>k. [reference_setting refId k, ''SECRETS_INDEEDPAMAAPM_'' @ k]);
          changed = (case pam_boolText env (reference_setting refId ''PASSWORDCHANGEREQUIRED'') of
            Some b \<Rightarrow> Some b | None \<Rightarrow> pam_boolText env ''SECRETS_INDEEDPAMAAPM_PASSWORDCHANGEREQUIRED'');
          by_query = (pam_value env ''SECRETS_INDEEDPAMAAPM_TOKEN_TRANSPORT'' = Some ''query'') in
      concat (map (\<lambda>(k, v). case v of Some (c # s) \<Rightarrow> [(k, c # s)] | _ \<Rightarrow> [])
        [(''token'', if by_query then pc_token creds else None), (''sapmaccountpath'', Some acctPath),
         (''sapmaccountname'', Some acctName), (''responsetype'', Some respType),
         (''passwordexpirationinminute'', pam_first env (own ''PASSWORDEXPIRATIONINMINUTE'')),
         (''passwordchangerequired'', changed),
         (''comment'', Some (or_else (pam_first env (own ''COMMENT'')) (''idmMw '' @ refId))),
         (''tenantid'', pam_first env (own ''TENANTID'')), (''pin'', pam_first env (own ''PIN''))]))"

text \<open>What is asked for a reference: the request, and how its answer is read.\<close>

definition pam_prepare :: "pam_env \<Rightarrow> string \<Rightarrow> (pam_request \<times> string \<times> string) result" where
  "pam_prepare env refId =
     (let own = (\<lambda>k. [reference_setting refId k, ''SECRETS_INDEEDPAMAAPM_'' @ k]);
          parsed = parseRefId refId;
          needed = (\<lambda>v k. case v of Some s \<Rightarrow> Inr s | None \<Rightarrow> Inl (pam_missing (reference_setting refId k)));
          respType = or_else (pam_first env (own ''RESPONSETYPE'')) ''json'';
          jsonPath = or_else (pam_first env (own ''VALUEJSONPATH'')) ''password'';
          by_query = (pam_value env ''SECRETS_INDEEDPAMAAPM_TOKEN_TRANSPORT'' = Some ''query'') in
      ebind (pam_required env ''SECRETS_INDEEDPAMAAPM_BASEURL'') (\<lambda>baseUrl.
      ebind (needed (case pam_value env (reference_setting refId ''ACCOUNTPATH'') of Some s \<Rightarrow> Some s
        | None \<Rightarrow> (case fst parsed of Some s \<Rightarrow> Some s
            | None \<Rightarrow> pam_value env ''SECRETS_INDEEDPAMAAPM_DEFAULTACCOUNTPATH'')) ''ACCOUNTPATH'') (\<lambda>acctPath.
      ebind (needed (case pam_value env (reference_setting refId ''ACCOUNTNAME'') of Some s \<Rightarrow> Some s
        | None \<Rightarrow> snd parsed) ''ACCOUNTNAME'') (\<lambda>acctName.
      ebind (readCredentials env) (\<lambda>creds.
      ebind (pm_url env baseUrl
        (or_else (pam_value env ''SECRETS_INDEEDPAMAAPM_PASSWORDENDPOINTPATH'') ''/sc_aapm_ui/rest/aapm/password'')
        (pam_query env refId creds acctPath acctName respType)) (\<lambda>url.
      Inr (\<lparr>pq_url = url, pq_timeout = pam_intValue env ''SECRETS_INDEEDPAMAAPM_TIMEOUTMS'' 10000, pq_auth = pc_login creds,
            pq_token = (case pc_token creds of Some (c # s) \<Rightarrow> if by_query then None else Some (c # s) | _ \<Rightarrow> None)\<rparr>,
           respType, jsonPath)))))))"

definition pam_result :: "string \<Rightarrow> string \<Rightarrow> string \<Rightarrow> pam_answer \<Rightarrow> jsval result" where
  "pam_result refId respType jsonPath a =
     (case a of
        Inl status \<Rightarrow> Inl (JsError (''PAM ref '' @ quoted refId @ '' request failed with HTTP '' @
          (case status of Some n \<Rightarrow> nat_digits n | None \<Rightarrow> ''undefined'') @ ''.''))
      | Inr content \<Rightarrow>
          (let v = extractValue content respType jsonPath in
           if truthy v then Inr v else Inl (JsError (''PAM ref '' @ quoted refId @ '' returned an empty value.''))))"

definition getValue :: "pam_env \<Rightarrow> string \<Rightarrow> (jsval, 'b pam_world_scheme) op" where
  "getValue env refId =
     sbind (lift_result (pam_prepare env refId)) (\<lambda>(q, respType, jsonPath) w.
       let a = pm_answer env (pam_log w) q in
       (pam_result refId respType jsonPath a, w\<lparr>pam_log := pam_log w @ [(q, a)]\<rparr>))"

section \<open>Resolution\<close>

definition reference_prefixes :: "string list" where
  "reference_prefixes = [''secret://'', ''aapm://'', ''SECRET://'', ''AAPM://'']"

definition isReference :: "string \<Rightarrow> bool" where
  "isReference v \<longleftrightarrow> v \<noteq> [] \<and> list_ex (\<lambda>pre. starts_with pre (trim v)) reference_prefixes"

fun ref_after :: "string \<Rightarrow> string list \<Rightarrow> string option" where
  "ref_after s [] = None"
| "ref_after s (pre # pres) =
     (if starts_with pre (to_lower s) then Some (trim (drop (length pre) s)) else ref_after s pres)"

definition extractRefId :: "string \<Rightarrow> string option" where
  "extractRefId v = ref_after (trim v) reference_prefixes"

definition set_process :: "string \<Rightarrow> jsval \<Rightarrow> 'b pam_world_scheme \<Rightarrow> 'b pam_world_scheme" where
  "set_process k v w = w\<lparr>pam_process := map (\<lambda>(k', v'). (k', if k' = k then string_of_val v else v')) (pam_process w)\<rparr>"

definition resolve_key :: "pam_env \<Rightarrow> string \<Rightarrow> (unit, 'b pam_world_scheme) op" where
  "resolve_key env k w =
     (case extractRefId (or_else (map_of (pam_process w) k) []) of
        Some (c # r) \<Rightarrow>
          (case map_of (pam_cache w) (c # r) of
             Some v \<Rightarrow> (Inr (), set_process k v w)
           | None \<Rightarrow>
               sbind (getValue env (c # r)) (\<lambda>v.
                 modify (\<lambda>w. set_process k v (w\<lparr>pam_cache := map_set (c # r) v (pam_cache w)\<rparr>))) w)
      | _ \<Rightarrow> (Inr (), w))"

definition reference_keys :: "(string \<times> string) list \<Rightarrow> string list" where
  "reference_keys process = map fst (filter (\<lambda>(k, v). \<not> starts_with ''Secrets:'' k \<and> isReference v) process)"

definition secrets_provider :: "pam_env \<Rightarrow> string" where
  "secrets_provider env =
     or_else (case pm_setting env ''SECRETS_PROVIDER'' of Some s \<Rightarrow> Some s | None \<Rightarrow> pm_setting env ''Secrets.Provider'') ''None''"

definition resolveAll :: "pam_env \<Rightarrow> (unit, 'b pam_world_scheme) op" where
  "resolveAll env w =
     (if secrets_provider env = ''None'' then (Inr (), w)
      else if secrets_provider env \<noteq> ''IndeedPamAapm''
      then (Inl (JsError (''Configuration contains PAM references, but Secrets.Provider is '' @
        quoted (secrets_provider env) @ ''.'')), w)
      else each_op (resolve_key env) (reference_keys (pam_process w)) w)"

section \<open>What is resolved\<close>

text \<open>The variable \<open>k\<close>, which held \<open>v\<close>, holds the secret that \<open>v\<close> refers to, or \<open>v\<close> when it refers to none.\<close>

definition resolved_to :: "'b pam_world_scheme \<Rightarrow> string \<Rightarrow> string \<Rightarrow> bool" where
  "resolved_to w k v \<longleftrightarrow>
     map_of (pam_process w) k = Some
       (case extractRefId v of
          Some (c # r) \<Rightarrow> (case map_of (pam_cache w) (c # r) of Some x \<Rightarrow> string_of_val x | None \<Rightarrow> v)
        | _ \<Rightarrow> v) \<and>
     (case extractRefId v of Some (c # r) \<Rightarrow> c # r \<in> dom (map_of (pam_cache w)) | _ \<Rightarrow> True)"

text \<open>The secret \<open>x\<close> was read from an answer of the server to the request for \<open>r\<close>.\<close>

definition answered :: "pam_env \<Rightarrow> 'b pam_world_scheme \<Rightarrow> string \<Rightarrow> jsval \<Rightarrow> bool" where
  "answered env w r x \<longleftrightarrow>
     (\<exists>q respType jsonPath a. pam_prepare env r = Inr (q, respType, jsonPath) \<and> (q, a) \<in> set (pam_log w) \<and>
       pam_result r respType jsonPath a = Inr x)"

text \<open>What one run of the loop does to the world.\<close>

definition resolves :: "pam_env \<Rightarrow> 'b pam_world_scheme \<Rightarrow> 'b pam_world_scheme \<Rightarrow> bool" where
  "resolves env w w' \<longleftrightarrow>
     map fst (pam_process w') = map fst (pam_process w) \<and>
     map_of (pam_cache w) \<subseteq>\<^sub>m map_of (pam_cache w') \<and> set (pam_log w) \<subseteq> set (pam_log w') \<and>
     length (pam_log w') + length (pam_cache w) = length (pam_log w) + length (pam_cache w') \<and>
     (\<forall>r x. map_of (pam_cache w') r = Some x \<longrightarrow> map_of (pam_cache w) r = Some x \<or> answered env w' r x)"

lemma answered_more: "answered env w r x \<Longrightarrow> set (pam_log w) \<subseteq> set (pam_log w') \<Longrightarrow> answered env w' r x"
  unfolding answered_def by blast

lemma resolves_refl: "resolves env w w"
  by (simp add: resolves_def)

lemma resolves_trans:
  assumes "resolves env w w1" "resolves env w1 w2"
  shows "resolves env w w2"
proof -
  have "map_of (pam_cache w) r = Some x \<or> answered env w2 r x" if "map_of (pam_cache w2) r = Some x" for r x
    using that assms answered_more [of env w1 r x w2] unfolding resolves_def by blast
  with assms show ?thesis unfolding resolves_def by (auto intro: map_le_trans)
qed

lemma length_map_set: "length (map_set k v m) = (if k \<in> fst ` set m then length m else Suc (length m))"
  by (induction k v m rule: map_set.induct) auto

lemma map_of_set_process:
  "map_of (pam_process (set_process k v w)) k' =
     (if k' = k then map_option (\<lambda>_. string_of_val v) (map_of (pam_process w) k) else map_of (pam_process w) k')"
proof -
  have "map_of (map (\<lambda>(k', v'). (k', if k' = k then string_of_val v else v')) kvs) k' =
    (if k' = k then map_option (\<lambda>_. string_of_val v) (map_of kvs k) else map_of kvs k')" for kvs
    by (induction kvs) auto
  then show ?thesis by (simp add: set_process_def)
qed

lemma set_process_rest [simp]:
  "map fst (pam_process (set_process k v w)) = map fst (pam_process w)"
  "pam_cache (set_process k v w) = pam_cache w" "pam_log (set_process k v w) = pam_log w"
  by (simp_all add: set_process_def case_prod_beta comp_def)

lemma getValue_answered:
  assumes "getValue env r w = (Inr x, w')"
  shows "\<exists>q a. pam_log w' = pam_log w @ [(q, a)] \<and> pam_cache w' = pam_cache w \<and> pam_process w' = pam_process w \<and>
    answered env w' r x"
  using assms
  by (cases "pam_prepare env r") (auto simp: getValue_def answered_def Let_def sbind_def)

lemma resolve_key_step:
  assumes run: "resolve_key env k w = (Inr (), w')" and v: "map_of (pam_process w) k = Some v"
  shows "resolves env w w' \<and> resolved_to w' k v \<and> (\<forall>k'. k' \<noteq> k \<longrightarrow> map_of (pam_process w') k' = map_of (pam_process w) k')"
proof (cases "\<exists>c r. extractRefId v = Some (c # r)")
  case False
  then have "w' = w" using run v by (auto simp: resolve_key_def split: option.splits list.splits)
  with False v show ?thesis by (auto simp: resolved_to_def resolves_refl split: option.splits list.splits)
next
  case True
  then obtain c r where ref: "extractRefId v = Some (c # r)" by blast
  show ?thesis
  proof (cases "map_of (pam_cache w) (c # r)")
    case (Some x)
    then have "w' = set_process k x w" using run v ref by (simp add: resolve_key_def)
    with Some v ref show ?thesis by (auto simp: resolved_to_def resolves_def map_of_set_process)
  next
    case None
    then obtain x w1 where get: "getValue env (c # r) w = (Inr x, w1)"
      and w': "w' = set_process k x (w1\<lparr>pam_cache := map_set (c # r) x (pam_cache w1)\<rparr>)"
      using run v ref by (auto simp: resolve_key_def sbind_Inr_iff)
    from getValue_answered [OF get] obtain q a where w1: "pam_log w1 = pam_log w @ [(q, a)]" "pam_cache w1 = pam_cache w"
      "pam_process w1 = pam_process w" and ans: "answered env w1 (c # r) x" by blast
    have new: "c # r \<notin> fst ` set (pam_cache w)" using None by (simp add: map_of_eq_None_iff)
    have cache: "map_of (pam_cache w') = (map_of (pam_cache w))(c # r \<mapsto> x)" by (simp add: w' w1 map_of_map_set)
    have "answered env w' (c # r) x" by (rule answered_more [OF ans]) (simp add: w')
    then have "map_of (pam_cache w) r' = Some x' \<or> answered env w' r' x'" if "map_of (pam_cache w') r' = Some x'" for r' x'
      using that by (simp add: cache split: if_splits)
    moreover have "map_of (pam_cache w) \<subseteq>\<^sub>m map_of (pam_cache w')" using None by (auto simp: cache map_le_def)
    moreover have "length (pam_cache w') = Suc (length (pam_cache w))" using new by (simp add: w' w1 length_map_set)
    moreover have "map fst (pam_process w') = map fst (pam_process w)" "pam_log w' = pam_log w @ [(q, a)]"
      by (simp_all add: w' w1)
    ultimately have "resolves env w w'" unfolding resolves_def by auto
    moreover have "resolved_to w' k v" using ref v by (simp add: resolved_to_def cache) (simp add: w' w1 map_of_set_process)
    ultimately show ?thesis by (simp add: w' w1 map_of_set_process)
  qed
qed

lemma resolved_to_later:
  assumes "resolved_to w k v" "resolves env w w'" "map_of (pam_process w') k = map_of (pam_process w) k"
  shows "resolved_to w' k v"
proof -
  have "map_of (pam_cache w') r = map_of (pam_cache w) r" if "r \<in> dom (map_of (pam_cache w))" for r
    using assms(2) that unfolding resolves_def map_le_def by simp
  then show ?thesis using assms(1,3) unfolding resolved_to_def
    by (auto simp: dom_def split: option.splits list.splits)
qed

lemma resolve_loop:
  assumes "each_op (resolve_key env) ks w = (Inr (), w')" "distinct ks" "set ks \<subseteq> dom (map_of (pam_process w))"
  shows "resolves env w w' \<and> (\<forall>k v. k \<in> set ks \<longrightarrow> map_of (pam_process w) k = Some v \<longrightarrow> resolved_to w' k v) \<and>
    (\<forall>k. k \<notin> set ks \<longrightarrow> map_of (pam_process w') k = map_of (pam_process w) k)"
  using assms
proof (induction ks arbitrary: w)
  case Nil
  then show ?case by (simp add: resolves_refl)
next
  case (Cons k ks)
  from Cons.prems(1) obtain w1 where step: "resolve_key env k w = (Inr (), w1)"
    and rest: "each_op (resolve_key env) ks w1 = (Inr (), w')" by (auto simp: sbind_Inr_iff)
  from Cons.prems(3) obtain v where v: "map_of (pam_process w) k = Some v" by auto
  note one = resolve_key_step [OF step v]
  have same: "map_of (pam_process w1) k' = map_of (pam_process w) k'" if "k' \<noteq> k" for k' using one that by blast
  have "set ks \<subseteq> dom (map_of (pam_process w1))" using Cons.prems(2,3) same by fastforce
  with Cons.IH [OF rest] Cons.prems(2)
  have IH: "resolves env w1 w'" "\<And>k v. k \<in> set ks \<Longrightarrow> map_of (pam_process w1) k = Some v \<Longrightarrow> resolved_to w' k v"
    "\<And>k. k \<notin> set ks \<Longrightarrow> map_of (pam_process w') k = map_of (pam_process w1) k" by auto
  have "resolved_to w' k v"
    using one IH(1) IH(3) [of k] Cons.prems(2) by (auto intro: resolved_to_later)
  moreover have "resolved_to w' k' v'" if "k' \<in> set ks" "map_of (pam_process w) k' = Some v'" for k' v'
    using IH(2) [of k' v'] same [of k'] that Cons.prems(2) by auto
  moreover have "resolves env w w'" using one IH(1) by (blast intro: resolves_trans)
  ultimately show ?case using v IH(3) same by auto
qed

text \<open>The entry of a variable before and after: a reference has become the secret that the server gave for it.\<close>

definition resolved_entry :: "pam_env \<Rightarrow> 'b pam_world_scheme \<Rightarrow> string \<times> string \<Rightarrow> string \<times> string \<Rightarrow> bool" where
  "resolved_entry env w e e' \<longleftrightarrow> fst e' = fst e \<and>
     (if \<not> starts_with ''Secrets:'' (fst e) \<and> isReference (snd e)
      then case extractRefId (snd e) of
        Some (c # r) \<Rightarrow> (\<exists>x. snd e' = string_of_val x \<and> map_of (pam_cache w) (c # r) = Some x \<and> answered env w (c # r) x)
      | _ \<Rightarrow> snd e' = snd e
      else snd e' = snd e)"

text \<open>
  C33: after a resolution that returns, every variable whose value was a reference holds the secret of its reference,
  every other one is as it was, each secret was read from an answer of the PAM server to the request for its
  reference, and no reference was asked for twice: there are as many requests as new secrets.
\<close>

theorem secrets_are_resolved_once:
  assumes run: "resolveAll env w = (Inr (), w')" and on: "secrets_provider env \<noteq> ''None''"
    and keys: "distinct (map fst (pam_process w))" and fresh: "pam_cache w = []"
  shows "length (pam_log w') = length (pam_log w) + length (pam_cache w') \<and>
    list_all2 (resolved_entry env w') (pam_process w) (pam_process w')"
proof -
  let ?keys = "reference_keys (pam_process w)"
  have loop: "each_op (resolve_key env) ?keys w = (Inr (), w')"
    using run on by (auto simp: resolveAll_def split: if_splits)
  have member: "k \<in> set ?keys \<longleftrightarrow> \<not> starts_with ''Secrets:'' k \<and> isReference v" if "(k, v) \<in> set (pam_process w)" for k v
    using that keys by (auto simp: reference_keys_def intro!: image_eqI [where x = "(k, v)"] dest: eq_key_imp_eq_value)
  have "distinct ?keys" using keys unfolding reference_keys_def by (rule distinct_map_filter)
  moreover have "set ?keys \<subseteq> dom (map_of (pam_process w))"
    by (auto simp: reference_keys_def dom_map_of_conv_image_fst)
  ultimately have out: "resolves env w w'"
    "\<And>k v. k \<in> set ?keys \<Longrightarrow> map_of (pam_process w) k = Some v \<Longrightarrow> resolved_to w' k v"
    "\<And>k. k \<notin> set ?keys \<Longrightarrow> map_of (pam_process w') k = map_of (pam_process w) k"
    using resolve_loop [OF loop] by blast+
  have same: "map fst (pam_process w') = map fst (pam_process w)" using out(1) by (simp add: resolves_def)
  have source: "answered env w' r x" if "map_of (pam_cache w') r = Some x" for r x
    using out(1) that fresh by (auto simp: resolves_def)
  show ?thesis
  proof (intro conjI list_all2_all_nthI)
    show "length (pam_log w') = length (pam_log w) + length (pam_cache w')" using out(1) fresh by (simp add: resolves_def)
    show len: "length (pam_process w) = length (pam_process w')" using same by (metis length_map)
    fix n assume n: "n < length (pam_process w)"
    obtain k v k' v' where e: "pam_process w ! n = (k, v)" "pam_process w' ! n = (k', v')"
      by (cases "pam_process w ! n"; cases "pam_process w' ! n") auto
    have k': "k' = k" using same n len e by (metis fst_conv nth_map)
    have mem: "(k, v) \<in> set (pam_process w)" "(k, v') \<in> set (pam_process w')"
      using n len e k' nth_mem [of n "pam_process w"] nth_mem [of n "pam_process w'"] by auto
    then have vals: "map_of (pam_process w) k = Some v" "map_of (pam_process w') k = Some v'"
      using keys same by simp_all
    show "resolved_entry env w' (pam_process w ! n) (pam_process w' ! n)"
      using out(2) [of k v] out(3) [of k] vals member [OF mem(1)] source k'
      unfolding e by (auto simp: resolved_entry_def resolved_to_def split: option.splits list.splits)
  qed
qed

definition demo_pam_env :: "string \<Rightarrow> pam_env" where
  "demo_pam_env path =
     \<lparr>pm_setting = [''SECRETS_PROVIDER'' \<mapsto> ''IndeedPamAapm'', ''SECRETS_INDEEDPAMAAPM_BASEURL'' \<mapsto> ''https://pam'',
        ''SECRETS_INDEEDPAMAAPM_APPLICATIONTOKEN'' \<mapsto> ''t'', ''SECRETS_INDEEDPAMAAPM_VALUEJSONPATH'' \<mapsto> path],
      pm_readFile = (\<lambda>_. Inl (JsError ''ENOENT'')), pm_url = (\<lambda>base path _. Inr (base @ path)),
      pm_answer = (\<lambda>_ _. Inr (Obj [(''password'', Str ''s3''), (''data'', Obj [(''password'', Str ''nested'')])]))\<rparr>"

definition demo_pam_world :: "(string \<times> string) list \<Rightarrow> pam_world" where
  "demo_pam_world process = \<lparr>pam_log = [], pam_process = process, pam_cache = []\<rparr>"

lemma demo_prepare: "\<exists>q. pam_prepare (demo_pam_env ''password'') ''db.app'' = Inr (q, ''json'', ''password'')"
proof -
  have "parseRefId ''db.app'' = (Some ''db'', Some ''app'')" "sanitizeKey ''db.app'' = ''DB_APP''"
    "trim ''password'' = ''password''" "trim ''t'' = ''t''" "trim ''https://pam'' = ''https://pam''" by code_simp+
  then show ?thesis
    by (simp add: pam_prepare_def reference_setting_def pam_value_def pam_required_def readCredentials_def demo_pam_env_def)
qed

theorem secrets_are_resolved_once_witness:
  "\<exists>v x. pam_process (snd (resolveAll (demo_pam_env ''password'')
      (demo_pam_world [(''A'', ''secret://db.app''), (''B'', ''plain''), (''C'', ''aapm://db.app'')]))) =
    [(''A'', v), (''B'', ''plain''), (''C'', v)] \<and> v = string_of_val x \<and>
    length (pam_log (snd (resolveAll (demo_pam_env ''password'')
      (demo_pam_world [(''A'', ''secret://db.app''), (''B'', ''plain''), (''C'', ''aapm://db.app'')])))) = 1"
proof -
  let ?env = "demo_pam_env ''password''"
  let ?process = "[(''A'', ''secret://db.app''), (''B'', ''plain''), (''C'', ''aapm://db.app'')]"
  let ?run = "resolveAll ?env (demo_pam_world ?process)"
  have on: "secrets_provider ?env = ''IndeedPamAapm''" by (simp add: secrets_provider_def demo_pam_env_def)
  have ids: "isReference ''secret://db.app''" "isReference ''aapm://db.app''" "\<not> isReference ''plain''"
    "extractRefId ''secret://db.app'' = Some ''db.app''" "extractRefId ''aapm://db.app'' = Some ''db.app''"
    "\<not> starts_with ''Secrets:'' ''A''" "\<not> starts_with ''Secrets:'' ''C''" "\<not> starts_with ''Secrets:'' ''B''"
    by code_simp+
  obtain q where prep: "pam_prepare ?env ''db.app'' = Inr (q, ''json'', ''password'')" using demo_prepare by blast
  have "extractValue (Obj [(''password'', Str ''s3''), (''data'', Obj [(''password'', Str ''nested'')])]) ''json'' ''password'' = Str ''s3''"
    by code_simp
  then have get: "getValue ?env ''db.app'' w = (Inr (Str ''s3''), w\<lparr>pam_log := pam_log w @ [(q, pm_answer ?env (pam_log w) q)]\<rparr>)"
    for w :: pam_world
    by (simp add: getValue_def prep pam_result_def) (simp add: demo_pam_env_def)
  have ok: "fst ?run = Inr ()" "length (pam_cache (snd ?run)) = 1" "secrets_provider ?env \<noteq> ''None''"
    using ids on by (simp_all add: resolveAll_def reference_keys_def demo_pam_world_def resolve_key_def sbind_def get set_process_def)
  from ok(1) have "?run = (Inr (), snd ?run)" by (metis prod.collapse)
  from secrets_are_resolved_once [OF this ok(3)]
  have all: "length (pam_log (snd ?run)) = 1" and two: "list_all2 (resolved_entry ?env (snd ?run)) ?process (pam_process (snd ?run))"
    using ok(2) by (simp_all add: demo_pam_world_def)
  with two ids show ?thesis unfolding list_all2_Cons1 by (auto simp: all resolved_entry_def)
qed

section \<open>Corners\<close>

text \<open>
  The path to the value of an answer may have several parts: the check follows them, but the value is then read
  with the whole path as its key, so a nested value is found and never returned.
\<close>

theorem nested_path_is_never_read:
  assumes "tryReadJsonPath (Obj kvs) path" "\<not> has_key kvs path"
  shows "extractValue (Obj kvs) ''json'' path = Undef"
    and "pam_result r ''json'' path (Inr (Obj kvs)) = Inl (JsError (''PAM ref '' @ quoted r @ '' returned an empty value.''))"
proof -
  have "js_get kvs path = Undef" using assms(2) by (simp add: has_key_map_of js_get_def split: option.split)
  moreover have "to_lower ''json'' = ''json''" by (simp add: to_lower_def)
  ultimately show "extractValue (Obj kvs) ''json'' path = Undef"
    using assms(1) by (simp add: extractValue_def is_object_def spread_entries_def)
  then show "pam_result r ''json'' path (Inr (Obj kvs)) = Inl (JsError (''PAM ref '' @ quoted r @ '' returned an empty value.''))"
    by (simp add: pam_result_def)
qed

theorem nested_path_is_found:
  "tryReadJsonPath (Obj [(''data'', Obj [(''password'', Str ''s'')])]) ''data.password'' \<and>
   \<not> has_key [(''data'', Obj [(''password'', Str ''s'')])] ''data.password''"
  by code_simp

text \<open>A reference in mixed case is none, although its target could be read from it.\<close>

theorem mixed_case_is_no_reference:
  "\<not> isReference ''Secret://db.app'' \<and> extractRefId ''Secret://db.app'' = Some ''db.app''"
  by code_simp

text \<open>Two references whose names differ in punctuation share their settings.\<close>

theorem references_share_settings:
  "reference_setting ''db.app'' name = reference_setting ''db/app'' name"
proof -
  have "sanitizeKey ''db.app'' = sanitizeKey ''db/app''" by code_simp
  then show ?thesis by (simp add: reference_setting_def)
qed

end
