(* ===== verification/IdmApi.thy ===== *)
theory IdmApi
  imports TargetApi
begin

text \<open>
  Models \<open>inbound/idm/idm.controller.ts\<close>: the interface by which the IDM reads the catalogue of the target
  systems, and their users, groups and schemas. Connectors work on what lies outside of the database.
\<close>

section \<open>Reading through a connector\<close>

definition on_outside :: "('a, 'e) op \<Rightarrow> ('a, 'e admin_world) op" where
  "on_outside m w = (case m (outside w) of (r, e) \<Rightarrow> (r, w\<lparr>outside := e\<rparr>))"

datatype sync_mode = Full | Incremental

fun mode_text :: "sync_mode \<Rightarrow> string" where
  "mode_text Full = ''full''"
| "mode_text Incremental = ''incremental''"

definition not_found :: "string \<Rightarrow> exn" where
  "not_found n = NotFound (''Target system not found: '' @ n)"

definition idm_payload :: "string \<Rightarrow> string \<Rightarrow> obj option \<Rightarrow> obj \<Rightarrow> connector_payload" where
  "idm_payload n op config params =
     \<lparr>operation = op, targetSystem = n,
      body = (case config of Some c \<Rightarrow> [(''config'', Obj c)] | None \<Rightarrow> []) @ [(''params'', Obj params)]\<rparr>"

definition idm_call :: "'e connector \<Rightarrow> connector_payload \<Rightarrow> sync_mode option \<Rightarrow> (connector_result, 'e) op" where
  "idm_call conn p mode =
     (let op = operation p;
          syncing = (if op \<in> {''sync.full'', ''sync.incremental''} then conn_sync conn else None);
          reading = (if op = ''schema.get'' then conn_getSchema conn else None) in
      case reading of
        Some f \<Rightarrow> f p
      | None \<Rightarrow> (case syncing of
          Some f \<Rightarrow> f p (mode_text (or_else mode (if op = ''sync.incremental'' then Incremental else Full)))
        | None \<Rightarrow> conn_execute conn p))"

definition executeRead ::
  "ts_env \<Rightarrow> ts_call \<Rightarrow> string \<Rightarrow> string \<Rightarrow> obj \<Rightarrow> sync_mode option \<Rightarrow> (connector_result, 'e admin_world) op" where
  "executeRead env c n op params mode =
     sbind (findRawConfigByName env c n) (\<lambda>config w.
       (case registry_get (live_registry w) n of
          None \<Rightarrow> raise (not_found n)
        | Some conn \<Rightarrow>
            sbind (on_outside (idm_call conn (idm_payload n op config params) mode)) (\<lambda>r.
            if success r then ret r
            else raise (BadRequest (or_else (result_error r) ''Connector failed'')))) w)"

definition parseLimit :: "jsval \<Rightarrow> jsval result" where
  "parseLimit v =
     (if v = Undef then Inr (num 50)
      else let parsed = number_of_val v in
        if \<not> is_integer parsed \<or> (case parsed of Fin r \<Rightarrow> r \<le> 0 | _ \<Rightarrow> True)
        then Inl (BadRequest ''limit must be a positive integer'') else Inr (Num parsed))"

definition parseSyncMode :: "jsval \<Rightarrow> sync_mode result" where
  "parseSyncMode v =
     (if v = Undef \<or> v = Str ''full'' then Inr Full
      else if v = Str ''incremental'' then Inr Incremental
      else Inl (BadRequest ''mode must be full or incremental''))"

section \<open>Handlers\<close>

text \<open>A parameter of a query is a text, an array of texts, or undefined; the body of a synchronisation is any value.\<close>

datatype idm_read =
    TestTargetSystem string
  | ListUsers string jsval jsval
  | ResolveUser string jsval jsval jsval
  | GetUser string string
  | ListGroups string jsval jsval
  | GetGroup string string
  | GetSchema string
  | SyncSystem string jsval

definition read_data :: "(connector_result, 'w) op \<Rightarrow> (jsval, 'w) op" where
  "read_data m = sbind m (\<lambda>r. ret (result_data r))"

definition search_systems ::
  "ts_env \<Rightarrow> ts_call \<Rightarrow> string \<Rightarrow> string \<Rightarrow> jsval \<Rightarrow> jsval \<Rightarrow> (jsval, 'e admin_world) op" where
  "search_systems env c n op filtr limit =
     sbind (lift_result (parseLimit limit)) (\<lambda>l.
     read_data (executeRead env c n op [(''filter'', filtr), (''limit'', l)] None))"

definition idm_sync :: "ts_env \<Rightarrow> ts_call \<Rightarrow> string \<Rightarrow> jsval \<Rightarrow> (jsval, 'e admin_world) op" where
  "idm_sync env c n content =
     sbind (lift_result (parseSyncMode (js_get (as_obj content) ''mode''))) (\<lambda>mode.
     read_data (executeRead env c n (if mode = Incremental then ''sync.incremental'' else ''sync.full'') [] (Some mode)))"

fun idm_handle :: "ts_env \<Rightarrow> ts_call \<Rightarrow> idm_read \<Rightarrow> (jsval, 'e admin_world) op" where
  "idm_handle env c (TestTargetSystem n) = read_data (executeRead env c n ''system.test'' [] None)"
| "idm_handle env c (ListUsers n f l) = search_systems env c n ''user.search'' f l"
| "idm_handle env c (ResolveUser n username login f) =
     read_data (executeRead env c n ''user.resolve'' [(''username'', username), (''login'', login), (''filter'', f)] None)"
| "idm_handle env c (GetUser n i) = read_data (executeRead env c n ''user.get'' [(''id'', Str i)] None)"
| "idm_handle env c (ListGroups n f l) = search_systems env c n ''group.search'' f l"
| "idm_handle env c (GetGroup n i) = read_data (executeRead env c n ''group.get'' [(''id'', Str i)] None)"
| "idm_handle env c (GetSchema n) = read_data (executeRead env c n ''schema.get'' [] None)"
| "idm_handle env c (SyncSystem n content) = idm_sync env c n content"

section \<open>The catalogue\<close>

record catalog_item =
  ci_name :: string
  ci_type :: string
  ci_label :: string
  ci_enabled :: bool
  ci_capabilities :: connector_capabilities

definition toCatalogItem :: "'e registry \<Rightarrow> system_row \<Rightarrow> catalog_item option" where
  "toCatalogItem reg r =
     map_option (\<lambda>conn. \<lparr>ci_name = ts_name r, ci_type = ts_type r, ci_label = sys_label r, ci_enabled = ts_enabled r,
         ci_capabilities = or_else (conn_getCapabilities conn) (createConnectorCapabilities [] id [])\<rparr>)
       (registry_get reg (ts_name r))"

definition listTargetSystems :: "ts_env \<Rightarrow> ts_call \<Rightarrow> (catalog_item list, 'e admin_world) op" where
  "listTargetSystems env c =
     sbind (ts_findAll env c \<lparr>fp_type = None, fp_enabled = Some True, fp_limit = Some 1000, fp_offset = Some 0,
       fp_allowedTypes = None\<rparr>) (\<lambda>rows w. (Inr (present (map (toCatalogItem (live_registry w)) rows)), w))"

definition getTargetSystem :: "ts_env \<Rightarrow> ts_call \<Rightarrow> string \<Rightarrow> (catalog_item, 'e admin_world) op" where
  "getTargetSystem env c n =
     sbind (ts_findByName env c n) (\<lambda>row w.
       case row of
         None \<Rightarrow> raise (not_found n) w
       | Some r \<Rightarrow>
           if \<not> ts_enabled r then raise (not_found n) w
           else (case toCatalogItem (live_registry w) r of None \<Rightarrow> raise (not_found n) w | Some item \<Rightarrow> ret item w))"

section \<open>What a read may do\<close>

text \<open>The operations that a connector is asked to perform for reading keep an invariant of the outside world.\<close>

definition reads_keep :: "('e \<Rightarrow> bool) \<Rightarrow> 'e connector \<Rightarrow> bool" where
  "reads_keep I conn \<longleftrightarrow>
     (\<forall>p. isReadOperation (operation p) \<longrightarrow> preserves I (conn_execute conn p)) \<and>
     (\<forall>f p. conn_getSchema conn = Some f \<longrightarrow> preserves I (f p)) \<and>
     (\<forall>f p mode. conn_sync conn = Some f \<longrightarrow> preserves I (f p mode))"

lemma idm_call_keeps:
  assumes "reads_keep I conn" "isReadOperation (operation p)"
  shows "preserves I (idm_call conn p mode)"
  using assms by (auto simp: idm_call_def reads_keep_def Let_def split: option.split)

text \<open>What the world is apart from what the connectors work on.\<close>

definition inside :: "'e admin_world \<Rightarrow> 'e admin_world \<Rightarrow> bool" where
  "inside w w' \<longleftrightarrow> rbac_db.truncate w' = rbac_db.truncate w \<and> live_registry w' = live_registry w"

definition served_by :: "('e \<Rightarrow> bool) \<Rightarrow> 'e admin_world \<Rightarrow> 'e admin_world \<Rightarrow> bool" where
  "served_by I w0 w \<longleftrightarrow> inside w0 w \<and> I (outside w)"

lemma outside_served:
  assumes "preserves I m"
  shows "preserves (served_by I w0) (on_outside m)"
  unfolding preserves_def on_outside_def served_by_def inside_def
  by (auto simp: rbac_db.defs split: prod.splits dest: preservesD [OF assms])

lemma raw_config_state: "snd (findRawConfigByName env c n w) = w"
  by (cases "tc_read c") (simp_all add: findRawConfigByName_def)

lemma read_ops: "list_all isReadOperation [''system.test'', ''user.search'', ''user.resolve'', ''user.get'',
    ''group.search'', ''group.get'', ''schema.get'', ''sync.full'', ''sync.incremental'']"
  by (simp add: isReadOperation_def READ_OPERATIONS_def)

lemma executeRead_served:
  assumes conns: "\<And>n conn. registry_get (live_registry w0) n = Some conn \<Longrightarrow> reads_keep I conn"
    and op: "isReadOperation op"
  shows "preserves (served_by I w0) (executeRead env c n op params mode)"
  unfolding preserves_def
proof (intro allI impI)
  fix w r w' assume I: "served_by I w0 w" and run: "executeRead env c n op params mode w = (r, w')"
  obtain x where find: "findRawConfigByName env c n w = (x, w)"
    using raw_config_state [of env c n w] by (metis prod.collapse)
  show "served_by I w0 w'"
  proof (cases "\<exists>config conn. x = Inr config \<and> registry_get (live_registry w) n = Some conn")
    case True
    then obtain config conn where x: "x = Inr config" and conn: "registry_get (live_registry w) n = Some conn" by blast
    with I conns have "reads_keep I conn" by (simp add: served_by_def inside_def)
    then have "preserves (served_by I w0) (sbind (on_outside (idm_call conn (idm_payload n op config params) mode)) (\<lambda>r.
        if success r then ret r else raise (BadRequest (or_else (result_error r) ''Connector failed''))))"
      using op by (intro preserves_sbind preserves_if preserves_basic outside_served idm_call_keeps)
        (simp_all add: idm_payload_def)
    moreover have "sbind (on_outside (idm_call conn (idm_payload n op config params) mode)) (\<lambda>r.
        if success r then ret r else raise (BadRequest (or_else (result_error r) ''Connector failed''))) w = (r, w')"
      using run find x conn by (simp add: executeRead_def sbind_run)
    ultimately show ?thesis using I by (rule preservesD)
  next
    case False
    then have "w' = w" using run find by (cases x) (auto simp: executeRead_def sbind_run split: option.splits)
    with I show ?thesis by simp
  qed
qed

text \<open>
  C34: the interface of the IDM only reads. Whatever request it gets, the database and the registry stay as they
  are, and outside of them a request changes nothing that the read operations of the connectors keep, whatever
  their write operations do.
\<close>

theorem idm_interface_only_reads:
  assumes "list_all (\<lambda>(n, conn). reads_keep I conn) (connectors (live_registry w))" and "I (outside w)"
  shows "inside w (snd (idm_handle env c req w)) \<and> I (outside (snd (idm_handle env c req w)))"
proof -
  have part: "preserves (served_by I w) (executeRead env c n op params mode)"
    if "op \<in> set [''system.test'', ''user.search'', ''user.resolve'', ''user.get'', ''group.search'', ''group.get'',
      ''schema.get'', ''sync.full'', ''sync.incremental'']" for n op params mode
  proof (rule executeRead_served)
    show "reads_keep I conn" if "registry_get (live_registry w) n = Some conn" for n conn
      using assms(1) map_of_SomeD [OF that [unfolded registry_get_def]] by (auto simp: list_all_iff)
    show "isReadOperation op" using that read_ops by (auto simp: list_all_iff)
  qed
  have "preserves (served_by I w) (idm_handle env c req)"
    by (cases req; simp only: idm_handle.simps search_systems_def idm_sync_def read_data_def)
       (intro preserves_sbind preserves_basic part; simp)+
  from preserves_snd [OF this, of w] assms(2) show ?thesis by (simp add: served_by_def inside_def)
qed

text \<open>Every listed target system is enabled and has a connector, so that a request to it is not answered as unknown.\<close>

theorem listed_systems_have_connectors:
  assumes "listTargetSystems env c w = (Inr items, w')" "item \<in> set items"
  shows "w' = w \<and> (\<exists>conn. registry_get (live_registry w) (ci_name item) = Some conn) \<and>
    (\<exists>r \<in> set (systems w). ts_name r = ci_name item \<and> ts_enabled r)"
proof -
  from assms(1) obtain rows where rows: "ts_findAll env c \<lparr>fp_type = None, fp_enabled = Some True, fp_limit = Some 1000,
      fp_offset = Some 0, fp_allowedTypes = None\<rparr> w = (Inr rows, w')"
    and items: "items = present (map (toCatalogItem (live_registry w')) rows)"
    by (auto simp: listTargetSystems_def sbind_Inr_iff)
  have m: "system_matches \<lparr>fp_type = None, fp_enabled = Some True, fp_limit = Some 1000, fp_offset = Some 0, fp_allowedTypes = None\<rparr> =
    ts_enabled" by (simp add: fun_eq_iff system_matches_def nonblank_def)
  from rows have w': "w' = w"
    and pub: "map_exn (toPublicTargetSystem env) (newest_page 0 1000 sys_createdAt (filter ts_enabled (systems w))) = Inr rows"
    by (auto simp: ts_findAll_def sbind_Inr_iff may_fail_iff nonblank_def m)
  from assms(2) items obtain r where r: "r \<in> set rows" "toCatalogItem (live_registry w) r = Some item"
    unfolding present_def w' by auto
  from map_exn_source [OF pub r(1)] obtain x where x: "x \<in> set (systems w)" "ts_enabled x" "toPublicTargetSystem env x = Inr r"
    unfolding newest_page_def by (auto dest!: in_set_takeD in_set_dropD)
  then have "ts_name x = ts_name r" by (auto simp: toPublicTargetSystem_def ebind_Inr_iff)
  with w' r(2) x show ?thesis by (auto simp: toCatalogItem_def)
qed

section \<open>Witness\<close>

definition counting_connector :: "nat connector" where
  "counting_connector =
     \<lparr>conn_name = ''crm'', conn_execute = (\<lambda>p n. (Inr (result_ok (Str (operation p))), if isReadOperation (operation p) then n else Suc n)),
      conn_testConnection = (\<lambda>_. ret (True, [])), conn_getCapabilities = None, conn_getSchema = None, conn_sync = None\<rparr>"

definition demo_idm_world :: "nat admin_world" where
  "demo_idm_world =
     \<lparr>systems = [], roles = [], mappings = [], live_registry = \<lparr>connectors = [(''crm'', counting_connector)],
      staticConnectors = [], lastRegistryVersion = None\<rparr>, outside = 0\<rparr>"

theorem idm_interface_only_reads_witness:
  "snd (conn_execute counting_connector (idm_payload ''crm'' ''user.delete'' None []) 0) = Suc 0 \<and>
   fst (idm_handle demo_env demo_call (GetUser ''crm'' ''7'') demo_idm_world) = Inr (Str ''user.get'') \<and>
   outside (snd (idm_handle demo_env demo_call (GetUser ''crm'' ''7'') demo_idm_world)) = 0"
proof (intro conjI)
  have keep: "list_all (\<lambda>(n, conn). reads_keep (\<lambda>n. n = 0) conn) (connectors (live_registry demo_idm_world))"
    by (simp add: demo_idm_world_def reads_keep_def counting_connector_def preserves_def)
  have start: "outside demo_idm_world = 0" by (simp add: demo_idm_world_def)
  show "outside (snd (idm_handle demo_env demo_call (GetUser ''crm'' ''7'') demo_idm_world)) = 0"
    using idm_interface_only_reads [OF keep start] by blast
  show "fst (idm_handle demo_env demo_call (GetUser ''crm'' ''7'') demo_idm_world) = Inr (Str ''user.get'')"
    by (simp add: read_data_def executeRead_def findRawConfigByName_def demo_call_def sbind_def system_by_name_def demo_idm_world_def
        registry_get_def on_outside_def idm_call_def idm_payload_def counting_connector_def result_ok_def Let_def)
qed (simp add: counting_connector_def idm_payload_def isReadOperation_def READ_OPERATIONS_def)

end
