(* ===== verification/AuditLog.thy ===== *)
theory AuditLog
  imports Encryption JsNumber
begin

text \<open>
  Models \<open>core/audit/audit.interceptor.ts\<close>: around every webhook request one row is written into the audit
  table, after the handler and without waiting. The table has a unique column, the id of the event with the time.
\<close>

record audit_entry =
  au_eventId :: string
  au_source :: string
  au_operation :: string
  au_targetSystem :: string
  au_payload :: jsval
  au_response :: jsval
  au_status :: string
  au_errorMessage :: "string option"

record 'w audit_world =
  au_table :: "audit_entry list"
  au_inner :: 'w

record audit_env =
  av_platform :: platform
  av_settings :: settings

record audit_request =
  aq_method :: string
  aq_url :: string
  aq_body :: jsval

text \<open>
  The clock when the row is built, the initialisation vectors of its two values and of the error row, and whether
  the table can be written.
\<close>

record audit_call =
  au_now :: nat
  au_iv :: string
  au_responseIv :: string
  au_errorIv :: string
  au_fault :: bool

definition body_part :: "audit_request \<Rightarrow> string \<Rightarrow> jsval" where
  "body_part q k = coalesce (js_get (as_obj (aq_body q)) k) (Str ''unknown'')"

definition audit_payload :: "audit_request \<Rightarrow> jsval" where
  "audit_payload q = Obj [(''request'', aq_body q), (''method'', Str (aq_method q)), (''url'', Str (aq_url q))]"

text \<open>
  The client of the database refuses a value that is no text in a text column, and a second row with the same
  event id; either way the error is ignored.
\<close>

definition write_audit :: "audit_call \<Rightarrow> audit_request \<Rightarrow> jsval \<Rightarrow> jsval \<Rightarrow> string option \<Rightarrow> 'w audit_world \<Rightarrow> 'w audit_world" where
  "write_audit c q payload response failure w =
     (let key = string_of_val (body_part q ''eventId'') @ ''-'' @ nat_digits (au_now c) in
      case (body_part q ''operation'', body_part q ''targetSystem'') of
        (Str op, Str target) \<Rightarrow>
          if au_fault c \<or> key \<in> au_eventId ` set (au_table w) then w
          else w\<lparr>au_table := au_table w @ [\<lparr>au_eventId = key, au_source = ''avanpost'', au_operation = op,
            au_targetSystem = target, au_payload = payload, au_response = response,
            au_status = (if failure = None then ''success'' else ''error''), au_errorMessage = failure\<rparr>]\<rparr>
      | _ \<Rightarrow> w)"

text \<open>An exception of the handler that builds the error row replaces the one that it was given.\<close>

definition audit_error :: "audit_env \<Rightarrow> audit_call \<Rightarrow> audit_request \<Rightarrow> exn \<Rightarrow> ('a, 'w audit_world) op" where
  "audit_error env c q e w =
     (case toJson (av_platform env) (av_settings env) (au_errorIv c) (audit_payload q) of
        Inl e' \<Rightarrow> (Inl e', w)
      | Inr payload \<Rightarrow> (Inl e, write_audit c q payload Null (Some (exn_message e)) w))"

definition intercept ::
  "audit_env \<Rightarrow> audit_call \<Rightarrow> audit_request \<Rightarrow> (jsval, 'w) op \<Rightarrow> (jsval, 'w audit_world) op" where
  "intercept env c q handler w =
     (case handler (au_inner w) of
        (Inl e, inner) \<Rightarrow> audit_error env c q e (w\<lparr>au_inner := inner\<rparr>)
      | (Inr response, inner) \<Rightarrow>
          (case ebind (toJson (av_platform env) (av_settings env) (au_iv c) (audit_payload q)) (\<lambda>payload.
                 ebind (toJson (av_platform env) (av_settings env) (au_responseIv c) (Obj [(''response'', response)])) (\<lambda>r.
                 Inr (payload, r))) of
             Inl e \<Rightarrow> audit_error env c q e (w\<lparr>au_inner := inner\<rparr>)
           | Inr (payload, r) \<Rightarrow> (Inr response, write_audit c q payload r None (w\<lparr>au_inner := inner\<rparr>))))"

section \<open>What the interceptor changes\<close>

lemma write_audit_inner [simp]: "au_inner (write_audit c q payload response failure w) = au_inner w"
  by (simp add: write_audit_def Let_def split: jsval.split)

lemma audit_error_inner [simp]: "au_inner (snd (audit_error env c q e w)) = au_inner w"
  by (simp add: audit_error_def split: sum.split)

text \<open>The stored values of an environment in which storing never fails, which holds when nothing is encrypted.\<close>

definition storable :: "audit_env \<Rightarrow> bool" where
  "storable env \<longleftrightarrow> (\<forall>iv v. \<exists>s. toJson (av_platform env) (av_settings env) iv v = Inr s)"

text \<open>
  C35: auditing changes no answer: while values can be stored, a request is answered as its handler answers it and has
  the effects of its handler, whatever becomes of the audit row.
\<close>

theorem auditing_is_transparent:
  assumes "storable env"
  shows "fst (intercept env c q handler w) = fst (handler (au_inner w)) \<and>
    au_inner (snd (intercept env c q handler w)) = snd (handler (au_inner w))"
proof -
  obtain p r pe where stored: "toJson (av_platform env) (av_settings env) (au_errorIv c) (audit_payload q) = Inr pe"
    "toJson (av_platform env) (av_settings env) (au_iv c) (audit_payload q) = Inr p"
    using assms unfolding storable_def by blast
  have resp: "\<exists>s. toJson (av_platform env) (av_settings env) (au_responseIv c) v = Inr s" for v
    using assms unfolding storable_def by blast
  obtain x inner where run: "handler (au_inner w) = (x, inner)" by (cases "handler (au_inner w)")
  show ?thesis
  proof (cases x)
    case (Inl e)
    then show ?thesis by (simp add: intercept_def run audit_error_def stored)
  next
    case (Inr response)
    obtain s where "toJson (av_platform env) (av_settings env) (au_responseIv c) (Obj [(''response'', response)]) = Inr s"
      using resp by blast
    with Inr show ?thesis by (simp add: intercept_def run stored)
  qed
qed

definition demo_audit_env :: audit_env where
  "demo_audit_env =
     \<lparr>av_platform = demo_platform, av_settings = \<lparr>process_env = (\<lambda>_. None), config_value = (\<lambda>_. Undef), sqlite = False\<rparr>\<rparr>"

definition demo_audit_call :: audit_call where
  "demo_audit_call = \<lparr>au_now = 5, au_iv = ''a'', au_responseIv = ''b'', au_errorIv = ''c'', au_fault = False\<rparr>"

definition demo_audit_request :: audit_request where
  "demo_audit_request =
     \<lparr>aq_method = ''POST'', aq_url = ''/webhooks'',
      aq_body = Obj [(''eventId'', Str ''e1''), (''operation'', Str ''user.create''), (''targetSystem'', Str ''crm'')]\<rparr>"

definition count_request :: "(jsval, nat) op" where
  "count_request n = (Inr Null, Suc n)"

theorem auditing_is_transparent_witness:
  "fst (intercept demo_audit_env demo_audit_call demo_audit_request count_request \<lparr>au_table = [], au_inner = 0\<rparr>) = Inr Null \<and>
   au_inner (snd (intercept demo_audit_env demo_audit_call demo_audit_request count_request \<lparr>au_table = [], au_inner = 0\<rparr>)) = 1 \<and>
   map au_eventId (au_table (snd (intercept demo_audit_env demo_audit_call demo_audit_request count_request
     \<lparr>au_table = [], au_inner = 0\<rparr>))) = [''e1-5'']"
proof -
  have plain: "\<not> encryption_isEnabled (av_settings demo_audit_env)" "\<not> sqlite (av_settings demo_audit_env)"
    by (simp_all add: demo_audit_env_def encryption_isEnabled_def readFlag_def readString_def)
  then have "storable demo_audit_env" by (simp add: storable_def toJson_def encryptForStorage_def)
  have five: "nat_digits 5 = ''5''" by code_simp
  from auditing_is_transparent [OF \<open>storable demo_audit_env\<close>, of demo_audit_call demo_audit_request count_request "\<lparr>au_table = [], au_inner = 0\<rparr>"]
  show ?thesis
    using plain by (simp add: count_request_def intercept_def toJson_def encryptForStorage_def write_audit_def body_part_def
        demo_audit_request_def demo_audit_call_def js_get_def coalesce_def nullish_def five)
qed

text \<open>
  When the values of the audit row cannot be encrypted, a request that was carried out is answered with the
  error of the encryption, and no row says that it happened.
\<close>

theorem audit_error_replaces_success:
  assumes "handler (au_inner w) = (Inr response, inner)"
    and "list_all (\<lambda>iv. toJson (av_platform env) (av_settings env) iv (audit_payload q) = Inl e) [au_iv c, au_errorIv c]"
  shows "intercept env c q handler w = (Inl e, w\<lparr>au_inner := inner\<rparr>)"
  using assms by (simp add: intercept_def audit_error_def)

section \<open>What the rows hold\<close>

text \<open>
  Without encryption the row holds the request as it came, with the passwords in it; other places mask or cut
  them out.
\<close>

theorem audit_rows_hold_requests:
  assumes "\<not> encryption_isEnabled (av_settings env)" "\<not> sqlite (av_settings env)" "\<not> au_fault c"
    and "handler (au_inner w) = (Inr response, inner)" "au_table w = []"
    and "body_part q ''operation'' = Str op" "body_part q ''targetSystem'' = Str target"
  shows "map au_payload (au_table (snd (intercept env c q handler w))) =
    [Obj [(''request'', aq_body q), (''method'', Str (aq_method q)), (''url'', Str (aq_url q))]]"
  using assms by (simp add: intercept_def toJson_def encryptForStorage_def write_audit_def audit_payload_def Let_def)

text \<open>A request whose operation is no text, which the handler refuses, leaves no row.\<close>

theorem malformed_operation_is_not_audited:
  assumes "body_part q ''operation'' = Num n"
  shows "au_table (snd (intercept env c q handler w)) = au_table w"
  using assms by (simp add: intercept_def audit_error_def write_audit_def Let_def split: sum.split prod.split)

text \<open>Two requests without an event id in the same millisecond share the unique value, so one of them leaves no row.\<close>

theorem colliding_rows_are_dropped:
  assumes "storable env" "js_get (as_obj (aq_body q)) ''eventId'' = Undef"
    and "''unknown-'' @ nat_digits (au_now c) \<in> au_eventId ` set (au_table w)"
  shows "au_table (snd (intercept env c q handler w)) = au_table w"
proof -
  have "string_of_val (body_part q ''eventId'') @ ''-'' @ nat_digits (au_now c) = ''unknown-'' @ nat_digits (au_now c)"
    using assms(2) by (simp add: body_part_def coalesce_def nullish_def)
  then have "au_table (write_audit c q p r f (w\<lparr>au_inner := i\<rparr>)) = au_table w" for p r f i
    using assms(3) by (simp add: write_audit_def Let_def split: jsval.split)
  then show ?thesis by (simp add: intercept_def audit_error_def split: sum.split prod.split)
qed

end
