(* ===== verification/AppConfig.thy ===== *)
theory AppConfig
  imports IntegrationAuth
begin

text \<open>
  Models \<open>config/app.config.ts\<close>: the schema of the environment, which the service checks at startup, and what the
  settings mean for the two guards. The schema language is modelled as far as it is used: a missing setting has its
  default, texts are transformed without a check of the result, and the cross checks run when all settings are valid.
\<close>

section \<open>Settings\<close>

text \<open>The defaults are values after the transformation; \<open>Flag None\<close> and \<open>Choice _ None\<close> may be missing.\<close>

datatype setting_kind =
    Required
  | Optional
  | Text string
  | Flag "bool option"
  | Numeric nat
  | Choice "string list" "string option"

fun parse_setting :: "setting_kind \<Rightarrow> string option \<Rightarrow> jsval option" where
  "parse_setting Required (Some s) = (if s = [] then None else Some (Str s))"
| "parse_setting Required None = None"
| "parse_setting Optional v = Some (case v of Some s \<Rightarrow> Str s | None \<Rightarrow> Undef)"
| "parse_setting (Text d) v = Some (Str (or_else v d))"
| "parse_setting (Flag d) (Some s) = Some (Bool (s = ''true''))"
| "parse_setting (Flag d) None = Some (case d of Some b \<Rightarrow> Bool b | None \<Rightarrow> Undef)"
| "parse_setting (Numeric d) v = Some (case v of Some s \<Rightarrow> Num (number_of_string s) | None \<Rightarrow> num (of_nat d))"
| "parse_setting (Choice xs d) (Some s) = (if s \<in> set xs then Some (Str s) else None)"
| "parse_setting (Choice xs d) None = Some (case d of Some s \<Rightarrow> Str s | None \<Rightarrow> Undef)"

definition core_settings :: "(string \<times> setting_kind) list" where
  "core_settings =
     [(''NODE_ENV'', Choice [''development'', ''production'', ''test''] (Some ''development'')),
      (''PORT'', Numeric 3010), (''DATABASE_URL'', Required),
      (''DATABASE_PROVIDER'', Choice [''postgresql'', ''sqlite''] (Some ''postgresql'')),
      (''DATABASE_FLAVOR'', Choice [''postgresql'', ''yugabytedb'', ''cockroachdb''] (Some ''postgresql'')),
      (''LIGHTWEIGHT_MODE'', Flag (Some False))]"

definition redis_settings :: "(string \<times> setting_kind) list" where
  "redis_settings =
     [(''REDIS_ENABLED'', Flag (Some False)), (''REDIS_HOST'', Optional), (''REDIS_PORT'', Numeric 6379),
      (''REDIS_PASSWORD'', Optional), (''REDIS_DB'', Numeric 0), (''REDIS_TLS_ENABLED'', Flag (Some False)),
      (''REDIS_TLS_VERIFY'', Optional), (''REDIS_TLS_REJECT_UNAUTHORIZED'', Optional), (''REDIS_TLS_CA'', Optional),
      (''REDIS_TLS_CA_PATH'', Optional), (''REDIS_TLS_CERT'', Optional), (''REDIS_TLS_CERT_PATH'', Optional),
      (''REDIS_TLS_KEY'', Optional), (''REDIS_TLS_KEY_PATH'', Optional), (''REDIS_TLS_SERVER_NAME'', Optional)]"

definition kafka_settings :: "(string \<times> setting_kind) list" where
  "kafka_settings =
     [(''KAFKA_ENABLED'', Flag (Some False)), (''KAFKA_BROKERS'', Text ''localhost:9092''),
      (''KAFKA_CLIENT_ID'', Text ''idmmw''), (''KAFKA_CONSUMER_GROUP_ID'', Text ''idmmw-worker-group''),
      (''KAFKA_TOPIC_EVENTS_IN'', Text ''idm.events.in''), (''KAFKA_TOPIC_EVENTS_OUT'', Text ''idm.events.out''),
      (''KAFKA_TOPIC_DLQ_RETRY'', Text ''idm.dlq.retry''), (''KAFKA_TLS_ENABLED'', Flag (Some False)),
      (''KAFKA_TLS_VERIFY'', Optional), (''KAFKA_TLS_REJECT_UNAUTHORIZED'', Optional), (''KAFKA_TLS_CA'', Optional),
      (''KAFKA_TLS_CA_PATH'', Optional), (''KAFKA_TLS_CERT'', Optional), (''KAFKA_TLS_CERT_PATH'', Optional),
      (''KAFKA_TLS_KEY'', Optional), (''KAFKA_TLS_KEY_PATH'', Optional), (''KAFKA_TLS_SERVER_NAME'', Optional)]"

definition processing_settings :: "(string \<times> setting_kind) list" where
  "processing_settings =
     [(''IDMMW_PROCESSING_MODE'', Choice [''sync'', ''async''] (Some ''sync'')),
      (''DLQ_RETRY_LEASE_SECONDS'', Numeric 300), (''INTEGRATION_AUTH_ENABLED'', Flag (Some False)),
      (''INTEGRATION_AUTH_SECRET'', Optional), (''INTEGRATION_AUTH_ALLOWED_CLOCK_SKEW_SECONDS'', Numeric 300)]"

definition db_connector_settings :: "(string \<times> setting_kind) list" where
  "db_connector_settings =
     [(''DB_CONNECTOR_ENABLED'', Flag (Some False)), (''DB_CONNECTOR_URL'', Optional),
      (''DB_CONNECTOR_DIALECT'', Choice [''pg'', ''mysql2'', ''sqlite3'', ''oracledb''] None),
      (''DB_CONNECTOR_USERNAME'', Optional), (''DB_CONNECTOR_PASSWORD'', Optional),
      (''DB_CONNECTOR_TLS_ENABLED'', Flag (Some False)), (''DB_CONNECTOR_TLS_VERIFY'', Optional),
      (''DB_CONNECTOR_TLS_REJECT_UNAUTHORIZED'', Optional), (''DB_CONNECTOR_TLS_CA'', Optional),
      (''DB_CONNECTOR_TLS_CA_PATH'', Optional), (''DB_CONNECTOR_TLS_CERT'', Optional),
      (''DB_CONNECTOR_TLS_CERT_PATH'', Optional), (''DB_CONNECTOR_TLS_KEY'', Optional),
      (''DB_CONNECTOR_TLS_KEY_PATH'', Optional), (''DB_CONNECTOR_TLS_SERVER_NAME'', Optional),
      (''DB_CONNECTOR_TLS_WALLET_LOCATION'', Optional), (''DB_CONNECTOR_TLS_WALLET_PASSWORD'', Optional)]"

text \<open>The connector has the same settings as a schema of its own, which nobody reads.\<close>

definition dbConnectorConfigSchema :: "(string \<times> setting_kind) list" where
  "dbConnectorConfigSchema = db_connector_settings"

definition mock_idm_settings :: "(string \<times> setting_kind) list" where
  "mock_idm_settings =
     [(''MOCK_IDM_ENABLED'', Flag (Some False)), (''MOCK_IDM_PORT'', Numeric 5100),
      (''MOCK_IDM_MIDDLEWARE_URL'', Optional)]"

definition admin_settings :: "(string \<times> setting_kind) list" where
  "admin_settings =
     [(''ADMIN_UI_ENABLED'', Flag (Some False)), (''ADMIN_UI_SERVE_STATIC'', Flag (Some False)),
      (''ADMIN_AUTH_ENABLED'', Flag (Some False)),
      (''ADMIN_AUTH_MODE'', Choice [''local'', ''sso'', ''both''] (Some ''local'')),
      (''ADMIN_AUTH_SSO_PROVIDERS'', Text ''header''), (''ADMIN_AUTH_LOCAL_USERNAME'', Optional),
      (''ADMIN_AUTH_LOCAL_PASSWORD'', Optional), (''ADMIN_AUTH_SESSION_SECRET'', Optional),
      (''ADMIN_AUTH_SESSION_TTL_SECONDS'', Numeric 28800)]"

definition admin_sso_settings :: "(string \<times> setting_kind) list" where
  "admin_sso_settings =
     [(''ADMIN_AUTH_COOKIE_NAME'', Text ''idmmw_admin_session''), (''ADMIN_AUTH_COOKIE_SECURE'', Flag None),
      (''ADMIN_AUTH_COOKIE_SAMESITE'', Choice [''Strict'', ''Lax'', ''None''] (Some ''Strict'')),
      (''ADMIN_AUTH_ALLOWLIST'', Optional), (''ADMIN_AUTH_ALLOWED_GROUPS'', Optional),
      (''ADMIN_AUTH_SSO_USER_HEADER'', Text ''x-authenticated-user''),
      (''ADMIN_AUTH_SSO_GROUPS_HEADER'', Text ''x-authenticated-groups''),
      (''ADMIN_AUTH_SSO_GROUPS_DELIMITER'', Text '',''), (''ADMIN_AUTH_TRUSTED_PROXY_CIDRS'', Optional)]"

definition identity_provider_settings :: "(string \<times> setting_kind) list" where
  "identity_provider_settings =
     [(''ADMIN_AUTH_OIDC_ISSUER_URL'', Optional), (''ADMIN_AUTH_OIDC_CLIENT_ID'', Optional),
      (''ADMIN_AUTH_OIDC_CLIENT_SECRET'', Optional), (''ADMIN_AUTH_OIDC_REDIRECT_URI'', Optional),
      (''ADMIN_AUTH_OIDC_SCOPES'', Text ''openid profile email''), (''ADMIN_AUTH_OIDC_USER_CLAIM'', Text ''sub''),
      (''ADMIN_AUTH_OIDC_GROUPS_CLAIM'', Text ''groups''), (''ADMIN_AUTH_SAML_ENTRYPOINT'', Optional),
      (''ADMIN_AUTH_SAML_ISSUER'', Optional), (''ADMIN_AUTH_SAML_CALLBACK_URL'', Optional),
      (''ADMIN_AUTH_SAML_IDP_ISSUER'', Optional), (''ADMIN_AUTH_SAML_IDP_CERT'', Optional),
      (''ADMIN_AUTH_SAML_SP_CERT'', Optional), (''ADMIN_AUTH_SAML_SP_PRIVATE_KEY'', Optional),
      (''ADMIN_AUTH_SAML_USER_ATTRIBUTE'', Text ''nameID''), (''ADMIN_AUTH_SAML_GROUPS_ATTRIBUTE'', Text ''groups'')]"

definition http_settings :: "(string \<times> setting_kind) list" where
  "http_settings =
     [(''HTTP_TLS_ENABLED'', Flag (Some False)), (''HTTP_TLS_VERIFY'', Optional),
      (''HTTP_TLS_REJECT_UNAUTHORIZED'', Optional), (''HTTP_TLS_CA'', Optional), (''HTTP_TLS_CA_PATH'', Optional),
      (''HTTP_TLS_CERT'', Optional), (''HTTP_TLS_CERT_PATH'', Optional), (''HTTP_TLS_KEY'', Optional),
      (''HTTP_TLS_KEY_PATH'', Optional), (''HTTP_TLS_SERVER_NAME'', Optional),
      (''HTTP_TLS_REQUEST_CLIENT_CERT'', Optional)]"

definition secret_settings :: "(string \<times> setting_kind) list" where
  "secret_settings =
     [(''SECRETS_PROVIDER'', Choice [''None'', ''IndeedPamAapm''] (Some ''None'')),
      (''SECRETS_INDEEDPAMAAPM_TOKEN_TRANSPORT'', Choice [''header'', ''query''] (Some ''header'')),
      (''ENCRYPTION_ENABLED'', Flag (Some False)), (''ENCRYPTION_KAFKA_ENABLED'', Optional),
      (''ENCRYPTION_IDEMPOTENCY_HMAC_ENABLED'', Optional), (''ENCRYPTION_ROTATION_MODE'', Optional),
      (''ENCRYPTION_ROTATION_SKIP_KAFKA_LAG_CHECK'', Optional), (''ENCRYPTION_ACTIVE_KEY_ID'', Optional),
      (''ENCRYPTION_KEY_ID'', Optional), (''ENCRYPTION_KEYS'', Optional), (''ENCRYPTION_KEY'', Optional)]"

definition debug_settings :: "(string \<times> setting_kind) list" where
  "debug_settings =
     [(''DebugLogging__Enabled'', Flag (Some False)),
      (''DebugLogging__Level'', Choice [''Basic'', ''Verbose''] (Some ''Basic'')),
      (''DEBUG_LOGGING_ENABLED'', Flag (Some False)), (''DEBUG_LOGGING_LEVEL'', Choice [''Basic'', ''Verbose''] None)]"

definition runtime_settings :: "(string \<times> setting_kind) list" where
  "runtime_settings =
     [(''LOG_SINK'', Choice [''stdout'', ''file''] (Some ''stdout'')), (''LOG_FILE_PATH'', Text ''/tmp/idmmw.log''),
      (''LOG_EXTERNAL_SINK'', Choice [''compose-logging-profile'', ''platform-managed''] None),
      (''METRICS_PUBLIC_ENABLED'', Flag (Some True)), (''STATIC_CONNECTOR_ALLOWLIST'', Optional),
      (''TARGET_SYSTEM_REGISTRY_REFRESH_SECONDS'', Numeric 10), (''APP_VERSION'', Optional),
      (''GIT_REVISION'', Optional), (''SOURCE_CLEAN'', Choice [''true'', ''false''] None),
      (''BUILD_PROVENANCE'', Choice [''verified'', ''unverified-local''] (Some ''unverified-local'')),
      (''RUNTIME_ARTIFACT_SHA256'', Optional), (''IMAGE_CREATED'', Optional)]"

definition appConfigSchema :: "(string \<times> setting_kind) list" where
  "appConfigSchema =
     core_settings @ redis_settings @ kafka_settings @ processing_settings @
      db_connector_settings @ mock_idm_settings @ admin_settings @ admin_sso_settings @ identity_provider_settings @ http_settings @
      secret_settings @ debug_settings @ runtime_settings"

lemmas schema_defs = appConfigSchema_def core_settings_def redis_settings_def kafka_settings_def processing_settings_def db_connector_settings_def mock_idm_settings_def admin_settings_def admin_sso_settings_def identity_provider_settings_def http_settings_def secret_settings_def debug_settings_def runtime_settings_def

definition LEGACY_PAM_ENV_NAMES :: "string list" where
  "LEGACY_PAM_ENV_NAMES = [''PAMURL'', ''PAMTOKEN'', ''PAMUSERNAME'', ''PAMPASSWORD'', ''PAMDEFAULTACCOUNTPATH'']"

section \<open>Cross checks\<close>

type_synonym issue = "string \<times> string"

definition issue_if :: "bool \<Rightarrow> string \<Rightarrow> string \<Rightarrow> issue list" where
  "issue_if bad path message = (if bad then [(path, message)] else [])"

definition admin_issues :: "(string \<Rightarrow> jsval) \<Rightarrow> issue list" where
  "admin_issues config =
     (let has = (\<lambda>k. truthy (config k)); mode = config ''ADMIN_AUTH_MODE'';
          local_on = (mode = Str ''local'' \<or> mode = Str ''both''); sso_on = (mode = Str ''sso'' \<or> mode = Str ''both'');
          providers = csv_values (string_of_val (coalesce (config ''ADMIN_AUTH_SSO_PROVIDERS'') (Str ''header''))) in
      issue_if (\<not> has ''ADMIN_AUTH_SESSION_SECRET'') ''ADMIN_AUTH_SESSION_SECRET''
        ''ADMIN_AUTH_SESSION_SECRET is required when ADMIN_AUTH_ENABLED=true'' @
      issue_if (local_on \<and> (\<not> has ''ADMIN_AUTH_LOCAL_USERNAME'' \<or> \<not> has ''ADMIN_AUTH_LOCAL_PASSWORD''))
        ''ADMIN_AUTH_LOCAL_USERNAME'' ''Local admin auth requires ADMIN_AUTH_LOCAL_USERNAME and ADMIN_AUTH_LOCAL_PASSWORD'' @
      issue_if (sso_on \<and> \<not> has ''ADMIN_AUTH_ALLOWLIST'' \<and> \<not> has ''ADMIN_AUTH_ALLOWED_GROUPS'')
        ''ADMIN_AUTH_ALLOWLIST'' ''SSO admin auth requires ADMIN_AUTH_ALLOWLIST or ADMIN_AUTH_ALLOWED_GROUPS'' @
      issue_if (list_ex (\<lambda>p. p \<notin> {''header'', ''oidc'', ''saml''}) providers)
        ''ADMIN_AUTH_SSO_PROVIDERS'' ''ADMIN_AUTH_SSO_PROVIDERS supports only header, oidc, saml'' @
      issue_if (sso_on \<and> ''header'' \<in> set providers \<and> \<not> has ''ADMIN_AUTH_TRUSTED_PROXY_CIDRS'')
        ''ADMIN_AUTH_TRUSTED_PROXY_CIDRS''
        ''Header SSO admin auth requires ADMIN_AUTH_TRUSTED_PROXY_CIDRS to prevent spoofed SSO headers'' @
      issue_if (sso_on \<and> ''oidc'' \<in> set providers \<and> \<not> list_all has [''ADMIN_AUTH_OIDC_ISSUER_URL'',
          ''ADMIN_AUTH_OIDC_CLIENT_ID'', ''ADMIN_AUTH_OIDC_CLIENT_SECRET'', ''ADMIN_AUTH_OIDC_REDIRECT_URI''])
        ''ADMIN_AUTH_OIDC_ISSUER_URL'' ''OIDC admin auth requires issuer URL, client ID, client secret and redirect URI'' @
      issue_if (sso_on \<and> ''saml'' \<in> set providers \<and> \<not> list_all has [''ADMIN_AUTH_SAML_ENTRYPOINT'',
          ''ADMIN_AUTH_SAML_ISSUER'', ''ADMIN_AUTH_SAML_CALLBACK_URL'', ''ADMIN_AUTH_SAML_IDP_ISSUER'',
          ''ADMIN_AUTH_SAML_IDP_CERT''])
        ''ADMIN_AUTH_SAML_ENTRYPOINT''
        ''SAML admin auth requires entrypoint, SP issuer, callback URL, IdP issuer and IdP certificate'')"

definition config_issues :: "(string \<Rightarrow> jsval) \<Rightarrow> issue list" where
  "config_issues config =
     concat (map (\<lambda>k. issue_if (case config k of Str s \<Rightarrow> trim s \<noteq> [] | _ \<Rightarrow> False) k
       (''Legacy PAM* environment variables are not supported. Use SECRETS_PROVIDER=IndeedPamAapm '' @
        ''and SECRETS_INDEEDPAMAAPM_* instead.'')) LEGACY_PAM_ENV_NAMES) @
     issue_if (config ''IDMMW_PROCESSING_MODE'' = Str ''async'' \<and> \<not> truthy (config ''KAFKA_ENABLED''))
       ''IDMMW_PROCESSING_MODE'' ''IDMMW_PROCESSING_MODE=async requires KAFKA_ENABLED=true and reachable Kafka brokers'' @
     issue_if (config ''NODE_ENV'' = Str ''production'' \<and> truthy (config ''MOCK_IDM_ENABLED''))
       ''MOCK_IDM_ENABLED'' ''MOCK_IDM_ENABLED=true is not allowed in production'' @
     issue_if (truthy (config ''INTEGRATION_AUTH_ENABLED'') \<and> \<not> truthy (config ''INTEGRATION_AUTH_SECRET''))
       ''INTEGRATION_AUTH_SECRET'' ''INTEGRATION_AUTH_SECRET is required when INTEGRATION_AUTH_ENABLED=true'' @
     issue_if (\<not> truthy (config ''METRICS_PUBLIC_ENABLED'') \<and> \<not> truthy (config ''INTEGRATION_AUTH_SECRET''))
       ''INTEGRATION_AUTH_SECRET'' ''INTEGRATION_AUTH_SECRET is required when METRICS_PUBLIC_ENABLED=false'' @
     (if truthy (config ''ADMIN_AUTH_ENABLED'') then admin_issues config else [])"

text \<open>The issues, or the validated settings; a variable that the schema does not know is passed through.\<close>

definition validated :: "(string \<Rightarrow> string option) \<Rightarrow> string \<Rightarrow> jsval" where
  "validated env k =
     (case map_of appConfigSchema k of
        Some kind \<Rightarrow> or_else (parse_setting kind (env k)) Undef
      | None \<Rightarrow> (case env k of Some s \<Rightarrow> Str s | None \<Rightarrow> Undef))"

definition parse_config :: "(string \<Rightarrow> string option) \<Rightarrow> issue list + (string \<Rightarrow> jsval)" where
  "parse_config env =
     (let invalid = filter (\<lambda>(k, kind). parse_setting kind (env k) = None) appConfigSchema in
      if invalid \<noteq> [] then Inl (map (\<lambda>e. (fst e, ''Invalid input'')) invalid)
      else if config_issues (validated env) \<noteq> [] then Inl (config_issues (validated env))
      else Inr (validated env))"

section \<open>What the services are given\<close>

text \<open>
  The typed lookups of the services on the validated settings: the type is a promise to the compiler, so a numeric
  setting is whatever number the transformation made of its text, \<open>NaN\<close> too.
\<close>

definition service_cfg :: "(string \<Rightarrow> jsval) \<Rightarrow> app_cfg" where
  "service_cfg config =
     \<lparr>cfg_str = (\<lambda>k. case config k of Str s \<Rightarrow> Some s | _ \<Rightarrow> None),
      cfg_bool = (\<lambda>k. case config k of Bool b \<Rightarrow> Some b | _ \<Rightarrow> None),
      cfg_num = (\<lambda>k. case config k of Num n \<Rightarrow> Some n | _ \<Rightarrow> None)\<rparr>"

text \<open>Looking a setting up, one group after the other.\<close>

lemma map_of_step: "map_of ((k', v) # xs) k = (if k' = k then Some v else map_of xs k)"
  by simp

lemma map_of_groups: "map_of (xs @ ys) k = (case map_of xs k of None \<Rightarrow> map_of ys k | Some v \<Rightarrow> Some v)"
  by (simp add: map_add_def split: option.split)

lemmas lookup = schema_defs map_of_step map_of_groups

lemma optional_text:
  assumes "map_of appConfigSchema k = Some Optional" "truthy (validated env k)"
  shows "\<exists>c s. cfg_str (service_cfg (validated env)) k = Some (c # s)"
  using assms by (cases "env k") (auto simp: validated_def service_cfg_def neq_Nil_conv)

lemma optional_settings:
  "map_of appConfigSchema ''ADMIN_AUTH_SESSION_SECRET'' = Some Optional"
  "map_of appConfigSchema ''ADMIN_AUTH_LOCAL_USERNAME'' = Some Optional"
  "map_of appConfigSchema ''ADMIN_AUTH_LOCAL_PASSWORD'' = Some Optional"
  "map_of appConfigSchema ''INTEGRATION_AUTH_SECRET'' = Some Optional"
  by (simp_all add: lookup del: map_of.simps(2) append.simps map_of_append)

lemma accepted:
  assumes "parse_config env = Inr config"
  shows "config = validated env" "config_issues config = []"
    and "(k, kind) \<in> set appConfigSchema \<Longrightarrow> parse_setting kind (env k) \<noteq> None"
  using assms by (auto simp: parse_config_def Let_def filter_empty_conv split: if_splits)

lemma mode_schema:
  "map_of appConfigSchema ''ADMIN_AUTH_MODE'' = Some (Choice [''local'', ''sso'', ''both''] (Some ''local''))"
  by (simp_all add: lookup del: map_of.simps(2) append.simps map_of_append)

lemma accepted_mode:
  assumes "parse_config env = Inr config" "auth_mode (service_cfg config) \<noteq> ''sso''"
  shows "config ''ADMIN_AUTH_MODE'' = Str ''local'' \<or> config ''ADMIN_AUTH_MODE'' = Str ''both''"
proof -
  have "parse_setting (Choice [''local'', ''sso'', ''both''] (Some ''local'')) (env ''ADMIN_AUTH_MODE'') \<noteq> None"
    by (rule accepted(3) [OF assms(1) map_of_SomeD [OF mode_schema]])
  moreover have "config ''ADMIN_AUTH_MODE'' =
      or_else (parse_setting (Choice [''local'', ''sso'', ''both''] (Some ''local'')) (env ''ADMIN_AUTH_MODE'')) Undef"
    by (simp add: accepted(1) [OF assms(1)] validated_def mode_schema)
  ultimately show ?thesis using assms(2)
    by (cases "env ''ADMIN_AUTH_MODE''") (auto simp: auth_mode_def service_cfg_def Let_def split: if_splits)
qed

lemma no_issue: "issue_if bad path m = [] \<longleftrightarrow> \<not> bad"
  by (simp add: issue_if_def)

lemma verify_unconfigured:
  "ar_status (int_verify d proc c now req) = 503 \<longleftrightarrow> int_secret proc c = None"
  by (simp add: int_verify_def denied_def Let_def split: option.splits list.splits)

lemma accepted_secret:
  assumes "parse_config env = Inr config" "truthy (config ''INTEGRATION_AUTH_SECRET'')"
  shows "\<exists>s. env ''INTEGRATION_AUTH_SECRET'' = Some s \<and> s \<noteq> [] \<and>
    (\<forall>proc \<in> {None, Some s}. int_secret proc (service_cfg config) = (if trim s = [] then None else Some (trim s)))"
proof -
  note config = accepted(1) [OF assms(1)]
  obtain s where s: "env ''INTEGRATION_AUTH_SECRET'' = Some s" "s \<noteq> []"
    using assms(2) by (cases "env ''INTEGRATION_AUTH_SECRET''")
      (auto simp: config validated_def optional_settings)
  then have "config ''INTEGRATION_AUTH_SECRET'' = Str s" by (simp add: config validated_def optional_settings)
  with s show ?thesis by (auto simp: int_secret_def service_cfg_def)
qed

text \<open>
  C36: what a configuration that passes the check at startup gives the two guards. With the admin login on, sessions
  can be signed, and unless only SSO is allowed there is a local user name with a password. With the guard of the
  integration interface on, or with guarded metrics, the environment has a secret, which may be blank: the guard then
  checks signatures with the secret without surrounding blanks, and answers that it is not configured (503) exactly
  when nothing is left of it. The guard asks the process environment first, which may or may not hold the setting.
\<close>

theorem accepted_config_serves_guards:
  assumes "parse_config env = Inr config"
  shows "(auth_isEnabled (service_cfg config) \<longrightarrow> (\<exists>s. sessionSecret (service_cfg config) = Inr s)) \<and>
    (auth_isEnabled (service_cfg config) \<and> auth_mode (service_cfg config) \<noteq> ''sso'' \<longrightarrow>
      (\<exists>c s. cfg_str (service_cfg config) ''ADMIN_AUTH_LOCAL_USERNAME'' = Some (c # s)) \<and>
      (\<exists>c s. cfg_str (service_cfg config) ''ADMIN_AUTH_LOCAL_PASSWORD'' = Some (c # s))) \<and>
    (cfg_bool (service_cfg config) ''INTEGRATION_AUTH_ENABLED'' = Some True \<or>
     cfg_bool (service_cfg config) ''METRICS_PUBLIC_ENABLED'' = Some False \<longrightarrow>
      (\<exists>s. env ''INTEGRATION_AUTH_SECRET'' = Some s \<and> s \<noteq> [] \<and>
        (\<forall>proc \<in> {None, Some s}.
          int_secret proc (service_cfg config) = (if trim s = [] then None else Some (trim s)) \<and>
          (\<forall>d now req. ar_status (int_verify d proc (service_cfg config) now req) = 503 \<longleftrightarrow> trim s = []))))"
proof -
  note config = accepted(1) [OF assms]
  have issues: "config_issues config = []" by (rule accepted(2) [OF assms])
  note given = optional_text [of _ env, folded config]
  have flag: "config k = Bool b" if "cfg_bool (service_cfg config) k = Some b" for k b
    using that by (simp add: service_cfg_def split: jsval.splits)
  have admin: "admin_issues config = []" if "auth_isEnabled (service_cfg config)"
  proof -
    have "cfg_bool (service_cfg config) ''ADMIN_AUTH_ENABLED'' = Some True"
      using that unfolding auth_isEnabled_def or_else_def by (simp split: option.splits)
    with flag issues show ?thesis by (simp add: config_issues_def)
  qed
  show ?thesis
  proof (intro conjI impI)
    assume "auth_isEnabled (service_cfg config)"
    then have "truthy (config ''ADMIN_AUTH_SESSION_SECRET'')" using admin by (simp add: admin_issues_def Let_def no_issue)
    then show "\<exists>s. sessionSecret (service_cfg config) = Inr s"
      using given [OF optional_settings(1)] by (auto simp: sessionSecret_def)
  next
    assume on: "auth_isEnabled (service_cfg config) \<and> auth_mode (service_cfg config) \<noteq> ''sso''"
    then have "truthy (config ''ADMIN_AUTH_LOCAL_USERNAME'') \<and> truthy (config ''ADMIN_AUTH_LOCAL_PASSWORD'')"
      using admin accepted_mode [OF assms] by (auto simp: admin_issues_def Let_def no_issue)
    then show "\<exists>c s. cfg_str (service_cfg config) ''ADMIN_AUTH_LOCAL_USERNAME'' = Some (c # s)"
      "\<exists>c s. cfg_str (service_cfg config) ''ADMIN_AUTH_LOCAL_PASSWORD'' = Some (c # s)"
      using given [OF optional_settings(2)] given [OF optional_settings(3)] by auto
  next
    assume "cfg_bool (service_cfg config) ''INTEGRATION_AUTH_ENABLED'' = Some True \<or>
     cfg_bool (service_cfg config) ''METRICS_PUBLIC_ENABLED'' = Some False"
    then have "truthy (config ''INTEGRATION_AUTH_SECRET'')"
      using issues flag by (auto simp: config_issues_def no_issue)
    from accepted_secret [OF assms this] show "\<exists>s. env ''INTEGRATION_AUTH_SECRET'' = Some s \<and> s \<noteq> [] \<and>
        (\<forall>proc \<in> {None, Some s}.
          int_secret proc (service_cfg config) = (if trim s = [] then None else Some (trim s)) \<and>
          (\<forall>d now req. ar_status (int_verify d proc (service_cfg config) now req) = 503 \<longleftrightarrow> trim s = []))"
      unfolding verify_unconfigured by (metis option.distinct(1))
  qed
qed

section \<open>Numbers\<close>

text \<open>The check of the age of a signed request, with whatever number the setting holds.\<close>

definition outside_skew :: "nat \<Rightarrow> rat \<Rightarrow> jsval \<Rightarrow> bool" where
  "outside_skew now timestamp setting =
     js_gt (Fin \<bar>of_nat now - timestamp\<bar>) (milliseconds (number_of_val (coalesce setting (num 300))))"

lemma outside_skew_nat:
  "outside_skew now t (num (of_nat n)) \<longleftrightarrow> \<bar>of_nat now - t\<bar> > of_nat n * 1000"
  by (simp add: outside_skew_def coalesce_def nullish_def)

abbreviation skew_name :: string where
  "skew_name \<equiv> ''INTEGRATION_AUTH_ALLOWED_CLOCK_SKEW_SECONDS''"

lemma skew_schema: "map_of appConfigSchema skew_name = Some (Numeric 300)"
  by (simp_all add: lookup del: map_of.simps(2) append.simps map_of_append)

lemma validated_upd: "k \<noteq> skew_name \<Longrightarrow> validated (env(skew_name := v)) k = validated env k"
  by (simp add: validated_def split: option.split)

lemma issues_upd: "config_issues (validated (env(skew_name := v))) = config_issues (validated env)"
  by (simp add: config_issues_def admin_issues_def validated_upd LEGACY_PAM_ENV_NAMES_def)

lemma invalid_upd:
  "filter (\<lambda>(k, kind). parse_setting kind ((env(skew_name := v)) k) = None) appConfigSchema =
   filter (\<lambda>(k, kind). parse_setting kind (env k) = None) appConfigSchema"
proof (rule filter_cong [OF refl], clarify)
  fix k kind assume "(k, kind) \<in> set appConfigSchema"
  moreover have "list_all (\<lambda>(k, kind). k \<noteq> skew_name \<or> kind = Numeric 300) appConfigSchema" by (simp add: schema_defs)
  ultimately show "(parse_setting kind ((env(skew_name := v)) k) = None) = (parse_setting kind (env k) = None)"
    by (cases "k = skew_name") (auto simp: list_all_iff)
qed

text \<open>
  A unit in the setting of the allowed clock skew switches the check of the age off. Numeric settings are
  transformed and not checked, so \<open>300s\<close> is accepted wherever the default is, and becomes \<open>NaN\<close>, which no age
  exceeds: a signed request is then accepted whenever it was signed.
\<close>

theorem unit_in_skew_setting_admits_any_age:
  "isl (parse_config (env(skew_name := Some ''300s''))) = isl (parse_config (env(skew_name := None))) \<and>
   validated (env(skew_name := Some ''300s'')) skew_name = Num NaN \<and>
   \<not> outside_skew now timestamp (validated (env(skew_name := Some ''300s'')) skew_name)"
proof (intro conjI)
  have "number_of_string ''300s'' = NaN" by code_simp
  then show nan: "validated (env(skew_name := Some ''300s'')) skew_name = Num NaN"
    by (simp add: validated_def skew_schema)
  show "\<not> outside_skew now timestamp (validated (env(skew_name := Some ''300s'')) skew_name)"
    unfolding nan by (simp add: outside_skew_def coalesce_def nullish_def)
  show "isl (parse_config (env(skew_name := Some ''300s''))) = isl (parse_config (env(skew_name := None)))"
    by (simp only: parse_config_def issues_upd invalid_upd Let_def split: if_split) simp
qed

section \<open>Witness\<close>

definition demo_config_env :: "string \<Rightarrow> string option" where
  "demo_config_env =
     [''DATABASE_URL'' \<mapsto> ''file'', ''ADMIN_AUTH_ENABLED'' \<mapsto> ''true'', ''ADMIN_AUTH_SESSION_SECRET'' \<mapsto> ''s'',
      ''ADMIN_AUTH_LOCAL_USERNAME'' \<mapsto> ''u'', ''ADMIN_AUTH_LOCAL_PASSWORD'' \<mapsto> ''p'',
      ''INTEGRATION_AUTH_ENABLED'' \<mapsto> ''true'', ''INTEGRATION_AUTH_SECRET'' \<mapsto> '' k'']"

lemma demo_schema:
  "map_of appConfigSchema ''ADMIN_AUTH_ENABLED'' = Some (Flag (Some False))"
  "map_of appConfigSchema ''ADMIN_AUTH_SSO_PROVIDERS'' = Some (Text ''header'')"
  "map_of appConfigSchema ''IDMMW_PROCESSING_MODE'' = Some (Choice [''sync'', ''async''] (Some ''sync''))"
  "map_of appConfigSchema ''NODE_ENV'' = Some (Choice [''development'', ''production'', ''test''] (Some ''development''))"
  "map_of appConfigSchema ''INTEGRATION_AUTH_ENABLED'' = Some (Flag (Some False))"
  "map_of appConfigSchema ''METRICS_PUBLIC_ENABLED'' = Some (Flag (Some True))"
  by (simp_all add: lookup del: map_of.simps(2) append.simps map_of_append)

lemma legacy_unknown: "take 3 k = ''PAM'' \<Longrightarrow> map_of appConfigSchema k = None"
proof -
  have "list_all (\<lambda>k. take 3 k \<noteq> ''PAM'') (map fst appConfigSchema)" by (simp add: schema_defs)
  moreover assume "take 3 k = ''PAM''"
  ultimately show ?thesis by (auto simp: list_all_iff map_of_eq_None_iff)
qed

lemma demo_validated:
  "validated demo_config_env ''ADMIN_AUTH_ENABLED'' = Bool True"
  "validated demo_config_env ''ADMIN_AUTH_MODE'' = Str ''local''"
  "validated demo_config_env ''ADMIN_AUTH_SESSION_SECRET'' = Str ''s''"
  "validated demo_config_env ''ADMIN_AUTH_LOCAL_USERNAME'' = Str ''u''"
  "validated demo_config_env ''ADMIN_AUTH_LOCAL_PASSWORD'' = Str ''p''"
  "validated demo_config_env ''ADMIN_AUTH_SSO_PROVIDERS'' = Str ''header''"
  "validated demo_config_env ''IDMMW_PROCESSING_MODE'' = Str ''sync''"
  "validated demo_config_env ''NODE_ENV'' = Str ''development''"
  "validated demo_config_env ''INTEGRATION_AUTH_ENABLED'' = Bool True"
  "validated demo_config_env ''INTEGRATION_AUTH_SECRET'' = Str '' k''"
  "validated demo_config_env ''METRICS_PUBLIC_ENABLED'' = Bool True"
  "validated demo_config_env ''PAMURL'' = Undef" "validated demo_config_env ''PAMTOKEN'' = Undef"
  "validated demo_config_env ''PAMUSERNAME'' = Undef" "validated demo_config_env ''PAMPASSWORD'' = Undef"
  "validated demo_config_env ''PAMDEFAULTACCOUNTPATH'' = Undef"
  by (simp_all add: validated_def demo_schema legacy_unknown mode_schema optional_settings demo_config_env_def)

lemma demo_accepted: "parse_config demo_config_env = Inr (validated demo_config_env)"
proof -
  have "filter (\<lambda>(k, kind). parse_setting kind (demo_config_env k) = None) appConfigSchema = []"
    by (simp add: schema_defs demo_config_env_def)
  moreover have "config_issues (validated demo_config_env) = []"
  proof -
    have "csv_values ''header'' = [''header'']" by code_simp
    with demo_validated show ?thesis
      by (simp add: config_issues_def admin_issues_def issue_if_def LEGACY_PAM_ENV_NAMES_def coalesce_def nullish_def)
  qed
  ultimately show ?thesis by (simp add: parse_config_def)
qed

theorem accepted_config_serves_guards_witness:
  "\<exists>config s. parse_config demo_config_env = Inr config \<and> auth_isEnabled (service_cfg config) \<and>
     sessionSecret (service_cfg config) = Inr s \<and> int_secret None (service_cfg config) = Some ''k''"
proof -
  have "auth_isEnabled (service_cfg (validated demo_config_env))"
    "cfg_bool (service_cfg (validated demo_config_env)) ''INTEGRATION_AUTH_ENABLED'' = Some True"
    by (simp_all add: auth_isEnabled_def service_cfg_def demo_validated)
  moreover have "trim '' k'' = ''k''" "demo_config_env ''INTEGRATION_AUTH_SECRET'' = Some '' k''"
    by code_simp (simp add: demo_config_env_def)
  ultimately show ?thesis using demo_accepted accepted_config_serves_guards [OF demo_accepted] by force
qed

text \<open>
  A blank secret passes the check at startup: it is a text that is not empty. The guard then rejects every request
  of the integration interface with the status 503.
\<close>

theorem blank_secret_is_accepted:
  "parse_config (demo_config_env(''INTEGRATION_AUTH_SECRET'' := Some '' '')) =
     Inr (validated (demo_config_env(''INTEGRATION_AUTH_SECRET'' := Some '' ''))) \<and>
   ar_status (int_verify d (Some '' '')
     (service_cfg (validated (demo_config_env(''INTEGRATION_AUTH_SECRET'' := Some '' '')))) now req) = 503"
proof
  let ?env = "demo_config_env(''INTEGRATION_AUTH_SECRET'' := Some '' '')"
  have same: "validated ?env k = validated demo_config_env k" if "k \<noteq> ''INTEGRATION_AUTH_SECRET''" for k
    using that by (simp add: validated_def split: option.split)
  have "filter (\<lambda>(k, kind). parse_setting kind (?env k) = None) appConfigSchema = []"
    by (simp add: schema_defs demo_config_env_def)
  moreover have "config_issues (validated ?env) = []"
  proof -
    have "csv_values ''header'' = [''header'']" by code_simp
    moreover have "validated ?env ''INTEGRATION_AUTH_SECRET'' = Str '' ''" by (simp add: validated_def optional_settings)
    ultimately show ?thesis using demo_validated
      by (simp add: same config_issues_def admin_issues_def issue_if_def LEGACY_PAM_ENV_NAMES_def coalesce_def nullish_def)
  qed
  ultimately show "parse_config ?env = Inr (validated ?env)" by (simp add: parse_config_def)
  have "trim '' '' = []" by code_simp
  then show "ar_status (int_verify d (Some '' '') (service_cfg (validated ?env)) now req) = 503"
    by (simp add: verify_unconfigured int_secret_def)
qed

end
