(* ===== verification/CmdbuildConnector.thy ===== *)
theory CmdbuildConnector
  imports Auth HttpKit "HOL-Library.Char_ord" "HOL-Library.List_Lexorder"
begin

text \<open>
  Models \<open>connectors/implementations/cmdbuild-connector/cmdbuild-connector.service.ts\<close>: users and roles of a
  CMDBuild server. The service keeps the sessions that servers gave it, and writes diagnostic records; whether a
  record is kept is decided by the diagnostic logger (\<open>Diagnostics\<close>). URL parsing is an argument.
\<close>

section \<open>State\<close>

record cmd_env = http_env +
  ce_platform :: platform
  ce_origin :: "string \<Rightarrow> string option"

record cmd_diag =
  cd_verbose :: bool
  cd_event :: string
  cd_details :: obj

record cmd_world = http_world +
  cw_sessions :: "(string \<times> string) list"
  cw_diag :: "cmd_diag list"

definition cmd_note :: "bool \<Rightarrow> string \<Rightarrow> obj \<Rightarrow> (unit, 'b cmd_world_scheme) op" where
  "cmd_note verbose event details =
     modify (\<lambda>w. w\<lparr>cw_diag := cw_diag w @ [\<lparr>cd_verbose = verbose, cd_event = event, cd_details = details\<rparr>]\<rparr>)"

section \<open>Errors\<close>

text \<open>What an error has beside its message; only errors of the HTTP client have a response.\<close>

definition error_part :: "exn \<Rightarrow> string \<Rightarrow> jsval" where
  "error_part e k =
     (case e of ClientError m props \<Rightarrow> js_get props k | _ \<Rightarrow> if k = ''name'' then Str ''Error'' else Undef)"

definition response_part :: "exn \<Rightarrow> string \<Rightarrow> jsval" where
  "response_part e k = js_get (as_obj (error_part e ''response'')) k"

definition errorName :: "exn \<Rightarrow> jsval" where
  "errorName e = (case error_part e ''name'' of Str s \<Rightarrow> if trim s \<noteq> [] then Str s else Undef | _ \<Rightarrow> Undef)"

definition errorCode :: "exn \<Rightarrow> jsval" where
  "errorCode e =
     (case error_part e ''code'' of Str s \<Rightarrow> Str s | Num n \<Rightarrow> Str (string_of_val (Num n)) | _ \<Rightarrow> Undef)"

definition errorStatus :: "exn \<Rightarrow> jsval" where
  "errorStatus e = (case response_part e ''status'' of Num n \<Rightarrow> Num n | _ \<Rightarrow> Undef)"

definition responseHeaderValue :: "exn \<Rightarrow> string \<Rightarrow> jsval" where
  "responseHeaderValue e k = js_get (as_obj (response_part e ''headers'')) k"

definition isSessionAuthFailure :: "exn \<Rightarrow> bool" where
  "isSessionAuthFailure e \<longleftrightarrow> response_part e ''status'' \<in> {num 401, num 403}"

definition basic_char :: "char \<Rightarrow> bool" where
  "basic_char c \<longleftrightarrow> is_alnum c \<or> c \<in> set ''+/=._-''"

text \<open>\<open>\bBasic\s+[A-Za-z0-9+/=._-]+\<close>\<close>

definition match_basic :: "string \<Rightarrow> re_match option" where
  "match_basic s =
     (let r = drop 5 s; ws = takeWhile is_ws r; tok = takeWhile basic_char (dropWhile is_ws r) in
      if starts_with ''Basic'' s \<and> ws \<noteq> [] \<and> tok \<noteq> []
      then Some \<lparr>rm_keep = take 5 s, rm_mid = '' '', rm_end = [], rm_length = 5 + length ws + length tok\<rparr>
      else None)"

definition value_char :: "char \<Rightarrow> bool" where
  "value_char c \<longleftrightarrow> c \<noteq> CHR '','' \<and> c \<noteq> CHR ''}'' \<and> \<not> is_ws c"

text \<open>\<open>(?:Basic\s+)?\<close> before a value, in any case; without a value behind it the word itself is the value.\<close>

definition basic_skip :: "string \<Rightarrow> nat" where
  "basic_skip s =
     (let r = drop 5 s; ws = takeWhile is_ws r in
      if to_lower (take 5 s) = ''basic'' \<and> ws \<noteq> [] \<and> takeWhile value_char (dropWhile is_ws r) \<noteq> []
      then 5 + length ws else 0)"

text \<open>\<open>((?:name|...)\s*[:=]\s*)[^,\s}]+\<close>, in any case\<close>

definition match_setting :: "string list \<Rightarrow> bool \<Rightarrow> string \<Rightarrow> re_match option" where
  "match_setting names basic s =
     (case first_prefix to_lower names s of
        None \<Rightarrow> None
      | Some n \<Rightarrow>
          (let r = drop n s; ws = takeWhile is_ws r; r1 = drop (length ws) r;
               ws1 = takeWhile is_ws (drop 1 r1); r2 = dropWhile is_ws (drop 1 r1);
               skipped = (if basic then basic_skip r2 else 0); v = takeWhile value_char (drop skipped r2);
               k = n + length ws + 1 + length ws1 in
           if (starts_with '':'' r1 \<or> starts_with ''='' r1) \<and> v \<noteq> []
           then Some \<lparr>rm_keep = take k s, rm_mid = [], rm_end = [], rm_length = k + skipped + length v\<rparr>
           else None))"

definition header_names :: "string list" where
  "header_names = [''authorization'', ''cmdbuild-authorization'']"

definition secret_names :: "string list" where
  "secret_names = [''password'', ''passwd'', ''pwd'', ''token'', ''secret'']"

definition getBasicAuthHeader :: "obj \<Rightarrow> string" where
  "getBasicAuthHeader config =
     ''Basic '' @ b64_encode False (utf8 (string_of_val (js_get config ''username'') @ '':'' @ string_of_val (js_get config ''password'')))"

definition cmd_secrets :: "obj \<Rightarrow> string list \<Rightarrow> string list" where
  "cmd_secrets config tokens =
     (let user = js_get config ''username''; pass = js_get config ''password'' in
      sort_key (\<lambda>s. - int (length s)) (filter (\<lambda>s. MIN_LITERAL_SECRET_LENGTH \<le> length s)
        ((case pass of Str s \<Rightarrow> [s] | _ \<Rightarrow> []) @
         (if user \<noteq> Undef \<and> pass \<noteq> Undef then [getBasicAuthHeader config] else []) @ tokens)))"

definition cmd_safeErrorMessage :: "obj \<Rightarrow> string list \<Rightarrow> exn \<Rightarrow> string" where
  "cmd_safeErrorMessage config tokens e =
     replace_all False (match_setting secret_names False) False
       (replace_all False (match_setting header_names True) False
         (replace_all True match_basic False (fold cut_out (cmd_secrets config tokens) (exn_message e))))"

section \<open>Diagnostic values\<close>

fun summarizeDiagnosticValue :: "jsval \<Rightarrow> jsval" where
  "summarizeDiagnosticValue Undef = Undef"
| "summarizeDiagnosticValue Null = Obj [(''type'', Str ''null'')]"
| "summarizeDiagnosticValue (Arr xs) = Obj [(''type'', Str ''array''), (''count'', num (of_nat (length xs)))]"
| "summarizeDiagnosticValue (Obj kvs) = Obj [(''type'', Str ''object''), (''keys'', Arr (map Str (sort (map fst kvs))))]"
| "summarizeDiagnosticValue (Str s) = Obj [(''type'', Str ''string''), (''length'', num (of_nat (length s)))]"
| "summarizeDiagnosticValue (Bool b) = Obj [(''type'', Str ''boolean'')]"
| "summarizeDiagnosticValue (Num n) = Obj [(''type'', Str ''number'')]"

definition diagnosticTargetSystem :: "obj \<Rightarrow> jsval" where
  "diagnosticTargetSystem config =
     (case js_get config ''diagnosticTargetSystem'' of Str s \<Rightarrow> if trim s \<noteq> [] then Str (trim s) else Undef | _ \<Rightarrow> Undef)"

text \<open>\<open>new URL(v).origin\<close>\<close>

definition safeOrigin :: "cmd_env \<Rightarrow> jsval \<Rightarrow> jsval" where
  "safeOrigin env v = Str (or_else (ce_origin env (string_of_val v)) ''invalid-url'')"

definition safePath :: "string \<Rightarrow> string" where
  "safePath path = takeWhile (\<lambda>c. c \<noteq> CHR ''?'') path"

definition userGroupIds :: "jsval \<Rightarrow> jsval" where
  "userGroupIds v = (case v of Arr xs \<Rightarrow> Arr (map (\<lambda>x. js_get (as_obj x) ''_id'') xs) | _ \<Rightarrow> Undef)"

definition is_array :: "jsval \<Rightarrow> bool" where
  "is_array v = (case v of Arr _ \<Rightarrow> True | _ \<Rightarrow> False)"

section \<open>Groups in the configuration\<close>

definition cmd_groupMode :: "jsval \<Rightarrow> string \<Rightarrow> group_mode result" where
  "cmd_groupMode v name =
     (if blank v then Inr ById
      else case v of
        Str s \<Rightarrow>
          (if to_lower (trim s) = ''id'' then Inr ById
           else if to_lower (trim s) = ''name'' then Inr ByName
           else Inl (JsError (''Invalid CMDBuild '' @ name @ '': expected id or name'')))
      | _ \<Rightarrow> Inl (JsError (''Invalid CMDBuild '' @ name @ '': expected id or name'')))"

definition incomingGroupSettings :: "obj \<Rightarrow> group_settings result" where
  "incomingGroupSettings config =
     ebind (cmd_groupMode (js_get config ''incomingGroupsMode'') ''incomingGroupsMode'') (\<lambda>m.
     Inr \<lparr>gs_enabled = booleanConfig (js_get config ''incomingGroupsEnabled''), gs_mode = m\<rparr>)"

record default_settings = group_settings +
  dg_value :: jsval
  dg_values :: "jsval list"

definition defaultGroupSettings :: "obj \<Rightarrow> default_settings result" where
  "defaultGroupSettings config =
     (let modern = (\<exists>k \<in> set [''defaultUserGroupEnabled'', ''defaultUserGroupMode'', ''defaultUserGroupValue'']. js_get config k \<noteq> Undef);
          legacy = js_get config ''defaultUserGroupId''; given = js_get config ''defaultUserGroupValue'';
          v = (if given \<noteq> Undef then given else legacy) in
      ebind (if modern then cmd_groupMode (js_get config ''defaultUserGroupMode'') ''defaultUserGroupMode'' else Inr ById) (\<lambda>m.
      Inr \<lparr>gs_enabled = (if modern then booleanConfig (js_get config ''defaultUserGroupEnabled'') else legacy \<noteq> Undef),
        gs_mode = m, dg_value = v, dg_values = (if v \<noteq> Undef then [v] else [])\<rparr>))"

definition create_hints :: "obj \<Rightarrow> default_settings \<Rightarrow> group_settings \<Rightarrow> string list" where
  "create_hints content defaults incoming =
     (let groups = is_array (js_get content ''groups''); userGroups = is_array (js_get content ''userGroups'') in
      (if groups \<and> \<not> userGroups
       then [if gs_enabled incoming
         then ''groups mapping is enabled but userGroups was not produced; check incomingGroupsMode and role lookup''
         else ''groups is not mapped to CMDBuild userGroups; enable incomingGroupsEnabled or use userGroups [{_id}]''] else []) @
      (if \<not> userGroups \<and> \<not> (gs_enabled defaults \<and> dg_value defaults \<noteq> Undef) then [''no CMDBuild user group provided''] else []) @
      (if js_get content ''firstName'' \<noteq> Undef \<or> js_get content ''lastName'' \<noteq> Undef
       then [''firstName/lastName are passed as-is; use description for CMDBuild user display name''] else []))"

definition create_details :: "obj \<Rightarrow> string \<Rightarrow> string \<Rightarrow> obj \<Rightarrow> default_settings \<Rightarrow> group_settings \<Rightarrow> obj" where
  "create_details config verb path content defaults incoming =
     (let has = (\<lambda>k. Bool (js_get content k \<noteq> Undef)); groups = userGroupIds (js_get content ''userGroups'') in
      [(''targetSystem'', diagnosticTargetSystem config), (''method'', Str verb), (''path'', Str (safePath path)),
       (''hasUsername'', has ''username''),
       (''usernameLength'', case js_get content ''username'' of Str s \<Rightarrow> num (of_nat (length s)) | _ \<Rightarrow> Undef),
       (''hasPassword'', has ''password''), (''hasEmail'', has ''email''), (''hasDescription'', has ''description''),
       (''hasUserGroups'', Bool (is_array (js_get content ''userGroups''))), (''userGroupIds'', groups), (''resolvedUserGroupIds'', groups),
       (''hasGroupsField'', Bool (is_array (js_get content ''groups''))),
       (''hasFirstNameLastName'', Bool (js_get content ''firstName'' \<noteq> Undef \<or> js_get content ''lastName'' \<noteq> Undef)),
       (''hasDefaultUserGroupId'', Bool (gs_enabled defaults \<and> dg_value defaults \<noteq> Undef)),
       (''incomingGroupsEnabled'', Bool (gs_enabled incoming)), (''incomingGroupsMode'', Str (mode_key (gs_mode incoming))),
       (''defaultUserGroupEnabled'', Bool (gs_enabled defaults)), (''defaultUserGroupMode'', Str (mode_key (gs_mode defaults))),
       (''hints'', Arr (map Str (create_hints content defaults incoming)))])"

definition logUserCreateDiagnostic :: "obj \<Rightarrow> string \<Rightarrow> string \<Rightarrow> jsval \<Rightarrow> (unit, 'b cmd_world_scheme) op" where
  "logUserCreateDiagnostic config verb path content =
     (if verb \<noteq> ''POST'' \<or> safePath path \<noteq> ''/users'' then ret ()
      else sbind (lift_result (defaultGroupSettings config)) (\<lambda>defaults.
        sbind (lift_result (incomingGroupSettings config)) (\<lambda>incoming.
        cmd_note True ''cmdbuild.user.create.diagnostic''
          (create_details config verb path (as_obj content) defaults incoming))))"

section \<open>Sessions\<close>

datatype cmd_auth = SessionAuth | BasicAuth

definition bad_auth_mode :: exn where
  "bad_auth_mode = JsError ''Invalid CMDBuild authMode: expected session or basic''"

definition normalizeAuthMode :: "obj \<Rightarrow> cmd_auth result" where
  "normalizeAuthMode config =
     (case js_get config ''authMode'' of
        Undef \<Rightarrow> Inr SessionAuth
      | Null \<Rightarrow> Inr SessionAuth
      | Str s \<Rightarrow>
          (if to_lower (trim s) \<in> {[], ''session''} then Inr SessionAuth
           else if to_lower (trim s) = ''basic'' then Inr BasicAuth else Inl bad_auth_mode)
      | _ \<Rightarrow> Inl bad_auth_mode)"

fun auth_text :: "cmd_auth \<Rightarrow> string" where
  "auth_text SessionAuth = ''session''"
| "auth_text BasicAuth = ''basic''"

definition getApiPath :: "obj \<Rightarrow> jsval" where
  "getApiPath config = coalesce (js_get config ''apiPath'') (Str ''/cmdbuild/services/rest/v3'')"

text \<open>A value in \<open>join\<close>.\<close>

definition joined :: "jsval \<Rightarrow> string" where
  "joined v = (if nullish v then [] else string_of_val v)"

definition sessionCacheKey :: "cmd_env \<Rightarrow> obj \<Rightarrow> string result" where
  "sessionCacheKey env config =
     (case (js_get config ''baseUrl'', coalesce (js_get config ''password'') (Str [])) of
        (Str base, Str pass) \<Rightarrow>
          ebind (normalizeAuthMode config) (\<lambda>m.
          Inr (join_with ''|'' [strip_slashes base, joined (getApiPath config), joined (js_get config ''username''), auth_text m,
            fixedLengthFingerprint (ce_platform env) pass ''cmdbuild-session-cache'']))
      | _ \<Rightarrow> Inl type_error)"

definition session_text :: "jsval \<Rightarrow> string option" where
  "session_text v = (case v of Str s \<Rightarrow> if trim s \<noteq> [] then Some s else None | _ \<Rightarrow> None)"

definition extractSessionId :: "jsval \<Rightarrow> string option" where
  "extractSessionId v =
     (case session_text (js_get (as_obj v) ''_id'') of
        Some s \<Rightarrow> Some s
      | None \<Rightarrow> session_text (js_get (as_obj (js_get (as_obj v) ''data'')) ''_id''))"

definition cmd_url :: "obj \<Rightarrow> string \<Rightarrow> string" where
  "cmd_url config path = string_of_val (js_get config ''baseUrl'') @ string_of_val (getApiPath config) @ path"

definition cmd_credentials :: "obj \<Rightarrow> jsval" where
  "cmd_credentials config = Obj [(''username'', js_get config ''username''), (''password'', js_get config ''password'')]"

definition login_request :: "obj \<Rightarrow> tls_options option \<Rightarrow> HttpKit.http_request" where
  "login_request config tls =
     \<lparr>hr_method = ''POST'', hr_url = cmd_url config ''/sessions?scope=service&returnId=true'', hr_data = cmd_credentials config,
      hr_headers = json_headers, hr_timeout = num 30000, hr_tls = tls\<rparr>"

definition cmd_where :: "cmd_env \<Rightarrow> obj \<Rightarrow> obj" where
  "cmd_where env config =
     [(''targetSystem'', diagnosticTargetSystem config), (''baseUrlOrigin'', safeOrigin env (js_get config ''baseUrl'')),
      (''apiPath'', getApiPath config)]"

definition cmd_tls :: "cmd_env \<Rightarrow> obj \<Rightarrow> tls_options option result" where
  "cmd_tls env config = http_tls env (js_get config ''baseUrl'') (js_get config ''tls'') ''CMDBuild''"

definition cmd_login :: "cmd_env \<Rightarrow> obj \<Rightarrow> string \<Rightarrow> (string, 'b cmd_world_scheme) op" where
  "cmd_login env config key =
     sbind (lift_result (cmd_tls env config)) (\<lambda>tls.
     sbind (http_body env (login_request config tls)) (\<lambda>data.
     case extractSessionId data of
       None \<Rightarrow> raise (JsError ''CMDBuild session response did not include _id'')
     | Some t \<Rightarrow>
         sbind (modify (\<lambda>w. w\<lparr>cw_sessions := map_set key t (cw_sessions w)\<rparr>)) (\<lambda>_.
         sbind (cmd_note False ''cmdbuild.session.success'' (cmd_where env config)) (\<lambda>_. ret t))))"

definition session_failure :: "cmd_env \<Rightarrow> obj \<Rightarrow> exn \<Rightarrow> (string, 'b cmd_world_scheme) op" where
  "session_failure env config e w =
     (let m = cmd_safeErrorMessage config (map snd (cw_sessions w)) e in
      sbind (cmd_note False ''cmdbuild.session.failure''
        (cmd_where env config @ [(''status'', errorStatus e), (''message'', Str m)])) (\<lambda>_.
      raise (JsError (''CMDBuild session authentication failed: '' @ m))) w)"

definition newSession :: "cmd_env \<Rightarrow> obj \<Rightarrow> string \<Rightarrow> (string, 'b cmd_world_scheme) op" where
  "newSession env config key =
     sbind (cmd_note True ''cmdbuild.session.request''
       (cmd_where env config @ [(''path'', Str ''/sessions''), (''authMode'', Str ''session'')])) (\<lambda>_.
     catch_op (cmd_login env config key) (session_failure env config))"

definition getSessionId :: "cmd_env \<Rightarrow> obj \<Rightarrow> (string, 'b cmd_world_scheme) op" where
  "getSessionId env config =
     sbind (lift_result (sessionCacheKey env config)) (\<lambda>key w.
     (case map_of (cw_sessions w) key of Some (c # t) \<Rightarrow> ret (c # t) | _ \<Rightarrow> newSession env config key) w)"

definition getAuthHeaders :: "cmd_env \<Rightarrow> obj \<Rightarrow> cmd_auth \<Rightarrow> (obj, 'b cmd_world_scheme) op" where
  "getAuthHeaders env config mode =
     (case mode of
        BasicAuth \<Rightarrow> ret [(''Authorization'', Str (getBasicAuthHeader config))]
      | SessionAuth \<Rightarrow> sbind (getSessionId env config) (\<lambda>t. ret [(''Cmdbuild-Authorization'', Str t)]))"

section \<open>Calls\<close>

definition cmd_request :: "obj \<Rightarrow> string \<Rightarrow> string \<Rightarrow> jsval \<Rightarrow> obj \<Rightarrow> tls_options option \<Rightarrow> HttpKit.http_request" where
  "cmd_request config verb path content auth tls =
     \<lparr>hr_method = verb, hr_url = cmd_url config path, hr_data = content, hr_headers = json_headers @ auth,
      hr_timeout = num 30000, hr_tls = tls\<rparr>"

definition cmd_target :: "cmd_env \<Rightarrow> obj \<Rightarrow> string \<Rightarrow> string \<Rightarrow> obj" where
  "cmd_target env config verb path =
     cmd_where env config @ [(''method'', Str verb), (''path'', Str (safePath path))]"

definition content_summary :: "jsval \<Rightarrow> obj" where
  "content_summary content =
     (if content \<noteq> Undef then [(''requestSummary'', summarizeDiagnosticValue content)] else [])"

definition cmd_attempt ::
  "cmd_env \<Rightarrow> obj \<Rightarrow> cmd_auth \<Rightarrow> string \<Rightarrow> string \<Rightarrow> jsval \<Rightarrow> (jsval, 'b cmd_world_scheme) op" where
  "cmd_attempt env config mode verb path content =
     sbind (cmd_note True ''cmdbuild.request''
       (cmd_target env config verb path @ [(''authMode'', Str (auth_text mode))] @ content_summary content)) (\<lambda>_.
     sbind (logUserCreateDiagnostic config verb path content) (\<lambda>_.
     sbind (getAuthHeaders env config mode) (\<lambda>auth.
     sbind (lift_result (cmd_tls env config)) (\<lambda>tls.
     sbind (http_send env (cmd_request config verb path content auth tls)) (\<lambda>(status, data).
     sbind (cmd_note False ''cmdbuild.request.success''
       (cmd_target env config verb path @ [(''status'', num (of_nat status))])) (\<lambda>_.
     ret data))))))"

definition failure_details :: "cmd_env \<Rightarrow> obj \<Rightarrow> cmd_auth \<Rightarrow> string \<Rightarrow> string \<Rightarrow> jsval \<Rightarrow> bool \<Rightarrow> string \<Rightarrow> exn \<Rightarrow> obj" where
  "failure_details env config mode verb path content again m e =
     cmd_target env config verb path @
     [(''authMode'', Str (auth_text mode)), (''status'', errorStatus e), (''message'', Str m), (''errorName'', errorName e),
      (''errorCode'', errorCode e), (''retrySessionAuth'', Bool again)] @ content_summary content @
     [(''responseSummary'', summarizeDiagnosticValue (response_part e ''data'')),
      (''responseContentType'', responseHeaderValue e ''content-type''),
      (''responseContentLength'', responseHeaderValue e ''content-length'')]"

definition cmd_failed ::
  "cmd_env \<Rightarrow> obj \<Rightarrow> cmd_auth \<Rightarrow> string \<Rightarrow> string \<Rightarrow> jsval \<Rightarrow> bool \<Rightarrow> exn \<Rightarrow> (jsval, 'b cmd_world_scheme) op" where
  "cmd_failed env config mode verb path content again e w =
     (let m = cmd_safeErrorMessage config (map snd (cw_sessions w)) e in
      sbind (cmd_note False ''cmdbuild.request.failure''
        (cmd_target env config verb path @ [(''status'', errorStatus e), (''message'', Str m)])) (\<lambda>_.
      sbind (cmd_note True ''cmdbuild.request.failure.details''
        (failure_details env config mode verb path content again m e)) (\<lambda>_.
      raise e)) w)"

definition forget_session :: "string \<Rightarrow> (unit, 'b cmd_world_scheme) op" where
  "forget_session key = modify (\<lambda>w. w\<lparr>cw_sessions := filter (\<lambda>s. fst s \<noteq> key) (cw_sessions w)\<rparr>)"

text \<open>One round; \<open>next\<close> is the call without another retry.\<close>

definition cmd_round ::
  "cmd_env \<Rightarrow> obj \<Rightarrow> string \<Rightarrow> string \<Rightarrow> jsval \<Rightarrow> (jsval, 'b cmd_world_scheme) op option \<Rightarrow> (jsval, 'b cmd_world_scheme) op" where
  "cmd_round env config verb path content again =
     sbind (lift_result (normalizeAuthMode config)) (\<lambda>mode.
     catch_op (cmd_attempt env config mode verb path content) (\<lambda>e.
       case again of
         Some m \<Rightarrow>
           (if mode = SessionAuth \<and> isSessionAuthFailure e
            then sbind (lift_result (sessionCacheKey env config)) (\<lambda>key. sbind (forget_session key) (\<lambda>_. m))
            else cmd_failed env config mode verb path content True e)
       | None \<Rightarrow> cmd_failed env config mode verb path content False e))"

definition cmd_call :: "cmd_env \<Rightarrow> obj \<Rightarrow> string \<Rightarrow> string \<Rightarrow> jsval \<Rightarrow> (jsval, 'b cmd_world_scheme) op" where
  "cmd_call env config verb path content =
     cmd_round env config verb path content (Some (cmd_round env config verb path content None))"

section \<open>Paths and queries\<close>

definition toQueryString :: "cmd_env \<Rightarrow> jsval \<Rightarrow> string" where
  "toQueryString env v =
     (case v of
        Str s \<Rightarrow> s
      | Num n \<Rightarrow> string_of_val (Num n)
      | Bool b \<Rightarrow> string_of_val (Bool b)
      | _ \<Rightarrow> json_print (ce_platform env) v)"

definition cmd_appendQuery :: "cmd_env \<Rightarrow> string \<Rightarrow> obj \<Rightarrow> string" where
  "cmd_appendQuery env path query =
     (let suffix = form_query (map (\<lambda>(k, v). (k, toQueryString env v)) (filter (\<lambda>(k, v). \<not> blank v) query)) in
      if suffix \<noteq> [] then path @ ''?'' @ suffix else path)"

definition simple_filter :: "string \<Rightarrow> string \<Rightarrow> string \<Rightarrow> jsval" where
  "simple_filter attr operator v =
     Obj [(''attribute'', Obj [(''simple'', Obj
       [(''attribute'', Str attr), (''operator'', Str operator), (''value'', Arr [Str v])])])]"

definition buildSimpleFilter :: "cmd_env \<Rightarrow> string \<Rightarrow> jsval \<Rightarrow> string \<Rightarrow> jsval" where
  "buildSimpleFilter env attr v operator =
     (if blank v then Undef
      else case v of
        Arr xs \<Rightarrow> Str (json_print (ce_platform env) v)
      | Obj kvs \<Rightarrow> Str (json_print (ce_platform env) v)
      | _ \<Rightarrow>
          (let s = trim (toQueryString env v) in
           if s = [] then Undef
           else if starts_with ''{'' s \<or> starts_with ''['' s then Str s
           else Str (json_print (ce_platform env) (simple_filter attr operator s))))"

text \<open>\<open>/%2f|%5c/i\<close>\<close>

definition escaped_slash :: "string \<Rightarrow> bool" where
  "escaped_slash s \<longleftrightarrow> list_ex (\<lambda>t. starts_with ''%2f'' t \<or> starts_with ''%5c'' t) (suffixes (to_lower s))"

definition pathSegment :: "jsval \<Rightarrow> string \<Rightarrow> string result" where
  "pathSegment v name =
     (let segment_of = (\<lambda>s. let t = trim s in
        if t \<in> {[], ''.'', ''..''} \<or> list_ex (\<lambda>c. c = CHR ''/'' \<or> c = CHR 0x5C \<or> c = CHR ''?'' \<or> c = CHR ''#'') t \<or> escaped_slash t
        then Inl (JsError (''Invalid CMDBuild path segment: '' @ name)) else Inr (encodeURIComponent t)) in
      case v of
        Str s \<Rightarrow> segment_of s
      | Num n \<Rightarrow> segment_of (string_of_val (Num n))
      | _ \<Rightarrow> Inl (JsError (''Missing '' @ name)))"

definition id_path :: "string \<Rightarrow> jsval \<Rightarrow> string \<Rightarrow> string result" where
  "id_path collection v name = ebind (pathSegment v name) (\<lambda>s. Inr (collection @ s))"

text \<open>\<open>response.data\<close>\<close>

definition data_of :: "jsval \<Rightarrow> jsval result" where
  "data_of response = (if nullish response then Inl type_error else Inr (js_get (as_obj response) ''data''))"

section \<open>Roles and users\<close>

definition role_name :: "jsval \<Rightarrow> (string \<times> jsval) option result" where
  "role_name row =
     (if nullish row then Inl type_error
      else Inr (case js_get (as_obj row) ''name'' of Str s \<Rightarrow> Some (s, row) | _ \<Rightarrow> None))"

definition role_id :: "(string \<times> jsval) list \<Rightarrow> string \<Rightarrow> jsval result" where
  "role_id byName n =
     (case js_get (as_obj (or_else (map_of byName n) Undef)) ''_id'' of
        Str (c # s) \<Rightarrow> Inr (Str (c # s))
      | Num i \<Rightarrow> Inr (Num i)
      | _ \<Rightarrow> Inl (JsError (''CMDBuild role not found by name: '' @ n)))"

definition resolveRoleNames :: "cmd_env \<Rightarrow> obj \<Rightarrow> string list \<Rightarrow> (jsval list, 'b cmd_world_scheme) op" where
  "resolveRoleNames env config names =
     (if names = [] then ret []
      else sbind (cmd_call env config ''GET'' (cmd_appendQuery env ''/roles'' [(''limit'', num 500)]) Undef) (\<lambda>response.
        lift_result (ebind (data_of response) (\<lambda>rows.
          ebind (map_exn role_name (array_of rows)) (\<lambda>named.
          map_exn (role_id (fold (\<lambda>(n, row). map_set n row) (present named) [])) (unique names))))))"

fun group_val :: "group_value \<Rightarrow> jsval" where
  "group_val (GStr s) = Str s"
| "group_val (GNum r) = num r"

definition user_group :: "jsval \<Rightarrow> jsval" where
  "user_group i = Obj [(''_id'', i)]"

definition toCmdbuildUserGroups :: "cmd_env \<Rightarrow> obj \<Rightarrow> group_mode \<Rightarrow> jsval list \<Rightarrow> (jsval list, 'b cmd_world_scheme) op" where
  "toCmdbuildUserGroups env config mode vs =
     sbind (lift_result (groupRefValues (Arr vs) mode ''groups'')) (\<lambda>refs.
     if mode = ById then ret (map (\<lambda>g. user_group (group_val g)) refs)
     else sbind (resolveRoleNames env config (map group_text refs)) (\<lambda>ids. ret (map user_group ids)))"

definition with_groups :: "jsval \<Rightarrow> jsval list \<Rightarrow> jsval" where
  "with_groups data groups =
     Obj (js_set ''userGroups'' (Arr groups)
       (spread [(''active'', Bool True), (''service'', Bool False), (''language'', Str ''en'')] (as_obj (withoutGenericGroups data))))"

definition incoming_groups :: "cmd_env \<Rightarrow> obj \<Rightarrow> jsval \<Rightarrow> (jsval list, 'b cmd_world_scheme) op" where
  "incoming_groups env config data =
     sbind (lift_result (incomingGroupSettings config)) (\<lambda>incoming.
     case js_get (as_obj data) ''groups'' of
       Arr gs \<Rightarrow> if gs_enabled incoming then toCmdbuildUserGroups env config (gs_mode incoming) gs else ret []
     | _ \<Rightarrow> ret [])"

definition applyCmdbuildUserGroups :: "cmd_env \<Rightarrow> obj \<Rightarrow> jsval \<Rightarrow> (jsval, 'b cmd_world_scheme) op" where
  "applyCmdbuildUserGroups env config data =
     (if js_get (as_obj data) ''userGroups'' \<noteq> Undef then ret (withoutGenericGroups data)
      else sbind (incoming_groups env config data) (\<lambda>groups.
        if groups \<noteq> [] then ret (with_groups data groups)
        else sbind (lift_result (defaultGroupSettings config)) (\<lambda>defaults.
          if \<not> gs_enabled defaults \<or> dg_values defaults = [] then ret (withoutGenericGroups data)
          else sbind (toCmdbuildUserGroups env config (gs_mode defaults) (dg_values defaults)) (\<lambda>gs. ret (with_groups data gs)))))"

definition getEntity :: "cmd_env \<Rightarrow> obj \<Rightarrow> string \<Rightarrow> (jsval, 'b cmd_world_scheme) op" where
  "getEntity env config path =
     sbind (cmd_call env config ''GET'' path Undef) (\<lambda>response.
     sbind (lift_result (data_of response)) (\<lambda>d.
     if truthy d then ret d else raise (JsError (''CMDBuild entity not found: '' @ path))))"

definition putMerged :: "cmd_env \<Rightarrow> obj \<Rightarrow> string \<Rightarrow> obj \<Rightarrow> (jsval, 'b cmd_world_scheme) op" where
  "putMerged env config path patch =
     sbind (getEntity env config path) (\<lambda>current.
     cmd_call env config ''PUT'' path (Obj (spread (spread [] (spread_entries current)) patch)))"

definition held_group :: "jsval \<Rightarrow> jsval result" where
  "held_group g = (if nullish g then Inl type_error else Inr (js_get (as_obj g) ''_id''))"

definition next_groups :: "bool \<Rightarrow> jsval \<Rightarrow> jsval list \<Rightarrow> jsval list" where
  "next_groups add role ids =
     (let same = (\<lambda>i. string_of_val i = string_of_val role) in
      if add then (if list_ex same ids then ids else ids @ [role]) else filter (\<lambda>i. \<not> same i) ids)"

definition updateUserRoleMembership :: "cmd_env \<Rightarrow> obj \<Rightarrow> jsval \<Rightarrow> jsval \<Rightarrow> bool \<Rightarrow> (jsval, 'b cmd_world_scheme) op" where
  "updateUserRoleMembership env config role user add =
     sbind (lift_result (id_path ''/users/'' user ''userId'')) (\<lambda>path.
     sbind (getEntity env config path) (\<lambda>current.
     sbind (lift_result (map_exn held_group (array_of (js_get (as_obj current) ''userGroups'')))) (\<lambda>ids.
     cmd_call env config ''PUT'' path
       (Obj (js_set ''userGroups'' (Arr (map user_group (next_groups add role ids))) (spread [] (spread_entries current)))))))"

definition toPositiveInteger :: "jsval \<Rightarrow> nat \<Rightarrow> nat" where
  "toPositiveInteger v fallback =
     (case number_of_val v of
        Fin r \<Rightarrow> if is_integer (Fin r) \<and> 0 < r then nat \<lfloor>r\<rfloor> else fallback
      | _ \<Rightarrow> fallback)"

definition role_matches :: "cmd_env \<Rightarrow> string \<Rightarrow> jsval \<Rightarrow> bool result" where
  "role_matches env needle row =
     (if nullish row then Inl type_error
      else Inr (list_ex (\<lambda>k. let v = js_get (as_obj row) k in
        \<not> nullish v \<and> occurs_in needle (to_lower (toQueryString env v))) [''name'', ''description'']))"

fun filter_exn :: "('a \<Rightarrow> bool result) \<Rightarrow> 'a list \<Rightarrow> 'a list result" where
  "filter_exn f [] = Inr []"
| "filter_exn f (x # xs) = ebind (f x) (\<lambda>b. ebind (filter_exn f xs) (\<lambda>ys. Inr (if b then x # ys else ys)))"

definition searched_roles :: "cmd_env \<Rightarrow> jsval \<Rightarrow> nat \<Rightarrow> jsval \<Rightarrow> jsval result" where
  "searched_roles env filtr limit response =
     ebind (data_of response) (\<lambda>d.
     (let needle = (if blank filtr then [] else to_lower (trim (toQueryString env filtr))) in
      ebind (if needle \<noteq> [] then filter_exn (role_matches env needle) (array_of d) else Inr (array_of d)) (\<lambda>rows.
      Inr (Obj (spread (spread [] (spread_entries response))
        [(''data'', Arr (take limit rows)),
         (''meta'', Obj (js_set ''total'' (num (of_nat (length rows)))
           (spread [] (spread_entries (coalesce (js_get (as_obj response) ''meta'') (Obj []))))))])))))"

definition searchRoles :: "cmd_env \<Rightarrow> obj \<Rightarrow> jsval \<Rightarrow> jsval \<Rightarrow> (jsval, 'b cmd_world_scheme) op" where
  "searchRoles env config filtr limit =
     (let requested = toPositiveInteger limit 50 in
      sbind (cmd_call env config ''GET'' (cmd_appendQuery env ''/roles'' [(''limit'', num (of_nat (max requested 500)))]) Undef)
        (\<lambda>response. lift_result (searched_roles env filtr requested response)))"

section \<open>Operations\<close>

definition null_entries :: "jsval \<Rightarrow> obj" where
  "null_entries data = spread [] (map (\<lambda>e. (fst e, Null)) (spread_entries data))"

definition put_by_id :: "cmd_env \<Rightarrow> obj \<Rightarrow> string \<Rightarrow> jsval \<Rightarrow> obj \<Rightarrow> (jsval, 'b cmd_world_scheme) op" where
  "put_by_id env config collection i patch =
     sbind (lift_result (id_path collection i ''id'')) (\<lambda>path. putMerged env config path patch)"

definition executeStatefulOperation :: "cmd_env \<Rightarrow> obj \<Rightarrow> string \<Rightarrow> jsval \<Rightarrow> jsval \<Rightarrow> (jsval, 'b cmd_world_scheme) op" where
  "executeStatefulOperation env config op data params =
     (let d = as_obj data; ps = as_obj params; i = coalesce (js_get ps ''id'') (js_get d ''id'');
          user = put_by_id env config ''/users/'' i; role = put_by_id env config ''/roles/'' i in
      if op = ''user.create''
      then sbind (applyCmdbuildUserGroups env config data) (\<lambda>content. cmd_call env config ''POST'' ''/users'' content)
      else if op \<in> {''user.update'', ''user.addAttributes''} then user (spread_entries data)
      else if op = ''user.removeAttributes'' then user (null_entries data)
      else if op \<in> {''user.enable'', ''user.unlock''} then user [(''active'', Bool True)]
      else if op \<in> {''user.disable'', ''user.lock'', ''user.delete''} then user [(''active'', Bool False)]
      else if op = ''user.changePassword''
      then (let password = firstValue [js_get d ''newValue'', js_get d ''password''] in
        if \<not> truthy password then raise (JsError ''Missing password for user.changePassword'')
        else user [(''password'', password)])
      else if op = ''group.update'' then role (spread_entries data)
      else if op = ''group.delete'' then role [(''active'', Bool False)]
      else if op = ''group.search''
      then searchRoles env config (firstValue [js_get ps ''filter'', js_get d ''filter'']) (firstValue [js_get ps ''limit'', js_get d ''limit''])
      else ret Undef)"

text \<open>Method, path and body; the operations handled before do not get here.\<close>

definition cmd_buildRequest :: "cmd_env \<Rightarrow> string \<Rightarrow> jsval \<Rightarrow> jsval \<Rightarrow> (string \<times> string \<times> jsval) result" where
  "cmd_buildRequest env op data params =
     (let d = as_obj data; ps = as_obj params; i = coalesce (js_get ps ''id'') (js_get d ''id'');
          by_id = (\<lambda>m collection rest content. ebind (id_path collection i ''id'') (\<lambda>path. Inr (m, path @ rest, content)));
          plain = (\<lambda>m path content. Inr (m, path, content));
          both = (\<lambda>k. firstValue [js_get ps k, js_get d k]);
          search = (\<lambda>path attr. plain ''GET'' (cmd_appendQuery env path
            [(''filter'', buildSimpleFilter env attr (both ''filter'') ''like''), (''limit'', both ''limit'')]) Undef) in
      if op = ''user.create'' then plain ''POST'' ''/users'' data
      else if op \<in> {''user.update'', ''user.addAttributes''} then by_id ''PUT'' ''/users/'' [] data
      else if op = ''user.delete'' then by_id ''DELETE'' ''/users/'' [] Undef
      else if op = ''user.get'' then by_id ''GET'' ''/users/'' [] Undef
      else if op = ''user.search'' then search ''/users'' ''username''
      else if op \<in> {''user.enable'', ''user.unlock''} then by_id ''PUT'' ''/users/'' [] (Obj [(''active'', Bool True)])
      else if op \<in> {''user.disable'', ''user.lock''} then by_id ''PUT'' ''/users/'' [] (Obj [(''active'', Bool False)])
      else if op = ''user.changePassword''
      then by_id ''POST'' ''/users/'' ''/password'' (Obj [(''password'', coalesce (js_get d ''newValue'') (js_get d ''password''))])
      else if op = ''user.resolve''
      then plain ''GET'' (cmd_appendQuery env ''/users'' [(''filter'', buildSimpleFilter env ''username''
        (firstValue [js_get ps ''username'', js_get d ''username'', js_get ps ''login'', js_get d ''login'', js_get ps ''filter'',
          js_get d ''filter'']) ''equal'')]) Undef
      else if op = ''user.removeAttributes'' then by_id ''PUT'' ''/users/'' [] (Obj (null_entries data))
      else if op = ''group.create'' then plain ''POST'' ''/roles'' data
      else if op = ''group.update'' then by_id ''PUT'' ''/roles/'' [] data
      else if op = ''group.delete'' then by_id ''DELETE'' ''/roles/'' [] Undef
      else if op = ''group.get'' then by_id ''GET'' ''/roles/'' [] Undef
      else if op = ''group.search'' then search ''/roles'' ''name''
      else if op \<in> {''system.test'', ''schema.get''} then plain ''GET'' ''/classes'' Undef
      else if op \<in> {''sync.full'', ''sync.incremental''} then plain ''GET'' ''/users'' Undef
      else Inl (JsError (''Unsupported CMDBuild operation: '' @ op)))"

section \<open>The connector\<close>

definition memberRefs :: "obj \<Rightarrow> obj \<Rightarrow> jsval \<times> jsval" where
  "memberRefs ps d =
     (coalesce (coalesce (coalesce (js_get ps ''roleId'') (js_get d ''roleId'')) (js_get ps ''id'')) (js_get d ''id''),
      coalesce (js_get ps ''userId'') (js_get d ''userId''))"

definition cmd_run :: "cmd_env \<Rightarrow> obj \<Rightarrow> string \<Rightarrow> jsval \<Rightarrow> jsval \<Rightarrow> (connector_result, 'b cmd_world_scheme) op" where
  "cmd_run env config op data params =
     (if op \<in> {''group.addMember'', ''group.removeMember''}
      then (case memberRefs (as_obj params) (as_obj data) of (role, user) \<Rightarrow>
        if \<not> truthy role \<or> \<not> truthy user
        then ret (result_fail ''Missing roleId or userId for group member operation'')
        else sbind (updateUserRoleMembership env config role user (op = ''group.addMember'')) (\<lambda>r. ret (result_ok r)))
      else sbind (executeStatefulOperation env config op data params) (\<lambda>special.
        if special \<noteq> Undef then ret (result_ok special)
        else sbind (lift_result (cmd_buildRequest env op data params)) (\<lambda>(verb, path, content).
          sbind (cmd_call env config verb path content) (\<lambda>r. ret (result_ok r)))))"

definition cmd_answer :: "obj \<Rightarrow> (connector_result, 'b cmd_world_scheme) op \<Rightarrow> (connector_result, 'b cmd_world_scheme) op" where
  "cmd_answer config m =
     catch_op m (\<lambda>e w. (Inr (result_fail (cmd_safeErrorMessage config (map snd (cw_sessions w)) e)), w))"

definition cmd_execute :: "cmd_env \<Rightarrow> connector_payload \<Rightarrow> (connector_result, 'b cmd_world_scheme) op" where
  "cmd_execute env p =
     (let given = as_obj (js_get (body p) ''config''); config = js_set ''diagnosticTargetSystem'' (Str (targetSystem p)) given in
      if \<not> truthy (js_get given ''baseUrl'') then ret (result_fail ''Missing CMDBuild config (baseUrl)'')
      else cmd_answer config (cmd_run env config (operation p)
        (coalesce (js_get (body p) ''data'') (Obj [])) (coalesce (js_get (body p) ''params'') (Obj []))))"

definition cmd_testConnection :: "cmd_env \<Rightarrow> jsval \<Rightarrow> (bool \<times> string, 'b cmd_world_scheme) op" where
  "cmd_testConnection env cfg =
     (let config = as_obj cfg in
      if \<not> truthy (js_get config ''baseUrl'') then ret (False, ''Missing baseUrl in config'')
      else catch_op (sbind (cmd_call env config ''GET'' ''/classes'' Undef) (\<lambda>_. ret (True, ''CMDBuild API reachable'')))
        (\<lambda>e w. (Inr (False, ''CMDBuild connection failed: '' @ cmd_safeErrorMessage config (map snd (cw_sessions w)) e), w)))"

definition CMDBUILD_PARTIAL_OPERATIONS :: "(string \<times> string) list" where
  "CMDBUILD_PARTIAL_OPERATIONS =
     [(''user.delete'', ''CMDBuild REST v3 user DELETE is not available on the test stand; mapped to active=false.''),
      (''user.lock'', ''CMDBuild user API has no separate IDM lock flag; mapped to active=false.''),
      (''user.unlock'', ''CMDBuild user API has no separate IDM unlock flag; mapped to active=true.''),
      (''user.changePassword'', ''CMDBuild REST v3 /users/{id}/password is not available on the test stand; mapped to full PUT /users/{id} with password.''),
      (''user.addAttributes'', ''Generic PUT on /users/{id}; accepted attributes depend on CMDBuild user model.''),
      (''user.removeAttributes'', ''Generic PUT on /users/{id}; requested fields are sent as null values.''),
      (''schema.get'', ''Returns CMDBuild class catalog, not a transformed Avanpost IDM schema.''),
      (''group.delete'', ''CMDBuild REST v3 role DELETE is not available on the test stand; mapped to active=false.''),
      (''group.addMember'', ''CMDBuild REST v3 POST /roles/{id}/users fails on the test stand; mapped to full PUT /users/{id} userGroups update.''),
      (''group.removeMember'', ''CMDBuild REST v3 POST /roles/{id}/users fails on the test stand; mapped to full PUT /users/{id} userGroups update.''),
      (''group.search'', ''CMDBuild REST v3 /roles filter is ignored on the test stand; connector applies bounded client-side filtering.''),
      (''sync.incremental'', ''Uses /users without a CMDBuild change cursor or high-watermark.'')]"

definition cmdbuild_connector :: "cmd_env \<Rightarrow> 'b cmd_world_scheme connector" where
  "cmdbuild_connector env =
     \<lparr>conn_name = ''cmdbuild'', conn_execute = cmd_execute env, conn_testConnection = cmd_testConnection env,
      conn_getCapabilities = Some (createConnectorCapabilities CMDBUILD_PARTIAL_OPERATIONS
        (\<lambda>f. f\<lparr>supportsIncrementalSync := False\<rparr>) []),
      conn_getSchema = None, conn_sync = None\<rparr>"

section \<open>Who sends what\<close>

text \<open>The endpoints that the connector is meant to use; an id is one part of a path and none of the dots.\<close>

definition cmd_endpoint :: "string \<Rightarrow> bool" where
  "cmd_endpoint path \<longleftrightarrow>
     path \<in> {''/users'', ''/roles'', ''/classes''} \<or>
     (\<exists>q. list_all query_char q \<and> path \<in> {''/users?'' @ q, ''/roles?'' @ q}) \<or>
     (\<exists>seg rest. segment seg \<and> seg \<notin> {''.'', ''..''} \<and> rest \<in> {[], ''/password''} \<and> path \<in> {''/users/'' @ seg @ rest, ''/roles/'' @ seg})"

text \<open>
  Two configurations that mean the same login: the same address, but for slashes at its end, the same path of the
  interface, and the same user and password. A session that may be used under a configuration was handed out in
  answer to a login of such a configuration, which is one of those in use.
\<close>

definition login_password :: "obj \<Rightarrow> jsval" where
  "login_password config = coalesce (js_get config ''password'') (Str [])"

definition same_login :: "obj \<Rightarrow> obj \<Rightarrow> bool" where
  "same_login config' config \<longleftrightarrow>
     (\<exists>base base' slashes slashes' bare.
       js_get config' ''baseUrl'' = Str base' \<and> js_get config ''baseUrl'' = Str base \<and>
       base' = bare @ replicate slashes' (CHR ''/'') \<and> base = bare @ replicate slashes (CHR ''/'')) \<and>
     joined (getApiPath config') = joined (getApiPath config) \<and>
     joined (js_get config' ''username'') = joined (js_get config ''username'') \<and>
     login_password config' = login_password config"

definition session_usable :: "obj set \<Rightarrow> obj \<Rightarrow> http_exchange list \<Rightarrow> string \<Rightarrow> bool" where
  "session_usable used config sent t \<longleftrightarrow>
     (\<exists>config' tls status data. config' \<in> used \<and> (login_request config' tls, Inr (status, data)) \<in> set sent \<and>
       same_login config' config \<and> extractSessionId data = Some t)"

definition cmd_authorised :: "obj set \<Rightarrow> obj \<Rightarrow> http_exchange list \<Rightarrow> HttpKit.http_request \<Rightarrow> bool" where
  "cmd_authorised used config sent q \<longleftrightarrow>
     normalizeAuthMode config = Inr SessionAuth \<and> (\<exists>tls. q = login_request config tls) \<or>
     (\<exists>verb path content auth tls. q = cmd_request config verb path content auth tls \<and> cmd_endpoint path \<and>
       (normalizeAuthMode config = Inr BasicAuth \<and> auth = [(''Authorization'', Str (getBasicAuthHeader config))] \<or>
        normalizeAuthMode config = Inr SessionAuth \<and>
          (\<exists>t. session_usable used config sent t \<and> auth = [(''Cmdbuild-Authorization'', Str t)])))"

text \<open>What the connector keeps account of: sessions by their keys.\<close>

definition session_given :: "cmd_env \<Rightarrow> obj set \<Rightarrow> http_exchange list \<Rightarrow> string \<Rightarrow> string \<Rightarrow> bool" where
  "session_given env used sent key t \<longleftrightarrow>
     (\<exists>config tls status data. config \<in> used \<and> (login_request config tls, Inr (status, data)) \<in> set sent \<and>
       sessionCacheKey env config = Inr key \<and> extractSessionId data = Some t)"

definition auth_held :: "cmd_env \<Rightarrow> obj set \<Rightarrow> obj \<Rightarrow> http_exchange list \<Rightarrow> obj \<Rightarrow> bool" where
  "auth_held env used config sent auth \<longleftrightarrow>
     normalizeAuthMode config = Inr BasicAuth \<and> auth = [(''Authorization'', Str (getBasicAuthHeader config))] \<or>
     normalizeAuthMode config = Inr SessionAuth \<and>
       (\<exists>key t. sessionCacheKey env config = Inr key \<and> session_given env used sent key t \<and>
         auth = [(''Cmdbuild-Authorization'', Str t)])"

definition keyed_request :: "cmd_env \<Rightarrow> obj set \<Rightarrow> obj \<Rightarrow> http_exchange list \<Rightarrow> HttpKit.http_request \<Rightarrow> bool" where
  "keyed_request env used config sent q \<longleftrightarrow>
     normalizeAuthMode config = Inr SessionAuth \<and> (\<exists>tls. q = login_request config tls) \<or>
     (\<exists>m path content auth tls. q = cmd_request config m path content auth tls \<and> cmd_endpoint path \<and> auth_held env used config sent auth)"

definition sessions_ok :: "cmd_env \<Rightarrow> obj set \<Rightarrow> 'b cmd_world_scheme \<Rightarrow> bool" where
  "sessions_ok env used w \<longleftrightarrow> (\<forall>(k, t) \<in> set (cw_sessions w). session_given env used (http_log w) k t)"

definition cmd_since :: "cmd_env \<Rightarrow> obj set \<Rightarrow> obj \<Rightarrow> http_exchange list \<Rightarrow> 'b cmd_world_scheme \<Rightarrow> bool" where
  "cmd_since env used config old w \<longleftrightarrow>
     config \<in> used \<and> http_grown (keyed_request env used config) old w \<and> sessions_ok env used w"

lemma session_given_more: "session_given env used sent k t \<Longrightarrow> session_given env used (sent @ further) k t"
  by (auto simp: session_given_def)

lemma auth_held_more: "auth_held env used config sent auth \<Longrightarrow> auth_held env used config (sent @ further) auth"
  by (auto simp: auth_held_def dest: session_given_more)

lemma note_since:
  "preserves (\<lambda>w. cmd_since env used config old w \<and> K (http_log w)) (cmd_note v e d)"
  "preserves (cmd_since env used config old) (cmd_note v e d)"
  by (simp_all add: cmd_note_def preserves_def cmd_since_def sessions_ok_def)

lemma send_since:
  assumes "\<And>sent. J sent \<Longrightarrow> keyed_request env used config sent q" and "\<And>sent x. J sent \<Longrightarrow> J (sent @ x)"
  shows "preserves (\<lambda>w. cmd_since env used config old w \<and> J (http_log w)) (http_send env q)"
  unfolding preserves_def http_send_def Let_def cmd_since_def sessions_ok_def
  using assms by (auto intro: grown_snoc session_given_more)

lemma body_since:
  assumes "\<And>sent. keyed_request env used config sent q"
  shows "preserves (cmd_since env used config old) (http_body env q)"
  unfolding http_body_def
  by (intro preserve_intros) (use send_since [of "\<lambda>_. True" env used config q old] assms in simp)

lemma body_given:
  "http_body env q w = (Inr d, w') \<Longrightarrow> \<exists>status. (q, Inr (status, d)) \<in> set (http_log w')"
  by (auto simp: http_body_def sbind_Inr_iff http_send_def Let_def)

lemma stored_sessions: "(k', v') \<in> set (map_set k v m) \<Longrightarrow> (k', v') = (k, v) \<or> (k', v') \<in> set m"
  by (induction k v m rule: map_set.induct) (auto split: if_splits)

lemma key_mode: "sessionCacheKey env config = Inr key \<Longrightarrow> \<exists>m. normalizeAuthMode config = Inr m"
  by (auto simp: sessionCacheKey_def ebind_Inr_iff split: jsval.splits)

lemma cmd_login_since:
  assumes "normalizeAuthMode config = Inr SessionAuth" "sessionCacheKey env config = Inr key"
  shows "preserves (cmd_since env used config old) (cmd_login env config key)"
proof -
  let ?K = "\<lambda>tls data sent. \<exists>status. (login_request config tls, Inr (status, data)) \<in> set sent"
  have send: "preserves (cmd_since env used config old) (http_body env (login_request config tls))" for tls
    using assms(1) by (intro body_since) (auto simp: keyed_request_def)
  have store: "preserves (\<lambda>w. cmd_since env used config old w \<and> ?K tls data (http_log w))
    (modify (\<lambda>w. w\<lparr>cw_sessions := map_set key t (cw_sessions w)\<rparr>))"
    if "extractSessionId data = Some t" for tls data t
    using that assms(2)
    by (intro preserves_modify) (fastforce simp: cmd_since_def sessions_ok_def session_given_def dest: stored_sessions)
  have rest: "preserves (\<lambda>w. cmd_since env used config old w \<and> ?K tls data (http_log w))
    (case extractSessionId data of
       None \<Rightarrow> raise (JsError ''CMDBuild session response did not include _id'')
     | Some t \<Rightarrow> sbind (modify (\<lambda>w. w\<lparr>cw_sessions := map_set key t (cw_sessions w)\<rparr>)) (\<lambda>_.
         sbind (cmd_note False ''cmdbuild.session.success'' (cmd_where env config)) (\<lambda>_. ret t)))" for tls data
    by (cases "extractSessionId data") (auto intro!: preserves_basic preserves_sbind store note_since)
  show ?thesis
    unfolding cmd_login_def
  proof (rule preserves_sbind_lift)
    fix tls
    show "preserves (cmd_since env used config old) (sbind (http_body env (login_request config tls)) (\<lambda>data.
      case extractSessionId data of
        None \<Rightarrow> raise (JsError ''CMDBuild session response did not include _id'')
      | Some t \<Rightarrow> sbind (modify (\<lambda>w. w\<lparr>cw_sessions := map_set key t (cw_sessions w)\<rparr>)) (\<lambda>_.
          sbind (cmd_note False ''cmdbuild.session.success'' (cmd_where env config)) (\<lambda>_. ret t))))"
      by (rule preserves_sbind_post [where J = "\<lambda>data w. ?K tls data (http_log w)", OF send body_given rest])
  qed
qed

lemma session_failure_since: "preserves (cmd_since env used config old) (session_failure env config e)"
proof -
  have "preserves (cmd_since env used config old) (sbind (cmd_note v n d) (\<lambda>_. raise x))" for v n d x
    by (intro preserves_sbind note_since preserves_basic)
  then show ?thesis unfolding session_failure_def Let_def preserves_def by blast
qed

lemma session_since:
  assumes "normalizeAuthMode config = Inr SessionAuth"
  shows "preserves (cmd_since env used config old) (getSessionId env config)"
  unfolding getSessionId_def
proof (rule preserves_sbind_lift)
  fix key assume key: "sessionCacheKey env config = Inr key"
  have "preserves (cmd_since env used config old) (newSession env config key)"
    unfolding newSession_def
    by (intro preserves_sbind preserves_catch note_since cmd_login_since [OF assms key] session_failure_since)
  then show "preserves (cmd_since env used config old)
      (\<lambda>w. (case map_of (cw_sessions w) key of Some (c # t) \<Rightarrow> ret (c # t) | _ \<Rightarrow> newSession env config key) w)"
    unfolding preserves_def by (auto split: option.split list.split)
qed

lemma login_gives:
  assumes "cmd_login env config key w = (Inr t, w')" "sessionCacheKey env config = Inr key" "config \<in> used"
  shows "session_given env used (http_log w') key t"
proof -
  from assms(1) obtain tls data w1 where body: "http_body env (login_request config tls) w = (Inr data, w1)"
    and t: "extractSessionId data = Some t" and log': "http_log w' = http_log w1"
    by (auto simp: cmd_login_def sbind_Inr_iff cmd_note_def split: option.splits)
  from body_given [OF body] assms(2,3) t show ?thesis by (auto simp: log' session_given_def)
qed

lemma catch_op_Inr:
  "catch_op m h w = (Inr a, w') \<longleftrightarrow> m w = (Inr a, w') \<or> (\<exists>e w1. m w = (Inl e, w1) \<and> h e w1 = (Inr a, w'))"
  by (auto simp: catch_op_def split: prod.split sum.split)

lemma session_failure_fails: "session_failure env config e w \<noteq> (Inr t, w')"
  by (simp add: session_failure_def Let_def cmd_note_def)

lemma session_gives:
  assumes "sessions_ok env used w" "getSessionId env config w = (Inr t, w')" "config \<in> used"
  shows "\<exists>key. sessionCacheKey env config = Inr key \<and> session_given env used (http_log w') key t"
proof -
  from assms(2) obtain key where key: "sessionCacheKey env config = Inr key"
    by (auto simp: getSessionId_def sbind_Inr_iff)
  show ?thesis
  proof (cases "\<exists>c s. map_of (cw_sessions w) key = Some (c # s)")
    case True
    then obtain c s where cached: "map_of (cw_sessions w) key = Some (c # s)" by blast
    then have "session_given env used (http_log w) key (c # s)" using assms(1) map_of_SomeD by (fastforce simp: sessions_ok_def)
    moreover have "t = c # s" "w' = w" using assms(2) key cached by (simp_all add: getSessionId_def)
    ultimately show ?thesis using key by blast
  next
    case False
    then have "newSession env config key w = (Inr t, w')"
      using assms(2) key by (auto simp: getSessionId_def split: option.splits list.splits)
    then have "\<exists>w1. cmd_login env config key w1 = (Inr t, w')"
      by (auto simp: newSession_def sbind_Inr_iff catch_op_Inr session_failure_fails)
    with key show ?thesis using login_gives [OF _ _ assms(3)] by blast
  qed
qed


lemma headers_since: "normalizeAuthMode config = Inr mode \<Longrightarrow> preserves (cmd_since env used config old) (getAuthHeaders env config mode)"
  by (cases mode) (auto simp: getAuthHeaders_def intro!: preserves_basic preserves_sbind session_since)

lemma headers_held:
  assumes "normalizeAuthMode config = Inr mode" "cmd_since env used config old w" "getAuthHeaders env config mode w = (Inr auth, w')"
  shows "auth_held env used config (http_log w') auth"
proof (cases mode)
  case SessionAuth
  with assms(3) obtain t where t: "getSessionId env config w = (Inr t, w')" "auth = [(''Cmdbuild-Authorization'', Str t)]"
    by (auto simp: getAuthHeaders_def sbind_Inr_iff)
  from assms(2) have "sessions_ok env used w" "config \<in> used" by (simp_all add: cmd_since_def)
  from session_gives [OF this(1) t(1) this(2)] t(2) show ?thesis using assms(1) SessionAuth by (auto simp: auth_held_def)
qed (use assms in \<open>simp add: getAuthHeaders_def auth_held_def\<close>)

lemma keyed_requestI:
  "cmd_endpoint path \<Longrightarrow> auth_held env used config sent auth \<Longrightarrow>
   keyed_request env used config sent (cmd_request config m path content auth tls)"
  unfolding keyed_request_def by blast

lemma attempt_since:
  assumes "normalizeAuthMode config = Inr mode" "cmd_endpoint path"
  shows "preserves (cmd_since env used config old) (cmd_attempt env config mode verb path content)"
proof -
  have send: "preserves (\<lambda>w. cmd_since env used config old w \<and> auth_held env used config (http_log w) auth)
    (http_send env (cmd_request config verb path content auth tls))" for auth tls
    using assms(2) by (intro send_since auth_held_more keyed_requestI)
  have create: "preserves (cmd_since env used config old) (logUserCreateDiagnostic config verb path content)"
    unfolding logUserCreateDiagnostic_def by (intro preserves_if preserves_basic preserves_sbind note_since)
  have rest: "preserves (\<lambda>w. cmd_since env used config old w \<and> auth_held env used config (http_log w) auth)
    (sbind (lift_result (cmd_tls env config)) (\<lambda>tls.
     sbind (http_send env (cmd_request config verb path content auth tls)) (\<lambda>(status, data).
     sbind (cmd_note False ''cmdbuild.request.success''
       (cmd_target env config verb path @ [(''status'', num (of_nat status))])) (\<lambda>_.
     ret data))))" for auth
    by (intro preserves_sbind_lift preserves_sbind send)
       (auto intro!: preserves_sbind note_since preserves_basic split: prod.split)
  show ?thesis
    unfolding cmd_attempt_def
    by (intro preserves_sbind note_since create
        preserves_sbind_post [where J = "\<lambda>auth w. auth_held env used config (http_log w) auth", OF headers_since [OF assms(1)] headers_held [OF assms(1)] rest])
qed

lemma failed_since: "preserves (cmd_since env used config old) (cmd_failed env config mode verb path content again e)"
proof -
  have "preserves (cmd_since env used config old) (sbind (cmd_note v n d) (\<lambda>_. sbind (cmd_note v' n' d') (\<lambda>_. raise x)))"
    for v n d v' n' d' x by (intro preserves_sbind note_since preserves_basic)
  then show ?thesis unfolding cmd_failed_def Let_def preserves_def by blast
qed

lemma forget_since: "preserves (cmd_since env used config old) (forget_session key)"
  unfolding forget_session_def by (intro preserves_modify) (auto simp: cmd_since_def sessions_ok_def)

lemma round_since:
  assumes "cmd_endpoint path" "\<And>m. again = Some m \<Longrightarrow> preserves (cmd_since env used config old) m"
  shows "preserves (cmd_since env used config old) (cmd_round env config verb path content again)"
  unfolding cmd_round_def
proof (rule preserves_sbind_lift, rule preserves_catch, erule attempt_since [OF _ assms(1)])
  fix mode e
  show "preserves (cmd_since env used config old) (case again of
      Some m \<Rightarrow>
        (if mode = SessionAuth \<and> isSessionAuthFailure e
         then sbind (lift_result (sessionCacheKey env config)) (\<lambda>key. sbind (forget_session key) (\<lambda>_. m))
         else cmd_failed env config mode verb path content True e)
    | None \<Rightarrow> cmd_failed env config mode verb path content False e)"
  proof (cases again)
    case (Some m)
    show ?thesis unfolding Some option.case
      by (intro preserves_if preserves_sbind preserves_basic forget_since failed_since assms(2) [OF Some])
  qed (simp add: failed_since)
qed

lemma cmd_call_since: "cmd_endpoint path \<Longrightarrow> preserves (cmd_since env used config old) (cmd_call env config verb path content)"
  unfolding cmd_call_def
  by (rule round_since, assumption) (auto intro!: round_since)

section \<open>Paths of an event\<close>

lemma plain_paths: "cmd_endpoint ''/users''" "cmd_endpoint ''/roles''" "cmd_endpoint ''/classes''"
  by (simp_all add: cmd_endpoint_def)

lemma query_path: "path \<in> {''/users'', ''/roles''} \<Longrightarrow> cmd_endpoint (cmd_appendQuery env path query)"
  using form_query_chars by (auto simp: cmd_appendQuery_def Let_def cmd_endpoint_def)

lemma path_segment:
  assumes "pathSegment v name = Inr seg"
  shows "segment seg \<and> seg \<notin> {''.'', ''..''}"
proof -
  obtain t where t: "seg = encodeURIComponent t" "t \<notin> {[], ''.'', ''..''}"
    using assms by (auto simp: pathSegment_def Let_def split: jsval.splits if_splits)
  have "seg \<notin> {''.'', ''..''}"
  proof
    assume "seg \<in> {''.'', ''..''}"
    then have "CHR ''%'' \<notin> set (encodeURIComponent t)" using t(1) by auto
    then have "encodeURIComponent t = t" by (rule encoded_plain)
    with t \<open>seg \<in> {''.'', ''..''}\<close> show False by simp
  qed
  with encoded_segment [of t] t show ?thesis by auto
qed

lemma id_paths:
  assumes "id_path collection v name = Inr path" "collection \<in> {''/users/'', ''/roles/''}"
  shows "cmd_endpoint path" "collection = ''/users/'' \<Longrightarrow> cmd_endpoint (path @ ''/password'')"
proof -
  from assms(1) obtain seg where seg: "pathSegment v name = Inr seg" "path = collection @ seg"
    by (auto simp: id_path_def ebind_Inr_iff)
  note ok = path_segment [OF seg(1)]
  then have "\<exists>rest. rest \<in> {[], ''/password''} \<and> path \<in> {''/users/'' @ seg @ rest, ''/roles/'' @ seg}"
    using seg(2) assms(2) by (intro exI [of _ "[]"]) auto
  with ok show "cmd_endpoint path" unfolding cmd_endpoint_def by blast
  assume "collection = ''/users/''"
  with seg(2) have "path @ ''/password'' = ''/users/'' @ seg @ ''/password''" by simp
  with ok show "cmd_endpoint (path @ ''/password'')" unfolding cmd_endpoint_def by blast
qed

lemma user_path: "id_path ''/users/'' v name = Inr path \<Longrightarrow> cmd_endpoint path"
  by (erule id_paths(1)) simp

lemma resolve_names_since: "preserves (cmd_since env used config old) (resolveRoleNames env config names)"
  unfolding resolveRoleNames_def
  by (intro preserves_if preserves_basic preserves_sbind cmd_call_since query_path) simp

lemma user_groups_since: "preserves (cmd_since env used config old) (toCmdbuildUserGroups env config mode vs)"
  unfolding toCmdbuildUserGroups_def by (intro preserves_if preserves_basic preserves_sbind resolve_names_since)

lemma incoming_since: "preserves (cmd_since env used config old) (incoming_groups env config data)"
  unfolding incoming_groups_def
  by (intro preserves_sbind preserves_basic) (auto intro!: preserves_basic user_groups_since split: jsval.split)

lemma groups_since: "preserves (cmd_since env used config old) (applyCmdbuildUserGroups env config data)"
  unfolding applyCmdbuildUserGroups_def
  by (intro preserves_if preserves_basic preserves_sbind incoming_since user_groups_since)

lemma entity_since: "cmd_endpoint path \<Longrightarrow> preserves (cmd_since env used config old) (getEntity env config path)"
  unfolding getEntity_def by (intro preserves_if preserves_basic preserves_sbind cmd_call_since)

lemma merged_since: "cmd_endpoint path \<Longrightarrow> preserves (cmd_since env used config old) (putMerged env config path patch)"
  unfolding putMerged_def by (intro preserves_sbind entity_since cmd_call_since)

lemma put_since:
  "collection \<in> {''/users/'', ''/roles/''} \<Longrightarrow> preserves (cmd_since env used config old) (put_by_id env config collection i patch)"
  unfolding put_by_id_def by (intro preserves_sbind_lift merged_since) (rule id_paths(1))

lemma stateful_since: "preserves (cmd_since env used config old) (executeStatefulOperation env config op data params)"
  unfolding executeStatefulOperation_def searchRoles_def Let_def
  by (intro preserves_if preserves_basic preserves_sbind groups_since cmd_call_since plain_paths query_path put_since; simp)

definition good_path :: "(string \<times> string \<times> jsval) result \<Rightarrow> bool" where
  "good_path r \<longleftrightarrow> (\<forall>m path content. r = Inr (m, path, content) \<longrightarrow> cmd_endpoint path)"

lemma good_paths:
  "good_path (Inl e)" "cmd_endpoint path \<Longrightarrow> good_path (Inr (m, path, content))"
  "good_path a \<Longrightarrow> good_path b \<Longrightarrow> good_path (if c then a else b)"
  "collection \<in> {''/users/'', ''/roles/''} \<Longrightarrow> good_path (ebind (id_path collection i n) (\<lambda>path. Inr (m, path @ [], content)))"
  "good_path (ebind (id_path ''/users/'' i n) (\<lambda>path. Inr (m, path @ ''/password'', content)))"
  using id_paths [of collection i n] id_paths [of "''/users/''" i n] by (auto simp: good_path_def ebind_Inr_iff)

lemma built_path: "good_path (cmd_buildRequest env op data params)"
  unfolding cmd_buildRequest_def Let_def
  by (intro good_paths plain_paths query_path; simp)

lemma cmd_member_since: "preserves (cmd_since env used config old) (updateUserRoleMembership env config role user add)"
  unfolding updateUserRoleMembership_def
  by (intro preserves_sbind_lift preserves_sbind entity_since cmd_call_since) (erule user_path)+

lemma cmd_run_since: "preserves (cmd_since env used config old) (cmd_run env config op data params)"
proof -
  have "preserves (cmd_since env used config old) (sbind (lift_result (cmd_buildRequest env op data params)) (\<lambda>(verb, path, content).
          sbind (cmd_call env config verb path content) (\<lambda>r. ret (result_ok r))))"
    by (rule preserves_sbind_lift) (use built_path [of env op data params] in
      \<open>auto simp: good_path_def intro!: preserves_sbind preserves_basic cmd_call_since split: prod.split\<close>)
  note rest = this
  have "preserves (cmd_since env used config old) (case memberRefs (as_obj params) (as_obj data) of (role, user) \<Rightarrow>
        if \<not> truthy role \<or> \<not> truthy user
        then ret (result_fail ''Missing roleId or userId for group member operation'')
        else sbind (updateUserRoleMembership env config role user (op = ''group.addMember'')) (\<lambda>r. ret (result_ok r)))"
    by (auto intro!: preserves_sbind preserves_basic cmd_member_since split: prod.split)
  then show ?thesis
    unfolding cmd_run_def by (intro preserves_if preserves_sbind preserves_basic stateful_since rest)
qed

text \<open>Events and tests, one after the other.\<close>

datatype cmd_command = Execute connector_payload | Test jsval

fun cmd_step :: "cmd_env \<Rightarrow> cmd_command \<Rightarrow> 'b cmd_world_scheme \<Rightarrow> 'b cmd_world_scheme" where
  "cmd_step env (Execute p) w = snd (cmd_execute env p w)"
| "cmd_step env (Test cfg) w = snd (cmd_testConnection env cfg w)"

definition cmd_start :: cmd_world where
  "cmd_start = \<lparr>http_log = [], cw_sessions = [], cw_diag = []\<rparr>"

lemma answer_since: "preserves I m \<Longrightarrow> preserves I (cmd_answer config m)"
  unfolding cmd_answer_def by (rule preserves_catch) (simp_all add: preserves_def)

text \<open>The configuration that an event is run with.\<close>

definition event_config :: "connector_payload \<Rightarrow> obj" where
  "event_config p = js_set ''diagnosticTargetSystem'' (Str (targetSystem p)) (as_obj (js_get (body p) ''config''))"

lemma execute_since: "preserves (cmd_since env used (event_config p) old) (cmd_execute env p)"
  unfolding cmd_execute_def Let_def event_config_def
  by (intro preserves_if preserves_basic answer_since cmd_run_since)

lemma test_since: "preserves (cmd_since env used (as_obj cfg) old) (cmd_testConnection env cfg)"
  unfolding cmd_testConnection_def Let_def
  by (intro preserves_if preserves_basic preserves_catch preserves_sbind cmd_call_since plain_paths) (simp add: preserves_def)

fun command_config :: "cmd_command \<Rightarrow> obj" where
  "command_config (Execute p) = event_config p"
| "command_config (Test cfg) = as_obj cfg"

lemma since_start: "sessions_ok env used w \<Longrightarrow> config \<in> used \<Longrightarrow> cmd_since env used config (http_log w) w"
  by (simp add: cmd_since_def)

lemma step_sessions: "sessions_ok env used w \<Longrightarrow> command_config c \<in> used \<Longrightarrow> sessions_ok env used (cmd_step env c w)"
proof (cases c)
  case (Execute p)
  assume "sessions_ok env used w" "command_config c \<in> used"
  with preserves_snd [OF execute_since since_start [of env used w]] Execute show ?thesis by (simp add: cmd_since_def)
next
  case (Test cfg)
  assume "sessions_ok env used w" "command_config c \<in> used"
  with preserves_snd [OF test_since since_start [of env used w]] Test show ?thesis by (simp add: cmd_since_def)
qed

lemma reached_sessions:
  assumes "command_config ` set cs \<subseteq> used"
  shows "sessions_ok env used (fold (cmd_step env) cs cmd_start)"
proof -
  have "sessions_ok env used w \<Longrightarrow> command_config ` set cs \<subseteq> used \<Longrightarrow> sessions_ok env used (fold (cmd_step env) cs w)" for w :: cmd_world
    by (induction cs arbitrary: w) (simp_all add: step_sessions)
  with assms show ?thesis by (simp add: cmd_start_def sessions_ok_def)
qed

text \<open>
  Equal keys mean the same login, when the parts before the password have no separator in them and the digests of the
  passwords differ.
\<close>

definition separable :: "obj \<Rightarrow> bool" where
  "separable config \<longleftrightarrow>
     CHR ''|'' \<notin> set (joined (js_get config ''baseUrl'') @ joined (getApiPath config) @ joined (js_get config ''username''))"

definition password_digest :: "platform \<Rightarrow> string \<Rightarrow> string" where
  "password_digest P pass =
     hmac_bytes P ''idmmw-fixed-length-comparison-v1'' (''cmdbuild-session-cache'' @ CHR 0x00 # pass)"

definition password_texts :: "obj set \<Rightarrow> string set" where
  "password_texts used = {s. \<exists>config \<in> used. login_password config = Str s}"

lemma strip_slashes_split: "\<exists>n. s = strip_slashes s @ replicate n (CHR ''/'')"
proof -
  have "rev s = takeWhile (\<lambda>c. c = CHR ''/'') (rev s) @ dropWhile (\<lambda>c. c = CHR ''/'') (rev s)" by simp
  then have "s = strip_slashes s @ rev (takeWhile (\<lambda>c. c = CHR ''/'') (rev s))"
    unfolding strip_slashes_def by (metis rev_append rev_rev_ident)
  moreover have "takeWhile (\<lambda>c. c = CHR ''/'') (rev s) = replicate (length (takeWhile (\<lambda>c. c = CHR ''/'') (rev s))) (CHR ''/'')"
    by (rule replicate_length_same [symmetric]) (auto dest: set_takeWhileD)
  ultimately show ?thesis by (metis rev_replicate)
qed

lemma separated: "c \<notin> set a \<Longrightarrow> c \<notin> set b \<Longrightarrow> a @ c # x = b @ c # y \<longleftrightarrow> a = b \<and> x = y"
  by (induction a arbitrary: b; case_tac b) auto

lemma key_parts:
  assumes "sessionCacheKey env config = Inr key"
  shows "\<exists>base pass m. js_get config ''baseUrl'' = Str base \<and> login_password config = Str pass \<and> normalizeAuthMode config = Inr m \<and>
    key = strip_slashes base @ CHR ''|'' # joined (getApiPath config) @ CHR ''|'' # joined (js_get config ''username'') @ CHR ''|'' #
      auth_text m @ CHR ''|'' # fixedLengthFingerprint (ce_platform env) pass ''cmdbuild-session-cache''"
  using assms by (auto simp: sessionCacheKey_def login_password_def ebind_Inr_iff split: jsval.splits)

lemma same_key_same_login:
  assumes keys: "sessionCacheKey env config = Inr key" "sessionCacheKey env config' = Inr key"
    and sep: "separable config" "separable config'"
    and digests: "inj_on (password_digest (ce_platform env)) (password_texts used)" "config \<in> used" "config' \<in> used"
  shows "same_login config' config"
proof -
  from key_parts [OF keys(1)] obtain base pass m where c: "js_get config ''baseUrl'' = Str base" "login_password config = Str pass"
    "key = strip_slashes base @ CHR ''|'' # joined (getApiPath config) @ CHR ''|'' # joined (js_get config ''username'') @ CHR ''|'' #
      auth_text m @ CHR ''|'' # fixedLengthFingerprint (ce_platform env) pass ''cmdbuild-session-cache''" by blast
  from key_parts [OF keys(2)] obtain base' pass' m' where c': "js_get config' ''baseUrl'' = Str base'" "login_password config' = Str pass'"
    "key = strip_slashes base' @ CHR ''|'' # joined (getApiPath config') @ CHR ''|'' # joined (js_get config' ''username'') @ CHR ''|'' #
      auth_text m' @ CHR ''|'' # fixedLengthFingerprint (ce_platform env) pass' ''cmdbuild-session-cache''" by blast
  have free: "CHR ''|'' \<notin> set base" "CHR ''|'' \<notin> set base'" "CHR ''|'' \<notin> set (auth_text m)" "CHR ''|'' \<notin> set (auth_text m')"
    using sep c(1) c'(1) by (cases m; cases m'; simp add: separable_def joined_def nullish_def)+
  have strip_free: "CHR ''|'' \<notin> set s \<Longrightarrow> CHR ''|'' \<notin> set (strip_slashes s)" for s
    unfolding strip_slashes_def by (auto dest: set_dropWhileD)
  have eq: "strip_slashes base = strip_slashes base'" "joined (getApiPath config) = joined (getApiPath config')"
    "joined (js_get config ''username'') = joined (js_get config' ''username'')"
    "fixedLengthFingerprint (ce_platform env) pass ''cmdbuild-session-cache'' =
      fixedLengthFingerprint (ce_platform env) pass' ''cmdbuild-session-cache''"
    using c(3) c'(3) sep free strip_free by (simp_all add: separable_def separated)
  from eq(4) have "password_digest (ce_platform env) pass = password_digest (ce_platform env) pass'"
    unfolding fixedLengthFingerprint_def password_digest_def by (metis b64_roundtrip append_Cons append_Nil)
  with digests c(2) c'(2) have "pass = pass'" by (fastforce simp: password_texts_def dest: inj_onD)
  with eq c(1,2) c'(1,2) strip_slashes_split [of base] strip_slashes_split [of base'] show ?thesis
    by (auto simp: same_login_def)
qed

lemma keyed_is_authorised:
  assumes "keyed_request env used config sent q" "\<forall>c \<in> used. separable c"
    and "inj_on (password_digest (ce_platform env)) (password_texts used)" "config \<in> used"
  shows "cmd_authorised used config sent q"
proof -
  have "session_usable used config sent t" if "sessionCacheKey env config = Inr key" "session_given env used sent key t" for key t
  proof -
    from that(2) obtain config' tls status data where g: "config' \<in> used"
      "(login_request config' tls, Inr (status, data)) \<in> set sent" "sessionCacheKey env config' = Inr key"
      "extractSessionId data = Some t"
      unfolding session_given_def by blast
    have "separable config" "separable config'" using assms(2,4) g(1) by blast+
    from same_key_same_login [OF that(1) g(3) this assms(3,4) g(1)] g show ?thesis unfolding session_usable_def by blast
  qed
  then have "auth_held env used config sent auth \<Longrightarrow>
      normalizeAuthMode config = Inr BasicAuth \<and> auth = [(''Authorization'', Str (getBasicAuthHeader config))] \<or>
      normalizeAuthMode config = Inr SessionAuth \<and>
        (\<exists>t. session_usable used config sent t \<and> auth = [(''Cmdbuild-Authorization'', Str t)])" for auth
    unfolding auth_held_def by blast
  with assms(1) show ?thesis unfolding keyed_request_def cmd_authorised_def by blast
qed

lemma trace_ok_mono: "trace_ok good sent qs \<Longrightarrow> (\<And>sent q. good sent q \<Longrightarrow> good' sent q) \<Longrightarrow> trace_ok good' sent qs"
  by (induction qs arbitrary: sent) auto

text \<open>
  C29: whatever events and tests came before, each request that the connector makes for an event is meant for it: it is
  the login with the configured credentials, or it goes to one of the endpoints for users, roles and classes below the
  configured address, an id filling one part of its path, and carries what the configured mode asks for, the configured
  credentials or a session that a server gave in answer to a login of this or an earlier event with the same address,
  path, user and password. Of the configurations in use it is assumed that no vertical bar stands in their address,
  path or user, and that the digests of different passwords differ.
\<close>

theorem cmdbuild_requests_are_authorised:
  assumes used: "used = insert (event_config p) (command_config ` set cs)" and "\<forall>config \<in> used. separable config"
    and "inj_on (password_digest (ce_platform env)) (password_texts used)"
  shows "\<exists>new. http_log (snd (cmd_execute env p (fold (cmd_step env) cs cmd_start))) =
       http_log (fold (cmd_step env) cs cmd_start) @ new \<and>
     trace_ok (\<lambda>sent e. cmd_authorised used (event_config p) sent (fst e)) (http_log (fold (cmd_step env) cs cmd_start)) new"
proof -
  have mine: "event_config p \<in> used" "command_config ` set cs \<subseteq> used" by (auto simp: used)
  from preserves_snd [OF execute_since since_start [OF reached_sessions [OF mine(2)] mine(1)]]
  obtain new where new: "http_log (snd (cmd_execute env p (fold (cmd_step env) cs cmd_start))) =
       http_log (fold (cmd_step env) cs cmd_start) @ new"
    "trace_ok (\<lambda>sent e. keyed_request env used (event_config p) sent (fst e)) (http_log (fold (cmd_step env) cs cmd_start)) new"
    by (auto simp: cmd_since_def grown_def)
  have "trace_ok (\<lambda>sent e. cmd_authorised used (event_config p) sent (fst e)) (http_log (fold (cmd_step env) cs cmd_start)) new"
    by (rule trace_ok_mono [OF new(2)]) (rule keyed_is_authorised [OF _ assms(2,3) mine(1)])
  with new(1) show ?thesis by (intro exI [of _ new] conjI)
qed

text \<open>The key of a session joins its parts with a separator that may stand in them, so two logins can share a key.\<close>

theorem two_logins_share_a_session:
  fixes env :: cmd_env
  defines "a \<equiv> [(''baseUrl'', Str ''https://c''), (''apiPath'', Str ''/v3''), (''username'', Str ''x|y''), (''password'', Str ''p'')]"
    and "b \<equiv> [(''baseUrl'', Str ''https://c''), (''apiPath'', Str ''/v3|x''), (''username'', Str ''y''), (''password'', Str ''p'')]"
  shows "sessionCacheKey env a = sessionCacheKey env b \<and> isl (sessionCacheKey env a) = False \<and> \<not> same_login a b"
  by (simp add: a_def b_def sessionCacheKey_def js_get_def normalizeAuthMode_def coalesce_def nullish_def getApiPath_def joined_def
      same_login_def)

section \<open>Expired sessions\<close>

text \<open>
  What an operation returns, sends and stores, whatever the diagnostic records are: it takes the log \<open>sent\<close> and
  the sessions \<open>held\<close> to \<open>sent'\<close> and \<open>held'\<close>.
\<close>

type_synonym held_sessions = "(string \<times> string) list"

definition runs :: "('a, 'b cmd_world_scheme) op \<Rightarrow> http_exchange list \<times> held_sessions \<Rightarrow> 'a result \<Rightarrow>
    http_exchange list \<times> held_sessions \<Rightarrow> bool" where
  "runs m s r s' \<longleftrightarrow>
     (\<forall>w. (http_log w, cw_sessions w) = s \<longrightarrow> (\<exists>w'. m w = (r, w') \<and> (http_log w', cw_sessions w') = s'))"

lemma runs_basic: "runs (ret a) s (Inr a) s" "runs (raise e) s (Inl e) s" "runs (lift_result r) s r s"
  by (simp_all add: runs_def)

lemma runs_note: "runs (cmd_note v n d) s (Inr ()) s"
  by (simp add: runs_def cmd_note_def)

lemma runs_sbind: "runs m s (Inr a) s1 \<Longrightarrow> runs (f a) s1 r s2 \<Longrightarrow> runs (sbind m f) s r s2"
  unfolding runs_def by (metis sbind_run(2))

lemma runs_fail: "runs m s (Inl e) s1 \<Longrightarrow> runs (sbind m f) s (Inl e) s1"
  unfolding runs_def by (metis sbind_run(1))

lemma runs_lift: "r = Inr a \<Longrightarrow> runs (f a) s x s' \<Longrightarrow> runs (sbind (lift_result r) f) s x s'"
  by simp

lemma runs_catch: "runs m s (Inl e) s1 \<Longrightarrow> runs (h e) s1 r s2 \<Longrightarrow> runs (catch_op m h) s r s2"
  unfolding runs_def by (metis catch_run(1))

lemma runs_try: "runs m s (Inr a) s1 \<Longrightarrow> runs (catch_op m h) s (Inr a) s1"
  unfolding runs_def by (metis catch_run(2))

lemma runs_send: "runs (http_send env q) (sent, held) (he_answer env sent q) (sent @ [(q, he_answer env sent q)], held)"
  by (auto simp: runs_def http_send_def Let_def)

text \<open>The diagnostic record of a new user can be written.\<close>

definition describable :: "obj \<Rightarrow> bool" where
  "describable config \<longleftrightarrow> (\<exists>d i. defaultGroupSettings config = Inr d \<and> incomingGroupSettings config = Inr i)"

lemma create_diagnostic_runs:
  assumes "describable config"
  shows "runs (logUserCreateDiagnostic config verb path content) s (Inr ()) s"
proof -
  from assms obtain d i where "defaultGroupSettings config = Inr d" "incomingGroupSettings config = Inr i"
    by (auto simp: describable_def)
  then show ?thesis by (simp add: logUserCreateDiagnostic_def runs_note runs_basic)
qed

text \<open>One attempt, once its headers are known.\<close>

lemma attempt_runs:
  assumes "describable config" "cmd_tls env config = Inr tls"
    and auth: "runs (getAuthHeaders env config mode :: (obj, 'b cmd_world_scheme) op) s (Inr auth) (sent, held)"
    and answer: "he_answer env sent (cmd_request config verb path content auth tls) = r"
  shows "runs (cmd_attempt env config mode verb path content :: (jsval, 'b cmd_world_scheme) op) s (map_sum id snd r)
    (sent @ [(cmd_request config verb path content auth tls, r)], held)"
proof -
  let ?rest = "sbind (http_send env (cmd_request config verb path content auth tls)) (\<lambda>(status, data).
      sbind (cmd_note False ''cmdbuild.request.success'' (cmd_target env config verb path @ [(''status'', num (of_nat status))]))
        (\<lambda>_. ret data)) :: (jsval, 'b cmd_world_scheme) op"
  let ?sent = "(sent @ [(cmd_request config verb path content auth tls, r)], held)"
  have send: "runs (http_send env (cmd_request config verb path content auth tls) :: (nat \<times> jsval, 'b cmd_world_scheme) op)
      (sent, held) r ?sent"
    using runs_send [of env "cmd_request config verb path content auth tls" sent held] by (simp add: answer)
  show ?thesis
    unfolding cmd_attempt_def
  proof (rule runs_sbind [OF runs_note], rule runs_sbind [OF create_diagnostic_runs [OF assms(1)]],
      rule runs_sbind [OF auth], rule runs_lift [OF assms(2)], cases r)
    case (Inl e)
    show "runs ?rest (sent, held) (map_sum id snd r) ?sent"
      unfolding Inl map_sum.simps id_apply by (rule runs_fail [OF send [unfolded Inl]])
  next
    case (Inr a)
    show "runs ?rest (sent, held) (map_sum id snd r) ?sent"
      unfolding Inr
      by (rule runs_sbind [OF send [unfolded Inr]]) (auto intro!: runs_sbind runs_note runs_basic split: prod.split)
  qed
qed

lemma cached_headers:
  assumes "sessionCacheKey env config = Inr key" "map_of held key = Some (c # t)"
  shows "runs (getAuthHeaders env config SessionAuth) (sent, held) (Inr [(''Cmdbuild-Authorization'', Str (c # t))]) (sent, held)"
  unfolding getAuthHeaders_def getSessionId_def cmd_auth.case
  by (rule runs_sbind [OF runs_lift [OF assms(1)] runs_basic(1)]) (use assms(2) in \<open>auto simp: runs_def\<close>)

lemma fresh_headers:
  assumes "sessionCacheKey env config = Inr key" "map_of held key = None" "cmd_tls env config = Inr tls"
    and answer: "he_answer env sent (login_request config tls) = Inr (st, d)" and t: "extractSessionId d = Some t"
  shows "runs (getAuthHeaders env config SessionAuth) (sent, held) (Inr [(''Cmdbuild-Authorization'', Str t)])
    (sent @ [(login_request config tls, Inr (st, d))], map_set key t held)"
proof -
  let ?sent = "sent @ [(login_request config tls, Inr (st, d))]"
  have body: "runs (http_body env (login_request config tls)) (sent, held) (Inr d) (?sent, held)"
    unfolding http_body_def
    by (rule runs_sbind [OF runs_send [of env "login_request config tls" sent held, unfolded answer]]) (simp add: runs_basic)
  have "runs (cmd_login env config key) (sent, held) (Inr t) (?sent, map_set key t held)"
    unfolding cmd_login_def
    by (rule runs_lift [OF assms(3)], rule runs_sbind [OF body]) (simp add: t runs_def cmd_note_def)
  then have "runs (newSession env config key) (sent, held) (Inr t) (?sent, map_set key t held)"
    unfolding newSession_def by (intro runs_sbind [OF runs_note] runs_try)
  then have "runs (\<lambda>w. (case map_of (cw_sessions w) key of Some (c # t) \<Rightarrow> ret (c # t) | _ \<Rightarrow> newSession env config key) w)
      (sent, held) (Inr t) (?sent, map_set key t held)"
    using assms(2) by (auto simp: runs_def)
  then show ?thesis
    unfolding getAuthHeaders_def getSessionId_def cmd_auth.case
    by (rule runs_sbind [OF runs_lift [OF assms(1)] runs_basic(1)])
qed

definition forgotten :: "string \<Rightarrow> held_sessions \<Rightarrow> held_sessions" where
  "forgotten key held = filter (\<lambda>s. fst s \<noteq> key) held"

lemma forgotten_key: "map_of (forgotten key held) key = None"
  by (simp add: forgotten_def map_of_eq_None_iff image_iff)

lemma forget_runs: "runs (forget_session key) (sent, held) (Inr ()) (sent, forgotten key held)"
  by (simp add: runs_def forget_session_def forgotten_def)

text \<open>
  C30: an expired session is renewed within a call of the interface. When the server refuses the session that is kept
  for a configuration, accepts the login that follows, and answers the request that is made again with the new
  session, the call returns that answer, without an error, and the new session is kept. Exactly these three requests
  are sent. An event makes one or more such calls.
\<close>

theorem expired_session_is_renewed:
  fixes w :: "'b cmd_world_scheme"
  assumes mode: "normalizeAuthMode config = Inr SessionAuth" and key: "sessionCacheKey env config = Inr key"
    and cached: "map_of (cw_sessions w) key = Some (c # t)" and tls: "cmd_tls env config = Inr tls"
    and describable: "describable config"
    and old: "q = cmd_request config verb path content [(''Cmdbuild-Authorization'', Str (c # t))] tls"
    and refused: "he_answer env (http_log w) q = Inl e" "isSessionAuthFailure e"
    and login: "he_answer env (http_log w @ [(q, Inl e)]) (login_request config tls) = Inr (st, d)" "extractSessionId d = Some t'"
    and new: "q' = cmd_request config verb path content [(''Cmdbuild-Authorization'', Str t')] tls"
    and accepted: "he_answer env (http_log w @ [(q, Inl e), (login_request config tls, Inr (st, d))]) q' = Inr (st', answer)"
  shows "\<exists>w'. cmd_call env config verb path content w = (Inr answer, w') \<and>
    http_log w' = http_log w @ [(q, Inl e), (login_request config tls, Inr (st, d)), (q', Inr (st', answer))] \<and>
    map_of (cw_sessions w') key = Some t'"
proof -
  let ?s1 = "(http_log w @ [(q, Inl e)], cw_sessions w)"
  let ?held = "map_set key t' (forgotten key (cw_sessions w))"
  let ?again = "cmd_round env config verb path content None :: (jsval, 'b cmd_world_scheme) op"
  have first: "runs (cmd_attempt env config SessionAuth verb path content :: (jsval, 'b cmd_world_scheme) op)
      (http_log w, cw_sessions w) (Inl e) ?s1"
    using attempt_runs [OF describable tls cached_headers [OF key cached], of "http_log w" verb path content "Inl e"] refused
    by (simp add: old)
  have second: "runs (cmd_attempt env config SessionAuth verb path content :: (jsval, 'b cmd_world_scheme) op)
      (http_log w @ [(q, Inl e)], forgotten key (cw_sessions w)) (Inr answer)
      (http_log w @ [(q, Inl e), (login_request config tls, Inr (st, d)), (q', Inr (st', answer))], ?held)"
    using attempt_runs [OF describable tls fresh_headers [OF key forgotten_key tls login], of verb path content "Inr (st', answer)"] accepted
    by (simp add: new)
  have again: "runs ?again (http_log w @ [(q, Inl e)], forgotten key (cw_sessions w)) (Inr answer)
      (http_log w @ [(q, Inl e), (login_request config tls, Inr (st, d)), (q', Inr (st', answer))], ?held)"
    unfolding cmd_round_def by (rule runs_lift [OF mode], rule runs_try [OF second])
  have "runs (cmd_call env config verb path content :: (jsval, 'b cmd_world_scheme) op) (http_log w, cw_sessions w) (Inr answer)
      (http_log w @ [(q, Inl e), (login_request config tls, Inr (st, d)), (q', Inr (st', answer))], ?held)"
    unfolding cmd_call_def cmd_round_def [of _ _ _ _ _ "Some _"]
    by (rule runs_lift [OF mode], rule runs_catch [OF first])
       (simp add: refused(2), rule runs_lift [OF key], rule runs_sbind [OF forget_runs again])
  then show ?thesis by (auto simp: runs_def map_of_map_set)
qed

section \<open>Members of roles\<close>

text \<open>
  Adding and removing a member touches one role: the other roles of the user stay as they are and in their order,
  and the user has the role afterwards exactly when it was to be added. Roles are compared as texts.
\<close>

theorem member_update_touches_one_role:
  fixes role :: jsval
  defines "same \<equiv> \<lambda>i. string_of_val i = string_of_val role"
  shows "filter (\<lambda>i. \<not> same i) (next_groups add role ids) = filter (\<lambda>i. \<not> same i) ids \<and>
    (list_ex same (next_groups add role ids) \<longleftrightarrow> add)"
  by (auto simp: next_groups_def same_def list_ex_iff)

section \<open>Error texts\<close>

lemma honest_basic: "honest match_basic"
  by (auto simp: honest_def match_basic_def Let_def take_is_prefix split: if_splits)

lemma honest_setting: "honest (match_setting names basic)"
  by (auto simp: honest_def match_setting_def Let_def take_is_prefix split: option.splits if_splits)

text \<open>
  The error texts of the connector, in its answers and in its diagnostic records, hold neither the password of the
  configuration nor a session that the connector keeps, as far as masking can promise it at all.
\<close>

theorem cmdbuild_errors_hide_secrets:
  assumes "js_get config ''password'' = Str s \<or> s \<in> set tokens" "4 \<le> length s" "maskable s"
  shows "\<not> sublist s (cmd_safeErrorMessage config tokens e)"
proof
  have long: "x \<in> set (cmd_secrets config tokens) \<Longrightarrow> 4 \<le> length x" for x
    by (auto simp: cmd_secrets_def Let_def MIN_LITERAL_SECRET_LENGTH_def)
  have "s \<in> set (cmd_secrets config tokens)"
    using assms(1,2) by (auto simp: cmd_secrets_def Let_def MIN_LITERAL_SECRET_LENGTH_def)
  moreover have "[] \<notin> set (cmd_secrets config tokens)" using long [of "[]"] by auto
  ultimately have gone: "\<not> sublist s (fold cut_out (cmd_secrets config tokens) (exn_message e))"
    using fold_cut_gone assms(3) by blast
  assume "sublist s (cmd_safeErrorMessage config tokens e)"
  then have "sublist s (fold cut_out (cmd_secrets config tokens) (exn_message e))"
    unfolding cmd_safeErrorMessage_def
    using replace_all_sublist [OF assms(3), where pre = "[]", simplified] honest_basic honest_setting by blast
  with gone show False by simp
qed

section \<open>Witness\<close>

definition demo_cmd_config :: obj where
  "demo_cmd_config = [(''baseUrl'', Str ''h''), (''username'', Str ''u''), (''password'', Str ''p'')]"

definition demo_cmd_answer :: "http_exchange list \<Rightarrow> HttpKit.http_request \<Rightarrow> (nat \<times> jsval) result" where
  "demo_cmd_answer sent q =
     (if hr_method q = ''POST'' then Inr (200, Obj [(''_id'', Str ''new'')])
      else if js_get (hr_headers q) ''Cmdbuild-Authorization'' = Str ''new'' then Inr (200, Str ''classes'')
      else Inl (ClientError ''gone'' [(''response'', Obj [(''status'', num 401)])]))"

definition demo_cmd_env :: cmd_env where
  "demo_cmd_env = \<lparr>he_answer = demo_cmd_answer, he_tls = None, ce_platform = \<lparr>hmac_sha256_hex = (\<lambda>_ _. []),
     gcm_seal = (\<lambda>_ _ t. (t, [])), gcm_open = (\<lambda>_ _ c _. Some c), json_print = (\<lambda>_. []), json_parse = (\<lambda>_. None)\<rparr>,
     ce_origin = (\<lambda>_. None)\<rparr>"

definition demo_cmd_key :: string where
  "demo_cmd_key = ''h|/cmdbuild/services/rest/v3|u|session|''"

definition demo_cmd_world :: cmd_world where
  "demo_cmd_world = \<lparr>http_log = [], cw_sessions = [(demo_cmd_key, ''old'')], cw_diag = []\<rparr>"

definition demo_cmd_event :: connector_payload where
  "demo_cmd_event = \<lparr>operation = ''group.get'', targetSystem = ''t'', body = [(''config'', Obj demo_cmd_config), (''params'', Obj [(''id'', num 1)])]\<rparr>"

theorem cmdbuild_requests_are_authorised_witness:
  "\<exists>new used. http_log (snd (cmd_execute demo_cmd_env demo_cmd_event (fold (cmd_step demo_cmd_env) [Test (Obj demo_cmd_config)] cmd_start))) =
       http_log (fold (cmd_step demo_cmd_env) [Test (Obj demo_cmd_config)] cmd_start) @ new \<and> used = {event_config demo_cmd_event, demo_cmd_config} \<and>
     trace_ok (\<lambda>sent e. cmd_authorised used (event_config demo_cmd_event) sent (fst e))
       (http_log (fold (cmd_step demo_cmd_env) [Test (Obj demo_cmd_config)] cmd_start)) new"
proof -
  have used: "insert (event_config demo_cmd_event) (command_config ` set [Test (Obj demo_cmd_config)]) =
      {event_config demo_cmd_event, demo_cmd_config}" by simp
  have get: "js_get (event_config demo_cmd_event) k = js_get demo_cmd_config k" if "k \<noteq> ''diagnosticTargetSystem''" for k
    using that by (simp add: event_config_def demo_cmd_event_def demo_cmd_config_def js_get_def)
  have "\<forall>config \<in> {event_config demo_cmd_event, demo_cmd_config}. separable config"
    by (simp add: separable_def getApiPath_def get) (simp add: demo_cmd_config_def js_get_def joined_def nullish_def coalesce_def)
  moreover have "password_texts {event_config demo_cmd_event, demo_cmd_config} = {''p''}"
    by (simp add: password_texts_def login_password_def get) (simp add: demo_cmd_config_def js_get_def coalesce_def nullish_def)
  ultimately show ?thesis
    using cmdbuild_requests_are_authorised [OF used [symmetric], of demo_cmd_env] by simp
qed

theorem expired_session_is_renewed_witness:
  "\<exists>w'. cmd_call demo_cmd_env demo_cmd_config ''GET'' ''/classes'' Undef demo_cmd_world = (Inr (Str ''classes''), w') \<and>
     map_of (cw_sessions w') demo_cmd_key = Some ''new''"
proof -
  have mode: "normalizeAuthMode demo_cmd_config = Inr SessionAuth"
    by (simp add: normalizeAuthMode_def demo_cmd_config_def js_get_def)
  have key: "sessionCacheKey demo_cmd_env demo_cmd_config = Inr demo_cmd_key"
    using mode by (simp add: sessionCacheKey_def demo_cmd_config_def demo_cmd_env_def demo_cmd_key_def js_get_def coalesce_def
        nullish_def strip_slashes_def getApiPath_def joined_def fixedLengthFingerprint_def hmac_bytes_def)
  have tls: "cmd_tls demo_cmd_env demo_cmd_config = Inr None" by (simp add: cmd_tls_def http_tls_def demo_cmd_env_def)
  have "describable demo_cmd_config"
    by (simp add: describable_def defaultGroupSettings_def incomingGroupSettings_def cmd_groupMode_def blank_def demo_cmd_config_def
        js_get_def)
  from expired_session_is_renewed [OF mode key _ tls this refl, of demo_cmd_world "CHR ''o''" "''ld''" "''GET''" "''/classes''" Undef
      "ClientError ''gone'' [(''response'', Obj [(''status'', num 401)])]" 200 "Obj [(''_id'', Str ''new'')]" "''new''",
      OF _ _ _ _ _ refl, of 200 "Str ''classes''"]
  show ?thesis
    by (auto simp: demo_cmd_world_def demo_cmd_env_def demo_cmd_answer_def cmd_request_def login_request_def js_get_def json_headers_def
        isSessionAuthFailure_def response_part_def error_part_def extractSessionId_def session_text_def trim_def)
qed

end
