(* ===== verification/ConsultantConnector.thy ===== *)
theory ConsultantConnector
  imports Encryption HttpKit
begin

text \<open>
  Models \<open>connectors/implementations/consultant-plus-connector/consultant-plus-connector.service.ts\<close>: the
  login of an operator at ConsultantPlus, and the configured requests that manage users. URL parsing, the random
  part of a request and the environment are arguments; a form is the object of its parts.
\<close>

section \<open>State\<close>

text \<open>Which statuses the HTTP client returns instead of throwing.\<close>

datatype status_check = Success_only | Below_400 | Any_status

record cp_request = http_request +
  cq_params :: jsval
  cq_maxRedirects :: jsval
  cq_check :: status_check

record cp_response =
  cr_status :: nat
  cr_headers :: obj
  cr_data :: jsval

type_synonym cp_exchange = "cp_request \<times> cp_response result"

text \<open>
  The calls of the HTTP client with their outcomes, and the requests by which the client itself followed redirects,
  each with the call it belongs to.
\<close>

record cp_world =
  cp_log :: "cp_exchange list"
  cp_hops :: "(cp_request \<times> cp_request) list"

record cp_url =
  cu_text :: string
  cu_protocol :: string
  cu_hostname :: string

text \<open>
  \<open>new URL(text, base)\<close>, without a base for \<open>Undef\<close>. An infinite number of polls ends when the server ends the
  login; the model watches the first \<open>cv_watched\<close> of them. \<open>cv_redirects\<close> are the further requests that a call
  leads to, when the answers redirect it and it does not forbid that with \<open>maxRedirects: 0\<close>; the outcome of the call
  is then that of the last one.
\<close>

record cp_env =
  cv_answer :: "cp_exchange list \<Rightarrow> cp_request \<Rightarrow> cp_response result"
  cv_redirects :: "cp_exchange list \<Rightarrow> cp_request \<Rightarrow> cp_request list"
  cv_tls :: "tls_env option"
  cv_url :: "string \<Rightarrow> jsval \<Rightarrow> cp_url option"
  cv_process :: "string \<Rightarrow> string option"
  cv_platform :: platform
  cv_random :: string
  cv_watched :: nat

definition cp_send :: "cp_env \<Rightarrow> cp_request \<Rightarrow> (cp_response, 'b cp_world_scheme) op" where
  "cp_send env q w =
     (let r = cv_answer env (cp_log w) q;
          followed = (if cq_maxRedirects q = num 0 then [] else cv_redirects env (cp_log w) q) in
      (r, w\<lparr>cp_log := cp_log w @ [(q, r)], cp_hops := cp_hops w @ map (Pair q) followed\<rparr>))"

text \<open>\<open>v.key\<close>\<close>

definition part_of :: "jsval \<Rightarrow> string \<Rightarrow> jsval result" where
  "part_of v k = (if nullish v then Inl type_error else Inr (js_get (as_obj v) k))"

section \<open>Texts\<close>

definition stringValue :: "jsval \<Rightarrow> string option" where
  "stringValue v = (case v of Str (c # s) \<Rightarrow> Some (c # s) | _ \<Rightarrow> None)"

fun opt_val :: "string option \<Rightarrow> jsval" where
  "opt_val None = Undef"
| "opt_val (Some s) = Str s"

definition scalarString :: "cp_env \<Rightarrow> jsval \<Rightarrow> string" where
  "scalarString env v =
     (if nullish v then []
      else case v of
        Arr xs \<Rightarrow> json_print (cv_platform env) v
      | Obj kvs \<Rightarrow> json_print (cv_platform env) v
      | _ \<Rightarrow> string_of_val v)"

definition emailLocalPart :: "string option \<Rightarrow> string option" where
  "emailLocalPart v =
     (case v of None \<Rightarrow> None | Some s \<Rightarrow> if CHR ''@'' \<in> set s then Some (takeWhile (\<lambda>c. c \<noteq> CHR ''@'') s) else None)"

text \<open>The first position where a match is found.\<close>

fun first_match :: "(string \<Rightarrow> 'a option) \<Rightarrow> string \<Rightarrow> 'a option" where
  "first_match m [] = None"
| "first_match m (c # s) = (case m (c # s) of Some x \<Rightarrow> Some x | None \<Rightarrow> first_match m s)"

text \<open>\<open>a\s+b([^"]+)"\<close>\<close>

definition quoted_after :: "string \<Rightarrow> string \<Rightarrow> string \<Rightarrow> string option" where
  "quoted_after a b s =
     (let r = drop (length a) s; ws = takeWhile is_ws r; r1 = drop (length ws) r;
          v = takeWhile (\<lambda>c. c \<noteq> CHR 0x22) (drop (length b) r1) in
      if starts_with a s \<and> ws \<noteq> [] \<and> starts_with b r1 \<and> v \<noteq> [] \<and> drop (length v) (drop (length b) r1) \<noteq> []
      then Some v else None)"

definition dq :: string where
  "dq = [CHR 0x22]"

definition extractCsrf :: "jsval \<Rightarrow> string option result" where
  "extractCsrf html =
     (case html of
        Str s \<Rightarrow>
          Inr (case first_match (quoted_after (''name='' @ dq @ ''client_csrf'' @ dq) (''value='' @ dq)) s of
            Some t \<Rightarrow> Some t
          | None \<Rightarrow> first_match (quoted_after (''name='' @ dq @ ''csrf-token'' @ dq) (''content='' @ dq)) s)
      | _ \<Rightarrow> Inl type_error)"

text \<open>\<open>authStatus["']?\s*:\s*["']?fault\<close> on a text in lower case\<close>

definition drop_quote :: "string \<Rightarrow> string" where
  "drop_quote s = (case s of c # r \<Rightarrow> if c = CHR 0x22 \<or> c = CHR 0x27 then r else s | [] \<Rightarrow> [])"

definition fault_status :: "string \<Rightarrow> bool" where
  "fault_status s \<longleftrightarrow>
     (let r = dropWhile is_ws (drop_quote (drop 10 s)) in
      starts_with ''authstatus'' s \<and> starts_with '':'' r \<and> starts_with ''fault'' (drop_quote (dropWhile is_ws (drop 1 r))))"

definition word_ends :: "string \<Rightarrow> bool" where
  "word_ends s \<longleftrightarrow> (case s of [] \<Rightarrow> True | c # _ \<Rightarrow> \<not> is_word c)"

text \<open>\<open><\s*(err|errdata|error)\b|wrong_account_data|...|\bfault\b\<close>; the flag says whether a word character precedes.\<close>

definition error_text_at :: "bool \<Rightarrow> string \<Rightarrow> bool" where
  "error_text_at w s \<longleftrightarrow>
     starts_with ''<'' s \<and> list_ex (\<lambda>t. starts_with t (dropWhile is_ws (drop 1 s)) \<and>
         word_ends (drop (length t) (dropWhile is_ws (drop 1 s)))) [''err'', ''errdata'', ''error''] \<or>
     starts_with ''wrong_account_data'' s \<or> fault_status s \<or>
     (\<not> w \<and> starts_with ''fault'' s \<and> word_ends (drop 5 s))"

fun found :: "(bool \<Rightarrow> string \<Rightarrow> bool) \<Rightarrow> bool \<Rightarrow> string \<Rightarrow> bool" where
  "found f w [] = False"
| "found f w (c # s) = (f w (c # s) \<or> found f (is_word c) s)"

fun responseHasApplicationError :: "jsval \<Rightarrow> bool" where
  "responseHasApplicationError (Str s) = found error_text_at False (to_lower s)"
| "responseHasApplicationError (Arr xs) = list_ex responseHasApplicationError xs"
| "responseHasApplicationError (Obj kvs) =
     (js_get kvs ''authStatus'' = Str ''fault'' \<or> js_get kvs ''status'' = Str ''fault'' \<or>
      truthy (js_get kvs ''error'') \<and> js_get kvs ''success'' \<noteq> Bool True \<or>
      list_ex (\<lambda>e. responseHasApplicationError (snd e)) kvs)"
| "responseHasApplicationError _ = False"

section \<open>Error texts\<close>

definition token_char :: "char \<Rightarrow> bool" where
  "token_char c \<longleftrightarrow> is_alnum c \<or> c = CHR ''_'' \<or> c = CHR ''-''"

text \<open>A run of at least 24 such characters with a small letter or a digit becomes \<open>[TOKEN]\<close>.\<close>

function mask_tokens :: "string \<Rightarrow> string" where
  "mask_tokens [] = []"
| "mask_tokens (c # s) =
     (if token_char c
      then (let run = takeWhile token_char (c # s) in
        (if 24 \<le> length run \<and> list_ex (\<lambda>x. is_lower x \<or> is_digit10 x) run then ''[TOKEN]'' else run) @
        mask_tokens (dropWhile token_char (c # s)))
      else c # mask_tokens s)"
  by pat_completeness auto
termination
  by (relation "measure length") (auto simp: less_Suc_eq_le length_dropWhile_le)

definition code_char :: "char \<Rightarrow> bool" where
  "code_char c \<longleftrightarrow> is_upper c \<or> is_digit10 c \<or> c \<in> set ''_.:-''"

definition sanitized :: "obj \<Rightarrow> string \<Rightarrow> string" where
  "sanitized config message =
     (let s = fold redact_secret (filter truthy (map (js_get config) [''password'', ''login'', ''protectedOperatorLogin''])) message in
      if s \<noteq> [] \<and> list_all code_char s then s else mask_tokens s)"

definition value_text :: "cp_env \<Rightarrow> jsval \<Rightarrow> string" where
  "value_text env v = (case v of Str s \<Rightarrow> s | Undef \<Rightarrow> ''undefined'' | _ \<Rightarrow> json_print (cv_platform env) v)"

section \<open>Configuration\<close>

definition cp_envValue :: "cp_env \<Rightarrow> jsval \<Rightarrow> jsval" where
  "cp_envValue env name =
     (if \<not> truthy name then Undef
      else case cv_process env (string_of_val name) of Some (c # s) \<Rightarrow> Str (c # s) | _ \<Rightarrow> Undef)"

definition resolveConfig :: "cp_env \<Rightarrow> jsval \<Rightarrow> obj" where
  "resolveConfig env config =
     (let c = spread [] (spread_entries config) in
      spread c [(''login'', coalesce (js_get c ''login'') (cp_envValue env (js_get c ''loginEnv''))),
         (''password'', coalesce (js_get c ''password'') (cp_envValue env (js_get c ''passwordEnv'')))])"

definition protectedOperatorLogin :: "obj \<Rightarrow> jsval" where
  "protectedOperatorLogin config = coalesce (js_get config ''protectedOperatorLogin'') (Str ''1393020'')"

definition host_text :: "jsval \<Rightarrow> string result" where
  "host_text v = (case v of Str s \<Rightarrow> Inr (to_lower (trim s)) | _ \<Rightarrow> Inl type_error)"

definition DEFAULT_CONSULTANT_ALLOWED_HOSTS :: "string list" where
  "DEFAULT_CONSULTANT_ALLOWED_HOSTS = [''login.consultant.ru'', ''cloud.consultant.ru'']"

definition allowedHosts :: "obj \<Rightarrow> string list result" where
  "allowedHosts config =
     (let given = js_get config ''allowedHosts'' in
      if nullish given then Inr DEFAULT_CONSULTANT_ALLOWED_HOSTS
      else case given of
        Arr hs \<Rightarrow> ebind (map_exn host_text hs) (\<lambda>xs. let configured = filter (\<lambda>s. s \<noteq> []) xs in
          Inr (if configured \<noteq> [] then configured else DEFAULT_CONSULTANT_ALLOWED_HOSTS))
      | _ \<Rightarrow> Inl type_error)"

definition isAllowedHost :: "obj \<Rightarrow> string \<Rightarrow> bool result" where
  "isAllowedHost config host = ebind (allowedHosts config) (\<lambda>hs. Inr (to_lower host \<in> set hs))"

definition validateConfiguredUrl :: "cp_env \<Rightarrow> obj \<Rightarrow> jsval \<Rightarrow> string option result" where
  "validateConfiguredUrl env config url =
     (case cv_url env (string_of_val url) Undef of
        None \<Rightarrow> Inr (Some (''Invalid ConsultantPlus URL: '' @ string_of_val url))
      | Some u \<Rightarrow>
          if cu_protocol u \<noteq> ''https:'' then Inr (Some (''ConsultantPlus URL must use https: '' @ string_of_val url))
          else ebind (isAllowedHost config (cu_hostname u)) (\<lambda>ok.
            Inr (if ok then None else Some (''ConsultantPlus host is not allowed: '' @ cu_hostname u))))"

text \<open>\<open>/^https?:\/\//i\<close>\<close>

definition absolute_text :: "string \<Rightarrow> bool" where
  "absolute_text s \<longleftrightarrow> starts_with ''http://'' (to_lower s) \<or> starts_with ''https://'' (to_lower s)"

definition absolute_path_setting :: "string \<times> jsval \<Rightarrow> bool" where
  "absolute_path_setting e =
     (starts_with (rev ''Path'') (rev (fst e)) \<and> (case snd e of Str s \<Rightarrow> absolute_text s | _ \<Rightarrow> False))"

definition validateConfig :: "cp_env \<Rightarrow> obj \<Rightarrow> string option result" where
  "validateConfig env config =
     ebind (validateConfiguredUrl env config (js_get config ''baseUrl'')) (\<lambda>e.
     if e \<noteq> None then Inr e
     else ebind (if truthy (js_get config ''apiBaseUrl'') then validateConfiguredUrl env config (js_get config ''apiBaseUrl'') else Inr None)
       (\<lambda>e'. if e' \<noteq> None then Inr e'
        else Inr (case filter absolute_path_setting config of
          [] \<Rightarrow> None
        | x # _ \<Rightarrow> Some (''ConsultantPlus endpoint path must be relative: '' @ fst x))))"

section \<open>Login\<close>

type_synonym cookie_jar = "(string \<times> string) list"

definition add_cookie :: "jsval \<Rightarrow> cookie_jar \<Rightarrow> cookie_jar result" where
  "add_cookie cookie jar =
     (case cookie of
        Str s \<Rightarrow>
          (let pair = takeWhile (\<lambda>c. c \<noteq> CHR '';'') s; k = takeWhile (\<lambda>c. c \<noteq> CHR ''='') pair in
           Inr (if k = [] \<or> k = pair then jar else map_set k (drop (Suc (length k)) pair) jar))
      | _ \<Rightarrow> Inl type_error)"

fun add_all_cookies :: "jsval list \<Rightarrow> cookie_jar \<Rightarrow> cookie_jar result" where
  "add_all_cookies [] jar = Inr jar"
| "add_all_cookies (c # cs) jar = ebind (add_cookie c jar) (add_all_cookies cs)"

definition addCookies :: "cp_response \<Rightarrow> cookie_jar \<Rightarrow> cookie_jar result" where
  "addCookies r jar =
     (case js_get (cr_headers r) ''set-cookie'' of
        Arr cs \<Rightarrow> add_all_cookies cs jar
      | v \<Rightarrow> if truthy v then add_all_cookies [v] jar else Inr jar)"

definition cookieHeaderFromJar :: "cookie_jar \<Rightarrow> string" where
  "cookieHeaderFromJar jar = join_with ''; '' (map (\<lambda>(k, v). k @ ''='' @ v) jar)"

definition site_url :: "obj \<Rightarrow> string \<Rightarrow> string result" where
  "site_url config path = (case js_get config ''baseUrl'' of Str s \<Rightarrow> Inr (strip_slashes s @ path) | _ \<Rightarrow> Inl type_error)"

definition cp_axiosTlsConfig :: "cp_env \<Rightarrow> obj \<Rightarrow> tls_options option result" where
  "cp_axiosTlsConfig env config =
     (case cv_tls env of
        None \<Rightarrow> Inr None
      | Some t \<Rightarrow> (case js_get config ''baseUrl'' of
          Str s \<Rightarrow> axiosConfig t s (js_get config ''tls'') ''ConsultantPlus''
        | _ \<Rightarrow> Inl type_error))"

definition cp_timeout :: "obj \<Rightarrow> jsval" where
  "cp_timeout config = coalesce (js_get config ''timeout'') (num 15000)"

definition site_request ::
  "obj \<Rightarrow> string \<Rightarrow> string \<Rightarrow> jsval \<Rightarrow> obj \<Rightarrow> jsval \<Rightarrow> status_check \<Rightarrow> tls_options option \<Rightarrow> cp_request" where
  "site_request config method url content headers redirects check tls =
     \<lparr>hr_method = method, hr_url = url, hr_data = content, hr_headers = headers, hr_timeout = cp_timeout config, hr_tls = tls,
      cq_params = Undef, cq_maxRedirects = redirects, cq_check = check\<rparr>"

definition getLoginPage :: "cp_env \<Rightarrow> obj \<Rightarrow> (cp_response, 'b cp_world_scheme) op" where
  "getLoginPage env config =
     sbind (lift_result (site_url config ''/'')) (\<lambda>url.
     sbind (lift_result (cp_axiosTlsConfig env config)) (\<lambda>tls.
     cp_send env (site_request config ''GET'' url Undef [] Undef Success_only tls)))"

definition or_empty :: "jsval \<Rightarrow> jsval" where
  "or_empty v = Str (string_of_val (coalesce v (Str [])))"

definition login_form :: "obj \<Rightarrow> string \<Rightarrow> jsval" where
  "login_form config csrf =
     Obj [(''client_csrf'', Str csrf), (''LoginForm[login]'', or_empty (js_get config ''login'')),
       (''LoginForm[password]'', or_empty (js_get config ''password'')), (''LoginForm[rememberMe]'', Str ''1'')]"

definition startLogin :: "cp_env \<Rightarrow> obj \<Rightarrow> string \<Rightarrow> cookie_jar \<Rightarrow> (jsval \<times> cookie_jar, 'b cp_world_scheme) op" where
  "startLogin env config csrf jar =
     sbind (lift_result (site_url config ''/login/'')) (\<lambda>url.
     sbind (lift_result (cp_axiosTlsConfig env config)) (\<lambda>tls.
     sbind (cp_send env (site_request config ''POST'' url (login_form config csrf)
       [(''Cookie'', Str (cookieHeaderFromJar jar)), (''X-CSRF-Token'', Str csrf), (''X-Requested-With'', Str ''XMLHttpRequest'')]
       Undef Success_only tls)) (\<lambda>r.
     sbind (lift_result (addCookies r jar)) (\<lambda>jar'. ret (cr_data r, jar')))))"

definition auth_fault :: "string \<Rightarrow> obj" where
  "auth_fault code = [(''authStatus'', Str ''fault''), (''error'', Obj [(''code'', Str code)])]"

definition isAuthStatus :: "jsval \<Rightarrow> bool" where
  "isAuthStatus v \<longleftrightarrow>
     (case v of
        Obj kvs \<Rightarrow> (\<exists>k \<in> set [''authStatus'', ''pid'']. case js_get kvs k of Str _ \<Rightarrow> True | _ \<Rightarrow> False) \<or> truthy (js_get kvs ''error'')
      | _ \<Rightarrow> False)"

definition auth_text_status :: "cp_env \<Rightarrow> string \<Rightarrow> obj" where
  "auth_text_status env s =
     (case json_parse (cv_platform env) s of
        Some v \<Rightarrow> if isAuthStatus v then as_obj v else auth_fault ''UNEXPECTED_AUTH_RESPONSE''
      | None \<Rightarrow>
          if found (\<lambda>_ t. starts_with ''wrong_password'' t \<or> fault_status t) False (to_lower s)
          then auth_fault ''WRONG_PASSWORD'' else auth_fault ''UNEXPECTED_AUTH_RESPONSE'')"

definition authStatusFromResponse :: "cp_env \<Rightarrow> cp_response \<Rightarrow> obj" where
  "authStatusFromResponse env r =
     (let location = js_get (cr_headers r) ''location'' in
      if 300 \<le> cr_status r \<and> cr_status r < 400
      then (case stringValue (case location of Arr (x # _) \<Rightarrow> x | Arr [] \<Rightarrow> Undef | v \<Rightarrow> v) of
          None \<Rightarrow> auth_fault ''MISSING_AUTH_REDIRECT_LOCATION''
        | Some u \<Rightarrow> [(''authStatus'', Str ''redirect''), (''returnUrl'', Str u)])
      else if isAuthStatus (cr_data r) then as_obj (cr_data r)
      else case cr_data r of Str s \<Rightarrow> auth_text_status env s | _ \<Rightarrow> auth_fault ''UNEXPECTED_AUTH_RESPONSE'')"

text \<open>One poll of the login, and at most so many of them.\<close>

definition poll_once :: "cp_env \<Rightarrow> obj \<Rightarrow> jsval \<Rightarrow> cookie_jar \<Rightarrow> (obj \<times> cookie_jar, 'b cp_world_scheme) op" where
  "poll_once env config pid jar =
     sbind (lift_result (site_url config (''/auth/?pid='' @ encodeURIComponent (string_of_val pid)))) (\<lambda>url.
     sbind (lift_result (cp_axiosTlsConfig env config)) (\<lambda>tls.
     sbind (cp_send env (site_request config ''GET'' url Undef [(''Cookie'', Str (cookieHeaderFromJar jar))] (num 0) Below_400 tls)) (\<lambda>r.
     sbind (lift_result (addCookies r jar)) (\<lambda>jar'. ret (authStatusFromResponse env r, jar')))))"

fun poll_login :: "cp_env \<Rightarrow> obj \<Rightarrow> jsval \<Rightarrow> nat \<Rightarrow> jsval \<Rightarrow> cookie_jar \<Rightarrow> (jsval \<times> cookie_jar, 'b cp_world_scheme) op" where
  "poll_login env config pid 0 current jar = ret (current, jar)"
| "poll_login env config pid (Suc n) current jar =
     sbind (poll_once env config pid jar) (\<lambda>(status, jar').
     if js_get status ''authStatus'' \<noteq> Str ''started'' then ret (Obj status, jar')
     else poll_login env config pid n (Obj status) jar')"

text \<open>How often \<open>i < Math.max(1, v)\<close> holds for \<open>i\<close> from 0.\<close>

definition poll_attempts :: "cp_env \<Rightarrow> jsval \<Rightarrow> nat" where
  "poll_attempts env v =
     (case number_of_val v of Fin r \<Rightarrow> nat \<lceil>max 1 r\<rceil> | NegInf \<Rightarrow> 1 | NaN \<Rightarrow> 0 | PosInf \<Rightarrow> cv_watched env)"

definition resolveAuthStatus :: "cp_env \<Rightarrow> obj \<Rightarrow> jsval \<Rightarrow> cookie_jar \<Rightarrow> (jsval \<times> cookie_jar, 'b cp_world_scheme) op" where
  "resolveAuthStatus env config initial jar =
     sbind (lift_result (part_of initial ''authStatus'')) (\<lambda>status.
     if status \<noteq> Str ''started'' \<or> \<not> truthy (js_get (as_obj initial) ''pid'') then ret (initial, jar)
     else poll_login env config (js_get (as_obj initial) ''pid'')
       (poll_attempts env (coalesce (js_get config ''authPollAttempts'') (num 12))) initial jar)"

definition allowedAbsoluteUrl :: "cp_env \<Rightarrow> obj \<Rightarrow> string \<Rightarrow> jsval \<Rightarrow> string result" where
  "allowedAbsoluteUrl env config path base =
     (case cv_url env path base of
        None \<Rightarrow> Inl (JsError ''Invalid URL'')
      | Some u \<Rightarrow> (case cv_url env (cu_text u) Undef of
          None \<Rightarrow> Inl (JsError ''Invalid URL'')
        | Some parsed \<Rightarrow>
            ebind (if cu_protocol parsed \<noteq> ''https:'' then Inr False else isAllowedHost config (cu_hostname parsed)) (\<lambda>ok.
            if ok then Inr (cu_text u) else Inl (JsError (''ConsultantPlus host is not allowed: '' @ cu_hostname parsed)))))"

definition followAuthReturnUrl :: "cp_env \<Rightarrow> obj \<Rightarrow> jsval \<Rightarrow> cookie_jar \<Rightarrow> (cookie_jar, 'b cp_world_scheme) op" where
  "followAuthReturnUrl env config returnUrl jar =
     sbind (lift_result (allowedAbsoluteUrl env config (string_of_val returnUrl) (js_get config ''baseUrl''))) (\<lambda>url.
     sbind (lift_result (cp_axiosTlsConfig env config)) (\<lambda>tls.
     sbind (cp_send env (site_request config ''GET'' url Undef [(''Cookie'', Str (cookieHeaderFromJar jar))] Undef Below_400 tls)) (\<lambda>r.
     lift_result (addCookies r jar))))"

record cp_session =
  cs_csrf :: jsval
  cs_cookies :: string
  cs_authenticated :: bool

definition operator_session :: "jsval \<Rightarrow> string \<Rightarrow> cookie_jar \<Rightarrow> cp_session" where
  "operator_session status csrf jar =
     \<lparr>cs_csrf = coalesce (js_get (as_obj status) ''newCsrfToken'') (Str csrf), cs_cookies = cookieHeaderFromJar jar, cs_authenticated = True\<rparr>"

definition login_code :: "jsval \<Rightarrow> jsval" where
  "login_code status =
     (let s = as_obj status in
      coalesce (coalesce (js_get (as_obj (js_get s ''error'')) ''code'') (js_get s ''authStatus'')) (Str ''fault''))"

definition finish_login :: "cp_env \<Rightarrow> obj \<Rightarrow> string \<Rightarrow> jsval \<Rightarrow> cookie_jar \<Rightarrow> (cp_session, 'b cp_world_scheme) op" where
  "finish_login env config csrf status jar =
     (let s = as_obj status in
      if js_get s ''authStatus'' = Str ''successful'' then ret (operator_session status csrf jar)
      else if js_get s ''authStatus'' = Str ''redirect'' \<and> truthy (js_get s ''returnUrl'')
      then sbind (followAuthReturnUrl env config (js_get s ''returnUrl'') jar) (\<lambda>jar'. ret (operator_session status csrf jar'))
      else raise (JsError (''ConsultantPlus login failed: '' @ sanitized config (value_text env (login_code status)))))"

definition no_csrf :: string where
  "no_csrf = ''ConsultantPlus login page reachable but CSRF token not found''"

definition no_credentials :: string where
  "no_credentials = ''Missing ConsultantPlus config (login or password)''"

definition authenticate :: "cp_env \<Rightarrow> obj \<Rightarrow> (cp_session, 'b cp_world_scheme) op" where
  "authenticate env config =
     (let login = truthy (js_get config ''login''); password = truthy (js_get config ''password'') in
      sbind (getLoginPage env config) (\<lambda>page.
      sbind (lift_result (addCookies page [])) (\<lambda>jar.
      sbind (lift_result (extractCsrf (cr_data page))) (\<lambda>csrf.
      case csrf of
        None \<Rightarrow> raise (JsError no_csrf)
      | Some t \<Rightarrow>
          if \<not> login \<and> \<not> password then ret \<lparr>cs_csrf = Str t, cs_cookies = cookieHeaderFromJar jar, cs_authenticated = False\<rparr>
          else if \<not> login \<or> \<not> password then raise (JsError no_credentials)
          else sbind (startLogin env config t jar) (\<lambda>(initial, jar1).
            sbind (resolveAuthStatus env config initial jar1) (\<lambda>(final, jar2).
            finish_login env config t final jar2))))))"

section \<open>Values of a user\<close>

definition PASSWORD_FIELD :: "string \<Rightarrow> bool" where
  "PASSWORD_FIELD k \<longleftrightarrow> to_lower k \<in> {''password'', ''pwd'', ''newvalue''}"

fun hasPasswordFields :: "jsval \<Rightarrow> bool" where
  "hasPasswordFields (Arr xs) = list_ex hasPasswordFields xs"
| "hasPasswordFields (Obj kvs) = list_ex (\<lambda>e. PASSWORD_FIELD (fst e) \<or> hasPasswordFields (snd e)) kvs"
| "hasPasswordFields _ = False"

definition recordPayload :: "connector_payload \<Rightarrow> string \<Rightarrow> obj" where
  "recordPayload p k = as_obj (js_get (body p) k)"

fun first_some :: "'a option list \<Rightarrow> 'a option" where
  "first_some [] = None"
| "first_some (x # xs) = (case x of None \<Rightarrow> first_some xs | Some v \<Rightarrow> Some v)"

definition first_text :: "obj \<Rightarrow> string list \<Rightarrow> string option" where
  "first_text d ks = first_some (map (\<lambda>k. stringValue (js_get d k)) ks)"

definition managed_prefix :: "obj \<Rightarrow> jsval" where
  "managed_prefix config =
     coalesce (coalesce (coalesce (js_get config ''managedLoginPrefix'') (js_get config ''login'')) (js_get config ''protectedOperatorLogin''))
       (protectedOperatorLogin config)"

definition userValues :: "cp_env \<Rightarrow> obj \<Rightarrow> obj \<Rightarrow> obj" where
  "userValues env d config =
     (let email = first_text d [''email''];
          username = first_some [first_text d [''username'', ''login''], email];
          pureLogin = first_some [first_text d [''pureLogin'', ''loginName''], emailLocalPart username, username];
          login = first_some [first_text d [''login''], username];
          lastName = first_text d [''lastName'', ''surname'', ''familyName''];
          firstName = first_text d [''firstName'', ''givenName''];
          middleName = first_text d [''middleName'', ''patronymic''];
          fio = Str (or_else (first_text d [''fio'', ''fullName''])
            (join_with '' '' (present [firstName, middleName, lastName])));
          managed = (case first_text d [''managedLogin''] of
            Some m \<Rightarrow> Some m
          | None \<Rightarrow> (case pureLogin of Some (c # s) \<Rightarrow> Some (string_of_val (managed_prefix config) @ ''#'' @ c # s) | _ \<Rightarrow> None)) in
      spread (spread [] d)
        [(''rnd'', Str (or_else (first_text d [''rnd'']) (cv_random env))), (''username'', opt_val username),
         (''login'', opt_val login), (''email'', opt_val email), (''pureLogin'', opt_val pureLogin), (''loginName'', opt_val pureLogin),
         (''managedLoginPrefix'', managed_prefix config), (''managedLogin'', opt_val managed), (''lastName'', opt_val lastName),
         (''firstName'', opt_val firstName), (''middleName'', opt_val middleName), (''fio'', fio), (''fullName'', fio)])"

definition login_fields :: "string list" where
  "login_fields = [''login'', ''username'', ''id'', ''userId'', ''email'', ''pureLogin'', ''loginName'', ''managedLogin'']"

text \<open>A value, what stands before its \<open>@\<close>, and its last part behind a \<open>#\<close>.\<close>

definition candidates_of :: "string \<Rightarrow> string list" where
  "candidates_of v =
     v # (case emailLocalPart (Some v) of Some (c # s) \<Rightarrow> [c # s] | _ \<Rightarrow> []) @
     (if CHR ''#'' \<in> set v
      then (case filter (\<lambda>s. s \<noteq> []) (split_on (CHR ''#'') v) of [] \<Rightarrow> [] | parts \<Rightarrow> [last parts]) else [])"

definition protectedTargetCandidates :: "obj \<Rightarrow> string list" where
  "protectedTargetCandidates values =
     concat (map (\<lambda>k. case stringValue (js_get values k) of None \<Rightarrow> [] | Some v \<Rightarrow> candidates_of v) login_fields)"

definition touchesProtectedOperator :: "obj \<Rightarrow> obj \<Rightarrow> bool" where
  "touchesProtectedOperator values config \<longleftrightarrow>
     list_ex (\<lambda>v. Str v = protectedOperatorLogin config) (protectedTargetCandidates values)"

definition missingRequiredValues :: "string \<Rightarrow> obj \<Rightarrow> string list" where
  "missingRequiredValues op values =
     (let lacks = (\<lambda>k. stringValue (js_get values k) = None) in
      if op = ''user.create'' then filter lacks [''pureLogin'', ''email'']
      else if op \<in> {''user.update'', ''user.changePassword''} then filter lacks [''managedLogin'', ''email'']
      else if op \<in> {''user.delete'', ''user.disable'', ''user.lock''}
      then (if list_all lacks [''managedLogin'', ''id'', ''userId''] then [''managedLogin''] else [])
      else [])"

definition no_caller_passwords :: string where
  "no_caller_passwords =
     ''ConsultantPlus does not accept caller-provided password fields; password is generated and delivered by email''"

definition validateManagedUserOperation :: "string \<Rightarrow> obj \<Rightarrow> obj \<Rightarrow> obj list \<Rightarrow> string option" where
  "validateManagedUserOperation op values config payloads =
     (if list_ex (\<lambda>p. hasPasswordFields (Obj p)) payloads then Some no_caller_passwords
      else if touchesProtectedOperator values config
      then Some (''Refusing to operate on protected ConsultantPlus operator login '' @ string_of_val (protectedOperatorLogin config))
      else if missingRequiredValues op values \<noteq> []
      then Some (''Missing ConsultantPlus '' @ op @ '' value(s): '' @ join_with '', '' (missingRequiredValues op values))
      else None)"

section \<open>Templates\<close>

definition key_char :: "char \<Rightarrow> bool" where
  "key_char c \<longleftrightarrow> is_alnum c \<or> c \<in> set ''_.-''"

text \<open>A key in braces behind \<open>start\<close>, with what follows it.\<close>

definition braced :: "string \<Rightarrow> string \<Rightarrow> (string \<times> string) option" where
  "braced start s =
     (let r = drop (length start) s; k = takeWhile key_char r; rest = drop (length k) r in
      if starts_with start s \<and> k \<noteq> [] \<and> starts_with ''}'' rest then Some (k, drop 1 rest) else None)"

lemma braced_shorter: "braced start s = Some (k, r) \<Longrightarrow> length r < length s"
  by (cases s) (auto simp: braced_def Let_def starts_with_def split: if_splits)

function fill_in :: "string \<Rightarrow> (string \<Rightarrow> string) \<Rightarrow> string \<Rightarrow> string" where
  "fill_in start f [] = []"
| "fill_in start f (c # s) =
     (case braced start (c # s) of None \<Rightarrow> c # fill_in start f s | Some (k, r) \<Rightarrow> f k @ fill_in start f r)"
  by pat_completeness auto
termination
  by (relation "measure (\<lambda>(start, f, s). length s)") (auto dest: braced_shorter)

function keys_in :: "string \<Rightarrow> string \<Rightarrow> string list" where
  "keys_in start [] = []"
| "keys_in start (c # s) =
     (case braced start (c # s) of None \<Rightarrow> keys_in start s | Some (k, r) \<Rightarrow> k # keys_in start r)"
  by pat_completeness auto
termination
  by (relation "measure (\<lambda>(start, s). length s)") (auto dest: braced_shorter)

fun templateReferencesPassword :: "jsval \<Rightarrow> bool" where
  "templateReferencesPassword (Str s) = list_ex (\<lambda>t. occurs_in t (to_lower s)) [''${password}'', ''${pwd}'', ''${newvalue}'']"
| "templateReferencesPassword (Arr xs) = list_ex templateReferencesPassword xs"
| "templateReferencesPassword (Obj kvs) = list_ex (\<lambda>e. PASSWORD_FIELD (fst e) \<or> templateReferencesPassword (snd e)) kvs"
| "templateReferencesPassword _ = False"

fun renderTemplateValue :: "cp_env \<Rightarrow> obj \<Rightarrow> jsval \<Rightarrow> jsval" where
  "renderTemplateValue env vals (Str s) =
     (case braced ''${'' s of
        Some (k, []) \<Rightarrow> js_get vals k
      | _ \<Rightarrow> Str (fill_in ''${'' (\<lambda>k. scalarString env (js_get vals k)) s))"
| "renderTemplateValue env vals (Arr xs) = Arr (map (renderTemplateValue env vals) xs)"
| "renderTemplateValue env vals (Obj kvs) = Obj (map (\<lambda>e. (fst e, renderTemplateValue env vals (snd e))) kvs)"
| "renderTemplateValue env vals v = v"

definition removeUndefined :: "obj \<Rightarrow> obj" where
  "removeUndefined kvs = filter (\<lambda>e. snd e \<noteq> Undef) kvs"

definition renderPayloadTemplate :: "cp_env \<Rightarrow> jsval \<Rightarrow> obj \<Rightarrow> obj \<Rightarrow> obj" where
  "renderPayloadTemplate env template vals fallback =
     (if \<not> truthy template then removeUndefined fallback
      else removeUndefined (as_obj (renderTemplateValue env vals template)))"

definition renderPathTemplate :: "cp_env \<Rightarrow> jsval \<Rightarrow> obj \<Rightarrow> string result" where
  "renderPathTemplate env path vals =
     (case path of
        Str s \<Rightarrow>
          (let missing = unique (filter (\<lambda>k. blank (js_get vals k)) (keys_in ''{'' s)) in
           if missing \<noteq> [] then Inl (JsError (''Missing ConsultantPlus path parameter(s): '' @ join_with '', '' missing))
           else Inr (fill_in ''{'' (\<lambda>k. encodeURIComponent (scalarString env (js_get vals k))) s))
      | _ \<Rightarrow> Inl type_error)"

definition withoutPasswordValues :: "obj \<Rightarrow> obj" where
  "withoutPasswordValues vals = filter (\<lambda>e. \<not> PASSWORD_FIELD (fst e)) vals"

definition defaultCloudUserPayload :: "obj \<Rightarrow> obj" where
  "defaultCloudUserPayload vals =
     removeUndefined [(''login'', js_get vals ''pureLogin''), (''email'', js_get vals ''email''),
       (''fio'', coalesce (js_get vals ''fullName'') (js_get vals ''fio''))]"

definition defaultManagedCloudUserPayload :: "obj \<Rightarrow> obj" where
  "defaultManagedCloudUserPayload vals = removeUndefined (js_set ''login'' (js_get vals ''managedLogin'') (defaultCloudUserPayload vals))"

definition defaultDeletePayload :: "obj \<Rightarrow> obj" where
  "defaultDeletePayload vals = removeUndefined [(''logins'', js_get vals ''managedLogin'')]"

section \<open>Configured requests\<close>

definition requestBody :: "cp_env \<Rightarrow> obj \<Rightarrow> jsval \<Rightarrow> jsval" where
  "requestBody env content contentType =
     (if contentType = Str ''json'' then Obj content
      else Str (form_query (map (\<lambda>(k, v). (k, scalarString env v)) content)))"

definition contentTypeHeader :: "jsval \<Rightarrow> string" where
  "contentTypeHeader contentType =
     (if contentType = Str ''form'' then ''application/x-www-form-urlencoded; charset=UTF-8'' else ''application/json'')"

definition apiUrl :: "cp_env \<Rightarrow> obj \<Rightarrow> string \<Rightarrow> string result" where
  "apiUrl env config path =
     (if absolute_text path then Inl (JsError ''ConsultantPlus endpoint path must be relative'')
      else case coalesce (js_get config ''apiBaseUrl'') (js_get config ''baseUrl'') of
        Str b \<Rightarrow> (let base = strip_slashes b in
          allowedAbsoluteUrl env config (base @ ''/'' @ dropWhile (\<lambda>c. c = CHR ''/'') path) (Str base))
      | _ \<Rightarrow> Inl type_error)"

definition api_headers :: "cp_session \<Rightarrow> jsval \<Rightarrow> obj" where
  "api_headers s contentType =
     [(''Accept'', Str ''application/json, text/xml, application/xml, text/plain, */*''),
      (''Content-Type'', Str (contentTypeHeader contentType)), (''Cookie'', Str (cs_cookies s)),
      (''X-CSRF-Token'', cs_csrf s), (''X-Requested-With'', Str ''XMLHttpRequest'')]"

definition api_request ::
  "cp_env \<Rightarrow> obj \<Rightarrow> cp_session \<Rightarrow> string \<Rightarrow> string \<Rightarrow> jsval \<Rightarrow> obj \<Rightarrow> tls_options option \<Rightarrow> cp_request" where
  "api_request env config s url method contentType content tls =
     \<lparr>hr_method = method, hr_url = url,
      hr_data = (if method = ''GET'' then Undef else requestBody env content contentType),
      hr_headers = api_headers s contentType, hr_timeout = cp_timeout config, hr_tls = tls,
      cq_params = (if method = ''GET'' then Obj content else Undef), cq_maxRedirects = Undef, cq_check = Any_status\<rparr>"

definition endpoint_answer :: "cp_env \<Rightarrow> obj \<Rightarrow> string \<Rightarrow> cp_response \<Rightarrow> connector_result" where
  "endpoint_answer env config op r =
     (let cause = sanitized config (value_text env (cr_data r)) in
      if 200 \<le> cr_status r \<and> cr_status r < 300
      then (if responseHasApplicationError (cr_data r)
        then result_fail (''ConsultantPlus '' @ op @ '' failed with application error: '' @ cause)
        else result_ok (Obj [(''status'', num (of_nat (cr_status r)))]))
      else result_fail (''ConsultantPlus '' @ op @ '' failed with HTTP '' @ nat_digits (cr_status r) @ '': '' @ cause))"

definition callConfiguredEndpoint ::
  "cp_env \<Rightarrow> obj \<Rightarrow> string \<Rightarrow> string \<Rightarrow> jsval \<Rightarrow> jsval \<Rightarrow> obj \<Rightarrow> (connector_result, 'b cp_world_scheme) op" where
  "callConfiguredEndpoint env config op path method contentType content =
     (case method of
        Str m \<Rightarrow> catch_op
          (sbind (authenticate env config) (\<lambda>s.
           if \<not> cs_authenticated s then ret (result_fail (''ConsultantPlus operator login is required for '' @ op))
           else sbind (lift_result (apiUrl env config path)) (\<lambda>url.
             sbind (lift_result (cp_axiosTlsConfig env config)) (\<lambda>tls.
             sbind (cp_send env (api_request env config s url (to_upper m) contentType content tls)) (\<lambda>r.
             ret (endpoint_answer env config op r))))))
          (\<lambda>e. ret (result_fail (''ConsultantPlus '' @ op @ '' failed: '' @ sanitized config (exn_message e))))
      | _ \<Rightarrow> raise type_error)"

text \<open>\<open>prefix\<close> is the part of the names of the settings that tells the operations apart.\<close>

definition callConfiguredUserEndpoint ::
  "cp_env \<Rightarrow> obj \<Rightarrow> string \<Rightarrow> string \<Rightarrow> obj \<Rightarrow> obj \<Rightarrow> (connector_result, 'b cp_world_scheme) op" where
  "callConfiguredUserEndpoint env config op kind fallback vals =
     (let setting = (\<lambda>k. js_get config (kind @ k)) in
      if \<not> truthy (setting ''Path'') then ret (result_fail (''Missing ConsultantPlus config ('' @ kind @ ''Path)''))
      else if templateReferencesPassword (setting ''Payload'') then ret (result_fail no_caller_passwords)
      else case renderPathTemplate env (setting ''Path'') vals of
        Inl e \<Rightarrow> ret (result_fail (sanitized config (exn_message e)))
      | Inr path \<Rightarrow>
          callConfiguredEndpoint env config op path (coalesce (setting ''Method'') (Str ''POST''))
            (coalesce (setting ''ContentType'') (Str ''json''))
            (renderPayloadTemplate env (setting ''Payload'') vals fallback))"

definition withEmailPasswordDelivery :: "connector_result \<Rightarrow> obj \<Rightarrow> string \<Rightarrow> connector_result" where
  "withEmailPasswordDelivery r vals action =
     (if \<not> success r then r
      else r\<lparr>result_data := Obj (spread (case result_data r of Obj kvs \<Rightarrow> kvs | v \<Rightarrow> [(''response'', v)])
        [(''managedLogin'', js_get vals ''managedLogin''), (''email'', js_get vals ''email''), (''passwordAction'', Str action),
         (''passwordDelivery'', Str ''email''), (''passwordKnown'', Bool False)])\<rparr>)"

definition event_values :: "cp_env \<Rightarrow> connector_payload \<Rightarrow> obj \<Rightarrow> obj" where
  "event_values env p config =
     (let d = recordPayload p ''data'' in
      userValues env (if operation p = ''user.create'' then d else spread (spread [] (recordPayload p ''params'')) d) config)"

definition event_payloads :: "connector_payload \<Rightarrow> obj list" where
  "event_payloads p =
     (if operation p = ''user.create'' then [recordPayload p ''data''] else [recordPayload p ''params'', recordPayload p ''data''])"

text \<open>An operation on users: the settings it uses, and the body without a template.\<close>

definition managed_operation ::
  "cp_env \<Rightarrow> connector_payload \<Rightarrow> obj \<Rightarrow> string \<Rightarrow> (obj \<Rightarrow> obj) \<Rightarrow> string option \<Rightarrow> (connector_result, 'b cp_world_scheme) op" where
  "managed_operation env p config kind fallback action =
     (let vals = event_values env p config; clean = withoutPasswordValues vals in
      case validateManagedUserOperation (operation p) vals config (event_payloads p) of
        Some m \<Rightarrow> ret (result_fail m)
      | None \<Rightarrow>
          sbind (callConfiguredUserEndpoint env config (operation p) kind (fallback clean) clean) (\<lambda>r.
          ret (case action of Some a \<Rightarrow> withEmailPasswordDelivery r clean a | None \<Rightarrow> r)))"

definition createUser :: "cp_env \<Rightarrow> connector_payload \<Rightarrow> obj \<Rightarrow> (connector_result, 'b cp_world_scheme) op" where
  "createUser env p config =
     (if \<not> truthy (js_get config ''userCreatePath'') then ret (result_fail ''Missing ConsultantPlus config (userCreatePath)'')
      else managed_operation env p config ''userCreate'' removeUndefined (Some ''create''))"

section \<open>The connector\<close>

definition CONSULTANT_CONFIGURED_WRITE_OPERATIONS :: "string list" where
  "CONSULTANT_CONFIGURED_WRITE_OPERATIONS =
     [''user.create'', ''user.update'', ''user.delete'', ''user.disable'', ''user.lock'', ''user.changePassword'']"

definition CONSULTANT_UNSUPPORTED_REASON :: string where
  "CONSULTANT_UNSUPPORTED_REASON =
     ''ConsultantPlus user-management surface is limited to explicitly configured create/update/password-reset/block/delete '' @
     ''cloud admin endpoints; read/search/enable/unlock/group/sync operations remain unsupported.''"

definition CONSULTANT_UNSUPPORTED_OPERATIONS :: "(string \<times> string) list" where
  "CONSULTANT_UNSUPPORTED_OPERATIONS =
     map (\<lambda>op. (op, CONSULTANT_UNSUPPORTED_REASON))
       (filter (\<lambda>op. op \<notin> {''schema.get'', ''system.test''} \<and> op \<notin> set CONSULTANT_CONFIGURED_WRITE_OPERATIONS) AVANPOST_OPERATIONS)"

definition CONSULTANT_PARTIAL_OPERATIONS :: "(string \<times> string) list" where
  "CONSULTANT_PARTIAL_OPERATIONS =
     [(''schema.get'', ''Returns locally documented login/session surface, not a ConsultantPlus user-management API schema.''),
      (''system.test'', ''Checks login.consultant.ru reachability and optional operator login only.''),
      (''user.create'', ''Executes only an explicitly configured create endpoint discovered outside the connector.''),
      (''user.update'', ''Executes only an explicitly configured update endpoint discovered outside the connector.''),
      (''user.delete'', ''Executes only an explicitly configured delete endpoint discovered outside the connector.''),
      (''user.disable'', ''Executes only an explicitly configured block endpoint discovered outside the connector.''),
      (''user.lock'', ''Executes only an explicitly configured block endpoint discovered outside the connector.''),
      (''user.changePassword'', ''Executes only an explicitly configured ConsultantPlus password reset endpoint; '' @
        ''the generated password is delivered by ConsultantPlus email and is not known to idmMw.'')]"

definition cp_capabilities :: connector_capabilities where
  "cp_capabilities =
     \<lparr>cap_operations = AVANPOST_OPERATIONS, cap_readOperations = READ_OPERATIONS, cap_writeOperations = WRITE_OPERATIONS,
      cap_flags = \<lparr>supportsRead = False, supportsWrite = True, supportsSync = False, supportsIncrementalSync = False, supportsSchema = True\<rparr>,
      cap_operationStatus = map (\<lambda>op. (op,
        case map_of CONSULTANT_UNSUPPORTED_OPERATIONS op of
          Some r \<Rightarrow> Unsupported r
        | None \<Rightarrow> (case map_of CONSULTANT_PARTIAL_OPERATIONS op of Some r \<Rightarrow> Partial r | None \<Rightarrow> Implemented))) AVANPOST_OPERATIONS,
      cap_partialOperations = Some CONSULTANT_PARTIAL_OPERATIONS\<rparr>"

definition observed :: "string \<Rightarrow> string \<Rightarrow> string \<Rightarrow> jsval" where
  "observed method path purpose = Obj [(''method'', Str method), (''path'', Str path), (''purpose'', Str purpose)]"

definition cp_notes :: "string list" where
  "cp_notes =
     [''ConsultantPlus user create, update, password-reset, block and delete operations require explicitly configured cloud admin endpoint paths.'',
      ''Authenticated cloud admin surface observed on 2026-07-07: GET admusrlist uses query parameters; POST admadd, admupd, '' @
        ''admdismiss and admdel use https://cloud.consultant.ru/cloud/cgi/online.cgi? with req/op/rnd in form body.'',
      ''Create uses pureLogin; update/password-reset and block/delete use managedLogin in the <operator>#<pureLogin> format for the checked tenant.'',
      ''ConsultantPlus generates user passwords and delivers them by email; idmMw does not know or store managed-user passwords.'',
      ''Observed public surface is login/session oriented: CSRF-protected async login, auth polling, user-info and agreement check.'',
      ''Read/search/enable/unlock/group/sync operations are intentionally unsupported.'',
      ''Do not automate browser DOM flows as a production idmMw connector without a separate design decision.'']"

definition cp_localSchema :: jsval where
  "cp_localSchema =
     (let online = ''https://cloud.consultant.ru/cloud/cgi/online.cgi?'' in
      Obj [(''objectClasses'', Arr [Obj [(''name'', Str ''user''), (''attributes'', Arr
          [attribute ''username'' ''string'' True False, attribute ''email'' ''string'' True False,
           attribute ''lastName'' ''string'' False False, attribute ''firstName'' ''string'' False False,
           attribute ''middleName'' ''string'' False False, attribute ''pureLogin'' ''string'' False False,
           attribute ''managedLogin'' ''string'' False False])]]),
        (''notes'', Arr (map Str cp_notes)),
        (''observedEndpoints'', Arr
          [observed ''GET'' ''/'' ''Login form and CSRF token bootstrap'',
           observed ''POST'' ''/login/'' ''Async login start; returns authStatus and pid'',
           observed ''GET'' ''/auth/?pid=<pid>'' ''Async login status polling'',
           observed ''GET'' ''/check-agreement/?login=<login>'' ''License agreement requirement check'',
           observed ''GET'' ''/user-info/'' ''Current browser session status and CSRF refresh'',
           observed ''GET'' (online @ ''req=admin&op=admusrlist'') ''Authenticated cloud admin user list used for manual verification only'',
           observed ''POST'' online ''Authenticated cloud admin create user form endpoint; body includes req=admin, op=admadd and rnd'',
           observed ''POST'' online (''Authenticated cloud admin update user and password reset form endpoint; '' @
             ''body includes req=admin, op=admupd, rnd and managed login''),
           observed ''POST'' online ''Authenticated cloud admin block/dismiss user form endpoint; body includes req=admin, op=admdismiss and rnd'',
           observed ''POST'' online ''Authenticated cloud admin delete user form endpoint; body includes req=admin, op=admdel and rnd''])])"

definition session_test :: "obj \<Rightarrow> cp_session \<Rightarrow> bool \<times> string" where
  "session_test config s =
     (let login = truthy (js_get config ''login''); password = truthy (js_get config ''password'') in
      if \<not> truthy (cs_csrf s) then (False, no_csrf)
      else if \<not> login \<and> \<not> password then (True, ''ConsultantPlus login page reachable'')
      else if \<not> login \<or> \<not> password then (False, no_credentials)
      else if cs_authenticated s then (True, ''ConsultantPlus operator login succeeded'')
      else (False, ''ConsultantPlus login failed: fault''))"

definition test_failure :: "obj \<Rightarrow> exn \<Rightarrow> bool \<times> string" where
  "test_failure config e =
     (let m = sanitized config (exn_message e) in
      if m = no_csrf \<or> m = no_credentials \<or> starts_with ''ConsultantPlus login failed:'' m then (False, m)
      else (False, ''ConsultantPlus connection failed: '' @ m))"

definition cp_testConnection :: "cp_env \<Rightarrow> jsval \<Rightarrow> (bool \<times> string, 'b cp_world_scheme) op" where
  "cp_testConnection env cfg =
     (let config = resolveConfig env cfg in
      if \<not> truthy (js_get config ''baseUrl'') then ret (False, ''Missing baseUrl in config'')
      else sbind (lift_result (validateConfig env config)) (\<lambda>e.
        case e of
          Some m \<Rightarrow> ret (False, m)
        | None \<Rightarrow> catch_op (sbind (authenticate env config) (\<lambda>s. ret (session_test config s)))
            (\<lambda>e. ret (test_failure config e))))"

definition cp_unsupported :: "string \<Rightarrow> string" where
  "cp_unsupported op =
     ''Unsupported ConsultantPlus operation: '' @ op @ ''. '' @
     or_else (map_of CONSULTANT_UNSUPPORTED_OPERATIONS op) CONSULTANT_UNSUPPORTED_REASON"

definition cp_operation :: "cp_env \<Rightarrow> connector_payload \<Rightarrow> obj \<Rightarrow> (connector_result, 'b cp_world_scheme) op" where
  "cp_operation env p config =
     (let op = operation p; managed = managed_operation env p config in
      if op = ''schema.get'' then ret (result_ok cp_localSchema)
      else if op = ''system.test''
      then sbind (cp_testConnection env (Obj config)) (\<lambda>(ok, m).
        ret (if ok then result_ok (Obj [(''message'', Str m)]) else result_fail m))
      else if op = ''user.create'' then createUser env p config
      else if op = ''user.update'' then managed ''userUpdate'' defaultManagedCloudUserPayload None
      else if op = ''user.changePassword'' then managed ''userChangePassword'' defaultManagedCloudUserPayload (Some ''reset'')
      else if op = ''user.delete'' then managed ''userDelete'' defaultDeletePayload None
      else if op \<in> {''user.disable'', ''user.lock''} then managed ''userBlock'' defaultManagedCloudUserPayload None
      else ret (result_fail (cp_unsupported op)))"

definition cp_execute :: "cp_env \<Rightarrow> connector_payload \<Rightarrow> (connector_result, 'b cp_world_scheme) op" where
  "cp_execute env p =
     (let config = resolveConfig env (js_get (body p) ''config'') in
      if \<not> truthy (js_get (body p) ''config'') \<or> \<not> truthy (js_get config ''baseUrl'')
      then ret (result_fail ''Missing ConsultantPlus config (baseUrl)'')
      else sbind (lift_result (validateConfig env config)) (\<lambda>e.
        case e of Some m \<Rightarrow> ret (result_fail m) | None \<Rightarrow> cp_operation env p config))"

definition consultant_connector :: "cp_env \<Rightarrow> 'b cp_world_scheme connector" where
  "consultant_connector env =
     \<lparr>conn_name = ''consultant-plus'', conn_execute = cp_execute env, conn_testConnection = cp_testConnection env,
      conn_getCapabilities = Some cp_capabilities, conn_getSchema = Some (\<lambda>_. ret (result_ok cp_localSchema)),
      conn_sync = Some (\<lambda>_ _. ret (result_fail (''Unsupported ConsultantPlus operation: sync.full. '' @ CONSULTANT_UNSUPPORTED_REASON)))\<rparr>"

section \<open>Where requests go\<close>

definition allowed_url :: "cp_env \<Rightarrow> obj \<Rightarrow> string \<Rightarrow> bool" where
  "allowed_url env config s \<longleftrightarrow>
     (case cv_url env s Undef of
        None \<Rightarrow> False
      | Some u \<Rightarrow> cu_protocol u = ''https:'' \<and> isAllowedHost config (cu_hostname u) = Inr True)"

text \<open>
  A call of the login: the form with the credentials goes below the configured address and nowhere else. The polls
  forbid redirects.
\<close>

definition login_step :: "cp_env \<Rightarrow> obj \<Rightarrow> cp_request \<Rightarrow> bool" where
  "login_step env config q \<longleftrightarrow>
     hr_method q = ''GET'' \<and> hr_data q = Undef \<and> cq_params q = Undef \<and> allowed_url env config (hr_url q) \<or>
     (\<exists>base. js_get config ''baseUrl'' = Str base \<and> allowed_url env config base \<and> cq_params q = Undef \<and>
       (hr_method q = ''GET'' \<and> hr_data q = Undef \<and>
          (hr_url q = strip_slashes base @ ''/'' \<or>
           (\<exists>pid. hr_url q = strip_slashes base @ ''/auth/?pid='' @ encodeURIComponent pid) \<and> cq_maxRedirects q = num 0) \<or>
        hr_method q = ''POST'' \<and> hr_url q = strip_slashes base @ ''/login/'' \<and> (\<exists>csrf. hr_data q = login_form config csrf)))"

text \<open>The request of an operation on users, with an admitted content.\<close>

definition user_step :: "cp_env \<Rightarrow> obj \<Rightarrow> (obj \<Rightarrow> bool) \<Rightarrow> cp_request \<Rightarrow> bool" where
  "user_step env config admitted q \<longleftrightarrow>
     (\<exists>s url m type content tls. q = api_request env config s url m type content tls \<and> cs_authenticated s \<and>
        allowed_url env config url \<and> admitted content)"

text \<open>What has been called and followed since the logs \<open>old\<close>; only calls that do not forbid redirects are followed.\<close>

definition hops_of :: "cp_exchange list \<Rightarrow> (cp_request \<times> cp_request) list \<Rightarrow> bool" where
  "hops_of new hops \<longleftrightarrow> list_all (\<lambda>(q, h). q \<in> fst ` set new \<and> cq_maxRedirects q \<noteq> num 0) hops"

definition cp_grown ::
  "cp_env \<Rightarrow> obj \<Rightarrow> (obj \<Rightarrow> bool) \<Rightarrow> cp_exchange list \<times> (cp_request \<times> cp_request) list \<Rightarrow> 'b cp_world_scheme \<Rightarrow> bool" where
  "cp_grown env config admitted old w \<longleftrightarrow>
     (\<exists>new hops. cp_log w = fst old @ new \<and> cp_hops w = snd old @ hops \<and>
       list_all (\<lambda>e. login_step env config (fst e) \<or> user_step env config admitted (fst e)) new \<and> hops_of new hops)"

lemma cp_send_grown:
  assumes "login_step env config q \<or> user_step env config admitted q"
  shows "preserves (cp_grown env config admitted old) (cp_send env q)"
  unfolding preserves_def
proof (intro allI impI)
  fix w r w' assume "cp_grown env config admitted old w" and run: "cp_send env q w = (r, w')"
  then obtain new hops where I: "cp_log w = fst old @ new" "cp_hops w = snd old @ hops"
    "list_all (\<lambda>e. login_step env config (fst e) \<or> user_step env config admitted (fst e)) new" "hops_of new hops"
    by (auto simp: cp_grown_def)
  let ?followed = "if cq_maxRedirects q = num 0 then [] else cv_redirects env (cp_log w) q"
  have "cp_log w' = fst old @ (new @ [(q, r)])" "cp_hops w' = snd old @ (hops @ map (Pair q) ?followed)"
    using run I(1,2) by (auto simp: cp_send_def Let_def)
  moreover have "hops_of (new @ [(q, r)]) (hops @ map (Pair q) ?followed)"
    using I(4) by (auto simp: hops_of_def list_all_iff)
  moreover have "list_all (\<lambda>e. login_step env config (fst e) \<or> user_step env config admitted (fst e)) (new @ [(q, r)])"
    using I(3) assms by simp
  ultimately show "cp_grown env config admitted old w'" unfolding cp_grown_def by blast
qed

lemma allowed_absolute:
  assumes "allowedAbsoluteUrl env config path base = Inr url"
  shows "allowed_url env config url"
proof -
  from assms obtain u parsed where u: "cv_url env path base = Some u" "cv_url env (cu_text u) Undef = Some parsed"
    by (auto simp: allowedAbsoluteUrl_def split: option.splits)
  with assms show ?thesis
    by (auto simp: allowedAbsoluteUrl_def allowed_url_def ebind_Inr_iff split: if_splits)
qed

lemma api_allowed: "apiUrl env config path = Inr url \<Longrightarrow> allowed_url env config url"
  by (auto simp: apiUrl_def Let_def split: if_splits jsval.splits intro: allowed_absolute)

lemma valid_base:
  assumes "validateConfig env config = Inr None" "js_get config ''baseUrl'' = Str base"
  shows "allowed_url env config base"
  using assms
  by (auto simp: validateConfig_def validateConfiguredUrl_def allowed_url_def ebind_Inr_iff split: if_splits option.splits)

lemma site_step:
  assumes "site_url config path = Inr url" "validateConfig env config = Inr None"
  obtains base where "js_get config ''baseUrl'' = Str base" "url = strip_slashes base @ path" "allowed_url env config base"
  using assms valid_base [OF assms(2)] by (auto simp: site_url_def split: jsval.splits)

lemma login_page_grown:
  "validateConfig env config = Inr None \<Longrightarrow> preserves (cp_grown env config admitted old) (getLoginPage env config)"
  unfolding getLoginPage_def
  by (intro preserves_sbind_lift cp_send_grown) (auto elim!: site_step simp: login_step_def site_request_def)

lemma start_login_grown:
  "validateConfig env config = Inr None \<Longrightarrow> preserves (cp_grown env config admitted old) (startLogin env config csrf jar)"
  unfolding startLogin_def
  by (intro preserves_sbind_lift preserves_sbind preserves_basic cp_send_grown)
     (auto elim!: site_step simp: login_step_def site_request_def)

lemma poll_once_grown:
  "validateConfig env config = Inr None \<Longrightarrow> preserves (cp_grown env config admitted old) (poll_once env config pid jar)"
  unfolding poll_once_def
  by (intro preserves_sbind_lift preserves_sbind preserves_basic cp_send_grown)
     (auto elim!: site_step simp: login_step_def site_request_def)

lemma poll_login_grown:
  "validateConfig env config = Inr None \<Longrightarrow> preserves (cp_grown env config admitted old) (poll_login env config pid n current jar)"
proof (induction n arbitrary: current jar)
  case 0
  show ?case unfolding poll_login.simps by (rule preserves_basic)
next
  case (Suc n)
  then show ?case by (auto intro!: preserves_sbind poll_once_grown preserves_basic split: prod.split)
qed

lemma follow_grown: "preserves (cp_grown env config admitted old) (followAuthReturnUrl env config returnUrl jar)"
  unfolding followAuthReturnUrl_def
  by (intro preserves_sbind_lift preserves_sbind preserves_basic cp_send_grown)
     (auto dest: allowed_absolute simp: login_step_def site_request_def)

lemma authenticate_grown:
  assumes "validateConfig env config = Inr None"
  shows "preserves (cp_grown env config admitted old) (authenticate env config)"
  unfolding authenticate_def Let_def
proof (intro preserves_sbind preserves_option preserves_if preserves_basic login_page_grown start_login_grown assms)
  fix status :: "jsval \<times> cookie_jar" and csrf
  have "preserves (cp_grown env config admitted old) (resolveAuthStatus env config initial jar)" for initial jar
    unfolding resolveAuthStatus_def by (intro preserves_sbind preserves_if preserves_basic poll_login_grown assms)
  moreover have "preserves (cp_grown env config admitted old) (finish_login env config csrf final jar)" for csrf final jar
    unfolding finish_login_def Let_def by (intro preserves_sbind preserves_if preserves_basic follow_grown)
  ultimately show "preserves (cp_grown env config admitted old)
      (case status of (initial, jar1) \<Rightarrow>
        sbind (resolveAuthStatus env config initial jar1) (\<lambda>(final, jar2). finish_login env config csrf final jar2))"
    by (auto intro!: preserves_sbind split: prod.split)
qed

lemma api_step:
  "cs_authenticated s \<Longrightarrow> apiUrl env config path = Inr url \<Longrightarrow> admitted content \<Longrightarrow>
   user_step env config admitted (api_request env config s url m type content tls)"
  unfolding user_step_def by (blast dest: api_allowed)

lemma endpoint_grown:
  assumes "validateConfig env config = Inr None" "admitted content"
  shows "preserves (cp_grown env config admitted old) (callConfiguredEndpoint env config op path m type content)"
  unfolding callConfiguredEndpoint_def
  by (auto split: jsval.split
      intro!: preserves_basic preserves_catch preserves_sbind authenticate_grown preserves_sbind_lift cp_send_grown assms api_step)

lemma preserves_pair: "preserves I (Pair r)"
  by (simp add: preserves_def)

text \<open>The operations on users, with their settings and their bodies without a template.\<close>

definition user_operations :: "(string \<times> string \<times> (obj \<Rightarrow> obj)) set" where
  "user_operations =
     {(''user.create'', ''userCreate'', removeUndefined), (''user.update'', ''userUpdate'', defaultManagedCloudUserPayload),
      (''user.changePassword'', ''userChangePassword'', defaultManagedCloudUserPayload),
      (''user.delete'', ''userDelete'', defaultDeletePayload), (''user.disable'', ''userBlock'', defaultManagedCloudUserPayload),
      (''user.lock'', ''userBlock'', defaultManagedCloudUserPayload)}"

definition contents_admitted :: "cp_env \<Rightarrow> connector_payload \<Rightarrow> obj \<Rightarrow> (obj \<Rightarrow> bool) \<Rightarrow> bool" where
  "contents_admitted env p config admitted \<longleftrightarrow>
     (\<forall>(op, kind, fallback) \<in> user_operations. operation p = op \<longrightarrow>
        (let vals = event_values env p config; clean = withoutPasswordValues vals in
         validateManagedUserOperation op vals config (event_payloads p) = None \<longrightarrow>
         admitted (renderPayloadTemplate env (js_get config (kind @ ''Payload'')) clean (fallback clean))))"

lemma managed_grown:
  assumes "validateConfig env config = Inr None" "contents_admitted env p config admitted"
    and "(operation p, kind, fallback) \<in> user_operations"
  shows "preserves (cp_grown env config admitted old) (managed_operation env p config kind fallback action)"
proof -
  have "admitted (renderPayloadTemplate env (js_get config (kind @ ''Payload'')) (withoutPasswordValues (event_values env p config))
      (fallback (withoutPasswordValues (event_values env p config))))"
    if "validateManagedUserOperation (operation p) (event_values env p config) config (event_payloads p) = None"
    using assms(2,3) that unfolding contents_admitted_def Let_def by fastforce
  then show ?thesis
    unfolding managed_operation_def callConfiguredUserEndpoint_def Let_def
    by (auto split: option.split sum.split intro!: preserves_basic preserves_pair preserves_sbind endpoint_grown assms(1))
qed

lemma distinct_spread: "distinct (map fst a) \<Longrightarrow> distinct (map fst (spread a b))"
  by (induction b arbitrary: a) (auto simp: distinct_js_set simp del: set_map)

lemma js_set_new: "k \<notin> fst ` set a \<Longrightarrow> js_set k v a = a @ [(k, v)]"
  by (induction a) auto

lemma spread_append: "distinct (map fst (a @ b)) \<Longrightarrow> spread a b = a @ b"
proof (induction b arbitrary: a)
  case Nil
  then show ?case by simp
next
  case (Cons e b)
  obtain k v where e: "e = (k, v)" by (cases e)
  from Cons.prems have "distinct (map fst ((a @ [(k, v)]) @ b))" by (auto simp: e)
  from Cons.IH [OF this] Cons.prems show ?case by (simp add: e js_set_new)
qed

lemma js_set_same: "has_key a k \<Longrightarrow> js_set k (js_get a k) a = a"
  by (induction a) (force simp: has_key_def js_get_def)+

lemma resolve_twice: "resolveConfig env (Obj (resolveConfig env config)) = resolveConfig env config"
proof -
  let ?c = "resolveConfig env config"
  have keys: "has_key ?c ''login''" "has_key ?c ''password''"
    by (simp_all add: resolveConfig_def Let_def has_key_js_set)
  have stable: "coalesce (js_get ?c ''login'') (cp_envValue env (js_get ?c ''loginEnv'')) = js_get ?c ''login''"
     "coalesce (js_get ?c ''password'') (cp_envValue env (js_get ?c ''passwordEnv'')) = js_get ?c ''password''"
    by (simp_all add: resolveConfig_def Let_def js_get_js_set coalesce_def cp_envValue_def split: option.split list.split)
  have "spread [] (spread_entries (Obj ?c)) = ?c"
    unfolding spread_entries_def jsval.case
    by (rule trans [OF spread_append]) (auto simp: resolveConfig_def Let_def intro!: distinct_spread distinct_js_set)
  then show ?thesis
    unfolding resolveConfig_def [of env "Obj ?c"] Let_def by (simp add: stable js_set_same keys)
qed

lemma test_grown: "preserves (cp_grown env config admitted old) (cp_testConnection env (Obj config))"
  if "config = resolveConfig env cfg"
  unfolding cp_testConnection_def Let_def that resolve_twice
  by (auto split: option.split intro!: preserves_if preserves_basic preserves_sbind_lift preserves_catch preserves_sbind authenticate_grown)

lemma operation_grown:
  assumes "validateConfig env config = Inr None" "contents_admitted env p config admitted" "config = resolveConfig env cfg"
  shows "preserves (cp_grown env config admitted old) (cp_operation env p config)"
proof -
  have managed: "(operation p, kind, fallback) \<in> user_operations \<Longrightarrow>
      preserves (cp_grown env config admitted old) (managed_operation env p config kind fallback action)" for kind fallback action
    by (rule managed_grown [OF assms(1,2)])
  have test: "preserves (cp_grown env config admitted old)
      (sbind (cp_testConnection env (Obj config)) (\<lambda>(ok, m). ret (if ok then result_ok (Obj [(''message'', Str m)]) else result_fail m)))"
    by (intro preserves_sbind test_grown [OF assms(3)]) (auto intro!: preserves_basic split: prod.split)
  show ?thesis
    unfolding cp_operation_def createUser_def Let_def
    by (auto intro!: preserves_basic test managed simp: user_operations_def)
qed

lemma consultant_grown:
  assumes "config = resolveConfig env (js_get (body p) ''config'')" "contents_admitted env p config admitted"
  shows "\<exists>new hops. cp_log (snd (cp_execute env p w)) = cp_log w @ new \<and> cp_hops (snd (cp_execute env p w)) = cp_hops w @ hops \<and>
     list_all (\<lambda>e. login_step env config (fst e) \<or> user_step env config admitted (fst e)) new \<and> hops_of new hops"
proof -
  have "preserves (cp_grown env config admitted (cp_log w, cp_hops w)) (cp_execute env p)"
    unfolding cp_execute_def Let_def assms(1) [symmetric]
    by (auto split: option.split intro!: preserves_if preserves_basic preserves_sbind_lift operation_grown assms)
  moreover have "cp_grown env config admitted (cp_log w, cp_hops w) w"
    unfolding cp_grown_def by (intro exI [of _ "[]"]) (simp add: hops_of_def)
  ultimately have "cp_grown env config admitted (cp_log w, cp_hops w) (snd (cp_execute env p w))" by (rule preserves_snd)
  then show ?thesis by (simp add: cp_grown_def)
qed

text \<open>
  C31: the calls that the connector makes for an event go to allowed hosts. Each is either a step of the login below
  the configured address, or goes to a URL that the connector itself has parsed and found to be HTTPS on an allowed
  host, also where the login names a URL to return to, or a configured path another host. The form with the operator's
  password is sent to the login page of the configured address only, and no operation on users without a login that
  succeeded. Redirects are followed by the HTTP client without these checks, but for the polls of the login, which
  forbid them: what it requests beyond the calls belongs to a call that does not forbid redirects.
\<close>

theorem consultant_calls_go_to_allowed_hosts:
  "\<exists>new hops. cp_log (snd (cp_execute env p w)) = cp_log w @ new \<and> cp_hops (snd (cp_execute env p w)) = cp_hops w @ hops \<and>
     (let config = resolveConfig env (js_get (body p) ''config'') in
      list_all (\<lambda>e. login_step env config (fst e) \<or> user_step env config (\<lambda>_. True) (fst e)) new \<and>
      list_all (\<lambda>(q, h). q \<in> fst ` set new \<and> cq_maxRedirects q \<noteq> num 0) hops)"
  using consultant_grown [of _ env p "\<lambda>_. True" w]
  by (simp add: contents_admitted_def hops_of_def Let_def case_prod_beta)

section \<open>The operator's own account\<close>

definition names_operator :: "string \<Rightarrow> string \<Rightarrow> bool" where
  "names_operator prot s \<longleftrightarrow>
     s = prot \<or> starts_with (prot @ ''@'') s \<or> starts_with (rev (''#'' @ prot)) (rev s)"

text \<open>The fields of a content that say which account is meant; a delete has one of its own.\<close>

definition target_fields :: "string \<Rightarrow> string list" where
  "target_fields op = (if op = ''user.delete'' then [''logins''] else login_fields)"

text \<open>No such field names the operator, and no field holds a password.\<close>

definition spares_operator :: "string list \<Rightarrow> string \<Rightarrow> obj \<Rightarrow> bool" where
  "spares_operator ks prot content \<longleftrightarrow>
     list_all (\<lambda>(k, v). \<not> PASSWORD_FIELD k \<and>
       (case v of Str s \<Rightarrow> k \<in> set ks \<longrightarrow> \<not> names_operator prot s | _ \<Rightarrow> True)) content"

lemma split_on_last: "c \<notin> set p \<Longrightarrow> split_on c (x @ c # p) = split_on c x @ [p]"
  by (induction x) (auto simp: split_on_no_sep split: list.split)

lemma local_part: "CHR ''@'' \<notin> set p \<Longrightarrow> emailLocalPart (Some (p @ CHR ''@'' # x)) = Some p"
  by (induction p) (auto simp: emailLocalPart_def)

lemma candidate_at:
  assumes "prot \<noteq> []" "CHR ''@'' \<notin> set prot"
  shows "prot \<in> set (candidates_of (prot @ CHR ''@'' # x))"
proof -
  from assms(1) obtain c r where p: "prot = c # r" by (meson neq_Nil_conv)
  have "\<exists>b. candidates_of (prot @ CHR ''@'' # x) = (prot @ CHR ''@'' # x) # prot # b"
    using local_part [OF assms(2), of x] by (simp add: candidates_of_def p)
  then show ?thesis by auto
qed

lemma candidate_hash:
  assumes "prot \<noteq> []" "CHR ''#'' \<notin> set prot"
  shows "prot \<in> set (candidates_of (x @ CHR ''#'' # prot))"
proof -
  have "\<exists>a. candidates_of (x @ CHR ''#'' # prot) = a @ [prot]"
    using assms by (simp add: candidates_of_def split_on_last split: list.split) (metis last_ConsR last_snoc)
  then show ?thesis by auto
qed

lemma candidate_itself: "prot \<in> set (candidates_of prot)"
  unfolding candidates_of_def by (rule list.set_intros(1))

lemma candidate_operator:
  assumes "names_operator prot s" "prot \<noteq> []" "CHR ''@'' \<notin> set prot" "CHR ''#'' \<notin> set prot"
  shows "prot \<in> set (candidates_of s)"
proof -
  from assms(1) obtain x where "s = prot \<or> s = prot @ CHR ''@'' # x \<or> s = x @ CHR ''#'' # prot"
    by (auto simp: names_operator_def starts_with_split rev_eq_append_conv)
  with assms(2-4) show ?thesis by (metis candidate_at candidate_hash candidate_itself)
qed

lemma untouched_field:
  assumes "\<not> touchesProtectedOperator vals config" "protectedOperatorLogin config = Str prot"
    and "prot \<noteq> []" "CHR ''@'' \<notin> set prot" "CHR ''#'' \<notin> set prot"
    and "js_get vals k = Str s" "k \<in> set login_fields"
  shows "\<not> names_operator prot s"
proof
  assume named: "names_operator prot s"
  then have "s \<noteq> []" using assms(3) by (auto simp: names_operator_def starts_with_def)
  then have "stringValue (js_get vals k) = Some s" using assms(6) by (cases s) (simp_all add: stringValue_def)
  with candidate_operator [OF named assms(3-5)] assms(7) have "prot \<in> set (protectedTargetCandidates vals)"
    unfolding protectedTargetCandidates_def by force
  with assms(1,2) show False by (auto simp: touchesProtectedOperator_def list_ex_iff)
qed

lemma field_of: "js_get kvs k = v \<Longrightarrow> v \<noteq> Undef \<Longrightarrow> (k, v) \<in> set kvs"
  by (auto simp: js_get_def split: option.splits dest: map_of_SomeD)

lemma distinct_event_values: "distinct (map fst (event_values env p config))"
  unfolding event_values_def userValues_def Let_def by (intro distinct_spread) simp

lemma js_set_entries: "e \<in> set (js_set k v kvs) \<Longrightarrow> e = (k, v) \<or> e \<in> set kvs"
  by (induction kvs) (auto split: if_splits)

lemma managed_entries:
  assumes "(k, v) \<in> set (defaultManagedCloudUserPayload clean)"
  shows "(k, v) = (''login'', js_get clean ''managedLogin'') \<or> (k, v) = (''login'', js_get clean ''pureLogin'') \<or>
    (k, v) = (''email'', js_get clean ''email'') \<or> k = ''fio''"
proof -
  from assms have "(k, v) \<in> set (js_set ''login'' (js_get clean ''managedLogin'') (defaultCloudUserPayload clean))"
    by (simp add: defaultManagedCloudUserPayload_def removeUndefined_def)
  from js_set_entries [OF this] show ?thesis
    by (auto simp: defaultCloudUserPayload_def removeUndefined_def split: if_splits)
qed

lemma contents_spare_operator:
  assumes op: "protectedOperatorLogin config = Str prot" "prot \<noteq> []" "CHR ''@'' \<notin> set prot" "CHR ''#'' \<notin> set prot"
    and templates: "list_all (\<lambda>k. \<not> truthy (js_get config (k @ ''Payload'')))
      [''userCreate'', ''userUpdate'', ''userChangePassword'', ''userDelete'', ''userBlock'']"
  shows "contents_admitted env p config (spares_operator (target_fields (operation p)) prot)"
proof -
  define vals where "vals = event_values env p config"
  define clean where "clean = withoutPasswordValues vals"
  have clean: "\<not> PASSWORD_FIELD k \<and> js_get vals k = v" if "(k, v) \<in> set clean" for k v
    using that distinct_event_values [of env p config]
    by (auto simp: clean_def withoutPasswordValues_def vals_def js_get_def map_of_eq_Some_iff dest: eq_key_imp_eq_value split: option.split)
  have got: "js_get clean k = Str s \<Longrightarrow> js_get vals k = Str s" for k s
    using clean field_of [of clean k "Str s"] by blast
  have names: "\<not> PASSWORD_FIELD ''login''" "\<not> PASSWORD_FIELD ''email''" "\<not> PASSWORD_FIELD ''fio''" "\<not> PASSWORD_FIELD ''logins''"
    by code_simp+
  have "spares_operator (target_fields (operation p)) prot
      (renderPayloadTemplate env (js_get config (kind @ ''Payload'')) clean (fallback clean))"
    if member: "(operation p, kind, fallback) \<in> user_operations" and untouched: "\<not> touchesProtectedOperator vals config" for kind fallback
  proof -
    note safe = untouched_field [OF untouched op]
    have spared: "case js_get clean k of Str s \<Rightarrow> \<not> names_operator prot s | _ \<Rightarrow> True" if "k \<in> set login_fields" for k
      using safe [OF got that] by (auto split: jsval.split)
    have weak: "(case v of Str s \<Rightarrow> A \<longrightarrow> \<not> names_operator prot s | _ \<Rightarrow> True)"
      if "case v of Str s \<Rightarrow> \<not> names_operator prot s | _ \<Rightarrow> True" for v A
      using that by (cases v) simp_all
    have "list_all (\<lambda>k. k \<in> set login_fields) [''managedLogin'', ''pureLogin'', ''email'']"
      by (simp add: login_fields_def)
    then have three: "case js_get clean ''managedLogin'' of Str s \<Rightarrow> \<not> names_operator prot s | _ \<Rightarrow> True"
      "case js_get clean ''pureLogin'' of Str s \<Rightarrow> \<not> names_operator prot s | _ \<Rightarrow> True"
      "case js_get clean ''email'' of Str s \<Rightarrow> \<not> names_operator prot s | _ \<Rightarrow> True"
      by (simp_all only: list.pred_inject spared)
    have free: "\<not> truthy (js_get config (kind @ ''Payload''))"
      using templates member by (auto simp: user_operations_def)
    consider "fallback = removeUndefined" "operation p \<noteq> ''user.delete''"
      | "fallback = defaultManagedCloudUserPayload" "operation p \<noteq> ''user.delete''"
      | "fallback = defaultDeletePayload" "operation p = ''user.delete''"
      using member unfolding user_operations_def insert_iff empty_iff prod.inject by (elim disjE conjE) simp_all
    then show ?thesis
    proof cases
      case 1
      then show ?thesis using free clean safe
        by (auto simp: spares_operator_def list_all_iff renderPayloadTemplate_def removeUndefined_def target_fields_def split: jsval.split)
    next
      case 2
      have "\<not> PASSWORD_FIELD k \<and> (case v of Str s \<Rightarrow> k \<in> set login_fields \<longrightarrow> \<not> names_operator prot s | _ \<Rightarrow> True)"
        if "(k, v) \<in> set (defaultManagedCloudUserPayload clean)" for k v
      proof -
        have "''fio'' \<notin> set login_fields" by (simp add: login_fields_def)
        then show ?thesis
          using managed_entries [OF that] names three by (elim disjE) (simp_all add: weak split: jsval.split)
      qed
      with 2 free show ?thesis
        by (auto simp: spares_operator_def list_all_iff renderPayloadTemplate_def removeUndefined_def target_fields_def)
    next
      case 3
      then show ?thesis using free names three(1)
        by (simp add: spares_operator_def renderPayloadTemplate_def removeUndefined_def target_fields_def defaultDeletePayload_def
            split: jsval.splits)
    qed
  qed
  then show ?thesis
    unfolding contents_admitted_def Let_def vals_def clean_def validateManagedUserOperation_def by (auto split: if_splits)
qed


definition demo_cp_config :: obj where
  "demo_cp_config = [(''baseUrl'', Str ''https://login.consultant.ru''), (''login'', Str ''1393020''), (''password'', Str ''pw''),
     (''userDeletePath'', Str ''delete'')]"

definition demo_cp_delete :: connector_payload where
  "demo_cp_delete = \<lparr>operation = ''user.delete'', targetSystem = ''consultant'',
     body = [(''config'', Obj demo_cp_config), (''data'', Obj [(''managedLogin'', Str ''1393020#anna'')])]\<rparr>"

definition demo_cp_server :: "cp_exchange list \<Rightarrow> cp_request \<Rightarrow> cp_response result" where
  "demo_cp_server sent q = Inr \<lparr>cr_status = 200, cr_headers = [], cr_data =
     (if sent = [] then Str (''name='' @ dq @ ''client_csrf'' @ dq @ '' value='' @ dq @ ''t'' @ dq)
      else if length sent = 1 then Obj [(''authStatus'', Str ''successful'')] else Str ''ok'')\<rparr>"

definition demo_cp_env :: cp_env where
  "demo_cp_env = \<lparr>cv_answer = demo_cp_server, cv_redirects = (\<lambda>_ _. []), cv_tls = None,
     cv_url = (\<lambda>s _. Some \<lparr>cu_text = s, cu_protocol = ''https:'', cu_hostname = ''login.consultant.ru''\<rparr>),
     cv_process = (\<lambda>_. None), cv_platform = demo_platform, cv_random = ''r'', cv_watched = 1\<rparr>"

definition demo_cp_world :: "unit cp_world_scheme" where
  "demo_cp_world = \<lparr>cp_log = [], cp_hops = []\<rparr>"


text \<open>The comparison is exact: the operator's login with a blank, or as a number, is not recognised.\<close>

theorem operator_with_blank_is_not_recognised:
  "validateManagedUserOperation ''user.disable'' [(''managedLogin'', Str ''1393020'')] [] [] \<noteq> None \<and>
   validateManagedUserOperation ''user.disable'' [(''managedLogin'', Str ''1393020 '')] [] [] = None"
  by code_simp

text \<open>A delete by an id alone is accepted, but its default content names no account.\<close>

theorem delete_by_id_names_nobody:
  "validateManagedUserOperation ''user.delete'' [(''id'', Str ''42'')] [] [] = None"
  "defaultDeletePayload [(''id'', v)] = []"
  by (code_simp, simp add: defaultDeletePayload_def removeUndefined_def js_get_def)

text \<open>
  The account that the connector logs in with is protected only if it is the protected login: with another login, a
  user operation may name the very account of the connector.
\<close>

theorem own_login_is_not_protected:
  "validateManagedUserOperation ''user.disable'' [(''managedLogin'', Str ''777'')]
     [(''baseUrl'', Str ''https://login.consultant.ru''), (''login'', Str ''777'')] [] = None"
  by code_simp

text \<open>
  A redirect that keeps the method makes the HTTP client send the form with the password again, to whatever host the
  answer names: the login page does not forbid redirects.
\<close>

definition demo_cp_redirecting :: cp_env where
  "demo_cp_redirecting = demo_cp_env\<lparr>cv_redirects :=
     (\<lambda>sent q. if hr_method q = ''POST'' \<and> length sent = 1 then [q\<lparr>hr_url := ''https://elsewhere.org/''\<rparr>] else [])\<rparr>"

theorem redirected_form_leaves_the_hosts:
  "map (\<lambda>(q, h). (hr_url q, hr_url h, hr_data h)) (cp_hops (snd (cp_execute demo_cp_redirecting demo_cp_delete demo_cp_world))) =
     [(''https://login.consultant.ru/login/'', ''https://elsewhere.org/'', login_form demo_cp_config ''t'')]"
  by code_simp

end
