(* ===== verification/Spec2Isabelle.thy ===== *)
theory Spec2Isabelle
  imports DlqAdmin RbacApi DiagnosticsApi IntegrationAuth KeyRotation LinuxConnector LinuxFleetApi PostgresRoles
    MssqlLogins RestConnector FakeConnector DbConnector ZabbixConnector PassworkConnector SecretResolver IdmApi
    AuditLog AppConfig CmdbuildConnector ConsultantConnector
begin

text \<open>
  A verification development for the identity-management middleware in \<open>src/src\<close>: a NestJS
  service between an identity-management system (IDM) and the systems that hold its accounts.

  The program. The IDM posts events to \<open>inbound/webhooks\<close>. \<open>WebhookService\<close> takes a lock per
  event in the idempotency store, so that a redelivery is ignored, and \<open>DispatcherService\<close>
  either queues the event in Kafka, whose consumer processes it later, or hands it to
  \<open>ProcessingService\<close> at once. That looks the target system up in \<open>ConnectorRegistry\<close>, runs its
  connector with \<open>RetryService\<close>, and puts an event that failed to the end into the dead-letter
  queue of \<open>DlqService\<close>. Operators work on the queue, the target systems, the access rights and
  the logs through the admin interface of \<open>admin\<close>, behind the sessions of \<open>auth\<close> and the rights
  of \<open>admin-rbac.service.ts\<close>. Configurations are stored encrypted (\<open>security\<close>) and shown with
  masked secrets.

  How it is modelled. A class is a record of its state and one definition per method; a method
  that may throw and that changes the world is a function of type \<open>('a, 'w) op\<close>, which returns an
  exception or a value, and the new world (\<open>Prelude\<close>). Worlds extend one another as records, so
  that an operation on the dead-letter table runs in the world of the pipeline as it is. What an
  asynchronous call meets (the clock, fresh ids, random numbers, failures of the database, of
  Kafka and of the network) is an argument, so that every failure at every call is covered by
  the statements. JSON values are the datatype \<open>jsval\<close>. Names are those of the source; where
  two classes share a name, the component is a prefix (\<open>ts_update\<close>, \<open>api_update\<close>, \<open>dlq_retry\<close>).

  The theories, in the order of the code.

  \<^item> \<open>Prelude\<close>, \<open>JsNumber\<close>, \<open>Base64\<close>: values, strings, numbers, exceptions, effects, and the
    collections \<open>obj_simps\<close>, \<open>exn_simps\<close>, \<open>op_simps\<close> and \<open>preserve_intros\<close> that carry the proofs.
  \<^item> \<open>SecretRedaction\<close> (\<open>security/secret-redaction.ts\<close>): which keys hold secrets, masking, merging a
    masked edit; the locale \<open>redactor\<close> states what every masking function promises.
  \<^item> \<open>IpUtils\<close> (\<open>security/ip-utils.ts\<close>): allowlists; the CIDR test on \<open>32 word\<close> values.
  \<^item> \<open>Encryption\<close> (\<open>security/encryption.service.ts\<close>, \<open>database/json.helper.ts\<close>): key ring,
    envelopes, stored values, Kafka messages, idempotency keys. AES-GCM, HMAC and the JSON text
    are the fields of \<open>platform\<close>, and theorems name the laws they use.
  \<^item> \<open>KeyRotation\<close> (\<open>security/encryption-rotation.service.ts\<close>, \<open>database/prisma.service.ts\<close>): the
    job that seals the rows of three tables under a new key, which may break off and be run again,
    and the check of the keys at startup. \<open>sees\<close> is what a reader of these tables decrypts,
    \<open>sees_hosts\<close> that of the metadata of Linux hosts, which the job leaves under their old key. The
    properties are about runs during which nobody else writes; what happens otherwise is a theorem too.
  \<^item> \<open>Connector\<close>, \<open>Registry\<close> (\<open>connectors/connector.*.ts\<close>): the connector contract, the proxies
    that inject stored configurations, reload and polling.
  \<^item> \<open>Retry\<close> (\<open>core/retry\<close>): the retry loop with its backoff, and the policy per target system.
    The loop is a recursion on the attempts that are left, so it ends; the waits are bounded.
  \<^item> \<open>Metrics\<close> (\<open>metrics/metrics.service.ts\<close>) and \<open>Dlq\<close> (\<open>core/dlq/dlq.service.ts\<close>): the
    five-minute window; the dead-letter table with its leases as a step relation \<open>dlq_steps\<close> of
    commands by any number of workers, with its invariant, exclusion and liveness.
  \<^item> \<open>Idempotency\<close> (\<open>core/idempotency\<close>): both stores and the expiry of keys. A transaction of
    PostgreSQL is its statements, which those of others may interleave; the locale of the stores is
    interpreted on each of them, for calls that run alone.
  \<^item> \<open>Processing\<close> (\<open>core/processing.service.ts\<close>) and \<open>Webhook\<close> (\<open>inbound/webhooks\<close>,
    \<open>outbound\<close>, \<open>kafka\<close>): the pipeline. Lemmas \<open>core_*\<close> say what each stage leaves alone.
  \<^item> \<open>Auth\<close> (\<open>auth\<close>), \<open>IntegrationAuth\<close> (\<open>security/integration-auth.*.ts\<close>): sessions, cookies,
    CSRF tokens, logins; signed requests. A session is what a signed cookie decodes to, whatever it is.
  \<^item> \<open>GroupMapping\<close>, \<open>TargetSystem\<close>, \<open>TargetApi\<close> (\<open>connectors/group-mapping.util.ts\<close>,
    \<open>admin/target-system.*.ts\<close>): target systems, their validation and masking, the rights their
    interface asks for, and the reload after a change.
  \<^item> \<open>Rbac\<close>, \<open>RbacApi\<close> (\<open>admin/admin-rbac.service.ts\<close>, \<open>admin/rbac.controller.ts\<close>): roles and
    group mappings. \<open>grants\<close> is the reference: who holds which right.
  \<^item> \<open>DlqAdmin\<close> (\<open>admin/admin.service.ts\<close>, \<open>admin/admin.controller.ts\<close>): the view of the queue,
    retries one by one and in bulk, skips, statistics.
  \<^item> \<open>LogBuffer\<close>, \<open>Diagnostics\<close>, \<open>DiagnosticsApi\<close> (\<open>diagnostics\<close>,
    \<open>admin/runtime-diagnostics.controller.ts\<close>): the ring of log events, which refines a log that
    never forgets (\<open>buffers\<close>); debug sessions; the diagnostic logger; their rights.

  \<^item> \<open>ErrorMasking\<close> (\<open>connectors/connector-error.util.ts\<close>): the error texts of connectors, from which
    secrets are cut out; the three regular expressions are matchers on texts.
  \<^item> \<open>LinuxFleet\<close>, \<open>LinuxFleetApi\<close> (\<open>admin/linux-fleet.*.ts\<close>): the inventory of Linux hosts, credential
    profiles and server groups, and the rights its interface asks for; the locales \<open>keyed_table\<close> and
    \<open>owned_table\<close> are interpreted on its three tables.
  \<^item> \<open>TlsOptions\<close> (\<open>security/tls-options.factory.ts\<close>): TLS options of connections.
  \<^item> \<open>LinuxCommands\<close>, \<open>LinuxConnector\<close> (\<open>linux-connector/linux-connector.service.ts\<close>): the Linux
    connector. \<open>sh\<close> is the part of the POSIX shell grammar that its commands use, \<open>linux_command\<close> what
    each of them is meant to say; the world logs what was sent to servers and agents, whose answers
    are functions of everything sent before.
  \<^item> \<open>ConnectorKit\<close>: what the services of the target systems repeat.
  \<^item> \<open>SqlText\<close>, \<open>PostgresRoles\<close>, \<open>MssqlLogins\<close> (\<open>postgres-role-connector.service.ts\<close>,
    \<open>mssql-login-connector.service.ts\<close>): accounts of databases. \<open>sql_lex\<close> is what a server reads in a
    statement; the locale \<open>sql_dialect\<close> states what quoting promises and is interpreted on both dialects;
    \<open>committed\<close> says which statements of a log take effect.

  \<^item> \<open>HttpKit\<close>, \<open>RestConnector\<close>, \<open>ZabbixConnector\<close>, \<open>PassworkConnector\<close>, \<open>FakeConnector\<close>,
    \<open>DbConnector\<close> (the services of the same names under \<open>connectors/implementations\<close>): connectors over
    HTTP and over an SQL client. Their worlds log every request and statement, and what is shown of a
    connector is a property of everything it adds to the log: that requests stay with the admitted
    host and path, are authorised, and that clients are destroyed. A request is a call of the HTTP
    client by the connector; what the client does by itself, such as following a redirect, is in the
    model of \<open>ConsultantConnector\<close> only.
  \<^item> \<open>CmdbuildConnector\<close> (\<open>cmdbuild-connector.service.ts\<close>): the connector keeps one session per address
    path, user and password in its world, and renews one that the server refuses. Requests are shown to be authorised
    after any sequence of events and tests; \<open>runs\<close> follows one event through its requests.
  \<^item> \<open>ConsultantConnector\<close> (\<open>consultant-plus-connector.service.ts\<close>): the login of the operator with its
    form, cookies and polls, and the requests for users that a configuration describes by templates.
    What is shown is where its calls go and whom they never name. The requests by which the HTTP client
    follows redirects are logged beside the calls.
  \<^item> \<open>SecretResolver\<close> (\<open>secrets\<close>): references to secrets in the environment, resolved at startup by
    requests to a PAM server.
  \<^item> \<open>AppConfig\<close> (\<open>config/app.config.ts\<close>): the schema of the environment with its cross checks.
  \<^item> \<open>IdmApi\<close> (\<open>inbound/idm\<close>): the interface by which the IDM reads catalogues, users and groups.
  \<^item> \<open>AuditLog\<close> (\<open>core/audit\<close>): the interceptor that writes a row for every webhook request.

  What the properties show, each under the hypotheses that its text names. While the database works no
  event is lost, and a delivery that follows an accepted one is not executed again while the lock lives;
  a lease is exclusive and never blocks an item for ever; settings, secrets and sessions come
  back as they were stored; requests change and see only what the rights of their session
  allow; tables keep their invariants under all requests and failures. Several properties state
  behaviour of the code that its authors may not intend, such as an event that is acknowledged
  without being stored anywhere; they are the ones whose text says what goes wrong.

  Bounds and fuel. Retries and polls recurse on the attempts left, and all other loops on lists, so
  nothing runs out of fuel, with one exception: a configured poll limit that is infinite ends only when
  the server ends the login, and the model watches the first \<open>cv_watched\<close> polls, for any number. Delays and times are natural numbers or integers of milliseconds;
  JavaScript numbers are exact rationals with the three special values, and rounding to doubles
  is not modelled. Strings are lists of characters up to code 255.

  Not modelled. Network and file I/O (the SSH and HTTP clients, health checks), the flows of
  the OIDC and SAML libraries, the options of the logging library, the module wiring, the mock of
  the IDM, the web interfaces and the scripts have no model: what the modelled code takes from
  them is an argument of its definitions.
\<close>

end
